(* ===== verification/Cyclops_Prelude.thy ===== *)
theory Cyclops_Prelude
  imports Main "HOL-Library.AList" "HOL-Library.Word" "HOL-Library.Char_ord"
    "HOL-Library.List_Lexorder" "HOL-Library.Product_Lexorder"
begin

text \<open>
  What the component theories share: Rust's \<open>Result\<close> and \<open>?\<close> as a sum with \<open>rbind\<close>,
  \<open>HashMap\<close>, \<open>HashSet\<close> and \<open>BTreeMap\<close> as association lists and lists (the order of a
  \<open>HashMap\<close>'s list stands for the unspecified iteration order), the machine
  integers that the daemon adds with \<open>checked_add\<close> or \<open>saturating_add\<close>, and the
  string operations of the standard library that the source calls.
  The collection \<open>result_simps\<close> opens a successful or failing \<open>rbind\<close> chain.
\<close>

named_theorems result_simps
named_theorems map_simps

section \<open>Results\<close>

type_synonym ('e, 'a) result = "'e + 'a"

text \<open>The \<open>?\<close> operator: stop at the first error.\<close>

definition rbind :: "('e, 'a) result \<Rightarrow> ('a \<Rightarrow> ('e, 'b) result) \<Rightarrow> ('e, 'b) result" where
  "rbind m f = (case m of Inl e \<Rightarrow> Inl e | Inr x \<Rightarrow> f x)"

text \<open>An early return: \<open>if cond { return Err(e); }\<close>, then the rest.\<close>

definition refuse_if :: "bool \<Rightarrow> 'e \<Rightarrow> ('e, unit) result" where
  "refuse_if c e = (if c then Inl e else Inr ())"

text \<open>\<open>Option::ok_or\<close>.\<close>

definition ok_or :: "'a option \<Rightarrow> 'e \<Rightarrow> ('e, 'a) result" where
  "ok_or x e = (case x of None \<Rightarrow> Inl e | Some y \<Rightarrow> Inr y)"

text \<open>\<open>Option::is_some_and\<close> and \<open>Option::is_none_or\<close>.\<close>

definition is_some_and :: "'a option \<Rightarrow> ('a \<Rightarrow> bool) \<Rightarrow> bool" where
  "is_some_and v P = (case v of None \<Rightarrow> False | Some x \<Rightarrow> P x)"

definition is_none_or :: "'a option \<Rightarrow> ('a \<Rightarrow> bool) \<Rightarrow> bool" where
  "is_none_or v P = (case v of None \<Rightarrow> True | Some x \<Rightarrow> P x)"

lemma rbind_simps [simp, result_simps]:
  "rbind (Inl e) f = Inl e" "rbind (Inr x) f = f x"
  by (simp_all add: rbind_def)

lemma rbind_Inr_iff [result_simps]:
  "rbind m f = Inr y \<longleftrightarrow> (\<exists>x. m = Inr x \<and> f x = Inr y)"
  by (cases m) auto

lemma rbind_Inl_iff [result_simps]:
  "rbind m f = Inl e \<longleftrightarrow> m = Inl e \<or> (\<exists>x. m = Inr x \<and> f x = Inl e)"
  by (cases m) auto

lemma refuse_if_Inr_iff [result_simps]: "refuse_if c e = Inr u \<longleftrightarrow> \<not> c"
  by (simp add: refuse_if_def)

lemma refuse_if_Inl_iff [result_simps]: "refuse_if c e = Inl e' \<longleftrightarrow> c \<and> e' = e"
  by (auto simp: refuse_if_def)

lemma refuse_if_simps [simp]: "refuse_if True e = Inl e" "refuse_if False e = Inr ()"
  by (simp_all add: refuse_if_def)

lemma ok_or_Inr_iff [result_simps]: "ok_or v e = Inr x \<longleftrightarrow> v = Some x"
  by (cases v) (auto simp: ok_or_def)

lemma ok_or_Inl_iff [result_simps]: "ok_or v e = Inl e' \<longleftrightarrow> v = None \<and> e' = e"
  by (cases v) (auto simp: ok_or_def)

lemma ok_or_simps [simp]: "ok_or (Some x) e = Inr x" "ok_or None e = Inl e"
  by (simp_all add: ok_or_def)

text \<open>An early return written as a conditional.\<close>

lemma if_Inl_eq_Inr_iff [result_simps]: "(if c then Inl e else k) = Inr y \<longleftrightarrow> \<not> c \<and> k = Inr y"
  by simp

lemma if_Inr_eq_Inr_iff [result_simps]: "(if c then k else Inl e) = Inr y \<longleftrightarrow> c \<and> k = Inr y"
  by simp

lemma is_some_and_simps [simp]: "is_some_and (Some x) P = P x" "is_some_and None P = False"
  by (simp_all add: is_some_and_def)

lemma is_some_and_iff: "is_some_and v P \<longleftrightarrow> (\<exists>x. v = Some x \<and> P x)"
  by (cases v) auto

lemma is_none_or_simps [simp]: "is_none_or (Some x) P = P x" "is_none_or None P = True"
  by (simp_all add: is_none_or_def)

lemma is_none_or_iff: "is_none_or v P \<longleftrightarrow> (\<forall>x. v = Some x \<longrightarrow> P x)"
  by (cases v) auto

text \<open>\<open>iter.map(f).collect::<Result<Vec<_>, _>>()\<close>: the first failure wins.\<close>

fun try_map :: "('a \<Rightarrow> ('e, 'b) result) \<Rightarrow> 'a list \<Rightarrow> ('e, 'b list) result" where
  "try_map f [] = Inr []"
| "try_map f (x # xs) = rbind (f x) (\<lambda>y. rbind (try_map f xs) (\<lambda>ys. Inr (y # ys)))"

text \<open>A loop whose body may refuse.\<close>

fun try_each :: "('a \<Rightarrow> ('e, unit) result) \<Rightarrow> 'a list \<Rightarrow> ('e, unit) result" where
  "try_each f [] = Inr ()"
| "try_each f (x # xs) = rbind (f x) (\<lambda>_. try_each f xs)"

lemma try_map_Inr_iff:
  "try_map f xs = Inr ys \<longleftrightarrow> list_all2 (\<lambda>x y. f x = Inr y) xs ys"
proof (induction xs arbitrary: ys)
  case Nil
  then show ?case by auto
next
  case (Cons x xs)
  then show ?case by (cases ys) (auto simp: result_simps)
qed

lemma try_map_all_Inr: "\<forall>x\<in>set xs. f x = Inr (g x) \<Longrightarrow> try_map f xs = Inr (map g xs)"
  by (induction xs) auto

lemma try_each_Inr_iff [result_simps]: "try_each f xs = Inr u \<longleftrightarrow> (\<forall>x\<in>set xs. f x = Inr ())"
  by (induction xs) (auto simp: result_simps)

section \<open>Hash maps as association lists\<close>

type_synonym ('k, 'v) hash_map = "('k \<times> 'v) list"

definition hm_get :: "('k, 'v) hash_map \<Rightarrow> 'k \<Rightarrow> 'v option" where
  "hm_get m k = map_of m k"

definition hm_insert :: "'k \<Rightarrow> 'v \<Rightarrow> ('k, 'v) hash_map \<Rightarrow> ('k, 'v) hash_map" where
  "hm_insert k v m = AList.update k v m"

definition hm_remove :: "'k \<Rightarrow> ('k, 'v) hash_map \<Rightarrow> ('k, 'v) hash_map" where
  "hm_remove k m = AList.delete k m"

definition hm_contains_key :: "('k, 'v) hash_map \<Rightarrow> 'k \<Rightarrow> bool" where
  "hm_contains_key m k = (hm_get m k \<noteq> None)"

definition hm_retain :: "('k \<Rightarrow> 'v \<Rightarrow> bool) \<Rightarrow> ('k, 'v) hash_map \<Rightarrow> ('k, 'v) hash_map" where
  "hm_retain P m = filter (\<lambda>(k, v). P k v) m"

definition hm_values :: "('k, 'v) hash_map \<Rightarrow> 'v list" where
  "hm_values m = map snd m"

definition hm_keys :: "('k, 'v) hash_map \<Rightarrow> 'k list" where
  "hm_keys m = map fst m"

text \<open>A key occurs once: what makes the list a \<open>HashMap\<close>.\<close>

definition hm_ok :: "('k, 'v) hash_map \<Rightarrow> bool" where
  "hm_ok m = distinct (map fst m)"

lemma hm_get_Nil [simp]: "hm_get [] k = None"
  by (simp add: hm_get_def)

lemma hm_get_insert [simp, map_simps]:
  "hm_get (hm_insert k v m) k' = (if k' = k then Some v else hm_get m k')"
  by (simp add: hm_get_def hm_insert_def update_conv)

lemma hm_get_remove [simp, map_simps]:
  "hm_get (hm_remove k m) k' = (if k' = k then None else hm_get m k')"
  by (simp add: hm_get_def hm_remove_def delete_conv)

lemma hm_get_retain_None: "hm_get m k = None \<Longrightarrow> hm_get (hm_retain P m) k = None"
  by (force simp: hm_get_def hm_retain_def map_of_eq_None_iff)

lemma hm_get_Some_in: "hm_get m k = Some v \<Longrightarrow> (k, v) \<in> set m"
  by (simp add: hm_get_def map_of_SomeD)

lemma hm_get_retain [map_simps]:
  assumes "hm_ok m"
  shows "hm_get (hm_retain P m) k =
    (case hm_get m k of None \<Rightarrow> None | Some v \<Rightarrow> if P k v then Some v else None)"
  using assms
  by (induction m) (force simp: hm_get_def hm_retain_def hm_ok_def map_of_eq_None_iff
      split: option.splits)+

lemma hm_get_iff: "hm_ok m \<Longrightarrow> hm_get m k = Some v \<longleftrightarrow> (k, v) \<in> set m"
  by (simp add: hm_get_def hm_ok_def)

lemma hm_contains_key_iff [simp]: "hm_contains_key m k \<longleftrightarrow> (\<exists>v. hm_get m k = Some v)"
  by (auto simp: hm_contains_key_def)

lemma hm_ok_Nil [simp]: "hm_ok []"
  by (simp add: hm_ok_def)

lemma hm_ok_insert [simp, intro]: "hm_ok m \<Longrightarrow> hm_ok (hm_insert k v m)"
  by (simp add: hm_ok_def hm_insert_def distinct_update)

lemma hm_ok_remove [simp, intro]: "hm_ok m \<Longrightarrow> hm_ok (hm_remove k m)"
  by (simp add: hm_ok_def hm_remove_def distinct_delete)

lemma hm_ok_retain [simp, intro]: "hm_ok m \<Longrightarrow> hm_ok (hm_retain P m)"
  unfolding hm_ok_def hm_retain_def by (induction m) force+

lemma in_hm_values: "hm_ok m \<Longrightarrow> v \<in> set (hm_values m) \<longleftrightarrow> (\<exists>k. hm_get m k = Some v)"
  by (force simp: hm_values_def hm_get_iff)

text \<open>What a client may rely on of a map, as an interface.\<close>

locale map_interface =
  fixes empty :: 'm
    and get :: "'m \<Rightarrow> 'k \<Rightarrow> 'v option"
    and insert :: "'k \<Rightarrow> 'v \<Rightarrow> 'm \<Rightarrow> 'm"
    and remove :: "'k \<Rightarrow> 'm \<Rightarrow> 'm"
    and ok :: "'m \<Rightarrow> bool"
  assumes get_empty: "get empty k = None"
    and get_insert: "ok m \<Longrightarrow> get (insert k v m) k' = (if k' = k then Some v else get m k')"
    and get_remove: "ok m \<Longrightarrow> get (remove k m) k' = (if k' = k then None else get m k')"
    and ok_empty: "ok empty"
    and ok_insert: "ok m \<Longrightarrow> ok (insert k v m)"
    and ok_remove: "ok m \<Longrightarrow> ok (remove k m)"
begin

text \<open>Inserting a batch of fresh pairs: every pair is found, other keys keep their value.\<close>

lemma ok_inserts: "ok m \<Longrightarrow> ok (fold (\<lambda>(k, v). insert k v) kvs m)"
  by (induction kvs arbitrary: m) (auto simp: ok_insert)

lemma get_inserts:
  assumes "ok m" and "distinct (map fst kvs)"
  shows "get (fold (\<lambda>(k, v). insert k v) kvs m) k' =
    (case map_of kvs k' of Some v \<Rightarrow> Some v | None \<Rightarrow> get m k')"
  using assms
proof (induction kvs arbitrary: m)
  case Nil
  then show ?case by simp
next
  case (Cons kv kvs)
  obtain k v where kv: "kv = (k, v)" by force
  have IH: "get (fold (\<lambda>(k, v). insert k v) kvs (insert k v m)) k' =
      (case map_of kvs k' of Some w \<Rightarrow> Some w | None \<Rightarrow> get (insert k v m) k')"
    using Cons.IH [of "insert k v m"] Cons.prems by (simp add: kv ok_insert)
  have "map_of kvs k = None"
    using Cons.prems(2) by (simp add: kv map_of_eq_None_iff)
  then show ?case
    using IH Cons.prems(1) by (auto simp: kv get_insert split: option.splits)
qed

end

interpretation hm: map_interface "[]" hm_get hm_insert hm_remove hm_ok
  by unfold_locales auto

section \<open>Hash sets\<close>

text \<open>A \<open>HashSet\<close> is a list; \<open>insert\<close> leaves a set that has the element alone.\<close>

type_synonym 'a hash_set = "'a list"

definition hs_contains :: "'a hash_set \<Rightarrow> 'a \<Rightarrow> bool" where
  "hs_contains s x = (x \<in> set s)"

definition hs_insert :: "'a \<Rightarrow> 'a hash_set \<Rightarrow> 'a hash_set" where
  "hs_insert x s = List.insert x s"

definition hs_remove :: "'a \<Rightarrow> 'a hash_set \<Rightarrow> 'a hash_set" where
  "hs_remove x s = removeAll x s"

definition hs_extend :: "'a list \<Rightarrow> 'a hash_set \<Rightarrow> 'a hash_set" where
  "hs_extend xs s = fold hs_insert xs s"

lemma hs_contains_insert [simp]: "hs_contains (hs_insert x s) y \<longleftrightarrow> y = x \<or> hs_contains s y"
  by (simp add: hs_contains_def hs_insert_def)

lemma hs_contains_remove [simp]: "hs_contains (hs_remove x s) y \<longleftrightarrow> y \<noteq> x \<and> hs_contains s y"
  by (auto simp: hs_contains_def hs_remove_def)

lemma hs_contains_Nil [simp]: "\<not> hs_contains [] x"
  by (simp add: hs_contains_def)

lemma hs_contains_extend [simp]:
  "hs_contains (hs_extend xs s) y \<longleftrightarrow> y \<in> set xs \<or> hs_contains s y"
  unfolding hs_extend_def by (induction xs arbitrary: s) auto

section \<open>Ordered maps\<close>

text \<open>A \<open>BTreeMap\<close> is an association list in ascending key order.\<close>

type_synonym ('k, 'v) btree_map = "('k \<times> 'v) list"

definition bt_get :: "('k, 'v) btree_map \<Rightarrow> 'k \<Rightarrow> 'v option" where
  "bt_get m k = map_of m k"

fun bt_insert :: "'k::linorder \<Rightarrow> 'v \<Rightarrow> ('k, 'v) btree_map \<Rightarrow> ('k, 'v) btree_map" where
  "bt_insert k v [] = [(k, v)]"
| "bt_insert k v ((k', v') # m) =
     (if k < k' then (k, v) # (k', v') # m
      else if k = k' then (k, v) # m
      else (k', v') # bt_insert k v m)"

text \<open>Writing through \<open>get_mut\<close>: the key keeps its place.\<close>

definition bt_modify :: "'k \<Rightarrow> ('v \<Rightarrow> 'v) \<Rightarrow> ('k, 'v) btree_map \<Rightarrow> ('k, 'v) btree_map" where
  "bt_modify k f m = map (\<lambda>(k', v). (k', if k' = k then f v else v)) m"

definition bt_values :: "('k, 'v) btree_map \<Rightarrow> 'v list" where
  "bt_values m = map snd m"

definition bt_ok :: "('k::linorder, 'v) btree_map \<Rightarrow> bool" where
  "bt_ok m = sorted_wrt (<) (map fst m)"

lemma bt_get_Nil [simp]: "bt_get [] k = None"
  by (simp add: bt_get_def)

lemma bt_get_insert [simp, map_simps]:
  "bt_get (bt_insert k v m) k' = (if k' = k then Some v else bt_get m k')"
  unfolding bt_get_def by (induction k v m rule: bt_insert.induct) auto

lemma bt_get_modify [simp, map_simps]:
  "bt_get (bt_modify k f m) k' = (if k' = k then map_option f (bt_get m k) else bt_get m k')"
  unfolding bt_get_def bt_modify_def by (induction m) auto

lemma bt_fst_modify [simp]: "map fst (bt_modify k f m) = map fst m"
  unfolding bt_modify_def by (induction m) auto

lemma bt_set_insert: "fst ` set (bt_insert k v m) = insert k (fst ` set m)"
  by (induction k v m rule: bt_insert.induct) auto

lemma bt_ok_Nil [simp]: "bt_ok []"
  by (simp add: bt_ok_def)

lemma bt_ok_insert [simp, intro]: "bt_ok m \<Longrightarrow> bt_ok (bt_insert k v m)"
proof (induction k v m rule: bt_insert.induct)
  case (2 k v k' v' m)
  then show ?case
    using bt_set_insert [of k v m] by (auto simp: bt_ok_def)
qed (simp add: bt_ok_def)

lemma bt_ok_modify [simp, intro]: "bt_ok m \<Longrightarrow> bt_ok (bt_modify k f m)"
  by (simp add: bt_ok_def)

lemma bt_ok_distinct: "bt_ok m \<Longrightarrow> distinct (map fst m)"
  by (auto simp: bt_ok_def strict_sorted_iff)

lemma bt_get_iff: "bt_ok m \<Longrightarrow> bt_get m k = Some v \<longleftrightarrow> (k, v) \<in> set m"
  by (simp add: bt_get_def bt_ok_distinct)

lemma bt_insert_last:
  assumes "\<forall>k'\<in>fst ` set m. k' < k"
  shows "bt_insert k v m = m @ [(k, v)]"
  using assms by (induction k v m rule: bt_insert.induct) auto

section \<open>Choosing by key\<close>

text \<open>\<open>Iterator::min_by_key\<close>: the first of the elements with the smallest key.\<close>

fun min_by_key :: "('a \<Rightarrow> 'k::linorder) \<Rightarrow> 'a list \<Rightarrow> 'a option" where
  "min_by_key key [] = None"
| "min_by_key key (x # xs) =
     (case min_by_key key xs of
        None \<Rightarrow> Some x
      | Some y \<Rightarrow> if key y < key x then Some y else Some x)"

lemma min_by_key_None [simp]: "min_by_key key xs = None \<longleftrightarrow> xs = []"
  by (induction xs) (auto split: option.splits)

lemma min_by_key_least:
  "min_by_key key xs = Some x \<Longrightarrow> x \<in> set xs \<and> (\<forall>y\<in>set xs. key x \<le> key y)"
proof (induction xs arbitrary: x)
  case (Cons a xs)
  show ?case
  proof (cases "min_by_key key xs")
    case None
    then show ?thesis using Cons.prems by simp
  next
    case (Some b)
    then show ?thesis
      using Cons.prems Cons.IH [OF Some] by (auto split: if_splits intro: order_trans)
  qed
qed simp

text \<open>With distinct keys the order of the list plays no part in the choice.\<close>

lemma min_by_key_unordered:
  assumes "set xs = set ys" and "inj_on key (set xs)"
  shows "min_by_key key xs = min_by_key key ys"
proof (cases "min_by_key key xs")
  case None
  then show ?thesis using assms(1) by simp
next
  case (Some x)
  then have "ys \<noteq> []" using assms(1) by force
  then obtain y where y: "min_by_key key ys = Some y"
    by fastforce
  have "key x = key y" "x \<in> set xs" "y \<in> set xs"
    using min_by_key_least [OF Some] min_by_key_least [OF y] assms(1) by (auto intro: order_antisym)
  then show ?thesis
    using Some y assms(2) by (simp add: inj_on_def)
qed

text \<open>A selection that asks for exactly one element does not depend on the order either.\<close>

lemma distinct_set_single:
  assumes "set ys = {x}" and "distinct ys"
  shows "ys = [x]"
proof (cases ys)
  case (Cons y zs)
  then show ?thesis using assms by (cases zs) auto
qed (use assms in simp)

lemma single_filter_iff:
  assumes "distinct xs"
  shows "filter P xs = [x] \<longleftrightarrow> x \<in> set xs \<and> P x \<and> (\<forall>y\<in>set xs. P y \<longrightarrow> y = x)"
proof
  assume eq: "filter P xs = [x]"
  then have "set (filter P xs) = {x}" by simp
  then show "x \<in> set xs \<and> P x \<and> (\<forall>y\<in>set xs. P y \<longrightarrow> y = x)" by auto
next
  assume "x \<in> set xs \<and> P x \<and> (\<forall>y\<in>set xs. P y \<longrightarrow> y = x)"
  then have "set (filter P xs) = {x}" by auto
  moreover have "distinct (filter P xs)" using assms by simp
  ultimately show "filter P xs = [x]" by (rule distinct_set_single)
qed

lemma single_choice_unordered:
  assumes "set xs = set ys" and "distinct xs" and "distinct ys"
  shows "(case filter P xs of [c] \<Rightarrow> Some c | _ \<Rightarrow> None) = (case filter P ys of [c] \<Rightarrow> Some c | _ \<Rightarrow> None)"
proof -
  have eq: "filter P xs = [x] \<longleftrightarrow> filter P ys = [x]" for x
    by (simp add: single_filter_iff assms)
  let ?one = "\<lambda>zs. case zs of [c] \<Rightarrow> Some c | _ \<Rightarrow> None"
  have "?one zs = Some x \<longleftrightarrow> zs = [x]" for zs and x :: 'a
    by (auto split: list.splits)
  then have same: "?one (filter P xs) = Some x \<longleftrightarrow> ?one (filter P ys) = Some x" for x
    using eq [of x] by simp
  show ?thesis
  proof (cases "?one (filter P ys)")
    case None
    then show ?thesis using same by (metis not_Some_eq)
  next
    case (Some x)
    then show ?thesis using same [of x] by metis
  qed
qed

section \<open>Machine integers\<close>

text \<open>
  Sequence numbers, times and counters are natural numbers below \<open>2 ^ 64\<close> (or the width
  named); every addition the code checks or saturates is written out.
\<close>

definition u64_max :: nat where
  "u64_max = 2 ^ 64 - 1"

definition checked_add_u64 :: "nat \<Rightarrow> nat \<Rightarrow> nat option" where
  "checked_add_u64 a b = (if a + b \<le> u64_max then Some (a + b) else None)"

definition saturating_add_u64 :: "nat \<Rightarrow> nat \<Rightarrow> nat" where
  "saturating_add_u64 a b = min (a + b) u64_max"

definition saturating_add_u8 :: "nat \<Rightarrow> nat \<Rightarrow> nat" where
  "saturating_add_u8 a b = min (a + b) 255"

definition saturating_mul_u8 :: "nat \<Rightarrow> nat \<Rightarrow> nat" where
  "saturating_mul_u8 a b = min (a * b) 255"

lemma checked_add_u64_Some [result_simps]:
  "checked_add_u64 a b = Some c \<longleftrightarrow> c = a + b \<and> a + b \<le> u64_max"
  by (auto simp: checked_add_u64_def)

section \<open>Strings\<close>

text \<open>
  A Rust \<open>str\<close> is its UTF-8 bytes, one \<open>char\<close> each.
\<close>

definition strip_prefix :: "string \<Rightarrow> string \<Rightarrow> string option" where
  "strip_prefix pre s = (if take (length pre) s = pre then Some (drop (length pre) s) else None)"

definition strip_suffix :: "string \<Rightarrow> string \<Rightarrow> string option" where
  "strip_suffix suf s =
     (if length suf \<le> length s \<and> drop (length s - length suf) s = suf
      then Some (take (length s - length suf) s) else None)"

text \<open>\<open>split_once\<close> on one ASCII character, and \<open>split\<close>.\<close>

fun split_once :: "char \<Rightarrow> string \<Rightarrow> (string \<times> string) option" where
  "split_once c [] = None"
| "split_once c (x # xs) =
     (if x = c then Some ([], xs)
      else map_option (\<lambda>(a, b). (x # a, b)) (split_once c xs))"

fun split_on :: "char \<Rightarrow> string \<Rightarrow> string list" where
  "split_on c [] = [[]]"
| "split_on c (x # xs) =
     (if x = c then [] # split_on c xs
      else (case split_on c xs of [] \<Rightarrow> [[x]] | y # ys \<Rightarrow> (x # y) # ys))"

text \<open>\<open>split_once\<close> on a string.\<close>

fun split_once_str :: "string \<Rightarrow> string \<Rightarrow> (string \<times> string) option" where
  "split_once_str pat [] = (if pat = [] then Some ([], []) else None)"
| "split_once_str pat (x # xs) =
     (case strip_prefix pat (x # xs) of
        Some rest \<Rightarrow> Some ([], rest)
      | None \<Rightarrow> map_option (\<lambda>(a, b). (x # a, b)) (split_once_str pat xs))"

lemma strip_prefix_append [simp]: "strip_prefix pre (pre @ s) = Some s"
  by (simp add: strip_prefix_def)

lemma strip_prefix_Some: "strip_prefix pre s = Some r \<longleftrightarrow> s = pre @ r"
  by (auto simp: strip_prefix_def) (metis append_take_drop_id)

lemma split_once_str_Some: "split_once_str pat s = Some (a, b) \<Longrightarrow> s = a @ pat @ b"
  by (induction pat s arbitrary: a b rule: split_once_str.induct)
    (auto simp: strip_prefix_Some split: option.splits if_splits)

lemma strip_suffix_append [simp]: "strip_suffix suf (s @ suf) = Some s"
  by (simp add: strip_suffix_def)

lemma strip_suffix_Some: "strip_suffix suf s = Some r \<longleftrightarrow> s = r @ suf"
  by (auto simp: strip_suffix_def) (metis append_take_drop_id)

lemma split_once_append: "c \<notin> set a \<Longrightarrow> split_once c (a @ c # b) = Some (a, b)"
  by (induction a) auto

lemma split_once_Some: "split_once c s = Some (a, b) \<Longrightarrow> s = a @ c # b \<and> c \<notin> set a"
  by (induction c s arbitrary: a b rule: split_once.induct) (auto split: if_splits)

lemma split_on_nonempty [simp]: "split_on c s \<noteq> []"
  by (induction c s rule: split_on.induct) (auto split: list.splits)

lemma split_on_absent: "c \<notin> set a \<Longrightarrow> split_on c a = [a]"
  by (induction a) auto

lemma split_on_append: "c \<notin> set a \<Longrightarrow> split_on c (a @ c # b) = a # split_on c b"
  by (induction a) auto

text \<open>Decimal digits: \<open>format!("{n}")\<close> and \<open>str::parse::<u64>\<close> on digits.\<close>

definition digit_char :: "nat \<Rightarrow> char" where
  "digit_char d = char_of (48 + d)"

definition is_ascii_digit :: "char \<Rightarrow> bool" where
  "is_ascii_digit c = (48 \<le> (of_char c :: nat) \<and> (of_char c :: nat) \<le> 57)"

definition digit_value :: "char \<Rightarrow> nat" where
  "digit_value c = of_char c - 48"

fun show_nat :: "nat \<Rightarrow> string" where
  "show_nat n = (if n < 10 then [digit_char n] else show_nat (n div 10) @ [digit_char (n mod 10)])"

declare show_nat.simps [simp del]

definition read_nat :: "string \<Rightarrow> nat" where
  "read_nat s = foldl (\<lambda>n c. 10 * n + digit_value c) 0 s"

definition parse_u64 :: "string \<Rightarrow> nat option" where
  "parse_u64 s =
     (if s = [] \<or> \<not> list_all is_ascii_digit s then None
      else if read_nat s \<le> u64_max then Some (read_nat s) else None)"

lemma of_char_digit: "d < 10 \<Longrightarrow> (of_char (digit_char d) :: nat) = 48 + d"
  by (simp add: digit_char_def)

lemma digit_value_digit_char [simp]: "d < 10 \<Longrightarrow> digit_value (digit_char d) = d"
  by (simp add: digit_value_def of_char_digit)

lemma is_ascii_digit_digit_char [simp]: "d < 10 \<Longrightarrow> is_ascii_digit (digit_char d)"
  by (simp add: is_ascii_digit_def of_char_digit)

lemma show_nat_nonempty [simp]: "show_nat n \<noteq> []"
  by (subst show_nat.simps) simp

lemma show_nat_digits: "list_all is_ascii_digit (show_nat n)"
proof (induction n rule: show_nat.induct)
  case (1 n)
  then show ?case by (cases "n < 10") (simp_all add: show_nat.simps [of n])
qed

lemma read_nat_show_nat [simp]: "read_nat (show_nat n) = n"
proof (induction n rule: show_nat.induct)
  case (1 n)
  show ?case
  proof (cases "n < 10")
    case True
    then show ?thesis by (simp add: show_nat.simps [of n] read_nat_def)
  next
    case False
    then have "read_nat (show_nat (n div 10)) = n div 10" by (rule "1.IH")
    then show ?thesis
      using False by (simp add: show_nat.simps [of n] read_nat_def)
  qed
qed

lemma parse_u64_show_nat [simp]: "n \<le> u64_max \<Longrightarrow> parse_u64 (show_nat n) = Some n"
  by (simp add: parse_u64_def show_nat_digits)

lemma show_nat_inject: "show_nat a = show_nat b \<longleftrightarrow> a = b"
  by (metis read_nat_show_nat)

section \<open>Canonical codecs\<close>

text \<open>
  The contract of every parser of the wire that re-renders what it read and compares:
  a valid value survives a round trip and nothing but its canonical text is accepted.
\<close>

locale canonical_codec =
  fixes encode :: "'a \<Rightarrow> 's"
    and decode :: "'s \<Rightarrow> 'a option"
    and valid :: "'a \<Rightarrow> bool"
  assumes decode_encode: "valid x \<Longrightarrow> decode (encode x) = Some x"
    and encode_decode: "decode s = Some x \<Longrightarrow> valid x \<and> encode x = s"
begin

lemma decode_iff: "decode s = Some x \<longleftrightarrow> valid x \<and> s = encode x"
  using decode_encode encode_decode by metis

lemma encode_inject: "valid x \<Longrightarrow> valid y \<Longrightarrow> encode x = encode y \<longleftrightarrow> x = y"
  using decode_encode by (metis option.inject)

lemma decode_inject: "decode s = Some x \<Longrightarrow> decode t = Some x \<Longrightarrow> s = t"
  using encode_decode by metis

lemma decode_None_iff: "decode s = None \<longleftrightarrow> s \<notin> encode ` Collect valid"
  using decode_encode encode_decode by (cases "decode s") auto

end

end
