(* ===== verification/Identity.thy ===== *)
theory Identity
  imports Cyclops_Prelude
begin

text \<open>
  The durable identities of \<open>cyclops-proto/src/identity.rs\<close>: UUID-backed workspace,
  session and agent ids, tmux ids, process instances, and the recipient keys that
  route every mailbox entry, with their text forms.

  A UUID is its 128 bits; its ordering is that of the 16 big-endian bytes. How the
  \<open>uuid\<close> crate prints and parses one is not in the repository, so both are fields of
  the parameter \<open>uuid_api\<close>, and \<open>uuid_laws\<close> states what its documentation promises.
\<close>

section \<open>UUIDs\<close>

type_synonym uuid = "128 word"

record uuid_api =
  uuid_text :: "uuid \<Rightarrow> string"
  uuid_parse :: "string \<Rightarrow> uuid option"

text \<open>Parsing the hyphenated text gives the UUID back, and that text holds no slash.\<close>

definition uuid_laws :: "'x uuid_api_scheme \<Rightarrow> bool" where
  "uuid_laws X \<longleftrightarrow> (\<forall>u. uuid_parse X (uuid_text X u) = Some u) \<and>
     (\<forall>u. CHR ''/'' \<notin> set (uuid_text X u))"

type_synonym workspace_id = uuid
type_synonym session_instance_id = uuid
type_synonym agent_instance_id = uuid

datatype identity_error =
    InvalidUuid string
  | InvalidOsBootId
  | InvalidProcessId
  | InvalidProcessBirth
  | InvalidTmuxId string char
  | InvalidRecipientKey

definition is_nil :: "uuid \<Rightarrow> bool" where
  "is_nil u = (u = 0)"

definition durable_id_parse :: "'x uuid_api_scheme \<Rightarrow> string \<Rightarrow> string \<Rightarrow> (identity_error, uuid) result" where
  "durable_id_parse X s kind =
     rbind (ok_or (uuid_parse X s) (InvalidUuid kind)) (\<lambda>parsed.
     rbind (refuse_if (is_nil parsed \<or> uuid_text X parsed \<noteq> s) (InvalidUuid kind)) (\<lambda>_.
     Inr parsed))"

definition durable_id_from_uuid :: "uuid \<Rightarrow> string \<Rightarrow> (identity_error, uuid) result" where
  "durable_id_from_uuid u kind = (if is_nil u then Inl (InvalidUuid kind) else Inr u)"

section \<open>Boot ids and process instances\<close>

definition is_ascii_graphic :: "char \<Rightarrow> bool" where
  "is_ascii_graphic c = (33 \<le> (of_char c :: nat) \<and> (of_char c :: nat) \<le> 126)"

definition os_boot_id_new :: "string \<Rightarrow> (identity_error, string) result" where
  "os_boot_id_new s =
     (if s = [] \<or> \<not> list_all is_ascii_graphic s then Inl InvalidOsBootId else Inr s)"

datatype process_instance_id = ProcessInstanceId (pid: int) (birth: nat)

definition process_instance_new :: "int \<Rightarrow> nat \<Rightarrow> (identity_error, process_instance_id) result" where
  "process_instance_new p b =
     (if p \<le> 0 then Inl InvalidProcessId
      else if b = 0 then Inl InvalidProcessBirth
      else Inr (ProcessInstanceId p b))"

section \<open>tmux ids\<close>

definition parse_tmux_id :: "string \<Rightarrow> char \<Rightarrow> string \<Rightarrow> (identity_error, nat) result" where
  "parse_tmux_id s sigil kind =
     rbind (ok_or (strip_prefix [sigil] s) (InvalidTmuxId kind sigil)) (\<lambda>digits.
     rbind (refuse_if (digits = [] \<or> \<not> list_all is_ascii_digit digits) (InvalidTmuxId kind sigil)) (\<lambda>_.
     rbind (ok_or (parse_u64 digits) (InvalidTmuxId kind sigil)) (\<lambda>number.
     rbind (refuse_if (sigil # show_nat number \<noteq> s) (InvalidTmuxId kind sigil)) (\<lambda>_.
     Inr number))))"

definition tmux_id_to_string :: "char \<Rightarrow> nat \<Rightarrow> string" where
  "tmux_id_to_string sigil n = sigil # show_nat n"

section \<open>Recipient keys\<close>

datatype recipient =
    Admin
  | Agent session_instance_id nat
  | Headless agent_instance_id

datatype recipient_key = RecipientKey (rk_workspace: workspace_id) (rk_recipient: recipient)

definition key_admin :: "workspace_id \<Rightarrow> recipient_key" where
  "key_admin ws = RecipientKey ws Admin"

definition key_agent :: "workspace_id \<Rightarrow> session_instance_id \<Rightarrow> nat \<Rightarrow> recipient_key" where
  "key_agent ws session pane = RecipientKey ws (Agent session pane)"

definition key_headless :: "workspace_id \<Rightarrow> agent_instance_id \<Rightarrow> recipient_key" where
  "key_headless ws instance_id = RecipientKey ws (Headless instance_id)"

definition key_session_instance_id :: "recipient_key \<Rightarrow> session_instance_id option" where
  "key_session_instance_id k =
     (case rk_recipient k of Agent s p \<Rightarrow> Some s | Admin \<Rightarrow> None | Headless a \<Rightarrow> None)"

definition key_pane_id :: "recipient_key \<Rightarrow> nat option" where
  "key_pane_id k =
     (case rk_recipient k of Agent s p \<Rightarrow> Some p | Admin \<Rightarrow> None | Headless a \<Rightarrow> None)"

definition key_agent_instance_id :: "recipient_key \<Rightarrow> agent_instance_id option" where
  "key_agent_instance_id k =
     (case rk_recipient k of Headless a \<Rightarrow> Some a | Admin \<Rightarrow> None | Agent s p \<Rightarrow> None)"

definition is_admin :: "recipient_key \<Rightarrow> bool" where
  "is_admin k = (rk_recipient k = Admin)"

definition is_headless :: "recipient_key \<Rightarrow> bool" where
  "is_headless k = (case rk_recipient k of Headless a \<Rightarrow> True | Admin \<Rightarrow> False | Agent s p \<Rightarrow> False)"

text \<open>The derived order: the workspace first, then the variant, then its fields.\<close>

definition recipient_rank :: "recipient \<Rightarrow> nat \<times> uuid \<times> nat" where
  "recipient_rank r =
     (case r of Admin \<Rightarrow> (0, 0, 0) | Agent s p \<Rightarrow> (1, s, p) | Headless a \<Rightarrow> (2, a, 0))"

lemma recipient_rank_inject: "recipient_rank r = recipient_rank r' \<longleftrightarrow> r = r'"
  by (auto simp: recipient_rank_def split: recipient.splits)

definition key_rank :: "recipient_key \<Rightarrow> uuid \<times> nat \<times> uuid \<times> nat" where
  "key_rank k = (rk_workspace k, recipient_rank (rk_recipient k))"

lemma key_rank_inject: "key_rank k = key_rank k' \<longleftrightarrow> k = k'"
  by (cases k, cases k') (auto simp: key_rank_def recipient_rank_inject)

instantiation recipient_key :: linorder
begin

definition less_eq_recipient_key :: "recipient_key \<Rightarrow> recipient_key \<Rightarrow> bool" where
  "less_eq_recipient_key a b = (key_rank a \<le> key_rank b)"

definition less_recipient_key :: "recipient_key \<Rightarrow> recipient_key \<Rightarrow> bool" where
  "less_recipient_key a b = (key_rank a < key_rank b)"

instance
proof
  fix x y z :: recipient_key
  show "x < y \<longleftrightarrow> x \<le> y \<and> \<not> y \<le> x"
    by (auto simp: less_eq_recipient_key_def less_recipient_key_def)
  show "x \<le> x" by (simp add: less_eq_recipient_key_def)
  show "x \<le> y \<Longrightarrow> y \<le> z \<Longrightarrow> x \<le> z" by (auto simp: less_eq_recipient_key_def)
  show "x \<le> y \<Longrightarrow> y \<le> x \<Longrightarrow> x = y"
    by (simp add: less_eq_recipient_key_def key_rank_inject flip: order_antisym_conv)
  show "x \<le> y \<or> y \<le> x" by (auto simp: less_eq_recipient_key_def)
qed

end

definition key_to_string :: "'x uuid_api_scheme \<Rightarrow> recipient_key \<Rightarrow> string" where
  "key_to_string X k =
     (case rk_recipient k of
        Admin \<Rightarrow> ''admin:'' @ uuid_text X (rk_workspace k)
      | Agent s p \<Rightarrow> ''agent:'' @ uuid_text X (rk_workspace k) @ ''/'' @ uuid_text X s @ ''/'' @
          tmux_id_to_string (CHR ''%'') p
      | Headless a \<Rightarrow> ''headless:'' @ uuid_text X (rk_workspace k) @ ''/'' @ uuid_text X a)"

definition map_invalid_key :: "('e, 'a) result \<Rightarrow> (identity_error, 'a) result" where
  "map_invalid_key r = (case r of Inl e \<Rightarrow> Inl InvalidRecipientKey | Inr x \<Rightarrow> Inr x)"

definition key_from_str :: "'x uuid_api_scheme \<Rightarrow> string \<Rightarrow> (identity_error, recipient_key) result" where
  "key_from_str X s =
     (case strip_prefix ''admin:'' s of
        Some ws \<Rightarrow> rbind (map_invalid_key (durable_id_parse X ws ''workspace id'')) (\<lambda>w. Inr (key_admin w))
      | None \<Rightarrow>
     (case strip_prefix ''headless:'' s of
        Some parts \<Rightarrow>
          (case split_on (CHR ''/'') parts of
             [ws, inst] \<Rightarrow>
               rbind (map_invalid_key (durable_id_parse X ws ''workspace id'')) (\<lambda>w.
               rbind (map_invalid_key (durable_id_parse X inst ''agent instance id'')) (\<lambda>a.
               Inr (key_headless w a)))
           | _ \<Rightarrow> Inl InvalidRecipientKey)
      | None \<Rightarrow>
     (case strip_prefix ''agent:'' s of
        None \<Rightarrow> Inl InvalidRecipientKey
      | Some parts \<Rightarrow>
          (case split_on (CHR ''/'') parts of
             [ws, sess, pane] \<Rightarrow>
               rbind (map_invalid_key (durable_id_parse X ws ''workspace id'')) (\<lambda>w.
               rbind (map_invalid_key (durable_id_parse X sess ''session instance id'')) (\<lambda>i.
               rbind (map_invalid_key (parse_tmux_id pane (CHR ''%'') ''tmux pane id'')) (\<lambda>p.
               Inr (key_agent w i p))))
           | _ \<Rightarrow> Inl InvalidRecipientKey))))"

text \<open>Keys the constructors can produce: no nil UUID, a pane number that fits \<open>u64\<close>.\<close>

definition key_wf :: "recipient_key \<Rightarrow> bool" where
  "key_wf k \<longleftrightarrow> \<not> is_nil (rk_workspace k) \<and>
     (case rk_recipient k of Admin \<Rightarrow> True | Agent s p \<Rightarrow> \<not> is_nil s \<and> p \<le> u64_max
      | Headless a \<Rightarrow> \<not> is_nil a)"

section \<open>Laws\<close>

lemma durable_id_parse_iff:
  assumes "uuid_laws X"
  shows "durable_id_parse X s kind = Inr u \<longleftrightarrow> \<not> is_nil u \<and> s = uuid_text X u"
  using assms by (auto simp: durable_id_parse_def result_simps uuid_laws_def)

lemma parse_tmux_id_iff:
  "parse_tmux_id s sigil kind = Inr n \<longleftrightarrow> n \<le> u64_max \<and> s = tmux_id_to_string sigil n"
proof
  assume "parse_tmux_id s sigil kind = Inr n"
  then show "n \<le> u64_max \<and> s = tmux_id_to_string sigil n"
    by (auto simp: parse_tmux_id_def tmux_id_to_string_def result_simps parse_u64_def split: if_splits)
next
  assume "n \<le> u64_max \<and> s = tmux_id_to_string sigil n"
  then show "parse_tmux_id s sigil kind = Inr n"
    using strip_prefix_append [of "[sigil]" "show_nat n"] show_nat_digits [of n]
    by (simp add: parse_tmux_id_def tmux_id_to_string_def)
qed

interpretation pane_id: canonical_codec
  "tmux_id_to_string (CHR ''%'')"
  "\<lambda>s. case parse_tmux_id s (CHR ''%'') kind of Inl e \<Rightarrow> None | Inr n \<Rightarrow> Some n"
  "\<lambda>n. n \<le> u64_max"
  for kind
proof
  fix n s
  assume "n \<le> u64_max"
  then show "(case parse_tmux_id (tmux_id_to_string (CHR ''%'') n) (CHR ''%'') kind of
      Inl e \<Rightarrow> None | Inr m \<Rightarrow> Some m) = Some n"
    by (simp add: parse_tmux_id_iff [THEN iffD2])
next
  fix n s
  assume "(case parse_tmux_id s (CHR ''%'') kind of Inl e \<Rightarrow> None | Inr m \<Rightarrow> Some m) = Some n"
  then show "n \<le> u64_max \<and> tmux_id_to_string (CHR ''%'') n = s"
    by (auto simp: parse_tmux_id_iff split: sum.splits)
qed

lemma is_admin_key_admin [simp]: "is_admin (key_admin ws)"
  by (simp add: is_admin_def key_admin_def)

lemma rk_workspace_key_admin [simp]: "rk_workspace (key_admin ws) = ws"
  by (simp add: key_admin_def)

lemma is_admin_iff: "is_admin k \<longleftrightarrow> k = key_admin (rk_workspace k)"
  by (cases k) (auto simp: is_admin_def key_admin_def)

lemma is_ascii_digit_not_slash: "is_ascii_digit c \<Longrightarrow> c \<noteq> CHR ''/''"
  by (auto simp: is_ascii_digit_def)

lemma slash_not_in_tmux: "CHR ''/'' \<notin> set (tmux_id_to_string (CHR ''%'') p)"
  using show_nat_digits [of p] is_ascii_digit_not_slash
  by (auto simp: tmux_id_to_string_def list_all_iff)

end
