(* ===== verification/Message_Types.thy ===== *)
theory Message_Types
  imports Identity
begin

text \<open>
  The message data of \<open>cyclops-proto/src/mailbox.rs\<close> and the journal line of
  \<open>cyclops-proto/src/ledger.rs\<close>: message ids and how they are minted, request digests,
  message metadata, mailbox entries and mailbox facts.

  Hashing (\<open>sha2\<close>) and JSON serialisation (\<open>serde_json\<close>) are not in the repository:
  they are fields of the parameter \<open>extern\<close>. Validators of free text decode UTF-8, so
  that \<open>trim\<close> and \<open>is_control\<close> see the same characters as Rust's \<open>char\<close> methods.
\<close>

section \<open>Characters of a UTF-8 string\<close>

definition byte_of :: "char \<Rightarrow> nat" where
  "byte_of c = of_char c"

definition utf8_width :: "char \<Rightarrow> nat" where
  "utf8_width c =
     (if byte_of c < 128 then 1 else if byte_of c < 224 then 2 else if byte_of c < 240 then 3 else 4)"

text \<open>The encoded characters of a string, in order: the segments \<open>str::chars\<close> decodes.\<close>

function char_segments :: "string \<Rightarrow> string list" where
  "char_segments [] = []"
| "char_segments (c # cs) =
     take (utf8_width c) (c # cs) # char_segments (drop (utf8_width c) (c # cs))"
  by pat_completeness auto
termination
  by (relation "measure length") (auto simp: utf8_width_def)

text \<open>The code point of one segment.\<close>

definition code_point :: "string \<Rightarrow> nat" where
  "code_point seg =
     (case map byte_of seg of
        [a] \<Rightarrow> a
      | [a, b] \<Rightarrow> (a mod 32) * 64 + b mod 64
      | [a, b, c] \<Rightarrow> ((a mod 16) * 64 + b mod 64) * 64 + c mod 64
      | [a, b, c, d] \<Rightarrow> (((a mod 8) * 64 + b mod 64) * 64 + c mod 64) * 64 + d mod 64
      | _ \<Rightarrow> 65533)"

text \<open>\<open>char::is_whitespace\<close> (Unicode \<open>White_Space\<close>) and \<open>char::is_control\<close> (category \<open>Cc\<close>).\<close>

definition is_whitespace :: "nat \<Rightarrow> bool" where
  "is_whitespace n =
     ((9 \<le> n \<and> n \<le> 13) \<or> n = 32 \<or> n = 133 \<or> n = 160 \<or> n = 5760 \<or> (8192 \<le> n \<and> n \<le> 8202) \<or>
      n = 8232 \<or> n = 8233 \<or> n = 8239 \<or> n = 8287 \<or> n = 12288)"

definition is_control :: "nat \<Rightarrow> bool" where
  "is_control n = (n < 32 \<or> (127 \<le> n \<and> n < 160))"

definition has_control :: "string \<Rightarrow> bool" where
  "has_control s = list_ex (\<lambda>seg. is_control (code_point seg)) (char_segments s)"

definition trim_segments :: "string list \<Rightarrow> string list" where
  "trim_segments segs =
     rev (dropWhile (\<lambda>seg. is_whitespace (code_point seg))
       (rev (dropWhile (\<lambda>seg. is_whitespace (code_point seg)) segs)))"

definition str_trim :: "string \<Rightarrow> string" where
  "str_trim s = concat (trim_segments (char_segments s))"

section \<open>Message ids\<close>

type_synonym message_id = string

datatype mailbox_type_error =
    InvalidMessageId string
  | InvalidRequestDigest string
  | SerializationError string
  | InvalidMessageSummary

definition message_id_part_len :: nat where
  "message_id_part_len = 8"

definition is_lower_hex :: "char \<Rightarrow> bool" where
  "is_lower_hex c = (is_ascii_digit c \<or> (97 \<le> byte_of c \<and> byte_of c \<le> 102))"

definition is_id_part :: "string \<Rightarrow> bool" where
  "is_id_part part = (length part = message_id_part_len \<and> list_all is_lower_hex part)"

definition is_ascii_alphanumeric :: "char \<Rightarrow> bool" where
  "is_ascii_alphanumeric c =
     (is_ascii_digit c \<or> (65 \<le> byte_of c \<and> byte_of c \<le> 90) \<or> (97 \<le> byte_of c \<and> byte_of c \<le> 122))"

definition legacy_id_char :: "char \<Rightarrow> bool" where
  "legacy_id_char c = (is_ascii_alphanumeric c \<or> c = CHR ''_'' \<or> c = CHR ''-'')"

definition message_id_new :: "string \<Rightarrow> (mailbox_type_error, message_id) result" where
  "message_id_new v =
     (case strip_prefix ''cyc-'' v of
        Some parts \<Rightarrow>
          (if is_some_and (split_once (CHR ''-'') parts) (\<lambda>(thread, message). is_id_part thread \<and> is_id_part message)
           then Inr v else Inl (InvalidMessageId v))
      | None \<Rightarrow>
          rbind (ok_or (strip_prefix ''m-'' v) (InvalidMessageId v)) (\<lambda>suffix.
          if suffix = [] \<or> \<not> list_all legacy_id_char suffix then Inl (InvalidMessageId v) else Inr v))"

definition message_id_parts :: "message_id \<Rightarrow> (string \<times> string) option" where
  "message_id_parts m = Option.bind (strip_prefix ''cyc-'' m) (split_once (CHR ''-''))"

definition thread_part :: "message_id \<Rightarrow> string option" where
  "thread_part m = map_option fst (message_id_parts m)"

definition message_part :: "message_id \<Rightarrow> string option" where
  "message_part m = map_option snd (message_id_parts m)"

section \<open>Journal lines and message data\<close>

datatype kind = Msg | Fyi | System | State | Gate

record recipient_presentation =
  rp_recipient :: recipient_key
  rp_label :: string

record message_presentation =
  sender_label :: string
  recipient_labels :: "recipient_presentation list"

type_synonym request_digest = string

record message_metadata =
  md_record_version :: nat
  md_workspace_id :: workspace_id
  md_sender :: recipient_key
  md_recipients :: "recipient_key list"
  md_presentation :: message_presentation
  md_summary :: "string option"
  md_thread_root :: message_id
  md_client_key :: "string option"
  md_request_digest :: request_digest
  md_supersedes :: "message_id option"
  md_raw :: bool
  md_broadcast :: bool

definition canonical_record_version :: nat where
  "canonical_record_version = 1"

section \<open>Request digests\<close>

text \<open>The message fields a digest covers, and the payload that is serialised.\<close>

record request_content =
  rc_subject :: "string option"
  rc_summary :: "string option"
  rc_body :: "string option"

record canonical_payload =
  cp_kind :: kind
  cp_sender :: recipient_key
  cp_recipients :: "recipient_key list"
  cp_subject :: "string option"
  cp_summary :: "string option"
  cp_body :: "string option"
  cp_reply_to :: "message_id option"
  cp_supersedes :: "message_id option"

type_synonym byte = "8 word"

text \<open>What the messaging code calls and the repository does not hold.\<close>

record extern = uuid_api +
  payload_json :: "canonical_payload \<Rightarrow> (string, byte list) result"
  sha256 :: "byte list \<Rightarrow> byte list"

definition hex_digit :: "nat \<Rightarrow> char" where
  "hex_digit d = (if d < 10 then char_of (48 + d) else char_of (87 + d))"

definition hex_byte :: "byte \<Rightarrow> string" where
  "hex_byte b = [hex_digit (unat b div 16), hex_digit (unat b mod 16)]"

definition digest_parse :: "string \<Rightarrow> (mailbox_type_error, request_digest) result" where
  "digest_parse v =
     rbind (ok_or (strip_prefix ''v1:'' v) (InvalidRequestDigest v)) (\<lambda>hex_part.
     if length hex_part \<noteq> 64 \<or> \<not> list_all is_lower_hex hex_part
     then Inl (InvalidRequestDigest v) else Inr v)"

definition digest_compute ::
  "extern \<Rightarrow> kind \<Rightarrow> recipient_key \<Rightarrow> recipient_key list \<Rightarrow> request_content \<Rightarrow> message_id option \<Rightarrow>
   message_id option \<Rightarrow> (mailbox_type_error, request_digest) result" where
  "digest_compute X kind sender recipients content reply_to supersedes =
     (case payload_json X
        \<lparr> cp_kind = kind, cp_sender = sender, cp_recipients = sort recipients,
          cp_subject = rc_subject content, cp_summary = rc_summary content, cp_body = rc_body content,
          cp_reply_to = reply_to, cp_supersedes = supersedes \<rparr> of
        Inl e \<Rightarrow> Inl (SerializationError e)
      | Inr bytes \<Rightarrow> Inr (''v1:'' @ concat (map hex_byte (sha256 X bytes))))"

text \<open>Minting: \<open>random\<close> is the 32 hex digits of a fresh version-4 UUID.\<close>

definition mint_root :: "string \<Rightarrow> message_id" where
  "mint_root random =
     ''cyc-'' @ take message_id_part_len random @ ''-'' @ drop (length random - message_id_part_len) random"

definition thread_key :: "extern \<Rightarrow> message_id \<Rightarrow> string" where
  "thread_key X m =
     (case thread_part m of
        Some thread \<Rightarrow> thread
      | None \<Rightarrow> concat (map hex_byte
          (take (message_id_part_len div 2) (sha256 X (map of_char m)))))"

definition mint_in_thread :: "extern \<Rightarrow> string \<Rightarrow> message_id \<Rightarrow> message_id" where
  "mint_in_thread X random thread_root =
     ''cyc-'' @ thread_key X thread_root @ ''-'' @ take message_id_part_len random"

section \<open>Summaries\<close>

definition validate_message_summary :: "string \<Rightarrow> (mailbox_type_error, unit) result" where
  "validate_message_summary summary =
     (if summary = [] \<or> str_trim summary \<noteq> summary \<or> has_control summary
      then Inl InvalidMessageSummary else Inr ())"

text \<open>\<open>str::lines\<close>: split at line feeds, drop one trailing carriage return, no last empty line.\<close>

definition strip_cr :: "string \<Rightarrow> string" where
  "strip_cr s = (case strip_suffix [CHR 0x0D] s of Some t \<Rightarrow> t | None \<Rightarrow> s)"

definition str_lines :: "string \<Rightarrow> string list" where
  "str_lines s =
     (let parts = split_on (CHR 0x0A) s;
          body = map strip_cr (butlast parts)
      in if last parts = [] then body else body @ [last parts])"

text \<open>\<open>str::split_whitespace\<close> on segments, joined again by single spaces.\<close>

function segment_words :: "string list \<Rightarrow> string list" where
  "segment_words segs =
     (case dropWhile (\<lambda>seg. is_whitespace (code_point seg)) segs of
        [] \<Rightarrow> []
      | seg # rest \<Rightarrow>
          concat (seg # takeWhile (\<lambda>s. \<not> is_whitespace (code_point s)) rest)
            # segment_words (dropWhile (\<lambda>s. \<not> is_whitespace (code_point s)) rest))"
  by pat_completeness auto
termination
proof (relation "measure length")
  fix segs :: "string list" and seg rest
  assume d: "dropWhile (\<lambda>seg. is_whitespace (code_point seg)) segs = seg # rest"
  have "length (dropWhile (\<lambda>s. \<not> is_whitespace (code_point s)) rest) \<le> length rest"
    by (rule length_dropWhile_le)
  also have "length rest < length segs"
    using length_dropWhile_le [of "\<lambda>seg. is_whitespace (code_point seg)" segs] d by simp
  finally show "(dropWhile (\<lambda>s. \<not> is_whitespace (code_point s)) rest, segs) \<in> measure length"
    by simp
qed simp

declare segment_words.simps [simp del]

fun join_with :: "string \<Rightarrow> string list \<Rightarrow> string" where
  "join_with sep [] = []"
| "join_with sep [s] = s"
| "join_with sep (s # t # ss) = s @ sep @ join_with sep (t # ss)"

definition trim_end_segments :: "string list \<Rightarrow> string list" where
  "trim_end_segments segs = rev (dropWhile (\<lambda>seg. is_whitespace (code_point seg)) (rev segs))"

definition derive_from :: "string \<Rightarrow> string option" where
  "derive_from source =
     Option.bind (find (\<lambda>line. line \<noteq> []) (map str_trim (str_lines source))) (\<lambda>line.
       let joined = join_with '' '' (segment_words (char_segments line));
           summary = concat (trim_end_segments (take 200 (char_segments joined)))
       in case validate_message_summary summary of Inl e \<Rightarrow> None | Inr u \<Rightarrow> Some summary)"

definition derive_message_summary :: "string \<Rightarrow> string \<Rightarrow> string option" where
  "derive_message_summary body subject =
     (case derive_from subject of Some s \<Rightarrow> Some s | None \<Rightarrow> derive_from body)"

end
