(* ===== verification/Notification_Types.thy ===== *)
theory Notification_Types
  imports Message_Types
begin

text \<open>
  The durable notification data of \<open>cyclops-proto/src/notification.rs\<close>: the state of one
  wake attempt and its table of legal moves, the closed causes, the record projected
  for one message and recipient, and the facts the workspace journal stores. The
  journal line of \<open>ledger.rs\<close> is here too, since its structured data holds those facts.
\<close>

section \<open>Attempt states\<close>

type_synonym attempt_id = uuid

datatype notification_state =
    Queued
  | Gating
  | BlockedPreWrite
  | QuotaHeld
  | QuotaResetObserved
  | Writing
  | Staged
  | Submitting
  | Submitted
  | SubmittedUnverified
  | Notified
  | AttentionRequired
  | Withdrawn
  | WithdrawnAfterStaging
  | WithdrawnByOperator
  | Superseded

datatype notification_transport = Doorbell | DirectPayload | Raw | Mailbox

definition transport_default :: notification_transport where
  "transport_default = Doorbell"

fun can_transition_to :: "notification_state \<Rightarrow> notification_state \<Rightarrow> bool" where
  "can_transition_to Queued nxt = (nxt \<in> {Gating, WithdrawnByOperator, Notified})"
| "can_transition_to Gating nxt = (nxt \<in> {BlockedPreWrite, Writing, QuotaHeld, WithdrawnByOperator})"
| "can_transition_to BlockedPreWrite nxt = (nxt \<in> {Gating, Withdrawn, WithdrawnByOperator})"
| "can_transition_to QuotaHeld nxt = (nxt = QuotaResetObserved)"
| "can_transition_to QuotaResetObserved nxt = False"
| "can_transition_to Writing nxt =
     (nxt \<in> {Staged, Submitted, SubmittedUnverified, Notified, AttentionRequired})"
| "can_transition_to Staged nxt = (nxt \<in> {Submitting, AttentionRequired})"
| "can_transition_to Submitting nxt = (nxt \<in> {Submitted, SubmittedUnverified, AttentionRequired})"
| "can_transition_to Submitted nxt = (nxt \<in> {Notified, AttentionRequired})"
| "can_transition_to SubmittedUnverified nxt = (nxt \<in> {Notified, AttentionRequired})"
| "can_transition_to Notified nxt = False"
| "can_transition_to AttentionRequired nxt = False"
| "can_transition_to Withdrawn nxt = False"
| "can_transition_to WithdrawnAfterStaging nxt = False"
| "can_transition_to WithdrawnByOperator nxt = False"
| "can_transition_to Superseded nxt = False"

definition can_withdraw_before_write :: "notification_state \<Rightarrow> bool" where
  "can_withdraw_before_write s = (s \<in> {Queued, Gating, BlockedPreWrite})"

definition settled_by_claim :: "notification_state \<Rightarrow> notification_transport \<Rightarrow> notification_state" where
  "settled_by_claim s transport =
     (if s \<in> {Queued, Gating, BlockedPreWrite, QuotaHeld, QuotaResetObserved} \<and> transport = DirectPayload
      then Withdrawn
      else if s \<in> {Queued, Gating, BlockedPreWrite} \<and> transport = Doorbell then Withdrawn
      else if s \<in> {Submitted, SubmittedUnverified} \<and> transport = Doorbell then Notified
      else s)"

definition is_terminal :: "notification_state \<Rightarrow> bool" where
  "is_terminal s =
     (s \<in> {QuotaHeld, QuotaResetObserved, Notified, AttentionRequired, Withdrawn, WithdrawnAfterStaging,
       WithdrawnByOperator, Superseded})"

section \<open>Causes and evidence\<close>

datatype pre_write_cause =
    HeldForExistingDraft
  | SessionUnavailable
  | ManifestUnavailable
  | PayloadUnavailable
  | WriteReadinessChanged
  | SpoolFailed
  | PasteCommandUnwritten
  | BindingUnprovable
  | ComposerSemanticMissing
  | ComposerOwnershipUnproven
  | WorkerFailed
  | ClaimedBeforeWrite

fun pre_write_wire_name :: "pre_write_cause \<Rightarrow> string" where
  "pre_write_wire_name HeldForExistingDraft = ''held_for_existing_draft''"
| "pre_write_wire_name SessionUnavailable = ''session_unavailable''"
| "pre_write_wire_name ManifestUnavailable = ''manifest_unavailable''"
| "pre_write_wire_name PayloadUnavailable = ''payload_unavailable''"
| "pre_write_wire_name WriteReadinessChanged = ''write_readiness_changed''"
| "pre_write_wire_name SpoolFailed = ''spool_failed''"
| "pre_write_wire_name PasteCommandUnwritten = ''paste_command_unwritten''"
| "pre_write_wire_name BindingUnprovable = ''binding_unprovable''"
| "pre_write_wire_name ComposerSemanticMissing = ''composer_semantic_missing''"
| "pre_write_wire_name ComposerOwnershipUnproven = ''composer_ownership_unproven''"
| "pre_write_wire_name WorkerFailed = ''worker_failed''"
| "pre_write_wire_name ClaimedBeforeWrite = ''claimed_before_write''"

datatype message_wake_block =
    DaemonStopping
  | RouteUnavailable
  | AttentionResolutionPending
  | WorkerFaulted
  | WorkerSupervisorExited
  | EnqueueRefused
  | WakeComposerOwnershipUnproven
  | SchedulerStateUnavailable

fun wake_block_wire_name :: "message_wake_block \<Rightarrow> string" where
  "wake_block_wire_name DaemonStopping = ''daemon_stopping''"
| "wake_block_wire_name RouteUnavailable = ''route_unavailable''"
| "wake_block_wire_name AttentionResolutionPending = ''attention_resolution_pending''"
| "wake_block_wire_name WorkerFaulted = ''worker_faulted''"
| "wake_block_wire_name WorkerSupervisorExited = ''worker_supervisor_exited''"
| "wake_block_wire_name EnqueueRefused = ''enqueue_refused''"
| "wake_block_wire_name WakeComposerOwnershipUnproven = ''composer_ownership_unproven''"
| "wake_block_wire_name SchedulerStateUnavailable = ''scheduler_state_unavailable''"

type_synonym manifest_id = string

datatype notification_type_error = InvalidAttemptId | InvalidManifestId

definition manifest_id_new :: "string \<Rightarrow> (notification_type_error, manifest_id) result" where
  "manifest_id_new v =
     (if v = [] \<or> \<not> list_all is_ascii_graphic v then Inl InvalidManifestId else Inr v)"

record route_evidence_id =
  re_boot_id :: string
  re_generation :: nat

record notification_binding =
  bd_recipient :: recipient_key
  bd_pane_root :: "process_instance_id option"
  bd_leader :: "process_instance_id option"
  bd_agent :: process_instance_id
  bd_manifest :: manifest_id

record pre_write_observation =
  ob_write_block :: "string option"
  ob_pane_root :: "process_instance_id option"
  ob_selected_manifest :: "manifest_id option"
  ob_binding :: "notification_binding option"
  ob_route_evidence :: "route_evidence_id option"
  ob_pane_width :: "nat option"
  ob_required_pane_width :: "nat option"

datatype attention_cause =
    PasteFailed
  | VerifyFailed
  | PaneReboundAfterPaste
  | SubmitFailed
  | ReceiptOccupantChanged
  | AckTimeout
  | DaemonRestart
  | TransportOutcomeUnknown

fun valid_after :: "attention_cause \<Rightarrow> notification_state \<Rightarrow> bool" where
  "valid_after cause Writing =
     (cause \<in> {PasteFailed, VerifyFailed, PaneReboundAfterPaste, SubmitFailed, DaemonRestart,
       TransportOutcomeUnknown})"
| "valid_after cause Staged =
     (cause \<in> {VerifyFailed, PaneReboundAfterPaste, SubmitFailed, DaemonRestart, TransportOutcomeUnknown})"
| "valid_after cause Submitting =
     (cause \<in> {VerifyFailed, PaneReboundAfterPaste, SubmitFailed, DaemonRestart, TransportOutcomeUnknown})"
| "valid_after cause Submitted =
     (cause \<in> {ReceiptOccupantChanged, AckTimeout, DaemonRestart, TransportOutcomeUnknown})"
| "valid_after cause SubmittedUnverified =
     (cause \<in> {ReceiptOccupantChanged, AckTimeout, DaemonRestart, TransportOutcomeUnknown})"
| "valid_after cause Queued = False"
| "valid_after cause Gating = False"
| "valid_after cause BlockedPreWrite = False"
| "valid_after cause QuotaHeld = False"
| "valid_after cause QuotaResetObserved = False"
| "valid_after cause Notified = False"
| "valid_after cause AttentionRequired = False"
| "valid_after cause Withdrawn = False"
| "valid_after cause WithdrawnAfterStaging = False"
| "valid_after cause WithdrawnByOperator = False"
| "valid_after cause Superseded = False"

datatype verify_failure_kind = Mismatch | Timeout | OwnerMissing | Ambiguous

datatype composer_state =
    ComposerClean
  | HumanDraft
  | VendorGhostSuggestion
  | CyclopsNotificationStaged
  | CyclopsNotificationSubmitted
  | ComposerAmbiguous

datatype verify_outcome = VerifyOutcome verify_failure_kind composer_state

definition verify_outcome_ambiguous :: verify_outcome where
  "verify_outcome_ambiguous = VerifyOutcome Ambiguous ComposerAmbiguous"

datatype verified_by = Hook | Screen

datatype resolution = Complete | Discard

datatype consumption_evidence = ExactHookPrompt | AuthenticatedClaim | WorkingEdge

definition proves_exact_consumption :: "consumption_evidence \<Rightarrow> bool" where
  "proves_exact_consumption e = (e \<in> {ExactHookPrompt, AuthenticatedClaim})"

record consumption_observation =
  co_evidence :: consumption_evidence
  co_observed_at_ms :: nat

datatype barrier_retirement_cause =
    LifecycleReconciled
  | ComposerObservedClear
  | RecipientClaimedComposerClear
  | OccupantReplaced
  | PaneGone

section \<open>Doorbell formats\<close>

definition doorbell_format_compact_claim :: nat where
  "doorbell_format_compact_claim = 1"

definition doorbell_format_attempt_claim :: nat where
  "doorbell_format_attempt_claim = 2"

definition doorbell_format_attempt_only_claim :: nat where
  "doorbell_format_attempt_only_claim = 3"

definition doorbell_format_summary_claim :: nat where
  "doorbell_format_summary_claim = 4"

definition notification_resolution_proof_version :: nat where
  "notification_resolution_proof_version = 1"

definition doorbell_format_names_exact_attempt :: "nat option \<Rightarrow> bool" where
  "doorbell_format_names_exact_attempt fmt =
     (fmt \<in> {Some doorbell_format_attempt_claim, Some doorbell_format_attempt_only_claim,
        Some doorbell_format_summary_claim})"

section \<open>The projected record\<close>

record notification_record =
  nr_attempt_id :: attempt_id
  nr_message_id :: message_id
  nr_recipient :: recipient_key
  nr_state :: notification_state
  nr_binding :: "notification_binding option"
  nr_transport :: notification_transport
  nr_doorbell_format :: "nat option"
  nr_cause :: "attention_cause option"
  nr_verified_by :: "verified_by option"
  nr_verify_outcome :: "verify_outcome option"
  nr_pre_write_cause :: "pre_write_cause option"
  nr_wake_block :: "message_wake_block option"
  nr_pre_write_observation :: "pre_write_observation option"
  nr_pre_write_reopen_count :: nat
  nr_unclaimed_reminder_count :: nat
  nr_started_seq :: nat
  nr_updated_seq :: nat
  nr_updated_at :: nat

definition execution_epoch :: "notification_record \<Rightarrow> nat" where
  "execution_epoch r =
     saturating_add_u8 (saturating_mul_u8 (nr_pre_write_reopen_count r) 2) (nr_unclaimed_reminder_count r)"

definition complete_own_binding :: "notification_record \<Rightarrow> bool" where
  "complete_own_binding r =
     is_some_and (nr_binding r) (\<lambda>b.
       bd_recipient b = nr_recipient r \<and> bd_pane_root b \<noteq> None \<and> bd_leader b \<noteq> None)"

definition needs_exact_owned_reconciliation :: "notification_record \<Rightarrow> bool" where
  "needs_exact_owned_reconciliation r =
     (nr_state r = AttentionRequired \<and> nr_cause r = Some VerifyFailed \<and> nr_transport r = Doorbell \<and>
      doorbell_format_names_exact_attempt (nr_doorbell_format r) \<and> complete_own_binding r)"

definition needs_claimed_ack_timeout_reconciliation :: "notification_record \<Rightarrow> bool" where
  "needs_claimed_ack_timeout_reconciliation r =
     (nr_state r = AttentionRequired \<and> nr_cause r = Some AckTimeout \<and> nr_transport r = Doorbell \<and>
      doorbell_format_names_exact_attempt (nr_doorbell_format r) \<and> complete_own_binding r)"

section \<open>Journal facts\<close>

record transition_fact =
  tf_record_version :: nat
  tf_attempt_id :: attempt_id
  tf_message_id :: message_id
  tf_recipient :: recipient_key
  tf_state :: notification_state
  tf_binding :: "notification_binding option"
  tf_transport :: "notification_transport option"
  tf_doorbell_format :: "nat option"
  tf_cause :: "attention_cause option"
  tf_verified_by :: "verified_by option"
  tf_verify_outcome :: "verify_outcome option"
  tf_pre_write_cause :: "pre_write_cause option"
  tf_wake_block :: "message_wake_block option"
  tf_pre_write_observation :: "pre_write_observation option"

text \<open>The fields most facts share: version, attempt, message and recipient.\<close>

record attempt_fact =
  af_record_version :: nat
  af_attempt_id :: attempt_id
  af_message_id :: message_id
  af_recipient :: recipient_key

record notification_requeue =
  rq_prior_attempt_id :: attempt_id
  rq_attempt_id :: attempt_id
  rq_recipient :: recipient_key

datatype notification_fact =
    NotificationTransition transition_fact
  | NotificationUnclaimedReminderQueued attempt_fact
  | NotificationRequeued attempt_fact (requeued_prior: attempt_id)
  | NotificationsRequeued nat message_id "notification_requeue list"
  | NotificationCleared attempt_fact
  | NotificationsCleared nat string "attempt_id list" recipient_key "nat option"
  | NotificationWithdrawnBeforeWrite attempt_fact recipient_key
  | NotificationResolutionIntent attempt_fact resolution bool
  | NotificationResolutionActionReserved attempt_fact resolution
  | NotificationResolutionActionAccepted attempt_fact resolution
  | NotificationResolutionConsumptionObserved attempt_fact consumption_observation
  | NotificationResolutionIntentWithdrawn attempt_fact resolution
  | NotificationResolvedWithoutTerminalAction attempt_fact resolution
  | NotificationResolved nat attempt_fact resolution
  | NotificationClaimedStagedCleared attempt_fact
  | NotificationClaimedAckTimeoutReconciled attempt_fact
  | NotificationBarrierRetired attempt_fact barrier_retirement_cause "notification_binding option"

text \<open>The \<open>type\<close> tag serde writes for each variant.\<close>

fun notification_fact_tag :: "notification_fact \<Rightarrow> string" where
  "notification_fact_tag (NotificationTransition t) = ''notification_transition''"
| "notification_fact_tag (NotificationUnclaimedReminderQueued a) = ''notification_unclaimed_reminder_queued''"
| "notification_fact_tag (NotificationRequeued a p) = ''notification_requeued''"
| "notification_fact_tag (NotificationsRequeued v m rs) = ''notifications_requeued''"
| "notification_fact_tag (NotificationCleared a) = ''notification_cleared''"
| "notification_fact_tag (NotificationsCleared v b as oper c) = ''notifications_cleared''"
| "notification_fact_tag (NotificationWithdrawnBeforeWrite a oper) = ''notification_withdrawn_before_write''"
| "notification_fact_tag (NotificationResolutionIntent a r f) = ''notification_resolution_intent''"
| "notification_fact_tag (NotificationResolutionActionReserved a r) =
     ''notification_resolution_action_reserved''"
| "notification_fact_tag (NotificationResolutionActionAccepted a r) =
     ''notification_resolution_action_accepted''"
| "notification_fact_tag (NotificationResolutionConsumptionObserved a ob) =
     ''notification_resolution_consumption_observed''"
| "notification_fact_tag (NotificationResolutionIntentWithdrawn a r) =
     ''notification_resolution_intent_withdrawn''"
| "notification_fact_tag (NotificationResolvedWithoutTerminalAction a r) =
     ''notification_resolved_without_terminal_action''"
| "notification_fact_tag (NotificationResolved v a r) = ''notification_resolved''"
| "notification_fact_tag (NotificationClaimedStagedCleared a) = ''notification_claimed_staged_cleared''"
| "notification_fact_tag (NotificationClaimedAckTimeoutReconciled a) =
     ''notification_claimed_ack_timeout_reconciled''"
| "notification_fact_tag (NotificationBarrierRetired a c r) = ''notification_barrier_retired''"

section \<open>Mailbox entries and facts\<close>

datatype mailbox_entry_state =
    Pending
  | Claimed (claimed_claimant: recipient_key) (claimed_at: nat)
  | DeliveredDirect attempt_id nat
  | EntrySuperseded message_id nat

definition is_pending :: "mailbox_entry_state \<Rightarrow> bool" where
  "is_pending s = (s = Pending)"

definition is_claimed :: "mailbox_entry_state \<Rightarrow> bool" where
  "is_claimed s = (case s of Claimed c t \<Rightarrow> True | _ \<Rightarrow> False)"

definition entry_claimant :: "mailbox_entry_state \<Rightarrow> recipient_key option" where
  "entry_claimant s =
     (case s of Pending \<Rightarrow> None | DeliveredDirect a t \<Rightarrow> None | EntrySuperseded b t \<Rightarrow> None
      | Claimed c t \<Rightarrow> Some c)"

record mailbox_entry =
  me_message_id :: message_id
  me_recipient :: recipient_key
  me_state :: mailbox_entry_state
  me_seq :: nat
  me_created_at :: nat

record claim_fact =
  cf_record_version :: nat
  cf_message_id :: message_id
  cf_recipient :: recipient_key
  cf_claimant :: recipient_key

datatype mailbox_fact =
    MessageClaimed claim_fact
  | MessageDeliveredDirect attempt_fact

fun mailbox_fact_tag :: "mailbox_fact \<Rightarrow> string" where
  "mailbox_fact_tag (MessageClaimed c) = ''message_claimed''"
| "mailbox_fact_tag (MessageDeliveredDirect a) = ''message_delivered_direct''"

section \<open>Journal lines\<close>

text \<open>The compatibility delivery state machine of \<open>ledger.rs\<close>.\<close>

datatype delivery_state =
    DQueued
  | DGating
  | DPasting
  | DStaged
  | DSubmitted
  | DDeliveredVerified
  | DDeliveredUnverified
  | DRetryQueued
  | DAttentionRequired
  | DParkedBlockedQuota

fun delivery_can_transition_to :: "delivery_state \<Rightarrow> delivery_state \<Rightarrow> bool" where
  "delivery_can_transition_to DQueued nxt = (nxt \<in> {DGating, DAttentionRequired, DParkedBlockedQuota})"
| "delivery_can_transition_to DGating nxt =
     (nxt \<in> {DPasting, DRetryQueued, DAttentionRequired, DParkedBlockedQuota})"
| "delivery_can_transition_to DPasting nxt = (nxt \<in> {DStaged, DRetryQueued, DAttentionRequired})"
| "delivery_can_transition_to DStaged nxt = (nxt \<in> {DSubmitted, DRetryQueued, DAttentionRequired})"
| "delivery_can_transition_to DSubmitted nxt =
     (nxt \<in> {DDeliveredVerified, DDeliveredUnverified, DRetryQueued, DAttentionRequired})"
| "delivery_can_transition_to DDeliveredUnverified nxt = (nxt = DDeliveredVerified)"
| "delivery_can_transition_to DDeliveredVerified nxt = False"
| "delivery_can_transition_to DRetryQueued nxt = (nxt \<in> {DGating, DAttentionRequired, DParkedBlockedQuota})"
| "delivery_can_transition_to DAttentionRequired nxt = (nxt = DQueued)"
| "delivery_can_transition_to DParkedBlockedQuota nxt = (nxt = DQueued)"

definition delivery_is_terminal :: "delivery_state \<Rightarrow> bool" where
  "delivery_is_terminal s = (s \<in> {DDeliveredVerified, DAttentionRequired, DParkedBlockedQuota})"

record delivery =
  dl_to :: string
  dl_state :: delivery_state
  dl_verified_by :: "verified_by option"
  dl_attempts :: nat
  dl_ts :: nat
  dl_cause :: "string option"

text \<open>
  The structured data of a line is a JSON value. The messaging code reads it in four
  ways, and the model keeps exactly those: the string under \<open>type\<close>, and what
  \<open>serde_json::from_value\<close> makes of it as message metadata, as a mailbox fact and as a
  notification fact (\<open>Inl\<close> is serde's error text).
\<close>

record row_data =
  rd_type :: "string option"
  rd_metadata :: "message_metadata option"
  rd_mailbox_fact :: "(string, mailbox_fact) result"
  rd_notification_fact :: "(string, notification_fact) result"

record ledger_line =
  ln_seq :: nat
  ln_boot_id :: string
  ln_id :: string
  ln_ts :: nat
  ln_kind :: kind
  ln_from :: string
  ln_to :: "string list"
  ln_subject :: "string option"
  ln_body :: "string option"
  ln_reply_to :: "string option"
  ln_deliveries :: "delivery list"
  ln_data :: "row_data option"

text \<open>\<open>serde_json::to_value\<close> of metadata and of facts: the value reads back as what it was.\<close>

definition metadata_value :: "message_metadata \<Rightarrow> row_data" where
  "metadata_value md =
     \<lparr> rd_type = None, rd_metadata = Some md, rd_mailbox_fact = Inl ''missing field `type`'',
       rd_notification_fact = Inl ''missing field `type`'' \<rparr>"

definition mailbox_fact_value :: "mailbox_fact \<Rightarrow> row_data" where
  "mailbox_fact_value f =
     \<lparr> rd_type = Some (mailbox_fact_tag f), rd_metadata = None, rd_mailbox_fact = Inr f,
       rd_notification_fact = Inl ''unknown variant'' \<rparr>"

definition notification_fact_value :: "notification_fact \<Rightarrow> row_data" where
  "notification_fact_value f =
     \<lparr> rd_type = Some (notification_fact_tag f), rd_metadata = None,
       rd_mailbox_fact = Inl ''unknown variant'', rd_notification_fact = Inr f \<rparr>"

section \<open>Laws of the state tables\<close>

lemma transport_default_simp [simp]: "transport_default = Doorbell"
  by (simp add: transport_default_def)

text \<open>States of an attempt whose pane may hold, or may have held, the doorbell.\<close>

definition past_write_boundary :: "notification_state \<Rightarrow> bool" where
  "past_write_boundary s =
     (s \<in> {Writing, Staged, Submitting, Submitted, SubmittedUnverified, Notified, AttentionRequired})"

lemma past_write_boundary_closed:
  "past_write_boundary s \<Longrightarrow> can_transition_to s t \<Longrightarrow> past_write_boundary t"
  by (cases s) (auto simp: past_write_boundary_def)

lemma settled_by_claim_past_write:
  "past_write_boundary s \<Longrightarrow> past_write_boundary (settled_by_claim s tr)"
  by (auto simp: past_write_boundary_def settled_by_claim_def)

lemma settled_by_claim_idem [simp]:
  "settled_by_claim (settled_by_claim s tr) tr = settled_by_claim s tr"
  by (auto simp: settled_by_claim_def)

lemma can_transition_to_irrefl: "\<not> can_transition_to s s"
  by (cases s) auto

end
