(* ===== verification/Mailbox_State.thy ===== *)
theory Mailbox_State
  imports Notification_Types
begin

text \<open>
  The data of \<open>cyclopsd/src/mailbox/projection.rs\<close>: the errors of the messaging code, the
  drafts a client submits, the mutations a validated line prepares, and the projection
  itself with its point reads. A \<open>HashMap\<close> of the source is a \<open>hash_map\<close>, a \<open>BTreeMap\<close> a
  \<open>btree_map\<close>.

  Error constructors carry the values the source formats, not their rendering with
  \<open>Debug\<close>: \<open>PresentationMismatch\<close> holds the two lists of texts it compares. The one
  \<open>enum\<close> of the source is a sum of three groups here: messages and rows (\<open>Mail\<close>), the life
  of an attempt (\<open>Wake\<close>), and what an operator does to it (\<open>Settle\<close>).
\<close>

section \<open>Errors\<close>

datatype message_error =
    MessageNotFound message_id
  | ReplyNotVisible message_id recipient_key
  | ReplyRecipientMismatch message_id recipient_key
  | ReplySubjectMismatch message_id
  | ReplyKindMismatch message_id
  | ThreadRootMismatch message_id message_id message_id
  | EntryNotFound message_id recipient_key
  | AlreadyClaimed message_id recipient_key recipient_key
  | ClaimantMismatch message_id recipient_key recipient_key
  | EnvelopeMismatch string message_id
  | DuplicateMessageId message_id
  | NonContiguousSequence nat nat
  | DuplicateIdempotencyKey recipient_key string message_id
  | DraftEmptyRecipients
  | DraftDuplicateRecipient recipient_key
  | EmptyRecipients message_id
  | DuplicateRecipient message_id recipient_key
  | EmptyClientKey
  | SupersessionRequiresSingleRecipient
  | SupersessionNotPending message_id
  | SupersessionNotificationStarted message_id
  | MessageNotPending message_id
  | SupersessionIdentityMismatch message_id
  | ReplySupersessionConflict
  | InvalidPresentation string
  | InvalidKind kind
  | WorkspaceMismatch workspace_id workspace_id
  | InvalidCursor nat nat
  | InvalidRecordVersion nat nat
  | UncanonicalRow string
  | PresentationMismatch string "string list" "string list"
  | DigestMismatch request_digest request_digest
  | MissingMetadata string
  | InvalidFact string

datatype wake_error =
    NotificationNotFound message_id recipient_key
  | NotificationMessageNotPending message_id recipient_key
  | DirectDeliveryNotProven attempt_id
  | NotificationAttemptReused attempt_id
  | NotificationAttemptMismatch attempt_id attempt_id
  | InvalidNotificationTransition notification_state notification_state
  | NotificationBindingRequired
  | NotificationBindingForbidden
  | NotificationVerifiedByForbidden
  | NotificationBindingMismatch
  | NotificationTransportForbidden
  | NotificationDoorbellFormatForbidden
  | UnsupportedNotificationDoorbellFormat nat
  | NotificationCauseRequired
  | NotificationCauseForbidden
  | NotificationVerifyOutcomeRequired
  | NotificationVerifyOutcomeForbidden
  | NotificationPreWriteCauseRequired
  | NotificationPreWriteObservationRequired
  | NotificationPaneWidthNotNarrow nat nat
  | NotificationPreWriteReopenExhausted
  | NotificationPreWriteCauseForbidden
  | InvalidNotificationCause attention_cause notification_state
  | NotificationRecipientNotAgent

datatype settlement_error =
    NotificationRequeueRequiresAttention
  | NotificationClearRequiresAttention
  | NotificationNewerThanClearCutoff attempt_id nat nat
  | NotificationClearOperatorInvalid
  | NotificationWithdrawalRequiresPreWrite
  | NotificationWithdrawalOperatorInvalid
  | NotificationWithdrawalRecipientMismatch recipient_key recipient_key
  | NotificationAttemptUnknown attempt_id
  | NotificationAttemptClaimLocatorConflict message_id
  | NotificationAlreadyResolved attempt_id
  | NotificationResolutionAmbiguous attempt_id
  | NotificationBarrierNotActive attempt_id
  | NotificationBarrierReplacementRequired
  | NotificationBarrierReplacementForbidden
  | NotificationBarrierReplacementUnchanged
  | NotificationBarrierRetirementState barrier_retirement_cause notification_state
  | NotificationResolutionInProgress attempt_id
  | NotificationAutomaticResolutionNotEligible attempt_id
  | NoUnresolvedAttention message_id
  | AmbiguousAttentionTarget message_id "attempt_id list"
  | InvalidAttentionTarget string
  | InvalidNotificationFact string

datatype mailbox_error =
    Mail message_error
  | Wake wake_error
  | Settle settlement_error
  | MailboxType mailbox_type_error

section \<open>Drafts and outcomes\<close>

record message_draft =
  dr_kind :: kind
  dr_sender :: recipient_key
  dr_recipients :: "recipient_key list"
  dr_subject :: "string option"
  dr_summary :: "string option"
  dr_body :: "string option"
  dr_client_key :: "string option"
  dr_supersedes :: "message_id option"
  dr_presentation :: message_presentation
  dr_raw :: bool
  dr_broadcast :: bool

record reply_draft =
  rd_sender :: recipient_key
  rd_reference :: message_id
  rd_summary :: "string option"
  rd_body :: "string option"
  rd_client_key :: "string option"
  rd_sender_label :: string
  rd_recipient_label :: string
  rd_raw :: bool

record canonical_draft =
  cd_kind :: kind
  cd_sender :: recipient_key
  cd_recipients :: "recipient_key list"
  cd_subject :: "string option"
  cd_summary :: "string option"
  cd_body :: "string option"
  cd_reply_to :: "message_id option"
  cd_client_key :: "string option"
  cd_supersedes :: "message_id option"
  cd_presentation :: message_presentation
  cd_raw :: bool
  cd_broadcast :: bool

datatype acceptance_outcome =
    NewMessage (new_request_digest: request_digest)
  | ExistingMessage message_id

record reply_derivation =
  dv_recipient :: recipient_key
  dv_thread_root :: message_id
  dv_subject :: "string option"

section \<open>The projection\<close>

type_synonym entry_key = "recipient_key \<times> message_id"

record mailbox_projection =
  workspace_id :: workspace_id
  last_workspace_seq :: "nat option"
  messages :: "(message_id, ledger_line) hash_map"
  idempotency_index :: "(recipient_key \<times> string, message_id \<times> request_digest) hash_map"
  mailboxes :: "(recipient_key, (nat, mailbox_entry) btree_map) hash_map"
  mailbox_index :: "(entry_key, nat) hash_map"
  notifications :: "(entry_key, notification_record) hash_map"
  active_notification_barriers :: "(attempt_id, notification_record) hash_map"
  claimed_ack_timeout_reconciliations :: "attempt_id hash_set"
  notification_attempts :: "attempt_id hash_set"
  cleared_attempts :: "attempt_id hash_set"
  clearance_batches :: "string hash_set"
  resolved_attempts :: "(attempt_id, resolution) hash_map"
  resolution_intents :: "(attempt_id, resolution) hash_map"
  forced_resolution_intents :: "attempt_id hash_set"
  resolution_action_reservations :: "(attempt_id, resolution) hash_map"
  resolution_action_reservation_sequences :: "(attempt_id, nat) hash_map"
  resolution_actions_accepted :: "(attempt_id, resolution) hash_map"
  resolution_action_sequences :: "(attempt_id, nat) hash_map"
  claim_sequences :: "(entry_key, nat) hash_map"
  notification_write_sequences :: "(attempt_id, nat) hash_map"
  resolution_consumptions :: "(attempt_id, consumption_observation) hash_map"

definition mailbox_projection_new :: "Identity.workspace_id \<Rightarrow> mailbox_projection" where
  "mailbox_projection_new ws =
     \<lparr> workspace_id = ws, last_workspace_seq = None, messages = [], idempotency_index = [],
       mailboxes = [], mailbox_index = [], notifications = [], active_notification_barriers = [],
       claimed_ack_timeout_reconciliations = [], notification_attempts = [], cleared_attempts = [],
       clearance_batches = [], resolved_attempts = [], resolution_intents = [],
       forced_resolution_intents = [], resolution_action_reservations = [],
       resolution_action_reservation_sequences = [], resolution_actions_accepted = [],
       resolution_action_sequences = [], claim_sequences = [], notification_write_sequences = [],
       resolution_consumptions = [] \<rparr>"

section \<open>Prepared mutations\<close>

record notification_projection_update =
  up_key :: entry_key
  up_record :: notification_record

datatype prepared_mutation =
    PreparedMessage message_id message_metadata "notification_projection_update option"
  | PreparedClaim message_id recipient_key recipient_key "notification_projection_update option"
  | PreparedDeliveredDirect message_id recipient_key attempt_id
  | PreparedNotification entry_key notification_record bool
  | PreparedRequeues "(entry_key \<times> notification_record) list"
  | PreparedCleared attempt_id
  | PreparedClears string "attempt_id list"
  | PreparedWithdrawnBeforeWrite entry_key notification_record
  | PreparedResolutionIntent attempt_id resolution bool
  | PreparedActionReserved attempt_id resolution
  | PreparedActionAccepted attempt_id resolution
  | PreparedConsumptionObserved attempt_id consumption_observation
  | PreparedIntentWithdrawn attempt_id
  | PreparedResolvedWithoutTerminalAction attempt_id resolution
  | PreparedResolved attempt_id resolution
  | PreparedClaimedStagedCleared entry_key notification_record attempt_id
  | PreparedClaimedAckTimeoutReconciled entry_key notification_record attempt_id
  | PreparedBarrierRetired attempt_id

section \<open>Contracts of one record\<close>

definition uses_legacy_notification_write_contract :: "notification_record \<Rightarrow> bool" where
  "uses_legacy_notification_write_contract r =
     ((case nr_transport r of
         Doorbell \<Rightarrow> nr_doorbell_format r \<in> {None, Some doorbell_format_compact_claim}
       | DirectPayload \<Rightarrow> nr_doorbell_format r = None
       | Raw \<Rightarrow> False
       | Mailbox \<Rightarrow> False) \<and>
      is_some_and (nr_binding r) (\<lambda>b. bd_pane_root b = None))"

definition uses_incomplete_legacy_doorbell_contract :: "notification_record \<Rightarrow> bool" where
  "uses_incomplete_legacy_doorbell_contract r =
     (nr_transport r = Doorbell \<and> nr_doorbell_format r \<in> {None, Some doorbell_format_compact_claim} \<and>
      is_some_and (nr_binding r) (\<lambda>b. bd_pane_root b = None))"

definition withdrawn_by_claim_before_write :: "notification_record \<Rightarrow> bool" where
  "withdrawn_by_claim_before_write r =
     (nr_state r = Withdrawn \<and> nr_pre_write_cause r = Some ClaimedBeforeWrite)"

definition notification_transition_allowed ::
  "notification_record \<Rightarrow> notification_state \<Rightarrow> pre_write_cause option \<Rightarrow> bool \<Rightarrow> bool" where
  "notification_transition_allowed r nxt cause replaying =
     (can_transition_to (nr_state r) nxt \<or>
      (nr_state r = Writing \<and> nxt = BlockedPreWrite \<and> cause = Some PasteCommandUnwritten) \<or>
      (replaying \<and> nr_state r = Staged \<and> nxt = Submitted \<and> uses_legacy_notification_write_contract r) \<or>
      (replaying \<and> withdrawn_by_claim_before_write r \<and> nxt \<in> {Gating, BlockedPreWrite, Writing}))"

definition notification_pre_write_width_block :: "notification_record \<Rightarrow> (nat \<times> nat) option" where
  "notification_pre_write_width_block r =
     (if nr_state r \<noteq> BlockedPreWrite \<or> nr_pre_write_cause r \<noteq> Some WriteReadinessChanged then None
      else case nr_pre_write_observation r of
        None \<Rightarrow> None
      | Some ob \<Rightarrow>
          (case (ob_pane_width ob, ob_required_pane_width ob) of
             (Some observed, Some required) \<Rightarrow> if observed < required then Some (observed, required) else None
           | _ \<Rightarrow> None))"

definition notification_wake_block :: "notification_record \<Rightarrow> bool \<Rightarrow> message_wake_block option" where
  "notification_wake_block r attention_resolution_pending =
     (case nr_wake_block r of
        Some b \<Rightarrow> Some b
      | None \<Rightarrow> if attention_resolution_pending then Some AttentionResolutionPending else None)"

definition route_evidence_is_later :: "route_evidence_id \<Rightarrow> route_evidence_id \<Rightarrow> bool" where
  "route_evidence_is_later prior current =
     (re_boot_id prior \<noteq> re_boot_id current \<or> re_generation current > re_generation prior)"

section \<open>Point reads\<close>

definition extract_message_metadata :: "ledger_line \<Rightarrow> (mailbox_error, message_metadata) result" where
  "extract_message_metadata line =
     ok_or (Option.bind (ln_data line) rd_metadata) (Mail (MissingMetadata (ln_id line)))"

definition get_message :: "mailbox_projection \<Rightarrow> message_id \<Rightarrow> ledger_line option" where
  "get_message p m = hm_get (messages p) m"

definition get_entry :: "mailbox_projection \<Rightarrow> recipient_key \<Rightarrow> message_id \<Rightarrow> mailbox_entry option" where
  "get_entry p r m =
     Option.bind (hm_get (mailbox_index p) (r, m)) (\<lambda>seq.
     Option.bind (hm_get (mailboxes p) r) (\<lambda>mb. bt_get mb seq))"

text \<open>
  \<open>get_entry_mut(..).expect(..)\<close> followed by an assignment of the entry's state: the
  value \<open>None\<close> is the panic.
\<close>

definition set_entry_state ::
  "mailbox_projection \<Rightarrow> recipient_key \<Rightarrow> message_id \<Rightarrow> mailbox_entry_state \<Rightarrow> mailbox_projection option" where
  "set_entry_state p r m st =
     Option.bind (hm_get (mailbox_index p) (r, m)) (\<lambda>seq.
     Option.bind (hm_get (mailboxes p) r) (\<lambda>mb.
     Option.bind (bt_get mb seq) (\<lambda>entry.
       Some (p\<lparr> mailboxes := hm_insert r (bt_modify seq (me_state_update (\<lambda>_. st)) mb) (mailboxes p) \<rparr>))))"

definition entry_is_pending :: "mailbox_projection \<Rightarrow> recipient_key \<Rightarrow> message_id \<Rightarrow> bool" where
  "entry_is_pending p r m = is_some_and (get_entry p r m) (\<lambda>e. is_pending (me_state e))"

definition require_pending_entry ::
  "mailbox_projection \<Rightarrow> recipient_key \<Rightarrow> message_id \<Rightarrow> (mailbox_error, unit) result" where
  "require_pending_entry p r m =
     rbind (ok_or (get_entry p r m) (Mail (EntryNotFound m r))) (\<lambda>entry.
     if \<not> is_pending (me_state entry) then Inl (Wake (NotificationMessageNotPending m r))
     else Inr ())"

definition get_mailbox :: "mailbox_projection \<Rightarrow> recipient_key \<Rightarrow> mailbox_entry list" where
  "get_mailbox p r = (case hm_get (mailboxes p) r of None \<Rightarrow> [] | Some mb \<Rightarrow> bt_values mb)"

definition get_pending :: "mailbox_projection \<Rightarrow> recipient_key \<Rightarrow> mailbox_entry list" where
  "get_pending p r =
     (case hm_get (mailboxes p) r of
        None \<Rightarrow> []
      | Some mb \<Rightarrow> filter (\<lambda>e. is_pending (me_state e)) (bt_values mb))"

definition notification :: "mailbox_projection \<Rightarrow> recipient_key \<Rightarrow> message_id \<Rightarrow> notification_record option" where
  "notification p r m = hm_get (notifications p) (r, m)"

definition notification_by_attempt :: "mailbox_projection \<Rightarrow> attempt_id \<Rightarrow> notification_record option" where
  "notification_by_attempt p a = find (\<lambda>r. nr_attempt_id r = a) (hm_values (notifications p))"

text \<open>The \<open>matches!(.., Claimed { claimant, .. } if claimant == recipient)\<close> of two validators.\<close>

definition claimed_by :: "mailbox_entry \<Rightarrow> recipient_key \<Rightarrow> bool" where
  "claimed_by e r = (case me_state e of Claimed c t \<Rightarrow> c = r | _ \<Rightarrow> False)"

definition exact_recipient_claimed_after_write :: "mailbox_projection \<Rightarrow> notification_record \<Rightarrow> bool" where
  "exact_recipient_claimed_after_write p r =
     (case hm_get (notification_write_sequences p) (nr_attempt_id r) of
        None \<Rightarrow> False
      | Some write_seq \<Rightarrow>
          (case hm_get (claim_sequences p) (nr_recipient r, nr_message_id r) of
             None \<Rightarrow> False
           | Some claim_seq \<Rightarrow>
               claim_seq > write_seq \<and>
               is_some_and (get_entry p (nr_recipient r) (nr_message_id r)) (\<lambda>e. claimed_by e (nr_recipient r))))"

definition alarm_cleared :: "mailbox_projection \<Rightarrow> attempt_id \<Rightarrow> bool" where
  "alarm_cleared p a = hs_contains (cleared_attempts p) a"

definition attention_resolved :: "mailbox_projection \<Rightarrow> attempt_id \<Rightarrow> bool" where
  "attention_resolved p a = hm_contains_key (resolved_attempts p) a"

definition attention_resolution_pending :: "mailbox_projection \<Rightarrow> attempt_id \<Rightarrow> bool" where
  "attention_resolution_pending p a =
     (hm_contains_key (resolution_intents p) a \<and> \<not> hm_contains_key (resolved_attempts p) a)"

definition attention_resolution_intent :: "mailbox_projection \<Rightarrow> attempt_id \<Rightarrow> resolution option" where
  "attention_resolution_intent p a =
     (if attention_resolution_pending p a then hm_get (resolution_intents p) a else None)"

definition find_by_idempotency :: "mailbox_projection \<Rightarrow> recipient_key \<Rightarrow> string \<Rightarrow> ledger_line option" where
  "find_by_idempotency p sender key =
     Option.bind (hm_get (idempotency_index p) (sender, key)) (\<lambda>(m, d). get_message p m)"

section \<open>Facts about point reads\<close>

lemma require_pending_entry_iff [result_simps]:
  "require_pending_entry p r m = Inr u \<longleftrightarrow> (\<exists>e. get_entry p r m = Some e \<and> me_state e = Pending)"
  by (auto simp: require_pending_entry_def result_simps is_pending_def)

lemma set_entry_state_Some_iff:
  "(\<exists>p'. set_entry_state p r m st = Some p') \<longleftrightarrow> get_entry p r m \<noteq> None"
  by (auto simp: set_entry_state_def get_entry_def bind_eq_Some_conv)

end
