(* ===== verification/Directory.thy ===== *)
theory Directory
  imports Mailbox_State
begin

text \<open>
  \<open>cyclopsd/src/mailbox/directory.rs\<close>: display labels, the subject of a reply, and the
  directory that turns the addresses of a send into durable recipient identities.
\<close>

section \<open>Labels\<close>

text \<open>A value between the single quotes of a diagnostic.\<close>

definition quoted :: "string \<Rightarrow> string" where
  "quoted s = CHR 0x27 # s @ [CHR 0x27]"

definition validate_display_label :: "string \<Rightarrow> string \<Rightarrow> (mailbox_error, unit) result" where
  "validate_display_label kind label =
     (if label = [] \<or> has_control label
      then Inl (Mail (InvalidPresentation (kind @ '' label must be non-empty and contain no control characters'')))
      else Inr ())"

text \<open>One turn of the loop over \<open>recipients.iter().zip(labels).enumerate()\<close>.\<close>

definition presentation_label ::
  "extern \<Rightarrow> nat \<times> recipient_key \<times> recipient_presentation \<Rightarrow> (mailbox_error, string) result" where
  "presentation_label X row =
     (case row of (index, expected, snapshot) \<Rightarrow>
       if rp_recipient snapshot \<noteq> expected
       then Inl (Mail (InvalidPresentation
         (''recipient label '' @ show_nat index @ '' is bound to '' @ quoted (key_to_string X (rp_recipient snapshot))
            @ '', expected '' @ quoted (key_to_string X expected))))
       else rbind (validate_display_label ''recipient'' (rp_label snapshot)) (\<lambda>_. Inr (rp_label snapshot)))"

definition presentation_labels ::
  "extern \<Rightarrow> recipient_key list \<Rightarrow> message_presentation \<Rightarrow> (mailbox_error, string \<times> string list) result" where
  "presentation_labels X recipients presentation =
     rbind (validate_display_label ''sender'' (sender_label presentation)) (\<lambda>_.
     if length (recipient_labels presentation) \<noteq> length recipients
     then Inl (Mail (InvalidPresentation
       (''expected '' @ show_nat (length recipients) @ '' recipient labels, found ''
          @ show_nat (length (recipient_labels presentation)))))
     else rbind (try_map (presentation_label X)
                   (zip [0..<length recipients] (zip recipients (recipient_labels presentation)))) (\<lambda>labels.
       Inr (sender_label presentation, labels)))"

definition reply_subject :: "string option \<Rightarrow> string option" where
  "reply_subject parent =
     map_option (\<lambda>subject. if strip_prefix ''Re: '' subject \<noteq> None then subject else ''Re: '' @ subject) parent"

section \<open>The directory\<close>

record mailbox_identity =
  id_key :: recipient_key
  id_label :: string

record mailbox_directory =
  dir_workspace_id :: Identity.workspace_id
  by_address :: "(string, mailbox_identity) hash_map"
  by_pane :: "(nat, mailbox_identity) hash_map"
  by_recipient :: "(recipient_key, mailbox_identity) hash_map"

datatype mailbox_directory_error =
    ForeignWorkspace
  | AdminEntry
  | InvalidLabel
  | DuplicateAddress string
  | UnknownRecipient string
  | MixedRecipientSelectors
  | ReplyRecipientSelectors
  | MixedBroadcast

definition pane_text :: "nat \<Rightarrow> string" where
  "pane_text pane = tmux_id_to_string (CHR ''%'') pane"

text \<open>\<open>insert(..).is_some()\<close>: the key was taken.\<close>

definition insert_address ::
  "string \<Rightarrow> mailbox_identity \<Rightarrow> mailbox_directory \<Rightarrow> (mailbox_directory_error, mailbox_directory) result" where
  "insert_address address identity dir =
     (if hm_contains_key (by_address dir) address then Inl (DuplicateAddress address)
      else Inr (dir\<lparr> by_address := hm_insert address identity (by_address dir) \<rparr>))"

definition push_candidate ::
  "nat \<Rightarrow> mailbox_identity \<Rightarrow> (nat, mailbox_identity list) hash_map \<Rightarrow> (nat, mailbox_identity list) hash_map" where
  "push_candidate pane identity cands =
     hm_insert pane ((case hm_get cands pane of None \<Rightarrow> [] | Some is \<Rightarrow> is) @ [identity]) cands"

text \<open>The first loop of \<open>MailboxDirectory::new\<close>, over the agents.\<close>

definition directory_add ::
  "extern \<Rightarrow> mailbox_identity \<Rightarrow> mailbox_directory \<times> (nat, mailbox_identity list) hash_map \<Rightarrow>
   (mailbox_directory_error, mailbox_directory \<times> (nat, mailbox_identity list) hash_map) result" where
  "directory_add X identity acc =
     (case acc of (dir, cands) \<Rightarrow>
       if rk_workspace (id_key identity) \<noteq> dir_workspace_id dir then Inl ForeignWorkspace
       else if is_admin (id_key identity) then Inl AdminEntry
       else if id_label identity = [] \<or> has_control (id_label identity) then Inl InvalidLabel
       else
         let pane = key_pane_id (id_key identity) in
         rbind (if is_none_or pane (\<lambda>n. id_label identity \<noteq> pane_text n)
                then insert_address (id_label identity) identity dir else Inr dir) (\<lambda>dir.
         if hm_contains_key (by_recipient dir) (id_key identity)
         then Inl (DuplicateAddress
           (case pane of Some n \<Rightarrow> pane_text n | None \<Rightarrow> key_to_string X (id_key identity)))
         else
           let dir = dir\<lparr> by_recipient := hm_insert (id_key identity) identity (by_recipient dir) \<rparr> in
           Inr (dir, case pane of Some n \<Rightarrow> push_candidate n identity cands | None \<Rightarrow> cands)))"

fun directory_agents ::
  "extern \<Rightarrow> mailbox_identity list \<Rightarrow> mailbox_directory \<times> (nat, mailbox_identity list) hash_map \<Rightarrow>
   (mailbox_directory_error, mailbox_directory \<times> (nat, mailbox_identity list) hash_map) result" where
  "directory_agents X [] acc = Inr acc"
| "directory_agents X (identity # agents) acc = rbind (directory_add X identity acc) (directory_agents X agents)"

text \<open>The second loop: a pane number becomes an address when one session has it.\<close>

fun directory_panes ::
  "(nat \<times> mailbox_identity list) list \<Rightarrow> mailbox_directory \<Rightarrow> (mailbox_directory_error, mailbox_directory) result" where
  "directory_panes [] dir = Inr dir"
| "directory_panes ((pane, [identity]) # cands) dir =
     rbind (insert_address (pane_text pane) identity dir) (\<lambda>dir.
     directory_panes cands (dir\<lparr> by_pane := hm_insert pane identity (by_pane dir) \<rparr>))"
| "directory_panes ((pane, _) # cands) dir = directory_panes cands dir"

definition directory_new ::
  "extern \<Rightarrow> Identity.workspace_id \<Rightarrow> mailbox_identity list \<Rightarrow> (mailbox_directory_error, mailbox_directory) result" where
  "directory_new X ws agents =
     rbind (directory_agents X agents
              (\<lparr> dir_workspace_id = ws, by_address = [], by_pane = [], by_recipient = [] \<rparr>, [])) (\<lambda>(dir, cands).
     directory_panes cands dir)"

definition directory_admin :: "mailbox_directory \<Rightarrow> mailbox_identity" where
  "directory_admin dir = \<lparr> id_key = key_admin (dir_workspace_id dir), id_label = ''admin'' \<rparr>"

definition agent_for_pane :: "mailbox_directory \<Rightarrow> nat \<Rightarrow> mailbox_identity option" where
  "agent_for_pane dir pane = hm_get (by_pane dir) pane"

definition identity_for_recipient :: "mailbox_directory \<Rightarrow> recipient_key \<Rightarrow> mailbox_identity option" where
  "identity_for_recipient dir r =
     (if r = id_key (directory_admin dir) then Some (directory_admin dir) else hm_get (by_recipient dir) r)"

definition routes :: "mailbox_directory \<Rightarrow> mailbox_identity list" where
  "routes dir = sort_key id_key (directory_admin dir # hm_values (by_recipient dir))"

record message_recipient_route =
  rt_label :: string
  rt_pane_id :: "nat option"

definition current_routes :: "mailbox_directory \<Rightarrow> (recipient_key, message_recipient_route) hash_map" where
  "current_routes dir =
     map (\<lambda>(r, identity). (r, \<lparr> rt_label = id_label identity, rt_pane_id = key_pane_id r \<rparr>)) (by_recipient dir)"

text \<open>The \<open>seen\<close> set of both resolvers: an identity is listed once, at its first mention.\<close>

fun first_mentions :: "recipient_key list \<Rightarrow> mailbox_identity list \<Rightarrow> mailbox_identity list" where
  "first_mentions seen [] = []"
| "first_mentions seen (i # is) =
     (if id_key i \<in> set seen then first_mentions seen is else i # first_mentions (id_key i # seen) is)"

definition resolve ::
  "mailbox_directory \<Rightarrow> string list \<Rightarrow> (mailbox_directory_error, mailbox_identity list) result" where
  "resolve dir addresses =
     (if addresses = [''*''] then Inr (sort_key id_key (hm_values (by_recipient dir)))
      else if ''*'' \<in> set addresses then Inl MixedBroadcast
      else rbind (try_map (\<lambda>address.
               if address = ''admin'' then Inr (directory_admin dir)
               else ok_or (hm_get (by_address dir) address) (UnknownRecipient address)) addresses) (\<lambda>identities.
             Inr (first_mentions [] identities)))"

definition resolve_recipient_keys ::
  "extern \<Rightarrow> mailbox_directory \<Rightarrow> recipient_key list \<Rightarrow> (mailbox_directory_error, mailbox_identity list) result" where
  "resolve_recipient_keys X dir keys =
     rbind (try_map (\<lambda>r.
         if rk_workspace r \<noteq> dir_workspace_id dir then Inl ForeignWorkspace
         else ok_or (identity_for_recipient dir r) (UnknownRecipient (key_to_string X r))) keys) (\<lambda>identities.
     Inr (first_mentions [] identities))"

section \<open>Facts about labels\<close>

lemma validate_display_label_iff [result_simps]:
  "validate_display_label k l = Inr u \<longleftrightarrow> l \<noteq> [] \<and> \<not> has_control l"
  by (simp add: validate_display_label_def)

lemma presentation_label_iff [result_simps]:
  "presentation_label X (i, r, s) = Inr l \<longleftrightarrow>
     rp_recipient s = r \<and> rp_label s \<noteq> [] \<and> \<not> has_control (rp_label s) \<and> l = rp_label s"
  by (auto simp: presentation_label_def result_simps)

lemma reply_subject_idem: "reply_subject (reply_subject s) = reply_subject s"
  by (cases s) (auto simp: reply_subject_def strip_prefix_def)

end
