(* ===== verification/Message_Rows.thy ===== *)
theory Message_Rows
  imports Directory
begin

text \<open>
  How \<open>cyclopsd/src/mailbox/projection.rs\<close> validates a draft (\<open>check_acceptance\<close>) and the
  journal rows about messages before anything changes: a message, a claim, a direct
  delivery. Each function is the chain of early returns of the source, in its order,
  and ends in a prepared mutation or an error.
\<close>

section \<open>Replies and supersession\<close>

definition derive_reply ::
  "mailbox_projection \<Rightarrow> recipient_key \<Rightarrow> message_id \<Rightarrow> (mailbox_error, reply_derivation) result" where
  "derive_reply p sender reference =
     rbind (ok_or (hm_get (messages p) reference) (Mail (MessageNotFound reference))) (\<lambda>parent.
     rbind (extract_message_metadata parent) (\<lambda>md.
     let visible = (md_sender md = sender \<or> sender \<in> set (md_recipients md)) in
     if \<not> visible then Inl (Mail (ReplyNotVisible reference sender))
     else Inr \<lparr> dv_recipient = md_sender md, dv_thread_root = md_thread_root md,
                dv_subject = reply_subject (ln_subject parent) \<rparr>))"

definition supersession_notification_is_pre_write ::
  "mailbox_projection \<Rightarrow> recipient_key \<Rightarrow> message_id \<Rightarrow> bool" where
  "supersession_notification_is_pre_write p r m =
     is_none_or (hm_get (notifications p) (r, m)) (\<lambda>rec. nr_state rec \<in>
       {Queued, Gating, BlockedPreWrite, QuotaHeld, QuotaResetObserved, WithdrawnByOperator})"

definition supersession_thread_root ::
  "mailbox_projection \<Rightarrow> recipient_key \<Rightarrow> recipient_key list \<Rightarrow> message_id option \<Rightarrow>
   (mailbox_error, message_id option) result" where
  "supersession_thread_root p sender recipients supersedes =
     (case supersedes of
        None \<Rightarrow> Inr None
      | Some target \<Rightarrow>
          (case recipients of
             [recipient] \<Rightarrow>
               rbind (ok_or (hm_get (messages p) target) (Mail (MessageNotFound target))) (\<lambda>message.
               rbind (extract_message_metadata message) (\<lambda>md.
               if md_sender md \<noteq> sender \<or> md_recipients md \<noteq> recipients
               then Inl (Mail (SupersessionIdentityMismatch target))
               else
                 rbind (ok_or (get_entry p recipient target) (Mail (EntryNotFound target recipient))) (\<lambda>entry.
                 if \<not> is_pending (me_state entry) then Inl (Mail (SupersessionNotPending target))
                 else if \<not> supersession_notification_is_pre_write p recipient target
                 then Inl (Mail (SupersessionNotificationStarted target))
                 else Inr (Some (md_thread_root md)))))
           | _ \<Rightarrow> Inl (Mail SupersessionRequiresSingleRecipient)))"

section \<open>Acceptance of a draft\<close>

text \<open>A \<open>Result<_, MailboxTypeError>\<close> under \<open>?\<close>.\<close>

definition of_type_result :: "(mailbox_type_error, 'a) result \<Rightarrow> (mailbox_error, 'a) result" where
  "of_type_result v = (case v of Inl e \<Rightarrow> Inl (MailboxType e) | Inr x \<Rightarrow> Inr x)"

lemma of_type_result_Inr_iff [result_simps]: "of_type_result v = Inr x \<longleftrightarrow> v = Inr x"
  by (cases v) (auto simp: of_type_result_def)

text \<open>The loop with a \<open>seen\<close> set over the recipients of a draft or of a journal row.\<close>

fun check_recipients ::
  "Identity.workspace_id \<Rightarrow> (recipient_key \<Rightarrow> mailbox_error) \<Rightarrow> recipient_key list \<Rightarrow> recipient_key hash_set \<Rightarrow>
   (mailbox_error, unit) result" where
  "check_recipients ws duplicate [] seen = Inr ()"
| "check_recipients ws duplicate (r # rs) seen =
     (if rk_workspace r \<noteq> ws then Inl (Mail (WorkspaceMismatch ws (rk_workspace r)))
      else if hs_contains seen r then Inl (duplicate r)
      else check_recipients ws duplicate rs (hs_insert r seen))"

text \<open>The idempotency lookup of a draft whose digest is known.\<close>

definition check_idempotency ::
  "mailbox_projection \<Rightarrow> canonical_draft \<Rightarrow> request_digest \<Rightarrow> (mailbox_error, acceptance_outcome option) result" where
  "check_idempotency p draft digest =
     (case cd_client_key draft of
        None \<Rightarrow> Inr None
      | Some key \<Rightarrow>
          (case hm_get (idempotency_index p) (cd_sender draft, key) of
             None \<Rightarrow> Inr None
           | Some (existing_id, existing_digest) \<Rightarrow>
               if existing_digest = digest then Inr (Some (ExistingMessage existing_id))
               else Inl (Mail (DuplicateIdempotencyKey (cd_sender draft) key existing_id))))"

definition draft_content :: "canonical_draft \<Rightarrow> request_content" where
  "draft_content draft =
     \<lparr> rc_subject = cd_subject draft, rc_summary = cd_summary draft, rc_body = cd_body draft \<rparr>"

definition check_acceptance ::
  "extern \<Rightarrow> mailbox_projection \<Rightarrow> canonical_draft \<Rightarrow> (mailbox_error, acceptance_outcome) result" where
  "check_acceptance X p draft =
     (let ws = workspace_id p in
      if cd_kind draft \<noteq> Msg \<and> cd_kind draft \<noteq> Fyi then Inl (Mail (InvalidKind (cd_kind draft)))
      else if rk_workspace (cd_sender draft) \<noteq> ws
      then Inl (Mail (WorkspaceMismatch ws (rk_workspace (cd_sender draft))))
      else if cd_recipients draft = [] then Inl (Mail DraftEmptyRecipients)
      else
        rbind (check_recipients ws (\<lambda>r. Mail (DraftDuplicateRecipient r)) (cd_recipients draft) []) (\<lambda>_.
        if cd_client_key draft = Some [] then Inl (Mail EmptyClientKey)
        else
          rbind (presentation_labels X (cd_recipients draft) (cd_presentation draft)) (\<lambda>_.
          rbind (case cd_summary draft of
                   None \<Rightarrow> Inr ()
                 | Some summary \<Rightarrow> of_type_result (validate_message_summary summary)) (\<lambda>_.
          rbind (of_type_result (digest_compute X (cd_kind draft) (cd_sender draft) (cd_recipients draft)
                   (draft_content draft) (cd_reply_to draft) (cd_supersedes draft))) (\<lambda>digest.
          rbind (check_idempotency p draft digest) (\<lambda>found.
          case found of
            Some outcome \<Rightarrow> Inr outcome
          | None \<Rightarrow>
              rbind (supersession_thread_root p (cd_sender draft) (cd_recipients draft) (cd_supersedes draft)) (\<lambda>_.
              Inr (NewMessage digest))))))))"

section \<open>Message rows\<close>

definition check_message_labels ::
  "extern \<Rightarrow> ledger_line \<Rightarrow> message_metadata \<Rightarrow> (mailbox_error, unit) result" where
  "check_message_labels X line md =
     rbind (presentation_labels X (md_recipients md) (md_presentation md)) (\<lambda>(sender, labels).
     if ln_from line \<noteq> sender then Inl (Mail (PresentationMismatch ''from'' [ln_from line] [sender]))
     else if ln_to line \<noteq> labels then Inl (Mail (PresentationMismatch ''to'' (ln_to line) labels))
     else Inr ())"

text \<open>\<open>line.reply_to.as_deref().map(MessageId::new).transpose()?\<close>.\<close>

definition line_reply_to :: "ledger_line \<Rightarrow> (mailbox_error, message_id option) result" where
  "line_reply_to line =
     (case ln_reply_to line of
        None \<Rightarrow> Inr None
      | Some s \<Rightarrow> rbind (of_type_result (message_id_new s)) (\<lambda>m. Inr (Some m)))"

definition expected_thread_root ::
  "mailbox_projection \<Rightarrow> ledger_line \<Rightarrow> message_id \<Rightarrow> message_metadata \<Rightarrow> message_id option \<Rightarrow>
   (mailbox_error, message_id) result" where
  "expected_thread_root p line m md reply_to =
     (case reply_to of
        Some reference \<Rightarrow>
          if ln_kind line \<noteq> Msg then Inl (Mail (ReplyKindMismatch m))
          else
            rbind (derive_reply p (md_sender md) reference) (\<lambda>derived.
            if md_recipients md \<noteq> [dv_recipient derived]
            then Inl (Mail (ReplyRecipientMismatch m (dv_recipient derived)))
            else if ln_subject line \<noteq> dv_subject derived then Inl (Mail (ReplySubjectMismatch m))
            else Inr (dv_thread_root derived))
      | None \<Rightarrow>
          rbind (supersession_thread_root p (md_sender md) (md_recipients md) (md_supersedes md)) (\<lambda>root.
          Inr (case root of Some thread_root \<Rightarrow> thread_root | None \<Rightarrow> m)))"

definition line_content :: "ledger_line \<Rightarrow> message_metadata \<Rightarrow> request_content" where
  "line_content line md =
     \<lparr> rc_subject = ln_subject line, rc_summary = md_summary md, rc_body = ln_body line \<rparr>"

definition check_message_digest ::
  "extern \<Rightarrow> ledger_line \<Rightarrow> message_metadata \<Rightarrow> message_id option \<Rightarrow> (mailbox_error, unit) result" where
  "check_message_digest X line md reply_to =
     rbind (of_type_result (digest_compute X (ln_kind line) (md_sender md) (md_recipients md)
              (line_content line md) reply_to (md_supersedes md))) (\<lambda>computed.
     if md_request_digest md \<noteq> computed
     then Inl (Mail (DigestMismatch (md_request_digest md) computed)) else Inr ())"

definition check_message_client_key ::
  "mailbox_projection \<Rightarrow> message_metadata \<Rightarrow> (mailbox_error, unit) result" where
  "check_message_client_key p md =
     (case md_client_key md of
        None \<Rightarrow> Inr ()
      | Some key \<Rightarrow>
          (case hm_get (idempotency_index p) (md_sender md, key) of
             None \<Rightarrow> Inr ()
           | Some (existing_id, _) \<Rightarrow> Inl (Mail (DuplicateIdempotencyKey (md_sender md) key existing_id))))"

text \<open>A record that settles: every field the source resets is reset.\<close>

definition settled_record ::
  "notification_record \<Rightarrow> notification_state \<Rightarrow> notification_binding option \<Rightarrow> pre_write_cause option \<Rightarrow>
   ledger_line \<Rightarrow> notification_record" where
  "settled_record current st binding cause line =
     \<lparr> nr_attempt_id = nr_attempt_id current, nr_message_id = nr_message_id current,
       nr_recipient = nr_recipient current, nr_state = st, nr_binding = binding,
       nr_transport = nr_transport current, nr_doorbell_format = nr_doorbell_format current,
       nr_cause = None, nr_verified_by = None, nr_verify_outcome = None, nr_pre_write_cause = cause,
       nr_wake_block = None, nr_pre_write_observation = None,
       nr_pre_write_reopen_count = nr_pre_write_reopen_count current,
       nr_unclaimed_reminder_count = nr_unclaimed_reminder_count current,
       nr_started_seq = nr_started_seq current, nr_updated_seq = ln_seq line, nr_updated_at = ln_ts line \<rparr>"

definition superseded_notification ::
  "mailbox_projection \<Rightarrow> ledger_line \<Rightarrow> message_metadata \<Rightarrow> notification_projection_update option" where
  "superseded_notification p line md =
     (case (md_supersedes md, md_recipients md) of
        (Some target, recipient # _) \<Rightarrow>
          map_option (\<lambda>current.
              \<lparr> up_key = (recipient, target), up_record = settled_record current Superseded None None line \<rparr>)
            (hm_get (notifications p) (recipient, target))
      | _ \<Rightarrow> None)"

definition prepare_message ::
  "extern \<Rightarrow> mailbox_projection \<Rightarrow> ledger_line \<Rightarrow> (mailbox_error, prepared_mutation) result" where
  "prepare_message X p line =
     rbind (of_type_result (message_id_new (ln_id line))) (\<lambda>m.
     if hm_contains_key (messages p) m then Inl (Mail (DuplicateMessageId m))
     else
       rbind (extract_message_metadata line) (\<lambda>md.
       let ws = workspace_id p in
       if md_record_version md \<noteq> canonical_record_version
       then Inl (Mail (InvalidRecordVersion canonical_record_version (md_record_version md)))
       else if md_workspace_id md \<noteq> ws then Inl (Mail (WorkspaceMismatch ws (md_workspace_id md)))
       else if rk_workspace (md_sender md) \<noteq> ws
       then Inl (Mail (WorkspaceMismatch ws (rk_workspace (md_sender md))))
       else if md_recipients md = [] then Inl (Mail (EmptyRecipients m))
       else
         rbind (check_message_labels X line md) (\<lambda>_.
         rbind (check_recipients ws (\<lambda>r. Mail (DuplicateRecipient m r)) (md_recipients md) []) (\<lambda>_.
         rbind (line_reply_to line) (\<lambda>reply_to.
         if reply_to \<noteq> None \<and> md_supersedes md \<noteq> None then Inl (Mail ReplySupersessionConflict)
         else
           rbind (expected_thread_root p line m md reply_to) (\<lambda>root.
           if md_thread_root md \<noteq> root then Inl (Mail (ThreadRootMismatch m root (md_thread_root md)))
           else
             rbind (check_message_digest X line md reply_to) (\<lambda>_.
             rbind (check_message_client_key p md) (\<lambda>_.
             Inr (PreparedMessage m md (superseded_notification p line md))))))))))"

section \<open>Claim rows\<close>

definition state_row_error :: "ledger_line \<Rightarrow> mailbox_error" where
  "state_row_error line =
     Mail (UncanonicalRow (''unknown or uncanonical state row seq '' @ show_nat (ln_seq line)))"

definition has_message_fields :: "ledger_line \<Rightarrow> bool" where
  "has_message_fields line =
     (ln_subject line \<noteq> None \<or> ln_body line \<noteq> None \<or> ln_reply_to line \<noteq> None \<or> ln_deliveries line \<noteq> [])"

text \<open>The fact of a \<open>message_claimed\<close> row, and the settlement its claim prepares.\<close>

definition claim_fact_of :: "ledger_line \<Rightarrow> (mailbox_error, claim_fact) result" where
  "claim_fact_of line =
     rbind (ok_or (ln_data line) (state_row_error line)) (\<lambda>data.
     case rd_mailbox_fact data of
       Inl e \<Rightarrow> Inl (Mail (InvalidFact (''malformed message_claimed: '' @ e)))
     | Inr (MessageClaimed f) \<Rightarrow> Inr f
     | Inr (MessageDeliveredDirect _) \<Rightarrow> Inl (Mail (InvalidFact ''expected message_claimed'')))"

definition check_claim_envelope ::
  "extern \<Rightarrow> mailbox_projection \<Rightarrow> ledger_line \<Rightarrow> claim_fact \<Rightarrow> (mailbox_error, unit) result" where
  "check_claim_envelope X p line f =
     (let ws = workspace_id p; claimant_text = key_to_string X (cf_claimant f) in
      if cf_record_version f \<noteq> canonical_record_version
      then Inl (Mail (InvalidRecordVersion canonical_record_version (cf_record_version f)))
      else if ln_id line \<noteq> cf_message_id f
      then Inl (Mail (EnvelopeMismatch (ln_id line) (cf_message_id f)))
      else if ln_from line \<noteq> claimant_text
      then Inl (Mail (PresentationMismatch ''from'' [ln_from line] [claimant_text]))
      else if ln_to line \<noteq> [] then Inl (Mail (PresentationMismatch ''to'' (ln_to line) []))
      else if has_message_fields line
      then Inl (Mail (UncanonicalRow
        (''claim row seq '' @ show_nat (ln_seq line) @ '' contains non-empty message fields'')))
      else if rk_workspace (cf_recipient f) \<noteq> ws
      then Inl (Mail (WorkspaceMismatch ws (rk_workspace (cf_recipient f))))
      else if rk_workspace (cf_claimant f) \<noteq> ws
      then Inl (Mail (WorkspaceMismatch ws (rk_workspace (cf_claimant f))))
      else if cf_claimant f \<noteq> cf_recipient f
      then Inl (Mail (ClaimantMismatch (cf_message_id f) (cf_recipient f) (cf_claimant f)))
      else Inr ())"

definition claim_notification_update ::
  "mailbox_projection \<Rightarrow> ledger_line \<Rightarrow> recipient_key \<Rightarrow> message_id \<Rightarrow> notification_projection_update option" where
  "claim_notification_update p line r m =
     Option.bind (hm_get (notifications p) (r, m)) (\<lambda>current.
     let st = settled_by_claim (nr_state current) (nr_transport current) in
     if st = nr_state current then None
     else
       let cause = (if st = Withdrawn \<and> nr_transport current \<noteq> DirectPayload
                    then Some ClaimedBeforeWrite else None) in
       Some \<lparr> up_key = (r, m),
              up_record = settled_record current st
                (if st = Notified then nr_binding current else None) cause line \<rparr>)"

definition prepare_claim ::
  "extern \<Rightarrow> mailbox_projection \<Rightarrow> ledger_line \<Rightarrow> (mailbox_error, prepared_mutation) result" where
  "prepare_claim X p line =
     rbind (claim_fact_of line) (\<lambda>f.
     rbind (check_claim_envelope X p line f) (\<lambda>_.
     let m = cf_message_id f; r = cf_recipient f in
     rbind (ok_or (get_entry p r m) (Mail (EntryNotFound m r))) (\<lambda>entry.
     case me_state entry of
       Pending \<Rightarrow> Inr (PreparedClaim m r (cf_claimant f) (claim_notification_update p line r m))
     | Claimed existing _ \<Rightarrow> Inl (Mail (AlreadyClaimed m r existing))
     | EntrySuperseded _ _ \<Rightarrow> Inl (Mail (MessageNotPending m))
     | DeliveredDirect _ _ \<Rightarrow> Inl (Mail (MessageNotPending m)))))"

section \<open>Direct delivery rows\<close>

definition direct_fact_of :: "ledger_line \<Rightarrow> (mailbox_error, attempt_fact) result" where
  "direct_fact_of line =
     rbind (ok_or (ln_data line) (state_row_error line)) (\<lambda>data.
     case rd_mailbox_fact data of
       Inl e \<Rightarrow> Inl (Mail (InvalidFact (''malformed message_delivered_direct: '' @ e)))
     | Inr (MessageDeliveredDirect f) \<Rightarrow> Inr f
     | Inr (MessageClaimed _) \<Rightarrow> Inl (Mail (InvalidFact ''expected message_delivered_direct'')))"

definition daemon_label :: string where
  "daemon_label = ''cyclopsd''"

definition prepare_delivered_direct ::
  "mailbox_projection \<Rightarrow> ledger_line \<Rightarrow> (mailbox_error, prepared_mutation) result" where
  "prepare_delivered_direct p line =
     rbind (direct_fact_of line) (\<lambda>f.
     let m = af_message_id f; r = af_recipient f; attempt = af_attempt_id f in
     if af_record_version f \<noteq> canonical_record_version
     then Inl (Mail (InvalidRecordVersion canonical_record_version (af_record_version f)))
     else if ln_id line \<noteq> m then Inl (Mail (EnvelopeMismatch (ln_id line) m))
     else if ln_from line \<noteq> daemon_label
     then Inl (Mail (PresentationMismatch ''from'' [ln_from line] [daemon_label]))
     else if ln_to line \<noteq> [] \<or> has_message_fields line
     then Inl (Mail (UncanonicalRow
       (''direct delivery row seq '' @ show_nat (ln_seq line) @ '' contains message fields'')))
     else
       rbind (require_pending_entry p r m) (\<lambda>_.
       rbind (ok_or (notification p r m) (Wake (NotificationNotFound m r))) (\<lambda>rec.
       if nr_attempt_id rec \<noteq> attempt
       then Inl (Wake (NotificationAttemptMismatch (nr_attempt_id rec) attempt))
       else if nr_state rec \<noteq> Notified \<or> nr_transport rec \<noteq> DirectPayload
       then Inl (Wake (DirectDeliveryNotProven attempt))
       else Inr (PreparedDeliveredDirect m r attempt))))"

end
