(* ===== verification/Doorbell.thy ===== *)
theory Doorbell
  imports Notification_Types
begin

text \<open>
  Attempt ids and doorbells of \<open>cyclops-proto/src/notification.rs\<close>: the wire form of an
  attempt id, its 22-character token, the message-shaped claim locator, and the texts typed
  into a pane. Parsing is exact: a text names an attempt only in its one canonical spelling.
\<close>

unbundle bit_operations_syntax

section \<open>Attempt ids\<close>

definition attempt_to_string :: "'x uuid_api_scheme \<Rightarrow> attempt_id \<Rightarrow> string" where
  "attempt_to_string X a = ''att-'' @ uuid_text X a"

definition attempt_parse :: "'x uuid_api_scheme \<Rightarrow> string \<Rightarrow> (notification_type_error, attempt_id) result" where
  "attempt_parse X s =
     rbind (ok_or (strip_prefix ''att-'' s) InvalidAttemptId) (\<lambda>suffix.
     rbind (ok_or (uuid_parse X suffix) InvalidAttemptId) (\<lambda>uuid.
     if is_nil uuid \<or> uuid_text X uuid \<noteq> suffix then Inl InvalidAttemptId else Inr uuid))"

section \<open>Tokens\<close>

text \<open>\<open>Uuid::as_bytes\<close> and \<open>Uuid::from_bytes\<close>: sixteen bytes, the most significant first.\<close>

definition uuid_bytes :: "uuid \<Rightarrow> 8 word list" where
  "uuid_bytes u = map (\<lambda>i. of_nat (unat u div 256 ^ i mod 256)) (rev [0..<16])"

definition uuid_from_bytes :: "8 word list \<Rightarrow> uuid" where
  "uuid_from_bytes bytes = of_nat (foldl (\<lambda>n b. n * 256 + unat b) 0 bytes)"

definition alphabet :: string where
  "alphabet = ''ABCDEFGHIJKLMNOPQRSTUVWXYZabcdefghijklmnopqrstuvwxyz0123456789-_''"

definition alphabet_char :: "8 word \<Rightarrow> char" where
  "alphabet_char v = alphabet ! unat v"

fun encode_chunks :: "8 word list \<Rightarrow> string" where
  "encode_chunks (a # b # c # rest) =
     alphabet_char (drop_bit 2 a) # alphabet_char (push_bit 4 (a AND 0x03) OR drop_bit 4 b) #
     alphabet_char (push_bit 2 (b AND 0x0f) OR drop_bit 6 c) # alphabet_char (c AND 0x3f) # encode_chunks rest"
| "encode_chunks _ = []"

definition notification_attempt_token :: "attempt_id \<Rightarrow> string" where
  "notification_attempt_token a =
     (let bytes = uuid_bytes a; final = bytes ! 15 in
      encode_chunks (take 15 bytes) @ [alphabet_char (drop_bit 2 final), alphabet_char (push_bit 4 (final AND 0x03))])"

definition decode_attempt_character :: "char \<Rightarrow> 8 word option" where
  "decode_attempt_character c =
     (let b = byte_of c in
      if 65 \<le> b \<and> b \<le> 90 then Some (of_nat (b - 65))
      else if 97 \<le> b \<and> b \<le> 122 then Some (of_nat (b - 97 + 26))
      else if 48 \<le> b \<and> b \<le> 57 then Some (of_nat (b - 48 + 52))
      else if b = 45 then Some 62
      else if b = 95 then Some 63
      else None)"

fun decode_characters :: "string \<Rightarrow> 8 word list option" where
  "decode_characters [] = Some []"
| "decode_characters (c # cs) =
     Option.bind (decode_attempt_character c) (\<lambda>v. map_option (Cons v) (decode_characters cs))"

fun decode_chunks :: "8 word list \<Rightarrow> 8 word list" where
  "decode_chunks (p # q # r # s # rest) =
     (push_bit 2 p OR drop_bit 4 q) # (push_bit 4 q OR drop_bit 2 r) # (push_bit 6 r OR s) # decode_chunks rest"
| "decode_chunks _ = []"

definition parse_notification_attempt_token :: "string \<Rightarrow> attempt_id option" where
  "parse_notification_attempt_token encoded =
     (if length encoded \<noteq> 22 \<or> \<not> list_all (\<lambda>c. byte_of c < 128) encoded then None
      else
        Option.bind (decode_characters encoded) (\<lambda>values.
        if values ! 21 AND 0x0f \<noteq> 0 then None
        else
          let bytes = decode_chunks (take 20 values) @ [push_bit 2 (values ! 20) OR drop_bit 4 (values ! 21)];
              uuid = uuid_from_bytes bytes in
          if is_nil uuid then None
          else if notification_attempt_token uuid = encoded then Some uuid else None))"

section \<open>Claim locators\<close>

definition locator_prefix :: string where
  "locator_prefix = ''m-att_''"

text \<open>The text of the locator; \<open>None\<close> would be the failed \<open>expect\<close>.\<close>

definition notification_attempt_claim_locator :: "attempt_id \<Rightarrow> message_id option" where
  "notification_attempt_claim_locator a =
     (case message_id_new (locator_prefix @ notification_attempt_token a) of Inl e \<Rightarrow> None | Inr m \<Rightarrow> Some m)"

definition parse_notification_attempt_claim_locator :: "message_id \<Rightarrow> attempt_id option" where
  "parse_notification_attempt_claim_locator m =
     Option.bind (strip_prefix locator_prefix m) (\<lambda>token.
     Option.bind (parse_notification_attempt_token token) (\<lambda>a.
     if notification_attempt_claim_locator a = Some m then Some a else None))"

section \<open>Doorbells\<close>

definition claim_command :: string where
  "claim_command = ''cyclops inbox claim ''"

definition render_doorbell_v1 :: "message_id \<Rightarrow> string" where
  "render_doorbell_v1 m = claim_command @ m"

definition render_doorbell_v2 :: "message_id \<Rightarrow> attempt_id \<Rightarrow> string" where
  "render_doorbell_v2 m a = claim_command @ m @ '' #c:'' @ notification_attempt_token a"

definition render_doorbell_v3 :: "attempt_id \<Rightarrow> string option" where
  "render_doorbell_v3 a = map_option (\<lambda>locator. claim_command @ locator) (notification_attempt_claim_locator a)"

definition render_doorbell_v4 :: "string \<Rightarrow> string \<Rightarrow> string \<Rightarrow> attempt_id \<Rightarrow> string option" where
  "render_doorbell_v4 sender recipients summary a =
     map_option (\<lambda>claim. ''[cyclops from '' @ sender @ '' to '' @ recipients @ ''] '' @ summary @ '' | '' @ claim)
       (render_doorbell_v3 a)"

definition render_recipient_list :: "string list \<Rightarrow> bool \<Rightarrow> string" where
  "render_recipient_list labels broadcast =
     (if broadcast then ''all''
      else
        (case labels of
           [] \<Rightarrow> ''nobody''
         | first # second # rest \<Rightarrow>
             if length rest > 1 then first @ '', '' @ second @ '', +'' @ show_nat (length rest)
             else join_with '', '' labels
         | _ \<Rightarrow> join_with '', '' labels))"

definition render_legacy_doorbell :: "message_id \<Rightarrow> string" where
  "render_legacy_doorbell m =
     ''[cyclops] pending message '' @ m @ '': claim with '' @ [CHR 0x27] @ ''cyclops inbox claim '' @ m @ [CHR 0x27]"

definition strip_one :: "string \<Rightarrow> string \<Rightarrow> string" where
  "strip_one suffix s = (case strip_suffix suffix s of Some t \<Rightarrow> t | None \<Rightarrow> s)"

definition parse_doorbell_v2 :: "string \<Rightarrow> (message_id \<times> attempt_id) option" where
  "parse_doorbell_v2 payload =
     Option.bind (strip_prefix claim_command (strip_one [CHR 0x0A] payload)) (\<lambda>rest.
     Option.bind (split_once_str '' #c:'' rest) (\<lambda>(m, token).
     if list_ex (\<lambda>seg. is_whitespace (code_point seg)) (char_segments token) then None
     else
       (case message_id_new m of
          Inl e \<Rightarrow> None
        | Inr m' \<Rightarrow> map_option (Pair m') (parse_notification_attempt_token token))))"

definition parse_doorbell_v3 :: "string \<Rightarrow> attempt_id option" where
  "parse_doorbell_v3 payload =
     Option.bind (strip_prefix claim_command (strip_one [CHR 0x0A] payload)) (\<lambda>rest.
     (case message_id_new (strip_one '' --json'' rest) of
        Inl e \<Rightarrow> None
      | Inr m \<Rightarrow> parse_notification_attempt_claim_locator m))"

section \<open>Bytes\<close>

lemma foldl_digits:
  fixes n B :: nat
  assumes "0 < B"
  shows "foldl (\<lambda>n d. n * B + d) 0 (map (\<lambda>i. n div B ^ i mod B) (rev [0..<k])) = n mod B ^ k"
proof -
  have "foldl (\<lambda>n d. n * B + d) a (map (\<lambda>i. n div B ^ i mod B) (rev [0..<k])) = a * B ^ k + n mod B ^ k" for a
  proof (induction k arbitrary: a)
    case (Suc k)
    have "n mod B ^ Suc k = n div B ^ k mod B * B ^ k + n mod B ^ k"
      using mod_mult2_eq [of n "B ^ k" B] by (simp add: mult.commute)
    then show ?case using Suc by (simp add: algebra_simps)
  qed simp
  then show ?thesis by simp
qed

lemma uuid_from_bytes_of [simp]: "uuid_from_bytes (uuid_bytes u) = u"
proof -
  have "foldl (\<lambda>n b. n * 256 + unat b) 0 (uuid_bytes u) =
      foldl (\<lambda>n d. n * 256 + d) 0 (map (\<lambda>i. unat u div 256 ^ i mod 256) (rev [0..<16]))"
    unfolding uuid_bytes_def foldl_map by (rule foldl_cong) (simp_all add: unat_of_nat)
  also have "\<dots> = unat u mod 256 ^ 16" by (rule foldl_digits) simp
  also have "\<dots> = unat u"
  proof (rule mod_less)
    have "unat u < 2 ^ LENGTH(128)" by (rule unsigned_less)
    then show "unat u < 256 ^ 16" by simp
  qed
  finally show ?thesis by (simp add: uuid_from_bytes_def)
qed

lemma length_uuid_bytes [simp]: "length (uuid_bytes u) = 16"
  by (simp add: uuid_bytes_def)

section \<open>The token determines the attempt\<close>

lemma alphabet_decodes:
  "map decode_attempt_character alphabet = map (\<lambda>i. Some (of_nat i)) [0..<64]"
  "list_all (\<lambda>c. byte_of c < 128 \<and> legacy_id_char c) alphabet" "length alphabet = 64"
  by (simp_all add: alphabet_def decode_attempt_character_def byte_of_def legacy_id_char_def is_ascii_alphanumeric_def
      is_ascii_digit_def Let_def upt_rec)

lemma alphabet_char:
  assumes "v < 64"
  shows "decode_attempt_character (alphabet_char v) = Some v" and "byte_of (alphabet_char v) < 128"
    and "legacy_id_char (alphabet_char v)"
proof -
  have n: "unat v < 64" using assms by (simp add: word_less_nat_alt)
  have "map decode_attempt_character alphabet ! unat v = map (\<lambda>i. Some (of_nat i)) [0..<64] ! unat v"
    by (simp only: alphabet_decodes(1))
  then show "decode_attempt_character (alphabet_char v) = Some v" using n alphabet_decodes(3) by (simp add: alphabet_char_def)
  show "byte_of (alphabet_char v) < 128" "legacy_id_char (alphabet_char v)"
    using alphabet_decodes(2,3) n by (simp_all add: alphabet_char_def list_all_length)
qed

lemma byte_less_64:
  fixes v :: "8 word"
  assumes "\<not> bit v 6" and "\<not> bit v 7"
  shows "v < 64"
proof -
  have "bit (take_bit 6 v) n = bit v n" if "n < 8" for n
  proof -
    have "n < 6 \<or> n = 6 \<or> n = 7" using that by arith
    then show ?thesis using assms by (auto simp: bit_take_bit_iff)
  qed
  then have "take_bit 6 v = v" by (intro bit_word_eqI) simp
  then have "unat v < 2 ^ 6" by (metis take_bit_nat_less_exp unsigned_take_bit_eq)
  then show ?thesis by (simp add: word_less_nat_alt)
qed

lemma byte_bit_over [simp]: "8 \<le> n \<Longrightarrow> \<not> bit (v :: 8 word) n"
  using bit_imp_le_length [of v n] by auto

lemma sextets_small:
  fixes a b c :: "8 word"
  shows "drop_bit 2 a < 64" "push_bit 4 (a AND 3) OR drop_bit 4 b < 64" "push_bit 2 (b AND 15) OR drop_bit 6 c < 64"
    "c AND 63 < 64" "push_bit 4 (a AND 3) < 64"
  by (intro byte_less_64; simp add: bit_simps bit_numeral_word_iff)+

lemma byte_eqI:
  fixes v w :: "8 word"
  assumes "\<And>n. n \<in> {0, 1, 2, 3, 4, 5, 6, 7} \<Longrightarrow> bit v n = bit w n"
  shows "v = w"
proof (rule bit_word_eqI)
  fix n assume "n < LENGTH(8)"
  then have "n \<in> {0, 1, 2, 3, 4, 5, 6, 7}" by auto
  then show "bit v n = bit w n" by (rule assms)
qed

lemma sextets_join:
  fixes a b c :: "8 word"
  shows "push_bit 2 (drop_bit 2 a) OR drop_bit 4 (push_bit 4 (a AND 3) OR drop_bit 4 b) = a"
    and "push_bit 4 (push_bit 4 (a AND 3) OR drop_bit 4 b) OR drop_bit 2 (push_bit 2 (b AND 15) OR drop_bit 6 c) = b"
    and "push_bit 6 (push_bit 2 (b AND 15) OR drop_bit 6 c) OR (c AND 63) = c"
    and "push_bit 2 (drop_bit 2 a) OR drop_bit 4 (push_bit 4 (a AND 3)) = a"
    and "push_bit 4 (a AND 3) AND 15 = 0"
  by (rule byte_eqI, auto simp: bit_simps simp del: add_2_eq_Suc add_2_eq_Suc')+

text \<open>The sextets of a list of bytes, in groups of three.\<close>

fun sextets :: "8 word list \<Rightarrow> 8 word list" where
  "sextets (a # b # c # rest) =
     drop_bit 2 a # (push_bit 4 (a AND 3) OR drop_bit 4 b) # (push_bit 2 (b AND 15) OR drop_bit 6 c) # (c AND 63) #
     sextets rest"
| "sextets _ = []"

lemma sextets_facts:
  "encode_chunks bs = map alphabet_char (sextets bs)" "list_all (\<lambda>v. v < 64) (sextets bs)"
  "length bs mod 3 = 0 \<Longrightarrow> decode_chunks (sextets bs) = bs" "length (sextets bs) = 4 * (length bs div 3)"
proof (induction bs rule: sextets.induct)
  case (1 a b c rest)
  {
    case 2
    show ?case using 1(2) by (simp only: sextets.simps list.pred_inject sextets_small simp_thms)
  next
    case 3
    then have "length rest mod 3 = 0" by simp
    then show ?case using 1(3) by (simp only: sextets.simps decode_chunks.simps sextets_join)
  next
    case 4
    have "(3 + length rest) div 3 = Suc (length rest div 3)" by presburger
    then show ?case using 1(4) by simp
  }
qed (simp_all add: sextets_small)

lemma decode_alphabet: "list_all (\<lambda>v. v < 64) vs \<Longrightarrow> decode_characters (map alphabet_char vs) = Some vs"
  by (induction vs) (simp_all add: alphabet_char)

definition token_values :: "attempt_id \<Rightarrow> 8 word list" where
  "token_values a =
     (let bytes = uuid_bytes a; final = bytes ! 15 in
      sextets (take 15 bytes) @ [drop_bit 2 final, push_bit 4 (final AND 3)])"

lemma token_values:
  "notification_attempt_token a = map alphabet_char (token_values a)" "list_all (\<lambda>v. v < 64) (token_values a)"
  "length (token_values a) = 22"
  using sextets_small
  by (simp_all add: notification_attempt_token_def token_values_def sextets_facts Let_def)

lemma token_facts:
  "length (notification_attempt_token a) = 22" "list_all (\<lambda>c. byte_of c < 128) (notification_attempt_token a)"
  "list_all legacy_id_char (notification_attempt_token a)"
  using token_values [of a] alphabet_char by (auto simp: list_all_iff)

lemma parse_token:
  assumes "a \<noteq> 0"
  shows "parse_notification_attempt_token (notification_attempt_token a) = Some a"
proof -
  let ?bytes = "uuid_bytes a" and ?vals = "token_values a"
  have take: "take 20 ?vals = sextets (take 15 ?bytes)" "?vals ! 20 = drop_bit 2 (?bytes ! 15)"
    "?vals ! 21 = push_bit 4 (?bytes ! 15 AND 3)"
    by (simp_all add: token_values_def sextets_facts(4) nth_append Let_def)
  have "take 15 ?bytes @ [?bytes ! 15] = ?bytes"
    using take_Suc_conv_app_nth [of 15 ?bytes] by simp
  moreover have "decode_chunks (sextets (take 15 ?bytes)) = take 15 ?bytes" by (rule sextets_facts(3)) simp
  ultimately have "decode_chunks (take 20 ?vals) @ [push_bit 2 (?vals ! 20) OR drop_bit 4 (?vals ! 21)] = ?bytes"
    by (simp only: take sextets_join(4))
  moreover have "decode_characters (notification_attempt_token a) = Some ?vals"
    using token_values decode_alphabet by simp
  moreover have "?vals ! 21 AND 15 = 0" by (simp only: take sextets_join(5))
  ultimately show ?thesis
    using assms token_facts(1,2) [of a] by (simp add: parse_notification_attempt_token_def is_nil_def Let_def)
qed

interpretation token: canonical_codec notification_attempt_token parse_notification_attempt_token "\<lambda>a. a \<noteq> 0"
proof
  fix s a assume "parse_notification_attempt_token s = Some a"
  then show "a \<noteq> 0 \<and> notification_attempt_token a = s"
    by (auto simp: parse_notification_attempt_token_def is_nil_def Let_def bind_eq_Some_conv split: if_splits)
qed (rule parse_token)

section \<open>Locators and attempt ids\<close>

lemma locator_is_message_id: "notification_attempt_claim_locator a = Some (locator_prefix @ notification_attempt_token a)"
proof -
  have "strip_prefix ''cyc-'' (locator_prefix @ t) = None" for t by (simp add: strip_prefix_def locator_prefix_def)
  moreover have "strip_prefix ''m-'' (locator_prefix @ t) = Some (''att_'' @ t)" for t
    by (simp add: strip_prefix_def locator_prefix_def)
  moreover have "list_all legacy_id_char (''att_'' @ notification_attempt_token a)"
    using token_facts(3) [of a] by (simp add: legacy_id_char_def is_ascii_alphanumeric_def byte_of_def)
  ultimately show ?thesis by (simp add: notification_attempt_claim_locator_def message_id_new_def)
qed

interpretation locator: canonical_codec "\<lambda>a. locator_prefix @ notification_attempt_token a"
  parse_notification_attempt_claim_locator "\<lambda>a. a \<noteq> 0"
proof
  fix s a assume "parse_notification_attempt_claim_locator s = Some a"
  then show "a \<noteq> 0 \<and> locator_prefix @ notification_attempt_token a = s"
    by (auto simp: parse_notification_attempt_claim_locator_def bind_eq_Some_conv strip_prefix_Some token.decode_iff
        split: if_splits)
qed (simp add: parse_notification_attempt_claim_locator_def locator_is_message_id parse_token)

lemma attempt_parse_iff:
  assumes "uuid_laws X"
  shows "attempt_parse X s = Inr a \<longleftrightarrow> a \<noteq> 0 \<and> s = attempt_to_string X a"
  using assms
  by (auto simp: attempt_parse_def attempt_to_string_def is_nil_def strip_prefix_Some uuid_laws_def result_simps)

section \<open>Doorbells name exactly one attempt\<close>

text \<open>Message ids hold no space and no line break, so the parts of a doorbell are found again.\<close>

definition plain :: "char \<Rightarrow> bool" where
  "plain c \<longleftrightarrow> 32 < byte_of c \<and> byte_of c < 127"

lemma legacy_id_char_plain: "legacy_id_char c \<Longrightarrow> plain c"
  by (auto simp: legacy_id_char_def is_ascii_alphanumeric_def is_ascii_digit_def plain_def byte_of_def)

lemma is_id_part_plain: "is_id_part s \<Longrightarrow> list_all plain s"
  by (auto simp: is_id_part_def is_lower_hex_def is_ascii_digit_def plain_def byte_of_def list_all_iff)

lemma message_id_plain:
  assumes "message_id_new v = Inr m"
  shows "m = v" and "list_all plain v"
proof -
  show "m = v" using assms by (auto simp: message_id_new_def result_simps split: option.splits if_splits)
  show "list_all plain v"
  proof (cases "strip_prefix ''cyc-'' v")
    case (Some parts)
    then obtain a b where "split_once (CHR ''-'') parts = Some (a, b)" "is_id_part a" "is_id_part b"
      using assms by (auto simp: message_id_new_def is_some_and_def split: if_splits option.splits)
    then show ?thesis
      using Some split_once_Some [of "CHR ''-''" parts a b] is_id_part_plain
      by (auto simp: strip_prefix_Some plain_def byte_of_def)
  next
    case None
    then obtain suffix where "v = ''m-'' @ suffix" "list_all legacy_id_char suffix"
      using assms by (auto simp: message_id_new_def result_simps strip_prefix_Some)
    then show ?thesis using legacy_id_char_plain by (auto simp: list_all_iff plain_def byte_of_def)
  qed
qed

lemma token_plain: "list_all plain (notification_attempt_token a)"
  using token_facts(3) [of a] legacy_id_char_plain by (auto simp: list_all_iff)

lemma strip_one_other: "s = [] \<or> last s \<noteq> last suffix \<Longrightarrow> suffix \<noteq> [] \<Longrightarrow> strip_one suffix s = s"
  by (auto simp: strip_one_def strip_suffix_Some split: option.splits)

lemma strip_one_append [simp]: "strip_one suffix (s @ suffix) = s"
  by (simp add: strip_one_def)

lemma strip_one_cases: "strip_one suffix s = t \<Longrightarrow> s = t \<or> s = t @ suffix"
  by (auto simp: strip_one_def strip_suffix_Some split: option.splits)

lemma plain_not [simp]: "plain c \<Longrightarrow> c \<noteq> CHR '' ''" "plain c \<Longrightarrow> c \<noteq> CHR 0x0A"
  by (auto simp: plain_def byte_of_def)

lemma split_once_str_append:
  "list_all plain a \<Longrightarrow> split_once_str (CHR '' '' # pat) (a @ CHR '' '' # pat @ b) = Some (a, b)"
proof (induction a)
  case Nil
  then show ?case using strip_prefix_append [of "CHR '' '' # pat" b] by simp
next
  case (Cons x a)
  then have "strip_prefix (CHR '' '' # pat) (x # a @ CHR '' '' # pat @ b) = None"
    using plain_not(1) [of x] by (auto simp: strip_prefix_def)
  then show ?case using Cons by simp
qed

lemma plain_segments:
  "list_all plain s \<Longrightarrow> \<not> list_ex (\<lambda>seg. is_whitespace (code_point seg)) (char_segments s)"
proof (induction s)
  case (Cons c s)
  have "utf8_width c = 1" "code_point [c] = byte_of c" using Cons.prems by (auto simp: utf8_width_def plain_def code_point_def)
  moreover have "\<not> is_whitespace (byte_of c)" using Cons.prems by (auto simp: plain_def is_whitespace_def)
  ultimately show ?case using Cons by simp
qed simp

lemma last_plain: "list_all plain s \<Longrightarrow> s \<noteq> [] \<Longrightarrow> plain (last s)"
  by (simp add: list_all_iff)

lemma parse_render_v2:
  assumes m: "message_id_new m = Inr m" and a: "a \<noteq> 0"
  shows "parse_doorbell_v2 (render_doorbell_v2 m a @ (if nl then [CHR 0x0A] else [])) = Some (m, a)"
proof -
  let ?text = "claim_command @ m @ '' #c:'' @ notification_attempt_token a"
  have ne: "notification_attempt_token a \<noteq> []" using token_facts(1) [of a] by auto
  then have "last ?text \<noteq> CHR 0x0A" using last_plain [OF token_plain [of a] ne] by simp
  then have strip: "strip_one [CHR 0x0A] (?text @ (if nl then [CHR 0x0A] else [])) = ?text"
    using strip_one_other [of ?text "[CHR 0x0A]"] strip_one_append [of "[CHR 0x0A]" ?text] by (cases nl) simp_all
  have "split_once_str '' #c:'' (m @ '' #c:'' @ notification_attempt_token a) = Some (m, notification_attempt_token a)"
    using split_once_str_append [OF message_id_plain(2) [OF m], of "''#c:''"] by simp
  then show ?thesis
    unfolding render_doorbell_v2_def parse_doorbell_v2_def strip
    using m a plain_segments [OF token_plain] by (simp add: parse_token)
qed

lemma parse_v2_exact:
  assumes "parse_doorbell_v2 s = Some (m, a)"
  shows "message_id_new m = Inr m \<and> a \<noteq> 0 \<and> (s = render_doorbell_v2 m a \<or> s = render_doorbell_v2 m a @ [CHR 0x0A])"
proof -
  obtain rest token where p: "strip_prefix claim_command (strip_one [CHR 0x0A] s) = Some rest"
    "split_once_str '' #c:'' rest = Some (m, token)" "message_id_new m = Inr m" "parse_notification_attempt_token token = Some a"
    using assms message_id_plain(1)
    by (auto simp: parse_doorbell_v2_def bind_eq_Some_conv split: if_splits sum.splits)
  have "strip_one [CHR 0x0A] s = render_doorbell_v2 m a" "a \<noteq> 0"
    using p(1) split_once_str_Some [OF p(2)] p(4) by (simp_all add: strip_prefix_Some render_doorbell_v2_def token.decode_iff)
  then show ?thesis using p(3) strip_one_cases by blast
qed

lemma parse_render_v3:
  assumes a: "a \<noteq> 0"
  shows "\<exists>text. render_doorbell_v3 a = Some text \<and>
    parse_doorbell_v3 (text @ (if json then '' --json'' else []) @ (if nl then [CHR 0x0A] else [])) = Some a"
proof -
  let ?loc = "locator_prefix @ notification_attempt_token a"
  let ?tail = "if json then '' --json'' else []"
  have ne: "notification_attempt_token a \<noteq> []" using token_facts(1) [of a] by auto
  then have plain: "plain (last ?loc)" using last_plain [OF token_plain [of a] ne] by simp
  have json_last: "last (?loc @ ?tail) \<noteq> CHR 0x0A" using plain plain_not(2) by (cases json) auto
  then have "last (claim_command @ ?loc @ ?tail) \<noteq> CHR 0x0A" using ne by (simp add: locator_prefix_def)
  then have nl: "strip_one [CHR 0x0A] (claim_command @ ?loc @ ?tail @ (if nl then [CHR 0x0A] else [])) = claim_command @ ?loc @ ?tail"
    using strip_one_other [of "claim_command @ ?loc @ ?tail" "[CHR 0x0A]"] strip_one_append [of "[CHR 0x0A]" "claim_command @ ?loc @ ?tail"]
    by (cases nl) simp_all
  have "strip_one '' --json'' (?loc @ ?tail) = ?loc"
  proof (cases json)
    case False
    have "strip_suffix '' --json'' ?loc = None"
    proof (rule ccontr)
      assume "strip_suffix '' --json'' ?loc \<noteq> None"
      then obtain t where "?loc = t @ '' --json''" by (auto simp: strip_suffix_Some)
      then have "CHR '' '' \<in> set ?loc" by simp
      then show False using token_plain [of a] plain_not(1) by (fastforce simp: locator_prefix_def list_all_iff)
    qed
    then show ?thesis using False by (simp add: strip_one_def)
  qed (use strip_one_append [of "'' --json''" ?loc] in simp)
  moreover have "message_id_new ?loc = Inr ?loc"
    using locator_is_message_id [of a] message_id_plain(1) by (auto simp: notification_attempt_claim_locator_def split: sum.splits)
  ultimately have "parse_doorbell_v3 (claim_command @ ?loc @ ?tail @ (if nl then [CHR 0x0A] else [])) = Some a"
    using locator.decode_encode [OF a] unfolding parse_doorbell_v3_def nl by simp
  then show ?thesis by (simp add: render_doorbell_v3_def locator_is_message_id)
qed

lemma parse_v3_exact:
  assumes "parse_doorbell_v3 s = Some a"
  shows "a \<noteq> 0 \<and> (\<exists>text. render_doorbell_v3 a = Some text \<and>
    s \<in> {text, text @ [CHR 0x0A], text @ '' --json'', text @ '' --json'' @ [CHR 0x0A]})"
proof -
  obtain rest where rest: "strip_prefix claim_command (strip_one [CHR 0x0A] s) = Some rest"
    "(case message_id_new (strip_one '' --json'' rest) of
        Inl e \<Rightarrow> None | Inr m \<Rightarrow> parse_notification_attempt_claim_locator m) = Some a"
    using assms unfolding parse_doorbell_v3_def bind_eq_Some_conv by blast
  then obtain m where p: "strip_prefix claim_command (strip_one [CHR 0x0A] s) = Some rest"
    "message_id_new (strip_one '' --json'' rest) = Inr m" "parse_notification_attempt_claim_locator m = Some a"
    by (cases "message_id_new (strip_one '' --json'' rest)") simp_all
  have m: "strip_one '' --json'' rest = locator_prefix @ notification_attempt_token a"
    using p(3) message_id_plain(1) [OF p(2)] by (simp add: locator.decode_iff)
  have r: "rest = locator_prefix @ notification_attempt_token a \<or>
      rest = locator_prefix @ notification_attempt_token a @ '' --json''"
    using strip_one_cases [OF m] by simp
  have s: "s = claim_command @ rest \<or> s = claim_command @ rest @ [CHR 0x0A]"
    using strip_one_cases [of "[CHR 0x0A]" s] p(1) by (auto simp: strip_prefix_Some)
  have "a \<noteq> 0" using p(3) by (simp add: locator.decode_iff)
  then show ?thesis using r s by (auto simp: render_doorbell_v3_def locator_is_message_id)
qed

end
