(* ===== verification/Notification_Rows.thy ===== *)
theory Notification_Rows
  imports Message_Rows Doorbell
begin

text \<open>
  The journal rows about notification attempts: transitions, the unclaimed reminder,
  requeues, and an operator's clearance or withdrawal. The flag \<open>replaying\<close> admits the rows
  of older daemons during replay.
\<close>

section \<open>Envelopes\<close>

definition notification_fact_of :: "ledger_line \<Rightarrow> (mailbox_error, notification_fact) result" where
  "notification_fact_of line =
     rbind (ok_or (ln_data line) (Settle (InvalidNotificationFact ''missing data''))) (\<lambda>data.
     case rd_notification_fact data of
       Inl e \<Rightarrow> Inl (Settle (InvalidNotificationFact e))
     | Inr f \<Rightarrow> Inr f)"

definition unexpected_fact :: "string \<Rightarrow> (mailbox_error, 'a) result" where
  "unexpected_fact tag = Inl (Settle (InvalidNotificationFact (''expected '' @ tag)))"

definition validate_notification_envelope ::
  "extern \<Rightarrow> mailbox_projection \<Rightarrow> ledger_line \<Rightarrow> nat \<Rightarrow> message_id \<Rightarrow> recipient_key \<Rightarrow> (mailbox_error, unit) result" where
  "validate_notification_envelope X p line version m r =
     (let ws = workspace_id p; expected_to = [key_to_string X r] in
      if version \<noteq> canonical_record_version
      then Inl (Mail (InvalidRecordVersion canonical_record_version version))
      else if rk_workspace r \<noteq> ws then Inl (Mail (WorkspaceMismatch ws (rk_workspace r)))
      else if is_admin r then Inl (Wake NotificationRecipientNotAgent)
      else if ln_id line \<noteq> m then Inl (Mail (EnvelopeMismatch (ln_id line) m))
      else if ln_from line \<noteq> daemon_label
      then Inl (Mail (PresentationMismatch ''from'' [ln_from line] [daemon_label]))
      else if ln_to line \<noteq> expected_to
      then Inl (Mail (PresentationMismatch ''to'' (ln_to line) expected_to))
      else if has_message_fields line
      then Inl (Mail (UncanonicalRow
        (''notification row seq '' @ show_nat (ln_seq line) @ '' contains message or delivery fields'')))
      else if \<not> hm_contains_key (messages p) m then Inl (Mail (MessageNotFound m))
      else if get_entry p r m = None then Inl (Mail (EntryNotFound m r))
      else Inr ())"

text \<open>
  The loop over the recipients of a batch requeue. The last check of the envelope walks
  the \<open>HashSet\<close> of recipients; the model walks them in the row's order, which decides
  only which missing entry the error names.
\<close>

fun check_requeue_recipients ::
  "Identity.workspace_id \<Rightarrow> notification_requeue list \<Rightarrow> recipient_key hash_set \<Rightarrow> (mailbox_error, unit) result" where
  "check_requeue_recipients ws [] seen = Inr ()"
| "check_requeue_recipients ws (q # qs) seen =
     (if rk_workspace (rq_recipient q) \<noteq> ws
      then Inl (Mail (WorkspaceMismatch ws (rk_workspace (rq_recipient q))))
      else if is_admin (rq_recipient q) then Inl (Wake NotificationRecipientNotAgent)
      else if hs_contains seen (rq_recipient q)
      then Inl (Settle (InvalidNotificationFact ''notifications_requeued contains a duplicate recipient''))
      else check_requeue_recipients ws qs (hs_insert (rq_recipient q) seen))"

definition validate_notification_requeues_envelope ::
  "extern \<Rightarrow> mailbox_projection \<Rightarrow> ledger_line \<Rightarrow> nat \<Rightarrow> message_id \<Rightarrow> notification_requeue list \<Rightarrow>
   (mailbox_error, unit) result" where
  "validate_notification_requeues_envelope X p line version m requeues =
     (let expected_to = map (\<lambda>q. key_to_string X (rq_recipient q)) requeues in
      if length requeues < 2
      then Inl (Settle (InvalidNotificationFact ''notifications_requeued requires at least two recipients''))
      else if version \<noteq> canonical_record_version
      then Inl (Mail (InvalidRecordVersion canonical_record_version version))
      else
        rbind (check_requeue_recipients (workspace_id p) requeues []) (\<lambda>_.
        if ln_id line \<noteq> m then Inl (Mail (EnvelopeMismatch (ln_id line) m))
        else if ln_from line \<noteq> daemon_label
        then Inl (Mail (PresentationMismatch ''from'' [ln_from line] [daemon_label]))
        else if ln_to line \<noteq> expected_to
        then Inl (Mail (PresentationMismatch ''to'' (ln_to line) expected_to))
        else if has_message_fields line
        then Inl (Mail (UncanonicalRow
          (''notification row seq '' @ show_nat (ln_seq line) @ '' contains message or delivery fields'')))
        else if \<not> hm_contains_key (messages p) m then Inl (Mail (MessageNotFound m))
        else try_each (\<lambda>q. if get_entry p (rq_recipient q) m = None
                          then Inl (Mail (EntryNotFound m (rq_recipient q))) else Inr ()) requeues))"

section \<open>Transitions\<close>

text \<open>The \<open>match current\<close> at the head: may this record take this edge?\<close>

definition check_transition_edge ::
  "notification_record option \<Rightarrow> transition_fact \<Rightarrow> bool \<Rightarrow> (mailbox_error, unit) result" where
  "check_transition_edge current f replaying =
     (case current of
        None \<Rightarrow>
          if tf_state f \<noteq> Queued then Inl (Wake (NotificationNotFound (tf_message_id f) (tf_recipient f)))
          else Inr ()
      | Some c \<Rightarrow>
          if nr_attempt_id c \<noteq> tf_attempt_id f
          then Inl (Wake (NotificationAttemptMismatch (nr_attempt_id c) (tf_attempt_id f)))
          else if nr_state c = BlockedPreWrite \<and> tf_state f = Gating \<and> nr_pre_write_reopen_count c \<ge> 1
          then Inl (Wake NotificationPreWriteReopenExhausted)
          else if tf_pre_write_cause f = Some PasteCommandUnwritten \<and>
                  \<not> (nr_state c = Writing \<and> tf_state f = BlockedPreWrite)
          then Inl (Wake (InvalidNotificationTransition (nr_state c) (tf_state f)))
          else if \<not> notification_transition_allowed c (tf_state f) (tf_pre_write_cause f) replaying
          then Inl (Wake (InvalidNotificationTransition (nr_state c) (tf_state f)))
          else if nr_state c = Queued \<and> tf_state f = Notified \<and> tf_transport f \<noteq> Some Mailbox
          then Inl (Wake (InvalidNotificationTransition (nr_state c) (tf_state f)))
          else Inr ())"

definition mailbox_close :: "transition_fact \<Rightarrow> bool" where
  "mailbox_close f = (tf_state f = Notified \<and> tf_transport f = Some Mailbox)"

text \<open>\<open>transport.unwrap_or_default()\<close>.\<close>

definition transport_or_default :: "transition_fact \<Rightarrow> notification_transport" where
  "transport_or_default f = (case tf_transport f of None \<Rightarrow> transport_default | Some t \<Rightarrow> t)"

text \<open>Binding, verifier, transport and doorbell format.\<close>

definition check_transition_binding :: "transition_fact \<Rightarrow> (mailbox_error, unit) result" where
  "check_transition_binding f =
     (if tf_state f = Writing \<and> tf_transport f \<noteq> Some Raw
      then (case tf_binding f of
              None \<Rightarrow> Inl (Wake NotificationBindingRequired)
            | Some b \<Rightarrow> if bd_recipient b \<noteq> tf_recipient f then Inl (Wake NotificationBindingMismatch) else Inr ())
      else if tf_binding f \<noteq> None then Inl (Wake NotificationBindingForbidden)
      else Inr ())"

definition check_transition_fields ::
  "notification_record option \<Rightarrow> transition_fact \<Rightarrow> (mailbox_error, unit) result" where
  "check_transition_fields current f =
     (if mailbox_close f \<and> is_some_and current (\<lambda>c. nr_state c \<noteq> Queued)
      then Inl (Wake NotificationTransportForbidden)
      else
        rbind (check_transition_binding f) (\<lambda>_.
        if tf_verified_by f \<noteq> None \<and> tf_state f \<noteq> Notified then Inl (Wake NotificationVerifiedByForbidden)
        else if mailbox_close f \<and> tf_verified_by f \<noteq> None then Inl (Wake NotificationVerifiedByForbidden)
        else if tf_state f \<noteq> Writing \<and> tf_transport f \<noteq> None \<and> \<not> mailbox_close f
        then Inl (Wake NotificationTransportForbidden)
        else if tf_state f \<noteq> Writing \<and> tf_doorbell_format f \<noteq> None
        then Inl (Wake NotificationDoorbellFormatForbidden)
        else if tf_doorbell_format f \<noteq> None \<and> transport_or_default f \<noteq> Doorbell
        then Inl (Wake NotificationDoorbellFormatForbidden)
        else Inr ()))"

text \<open>The attention cause and the verification outcome.\<close>

definition check_transition_cause ::
  "notification_record option \<Rightarrow> transition_fact \<Rightarrow> bool \<Rightarrow> (mailbox_error, unit) result" where
  "check_transition_cause current f replaying =
     (if tf_state f = AttentionRequired
      then
        rbind (ok_or (tf_cause f) (Wake NotificationCauseRequired)) (\<lambda>cause.
        rbind (ok_or current (Wake (NotificationNotFound (tf_message_id f) (tf_recipient f)))) (\<lambda>prior.
        if \<not> valid_after cause (nr_state prior)
        then Inl (Wake (InvalidNotificationCause cause (nr_state prior)))
        else if cause = VerifyFailed \<and> tf_verify_outcome f = None \<and> \<not> replaying
        then Inl (Wake NotificationVerifyOutcomeRequired)
        else if cause = VerifyFailed \<or> tf_verify_outcome f = None then Inr ()
        else Inl (Wake NotificationVerifyOutcomeForbidden)))
      else if tf_cause f \<noteq> None then Inl (Wake NotificationCauseForbidden)
      else if tf_verify_outcome f \<noteq> None then Inl (Wake NotificationVerifyOutcomeForbidden)
      else Inr ())"

text \<open>\<open>pane_width.zip(required_pane_width)\<close> of an observation.\<close>

definition width_observation :: "pre_write_observation option \<Rightarrow> (nat \<times> nat) option" where
  "width_observation ob =
     (case ob of
        None \<Rightarrow> None
      | Some ob \<Rightarrow>
          (case (ob_pane_width ob, ob_required_pane_width ob) of
             (Some observed, Some required) \<Rightarrow> Some (observed, required)
           | _ \<Rightarrow> None))"

text \<open>The evidence of a blocked write.\<close>

definition check_transition_block :: "transition_fact \<Rightarrow> (mailbox_error, unit) result" where
  "check_transition_block f =
     (let cause = tf_pre_write_cause f; ob = tf_pre_write_observation f; width = width_observation ob in
      if tf_state f = BlockedPreWrite
      then
        if cause = None then Inl (Wake NotificationPreWriteCauseRequired)
        else if (cause \<in> {Some BindingUnprovable, Some ComposerSemanticMissing} \<or>
                 width \<noteq> None \<and> cause = Some WriteReadinessChanged) \<and>
                Option.bind ob ob_selected_manifest = None
        then Inl (Wake NotificationPreWriteObservationRequired)
        else if is_some_and ob (\<lambda>ob. (ob_pane_width ob \<noteq> None) \<noteq> (ob_required_pane_width ob \<noteq> None))
        then Inl (Wake NotificationPreWriteObservationRequired)
        else
          (case width of
             None \<Rightarrow> Inr ()
           | Some (observed, required) \<Rightarrow>
               if cause \<noteq> Some WriteReadinessChanged then Inl (Wake NotificationPreWriteObservationRequired)
               else if observed \<ge> required \<or> required = 0
               then Inl (Wake (NotificationPaneWidthNotNarrow observed required))
               else Inr ())
      else if cause \<noteq> None \<or> tf_wake_block f \<noteq> None \<or> ob \<noteq> None
      then Inl (Wake NotificationPreWriteCauseForbidden)
      else Inr ())"

text \<open>The record of a fresh attempt, queued by the line.\<close>

definition queued_record ::
  "attempt_id \<Rightarrow> message_id \<Rightarrow> recipient_key \<Rightarrow> ledger_line \<Rightarrow> notification_record" where
  "queued_record a m r line =
     \<lparr> nr_attempt_id = a, nr_message_id = m, nr_recipient = r, nr_state = Queued, nr_binding = None,
       nr_transport = Doorbell, nr_doorbell_format = None, nr_cause = None, nr_verified_by = None,
       nr_verify_outcome = None, nr_pre_write_cause = None, nr_wake_block = None,
       nr_pre_write_observation = None, nr_pre_write_reopen_count = 0, nr_unclaimed_reminder_count = 0,
       nr_started_seq = ln_seq line, nr_updated_seq = ln_seq line, nr_updated_at = ln_ts line \<rparr>"

definition proves_unwritten :: "transition_fact \<Rightarrow> bool" where
  "proves_unwritten f = (tf_state f = BlockedPreWrite \<and> tf_pre_write_cause f = Some PasteCommandUnwritten)"

definition advanced_record :: "notification_record \<Rightarrow> transition_fact \<Rightarrow> ledger_line \<Rightarrow> notification_record" where
  "advanced_record c f line =
     \<lparr> nr_attempt_id = tf_attempt_id f, nr_message_id = tf_message_id f, nr_recipient = tf_recipient f,
       nr_state = tf_state f,
       nr_binding = (if tf_state f = Writing then tf_binding f
                     else if proves_unwritten f then None else nr_binding c),
       nr_transport = (if tf_state f = Writing \<or> mailbox_close f then transport_or_default f
                       else nr_transport c),
       nr_doorbell_format = (if tf_state f = Writing then tf_doorbell_format f
                             else if proves_unwritten f then None else nr_doorbell_format c),
       nr_cause = tf_cause f, nr_verified_by = tf_verified_by f, nr_verify_outcome = tf_verify_outcome f,
       nr_pre_write_cause = tf_pre_write_cause f, nr_wake_block = tf_wake_block f,
       nr_pre_write_observation = tf_pre_write_observation f,
       nr_pre_write_reopen_count =
         (if nr_state c = BlockedPreWrite \<and> tf_state f = Gating
          then saturating_add_u8 (nr_pre_write_reopen_count c) 1 else nr_pre_write_reopen_count c),
       nr_unclaimed_reminder_count = nr_unclaimed_reminder_count c,
       nr_started_seq = nr_started_seq c, nr_updated_seq = ln_seq line, nr_updated_at = ln_ts line \<rparr>"

definition transition_record ::
  "mailbox_projection \<Rightarrow> ledger_line \<Rightarrow> notification_record option \<Rightarrow> transition_fact \<Rightarrow>
   (mailbox_error, notification_record \<times> bool) result" where
  "transition_record p line current f =
     (let m = tf_message_id f; r = tf_recipient f; a = tf_attempt_id f in
      case current of
        None \<Rightarrow>
          if tf_state f \<noteq> Queued then Inl (Wake (NotificationNotFound m r))
          else
            rbind (require_pending_entry p r m) (\<lambda>_.
            if hs_contains (notification_attempts p) a then Inl (Wake (NotificationAttemptReused a))
            else Inr (queued_record a m r line, True))
      | Some c \<Rightarrow> Inr (advanced_record c f line, False))"

definition prepare_notification_transition ::
  "extern \<Rightarrow> mailbox_projection \<Rightarrow> ledger_line \<Rightarrow> bool \<Rightarrow> (mailbox_error, prepared_mutation) result" where
  "prepare_notification_transition X p line replaying =
     rbind (notification_fact_of line) (\<lambda>fact'.
     case fact' of
       NotificationTransition f \<Rightarrow>
         rbind (validate_notification_envelope X p line (tf_record_version f) (tf_message_id f) (tf_recipient f)) (\<lambda>_.
         let key = (tf_recipient f, tf_message_id f); current = hm_get (notifications p) key in
         rbind (check_transition_edge current f replaying) (\<lambda>_.
         rbind (check_transition_fields current f) (\<lambda>_.
         rbind (check_transition_cause current f replaying) (\<lambda>_.
         rbind (check_transition_block f) (\<lambda>_.
         rbind (transition_record p line current f) (\<lambda>(rec, new_attempt).
         Inr (PreparedNotification key rec new_attempt)))))))
     | _ \<Rightarrow> unexpected_fact ''notification_transition'')"

section \<open>Reminders\<close>

definition prepare_unclaimed_reminder_queued ::
  "extern \<Rightarrow> mailbox_projection \<Rightarrow> ledger_line \<Rightarrow> (mailbox_error, prepared_mutation) result" where
  "prepare_unclaimed_reminder_queued X p line =
     rbind (notification_fact_of line) (\<lambda>fact'.
     case fact' of
       NotificationUnclaimedReminderQueued f \<Rightarrow>
         let m = af_message_id f; r = af_recipient f; a = af_attempt_id f in
         rbind (validate_notification_envelope X p line (af_record_version f) m r) (\<lambda>_.
         rbind (require_pending_entry p r m) (\<lambda>_.
         rbind (ok_or (hm_get (notifications p) (r, m)) (Wake (NotificationNotFound m r))) (\<lambda>c.
         if nr_attempt_id c \<noteq> a then Inl (Wake (NotificationAttemptMismatch (nr_attempt_id c) a))
         else if nr_state c \<noteq> Notified \<or> nr_transport c \<noteq> Doorbell \<or> nr_unclaimed_reminder_count c \<noteq> 0 \<or>
                 hm_contains_key (active_notification_barriers p) a
         then Inl (Settle (InvalidNotificationFact
           ''unclaimed reminder requires one pending, notified doorbell with a retired prior barrier and unused allowance''))
         else Inr (PreparedNotification (r, m)
           (c\<lparr> nr_state := Gating, nr_cause := None, nr_verified_by := None, nr_verify_outcome := None,
               nr_pre_write_cause := None, nr_wake_block := None, nr_pre_write_observation := None,
               nr_unclaimed_reminder_count := 1, nr_updated_seq := ln_seq line, nr_updated_at := ln_ts line \<rparr>)
           False))))
     | _ \<Rightarrow> unexpected_fact ''notification_unclaimed_reminder_queued'')"

section \<open>Requeues\<close>

definition prepare_notification_requeue_record ::
  "mailbox_projection \<Rightarrow> ledger_line \<Rightarrow> message_id \<Rightarrow> recipient_key \<Rightarrow> attempt_id \<Rightarrow> attempt_id \<Rightarrow>
   (mailbox_error, entry_key \<times> notification_record) result" where
  "prepare_notification_requeue_record p line m r prior a =
     rbind (require_pending_entry p r m) (\<lambda>_.
     rbind (ok_or (hm_get (notifications p) (r, m)) (Wake (NotificationNotFound m r))) (\<lambda>c.
     if nr_attempt_id c \<noteq> prior then Inl (Wake (NotificationAttemptMismatch (nr_attempt_id c) prior))
     else if nr_state c \<notin> {AttentionRequired, QuotaResetObserved}
     then Inl (Settle NotificationRequeueRequiresAttention)
     else if hm_contains_key (resolution_intents p) prior
     then Inl (Settle (NotificationResolutionAmbiguous prior))
     else if hs_contains (notification_attempts p) a then Inl (Wake (NotificationAttemptReused a))
     else Inr ((r, m), queued_record a m r line)))"

definition prepare_notification_requeue ::
  "extern \<Rightarrow> mailbox_projection \<Rightarrow> ledger_line \<Rightarrow> (mailbox_error, prepared_mutation) result" where
  "prepare_notification_requeue X p line =
     rbind (notification_fact_of line) (\<lambda>fact'.
     case fact' of
       NotificationRequeued f prior \<Rightarrow>
         let m = af_message_id f; r = af_recipient f in
         rbind (validate_notification_envelope X p line (af_record_version f) m r) (\<lambda>_.
         rbind (prepare_notification_requeue_record p line m r prior (af_attempt_id f)) (\<lambda>(key, rec).
         Inr (PreparedNotification key rec True)))
     | _ \<Rightarrow> unexpected_fact ''notification_requeued'')"

text \<open>The loop of a batch: a fresh attempt id may not occur twice in one row.\<close>

fun requeue_records ::
  "mailbox_projection \<Rightarrow> ledger_line \<Rightarrow> message_id \<Rightarrow> attempt_id hash_set \<Rightarrow> notification_requeue list \<Rightarrow>
   (mailbox_error, (entry_key \<times> notification_record) list) result" where
  "requeue_records p line m attempts [] = Inr []"
| "requeue_records p line m attempts (q # qs) =
     (if hs_contains attempts (rq_attempt_id q) then Inl (Wake (NotificationAttemptReused (rq_attempt_id q)))
      else
        rbind (prepare_notification_requeue_record p line m (rq_recipient q) (rq_prior_attempt_id q)
                 (rq_attempt_id q)) (\<lambda>rec.
        rbind (requeue_records p line m (hs_insert (rq_attempt_id q) attempts) qs) (\<lambda>recs.
        Inr (rec # recs))))"

definition prepare_notification_requeues ::
  "extern \<Rightarrow> mailbox_projection \<Rightarrow> ledger_line \<Rightarrow> (mailbox_error, prepared_mutation) result" where
  "prepare_notification_requeues X p line =
     rbind (notification_fact_of line) (\<lambda>fact'.
     case fact' of
       NotificationsRequeued version m requeues \<Rightarrow>
         rbind (validate_notification_requeues_envelope X p line version m requeues) (\<lambda>_.
         rbind (requeue_records p line m [] requeues) (\<lambda>records.
         Inr (PreparedRequeues records)))
     | _ \<Rightarrow> unexpected_fact ''notifications_requeued'')"

section \<open>Clearance\<close>

definition prepare_notification_clear ::
  "extern \<Rightarrow> mailbox_projection \<Rightarrow> ledger_line \<Rightarrow> (mailbox_error, prepared_mutation) result" where
  "prepare_notification_clear X p line =
     rbind (notification_fact_of line) (\<lambda>fact'.
     case fact' of
       NotificationCleared f \<Rightarrow>
         let m = af_message_id f; r = af_recipient f; a = af_attempt_id f in
         rbind (validate_notification_envelope X p line (af_record_version f) m r) (\<lambda>_.
         rbind (ok_or (hm_get (notifications p) (r, m)) (Wake (NotificationNotFound m r))) (\<lambda>c.
         if nr_attempt_id c \<noteq> a then Inl (Wake (NotificationAttemptMismatch (nr_attempt_id c) a))
         else if nr_state c \<noteq> AttentionRequired then Inl (Settle NotificationClearRequiresAttention)
         else Inr (PreparedCleared a)))
     | _ \<Rightarrow> unexpected_fact ''notification_cleared'')"

definition invalid_clearance :: "string \<Rightarrow> (mailbox_error, 'a) result" where
  "invalid_clearance text = Inl (Settle (InvalidNotificationFact text))"

text \<open>One attempt of a clearance batch; the result is the text of its recipient.\<close>

definition clear_attempt ::
  "extern \<Rightarrow> mailbox_projection \<Rightarrow> nat option \<Rightarrow> attempt_id \<Rightarrow> (mailbox_error, string) result" where
  "clear_attempt X p cutoff a =
     (if hs_contains (cleared_attempts p) a
      then invalid_clearance (''notification attempt '' @ quoted (attempt_to_string X a) @ '' was already cleared'')
      else
        rbind (ok_or (notification_by_attempt p a) (Settle (NotificationAttemptUnknown a))) (\<lambda>rec.
        if nr_state rec \<noteq> AttentionRequired then Inl (Settle NotificationClearRequiresAttention)
        else if is_some_and cutoff (\<lambda>c. nr_updated_at rec > c)
        then invalid_clearance
          (''notification attempt '' @ quoted (attempt_to_string X a) @ '' is newer than the confirmed cutoff'')
        else Inr (key_to_string X (nr_recipient rec))))"

text \<open>\<open>collect::<BTreeSet<_>>().into_iter().collect()\<close>: sorted, without duplicates.\<close>

definition sorted_unique :: "'a::linorder list \<Rightarrow> 'a list" where
  "sorted_unique xs = sort (remdups xs)"

definition prepare_notification_clears ::
  "extern \<Rightarrow> mailbox_projection \<Rightarrow> ledger_line \<Rightarrow> (mailbox_error, prepared_mutation) result" where
  "prepare_notification_clears X p line =
     rbind (notification_fact_of line) (\<lambda>fact'.
     case fact' of
       NotificationsCleared version batch_id attempts operator cutoff \<Rightarrow>
         if version \<noteq> canonical_record_version
         then Inl (Mail (InvalidRecordVersion canonical_record_version version))
         else if operator \<noteq> key_admin (workspace_id p)
         then invalid_clearance ''notification clearance operator is not the workspace administrator''
         else if batch_id = [] \<or> ln_id line \<noteq> batch_id
         then invalid_clearance ''notification clearance batch id does not match its ledger row''
         else if hs_contains (clearance_batches p) batch_id
         then invalid_clearance (''duplicate notification clearance batch '' @ quoted batch_id)
         else if ln_from line \<noteq> key_to_string X operator \<or> has_message_fields line
         then invalid_clearance ''notification clearance batch has an invalid content envelope''
         else if attempts = [] then invalid_clearance ''notification clearance batch is empty''
         else if sorted_unique attempts \<noteq> attempts
         then invalid_clearance ''notification clearance attempts are not sorted and unique''
         else
           rbind (try_map (clear_attempt X p cutoff) attempts) (\<lambda>recipients.
           if ln_to line \<noteq> sorted_unique recipients
           then invalid_clearance ''notification clearance recipients do not match its attempts''
           else Inr (PreparedClears batch_id attempts))
     | _ \<Rightarrow> unexpected_fact ''notifications_cleared'')"

section \<open>Withdrawal by the operator\<close>

definition check_withdrawal_envelope ::
  "extern \<Rightarrow> mailbox_projection \<Rightarrow> ledger_line \<Rightarrow> attempt_fact \<Rightarrow> recipient_key \<Rightarrow> (mailbox_error, unit) result" where
  "check_withdrawal_envelope X p line f operator =
     (let m = af_message_id f; authoritative_to = [key_to_string X (af_recipient f)] in
      if af_record_version f \<noteq> canonical_record_version
      then Inl (Mail (InvalidRecordVersion canonical_record_version (af_record_version f)))
      else if ln_id line \<noteq> m then Inl (Mail (EnvelopeMismatch (ln_id line) m))
      else if operator \<noteq> key_admin (workspace_id p) then Inl (Settle NotificationWithdrawalOperatorInvalid)
      else if ln_from line \<noteq> key_to_string X operator
      then Inl (Mail (PresentationMismatch ''from'' [ln_from line] [key_to_string X operator]))
      else if ln_to line \<noteq> authoritative_to
      then Inl (Mail (PresentationMismatch ''to'' (ln_to line) authoritative_to))
      else if has_message_fields line
      then Inl (Mail (UncanonicalRow
        (''notification withdrawal row seq '' @ show_nat (ln_seq line) @ '' contains message fields'')))
      else Inr ())"

definition prepare_notification_withdrawal ::
  "extern \<Rightarrow> mailbox_projection \<Rightarrow> ledger_line \<Rightarrow> bool \<Rightarrow> (mailbox_error, prepared_mutation) result" where
  "prepare_notification_withdrawal X p line replaying =
     rbind (notification_fact_of line) (\<lambda>fact'.
     case fact' of
       NotificationWithdrawnBeforeWrite f operator \<Rightarrow>
         let m = af_message_id f; r = af_recipient f; a = af_attempt_id f in
         rbind (check_withdrawal_envelope X p line f operator) (\<lambda>_.
         rbind (ok_or (get_entry p r m) (Mail (EntryNotFound m r))) (\<lambda>entry.
         if \<not> is_pending (me_state entry) \<and> \<not> is_claimed (me_state entry)
         then Inl (Wake (NotificationMessageNotPending m r))
         else
           rbind (ok_or (hm_get (notifications p) (r, m)) (Wake (NotificationNotFound m r))) (\<lambda>c.
           if nr_attempt_id c \<noteq> a then Inl (Wake (NotificationAttemptMismatch (nr_attempt_id c) a))
           else if \<not> can_withdraw_before_write (nr_state c) \<and>
                   \<not> (replaying \<and> withdrawn_by_claim_before_write c)
           then Inl (Settle NotificationWithdrawalRequiresPreWrite)
           else Inr (PreparedWithdrawnBeforeWrite (r, m)
             ((settled_record c WithdrawnByOperator None None line)
                \<lparr> nr_attempt_id := a, nr_message_id := m, nr_recipient := r \<rparr>)))))
     | _ \<Rightarrow> unexpected_fact ''notification_withdrawn_before_write'')"

end
