(* ===== verification/Resolution_Rows.thy ===== *)
theory Resolution_Rows
  imports Notification_Rows
begin

text \<open>
  The journal rows that settle an attempt an operator must look at: the intent to act on
  the terminal, the reservation and acceptance of its key, the observed consumption, the
  resolution itself, and the retirement of composer barriers.
\<close>

section \<open>The current attempt of a resolution row\<close>

text \<open>
  Five validators begin alike: the record of the key, of exactly this attempt, in
  attention with a binding, and not resolved yet.
\<close>

definition current_attempt ::
  "mailbox_projection \<Rightarrow> recipient_key \<Rightarrow> message_id \<Rightarrow> attempt_id \<Rightarrow> (mailbox_error, notification_record) result" where
  "current_attempt p r m a =
     rbind (ok_or (hm_get (notifications p) (r, m)) (Settle (NotificationAttemptUnknown a))) (\<lambda>c.
     if nr_attempt_id c \<noteq> a then Inl (Wake (NotificationAttemptMismatch (nr_attempt_id c) a))
     else Inr c)"

definition unresolved_attention ::
  "mailbox_projection \<Rightarrow> recipient_key \<Rightarrow> message_id \<Rightarrow> attempt_id \<Rightarrow> (mailbox_error, notification_record) result" where
  "unresolved_attention p r m a =
     rbind (current_attempt p r m a) (\<lambda>c.
     if nr_state c \<noteq> AttentionRequired \<or> nr_binding c = None then Inl (Settle NotificationClearRequiresAttention)
     else if hm_contains_key (resolved_attempts p) a then Inl (Settle (NotificationAlreadyResolved a))
     else Inr c)"

definition ambiguous :: "attempt_id \<Rightarrow> (mailbox_error, 'a) result" where
  "ambiguous a = Inl (Settle (NotificationResolutionAmbiguous a))"

section \<open>Resolution\<close>

definition check_resolution_proof ::
  "mailbox_projection \<Rightarrow> notification_record \<Rightarrow> nat \<Rightarrow> attempt_id \<Rightarrow> resolution \<Rightarrow> (mailbox_error, unit) result" where
  "check_resolution_proof p c proof_version a res =
     (if proof_version = 0
      then
        if \<not> uses_legacy_notification_write_contract c \<or>
           hm_contains_key (resolution_actions_accepted p) a \<or>
           hm_contains_key (resolution_consumptions p) a \<or>
           is_some_and (hm_get (resolution_intents p) a) (\<lambda>recorded. recorded \<noteq> res)
        then ambiguous a else Inr ()
      else if proof_version = notification_resolution_proof_version
      then
        if hm_get (resolution_intents p) a \<noteq> Some res then ambiguous a
        else
          (case (res, hm_get (resolution_actions_accepted p) a, hm_get (resolution_consumptions p) a) of
             (Complete, Some Complete, Some observation) \<Rightarrow>
               if proves_exact_consumption (co_evidence observation) then Inr () else ambiguous a
           | (Discard, Some Discard, None) \<Rightarrow> Inr ()
           | _ \<Rightarrow> ambiguous a)
      else Inl (Settle (InvalidNotificationFact
        (''unsupported notification resolution proof version '' @ show_nat proof_version))))"

definition prepare_notification_resolution ::
  "extern \<Rightarrow> mailbox_projection \<Rightarrow> ledger_line \<Rightarrow> (mailbox_error, prepared_mutation) result" where
  "prepare_notification_resolution X p line =
     rbind (notification_fact_of line) (\<lambda>fact'.
     case fact' of
       NotificationResolved proof_version f res \<Rightarrow>
         let m = af_message_id f; r = af_recipient f; a = af_attempt_id f in
         rbind (validate_notification_envelope X p line (af_record_version f) m r) (\<lambda>_.
         rbind (unresolved_attention p r m a) (\<lambda>c.
         rbind (check_resolution_proof p c proof_version a res) (\<lambda>_.
         Inr (PreparedResolved a res))))
     | _ \<Rightarrow> unexpected_fact ''notification_resolved'')"

definition prepare_notification_resolution_without_terminal_action ::
  "extern \<Rightarrow> mailbox_projection \<Rightarrow> ledger_line \<Rightarrow> (mailbox_error, prepared_mutation) result" where
  "prepare_notification_resolution_without_terminal_action X p line =
     rbind (notification_fact_of line) (\<lambda>fact'.
     case fact' of
       NotificationResolvedWithoutTerminalAction f res \<Rightarrow>
         let m = af_message_id f; r = af_recipient f; a = af_attempt_id f in
         rbind (validate_notification_envelope X p line (af_record_version f) m r) (\<lambda>_.
         rbind (unresolved_attention p r m a) (\<lambda>c.
         if res \<noteq> Discard \<or> hm_contains_key (resolution_actions_accepted p) a \<or>
            hm_contains_key (resolution_consumptions p) a \<or>
            is_some_and (hm_get (resolution_intents p) a) (\<lambda>recorded. recorded \<noteq> Discard)
         then ambiguous a
         else Inr (PreparedResolvedWithoutTerminalAction a res)))
     | _ \<Rightarrow> unexpected_fact ''notification_resolved_without_terminal_action'')"

definition prepare_notification_resolution_intent ::
  "extern \<Rightarrow> mailbox_projection \<Rightarrow> ledger_line \<Rightarrow> (mailbox_error, prepared_mutation) result" where
  "prepare_notification_resolution_intent X p line =
     rbind (notification_fact_of line) (\<lambda>fact'.
     case fact' of
       NotificationResolutionIntent f res forced \<Rightarrow>
         let m = af_message_id f; r = af_recipient f; a = af_attempt_id f in
         rbind (validate_notification_envelope X p line (af_record_version f) m r) (\<lambda>_.
         rbind (unresolved_attention p r m a) (\<lambda>c.
         if hm_contains_key (resolution_intents p) a then ambiguous a
         else if forced \<and> res \<noteq> Complete then ambiguous a
         else Inr (PreparedResolutionIntent a res forced)))
     | _ \<Rightarrow> unexpected_fact ''notification_resolution_intent'')"

section \<open>Reservation, acceptance, consumption\<close>

text \<open>The boolean of the three validators: the same row is already recorded.\<close>

definition recorded_before ::
  "('k, 'v) hash_map \<Rightarrow> 'k \<Rightarrow> 'v \<Rightarrow> mailbox_error \<Rightarrow> (mailbox_error, bool) result" where
  "recorded_before m k v e =
     (case hm_get m k of
        Some recorded \<Rightarrow> if recorded = v then Inr True else Inl e
      | None \<Rightarrow> Inr False)"

definition validate_forced_notification_resolution_action_reservation ::
  "mailbox_projection \<Rightarrow> message_id \<Rightarrow> recipient_key \<Rightarrow> attempt_id \<Rightarrow> resolution \<Rightarrow> (mailbox_error, bool) result" where
  "validate_forced_notification_resolution_action_reservation p m r a res =
     rbind (current_attempt p r m a) (\<lambda>c.
     if \<not> needs_exact_owned_reconciliation c \<or> notification p r m \<noteq> Some c \<or>
        hm_get (active_notification_barriers p) a \<noteq> Some c
     then Inl (Settle NotificationClearRequiresAttention)
     else if \<not> entry_is_pending p r m then Inl (Wake (NotificationMessageNotPending m r))
     else if res \<noteq> Complete \<or> hm_contains_key (resolved_attempts p) a \<or>
             hm_contains_key (resolution_actions_accepted p) a \<or>
             hm_contains_key (resolution_consumptions p) a \<or>
             hm_get (resolution_intents p) a \<noteq> Some res \<or>
             \<not> hs_contains (forced_resolution_intents p) a
     then ambiguous a
     else recorded_before (resolution_action_reservations p) a res (Settle (NotificationResolutionAmbiguous a)))"

definition prepare_notification_resolution_action_reserved ::
  "extern \<Rightarrow> mailbox_projection \<Rightarrow> ledger_line \<Rightarrow> (mailbox_error, prepared_mutation) result" where
  "prepare_notification_resolution_action_reserved X p line =
     rbind (notification_fact_of line) (\<lambda>fact'.
     case fact' of
       NotificationResolutionActionReserved f res \<Rightarrow>
         let m = af_message_id f; r = af_recipient f; a = af_attempt_id f in
         rbind (validate_notification_envelope X p line (af_record_version f) m r) (\<lambda>_.
         rbind (validate_forced_notification_resolution_action_reservation p m r a res) (\<lambda>_.
         Inr (PreparedActionReserved a res)))
     | _ \<Rightarrow> unexpected_fact ''notification_resolution_action_reserved'')"

definition validate_notification_resolution_action_accepted ::
  "mailbox_projection \<Rightarrow> message_id \<Rightarrow> recipient_key \<Rightarrow> attempt_id \<Rightarrow> resolution \<Rightarrow> (mailbox_error, bool) result" where
  "validate_notification_resolution_action_accepted p m r a res =
     rbind (unresolved_attention p r m a) (\<lambda>c.
     if hm_get (resolution_intents p) a \<noteq> Some res then ambiguous a
     else recorded_before (resolution_actions_accepted p) a res (Settle (NotificationResolutionAmbiguous a)))"

definition prepare_notification_resolution_action_accepted ::
  "extern \<Rightarrow> mailbox_projection \<Rightarrow> ledger_line \<Rightarrow> (mailbox_error, prepared_mutation) result" where
  "prepare_notification_resolution_action_accepted X p line =
     rbind (notification_fact_of line) (\<lambda>fact'.
     case fact' of
       NotificationResolutionActionAccepted f res \<Rightarrow>
         let m = af_message_id f; r = af_recipient f; a = af_attempt_id f in
         rbind (validate_notification_envelope X p line (af_record_version f) m r) (\<lambda>_.
         rbind (validate_notification_resolution_action_accepted p m r a res) (\<lambda>_.
         Inr (PreparedActionAccepted a res)))
     | _ \<Rightarrow> unexpected_fact ''notification_resolution_action_accepted'')"

definition validate_notification_resolution_consumption_observed ::
  "mailbox_projection \<Rightarrow> message_id \<Rightarrow> recipient_key \<Rightarrow> attempt_id \<Rightarrow> consumption_observation \<Rightarrow>
   (mailbox_error, bool) result" where
  "validate_notification_resolution_consumption_observed p m r a observation =
     (if co_observed_at_ms observation = 0
      then Inl (Settle (InvalidNotificationFact ''resolution consumption observation requires a positive timestamp''))
      else
        rbind (unresolved_attention p r m a) (\<lambda>c.
        if hm_get (resolution_intents p) a \<noteq> Some Complete \<or>
           hm_get (resolution_actions_accepted p) a \<noteq> Some Complete
        then ambiguous a
        else recorded_before (resolution_consumptions p) a observation
               (Settle (NotificationResolutionAmbiguous a))))"

definition prepare_notification_resolution_consumption_observed ::
  "extern \<Rightarrow> mailbox_projection \<Rightarrow> ledger_line \<Rightarrow> (mailbox_error, prepared_mutation) result" where
  "prepare_notification_resolution_consumption_observed X p line =
     rbind (notification_fact_of line) (\<lambda>fact'.
     case fact' of
       NotificationResolutionConsumptionObserved f observation \<Rightarrow>
         let m = af_message_id f; r = af_recipient f; a = af_attempt_id f in
         rbind (validate_notification_envelope X p line (af_record_version f) m r) (\<lambda>_.
         rbind (validate_notification_resolution_consumption_observed p m r a observation) (\<lambda>_.
         Inr (PreparedConsumptionObserved a observation)))
     | _ \<Rightarrow> unexpected_fact ''notification_resolution_consumption_observed'')"

definition prepare_notification_resolution_intent_withdrawn ::
  "extern \<Rightarrow> mailbox_projection \<Rightarrow> ledger_line \<Rightarrow> (mailbox_error, prepared_mutation) result" where
  "prepare_notification_resolution_intent_withdrawn X p line =
     rbind (notification_fact_of line) (\<lambda>fact'.
     case fact' of
       NotificationResolutionIntentWithdrawn f res \<Rightarrow>
         let m = af_message_id f; r = af_recipient f; a = af_attempt_id f in
         rbind (validate_notification_envelope X p line (af_record_version f) m r) (\<lambda>_.
         rbind (current_attempt p r m a) (\<lambda>c.
         if hm_get (resolution_intents p) a \<noteq> Some res \<or> hm_contains_key (resolved_attempts p) a \<or>
            hm_contains_key (resolution_action_reservations p) a \<or>
            hm_contains_key (resolution_actions_accepted p) a \<or>
            hm_contains_key (resolution_consumptions p) a
         then ambiguous a
         else Inr (PreparedIntentWithdrawn a)))
     | _ \<Rightarrow> unexpected_fact ''notification_resolution_intent_withdrawn'')"

section \<open>Composer barriers\<close>

definition prepare_notification_claimed_staged_clear ::
  "extern \<Rightarrow> mailbox_projection \<Rightarrow> ledger_line \<Rightarrow> (mailbox_error, prepared_mutation) result" where
  "prepare_notification_claimed_staged_clear X p line =
     rbind (notification_fact_of line) (\<lambda>fact'.
     case fact' of
       NotificationClaimedStagedCleared f \<Rightarrow>
         let m = af_message_id f; r = af_recipient f; a = af_attempt_id f in
         rbind (validate_notification_envelope X p line (af_record_version f) m r) (\<lambda>_.
         rbind (ok_or (hm_get (notifications p) (r, m)) (Wake (NotificationNotFound m r))) (\<lambda>c.
         if nr_attempt_id c \<noteq> a then Inl (Wake (NotificationAttemptMismatch (nr_attempt_id c) a))
         else if nr_state c \<noteq> Staged \<or> nr_transport c \<noteq> Doorbell
         then Inl (Wake (InvalidNotificationTransition (nr_state c) WithdrawnAfterStaging))
         else if \<not> is_some_and (get_entry p r m) (\<lambda>e. claimed_by e r)
         then Inl (Settle (InvalidNotificationFact ''claimed staged clear requires the exact recipient claim''))
         else
           rbind (ok_or (hm_get (active_notification_barriers p) a) (Settle (NotificationBarrierNotActive a))) (\<lambda>active.
           if nr_message_id active \<noteq> m \<or> nr_recipient active \<noteq> r
           then Inl (Wake (NotificationAttemptMismatch (nr_attempt_id active) a))
           else if nr_state active \<noteq> Staged \<or> nr_binding active \<noteq> nr_binding c \<or>
                   nr_transport active \<noteq> nr_transport c \<or> nr_doorbell_format active \<noteq> nr_doorbell_format c
           then Inl (Settle (InvalidNotificationFact ''claimed staged clear does not match the exact active barrier''))
           else Inr (PreparedClaimedStagedCleared (r, m)
             (c\<lparr> nr_state := WithdrawnAfterStaging, nr_cause := None, nr_pre_write_cause := None,
                 nr_pre_write_observation := None, nr_updated_seq := ln_seq line, nr_updated_at := ln_ts line \<rparr>)
             a))))
     | _ \<Rightarrow> unexpected_fact ''notification_claimed_staged_cleared'')"

definition prepare_notification_claimed_ack_timeout_reconciliation ::
  "extern \<Rightarrow> mailbox_projection \<Rightarrow> ledger_line \<Rightarrow> (mailbox_error, prepared_mutation) result" where
  "prepare_notification_claimed_ack_timeout_reconciliation X p line =
     rbind (notification_fact_of line) (\<lambda>fact'.
     case fact' of
       NotificationClaimedAckTimeoutReconciled f \<Rightarrow>
         let m = af_message_id f; r = af_recipient f; a = af_attempt_id f in
         rbind (validate_notification_envelope X p line (af_record_version f) m r) (\<lambda>_.
         rbind (ok_or (hm_get (notifications p) (r, m)) (Wake (NotificationNotFound m r))) (\<lambda>c.
         if nr_attempt_id c \<noteq> a then Inl (Wake (NotificationAttemptMismatch (nr_attempt_id c) a))
         else if \<not> needs_claimed_ack_timeout_reconciliation c
         then Inl (Wake (InvalidNotificationTransition (nr_state c) Notified))
         else if \<not> exact_recipient_claimed_after_write p c
         then Inl (Settle (InvalidNotificationFact
           ''ACK-timeout reconciliation requires an exact recipient claim after write''))
         else
           rbind (ok_or (hm_get (active_notification_barriers p) a) (Settle (NotificationBarrierNotActive a))) (\<lambda>active.
           if active \<noteq> c
           then Inl (Settle (InvalidNotificationFact
             ''ACK-timeout reconciliation does not match the exact active barrier''))
           else Inr (PreparedClaimedAckTimeoutReconciled (r, m)
             (c\<lparr> nr_state := Notified, nr_cause := None, nr_pre_write_cause := None,
                 nr_pre_write_observation := None, nr_updated_seq := ln_seq line, nr_updated_at := ln_ts line \<rparr>)
             a))))
     | _ \<Rightarrow> unexpected_fact ''notification_claimed_ack_timeout_reconciled'')"

definition check_retirement_cause ::
  "mailbox_projection \<Rightarrow> notification_record \<Rightarrow> recipient_key \<Rightarrow> barrier_retirement_cause \<Rightarrow>
   notification_binding option \<Rightarrow> (mailbox_error, unit) result" where
  "check_retirement_cause p active r cause replacement =
     (case cause of
        OccupantReplaced \<Rightarrow>
          rbind (ok_or (Option.bind replacement (\<lambda>b. if bd_leader b \<noteq> None then Some b else None))
                   (Settle NotificationBarrierReplacementRequired)) (\<lambda>b.
          if bd_recipient b \<noteq> r then Inl (Wake NotificationBindingMismatch)
          else if is_some_and (nr_binding active) (\<lambda>old. bd_agent old = bd_agent b \<and> bd_manifest old = bd_manifest b)
          then Inl (Settle NotificationBarrierReplacementUnchanged)
          else Inr ())
      | ComposerObservedClear \<Rightarrow>
          if replacement \<noteq> None then Inl (Settle NotificationBarrierReplacementForbidden)
          else if nr_state active \<notin> {Notified, WithdrawnAfterStaging}
          then Inl (Settle (NotificationBarrierRetirementState cause (nr_state active)))
          else Inr ()
      | RecipientClaimedComposerClear \<Rightarrow>
          if replacement \<noteq> None then Inl (Settle NotificationBarrierReplacementForbidden)
          else if nr_state active \<notin> {AttentionRequired, Notified} \<or>
                  \<not> uses_incomplete_legacy_doorbell_contract active \<or>
                  \<not> exact_recipient_claimed_after_write p active
          then Inl (Settle (NotificationBarrierRetirementState cause (nr_state active)))
          else Inr ()
      | LifecycleReconciled \<Rightarrow>
          if replacement \<noteq> None then Inl (Settle NotificationBarrierReplacementForbidden)
          else if needs_claimed_ack_timeout_reconciliation active \<and> exact_recipient_claimed_after_write p active
          then Inl (Settle (NotificationBarrierRetirementState cause (nr_state active)))
          else Inr ()
      | PaneGone \<Rightarrow>
          if replacement \<noteq> None then Inl (Settle NotificationBarrierReplacementForbidden) else Inr ())"

definition prepare_notification_barrier_retirement ::
  "extern \<Rightarrow> mailbox_projection \<Rightarrow> ledger_line \<Rightarrow> (mailbox_error, prepared_mutation) result" where
  "prepare_notification_barrier_retirement X p line =
     rbind (notification_fact_of line) (\<lambda>fact'.
     case fact' of
       NotificationBarrierRetired f cause replacement \<Rightarrow>
         let m = af_message_id f; r = af_recipient f; a = af_attempt_id f in
         rbind (validate_notification_envelope X p line (af_record_version f) m r) (\<lambda>_.
         rbind (ok_or (hm_get (active_notification_barriers p) a) (Settle (NotificationBarrierNotActive a))) (\<lambda>active.
         if nr_message_id active \<noteq> m \<or> nr_recipient active \<noteq> r
         then Inl (Wake (NotificationAttemptMismatch (nr_attempt_id active) a))
         else
           rbind (check_retirement_cause p active r cause replacement) (\<lambda>_.
           Inr (PreparedBarrierRetired a))))
     | _ \<Rightarrow> unexpected_fact ''notification_barrier_retired'')"

end
