(* ===== verification/Projection.thy ===== *)
theory Projection
  imports Resolution_Rows
begin

text \<open>
  Applying a journal line: the dispatch on its kind and fact type, and \<open>commit_line\<close>,
  which changes the projection once a line is prepared. Validation and change are two
  steps in the source so that a refused line changes nothing; the store appends the line
  to the journal between them.
\<close>

section \<open>Dispatch\<close>

definition prepare_state ::
  "extern \<Rightarrow> mailbox_projection \<Rightarrow> ledger_line \<Rightarrow> bool \<Rightarrow> (mailbox_error, prepared_mutation) result" where
  "prepare_state X p line replaying =
     (let fact_type = Option.bind (ln_data line) rd_type in
      if fact_type = Some ''message_claimed'' then prepare_claim X p line
      else if fact_type = Some ''message_delivered_direct'' then prepare_delivered_direct p line
      else if fact_type = Some ''notification_transition'' then prepare_notification_transition X p line replaying
      else if fact_type = Some ''notification_unclaimed_reminder_queued''
      then prepare_unclaimed_reminder_queued X p line
      else if fact_type = Some ''notification_requeued'' then prepare_notification_requeue X p line
      else if fact_type = Some ''notifications_requeued'' then prepare_notification_requeues X p line
      else if fact_type = Some ''notification_cleared'' then prepare_notification_clear X p line
      else if fact_type = Some ''notifications_cleared'' then prepare_notification_clears X p line
      else if fact_type = Some ''notification_withdrawn_before_write''
      then prepare_notification_withdrawal X p line replaying
      else if fact_type = Some ''notification_resolution_intent''
      then prepare_notification_resolution_intent X p line
      else if fact_type = Some ''notification_resolution_action_reserved''
      then prepare_notification_resolution_action_reserved X p line
      else if fact_type = Some ''notification_resolution_action_accepted''
      then prepare_notification_resolution_action_accepted X p line
      else if fact_type = Some ''notification_resolution_consumption_observed''
      then prepare_notification_resolution_consumption_observed X p line
      else if fact_type = Some ''notification_resolution_intent_withdrawn''
      then prepare_notification_resolution_intent_withdrawn X p line
      else if fact_type = Some ''notification_resolved_without_terminal_action''
      then prepare_notification_resolution_without_terminal_action X p line
      else if fact_type = Some ''notification_resolved'' then prepare_notification_resolution X p line
      else if fact_type = Some ''notification_claimed_staged_cleared''
      then prepare_notification_claimed_staged_clear X p line
      else if fact_type = Some ''notification_claimed_ack_timeout_reconciled''
      then prepare_notification_claimed_ack_timeout_reconciliation X p line
      else if fact_type = Some ''notification_barrier_retired''
      then prepare_notification_barrier_retirement X p line
      else Inl (state_row_error line))"

fun kind_debug :: "kind \<Rightarrow> string" where
  "kind_debug Msg = ''Msg''"
| "kind_debug Fyi = ''Fyi''"
| "kind_debug System = ''System''"
| "kind_debug State = ''State''"
| "kind_debug Gate = ''Gate''"

definition prepare_line_inner ::
  "extern \<Rightarrow> mailbox_projection \<Rightarrow> ledger_line \<Rightarrow> bool \<Rightarrow> (mailbox_error, prepared_mutation) result" where
  "prepare_line_inner X p line replaying =
     (let previous = (case last_workspace_seq p of None \<Rightarrow> 0 | Some s \<Rightarrow> s) in
      rbind (ok_or (checked_add_u64 previous 1) (Mail (NonContiguousSequence previous (ln_seq line)))) (\<lambda>expected.
      if ln_seq line \<noteq> expected then Inl (Mail (NonContiguousSequence expected (ln_seq line)))
      else
        (case ln_kind line of
           Msg \<Rightarrow> prepare_message X p line
         | Fyi \<Rightarrow> prepare_message X p line
         | State \<Rightarrow> prepare_state X p line replaying
         | k \<Rightarrow> Inl (Mail (UncanonicalRow
             (''unsupported workspace row kind '' @ kind_debug k @ '' seq '' @ show_nat (ln_seq line)))))))"

definition prepare_line ::
  "extern \<Rightarrow> mailbox_projection \<Rightarrow> ledger_line \<Rightarrow> (mailbox_error, prepared_mutation) result" where
  "prepare_line X p line = prepare_line_inner X p line False"

section \<open>Commit\<close>

text \<open>One turn of the loop over the recipients: \<open>entry(..).or_default().insert(..)\<close> and the index.\<close>

definition add_entry :: "message_id \<Rightarrow> ledger_line \<Rightarrow> recipient_key \<Rightarrow> mailbox_projection \<Rightarrow> mailbox_projection" where
  "add_entry m line r p =
     (let entry = \<lparr> me_message_id = m, me_recipient = r, me_state = Pending, me_seq = ln_seq line,
                    me_created_at = ln_ts line \<rparr>;
          mb = (case hm_get (mailboxes p) r of None \<Rightarrow> [] | Some mb \<Rightarrow> mb) in
      p\<lparr> mailboxes := hm_insert r (bt_insert (ln_seq line) entry mb) (mailboxes p),
         mailbox_index := hm_insert (r, m) (ln_seq line) (mailbox_index p) \<rparr>)"

definition commit_superseded_entry ::
  "mailbox_projection \<Rightarrow> ledger_line \<Rightarrow> message_id \<Rightarrow> message_metadata \<Rightarrow> mailbox_projection option" where
  "commit_superseded_entry p line m md =
     (case md_supersedes md of
        None \<Rightarrow> Some p
      | Some target \<Rightarrow>
          (case md_recipients md of
             [] \<Rightarrow> None
           | r # _ \<Rightarrow> set_entry_state p r target (EntrySuperseded m (ln_ts line))))"

definition commit_message ::
  "mailbox_projection \<Rightarrow> ledger_line \<Rightarrow> message_id \<Rightarrow> message_metadata \<Rightarrow> notification_projection_update option \<Rightarrow>
   mailbox_projection option" where
  "commit_message p line m md superseded =
     Option.bind (commit_superseded_entry p line m md) (\<lambda>p1.
     let p2 = (case md_client_key md of
                 None \<Rightarrow> p1
               | Some key \<Rightarrow> p1\<lparr> idempotency_index :=
                   hm_insert (md_sender md, key) (m, md_request_digest md) (idempotency_index p1) \<rparr>);
         p3 = fold (add_entry m line) (md_recipients md) p2;
         p4 = (case superseded of
                 None \<Rightarrow> p3
               | Some up \<Rightarrow> p3\<lparr> notifications := hm_insert (up_key up) (up_record up) (notifications p3) \<rparr>) in
     Some (p4\<lparr> messages := hm_insert m line (messages p4) \<rparr>))"

text \<open>A claim settles the notification; an active barrier of that attempt follows it.\<close>

definition commit_claim_update :: "notification_projection_update option \<Rightarrow> mailbox_projection \<Rightarrow> mailbox_projection" where
  "commit_claim_update update p =
     (case update of
        None \<Rightarrow> p
      | Some up \<Rightarrow>
          let a = nr_attempt_id (up_record up);
              p1 = (if hm_contains_key (active_notification_barriers p) a
                    then p\<lparr> active_notification_barriers :=
                           hm_insert a (up_record up) (active_notification_barriers p) \<rparr>
                    else p) in
          p1\<lparr> notifications := hm_insert (up_key up) (up_record up) (notifications p1) \<rparr>)"

definition commit_claim ::
  "mailbox_projection \<Rightarrow> ledger_line \<Rightarrow> message_id \<Rightarrow> recipient_key \<Rightarrow> recipient_key \<Rightarrow>
   notification_projection_update option \<Rightarrow> mailbox_projection option" where
  "commit_claim p line m r claimant update =
     (let p1 = p\<lparr> claim_sequences := hm_insert (r, m) (ln_seq line) (claim_sequences p) \<rparr> in
      map_option (commit_claim_update update) (set_entry_state p1 r m (Claimed claimant (ln_ts line))))"

text \<open>The barriers and write sequences after a notification record is stored.\<close>

definition bound_write :: "notification_record \<Rightarrow> bool" where
  "bound_write rec = (nr_state rec = Writing \<and> nr_binding rec \<noteq> None)"

definition proven_unwritten :: "notification_record \<Rightarrow> bool" where
  "proven_unwritten rec = (nr_state rec = BlockedPreWrite \<and> nr_pre_write_cause rec = Some PasteCommandUnwritten)"

definition commit_write_boundary :: "nat \<Rightarrow> notification_record \<Rightarrow> mailbox_projection \<Rightarrow> mailbox_projection" where
  "commit_write_boundary seq rec p =
     (let a = nr_attempt_id rec;
          p1 = (if bound_write rec
                then p\<lparr> notification_write_sequences := hm_insert a seq (notification_write_sequences p),
                        active_notification_barriers :=
                          hm_retain (\<lambda>a' active. a' = a \<or> nr_recipient active \<noteq> nr_recipient rec)
                            (active_notification_barriers p) \<rparr>
                else p) in
      if proven_unwritten rec
      then p1\<lparr> active_notification_barriers := hm_remove a (active_notification_barriers p1),
               notification_write_sequences := hm_remove a (notification_write_sequences p1) \<rparr>
      else if bound_write rec \<or> hm_contains_key (active_notification_barriers p1) a
      then p1\<lparr> active_notification_barriers := hm_insert a rec (active_notification_barriers p1) \<rparr>
      else p1)"

definition commit_notification ::
  "mailbox_projection \<Rightarrow> ledger_line \<Rightarrow> entry_key \<Rightarrow> notification_record \<Rightarrow> bool \<Rightarrow> mailbox_projection" where
  "commit_notification p line key rec new_attempt =
     (let p1 = (if new_attempt
                then p\<lparr> notification_attempts := hs_insert (nr_attempt_id rec) (notification_attempts p) \<rparr>
                else p);
          p2 = commit_write_boundary (ln_seq line) rec p1 in
      p2\<lparr> notifications := hm_insert key rec (notifications p2) \<rparr>)"

definition commit_requeue :: "entry_key \<times> notification_record \<Rightarrow> mailbox_projection \<Rightarrow> mailbox_projection" where
  "commit_requeue kr p =
     p\<lparr> notification_attempts := hs_insert (nr_attempt_id (snd kr)) (notification_attempts p),
        notifications := hm_insert (fst kr) (snd kr) (notifications p) \<rparr>"

definition set_notification :: "entry_key \<Rightarrow> notification_record \<Rightarrow> mailbox_projection \<Rightarrow> mailbox_projection" where
  "set_notification key rec p = p\<lparr> notifications := hm_insert key rec (notifications p) \<rparr>"

definition remove_barrier :: "attempt_id \<Rightarrow> mailbox_projection \<Rightarrow> mailbox_projection" where
  "remove_barrier a p = p\<lparr> active_notification_barriers := hm_remove a (active_notification_barriers p) \<rparr>"

definition commit_resolved :: "attempt_id \<Rightarrow> resolution \<Rightarrow> mailbox_projection \<Rightarrow> mailbox_projection" where
  "commit_resolved a res p =
     remove_barrier a (p\<lparr> resolved_attempts := hm_insert a res (resolved_attempts p),
                          forced_resolution_intents := hs_remove a (forced_resolution_intents p) \<rparr>)"

text \<open>The arms of the final \<open>match\<close>; \<open>None\<close> is a failed \<open>expect\<close>.\<close>

fun commit_mutation :: "mailbox_projection \<Rightarrow> ledger_line \<Rightarrow> prepared_mutation \<Rightarrow> mailbox_projection option" where
  "commit_mutation p line (PreparedMessage m md superseded) = commit_message p line m md superseded"
| "commit_mutation p line (PreparedClaim m r claimant update) = commit_claim p line m r claimant update"
| "commit_mutation p line (PreparedDeliveredDirect m r a) = set_entry_state p r m (DeliveredDirect a (ln_ts line))"
| "commit_mutation p line (PreparedNotification key rec new_attempt) =
     Some (commit_notification p line key rec new_attempt)"
| "commit_mutation p line (PreparedRequeues records) = Some (fold commit_requeue records p)"
| "commit_mutation p line (PreparedCleared a) =
     Some (p\<lparr> cleared_attempts := hs_insert a (cleared_attempts p) \<rparr>)"
| "commit_mutation p line (PreparedClears batch_id attempts) =
     Some (p\<lparr> clearance_batches := hs_insert batch_id (clearance_batches p),
              cleared_attempts := hs_extend attempts (cleared_attempts p) \<rparr>)"
| "commit_mutation p line (PreparedWithdrawnBeforeWrite key rec) = Some (set_notification key rec p)"
| "commit_mutation p line (PreparedResolutionIntent a res forced) =
     Some (p\<lparr> resolution_intents := hm_insert a res (resolution_intents p),
              forced_resolution_intents :=
                (if forced then hs_insert a (forced_resolution_intents p) else forced_resolution_intents p) \<rparr>)"
| "commit_mutation p line (PreparedActionReserved a res) =
     Some (p\<lparr> resolution_action_reservations := hm_insert a res (resolution_action_reservations p),
              resolution_action_reservation_sequences :=
                hm_insert a (ln_seq line) (resolution_action_reservation_sequences p) \<rparr>)"
| "commit_mutation p line (PreparedActionAccepted a res) =
     Some (p\<lparr> resolution_actions_accepted := hm_insert a res (resolution_actions_accepted p),
              resolution_action_sequences := hm_insert a (ln_seq line) (resolution_action_sequences p) \<rparr>)"
| "commit_mutation p line (PreparedConsumptionObserved a observation) =
     Some (p\<lparr> resolution_consumptions := hm_insert a observation (resolution_consumptions p) \<rparr>)"
| "commit_mutation p line (PreparedIntentWithdrawn a) =
     Some (p\<lparr> resolution_intents := hm_remove a (resolution_intents p),
              forced_resolution_intents := hs_remove a (forced_resolution_intents p) \<rparr>)"
| "commit_mutation p line (PreparedResolvedWithoutTerminalAction a res) = Some (commit_resolved a res p)"
| "commit_mutation p line (PreparedResolved a res) = Some (commit_resolved a res p)"
| "commit_mutation p line (PreparedClaimedStagedCleared key rec a) =
     Some (remove_barrier a (set_notification key rec p))"
| "commit_mutation p line (PreparedClaimedAckTimeoutReconciled key rec a) =
     Some ((remove_barrier a (set_notification key rec p))
       \<lparr> claimed_ack_timeout_reconciliations := hs_insert a (claimed_ack_timeout_reconciliations p) \<rparr>)"
| "commit_mutation p line (PreparedBarrierRetired a) = Some (remove_barrier a p)"

definition commit_line :: "mailbox_projection \<Rightarrow> ledger_line \<Rightarrow> prepared_mutation \<Rightarrow> mailbox_projection option" where
  "commit_line p line prepared = commit_mutation (p\<lparr> last_workspace_seq := Some (ln_seq line) \<rparr>) line prepared"

section \<open>Applying lines\<close>

text \<open>A line is refused with an error, or its commit may panic.\<close>

datatype apply_error = Refused mailbox_error | Panicked

definition apply_inner ::
  "extern \<Rightarrow> mailbox_projection \<Rightarrow> ledger_line \<Rightarrow> bool \<Rightarrow> (apply_error, mailbox_projection) result" where
  "apply_inner X p line replaying =
     (case prepare_line_inner X p line replaying of
        Inl e \<Rightarrow> Inl (Refused e)
      | Inr prepared \<Rightarrow> ok_or (commit_line p line prepared) Panicked)"

definition apply_owned :: "extern \<Rightarrow> mailbox_projection \<Rightarrow> ledger_line \<Rightarrow> (apply_error, mailbox_projection) result" where
  "apply_owned X p line = apply_inner X p line False"

definition apply_replayed_owned ::
  "extern \<Rightarrow> mailbox_projection \<Rightarrow> ledger_line \<Rightarrow> (apply_error, mailbox_projection) result" where
  "apply_replayed_owned X p line = apply_inner X p line True"

text \<open>Reading a whole journal: the projection a daemon starts from.\<close>

fun replay ::
  "extern \<Rightarrow> mailbox_projection \<Rightarrow> ledger_line list \<Rightarrow> (apply_error, mailbox_projection) result" where
  "replay X p [] = Inr p"
| "replay X p (line # lines) = rbind (apply_replayed_owned X p line) (\<lambda>p'. replay X p' lines)"

lemma apply_inner_Inr_iff:
  "apply_inner X p line b = Inr p' \<longleftrightarrow>
     (\<exists>pm. prepare_line_inner X p line b = Inr pm \<and> commit_line p line pm = Some p')"
  by (auto simp: apply_inner_def result_simps split: sum.splits)

lemma replay_append: "replay X p (xs @ ys) = rbind (replay X p xs) (\<lambda>q. replay X q ys)"
  by (induction X p xs rule: replay.induct) (auto simp: rbind_def split: sum.splits)

end
