(* ===== verification/Projection_Steps.thy ===== *)
theory Projection_Steps
  imports Projection
begin

text \<open>
  What a prepared line guarantees, as a step relation: \<open>legal X p line pm\<close> lists, for each
  kind of mutation, the facts about the projection that the validators have established.
  The invariants and refinements argue about these rules and never open the validators again.
\<close>

section \<open>Rows in outline\<close>

text \<open>A row about the notification of one recipient names a stored message and entry.\<close>

definition names_entry :: "mailbox_projection \<Rightarrow> recipient_key \<Rightarrow> message_id \<Rightarrow> bool" where
  "names_entry p r m \<longleftrightarrow>
     rk_workspace r = workspace_id p \<and> \<not> is_admin r \<and> hm_get (messages p) m \<noteq> None \<and> get_entry p r m \<noteq> None"

definition pending_entry :: "mailbox_projection \<Rightarrow> recipient_key \<Rightarrow> message_id \<Rightarrow> bool" where
  "pending_entry p r m \<longleftrightarrow> (\<exists>e. get_entry p r m = Some e \<and> me_state e = Pending)"

text \<open>What a supersession requires of the replaced message.\<close>

definition supersedable :: "mailbox_projection \<Rightarrow> message_metadata \<Rightarrow> message_id \<Rightarrow> recipient_key \<Rightarrow> bool" where
  "supersedable p md target r \<longleftrightarrow>
     md_recipients md = [r] \<and> pending_entry p r target \<and> supersession_notification_is_pre_write p r target \<and>
     (\<exists>old omd. hm_get (messages p) target = Some old \<and> extract_message_metadata old = Inr omd \<and>
        md_sender omd = md_sender md \<and> md_recipients omd = [r] \<and> md_thread_root md = md_thread_root omd)"

text \<open>The root of a fresh message: itself, or the root of a stored message.\<close>

definition rooted :: "mailbox_projection \<Rightarrow> message_id \<Rightarrow> message_metadata \<Rightarrow> bool" where
  "rooted p m md \<longleftrightarrow>
     md_thread_root md = m \<or>
     (\<exists>k old omd. hm_get (messages p) k = Some old \<and> extract_message_metadata old = Inr omd \<and>
        md_thread_root md = md_thread_root omd)"

definition transition_checked ::
  "mailbox_projection \<Rightarrow> notification_record option \<Rightarrow> transition_fact \<Rightarrow> bool \<Rightarrow> bool" where
  "transition_checked p current f replaying \<longleftrightarrow>
     check_transition_edge current f replaying = Inr () \<and> check_transition_fields current f = Inr () \<and>
     check_transition_cause current f replaying = Inr () \<and> check_transition_block f = Inr ()"

definition open_attention :: "mailbox_projection \<Rightarrow> recipient_key \<Rightarrow> message_id \<Rightarrow> attempt_id \<Rightarrow> bool" where
  "open_attention p r m a \<longleftrightarrow>
     (\<exists>c. hm_get (notifications p) (r, m) = Some c \<and> nr_attempt_id c = a \<and> nr_state c = AttentionRequired \<and>
        nr_binding c \<noteq> None) \<and> hm_get (resolved_attempts p) a = None"

section \<open>The step relation\<close>

inductive legal :: "mailbox_projection \<Rightarrow> ledger_line \<Rightarrow> prepared_mutation \<Rightarrow> bool"
  for p :: mailbox_projection and line :: ledger_line where
  message: "\<lbrakk> ln_kind line = Msg \<or> ln_kind line = Fyi; m = ln_id line; hm_get (messages p) m = None;
      extract_message_metadata line = Inr md; rk_workspace (md_sender md) = workspace_id p;
      md_recipients md \<noteq> []; distinct (md_recipients md);
      \<forall>r\<in>set (md_recipients md). rk_workspace r = workspace_id p;
      \<forall>target. md_supersedes md = Some target \<longrightarrow> (\<exists>r. supersedable p md target r);
      rooted p m md;
      \<forall>key. md_client_key md = Some key \<longrightarrow> hm_get (idempotency_index p) (md_sender md, key) = None \<rbrakk> \<Longrightarrow>
    legal p line (PreparedMessage m md (superseded_notification p line md))"
| claim: "\<lbrakk> rk_workspace r = workspace_id p; pending_entry p r m \<rbrakk> \<Longrightarrow>
    legal p line (PreparedClaim m r r (claim_notification_update p line r m))"
| direct: "\<lbrakk> pending_entry p r m; hm_get (notifications p) (r, m) = Some c; nr_attempt_id c = a;
      nr_state c = Notified; nr_transport c = DirectPayload \<rbrakk> \<Longrightarrow>
    legal p line (PreparedDeliveredDirect m r a)"
| queue: "\<lbrakk> names_entry p r m; hm_get (notifications p) (r, m) = None; pending_entry p r m;
      \<not> hs_contains (notification_attempts p) a \<rbrakk> \<Longrightarrow>
    legal p line (PreparedNotification (r, m) (queued_record a m r line) True)"
| advance: "\<lbrakk> names_entry p (tf_recipient f) (tf_message_id f);
      hm_get (notifications p) (tf_recipient f, tf_message_id f) = Some c; nr_attempt_id c = tf_attempt_id f;
      transition_checked p (Some c) f replaying \<rbrakk> \<Longrightarrow>
    legal p line (PreparedNotification (tf_recipient f, tf_message_id f) (advanced_record c f line) False)"
| remind: "\<lbrakk> names_entry p r m; pending_entry p r m; hm_get (notifications p) (r, m) = Some c;
      nr_state c = Notified; nr_transport c = Doorbell; nr_unclaimed_reminder_count c = 0;
      nr_attempt_id c = a; hm_get (active_notification_barriers p) a = None \<rbrakk> \<Longrightarrow>
    legal p line (PreparedNotification (r, m)
      (c\<lparr> nr_state := Gating, nr_cause := None, nr_verified_by := None, nr_verify_outcome := None,
          nr_pre_write_cause := None, nr_wake_block := None, nr_pre_write_observation := None,
          nr_unclaimed_reminder_count := 1, nr_updated_seq := ln_seq line, nr_updated_at := ln_ts line \<rparr>) False)"
| requeue: "\<lbrakk> names_entry p r m; prepare_notification_requeue_record p line m r prior a = Inr kr \<rbrakk> \<Longrightarrow>
    legal p line (PreparedNotification (fst kr) (snd kr) True)"
| requeues: "\<lbrakk> \<forall>q\<in>set qs. names_entry p (rq_recipient q) m; distinct (map rq_recipient qs);
      requeue_records p line m [] qs = Inr records \<rbrakk> \<Longrightarrow>
    legal p line (PreparedRequeues records)"
| clear: "\<lbrakk> hm_get (notifications p) k = Some c; nr_attempt_id c = a; nr_state c = AttentionRequired \<rbrakk> \<Longrightarrow>
    legal p line (PreparedCleared a)"
| clears: "\<lbrakk> \<not> hs_contains (clearance_batches p) batch_id;
      \<forall>a\<in>set attempts. \<not> hs_contains (cleared_attempts p) a \<and>
        (\<exists>c. notification_by_attempt p a = Some c \<and> nr_state c = AttentionRequired) \<rbrakk> \<Longrightarrow>
    legal p line (PreparedClears batch_id attempts)"
| withdraw: "\<lbrakk> get_entry p r m = Some e; is_pending (me_state e) \<or> is_claimed (me_state e);
      hm_get (notifications p) (r, m) = Some c; nr_attempt_id c = a;
      can_withdraw_before_write (nr_state c) \<or> withdrawn_by_claim_before_write c \<rbrakk> \<Longrightarrow>
    legal p line (PreparedWithdrawnBeforeWrite (r, m)
      ((settled_record c WithdrawnByOperator None None line)
         \<lparr> nr_attempt_id := a, nr_message_id := m, nr_recipient := r \<rparr>))"
| intent: "\<lbrakk> open_attention p r m a; hm_get (resolution_intents p) a = None; forced \<longrightarrow> res = Complete \<rbrakk> \<Longrightarrow>
    legal p line (PreparedResolutionIntent a res forced)"
| reserve: "\<lbrakk> hm_get (notifications p) (r, m) = Some c; nr_attempt_id c = a; needs_exact_owned_reconciliation c;
      hm_get (active_notification_barriers p) a = Some c; pending_entry p r m; res = Complete;
      hm_get (resolved_attempts p) a = None; hm_get (resolution_actions_accepted p) a = None;
      hm_get (resolution_consumptions p) a = None; hm_get (resolution_intents p) a = Some Complete;
      hs_contains (forced_resolution_intents p) a \<rbrakk> \<Longrightarrow>
    legal p line (PreparedActionReserved a res)"
| accept: "\<lbrakk> open_attention p r m a; hm_get (resolution_intents p) a = Some res;
      hm_get (resolution_actions_accepted p) a = None \<or> hm_get (resolution_actions_accepted p) a = Some res \<rbrakk> \<Longrightarrow>
    legal p line (PreparedActionAccepted a res)"
| consume: "\<lbrakk> open_attention p r m a; co_observed_at_ms ob \<noteq> 0; hm_get (resolution_intents p) a = Some Complete;
      hm_get (resolution_actions_accepted p) a = Some Complete;
      hm_get (resolution_consumptions p) a = None \<or> hm_get (resolution_consumptions p) a = Some ob \<rbrakk> \<Longrightarrow>
    legal p line (PreparedConsumptionObserved a ob)"
| withdraw_intent: "\<lbrakk> hm_get (notifications p) (r, m) = Some c; nr_attempt_id c = a;
      hm_get (resolution_intents p) a = Some res; hm_get (resolved_attempts p) a = None;
      hm_get (resolution_action_reservations p) a = None; hm_get (resolution_actions_accepted p) a = None;
      hm_get (resolution_consumptions p) a = None \<rbrakk> \<Longrightarrow>
    legal p line (PreparedIntentWithdrawn a)"
| resolve_untouched: "\<lbrakk> open_attention p r m a; hm_get (resolution_actions_accepted p) a = None;
      hm_get (resolution_consumptions p) a = None;
      hm_get (resolution_intents p) a = None \<or> hm_get (resolution_intents p) a = Some Discard \<rbrakk> \<Longrightarrow>
    legal p line (PreparedResolvedWithoutTerminalAction a Discard)"
| resolved: "\<lbrakk> open_attention p r m a; hm_get (notifications p) (r, m) = Some c;
      check_resolution_proof p c proof_version a res = Inr () \<rbrakk> \<Longrightarrow>
    legal p line (PreparedResolved a res)"
| staged_clear: "\<lbrakk> names_entry p r m; hm_get (notifications p) (r, m) = Some c; nr_attempt_id c = a;
      nr_state c = Staged; nr_transport c = Doorbell; get_entry p r m = Some e; claimed_by e r;
      hm_get (active_notification_barriers p) a \<noteq> None \<rbrakk> \<Longrightarrow>
    legal p line (PreparedClaimedStagedCleared (r, m)
      (c\<lparr> nr_state := WithdrawnAfterStaging, nr_cause := None, nr_pre_write_cause := None,
          nr_pre_write_observation := None, nr_updated_seq := ln_seq line, nr_updated_at := ln_ts line \<rparr>) a)"
| ack_timeout: "\<lbrakk> names_entry p r m; hm_get (notifications p) (r, m) = Some c; nr_attempt_id c = a;
      needs_claimed_ack_timeout_reconciliation c; exact_recipient_claimed_after_write p c;
      hm_get (active_notification_barriers p) a = Some c \<rbrakk> \<Longrightarrow>
    legal p line (PreparedClaimedAckTimeoutReconciled (r, m)
      (c\<lparr> nr_state := Notified, nr_cause := None, nr_pre_write_cause := None,
          nr_pre_write_observation := None, nr_updated_seq := ln_seq line, nr_updated_at := ln_ts line \<rparr>) a)"
| retire: "\<lbrakk> hm_get (active_notification_barriers p) a = Some active;
      check_retirement_cause p active (nr_recipient active) cause replacement = Inr () \<rbrakk> \<Longrightarrow>
    legal p line (PreparedBarrierRetired a)"

section \<open>Every prepared line is legal\<close>

lemma message_id_new_Inr: "message_id_new v = Inr m \<Longrightarrow> m = v"
  by (auto simp: message_id_new_def result_simps split: option.splits if_splits)

lemma check_recipients_iff [result_simps]:
  "check_recipients ws dup rs seen = Inr u \<longleftrightarrow>
     distinct rs \<and> set rs \<inter> set seen = {} \<and> (\<forall>r\<in>set rs. rk_workspace r = ws)"
  by (induction ws dup rs seen rule: check_recipients.induct)
    (auto simp: hs_contains_def hs_insert_def result_simps)

lemma check_requeue_recipients_iff [result_simps]:
  "check_requeue_recipients ws qs seen = Inr u \<longleftrightarrow>
     distinct (map rq_recipient qs) \<and> rq_recipient ` set qs \<inter> set seen = {} \<and>
     (\<forall>q\<in>set qs. rk_workspace (rq_recipient q) = ws \<and> \<not> is_admin (rq_recipient q))"
proof (induction ws qs seen rule: check_requeue_recipients.induct)
  case (2 ws q qs seen)
  have "rq_recipient ` set qs \<inter> set (hs_insert (rq_recipient q) seen) = {} \<longleftrightarrow>
      rq_recipient ` set qs \<inter> set seen = {} \<and> rq_recipient q \<notin> rq_recipient ` set qs"
    by (auto simp: hs_insert_def)
  then show ?case
    using 2 by (auto simp: hs_contains_def result_simps)
qed simp

lemma envelope_names_entry:
  "validate_notification_envelope X p line v m r = Inr u \<Longrightarrow> names_entry p r m"
  by (auto simp: validate_notification_envelope_def names_entry_def result_simps Let_def split: if_splits)

lemma supersession_thread_root_Inr:
  assumes "supersession_thread_root p sender rs (Some target) = Inr root"
  obtains r old omd where "rs = [r]" "hm_get (messages p) target = Some old"
    "extract_message_metadata old = Inr omd" "md_sender omd = sender" "md_recipients omd = [r]"
    "pending_entry p r target" "supersession_notification_is_pre_write p r target"
    "root = Some (md_thread_root omd)"
  using assms
  by (auto simp: supersession_thread_root_def pending_entry_def is_pending_def result_simps
      split: list.splits if_splits)

lemma derive_reply_Inr:
  assumes "derive_reply p sender reference = Inr d"
  obtains parent md where "hm_get (messages p) reference = Some parent"
    "extract_message_metadata parent = Inr md" "dv_recipient d = md_sender md"
    "dv_thread_root d = md_thread_root md" "md_sender md = sender \<or> sender \<in> set (md_recipients md)"
    "dv_subject d = reply_subject (ln_subject parent)"
  using assms by (auto simp: derive_reply_def result_simps Let_def split: if_splits)


lemma prepare_message_legal:
  assumes "prepare_message X p line = Inr pm" and "ln_kind line = Msg \<or> ln_kind line = Fyi"
  shows "legal p line pm"
proof -
  obtain m md reply_to where m: "message_id_new (ln_id line) = Inr m"
    and fresh: "hm_get (messages p) m = None" and md: "extract_message_metadata line = Inr md"
    and sender: "rk_workspace (md_sender md) = workspace_id p" and ne: "md_recipients md \<noteq> []"
    and rs: "distinct (md_recipients md)" "\<forall>r\<in>set (md_recipients md). rk_workspace r = workspace_id p"
    and conflict: "\<not> (reply_to \<noteq> None \<and> md_supersedes md \<noteq> None)"
    and root: "expected_thread_root p line m md reply_to = Inr (md_thread_root md)"
    and key: "check_message_client_key p md = Inr ()"
    and pm: "pm = PreparedMessage m md (superseded_notification p line md)"
    using assms(1) by (auto simp: prepare_message_def result_simps Let_def hm_contains_key_def)
  have "\<exists>r. supersedable p md target r" if t: "md_supersedes md = Some target" for target
  proof -
    have "reply_to = None" using conflict t by auto
    then obtain root' where "supersession_thread_root p (md_sender md) (md_recipients md) (Some target) = Inr root'"
      and "(case root' of Some r \<Rightarrow> r | None \<Rightarrow> m) = md_thread_root md"
      using root t by (auto simp: expected_thread_root_def result_simps)
    then show ?thesis
      by (elim supersession_thread_root_Inr) (auto simp: supersedable_def)
  qed
  moreover have "rooted p m md"
  proof (cases reply_to)
    case None
    then obtain root' where r: "supersession_thread_root p (md_sender md) (md_recipients md) (md_supersedes md) = Inr root'"
      "(case root' of Some r \<Rightarrow> r | None \<Rightarrow> m) = md_thread_root md"
      using root by (auto simp: expected_thread_root_def result_simps)
    show ?thesis
    proof (cases "md_supersedes md")
      case None
      then show ?thesis using r by (auto simp: rooted_def supersession_thread_root_def)
    next
      case (Some target)
      with r show ?thesis
        by (auto elim!: supersession_thread_root_Inr simp: rooted_def) metis
    qed
  next
    case (Some reference)
    then obtain d where d: "derive_reply p (md_sender md) reference = Inr d" "dv_thread_root d = md_thread_root md"
      using root by (auto simp: expected_thread_root_def result_simps)
    show ?thesis
      using d(1) by (rule derive_reply_Inr) (metis d(2) rooted_def)
  qed
  moreover have "\<forall>k. md_client_key md = Some k \<longrightarrow> hm_get (idempotency_index p) (md_sender md, k) = None"
    using key by (auto simp: check_message_client_key_def split: option.splits)
  ultimately show ?thesis
    using assms(2) message_id_new_Inr [OF m] fresh md sender ne rs unfolding pm
    by (intro legal.message) auto
qed

lemma case_pending_Inr_iff [result_simps]:
  "(case st of Pending \<Rightarrow> x | Claimed c t \<Rightarrow> Inl (f c t) | DeliveredDirect a t \<Rightarrow> Inl (g a t)
     | EntrySuperseded b t \<Rightarrow> Inl (h b t)) = Inr y \<longleftrightarrow> st = Pending \<and> x = Inr y"
  by (cases st) auto

lemma prepare_claim_legal: "prepare_claim X p line = Inr pm \<Longrightarrow> legal p line pm"
  by (auto simp: prepare_claim_def check_claim_envelope_def pending_entry_def result_simps Let_def
      intro!: legal.claim)

lemma prepare_delivered_direct_legal: "prepare_delivered_direct p line = Inr pm \<Longrightarrow> legal p line pm"
  by (auto simp: prepare_delivered_direct_def notification_def pending_entry_def result_simps Let_def
      intro!: legal.direct split: if_splits)


text \<open>Rows that carry a notification fact.\<close>

lemma ambiguous_neq_Inr [simp]: "ambiguous a \<noteq> Inr x"
  by (simp add: ambiguous_def)

lemma unexpected_fact_neq_Inr [simp]: "unexpected_fact t \<noteq> Inr x"
  by (simp add: unexpected_fact_def)

lemma invalid_clearance_neq_Inr [simp]: "invalid_clearance t \<noteq> Inr x"
  by (simp add: invalid_clearance_def)

text \<open>Case analysis on the fact a row carries.\<close>

lemma notification_fact_cases:
  assumes "\<And>e. notification_fact_of line = Inl e \<Longrightarrow> P"
    and "\<And>a. notification_fact_of line = Inr (NotificationTransition a) \<Longrightarrow> P"
    and "\<And>a. notification_fact_of line = Inr (NotificationUnclaimedReminderQueued a) \<Longrightarrow> P"
    and "\<And>a b. notification_fact_of line = Inr (NotificationRequeued a b) \<Longrightarrow> P"
    and "\<And>a b c. notification_fact_of line = Inr (NotificationsRequeued a b c) \<Longrightarrow> P"
    and "\<And>a. notification_fact_of line = Inr (NotificationCleared a) \<Longrightarrow> P"
    and "\<And>a b c d e. notification_fact_of line = Inr (NotificationsCleared a b c d e) \<Longrightarrow> P"
    and "\<And>a b. notification_fact_of line = Inr (NotificationWithdrawnBeforeWrite a b) \<Longrightarrow> P"
    and "\<And>a b c. notification_fact_of line = Inr (NotificationResolutionIntent a b c) \<Longrightarrow> P"
    and "\<And>a b. notification_fact_of line = Inr (NotificationResolutionActionReserved a b) \<Longrightarrow> P"
    and "\<And>a b. notification_fact_of line = Inr (NotificationResolutionActionAccepted a b) \<Longrightarrow> P"
    and "\<And>a b. notification_fact_of line = Inr (NotificationResolutionConsumptionObserved a b) \<Longrightarrow> P"
    and "\<And>a b. notification_fact_of line = Inr (NotificationResolutionIntentWithdrawn a b) \<Longrightarrow> P"
    and "\<And>a b. notification_fact_of line = Inr (NotificationResolvedWithoutTerminalAction a b) \<Longrightarrow> P"
    and "\<And>a b c. notification_fact_of line = Inr (NotificationResolved a b c) \<Longrightarrow> P"
    and "\<And>a. notification_fact_of line = Inr (NotificationClaimedStagedCleared a) \<Longrightarrow> P"
    and "\<And>a. notification_fact_of line = Inr (NotificationClaimedAckTimeoutReconciled a) \<Longrightarrow> P"
    and "\<And>a b c. notification_fact_of line = Inr (NotificationBarrierRetired a b c) \<Longrightarrow> P"
  shows P
proof (cases "notification_fact_of line")
  case (Inl e)
  then show ?thesis by (rule assms(1))
next
  case (Inr f)
  then show ?thesis by (cases f) (hypsubst, erule assms(2-18))+
qed

lemma prepare_notification_transition_legal:
  assumes "prepare_notification_transition X p line replaying = Inr pm"
  shows "legal p line pm"
proof -
  from assms obtain f where f: "notification_fact_of line = Inr (NotificationTransition f)"
    by (cases line rule: notification_fact_cases) (simp_all add: prepare_notification_transition_def)
  let ?current = "hm_get (notifications p) (tf_recipient f, tf_message_id f)"
  obtain rec new_attempt where
    env: "validate_notification_envelope X p line (tf_record_version f) (tf_message_id f) (tf_recipient f) = Inr ()"
    and checked: "transition_checked p ?current f replaying"
    and rec: "transition_record p line ?current f = Inr (rec, new_attempt)"
    and pm: "pm = PreparedNotification (tf_recipient f, tf_message_id f) rec new_attempt"
    using assms by (auto simp: prepare_notification_transition_def f result_simps Let_def transition_checked_def)
  show ?thesis
  proof (cases "hm_get (notifications p) (tf_recipient f, tf_message_id f)")
    case None
    then show ?thesis
      using rec envelope_names_entry [OF env] unfolding pm
      by (auto simp: transition_record_def result_simps Let_def pending_entry_def intro!: legal.queue)
  next
    case (Some c)
    then have "nr_attempt_id c = tf_attempt_id f"
      using checked by (auto simp: transition_checked_def check_transition_edge_def result_simps)
    then show ?thesis
      using Some rec checked envelope_names_entry [OF env] unfolding pm
      by (auto simp: transition_record_def intro!: legal.advance)
  qed
qed

lemma current_attempt_iff [result_simps]:
  "current_attempt p r m a = Inr c \<longleftrightarrow> hm_get (notifications p) (r, m) = Some c \<and> nr_attempt_id c = a"
  by (auto simp: current_attempt_def result_simps)

lemma unresolved_attention_iff [result_simps]:
  "unresolved_attention p r m a = Inr c \<longleftrightarrow>
     hm_get (notifications p) (r, m) = Some c \<and> nr_attempt_id c = a \<and> nr_state c = AttentionRequired \<and>
     nr_binding c \<noteq> None \<and> hm_get (resolved_attempts p) a = None"
  by (auto simp: unresolved_attention_def result_simps)

lemma open_attentionI:
  "hm_get (notifications p) (r, m) = Some c \<Longrightarrow> nr_attempt_id c = a \<Longrightarrow> nr_state c = AttentionRequired \<Longrightarrow>
   nr_binding c \<noteq> None \<Longrightarrow> hm_get (resolved_attempts p) a = None \<Longrightarrow> open_attention p r m a"
  by (auto simp: open_attention_def)

lemma recorded_before_iff [result_simps]:
  "recorded_before m k v e = Inr b \<longleftrightarrow>
     (hm_get m k = None \<and> \<not> b) \<or> (hm_get m k = Some v \<and> b)"
  by (auto simp: recorded_before_def split: option.splits)

lemma prepare_unclaimed_reminder_queued_legal:
  "prepare_unclaimed_reminder_queued X p line = Inr pm \<Longrightarrow> legal p line pm"
  by (cases line rule: notification_fact_cases)
    (auto simp: prepare_unclaimed_reminder_queued_def result_simps Let_def pending_entry_def
      dest!: envelope_names_entry intro!: legal.remind simp del: One_nat_def)

lemma prepare_notification_requeue_legal:
  "prepare_notification_requeue X p line = Inr pm \<Longrightarrow> legal p line pm"
  by (cases line rule: notification_fact_cases)
    (auto simp: prepare_notification_requeue_def result_simps Let_def
      dest!: envelope_names_entry dest: legal.requeue)

lemma prepare_notification_requeues_legal:
  assumes "prepare_notification_requeues X p line = Inr pm"
  shows "legal p line pm"
proof -
  from assms obtain v m qs records where
    env: "validate_notification_requeues_envelope X p line v m qs = Inr ()"
    and recs: "requeue_records p line m [] qs = Inr records" and pm: "pm = PreparedRequeues records"
    by (cases line rule: notification_fact_cases)
      (auto simp: prepare_notification_requeues_def result_simps)
  from env have "\<forall>q\<in>set qs. names_entry p (rq_recipient q) m" "distinct (map rq_recipient qs)"
    by (auto simp: validate_notification_requeues_envelope_def names_entry_def result_simps Let_def)
  then show ?thesis
    using recs unfolding pm by (rule legal.requeues)
qed

lemma prepare_notification_clear_legal:
  "prepare_notification_clear X p line = Inr pm \<Longrightarrow> legal p line pm"
  by (cases line rule: notification_fact_cases)
    (auto simp: prepare_notification_clear_def result_simps Let_def intro: legal.clear)

lemma clear_attempt_Inr:
  "clear_attempt X p cutoff a = Inr t \<Longrightarrow>
     \<not> hs_contains (cleared_attempts p) a \<and>
     (\<exists>c. notification_by_attempt p a = Some c \<and> nr_state c = AttentionRequired)"
  by (auto simp: clear_attempt_def result_simps split: if_splits)

lemma prepare_notification_clears_legal:
  assumes "prepare_notification_clears X p line = Inr pm"
  shows "legal p line pm"
proof -
  from assms obtain batch attempts cutoff recipients where
    "\<not> hs_contains (clearance_batches p) batch" "try_map (clear_attempt X p cutoff) attempts = Inr recipients"
    "pm = PreparedClears batch attempts"
    by (cases line rule: notification_fact_cases)
      (auto simp: prepare_notification_clears_def result_simps split: if_splits)
  then show ?thesis
    by (auto simp: try_map_Inr_iff list_all2_conv_all_nth in_set_conv_nth intro!: legal.clears
        dest!: clear_attempt_Inr)
qed

lemma prepare_notification_withdrawal_legal:
  "prepare_notification_withdrawal X p line replaying = Inr pm \<Longrightarrow> legal p line pm"
  by (cases line rule: notification_fact_cases)
    (auto simp: prepare_notification_withdrawal_def result_simps Let_def intro!: legal.withdraw)

lemma prepare_notification_resolution_legal:
  "prepare_notification_resolution X p line = Inr pm \<Longrightarrow> legal p line pm"
  by (cases line rule: notification_fact_cases)
    (auto simp: prepare_notification_resolution_def result_simps Let_def
      intro!: legal.resolved open_attentionI)

lemma prepare_notification_resolution_without_terminal_action_legal:
  "prepare_notification_resolution_without_terminal_action X p line = Inr pm \<Longrightarrow> legal p line pm"
  by (cases line rule: notification_fact_cases)
    (auto simp: prepare_notification_resolution_without_terminal_action_def result_simps Let_def is_some_and_def split: if_splits option.splits intro!: legal.resolve_untouched open_attentionI)

lemma prepare_notification_resolution_intent_legal:
  "prepare_notification_resolution_intent X p line = Inr pm \<Longrightarrow> legal p line pm"
  by (cases line rule: notification_fact_cases)
    (auto simp: prepare_notification_resolution_intent_def result_simps Let_def
      split: if_splits intro!: legal.intent open_attentionI)

lemma prepare_notification_resolution_action_reserved_legal:
  "prepare_notification_resolution_action_reserved X p line = Inr pm \<Longrightarrow> legal p line pm"
  by (cases line rule: notification_fact_cases)
    (auto simp: prepare_notification_resolution_action_reserved_def pending_entry_def is_pending_def
      validate_forced_notification_resolution_action_reservation_def entry_is_pending_def is_some_and_iff
      result_simps Let_def split: if_splits intro!: legal.reserve)

lemma prepare_notification_resolution_action_accepted_legal:
  "prepare_notification_resolution_action_accepted X p line = Inr pm \<Longrightarrow> legal p line pm"
  by (cases line rule: notification_fact_cases)
    (auto simp: prepare_notification_resolution_action_accepted_def
      validate_notification_resolution_action_accepted_def result_simps Let_def
      split: if_splits intro!: legal.accept open_attentionI)

lemma prepare_notification_resolution_consumption_observed_legal:
  "prepare_notification_resolution_consumption_observed X p line = Inr pm \<Longrightarrow> legal p line pm"
  by (cases line rule: notification_fact_cases)
    (auto simp: prepare_notification_resolution_consumption_observed_def
      validate_notification_resolution_consumption_observed_def result_simps Let_def
      split: if_splits intro!: legal.consume open_attentionI)

lemma prepare_notification_resolution_intent_withdrawn_legal:
  "prepare_notification_resolution_intent_withdrawn X p line = Inr pm \<Longrightarrow> legal p line pm"
  by (cases line rule: notification_fact_cases)
    (auto simp: prepare_notification_resolution_intent_withdrawn_def result_simps Let_def
      split: if_splits intro!: legal.withdraw_intent)

lemma prepare_notification_claimed_staged_clear_legal:
  "prepare_notification_claimed_staged_clear X p line = Inr pm \<Longrightarrow> legal p line pm"
  by (cases line rule: notification_fact_cases)
    (auto simp: prepare_notification_claimed_staged_clear_def result_simps Let_def is_some_and_iff
      dest!: envelope_names_entry intro!: legal.staged_clear)

lemma prepare_notification_claimed_ack_timeout_reconciliation_legal:
  "prepare_notification_claimed_ack_timeout_reconciliation X p line = Inr pm \<Longrightarrow> legal p line pm"
  by (cases line rule: notification_fact_cases)
    (auto simp: prepare_notification_claimed_ack_timeout_reconciliation_def result_simps Let_def
      dest!: envelope_names_entry intro!: legal.ack_timeout)

lemma prepare_notification_barrier_retirement_legal:
  "prepare_notification_barrier_retirement X p line = Inr pm \<Longrightarrow> legal p line pm"
  by (cases line rule: notification_fact_cases)
    (auto simp: prepare_notification_barrier_retirement_def result_simps Let_def
      dest: legal.retire)

lemmas prepare_legal_rows =
  prepare_claim_legal prepare_delivered_direct_legal prepare_notification_transition_legal
  prepare_unclaimed_reminder_queued_legal prepare_notification_requeue_legal
  prepare_notification_requeues_legal prepare_notification_clear_legal prepare_notification_clears_legal
  prepare_notification_withdrawal_legal prepare_notification_resolution_legal
  prepare_notification_resolution_without_terminal_action_legal prepare_notification_resolution_intent_legal
  prepare_notification_resolution_action_reserved_legal prepare_notification_resolution_action_accepted_legal
  prepare_notification_resolution_consumption_observed_legal
  prepare_notification_resolution_intent_withdrawn_legal prepare_notification_claimed_staged_clear_legal
  prepare_notification_claimed_ack_timeout_reconciliation_legal prepare_notification_barrier_retirement_legal

lemma prepare_state_legal: "prepare_state X p line replaying = Inr pm \<Longrightarrow> legal p line pm"
  unfolding prepare_state_def Let_def by (auto split: if_split_asm dest: prepare_legal_rows)

text \<open>The sequence number of an accepted line is the successor of the last one.\<close>

definition seq_of :: "mailbox_projection \<Rightarrow> nat" where
  "seq_of p = (case last_workspace_seq p of None \<Rightarrow> 0 | Some s \<Rightarrow> s)"

theorem prepare_line_inner_legal:
  assumes "prepare_line_inner X p line replaying = Inr pm"
  shows "legal p line pm \<and> ln_seq line = Suc (seq_of p) \<and> ln_seq line \<le> u64_max"
proof -
  have "ln_seq line = Suc (seq_of p) \<and> ln_seq line \<le> u64_max"
    using assms by (auto simp: prepare_line_inner_def seq_of_def result_simps Let_def)
  moreover have "legal p line pm"
    using assms
    by (auto simp: prepare_line_inner_def result_simps Let_def
        dest: prepare_state_legal prepare_message_legal split: kind.split_asm)
  ultimately show ?thesis by simp
qed

section \<open>Live lines replay\<close>

lemma transition_checked_replays:
  "transition_checked p c f False \<Longrightarrow> transition_checked p c f True"
  by (auto simp: transition_checked_def check_transition_edge_def check_transition_cause_def
      notification_transition_allowed_def result_simps split: option.splits if_splits)

lemma prepare_notification_transition_replays:
  assumes "prepare_notification_transition X p line False = Inr pm"
  shows "prepare_notification_transition X p line True = Inr pm"
proof -
  from assms obtain f where f: "notification_fact_of line = Inr (NotificationTransition f)"
    by (cases line rule: notification_fact_cases) (simp_all add: prepare_notification_transition_def)
  let ?current = "hm_get (notifications p) (tf_recipient f, tf_message_id f)"
  have "transition_checked p ?current f False"
    using assms by (auto simp: prepare_notification_transition_def f result_simps Let_def transition_checked_def)
  from transition_checked_replays [OF this] show ?thesis
    using assms by (auto simp: prepare_notification_transition_def f result_simps Let_def transition_checked_def)
qed

lemma prepare_notification_withdrawal_replays:
  "prepare_notification_withdrawal X p line False = Inr pm \<Longrightarrow>
   prepare_notification_withdrawal X p line True = Inr pm"
  by (cases line rule: notification_fact_cases)
    (auto simp: prepare_notification_withdrawal_def result_simps Let_def)

lemma prepare_line_inner_replays:
  assumes "prepare_line_inner X p line False = Inr pm"
  shows "prepare_line_inner X p line True = Inr pm"
proof -
  have "prepare_state X p line False = Inr pm \<Longrightarrow> prepare_state X p line True = Inr pm"
    unfolding prepare_state_def Let_def
    by (auto split: if_split_asm intro: prepare_notification_transition_replays
        prepare_notification_withdrawal_replays)
  with assms show ?thesis
    by (auto simp: prepare_line_inner_def result_simps Let_def split: kind.splits)
qed

lemma apply_inner_replays: "apply_inner X p line False = Inr q \<Longrightarrow> apply_inner X p line True = Inr q"
  by (auto simp: apply_inner_Inr_iff dest: prepare_line_inner_replays)

end
