(* ===== verification/Mailbox_Invariant.thy ===== *)
theory Mailbox_Invariant
  imports Projection_Steps
begin

text \<open>
  The mailbox half of the projection: messages, entries, their index, idempotency keys and
  claims. \<open>mailbox_inv\<close> says how these maps determine each other; every legal line keeps it
  and its commit never panics.
\<close>

section \<open>The invariant\<close>

text \<open>The index and the FIFO of each recipient describe the same entries.\<close>

definition entries_ok :: "mailbox_projection \<Rightarrow> bool" where
  "entries_ok p \<longleftrightarrow>
     hm_ok (mailboxes p) \<and> hm_ok (mailbox_index p) \<and>
     (\<forall>r mb. hm_get (mailboxes p) r = Some mb \<longrightarrow> bt_ok mb \<and>
        (\<forall>s e. bt_get mb s = Some e \<longrightarrow>
           me_recipient e = r \<and> me_seq e = s \<and> hm_get (mailbox_index p) (r, me_message_id e) = Some s)) \<and>
     (\<forall>r m s. hm_get (mailbox_index p) (r, m) = Some s \<longrightarrow>
        (\<exists>e. get_entry p r m = Some e \<and> me_message_id e = m))"

definition recipients_of :: "ledger_line \<Rightarrow> recipient_key list" where
  "recipients_of line = (case extract_message_metadata line of Inr md \<Rightarrow> md_recipients md | Inl e \<Rightarrow> [])"

text \<open>A recipient has an entry for a message exactly when the message names it.\<close>

definition index_ok :: "mailbox_projection \<Rightarrow> bool" where
  "index_ok p \<longleftrightarrow> (\<forall>r m. hm_get (mailbox_index p) (r, m) =
     (case hm_get (messages p) m of
        None \<Rightarrow> None
      | Some line \<Rightarrow> if r \<in> set (recipients_of line) then Some (ln_seq line) else None))"

definition message_ok :: "mailbox_projection \<Rightarrow> message_id \<Rightarrow> ledger_line \<Rightarrow> message_metadata \<Rightarrow> bool" where
  "message_ok p m line md \<longleftrightarrow>
     ln_id line = m \<and> (ln_kind line = Msg \<or> ln_kind line = Fyi) \<and> ln_seq line \<le> seq_of p \<and>
     extract_message_metadata line = Inr md \<and> rk_workspace (md_sender md) = workspace_id p \<and>
     md_recipients md \<noteq> [] \<and> distinct (md_recipients md) \<and>
     (\<forall>r\<in>set (md_recipients md). rk_workspace r = workspace_id p)"

text \<open>Every message is canonical, and its thread root is a stored root.\<close>

definition messages_ok :: "mailbox_projection \<Rightarrow> bool" where
  "messages_ok p \<longleftrightarrow>
     hm_ok (messages p) \<and>
     (\<forall>m line. hm_get (messages p) m = Some line \<longrightarrow> (\<exists>md. message_ok p m line md)) \<and>
     (\<forall>m line md. hm_get (messages p) m = Some line \<longrightarrow> extract_message_metadata line = Inr md \<longrightarrow>
        (\<exists>root rmd. hm_get (messages p) (md_thread_root md) = Some root \<and>
           extract_message_metadata root = Inr rmd \<and> md_thread_root rmd = md_thread_root md))"

text \<open>A client key names the one message its sender used it for.\<close>

definition keyed :: "mailbox_projection \<Rightarrow> recipient_key \<Rightarrow> string \<Rightarrow> message_id \<Rightarrow> request_digest \<Rightarrow> bool" where
  "keyed p s k m d \<longleftrightarrow> (\<exists>line md. hm_get (messages p) m = Some line \<and> extract_message_metadata line = Inr md \<and>
     md_sender md = s \<and> md_client_key md = Some k \<and> md_request_digest md = d)"

definition idempotency_ok :: "mailbox_projection \<Rightarrow> bool" where
  "idempotency_ok p \<longleftrightarrow> (\<forall>s k m d. hm_get (idempotency_index p) (s, k) = Some (m, d) \<longleftrightarrow> keyed p s k m d)"

text \<open>Claims are recorded once, after the message, and by the recipient itself.\<close>

definition claim_recorded :: "mailbox_projection \<Rightarrow> recipient_key \<Rightarrow> message_id \<Rightarrow> mailbox_entry \<Rightarrow> bool" where
  "claim_recorded p r m e \<longleftrightarrow>
     (case me_state e of
        Claimed c t \<Rightarrow> c = r \<and> (\<exists>s. hm_get (claim_sequences p) (r, m) = Some s \<and> me_seq e < s \<and> s \<le> seq_of p)
      | _ \<Rightarrow> hm_get (claim_sequences p) (r, m) = None)"

definition claims_ok :: "mailbox_projection \<Rightarrow> bool" where
  "claims_ok p \<longleftrightarrow>
     (\<forall>r m. get_entry p r m = None \<longrightarrow> hm_get (claim_sequences p) (r, m) = None) \<and>
     (\<forall>r m e. get_entry p r m = Some e \<longrightarrow> claim_recorded p r m e)"

text \<open>A superseded entry names the stored message that replaced it.\<close>

definition supersessions_ok :: "mailbox_projection \<Rightarrow> bool" where
  "supersessions_ok p \<longleftrightarrow> (\<forall>r m e new t. get_entry p r m = Some e \<longrightarrow> me_state e = EntrySuperseded new t \<longrightarrow>
     (\<exists>line md. hm_get (messages p) new = Some line \<and> extract_message_metadata line = Inr md \<and>
        md_supersedes md = Some m \<and> md_recipients md = [r] \<and> me_seq e < ln_seq line))"

definition mailbox_inv :: "mailbox_projection \<Rightarrow> bool" where
  "mailbox_inv p \<longleftrightarrow> entries_ok p \<and> index_ok p \<and> messages_ok p \<and> idempotency_ok p \<and> claims_ok p \<and> supersessions_ok p"

section \<open>What the invariant depends on\<close>

definition mailbox_core :: "mailbox_projection \<Rightarrow> _" where
  "mailbox_core p =
     (workspace_id p, messages p, idempotency_index p, mailboxes p, mailbox_index p, claim_sequences p)"

text \<open>The fields that only rows about attempts change.\<close>

definition settlement_core :: "mailbox_projection \<Rightarrow> _" where
  "settlement_core p =
     (active_notification_barriers p, claimed_ack_timeout_reconciliations p, notification_attempts p,
      cleared_attempts p, clearance_batches p, resolved_attempts p, resolution_intents p,
      forced_resolution_intents p, resolution_action_reservations p,
      resolution_action_reservation_sequences p, resolution_actions_accepted p,
      resolution_action_sequences p, notification_write_sequences p, resolution_consumptions p)"

lemma get_entry_core: "mailbox_core q = mailbox_core p \<Longrightarrow> get_entry q = get_entry p"
  by (auto simp: mailbox_core_def get_entry_def fun_eq_iff)

lemma mailbox_inv_core:
  assumes core: "mailbox_core q = mailbox_core p" and seq: "seq_of p \<le> seq_of q" and inv: "mailbox_inv p"
  shows "mailbox_inv q"
proof -
  note ge = get_entry_core [OF core]
  have f: "messages q = messages p" "mailboxes q = mailboxes p" "mailbox_index q = mailbox_index p"
    "idempotency_index q = idempotency_index p" "claim_sequences q = claim_sequences p"
    "workspace_id q = workspace_id p"
    using core by (auto simp: mailbox_core_def)
  have "entries_ok q \<longleftrightarrow> entries_ok p" "index_ok q \<longleftrightarrow> index_ok p" "idempotency_ok q \<longleftrightarrow> idempotency_ok p"
    "supersessions_ok q \<longleftrightarrow> supersessions_ok p"
    by (simp_all only: entries_ok_def index_ok_def idempotency_ok_def keyed_def supersessions_ok_def f ge)
  moreover have "messages_ok q"
    using inv seq unfolding mailbox_inv_def messages_ok_def message_ok_def f by (meson order_trans)
  moreover have "claim_recorded q r m e" if "claim_recorded p r m e" for r m e
    using that seq by (auto simp: claim_recorded_def f split: mailbox_entry_state.splits)
  then have "claims_ok q"
    using inv unfolding mailbox_inv_def claims_ok_def f ge by blast
  ultimately show ?thesis using inv by (simp add: mailbox_inv_def)
qed

section \<open>Entries\<close>

lemma entry_ids:
  assumes "entries_ok p" and "get_entry p r m = Some e"
  shows "me_message_id e = m \<and> me_recipient e = r \<and> hm_get (mailbox_index p) (r, m) = Some (me_seq e)"
proof -
  obtain s mb where "hm_get (mailbox_index p) (r, m) = Some s" "hm_get (mailboxes p) r = Some mb" "bt_get mb s = Some e"
    using assms(2) by (auto simp: get_entry_def bind_eq_Some_conv)
  then show ?thesis
    using assms unfolding entries_ok_def by (metis option.inject)
qed

lemma entry_of_index: "entries_ok p \<Longrightarrow> hm_get (mailbox_index p) (r, m) = Some s \<Longrightarrow>
    \<exists>e. get_entry p r m = Some e \<and> me_seq e = s"
  by (metis entries_ok_def entry_ids option.inject)

lemma get_entry_None_iff: "entries_ok p \<Longrightarrow> get_entry p r m = None \<longleftrightarrow> hm_get (mailbox_index p) (r, m) = None"
  by (metis entry_ids entry_of_index not_None_eq)

text \<open>Writing the state of one entry: the others, and everything else, stay.\<close>

lemma set_entry_state_effect:
  assumes ok: "entries_ok p" and set: "set_entry_state p r m st = Some q"
  shows "entries_ok q"
    and "get_entry q = (\<lambda>r' m'. if r' = r \<and> m' = m then map_option (me_state_update (\<lambda>_. st)) (get_entry p r m)
                               else get_entry p r' m')"
    and "\<exists>mbs. q = p\<lparr> mailboxes := mbs \<rparr>"
proof -
  obtain s mb e where i: "hm_get (mailbox_index p) (r, m) = Some s" and mb: "hm_get (mailboxes p) r = Some mb"
    and e: "bt_get mb s = Some e"
    and q: "q = p\<lparr> mailboxes := hm_insert r (bt_modify s (me_state_update (\<lambda>_. st)) mb) (mailboxes p) \<rparr>"
    using set by (auto simp: set_entry_state_def bind_eq_Some_conv)
  have inj: "m' = m" if "hm_get (mailbox_index p) (r, m') = Some s" for m'
    using entry_ids [OF ok, of r m e] entry_ids [OF ok, of r m' e] that i mb e by (simp add: get_entry_def)
  show ge: "get_entry q = (\<lambda>r' m'. if r' = r \<and> m' = m then map_option (me_state_update (\<lambda>_. st)) (get_entry p r m)
                               else get_entry p r' m')"
  proof (intro ext)
    fix r' m'
    show "get_entry q r' m' = (if r' = r \<and> m' = m then map_option (me_state_update (\<lambda>_. st)) (get_entry p r m)
            else get_entry p r' m')"
    proof (cases "r' = r")
      case True
      have "m' = m \<or> hm_get (mailbox_index p) (r, m') \<noteq> Some s" using inj by blast
      then show ?thesis
        using True i mb e by (cases "hm_get (mailbox_index p) (r, m')") (auto simp: get_entry_def q)
    qed (simp add: get_entry_def q)
  qed
  show "\<exists>mbs. q = p\<lparr> mailboxes := mbs \<rparr>" using q by blast
  show "entries_ok q"
    unfolding entries_ok_def ge
  proof (intro conjI allI impI)
    show "hm_ok (mailboxes q)" "hm_ok (mailbox_index q)" using ok by (auto simp: q entries_ok_def)
  next
    fix r' mb' assume a: "hm_get (mailboxes q) r' = Some mb'"
    show "bt_ok mb'" using a ok mb by (auto simp: q entries_ok_def split: if_splits)
    fix s' e' assume "bt_get mb' s' = Some e'"
    with a ok mb show "me_recipient e' = r'" "me_seq e' = s'"
      "hm_get (mailbox_index q) (r', me_message_id e') = Some s'"
      by (auto simp: q entries_ok_def split: if_splits)
  next
    fix r' m' s' assume "hm_get (mailbox_index q) (r', m') = Some s'"
    then have "hm_get (mailbox_index p) (r', m') = Some s'" by (simp add: q)
    then obtain e' where "get_entry p r' m' = Some e'" "me_message_id e' = m'"
      using ok unfolding entries_ok_def by blast
    then show "\<exists>e. (if r' = r \<and> m' = m then map_option (me_state_update (\<lambda>_. st)) (get_entry p r m)
        else get_entry p r' m') = Some e \<and> me_message_id e = m'"
      by (cases "r' = r \<and> m' = m") auto
  qed
qed

text \<open>Adding the entry of one recipient.\<close>

definition new_entry :: "message_id \<Rightarrow> ledger_line \<Rightarrow> recipient_key \<Rightarrow> mailbox_entry" where
  "new_entry m line r = \<lparr> me_message_id = m, me_recipient = r, me_state = Pending, me_seq = ln_seq line,
     me_created_at = ln_ts line \<rparr>"

lemma new_entry_sel [simp]:
  "me_message_id (new_entry m line r) = m" "me_recipient (new_entry m line r) = r"
  "me_state (new_entry m line r) = Pending" "me_seq (new_entry m line r) = ln_seq line"
  by (simp_all add: new_entry_def)

lemma add_entry_effect:
  assumes ok: "entries_ok p" and fresh: "hm_get (mailbox_index p) (r, m) = None"
    and later: "\<forall>m'. hm_get (mailbox_index p) (r, m') \<noteq> Some (ln_seq line)"
  shows "entries_ok (add_entry m line r p)"
    and "get_entry (add_entry m line r p) =
      (\<lambda>r' m'. if r' = r \<and> m' = m then Some (new_entry m line r) else get_entry p r' m')"
    and "mailbox_index (add_entry m line r p) = hm_insert (r, m) (ln_seq line) (mailbox_index p)"
    and "\<exists>mbs idx. add_entry m line r p = p\<lparr> mailboxes := mbs, mailbox_index := idx \<rparr>"
proof -
  define mb where "mb = (case hm_get (mailboxes p) r of None \<Rightarrow> [] | Some mb \<Rightarrow> mb)"
  define q where "q = add_entry m line r p"
  have q: "q = p\<lparr> mailboxes := hm_insert r (bt_insert (ln_seq line) (new_entry m line r) mb) (mailboxes p),
      mailbox_index := hm_insert (r, m) (ln_seq line) (mailbox_index p) \<rparr>"
    by (simp add: q_def add_entry_def new_entry_def mb_def Let_def)
  have mb_ok: "bt_ok mb" and mb_e: "\<And>s e. bt_get mb s = Some e \<Longrightarrow>
      me_recipient e = r \<and> me_seq e = s \<and> hm_get (mailbox_index p) (r, me_message_id e) = Some s"
    using ok by (auto simp: mb_def entries_ok_def split: option.splits)
  have old: "bt_get mb s = None" if "s = ln_seq line" for s
    using mb_e later that by (cases "bt_get mb s") auto
  show idx: "mailbox_index (add_entry m line r p) = hm_insert (r, m) (ln_seq line) (mailbox_index p)"
    using q by (simp add: q_def)
  show "\<exists>mbs idx. add_entry m line r p = p\<lparr> mailboxes := mbs, mailbox_index := idx \<rparr>"
    using q unfolding q_def by blast
  have "get_entry q r' m' = (if r' = r \<and> m' = m then Some (new_entry m line r) else get_entry p r' m')" for r' m'
    using later old by (cases "hm_get (mailbox_index p) (r', m')")
      (auto simp: get_entry_def q mb_def split: option.splits)
  then show ge: "get_entry (add_entry m line r p) =
      (\<lambda>r' m'. if r' = r \<and> m' = m then Some (new_entry m line r) else get_entry p r' m')"
    by (simp add: q_def fun_eq_iff)
  show "entries_ok (add_entry m line r p)"
    unfolding entries_ok_def ge idx
  proof (intro conjI allI impI)
    show "hm_ok (mailboxes (add_entry m line r p))" "hm_ok (hm_insert (r, m) (ln_seq line) (mailbox_index p))"
      using ok by (auto simp: q q_def [symmetric] entries_ok_def)
  next
    fix r' mb' assume a: "hm_get (mailboxes (add_entry m line r p)) r' = Some mb'"
    show "bt_ok mb'" using a ok mb_ok by (auto simp: q q_def [symmetric] entries_ok_def split: if_splits)
    fix s' e' assume b: "bt_get mb' s' = Some e'"
    have c: "(r' = r \<and> s' = ln_seq line \<and> e' = new_entry m line r) \<or> (r' = r \<and> bt_get mb s' = Some e') \<or>
        (r' \<noteq> r \<and> hm_get (mailboxes p) r' = Some mb')"
      using a b by (auto simp: q q_def [symmetric] split: if_splits)
    then show "me_recipient e' = r'" "me_seq e' = s'" using mb_e ok b by (auto simp: entries_ok_def)
    have "(r', me_message_id e') \<noteq> (r, m) \<or> s' = ln_seq line" using c mb_e fresh by auto
    then show "hm_get (hm_insert (r, m) (ln_seq line) (mailbox_index p)) (r', me_message_id e') = Some s'"
      using c mb_e ok b by (auto simp: entries_ok_def)
  next
    fix r' m' s' assume "hm_get (hm_insert (r, m) (ln_seq line) (mailbox_index p)) (r', m') = Some s'"
    then show "\<exists>e. (if r' = r \<and> m' = m then Some (new_entry m line r) else get_entry p r' m') = Some e \<and>
        me_message_id e = m'"
      using ok unfolding entries_ok_def by (auto split: if_splits)
  qed
qed

lemma add_entries_effect:
  assumes "entries_ok p" and "distinct rs"
    and "\<forall>r\<in>set rs. hm_get (mailbox_index p) (r, m) = None"
    and "\<forall>r m'. hm_get (mailbox_index p) (r, m') \<noteq> Some (ln_seq line)"
  shows "entries_ok (fold (add_entry m line) rs p) \<and>
    get_entry (fold (add_entry m line) rs p) =
      (\<lambda>r' m'. if r' \<in> set rs \<and> m' = m then Some (new_entry m line r') else get_entry p r' m') \<and>
    (\<forall>r' m'. hm_get (mailbox_index (fold (add_entry m line) rs p)) (r', m') =
      (if r' \<in> set rs \<and> m' = m then Some (ln_seq line) else hm_get (mailbox_index p) (r', m'))) \<and>
    (\<exists>mbs idx. fold (add_entry m line) rs p = p\<lparr> mailboxes := mbs, mailbox_index := idx \<rparr>)"
  using assms
proof (induction rs rule: rev_induct)
  case Nil
  then show ?case by (simp, metis mailbox_projection.surjective mailbox_projection.update_convs(5,6))
next
  case (snoc r rs)
  define q where "q = fold (add_entry m line) rs p"
  have IH: "entries_ok q" "get_entry q = (\<lambda>r' m'. if r' \<in> set rs \<and> m' = m then Some (new_entry m line r') else get_entry p r' m')"
    "\<And>r' m'. hm_get (mailbox_index q) (r', m') =
      (if r' \<in> set rs \<and> m' = m then Some (ln_seq line) else hm_get (mailbox_index p) (r', m'))"
    "\<exists>mbs idx. q = p\<lparr> mailboxes := mbs, mailbox_index := idx \<rparr>"
    using snoc by (auto simp: q_def)
  have "hm_get (mailbox_index q) (r, m) = None" "\<forall>m'. hm_get (mailbox_index q) (r, m') \<noteq> Some (ln_seq line)"
    using snoc.prems IH(3) by auto
  note eff = add_entry_effect [OF IH(1) this]
  have "\<exists>mbs idx. add_entry m line r q = p\<lparr> mailboxes := mbs, mailbox_index := idx \<rparr>"
    using eff(4) IH(4) by (elim exE) (simp, blast)
  then show ?case
    using eff(1-3) IH(1-3) unfolding fold_append comp_apply q_def [symmetric] by (auto simp: fun_eq_iff)
qed

section \<open>Message rows\<close>

text \<open>The entry a message leaves behind when it replaces another.\<close>

definition superseded_entry :: "message_metadata \<Rightarrow> message_id \<Rightarrow> ledger_line \<Rightarrow> recipient_key \<Rightarrow> message_id \<Rightarrow>
    mailbox_entry \<Rightarrow> mailbox_entry" where
  "superseded_entry md m line r m' e =
     (if md_supersedes md = Some m' \<and> md_recipients md = [r] then e\<lparr> me_state := EntrySuperseded m (ln_ts line) \<rparr> else e)"

lemma superseded_entry_sel [simp]:
  "me_message_id (superseded_entry md m line r m' e) = me_message_id e"
  "me_seq (superseded_entry md m line r m' e) = me_seq e"
  by (simp_all add: superseded_entry_def)

lemma commit_superseded_entry_effect:
  assumes ok: "entries_ok p"
    and sup: "\<forall>target. md_supersedes md = Some target \<longrightarrow> (\<exists>r. md_recipients md = [r] \<and> get_entry p r target \<noteq> None)"
  obtains p1 where "commit_superseded_entry p line m md = Some p1" "entries_ok p1"
    "get_entry p1 = (\<lambda>r m'. map_option (superseded_entry md m line r m') (get_entry p r m'))"
    "\<exists>mbs. p1 = p\<lparr> mailboxes := mbs \<rparr>"
proof (cases "md_supersedes md")
  case None
  have "superseded_entry md m line r m' = (\<lambda>e. e)" for r m'
    using None by (simp add: superseded_entry_def fun_eq_iff)
  then have "get_entry p = (\<lambda>r m'. map_option (superseded_entry md m line r m') (get_entry p r m'))"
    by (simp add: option.map_ident)
  moreover have "\<exists>mbs. p = p\<lparr> mailboxes := mbs \<rparr>" by (metis mailbox_projection.surjective mailbox_projection.update_convs(5))
  ultimately show thesis using None ok that [of p] by (simp add: commit_superseded_entry_def)
next
  case (Some target)
  then obtain r where r: "md_recipients md = [r]" "get_entry p r target \<noteq> None" using sup by blast
  then obtain p1 where p1: "set_entry_state p r target (EntrySuperseded m (ln_ts line)) = Some p1"
    using set_entry_state_Some_iff by blast
  note eff = set_entry_state_effect [OF ok p1]
  have "get_entry p1 = (\<lambda>r m'. map_option (superseded_entry md m line r m') (get_entry p r m'))"
  proof (intro ext)
    fix r' m'
    show "get_entry p1 r' m' = map_option (superseded_entry md m line r' m') (get_entry p r' m')"
      unfolding eff(2) using Some r by (cases "get_entry p r' m'") (auto simp: superseded_entry_def)
  qed
  then show thesis
    using that [of p1] p1 eff r Some by (simp add: commit_superseded_entry_def)
qed

lemma commit_message_effect:
  assumes ok: "entries_ok p" and rs: "distinct (md_recipients md)"
    and sup: "\<forall>target. md_supersedes md = Some target \<longrightarrow> (\<exists>r. md_recipients md = [r] \<and> get_entry p r target \<noteq> None)"
    and fresh: "\<forall>r. hm_get (mailbox_index p) (r, m) = None"
    and later: "\<forall>r m'. hm_get (mailbox_index p) (r, m') \<noteq> Some (ln_seq line)"
  obtains q where "commit_message p line m md up = Some q" "entries_ok q"
    "get_entry q = (\<lambda>r m'. if r \<in> set (md_recipients md) \<and> m' = m then Some (new_entry m line r)
       else map_option (superseded_entry md m line r m') (get_entry p r m'))"
    "\<And>r m'. hm_get (mailbox_index q) (r, m') =
       (if r \<in> set (md_recipients md) \<and> m' = m then Some (ln_seq line) else hm_get (mailbox_index p) (r, m'))"
    "idempotency_index q = (case md_client_key md of None \<Rightarrow> idempotency_index p
       | Some key \<Rightarrow> hm_insert (md_sender md, key) (m, md_request_digest md) (idempotency_index p))"
    "notifications q = (case up of None \<Rightarrow> notifications p
       | Some u \<Rightarrow> hm_insert (up_key u) (up_record u) (notifications p))"
    "messages q = hm_insert m line (messages p)" "claim_sequences q = claim_sequences p"
    "workspace_id q = workspace_id p" "last_workspace_seq q = last_workspace_seq p"
    "settlement_core q = settlement_core p"
proof -
  obtain p1 where p1: "commit_superseded_entry p line m md = Some p1" "entries_ok p1"
    "get_entry p1 = (\<lambda>r m'. map_option (superseded_entry md m line r m') (get_entry p r m'))"
    and f1: "\<exists>mbs. p1 = p\<lparr> mailboxes := mbs \<rparr>"
    using commit_superseded_entry_effect [OF ok sup] by blast
  define p2 where "p2 = (case md_client_key md of None \<Rightarrow> p1
      | Some key \<Rightarrow> p1\<lparr> idempotency_index := hm_insert (md_sender md, key) (m, md_request_digest md) (idempotency_index p1) \<rparr>)"
  have p2: "mailboxes p2 = mailboxes p1" "mailbox_index p2 = mailbox_index p1"
    by (auto simp: p2_def split: option.splits)
  then have "entries_ok p2" "get_entry p2 = get_entry p1" "mailbox_index p2 = mailbox_index p"
    using p1(2) f1 by (auto simp: entries_ok_def get_entry_def fun_eq_iff)
  note e2 = this
  define p3 where "p3 = fold (add_entry m line) (md_recipients md) p2"
  have fold3: "entries_ok p3"
    "get_entry p3 = (\<lambda>r m'. if r \<in> set (md_recipients md) \<and> m' = m then Some (new_entry m line r) else get_entry p2 r m')"
    "\<And>r m'. hm_get (mailbox_index p3) (r, m') =
       (if r \<in> set (md_recipients md) \<and> m' = m then Some (ln_seq line) else hm_get (mailbox_index p2) (r, m'))"
    "\<exists>mbs idx. p3 = p2\<lparr> mailboxes := mbs, mailbox_index := idx \<rparr>"
    using add_entries_effect [OF e2(1) rs, of m line] fresh later unfolding p3_def e2(3) by auto
  define q where "q = (case up of None \<Rightarrow> p3
      | Some u \<Rightarrow> p3\<lparr> notifications := hm_insert (up_key u) (up_record u) (notifications p3) \<rparr>)
      \<lparr> messages := hm_insert m line (messages p3) \<rparr>"
  have q: "mailboxes q = mailboxes p3" "mailbox_index q = mailbox_index p3"
    by (auto simp: q_def split: option.splits)
  have "commit_message p line m md up = Some q"
    unfolding commit_message_def p1(1) Option.bind.bind_lunit Let_def q_def p3_def p2_def
    by (auto split: option.splits)
  moreover have "entries_ok q" "get_entry q = get_entry p3"
    using fold3(1) q by (auto simp: entries_ok_def get_entry_def fun_eq_iff)
  note this(1) and this(2) [unfolded fold3(2) e2(2) p1(3)]
  moreover have "idempotency_index q = (case md_client_key md of None \<Rightarrow> idempotency_index p
       | Some key \<Rightarrow> hm_insert (md_sender md, key) (m, md_request_digest md) (idempotency_index p))"
    "notifications q = (case up of None \<Rightarrow> notifications p
       | Some u \<Rightarrow> hm_insert (up_key u) (up_record u) (notifications p))"
    "messages q = hm_insert m line (messages p)" "claim_sequences q = claim_sequences p"
    "workspace_id q = workspace_id p" "last_workspace_seq q = last_workspace_seq p"
    "settlement_core q = settlement_core p"
    using f1 fold3(4) by (auto simp: q_def p2_def settlement_core_def split: option.split)
  ultimately show thesis
    using fold3(3) e2(3) q(2) by (intro that [of q]) simp_all
qed

lemma index_bound:
  assumes "mailbox_inv p" and "hm_get (mailbox_index p) (r, m) = Some s"
  shows "s \<le> seq_of p \<and> hm_get (messages p) m \<noteq> None"
proof -
  from assms obtain line where "hm_get (messages p) m = Some line" "s = ln_seq line"
    by (auto simp: mailbox_inv_def index_ok_def split: option.splits if_splits)
  with assms(1) show ?thesis by (auto simp: mailbox_inv_def messages_ok_def message_ok_def)
qed

lemma entry_message: "mailbox_inv p \<Longrightarrow> get_entry p r m = Some e \<Longrightarrow> hm_get (messages p) m \<noteq> None"
  by (meson entry_ids index_bound mailbox_inv_def)

text \<open>Clauses of the invariant that look at stored messages survive a new message.\<close>

lemma keyed_insert_message:
  assumes "hm_get (messages p) m = None" and "extract_message_metadata line = Inr md"
    and "messages q = hm_insert m line (messages p)"
  shows "keyed q s k m' d \<longleftrightarrow> keyed p s k m' d \<or>
    (m' = m \<and> md_sender md = s \<and> md_client_key md = Some k \<and> md_request_digest md = d)"
  using assms by (auto simp: keyed_def)

lemma idempotency_insert_message:
  assumes inv: "idempotency_ok p" and fresh: "hm_get (messages p) m = None"
    and md: "extract_message_metadata line = Inr md" and msgs: "messages q = hm_insert m line (messages p)"
    and key: "\<forall>k. md_client_key md = Some k \<longrightarrow> hm_get (idempotency_index p) (md_sender md, k) = None"
    and idx: "idempotency_index q = (case md_client_key md of None \<Rightarrow> idempotency_index p
       | Some k \<Rightarrow> hm_insert (md_sender md, k) (m, md_request_digest md) (idempotency_index p))"
  shows "idempotency_ok q"
proof -
  have free: "\<not> keyed p (md_sender md) k m' d" if "md_client_key md = Some k" for k m' d
    using inv key that by (metis idempotency_ok_def option.distinct(1))
  show ?thesis
    unfolding idempotency_ok_def keyed_insert_message [OF fresh md msgs]
    using inv free by (cases "md_client_key md") (auto simp: idx idempotency_ok_def)
qed

lemma messages_insert_message:
  assumes inv: "messages_ok p" and fresh: "hm_get (messages p) m = None"
    and ok: "message_ok q m line md" and root: "rooted p m md"
    and msgs: "messages q = hm_insert m line (messages p)"
    and ws: "workspace_id q = workspace_id p" and seq: "seq_of p \<le> seq_of q"
  shows "messages_ok q"
  unfolding messages_ok_def
proof (intro conjI allI impI)
  show "hm_ok (messages q)" using inv msgs by (simp add: messages_ok_def)
next
  fix m' line' assume l: "hm_get (messages q) m' = Some line'"
  show "\<exists>md. message_ok q m' line' md"
  proof (cases "m' = m")
    case True
    then show ?thesis using l ok msgs by auto
  next
    case False
    then have "hm_get (messages p) m' = Some line'" using l msgs by simp
    then obtain md' where "message_ok p m' line' md'" using inv unfolding messages_ok_def by blast
    then have "message_ok q m' line' md'" using ws seq by (auto simp: message_ok_def)
    then show ?thesis by blast
  qed
next
  fix m' line' md' assume l: "hm_get (messages q) m' = Some line'" "extract_message_metadata line' = Inr md'"
  have md: "extract_message_metadata line = Inr md" using ok by (simp add: message_ok_def)
  have old: "\<exists>root rmd. hm_get (messages q) (md_thread_root omd) = Some root \<and>
      extract_message_metadata root = Inr rmd \<and> md_thread_root rmd = md_thread_root omd"
    if stored: "hm_get (messages p) k = Some o'" "extract_message_metadata o' = Inr omd" for k o' omd
  proof -
    obtain root rmd where "hm_get (messages p) (md_thread_root omd) = Some root"
      "extract_message_metadata root = Inr rmd" "md_thread_root rmd = md_thread_root omd"
      using inv stored unfolding messages_ok_def by blast
    moreover from this have "md_thread_root omd \<noteq> m" using fresh by auto
    ultimately show ?thesis using msgs by auto
  qed
  show "\<exists>root rmd. hm_get (messages q) (md_thread_root md') = Some root \<and>
      extract_message_metadata root = Inr rmd \<and> md_thread_root rmd = md_thread_root md'"
  proof (cases "m' = m")
    case True
    then have "md' = md" using l md msgs by simp
    show ?thesis
    proof (cases "md_thread_root md = m")
      case True
      then show ?thesis using \<open>md' = md\<close> md msgs by simp
    next
      case False
      then show ?thesis using \<open>md' = md\<close> root old unfolding rooted_def by metis
    qed
  next
    case False
    then show ?thesis using l old [of m' line' md'] msgs by simp
  qed
qed


lemma claims_okD: "claims_ok p \<Longrightarrow> get_entry p r m = Some e \<Longrightarrow> claim_recorded p r m e"
  by (simp add: claims_ok_def)

lemma claims_insert_message:
  assumes inv: "claims_ok p" and ge: "get_entry q = (\<lambda>r m'. if r \<in> set rs \<and> m' = m then Some (new_entry m line r)
       else map_option (superseded_entry md m line r m') (get_entry p r m'))"
    and fresh: "\<forall>r. get_entry p r m = None"
    and pending: "\<forall>target r. md_supersedes md = Some target \<longrightarrow> md_recipients md = [r] \<longrightarrow> pending_entry p r target"
    and seqs: "claim_sequences q = claim_sequences p" "seq_of p \<le> seq_of q"
  shows "claims_ok q"
proof -
  have "claim_recorded q r m' (superseded_entry md m line r m' e)" if e: "get_entry p r m' = Some e" for r m' e
  proof (cases "md_supersedes md = Some m' \<and> md_recipients md = [r]")
    case True
    then have "me_state e = Pending" using pending e by (auto simp: pending_entry_def)
    then have "hm_get (claim_sequences p) (r, m') = None"
      using claims_okD [OF inv e] by (simp add: claim_recorded_def)
    then show ?thesis using True seqs by (simp add: superseded_entry_def claim_recorded_def)
  next
    case False
    then show ?thesis
      using claims_okD [OF inv e] seqs unfolding claim_recorded_def superseded_entry_def
      by (auto split: mailbox_entry_state.splits)
  qed
  then show ?thesis
    using inv fresh seqs unfolding claims_ok_def ge by (auto simp: claim_recorded_def split: if_splits)
qed

lemma mailbox_inv_message:
  assumes inv: "mailbox_inv p" and seq: "ln_seq line = Suc (seq_of p)"
    and kind: "ln_kind line = Msg \<or> ln_kind line = Fyi" and id: "m = ln_id line"
    and fresh: "hm_get (messages p) m = None"
    and md: "extract_message_metadata line = Inr md" "rk_workspace (md_sender md) = workspace_id p"
      "md_recipients md \<noteq> []" "distinct (md_recipients md)"
      "\<forall>r\<in>set (md_recipients md). rk_workspace r = workspace_id p"
    and sup: "\<forall>target. md_supersedes md = Some target \<longrightarrow> (\<exists>r. supersedable p md target r)"
    and root: "rooted p m md"
    and key: "\<forall>key. md_client_key md = Some key \<longrightarrow> hm_get (idempotency_index p) (md_sender md, key) = None"
  shows "\<exists>q. commit_line p line (PreparedMessage m md up) = Some q \<and> mailbox_inv q \<and>
    get_entry q = (\<lambda>r m'. if r \<in> set (md_recipients md) \<and> m' = m then Some (new_entry m line r)
       else map_option (superseded_entry md m line r m') (get_entry p r m')) \<and>
    messages q = hm_insert m line (messages p) \<and> settlement_core q = settlement_core p \<and>
    notifications q = (case up of None \<Rightarrow> notifications p
       | Some u \<Rightarrow> hm_insert (up_key u) (up_record u) (notifications p))"
proof -
  let ?p = "p\<lparr> last_workspace_seq := Some (ln_seq line) \<rparr>"
  have core: "mailbox_core ?p = mailbox_core p" by (simp add: mailbox_core_def)
  have inv': "mailbox_inv ?p" by (rule mailbox_inv_core [OF core _ inv]) (simp add: seq_of_def seq [unfolded seq_of_def])
  then have ok': "entries_ok ?p" by (simp add: mailbox_inv_def)
  note ge = get_entry_core [OF core]
  have no_entry: "\<forall>r. get_entry ?p r m = None"
    using entry_message [OF inv'] fresh by (metis ge inv entry_message not_None_eq)
  have idx_fresh: "\<forall>r. hm_get (mailbox_index ?p) (r, m) = None"
    using index_bound [OF inv] fresh by (metis mailbox_projection.select_convs(6)
        mailbox_projection.update_convs(2) mailbox_projection.surjective not_None_eq)
  have idx_later: "\<forall>r m'. hm_get (mailbox_index ?p) (r, m') \<noteq> Some (ln_seq line)"
    using index_bound [OF inv] seq by fastforce
  have sup': "\<forall>target. md_supersedes md = Some target \<longrightarrow> (\<exists>r. md_recipients md = [r] \<and> get_entry ?p r target \<noteq> None)"
    using sup unfolding ge by (fastforce simp: supersedable_def pending_entry_def)
  obtain q where raw: "commit_message ?p line m md up = Some q" "entries_ok q"
    "get_entry q = (\<lambda>r m'. if r \<in> set (md_recipients md) \<and> m' = m then Some (new_entry m line r)
       else map_option (superseded_entry md m line r m') (get_entry ?p r m'))"
    "\<And>r m'. hm_get (mailbox_index q) (r, m') =
       (if r \<in> set (md_recipients md) \<and> m' = m then Some (ln_seq line) else hm_get (mailbox_index ?p) (r, m'))"
    "idempotency_index q = (case md_client_key md of None \<Rightarrow> idempotency_index ?p
       | Some key \<Rightarrow> hm_insert (md_sender md, key) (m, md_request_digest md) (idempotency_index ?p))"
    "messages q = hm_insert m line (messages ?p)" "claim_sequences q = claim_sequences ?p"
    "workspace_id q = workspace_id ?p" "last_workspace_seq q = last_workspace_seq ?p"
    "notifications q = (case up of None \<Rightarrow> notifications ?p
       | Some u \<Rightarrow> hm_insert (up_key u) (up_record u) (notifications ?p))"
    "settlement_core q = settlement_core ?p"
    by (rule commit_message_effect [OF ok' md(4) sup' idx_fresh idx_later, of up]) (rule that)
  note q = raw(1,2) raw(3) [unfolded ge] raw(4) [simplified]
  have "idempotency_index ?p = idempotency_index p" by simp
  note f = raw(5) [unfolded this] raw(6-9) [simplified]
  have seqs: "seq_of p \<le> seq_of q" "ln_seq line \<le> seq_of q" using seq f(5) by (auto simp: seq_of_def)
  have "message_ok q m line md" using kind id md f(4) seqs by (simp add: message_ok_def)
  then have "messages_ok q"
    using messages_insert_message inv fresh root f(2,4) seqs(1) unfolding mailbox_inv_def by blast
  moreover have "idempotency_ok q"
    using idempotency_insert_message inv fresh md(1) f(1,2) key unfolding mailbox_inv_def by blast
  moreover have "index_ok q"
    using inv fresh md(1) by (auto simp: mailbox_inv_def index_ok_def q(4) f(2) recipients_of_def)
  moreover have "\<forall>target r. md_supersedes md = Some target \<longrightarrow> md_recipients md = [r] \<longrightarrow> pending_entry p r target"
    using sup by (fastforce simp: supersedable_def)
  then have "claims_ok q"
    using claims_insert_message [OF _ q(3)] inv no_entry f(3) seqs(1) unfolding mailbox_inv_def ge by blast
  moreover have "supersessions_ok q"
    unfolding supersessions_ok_def
  proof (intro allI impI)
    fix r m' e new t assume e: "get_entry q r m' = Some e" "me_state e = EntrySuperseded new t"
    then obtain e0 where e0: "get_entry p r m' = Some e0" "e = superseded_entry md m line r m' e0"
      unfolding q(3) by (auto split: if_splits)
    show "\<exists>line md. hm_get (messages q) new = Some line \<and> extract_message_metadata line = Inr md \<and>
        md_supersedes md = Some m' \<and> md_recipients md = [r] \<and> me_seq e < ln_seq line"
    proof (cases "md_supersedes md = Some m' \<and> md_recipients md = [r]")
      case True
      have "hm_get (mailbox_index p) (r, m') = Some (me_seq e0)"
        using entry_ids inv e0(1) unfolding mailbox_inv_def by blast
      then have "me_seq e0 < ln_seq line" using index_bound [OF inv] seq by fastforce
      then show ?thesis using True e e0 md(1) f(2) by (auto simp: superseded_entry_def)
    next
      case False
      then have "me_state e0 = EntrySuperseded new t" "me_seq e = me_seq e0"
        using e e0 by (auto simp: superseded_entry_def)
      then obtain line' md' where "hm_get (messages p) new = Some line'" "extract_message_metadata line' = Inr md'"
        "md_supersedes md' = Some m'" "md_recipients md' = [r]" "me_seq e < ln_seq line'"
        using inv e0(1) unfolding mailbox_inv_def supersessions_ok_def by metis
      then show ?thesis using fresh f(2) by auto
    qed
  qed
  ultimately have "mailbox_inv q" using q(2) by (simp add: mailbox_inv_def)
  moreover have "settlement_core q = settlement_core p" using raw(11) by (simp add: settlement_core_def)
  moreover have "notifications ?p = notifications p" by simp
  note raw(10) [unfolded this]
  ultimately show ?thesis using q(1,3) f(2) by (auto simp: commit_line_def)
qed

section \<open>Claims and direct deliveries\<close>

text \<open>Moving one pending entry to a state that is not a supersession.\<close>

lemma mailbox_inv_set_entry:
  assumes inv: "mailbox_inv p" and e: "get_entry p r m = Some e"
    and st: "\<forall>new t. st \<noteq> EntrySuperseded new t"
    and set: "set_entry_state p1 r m st = Some q"
    and p1: "mailboxes p1 = mailboxes p" "mailbox_index p1 = mailbox_index p" "messages p1 = messages p"
      "idempotency_index p1 = idempotency_index p" "workspace_id p1 = workspace_id p" "seq_of p \<le> seq_of p1"
    and claims: "\<forall>k. k \<noteq> (r, m) \<longrightarrow> hm_get (claim_sequences p1) k = hm_get (claim_sequences p) k"
      "claim_recorded p1 r m (e\<lparr> me_state := st \<rparr>)"
  shows "mailbox_inv q \<and> get_entry q = (get_entry p)(r := (get_entry p r)(m := Some (e\<lparr> me_state := st \<rparr>)))"
proof -
  have ge1: "get_entry p1 = get_entry p" by (simp add: get_entry_def p1 fun_eq_iff)
  have ok1: "entries_ok p1" using inv by (simp add: mailbox_inv_def entries_ok_def p1 ge1)
  note eff = set_entry_state_effect [OF ok1 set]
  have ge: "get_entry q = (get_entry p)(r := (get_entry p r)(m := Some (e\<lparr> me_state := st \<rparr>)))"
    unfolding eff(2) ge1 by (auto simp: fun_eq_iff e)
  have f: "mailbox_index q = mailbox_index p" "messages q = messages p" "idempotency_index q = idempotency_index p"
    "claim_sequences q = claim_sequences p1" "workspace_id q = workspace_id p" "seq_of q = seq_of p1"
    using eff(3) p1 by (auto simp: seq_of_def)
  have "index_ok q" "idempotency_ok q"
    using inv by (simp_all add: mailbox_inv_def index_ok_def idempotency_ok_def keyed_def f)
  moreover have "messages_ok q"
    using inv p1(6) unfolding mailbox_inv_def messages_ok_def message_ok_def f by (meson order_trans)
  moreover have "claims_ok q"
  proof -
    have "claim_recorded q r' m' e'" if e': "get_entry q r' m' = Some e'" for r' m' e'
    proof (cases "r' = r \<and> m' = m")
      case True
      then show ?thesis using e' claims(2) unfolding claim_recorded_def f by (auto simp: ge)
    next
      case False
      then have "claim_recorded p r' m' e'" using e' inv by (auto simp: ge mailbox_inv_def claims_ok_def split: if_splits)
      moreover have "hm_get (claim_sequences q) (r', m') = hm_get (claim_sequences p) (r', m')"
        using claims(1) False f(4) by auto
      ultimately show ?thesis
        using p1(6) f(6) by (auto simp: claim_recorded_def split: mailbox_entry_state.splits)
    qed
    moreover have "hm_get (claim_sequences q) (r', m') = None" if "get_entry q r' m' = None" for r' m'
    proof -
      have "(r', m') \<noteq> (r, m)" "get_entry p r' m' = None" using that by (auto simp: ge split: if_splits)
      then show ?thesis using claims(1) inv f(4) by (simp add: mailbox_inv_def claims_ok_def)
    qed
    ultimately show ?thesis by (simp add: claims_ok_def)
  qed
  moreover have "supersessions_ok q"
    using inv st e unfolding mailbox_inv_def supersessions_ok_def ge f
    by (auto simp: fun_upd_def split: if_split_asm)
  ultimately show ?thesis using eff(1) ge by (simp add: mailbox_inv_def)
qed

lemma mailbox_core_claim_update: "mailbox_core (commit_claim_update up p) = mailbox_core p"
  by (simp add: commit_claim_update_def mailbox_core_def Let_def split: option.split)

lemma seq_of_claim_update [simp]: "seq_of (commit_claim_update up p) = seq_of p"
  by (simp add: commit_claim_update_def seq_of_def Let_def split: option.split)

lemma claim_effect:
  assumes inv: "mailbox_inv p" and seq: "ln_seq line = Suc (seq_of p)" and pend: "pending_entry p r m"
  obtains q1 e where
    "commit_line p line (PreparedClaim m r r up) = Some (commit_claim_update up q1)"
    "mailbox_inv q1" "get_entry p r m = Some e" "me_state e = Pending"
    "get_entry q1 = (get_entry p)(r := (get_entry p r)(m := Some (e\<lparr> me_state := Claimed r (ln_ts line) \<rparr>)))"
    "\<exists>mbs. q1 = p\<lparr> last_workspace_seq := Some (ln_seq line), claim_sequences := hm_insert (r, m) (ln_seq line) (claim_sequences p), mailboxes := mbs \<rparr>"
proof -
  obtain e where e: "get_entry p r m = Some e" "me_state e = Pending"
    using pend by (auto simp: pending_entry_def)
  let ?p1 = "p\<lparr> last_workspace_seq := Some (ln_seq line), claim_sequences := hm_insert (r, m) (ln_seq line) (claim_sequences p) \<rparr>"
  have "get_entry ?p1 r m \<noteq> None" using e by (simp add: get_entry_def)
  then obtain q1 where q1: "set_entry_state ?p1 r m (Claimed r (ln_ts line)) = Some q1"
    using set_entry_state_Some_iff by blast
  have "me_seq e \<le> seq_of p" using entry_ids inv e(1) index_bound [OF inv] unfolding mailbox_inv_def by blast
  then have rec: "claim_recorded ?p1 r m (e\<lparr> me_state := Claimed r (ln_ts line) \<rparr>)"
    using seq by (simp add: claim_recorded_def seq_of_def)
  have ok1: "entries_ok ?p1" using inv by (simp add: mailbox_inv_def entries_ok_def get_entry_def)
  from mailbox_inv_set_entry [OF inv e(1) _ q1] rec seq have
    "mailbox_inv q1" "get_entry q1 = (get_entry p)(r := (get_entry p r)(m := Some (e\<lparr> me_state := Claimed r (ln_ts line) \<rparr>)))"
    by (simp_all add: seq_of_def)
  moreover have "commit_line p line (PreparedClaim m r r up) = Some (commit_claim_update up q1)"
    using q1 by (simp add: commit_line_def commit_claim_def Let_def)
  moreover have "\<exists>mbs. q1 = p\<lparr> last_workspace_seq := Some (ln_seq line), claim_sequences := hm_insert (r, m) (ln_seq line) (claim_sequences p), mailboxes := mbs \<rparr>"
    using set_entry_state_effect(3) [OF ok1 q1] .
  ultimately show thesis using that [OF _ _ e] by blast
qed

lemma direct_effect:
  assumes inv: "mailbox_inv p" and seq: "ln_seq line = Suc (seq_of p)" and pend: "pending_entry p r m"
  obtains q e where "commit_line p line (PreparedDeliveredDirect m r a) = Some q"
    "mailbox_inv q" "get_entry p r m = Some e" "me_state e = Pending"
    "get_entry q = (get_entry p)(r := (get_entry p r)(m := Some (e\<lparr> me_state := DeliveredDirect a (ln_ts line) \<rparr>)))"
    "\<exists>mbs. q = p\<lparr> last_workspace_seq := Some (ln_seq line), mailboxes := mbs \<rparr>"
proof -
  obtain e where e: "get_entry p r m = Some e" "me_state e = Pending"
    using pend by (auto simp: pending_entry_def)
  let ?p1 = "p\<lparr> last_workspace_seq := Some (ln_seq line) \<rparr>"
  have "get_entry ?p1 r m \<noteq> None" using e by (simp add: get_entry_def)
  then obtain q where q: "set_entry_state ?p1 r m (DeliveredDirect a (ln_ts line)) = Some q"
    using set_entry_state_Some_iff by blast
  have "claim_recorded p r m e" using inv e by (simp add: mailbox_inv_def claims_ok_def)
  then have rec: "claim_recorded ?p1 r m (e\<lparr> me_state := DeliveredDirect a (ln_ts line) \<rparr>)"
    using e by (simp add: claim_recorded_def)
  have ok1: "entries_ok ?p1" using inv by (simp add: mailbox_inv_def entries_ok_def get_entry_def)
  from mailbox_inv_set_entry [OF inv e(1) _ q] rec seq have
    "mailbox_inv q" "get_entry q = (get_entry p)(r := (get_entry p r)(m := Some (e\<lparr> me_state := DeliveredDirect a (ln_ts line) \<rparr>)))"
    by (simp_all add: seq_of_def)
  moreover have "commit_line p line (PreparedDeliveredDirect m r a) = Some q"
    using q by (simp add: commit_line_def)
  moreover have "\<exists>mbs. q = p\<lparr> last_workspace_seq := Some (ln_seq line), mailboxes := mbs \<rparr>"
    using set_entry_state_effect(3) [OF ok1 q] .
  ultimately show thesis using that [OF _ _ e] by blast
qed

section \<open>Rows about attempts leave the mailboxes alone\<close>

lemma mailbox_core_requeues: "mailbox_core (fold commit_requeue records p) = mailbox_core p"
  by (induction records arbitrary: p) (simp_all add: commit_requeue_def mailbox_core_def)

lemma seq_of_requeues [simp]: "seq_of (fold commit_requeue records p) = seq_of p"
  by (induction records arbitrary: p) (simp_all add: commit_requeue_def seq_of_def)

lemma requeues_last_seq: "last_workspace_seq (fold commit_requeue records p) = last_workspace_seq p"
  by (induction records arbitrary: p) (simp_all add: commit_requeue_def)

lemma mailbox_core_notification: "mailbox_core (commit_notification p line k rec new) = mailbox_core p"
  by (simp add: commit_notification_def commit_write_boundary_def mailbox_core_def Let_def)

lemma seq_of_notification [simp]: "seq_of (commit_notification p line k rec new) = seq_of p"
  by (simp add: commit_notification_def commit_write_boundary_def seq_of_def Let_def)

text \<open>The mutations that rows about attempts prepare.\<close>

fun is_attempt_mutation :: "prepared_mutation \<Rightarrow> bool" where
  "is_attempt_mutation (PreparedMessage m md up) = False"
| "is_attempt_mutation (PreparedClaim m r c up) = False"
| "is_attempt_mutation (PreparedDeliveredDirect m r a) = False"
| "is_attempt_mutation pm = True"

lemma attempt_mutation_core:
  assumes "is_attempt_mutation pm"
  shows "\<exists>q. commit_line p line pm = Some q \<and> mailbox_core q = mailbox_core p \<and> seq_of q = ln_seq line"
proof -
  have s: "seq_of (p\<lparr> last_workspace_seq := Some (ln_seq line) \<rparr>) = ln_seq line" by (simp add: seq_of_def)
  show ?thesis
    using assms by (cases pm) (simp_all add: commit_line_def mailbox_core_notification mailbox_core_requeues s,
        simp_all add: mailbox_core_def seq_of_def set_notification_def remove_barrier_def commit_resolved_def)
qed

lemma set_entry_state_last_seq: "set_entry_state p r m st = Some q \<Longrightarrow> last_workspace_seq q = last_workspace_seq p"
  by (auto simp: set_entry_state_def bind_eq_Some_conv)

lemma add_entry_last_seq [simp]: "last_workspace_seq (add_entry m line r p) = last_workspace_seq p"
  by (simp add: add_entry_def Let_def)

lemma add_entries_last_seq [simp]: "last_workspace_seq (fold (add_entry m line) rs p) = last_workspace_seq p"
  by (induction rs arbitrary: p) simp_all

lemma commit_line_last_seq:
  assumes "commit_line p line pm = Some q"
  shows "last_workspace_seq q = Some (ln_seq line)"
proof (cases "is_attempt_mutation pm")
  case True
  then show ?thesis
    using assms by (cases pm) (auto simp: commit_line_def commit_notification_def commit_write_boundary_def
        set_notification_def remove_barrier_def commit_resolved_def Let_def requeues_last_seq)
next
  case False
  then show ?thesis
    using assms
    by (cases pm) (auto simp: commit_line_def commit_message_def commit_superseded_entry_def commit_claim_def
        commit_claim_update_def bind_eq_Some_conv Let_def dest!: set_entry_state_last_seq
        split: option.splits list.splits)
qed

text \<open>The entries after a line, as a function of those before.\<close>

fun entry_effect :: "ledger_line \<Rightarrow> prepared_mutation \<Rightarrow>
    (recipient_key \<Rightarrow> message_id \<Rightarrow> mailbox_entry option) \<Rightarrow> recipient_key \<Rightarrow> message_id \<Rightarrow> mailbox_entry option" where
  "entry_effect line (PreparedMessage m md up) E =
     (\<lambda>r m'. if r \<in> set (md_recipients md) \<and> m' = m then Some (new_entry m line r)
       else map_option (superseded_entry md m line r m') (E r m'))"
| "entry_effect line (PreparedClaim m r c up) E =
     E(r := (E r)(m := map_option (\<lambda>e. e\<lparr> me_state := Claimed c (ln_ts line) \<rparr>) (E r m)))"
| "entry_effect line (PreparedDeliveredDirect m r a) E =
     E(r := (E r)(m := map_option (\<lambda>e. e\<lparr> me_state := DeliveredDirect a (ln_ts line) \<rparr>) (E r m)))"
| "entry_effect line pm E = E"

fun message_effect :: "ledger_line \<Rightarrow> prepared_mutation \<Rightarrow> (message_id, ledger_line) hash_map \<Rightarrow>
    (message_id, ledger_line) hash_map" where
  "message_effect line (PreparedMessage m md up) ms = hm_insert m line ms"
| "message_effect line pm ms = ms"

lemma attempt_mutation_effects:
  "is_attempt_mutation pm \<Longrightarrow> entry_effect line pm E = E \<and> message_effect line pm ms = ms"
  by (cases pm) auto

theorem mailbox_step:
  assumes inv: "mailbox_inv p" and legal: "legal p line pm" and seq: "ln_seq line = Suc (seq_of p)"
  obtains q where "commit_line p line pm = Some q" "mailbox_inv q" "seq_of q = ln_seq line"
    "get_entry q = entry_effect line pm (get_entry p)" "messages q = message_effect line pm (messages p)"
proof -
  have "\<exists>q. commit_line p line pm = Some q \<and> mailbox_inv q \<and>
    get_entry q = entry_effect line pm (get_entry p) \<and> messages q = message_effect line pm (messages p)"
  proof (cases "is_attempt_mutation pm")
    case True
    obtain q where q: "commit_line p line pm = Some q" and core: "mailbox_core q = mailbox_core p"
      and s: "seq_of q = ln_seq line" using attempt_mutation_core [OF True] by blast
    have "mailbox_inv q" using mailbox_inv_core [OF core _ inv] s seq by simp
    moreover have "messages q = messages p" using core by (simp add: mailbox_core_def)
    ultimately show ?thesis using q get_entry_core [OF core] attempt_mutation_effects [OF True] by simp
  next
    case False
    from legal show ?thesis
    proof (cases rule: legal.cases)
      case (message m md)
      from mailbox_inv_message [OF inv seq message(2-12), of "superseded_notification p line md"] show ?thesis
        unfolding message(1) entry_effect.simps message_effect.simps by blast
    next
      case (claim r m)
      obtain q1 e where q1: "commit_line p line pm = Some (commit_claim_update (claim_notification_update p line r m) q1)"
        "mailbox_inv q1" and e: "get_entry p r m = Some e"
        "get_entry q1 = (get_entry p)(r := (get_entry p r)(m := Some (e\<lparr> me_state := Claimed r (ln_ts line) \<rparr>)))"
        and f: "\<exists>mbs. q1 = p\<lparr> last_workspace_seq := Some (ln_seq line), claim_sequences := hm_insert (r, m) (ln_seq line) (claim_sequences p), mailboxes := mbs \<rparr>"
        using claim_effect [OF inv seq claim(3), of "claim_notification_update p line r m"] claim(1) by metis
      note core = mailbox_core_claim_update [of "claim_notification_update p line r m" q1]
      have "messages q1 = messages p" using f by auto
      then show ?thesis
        using q1 e get_entry_core [OF core] mailbox_inv_core [OF core _ q1(2)] core claim(1)
        by (simp add: mailbox_core_def)
    next
      case (direct r m c a)
      obtain q e where "commit_line p line pm = Some q" "mailbox_inv q" and e: "get_entry p r m = Some e"
        "get_entry q = (get_entry p)(r := (get_entry p r)(m := Some (e\<lparr> me_state := DeliveredDirect a (ln_ts line) \<rparr>)))"
        and f: "\<exists>mbs. q = p\<lparr> last_workspace_seq := Some (ln_seq line), mailboxes := mbs \<rparr>"
        using direct_effect [OF inv seq direct(2), of a] direct(1) by metis
      moreover from f have "messages q = messages p" by auto
      ultimately show ?thesis using direct(1) by simp
    qed (use False in simp_all)
  qed
  then show thesis using that commit_line_last_seq by (metis option.simps(5) seq_of_def)
qed

end
