(* ===== verification/Attempt_Invariant.thy ===== *)
theory Attempt_Invariant
  imports Mailbox_Invariant
begin

text \<open>
  The notification half of the projection: the current attempt of each entry, the composer
  barriers of attempts that may have written to a pane, and the operator's resolutions.
  \<open>attempt_inv\<close> holds of every projection built from a journal.
\<close>

section \<open>The invariant\<close>

text \<open>States of a write that a doorbell may have left traces of in the composer.\<close>

definition bound_states :: "notification_state set" where
  "bound_states = {Writing, Staged, Submitting, Submitted, SubmittedUnverified, AttentionRequired}"

text \<open>What one current record says of itself.\<close>

definition record_ok :: "nat \<Rightarrow> recipient_key \<Rightarrow> message_id \<Rightarrow> notification_record \<Rightarrow> bool" where
  "record_ok seq r m c \<longleftrightarrow>
     nr_recipient c = r \<and> nr_message_id c = m \<and>
     nr_pre_write_reopen_count c \<le> 1 \<and> nr_unclaimed_reminder_count c \<le> 1 \<and>
     (\<forall>b. nr_binding c = Some b \<longrightarrow> bd_recipient b = r) \<and>
     (nr_state c \<in> bound_states \<and> nr_transport c \<noteq> Raw \<longrightarrow> nr_binding c \<noteq> None) \<and>
     (nr_cause c \<noteq> None \<longleftrightarrow> nr_state c = AttentionRequired) \<and>
     (nr_state c = BlockedPreWrite \<longrightarrow> nr_pre_write_cause c \<noteq> None) \<and>
     nr_started_seq c \<le> nr_updated_seq c \<and> nr_updated_seq c \<le> seq"

text \<open>Attempt ids name one current record each, and are all remembered.\<close>

definition attempts_ok :: "mailbox_projection \<Rightarrow> bool" where
  "attempts_ok p \<longleftrightarrow>
     hm_ok (notifications p) \<and>
     (\<forall>r m c. hm_get (notifications p) (r, m) = Some c \<longrightarrow>
        record_ok (seq_of p) r m c \<and> get_entry p r m \<noteq> None \<and> hs_contains (notification_attempts p) (nr_attempt_id c)) \<and>
     (\<forall>k k' c c'. hm_get (notifications p) k = Some c \<longrightarrow> hm_get (notifications p) k' = Some c' \<longrightarrow>
        nr_attempt_id c = nr_attempt_id c' \<longrightarrow> k = k')"

definition barrier_ok :: "mailbox_projection \<Rightarrow> attempt_id \<Rightarrow> notification_record \<Rightarrow> bool" where
  "barrier_ok p a b \<longleftrightarrow>
     nr_attempt_id b = a \<and> hs_contains (notification_attempts p) a \<and> nr_binding b \<noteq> None \<and>
     past_write_boundary (nr_state b) \<and> hm_get (notification_write_sequences p) a \<noteq> None \<and>
     hm_get (resolved_attempts p) a = None \<and> get_entry p (nr_recipient b) (nr_message_id b) \<noteq> None \<and>
     (\<forall>k c. hm_get (notifications p) k = Some c \<longrightarrow> nr_attempt_id c = a \<longrightarrow> c = b)"

text \<open>One active barrier per recipient, in step with the current record of its attempt.\<close>

definition barriers_ok :: "mailbox_projection \<Rightarrow> bool" where
  "barriers_ok p \<longleftrightarrow>
     hm_ok (active_notification_barriers p) \<and>
     (\<forall>a b. hm_get (active_notification_barriers p) a = Some b \<longrightarrow> barrier_ok p a b) \<and>
     (\<forall>a a' b b'. hm_get (active_notification_barriers p) a = Some b \<longrightarrow>
        hm_get (active_notification_barriers p) a' = Some b' \<longrightarrow> nr_recipient b = nr_recipient b' \<longrightarrow> a = a') \<and>
     (\<forall>a s. hm_get (notification_write_sequences p) a = Some s \<longrightarrow>
        s \<le> seq_of p \<and> hs_contains (notification_attempts p) a)"

text \<open>A resolved attempt stays in attention until a requeue replaces it.\<close>

definition resolved_ok :: "mailbox_projection \<Rightarrow> bool" where
  "resolved_ok p \<longleftrightarrow>
     (\<forall>a res. hm_get (resolved_attempts p) a = Some res \<longrightarrow> hs_contains (notification_attempts p) a) \<and>
     (\<forall>k c. hm_get (notifications p) k = Some c \<longrightarrow> hm_get (resolved_attempts p) (nr_attempt_id c) \<noteq> None \<longrightarrow>
        nr_state c = AttentionRequired)"

text \<open>Each stage of a resolution rests on the one before.\<close>

definition stages_ok :: "mailbox_projection \<Rightarrow> bool" where
  "stages_ok p \<longleftrightarrow>
     (\<forall>a res. hm_get (resolution_actions_accepted p) a = Some res \<longrightarrow> hm_get (resolution_intents p) a = Some res) \<and>
     (\<forall>a ob. hm_get (resolution_consumptions p) a = Some ob \<longrightarrow>
        hm_get (resolution_actions_accepted p) a = Some Complete) \<and>
     (\<forall>a res. hm_get (resolution_action_reservations p) a = Some res \<longrightarrow>
        res = Complete \<and> hm_get (resolution_intents p) a = Some Complete) \<and>
     (\<forall>a. hs_contains (forced_resolution_intents p) a \<longrightarrow> hm_get (resolution_intents p) a = Some Complete) \<and>
     (\<forall>a res. hm_get (resolution_intents p) a = Some res \<longrightarrow> hs_contains (notification_attempts p) a) \<and>
     (\<forall>a. hs_contains (cleared_attempts p) a \<longrightarrow> hs_contains (notification_attempts p) a)"

definition attempt_inv :: "mailbox_projection \<Rightarrow> bool" where
  "attempt_inv p \<longleftrightarrow> attempts_ok p \<and> barriers_ok p \<and> resolved_ok p \<and> stages_ok p"

lemma attempt_invD:
  assumes "attempt_inv p" and "hm_get (notifications p) (r, m) = Some c"
  shows "record_ok (seq_of p) r m c" "get_entry p r m \<noteq> None" "hs_contains (notification_attempts p) (nr_attempt_id c)"
    "nr_recipient c = r" "nr_message_id c = m"
  using assms by (auto simp: attempt_inv_def attempts_ok_def record_ok_def)

lemma attempt_inv_unique:
  "attempt_inv p \<Longrightarrow> hm_get (notifications p) k = Some c \<Longrightarrow> hm_get (notifications p) k' = Some c' \<Longrightarrow>
   nr_attempt_id c = nr_attempt_id c' \<Longrightarrow> k = k'"
  unfolding attempt_inv_def attempts_ok_def by blast

lemma attempt_inv_barrier:
  "attempt_inv p \<Longrightarrow> hm_get (active_notification_barriers p) a = Some b \<Longrightarrow> barrier_ok p a b"
  unfolding attempt_inv_def barriers_ok_def by blast

lemma attempt_inv_no_barrier:
  assumes "attempt_inv p" and "hm_get (notifications p) k = Some c"
    and "\<not> past_write_boundary (nr_state c) \<or> nr_binding c = None"
  shows "hm_get (active_notification_barriers p) (nr_attempt_id c) = None"
proof (cases "hm_get (active_notification_barriers p) (nr_attempt_id c)")
  case (Some b)
  then have "barrier_ok p (nr_attempt_id c) b" using attempt_inv_barrier assms(1) by blast
  then have "c = b" "past_write_boundary (nr_state b)" "nr_binding b \<noteq> None"
    using assms(2) unfolding barrier_ok_def by blast+
  with assms(3) show ?thesis by auto
qed

lemma record_ok_mono: "record_ok s r m c \<Longrightarrow> s \<le> s' \<Longrightarrow> record_ok s' r m c"
  by (auto simp: record_ok_def)

section \<open>Three ways a line changes the invariant's state\<close>

text \<open>What the operator's rows change.\<close>

definition operator_core :: "mailbox_projection \<Rightarrow> _" where
  "operator_core p =
     (cleared_attempts p, resolved_attempts p, resolution_intents p, forced_resolution_intents p,
      resolution_action_reservations p, resolution_actions_accepted p, resolution_consumptions p)"

text \<open>Entries are never removed.\<close>

definition grows :: "mailbox_projection \<Rightarrow> mailbox_projection \<Rightarrow> bool" where
  "grows p q \<longleftrightarrow> seq_of p \<le> seq_of q \<and> (\<forall>r m. get_entry p r m \<noteq> None \<longrightarrow> get_entry q r m \<noteq> None)"

text \<open>The current record of a key moves on, with its barrier.\<close>

lemma attempt_inv_update:
  assumes inv: "attempt_inv p" and grows: "grows p q"
    and c: "hm_get (notifications p) (r, m) = Some c"
    and rec: "record_ok (seq_of q) r m rec" "nr_attempt_id rec = nr_attempt_id c"
    and recs: "notifications q = hm_insert (r, m) rec (notifications p)"
    and atts: "notification_attempts q = notification_attempts p"
    and oper: "operator_core q = operator_core p"
    and kept: "hm_get (resolved_attempts p) (nr_attempt_id c) = None \<or> nr_state rec = AttentionRequired"
    and bok: "hm_ok (active_notification_barriers q)"
    and others: "\<And>a b. a \<noteq> nr_attempt_id c \<Longrightarrow> hm_get (active_notification_barriers q) a = Some b \<Longrightarrow>
        hm_get (active_notification_barriers p) a = Some b"
    and own: "hm_get (active_notification_barriers q) (nr_attempt_id c) = None \<or>
        (hm_get (active_notification_barriers q) (nr_attempt_id c) = Some rec \<and> nr_binding rec \<noteq> None \<and>
         past_write_boundary (nr_state rec) \<and> hm_get (notification_write_sequences q) (nr_attempt_id c) \<noteq> None \<and>
         hm_get (resolved_attempts p) (nr_attempt_id c) = None \<and>
         (\<forall>a b. a \<noteq> nr_attempt_id c \<longrightarrow> hm_get (active_notification_barriers q) a = Some b \<longrightarrow> nr_recipient b \<noteq> r))"
    and writes: "\<And>a. a \<noteq> nr_attempt_id c \<Longrightarrow>
        hm_get (notification_write_sequences q) a = hm_get (notification_write_sequences p) a"
      "\<And>s. hm_get (notification_write_sequences q) (nr_attempt_id c) = Some s \<Longrightarrow> s \<le> seq_of q"
  shows "attempt_inv q"
proof -
  let ?a = "nr_attempt_id c"
  have r: "nr_recipient rec = r" "nr_message_id rec = m" using rec by (auto simp: record_ok_def)
  have a: "hs_contains (notification_attempts p) ?a" "get_entry p r m \<noteq> None" using attempt_invD [OF inv c] by auto
  have uniq: "k = (r, m)" if "hm_get (notifications p) k = Some c'" "nr_attempt_id c' = ?a" for k c'
    using attempt_inv_unique [OF inv that(1) c] that(2) by simp
  have "attempts_ok q"
  proof -
    have "record_ok (seq_of q) r' m' c'" if "hm_get (notifications p) (r', m') = Some c'" for r' m' c'
      using attempt_invD(1) [OF inv that] grows by (auto simp: grows_def intro: record_ok_mono)
    then show ?thesis
      using inv rec(1,2) a grows uniq unfolding attempts_ok_def recs atts
      by (auto simp: attempt_inv_def attempts_ok_def grows_def split: if_splits)
  qed
  moreover have "barrier_ok q a' b" if b: "hm_get (active_notification_barriers q) a' = Some b" for a' b
  proof (cases "a' = ?a")
    case True
    then have "b = rec" using own b by auto
    with True own b show ?thesis
      using a rec(2) r grows uniq oper by (auto simp: barrier_ok_def atts recs grows_def operator_core_def)
  next
    case False
    then have "barrier_ok p a' b" using attempt_inv_barrier inv others b by blast
    then show ?thesis
      using False grows writes(1) oper rec(2)
      by (auto simp: barrier_ok_def atts recs grows_def operator_core_def)
  qed
  moreover have "a1 = a2" if "hm_get (active_notification_barriers q) a1 = Some b1"
    "hm_get (active_notification_barriers q) a2 = Some b2" "nr_recipient b1 = nr_recipient b2" for a1 a2 b1 b2
  proof (cases "a1 = ?a \<or> a2 = ?a")
    case True
    then show ?thesis using own that r(1) by force
  next
    case False
    then show ?thesis using that others inv unfolding attempt_inv_def barriers_ok_def by blast
  qed
  moreover have "s \<le> seq_of q \<and> hs_contains (notification_attempts q) a'"
    if "hm_get (notification_write_sequences q) a' = Some s" for a' s
  proof (cases "a' = ?a")
    case True
    then show ?thesis using that writes(2) a(1) atts by simp
  next
    case False
    then have "hm_get (notification_write_sequences p) a' = Some s" using that writes(1) by simp
    then have "s \<le> seq_of p" "hs_contains (notification_attempts p) a'"
      using inv unfolding attempt_inv_def barriers_ok_def by blast+
    then show ?thesis using grows atts by (simp add: grows_def)
  qed
  ultimately have "barriers_ok q" using bok unfolding barriers_ok_def by blast
  moreover have "resolved_ok q"
    unfolding resolved_ok_def recs atts
  proof (intro conjI allI impI)
    fix a' res assume "hm_get (resolved_attempts q) a' = Some res"
    then show "hs_contains (notification_attempts p) a'"
      using inv oper unfolding attempt_inv_def resolved_ok_def operator_core_def by simp
  next
    fix k c' assume "hm_get (hm_insert (r, m) rec (notifications p)) k = Some c'"
      "hm_get (resolved_attempts q) (nr_attempt_id c') \<noteq> None"
    then show "nr_state c' = AttentionRequired"
      using kept inv oper rec(2) unfolding attempt_inv_def resolved_ok_def operator_core_def
      by (cases k) (auto split: if_splits)
  qed
  moreover have "stages_ok q"
    using inv oper by (simp add: attempt_inv_def stages_ok_def atts operator_core_def)
  ultimately show ?thesis using \<open>attempts_ok q\<close> by (simp add: attempt_inv_def)
qed

text \<open>A fresh attempt becomes the current one of its key.\<close>

lemma attempt_inv_new:
  assumes inv: "attempt_inv p" and grows: "grows p q"
    and fresh: "\<not> hs_contains (notification_attempts p) a" and entry: "get_entry p r m \<noteq> None"
    and recs: "notifications q = hm_insert (r, m) (queued_record a m r line) (notifications p)"
    and atts: "notification_attempts q = hs_insert a (notification_attempts p)"
    and oper: "operator_core q = operator_core p"
    and writes: "active_notification_barriers q = active_notification_barriers p"
      "notification_write_sequences q = notification_write_sequences p"
    and seq: "ln_seq line \<le> seq_of q"
  shows "attempt_inv q"
proof -
  let ?rec = "queued_record a m r line"
  have rec: "record_ok (seq_of q) r m ?rec" "nr_attempt_id ?rec = a"
    using seq by (simp_all add: record_ok_def queued_record_def bound_states_def)
  have unused: "nr_attempt_id c \<noteq> a" if "hm_get (notifications p) k = Some c" for k c
    using that inv fresh by (cases k) (auto dest: attempt_invD(3))
  have "attempts_ok q"
  proof -
    have "record_ok (seq_of q) r' m' c' \<and> get_entry q r' m' \<noteq> None \<and> hs_contains (notification_attempts q) (nr_attempt_id c')"
      if "hm_get (notifications q) (r', m') = Some c'" for r' m' c'
    proof (cases "(r', m') = (r, m)")
      case True
      then show ?thesis using that rec entry grows by (auto simp: recs atts grows_def)
    next
      case False
      then have "hm_get (notifications p) (r', m') = Some c'" using that by (auto simp: recs)
      from attempt_invD(1-3) [OF inv this] show ?thesis
        using grows by (auto simp: atts grows_def intro: record_ok_mono)
    qed
    moreover have "k = k'" if "hm_get (notifications q) k = Some c" "hm_get (notifications q) k' = Some c'"
        "nr_attempt_id c = nr_attempt_id c'" for k k' c c'
    proof -
      have "(k = (r, m) \<and> c = ?rec) \<or> hm_get (notifications p) k = Some c"
        "(k' = (r, m) \<and> c' = ?rec) \<or> hm_get (notifications p) k' = Some c'"
        using that(1,2) by (auto simp: recs split: if_splits)
      then show ?thesis using that(3) unused rec(2) attempt_inv_unique [OF inv] by metis
    qed
    moreover have "hm_ok (notifications q)" using inv by (simp add: recs attempt_inv_def attempts_ok_def)
    ultimately show ?thesis unfolding attempts_ok_def by blast
  qed
  moreover have "barrier_ok q a' b" if b: "hm_get (active_notification_barriers q) a' = Some b" for a' b
  proof -
    have old: "barrier_ok p a' b" using attempt_inv_barrier inv b writes by auto
    then have "a' \<noteq> a" using fresh by (auto simp: barrier_ok_def)
    then show ?thesis
      using old grows oper rec(2) by (auto simp: barrier_ok_def atts recs writes grows_def operator_core_def)
  qed
  then have "barriers_ok q"
    using inv grows unfolding attempt_inv_def barriers_ok_def atts writes grows_def
    by (meson hs_contains_insert order_trans)
  moreover have "hm_get (resolved_attempts p) a = None"
    using inv fresh unfolding attempt_inv_def resolved_ok_def by (meson not_None_eq)
  then have "resolved_ok q"
    using inv oper rec(2) unfolding attempt_inv_def resolved_ok_def operator_core_def recs atts
    by (simp split: if_split)
  moreover have "stages_ok q"
    using inv oper unfolding attempt_inv_def stages_ok_def atts operator_core_def by auto
  ultimately show ?thesis by (simp add: attempt_inv_def)
qed

text \<open>Nothing but the sequence number, the entries and the operator's rows change.\<close>

lemma attempt_inv_keep:
  assumes inv: "attempt_inv p" and grows: "grows p q"
    and same: "notifications q = notifications p" "notification_attempts q = notification_attempts p"
      "notification_write_sequences q = notification_write_sequences p"
    and bok: "hm_ok (active_notification_barriers q)"
    and fewer: "\<And>a b. hm_get (active_notification_barriers q) a = Some b \<Longrightarrow>
        hm_get (active_notification_barriers p) a = Some b \<and> hm_get (resolved_attempts q) a = None"
    and oper: "resolved_ok q" "stages_ok q"
  shows "attempt_inv q"
proof -
  have "record_ok (seq_of q) r' m' c'" if "hm_get (notifications p) (r', m') = Some c'" for r' m' c'
    using attempt_invD(1) [OF inv that] grows by (auto simp: grows_def intro: record_ok_mono)
  then have "attempts_ok q"
    using inv grows unfolding attempt_inv_def attempts_ok_def same grows_def by blast
  moreover have "barrier_ok q a b" if "hm_get (active_notification_barriers q) a = Some b" for a b
    using attempt_inv_barrier [OF inv] fewer [OF that] grows by (auto simp: barrier_ok_def same grows_def)
  then have "barriers_ok q"
    using inv grows bok fewer unfolding attempt_inv_def barriers_ok_def same grows_def by (meson order_trans)
  ultimately show ?thesis using oper by (simp add: attempt_inv_def)
qed

section \<open>Transitions\<close>

text \<open>What the checks of a transition establish about the edge it takes.\<close>

lemma transition_checked_allowed:
  "transition_checked p (Some c) f replaying \<Longrightarrow>
     notification_transition_allowed c (tf_state f) (tf_pre_write_cause f) replaying"
  by (auto simp: transition_checked_def check_transition_edge_def result_simps)

lemma transition_edge:
  assumes "transition_checked p (Some c) f replaying"
  shows "nr_state c \<notin> {AttentionRequired, Notified, QuotaResetObserved, WithdrawnAfterStaging, WithdrawnByOperator, Superseded}"
    and "tf_state f = Writing \<Longrightarrow> \<not> past_write_boundary (nr_state c)"
    and "past_write_boundary (nr_state c) \<Longrightarrow> past_write_boundary (tf_state f) \<or> proves_unwritten f"
    and "tf_state f \<in> bound_states \<Longrightarrow> tf_state f \<noteq> Writing \<Longrightarrow> nr_state c \<in> bound_states"
proof -
  have a: "can_transition_to (nr_state c) (tf_state f) \<or> nr_state c = Writing \<and> proves_unwritten f \<or>
      nr_state c = Staged \<and> tf_state f = Submitted \<or> nr_state c = Withdrawn \<and> tf_state f \<in> {Gating, BlockedPreWrite, Writing}"
    using transition_checked_allowed [OF assms]
    by (auto simp: notification_transition_allowed_def withdrawn_by_claim_before_write_def proves_unwritten_def)
  show "nr_state c \<notin> {AttentionRequired, Notified, QuotaResetObserved, WithdrawnAfterStaging, WithdrawnByOperator, Superseded}"
    using a by auto
  show "tf_state f = Writing \<Longrightarrow> \<not> past_write_boundary (nr_state c)"
    using a by (cases "nr_state c") (auto simp: past_write_boundary_def proves_unwritten_def)
  show "past_write_boundary (nr_state c) \<Longrightarrow> past_write_boundary (tf_state f) \<or> proves_unwritten f"
    using a past_write_boundary_closed by (auto simp: past_write_boundary_def)
  show "tf_state f \<in> bound_states \<Longrightarrow> tf_state f \<noteq> Writing \<Longrightarrow> nr_state c \<in> bound_states"
    using a by (cases "nr_state c") (auto simp: bound_states_def proves_unwritten_def)
qed

lemma transition_record_fields:
  assumes "transition_checked p (Some c) f replaying"
  shows "tf_state f = Writing \<Longrightarrow> tf_binding f \<noteq> None \<or> tf_transport f = Some Raw"
    and "tf_binding f = Some b \<Longrightarrow> bd_recipient b = tf_recipient f"
    and "tf_cause f \<noteq> None \<longleftrightarrow> tf_state f = AttentionRequired"
    and "tf_state f = BlockedPreWrite \<longleftrightarrow> tf_pre_write_cause f \<noteq> None"
    and "nr_state c = BlockedPreWrite \<Longrightarrow> tf_state f = Gating \<Longrightarrow> nr_pre_write_reopen_count c = 0"
proof -
  have checks: "check_transition_edge (Some c) f replaying = Inr ()" "check_transition_binding f = Inr ()"
    "check_transition_cause (Some c) f replaying = Inr ()" "check_transition_block f = Inr ()"
    using assms by (auto simp: transition_checked_def check_transition_fields_def result_simps)
  show "tf_state f = Writing \<Longrightarrow> tf_binding f \<noteq> None \<or> tf_transport f = Some Raw"
    and "tf_binding f = Some b \<Longrightarrow> bd_recipient b = tf_recipient f"
    using checks(2) by (auto simp: check_transition_binding_def split: if_splits option.splits)
  show "tf_cause f \<noteq> None \<longleftrightarrow> tf_state f = AttentionRequired"
    using checks(3) by (auto simp: check_transition_cause_def result_simps split: if_splits)
  show "tf_state f = BlockedPreWrite \<longleftrightarrow> tf_pre_write_cause f \<noteq> None"
    using checks(4) by (auto simp: check_transition_block_def Let_def split: if_splits)
  show "nr_state c = BlockedPreWrite \<Longrightarrow> tf_state f = Gating \<Longrightarrow> nr_pre_write_reopen_count c = 0"
    using checks(1) by (auto simp: check_transition_edge_def result_simps)
qed

lemma advanced_record_ok:
  assumes c: "record_ok s r m c" and checked: "transition_checked p (Some c) f replaying"
    and ids: "tf_recipient f = r" "tf_message_id f = m" and seq: "s \<le> ln_seq line"
  shows "record_ok (ln_seq line) r m (advanced_record c f line)"
  unfolding record_ok_def
proof (intro conjI impI allI)
  note edge = transition_edge [OF checked] and fields = transition_record_fields [OF checked]
  let ?n = "advanced_record c f line"
  show "nr_recipient ?n = r" "nr_message_id ?n = m" using ids by (simp_all add: advanced_record_def)
  show "nr_pre_write_reopen_count ?n \<le> 1"
    using c fields(5) by (auto simp: advanced_record_def record_ok_def saturating_add_u8_def)
  show "nr_unclaimed_reminder_count ?n \<le> 1" using c by (simp add: advanced_record_def record_ok_def)
  show "bd_recipient b = r" if "nr_binding ?n = Some b" for b
    using that c ids fields(2) by (auto simp: advanced_record_def record_ok_def split: if_splits)
  show "(nr_cause ?n \<noteq> None) = (nr_state ?n = AttentionRequired)" using fields(3) by (simp add: advanced_record_def)
  show "nr_pre_write_cause ?n \<noteq> None" if "nr_state ?n = BlockedPreWrite"
    using that fields(4) by (simp add: advanced_record_def)
  show "nr_started_seq ?n \<le> nr_updated_seq ?n" using c seq by (simp add: advanced_record_def record_ok_def)
  show "nr_updated_seq ?n \<le> ln_seq line" by (simp add: advanced_record_def)
  show "nr_binding ?n \<noteq> None" if b: "nr_state ?n \<in> bound_states \<and> nr_transport ?n \<noteq> Raw"
  proof (cases "tf_state f = Writing")
    case True
    then have "tf_transport f \<noteq> Some Raw" using b by (auto simp: advanced_record_def transport_or_default_def)
    then show ?thesis using True fields(1) by (simp add: advanced_record_def)
  next
    case False
    have st: "tf_state f \<in> bound_states" using b by (simp add: advanced_record_def)
    then have n: "\<not> proves_unwritten f" "\<not> mailbox_close f"
      by (auto simp: bound_states_def proves_unwritten_def mailbox_close_def)
    then have "nr_transport c \<noteq> Raw" using b False by (simp add: advanced_record_def)
    then have "nr_binding c \<noteq> None" using edge(4) [OF st False] c by (simp add: record_ok_def)
    then show ?thesis using False n by (simp add: advanced_record_def)
  qed
qed

text \<open>What storing a record does to the barriers and write sequences.\<close>

lemma commit_notification_effect:
  assumes bok: "hm_ok (active_notification_barriers p)" and q_def: "q = commit_notification p line k rec new_attempt"
  shows "notifications q = hm_insert k rec (notifications p)"
    and "notification_attempts q =
      (if new_attempt then hs_insert (nr_attempt_id rec) (notification_attempts p) else notification_attempts p)"
    and "operator_core q = operator_core p"
    and "hm_ok (active_notification_barriers q)"
    and "hm_get (active_notification_barriers q) a =
      (if a = nr_attempt_id rec
       then (if proven_unwritten rec then None
             else if bound_write rec \<or> hm_get (active_notification_barriers p) a \<noteq> None then Some rec else None)
       else (case hm_get (active_notification_barriers p) a of
               None \<Rightarrow> None
             | Some b \<Rightarrow> if bound_write rec \<and> nr_recipient b = nr_recipient rec then None else Some b))"
    and "hm_get (notification_write_sequences q) a =
      (if a = nr_attempt_id rec
       then (if proven_unwritten rec then None
             else if bound_write rec then Some (ln_seq line) else hm_get (notification_write_sequences p) a)
       else hm_get (notification_write_sequences p) a)"
proof -
  have excl: "\<not> (bound_write rec \<and> proven_unwritten rec)" by (simp add: bound_write_def proven_unwritten_def)
  show "notifications q = hm_insert k rec (notifications p)"
    and "notification_attempts q =
      (if new_attempt then hs_insert (nr_attempt_id rec) (notification_attempts p) else notification_attempts p)"
    and "operator_core q = operator_core p"
    by (simp_all add: q_def commit_notification_def commit_write_boundary_def operator_core_def Let_def)
  show "hm_ok (active_notification_barriers q)"
    using bok by (simp add: q_def commit_notification_def commit_write_boundary_def Let_def)
  show "hm_get (active_notification_barriers q) a =
      (if a = nr_attempt_id rec
       then (if proven_unwritten rec then None
             else if bound_write rec \<or> hm_get (active_notification_barriers p) a \<noteq> None then Some rec else None)
       else (case hm_get (active_notification_barriers p) a of
               None \<Rightarrow> None
             | Some b \<Rightarrow> if bound_write rec \<and> nr_recipient b = nr_recipient rec then None else Some b))"
    using bok excl
    by (cases "bound_write rec"; cases "proven_unwritten rec"; cases "hm_get (active_notification_barriers p) a")
      (auto simp: q_def commit_notification_def commit_write_boundary_def Let_def hm_get_retain)
  show "hm_get (notification_write_sequences q) a =
      (if a = nr_attempt_id rec
       then (if proven_unwritten rec then None
             else if bound_write rec then Some (ln_seq line) else hm_get (notification_write_sequences p) a)
       else hm_get (notification_write_sequences p) a)"
    using excl by (auto simp: q_def commit_notification_def commit_write_boundary_def Let_def)
qed

lemma commit_line_notification:
  "commit_line p line (PreparedNotification k rec b) =
     Some (commit_notification (p\<lparr> last_workspace_seq := Some (ln_seq line) \<rparr>) line k rec b)"
  by (simp add: commit_line_def)

text \<open>An existing attempt moves to a state that keeps or drops its barrier.\<close>

lemma attempt_inv_notification:
  assumes inv: "attempt_inv p" and seq: "ln_seq line = Suc (seq_of p)"
    and c: "hm_get (notifications p) (r, m) = Some c" "nr_state c \<noteq> AttentionRequired"
    and rec: "record_ok (ln_seq line) r m rec" "nr_attempt_id rec = nr_attempt_id c"
    and keep: "hm_get (active_notification_barriers p) (nr_attempt_id c) \<noteq> None \<Longrightarrow> \<not> proven_unwritten rec \<Longrightarrow>
        past_write_boundary (nr_state rec) \<and> nr_binding rec \<noteq> None \<and> \<not> bound_write rec"
    and q: "commit_line p line (PreparedNotification (r, m) rec False) = Some q"
    and grows: "grows p q"
  shows "attempt_inv q"
proof -
  let ?p = "p\<lparr> last_workspace_seq := Some (ln_seq line) \<rparr>" and ?a = "nr_attempt_id c"
  have bok: "hm_ok (active_notification_barriers ?p)" using inv by (simp add: attempt_inv_def barriers_ok_def)
  have q': "q = commit_notification ?p line (r, m) rec False" using q by (simp add: commit_line_notification)
  note eff = commit_notification_effect [OF bok q', simplified]
  have seq_q: "seq_of q = ln_seq line" by (simp add: q' seq_of_def [of ?p])
  have res: "hm_get (resolved_attempts p) ?a = None"
    using inv c unfolding attempt_inv_def resolved_ok_def by blast
  have rr: "nr_recipient rec = r" using rec by (simp add: record_ok_def)
  have old: "barrier_ok p ?a b" if "hm_get (active_notification_barriers p) ?a = Some b" for b
    using attempt_inv_barrier inv that by blast
  show ?thesis
  proof (rule attempt_inv_update [OF inv grows c(1) _ rec(2)])
    show "record_ok (seq_of q) r m rec" using rec(1) by (simp add: seq_q)
    show "operator_core q = operator_core p" using eff(3) by (simp add: operator_core_def)
    show "hm_get (resolved_attempts p) ?a = None \<or> nr_state rec = AttentionRequired" using res by simp
    show "hm_get (active_notification_barriers p) a = Some b"
      if "a \<noteq> ?a" "hm_get (active_notification_barriers q) a = Some b" for a b
      using that rec(2) by (auto simp: eff(5) split: option.splits if_splits)
    show "s \<le> seq_of q" if "hm_get (notification_write_sequences q) ?a = Some s" for s
      using that inv rec(2) seq unfolding eff(6) seq_q attempt_inv_def barriers_ok_def
      by (auto split: if_splits intro: le_SucI)
    have "nr_recipient b \<noteq> r" if a: "a \<noteq> ?a" "hm_get (active_notification_barriers q) a = Some b"
      "hm_get (active_notification_barriers q) ?a = Some rec" for a b
    proof (cases "bound_write rec")
      case True
      then show ?thesis using a rec(2) rr by (auto simp: eff(5) split: option.splits if_splits)
    next
      case False
      then obtain b0 where b0: "hm_get (active_notification_barriers p) ?a = Some b0"
        using a(3) rec(2) by (auto simp: eff(5) split: if_splits)
      then have "nr_recipient b0 = r"
        using old c(1) inv attempt_invD(4) unfolding barrier_ok_def by blast
      moreover have "hm_get (active_notification_barriers p) a = Some b"
        using a rec(2) by (auto simp: eff(5) split: option.splits if_splits)
      ultimately show ?thesis using a(1) b0 inv unfolding attempt_inv_def barriers_ok_def by metis
    qed
    moreover have "nr_binding rec \<noteq> None \<and> past_write_boundary (nr_state rec) \<and>
        hm_get (notification_write_sequences q) ?a \<noteq> None"
      if "hm_get (active_notification_barriers q) ?a = Some rec"
    proof (cases "bound_write rec")
      case True
      then show ?thesis using rec(2)
        by (auto simp: eff(6) bound_write_def proven_unwritten_def past_write_boundary_def)
    next
      case False
      then have "hm_get (active_notification_barriers p) ?a \<noteq> None" "\<not> proven_unwritten rec"
        using that rec(2) by (auto simp: eff(5) split: if_splits)
      with keep old False rec(2) show ?thesis by (auto simp: eff(6) barrier_ok_def)
    qed
    moreover have "hm_get (active_notification_barriers q) ?a = None \<or> hm_get (active_notification_barriers q) ?a = Some rec"
      using rec(2) by (auto simp: eff(5))
    ultimately show "hm_get (active_notification_barriers q) ?a = None \<or>
        (hm_get (active_notification_barriers q) ?a = Some rec \<and> nr_binding rec \<noteq> None \<and>
         past_write_boundary (nr_state rec) \<and> hm_get (notification_write_sequences q) ?a \<noteq> None \<and>
         hm_get (resolved_attempts p) ?a = None \<and>
         (\<forall>a b. a \<noteq> ?a \<longrightarrow> hm_get (active_notification_barriers q) a = Some b \<longrightarrow> nr_recipient b \<noteq> r))"
      using res by blast
  qed (simp_all add: eff rec(2))
qed

lemma attempt_inv_advance:
  assumes inv: "attempt_inv p" and seq: "ln_seq line = Suc (seq_of p)"
    and c: "hm_get (notifications p) (tf_recipient f, tf_message_id f) = Some c" "nr_attempt_id c = tf_attempt_id f"
    and checked: "transition_checked p (Some c) f replaying"
    and q: "commit_line p line (PreparedNotification (tf_recipient f, tf_message_id f) (advanced_record c f line) False) = Some q"
    and grows: "grows p q"
  shows "attempt_inv q"
proof (rule attempt_inv_notification [OF inv seq c(1) _ _ _ _ q grows])
  note edge = transition_edge [OF checked]
  let ?n = "advanced_record c f line"
  show "nr_state c \<noteq> AttentionRequired" using edge(1) by auto
  show "record_ok (ln_seq line) (tf_recipient f) (tf_message_id f) ?n"
    by (rule advanced_record_ok [OF attempt_invD(1) [OF inv c(1)] checked]) (simp_all add: seq)
  show "nr_attempt_id ?n = nr_attempt_id c" using c(2) by (simp add: advanced_record_def)
  assume b: "hm_get (active_notification_barriers p) (nr_attempt_id c) \<noteq> None" and w: "\<not> proven_unwritten ?n"
  have past: "past_write_boundary (nr_state c)" "nr_binding c \<noteq> None"
    using attempt_inv_no_barrier [OF inv c(1)] b by blast+
  then have "tf_state f \<noteq> Writing" using edge(2) by blast
  moreover have "\<not> proves_unwritten f"
    using w by (simp add: proven_unwritten_def proves_unwritten_def advanced_record_def)
  ultimately show "past_write_boundary (nr_state ?n) \<and> nr_binding ?n \<noteq> None \<and> \<not> bound_write ?n"
    using edge(3) past by (auto simp: advanced_record_def bound_write_def)
qed

lemma attempt_inv_remind:
  assumes inv: "attempt_inv p" and seq: "ln_seq line = Suc (seq_of p)"
    and c: "hm_get (notifications p) (r, m) = Some c" "nr_state c = Notified"
      "hm_get (active_notification_barriers p) (nr_attempt_id c) = None"
    and rec: "rec = c\<lparr> nr_state := Gating, nr_cause := None, nr_verified_by := None, nr_verify_outcome := None,
          nr_pre_write_cause := None, nr_wake_block := None, nr_pre_write_observation := None,
          nr_unclaimed_reminder_count := 1, nr_updated_seq := ln_seq line, nr_updated_at := ln_ts line \<rparr>"
    and q: "commit_line p line (PreparedNotification (r, m) rec False) = Some q"
    and grows: "grows p q"
  shows "attempt_inv q"
proof (rule attempt_inv_notification [OF inv seq c(1) _ _ _ _ q grows])
  show "nr_state c \<noteq> AttentionRequired" using c(2) by simp
  show "record_ok (ln_seq line) r m rec"
    using attempt_invD(1) [OF inv c(1)] seq by (auto simp: rec record_ok_def bound_states_def)
qed (use c(3) rec in simp_all)

section \<open>Settlements that keep the attempt\<close>

text \<open>A record settles without an active barrier: supersession, withdrawal.\<close>

lemma attempt_inv_settle:
  assumes inv: "attempt_inv p" and grows: "grows p q"
    and c: "hm_get (notifications p) (r, m) = Some c" "nr_state c \<noteq> AttentionRequired"
    and nb: "hm_get (active_notification_barriers p) (nr_attempt_id c) = None"
    and rec: "record_ok (seq_of q) r m rec" "nr_attempt_id rec = nr_attempt_id c"
    and recs: "notifications q = hm_insert (r, m) rec (notifications p)"
    and core: "settlement_core q = settlement_core p"
  shows "attempt_inv q"
proof (rule attempt_inv_update [OF inv grows c(1) rec recs])
  have eq: "active_notification_barriers q = active_notification_barriers p"
    "notification_write_sequences q = notification_write_sequences p" "notification_attempts q = notification_attempts p"
    "operator_core q = operator_core p"
    using core by (auto simp: settlement_core_def operator_core_def)
  then show "notification_attempts q = notification_attempts p" "operator_core q = operator_core p" by simp_all
  show "hm_get (resolved_attempts p) (nr_attempt_id c) = None \<or> nr_state rec = AttentionRequired"
    using inv c unfolding attempt_inv_def resolved_ok_def by blast
  show "hm_ok (active_notification_barriers q)" using inv eq by (simp add: attempt_inv_def barriers_ok_def)
  show "s \<le> seq_of q" if "hm_get (notification_write_sequences q) (nr_attempt_id c) = Some s" for s
    using that inv grows unfolding eq attempt_inv_def barriers_ok_def grows_def by (meson order_trans)
qed (use core nb in \<open>auto simp: settlement_core_def\<close>)

lemma settled_record_ok:
  assumes "record_ok s r m c" and "s \<le> ln_seq line" and "st \<notin> bound_states" and "st \<noteq> BlockedPreWrite"
    and "b = None \<or> b = nr_binding c"
  shows "record_ok (ln_seq line) r m (settled_record c st b cause line)"
  using assms by (auto simp: record_ok_def settled_record_def bound_states_def)


text \<open>A claim settles the record and the barrier follows it.\<close>

lemma if_None_eq_Some_iff [result_simps]: "(if c then None else Some x) = Some y \<longleftrightarrow> \<not> c \<and> x = y"
  by simp

lemma claim_notification_update_Some:
  "claim_notification_update p line r m = Some up \<longleftrightarrow>
     (\<exists>c. hm_get (notifications p) (r, m) = Some c \<and> settled_by_claim (nr_state c) (nr_transport c) \<noteq> nr_state c \<and>
        up = \<lparr> up_key = (r, m),
               up_record = settled_record c (settled_by_claim (nr_state c) (nr_transport c))
                 (if settled_by_claim (nr_state c) (nr_transport c) = Notified then nr_binding c else None)
                 (if settled_by_claim (nr_state c) (nr_transport c) = Withdrawn \<and> nr_transport c \<noteq> DirectPayload
                  then Some ClaimedBeforeWrite else None) line \<rparr>)"
  unfolding claim_notification_update_def bind_eq_Some_conv Let_def if_None_eq_Some_iff by blast

lemma attempt_inv_claim:
  assumes inv: "attempt_inv p" and seq: "ln_seq line = Suc (seq_of p)" and grows: "grows p q1"
    and same: "notifications q1 = notifications p" "settlement_core q1 = settlement_core p" "seq_of q1 = ln_seq line"
  shows "attempt_inv (commit_claim_update (claim_notification_update p line r m) q1)"
proof (cases "claim_notification_update p line r m")
  case None
  have "attempt_inv q1"
  proof (rule attempt_inv_keep [OF inv grows])
    show "resolved_ok q1" "stages_ok q1"
      using inv same by (auto simp: attempt_inv_def resolved_ok_def stages_ok_def settlement_core_def)
    show "hm_get (active_notification_barriers p) a = Some b \<and> hm_get (resolved_attempts q1) a = None"
      if "hm_get (active_notification_barriers q1) a = Some b" for a b
      using that same attempt_inv_barrier [OF inv, of a b] by (auto simp: settlement_core_def barrier_ok_def)
    show "hm_ok (active_notification_barriers q1)"
      using inv same by (auto simp: attempt_inv_def barriers_ok_def settlement_core_def)
  qed (use same in \<open>auto simp: settlement_core_def\<close>)
  then show ?thesis using None by (simp add: commit_claim_update_def)
next
  case (Some up)
  then obtain c where c: "hm_get (notifications p) (r, m) = Some c"
    and diff: "settled_by_claim (nr_state c) (nr_transport c) \<noteq> nr_state c"
    and eq: "up = \<lparr> up_key = (r, m),
      up_record = settled_record c (settled_by_claim (nr_state c) (nr_transport c))
        (if settled_by_claim (nr_state c) (nr_transport c) = Notified then nr_binding c else None)
        (if settled_by_claim (nr_state c) (nr_transport c) = Withdrawn \<and> nr_transport c \<noteq> DirectPayload
         then Some ClaimedBeforeWrite else None) line \<rparr>"
    unfolding claim_notification_update_Some by blast
  obtain cause where up: "up_key up = (r, m)" "up_record up = settled_record c (settled_by_claim (nr_state c) (nr_transport c))
      (if settled_by_claim (nr_state c) (nr_transport c) = Notified then nr_binding c else None) cause line"
    unfolding eq by simp
  let ?st = "settled_by_claim (nr_state c) (nr_transport c)" and ?rec = "up_record up"
  let ?a = "nr_attempt_id c" and ?q = "commit_claim_update (Some up) q1"
  have st: "(?st = Withdrawn \<and> \<not> past_write_boundary (nr_state c)) \<or> (?st = Notified \<and> past_write_boundary (nr_state c))"
    using diff by (auto simp: settled_by_claim_def past_write_boundary_def split: if_splits)
  have att: "nr_state c \<noteq> AttentionRequired" using diff by (auto simp: settled_by_claim_def)
  have rec: "record_ok (ln_seq line) r m ?rec" "nr_attempt_id ?rec = ?a" "nr_state ?rec = ?st"
    "?st = Notified \<Longrightarrow> nr_binding ?rec = nr_binding c"
  proof -
    show "record_ok (ln_seq line) r m ?rec"
      unfolding up(2) by (rule settled_record_ok [OF attempt_invD(1) [OF inv c]])
        (use seq st in \<open>auto simp: bound_states_def\<close>)
  qed (simp_all add: up(2) settled_record_def)
  have eq: "notifications ?q = hm_insert (r, m) ?rec (notifications p)" "settlement_core ?q =
     (if hm_get (active_notification_barriers p) ?a = None then settlement_core p
      else settlement_core (p\<lparr> active_notification_barriers := hm_insert ?a ?rec (active_notification_barriers p) \<rparr>))"
    "get_entry ?q = get_entry q1" "seq_of ?q = ln_seq line"
    using same up rec(2) by (auto simp: commit_claim_update_def Let_def settlement_core_def get_entry_def
        fun_eq_iff seq_of_def)
  have grows': "grows p ?q" using grows eq(3,4) same(3) by (simp add: grows_def)
  have "attempt_inv ?q"
  proof (cases "hm_get (active_notification_barriers p) ?a")
    case None
    show ?thesis
      using attempt_inv_settle [OF inv grows' c att None, of ?rec] rec(1,2) eq None by simp
  next
    case (Some b)
    then have b: "b = c" "past_write_boundary (nr_state c)" "nr_binding c \<noteq> None"
      "hm_get (notification_write_sequences p) ?a \<noteq> None" "hm_get (resolved_attempts p) ?a = None" "nr_recipient c = r"
      using attempt_inv_barrier [OF inv Some] c attempt_invD(4) [OF inv c] unfolding barrier_ok_def by auto
    then have n: "?st = Notified" using st by auto
    have f: "active_notification_barriers ?q = hm_insert ?a ?rec (active_notification_barriers p)"
      "notification_attempts ?q = notification_attempts p" "operator_core ?q = operator_core p"
      "notification_write_sequences ?q = notification_write_sequences p"
      using eq(2) Some by (simp_all add: settlement_core_def operator_core_def)
    show ?thesis
    proof (rule attempt_inv_update [OF inv grows' c _ rec(2) eq(1) f(2,3)])
      show "record_ok (seq_of ?q) r m ?rec" using rec(1) eq(4) by simp
      have "nr_recipient b' \<noteq> r" if "a \<noteq> ?a" "hm_get (active_notification_barriers p) a = Some b'" for a b'
        using that Some b(1,6) inv unfolding attempt_inv_def barriers_ok_def by metis
      then show "hm_get (active_notification_barriers ?q) ?a = None \<or>
        (hm_get (active_notification_barriers ?q) ?a = Some ?rec \<and> nr_binding ?rec \<noteq> None \<and>
         past_write_boundary (nr_state ?rec) \<and> hm_get (notification_write_sequences ?q) ?a \<noteq> None \<and>
         hm_get (resolved_attempts p) ?a = None \<and>
         (\<forall>a b. a \<noteq> ?a \<longrightarrow> hm_get (active_notification_barriers ?q) a = Some b \<longrightarrow> nr_recipient b \<noteq> r))"
        using b rec n by (simp add: f past_write_boundary_def)
      show "hm_get (resolved_attempts p) ?a = None \<or> nr_state ?rec = AttentionRequired" using b by simp
      show "hm_ok (active_notification_barriers ?q)" using inv by (simp add: f attempt_inv_def barriers_ok_def)
      show "s \<le> seq_of ?q" if "hm_get (notification_write_sequences ?q) ?a = Some s" for s
        using that inv grows' unfolding f attempt_inv_def barriers_ok_def grows_def by (meson order_trans)
    qed (simp_all add: f)
  qed
  then show ?thesis using Some by simp
qed


text \<open>The two reconciliations that settle a record and drop its barrier.\<close>

lemma attempt_inv_reconcile:
  assumes inv: "attempt_inv p" and seq: "ln_seq line = Suc (seq_of p)"
    and c: "hm_get (notifications p) (r, m) = Some c" "nr_attempt_id c = a"
    and active: "hm_get (active_notification_barriers p) a \<noteq> None"
    and rec: "rec = c\<lparr> nr_state := st, nr_cause := None, nr_pre_write_cause := None,
          nr_pre_write_observation := None, nr_updated_seq := ln_seq line, nr_updated_at := ln_ts line \<rparr>"
    and st: "st \<notin> bound_states" "st \<noteq> BlockedPreWrite"
    and q: "notifications q = hm_insert (r, m) rec (notifications p)"
      "active_notification_barriers q = hm_remove a (active_notification_barriers p)"
      "notification_attempts q = notification_attempts p" "operator_core q = operator_core p"
      "notification_write_sequences q = notification_write_sequences p" "seq_of q = ln_seq line"
    and grows: "grows p q"
  shows "attempt_inv q"
proof (rule attempt_inv_update [OF inv grows c(1) _ _ q(1,3,4)])
  show "record_ok (seq_of q) r m rec"
    using attempt_invD(1) [OF inv c(1)] seq st unfolding q(6) rec by (auto simp: record_ok_def bound_states_def)
  show "nr_attempt_id rec = nr_attempt_id c" by (simp add: rec)
  obtain b where "barrier_ok p a b" using active attempt_inv_barrier [OF inv] by blast
  then show "hm_get (resolved_attempts p) (nr_attempt_id c) = None \<or> nr_state rec = AttentionRequired"
    using c(2) by (simp add: barrier_ok_def)
  show "hm_ok (active_notification_barriers q)" using inv q(2) by (simp add: attempt_inv_def barriers_ok_def)
  show "s \<le> seq_of q" if "hm_get (notification_write_sequences q) (nr_attempt_id c) = Some s" for s
    using that inv grows unfolding q(5) attempt_inv_def barriers_ok_def grows_def by (meson order_trans)
qed (use c q in \<open>auto split: if_splits\<close>)

text \<open>Batch requeues: one fresh attempt after the other.\<close>

lemma requeue_records_Inr:
  assumes "requeue_records p line m seen qs = Inr records"
  shows "map fst records = map (\<lambda>q. (rq_recipient q, m)) qs"
    and "map snd records = map (\<lambda>q. queued_record (rq_attempt_id q) m (rq_recipient q) line) qs"
    and "distinct (map rq_attempt_id qs)" and "set (map rq_attempt_id qs) \<inter> set seen = {}"
    and "\<forall>q\<in>set qs. \<not> hs_contains (notification_attempts p) (rq_attempt_id q)"
  using assms
proof (induction qs arbitrary: seen records)
  case (Cons q qs)
  {
    case 1
    then show ?case using Cons.IH(1) by (auto simp: result_simps prepare_notification_requeue_record_def)
  next
    case 2
    then show ?case using Cons.IH(2) by (auto simp: result_simps prepare_notification_requeue_record_def)
  next
    case 3
    then show ?case using Cons.IH(3,4) by (fastforce simp: result_simps hs_insert_def)
  next
    case 4
    then show ?case using Cons.IH(4) by (fastforce simp: result_simps hs_insert_def hs_contains_def)
  next
    case 5
    then show ?case using Cons.IH(5) by (auto simp: result_simps prepare_notification_requeue_record_def)
  }
qed auto

lemma attempt_inv_requeues:
  assumes "attempt_inv p" and "ln_seq line \<le> seq_of p" and "distinct (map rq_attempt_id qs)"
    and "\<forall>q\<in>set qs. \<not> hs_contains (notification_attempts p) (rq_attempt_id q) \<and> get_entry p (rq_recipient q) m \<noteq> None"
  shows "attempt_inv (fold (\<lambda>q. commit_requeue ((rq_recipient q, m), queued_record (rq_attempt_id q) m (rq_recipient q) line)) qs p)"
  using assms
proof (induction qs arbitrary: p)
  case (Cons q qs)
  let ?p = "commit_requeue ((rq_recipient q, m), queued_record (rq_attempt_id q) m (rq_recipient q) line) p"
  have ge: "get_entry ?p = get_entry p" "seq_of ?p = seq_of p"
    by (simp_all add: commit_requeue_def get_entry_def seq_of_def fun_eq_iff)
  have "attempt_inv ?p"
  proof (rule attempt_inv_new [OF Cons.prems(1)])
    show "grows p ?p" by (simp add: grows_def ge)
    show "ln_seq line \<le> seq_of ?p" using Cons.prems(2) by (simp add: ge)
  qed (use Cons.prems(4) in \<open>simp_all add: commit_requeue_def operator_core_def queued_record_def\<close>)
  moreover have "\<forall>x\<in>set qs. \<not> hs_contains (notification_attempts ?p) (rq_attempt_id x) \<and> get_entry ?p (rq_recipient x) m \<noteq> None"
  proof -
    have "notification_attempts ?p = hs_insert (rq_attempt_id q) (notification_attempts p)"
      by (simp add: commit_requeue_def queued_record_def)
    then show ?thesis using Cons.prems(3,4) by (auto simp: ge(1) image_iff)
  qed
  ultimately show ?case
    using Cons.IH [of ?p] Cons.prems(2,3) by (simp add: ge)
qed simp

section \<open>The whole step\<close>

lemma entry_effect_grows: "E r m \<noteq> None \<Longrightarrow> entry_effect line pm E r m \<noteq> None"
  by (cases pm) auto

lemma legal_grows:
  assumes inv: "mailbox_inv p" and legal: "legal p line pm" and seq: "ln_seq line = Suc (seq_of p)"
    and q: "commit_line p line pm = Some q"
  shows "grows p q"
proof -
  obtain q' where "commit_line p line pm = Some q'" "seq_of q' = ln_seq line"
    "get_entry q' = entry_effect line pm (get_entry p)"
    using mailbox_step [OF inv legal seq] by metis
  then show ?thesis using q seq entry_effect_grows by (auto simp: grows_def)
qed

text \<open>Mutations that only touch the operator's maps and the barriers.\<close>

lemma attempt_inv_operator:
  assumes inv: "attempt_inv p" and grows: "grows p q"
    and f: "notifications q = notifications p" "notification_attempts q = notification_attempts p"
      "notification_write_sequences q = notification_write_sequences p" "resolved_attempts q = resolved_attempts p"
    and b: "active_notification_barriers q = active_notification_barriers p \<or>
      (\<exists>a. active_notification_barriers q = hm_remove a (active_notification_barriers p))"
    and stages: "stages_ok q"
  shows "attempt_inv q"
proof (rule attempt_inv_keep [OF inv grows f(1-3)])
  show "hm_ok (active_notification_barriers q)"
    using inv b by (auto simp: attempt_inv_def barriers_ok_def)
  show "hm_get (active_notification_barriers p) a = Some b' \<and> hm_get (resolved_attempts q) a = None"
    if "hm_get (active_notification_barriers q) a = Some b'" for a b'
    using that b f(4) attempt_inv_barrier [OF inv, of a b'] by (auto simp: barrier_ok_def split: if_splits)
  show "resolved_ok q" using inv by (simp add: attempt_inv_def resolved_ok_def f)
qed (rule stages)

lemma attempt_inv_resolve:
  assumes inv: "attempt_inv p" and grows: "grows p q" and open_a: "open_attention p r m a"
    and f: "notifications q = notifications p" "notification_attempts q = notification_attempts p"
      "notification_write_sequences q = notification_write_sequences p"
      "resolved_attempts q = hm_insert a res (resolved_attempts p)"
      "active_notification_barriers q = hm_remove a (active_notification_barriers p)"
    and stages: "stages_ok q"
  shows "attempt_inv q"
proof (rule attempt_inv_keep [OF inv grows f(1-3)])
  obtain c where c: "hm_get (notifications p) (r, m) = Some c" "nr_attempt_id c = a" "nr_state c = AttentionRequired"
    using open_a by (auto simp: open_attention_def)
  show "hm_ok (active_notification_barriers q)"
    using inv f(5) by (auto simp: attempt_inv_def barriers_ok_def)
  show "hm_get (active_notification_barriers p) a' = Some b' \<and> hm_get (resolved_attempts q) a' = None"
    if "hm_get (active_notification_barriers q) a' = Some b'" for a' b'
    using that f(4,5) attempt_inv_barrier [OF inv, of a' b'] by (auto simp: barrier_ok_def split: if_splits)
  have "nr_state c' = AttentionRequired" if "hm_get (notifications p) k = Some c'" "nr_attempt_id c' = a" for k c'
    using attempt_inv_unique [OF inv that(1) c(1)] that c by auto
  then show "resolved_ok q"
    using inv attempt_invD(3) [OF inv c(1)] c(2) unfolding attempt_inv_def resolved_ok_def f
    by (metis (full_types) hm_get_insert option.distinct(1))
qed (rule stages)

lemma notification_by_attempt_Some:
  assumes inv: "attempt_inv p"
  shows "notification_by_attempt p a = Some c \<longleftrightarrow> (\<exists>k. hm_get (notifications p) k = Some c \<and> nr_attempt_id c = a)"
proof -
  have ok: "hm_ok (notifications p)" using inv by (simp add: attempt_inv_def attempts_ok_def)
  have found: "\<exists>k. hm_get (notifications p) k = Some c' \<and> nr_attempt_id c' = a"
    if "notification_by_attempt p a = Some c'" for c'
    using that in_hm_values [OF ok, of c'] unfolding notification_by_attempt_def
    by (metis (mono_tags, lifting) find_Some_iff nth_mem)
  show ?thesis
  proof
    assume "\<exists>k. hm_get (notifications p) k = Some c \<and> nr_attempt_id c = a"
    then obtain k where k: "hm_get (notifications p) k = Some c" "nr_attempt_id c = a" by blast
    then have "c \<in> set (hm_values (notifications p))" using in_hm_values [OF ok] by blast
    then obtain c' where c': "notification_by_attempt p a = Some c'"
      using k(2) unfolding notification_by_attempt_def by (metis (mono_tags, lifting) find_None_iff not_None_eq)
    with found obtain k' where "hm_get (notifications p) k' = Some c'" "nr_attempt_id c' = a" by blast
    then show "notification_by_attempt p a = Some c"
      using attempt_inv_unique [OF inv, of k c k' c'] k c' by auto
  qed (rule found)
qed

lemma stagesD:
  assumes "attempt_inv p"
  shows "hm_get (resolution_actions_accepted p) a = Some res \<Longrightarrow> hm_get (resolution_intents p) a = Some res"
    and "hm_get (resolution_consumptions p) a = Some ob \<Longrightarrow> hm_get (resolution_actions_accepted p) a = Some Complete"
    and "hm_get (resolution_action_reservations p) a = Some res' \<Longrightarrow>
      res' = Complete \<and> hm_get (resolution_intents p) a = Some Complete"
    and "hs_contains (forced_resolution_intents p) a \<Longrightarrow> hm_get (resolution_intents p) a = Some Complete"
    and "hm_get (resolution_intents p) a = Some res \<Longrightarrow> hs_contains (notification_attempts p) a"
    and "hs_contains (cleared_attempts p) a \<Longrightarrow> hs_contains (notification_attempts p) a"
  using assms unfolding attempt_inv_def stages_ok_def by blast+

text \<open>Every mutation of the operator keeps the stages in order.\<close>

lemma operator_step:
  assumes inv: "attempt_inv p" and legal: "legal p line pm" and q: "commit_line p line pm = Some q"
    and op: "\<And>k rec b. pm \<noteq> PreparedNotification k rec b" "\<And>rs. pm \<noteq> PreparedRequeues rs" "is_attempt_mutation pm"
  shows "stages_ok q"
proof -
  note st = stagesD [OF inv]
  have oa: "hs_contains (notification_attempts p) a" if "open_attention p r m a" for r m a
    using that attempt_invD(3) [OF inv] by (auto simp: open_attention_def)
  have same: "stages_ok q" if "operator_core q = operator_core p" "notification_attempts q = notification_attempts p"
    using inv that by (simp add: attempt_inv_def stages_ok_def operator_core_def)
  from legal show ?thesis
  proof (cases rule: legal.cases)
    case (clear k c a)
    then have "hs_contains (notification_attempts p) a" using attempt_invD(3) [OF inv] by (cases k) auto
    then show ?thesis using q clear(1) st by (auto simp: commit_line_def stages_ok_def)
  next
    case (clears batch attempts)
    have "hs_contains (notification_attempts p) a" if "a \<in> set attempts" for a
      using clears(3) that notification_by_attempt_Some [OF inv] attempt_invD(3) [OF inv] by (metis surj_pair)
    then show ?thesis using q clears(1) st by (auto simp: commit_line_def stages_ok_def)
  next
    case (intent r m a forced res)
    moreover have "hm_get (resolution_actions_accepted p) a = None" "hm_get (resolution_action_reservations p) a = None"
      using intent(3) st by fastforce+
    ultimately show ?thesis using q st oa [OF intent(2)]
      by (auto simp: commit_line_def stages_ok_def split: if_splits)
  next
    case (reserve r m c a res)
    then show ?thesis using q st by (auto simp: commit_line_def stages_ok_def split: if_splits)
  next
    case (accept r m a res)
    moreover have "hm_get (resolution_consumptions p) a = Some ob \<Longrightarrow> res = Complete" for ob
      using accept st(1,2) by fastforce
    ultimately show ?thesis using q st by (auto simp: commit_line_def stages_ok_def split: if_splits)
  next
    case (consume r m a ob)
    then show ?thesis using q st by (auto simp: commit_line_def stages_ok_def split: if_splits)
  next
    case (withdraw_intent r m c a res)
    then show ?thesis using q st by (auto simp: commit_line_def stages_ok_def split: if_splits)
  next
    case (resolve_untouched r m a)
    then show ?thesis using q st by (auto simp: commit_line_def stages_ok_def commit_resolved_def remove_barrier_def)
  next
    case (resolved r m a c v res)
    then show ?thesis using q st by (auto simp: commit_line_def stages_ok_def commit_resolved_def remove_barrier_def)
  qed (use q op same in \<open>auto simp: commit_line_def operator_core_def set_notification_def remove_barrier_def\<close>)
qed

lemma attempt_inv_unchanged:
  assumes inv: "attempt_inv p" and grows: "grows p q"
    and f: "notifications q = notifications p" "settlement_core q = settlement_core p"
  shows "attempt_inv q"
proof (rule attempt_inv_operator [OF inv grows f(1)])
  show "stages_ok q" using inv f(2) by (simp add: attempt_inv_def stages_ok_def settlement_core_def)
qed (use f(2) in \<open>auto simp: settlement_core_def\<close>)

lemma attempt_inv_message:
  assumes inv: "attempt_inv p" and seq: "ln_seq line = Suc (seq_of p)" and grows: "grows p q" "seq_of q = ln_seq line"
    and sup: "\<forall>target. md_supersedes md = Some target \<longrightarrow> (\<exists>r. supersedable p md target r)"
    and q: "notifications q = (case superseded_notification p line md of None \<Rightarrow> notifications p
         | Some u \<Rightarrow> hm_insert (up_key u) (up_record u) (notifications p))"
      "settlement_core q = settlement_core p"
  shows "attempt_inv q"
proof (cases "superseded_notification p line md")
  case None
  then show ?thesis using attempt_inv_unchanged [OF inv grows(1)] q by simp
next
  case (Some u)
  then obtain target r c where t: "md_supersedes md = Some target" "supersedable p md target r"
    and c: "hm_get (notifications p) (r, target) = Some c"
    and u: "u = \<lparr> up_key = (r, target), up_record = settled_record c Superseded None None line \<rparr>"
    using sup by (fastforce simp: superseded_notification_def supersedable_def split: option.splits list.splits)
  have pre: "\<not> past_write_boundary (nr_state c)"
    using t(2) c by (auto simp: supersedable_def supersession_notification_is_pre_write_def past_write_boundary_def)
  show ?thesis
  proof (rule attempt_inv_settle [OF inv grows(1) c])
    show "nr_state c \<noteq> AttentionRequired" using pre by (auto simp: past_write_boundary_def)
    show "hm_get (active_notification_barriers p) (nr_attempt_id c) = None"
      using attempt_inv_no_barrier [OF inv c] pre by blast
    show "record_ok (seq_of q) r target (settled_record c Superseded None None line)"
      unfolding grows(2) by (rule settled_record_ok [OF attempt_invD(1) [OF inv c]])
        (simp_all add: seq bound_states_def)
  qed (use q Some u in \<open>simp_all add: settled_record_def\<close>)
qed

lemma attempt_inv_withdraw:
  assumes inv: "attempt_inv p" and seq: "ln_seq line = Suc (seq_of p)" and grows: "grows p q" "seq_of q = ln_seq line"
    and c: "hm_get (notifications p) (r, m) = Some c" "nr_attempt_id c = a"
      "can_withdraw_before_write (nr_state c) \<or> withdrawn_by_claim_before_write c"
    and q: "notifications q = hm_insert (r, m) ((settled_record c WithdrawnByOperator None None line)
         \<lparr> nr_attempt_id := a, nr_message_id := m, nr_recipient := r \<rparr>) (notifications p)"
      "settlement_core q = settlement_core p"
  shows "attempt_inv q"
proof (rule attempt_inv_settle [OF inv grows(1) c(1) _ _ _ _ q])
  have pre: "\<not> past_write_boundary (nr_state c)"
    using c(3) by (auto simp: can_withdraw_before_write_def withdrawn_by_claim_before_write_def past_write_boundary_def)
  show "nr_state c \<noteq> AttentionRequired" using pre by (auto simp: past_write_boundary_def)
  show "hm_get (active_notification_barriers p) (nr_attempt_id c) = None"
    using attempt_inv_no_barrier [OF inv c(1)] pre by blast
  have "record_ok (ln_seq line) r m (settled_record c WithdrawnByOperator None None line)"
    by (rule settled_record_ok [OF attempt_invD(1) [OF inv c(1)]]) (simp_all add: seq bound_states_def)
  then show "record_ok (seq_of q) r m ((settled_record c WithdrawnByOperator None None line)
         \<lparr> nr_attempt_id := a, nr_message_id := m, nr_recipient := r \<rparr>)"
    unfolding grows(2) by (simp add: record_ok_def)
qed (use c(2) in simp)

lemma attempt_inv_queue:
  assumes inv: "attempt_inv p" and seq: "ln_seq line = Suc (seq_of p)"
    and fresh: "\<not> hs_contains (notification_attempts p) a" and entry: "get_entry p r m \<noteq> None"
    and q: "commit_line p line (PreparedNotification (r, m) (queued_record a m r line) True) = Some q"
    and grows: "grows p q" "seq_of q = ln_seq line"
  shows "attempt_inv q"
proof -
  have "hm_get (active_notification_barriers p) a = None"
    using attempt_inv_barrier [OF inv, of a] fresh by (cases "hm_get (active_notification_barriers p) a") (auto simp: barrier_ok_def)
  then have f: "notifications q = hm_insert (r, m) (queued_record a m r line) (notifications p)"
    "notification_attempts q = hs_insert a (notification_attempts p)" "operator_core q = operator_core p"
    "active_notification_barriers q = active_notification_barriers p"
    "notification_write_sequences q = notification_write_sequences p"
    using q by (auto simp: commit_line_def commit_notification_def commit_write_boundary_def bound_write_def
        proven_unwritten_def queued_record_def operator_core_def Let_def)
  show ?thesis using attempt_inv_new [OF inv grows(1) fresh entry f] grows(2) by simp
qed

lemma requeues_commit:
  assumes inv: "attempt_inv p" and seq: "ln_seq line = Suc (seq_of p)"
    and qs: "\<forall>q\<in>set qs. names_entry p (rq_recipient q) m" "requeue_records p line m [] qs = Inr records"
    and q: "commit_line p line (PreparedRequeues records) = Some q"
  shows "attempt_inv q"
proof -
  let ?p = "p\<lparr> last_workspace_seq := Some (ln_seq line) \<rparr>"
  note r = requeue_records_Inr [OF qs(2)]
  have ge: "get_entry ?p = get_entry p" by (rule get_entry_core) (simp add: mailbox_core_def)
  have "attempt_inv ?p"
  proof (rule attempt_inv_unchanged [OF inv])
    have "seq_of ?p = ln_seq line" by (simp add: seq_of_def)
    then show "grows p ?p" using seq unfolding grows_def ge by simp
  qed (simp_all add: settlement_core_def)
  moreover have "records = map (\<lambda>q. ((rq_recipient q, m), queued_record (rq_attempt_id q) m (rq_recipient q) line)) qs"
    using r(1,2) by (intro nth_equalityI) (auto simp: list_eq_iff_nth_eq prod_eq_iff)
  moreover have "\<forall>q\<in>set qs. \<not> hs_contains (notification_attempts ?p) (rq_attempt_id q) \<and> get_entry ?p (rq_recipient q) m \<noteq> None"
    using r(5) qs(1) by (simp add: ge names_entry_def)
  ultimately show ?thesis
    using attempt_inv_requeues [of ?p line qs m] r(3) q
    by (simp add: commit_line_def fold_map comp_def seq_of_def [of ?p])
qed

theorem attempt_inv_step:
  assumes minv: "mailbox_inv p" and inv: "attempt_inv p" and legal: "legal p line pm"
    and seq: "ln_seq line = Suc (seq_of p)" and q: "commit_line p line pm = Some q"
  shows "attempt_inv q"
proof -
  have grows: "grows p q" by (rule legal_grows [OF minv legal seq q])
  have sq: "seq_of q = ln_seq line" using commit_line_last_seq [OF q] by (simp add: seq_of_def)
  note oper = attempt_inv_operator [OF inv grows] and stages = operator_step [OF inv legal q]
  note defs = commit_line_def settlement_core_def operator_core_def set_notification_def remove_barrier_def
    commit_resolved_def
  from legal show ?thesis
  proof (cases rule: legal.cases)
    case (message m md)
    then show ?thesis
      using mailbox_inv_message [OF minv seq message(2-12), of "superseded_notification p line md"] q
        attempt_inv_message [OF inv seq grows sq message(10)] by fastforce
  next
    case (claim r m)
    obtain q1 e where q1: "commit_line p line pm = Some (commit_claim_update (claim_notification_update p line r m) q1)"
      and e: "get_entry p r m = Some e"
        "get_entry q1 = (get_entry p)(r := (get_entry p r)(m := Some (e\<lparr> me_state := Claimed r (ln_ts line) \<rparr>)))"
      and f: "\<exists>mbs. q1 = p\<lparr> last_workspace_seq := Some (ln_seq line), claim_sequences := hm_insert (r, m) (ln_seq line) (claim_sequences p), mailboxes := mbs \<rparr>"
      using claim_effect [OF minv seq claim(3), of "claim_notification_update p line r m"] claim(1) by metis
    have s1: "seq_of q1 = ln_seq line" using f by (auto simp: seq_of_def)
    have "grows p q1" using e seq s1 by (auto simp: grows_def)
    moreover have "notifications q1 = notifications p" "settlement_core q1 = settlement_core p"
      using f by (auto simp: settlement_core_def)
    ultimately show ?thesis using attempt_inv_claim [OF inv seq] s1 q q1 by (metis option.inject)
  next
    case (direct r m c a)
    obtain mbs where "q = p\<lparr> last_workspace_seq := Some (ln_seq line), mailboxes := mbs \<rparr>"
      using direct_effect [OF minv seq direct(2), of a] direct(1) q by (metis option.inject)
    then show ?thesis
      using attempt_inv_unchanged [OF inv grows] by (simp add: settlement_core_def)
  next
    case (queue r m a)
    then show ?thesis
      using attempt_inv_queue [OF inv seq] q grows sq unfolding names_entry_def by blast
  next
    case (advance f c replaying)
    then show ?thesis using attempt_inv_advance [OF inv seq] q grows by blast
  next
    case (remind r m c a)
    then show ?thesis using attempt_inv_remind [OF inv seq] q grows by blast
  next
    case (requeue r m prior a kr)
    then have "kr = ((r, m), queued_record a m r line)" "\<not> hs_contains (notification_attempts p) a"
      by (auto simp: prepare_notification_requeue_record_def result_simps)
    moreover have "get_entry p r m \<noteq> None" using requeue(2) by (simp add: names_entry_def)
    ultimately show ?thesis
      using attempt_inv_queue [OF inv seq _ _ _ grows sq, of a r m] q requeue(1) by simp
  next
    case (requeues qs m records)
    then show ?thesis using requeues_commit [OF inv seq] q by blast
  next
    case (withdraw r m e c a)
    then show ?thesis
      using attempt_inv_withdraw [OF inv seq grows sq] q by (auto simp: defs)
  next
    case (resolve_untouched r m a)
    then show ?thesis
      using attempt_inv_resolve [OF inv grows resolve_untouched(2)] stages q by (auto simp: defs)
  next
    case (resolved r m a c v res)
    then show ?thesis
      using attempt_inv_resolve [OF inv grows resolved(2)] stages q by (auto simp: defs)
  next
    case (staged_clear r m c a e)
    then show ?thesis
      using attempt_inv_reconcile [OF inv seq staged_clear(3,4,9) refl _ _ _ _ _ _ _ sq grows] q
      by (auto simp: defs bound_states_def)
  next
    case (ack_timeout r m c a)
    then show ?thesis
      using attempt_inv_reconcile [OF inv seq ack_timeout(3,4) _ refl _ _ _ _ _ _ _ sq grows] q
      by (auto simp: defs bound_states_def)
  next
    case (retire a active cause replacement)
    have "active_notification_barriers q = hm_remove a (active_notification_barriers p)"
      using q retire(1) by (auto simp: defs)
    then have "active_notification_barriers q = active_notification_barriers p \<or>
        (\<exists>a. active_notification_barriers q = hm_remove a (active_notification_barriers p))" by blast
    then show ?thesis using oper stages q retire(1) by (auto simp: defs)
  qed (use stages oper q in \<open>auto simp: defs\<close>)
qed

end
