(* ===== verification/Projection_Spec.thy ===== *)
theory Projection_Spec
  imports Attempt_Invariant
begin

text \<open>
  The contract of the projection as a log machine: what every accepted line keeps and what
  replay rebuilds. The interface \<open>log_machine\<close> is that of any state built from a log.
\<close>

section \<open>Log machines\<close>

text \<open>Feeding a log to a fallible step function, stopping at the first failure.\<close>

fun run_log :: "('s \<Rightarrow> 'e \<Rightarrow> ('err, 's) result) \<Rightarrow> 's \<Rightarrow> 'e list \<Rightarrow> ('err, 's) result" where
  "run_log step s [] = Inr s"
| "run_log step s (e # es) = rbind (step s e) (\<lambda>s'. run_log step s' es)"

lemma run_log_append: "run_log step s (xs @ ys) = rbind (run_log step s xs) (\<lambda>t. run_log step t ys)"
  by (induction step s xs rule: run_log.induct) (auto simp: rbind_def split: sum.splits)

locale log_machine =
  fixes live :: "'s \<Rightarrow> 'e \<Rightarrow> ('err, 's) result"
    and rebuild :: "'s \<Rightarrow> 'e \<Rightarrow> ('err, 's) result"
    and inv :: "'s \<Rightarrow> bool"
  assumes live_rebuilds: "live s e = Inr s' \<Longrightarrow> rebuild s e = Inr s'"
    and inv_step: "inv s \<Longrightarrow> rebuild s e = Inr s' \<Longrightarrow> inv s'"
begin

lemma run_inv: "inv s \<Longrightarrow> run_log rebuild s es = Inr s' \<Longrightarrow> inv s'"
  by (induction es arbitrary: s) (auto simp: result_simps intro: inv_step)

lemma run_rebuilds: "run_log live s es = Inr s' \<Longrightarrow> run_log rebuild s es = Inr s'"
  by (induction es arbitrary: s) (auto simp: result_simps dest: live_rebuilds)

text \<open>A state kept by appending accepted lines is the one a restart rebuilds.\<close>

lemma append_rebuilds:
  "run_log rebuild s es = Inr t \<Longrightarrow> live t e = Inr t' \<Longrightarrow> run_log rebuild s (es @ [e]) = Inr t'"
  by (simp add: run_log_append live_rebuilds)

lemma run_error:
  assumes safe: "\<And>t e. inv t \<Longrightarrow> rebuild t e \<noteq> Inl err" and "inv s"
  shows "run_log rebuild s es \<noteq> Inl err"
  using assms(2) by (induction es arbitrary: s) (auto simp: result_simps safe dest: inv_step)

lemma run_preserves:
  assumes step: "\<And>t e t'. inv t \<Longrightarrow> P t \<Longrightarrow> rebuild t e = Inr t' \<Longrightarrow> P t'"
    and "inv s" and "P s" and "run_log rebuild s es = Inr s'"
  shows "P s'"
  using assms(2-) by (induction es arbitrary: s) (auto simp: result_simps intro: inv_step step)

end

section \<open>The projection is one\<close>

definition projection_inv :: "mailbox_projection \<Rightarrow> bool" where
  "projection_inv p \<longleftrightarrow> mailbox_inv p \<and> attempt_inv p"

lemma projection_inv_new: "projection_inv (mailbox_projection_new ws)"
  by (simp add: projection_inv_def mailbox_projection_new_def mailbox_inv_def entries_ok_def index_ok_def
      messages_ok_def idempotency_ok_def keyed_def claims_ok_def supersessions_ok_def get_entry_def
      attempt_inv_def attempts_ok_def barriers_ok_def resolved_ok_def stages_ok_def)

lemma apply_inner_step:
  assumes inv: "projection_inv p" and prep: "prepare_line_inner X p line b = Inr pm"
  obtains q where "apply_inner X p line b = Inr q" "commit_line p line pm = Some q" "projection_inv q"
    "get_entry q = entry_effect line pm (get_entry p)" "messages q = message_effect line pm (messages p)"
    "seq_of q = ln_seq line"
proof -
  have legal: "legal p line pm" "ln_seq line = Suc (seq_of p)" using prepare_line_inner_legal [OF prep] by auto
  obtain q where q: "commit_line p line pm = Some q" "mailbox_inv q" "seq_of q = ln_seq line"
    "get_entry q = entry_effect line pm (get_entry p)" "messages q = message_effect line pm (messages p)"
    using mailbox_step [OF _ legal] inv unfolding projection_inv_def by metis
  moreover have "attempt_inv q"
    using attempt_inv_step [OF _ _ legal q(1)] inv unfolding projection_inv_def by blast
  ultimately show thesis
    using that [of q] prep by (simp add: projection_inv_def apply_inner_Inr_iff)
qed

lemma apply_inner_inv: "projection_inv p \<Longrightarrow> apply_inner X p line b = Inr q \<Longrightarrow> projection_inv q"
  by (metis apply_inner_Inr_iff apply_inner_step option.inject)

interpretation projection: log_machine "apply_owned X" "apply_replayed_owned X" projection_inv for X
  by unfold_locales
    (auto simp: apply_owned_def apply_replayed_owned_def intro: apply_inner_replays apply_inner_inv)

lemma replay_run_log: "replay X p lines = run_log (apply_replayed_owned X) p lines"
  by (induction X p lines rule: replay.induct) auto

lemma apply_never_panics: "projection_inv p \<Longrightarrow> apply_inner X p line b \<noteq> Inl Panicked"
  by (auto simp: apply_inner_def result_simps split: sum.splits) (metis apply_inner_step option.distinct(1))

lemma replay_inv: "projection_inv p \<Longrightarrow> replay X p lines = Inr q \<Longrightarrow> projection_inv q"
  using projection.run_inv by (simp add: replay_run_log)

end
