(* ===== verification/Attempt_Life.thy ===== *)
theory Attempt_Life
  imports Projection_Spec
begin

text \<open>
  The life of one wake attempt, as the moves its current record may make from line to line,
  and what follows for the write boundary: once the doorbell may have reached a pane, an
  attempt only steps back on proof that nothing was written, for its one reminder, or
  because the staged text was cleared again.
\<close>

section \<open>The current records after a line\<close>

fun notification_effect :: "prepared_mutation \<Rightarrow> (entry_key, notification_record) hash_map \<Rightarrow>
    (entry_key, notification_record) hash_map" where
  "notification_effect (PreparedMessage m md up) N =
     (case up of None \<Rightarrow> N | Some u \<Rightarrow> hm_insert (up_key u) (up_record u) N)"
| "notification_effect (PreparedClaim m r c up) N =
     (case up of None \<Rightarrow> N | Some u \<Rightarrow> hm_insert (up_key u) (up_record u) N)"
| "notification_effect (PreparedNotification k rec b) N = hm_insert k rec N"
| "notification_effect (PreparedRequeues records) N = fold (\<lambda>(k, rec). hm_insert k rec) records N"
| "notification_effect (PreparedWithdrawnBeforeWrite k rec) N = hm_insert k rec N"
| "notification_effect (PreparedClaimedStagedCleared k rec a) N = hm_insert k rec N"
| "notification_effect (PreparedClaimedAckTimeoutReconciled k rec a) N = hm_insert k rec N"
| "notification_effect pm N = N"

lemma set_entry_state_notifications: "set_entry_state p r m st = Some q \<Longrightarrow> notifications q = notifications p"
  by (auto simp: set_entry_state_def bind_eq_Some_conv)

lemma add_entry_notifications [simp]: "notifications (add_entry m line r p) = notifications p"
  by (simp add: add_entry_def Let_def)

lemma add_entries_notifications [simp]: "notifications (fold (add_entry m line) rs p) = notifications p"
  by (induction rs arbitrary: p) simp_all

lemma requeues_notifications:
  "notifications (fold commit_requeue records p) = fold (\<lambda>(k, rec). hm_insert k rec) records (notifications p)"
  by (induction records arbitrary: p) (auto simp: commit_requeue_def)

lemma commit_superseded_entry_notifications:
  "commit_superseded_entry p line m md = Some q \<Longrightarrow> notifications q = notifications p"
  by (auto simp: commit_superseded_entry_def dest: set_entry_state_notifications split: option.splits list.splits)

lemma commit_message_notifications:
  assumes "commit_message p line m md up = Some q"
  shows "notifications q = (case up of None \<Rightarrow> notifications p | Some u \<Rightarrow> hm_insert (up_key u) (up_record u) (notifications p))"
proof -
  obtain p1 where p1: "commit_superseded_entry p line m md = Some p1"
    using assms by (auto simp: commit_message_def bind_eq_Some_conv)
  then show ?thesis
    using assms commit_superseded_entry_notifications [OF p1]
    by (auto simp: commit_message_def Let_def split: option.splits)
qed

lemma commit_claim_notifications:
  assumes "commit_claim p line m r c up = Some q"
  shows "notifications q = (case up of None \<Rightarrow> notifications p | Some u \<Rightarrow> hm_insert (up_key u) (up_record u) (notifications p))"
proof -
  obtain q1 where "set_entry_state (p\<lparr> claim_sequences := hm_insert (r, m) (ln_seq line) (claim_sequences p) \<rparr>) r m
      (Claimed c (ln_ts line)) = Some q1" "q = commit_claim_update up q1"
    using assms by (auto simp: commit_claim_def Let_def)
  then show ?thesis
    using set_entry_state_notifications by (auto simp: commit_claim_update_def Let_def split: option.splits)
qed

lemma commit_line_notifications:
  assumes "commit_line p line pm = Some q"
  shows "notifications q = notification_effect pm (notifications p)"
proof -
  let ?p = "p\<lparr> last_workspace_seq := Some (ln_seq line) \<rparr>"
  have q: "commit_mutation ?p line pm = Some q" and n: "notifications ?p = notifications p"
    using assms by (simp_all add: commit_line_def)
  show ?thesis
  proof (cases pm)
    case (PreparedMessage m md up)
    then have "commit_message ?p line m md up = Some q" using q by simp
    from commit_message_notifications [OF this] show ?thesis unfolding n PreparedMessage by simp
  next
    case (PreparedClaim m r c up)
    then have "commit_claim ?p line m r c up = Some q" using q by simp
    from commit_claim_notifications [OF this] show ?thesis unfolding n PreparedClaim by simp
  next
    case (PreparedDeliveredDirect m r a)
    then have "set_entry_state ?p r m (DeliveredDirect a (ln_ts line)) = Some q" using q by simp
    from set_entry_state_notifications [OF this] show ?thesis unfolding n PreparedDeliveredDirect by simp
  next
    case (PreparedNotification k rec b)
    then have "q = commit_notification ?p line k rec b" using q by simp
    then show ?thesis
      unfolding PreparedNotification by (simp add: commit_notification_def commit_write_boundary_def Let_def)
  qed (use q in \<open>auto simp: requeues_notifications set_notification_def remove_barrier_def commit_resolved_def\<close>)
qed

section \<open>Moves of an attempt\<close>

inductive wake_move :: "notification_record \<Rightarrow> notification_record \<Rightarrow> bool" for c c' where
  transition: "\<lbrakk> nr_attempt_id c' = nr_attempt_id c;
      notification_transition_allowed c (nr_state c') (nr_pre_write_cause c') replaying \<rbrakk> \<Longrightarrow> wake_move c c'"
| reminder: "\<lbrakk> nr_attempt_id c' = nr_attempt_id c; nr_state c = Notified; nr_transport c = Doorbell;
      nr_unclaimed_reminder_count c = 0; nr_state c' = Gating; nr_unclaimed_reminder_count c' = 1 \<rbrakk> \<Longrightarrow> wake_move c c'"
| claimed: "\<lbrakk> nr_attempt_id c' = nr_attempt_id c;
      nr_state c' = settled_by_claim (nr_state c) (nr_transport c); nr_state c' \<noteq> nr_state c \<rbrakk> \<Longrightarrow> wake_move c c'"
| replaced: "\<lbrakk> nr_attempt_id c' = nr_attempt_id c; \<not> past_write_boundary (nr_state c); nr_state c' = Superseded \<rbrakk>
    \<Longrightarrow> wake_move c c'"
| withdrawn: "\<lbrakk> nr_attempt_id c' = nr_attempt_id c; \<not> past_write_boundary (nr_state c);
      nr_state c' = WithdrawnByOperator \<rbrakk> \<Longrightarrow> wake_move c c'"
| staged_cleared: "\<lbrakk> nr_attempt_id c' = nr_attempt_id c; nr_state c = Staged; nr_state c' = WithdrawnAfterStaging \<rbrakk>
    \<Longrightarrow> wake_move c c'"
| reconciled: "\<lbrakk> nr_attempt_id c' = nr_attempt_id c; needs_claimed_ack_timeout_reconciliation c; nr_state c' = Notified \<rbrakk>
    \<Longrightarrow> wake_move c c'"

text \<open>A requeue replaces the attempt by a fresh one.\<close>

definition requeued :: "mailbox_projection \<Rightarrow> notification_record \<Rightarrow> notification_record \<Rightarrow> bool" where
  "requeued p c c' \<longleftrightarrow>
     nr_state c \<in> {AttentionRequired, QuotaResetObserved} \<and> nr_state c' = Queued \<and>
     hm_get (resolution_intents p) (nr_attempt_id c) = None \<and>
     \<not> hs_contains (notification_attempts p) (nr_attempt_id c')"

lemma requeue_record_Inr:
  assumes "prepare_notification_requeue_record p line m r prior a = Inr kr"
  obtains c where "hm_get (notifications p) (r, m) = Some c" "kr = ((r, m), queued_record a m r line)"
    "requeued p c (queued_record a m r line)"
  using assms by (auto simp: prepare_notification_requeue_record_def requeued_def queued_record_def result_simps)

lemma requeue_records_moves:
  assumes "requeue_records p line m seen qs = Inr records" and "(k, rec) \<in> set records"
  shows "\<exists>c. hm_get (notifications p) k = Some c \<and> requeued p c rec"
  using assms
  by (induction qs arbitrary: seen records)
    (auto simp: result_simps elim!: requeue_record_Inr)

lemma fold_insert_get:
  "hm_get (fold (\<lambda>(k, v). hm_insert k v) kvs N) k = Some v \<Longrightarrow> (k, v) \<in> set kvs \<or> hm_get N k = Some v"
  by (induction kvs arbitrary: N) (force split: if_splits)+

lemma legal_moves:
  assumes legal: "legal p line pm" and c: "hm_get (notifications p) k = Some c"
    and c': "hm_get (notification_effect pm (notifications p)) k = Some c'"
  shows "c' = c \<or> wake_move c c' \<or> requeued p c c'"
  using legal
proof (cases rule: legal.cases)
  case (message m md)
  show ?thesis
  proof (cases "superseded_notification p line md")
    case (Some u)
    then obtain target r c0 where t: "md_supersedes md = Some target" "md_recipients md \<noteq> []" "r = hd (md_recipients md)"
      "hm_get (notifications p) (r, target) = Some c0"
      "u = \<lparr> up_key = (r, target), up_record = settled_record c0 Superseded None None line \<rparr>"
      by (auto simp: superseded_notification_def split: option.splits list.splits)
    obtain r' where "supersedable p md target r'" using message(10) t(1) by blast
    then have "\<not> past_write_boundary (nr_state c0)"
      using t by (auto simp: supersedable_def supersession_notification_is_pre_write_def past_write_boundary_def)
    then show ?thesis
      using c c' t Some message(1) by (auto simp: settled_record_def intro: wake_move.replaced split: if_splits)
  qed (use c c' message(1) in simp)
next
  case (claim r m)
  show ?thesis
  proof (cases "claim_notification_update p line r m")
    case (Some u)
    then obtain c0 where c0: "hm_get (notifications p) (r, m) = Some c0"
      "settled_by_claim (nr_state c0) (nr_transport c0) \<noteq> nr_state c0"
      and u: "u = \<lparr> up_key = (r, m),
               up_record = settled_record c0 (settled_by_claim (nr_state c0) (nr_transport c0))
                 (if settled_by_claim (nr_state c0) (nr_transport c0) = Notified then nr_binding c0 else None)
                 (if settled_by_claim (nr_state c0) (nr_transport c0) = Withdrawn \<and> nr_transport c0 \<noteq> DirectPayload
                  then Some ClaimedBeforeWrite else None) line \<rparr>"
      unfolding claim_notification_update_Some by blast
    have "nr_attempt_id (up_record u) = nr_attempt_id c0" "up_key u = (r, m)"
      "nr_state (up_record u) = settled_by_claim (nr_state c0) (nr_transport c0)"
      by (simp_all add: u settled_record_def)
    then show ?thesis using c c' c0 Some claim(1) by (auto intro: wake_move.claimed split: if_splits)
  qed (use c c' claim(1) in simp)
next
  case (advance f c0 replaying)
  have "wake_move c0 (advanced_record c0 f line)"
    using transition_checked_allowed [OF advance(5)] advance(4)
    by (intro wake_move.transition [where replaying = replaying]) (simp_all add: advanced_record_def)
  then show ?thesis using c c' advance by (auto split: if_splits)
next
  case (requeue r m prior a kr)
  then show ?thesis using c c' by (auto elim!: requeue_record_Inr split: if_splits)
next
  case (requeues qs m records)
  have "(k, c') \<in> set records \<or> hm_get (notifications p) k = Some c'"
    using c' requeues(1) by (intro fold_insert_get) simp
  then show ?thesis using c requeue_records_moves [OF requeues(4)] by (metis option.inject)
next
  case (withdraw r m e c0 a)
  then have "\<not> past_write_boundary (nr_state c0)"
    by (auto simp: can_withdraw_before_write_def withdrawn_by_claim_before_write_def past_write_boundary_def)
  then show ?thesis
    using c c' withdraw by (auto simp: settled_record_def intro: wake_move.withdrawn split: if_splits)
next
  case (queue r m a)
  then show ?thesis using c c' by (auto split: if_splits)
next
  case (remind r m c0 a)
  then show ?thesis using c c' by (auto intro: wake_move.reminder split: if_splits)
next
  case (staged_clear r m c0 a e)
  then show ?thesis using c c' by (auto intro: wake_move.staged_cleared split: if_splits)
next
  case (ack_timeout r m c0 a)
  then show ?thesis using c c' by (auto intro: wake_move.reconciled split: if_splits)
qed (use c c' in simp_all)

lemma notification_effect_keeps:
  assumes "hm_get N k = Some c"
  shows "\<exists>c'. hm_get (notification_effect pm N) k = Some c'"
proof -
  have "\<exists>c'. hm_get (fold (\<lambda>(k, v). hm_insert k v) kvs M) k = Some c'" if "hm_get M k = Some c0" for kvs M c0
    using that
  proof (induction kvs arbitrary: M c0)
    case (Cons kv kvs)
    have "\<exists>c1. hm_get (hm_insert (fst kv) (snd kv) M) k = Some c1" using Cons.prems by simp
    then show ?case using Cons.IH by (auto simp: case_prod_beta)
  qed simp
  then show ?thesis using assms by (cases pm) (auto split: option.splits)
qed

lemma accepted_moves:
  assumes "apply_inner X p line b = Inr q" and "hm_get (notifications p) k = Some c"
  obtains c' where "hm_get (notifications q) k = Some c'" "c' = c \<or> wake_move c c' \<or> requeued p c c'"
proof -
  obtain pm where pm: "prepare_line_inner X p line b = Inr pm" "commit_line p line pm = Some q"
    using assms(1) by (auto simp: apply_inner_Inr_iff)
  have N: "notifications q = notification_effect pm (notifications p)" by (rule commit_line_notifications [OF pm(2)])
  obtain c' where "hm_get (notifications q) k = Some c'"
    using notification_effect_keeps [OF assms(2)] unfolding N by blast
  then show thesis using that legal_moves prepare_line_inner_legal [OF pm(1)] assms(2) N by metis
qed

text \<open>Leaving the write boundary again.\<close>

lemma wake_move_boundary:
  assumes "wake_move c c'" and past: "past_write_boundary (nr_state c)" and outside: "\<not> past_write_boundary (nr_state c')"
  shows "proven_unwritten c' \<and> nr_state c = Writing \<or>
    nr_state c = Notified \<and> nr_unclaimed_reminder_count c = 0 \<and> nr_unclaimed_reminder_count c' = 1 \<or>
    nr_state c = Staged \<and> nr_state c' = WithdrawnAfterStaging"
  using assms(1)
proof (cases rule: wake_move.cases)
  case (transition replaying)
  have "\<not> can_transition_to (nr_state c) (nr_state c')" using past_write_boundary_closed past outside by blast
  moreover have "nr_state c \<noteq> Withdrawn" "nr_state c' \<noteq> Submitted" using past outside by (auto simp: past_write_boundary_def)
  ultimately have "nr_state c = Writing \<and> nr_state c' = BlockedPreWrite \<and> nr_pre_write_cause c' = Some PasteCommandUnwritten"
    using transition(2) unfolding notification_transition_allowed_def withdrawn_by_claim_before_write_def by blast
  then show ?thesis by (simp add: proven_unwritten_def)
next
  case claimed
  then show ?thesis using settled_by_claim_past_write [OF past] outside by simp
next
  case reconciled
  then show ?thesis using outside by (simp add: past_write_boundary_def)
qed (use past in simp_all)

section \<open>Which rows resolve an attempt\<close>

fun resolved_effect :: "prepared_mutation \<Rightarrow> (attempt_id, resolution) hash_map \<Rightarrow> (attempt_id, resolution) hash_map" where
  "resolved_effect (PreparedResolved a res) R = hm_insert a res R"
| "resolved_effect (PreparedResolvedWithoutTerminalAction a res) R = hm_insert a res R"
| "resolved_effect pm R = R"

lemma set_entry_state_resolved: "set_entry_state p r m st = Some q \<Longrightarrow> resolved_attempts q = resolved_attempts p"
  by (auto simp: set_entry_state_def bind_eq_Some_conv)

lemma add_entries_resolved [simp]: "resolved_attempts (fold (add_entry m line) rs p) = resolved_attempts p"
  by (induction rs arbitrary: p) (simp_all add: add_entry_def Let_def)

lemma requeues_resolved [simp]: "resolved_attempts (fold commit_requeue records p) = resolved_attempts p"
  by (induction records arbitrary: p) (simp_all add: commit_requeue_def)

lemma commit_line_resolved:
  assumes "commit_line p line pm = Some q"
  shows "resolved_attempts q = resolved_effect pm (resolved_attempts p)"
proof -
  let ?p = "p\<lparr> last_workspace_seq := Some (ln_seq line) \<rparr>"
  have q: "commit_mutation ?p line pm = Some q" using assms by (simp add: commit_line_def)
  show ?thesis
  proof (cases pm)
    case (PreparedMessage m md up)
    then obtain p1 where p1: "commit_superseded_entry ?p line m md = Some p1"
      using q by (auto simp: commit_message_def bind_eq_Some_conv)
    then have "resolved_attempts p1 = resolved_attempts p"
      by (auto simp: commit_superseded_entry_def dest: set_entry_state_resolved split: option.splits list.splits)
    then show ?thesis using q p1 PreparedMessage by (auto simp: commit_message_def Let_def split: option.splits)
  next
    case (PreparedClaim m r c up)
    then obtain q1 where "set_entry_state (?p\<lparr> claim_sequences := hm_insert (r, m) (ln_seq line) (claim_sequences p) \<rparr>) r m
        (Claimed c (ln_ts line)) = Some q1" "q = commit_claim_update up q1"
      using q by (auto simp: commit_claim_def Let_def)
    then show ?thesis
      using set_entry_state_resolved PreparedClaim by (auto simp: commit_claim_update_def Let_def split: option.splits)
  next
    case (PreparedDeliveredDirect m r a)
    then have "set_entry_state ?p r m (DeliveredDirect a (ln_ts line)) = Some q" using q by simp
    from set_entry_state_resolved [OF this] show ?thesis unfolding PreparedDeliveredDirect by simp
  next
    case (PreparedNotification k rec b)
    then have "q = commit_notification ?p line k rec b" using q by simp
    then show ?thesis
      unfolding PreparedNotification by (simp add: commit_notification_def commit_write_boundary_def Let_def)
  qed (use q in \<open>auto simp: set_notification_def remove_barrier_def commit_resolved_def\<close>)
qed

lemma completed_by_row:
  assumes "legal p line pm" and "commit_line p line pm = Some q"
    and "hm_get (resolved_attempts p) a = None" and "hm_get (resolved_attempts q) a = Some Complete"
  obtains r m c v where "pm = PreparedResolved a Complete" "open_attention p r m a"
    "hm_get (notifications p) (r, m) = Some c" "check_resolution_proof p c v a Complete = Inr ()"
proof -
  have "hm_get (resolved_effect pm (resolved_attempts p)) a = Some Complete"
    using commit_line_resolved [OF assms(2)] assms(4) by simp
  with assms(1) show thesis
    using assms(3) that by (cases rule: legal.cases) (auto split: if_splits)
qed

end
