(* ===== verification/Journal_Order.thy ===== *)
theory Journal_Order
  imports Attempt_Life
begin

text \<open>
  Facts about whole journals: the sequence numbers are contiguous, stored messages never
  change, settled entries never change, and the mailbox of a recipient lists exactly the
  messages that name it, in the order of the journal.
\<close>

section \<open>Lines that carry a message\<close>

definition is_message :: "ledger_line \<Rightarrow> bool" where
  "is_message line = (ln_kind line = Msg \<or> ln_kind line = Fyi)"

definition addressed :: "recipient_key \<Rightarrow> ledger_line \<Rightarrow> bool" where
  "addressed r line = (is_message line \<and> r \<in> set (recipients_of line))"

text \<open>A line prepares a message exactly when it is a message row.\<close>

lemma prepared_message:
  assumes "prepare_line_inner X p line b = Inr pm"
  shows "is_message line \<Longrightarrow> \<exists>md up. pm = PreparedMessage (ln_id line) md up \<and> extract_message_metadata line = Inr md"
    and "\<not> is_message line \<Longrightarrow> pm \<noteq> PreparedMessage m md up"
proof -
  assume "is_message line"
  then have "prepare_message X p line = Inr pm"
    using assms by (auto simp: is_message_def prepare_line_inner_def result_simps Let_def)
  then show "\<exists>md up. pm = PreparedMessage (ln_id line) md up \<and> extract_message_metadata line = Inr md"
    by (auto simp: prepare_message_def result_simps Let_def dest: message_id_new_Inr)
next
  assume "\<not> is_message line"
  moreover have "legal p line pm" using prepare_line_inner_legal [OF assms] by simp
  ultimately show "pm \<noteq> PreparedMessage m md up"
    by (auto simp: is_message_def elim: legal.cases)
qed

section \<open>Sequence numbers\<close>

lemma replay_sequence:
  "replay X p lines = Inr q \<Longrightarrow>
     map ln_seq lines = [Suc (seq_of p)..<Suc (seq_of p + length lines)] \<and> seq_of q = seq_of p + length lines \<and>
     (lines \<noteq> [] \<longrightarrow> seq_of q \<le> u64_max)"
proof (induction lines arbitrary: p)
  case (Cons line lines)
  then obtain p' pm where p': "prepare_line_inner X p line True = Inr pm" "commit_line p line pm = Some p'"
    "replay X p' lines = Inr q"
    by (auto simp: result_simps apply_replayed_owned_def apply_inner_Inr_iff)
  have s: "seq_of p' = Suc (seq_of p)" "ln_seq line = Suc (seq_of p)" "ln_seq line \<le> u64_max"
    using prepare_line_inner_legal [OF p'(1)] commit_line_last_seq [OF p'(2)] by (auto simp: seq_of_def)
  have "[Suc (seq_of p)..<Suc (seq_of p + length (line # lines))] =
      Suc (seq_of p) # [Suc (Suc (seq_of p))..<Suc (seq_of p + length (line # lines))]"
    by (rule upt_conv_Cons) simp
  then show ?case using Cons.IH [OF p'(3)] s by (cases lines) auto
qed simp

section \<open>What never changes\<close>

lemma apply_inner_facts:
  assumes inv: "projection_inv p" and app: "apply_inner X p line b = Inr q"
  obtains pm where "prepare_line_inner X p line b = Inr pm" "legal p line pm" "commit_line p line pm = Some q"
    "get_entry q = entry_effect line pm (get_entry p)" "messages q = message_effect line pm (messages p)"
proof -
  obtain pm where pm: "prepare_line_inner X p line b = Inr pm" "commit_line p line pm = Some q"
    using app by (auto simp: apply_inner_Inr_iff)
  obtain q' where "commit_line p line pm = Some q'" "get_entry q' = entry_effect line pm (get_entry p)"
    "messages q' = message_effect line pm (messages p)"
    using apply_inner_step [OF inv pm(1)] by metis
  then show thesis using that pm prepare_line_inner_legal [OF pm(1)] by simp
qed

lemma settled_entry_step:
  assumes inv: "projection_inv p" and app: "apply_inner X p line b = Inr q"
    and e: "get_entry p r m = Some e" "me_state e \<noteq> Pending"
  shows "get_entry q r m = Some e"
proof -
  obtain pm where legal: "legal p line pm" and E: "get_entry q = entry_effect line pm (get_entry p)"
    by (rule apply_inner_facts [OF inv app]) metis
  have minv: "mailbox_inv p" using inv by (simp add: projection_inv_def)
  from legal show ?thesis
  proof (cases rule: legal.cases)
    case (message m' md)
    then have "m \<noteq> m'" using entry_message [OF minv e(1)] by auto
    moreover have "superseded_entry md m' line r m e = e"
    proof (cases "md_supersedes md = Some m \<and> md_recipients md = [r]")
      case True
      then have "pending_entry p r m" using message(10) by (auto simp: supersedable_def)
      then show ?thesis using e by (auto simp: pending_entry_def)
    qed (auto simp: superseded_entry_def)
    ultimately show ?thesis using E message(1) e by simp
  qed (use E e in \<open>auto simp: pending_entry_def\<close>)
qed

lemma stored_message_step:
  assumes inv: "projection_inv p" and app: "apply_inner X p line b = Inr q" and l: "hm_get (messages p) m = Some l"
  shows "hm_get (messages q) m = Some l"
proof -
  obtain pm where legal: "legal p line pm" and M: "messages q = message_effect line pm (messages p)"
    by (rule apply_inner_facts [OF inv app]) metis
  from legal show ?thesis by (cases rule: legal.cases) (use M l in auto)
qed

section \<open>Mailboxes in journal order\<close>

lemma bt_modify_values: "map f (bt_values (bt_modify k g mb)) = map f (bt_values mb)" if "\<And>e. f (g e) = f e"
  using that by (induction mb) (auto simp: bt_values_def bt_modify_def)

definition mailbox_ids :: "mailbox_projection \<Rightarrow> recipient_key \<Rightarrow> message_id list" where
  "mailbox_ids p r = map me_message_id (get_mailbox p r)"

lemma set_entry_state_ids:
  assumes "set_entry_state p r m st = Some q"
  shows "mailbox_ids q r' = mailbox_ids p r'"
proof -
  obtain s mb where "hm_get (mailboxes p) r = Some mb"
    "q = p\<lparr> mailboxes := hm_insert r (bt_modify s (me_state_update (\<lambda>_. st)) mb) (mailboxes p) \<rparr>"
    using assms by (auto simp: set_entry_state_def bind_eq_Some_conv)
  then show ?thesis by (auto simp: mailbox_ids_def get_mailbox_def bt_modify_values)
qed

lemma add_entry_ids:
  assumes "\<forall>mb. hm_get (mailboxes p) r = Some mb \<longrightarrow> (\<forall>s\<in>fst ` set mb. s < ln_seq line)"
  shows "mailbox_ids (add_entry m line r p) r' = mailbox_ids p r' @ (if r' = r then [m] else [])"
  using assms
  by (cases "hm_get (mailboxes p) r")
    (auto simp: mailbox_ids_def get_mailbox_def add_entry_def Let_def bt_values_def bt_insert_last)

lemma add_entries_ids:
  assumes "distinct rs" and "\<forall>r\<in>set rs. \<forall>mb. hm_get (mailboxes p) r = Some mb \<longrightarrow> (\<forall>s\<in>fst ` set mb. s < ln_seq line)"
  shows "mailbox_ids (fold (add_entry m line) rs p) r' = mailbox_ids p r' @ (if r' \<in> set rs then [m] else [])"
  using assms
proof (induction rs arbitrary: p)
  case (Cons r rs)
  let ?p = "add_entry m line r p"
  have "mailbox_ids (fold (add_entry m line) rs ?p) r' = mailbox_ids ?p r' @ (if r' \<in> set rs then [m] else [])"
    using Cons.prems by (intro Cons.IH) (auto simp: add_entry_def Let_def split: if_splits)
  moreover have "mailbox_ids ?p r' = mailbox_ids p r' @ (if r' = r then [m] else [])"
    using Cons.prems by (intro add_entry_ids) simp
  ultimately show ?case using Cons.prems(1) by auto
qed simp

lemma mailbox_keys_bound:
  assumes inv: "mailbox_inv p" and mb: "hm_get (mailboxes p) r = Some mb" and s: "s \<in> fst ` set mb"
  shows "s \<le> seq_of p"
proof -
  obtain e where e: "(s, e) \<in> set mb" using s by auto
  have ok: "entries_ok p" using inv by (simp add: mailbox_inv_def)
  then have "bt_ok mb" using mb by (auto simp: entries_ok_def)
  then have "bt_get mb s = Some e" using e by (simp add: bt_get_iff)
  then have "hm_get (mailbox_index p) (r, me_message_id e) = Some s" using ok mb by (auto simp: entries_ok_def)
  then show ?thesis using index_bound [OF inv] by blast
qed

text \<open>Applying a line appends its id to the mailboxes it is addressed to, and to no other.\<close>

lemma mailbox_ids_step:
  assumes inv: "projection_inv p" and app: "apply_inner X p line b = Inr q"
  shows "mailbox_ids q r = mailbox_ids p r @ (if addressed r line then [ln_id line] else [])"
proof -
  obtain pm where pm: "prepare_line_inner X p line b = Inr pm" "legal p line pm" "commit_line p line pm = Some q"
    by (rule apply_inner_facts [OF inv app]) metis
  have minv: "mailbox_inv p" using inv by (simp add: projection_inv_def)
  let ?p = "p\<lparr> last_workspace_seq := Some (ln_seq line) \<rparr>"
  have same: "mailbox_ids ?p = mailbox_ids p" by (simp add: mailbox_ids_def get_mailbox_def fun_eq_iff)
  show ?thesis
  proof (cases "is_message line")
    case True
    then obtain md up where m: "pm = PreparedMessage (ln_id line) md up" "extract_message_metadata line = Inr md"
      using prepared_message(1) [OF pm(1)] by blast
    have d: "distinct (md_recipients md)" using pm(2) m by (auto elim: legal.cases)
    obtain p1 where p1: "commit_superseded_entry ?p line (ln_id line) md = Some p1"
      using pm(3) m(1) by (auto simp: commit_line_def commit_message_def bind_eq_Some_conv)
    define p2 where "p2 = (case md_client_key md of None \<Rightarrow> p1 | Some key \<Rightarrow> p1\<lparr> idempotency_index :=
        hm_insert (md_sender md, key) (ln_id line, md_request_digest md) (idempotency_index p1) \<rparr>)"
    have mb2: "mailboxes p2 = mailboxes p1" by (simp add: p2_def split: option.split)
    have ids1: "mailbox_ids p1 = mailbox_ids p"
      using p1 set_entry_state_ids same
      by (auto simp: commit_superseded_entry_def fun_eq_iff split: option.splits list.splits)
    have keys1: "fst ` set mb \<subseteq> {..seq_of p}" if "hm_get (mailboxes p1) r = Some mb" for r mb
    proof -
      have "\<exists>mb0. hm_get (mailboxes p) r = Some mb0 \<and> map fst mb = map fst mb0"
        using p1 that by (auto simp: commit_superseded_entry_def set_entry_state_def bind_eq_Some_conv
            split: option.splits list.splits if_splits)
      then show ?thesis using mailbox_keys_bound [OF minv] by (metis atMost_iff list.set_map subsetI)
    qed
    have seq: "ln_seq line = Suc (seq_of p)" using prepare_line_inner_legal [OF pm(1)] by simp
    have "mailbox_ids (fold (add_entry (ln_id line) line) (md_recipients md) p2) r =
        mailbox_ids p2 r @ (if r \<in> set (md_recipients md) then [ln_id line] else [])"
      using d keys1 seq by (intro add_entries_ids) (force simp: mb2)+
    moreover have "mailbox_ids p2 r = mailbox_ids p1 r" by (simp add: mailbox_ids_def get_mailbox_def mb2)
    moreover have "mailboxes q = mailboxes (fold (add_entry (ln_id line) line) (md_recipients md) p2)"
      using pm(3) m(1) p1 by (auto simp: commit_line_def commit_message_def p2_def Let_def split: option.splits)
    then have "mailbox_ids q r = mailbox_ids (fold (add_entry (ln_id line) line) (md_recipients md) p2) r"
      by (simp add: mailbox_ids_def get_mailbox_def)
    ultimately show ?thesis using True m(2) ids1 by (simp add: addressed_def recipients_of_def)
  next
    case False
    have "mailbox_ids q r = mailbox_ids p r"
    proof (cases "is_attempt_mutation pm")
      case True
      then show ?thesis
        using attempt_mutation_core [OF True, of p line] pm(3)
        by (auto simp: mailbox_core_def mailbox_ids_def get_mailbox_def)
    next
      case attempt: False
      have update: "mailbox_ids (commit_claim_update up q1) = mailbox_ids q1" for up q1
        by (simp add: commit_claim_update_def mailbox_ids_def get_mailbox_def Let_def fun_eq_iff split: option.split)
      show ?thesis
      proof (cases pm)
        case (PreparedMessage m md up)
        then show ?thesis using prepared_message(2) [OF pm(1) False] by blast
      next
        case (PreparedClaim m r' c up)
        then obtain q1 where "set_entry_state (?p\<lparr> claim_sequences := hm_insert (r', m) (ln_seq line) (claim_sequences p) \<rparr>)
            r' m (Claimed c (ln_ts line)) = Some q1" "q = commit_claim_update up q1"
          using pm(3) by (auto simp: commit_line_def commit_claim_def Let_def)
        then show ?thesis using set_entry_state_ids update by (simp add: mailbox_ids_def get_mailbox_def)
      next
        case (PreparedDeliveredDirect m r' a)
        then have "set_entry_state ?p r' m (DeliveredDirect a (ln_ts line)) = Some q"
          using pm(3) by (simp add: commit_line_def)
        then show ?thesis using set_entry_state_ids same by metis
      qed (use attempt in simp_all)
    qed
    then show ?thesis using False by (simp add: addressed_def)
  qed
qed

lemma replay_mailbox_ids:
  assumes "projection_inv p" and "replay X p lines = Inr q"
  shows "mailbox_ids q r = mailbox_ids p r @ map ln_id (filter (addressed r) lines)"
  using assms
proof (induction lines arbitrary: p)
  case (Cons line lines)
  then obtain p' where p': "apply_inner X p line True = Inr p'" "replay X p' lines = Inr q"
    by (auto simp: result_simps apply_replayed_owned_def)
  then show ?case
    using Cons.IH [OF apply_inner_inv [OF Cons.prems(1) p'(1)] p'(2)] mailbox_ids_step [OF Cons.prems(1) p'(1)]
    by simp
qed simp

section \<open>What a journal keeps\<close>

lemma replay_preserves:
  assumes "\<And>t line t'. projection_inv t \<Longrightarrow> P t \<Longrightarrow> apply_inner X t line True = Inr t' \<Longrightarrow> P t'"
    and "projection_inv p" and "P p" and "replay X p lines = Inr q"
  shows "P q"
  by (rule projection.run_preserves [where P = P, OF _ assms(2,3) assms(4) [unfolded replay_run_log]])
    (rule assms(1), simp_all add: apply_replayed_owned_def)

lemma settled_entry_replay:
  assumes "projection_inv p" and "replay X p lines = Inr q" and "get_entry p r m = Some e" and "me_state e \<noteq> Pending"
  shows "get_entry q r m = Some e"
  by (rule replay_preserves [where P = "\<lambda>t. get_entry t r m = Some e", OF _ assms(1,3,2)])
    (rule settled_entry_step [OF _ _ _ assms(4)])

lemma stored_message_replay:
  assumes "projection_inv p" and "replay X p lines = Inr q" and "hm_get (messages p) m = Some l"
  shows "hm_get (messages q) m = Some l"
  by (rule replay_preserves [where P = "\<lambda>t. hm_get (messages t) m = Some l", OF _ assms(1,3,2)])
    (rule stored_message_step)

end
