(* ===== verification/Post_Office.thy ===== *)
theory Post_Office
  imports Journal_Order
begin

text \<open>
  The mailbox as its users see it, driven by what the journal rows say. A row is read on its own as a
  mail event; the post office accepts an event only when its letter waits and its message is new, and
  the projection of a journal is the post office after the events of its rows.
\<close>

section \<open>Machines driven by the same events\<close>

text \<open>Feeding events to a partial machine, stopping at the first it does not accept.\<close>

fun run_events :: "('a \<Rightarrow> 'v \<Rightarrow> 'a option) \<Rightarrow> 'a \<Rightarrow> 'v list \<Rightarrow> 'a option" where
  "run_events step a [] = Some a"
| "run_events step a (v # vs) = Option.bind (step a v) (\<lambda>a'. run_events step a' vs)"

lemma run_events_append:
  "run_events step a (vs @ ws) = Option.bind (run_events step a vs) (\<lambda>a'. run_events step a' ws)"
  by (induction vs arbitrary: a) (auto split: bind_splits)

locale event_refinement =
  fixes rebuild :: "'s \<Rightarrow> 'e \<Rightarrow> ('err, 's) result"
    and inv :: "'s \<Rightarrow> bool"
    and event_of :: "'e \<Rightarrow> 'v"
    and abs :: "'s \<Rightarrow> 'a"
    and step :: "'a \<Rightarrow> 'v \<Rightarrow> 'a option"
  assumes inv_rebuild: "inv s \<Longrightarrow> rebuild s e = Inr t \<Longrightarrow> inv t"
    and follows: "inv s \<Longrightarrow> rebuild s e = Inr t \<Longrightarrow> step (abs s) (event_of e) = Some (abs t)"
begin

lemma run_follows:
  "inv s \<Longrightarrow> run_log rebuild s es = Inr t \<Longrightarrow> run_events step (abs s) (map event_of es) = Some (abs t)"
proof (induction es arbitrary: s)
  case (Cons e es)
  then obtain s' where "rebuild s e = Inr s'" "run_log rebuild s' es = Inr t" by (auto simp: result_simps)
  then show ?case using Cons.IH inv_rebuild [OF Cons.prems(1)] follows [OF Cons.prems(1)] by simp
qed simp

end

section \<open>Letters\<close>

text \<open>
  To its users a mailbox is a set of letters: one per recipient and message, waiting until
  it is taken, handed over, or replaced.
\<close>

datatype letter = Waiting | TakenBy recipient_key | HandedOver attempt_id | ReplacedBy message_id

type_synonym post_office = "entry_key \<Rightarrow> letter option"

fun letter_of :: "mailbox_entry_state \<Rightarrow> letter" where
  "letter_of Pending = Waiting"
| "letter_of (Claimed c t) = TakenBy c"
| "letter_of (DeliveredDirect a t) = HandedOver a"
| "letter_of (EntrySuperseded m t) = ReplacedBy m"

definition post_office_of :: "mailbox_projection \<Rightarrow> post_office" where
  "post_office_of p = (\<lambda>(r, m). map_option (\<lambda>e. letter_of (me_state e)) (get_entry p r m))"

section \<open>Mail events\<close>

datatype mail_event =
    Posted message_id "recipient_key list" "message_id option"
  | Taken recipient_key message_id
  | Handed recipient_key message_id attempt_id
  | NoMail

text \<open>What a row says about letters, read from the row alone.\<close>

definition mail_event_of :: "ledger_line \<Rightarrow> mail_event" where
  "mail_event_of line =
     (if is_message line then
        (case extract_message_metadata line of
           Inr md \<Rightarrow> Posted (ln_id line) (md_recipients md) (md_supersedes md)
         | Inl e \<Rightarrow> NoMail)
      else
        (case ln_data line of
           None \<Rightarrow> NoMail
         | Some data \<Rightarrow>
             (case (rd_type data, rd_mailbox_fact data) of
                (Some t, Inr (MessageClaimed f)) \<Rightarrow>
                  if t = ''message_claimed'' then Taken (cf_recipient f) (cf_message_id f) else NoMail
              | (Some t, Inr (MessageDeliveredDirect f)) \<Rightarrow>
                  if t = ''message_delivered_direct'' then Handed (af_recipient f) (af_message_id f) (af_attempt_id f)
                  else NoMail
              | _ \<Rightarrow> NoMail)))"

text \<open>
  The post office: a message has at least one addressee and an id nobody used; it replaces a letter
  only of its single addressee and only while that letter waits; a letter is taken by its addressee or
  handed over only while it waits.
\<close>

fun post :: "post_office \<Rightarrow> mail_event \<Rightarrow> post_office option" where
  "post M (Posted m rs replaces) =
     (if rs = [] \<or> (\<exists>r. M (r, m) \<noteq> None) then None
      else
        (case replaces of
           None \<Rightarrow> Some (\<lambda>(r, m'). if r \<in> set rs \<and> m' = m then Some Waiting else M (r, m'))
         | Some old \<Rightarrow>
             (case rs of
                [r] \<Rightarrow> if M (r, old) = Some Waiting then Some (M((r, old) \<mapsto> ReplacedBy m, (r, m) \<mapsto> Waiting)) else None
              | _ \<Rightarrow> None)))"
| "post M (Taken r m) = (if M (r, m) = Some Waiting then Some (M((r, m) \<mapsto> TakenBy r)) else None)"
| "post M (Handed r m a) = (if M (r, m) = Some Waiting then Some (M((r, m) \<mapsto> HandedOver a)) else None)"
| "post M NoMail = Some M"

section \<open>Rows and events\<close>

fun event_of_prepared :: "prepared_mutation \<Rightarrow> mail_event" where
  "event_of_prepared (PreparedMessage m md up) = Posted m (md_recipients md) (md_supersedes md)"
| "event_of_prepared (PreparedClaim m r c up) = Taken r m"
| "event_of_prepared (PreparedDeliveredDirect m r a) = Handed r m a"
| "event_of_prepared pm = NoMail"

lemma claim_fact_of_Inr [result_simps]:
  "claim_fact_of line = Inr f \<longleftrightarrow>
     (\<exists>data. ln_data line = Some data \<and> rd_mailbox_fact data = Inr (MessageClaimed f))"
  by (cases "ln_data line"; cases "rd_mailbox_fact (the (ln_data line))"; cases "projr (rd_mailbox_fact (the (ln_data line)))")
    (auto simp: claim_fact_of_def result_simps)

lemma direct_fact_of_Inr [result_simps]:
  "direct_fact_of line = Inr f \<longleftrightarrow>
     (\<exists>data. ln_data line = Some data \<and> rd_mailbox_fact data = Inr (MessageDeliveredDirect f))"
  by (cases "ln_data line"; cases "rd_mailbox_fact (the (ln_data line))"; cases "projr (rd_mailbox_fact (the (ln_data line)))")
    (auto simp: direct_fact_of_def result_simps)

lemma prepared_claim_row:
  "prepare_claim X p line = Inr pm \<Longrightarrow> \<exists>data f. ln_data line = Some data \<and> rd_mailbox_fact data = Inr (MessageClaimed f)
     \<and> event_of_prepared pm = Taken (cf_recipient f) (cf_message_id f)"
  by (auto simp: prepare_claim_def result_simps Let_def)

lemma prepared_direct_row:
  "prepare_delivered_direct p line = Inr pm \<Longrightarrow> \<exists>data f. ln_data line = Some data \<and> rd_mailbox_fact data = Inr (MessageDeliveredDirect f)
     \<and> event_of_prepared pm = Handed (af_recipient f) (af_message_id f) (af_attempt_id f)"
  by (auto simp: prepare_delivered_direct_def result_simps Let_def)

lemma attempt_row_no_mail: "is_attempt_mutation pm \<Longrightarrow> event_of_prepared pm = NoMail"
  by (cases pm) simp_all

text \<open>Every other kind of row speaks about a wake, never about a letter.\<close>

lemma prepare_notification_transition_attempt: "prepare_notification_transition X p line b = Inr pm \<Longrightarrow> is_attempt_mutation pm"
  by (cases line rule: notification_fact_cases) (auto simp: prepare_notification_transition_def result_simps Let_def split: if_splits)

lemma prepare_unclaimed_reminder_queued_attempt: "prepare_unclaimed_reminder_queued X p line = Inr pm \<Longrightarrow> is_attempt_mutation pm"
  by (cases line rule: notification_fact_cases) (auto simp: prepare_unclaimed_reminder_queued_def result_simps Let_def split: if_splits)

lemma prepare_notification_requeue_attempt: "prepare_notification_requeue X p line = Inr pm \<Longrightarrow> is_attempt_mutation pm"
  by (cases line rule: notification_fact_cases) (auto simp: prepare_notification_requeue_def result_simps Let_def split: if_splits)

lemma prepare_notification_requeues_attempt: "prepare_notification_requeues X p line = Inr pm \<Longrightarrow> is_attempt_mutation pm"
  by (cases line rule: notification_fact_cases) (auto simp: prepare_notification_requeues_def result_simps Let_def split: if_splits)

lemma prepare_notification_clear_attempt: "prepare_notification_clear X p line = Inr pm \<Longrightarrow> is_attempt_mutation pm"
  by (cases line rule: notification_fact_cases) (auto simp: prepare_notification_clear_def result_simps Let_def split: if_splits)

lemma prepare_notification_clears_attempt: "prepare_notification_clears X p line = Inr pm \<Longrightarrow> is_attempt_mutation pm"
  by (cases line rule: notification_fact_cases) (auto simp: prepare_notification_clears_def result_simps Let_def split: if_splits)

lemma prepare_notification_withdrawal_attempt: "prepare_notification_withdrawal X p line b = Inr pm \<Longrightarrow> is_attempt_mutation pm"
  by (cases line rule: notification_fact_cases) (auto simp: prepare_notification_withdrawal_def result_simps Let_def split: if_splits)

lemma prepare_notification_resolution_intent_attempt: "prepare_notification_resolution_intent X p line = Inr pm \<Longrightarrow> is_attempt_mutation pm"
  by (cases line rule: notification_fact_cases) (auto simp: prepare_notification_resolution_intent_def result_simps Let_def split: if_splits)

lemma prepare_notification_resolution_action_reserved_attempt: "prepare_notification_resolution_action_reserved X p line = Inr pm \<Longrightarrow> is_attempt_mutation pm"
  by (cases line rule: notification_fact_cases) (auto simp: prepare_notification_resolution_action_reserved_def result_simps Let_def split: if_splits)

lemma prepare_notification_resolution_action_accepted_attempt: "prepare_notification_resolution_action_accepted X p line = Inr pm \<Longrightarrow> is_attempt_mutation pm"
  by (cases line rule: notification_fact_cases) (auto simp: prepare_notification_resolution_action_accepted_def result_simps Let_def split: if_splits)

lemma prepare_notification_resolution_consumption_observed_attempt: "prepare_notification_resolution_consumption_observed X p line = Inr pm \<Longrightarrow> is_attempt_mutation pm"
  by (cases line rule: notification_fact_cases) (auto simp: prepare_notification_resolution_consumption_observed_def result_simps Let_def split: if_splits)

lemma prepare_notification_resolution_intent_withdrawn_attempt: "prepare_notification_resolution_intent_withdrawn X p line = Inr pm \<Longrightarrow> is_attempt_mutation pm"
  by (cases line rule: notification_fact_cases) (auto simp: prepare_notification_resolution_intent_withdrawn_def result_simps Let_def split: if_splits)

lemma prepare_notification_resolution_without_terminal_action_attempt: "prepare_notification_resolution_without_terminal_action X p line = Inr pm \<Longrightarrow> is_attempt_mutation pm"
  by (cases line rule: notification_fact_cases) (auto simp: prepare_notification_resolution_without_terminal_action_def result_simps Let_def split: if_splits)

lemma prepare_notification_resolution_attempt: "prepare_notification_resolution X p line = Inr pm \<Longrightarrow> is_attempt_mutation pm"
  by (cases line rule: notification_fact_cases) (auto simp: prepare_notification_resolution_def result_simps Let_def split: if_splits)

lemma prepare_notification_claimed_staged_clear_attempt: "prepare_notification_claimed_staged_clear X p line = Inr pm \<Longrightarrow> is_attempt_mutation pm"
  by (cases line rule: notification_fact_cases) (auto simp: prepare_notification_claimed_staged_clear_def result_simps Let_def split: if_splits)

lemma prepare_notification_claimed_ack_timeout_reconciliation_attempt: "prepare_notification_claimed_ack_timeout_reconciliation X p line = Inr pm \<Longrightarrow> is_attempt_mutation pm"
  by (cases line rule: notification_fact_cases) (auto simp: prepare_notification_claimed_ack_timeout_reconciliation_def result_simps Let_def split: if_splits)

lemma prepare_notification_barrier_retirement_attempt: "prepare_notification_barrier_retirement X p line = Inr pm \<Longrightarrow> is_attempt_mutation pm"
  by (cases line rule: notification_fact_cases) (auto simp: prepare_notification_barrier_retirement_def result_simps Let_def split: if_splits)

lemmas wake_row_attempts =
  prepare_notification_transition_attempt
  prepare_unclaimed_reminder_queued_attempt
  prepare_notification_requeue_attempt
  prepare_notification_requeues_attempt
  prepare_notification_clear_attempt
  prepare_notification_clears_attempt
  prepare_notification_withdrawal_attempt
  prepare_notification_resolution_intent_attempt
  prepare_notification_resolution_action_reserved_attempt
  prepare_notification_resolution_action_accepted_attempt
  prepare_notification_resolution_consumption_observed_attempt
  prepare_notification_resolution_intent_withdrawn_attempt
  prepare_notification_resolution_without_terminal_action_attempt
  prepare_notification_resolution_attempt
  prepare_notification_claimed_staged_clear_attempt
  prepare_notification_claimed_ack_timeout_reconciliation_attempt
  prepare_notification_barrier_retirement_attempt

lemma prepared_event:
  assumes "prepare_line_inner X p line b = Inr pm"
  shows "mail_event_of line = event_of_prepared pm"
proof (cases "is_message line")
  case True
  then show ?thesis using prepared_message(1) [OF assms] by (auto simp: mail_event_of_def)
next
  case False
  then have st: "prepare_state X p line b = Inr pm"
    using assms by (auto simp: prepare_line_inner_def is_message_def result_simps Let_def split: kind.splits)
  then obtain data where data: "ln_data line = Some data"
    by (cases "ln_data line") (auto simp: prepare_state_def Let_def)
  consider (claim) "rd_type data = Some ''message_claimed''" | (direct) "rd_type data = Some ''message_delivered_direct''"
    | (wake) "rd_type data \<noteq> Some ''message_claimed''" "rd_type data \<noteq> Some ''message_delivered_direct''" by blast
  then show ?thesis
  proof cases
    case claim
    then show ?thesis using st data False prepared_claim_row [of X p line pm] by (auto simp: prepare_state_def mail_event_of_def)
  next
    case direct
    then show ?thesis using st data False prepared_direct_row [of p line pm] by (auto simp: prepare_state_def mail_event_of_def)
  next
    case wake
    then have "is_attempt_mutation pm"
      using st data by (simp add: prepare_state_def Let_def split: if_splits) (elim wake_row_attempts)+
    moreover have "mail_event_of line = NoMail"
      using wake data False by (auto simp: mail_event_of_def split: option.splits sum.splits mailbox_fact.splits)
    ultimately show ?thesis by (simp add: attempt_row_no_mail)
  qed
qed

section \<open>The projection is a post office\<close>

lemma post_follows:
  assumes inv: "projection_inv p" and acc: "apply_inner X p line b = Inr q"
  shows "post (post_office_of p) (mail_event_of line) = Some (post_office_of q)"
proof -
  obtain pm where prep: "prepare_line_inner X p line b = Inr pm" and "commit_line p line pm = Some q"
    using acc by (auto simp: apply_inner_Inr_iff)
  then have E: "get_entry q = entry_effect line pm (get_entry p)"
    using apply_inner_step [OF inv prep] by (metis option.inject)
  have minv: "mailbox_inv p" using inv by (simp add: projection_inv_def)
  have "post (post_office_of p) (event_of_prepared pm) = Some (post_office_of q)"
  proof (cases "is_attempt_mutation pm")
    case True
    then have "post_office_of q = post_office_of p"
      using E attempt_mutation_effects [OF True] by (simp add: post_office_of_def)
    then show ?thesis by (simp add: attempt_row_no_mail [OF True])
  next
    case False
    from prepare_line_inner_legal [OF prep] have "legal p line pm" by simp
    then show ?thesis
    proof (cases rule: legal.cases)
      case (message m md)
      have fresh: "\<forall>r. post_office_of p (r, m) = None"
        using entry_message [OF minv] message(4) by (fastforce simp: post_office_of_def)
      show ?thesis
      proof (cases "md_supersedes md")
        case None
        then have "post_office_of q = (\<lambda>(r, m'). if r \<in> set (md_recipients md) \<and> m' = m then Some Waiting
            else post_office_of p (r, m'))"
          using E message(1) by (auto simp: fun_eq_iff post_office_of_def superseded_entry_def option.map_comp comp_def)
        then show ?thesis using fresh message(1,7) None by simp
      next
        case (Some target)
        then obtain r where r: "supersedable p md target r" using message(10) by blast
        then have w: "post_office_of p (r, target) = Some Waiting" "md_recipients md = [r]"
          by (auto simp: supersedable_def pending_entry_def post_office_of_def)
        have "target \<noteq> m" using fresh w(1) by auto
        then have "post_office_of q = (post_office_of p)((r, target) \<mapsto> ReplacedBy m, (r, m) \<mapsto> Waiting)"
          using E message(1) Some w r
          by (auto simp: fun_eq_iff post_office_of_def superseded_entry_def option.map_comp comp_def supersedable_def
              pending_entry_def)
        then show ?thesis using fresh message(1) Some w by simp
      qed
    next
      case (claim r m)
      then have w: "post_office_of p (r, m) = Some Waiting" by (auto simp: pending_entry_def post_office_of_def)
      have "post_office_of q = (post_office_of p)((r, m) \<mapsto> TakenBy r)"
        using E claim by (auto simp: fun_eq_iff post_office_of_def pending_entry_def)
      then show ?thesis using claim w by simp
    next
      case (direct r m c a)
      then have w: "post_office_of p (r, m) = Some Waiting" by (auto simp: pending_entry_def post_office_of_def)
      have "post_office_of q = (post_office_of p)((r, m) \<mapsto> HandedOver a)"
        using E direct by (auto simp: fun_eq_iff post_office_of_def pending_entry_def)
      then show ?thesis using direct w by simp
    qed (use False in simp_all)
  qed
  then show ?thesis by (simp add: prepared_event [OF prep])
qed

interpretation mailbox: event_refinement "apply_replayed_owned X" projection_inv mail_event_of post_office_of post for X
  by unfold_locales (auto simp: apply_replayed_owned_def intro: apply_inner_inv post_follows)

text \<open>No event takes a letter away.\<close>

lemma post_persists: "post M v = Some N \<Longrightarrow> M k \<noteq> None \<Longrightarrow> N k \<noteq> None"
  by (cases v) (auto split: if_splits option.splits list.splits prod.splits)

end
