(* ===== verification/Mailbox_Views.thy ===== *)
theory Mailbox_Views
  imports Projection_Spec
begin

text \<open>
  The read side of \<open>cyclopsd/src/mailbox/projection.rs\<close>: alarms, notification lists, the
  mailbox list of one recipient, and the body-free views a caller receives
  (\<open>messages_snapshot\<close>, \<open>messages_follow\<close>, the attention rows and the blocked wakes of
  \<open>status\<close>), with the row types of \<open>cyclops-proto/src/wire.rs\<close>.

  A loop over the values of a \<open>HashMap\<close> runs in the order of the list that stands for it.
  A counter that the source raises once per row is the number of those rows.
\<close>

section \<open>Row types\<close>

datatype message_direction = Inbound | Outbound | SelfAddressed | Workspace

datatype message_notification_state =
    VNotStarted
  | VQueued
  | VGating
  | VWriting
  | VStaged
  | VSubmitted
  | VSubmittedUnverified
  | VNotified
  | VAttentionRequired
  | VSuperseded

text \<open>\<open>From<NotificationState>\<close>: the closed vocabulary that older clients decode.\<close>

fun message_notification_state_from :: "notification_state \<Rightarrow> message_notification_state" where
  "message_notification_state_from Queued = VQueued"
| "message_notification_state_from Gating = VGating"
| "message_notification_state_from BlockedPreWrite = VGating"
| "message_notification_state_from QuotaHeld = VAttentionRequired"
| "message_notification_state_from QuotaResetObserved = VAttentionRequired"
| "message_notification_state_from Writing = VWriting"
| "message_notification_state_from Staged = VStaged"
| "message_notification_state_from Submitting = VStaged"
| "message_notification_state_from Submitted = VSubmitted"
| "message_notification_state_from SubmittedUnverified = VSubmittedUnverified"
| "message_notification_state_from Notified = VNotified"
| "message_notification_state_from AttentionRequired = VAttentionRequired"
| "message_notification_state_from Withdrawn = VNotStarted"
| "message_notification_state_from WithdrawnByOperator = VNotStarted"
| "message_notification_state_from WithdrawnAfterStaging = VStaged"
| "message_notification_state_from Superseded = VSuperseded"

datatype message_quota_state = Held | ResetObserved

definition quota_from_notification :: "notification_state \<Rightarrow> message_quota_state option" where
  "quota_from_notification s =
     (case s of QuotaHeld \<Rightarrow> Some Held | QuotaResetObserved \<Rightarrow> Some ResetObserved | _ \<Rightarrow> None)"

datatype message_settlement = WithdrawnByClaim

definition settlement_from_notification :: "notification_state \<Rightarrow> message_settlement option" where
  "settlement_from_notification s =
     (if s \<in> {Withdrawn, WithdrawnAfterStaging} then Some WithdrawnByClaim else None)"

record notification_summary_data =
  ns_state :: message_notification_state
  ns_wake_block :: "message_wake_block option"
  ns_quota_state :: "message_quota_state option"
  ns_settlement :: "message_settlement option"
  ns_operator_withdrawn :: "bool option"
  ns_attempt_id :: "attempt_id option"
  ns_cause :: "attention_cause option"
  ns_verified_by :: "verified_by option"
  ns_verify_outcome :: "verify_outcome option"
  ns_pre_write_cause :: "pre_write_cause option"
  ns_pre_write_pane_width :: "nat option"
  ns_pre_write_required_pane_width :: "nat option"
  ns_pre_write_block :: "string option"
  ns_attention_cleared :: "bool option"
  ns_resolution :: "resolution option"
  ns_resolution_intent :: "resolution option"
  ns_resolution_action_accepted :: "resolution option"
  ns_resolution_consumption_observed :: "consumption_observation option"
  ns_updated_at :: "nat option"

definition pane_width_block :: "notification_summary_data \<Rightarrow> (nat \<times> nat) option" where
  "pane_width_block n =
     (if ns_pre_write_cause n \<noteq> Some WriteReadinessChanged then None
      else case (ns_pre_write_pane_width n, ns_pre_write_required_pane_width n) of
        (Some observed, Some required) \<Rightarrow> if observed < required then Some (observed, required) else None
      | _ \<Rightarrow> None)"

record message_recipient_summary =
  rs_recipient :: recipient_key
  rs_label :: string
  rs_direction :: message_direction
  rs_needs_action :: bool
  rs_can_manage_attention :: bool
  rs_can_withdraw_notification :: bool
  rs_current_route :: "message_recipient_route option"
  rs_available :: bool
  rs_mailbox :: mailbox_entry_state
  rs_fifo_position :: "nat option"
  rs_notification :: notification_summary_data

record message_snapshot_row =
  sr_message_id :: message_id
  sr_seq :: nat
  sr_ts :: nat
  sr_kind :: kind
  sr_direction :: message_direction
  sr_sender :: recipient_key
  sr_sender_label :: string
  sr_recipients :: "message_recipient_summary list"
  sr_subject :: "string option"
  sr_reply_to :: "message_id option"
  sr_thread_root :: message_id
  sr_thread_message_count :: nat
  sr_active :: bool
  sr_needs_action :: bool

record messages_snapshot_counts =
  ct_visible_messages :: nat
  ct_returned_messages :: nat
  ct_inbox_messages :: nat
  ct_outbound_messages :: nat
  ct_work_messages :: nat
  ct_active_messages :: nat
  ct_settled_messages :: nat
  ct_pending_entries :: nat
  ct_claimed_entries :: nat
  ct_open_attention_entries :: nat

record open_delivery =
  od_id :: string
  od_to :: string
  od_recipient :: "recipient_key option"
  od_state :: delivery_state
  od_ts :: nat
  od_cause :: "string option"
  od_attempt_id :: "attempt_id option"

record messages_snapshot_result =
  sn_workspace_id :: Identity.workspace_id
  sn_caller :: "recipient_key option"
  sn_workspace_seq :: nat
  sn_counts :: messages_snapshot_counts
  sn_rows :: "message_snapshot_row list"
  sn_mailbox_attention :: "open_delivery list"

record messages_follow_result =
  fo_workspace_id :: Identity.workspace_id
  fo_after_seq :: nat
  fo_through_seq :: nat
  fo_has_more :: bool
  fo_rows :: "message_snapshot_row list"

record mailbox_list_item =
  li_entry :: mailbox_entry
  li_kind :: kind
  li_sender :: recipient_key
  li_sender_label :: string
  li_recipient_label :: string
  li_subject :: "string option"
  li_reply_to :: "message_id option"
  li_thread_root :: message_id

datatype status_next_action = WithdrawNotification

record status_blocked_notification =
  bn_message_id :: message_id
  bn_notification_attempt :: attempt_id
  bn_recipient :: message_recipient_summary
  bn_waiting_age_ms :: nat
  bn_next_action :: "status_next_action option"

record blocked_notification_snapshot_data =
  bs_rows :: "status_blocked_notification list"
  bs_total :: nat

section \<open>Lists of notifications\<close>

definition claimed_operator_notification :: "mailbox_projection \<Rightarrow> recipient_key \<Rightarrow> notification_record option" where
  "claimed_operator_notification p r =
     min_by_key nr_started_seq
       (filter (\<lambda>c. nr_recipient c = r \<and> nr_transport c = Doorbell \<and>
           nr_state c \<in> {Queued, Gating, BlockedPreWrite, QuotaHeld, QuotaResetObserved, Writing, Staged, Submitting} \<and>
           is_some_and (get_entry p r (nr_message_id c)) (\<lambda>e. is_claimed (me_state e)))
         (hm_values (notifications p)))"

definition notification_withdrawn_by_operator :: "mailbox_projection \<Rightarrow> recipient_key \<Rightarrow> message_id \<Rightarrow> bool" where
  "notification_withdrawn_by_operator p r m =
     is_some_and (notification p r m) (\<lambda>c. nr_state c = WithdrawnByOperator)"

definition active_barrier_list :: "mailbox_projection \<Rightarrow> notification_record list" where
  "active_barrier_list p = sort_key nr_started_seq (hm_values (active_notification_barriers p))"

definition gating_notifications :: "mailbox_projection \<Rightarrow> notification_record list" where
  "gating_notifications p =
     sort_key nr_started_seq (filter (\<lambda>c. nr_state c = Gating) (hm_values (notifications p)))"

definition open_alarm :: "mailbox_projection \<Rightarrow> notification_record \<Rightarrow> bool" where
  "open_alarm p c =
     (nr_state c = AttentionRequired \<and> \<not> hm_contains_key (resolved_attempts p) (nr_attempt_id c) \<and>
      \<not> hs_contains (cleared_attempts p) (nr_attempt_id c))"

definition open_alarms :: "extern \<Rightarrow> mailbox_projection \<Rightarrow> notification_record list" where
  "open_alarms X p =
     sort_key (\<lambda>c. (nr_updated_at c, ''att-'' @ uuid_text X (nr_attempt_id c)))
       (filter (open_alarm p) (hm_values (notifications p)))"

definition open_alarms_for_message :: "extern \<Rightarrow> mailbox_projection \<Rightarrow> message_id \<Rightarrow> notification_record list" where
  "open_alarms_for_message X p m = filter (\<lambda>c. nr_message_id c = m) (open_alarms X p)"

definition requeueable_for_message :: "mailbox_projection \<Rightarrow> message_id \<Rightarrow> notification_record list" where
  "requeueable_for_message p m =
     sort_key nr_started_seq
       (filter (\<lambda>c. nr_message_id c = m \<and>
           (nr_state c = QuotaResetObserved \<or>
            (nr_state c = AttentionRequired \<and> \<not> hs_contains (cleared_attempts p) (nr_attempt_id c))) \<and>
           \<not> hm_contains_key (resolved_attempts p) (nr_attempt_id c))
         (hm_values (notifications p)))"

definition notifications_for :: "mailbox_projection \<Rightarrow> recipient_key \<Rightarrow> notification_record list" where
  "notifications_for p r =
     sort_key nr_started_seq (filter (\<lambda>c. nr_recipient c = r) (hm_values (notifications p)))"

definition pending_count :: "mailbox_projection \<Rightarrow> recipient_key \<Rightarrow> nat" where
  "pending_count p r =
     (case hm_get (mailboxes p) r of
        None \<Rightarrow> 0
      | Some mb \<Rightarrow> length (filter (\<lambda>e. is_pending (me_state e)) (bt_values mb)))"

section \<open>Labels and the mailbox list\<close>

text \<open>\<open>iter().position(..)\<close>.\<close>

fun position :: "('a \<Rightarrow> bool) \<Rightarrow> 'a list \<Rightarrow> nat option" where
  "position P [] = None"
| "position P (x # xs) = (if P x then Some 0 else map_option Suc (position P xs))"

definition stored_label :: "extern \<Rightarrow> mailbox_projection \<Rightarrow> recipient_key \<Rightarrow> mailbox_entry \<Rightarrow> string option" where
  "stored_label X p r e =
     Option.bind (hm_get (messages p) (me_message_id e)) (\<lambda>line.
     case extract_message_metadata line of
       Inl _ \<Rightarrow> None
     | Inr md \<Rightarrow>
         (case presentation_labels X (md_recipients md) (md_presentation md) of
            Inl _ \<Rightarrow> None
          | Inr (_, labels) \<Rightarrow>
              Option.bind (position (\<lambda>k. k = r) (md_recipients md)) (\<lambda>i.
                if i < length labels then Some (labels ! i) else None)))"

fun first_label :: "('a \<Rightarrow> 'b option) \<Rightarrow> 'a list \<Rightarrow> 'b option" where
  "first_label f [] = None"
| "first_label f (x # xs) = (case f x of Some y \<Rightarrow> Some y | None \<Rightarrow> first_label f xs)"

definition recipient_label :: "extern \<Rightarrow> mailbox_projection \<Rightarrow> recipient_key \<Rightarrow> string option" where
  "recipient_label X p r =
     Option.bind (hm_get (mailboxes p) r) (\<lambda>entries. first_label (stored_label X p r) (rev (bt_values entries)))"

text \<open>
  \<open>recipient_labels[recipient_index]\<close> is in range: \<open>presentation_labels\<close> returns one label per
  recipient and the index is a position among the recipients.
\<close>

definition list_item ::
  "extern \<Rightarrow> mailbox_projection \<Rightarrow> recipient_key \<Rightarrow> mailbox_entry \<Rightarrow> (mailbox_error, mailbox_list_item) result" where
  "list_item X p r e =
     rbind (ok_or (hm_get (messages p) (me_message_id e)) (Mail (MessageNotFound (me_message_id e)))) (\<lambda>line.
     rbind (extract_message_metadata line) (\<lambda>md.
     rbind (presentation_labels X (md_recipients md) (md_presentation md)) (\<lambda>(sender, labels).
     rbind (ok_or (position (\<lambda>k. k = r) (md_recipients md)) (Mail (EntryNotFound (me_message_id e) r))) (\<lambda>i.
     rbind (line_reply_to line) (\<lambda>reply_to.
     Inr \<lparr> li_entry = e, li_kind = ln_kind line, li_sender = md_sender md, li_sender_label = sender,
           li_recipient_label = labels ! i, li_subject = ln_subject line, li_reply_to = reply_to,
           li_thread_root = md_thread_root md \<rparr>)))))"

definition list_mailbox ::
  "extern \<Rightarrow> mailbox_projection \<Rightarrow> recipient_key \<Rightarrow> (mailbox_error, mailbox_list_item list) result" where
  "list_mailbox X p r = try_map (list_item X p r) (get_pending p r)"

section \<open>Notification summaries\<close>

definition no_notification :: notification_summary_data where
  "no_notification =
     \<lparr> ns_state = VNotStarted, ns_wake_block = None, ns_quota_state = None, ns_settlement = None,
       ns_operator_withdrawn = None, ns_attempt_id = None, ns_cause = None, ns_verified_by = None,
       ns_verify_outcome = None, ns_pre_write_cause = None, ns_pre_write_pane_width = None,
       ns_pre_write_required_pane_width = None, ns_pre_write_block = None, ns_attention_cleared = None,
       ns_resolution = None, ns_resolution_intent = None, ns_resolution_action_accepted = None,
       ns_resolution_consumption_observed = None, ns_updated_at = None \<rparr>"

definition while_unresolved :: "'a option \<Rightarrow> 'b option \<Rightarrow> 'b option" where
  "while_unresolved resolved v = (if resolved = None then v else None)"

definition notification_summary ::
  "mailbox_projection \<Rightarrow> notification_record option \<Rightarrow> notification_summary_data" where
  "notification_summary p rec =
     (case rec of
        None \<Rightarrow> no_notification
      | Some c \<Rightarrow>
          let a = nr_attempt_id c;
              resolved = hm_get (resolved_attempts p) a;
              width_block = notification_pre_write_width_block c
          in \<lparr> ns_state = message_notification_state_from (nr_state c),
               ns_wake_block = notification_wake_block c (attention_resolution_pending p a),
               ns_quota_state = quota_from_notification (nr_state c),
               ns_settlement = settlement_from_notification (nr_state c),
               ns_operator_withdrawn = (if nr_state c = WithdrawnByOperator then Some True else None),
               ns_attempt_id = Some a,
               ns_cause = nr_cause c,
               ns_verified_by = nr_verified_by c,
               ns_verify_outcome = nr_verify_outcome c,
               ns_pre_write_cause = nr_pre_write_cause c,
               ns_pre_write_pane_width = map_option fst width_block,
               ns_pre_write_required_pane_width = map_option snd width_block,
               ns_pre_write_block = Option.bind (nr_pre_write_observation c) ob_write_block,
               ns_attention_cleared = (if nr_state c = AttentionRequired then Some (alarm_cleared p a) else None),
               ns_resolution = resolved,
               ns_resolution_intent = while_unresolved resolved (hm_get (resolution_intents p) a),
               ns_resolution_action_accepted = while_unresolved resolved (hm_get (resolution_actions_accepted p) a),
               ns_resolution_consumption_observed =
                 while_unresolved resolved
                   (Option.bind (hm_get (resolution_consumptions p) a) (\<lambda>ob.
                      if proves_exact_consumption (co_evidence ob) then Some ob else None)),
               ns_updated_at = Some (nr_updated_at c) \<rparr>)"

section \<open>Attention rows\<close>

definition delivery_pre_write_cause :: "string \<Rightarrow> string" where
  "delivery_pre_write_cause reason = ''blocked_pre_write:'' @ reason"

definition delivery_pre_write_reason :: "string \<Rightarrow> string option" where
  "delivery_pre_write_reason cause =
     Option.bind (strip_prefix ''blocked_pre_write:'' cause) (\<lambda>reason. if reason = [] then None else Some reason)"

text \<open>The name serde writes for a cause (\<open>rename_all = "snake_case"\<close>).\<close>

fun attention_cause_name :: "attention_cause \<Rightarrow> string" where
  "attention_cause_name PasteFailed = ''paste_failed''"
| "attention_cause_name VerifyFailed = ''verify_failed''"
| "attention_cause_name PaneReboundAfterPaste = ''pane_rebound_after_paste''"
| "attention_cause_name SubmitFailed = ''submit_failed''"
| "attention_cause_name ReceiptOccupantChanged = ''receipt_occupant_changed''"
| "attention_cause_name AckTimeout = ''ack_timeout''"
| "attention_cause_name DaemonRestart = ''daemon_restart''"
| "attention_cause_name TransportOutcomeUnknown = ''transport_outcome_unknown''"

text \<open>\<open>Option::or_else\<close>.\<close>

definition or_else :: "'a option \<Rightarrow> 'a option \<Rightarrow> 'a option" where
  "or_else v w = (case v of Some x \<Rightarrow> Some x | None \<Rightarrow> w)"

definition attention_state_and_cause :: "notification_record \<Rightarrow> delivery_state \<times> string option" where
  "attention_state_and_cause c =
     (case nr_state c of
        QuotaHeld \<Rightarrow> (DParkedBlockedQuota, Some ''quota_held'')
      | QuotaResetObserved \<Rightarrow> (DParkedBlockedQuota, Some ''quota_reset_observed'')
      | BlockedPreWrite \<Rightarrow>
          (let why = or_else (Option.bind (nr_pre_write_observation c) ob_write_block)
                 (or_else (map_option pre_write_wire_name (nr_pre_write_cause c))
                    (map_option wake_block_wire_name (nr_wake_block c)))
           in (DAttentionRequired,
               Some (delivery_pre_write_cause (case why of Some w \<Rightarrow> w | None \<Rightarrow> ''unknown''))))
      | _ \<Rightarrow> (DAttentionRequired,
              or_else (map_option attention_cause_name (nr_cause c)) (map_option wake_block_wire_name (nr_wake_block c))))"

definition attention_row ::
  "extern \<Rightarrow> (recipient_key, string) hash_map \<Rightarrow> notification_record \<Rightarrow> open_delivery" where
  "attention_row X labels c =
     (case attention_state_and_cause c of (st, cause) \<Rightarrow>
       \<lparr> od_id = nr_message_id c,
         od_to = (case hm_get labels (nr_recipient c) of Some l \<Rightarrow> l | None \<Rightarrow> key_to_string X (nr_recipient c)),
         od_recipient = Some (nr_recipient c), od_state = st, od_ts = nr_updated_at c, od_cause = cause,
         od_attempt_id = Some (nr_attempt_id c) \<rparr>)"

text \<open>The candidate of one recipient: the notification of its oldest pending entry, when it is held.\<close>

definition held_head :: "mailbox_projection \<Rightarrow> recipient_key \<Rightarrow> notification_record option" where
  "held_head p r =
     (case get_pending p r of
        [] \<Rightarrow> None
      | head # _ \<Rightarrow>
          (case hm_get (notifications p) (r, me_message_id head) of
             None \<Rightarrow> None
           | Some c \<Rightarrow>
               if hm_contains_key (resolved_attempts p) (nr_attempt_id c) then None
               else if nr_state c \<in> {AttentionRequired, QuotaHeld, QuotaResetObserved, BlockedPreWrite} then Some c
               else None))"

text \<open>\<open>push\<close>: an attempt and an entry are listed at most once.\<close>

fun push_rows ::
  "(notification_record \<Rightarrow> 'row) \<Rightarrow> attempt_id hash_set \<Rightarrow> entry_key hash_set \<Rightarrow> notification_record list \<Rightarrow> 'row list" where
  "push_rows row seen_attempts seen [] = []"
| "push_rows row seen_attempts seen (c # cs) =
     (if hs_contains seen_attempts (nr_attempt_id c) then push_rows row seen_attempts seen cs
      else
        let seen_attempts' = hs_insert (nr_attempt_id c) seen_attempts; k = (nr_recipient c, nr_message_id c) in
        if hs_contains seen k then push_rows row seen_attempts' seen cs
        else row c # push_rows row seen_attempts' (hs_insert k seen) cs)"

definition mailbox_attention_rows ::
  "extern \<Rightarrow> mailbox_projection \<Rightarrow> (recipient_key, string) hash_map \<Rightarrow> open_delivery list" where
  "mailbox_attention_rows X p labels =
     push_rows (attention_row X labels) [] []
       (open_alarms X p @ List.map_filter (held_head p) (map fst (mailboxes p)))"

section \<open>The snapshot\<close>

type_synonym route_table = "(recipient_key, message_recipient_route) hash_map"

text \<open>One-based positions of the pending entries whose wake no operator withdrew.\<close>

definition fifo_entry :: "mailbox_projection \<Rightarrow> recipient_key \<Rightarrow> mailbox_entry \<Rightarrow> bool" where
  "fifo_entry p r e = (is_pending (me_state e) \<and> \<not> notification_withdrawn_by_operator p r (me_message_id e))"

fun number_entries ::
  "mailbox_projection \<Rightarrow> recipient_key \<Rightarrow> (mailbox_entry \<Rightarrow> bool) \<Rightarrow> nat \<Rightarrow> mailbox_entry list \<Rightarrow>
   (entry_key, nat) hash_map \<Rightarrow> (entry_key, nat) hash_map" where
  "number_entries p r wanted pos [] positions = positions"
| "number_entries p r wanted pos (e # es) positions =
     (if fifo_entry p r e
      then number_entries p r wanted (pos + 1) es
             (if wanted e then hm_insert (r, me_message_id e) (pos + 1) positions else positions)
      else number_entries p r wanted pos es positions)"

definition fifo_positions :: "mailbox_projection \<Rightarrow> (entry_key, nat) hash_map" where
  "fifo_positions p =
     fold (\<lambda>(r, entries) positions. number_entries p r (\<lambda>_. True) 0 (bt_values entries) positions) (mailboxes p) []"

definition visible_to :: "recipient_key \<Rightarrow> message_metadata \<Rightarrow> bool" where
  "visible_to caller md = (is_admin caller \<or> md_sender md = caller \<or> caller \<in> set (md_recipients md))"

definition visible_messages ::
  "mailbox_projection \<Rightarrow> recipient_key \<Rightarrow> (mailbox_error, (ledger_line \<times> message_metadata) list) result" where
  "visible_messages p caller =
     rbind (try_map (\<lambda>line. rbind (extract_message_metadata line) (\<lambda>md. Inr (line, md))) (hm_values (messages p)))
       (\<lambda>ms. Inr (sort_key (\<lambda>(line, md). ln_seq line) (filter (\<lambda>(line, md). visible_to caller md) ms)))"

definition thread_counts :: "(ledger_line \<times> message_metadata) list \<Rightarrow> (message_id, nat) hash_map" where
  "thread_counts visible =
     fold (\<lambda>(line, md) counts.
         hm_insert (md_thread_root md)
           ((case hm_get counts (md_thread_root md) of None \<Rightarrow> 0 | Some n \<Rightarrow> n) + 1) counts)
       visible []"

definition direction_of :: "bool \<Rightarrow> bool \<Rightarrow> message_direction" where
  "direction_of sent received =
     (case (sent, received) of
        (True, True) \<Rightarrow> SelfAddressed
      | (True, False) \<Rightarrow> Outbound
      | (False, True) \<Rightarrow> Inbound
      | (False, False) \<Rightarrow> Workspace)"

definition attention_open :: "notification_summary_data \<Rightarrow> bool" where
  "attention_open n = (ns_attention_cleared n = Some False \<and> ns_resolution n = None)"

definition quota_open :: "notification_record option \<Rightarrow> bool" where
  "quota_open rec = is_some_and rec (\<lambda>c. nr_state c \<in> {QuotaHeld, QuotaResetObserved})"

text \<open>Does one recipient keep its message among the active rows?\<close>

definition recipient_active :: "mailbox_entry \<Rightarrow> notification_record option \<Rightarrow> notification_summary_data \<Rightarrow> bool" where
  "recipient_active e rec n =
     (is_pending (me_state e) \<or>
      (case rec of
         None \<Rightarrow> False
       | Some c \<Rightarrow> attention_open n \<or> quota_open rec \<or> \<not> is_terminal (nr_state c)))"

definition recipient_summary ::
  "mailbox_projection \<Rightarrow> recipient_key \<Rightarrow> route_table \<Rightarrow> (entry_key, nat) hash_map \<Rightarrow> message_id \<Rightarrow> recipient_key \<Rightarrow>
   mailbox_entry \<Rightarrow> recipient_key \<Rightarrow> string \<Rightarrow> notification_record option \<Rightarrow> message_recipient_summary" where
  "recipient_summary p caller live_routes positions m r e sender label rec =
     (let n = notification_summary p rec;
          recipient_attention_open = (ns_state n = VAttentionRequired \<and> attention_open n);
          recipient_pre_write_blocked = (ns_pre_write_cause n \<noteq> None \<and> ns_operator_withdrawn n \<noteq> Some True)
      in \<lparr> rs_recipient = r, rs_label = label, rs_direction = direction_of (sender = caller) (r = caller),
           rs_needs_action =
             (r = caller \<and> is_pending (me_state e) \<or>
              is_admin caller \<and>
                (recipient_attention_open \<or> ns_quota_state n \<noteq> None \<or> recipient_pre_write_blocked)),
           rs_can_manage_attention = (is_admin caller \<and> recipient_attention_open \<and> ns_resolution_intent n = None),
           rs_can_withdraw_notification =
             (is_admin caller \<and> is_pending (me_state e) \<and>
              is_some_and rec (\<lambda>c. can_withdraw_before_write (nr_state c))),
           rs_current_route = hm_get live_routes r,
           rs_available = (is_admin r \<or> hm_contains_key live_routes r),
           rs_mailbox = me_state e, rs_fifo_position = hm_get positions (r, m), rs_notification = n \<rparr>)"

text \<open>One turn of the loop over the recipients of a message.\<close>

record recipient_turn =
  tu_summary :: message_recipient_summary
  tu_entry :: mailbox_entry
  tu_active :: bool
  tu_open_attention :: bool

definition recipient_turn_of ::
  "mailbox_projection \<Rightarrow> recipient_key \<Rightarrow> route_table \<Rightarrow> (entry_key, nat) hash_map \<Rightarrow> message_id \<Rightarrow> recipient_key \<Rightarrow>
   recipient_key \<times> string \<Rightarrow> (mailbox_error, recipient_turn) result" where
  "recipient_turn_of p caller live_routes positions m sender = (\<lambda>(r, label).
     rbind (ok_or (get_entry p r m) (Mail (EntryNotFound m r))) (\<lambda>e.
     let rec = notification p r m; n = notification_summary p rec in
     Inr \<lparr> tu_summary = recipient_summary p caller live_routes positions m r e sender label rec,
           tu_entry = e, tu_active = recipient_active e rec n,
           tu_open_attention = (rec \<noteq> None \<and> (attention_open n \<or> quota_open rec)) \<rparr>))"

text \<open>One turn of the loop over the visible messages.\<close>

record message_turn =
  mt_row :: message_snapshot_row
  mt_sent :: bool
  mt_received :: bool
  mt_recipients :: "recipient_turn list"

definition message_turn_of ::
  "extern \<Rightarrow> mailbox_projection \<Rightarrow> recipient_key \<Rightarrow> route_table \<Rightarrow> (entry_key, nat) hash_map \<Rightarrow> (message_id, nat) hash_map \<Rightarrow>
   ledger_line \<times> message_metadata \<Rightarrow> (mailbox_error, message_turn) result" where
  "message_turn_of X p caller live_routes positions threads = (\<lambda>(line, md).
     rbind (of_type_result (message_id_new (ln_id line))) (\<lambda>m.
     rbind (presentation_labels X (md_recipients md) (md_presentation md)) (\<lambda>(_, labels).
     rbind (try_map (recipient_turn_of p caller live_routes positions m (md_sender md))
              (zip (md_recipients md) labels)) (\<lambda>turns.
     let sent = (md_sender md = caller); received = (caller \<in> set (md_recipients md));
         caller_pending = list_ex (\<lambda>t. rs_recipient (tu_summary t) = caller \<and> is_pending (me_state (tu_entry t))) turns;
         row_has_admin_work = list_ex (\<lambda>t. rs_can_manage_attention (tu_summary t) \<or>
             ns_pre_write_cause (rs_notification (tu_summary t)) \<noteq> None) turns
     in rbind (line_reply_to line) (\<lambda>reply_to.
     Inr \<lparr> mt_row =
             \<lparr> sr_message_id = m, sr_seq = ln_seq line, sr_ts = ln_ts line, sr_kind = ln_kind line,
               sr_direction = direction_of sent received, sr_sender = md_sender md,
               sr_sender_label = sender_label (md_presentation md), sr_recipients = map tu_summary turns,
               sr_subject = ln_subject line, sr_reply_to = reply_to, sr_thread_root = md_thread_root md,
               sr_thread_message_count = (case hm_get threads (md_thread_root md) of Some n \<Rightarrow> n | None \<Rightarrow> 0),
               sr_active = list_ex tu_active turns,
               sr_needs_action = (caller_pending \<or> is_admin caller \<and> row_has_admin_work) \<rparr>,
           mt_sent = sent, mt_received = received, mt_recipients = turns \<rparr>)))))"

text \<open>Every active row, and the newest settled rows up to the bound.\<close>

fun trim_settled :: "nat \<Rightarrow> nat \<Rightarrow> message_snapshot_row list \<Rightarrow> message_snapshot_row list" where
  "trim_settled skip seen [] = []"
| "trim_settled skip seen (row # rows) =
     (if sr_active row then row # trim_settled skip seen rows
      else if seen \<ge> skip then row # trim_settled skip (seen + 1) rows
      else trim_settled skip (seen + 1) rows)"

definition snapshot_counts :: "message_turn list \<Rightarrow> nat \<Rightarrow> messages_snapshot_counts" where
  "snapshot_counts turns returned =
     (let recipients = concat (map mt_recipients turns);
          active = length (filter (\<lambda>t. sr_active (mt_row t)) turns);
          settled = length turns - active
      in \<lparr> ct_visible_messages = active + settled, ct_returned_messages = returned,
           ct_inbox_messages = length (filter mt_received turns),
           ct_outbound_messages = length (filter mt_sent turns),
           ct_work_messages = length (filter (\<lambda>t. sr_needs_action (mt_row t)) turns),
           ct_active_messages = active, ct_settled_messages = settled,
           ct_pending_entries = length (filter (\<lambda>t. is_pending (me_state (tu_entry t))) recipients),
           ct_claimed_entries = length (filter (\<lambda>t. is_claimed (me_state (tu_entry t))) recipients),
           ct_open_attention_entries = length (filter tu_open_attention recipients) \<rparr>)"

definition last_seq_or_zero :: "mailbox_projection \<Rightarrow> nat" where
  "last_seq_or_zero p = (case last_workspace_seq p of None \<Rightarrow> 0 | Some s \<Rightarrow> s)"

definition messages_snapshot ::
  "extern \<Rightarrow> mailbox_projection \<Rightarrow> recipient_key \<Rightarrow> nat \<Rightarrow> route_table \<Rightarrow> (mailbox_error, messages_snapshot_result) result" where
  "messages_snapshot X p caller recent_settled live_routes =
     (if rk_workspace caller \<noteq> workspace_id p
      then Inl (Mail (WorkspaceMismatch (workspace_id p) (rk_workspace caller)))
      else
        rbind (visible_messages p caller) (\<lambda>visible.
        rbind (try_map (message_turn_of X p caller live_routes (fifo_positions p) (thread_counts visible)) visible) (\<lambda>turns.
        let settled = length (filter (\<lambda>t. \<not> sr_active (mt_row t)) turns);
            rows = trim_settled (settled - recent_settled) 0 (map mt_row turns)
        in Inr \<lparr> sn_workspace_id = workspace_id p, sn_caller = Some caller,
                 sn_workspace_seq = last_seq_or_zero p,
                 sn_counts = snapshot_counts turns (length rows), sn_rows = rows,
                 sn_mailbox_attention =
                   mailbox_attention_rows X p (map (\<lambda>(k, route). (k, rt_label route)) live_routes) \<rparr>)))"

definition messages_follow ::
  "extern \<Rightarrow> mailbox_projection \<Rightarrow> recipient_key \<Rightarrow> nat \<Rightarrow> nat \<Rightarrow> route_table \<Rightarrow> (mailbox_error, messages_follow_result) result" where
  "messages_follow X p caller after_seq limit live_routes =
     rbind (messages_snapshot X p caller u64_max live_routes) (\<lambda>snapshot.
     if after_seq > sn_workspace_seq snapshot
     then Inl (Mail (InvalidCursor after_seq (sn_workspace_seq snapshot)))
     else
       let rows = take (limit + 1) (filter (\<lambda>row. sr_seq row > after_seq) (sn_rows snapshot));
           has_more = (length rows > limit);
           rows = (if has_more then butlast rows else rows);
           through_seq = (if has_more then (if rows = [] then after_seq else sr_seq (last rows))
                          else sn_workspace_seq snapshot)
       in Inr \<lparr> fo_workspace_id = workspace_id p, fo_after_seq = after_seq, fo_through_seq = through_seq,
                fo_has_more = has_more, fo_rows = rows \<rparr>)"

section \<open>Blocked wakes\<close>

definition blocked_before_write :: "mailbox_projection \<Rightarrow> notification_record \<Rightarrow> bool" where
  "blocked_before_write p c =
     (nr_state c = BlockedPreWrite \<and> nr_pre_write_cause c \<noteq> None \<and>
      settlement_from_notification (nr_state c) = None \<and> \<not> hm_contains_key (resolved_attempts p) (nr_attempt_id c))"

type_synonym selection = "(nat \<times> nat \<times> attempt_id, notification_record) btree_map"

text \<open>One scanned record: the selection keeps the \<open>limit\<close> least keys (\<open>pop_last\<close>).\<close>

definition select_blocked ::
  "mailbox_projection \<Rightarrow> nat \<Rightarrow> notification_record \<Rightarrow> selection \<Rightarrow> (mailbox_error, selection) result" where
  "select_blocked p limit c selected =
     (if limit = 0 then Inr selected
      else
        rbind (ok_or (get_message p (nr_message_id c)) (Mail (MessageNotFound (nr_message_id c)))) (\<lambda>line.
        rbind (extract_message_metadata line) (\<lambda>md.
        rbind (ok_or (position (\<lambda>k. k = nr_recipient c) (md_recipients md))
                 (Mail (EntryNotFound (nr_message_id c) (nr_recipient c)))) (\<lambda>i.
        let selected' = bt_insert (ln_seq line, i, nr_attempt_id c) c selected in
        Inr (if length selected' > limit then butlast selected' else selected')))))"

fun select_all_blocked ::
  "mailbox_projection \<Rightarrow> nat \<Rightarrow> notification_record list \<Rightarrow> nat \<Rightarrow> selection \<Rightarrow> (mailbox_error, nat \<times> selection) result" where
  "select_all_blocked p limit [] found selected = Inr (found, selected)"
| "select_all_blocked p limit (c # cs) found selected =
     rbind (select_blocked p limit c selected) (\<lambda>selected'.
     select_all_blocked p limit cs (saturating_add_u64 found 1) selected')"

definition selected_by_recipient :: "notification_record list \<Rightarrow> (recipient_key, message_id hash_set) hash_map" where
  "selected_by_recipient records =
     fold (\<lambda>c groups.
         hm_insert (nr_recipient c)
           (hs_insert (nr_message_id c) (case hm_get groups (nr_recipient c) of None \<Rightarrow> [] | Some ms \<Rightarrow> ms)) groups)
       records []"

definition selected_positions ::
  "mailbox_projection \<Rightarrow> (recipient_key, message_id hash_set) hash_map \<Rightarrow> (entry_key, nat) hash_map" where
  "selected_positions p groups =
     fold (\<lambda>(r, wanted) positions.
         case hm_get (mailboxes p) r of
           None \<Rightarrow> positions
         | Some entries \<Rightarrow>
             number_entries p r (\<lambda>e. hs_contains wanted (me_message_id e)) 0 (bt_values entries) positions)
       groups []"

definition blocked_row ::
  "extern \<Rightarrow> mailbox_projection \<Rightarrow> recipient_key \<Rightarrow> route_table \<Rightarrow> nat \<Rightarrow> (entry_key, nat) hash_map \<Rightarrow> notification_record \<Rightarrow>
   (mailbox_error, status_blocked_notification) result" where
  "blocked_row X p caller live_routes now positions c =
     (let m = nr_message_id c; r = nr_recipient c in
      rbind (ok_or (get_message p m) (Mail (MessageNotFound m))) (\<lambda>line.
      rbind (extract_message_metadata line) (\<lambda>md.
      rbind (presentation_labels X (md_recipients md) (md_presentation md)) (\<lambda>(_, labels).
      rbind (ok_or (position (\<lambda>k. k = r) (md_recipients md)) (Mail (EntryNotFound m r))) (\<lambda>i.
      rbind (ok_or (get_entry p r m) (Mail (EntryNotFound m r))) (\<lambda>e.
      let row = recipient_summary p caller live_routes positions m r e (md_sender md) (labels ! i) (Some c) in
      Inr \<lparr> bn_message_id = m, bn_notification_attempt = nr_attempt_id c, bn_recipient = row,
            bn_waiting_age_ms = now - nr_updated_at c,
            bn_next_action = (if rs_can_withdraw_notification row then Some WithdrawNotification else None) \<rparr>))))))"

definition blocked_notification_snapshot ::
  "extern \<Rightarrow> mailbox_projection \<Rightarrow> recipient_key \<Rightarrow> route_table \<Rightarrow> nat \<Rightarrow> nat \<Rightarrow>
   (mailbox_error, blocked_notification_snapshot_data) result" where
  "blocked_notification_snapshot X p caller live_routes now limit =
     (if rk_workspace caller \<noteq> workspace_id p
      then Inl (Mail (WorkspaceMismatch (workspace_id p) (rk_workspace caller)))
      else
        rbind (select_all_blocked p limit (filter (blocked_before_write p) (hm_values (notifications p))) 0 []) (\<lambda>(found, selected).
        let records = bt_values selected; positions = selected_positions p (selected_by_recipient records) in
        rbind (try_map (blocked_row X p caller live_routes now positions) records) (\<lambda>rows.
        Inr \<lparr> bs_rows = rows, bs_total = found \<rparr>)))"

end
