(* ===== verification/Mailbox_View_Laws.thy ===== *)
theory Mailbox_View_Laws
  imports Mailbox_Views Journal_Order
begin

text \<open>
  What the views of \<open>Mailbox_Views\<close> show of a projection that a journal built: they never fail
  for a caller of the workspace, they list the messages the caller may see in journal order, and
  the positions they print are those of the notification queue.
\<close>

section \<open>Stored messages can be shown\<close>

text \<open>What a row of a view needs of its line.\<close>

definition showable :: "extern \<Rightarrow> ledger_line \<Rightarrow> bool" where
  "showable X line \<longleftrightarrow>
     message_id_new (ln_id line) = Inr (ln_id line) \<and> (\<exists>reply_to. line_reply_to line = Inr reply_to) \<and>
     (\<forall>md. extract_message_metadata line = Inr md \<longrightarrow>
        (\<exists>sender labels. presentation_labels X (md_recipients md) (md_presentation md) = Inr (sender, labels)))"

definition view_inv :: "extern \<Rightarrow> mailbox_projection \<Rightarrow> bool" where
  "view_inv X p \<longleftrightarrow>
     (\<forall>m line. hm_get (messages p) m = Some line \<longrightarrow> showable X line \<and> 0 < ln_seq line) \<and>
     (\<forall>m m' line line'. hm_get (messages p) m = Some line \<longrightarrow> hm_get (messages p) m' = Some line' \<longrightarrow>
        ln_seq line = ln_seq line' \<longrightarrow> m = m')"

lemma prepare_message_showable:
  assumes "prepare_message X p line = Inr pm"
  shows "showable X line"
  using assms
  by (auto simp: prepare_message_def showable_def check_message_labels_def of_type_result_def result_simps Let_def
      dest: message_id_new_Inr split: sum.splits)

lemma message_line_showable:
  assumes prep: "prepare_line_inner X p line b = Inr (PreparedMessage m md up)"
  shows "showable X line \<and> m = ln_id line"
proof -
  have "legal p line (PreparedMessage m md up)" using prepare_line_inner_legal [OF prep] by blast
  then have m: "m = ln_id line" "ln_kind line = Msg \<or> ln_kind line = Fyi" by (auto elim: legal.cases)
  then have "prepare_message X p line = Inr (PreparedMessage m md up)"
    using prep by (auto simp: prepare_line_inner_def result_simps Let_def)
  then show ?thesis using m prepare_message_showable by blast
qed

lemma stored_message:
  assumes "projection_inv p" and "hm_get (messages p) m = Some line"
  obtains md where "extract_message_metadata line = Inr md" "ln_id line = m" "ln_seq line \<le> seq_of p"
    "distinct (md_recipients md)" "\<And>r. r \<in> set (md_recipients md) \<Longrightarrow> \<exists>e. get_entry p r m = Some e \<and> me_seq e = ln_seq line"
proof -
  have inv: "messages_ok p" "entries_ok p" "index_ok p" using assms(1) by (simp_all add: projection_inv_def mailbox_inv_def)
  obtain md where md: "message_ok p m line md" using inv(1) assms(2) unfolding messages_ok_def by blast
  then have ex: "extract_message_metadata line = Inr md" by (simp add: message_ok_def)
  have "\<exists>e. get_entry p r m = Some e \<and> me_seq e = ln_seq line" if r: "r \<in> set (md_recipients md)" for r
  proof -
    have "r \<in> set (recipients_of line)" using ex r by (simp add: recipients_of_def)
    then have "hm_get (mailbox_index p) (r, m) = Some (ln_seq line)" using inv(3) assms(2) by (simp add: index_ok_def)
    then show ?thesis using entry_of_index [OF inv(2)] by blast
  qed
  then show thesis using that [OF ex] md by (auto simp: message_ok_def)
qed

lemma view_inv_new: "view_inv X (mailbox_projection_new ws)"
  by (simp add: view_inv_def mailbox_projection_new_def)

lemma view_inv_step:
  assumes inv: "projection_inv p" and view: "view_inv X p" and step: "apply_inner X p line b = Inr q"
  shows "view_inv X q"
proof -
  obtain pm where prep: "prepare_line_inner X p line b = Inr pm" using step by (auto simp: apply_inner_Inr_iff)
  obtain q' where "apply_inner X p line b = Inr q'" "messages q' = message_effect line pm (messages p)"
    using apply_inner_step [OF inv prep] by metis
  then have msgs: "messages q = message_effect line pm (messages p)" using step by simp
  show ?thesis
  proof (cases "\<exists>m md up. pm = PreparedMessage m md up")
    case True
    then obtain m md up where pm: "pm = PreparedMessage m md up" by blast
    have shown: "showable X line" using message_line_showable prep pm by blast
    have seq: "ln_seq line = Suc (seq_of p)" using prepare_line_inner_legal [OF prep] by blast
    then have "ln_seq old \<noteq> ln_seq line" if "hm_get (messages p) k = Some old" for k old
      using stored_message [OF inv that] by fastforce
    then show ?thesis using view shown seq msgs by (force simp: pm view_inv_def)
  next
    case False
    then have "messages q = messages p" using msgs by (cases pm) auto
    then show ?thesis using view by (simp add: view_inv_def)
  qed
qed

text \<open>A projection never changes its workspace.\<close>

lemma set_entry_state_workspace: "set_entry_state p r m st = Some q \<Longrightarrow> workspace_id q = workspace_id p"
  by (auto simp: set_entry_state_def bind_eq_Some_conv)

lemma add_entry_workspace [simp]: "workspace_id (add_entry m line r p) = workspace_id p"
  by (simp add: add_entry_def Let_def)

lemma add_entries_workspace [simp]: "workspace_id (fold (add_entry m line) rs p) = workspace_id p"
  by (induction rs arbitrary: p) simp_all

lemma commit_line_workspace:
  assumes "commit_line p line pm = Some q"
  shows "workspace_id q = workspace_id p"
proof (cases "is_attempt_mutation pm")
  case True
  then show ?thesis using attempt_mutation_core [OF True, of p line] assms by (auto simp: mailbox_core_def)
next
  case False
  then show ?thesis
    using assms
    by (cases pm) (auto simp: commit_line_def commit_message_def commit_superseded_entry_def commit_claim_def
        commit_claim_update_def bind_eq_Some_conv Let_def dest!: set_entry_state_workspace
        split: option.splits list.splits)
qed

lemma replay_view_inv:
  assumes "replay X (mailbox_projection_new ws) lines = Inr p"
  shows "projection_inv p" "view_inv X p" "workspace_id p = ws"
proof -
  show "projection_inv p" using replay_inv [OF projection_inv_new assms] .
  have run: "run_log (apply_replayed_owned X) (mailbox_projection_new ws) lines = Inr p"
    using assms by (simp add: replay_run_log)
  show "view_inv X p"
    by (rule projection.run_preserves [where P = "view_inv X", OF _ projection_inv_new view_inv_new run])
      (simp add: apply_replayed_owned_def view_inv_step)
  have "workspace_id t' = ws" if "workspace_id t = ws" "apply_replayed_owned X t e = Inr t'" for t e t'
    using that by (auto simp: apply_replayed_owned_def apply_inner_Inr_iff commit_line_workspace)
  moreover have "workspace_id (mailbox_projection_new ws) = ws" by (simp add: mailbox_projection_new_def)
  ultimately show "workspace_id p = ws"
    using projection.run_preserves [where P = "\<lambda>p. workspace_id p = ws", OF _ projection_inv_new _ run] by blast
qed

section \<open>The messages a caller sees\<close>

definition may_see :: "mailbox_projection \<Rightarrow> recipient_key \<Rightarrow> message_id \<Rightarrow> bool" where
  "may_see p caller m \<longleftrightarrow>
     (\<exists>line md. hm_get (messages p) m = Some line \<and> extract_message_metadata line = Inr md \<and> visible_to caller md)"

definition metadata_of :: "ledger_line \<Rightarrow> message_metadata" where
  "metadata_of line = projr (extract_message_metadata line)"

definition seen_lines :: "mailbox_projection \<Rightarrow> recipient_key \<Rightarrow> ledger_line list" where
  "seen_lines p caller = sort_key ln_seq (filter (\<lambda>line. visible_to caller (metadata_of line)) (hm_values (messages p)))"

lemma in_messages:
  assumes "projection_inv p"
  shows "line \<in> set (hm_values (messages p)) \<longleftrightarrow> hm_get (messages p) (ln_id line) = Some line"
proof -
  have ok: "hm_ok (messages p)" using assms by (simp add: projection_inv_def mailbox_inv_def messages_ok_def)
  have "ln_id line = m" if "hm_get (messages p) m = Some line" for m
    using stored_message [OF assms that] by blast
  then show ?thesis using in_hm_values [OF ok] by blast
qed

lemma filter_pairs: "filter (\<lambda>(x, y). P y) (map (\<lambda>x. (x, f x)) xs) = map (\<lambda>x. (x, f x)) (filter (\<lambda>x. P (f x)) xs)"
  by (induction xs) auto

lemma sort_key_map: "sort_key g (map f xs) = map f (sort_key (\<lambda>x. g (f x)) xs)"
proof -
  have "insort_key g (f x) (map f ys) = map f (insort_key (\<lambda>x. g (f x)) x ys)" for x ys
    by (induction ys) auto
  then show ?thesis by (induction xs) simp_all
qed

lemma visible_messages_seen:
  assumes inv: "projection_inv p"
  shows "visible_messages p caller = Inr (map (\<lambda>line. (line, metadata_of line)) (seen_lines p caller))"
proof -
  have "extract_message_metadata line = Inr (metadata_of line)" if "line \<in> set (hm_values (messages p))" for line
    using stored_message [OF inv] that in_messages [OF inv] by (metis metadata_of_def sum.sel(2))
  then have "try_map (\<lambda>line. rbind (extract_message_metadata line) (\<lambda>md. Inr (line, md))) (hm_values (messages p)) =
      Inr (map (\<lambda>line. (line, metadata_of line)) (hm_values (messages p)))"
    by (intro try_map_all_Inr) simp
  then show ?thesis by (simp add: visible_messages_def seen_lines_def filter_pairs sort_key_map)
qed

lemma seen_lines_ids:
  assumes inv: "projection_inv p"
  shows "ln_id ` set (seen_lines p caller) = {m. may_see p caller m}"
    and "\<And>line. line \<in> set (seen_lines p caller) \<Longrightarrow> hm_get (messages p) (ln_id line) = Some line"
proof -
  have md: "extract_message_metadata line = Inr md \<Longrightarrow> metadata_of line = md" for line md
    by (simp add: metadata_of_def)
  show "\<And>line. line \<in> set (seen_lines p caller) \<Longrightarrow> hm_get (messages p) (ln_id line) = Some line"
    using in_messages [OF inv] by (auto simp: seen_lines_def)
  show "ln_id ` set (seen_lines p caller) = {m. may_see p caller m}"
  proof (intro set_eqI iffI)
    fix m assume "m \<in> ln_id ` set (seen_lines p caller)"
    then obtain line where l: "m = ln_id line" "hm_get (messages p) (ln_id line) = Some line" "visible_to caller (metadata_of line)"
      using in_messages [OF inv] by (auto simp: seen_lines_def)
    obtain m' where "extract_message_metadata line = Inr m'" using stored_message [OF inv l(2)] by blast
    then show "m \<in> {m. may_see p caller m}" using l md by (auto simp: may_see_def)
  next
    fix m assume "m \<in> {m. may_see p caller m}"
    then obtain line m' where l: "hm_get (messages p) m = Some line" "extract_message_metadata line = Inr m'" "visible_to caller m'"
      by (auto simp: may_see_def)
    moreover have "ln_id line = m" using stored_message [OF inv l(1)] by blast
    ultimately show "m \<in> ln_id ` set (seen_lines p caller)"
      using in_messages [OF inv] md by (auto simp: seen_lines_def)
  qed
qed

lemma seen_line:
  assumes inv: "projection_inv p" and line: "hm_get (messages p) m = Some line" and see: "may_see p caller m"
  shows "line \<in> set (seen_lines p caller)"
proof -
  have "m \<in> ln_id ` set (seen_lines p caller)" unfolding seen_lines_ids(1) [OF inv] using see by simp
  then obtain l where l: "l \<in> set (seen_lines p caller)" "ln_id l = m" by auto
  then have "l = line" using seen_lines_ids(2) [OF inv l(1)] line by simp
  then show ?thesis using l by simp
qed

lemma admin_sees:
  assumes inv: "projection_inv p" and line: "hm_get (messages p) m = Some line" and admin: "is_admin caller"
  shows "line \<in> set (seen_lines p caller)"
proof (rule seen_line [OF inv line])
  obtain md where "extract_message_metadata line = Inr md" using stored_message [OF inv line] by blast
  then show "may_see p caller m" using line admin by (auto simp: may_see_def visible_to_def)
qed

lemma seen_lines_ordered:
  assumes inv: "projection_inv p" and view: "view_inv X p"
  shows "sorted_wrt (<) (map ln_seq (seen_lines p caller))"
proof -
  let ?f = "filter (\<lambda>line. visible_to caller (metadata_of line)) (hm_values (messages p))"
  have ok: "hm_ok (messages p)" using inv by (simp add: projection_inv_def mailbox_inv_def messages_ok_def)
  have id: "ln_id line = m" if "(m, line) \<in> set (messages p)" for m line
    using stored_message [OF inv] that hm_get_iff [OF ok] by metis
  then have "map ln_id (hm_values (messages p)) = map fst (messages p)" by (auto simp: hm_values_def)
  then have d: "distinct (map ln_id (hm_values (messages p)))" using ok by (simp add: hm_ok_def)
  have "inj_on ln_seq (set (hm_values (messages p)))"
    using view in_messages [OF inv] unfolding view_inv_def inj_on_def by (metis option.inject)
  then have "distinct (map ln_seq (hm_values (messages p)))" using d by (simp add: distinct_map)
  then have "distinct (map ln_seq ?f)" by (simp add: distinct_map_filter)
  then have "distinct (map ln_seq (seen_lines p caller))" by (simp add: seen_lines_def distinct_map)
  moreover have "sorted (map ln_seq (seen_lines p caller))" by (simp add: seen_lines_def)
  ultimately show ?thesis by (simp add: strict_sorted_iff)
qed

section \<open>Rows\<close>

lemma try_map_projr:
  assumes "\<And>x. x \<in> set xs \<Longrightarrow> \<exists>y. f x = Inr y"
  shows "try_map f xs = Inr (map (\<lambda>x. projr (f x)) xs)"
  using assms by (intro try_map_all_Inr) (metis sum.sel(2))

lemma presentation_labels_length:
  assumes "presentation_labels X rs pres = Inr (sender, labels)"
  shows "length labels = length rs"
  using assms by (auto simp: presentation_labels_def result_simps try_map_Inr_iff dest!: list_all2_lengthD)

text \<open>The turn of one visible message, in a projection where none fails.\<close>

definition message_turn_at :: "extern \<Rightarrow> mailbox_projection \<Rightarrow> recipient_key \<Rightarrow> route_table \<Rightarrow> ledger_line \<Rightarrow> message_turn" where
  "message_turn_at X p caller live_routes line =
     projr (message_turn_of X p caller live_routes (fifo_positions p)
       (thread_counts (map (\<lambda>l. (l, metadata_of l)) (seen_lines p caller))) (line, metadata_of line))"

lemma message_turn:
  assumes inv: "projection_inv p" and view: "view_inv X p" and line: "hm_get (messages p) m = Some line"
  obtains labels turns t where
    "message_turn_of X p caller live_routes positions threads (line, metadata_of line) = Inr t"
    "presentation_labels X (md_recipients (metadata_of line)) (md_presentation (metadata_of line)) =
       Inr (sender_label (md_presentation (metadata_of line)), labels)"
    "turns = map (\<lambda>x. projr (recipient_turn_of p caller live_routes positions m (md_sender (metadata_of line)) x))
       (zip (md_recipients (metadata_of line)) labels)"
    "mt_recipients t = turns" "sr_recipients (mt_row t) = map tu_summary turns"
    "sr_message_id (mt_row t) = m" "sr_seq (mt_row t) = ln_seq line" "sr_active (mt_row t) \<longleftrightarrow> list_ex tu_active turns"
    "sr_needs_action (mt_row t) \<longleftrightarrow>
       list_ex (\<lambda>t. rs_recipient (tu_summary t) = caller \<and> is_pending (me_state (tu_entry t))) turns \<or>
       is_admin caller \<and> list_ex (\<lambda>t. rs_can_manage_attention (tu_summary t) \<or>
         ns_pre_write_cause (rs_notification (tu_summary t)) \<noteq> None) turns"
proof -
  obtain md where md: "extract_message_metadata line = Inr md" "ln_id line = m"
    and entry: "\<And>r. r \<in> set (md_recipients md) \<Longrightarrow> \<exists>e. get_entry p r m = Some e"
    using stored_message [OF inv line] by metis
  have meta: "metadata_of line = md" using md by (simp add: metadata_of_def)
  have "showable X line" using view line by (auto simp: view_inv_def)
  then obtain sender labels reply_to where labels: "presentation_labels X (md_recipients md) (md_presentation md) = Inr (sender, labels)"
    and id: "message_id_new (ln_id line) = Inr (ln_id line)" and reply: "line_reply_to line = Inr reply_to"
    using md(1) by (auto simp: showable_def)
  have sender: "sender = sender_label (md_presentation md)" using labels by (auto simp: presentation_labels_def result_simps)
  let ?turn = "recipient_turn_of p caller live_routes positions m (md_sender md)"
  have "\<exists>y. ?turn x = Inr y" if x_in: "x \<in> set (zip (md_recipients md) labels)" for x
  proof -
    obtain r l where x: "x = (r, l)" by (cases x)
    obtain e where "get_entry p r m = Some e" using entry set_zip_leftD x_in unfolding x by metis
    then show ?thesis by (simp add: recipient_turn_of_def Let_def x)
  qed
  then have turns: "try_map ?turn (zip (md_recipients md) labels) = Inr (map (\<lambda>x. projr (?turn x)) (zip (md_recipients md) labels))"
    by (rule try_map_projr)
  show thesis
    using that [of _ labels] labels id reply turns md(2)
    by (simp add: message_turn_of_def of_type_result_def meta sender Let_def)
qed

section \<open>The settled rows a snapshot omits\<close>

lemma trim_settled_all [simp]: "skip \<le> seen \<Longrightarrow> trim_settled skip seen rows = rows"
  by (induction skip seen rows rule: trim_settled.induct) auto

lemma trim_settled_set: "set (trim_settled skip seen rows) \<subseteq> set rows"
  by (induction skip seen rows rule: trim_settled.induct) auto

lemma trim_settled_active: "row \<in> set rows \<Longrightarrow> sr_active row \<Longrightarrow> row \<in> set (trim_settled skip seen rows)"
  by (induction skip seen rows rule: trim_settled.induct) auto

lemma trim_settled_settled:
  "length (filter (\<lambda>row. \<not> sr_active row) (trim_settled skip seen rows)) =
   length (filter (\<lambda>row. \<not> sr_active row) rows) - (skip - seen)"
  by (induction skip seen rows rule: trim_settled.induct) auto

lemma trim_settled_sorted: "sorted_wrt R (map f rows) \<Longrightarrow> sorted_wrt R (map f (trim_settled skip seen rows))"
proof (induction skip seen rows rule: trim_settled.induct)
  case (2 skip seen row rows)
  have "R (f row) (f x)" if "x \<in> set (trim_settled skip k rows)" for x k
    using that "2.prems" trim_settled_set [of skip k rows] by auto
  then show ?case using 2 by simp
qed simp

section \<open>The snapshot\<close>

lemma snapshot_result:
  assumes inv: "projection_inv p" and view: "view_inv X p" and caller: "rk_workspace caller = workspace_id p"
  obtains s where "messages_snapshot X p caller n live_routes = Inr s" "sn_workspace_seq s = seq_of p"
    "sn_rows s = trim_settled
       (length (filter (\<lambda>row. \<not> sr_active row) (map (\<lambda>l. mt_row (message_turn_at X p caller live_routes l)) (seen_lines p caller))) - n) 0
       (map (\<lambda>l. mt_row (message_turn_at X p caller live_routes l)) (seen_lines p caller))"
    "ct_visible_messages (sn_counts s) = length (seen_lines p caller)"
    "ct_returned_messages (sn_counts s) = length (sn_rows s)"
proof -
  let ?visible = "map (\<lambda>line. (line, metadata_of line)) (seen_lines p caller)"
  let ?turn = "message_turn_of X p caller live_routes (fifo_positions p) (thread_counts ?visible)"
  have "\<exists>y. ?turn x = Inr y" if "x \<in> set ?visible" for x
    using that message_turn [OF inv view seen_lines_ids(2) [OF inv]] by (auto, metis)
  then have turns: "try_map ?turn ?visible = Inr (map (\<lambda>l. message_turn_at X p caller live_routes l) (seen_lines p caller))"
    using try_map_projr [of ?visible ?turn] by (simp add: message_turn_at_def o_def)
  show thesis
    using that turns caller
    by (simp add: messages_snapshot_def visible_messages_seen [OF inv] Let_def last_seq_or_zero_def seq_of_def
        snapshot_counts_def filter_map o_def)
qed

text \<open>The turn of one recipient is among those of its message.\<close>

lemma recipient_turn_in:
  assumes turn: "turns = map (\<lambda>x. projr (recipient_turn_of p caller live_routes positions m sender x)) (zip rs labels)"
    and len: "length labels = length rs" and i: "i < length rs" and e: "get_entry p (rs ! i) m = Some e"
  defines "rec \<equiv> notification p (rs ! i) m"
  shows "\<lparr> tu_summary = recipient_summary p caller live_routes positions m (rs ! i) e sender (labels ! i) rec,
     tu_entry = e, tu_active = recipient_active e rec (notification_summary p rec),
     tu_open_attention = (rec \<noteq> None \<and> (attention_open (notification_summary p rec) \<or> quota_open rec)) \<rparr> \<in> set turns"
proof -
  have "(rs ! i, labels ! i) \<in> set (zip rs labels)" using len i by (auto simp: in_set_zip)
  then show ?thesis
    using e unfolding turn rec_def by (force simp: recipient_turn_of_def Let_def intro: rev_image_eqI)
qed

lemma turn_at:
  fixes live_routes :: route_table
  assumes inv: "projection_inv p" and view: "view_inv X p" and line: "line \<in> set (seen_lines p caller)"
  defines "t \<equiv> message_turn_at X p caller live_routes line" and "md \<equiv> metadata_of line"
  obtains labels where
    "presentation_labels X (md_recipients md) (md_presentation md) = Inr (sender_label (md_presentation md), labels)"
    "mt_recipients t = map (\<lambda>x. projr (recipient_turn_of p caller live_routes (fifo_positions p) (ln_id line) (md_sender md) x))
       (zip (md_recipients md) labels)"
    "sr_recipients (mt_row t) = map tu_summary (mt_recipients t)" "sr_message_id (mt_row t) = ln_id line"
    "sr_seq (mt_row t) = ln_seq line" "sr_active (mt_row t) \<longleftrightarrow> list_ex tu_active (mt_recipients t)"
    "sr_needs_action (mt_row t) \<longleftrightarrow>
       list_ex (\<lambda>t. rs_recipient (tu_summary t) = caller \<and> is_pending (me_state (tu_entry t))) (mt_recipients t) \<or>
       is_admin caller \<and> list_ex (\<lambda>t. rs_can_manage_attention (tu_summary t) \<or>
         ns_pre_write_cause (rs_notification (tu_summary t)) \<noteq> None) (mt_recipients t)"
proof -
  let ?threads = "thread_counts (map (\<lambda>l. (l, metadata_of l)) (seen_lines p caller))"
  show thesis
  proof (rule message_turn [OF inv view seen_lines_ids(2) [OF inv line], of caller live_routes "fifo_positions p" ?threads])
    fix labels turns t'
    assume "message_turn_of X p caller live_routes (fifo_positions p) ?threads (line, metadata_of line) = Inr t'"
    then have t': "t' = t" by (simp add: t_def message_turn_at_def)
    assume labels: "presentation_labels X (md_recipients (metadata_of line)) (md_presentation (metadata_of line)) =
        Inr (sender_label (md_presentation (metadata_of line)), labels)"
      and turns: "turns = map (\<lambda>x. projr (recipient_turn_of p caller live_routes (fifo_positions p) (ln_id line)
          (md_sender (metadata_of line)) x)) (zip (md_recipients (metadata_of line)) labels)"
      and facts: "mt_recipients t' = turns" "sr_recipients (mt_row t') = map tu_summary turns"
        "sr_message_id (mt_row t') = ln_id line" "sr_seq (mt_row t') = ln_seq line"
        "sr_active (mt_row t') = list_ex tu_active turns"
        "sr_needs_action (mt_row t') =
          (list_ex (\<lambda>t. rs_recipient (tu_summary t) = caller \<and> is_pending (me_state (tu_entry t))) turns \<or>
           is_admin caller \<and> list_ex (\<lambda>t. rs_can_manage_attention (tu_summary t) \<or>
             ns_pre_write_cause (rs_notification (tu_summary t)) \<noteq> None) turns)"
    show thesis
      using labels facts(2-) unfolding t' turns [folded facts(1), unfolded t', symmetric] facts(1) [symmetric, unfolded t']
      by (intro that [of labels]) (simp_all only: md_def turns [folded facts(1), unfolded t'])
  qed
qed

lemma row_of_line:
  assumes inv: "projection_inv p" and view: "view_inv X p" and l: "line \<in> set (seen_lines p caller)"
  shows "sr_message_id (mt_row (message_turn_at X p caller live_routes line)) = ln_id line"
    and "sr_seq (mt_row (message_turn_at X p caller live_routes line)) = ln_seq line"
  by (rule turn_at [OF inv view l], assumption)+

lemma recipient_of_entry:
  assumes inv: "projection_inv p" and line: "hm_get (messages p) m = Some line" and e: "get_entry p r m = Some e"
  obtains i where "i < length (md_recipients (metadata_of line))" "md_recipients (metadata_of line) ! i = r"
proof -
  obtain md where md: "extract_message_metadata line = Inr md" using stored_message [OF inv line] by blast
  have ok: "entries_ok p" "index_ok p" using inv by (simp_all add: projection_inv_def mailbox_inv_def)
  have "hm_get (mailbox_index p) (r, m) \<noteq> None" using entry_ids [OF ok(1) e] by simp
  then have "r \<in> set (recipients_of line)"
    using ok(2) line unfolding index_ok_def by (metis (mono_tags, lifting) option.simps(5))
  then have "r \<in> set (md_recipients (metadata_of line))" using md by (simp add: recipients_of_def metadata_of_def)
  then show thesis using that by (metis in_set_conv_nth)
qed

text \<open>A message is active while an entry of it is pending or a wake of it is under way.\<close>

lemma active_row:
  assumes inv: "projection_inv p" and view: "view_inv X p" and line: "line \<in> set (seen_lines p caller)"
    and e: "get_entry p r (ln_id line) = Some e"
    and act: "recipient_active e (notification p r (ln_id line)) (notification_summary p (notification p r (ln_id line)))"
  shows "sr_active (mt_row (message_turn_at X p caller live_routes line))"
proof -
  note l = seen_lines_ids(2) [OF inv line]
  obtain i where i: "i < length (md_recipients (metadata_of line))" "md_recipients (metadata_of line) ! i = r"
    using recipient_of_entry [OF inv l e] .
  show ?thesis
  proof (rule turn_at [OF inv view line, where live_routes = live_routes])
    fix labels
    let ?t = "message_turn_at X p caller live_routes line"
    assume labels: "presentation_labels X (md_recipients (metadata_of line)) (md_presentation (metadata_of line)) =
        Inr (sender_label (md_presentation (metadata_of line)), labels)"
      and turns: "mt_recipients ?t = map (\<lambda>x. projr (recipient_turn_of p caller live_routes (fifo_positions p) (ln_id line)
          (md_sender (metadata_of line)) x)) (zip (md_recipients (metadata_of line)) labels)"
      and active: "sr_active (mt_row ?t) = list_ex tu_active (mt_recipients ?t)"
    note turn = recipient_turn_in [OF turns presentation_labels_length [OF labels] i(1) e [folded i(2)]]
    show ?thesis unfolding active list_ex_iff by (rule bexI [OF _ turn]) (simp add: i(2) act)
  qed
qed

text \<open>The whole view of a caller: one row per message it may see, in journal order.\<close>

abbreviation all_rows :: "extern \<Rightarrow> mailbox_projection \<Rightarrow> recipient_key \<Rightarrow> route_table \<Rightarrow> message_snapshot_row list" where
  "all_rows X p caller live_routes \<equiv> map (\<lambda>l. mt_row (message_turn_at X p caller live_routes l)) (seen_lines p caller)"

lemma all_rows_facts:
  assumes inv: "projection_inv p" and view: "view_inv X p"
  shows "sorted_wrt (<) (map sr_seq (all_rows X p caller live_routes))"
    and "sr_message_id ` set (all_rows X p caller live_routes) = {m. may_see p caller m}"
    and "\<And>row. row \<in> set (all_rows X p caller live_routes) \<Longrightarrow> sr_seq row \<le> seq_of p"
    and "length (seen_lines p caller) = card {m. may_see p caller m}"
    and "length (seen_lines p caller) \<le> seq_of p"
proof -
  note row = row_of_line [OF inv view]
  have "map sr_seq (all_rows X p caller live_routes) = map ln_seq (seen_lines p caller)" using row(2) by simp
  then show "sorted_wrt (<) (map sr_seq (all_rows X p caller live_routes))"
    using seen_lines_ordered [OF inv view] by (simp only:)
  show "sr_message_id ` set (all_rows X p caller live_routes) = {m. may_see p caller m}"
    unfolding seen_lines_ids(1) [OF inv, symmetric] using row(1) by (force simp: image_image)
  have bound: "ln_seq line \<le> seq_of p \<and> 0 < ln_seq line" if "line \<in> set (seen_lines p caller)" for line
    using stored_message [OF inv seen_lines_ids(2) [OF inv that]] view seen_lines_ids(2) [OF inv that]
    by (auto simp: view_inv_def)
  then show "\<And>r. r \<in> set (all_rows X p caller live_routes) \<Longrightarrow> sr_seq r \<le> seq_of p" using row(2) by auto
  have d: "distinct (map ln_seq (seen_lines p caller))"
    using seen_lines_ordered [OF inv view] by (simp add: strict_sorted_iff)
  have "set (map ln_seq (seen_lines p caller)) \<subseteq> {1..seq_of p}" using bound by fastforce
  then have "card (set (map ln_seq (seen_lines p caller))) \<le> seq_of p" using card_mono [of "{1..seq_of p}"] by force
  then show "length (seen_lines p caller) \<le> seq_of p" using distinct_card [OF d] by simp
  have "inj_on ln_id (set (seen_lines p caller))"
    using seen_lines_ids(2) [OF inv] by (metis inj_onI option.inject)
  then show "length (seen_lines p caller) = card {m. may_see p caller m}"
    using d unfolding seen_lines_ids(1) [OF inv, symmetric] by (simp add: card_image distinct_card distinct_map)
qed

lemma page_prefix:
  assumes "sorted_wrt (<) (map f ys)" and "k < length ys"
  shows "filter (\<lambda>y. f y \<le> (f (ys ! k) :: nat)) ys = take (Suc k) ys"
  using assms
proof (induction ys arbitrary: k)
  case (Cons y ys)
  show ?case
  proof (cases k)
    case 0
    have "filter (\<lambda>x. f x \<le> f y) ys = []" using Cons.prems(1) by (fastforce simp: filter_empty_conv)
    then show ?thesis using 0 by simp
  next
    case (Suc j)
    then have "f y \<le> f (ys ! j)" using Cons.prems by (auto simp: order_less_imp_le)
    then show ?thesis using Cons Suc by simp
  qed
qed simp

text \<open>One page of a cursor read over rows in ascending order.\<close>

lemma page_complete:
  fixes seq :: "'row \<Rightarrow> nat" and after :: nat
  assumes sorted: "sorted_wrt (<) (map seq rows)" and bound: "\<forall>row\<in>set rows. seq row \<le> head" and limit: "0 < limit"
  defines "later \<equiv> filter (\<lambda>row. after < seq row) rows"
  defines "through \<equiv> (if limit < length later then seq (later ! (limit - 1)) else head)"
  shows "take limit later = filter (\<lambda>row. after < seq row \<and> seq row \<le> through) rows"
    and "limit < length later \<Longrightarrow> after < through" and "through \<le> head" and "after \<le> head \<Longrightarrow> after \<le> through"
proof -
  have sl: "sorted_wrt (<) (map seq later)"
    using sorted by (simp add: later_def sorted_wrt_map sorted_wrt_filter)
  have split: "filter (\<lambda>row. after < seq row \<and> seq row \<le> through) rows = filter (\<lambda>row. seq row \<le> through) later"
    by (simp add: later_def)
  have later: "\<forall>row\<in>set later. after < seq row \<and> seq row \<le> head" using bound by (simp add: later_def)
  show "take limit later = filter (\<lambda>row. after < seq row \<and> seq row \<le> through) rows"
  proof (cases "limit < length later")
    case True
    then have "filter (\<lambda>row. seq row \<le> through) later = take (Suc (limit - 1)) later"
      using page_prefix [OF sl, of "limit - 1"] by (simp add: through_def)
    then show ?thesis using limit split by simp
  next
    case False
    then have "filter (\<lambda>row. seq row \<le> through) later = later" using later by (simp add: through_def filter_id_conv)
    then show ?thesis using split False by simp
  qed
  show "limit < length later \<Longrightarrow> after < through" "through \<le> head" "after \<le> head \<Longrightarrow> after \<le> through"
    using later limit by (auto simp: through_def order_less_imp_le)
qed

lemma cut_page:
  assumes "limit < length ys" and "0 < limit"
  shows "butlast (take (limit + 1) ys) = take limit ys" "last (take limit ys) = ys ! (limit - 1)" "take limit ys \<noteq> []"
proof -
  show "butlast (take (limit + 1) ys) = take limit ys" using assms by (simp add: butlast_take)
  show "take limit ys \<noteq> []" using assms by auto
  then show "last (take limit ys) = ys ! (limit - 1)" using assms by (simp add: last_conv_nth)
qed

lemma follow_page:
  assumes inv: "projection_inv p" and view: "view_inv X p" and caller: "rk_workspace caller = workspace_id p"
    and head: "seq_of p \<le> u64_max" and after: "after \<le> seq_of p" and limit: "0 < limit"
  obtains page where "messages_follow X p caller after limit live_routes = Inr page"
    "fo_rows page = filter (\<lambda>row. after < sr_seq row \<and> sr_seq row \<le> fo_through_seq page) (all_rows X p caller live_routes)"
    "length (fo_rows page) \<le> limit" "fo_through_seq page \<le> seq_of p" "after \<le> fo_through_seq page"
    "fo_has_more page \<Longrightarrow> after < fo_through_seq page" "\<not> fo_has_more page \<Longrightarrow> fo_through_seq page = seq_of p"
proof -
  define rows where "rows = all_rows X p caller live_routes"
  let ?later = "filter (\<lambda>row. after < sr_seq row) rows"
  let ?through = "if limit < length ?later then sr_seq (?later ! (limit - 1)) else seq_of p"
  note facts = all_rows_facts [OF inv view]
  have "length (filter (\<lambda>row. \<not> sr_active row) rows) \<le> length (seen_lines p caller)"
    unfolding rows_def by (metis length_filter_le length_map)
  then have "length (filter (\<lambda>row. \<not> sr_active row) rows) \<le> u64_max"
    using order_trans [OF facts(5) head] by (rule order_trans)
  then obtain s where s: "messages_snapshot X p caller u64_max live_routes = Inr s" "sn_workspace_seq s = seq_of p" "sn_rows s = rows"
    using snapshot_result [OF inv view caller, of u64_max live_routes] unfolding rows_def [symmetric] by auto
  have page: "messages_follow X p caller after limit live_routes = Inr \<lparr> fo_workspace_id = workspace_id p,
      fo_after_seq = after, fo_through_seq = ?through, fo_has_more = (limit < length ?later), fo_rows = take limit ?later \<rparr>"
  proof (cases "limit < length ?later")
    case True
    then show ?thesis using s after cut_page [OF True limit] by (simp add: messages_follow_def Let_def)
  next
    case False
    then show ?thesis using s after by (simp add: messages_follow_def Let_def)
  qed
  have sorted: "sorted_wrt (<) (map sr_seq rows)" and bound: "\<forall>row\<in>set rows. sr_seq row \<le> seq_of p"
    unfolding rows_def using facts(1,3) by blast+
  note complete = page_complete [OF sorted bound limit, of after]
  have "length (take limit ?later) \<le> limit" by simp
  then show thesis
    using that [OF page] complete(2,3) complete(4) [OF after] unfolding rows_def [symmetric] complete(1) by simp
qed

end
