(* ===== verification/Sample_Journal.thy ===== *)
theory Sample_Journal
  imports Projection "HOL-Library.Code_Target_Nat"
begin

text \<open>
  A small concrete journal, evaluated by the kernel: one message from the administrator to an
  agent, the life of its doorbell up to a written and unverified attempt, and the agent's
  claim. The witnesses of the properties run on it. The third-party functions are instantiated
  by simple concrete ones that satisfy the laws assumed of them.
\<close>

section \<open>Parameters\<close>

definition sample_extern :: extern where
  "sample_extern = \<lparr> uuid_text = (\<lambda>u. show_nat (unat u)),
     uuid_parse = (\<lambda>s. if s \<noteq> [] \<and> list_all is_ascii_digit s then Some (of_nat (read_nat s)) else None),
     payload_json = (\<lambda>payload. Inr []), sha256 = (\<lambda>bytes. replicate 32 0) \<rparr>"

lemma sample_extern_uuid_laws: "uuid_laws sample_extern"
proof -
  have "CHR ''/'' \<notin> set (show_nat n)" for n
    using show_nat_digits [of n] is_ascii_digit_not_slash by (auto simp: list_all_iff)
  then show ?thesis by (simp add: uuid_laws_def sample_extern_def show_nat_digits)
qed

definition sample_admin :: recipient_key where
  "sample_admin = key_admin 1"

definition sample_agent :: recipient_key where
  "sample_agent = key_agent 1 2 3"

section \<open>Lines\<close>

definition sample_digest :: request_digest where
  "sample_digest = ''v1:'' @ replicate 64 (CHR ''0'')"

definition sample_presentation :: message_presentation where
  "sample_presentation =
     \<lparr> sender_label = ''admin'', recipient_labels = [\<lparr> rp_recipient = sample_agent, rp_label = ''a'' \<rparr>] \<rparr>"

definition sample_metadata :: message_metadata where
  "sample_metadata =
     \<lparr> md_record_version = 1, md_workspace_id = 1, md_sender = sample_admin, md_recipients = [sample_agent],
       md_presentation = sample_presentation, md_summary = None, md_thread_root = ''m-1'',
       md_client_key = Some ''k'', md_request_digest = sample_digest, md_supersedes = None, md_raw = False,
       md_broadcast = False \<rparr>"

definition sample_message :: ledger_line where
  "sample_message =
     \<lparr> ln_seq = 1, ln_boot_id = ''b'', ln_id = ''m-1'', ln_ts = 10, ln_kind = Msg, ln_from = ''admin'',
       ln_to = [''a''], ln_subject = Some ''s'', ln_body = Some ''hello'', ln_reply_to = None, ln_deliveries = [],
       ln_data = Some (metadata_value sample_metadata) \<rparr>"

definition sample_state_line :: "nat \<Rightarrow> string \<Rightarrow> string list \<Rightarrow> row_data \<Rightarrow> ledger_line" where
  "sample_state_line seq from to data =
     \<lparr> ln_seq = seq, ln_boot_id = ''b'', ln_id = ''m-1'', ln_ts = 10 + seq, ln_kind = State, ln_from = from,
       ln_to = to, ln_subject = None, ln_body = None, ln_reply_to = None, ln_deliveries = [], ln_data = Some data \<rparr>"

definition sample_binding :: notification_binding where
  "sample_binding =
     \<lparr> bd_recipient = sample_agent, bd_pane_root = Some (ProcessInstanceId 7 1),
       bd_leader = Some (ProcessInstanceId 8 1), bd_agent = ProcessInstanceId 9 1, bd_manifest = ''x'' \<rparr>"

definition sample_fact :: "notification_state \<Rightarrow> transition_fact" where
  "sample_fact st =
     \<lparr> tf_record_version = 1, tf_attempt_id = 5, tf_message_id = ''m-1'', tf_recipient = sample_agent,
       tf_state = st, tf_binding = (if st = Writing then Some sample_binding else None),
       tf_transport = (if st = Writing then Some Doorbell else None),
       tf_doorbell_format = (if st = Writing then Some 2 else None),
       tf_cause = (if st = AttentionRequired then Some TransportOutcomeUnknown else None), tf_verified_by = None,
       tf_verify_outcome = None, tf_pre_write_cause = None, tf_wake_block = None, tf_pre_write_observation = None \<rparr>"

definition sample_transition :: "nat \<Rightarrow> notification_state \<Rightarrow> ledger_line" where
  "sample_transition seq st =
     sample_state_line seq daemon_label [key_to_string sample_extern sample_agent]
       (notification_fact_value (NotificationTransition (sample_fact st)))"

definition sample_claim :: "nat \<Rightarrow> ledger_line" where
  "sample_claim seq =
     sample_state_line seq (key_to_string sample_extern sample_agent) []
       (mailbox_fact_value (MessageClaimed
         \<lparr> cf_record_version = 1, cf_message_id = ''m-1'', cf_recipient = sample_agent, cf_claimant = sample_agent \<rparr>))"

definition sample_attempt_fact :: attempt_fact where
  "sample_attempt_fact =
     \<lparr> af_record_version = 1, af_attempt_id = 5, af_message_id = ''m-1'', af_recipient = sample_agent \<rparr>"

definition sample_row :: "nat \<Rightarrow> notification_fact \<Rightarrow> ledger_line" where
  "sample_row seq f =
     sample_state_line seq daemon_label [key_to_string sample_extern sample_agent] (notification_fact_value f)"

definition sample_consumption :: consumption_observation where
  "sample_consumption = \<lparr> co_evidence = AuthenticatedClaim, co_observed_at_ms = 19 \<rparr>"

definition sample_journal :: "ledger_line list" where
  "sample_journal =
     [sample_message, sample_transition 2 Queued, sample_transition 3 Gating, sample_transition 4 Writing,
      sample_transition 5 AttentionRequired, sample_claim 6,
      sample_row 7 (NotificationResolutionIntent sample_attempt_fact Complete False),
      sample_row 8 (NotificationResolutionActionAccepted sample_attempt_fact Complete),
      sample_row 9 (NotificationResolutionConsumptionObserved sample_attempt_fact sample_consumption),
      sample_row 10 (NotificationResolved notification_resolution_proof_version sample_attempt_fact Complete)]"

text \<open>A correction: a second message that replaces the first before its doorbell.\<close>

definition sample_replacement :: ledger_line where
  "sample_replacement =
     sample_message\<lparr> ln_seq := 2, ln_id := ''m-2'', ln_ts := 11,
       ln_data := Some (metadata_value (sample_metadata\<lparr> md_client_key := None, md_supersedes := Some ''m-1'' \<rparr>)) \<rparr>"

definition sample_correction :: "ledger_line list" where
  "sample_correction = [sample_message, sample_replacement]"

text \<open>A paste that is proven not to have been written.\<close>

definition sample_unwritten :: "ledger_line list" where
  "sample_unwritten =
     [sample_message, sample_transition 2 Queued, sample_transition 3 Gating, sample_transition 4 Writing,
      sample_row 5 (NotificationTransition
        ((sample_fact BlockedPreWrite)\<lparr> tf_pre_write_cause := Some PasteCommandUnwritten \<rparr>))]"

section \<open>States\<close>

text \<open>What the witnesses read of a state: the entry, the current attempt, the barrier, and the stages of
  the resolution, and the number of current attempts.\<close>

type_synonym sample_view_type =
  "mailbox_entry_state option \<times> (attempt_id \<times> notification_state) option \<times> bool \<times> resolution option list \<times> nat"

definition sample_view :: "mailbox_projection \<Rightarrow> sample_view_type" where
  "sample_view p =
     (map_option me_state (get_entry p sample_agent ''m-1''),
      map_option (\<lambda>c. (nr_attempt_id c, nr_state c)) (hm_get (notifications p) (sample_agent, ''m-1'')),
      hm_contains_key (active_notification_barriers p) 5,
      [hm_get (resolution_intents p) 5, hm_get (resolution_actions_accepted p) 5, hm_get (resolved_attempts p) 5],
      length (notifications p))"

text \<open>The lines are accepted live, one by one; the views of the states in between.\<close>

fun sample_trace :: "mailbox_projection \<Rightarrow> ledger_line list \<Rightarrow> sample_view_type list" where
  "sample_trace p [] = [sample_view p]"
| "sample_trace p (line # lines) =
     (case apply_owned sample_extern p line of Inl e \<Rightarrow> [] | Inr q \<Rightarrow> sample_view p # sample_trace q lines)"

lemma sample_trace_journal:
  "sample_trace (mailbox_projection_new 1) sample_journal =
     [(None, None, False, [None, None, None], 0),
      (Some Pending, None, False, [None, None, None], 0),
      (Some Pending, Some (5, Queued), False, [None, None, None], 1),
      (Some Pending, Some (5, Gating), False, [None, None, None], 1),
      (Some Pending, Some (5, Writing), True, [None, None, None], 1),
      (Some Pending, Some (5, AttentionRequired), True, [None, None, None], 1),
      (Some (Claimed sample_agent 16), Some (5, AttentionRequired), True, [None, None, None], 1),
      (Some (Claimed sample_agent 16), Some (5, AttentionRequired), True, [Some Complete, None, None], 1),
      (Some (Claimed sample_agent 16), Some (5, AttentionRequired), True, [Some Complete, Some Complete, None], 1),
      (Some (Claimed sample_agent 16), Some (5, AttentionRequired), True, [Some Complete, Some Complete, None], 1),
      (Some (Claimed sample_agent 16), Some (5, AttentionRequired), False, [Some Complete, Some Complete, Some Complete], 1)]"
  by code_simp

lemma sample_trace_correction:
  "sample_trace (mailbox_projection_new 1) sample_correction =
     [(None, None, False, [None, None, None], 0),
      (Some Pending, None, False, [None, None, None], 0),
      (Some (EntrySuperseded ''m-2'' 11), None, False, [None, None, None], 0)]"
  by code_simp

lemma sample_trace_unwritten:
  "sample_trace (mailbox_projection_new 1) sample_unwritten =
     [(None, None, False, [None, None, None], 0),
      (Some Pending, None, False, [None, None, None], 0),
      (Some Pending, Some (5, Queued), False, [None, None, None], 1),
      (Some Pending, Some (5, Gating), False, [None, None, None], 1),
      (Some Pending, Some (5, Writing), True, [None, None, None], 1),
      (Some Pending, Some (5, BlockedPreWrite), False, [None, None, None], 1)]"
  by code_simp

definition sample_run :: "nat \<Rightarrow> mailbox_projection" where
  "sample_run n =
     (case replay sample_extern (mailbox_projection_new 1) (take n sample_journal) of
        Inl e \<Rightarrow> mailbox_projection_new 1 | Inr p \<Rightarrow> p)"

end
