(* ===== verification/Sample_Run.thy ===== *)
theory Sample_Run
  imports Journal_Order Sample_Journal
begin

text \<open>
  The states of the sample journal: each prefix is accepted live and replayed to the same
  projection, whose view is the entry of the evaluated trace.
\<close>

lemma sample_trace_states:
  assumes "length (sample_trace p lines) = Suc (length lines)" and "n \<le> length lines"
  shows "\<exists>q. run_log (apply_owned sample_extern) p (take n lines) = Inr q \<and> sample_view q = sample_trace p lines ! n"
  using assms
proof (induction lines arbitrary: p n)
  case (Cons line lines)
  show ?case
  proof (cases n)
    case (Suc i)
    obtain q where q: "apply_owned sample_extern p line = Inr q"
      "sample_trace p (line # lines) = sample_view p # sample_trace q lines"
      using Cons.prems(1) by (auto split: sum.splits)
    then show ?thesis using Cons.IH [of q i] Cons.prems Suc by simp
  qed (use Cons.prems in \<open>auto split: sum.splits\<close>)
qed simp

lemma sample_length: "length sample_journal = 10"
  by (simp add: sample_journal_def)

lemma sample_states:
  assumes "n \<le> 10"
  shows "run_log (apply_owned sample_extern) (mailbox_projection_new 1) (take n sample_journal) = Inr (sample_run n)"
    and "replay sample_extern (mailbox_projection_new 1) (take n sample_journal) = Inr (sample_run n)"
    and "sample_view (sample_run n) = sample_trace (mailbox_projection_new 1) sample_journal ! n"
proof -
  have "length (sample_trace (mailbox_projection_new 1) sample_journal) = Suc (length sample_journal)"
    by (simp add: sample_trace_journal sample_length)
  then obtain q where q: "run_log (apply_owned sample_extern) (mailbox_projection_new 1) (take n sample_journal) = Inr q"
    "sample_view q = sample_trace (mailbox_projection_new 1) sample_journal ! n"
    using sample_trace_states assms by (metis sample_length)
  then have "replay sample_extern (mailbox_projection_new 1) (take n sample_journal) = Inr q"
    by (simp add: replay_run_log projection.run_rebuilds)
  then have "sample_run n = q" by (simp add: sample_run_def)
  then show "run_log (apply_owned sample_extern) (mailbox_projection_new 1) (take n sample_journal) = Inr (sample_run n)"
    "replay sample_extern (mailbox_projection_new 1) (take n sample_journal) = Inr (sample_run n)"
    "sample_view (sample_run n) = sample_trace (mailbox_projection_new 1) sample_journal ! n"
    using q \<open>replay _ _ _ = _\<close> by simp_all
qed

lemma sample_complete:
  "run_log (apply_owned sample_extern) (mailbox_projection_new 1) sample_journal = Inr (sample_run 10)"
  "replay sample_extern (mailbox_projection_new 1) sample_journal = Inr (sample_run 10)"
  using sample_states [of 10] sample_length by simp_all

lemma sample_inv: "n \<le> 10 \<Longrightarrow> projection_inv (sample_run n)"
  by (rule replay_inv [OF projection_inv_new sample_states(2)])

lemma sample_step:
  assumes "n < 10"
  shows "apply_owned sample_extern (sample_run n) (sample_journal ! n) = Inr (sample_run (Suc n))"
proof -
  have "take (Suc n) sample_journal = take n sample_journal @ [sample_journal ! n]"
    using assms sample_length by (simp add: take_Suc_conv_app_nth)
  then have "run_log (apply_owned sample_extern) (sample_run n) [sample_journal ! n] = Inr (sample_run (Suc n))"
    using sample_states(1) [of n] sample_states(1) [of "Suc n"] assms by (simp add: run_log_append)
  then show ?thesis by (auto simp: result_simps)
qed

text \<open>What the witnesses read of the states.\<close>

lemma sample_entry:
  "\<exists>e. get_entry (sample_run 1) sample_agent ''m-1'' = Some e \<and> me_state e = Pending"
  "\<exists>e. get_entry (sample_run 5) sample_agent ''m-1'' = Some e \<and> me_state e = Pending"
  "\<exists>e. get_entry (sample_run 6) sample_agent ''m-1'' = Some e \<and> me_state e = Claimed sample_agent 16"
  "\<exists>e. get_entry (sample_run 10) sample_agent ''m-1'' = Some e \<and> me_state e = Claimed sample_agent 16"
  using sample_states(3) [of 1] sample_states(3) [of 5] sample_states(3) [of 6] sample_states(3) [of 10]
  by (auto simp: sample_view_def sample_trace_journal)

lemma sample_attempt:
  "\<exists>c. hm_get (notifications (sample_run 3)) (sample_agent, ''m-1'') = Some c \<and> nr_attempt_id c = 5 \<and> nr_state c = Gating"
  "\<exists>c. hm_get (notifications (sample_run 4)) (sample_agent, ''m-1'') = Some c \<and> nr_attempt_id c = 5 \<and> nr_state c = Writing"
  "\<exists>c. hm_get (notifications (sample_run 5)) (sample_agent, ''m-1'') = Some c \<and> nr_attempt_id c = 5 \<and>
     nr_state c = AttentionRequired"
  "\<exists>c. hm_get (notifications (sample_run 6)) (sample_agent, ''m-1'') = Some c \<and> nr_attempt_id c = 5 \<and>
     nr_state c = AttentionRequired"
  using sample_states(3) [of 3] sample_states(3) [of 4] sample_states(3) [of 5] sample_states(3) [of 6]
  by (auto simp: sample_view_def sample_trace_journal)

lemma sample_barrier: "\<exists>b. hm_get (active_notification_barriers (sample_run 6)) 5 = Some b"
  using sample_states(3) [of 6] by (auto simp: sample_view_def sample_trace_journal)

lemma sample_stages:
  "hm_get (resolution_intents (sample_run 8)) 5 = Some Complete"
  "hm_get (resolution_actions_accepted (sample_run 8)) 5 = Some Complete"
  "hm_get (resolved_attempts (sample_run 9)) 5 = None"
  "hm_get (resolved_attempts (sample_run 10)) 5 = Some Complete"
  using sample_states(3) [of 8] sample_states(3) [of 9] sample_states(3) [of 10]
  by (auto simp: sample_view_def sample_trace_journal)

text \<open>The corrected message.\<close>

lemma sample_corrected:
  "\<exists>p e. replay sample_extern (mailbox_projection_new 1) sample_correction = Inr p \<and>
     get_entry p sample_agent ''m-1'' = Some e \<and> me_state e = EntrySuperseded ''m-2'' 11"
proof -
  have len: "length sample_correction = 2" by (simp add: sample_correction_def)
  obtain q where q: "run_log (apply_owned sample_extern) (mailbox_projection_new 1) (take 2 sample_correction) = Inr q"
    "sample_view q = sample_trace (mailbox_projection_new 1) sample_correction ! 2"
    using sample_trace_states [of "mailbox_projection_new 1" sample_correction 2] len
    unfolding sample_trace_correction by auto
  have "replay sample_extern (mailbox_projection_new 1) sample_correction = Inr q"
    using projection.run_rebuilds [OF q(1)] len by (simp add: replay_run_log)
  then show ?thesis using q(2) by (auto simp: sample_trace_correction sample_view_def)
qed

lemma sample_stored: "get_message (sample_run 1) ''m-1'' = Some sample_message"
proof -
  have "apply_inner sample_extern (sample_run 0) sample_message False = Inr (sample_run 1)"
    using sample_step [of 0] by (simp add: apply_owned_def sample_journal_def)
  then obtain pm where pm: "prepare_line_inner sample_extern (sample_run 0) sample_message False = Inr pm"
    "messages (sample_run 1) = message_effect sample_message pm (messages (sample_run 0))"
    using apply_inner_facts [OF sample_inv [of 0]] by (metis le0)
  then show ?thesis
    using prepared_message(1) [OF pm(1)] by (auto simp: get_message_def is_message_def sample_message_def)
qed

text \<open>The blocked write.\<close>

definition sample_blocked :: mailbox_projection where
  "sample_blocked =
     (case apply_owned sample_extern (sample_run 4) (sample_unwritten ! 4) of Inl e \<Rightarrow> sample_run 4 | Inr q \<Rightarrow> q)"

lemma sample_blocked_view:
  "apply_owned sample_extern (sample_run 4) (sample_unwritten ! 4) = Inr sample_blocked"
  "sample_view sample_blocked = sample_trace (mailbox_projection_new 1) sample_unwritten ! 5"
proof -
  have len: "length sample_unwritten = 5" and split: "sample_unwritten = take 4 sample_journal @ [sample_unwritten ! 4]"
    by (simp_all add: sample_unwritten_def sample_journal_def)
  obtain q where q: "run_log (apply_owned sample_extern) (mailbox_projection_new 1) (take 5 sample_unwritten) = Inr q"
    "sample_view q = sample_trace (mailbox_projection_new 1) sample_unwritten ! 5"
    using sample_trace_states [of "mailbox_projection_new 1" sample_unwritten 5] len
    unfolding sample_trace_unwritten by auto
  have "run_log (apply_owned sample_extern) (mailbox_projection_new 1)
      (take 4 sample_journal @ [sample_unwritten ! 4]) = Inr q"
    using q(1) len split by simp
  then have "apply_owned sample_extern (sample_run 4) (sample_unwritten ! 4) = Inr q"
    by (simp add: run_log_append sample_states(1) result_simps)
  then show "apply_owned sample_extern (sample_run 4) (sample_unwritten ! 4) = Inr sample_blocked"
    "sample_view sample_blocked = sample_trace (mailbox_projection_new 1) sample_unwritten ! 5"
    using q(2) by (simp_all add: sample_blocked_def)
qed

lemmas sample_blocked_step = sample_blocked_view(1)

lemma sample_blocked_attempt:
  "\<exists>c. hm_get (notifications sample_blocked) (sample_agent, ''m-1'') = Some c \<and> nr_attempt_id c = 5 \<and>
     nr_state c = BlockedPreWrite"
  using sample_blocked_view(2) by (auto simp: sample_view_def sample_trace_unwritten)

end
