(* ===== verification/Projection_Properties.thy ===== *)
theory Projection_Properties
  imports Post_Office Mailbox_View_Laws Sample_Run
begin

text \<open>
  The properties of the mailbox projection: of the journals it accepts, of the entries and
  messages it keeps, and of the wake attempts it tracks. Each rests on the invariants and on
  the interpretations of \<open>Projection_Spec\<close> and \<open>Post_Office\<close>; the witnesses run on the sample journal.
\<close>

section \<open>Journals\<close>

text \<open>C4. Every projection that replaying a journal from an empty workspace builds satisfies the
  whole invariant: indexes agree with mailboxes, stored messages are canonical and their thread
  roots are stored, client keys name one message, claims are recorded once, attempts, barriers
  and the stages of a resolution are consistent.\<close>

theorem replay_keeps_invariant:
  assumes "replay X (mailbox_projection_new ws) lines = Inr p"
  shows "mailbox_inv p \<and> attempt_inv p"
  using replay_inv [OF projection_inv_new assms] by (simp add: projection_inv_def)

theorem replay_keeps_invariant_witness: "mailbox_inv (sample_run 10) \<and> attempt_inv (sample_run 10)"
  by (rule replay_keeps_invariant [OF sample_complete(2)])

text \<open>No journal makes replay panic: the entry lookups that a commit unwraps always succeed on
  a line that validation accepted, so replay ends in a projection or in a refusal.\<close>

theorem replay_never_panics: "replay X (mailbox_projection_new ws) lines \<noteq> Inl Panicked"
  unfolding replay_run_log
  by (rule projection.run_error [OF _ projection_inv_new]) (simp add: apply_replayed_owned_def apply_never_panics)

text \<open>C3. A restart loses nothing: if every line of a journal was accepted live, one after the other,
  then replaying the journal accepts every line too and rebuilds the same projection.\<close>

theorem live_journal_replays:
  assumes "run_log (apply_owned X) (mailbox_projection_new ws) lines = Inr p"
  shows "replay X (mailbox_projection_new ws) lines = Inr p"
  using projection.run_rebuilds [OF assms] by (simp add: replay_run_log)

theorem live_journal_replays_witness:
  "replay sample_extern (mailbox_projection_new 1) sample_journal = Inr (sample_run 10)"
  by (rule live_journal_replays [OF sample_complete(1)])

text \<open>A replayed journal is numbered 1, 2, 3 and so on without a gap, the projection's last
  sequence is the number of lines, and it fits in a \<open>u64\<close>.\<close>

theorem replay_contiguous:
  assumes "replay X (mailbox_projection_new ws) lines = Inr p"
  shows "map ln_seq lines = [1..<Suc (length lines)] \<and> last_workspace_seq p = (if lines = [] then None else Some (length lines)) \<and>
    length lines \<le> u64_max"
proof -
  have new: "seq_of (mailbox_projection_new ws) = 0" by (simp add: seq_of_def mailbox_projection_new_def)
  have "map ln_seq lines = [1..<Suc (length lines)]" "lines \<noteq> [] \<Longrightarrow> length lines \<le> u64_max" "seq_of p = length lines"
    using replay_sequence [OF assms] by (auto simp: new)
  moreover have "last_workspace_seq p = None" if "lines = []"
    using that assms by (auto simp: mailbox_projection_new_def)
  moreover have "last_workspace_seq p = Some (length lines)" if "lines \<noteq> []"
    using that \<open>seq_of p = length lines\<close> by (auto simp: seq_of_def split: option.splits)
  ultimately show ?thesis by auto
qed

theorem replay_contiguous_witness: "last_workspace_seq (sample_run 10) = Some 10"
  using replay_contiguous [OF sample_complete(2)] by (simp add: sample_length sample_journal_def)

section \<open>Mailboxes\<close>

text \<open>C5. Refinement: to its users a mailbox is a post office. Read each row of a journal alone, without
  the projection, as an event about letters: a message posted to its recipients (perhaps replacing one),
  a letter taken by its addressee, a letter handed over by an attempt, or nothing about letters. Whenever
  replay accepts a journal, the post office accepts these events one after the other, each under its own
  guard, and the letters it ends with are the entries of the projection. So a replayed journal never
  posts an id twice, never replaces, takes or hands over a letter that is not waiting, and changes no
  letter but the ones its rows name.\<close>

theorem projection_refines_post_office:
  assumes "replay X (mailbox_projection_new ws) lines = Inr p"
  shows "run_events post Map.empty (map mail_event_of lines) = Some (post_office_of p)"
proof -
  have "post_office_of (mailbox_projection_new ws) = Map.empty"
    by (auto simp: post_office_of_def mailbox_projection_new_def get_entry_def)
  then show ?thesis
    using mailbox.run_follows [OF projection_inv_new assms [unfolded replay_run_log]] by simp
qed

lemma sample_claim_event: "mail_event_of (sample_claim n) = Taken sample_agent ''m-1''"
  by (simp add: mail_event_of_def is_message_def sample_claim_def sample_state_line_def mailbox_fact_value_def)

theorem projection_refines_post_office_witness:
  "run_events post Map.empty (map mail_event_of sample_journal) = Some (post_office_of (sample_run 10)) \<and>
   post_office_of (sample_run 10) (sample_agent, ''m-1'') = Some (TakenBy sample_agent) \<and>
   run_events post Map.empty (map mail_event_of (sample_journal @ [sample_claim 11])) = None"
proof -
  have run: "run_events post Map.empty (map mail_event_of sample_journal) = Some (post_office_of (sample_run 10))"
    by (rule projection_refines_post_office [OF sample_complete(2)])
  have taken: "post_office_of (sample_run 10) (sample_agent, ''m-1'') = Some (TakenBy sample_agent)"
    using sample_entry(4) by (auto simp: post_office_of_def)
  show ?thesis
    using run taken by (simp add: run_events_append sample_claim_event)
qed

text \<open>A settled entry is final: once an entry is claimed, delivered directly or superseded, no
  later journal line changes any field of it.\<close>

theorem settled_entry_final:
  assumes "replay X (mailbox_projection_new ws) lines = Inr p" and "replay X p later = Inr q"
    and "get_entry p r m = Some e" and "me_state e \<noteq> Pending"
  shows "get_entry q r m = Some e"
  by (rule settled_entry_replay [OF replay_inv [OF projection_inv_new assms(1)] assms(2-4)])

theorem settled_entry_final_witness:
  "replay sample_extern (sample_run 10) [] = Inr (sample_run 10) \<and>
   (\<exists>e. get_entry (sample_run 10) sample_agent ''m-1'' = Some e \<and> me_state e = Claimed sample_agent 16)"
proof -
  obtain e where e: "get_entry (sample_run 10) sample_agent ''m-1'' = Some e" "me_state e = Claimed sample_agent 16"
    using sample_entry(4) by blast
  have "get_entry (sample_run 10) sample_agent ''m-1'' = Some e"
    by (rule settled_entry_final [OF sample_complete(2), of "[]"]) (use e in simp_all)
  then show ?thesis using e(2) by simp
qed

text \<open>Accepted messages are immutable: the journal line of a stored message is the same in every
  later projection.\<close>

theorem stored_message_final:
  assumes "replay X (mailbox_projection_new ws) lines = Inr p" and "replay X p later = Inr q"
    and "get_message p m = Some line"
  shows "get_message q m = Some line"
  using stored_message_replay [OF replay_inv [OF projection_inv_new assms(1)] assms(2)] assms(3) by (simp add: get_message_def)

lemma sample_rest: "replay sample_extern (sample_run n) (drop n sample_journal) = Inr (sample_run 10)" if "n \<le> 10"
  using sample_complete(2) sample_states(2) [OF that] replay_append [of _ _ "take n sample_journal" "drop n sample_journal"]
  by simp

text \<open>The mailbox of a recipient lists exactly the messages whose recipients include it, each once,
  in the order of the journal, whatever else the journal holds.\<close>

theorem mailbox_lists_addressed:
  assumes "replay X (mailbox_projection_new ws) lines = Inr p"
  shows "map me_message_id (get_mailbox p r) = map ln_id (filter (addressed r) lines)"
  using replay_mailbox_ids [OF projection_inv_new assms, of r]
  by (simp add: mailbox_ids_def mailbox_projection_new_def get_mailbox_def)

lemma sample_addressed: "map ln_id (filter (addressed sample_agent) sample_journal) = [''m-1'']"
  by (simp add: sample_journal_def addressed_def is_message_def recipients_of_def sample_message_def
      sample_transition_def sample_claim_def sample_row_def sample_state_line_def extract_message_metadata_def
      metadata_value_def sample_metadata_def)

theorem mailbox_lists_addressed_witness: "map me_message_id (get_mailbox (sample_run 10) sample_agent) = [''m-1'']"
  using mailbox_lists_addressed [OF sample_complete(2)] by (simp add: sample_addressed)

theorem stored_message_final_witness: "get_message (sample_run 10) ''m-1'' \<noteq> None"
proof -
  have "mailbox_inv (sample_run 1)" using sample_inv [of 1] by (simp add: projection_inv_def)
  then obtain line where "get_message (sample_run 1) ''m-1'' = Some line"
    using sample_entry(1) entry_message unfolding get_message_def by blast
  then have "get_message (sample_run 10) ''m-1'' = Some line"
    by (intro stored_message_final [OF sample_states(2) [of 1] sample_rest]) simp_all
  then show ?thesis by simp
qed

text \<open>A message fans out: an accepted message row gives each of its recipients exactly one new
  pending entry with the row's sequence, marks the one entry it replaces as superseded by it,
  and leaves every other entry as it was.\<close>

theorem message_fans_out:
  assumes "replay X (mailbox_projection_new ws) lines = Inr p" and "is_message line"
    and "apply_owned X p line = Inr q"
  shows "\<exists>md. extract_message_metadata line = Inr md \<and> md_recipients md \<noteq> [] \<and> get_message q (ln_id line) = Some line \<and>
    get_entry q = (\<lambda>r m.
      if r \<in> set (md_recipients md) \<and> m = ln_id line
      then Some \<lparr> me_message_id = m, me_recipient = r, me_state = Pending, me_seq = ln_seq line, me_created_at = ln_ts line \<rparr>
      else if md_supersedes md = Some m \<and> md_recipients md = [r]
      then map_option (\<lambda>e. e\<lparr> me_state := EntrySuperseded (ln_id line) (ln_ts line) \<rparr>) (get_entry p r m)
      else get_entry p r m)"
proof -
  have inv: "projection_inv p" using replay_inv [OF projection_inv_new assms(1)] .
  obtain pm where pm: "prepare_line_inner X p line False = Inr pm" "legal p line pm"
    "get_entry q = entry_effect line pm (get_entry p)" "messages q = message_effect line pm (messages p)"
    using apply_inner_facts [OF inv assms(3) [unfolded apply_owned_def]] by metis
  obtain md up where m: "pm = PreparedMessage (ln_id line) md up" "extract_message_metadata line = Inr md"
    using prepared_message(1) [OF pm(1) assms(2)] by blast
  moreover have "md_recipients md \<noteq> []" using pm(2) m(1) by (auto elim: legal.cases)
  moreover have "map_option (superseded_entry md (ln_id line) line r m) (get_entry p r m) =
      (if md_supersedes md = Some m \<and> md_recipients md = [r]
       then map_option (\<lambda>e. e\<lparr> me_state := EntrySuperseded (ln_id line) (ln_ts line) \<rparr>) (get_entry p r m)
       else get_entry p r m)" for r m
    by (cases "get_entry p r m") (simp_all add: superseded_entry_def)
  ultimately show ?thesis
    using pm(3,4) by (intro exI [of _ md]) (auto simp: fun_eq_iff new_entry_def get_message_def)
qed

theorem message_fans_out_witness:
  "\<exists>e. get_entry (sample_run 1) sample_agent ''m-1'' = Some e \<and> me_state e = Pending \<and> me_seq e = 1"
proof -
  have "\<exists>md. extract_message_metadata sample_message = Inr md \<and> md_recipients md \<noteq> [] \<and>
      get_message (sample_run 1) (ln_id sample_message) = Some sample_message \<and>
      get_entry (sample_run 1) = (\<lambda>r m.
        if r \<in> set (md_recipients md) \<and> m = ln_id sample_message
        then Some \<lparr> me_message_id = m, me_recipient = r, me_state = Pending, me_seq = ln_seq sample_message,
          me_created_at = ln_ts sample_message \<rparr>
        else if md_supersedes md = Some m \<and> md_recipients md = [r]
        then map_option (\<lambda>e. e\<lparr> me_state := EntrySuperseded (ln_id sample_message) (ln_ts sample_message) \<rparr>)
          (get_entry (sample_run 0) r m)
        else get_entry (sample_run 0) r m)"
    by (rule message_fans_out [OF sample_states(2) [of 0]])
      (use sample_step [of 0] in \<open>simp_all add: sample_journal_def is_message_def sample_message_def\<close>)
  then show ?thesis
    by (auto simp: sample_message_def extract_message_metadata_def metadata_value_def sample_metadata_def)
qed

text \<open>A claim settles exactly one entry: an accepted claim row is written by the recipient itself, its
  entry was pending and becomes claimed at the row's time, and every other entry and all stored
  messages stay as they were.\<close>

theorem claim_settles_one_entry:
  assumes "replay X (mailbox_projection_new ws) lines = Inr p" and "ln_kind line = State"
    and "Option.bind (ln_data line) rd_type = Some ''message_claimed''" and "apply_owned X p line = Inr q"
  shows "\<exists>f e. claim_fact_of line = Inr f \<and> cf_claimant f = cf_recipient f \<and>
    get_entry p (cf_recipient f) (cf_message_id f) = Some e \<and> me_state e = Pending \<and>
    get_entry q = (\<lambda>r m. if r = cf_recipient f \<and> m = cf_message_id f
      then Some (e\<lparr> me_state := Claimed r (ln_ts line) \<rparr>) else get_entry p r m) \<and>
    messages q = messages p"
proof -
  have inv: "projection_inv p" using replay_inv [OF projection_inv_new assms(1)] .
  obtain pm where pm: "prepare_line_inner X p line False = Inr pm"
    "get_entry q = entry_effect line pm (get_entry p)" "messages q = message_effect line pm (messages p)"
    using apply_inner_facts [OF inv assms(4) [unfolded apply_owned_def]] by metis
  have "prepare_claim X p line = Inr pm"
    using pm(1) assms(2,3) by (auto simp: prepare_line_inner_def prepare_state_def result_simps Let_def)
  then obtain f e where f: "claim_fact_of line = Inr f" "check_claim_envelope X p line f = Inr ()"
    "get_entry p (cf_recipient f) (cf_message_id f) = Some e" "me_state e = Pending"
    "pm = PreparedClaim (cf_message_id f) (cf_recipient f) (cf_claimant f)
       (claim_notification_update p line (cf_recipient f) (cf_message_id f))"
    by (auto simp: prepare_claim_def result_simps Let_def split: mailbox_entry_state.splits)
  moreover have "cf_claimant f = cf_recipient f"
    using f(2) by (auto simp: check_claim_envelope_def Let_def result_simps)
  ultimately show ?thesis using pm(2,3) by (intro exI [of _ f] exI [of _ e]) (auto simp: fun_eq_iff)
qed

theorem claim_settles_one_entry_witness:
  "\<exists>e. get_entry (sample_run 6) sample_agent ''m-1'' = Some e \<and> me_state e = Claimed sample_agent 16"
proof -
  have "\<exists>f e. claim_fact_of (sample_claim 6) = Inr f \<and> cf_claimant f = cf_recipient f \<and>
      get_entry (sample_run 5) (cf_recipient f) (cf_message_id f) = Some e \<and> me_state e = Pending \<and>
      get_entry (sample_run 6) = (\<lambda>r m. if r = cf_recipient f \<and> m = cf_message_id f
        then Some (e\<lparr> me_state := Claimed r (ln_ts (sample_claim 6)) \<rparr>) else get_entry (sample_run 5) r m) \<and>
      messages (sample_run 6) = messages (sample_run 5)"
    by (rule claim_settles_one_entry [OF sample_states(2) [of 5]])
      (use sample_step [of 5] in \<open>simp_all add: sample_journal_def sample_claim_def sample_state_line_def
         mailbox_fact_value_def\<close>)
  then show ?thesis
    by (auto simp: sample_claim_def sample_state_line_def claim_fact_of_def mailbox_fact_value_def result_simps)
qed

text \<open>Threads are rooted: every stored message names a stored thread root, which is its own root.\<close>

theorem thread_root_stored:
  assumes "replay X (mailbox_projection_new ws) lines = Inr p" and "get_message p m = Some line"
    and "extract_message_metadata line = Inr md"
  shows "\<exists>root rmd. get_message p (md_thread_root md) = Some root \<and> extract_message_metadata root = Inr rmd \<and>
    md_thread_root rmd = md_thread_root md \<and> ln_id root = md_thread_root md"
proof -
  have ok: "messages_ok p" using replay_inv [OF projection_inv_new assms(1)]
    by (simp add: projection_inv_def mailbox_inv_def)
  then obtain root rmd where r: "hm_get (messages p) (md_thread_root md) = Some root" "extract_message_metadata root = Inr rmd"
    "md_thread_root rmd = md_thread_root md"
    using assms(2,3) unfolding messages_ok_def get_message_def by blast
  moreover obtain md' where "message_ok p (md_thread_root md) root md'"
    using ok r(1) unfolding messages_ok_def by blast
  ultimately show ?thesis by (simp add: get_message_def message_ok_def)
qed

theorem thread_root_stored_witness:
  "\<exists>root rmd. get_message (sample_run 1) ''m-1'' = Some root \<and> extract_message_metadata root = Inr rmd \<and>
     md_thread_root rmd = ''m-1'' \<and> ln_id root = ''m-1''"
proof -
  have "get_message (sample_run 1) ''m-1'' = Some sample_message" by (rule sample_stored)
  then show ?thesis
    using thread_root_stored [OF sample_states(2) [of 1], of "''m-1''" sample_message sample_metadata]
    by (simp add: sample_message_def extract_message_metadata_def metadata_value_def sample_metadata_def)
qed

text \<open>A replacement is never lost: a superseded entry names a stored message for the same single
  recipient, which says that it supersedes it and comes later in the journal.\<close>

theorem superseded_entry_replaced:
  assumes "replay X (mailbox_projection_new ws) lines = Inr p" and "get_entry p r m = Some e"
    and "me_state e = EntrySuperseded new t"
  shows "\<exists>line md. get_message p new = Some line \<and> extract_message_metadata line = Inr md \<and>
    md_supersedes md = Some m \<and> md_recipients md = [r] \<and> me_seq e < ln_seq line"
  using replay_inv [OF projection_inv_new assms(1)] assms(2,3)
  unfolding projection_inv_def mailbox_inv_def supersessions_ok_def get_message_def by blast

theorem superseded_entry_replaced_witness:
  "\<exists>p line md. replay sample_extern (mailbox_projection_new 1) sample_correction = Inr p \<and>
     get_message p ''m-2'' = Some line \<and> extract_message_metadata line = Inr md \<and> md_supersedes md = Some ''m-1'' \<and>
     md_recipients md = [sample_agent]"
proof -
  obtain p e where p: "replay sample_extern (mailbox_projection_new 1) sample_correction = Inr p"
    "get_entry p sample_agent ''m-1'' = Some e" "me_state e = EntrySuperseded ''m-2'' 11"
    using sample_corrected by blast
  then show ?thesis using superseded_entry_replaced [OF p] by blast
qed

section \<open>Drafts\<close>

text \<open>The answer to a draft with a client key, in terms of what is stored.\<close>

lemma check_acceptance_digest:
  "check_acceptance X p draft = Inr outcome \<Longrightarrow>
     \<exists>digest found. digest_compute X (cd_kind draft) (cd_sender draft) (cd_recipients draft) (draft_content draft)
       (cd_reply_to draft) (cd_supersedes draft) = Inr digest \<and> check_idempotency p draft digest = Inr found \<and>
       (case found of Some out \<Rightarrow> outcome = out | None \<Rightarrow> outcome = NewMessage digest)"
  by (auto simp: check_acceptance_def Let_def result_simps split: option.splits)

lemma keyed_indexed: "idempotency_ok p \<Longrightarrow> keyed p s k m d \<Longrightarrow> hm_get (idempotency_index p) (s, k) = Some (m, d)"
  by (simp add: idempotency_ok_def)

lemma keyed_unindexed: "idempotency_ok p \<Longrightarrow> \<nexists>m d. keyed p s k m d \<Longrightarrow> hm_get (idempotency_index p) (s, k) = None"
  by (cases "hm_get (idempotency_index p) (s, k)") (auto simp: idempotency_ok_def)

lemma check_idempotency_keyed:
  assumes "idempotency_ok p" and "cd_client_key draft = Some key"
  shows "keyed p (cd_sender draft) key m d \<Longrightarrow> check_idempotency p draft digest =
      (if d = digest then Inr (Some (ExistingMessage m))
       else Inl (Mail (DuplicateIdempotencyKey (cd_sender draft) key m)))"
    and "\<nexists>m d. keyed p (cd_sender draft) key m d \<Longrightarrow> check_idempotency p draft digest = Inr None"
  using assms keyed_indexed [of p "cd_sender draft" key] keyed_unindexed [of p "cd_sender draft" key]
  by (auto simp: check_idempotency_def)

lemma keyed_once: "idempotency_ok p \<Longrightarrow> keyed p s k m d \<Longrightarrow> keyed p s k m' d' \<Longrightarrow> m = m' \<and> d = d'"
  using keyed_indexed [of p s k m d] keyed_indexed [of p s k m' d'] by simp

lemma acceptance_retried:
  assumes "idempotency_ok p" and "cd_client_key draft = Some key" and "keyed p (cd_sender draft) key m d"
    and "check_acceptance X earlier draft = Inr (NewMessage digest)" and "workspace_id earlier = workspace_id p"
  shows "check_acceptance X p draft =
    (if d = digest then Inr (ExistingMessage m) else Inl (Mail (DuplicateIdempotencyKey (cd_sender draft) key m)))"
proof -
  have "check_idempotency earlier draft digest \<noteq> Inr (Some (NewMessage digest))"
    by (auto simp: check_idempotency_def split: option.splits)
  then have "digest_compute X (cd_kind draft) (cd_sender draft) (cd_recipients draft) (draft_content draft)
      (cd_reply_to draft) (cd_supersedes draft) = Inr digest"
    using check_acceptance_digest [OF assms(4)]
    by (auto simp: check_idempotency_def split: option.splits if_splits)
  then show ?thesis
    using assms(4,5) check_idempotency_keyed(1) [OF assms(1-3)]
    by (auto simp: check_acceptance_def Let_def result_simps of_type_result_def)
qed

lemma message_row_keyed:
  assumes inv: "projection_inv p" and "is_message line" and "extract_message_metadata line = Inr md"
    and "md_client_key md = Some key" and acc: "apply_inner X p line b = Inr q"
  shows "\<nexists>m d. keyed p (md_sender md) key m d" and "keyed q (md_sender md) key (ln_id line) (md_request_digest md)"
proof -
  have ok: "idempotency_ok p" using inv by (simp add: projection_inv_def mailbox_inv_def)
  obtain pm where pm: "prepare_line_inner X p line b = Inr pm"
    "messages q = message_effect line pm (messages p)"
    using apply_inner_facts [OF inv acc] by metis
  then have "check_message_client_key p md = Inr ()"
    using assms(2,3)
    by (auto simp: prepare_line_inner_def is_message_def prepare_message_def result_simps Let_def split: if_splits)
  then show "\<nexists>m d. keyed p (md_sender md) key m d"
    using keyed_indexed [OF ok] assms(4) by (fastforce simp: check_message_client_key_def)
  show "keyed q (md_sender md) key (ln_id line) (md_request_digest md)"
    using prepared_message(1) [OF pm(1) assms(2)] pm(2) assms(3,4) by (auto simp: keyed_def)
qed

text \<open>C19. A client key names one message of its sender for good. Among the stored messages of a replayed
  projection no two share a sender and a key, and no further row, live or replayed, is accepted that
  would store another one under them. A draft whose key its sender has used already is never accepted as
  new: a draft that was new to an earlier projection of the workspace is answered with exactly the stored
  message when its content digest is the stored one, and refused as a conflict that names the stored
  message when it differs. A draft whose key its sender has not used is answered as new. (Whether a
  message is stored under a sender and a key is read off the metadata of the stored rows, not off the
  index.)\<close>

theorem client_key_names_one_message:
  assumes "replay X (mailbox_projection_new ws) lines = Inr p"
  shows "(\<forall>s k m d m' d'. keyed p s k m d \<and> keyed p s k m' d' \<longrightarrow> m = m' \<and> d = d') \<and>
    (\<forall>line md key b q. is_message line \<and> extract_message_metadata line = Inr md \<and> md_client_key md = Some key \<and>
       apply_inner X p line b = Inr q \<longrightarrow>
         (\<nexists>m d. keyed p (md_sender md) key m d) \<and>
         keyed q (md_sender md) key (ln_id line) (md_request_digest md)) \<and>
    (\<forall>draft key m d earlier digest. cd_client_key draft = Some key \<and> keyed p (cd_sender draft) key m d \<and>
       check_acceptance X earlier draft = Inr (NewMessage digest) \<and> workspace_id earlier = workspace_id p \<longrightarrow>
         check_acceptance X p draft =
           (if d = digest then Inr (ExistingMessage m)
            else Inl (Mail (DuplicateIdempotencyKey (cd_sender draft) key m)))) \<and>
    (\<forall>draft key outcome. cd_client_key draft = Some key \<and> check_acceptance X p draft = Inr outcome \<longrightarrow>
       (if \<exists>m d. keyed p (cd_sender draft) key m d
        then \<exists>m d. keyed p (cd_sender draft) key m d \<and> outcome = ExistingMessage m \<and>
          digest_compute X (cd_kind draft) (cd_sender draft) (cd_recipients draft) (draft_content draft)
            (cd_reply_to draft) (cd_supersedes draft) = Inr d
        else \<exists>d. outcome = NewMessage d))"
proof -
  have inv: "projection_inv p" using replay_inv [OF projection_inv_new assms] .
  then have ok: "idempotency_ok p" by (simp add: projection_inv_def mailbox_inv_def)
  have "if \<exists>m d. keyed p (cd_sender draft) key m d
      then \<exists>m d. keyed p (cd_sender draft) key m d \<and> outcome = ExistingMessage m \<and>
        digest_compute X (cd_kind draft) (cd_sender draft) (cd_recipients draft) (draft_content draft)
          (cd_reply_to draft) (cd_supersedes draft) = Inr d
      else \<exists>d. outcome = NewMessage d"
    if "cd_client_key draft = Some key" "check_acceptance X p draft = Inr outcome" for draft key outcome
    using check_acceptance_digest [OF that(2)] check_idempotency_keyed [OF ok that(1)]
    by (auto split: if_splits)
  then show ?thesis
    using keyed_once [OF ok] message_row_keyed [OF inv] acceptance_retried [OF ok]
    by (intro conjI allI impI; (elim conjE)?) simp_all
qed

definition sample_draft :: canonical_draft where
  "sample_draft =
     \<lparr> cd_kind = Msg, cd_sender = sample_admin, cd_recipients = [sample_agent], cd_subject = Some ''s'',
       cd_summary = None, cd_body = Some ''hello'', cd_reply_to = None, cd_client_key = Some ''k'',
       cd_supersedes = None, cd_presentation = sample_presentation, cd_raw = False, cd_broadcast = False \<rparr>"

lemma sample_draft_accepted:
  "check_acceptance sample_extern (mailbox_projection_new 1) sample_draft = Inr (NewMessage sample_digest)"
  by code_simp

lemma sample_keyed: "keyed (sample_run 1) sample_admin ''k'' ''m-1'' sample_digest"
  using sample_stored
  by (simp add: keyed_def get_message_def sample_message_def extract_message_metadata_def metadata_value_def
      sample_metadata_def)

definition sample_rekeyed :: ledger_line where
  "sample_rekeyed =
     sample_message\<lparr> ln_seq := 2, ln_id := ''m-2'',
       ln_data := Some (metadata_value (sample_metadata\<lparr> md_thread_root := ''m-2'' \<rparr>)) \<rparr>"

theorem client_key_names_one_message_witness:
  "check_acceptance sample_extern (mailbox_projection_new 1) sample_draft = Inr (NewMessage sample_digest) \<and>
   check_acceptance sample_extern (sample_run 1) sample_draft = Inr (ExistingMessage ''m-1'') \<and>
   (\<nexists>q. apply_owned sample_extern (sample_run 1) sample_rekeyed = Inr q)"
proof -
  have ws: "workspace_id (mailbox_projection_new 1) = workspace_id (sample_run 1)"
    using replay_view_inv(3) [OF sample_states(2) [of 1]] by (simp add: mailbox_projection_new_def)
  have draft: "cd_client_key sample_draft = Some ''k''" "cd_sender sample_draft = sample_admin"
    by (simp_all add: sample_draft_def)
  have row: "is_message sample_rekeyed" "md_client_key (sample_metadata\<lparr> md_thread_root := ''m-2'' \<rparr>) = Some ''k''"
    "extract_message_metadata sample_rekeyed = Inr (sample_metadata\<lparr> md_thread_root := ''m-2'' \<rparr>)"
    "md_sender (sample_metadata\<lparr> md_thread_root := ''m-2'' \<rparr>) = sample_admin"
    by (simp_all add: sample_rekeyed_def sample_message_def is_message_def extract_message_metadata_def metadata_value_def
        sample_metadata_def)
  note key = client_key_names_one_message [OF sample_states(2) [of 1]]
  have "check_acceptance sample_extern (sample_run 1) sample_draft =
      (if sample_digest = sample_digest then Inr (ExistingMessage ''m-1'')
       else Inl (Mail (DuplicateIdempotencyKey (cd_sender sample_draft) ''k'' ''m-1'')))"
    by (rule key [THEN conjunct2, THEN conjunct2, THEN conjunct1, rule_format,
        where earlier = "mailbox_projection_new 1"])
      (simp_all only: draft ws sample_keyed sample_draft_accepted simp_thms one_le_numeral)
  moreover have False if "apply_owned sample_extern (sample_run 1) sample_rekeyed = Inr q" for q
    using key [THEN conjunct2, THEN conjunct1, rule_format, of sample_rekeyed _ "''k''" False q] row sample_keyed
      that [unfolded apply_owned_def] by auto
  ultimately show ?thesis using sample_draft_accepted by auto
qed

end
