(* ===== verification/Attempt_Properties.thy ===== *)
theory Attempt_Properties
  imports Sample_Run
begin

text \<open>
  The properties of wake attempts: composer barriers, the write boundary, retries, and the
  stages of an operator's resolution.
\<close>

section \<open>Barriers\<close>

text \<open>C16. At most one composer barrier is active per recipient: two active barriers of the same recipient
  belong to the same attempt, so no second doorbell is written over an unsettled one.\<close>

theorem one_barrier_per_recipient:
  assumes "replay X (mailbox_projection_new ws) lines = Inr p"
    and "hm_get (active_notification_barriers p) a = Some b" and "hm_get (active_notification_barriers p) a' = Some b'"
    and "nr_recipient b = nr_recipient b'"
  shows "a = a' \<and> b = b'"
proof -
  have "a = a'"
    using replay_inv [OF projection_inv_new assms(1)] assms(2-)
    unfolding projection_inv_def attempt_inv_def barriers_ok_def by blast
  then show ?thesis using assms(2,3) by simp
qed

theorem one_barrier_per_recipient_witness:
  "\<exists>b. hm_get (active_notification_barriers (sample_run 6)) 5 = Some b \<and>
    (5::attempt_id) = 5 \<and> b = b"
proof -
  obtain b where b: "hm_get (active_notification_barriers (sample_run 6)) 5 = Some b" using sample_barrier by blast
  have "(5::attempt_id) = 5 \<and> b = b" by (rule one_barrier_per_recipient [OF sample_states(2) [of 6] b b]) simp_all
  then show ?thesis using b by blast
qed

text \<open>A barrier is the current record of its attempt: it is past the write boundary, bound to a
  terminal, unresolved, its write sequence is recorded, and no current record of the attempt
  differs from it.\<close>

theorem barrier_matches_record:
  assumes "replay X (mailbox_projection_new ws) lines = Inr p"
    and "hm_get (active_notification_barriers p) a = Some b"
  shows "nr_attempt_id b = a \<and> past_write_boundary (nr_state b) \<and> nr_binding b \<noteq> None \<and> \<not> attention_resolved p a \<and>
    hm_get (notification_write_sequences p) a \<noteq> None \<and> notification_by_attempt p a \<in> {None, Some b}"
proof -
  have inv: "attempt_inv p" using replay_inv [OF projection_inv_new assms(1)] by (simp add: projection_inv_def)
  then have ok: "barrier_ok p a b" using assms(2) by (rule attempt_inv_barrier)
  then have "notification_by_attempt p a = Some c \<Longrightarrow> c = b" for c
    by (auto simp: notification_by_attempt_Some [OF inv] barrier_ok_def)
  then show ?thesis
    using ok by (cases "notification_by_attempt p a") (auto simp: barrier_ok_def attention_resolved_def)
qed

theorem barrier_matches_record_witness:
  "\<not> attention_resolved (sample_run 6) 5 \<and> hm_get (notification_write_sequences (sample_run 6)) 5 \<noteq> None"
  using sample_barrier barrier_matches_record [OF sample_states(2) [of 6], of 5] by auto

section \<open>Attempts\<close>

text \<open>Looking an attempt up is exact: the scan over all current records finds the record of the attempt
  if there is one, and there is at most one.\<close>

theorem attempt_lookup_exact:
  assumes "replay X (mailbox_projection_new ws) lines = Inr p"
  shows "notification_by_attempt p a = Some c \<longleftrightarrow> notification p (nr_recipient c) (nr_message_id c) = Some c \<and> nr_attempt_id c = a"
proof -
  have inv: "attempt_inv p" using replay_inv [OF projection_inv_new assms] by (simp add: projection_inv_def)
  show ?thesis
    unfolding notification_by_attempt_Some [OF inv] notification_def
    using attempt_invD(4,5) [OF inv] by (metis surj_pair)
qed

theorem attempt_lookup_exact_witness: "\<exists>c. notification_by_attempt (sample_run 4) 5 = Some c \<and> nr_state c = Writing"
proof -
  have inv: "attempt_inv (sample_run 4)" using sample_inv [of 4] by (simp add: projection_inv_def)
  obtain c where c: "hm_get (notifications (sample_run 4)) (sample_agent, ''m-1'') = Some c" "nr_attempt_id c = 5"
    "nr_state c = Writing"
    using sample_attempt(2) by blast
  then have "nr_recipient c = sample_agent" "nr_message_id c = ''m-1''" using attempt_invD(4,5) [OF inv] by blast+
  then have "notification_by_attempt (sample_run 4) 5 = Some c"
    using attempt_lookup_exact [OF sample_states(2) [of 4], of 5 c] c by (simp add: notification_def)
  then show ?thesis using c(3) by blast
qed

text \<open>An entry keeps its wake attempt: every accepted line leaves an attempt record in place for the
  entry, of the same attempt unless the prior attempt needed attention or waited for a quota
  reset and no resolution of it was under way; then the new one is queued and its id was never
  used before.\<close>

theorem attempt_replaced_only_by_requeue:
  assumes "replay X (mailbox_projection_new ws) lines = Inr p" and "apply_owned X p line = Inr q"
    and "notification p r m = Some c"
  shows "\<exists>c'. notification q r m = Some c' \<and>
    (nr_attempt_id c' = nr_attempt_id c \<or>
     nr_state c \<in> {AttentionRequired, QuotaResetObserved} \<and> nr_state c' = Queued \<and>
     hm_get (resolution_intents p) (nr_attempt_id c) = None \<and>
     \<not> hs_contains (notification_attempts p) (nr_attempt_id c'))"
proof -
  obtain c' where c': "hm_get (notifications q) (r, m) = Some c'" "c' = c \<or> wake_move c c' \<or> requeued p c c'"
    using accepted_moves [OF assms(2) [unfolded apply_owned_def]] assms(3) unfolding notification_def by metis
  have "wake_move c c' \<Longrightarrow> nr_attempt_id c' = nr_attempt_id c" by (auto elim: wake_move.cases)
  then show ?thesis
    using c' by (auto simp: notification_def requeued_def)
qed

theorem attempt_replaced_only_by_requeue_witness: "\<exists>c'. notification (sample_run 5) sample_agent ''m-1'' = Some c'"
proof -
  obtain c where c: "notification (sample_run 4) sample_agent ''m-1'' = Some c"
    using sample_attempt(2) unfolding notification_def by blast
  show ?thesis
    using attempt_replaced_only_by_requeue [OF sample_states(2) [of 4] sample_step [of 4] c] by auto
qed

text \<open>C9. The write boundary: while an attempt stays the current one, its record leaves the states in which
  text may be in the terminal only when the paste command is proven unwritten, for the one
  reminder after a completed notification, or because staged text was cleared after a claim.\<close>

theorem write_boundary_crossed_back:
  assumes "replay X (mailbox_projection_new ws) lines = Inr p" and "apply_owned X p line = Inr q"
    and "notification p r m = Some c" and "notification q r m = Some c'" and "nr_attempt_id c' = nr_attempt_id c"
    and "past_write_boundary (nr_state c)" and "\<not> past_write_boundary (nr_state c')"
  shows "nr_state c = Writing \<and> proven_unwritten c' \<or>
    nr_state c = Notified \<and> nr_unclaimed_reminder_count c = 0 \<and> nr_unclaimed_reminder_count c' = 1 \<or>
    nr_state c = Staged \<and> nr_state c' = WithdrawnAfterStaging"
proof -
  have inv: "attempt_inv p" using replay_inv [OF projection_inv_new assms(1)] by (simp add: projection_inv_def)
  have c: "hm_get (notifications p) (r, m) = Some c" using assms(3) by (simp add: notification_def)
  then have moves: "c' = c \<or> wake_move c c' \<or> requeued p c c'"
    using accepted_moves [OF assms(2) [unfolded apply_owned_def] c] assms(4) unfolding notification_def
    by (metis option.inject)
  have "\<not> requeued p c c'" using attempt_invD(3) [OF inv c] assms(5) by (auto simp: requeued_def)
  then show ?thesis using moves wake_move_boundary assms(6,7) by blast
qed

theorem write_boundary_crossed_back_witness:
  "\<exists>c'. notification sample_blocked sample_agent ''m-1'' = Some c' \<and> proven_unwritten c'"
proof -
  obtain c where c: "notification (sample_run 4) sample_agent ''m-1'' = Some c" "nr_attempt_id c = 5" "nr_state c = Writing"
    using sample_attempt(2) unfolding notification_def by blast
  obtain c' where c': "notification sample_blocked sample_agent ''m-1'' = Some c'" "nr_attempt_id c' = 5"
    "nr_state c' = BlockedPreWrite"
    using sample_blocked_attempt unfolding notification_def by blast
  have "nr_state c = Writing \<and> proven_unwritten c' \<or>
      nr_state c = Notified \<and> nr_unclaimed_reminder_count c = 0 \<and> nr_unclaimed_reminder_count c' = 1 \<or>
      nr_state c = Staged \<and> nr_state c' = WithdrawnAfterStaging"
    by (rule write_boundary_crossed_back [OF sample_states(2) [of 4] sample_blocked_step c(1) c'(1)])
      (simp_all add: c c' past_write_boundary_def)
  then show ?thesis using c' c(3) by auto
qed

text \<open>C18. Retries are bounded: an attempt is reopened before its write at most once and reminded at most once,
  so its execution epoch never exceeds three and never saturates.\<close>

theorem retries_bounded:
  assumes "replay X (mailbox_projection_new ws) lines = Inr p" and "notification p r m = Some c"
  shows "nr_pre_write_reopen_count c \<le> 1 \<and> nr_unclaimed_reminder_count c \<le> 1 \<and>
    execution_epoch c = 2 * nr_pre_write_reopen_count c + nr_unclaimed_reminder_count c \<and> execution_epoch c \<le> 3"
proof -
  have inv: "attempt_inv p" using replay_inv [OF projection_inv_new assms(1)] by (simp add: projection_inv_def)
  have "record_ok (seq_of p) r m c" using attempt_invD(1) [OF inv] assms(2) by (simp add: notification_def)
  then show ?thesis by (auto simp: record_ok_def execution_epoch_def saturating_add_u8_def saturating_mul_u8_def)
qed

theorem retries_bounded_witness: "\<exists>c. notification (sample_run 6) sample_agent ''m-1'' = Some c \<and> execution_epoch c \<le> 3"
proof -
  obtain c where c: "notification (sample_run 6) sample_agent ''m-1'' = Some c"
    using sample_attempt(4) unfolding notification_def by blast
  then show ?thesis using retries_bounded [OF sample_states(2) [of 6] c] by auto
qed

section \<open>Resolutions\<close>

text \<open>The stages of a resolution come in order: an accepted key action has a recorded intent of the same
  resolution, an observed consumption an accepted completion, a reserved action and a forced
  intent a recorded intent to complete; and all of them belong to known attempts.\<close>

theorem resolution_stages_ordered:
  assumes "replay X (mailbox_projection_new ws) lines = Inr p"
  shows "(hm_get (resolution_actions_accepted p) a = Some res \<longrightarrow> hm_get (resolution_intents p) a = Some res) \<and>
    (hm_get (resolution_consumptions p) a \<noteq> None \<longrightarrow> hm_get (resolution_actions_accepted p) a = Some Complete) \<and>
    (hm_get (resolution_action_reservations p) a \<noteq> None \<longrightarrow> hm_get (resolution_intents p) a = Some Complete) \<and>
    (hs_contains (forced_resolution_intents p) a \<longrightarrow> hm_get (resolution_intents p) a = Some Complete) \<and>
    (hm_get (resolution_intents p) a \<noteq> None \<longrightarrow> hs_contains (notification_attempts p) a)"
proof -
  have inv: "attempt_inv p" using replay_inv [OF projection_inv_new assms] by (simp add: projection_inv_def)
  show ?thesis using stagesD [OF inv] by blast
qed

theorem resolution_stages_ordered_witness:
  "hm_get (resolution_actions_accepted (sample_run 8)) 5 = Some Complete \<and>
   hm_get (resolution_intents (sample_run 8)) 5 = Some Complete \<and>
   hs_contains (notification_attempts (sample_run 8)) 5"
  using resolution_stages_ordered [OF sample_states(2) [of 8], of 5 Complete] sample_stages(2) by simp

text \<open>C17. A completion rests on evidence: an attempt becomes resolved as completed only with a recorded
  intent, an accepted key action and an observation that proves the exact prompt was consumed,
  or under the legacy write contract, whose rows carry no such evidence. The attempt's barrier is
  gone afterwards.\<close>

theorem completion_has_evidence:
  assumes "replay X (mailbox_projection_new ws) lines = Inr p" and "apply_owned X p line = Inr q"
    and "\<not> attention_resolved p a" and "hm_get (resolved_attempts q) a = Some Complete"
  shows "hm_get (active_notification_barriers q) a = None \<and> (\<exists>c. notification_by_attempt p a = Some c \<and>
    nr_state c = AttentionRequired \<and>
    (uses_legacy_notification_write_contract c \<or>
     hm_get (resolution_intents p) a = Some Complete \<and> hm_get (resolution_actions_accepted p) a = Some Complete \<and>
     (\<exists>ob. hm_get (resolution_consumptions p) a = Some ob \<and> proves_exact_consumption (co_evidence ob))))"
proof -
  have inv: "projection_inv p" using replay_inv [OF projection_inv_new assms(1)] .
  then have ainv: "attempt_inv p" by (simp add: projection_inv_def)
  obtain pm where pm: "legal p line pm" "commit_line p line pm = Some q"
    using apply_inner_facts [OF inv assms(2) [unfolded apply_owned_def]] by metis
  obtain r m c v where res: "pm = PreparedResolved a Complete" "open_attention p r m a"
    "hm_get (notifications p) (r, m) = Some c" "check_resolution_proof p c v a Complete = Inr ()"
    using completed_by_row [OF pm _ assms(4)] assms(3) unfolding attention_resolved_def hm_contains_key_def by metis
  have "notification_by_attempt p a = Some c \<and> nr_state c = AttentionRequired"
    using res(2,3) by (auto simp: notification_by_attempt_Some [OF ainv] open_attention_def)
  moreover have "hm_get (active_notification_barriers q) a = None"
    using pm(2) res(1) by (auto simp: commit_line_def commit_resolved_def remove_barrier_def)
  ultimately show ?thesis using res(4)
    by (auto simp: check_resolution_proof_def ambiguous_def split: if_splits option.splits resolution.splits)
qed

theorem completion_has_evidence_witness:
  "\<exists>c. notification_by_attempt (sample_run 9) 5 = Some c \<and> nr_state c = AttentionRequired"
  using completion_has_evidence [OF sample_states(2) [of 9] sample_step [of 9], of 5] sample_stages(3,4)
  by (auto simp: attention_resolved_def)

end
