(* ===== verification/Ledger_File.thy ===== *)
theory Ledger_File
  imports Notification_Types
begin

text \<open>
  The journal file of \<open>cyclops-ledger/src/lib.rs\<close>: the writer that appends one JSON line per
  record, the two readers, and the recovery of a torn tail when a file is opened.

  A file is the string of its bytes. \<open>serde_json\<close> is a parameter, the record \<open>line_codec\<close>;
  \<open>codec_laws\<close> states what is documented of it. What the operating system answers is an
  argument of each operation: \<open>append_io\<close> for a write and its \<open>sync_data\<close>, a flag for the file
  lock, and a flag for the seeks, reads and truncations of an open, whose errors are passed on
  before anything is built. Paths, which the source keeps for messages only, are left out.
\<close>

section \<open>Data\<close>

datatype ledger_error =
    LedgerIo
  | LedgerSerialize string
  | CorruptLine nat string
  | SequenceGap nat nat nat
  | SequenceExhausted
  | WriteStateUnknown
  | WriterInUse
  | WriterSealed

record line_codec =
  to_vec :: "ledger_line \<Rightarrow> (string, string) result"
  from_text :: "string \<Rightarrow> (string, ledger_line) result"

record ledger_writer =
  lw_file :: string
  lw_next_seq :: nat
  lw_strict_replay :: bool
  lw_write_state_unknown :: bool
  lw_sealed :: bool
  lw_locked :: bool
  lw_boot_id :: string

text \<open>The outcome of \<open>write_all\<close> and \<open>sync_data\<close>; a failed write may leave some bytes behind.\<close>

datatype append_io = Synced | WriteFailed nat | SyncFailed

definition newline :: char where
  "newline = CHR 0x0A"

section \<open>Reading\<close>

text \<open>\<open>str::from_utf8\<close> on the bytes of one line.\<close>

definition utf8_continuation :: "nat \<Rightarrow> bool" where
  "utf8_continuation b = (128 \<le> b \<and> b \<le> 191)"

text \<open>The second byte that may follow a lead byte of three or four bytes.\<close>

definition utf8_second :: "nat \<Rightarrow> nat \<Rightarrow> bool" where
  "utf8_second a b =
     (if a = 224 then 160 \<le> b \<and> b \<le> 191
      else if a = 237 then 128 \<le> b \<and> b \<le> 159
      else if a = 240 then 144 \<le> b \<and> b \<le> 191
      else if a = 244 then 128 \<le> b \<and> b \<le> 143
      else utf8_continuation b)"

fun utf8_bytes :: "nat list \<Rightarrow> bool" where
  "utf8_bytes [] = True"
| "utf8_bytes (a # bs) =
     (if a < 128 then utf8_bytes bs
      else if 194 \<le> a \<and> a \<le> 223 then
        (case bs of b # r \<Rightarrow> utf8_continuation b \<and> utf8_bytes r | _ \<Rightarrow> False)
      else if 224 \<le> a \<and> a \<le> 239 then
        (case bs of b # c # r \<Rightarrow> utf8_second a b \<and> utf8_continuation c \<and> utf8_bytes r | _ \<Rightarrow> False)
      else if 240 \<le> a \<and> a \<le> 244 then
        (case bs of
           b # c # d # r \<Rightarrow> utf8_second a b \<and> utf8_continuation c \<and> utf8_continuation d \<and> utf8_bytes r
         | _ \<Rightarrow> False)
      else False)"

definition utf8_ok :: "string \<Rightarrow> bool" where
  "utf8_ok s = utf8_bytes (map byte_of s)"

text \<open>The two loops over \<open>BufRead::lines\<close>; \<open>n\<close> is the physical line and \<open>expected\<close> the next sequence.\<close>

fun read_from :: "line_codec \<Rightarrow> nat \<Rightarrow> string list \<Rightarrow> (ledger_error, ledger_line list) result" where
  "read_from C cursor [] = Inr []"
| "read_from C cursor (raw # rest) =
     (if \<not> utf8_ok raw then Inl LedgerIo
      else if str_trim raw = [] then read_from C cursor rest
      else
        (case from_text C raw of
           Inl e \<Rightarrow> read_from C cursor rest
         | Inr line \<Rightarrow>
             rbind (read_from C cursor rest) (\<lambda>lines.
             Inr (if ln_seq line > cursor then line # lines else lines))))"

fun read_from_strict ::
  "line_codec \<Rightarrow> nat \<Rightarrow> nat \<Rightarrow> nat \<Rightarrow> string list \<Rightarrow> (ledger_error, ledger_line list) result" where
  "read_from_strict C cursor n expected [] = Inr []"
| "read_from_strict C cursor n expected (raw # rest) =
     (if \<not> utf8_ok raw then Inl LedgerIo
      else if str_trim raw = [] then Inl (CorruptLine n ''empty record'')
      else
        (case from_text C raw of
           Inl e \<Rightarrow> Inl (CorruptLine n e)
         | Inr line \<Rightarrow>
             if ln_seq line \<noteq> expected then Inl (SequenceGap n expected (ln_seq line))
             else
               rbind (ok_or (checked_add_u64 expected 1) SequenceExhausted) (\<lambda>following.
               rbind (read_from_strict C cursor (Suc n) following rest) (\<lambda>lines.
               Inr (if ln_seq line > cursor then line # lines else lines)))))"

definition read_bytes :: "line_codec \<Rightarrow> bool \<Rightarrow> nat \<Rightarrow> string \<Rightarrow> (ledger_error, ledger_line list) result" where
  "read_bytes C strict cursor bytes =
     (if strict then read_from_strict C cursor 1 1 (str_lines bytes) else read_from C cursor (str_lines bytes))"

section \<open>The writer\<close>

text \<open>The bytes up to and including the last newline.\<close>

definition retained :: "string \<Rightarrow> string" where
  "retained bytes = rev (dropWhile (\<lambda>b. b \<noteq> newline) (rev bytes))"

definition recover_tail :: "bool \<Rightarrow> string \<Rightarrow> string" where
  "recover_tail strict bytes =
     (if bytes = [] \<or> last bytes = newline then bytes
      else if strict then retained bytes
      else bytes @ [newline])"

definition open_with_replay ::
  "line_codec \<Rightarrow> bool \<Rightarrow> bool \<Rightarrow> string \<Rightarrow> string \<Rightarrow> bool \<Rightarrow> (ledger_error, ledger_writer \<times> ledger_line list) result" where
  "open_with_replay C lock_free io_ok bytes boot_id strict =
     (if \<not> lock_free then Inl WriterInUse
      else if \<not> io_ok then Inl LedgerIo
      else
        let file = recover_tail strict bytes in
        rbind (read_bytes C strict 0 file) (\<lambda>lines.
        rbind (if lines = [] then Inr 1
               else ok_or (checked_add_u64 (ln_seq (last lines)) 1) SequenceExhausted) (\<lambda>next_seq.
        Inr (\<lparr> lw_file = file, lw_next_seq = next_seq, lw_strict_replay = strict,
               lw_write_state_unknown = False, lw_sealed = False, lw_locked = True, lw_boot_id = boot_id \<rparr>,
             lines))))"

text \<open>\<open>now\<close> is what \<open>now_ms\<close> returns.\<close>

definition stamped :: "ledger_writer \<Rightarrow> nat \<Rightarrow> ledger_line \<Rightarrow> ledger_line" where
  "stamped w now line =
     line\<lparr> ln_seq := lw_next_seq w, ln_boot_id := lw_boot_id w, ln_ts := (if ln_ts line = 0 then now else ln_ts line) \<rparr>"

definition append_record ::
  "line_codec \<Rightarrow> append_io \<Rightarrow> nat \<Rightarrow> ledger_writer \<Rightarrow> ledger_line \<Rightarrow> (ledger_error, ledger_line) result \<times> ledger_writer" where
  "append_record C io now w line =
     (if lw_sealed w then (Inl WriterSealed, w)
      else if lw_write_state_unknown w then (Inl WriteStateUnknown, w)
      else
        (case checked_add_u64 (lw_next_seq w) 1 of
           None \<Rightarrow> (Inl SequenceExhausted, w)
         | Some following \<Rightarrow>
             let stored = stamped w now line in
             (case to_vec C stored of
                Inl e \<Rightarrow> (Inl (LedgerSerialize e), w)
              | Inr bytes \<Rightarrow>
                  let buffer = bytes @ [newline] in
                  (case io of
                     WriteFailed k \<Rightarrow>
                       (Inl LedgerIo, w\<lparr> lw_file := lw_file w @ take k buffer, lw_write_state_unknown := True \<rparr>)
                   | SyncFailed \<Rightarrow>
                       (Inl LedgerIo, w\<lparr> lw_file := lw_file w @ buffer, lw_write_state_unknown := True \<rparr>)
                   | Synced \<Rightarrow>
                       (Inr stored, w\<lparr> lw_file := lw_file w @ buffer, lw_next_seq := following \<rparr>)))))"

definition writer_read_after :: "line_codec \<Rightarrow> ledger_writer \<Rightarrow> nat \<Rightarrow> (ledger_error, ledger_line list) result" where
  "writer_read_after C w cursor = read_bytes C (lw_strict_replay w) cursor (lw_file w)"

text \<open>Sealing; \<open>unlocked\<close> says whether the system released the lock.\<close>

definition seal_writer :: "bool \<Rightarrow> ledger_writer \<Rightarrow> (ledger_error, unit) result \<times> ledger_writer" where
  "seal_writer unlocked w =
     (let w1 = w\<lparr> lw_sealed := True \<rparr> in
      if \<not> lw_locked w1 then (Inr (), w1)
      else if \<not> unlocked then (Inl LedgerIo, w1)
      else (Inr (), w1\<lparr> lw_locked := False \<rparr>))"

text \<open>Reading a file without a writer; \<open>None\<close> is a missing file.\<close>

definition read_after :: "line_codec \<Rightarrow> string option \<Rightarrow> nat \<Rightarrow> (ledger_error, ledger_line list) result" where
  "read_after C file cursor =
     (case file of None \<Rightarrow> Inr [] | Some bytes \<Rightarrow> read_from C cursor (str_lines bytes))"

definition last_valid_seq :: "line_codec \<Rightarrow> string option \<Rightarrow> (ledger_error, nat option) result" where
  "last_valid_seq C file =
     rbind (read_after C file 0) (\<lambda>lines. Inr (if lines = [] then None else Some (ln_seq (last lines))))"

section \<open>What is assumed of JSON\<close>

text \<open>
  What the daemon stores in a line: no data, or the value of metadata or of a fact. Such a line
  reads back as it was written. The compact form is UTF-8, begins with a brace and holds no
  control character.
\<close>

definition storable :: "ledger_line \<Rightarrow> bool" where
  "storable line \<longleftrightarrow>
     ln_data line = None \<or> (\<exists>md. ln_data line = Some (metadata_value md)) \<or>
     (\<exists>f. ln_data line = Some (mailbox_fact_value f)) \<or> (\<exists>f. ln_data line = Some (notification_fact_value f))"

definition compact_json :: "string \<Rightarrow> bool" where
  "compact_json bytes =
     (utf8_ok bytes \<and> bytes \<noteq> [] \<and> hd bytes = CHR ''{'' \<and> (\<forall>c\<in>set bytes. 32 \<le> byte_of c))"

definition codec_laws :: "line_codec \<Rightarrow> bool" where
  "codec_laws C \<longleftrightarrow> (\<forall>line bytes. storable line \<longrightarrow> to_vec C line = Inr bytes \<longrightarrow>
     compact_json bytes \<and> from_text C bytes = Inr line)"

section \<open>Lines of a journal\<close>

definition record_bytes :: "line_codec \<Rightarrow> ledger_line \<Rightarrow> string" where
  "record_bytes C line = (case to_vec C line of Inl e \<Rightarrow> [] | Inr bytes \<Rightarrow> bytes @ [newline])"

definition journal_bytes :: "line_codec \<Rightarrow> ledger_line list \<Rightarrow> string" where
  "journal_bytes C lines = concat (map (record_bytes C) lines)"

definition writable :: "line_codec \<Rightarrow> ledger_line \<Rightarrow> bool" where
  "writable C line \<longleftrightarrow> storable line \<and> (\<exists>bytes. to_vec C line = Inr bytes)"

text \<open>A journal: writable lines numbered from one, with room for the next number.\<close>

definition journal_ok :: "line_codec \<Rightarrow> ledger_line list \<Rightarrow> bool" where
  "journal_ok C lines \<longleftrightarrow>
     list_all (writable C) lines \<and> map ln_seq lines = [1..<Suc (length lines)] \<and> length lines < u64_max"

lemma journal_bytes_append [simp]: "journal_bytes C (xs @ ys) = journal_bytes C xs @ journal_bytes C ys"
  and journal_bytes_Nil [simp]: "journal_bytes C [] = []"
  and journal_bytes_Cons [simp]: "journal_bytes C (x # xs) = record_bytes C x @ journal_bytes C xs"
  by (simp_all add: journal_bytes_def)

lemma journal_ok_Nil [simp]: "journal_ok C []"
  by (simp add: journal_ok_def u64_max_def)

lemma journal_ok_snoc:
  "journal_ok C (lines @ [line]) \<longleftrightarrow>
     journal_ok C lines \<and> writable C line \<and> ln_seq line = Suc (length lines) \<and> Suc (length lines) < u64_max"
  by (auto simp: journal_ok_def)

section \<open>Reading back what was written\<close>

definition line_text :: "line_codec \<Rightarrow> ledger_line \<Rightarrow> string" where
  "line_text C line = (case to_vec C line of Inl e \<Rightarrow> [] | Inr bytes \<Rightarrow> bytes)"

lemma writable_text:
  assumes "codec_laws C" and "writable C line"
  shows "record_bytes C line = line_text C line @ [newline]" and "compact_json (line_text C line)"
    and "from_text C (line_text C line) = Inr line"
  using assms by (auto simp: writable_def codec_laws_def record_bytes_def line_text_def)

lemma compact_json_facts:
  assumes "compact_json bytes"
  shows "newline \<notin> set bytes" and "strip_cr bytes = bytes" and "utf8_ok bytes" and "str_trim bytes \<noteq> []"
proof -
  have no: "c \<notin> set bytes" if "byte_of c < 32" for c using assms that by (force simp: compact_json_def)
  show "newline \<notin> set bytes" by (rule no) (simp add: newline_def byte_of_def)
  have "CHR 0x0D \<notin> set bytes" by (rule no) (simp add: byte_of_def)
  then have "strip_suffix [CHR 0x0D] bytes = None"
    by (cases "strip_suffix [CHR 0x0D] bytes") (auto simp: strip_suffix_Some)
  then show "strip_cr bytes = bytes" by (simp add: strip_cr_def)
  show "utf8_ok bytes" using assms by (simp add: compact_json_def)
  obtain rest where bytes: "bytes = CHR ''{'' # rest" using assms by (cases bytes) (auto simp: compact_json_def)
  have "char_segments bytes = [CHR ''{''] # char_segments rest"
    by (simp add: bytes utf8_width_def byte_of_def)
  moreover have "\<not> is_whitespace (code_point [CHR ''{''])" by (simp add: is_whitespace_def code_point_def byte_of_def)
  ultimately have "[CHR ''{''] \<in> set (trim_segments (char_segments bytes))"
    by (simp add: trim_segments_def dropWhile_append)
  then show "str_trim bytes \<noteq> []" by (auto simp: str_trim_def)
qed

lemma split_on_journal:
  assumes "codec_laws C" and "list_all (writable C) lines" and "newline \<notin> set tail"
  shows "split_on newline (journal_bytes C lines @ tail) = map (line_text C) lines @ [tail]"
  using assms(2)
proof (induction lines)
  case Nil
  then show ?case using split_on_absent assms(3) by simp
next
  case (Cons line lines)
  have "newline \<notin> set (line_text C line)"
    using writable_text(2) [OF assms(1)] compact_json_facts(1) Cons.prems by simp
  then show ?case
    using Cons writable_text(1) [OF assms(1), of line] by (simp add: split_on_append)
qed

lemma str_lines_journal:
  assumes "codec_laws C" and "list_all (writable C) lines" and "newline \<notin> set tail"
  shows "str_lines (journal_bytes C lines @ tail) = map (line_text C) lines @ (if tail = [] then [] else [tail])"
proof -
  have "map strip_cr (map (line_text C) lines) = map (line_text C) lines"
    using assms(2) writable_text(2) [OF assms(1)] compact_json_facts(2) by (auto simp: list_all_iff)
  then show ?thesis
    using split_on_journal [OF assms] by (simp add: str_lines_def newline_def Let_def butlast_append)
qed

lemma read_from_strict_journal:
  assumes laws: "codec_laws C" and "list_all (writable C) lines"
    and "map ln_seq lines = [expected..<expected + length lines]" and "expected + length lines \<le> u64_max"
  shows "read_from_strict C cursor n expected (map (line_text C) lines) = Inr (filter (\<lambda>l. ln_seq l > cursor) lines)"
  using assms(2-)
proof (induction lines arbitrary: n expected)
  case (Cons line lines)
  have w: "writable C line" using Cons.prems(1) by simp
  have seq: "ln_seq line = expected" "map ln_seq lines = [Suc expected..<Suc expected + length lines]"
    using Cons.prems(2) by (simp_all add: upt_conv_Cons del: upt_Suc)
  have "checked_add_u64 expected 1 = Some (Suc expected)" using Cons.prems(3) by (simp add: checked_add_u64_Some)
  then show ?case
    using Cons.IH [of "Suc expected" "Suc n"] Cons.prems seq writable_text(3) [OF laws w]
      compact_json_facts(3,4) [OF writable_text(2) [OF laws w]]
    by simp
qed simp

lemma read_from_journal:
  assumes laws: "codec_laws C" and "list_all (writable C) lines"
  shows "read_from C cursor (map (line_text C) lines) = Inr (filter (\<lambda>l. ln_seq l > cursor) lines)"
  using assms(2)
proof (induction lines)
  case (Cons line lines)
  then show ?case
    using writable_text(3) [OF laws, of line] compact_json_facts(3,4) [OF writable_text(2) [OF laws], of line]
    by simp
qed simp

text \<open>Both readers return a journal as it was written.\<close>

lemma read_journal:
  assumes "codec_laws C" and "journal_ok C lines"
  shows "read_bytes C strict cursor (journal_bytes C lines) = Inr (filter (\<lambda>l. ln_seq l > cursor) lines)"
  using assms str_lines_journal [OF assms(1), of lines "[]"] read_from_journal [OF assms(1)]
    read_from_strict_journal [OF assms(1), of lines 1]
  by (simp add: read_bytes_def journal_ok_def del: upt_Suc)

section \<open>Opening\<close>

lemma retained_append: "newline \<notin> set tail \<Longrightarrow> retained (bytes @ [newline] @ tail) = bytes @ [newline]"
  by (simp add: retained_def dropWhile_append)

lemma retained_none: "newline \<notin> set tail \<Longrightarrow> retained tail = []"
  by (auto simp: retained_def)

lemma journal_bytes_last:
  assumes "codec_laws C" and "list_all (writable C) lines" and "lines \<noteq> []"
  obtains bytes where "journal_bytes C lines = bytes @ [newline]"
proof -
  obtain ys y where "lines = ys @ [y]" using assms(3) by (metis rev_exhaust)
  then show thesis using that [of "journal_bytes C ys @ line_text C y"] writable_text(1) [OF assms(1)] assms(2) by simp
qed

lemma retained_journal:
  assumes "codec_laws C" and "list_all (writable C) lines" and "newline \<notin> set tail"
  shows "retained (journal_bytes C lines @ tail) = journal_bytes C lines"
proof (cases "lines = []")
  case False
  then obtain bytes where "journal_bytes C lines = bytes @ [newline]" using journal_bytes_last assms by blast
  then show ?thesis using retained_append [OF assms(3)] by simp
qed (simp add: retained_none assms(3))

text \<open>A strict open finds the journal again and drops an unterminated tail.\<close>

lemma open_strict_journal:
  assumes laws: "codec_laws C" and ok: "journal_ok C lines" and tail: "newline \<notin> set tail"
  shows "open_with_replay C True True (journal_bytes C lines @ tail) boot True =
    Inr (\<lparr> lw_file = journal_bytes C lines, lw_next_seq = Suc (length lines), lw_strict_replay = True,
           lw_write_state_unknown = False, lw_sealed = False, lw_locked = True, lw_boot_id = boot \<rparr>, lines)"
proof -
  have w: "list_all (writable C) lines" and len: "length lines < u64_max" using ok by (simp_all add: journal_ok_def)
  have content: "recover_tail True (journal_bytes C lines @ tail) = journal_bytes C lines"
  proof (cases "tail = []")
    case True
    show ?thesis
    proof (cases "lines = []")
      case False
      then obtain bytes where "journal_bytes C lines = bytes @ [newline]" using journal_bytes_last laws w by blast
      then show ?thesis using True by (simp add: recover_tail_def)
    qed (simp add: True recover_tail_def)
  next
    case False
    then have "last (journal_bytes C lines @ tail) \<noteq> newline" using tail by (metis last_appendR last_in_set)
    then show ?thesis using False retained_journal [OF laws w tail] by (simp add: recover_tail_def)
  qed
  have "filter (\<lambda>l. ln_seq l > 0) lines = lines"
  proof (rule filter_True, intro ballI)
    fix l assume "l \<in> set lines"
    then have "ln_seq l \<in> set [1..<Suc (length lines)]" using ok by (metis image_eqI journal_ok_def list.set_map)
    then show "ln_seq l > 0" by auto
  qed
  moreover have "ln_seq (last lines) = length lines" if "lines \<noteq> []"
    using ok that last_map [of lines ln_seq] by (cases lines) (auto simp: journal_ok_def)
  ultimately show ?thesis
    using read_journal [OF laws ok, of True 0] content len
    by (auto simp: open_with_replay_def checked_add_u64_def)
qed

section \<open>The writer keeps its journal\<close>

text \<open>
  A writer holds a journal when its file is that journal, or after a failed write that journal
  and a piece of the next record.
\<close>

definition pending_tail :: "line_codec \<Rightarrow> ledger_line list \<Rightarrow> string \<Rightarrow> bool" where
  "pending_tail C lines tail \<longleftrightarrow>
     (\<exists>line k. tail = take k (record_bytes C line) \<and> journal_ok C (lines @ [line]))"

definition writer_holds :: "line_codec \<Rightarrow> ledger_writer \<Rightarrow> ledger_line list \<Rightarrow> bool" where
  "writer_holds C w lines \<longleftrightarrow>
     journal_ok C lines \<and> lw_strict_replay w \<and> lw_next_seq w = Suc (length lines) \<and>
     (\<exists>tail. lw_file w = journal_bytes C lines @ tail \<and>
        (if lw_write_state_unknown w then pending_tail C lines tail else tail = []))"

lemma stamped_same:
  "ln_seq line = lw_next_seq w \<Longrightarrow> ln_boot_id line = lw_boot_id w \<Longrightarrow> ln_ts line \<noteq> 0 \<Longrightarrow> stamped w now line = line"
  by (simp add: stamped_def)

lemma storable_stamped [simp]: "storable (stamped w now line) = storable line"
  by (simp add: stamped_def storable_def)

lemma append_record_cases:
  assumes "append_record C io now w line = (r, w')"
  obtains (refused) e where "r = Inl e" "w' = w"
  | (failed) bytes k where "r = Inl LedgerIo" "to_vec C (stamped w now line) = Inr bytes" "\<not> lw_write_state_unknown w"
      "Suc (lw_next_seq w) \<le> u64_max"
      "w' = w\<lparr> lw_file := lw_file w @ take k (bytes @ [newline]), lw_write_state_unknown := True \<rparr>"
  | (stored) bytes where "r = Inr (stamped w now line)" "to_vec C (stamped w now line) = Inr bytes"
      "\<not> lw_write_state_unknown w" "Suc (lw_next_seq w) \<le> u64_max"
      "w' = w\<lparr> lw_file := lw_file w @ bytes @ [newline], lw_next_seq := Suc (lw_next_seq w) \<rparr>"
proof -
  consider "lw_sealed w \<or> lw_write_state_unknown w" | "\<not> (lw_sealed w \<or> lw_write_state_unknown w)" "checked_add_u64 (lw_next_seq w) 1 = None"
    | e where "\<not> (lw_sealed w \<or> lw_write_state_unknown w)" "checked_add_u64 (lw_next_seq w) 1 = Some (Suc (lw_next_seq w))"
        "to_vec C (stamped w now line) = Inl e"
    | bytes where "\<not> (lw_sealed w \<or> lw_write_state_unknown w)" "checked_add_u64 (lw_next_seq w) 1 = Some (Suc (lw_next_seq w))"
        "to_vec C (stamped w now line) = Inr bytes"
    by (cases "checked_add_u64 (lw_next_seq w) 1"; cases "to_vec C (stamped w now line)")
      (auto simp: checked_add_u64_Some)
  then show thesis
  proof cases
    case 1
    then show ?thesis using assms refused by (auto simp: append_record_def split: if_splits)
  next
    case 2
    then show ?thesis using assms refused by (auto simp: append_record_def)
  next
    case 3
    then show ?thesis using assms refused by (auto simp: append_record_def)
  next
    case (4 bytes)
    have room: "Suc (lw_next_seq w) \<le> u64_max" using 4(2) by (simp add: checked_add_u64_Some)
    show ?thesis
    proof (cases io)
      case Synced
      then show ?thesis using assms 4 room by (intro stored [of bytes]) (simp_all add: append_record_def)
    next
      case (WriteFailed k)
      then show ?thesis using assms 4 room by (intro failed [of bytes k]) (simp_all add: append_record_def)
    next
      case SyncFailed
      then show ?thesis
        using assms 4 room by (intro failed [of bytes "length (bytes @ [newline])"]) (simp_all add: append_record_def)
    qed
  qed
qed

lemma append_record_fields:
  assumes "append_record C io now w line = (r, w')"
  shows "lw_boot_id w' = lw_boot_id w" and "lw_sealed w' = lw_sealed w"
    and "lw_write_state_unknown w \<Longrightarrow> w' = w"
  using assms by (cases rule: append_record_cases; simp)+

lemma append_record_Inr:
  assumes "writer_holds C w lines" and "storable line" and "append_record C io now w line = (Inr l, w')"
  shows "l = stamped w now line" and "writer_holds C w' (lines @ [l])" and "\<not> lw_write_state_unknown w'"
proof -
  from assms(3) have "l = stamped w now line \<and> writer_holds C w' (lines @ [l]) \<and> \<not> lw_write_state_unknown w'"
  proof (cases rule: append_record_cases)
    case (stored bytes)
    have "writable C l" using stored assms(2) by (simp add: writable_def)
    moreover have "ln_seq l = lw_next_seq w" using stored by (simp add: stamped_def)
    moreover have "record_bytes C l = bytes @ [newline]" using stored by (simp add: record_bytes_def)
    ultimately show ?thesis using assms(1) stored by (auto simp: writer_holds_def journal_ok_snoc)
  qed simp_all
  then show "l = stamped w now line" "writer_holds C w' (lines @ [l])" "\<not> lw_write_state_unknown w'" by auto
qed

lemma append_record_Inl:
  assumes "writer_holds C w lines" and "storable line" and "append_record C io now w line = (Inl e, w')"
  shows "writer_holds C w' lines"
  using assms(3)
proof (cases rule: append_record_cases)
  case (failed bytes k)
  have "journal_ok C (lines @ [stamped w now line])"
    using assms(1) failed storable_stamped [of w now line] assms(2)
    by (auto simp: journal_ok_snoc writer_holds_def writable_def) (simp_all add: stamped_def)
  moreover have "record_bytes C (stamped w now line) = bytes @ [newline]" using failed by (simp add: record_bytes_def)
  ultimately have "pending_tail C lines (take k (bytes @ [newline]))" by (metis pending_tail_def)
  then show ?thesis using assms(1) failed by (simp add: writer_holds_def)
qed (use assms(1) in simp_all)

text \<open>Reopening after a crash: any cut of the file behind the last acknowledged byte.\<close>

lemma record_cut:
  assumes laws: "codec_laws C" and w: "writable C line"
  shows "newline \<notin> set (take j (take k (record_bytes C line))) \<or> take j (take k (record_bytes C line)) = record_bytes C line"
proof -
  let ?i = "min j k" and ?text = "line_text C line"
  have cut: "take j (take k (record_bytes C line)) = take ?i (?text @ [newline])"
    using writable_text(1) [OF laws w] by (metis take_take)
  show ?thesis
  proof (cases "?i \<le> length ?text")
    case True
    then have "take j (take k (record_bytes C line)) = take ?i ?text" using cut by simp
    then show ?thesis using compact_json_facts(1) [OF writable_text(2) [OF laws w]] by (metis in_set_takeD)
  next
    case False
    then have "length (?text @ [newline]) \<le> ?i" by auto
    then show ?thesis using cut writable_text(1) [OF laws w] take_all by metis
  qed
qed

lemma pending_tail_cut:
  assumes laws: "codec_laws C" and "pending_tail C lines tail"
  shows "newline \<notin> set (take j tail) \<or> (\<exists>line. take j tail = record_bytes C line \<and> journal_ok C (lines @ [line]))"
  using assms record_cut [OF laws] unfolding pending_tail_def journal_ok_snoc by metis

lemma reopen_after_crash:
  assumes laws: "codec_laws C" and holds: "writer_holds C w lines" and cut: "length (journal_bytes C lines) \<le> j"
  shows "\<exists>w' found. open_with_replay C True True (take j (lw_file w)) boot True = Inr (w', found) \<and>
    writer_holds C w' found \<and> (found = lines \<or> (\<exists>line. found = lines @ [line]))"
proof -
  obtain tail where tail: "lw_file w = journal_bytes C lines @ tail"
    "if lw_write_state_unknown w then pending_tail C lines tail else tail = []"
    using holds by (auto simp: writer_holds_def)
  let ?t = "take (j - length (journal_bytes C lines)) tail"
  have ok: "journal_ok C lines" using holds by (simp add: writer_holds_def)
  have bytes: "take j (lw_file w) = journal_bytes C lines @ ?t" using tail(1) cut by simp
  have "newline \<notin> set ?t \<or> (\<exists>line. ?t = record_bytes C line \<and> journal_ok C (lines @ [line]))"
    using tail(2) pending_tail_cut [OF laws] by (auto split: if_splits)
  then show ?thesis
  proof (elim disjE exE conjE)
    assume "newline \<notin> set ?t"
    from open_strict_journal [OF laws ok this] show ?thesis using bytes ok by (auto simp: writer_holds_def)
  next
    fix line assume l: "?t = record_bytes C line" "journal_ok C (lines @ [line])"
    have "journal_bytes C (lines @ [line]) = take j (lw_file w)" using bytes l(1) by simp
    then show ?thesis
      using open_strict_journal [OF laws l(2), of "[]"] l(2) by (auto simp: writer_holds_def)
  qed
qed

section \<open>Durable logs\<close>

text \<open>Serving requests one after the other; the acknowledged lines and the writer that remains.\<close>

fun append_all :: "('i \<Rightarrow> 'w \<Rightarrow> 'l \<Rightarrow> ('e, 'l) result \<times> 'w) \<Rightarrow> 'w \<Rightarrow> ('i \<times> 'l) list \<Rightarrow> 'l list \<times> 'w" where
  "append_all put w [] = ([], w)"
| "append_all put w ((i, l) # rest) =
     (case put i w l of
        (Inl e, w1) \<Rightarrow> append_all put w1 rest
      | (Inr stored, w1) \<Rightarrow> (case append_all put w1 rest of (acks, w2) \<Rightarrow> (stored # acks, w2)))"

locale durable_log =
  fixes put :: "'i \<Rightarrow> 'w \<Rightarrow> 'l \<Rightarrow> ('e, 'l) result \<times> 'w"
    and holds :: "'w \<Rightarrow> 'l list \<Rightarrow> bool"
    and fit :: "'l \<Rightarrow> bool"
  assumes appended: "holds w ls \<Longrightarrow> fit l \<Longrightarrow> put i w l = (Inr l', w') \<Longrightarrow> holds w' (ls @ [l'])"
    and refused: "holds w ls \<Longrightarrow> fit l \<Longrightarrow> put i w l = (Inl e, w') \<Longrightarrow> holds w' ls"
begin

lemma append_all_holds:
  "holds w ls \<Longrightarrow> \<forall>r\<in>set requests. fit (snd r) \<Longrightarrow> append_all put w requests = (acks, w') \<Longrightarrow> holds w' (ls @ acks)"
proof (induction requests arbitrary: w ls acks)
  case (Cons request requests)
  obtain i l where r: "request = (i, l)" by (cases request)
  obtain res w1 where a: "put i w l = (res, w1)" by (cases "put i w l")
  have "fit l" using Cons.prems(2) r by simp
  then show ?case
    using Cons.IH [of w1] appended [OF Cons.prems(1), of l i] refused [OF Cons.prems(1), of l i] Cons.prems(2,3) r a
    by (cases res) (force split: prod.splits)+
qed simp

end

locale recoverable_log = durable_log put holds fit
  for put :: "'i \<Rightarrow> 'w \<Rightarrow> 'l \<Rightarrow> ('e, 'l) result \<times> 'w" and holds :: "'w \<Rightarrow> 'l list \<Rightarrow> bool" and fit :: "'l \<Rightarrow> bool" +
  fixes image :: "'w \<Rightarrow> 'l list \<Rightarrow> 'b \<Rightarrow> bool"
    and reopen :: "'b \<Rightarrow> ('e, 'w \<times> 'l list) result"
  assumes reopened: "holds w ls \<Longrightarrow> image w ls b \<Longrightarrow>
    \<exists>w' found. reopen b = Inr (w', found) \<and> holds w' found \<and> (found = ls \<or> (\<exists>l. found = ls @ [l]))"
begin

text \<open>Every acknowledged line survives a crash, and at most one more line appears.\<close>

lemma acknowledged_survive:
  assumes "holds w ls" and "\<forall>r\<in>set requests. fit (snd r)" and "append_all put w requests = (acks, w')"
    and "image w' (ls @ acks) b"
  shows "\<exists>w'' found. reopen b = Inr (w'', found) \<and> holds w'' found \<and>
    (found = ls @ acks \<or> (\<exists>l. found = ls @ acks @ [l]))"
  using reopened [OF append_all_holds [OF assms(1-3)] assms(4)] by auto

end

text \<open>What a crash may leave of a file: all of the journal and any part of what follows.\<close>

definition crash_image :: "line_codec \<Rightarrow> ledger_writer \<Rightarrow> ledger_line list \<Rightarrow> string \<Rightarrow> bool" where
  "crash_image C w lines bytes \<longleftrightarrow> (\<exists>j \<ge> length (journal_bytes C lines). bytes = take j (lw_file w))"

interpretation ledger: recoverable_log "\<lambda>(io, now). append_record C io now"
  "\<lambda>w lines. codec_laws C \<and> writer_holds C w lines" storable "crash_image C"
  "\<lambda>bytes. open_with_replay C True True bytes boot True" for C boot
proof
  fix w ls l and i :: "append_io \<times> nat" and l' w'
  assume "codec_laws C \<and> writer_holds C w ls" "storable l" "(case i of (io, now) \<Rightarrow> append_record C io now) w l = (Inr l', w')"
  then show "codec_laws C \<and> writer_holds C w' (ls @ [l'])" by (auto intro: append_record_Inr split: prod.splits)
next
  fix w ls l and i :: "append_io \<times> nat" and e w'
  assume "codec_laws C \<and> writer_holds C w ls" "storable l" "(case i of (io, now) \<Rightarrow> append_record C io now) w l = (Inl e, w')"
  then show "codec_laws C \<and> writer_holds C w' ls" by (auto intro: append_record_Inl split: prod.splits)
next
  fix w ls b
  assume "codec_laws C \<and> writer_holds C w ls" "crash_image C w ls b"
  then show "\<exists>w' found. open_with_replay C True True b boot True = Inr (w', found) \<and>
      (codec_laws C \<and> writer_holds C w' found) \<and> (found = ls \<or> (\<exists>l. found = ls @ [l]))"
    using reopen_after_crash [of C w ls] by (auto simp: crash_image_def)
qed

end
