(* ===== verification/Store.thy ===== *)
theory Store
  imports Projection Ledger_File
begin

text \<open>
  The message store of \<open>cyclopsd/src/mailbox/store.rs\<close>: the owner of one journal writer and
  of the projection rebuilt from it. Every operation that changes state validates a line
  against the projection, appends it to the journal, and only then commits it.

  Each operation returns its result and the store it leaves behind. \<open>io\<close> and \<open>now\<close> are what
  the file system and the clock answer. \<open>serde_json::to_value\<close> is total on metadata and facts.
  \<open>StorePanic\<close> is a failed \<open>expect\<close>.
\<close>

section \<open>Data\<close>

datatype store_error =
    StoreMailbox mailbox_error
  | StoreLedger ledger_error
  | StorePanic

record message_store =
  ms_writer :: ledger_writer
  ms_projection :: mailbox_projection
  ms_fail_notification_recovery_append :: "attempt_id option"

record accept_result =
  ac_message_id :: message_id
  ac_thread_root :: message_id
  ac_inserted :: bool
  ac_seq :: nat
  ac_recipients :: "string list"
  ac_recipient_keys :: "recipient_key list"

record inbox_message_data =
  im_message_id :: message_id
  im_kind :: kind
  im_recipient_label :: "string option"
  im_sender :: recipient_key
  im_sender_label :: string
  im_subject :: "string option"
  im_summary :: "string option"
  im_body :: "string option"
  im_reply_to :: "message_id option"
  im_thread_root :: message_id

datatype claim_outcome =
    ClaimedNow mailbox_entry inbox_message_data "message_id option" "attempt_id option" "attempt_id option"
  | ClaimedBefore mailbox_entry inbox_message_data "attempt_id option" "attempt_id option"

type_synonym 'a store_answer = "(store_error, 'a) result \<times> message_store"

section \<open>Messages as their readers see them\<close>

definition inbox_message :: "ledger_line \<Rightarrow> recipient_key \<Rightarrow> (mailbox_error, inbox_message_data) result" where
  "inbox_message line claimant =
     rbind (extract_message_metadata line) (\<lambda>md.
     rbind (of_type_result (message_id_new (ln_id line))) (\<lambda>m.
     rbind (line_reply_to line) (\<lambda>reply_to.
     Inr \<lparr> im_message_id = m, im_kind = ln_kind line,
           im_recipient_label = map_option rp_label
             (find (\<lambda>rp. rp_recipient rp = claimant) (recipient_labels (md_presentation md))),
           im_sender = md_sender md, im_sender_label = sender_label (md_presentation md),
           im_subject = ln_subject line, im_summary = md_summary md, im_body = ln_body line,
           im_reply_to = reply_to, im_thread_root = md_thread_root md \<rparr>)))"

definition operator_message :: "ledger_line \<Rightarrow> (mailbox_error, inbox_message_data) result" where
  "operator_message line =
     rbind (extract_message_metadata line) (\<lambda>md.
     rbind (of_type_result (message_id_new (ln_id line))) (\<lambda>m.
     rbind (line_reply_to line) (\<lambda>reply_to.
     Inr \<lparr> im_message_id = m, im_kind = ln_kind line,
           im_recipient_label = Some (join_with '', '' (map rp_label (recipient_labels (md_presentation md)))),
           im_sender = md_sender md, im_sender_label = sender_label (md_presentation md),
           im_subject = ln_subject line, im_summary = md_summary md, im_body = ln_body line,
           im_reply_to = reply_to, im_thread_root = md_thread_root md \<rparr>)))"

definition projection_allows_message_body :: "mailbox_projection \<Rightarrow> recipient_key \<Rightarrow> ledger_line \<Rightarrow> bool" where
  "projection_allows_message_body p reader line =
     ((ln_kind line = Msg \<or> ln_kind line = Fyi) \<and>
      (case message_id_new (ln_id line) of
         Inl e \<Rightarrow> False
       | Inr m \<Rightarrow>
           (case get_message p m of
              None \<Rightarrow> False
            | Some message \<Rightarrow>
                ln_kind line = ln_kind message \<and> ln_from line = ln_from message \<and> ln_to line = ln_to message \<and>
                ln_subject line = ln_subject message \<and> ln_body line = ln_body message \<and>
                ln_reply_to line = ln_reply_to message \<and> ln_seq line = ln_seq message \<and>
                ln_ts line = ln_ts message \<and> ln_boot_id line = ln_boot_id message \<and>
                (case extract_message_metadata message of
                   Inl e \<Rightarrow> False
                 | Inr md \<Rightarrow>
                     md_sender md = reader \<or>
                     is_some_and (get_entry p reader m) (\<lambda>entry.
                       case me_state entry of
                         Claimed claimant t \<Rightarrow> claimant = reader
                       | DeliveredDirect a t \<Rightarrow> True
                       | _ \<Rightarrow> False)))))"

section \<open>Opening\<close>

definition store_open ::
  "extern \<Rightarrow> line_codec \<Rightarrow> bool \<Rightarrow> bool \<Rightarrow> string \<Rightarrow> Identity.workspace_id \<Rightarrow> string \<Rightarrow> (store_error, message_store) result" where
  "store_open X C lock_free io_ok bytes ws boot_id =
     (case open_with_replay C lock_free io_ok bytes boot_id True of
        Inl e \<Rightarrow> Inl (StoreLedger e)
      | Inr (writer, lines) \<Rightarrow>
          (case replay X (mailbox_projection_new ws) lines of
             Inl (Refused e) \<Rightarrow> Inl (StoreMailbox e)
           | Inl Panicked \<Rightarrow> Inl StorePanic
           | Inr p \<Rightarrow> Inr \<lparr> ms_writer = writer, ms_projection = p, ms_fail_notification_recovery_append = None \<rparr>))"

section \<open>Prepare, append, commit\<close>

text \<open>The three calls every operation ends with.\<close>

definition persist ::
  "extern \<Rightarrow> line_codec \<Rightarrow> append_io \<Rightarrow> nat \<Rightarrow> message_store \<Rightarrow> ledger_line \<Rightarrow> unit store_answer" where
  "persist X C io now s line =
     (case prepare_line X (ms_projection s) line of
        Inl e \<Rightarrow> (Inl (StoreMailbox e), s)
      | Inr prepared \<Rightarrow>
          (case append_record C io now (ms_writer s) line of
             (Inl e, w) \<Rightarrow> (Inl (StoreLedger e), s\<lparr> ms_writer := w \<rparr>)
           | (Inr persisted, w) \<Rightarrow>
               (case commit_line (ms_projection s) persisted prepared of
                  None \<Rightarrow> (Inl StorePanic, s\<lparr> ms_writer := w \<rparr>)
                | Some p \<Rightarrow> (Inr (), s\<lparr> ms_writer := w, ms_projection := p \<rparr>))))"

text \<open>Going on after a successful step, and reading the answer from the store it left.\<close>

definition after :: "unit store_answer \<Rightarrow> (message_store \<Rightarrow> (store_error, 'a) result) \<Rightarrow> 'a store_answer" where
  "after step answer = (case step of (Inl e, s) \<Rightarrow> (Inl e, s) | (Inr u, s) \<Rightarrow> (answer s, s))"

definition expected :: "'a option \<Rightarrow> (store_error, 'a) result" where
  "expected v = ok_or v StorePanic"

definition time_or_now :: "nat \<Rightarrow> nat \<Rightarrow> nat" where
  "time_or_now ts now = (if ts = 0 then max now 1 else ts)"

text \<open>A state row: no message fields.\<close>

definition state_row :: "message_store \<Rightarrow> string \<Rightarrow> nat \<Rightarrow> string \<Rightarrow> string list \<Rightarrow> row_data \<Rightarrow> ledger_line" where
  "state_row s ident ts from to data =
     \<lparr> ln_seq = lw_next_seq (ms_writer s), ln_boot_id = lw_boot_id (ms_writer s), ln_id = ident, ln_ts = ts,
       ln_kind = State, ln_from = from, ln_to = to, ln_subject = None, ln_body = None, ln_reply_to = None,
       ln_deliveries = [], ln_data = Some data \<rparr>"

section \<open>Accepting messages\<close>

text \<open>
  Minting draws version-4 UUIDs until the id is free; the draws are an argument. \<open>None\<close> says
  that all of them were taken.
\<close>

fun mint_message_id :: "extern \<Rightarrow> mailbox_projection \<Rightarrow> message_id option \<Rightarrow> string list \<Rightarrow> message_id option" where
  "mint_message_id X p thread_root [] = None"
| "mint_message_id X p thread_root (random # draws) =
     (let candidate = (case thread_root of Some root \<Rightarrow> mint_in_thread X random root | None \<Rightarrow> mint_root random) in
      if get_message p candidate = None then Some candidate else mint_message_id X p thread_root draws)"

definition existing_result :: "mailbox_projection \<Rightarrow> message_id \<Rightarrow> (store_error, accept_result) result" where
  "existing_result p existing =
     (case get_message p existing of
        None \<Rightarrow> Inl StorePanic
      | Some message \<Rightarrow>
          (case extract_message_metadata message of
             Inl e \<Rightarrow> Inl (StoreMailbox e)
           | Inr md \<Rightarrow> Inr \<lparr> ac_message_id = existing, ac_thread_root = md_thread_root md, ac_inserted = False,
               ac_seq = ln_seq message, ac_recipients = ln_to message, ac_recipient_keys = md_recipients md \<rparr>))"

definition draft_thread_root ::
  "mailbox_projection \<Rightarrow> message_id \<Rightarrow> canonical_draft \<Rightarrow> (mailbox_error, message_id) result" where
  "draft_thread_root p m draft =
     (case cd_reply_to draft of
        Some reference \<Rightarrow> rbind (derive_reply p (cd_sender draft) reference) (\<lambda>d. Inr (dv_thread_root d))
      | None \<Rightarrow>
          rbind (supersession_thread_root p (cd_sender draft) (cd_recipients draft) (cd_supersedes draft)) (\<lambda>root.
          Inr (case root of Some r \<Rightarrow> r | None \<Rightarrow> m)))"

definition draft_metadata :: "mailbox_projection \<Rightarrow> canonical_draft \<Rightarrow> message_id \<Rightarrow> request_digest \<Rightarrow> message_metadata" where
  "draft_metadata p draft root digest =
     \<lparr> md_record_version = canonical_record_version, md_workspace_id = workspace_id p, md_sender = cd_sender draft,
       md_recipients = cd_recipients draft, md_presentation = cd_presentation draft, md_summary = cd_summary draft,
       md_thread_root = root, md_client_key = cd_client_key draft, md_request_digest = digest,
       md_supersedes = cd_supersedes draft, md_raw = cd_raw draft, md_broadcast = cd_broadcast draft \<rparr>"

definition draft_line ::
  "message_store \<Rightarrow> message_id \<Rightarrow> canonical_draft \<Rightarrow> nat \<Rightarrow> string list \<Rightarrow> message_metadata \<Rightarrow> ledger_line" where
  "draft_line s m draft ts labels md =
     \<lparr> ln_seq = lw_next_seq (ms_writer s), ln_boot_id = lw_boot_id (ms_writer s), ln_id = m, ln_ts = ts,
       ln_kind = cd_kind draft, ln_from = sender_label (cd_presentation draft), ln_to = labels,
       ln_subject = cd_subject draft, ln_body = cd_body draft, ln_reply_to = cd_reply_to draft,
       ln_deliveries = [], ln_data = Some (metadata_value md) \<rparr>"

definition accept_canonical_at ::
  "extern \<Rightarrow> line_codec \<Rightarrow> append_io \<Rightarrow> nat \<Rightarrow> message_store \<Rightarrow> message_id \<Rightarrow> canonical_draft \<Rightarrow> nat \<Rightarrow>
   accept_result store_answer" where
  "accept_canonical_at X C io now s m draft ts =
     (let p = ms_projection s in
      case check_acceptance X p draft of
        Inl e \<Rightarrow> (Inl (StoreMailbox e), s)
      | Inr (ExistingMessage existing) \<Rightarrow> (existing_result p existing, s)
      | Inr (NewMessage digest) \<Rightarrow>
          (case draft_thread_root p m draft of
             Inl e \<Rightarrow> (Inl (StoreMailbox e), s)
           | Inr root \<Rightarrow>
               (case presentation_labels X (cd_recipients draft) (cd_presentation draft) of
                  Inl e \<Rightarrow> (Inl (StoreMailbox e), s)
                | Inr (sender, labels) \<Rightarrow>
                    let line = draft_line s m draft (time_or_now ts now) labels (draft_metadata p draft root digest) in
                    after (persist X C io now s line) (\<lambda>s'.
                      Inr \<lparr> ac_message_id = m, ac_thread_root = root, ac_inserted = True, ac_seq = ln_seq line,
                            ac_recipients = labels, ac_recipient_keys = cd_recipients draft \<rparr>))))"

definition canonical_of_draft :: "message_draft \<Rightarrow> canonical_draft" where
  "canonical_of_draft d =
     \<lparr> cd_kind = dr_kind d, cd_sender = dr_sender d, cd_recipients = dr_recipients d, cd_subject = dr_subject d,
       cd_summary = dr_summary d, cd_body = dr_body d, cd_reply_to = None, cd_client_key = dr_client_key d,
       cd_supersedes = dr_supersedes d, cd_presentation = dr_presentation d, cd_raw = dr_raw d,
       cd_broadcast = dr_broadcast d \<rparr>"

definition accept_at ::
  "extern \<Rightarrow> line_codec \<Rightarrow> append_io \<Rightarrow> nat \<Rightarrow> message_store \<Rightarrow> message_id \<Rightarrow> message_draft \<Rightarrow> nat \<Rightarrow>
   accept_result store_answer" where
  "accept_at X C io now s m d ts = accept_canonical_at X C io now s m (canonical_of_draft d) ts"

definition canonical_of_reply :: "reply_draft \<Rightarrow> reply_derivation \<Rightarrow> canonical_draft" where
  "canonical_of_reply d derived =
     \<lparr> cd_kind = Msg, cd_sender = rd_sender d, cd_recipients = [dv_recipient derived], cd_subject = dv_subject derived,
       cd_summary = rd_summary d, cd_body = rd_body d, cd_reply_to = Some (rd_reference d),
       cd_client_key = rd_client_key d, cd_supersedes = None,
       cd_presentation = \<lparr> sender_label = rd_sender_label d,
         recipient_labels = [\<lparr> rp_recipient = dv_recipient derived, rp_label = rd_recipient_label d \<rparr>] \<rparr>,
       cd_raw = rd_raw d, cd_broadcast = False \<rparr>"

definition reply_at ::
  "extern \<Rightarrow> line_codec \<Rightarrow> append_io \<Rightarrow> nat \<Rightarrow> message_store \<Rightarrow> message_id \<Rightarrow> reply_draft \<Rightarrow> nat \<Rightarrow>
   accept_result store_answer" where
  "reply_at X C io now s m d ts =
     (case derive_reply (ms_projection s) (rd_sender d) (rd_reference d) of
        Inl e \<Rightarrow> (Inl (StoreMailbox e), s)
      | Inr derived \<Rightarrow> accept_canonical_at X C io now s m (canonical_of_reply d derived) ts)"

section \<open>Claiming\<close>

definition consumed_doorbell :: "mailbox_projection \<Rightarrow> recipient_key \<Rightarrow> message_id \<Rightarrow> attempt_id option" where
  "consumed_doorbell p r m =
     (let prior_claim_seq = hm_get (claim_sequences p) (r, m) in
      case notification p r m of
        None \<Rightarrow> None
      | Some c \<Rightarrow>
          if nr_transport c = Doorbell \<and>
             (nr_state c = Submitted \<or> nr_state c = SubmittedUnverified \<or>
              (nr_state c = Notified \<and> prior_claim_seq = Some (nr_updated_seq c)))
          then Some (nr_attempt_id c) else None)"

definition withdrawn_by_claim :: "mailbox_projection \<Rightarrow> recipient_key \<Rightarrow> message_id \<Rightarrow> attempt_id option" where
  "withdrawn_by_claim p r m =
     (case notification p r m of
        None \<Rightarrow> None
      | Some c \<Rightarrow> if settled_by_claim (nr_state c) (nr_transport c) = Withdrawn then Some (nr_attempt_id c) else None)"

definition skipped_oldest :: "mailbox_projection \<Rightarrow> recipient_key \<Rightarrow> message_id \<Rightarrow> message_id option" where
  "skipped_oldest p claimant m =
     (case get_pending p claimant of
        [] \<Rightarrow> None
      | entry # _ \<Rightarrow> if me_message_id entry \<noteq> m then Some (me_message_id entry) else None)"

definition claim_at ::
  "extern \<Rightarrow> line_codec \<Rightarrow> append_io \<Rightarrow> nat \<Rightarrow> message_store \<Rightarrow> recipient_key \<Rightarrow> message_id \<Rightarrow> nat \<Rightarrow>
   claim_outcome store_answer" where
  "claim_at X C io now s claimant m ts =
     (let p = ms_projection s; skipped = skipped_oldest p claimant m in
      case get_entry p claimant m of
        None \<Rightarrow> (Inl (StoreMailbox (Mail (EntryNotFound m claimant))), s)
      | Some entry \<Rightarrow>
          (case get_message p m of
             None \<Rightarrow> (Inl (StoreMailbox (Mail (MessageNotFound m))), s)
           | Some line \<Rightarrow>
               (case inbox_message line claimant of
                  Inl e \<Rightarrow> (Inl (StoreMailbox e), s)
                | Inr message \<Rightarrow>
                    let consumed = consumed_doorbell p (me_recipient entry) m in
                    (case me_state entry of
                       Claimed existing t \<Rightarrow>
                         if existing = claimant then (Inr (ClaimedBefore entry message None consumed), s)
                         else (Inl (StoreMailbox (Mail (AlreadyClaimed m (me_recipient entry) existing))), s)
                     | EntrySuperseded new t \<Rightarrow> (Inl (StoreMailbox (Mail (MessageNotPending m))), s)
                     | DeliveredDirect a t \<Rightarrow> (Inl (StoreMailbox (Mail (MessageNotPending m))), s)
                     | Pending \<Rightarrow>
                         let withdrawn = withdrawn_by_claim p (me_recipient entry) m;
                             f = \<lparr> cf_record_version = canonical_record_version, cf_message_id = m,
                                   cf_recipient = me_recipient entry, cf_claimant = claimant \<rparr>;
                             row = state_row s m (time_or_now ts now) (key_to_string X claimant) []
                               (mailbox_fact_value (MessageClaimed f)) in
                         after (persist X C io now s row) (\<lambda>s'.
                           rbind (expected (get_entry (ms_projection s') claimant m)) (\<lambda>updated.
                           Inr (ClaimedNow updated message skipped withdrawn consumed)))))))"

definition claim_changes_notification :: "notification_record \<Rightarrow> bool" where
  "claim_changes_notification c = (settled_by_claim (nr_state c) (nr_transport c) \<noteq> nr_state c)"

text \<open>A claim by the locator of a format 3 doorbell; the flag says whether the notification changes too.\<close>

definition claim_notification_locator ::
  "extern \<Rightarrow> line_codec \<Rightarrow> append_io \<Rightarrow> nat \<Rightarrow> message_store \<Rightarrow> recipient_key \<Rightarrow> message_id \<Rightarrow> attempt_id \<Rightarrow>
   (claim_outcome \<times> bool) store_answer" where
  "claim_notification_locator X C io now s claimant locator a =
     (let p = ms_projection s; real_message_exists = (get_message p locator \<noteq> None) in
      if \<not> hs_contains (notification_attempts p) a
      then
        let changed = is_some_and (notification p claimant locator) claim_changes_notification in
        (case claim_at X C io now s claimant locator now of
           (Inl e, s') \<Rightarrow> (Inl e, s')
         | (Inr outcome, s') \<Rightarrow> (Inr (outcome, changed), s'))
      else
        (case notification_by_attempt p a of
           None \<Rightarrow> (Inl (StoreMailbox (Settle (NotificationAttemptUnknown a))), s)
         | Some c \<Rightarrow>
             if \<not> (doorbell_format_names_exact_attempt (nr_doorbell_format c) \<and> nr_recipient c = claimant)
             then (Inl (StoreMailbox (Settle (NotificationAttemptUnknown a))), s)
             else if real_message_exists
             then (Inl (StoreMailbox (Settle (NotificationAttemptClaimLocatorConflict locator))), s)
             else
               (case claim_at X C io now s claimant (nr_message_id c) now of
                  (Inl e, s') \<Rightarrow> (Inl e, s')
                | (Inr outcome, s') \<Rightarrow> (Inr (outcome, claim_changes_notification c), s'))))"

section \<open>Notification facts\<close>

text \<open>The \<open>attempt_id\<close> field of a fact's JSON object, which the injected failure looks for.\<close>

fun fact_attempt_id :: "notification_fact \<Rightarrow> attempt_id option" where
  "fact_attempt_id (NotificationTransition f) = Some (tf_attempt_id f)"
| "fact_attempt_id (NotificationUnclaimedReminderQueued f) = Some (af_attempt_id f)"
| "fact_attempt_id (NotificationRequeued f prior) = Some (af_attempt_id f)"
| "fact_attempt_id (NotificationsRequeued v m qs) = None"
| "fact_attempt_id (NotificationCleared f) = Some (af_attempt_id f)"
| "fact_attempt_id (NotificationsCleared v b attempts operator cutoff) = None"
| "fact_attempt_id (NotificationWithdrawnBeforeWrite f operator) = Some (af_attempt_id f)"
| "fact_attempt_id (NotificationResolutionIntent f res forced) = Some (af_attempt_id f)"
| "fact_attempt_id (NotificationResolutionActionReserved f res) = Some (af_attempt_id f)"
| "fact_attempt_id (NotificationResolutionActionAccepted f res) = Some (af_attempt_id f)"
| "fact_attempt_id (NotificationResolutionConsumptionObserved f ob) = Some (af_attempt_id f)"
| "fact_attempt_id (NotificationResolutionIntentWithdrawn f res) = Some (af_attempt_id f)"
| "fact_attempt_id (NotificationResolvedWithoutTerminalAction f res) = Some (af_attempt_id f)"
| "fact_attempt_id (NotificationResolved v f res) = Some (af_attempt_id f)"
| "fact_attempt_id (NotificationClaimedStagedCleared f) = Some (af_attempt_id f)"
| "fact_attempt_id (NotificationClaimedAckTimeoutReconciled f) = Some (af_attempt_id f)"
| "fact_attempt_id (NotificationBarrierRetired f cause replacement) = Some (af_attempt_id f)"

definition injected_failure :: "message_store \<Rightarrow> notification_fact \<Rightarrow> bool" where
  "injected_failure s f =
     (case ms_fail_notification_recovery_append s of None \<Rightarrow> False | Some target \<Rightarrow> fact_attempt_id f = Some target)"

definition append_notification_fact_at ::
  "extern \<Rightarrow> line_codec \<Rightarrow> append_io \<Rightarrow> nat \<Rightarrow> message_store \<Rightarrow> message_id \<Rightarrow> recipient_key \<Rightarrow> notification_fact \<Rightarrow> nat \<Rightarrow>
   notification_record store_answer" where
  "append_notification_fact_at X C io now s m r f ts =
     (let row = state_row s m (time_or_now ts now) daemon_label [key_to_string X r] (notification_fact_value f) in
      case prepare_line X (ms_projection s) row of
        Inl e \<Rightarrow> (Inl (StoreMailbox e), s)
      | Inr prepared \<Rightarrow>
          if injected_failure s f
          then (Inl (StoreLedger LedgerIo), s\<lparr> ms_fail_notification_recovery_append := None \<rparr>)
          else after (persist X C io now s row) (\<lambda>s'. expected (notification (ms_projection s') r m)))"

section \<open>Transitions\<close>

definition append_notification_transition_full_at ::
  "extern \<Rightarrow> line_codec \<Rightarrow> append_io \<Rightarrow> nat \<Rightarrow> message_store \<Rightarrow> transition_fact \<Rightarrow> nat \<Rightarrow> notification_record store_answer" where
  "append_notification_transition_full_at X C io now s f ts =
     append_notification_fact_at X C io now s (tf_message_id f) (tf_recipient f) (NotificationTransition f) ts"

definition transition_of ::
  "message_id \<Rightarrow> recipient_key \<Rightarrow> attempt_id \<Rightarrow> notification_state \<Rightarrow> transition_fact" where
  "transition_of m r a st =
     \<lparr> tf_record_version = canonical_record_version, tf_attempt_id = a, tf_message_id = m, tf_recipient = r,
       tf_state = st, tf_binding = None, tf_transport = None, tf_doorbell_format = None, tf_cause = None,
       tf_verified_by = None, tf_verify_outcome = None, tf_pre_write_cause = None, tf_wake_block = None,
       tf_pre_write_observation = None \<rparr>"

definition append_notification_transition_with_transport_at ::
  "extern \<Rightarrow> line_codec \<Rightarrow> append_io \<Rightarrow> nat \<Rightarrow> message_store \<Rightarrow> message_id \<Rightarrow> recipient_key \<Rightarrow> attempt_id \<Rightarrow> notification_state \<Rightarrow>
   notification_binding option \<Rightarrow> notification_transport option \<Rightarrow> nat option \<Rightarrow> attention_cause option \<Rightarrow> nat \<Rightarrow>
   notification_record store_answer" where
  "append_notification_transition_with_transport_at X C io now s m r a st binding transport fmt cause ts =
     (let verify = (if st = AttentionRequired \<and> cause = Some VerifyFailed then Some verify_outcome_ambiguous else None) in
      append_notification_transition_full_at X C io now s
        ((transition_of m r a st)\<lparr> tf_binding := binding, tf_transport := transport, tf_doorbell_format := fmt,
           tf_cause := cause, tf_verify_outcome := verify \<rparr>) ts)"

definition append_notification_transition_at ::
  "extern \<Rightarrow> line_codec \<Rightarrow> append_io \<Rightarrow> nat \<Rightarrow> message_store \<Rightarrow> message_id \<Rightarrow> recipient_key \<Rightarrow> attempt_id \<Rightarrow> notification_state \<Rightarrow>
   notification_binding option \<Rightarrow> attention_cause option \<Rightarrow> nat \<Rightarrow> notification_record store_answer" where
  "append_notification_transition_at X C io now s m r a st binding cause ts =
     append_notification_transition_with_transport_at X C io now s m r a st binding None None cause ts"

definition queue_notification ::
  "extern \<Rightarrow> line_codec \<Rightarrow> append_io \<Rightarrow> nat \<Rightarrow> message_store \<Rightarrow> message_id \<Rightarrow> recipient_key \<Rightarrow> attempt_id \<Rightarrow>
   notification_record store_answer" where
  "queue_notification X C io now s m r a = append_notification_transition_at X C io now s m r a Queued None None now"

definition advance_notification ::
  "extern \<Rightarrow> line_codec \<Rightarrow> append_io \<Rightarrow> nat \<Rightarrow> message_store \<Rightarrow> message_id \<Rightarrow> recipient_key \<Rightarrow> attempt_id \<Rightarrow> notification_state \<Rightarrow>
   notification_binding option \<Rightarrow> attention_cause option \<Rightarrow> notification_record store_answer" where
  "advance_notification X C io now s m r a st binding cause =
     append_notification_transition_at X C io now s m r a st binding cause now"

definition block_notification_before_write_with_wake_block ::
  "extern \<Rightarrow> line_codec \<Rightarrow> append_io \<Rightarrow> nat \<Rightarrow> message_store \<Rightarrow> message_id \<Rightarrow> recipient_key \<Rightarrow> attempt_id \<Rightarrow> pre_write_cause \<Rightarrow>
   pre_write_observation option \<Rightarrow> message_wake_block option \<Rightarrow> notification_record store_answer" where
  "block_notification_before_write_with_wake_block X C io now s m r a cause observation wake_block =
     append_notification_transition_full_at X C io now s
       ((transition_of m r a BlockedPreWrite)\<lparr> tf_pre_write_cause := Some cause, tf_wake_block := wake_block,
          tf_pre_write_observation := observation \<rparr>) now"

definition block_notification_before_write ::
  "extern \<Rightarrow> line_codec \<Rightarrow> append_io \<Rightarrow> nat \<Rightarrow> message_store \<Rightarrow> message_id \<Rightarrow> recipient_key \<Rightarrow> attempt_id \<Rightarrow> pre_write_cause \<Rightarrow>
   pre_write_observation option \<Rightarrow> notification_record store_answer" where
  "block_notification_before_write X C io now s m r a cause observation =
     block_notification_before_write_with_wake_block X C io now s m r a cause observation None"

definition supported_doorbell_format :: "nat \<Rightarrow> bool" where
  "supported_doorbell_format fmt =
     (fmt \<in> {doorbell_format_compact_claim, doorbell_format_attempt_claim, doorbell_format_attempt_only_claim,
             doorbell_format_summary_claim})"

definition advance_notification_with_transport ::
  "extern \<Rightarrow> line_codec \<Rightarrow> append_io \<Rightarrow> nat \<Rightarrow> message_store \<Rightarrow> message_id \<Rightarrow> recipient_key \<Rightarrow> attempt_id \<Rightarrow> notification_state \<Rightarrow>
   notification_binding \<Rightarrow> notification_transport \<Rightarrow> nat option \<Rightarrow> notification_record store_answer" where
  "advance_notification_with_transport X C io now s m r a st binding transport fmt =
     (case fmt of
        Some version \<Rightarrow>
          if \<not> supported_doorbell_format version
          then (Inl (StoreMailbox (Wake (UnsupportedNotificationDoorbellFormat version))), s)
          else append_notification_transition_with_transport_at X C io now s m r a st (Some binding) (Some transport) fmt
                 None now
      | None \<Rightarrow>
          append_notification_transition_with_transport_at X C io now s m r a st (Some binding) (Some transport) fmt
            None now)"

definition advance_notification_raw_writing ::
  "extern \<Rightarrow> line_codec \<Rightarrow> append_io \<Rightarrow> nat \<Rightarrow> message_store \<Rightarrow> message_id \<Rightarrow> recipient_key \<Rightarrow> attempt_id \<Rightarrow>
   notification_record store_answer" where
  "advance_notification_raw_writing X C io now s m r a =
     append_notification_transition_with_transport_at X C io now s m r a Writing None (Some Raw) None None now"

definition advance_notification_notified ::
  "extern \<Rightarrow> line_codec \<Rightarrow> append_io \<Rightarrow> nat \<Rightarrow> message_store \<Rightarrow> message_id \<Rightarrow> recipient_key \<Rightarrow> attempt_id \<Rightarrow> verified_by option \<Rightarrow>
   notification_record store_answer" where
  "advance_notification_notified X C io now s m r a verified =
     append_notification_transition_full_at X C io now s
       ((transition_of m r a Notified)\<lparr> tf_verified_by := verified \<rparr>) now"

definition advance_notification_mailbox_notified ::
  "extern \<Rightarrow> line_codec \<Rightarrow> append_io \<Rightarrow> nat \<Rightarrow> message_store \<Rightarrow> message_id \<Rightarrow> recipient_key \<Rightarrow> attempt_id \<Rightarrow>
   notification_record store_answer" where
  "advance_notification_mailbox_notified X C io now s m r a =
     append_notification_transition_with_transport_at X C io now s m r a Notified None (Some Mailbox) None None now"

section \<open>Requeues\<close>

definition attempt_fact_of :: "message_id \<Rightarrow> recipient_key \<Rightarrow> attempt_id \<Rightarrow> attempt_fact" where
  "attempt_fact_of m r a =
     \<lparr> af_record_version = canonical_record_version, af_attempt_id = a, af_message_id = m, af_recipient = r \<rparr>"

definition requeue_notification_at ::
  "extern \<Rightarrow> line_codec \<Rightarrow> append_io \<Rightarrow> nat \<Rightarrow> message_store \<Rightarrow> message_id \<Rightarrow> recipient_key \<Rightarrow> attempt_id \<Rightarrow> attempt_id \<Rightarrow> nat \<Rightarrow>
   notification_record store_answer" where
  "requeue_notification_at X C io now s m r prior a ts =
     append_notification_fact_at X C io now s m r (NotificationRequeued (attempt_fact_of m r a) prior) ts"

definition requeue_notifications_at ::
  "extern \<Rightarrow> line_codec \<Rightarrow> append_io \<Rightarrow> nat \<Rightarrow> message_store \<Rightarrow> message_id \<Rightarrow> notification_requeue list \<Rightarrow> nat \<Rightarrow>
   notification_record list store_answer" where
  "requeue_notifications_at X C io now s m requeues ts =
     (let recipients = map rq_recipient requeues;
          row = state_row s m (time_or_now ts now) daemon_label (map (key_to_string X) recipients)
            (notification_fact_value (NotificationsRequeued canonical_record_version m requeues)) in
      after (persist X C io now s row) (\<lambda>s'.
        try_map (\<lambda>r. expected (notification (ms_projection s') r m)) recipients))"

definition requeue_notifications ::
  "extern \<Rightarrow> line_codec \<Rightarrow> append_io \<Rightarrow> nat \<Rightarrow> message_store \<Rightarrow> message_id \<Rightarrow> notification_requeue list \<Rightarrow>
   notification_record list store_answer" where
  "requeue_notifications X C io now s m requeues =
     (case requeues of
        [] \<Rightarrow> (Inr [], s)
      | [q] \<Rightarrow>
          (case requeue_notification_at X C io now s m (rq_recipient q) (rq_prior_attempt_id q) (rq_attempt_id q) now of
             (Inl e, s') \<Rightarrow> (Inl e, s')
           | (Inr record, s') \<Rightarrow> (Inr [record], s'))
      | _ \<Rightarrow> requeue_notifications_at X C io now s m requeues now)"

section \<open>Clearing and withdrawing\<close>

definition clear_notification_at ::
  "extern \<Rightarrow> line_codec \<Rightarrow> append_io \<Rightarrow> nat \<Rightarrow> message_store \<Rightarrow> message_id \<Rightarrow> recipient_key \<Rightarrow> attempt_id \<Rightarrow> nat \<Rightarrow>
   notification_record store_answer" where
  "clear_notification_at X C io now s m r a ts =
     (let p = ms_projection s;
          step = append_notification_fact_at X C io now s m r (NotificationCleared (attempt_fact_of m r a)) ts in
      if alarm_cleared p a
      then (case notification p r m of
              Some c \<Rightarrow> if nr_attempt_id c = a then (Inr c, s) else step
            | None \<Rightarrow> step)
      else step)"

definition attempt_recipient_text :: "extern \<Rightarrow> mailbox_projection \<Rightarrow> attempt_id \<Rightarrow> (mailbox_error, string) result" where
  "attempt_recipient_text X p a =
     rbind (ok_or (notification_by_attempt p a) (Settle (NotificationAttemptUnknown a))) (\<lambda>c.
     Inr (key_to_string X (nr_recipient c)))"

text \<open>\<open>random\<close> is the simple form of a fresh UUID.\<close>

definition clear_notifications_at ::
  "extern \<Rightarrow> line_codec \<Rightarrow> append_io \<Rightarrow> nat \<Rightarrow> string \<Rightarrow> message_store \<Rightarrow> recipient_key \<Rightarrow> attempt_id list \<Rightarrow> nat option \<Rightarrow> nat \<Rightarrow>
   unit store_answer" where
  "clear_notifications_at X C io now random s operator attempts cutoff ts =
     (let p = ms_projection s in
      if operator \<noteq> key_admin (workspace_id p)
      then (Inl (StoreMailbox (Settle NotificationClearOperatorInvalid)), s)
      else if attempts = [] then (Inr (), s)
      else
        (case try_map (attempt_recipient_text X p) attempts of
           Inl e \<Rightarrow> (Inl (StoreMailbox e), s)
         | Inr recipients \<Rightarrow>
             let batch_id = ''clear-'' @ random;
                 row = state_row s batch_id (time_or_now ts now) (key_to_string X operator) (sorted_unique recipients)
                   (notification_fact_value (NotificationsCleared canonical_record_version batch_id attempts operator cutoff)) in
             persist X C io now s row))"

definition withdraw_notification_before_write ::
  "extern \<Rightarrow> line_codec \<Rightarrow> append_io \<Rightarrow> nat \<Rightarrow> message_store \<Rightarrow> recipient_key \<Rightarrow> recipient_key \<Rightarrow> attempt_id \<Rightarrow>
   notification_record store_answer" where
  "withdraw_notification_before_write X C io now s operator r a =
     (let p = ms_projection s in
      if operator \<noteq> key_admin (workspace_id p)
      then (Inl (StoreMailbox (Settle NotificationWithdrawalOperatorInvalid)), s)
      else
        (case notification_by_attempt p a of
           None \<Rightarrow> (Inl (StoreMailbox (Settle (NotificationAttemptUnknown a))), s)
         | Some c \<Rightarrow>
             if nr_recipient c \<noteq> r
             then (Inl (StoreMailbox (Settle (NotificationWithdrawalRecipientMismatch r (nr_recipient c)))), s)
             else if nr_state c = WithdrawnByOperator \<or> withdrawn_by_claim_before_write c then (Inr c, s)
             else if \<not> can_withdraw_before_write (nr_state c)
             then (Inl (StoreMailbox (Settle NotificationWithdrawalRequiresPreWrite)), s)
             else
               let m = nr_message_id c;
                   row = state_row s m (max now 1) (key_to_string X operator) [key_to_string X r]
                     (notification_fact_value (NotificationWithdrawnBeforeWrite (attempt_fact_of m r a) operator)) in
               after (persist X C io now s row) (\<lambda>s'. expected (notification (ms_projection s') r m))))"

section \<open>Recovery after a restart\<close>

definition unresolved_after_restart :: "notification_record \<Rightarrow> bool" where
  "unresolved_after_restart c = (nr_state c \<in> {Writing, Staged, Submitting, Submitted, SubmittedUnverified})"

definition recover_one ::
  "extern \<Rightarrow> line_codec \<Rightarrow> append_io \<Rightarrow> nat \<Rightarrow> message_store \<Rightarrow> notification_record \<Rightarrow> notification_record store_answer" where
  "recover_one X C io now s c =
     (let claimed = is_some_and (get_entry (ms_projection s) (nr_recipient c) (nr_message_id c)) (\<lambda>e. is_claimed (me_state e)) in
      if (nr_state c = Submitted \<or> nr_state c = SubmittedUnverified) \<and> nr_transport c = Doorbell \<and> claimed
      then advance_notification_notified X C io now s (nr_message_id c) (nr_recipient c) (nr_attempt_id c) None
      else advance_notification X C io now s (nr_message_id c) (nr_recipient c) (nr_attempt_id c) AttentionRequired None
             (Some DaemonRestart))"

text \<open>The loop over the records found at the start; \<open>io\<close> and \<open>now\<close> are given for each step.\<close>

fun recover_each ::
  "extern \<Rightarrow> line_codec \<Rightarrow> (append_io \<times> nat) list \<Rightarrow> message_store \<Rightarrow> notification_record list \<Rightarrow>
   notification_record list store_answer" where
  "recover_each X C envs s [] = (Inr [], s)"
| "recover_each X C envs s (c # cs) =
     (let (io, now) = (case envs of [] \<Rightarrow> (Synced, 1) | env # _ \<Rightarrow> env) in
      case recover_one X C io now s c of
        (Inl e, s1) \<Rightarrow> (Inl e, s1)
      | (Inr record, s1) \<Rightarrow>
          (case recover_each X C (tl envs) s1 cs of
             (Inl e, s2) \<Rightarrow> (Inl e, s2)
           | (Inr records, s2) \<Rightarrow> (Inr (record # records), s2)))"

definition recover_notifications_after_restart ::
  "extern \<Rightarrow> line_codec \<Rightarrow> (append_io \<times> nat) list \<Rightarrow> message_store \<Rightarrow> notification_record list store_answer" where
  "recover_notifications_after_restart X C envs s =
     recover_each X C envs s (filter unresolved_after_restart (hm_values (notifications (ms_projection s))))"

end
