(* ===== verification/Store_Invariant.thy ===== *)
theory Store_Invariant
  imports Store Post_Office
begin

text \<open>
  The store keeps its projection equal to the replay of its journal. A step relation lists the
  ways an operation touches the store; each operation is a sequence of such steps, so the
  invariant and the behaviour after a crash are argued once, about steps.
\<close>

section \<open>The invariant\<close>

definition pending_line :: "extern \<Rightarrow> line_codec \<Rightarrow> message_store \<Rightarrow> ledger_line list \<Rightarrow> bool" where
  "pending_line X C s lines \<longleftrightarrow>
     (\<exists>line k q. lw_file (ms_writer s) = journal_bytes C lines @ take k (record_bytes C line) \<and>
        journal_ok C (lines @ [line]) \<and> apply_owned X (ms_projection s) line = Inr q)"

definition store_ok :: "extern \<Rightarrow> line_codec \<Rightarrow> Identity.workspace_id \<Rightarrow> message_store \<Rightarrow> ledger_line list \<Rightarrow> bool" where
  "store_ok X C ws s lines \<longleftrightarrow>
     codec_laws C \<and> writer_holds C (ms_writer s) lines \<and>
     replay X (mailbox_projection_new ws) lines = Inr (ms_projection s) \<and>
     (lw_write_state_unknown (ms_writer s) \<longrightarrow> pending_line X C s lines)"

lemma store_okD:
  assumes "store_ok X C ws s lines"
  shows "codec_laws C" "writer_holds C (ms_writer s) lines"
    "replay X (mailbox_projection_new ws) lines = Inr (ms_projection s)" "projection_inv (ms_projection s)"
    "lw_next_seq (ms_writer s) = Suc (length lines)"
  using assms replay_inv [OF projection_inv_new]
  by (auto simp: store_ok_def writer_holds_def)

section \<open>One step\<close>

text \<open>The lines the operations build: numbered, stamped, and storable.\<close>

definition fresh_line :: "message_store \<Rightarrow> ledger_line \<Rightarrow> bool" where
  "fresh_line s line \<longleftrightarrow>
     ln_seq line = lw_next_seq (ms_writer s) \<and> ln_boot_id line = lw_boot_id (ms_writer s) \<and> ln_ts line \<noteq> 0 \<and> storable line"

lemma apply_owned_commit:
  "prepare_line X p line = Inr pm \<Longrightarrow> commit_line p line pm = Some q \<Longrightarrow> apply_owned X p line = Inr q"
  by (auto simp: apply_owned_def apply_inner_Inr_iff prepare_line_def)

lemma prepared_commits:
  assumes "projection_inv p" and "prepare_line X p line = Inr pm"
  obtains q where "commit_line p line pm = Some q" "apply_owned X p line = Inr q" "projection_inv q"
  using apply_inner_step [OF assms(1) assms(2) [unfolded prepare_line_def]]
  by (metis apply_owned_def)

lemma persist_cases:
  assumes ok: "store_ok X C ws s lines" and fresh: "fresh_line s line" and step: "persist X C io now s line = (r, s')"
  obtains (refused) e where "prepare_line X (ms_projection s) line = Inl e" "r = Inl (StoreMailbox e)" "s' = s"
  | (failed) e w where "r = Inl (StoreLedger e)" "s' = s\<lparr> ms_writer := w \<rparr>" "store_ok X C ws s' lines"
  | (committed) q where "r = Inr ()" "apply_owned X (ms_projection s) line = Inr q" "ms_projection s' = q"
      "store_ok X C ws s' (lines @ [line])" "ms_fail_notification_recovery_append s' = ms_fail_notification_recovery_append s"
proof (cases "prepare_line X (ms_projection s) line")
  case (Inl e)
  then show thesis using refused step by (simp add: persist_def)
next
  case (Inr pm)
  note d = store_okD [OF ok]
  obtain q where q: "commit_line (ms_projection s) line pm = Some q" "apply_owned X (ms_projection s) line = Inr q"
    using prepared_commits [OF d(4) Inr] by metis
  obtain res w where a: "append_record C io now (ms_writer s) line = (res, w)"
    by (cases "append_record C io now (ms_writer s) line")
  have st: "storable line" and stamp: "stamped (ms_writer s) now line = line"
    using fresh by (simp_all add: fresh_line_def stamped_def)
  show thesis
  proof (cases res)
    case (Inl e)
    have holds: "writer_holds C w lines" using append_record_Inl [OF d(2) st] a Inl by simp
    have "pending_line X C (s\<lparr> ms_writer := w \<rparr>) lines" if unknown: "lw_write_state_unknown w"
      using a
    proof (cases rule: append_record_cases)
      case refused
      then show ?thesis using ok unknown by (simp add: store_ok_def pending_line_def)
    next
      case (failed bytes k)
      have "journal_ok C (lines @ [line])"
        using d(2) failed st stamp fresh by (auto simp: journal_ok_snoc writer_holds_def writable_def fresh_line_def)
      moreover have "lw_file w = journal_bytes C lines @ take k (record_bytes C line)"
        using failed d(2) stamp by (simp add: record_bytes_def writer_holds_def)
      ultimately show ?thesis using q(2) unfolding pending_line_def by auto
    next
      case stored
      then show ?thesis using unknown by simp
    qed
    then have "store_ok X C ws (s\<lparr> ms_writer := w \<rparr>) lines" using ok holds by (simp add: store_ok_def)
    then show thesis using failed [of e w] step \<open>prepare_line X _ _ = _\<close> a Inl by (simp add: persist_def)
  next
    case (Inr l)
    note app = append_record_Inr [OF d(2) st a [unfolded Inr]]
    have l: "l = line" using app(1) stamp by simp
    have s': "r = Inr ()" "s' = s\<lparr> ms_writer := w, ms_projection := q \<rparr>"
      using step \<open>prepare_line X _ _ = _\<close> a Inr l q(1) by (simp_all add: persist_def)
    have "replay X (mailbox_projection_new ws) (lines @ [line]) = Inr q"
      using d(3) apply_inner_replays [OF q(2) [unfolded apply_owned_def]]
      by (simp add: replay_append apply_replayed_owned_def)
    then have "store_ok X C ws s' (lines @ [line])" using app(2,3) d(1) l s'(2) by (simp add: store_ok_def)
    then show thesis using committed [of q] q(2) s' by simp
  qed
qed

section \<open>Operations keep the invariant\<close>

lemma fold_insert_some: "k \<in> fst ` set kvs \<Longrightarrow> hm_get (fold (\<lambda>(k, v). hm_insert k v) kvs N) k \<noteq> None"
proof (induction kvs arbitrary: N rule: rev_induct)
  case (snoc kv kvs)
  then show ?case by (cases kv) auto
qed simp

text \<open>An answer keeps the store: it is no panic, and the journal only grew.\<close>

definition keeps :: "extern \<Rightarrow> line_codec \<Rightarrow> Identity.workspace_id \<Rightarrow> ledger_line list \<Rightarrow> 'a store_answer \<Rightarrow> bool" where
  "keeps X C ws lines answer \<longleftrightarrow>
     fst answer \<noteq> Inl StorePanic \<and> (\<exists>new. store_ok X C ws (snd answer) (lines @ new))"

lemma keeps_same: "store_ok X C ws s lines \<Longrightarrow> r \<noteq> Inl StorePanic \<Longrightarrow> keeps X C ws lines (r, s)"
  unfolding keeps_def by (metis append_Nil2 fst_conv snd_conv)

lemma keeps_persist:
  assumes ok: "store_ok X C ws s lines" and fresh: "fresh_line s line"
  shows "keeps X C ws lines (persist X C io now s line)"
proof -
  obtain r s' where p: "persist X C io now s line = (r, s')" by (cases "persist X C io now s line")
  from ok fresh p show ?thesis
  proof (cases rule: persist_cases)
    case (committed q)
    then show ?thesis using p by (auto simp: keeps_def)
  next
    case failed
    then show ?thesis using p by (simp add: keeps_same)
  next
    case refused
    then show ?thesis using ok p by (simp add: keeps_same)
  qed
qed

lemma keeps_after:
  assumes ok: "store_ok X C ws s lines" and fresh: "fresh_line s line"
    and answer: "\<And>s'. apply_owned X (ms_projection s) line = Inr (ms_projection s') \<Longrightarrow> ans s' \<noteq> Inl StorePanic"
  shows "keeps X C ws lines (after (persist X C io now s line) ans)"
proof -
  obtain r s' where p: "persist X C io now s line = (r, s')" by (cases "persist X C io now s line")
  from ok fresh p show ?thesis
  proof (cases rule: persist_cases)
    case (committed q)
    have "ans s' \<noteq> Inl StorePanic" by (rule answer) (use committed in simp)
    moreover have "after (persist X C io now s line) ans = (ans s', s')" using p committed(1) by (simp add: after_def)
    ultimately show ?thesis using committed(4) unfolding keeps_def by (metis fst_conv snd_conv)
  next
    case failed
    then show ?thesis using p by (simp add: after_def keeps_same)
  next
    case refused
    then show ?thesis using ok p by (simp add: after_def keeps_same)
  qed
qed

lemma time_or_now_pos [simp]: "0 < time_or_now ts now"
  by (auto simp: time_or_now_def max_def)

lemma storable_values [simp]:
  "ln_data line = Some (metadata_value md) \<Longrightarrow> storable line"
  "ln_data line = Some (mailbox_fact_value mf) \<Longrightarrow> storable line"
  "ln_data line = Some (notification_fact_value f) \<Longrightarrow> storable line"
  by (auto simp: storable_def)

lemma fresh_state_row [simp]:
  "0 < ts \<Longrightarrow> fresh_line s (state_row s i ts from to (notification_fact_value f))"
  "0 < ts \<Longrightarrow> fresh_line s (state_row s i ts from to (mailbox_fact_value mf))"
  by (simp_all add: fresh_line_def state_row_def)

lemma fresh_draft_line [simp]: "0 < ts \<Longrightarrow> fresh_line s (draft_line s m draft ts labels md)"
  by (simp add: fresh_line_def draft_line_def)

subsection \<open>Accepting\<close>

lemma existing_result_found:
  assumes inv: "projection_inv p" and acc: "check_acceptance X p draft = Inr (ExistingMessage m)"
  shows "existing_result p m \<noteq> Inl StorePanic"
proof -
  obtain digest where "check_idempotency p draft digest = Inr (Some (ExistingMessage m))"
    using acc by (auto simp: check_acceptance_def Let_def result_simps split: option.splits)
  then obtain key d where "hm_get (idempotency_index p) (cd_sender draft, key) = Some (m, d)"
    by (auto simp: check_idempotency_def split: option.splits if_splits)
  then have "keyed p (cd_sender draft) key m d"
    using inv by (auto simp: projection_inv_def mailbox_inv_def idempotency_ok_def)
  then show ?thesis by (auto simp: existing_result_def keyed_def get_message_def)
qed

lemma accept_canonical_keeps:
  assumes ok: "store_ok X C ws s lines"
  shows "keeps X C ws lines (accept_canonical_at X C io now s m draft ts)"
  using keeps_same [OF ok] existing_result_found [OF store_okD(4) [OF ok], of X draft]
  by (auto simp: accept_canonical_at_def Let_def intro!: keeps_after [OF ok fresh_draft_line]
      split: sum.splits acceptance_outcome.splits prod.splits)

lemma accept_keeps: "store_ok X C ws s lines \<Longrightarrow> keeps X C ws lines (accept_at X C io now s m draft ts)"
  unfolding accept_at_def by (rule accept_canonical_keeps)

lemma reply_keeps: "store_ok X C ws s lines \<Longrightarrow> keeps X C ws lines (reply_at X C io now s m draft ts)"
  by (auto simp: reply_at_def accept_canonical_keeps keeps_same split: sum.splits)

subsection \<open>Claiming\<close>

lemma entry_persists:
  assumes "projection_inv p" and "apply_owned X p line = Inr q" and "get_entry p r m \<noteq> None"
  shows "get_entry q r m \<noteq> None"
proof -
  have "post (post_office_of p) (mail_event_of line) = Some (post_office_of q)"
    using post_follows [OF assms(1)] assms(2) by (simp add: apply_owned_def)
  then have "post_office_of q (r, m) \<noteq> None"
    by (rule post_persists) (use assms(3) in \<open>auto simp: post_office_of_def\<close>)
  then show ?thesis by (auto simp: post_office_of_def)
qed

lemma claim_keeps:
  assumes ok: "store_ok X C ws s lines"
  shows "keeps X C ws lines (claim_at X C io now s claimant m ts)"
proof -
  have found: "expected (get_entry (ms_projection s') claimant m) \<noteq> Inl StorePanic"
    if "apply_owned X (ms_projection s) line = Inr (ms_projection s')" "get_entry (ms_projection s) claimant m = Some e"
    for s' line e
    using entry_persists [OF store_okD(4) [OF ok] that(1), of claimant m] that(2) by (auto simp: expected_def)
  show ?thesis
    by (auto simp: claim_at_def Let_def rbind_def keeps_same [OF ok] dest: found intro!: keeps_after [OF ok]
        split: option.splits sum.splits mailbox_entry_state.splits)
qed

lemma keeps_map:
  "keeps X C ws lines ans \<Longrightarrow>
   keeps X C ws lines (case ans of (Inl e, s') \<Rightarrow> (Inl e, s') | (Inr x, s') \<Rightarrow> (Inr (f x), s'))"
  by (auto simp: keeps_def split: prod.splits sum.splits)

lemma claim_locator_keeps:
  assumes ok: "store_ok X C ws s lines"
  shows "keeps X C ws lines (claim_notification_locator X C io now s claimant locator a)"
  unfolding claim_notification_locator_def Let_def
  by (auto simp: keeps_map claim_keeps [OF ok] keeps_same [OF ok] split: option.splits)

subsection \<open>Notification rows\<close>

text \<open>The entry a fact is about, for the facts the store writes one at a time.\<close>

fun fact_entry :: "notification_fact \<Rightarrow> entry_key option" where
  "fact_entry (NotificationTransition f) = Some (tf_recipient f, tf_message_id f)"
| "fact_entry (NotificationRequeued f prior) = Some (af_recipient f, af_message_id f)"
| "fact_entry (NotificationCleared f) = Some (af_recipient f, af_message_id f)"
| "fact_entry (NotificationWithdrawnBeforeWrite f operator) = Some (af_recipient f, af_message_id f)"
| "fact_entry f = None"

lemma prepared_state_row:
  "prepare_line X p line = Inr pm \<Longrightarrow> ln_kind line = State \<Longrightarrow> prepare_state X p line False = Inr pm"
  by (auto simp: prepare_line_def prepare_line_inner_def result_simps Let_def)

lemma fact_row_prepared:
  assumes "prepare_line X p line = Inr pm" and "ln_kind line = State" and "ln_data line = Some (notification_fact_value f)"
    and "fact_entry f = Some k"
  shows "(\<exists>rec n. pm = PreparedNotification k rec n) \<or> (\<exists>a t. f = NotificationCleared t \<and> pm = PreparedCleared a \<and> hm_get (notifications p) k \<noteq> None) \<or>
    (\<exists>rec. pm = PreparedWithdrawnBeforeWrite k rec)"
proof -
  have st: "prepare_state X p line False = Inr pm" by (rule prepared_state_row [OF assms(1,2)])
  show ?thesis
  proof (cases f)
    case (NotificationTransition t)
    then have "prepare_notification_transition X p line False = Inr pm"
      using st assms(3) by (simp add: prepare_state_def notification_fact_value_def)
    then show ?thesis
      using NotificationTransition assms(3,4)
      by (auto simp: prepare_notification_transition_def notification_fact_of_def notification_fact_value_def
          result_simps Let_def split: prod.splits)
  next
    case (NotificationRequeued t prior)
    then have "prepare_notification_requeue X p line = Inr pm"
      using st assms(3) by (simp add: prepare_state_def notification_fact_value_def)
    then show ?thesis
      using NotificationRequeued assms(3,4)
      by (auto simp: prepare_notification_requeue_def notification_fact_of_def notification_fact_value_def
          prepare_notification_requeue_record_def result_simps Let_def split: prod.splits)
  next
    case (NotificationCleared t)
    then have "prepare_notification_clear X p line = Inr pm"
      using st assms(3) by (simp add: prepare_state_def notification_fact_value_def)
    then show ?thesis
      using NotificationCleared assms(3,4)
      by (auto simp: prepare_notification_clear_def notification_fact_of_def notification_fact_value_def
          result_simps Let_def)
  next
    case (NotificationWithdrawnBeforeWrite t oper)
    then have "prepare_notification_withdrawal X p line False = Inr pm"
      using st assms(3) by (simp add: prepare_state_def notification_fact_value_def)
    then show ?thesis
      using NotificationWithdrawnBeforeWrite assms(3,4)
      by (auto simp: prepare_notification_withdrawal_def notification_fact_of_def notification_fact_value_def
          result_simps Let_def)
  qed (use assms(4) in simp_all)
qed

lemma apply_owned_notifications:
  assumes "apply_owned X p line = Inr q"
  obtains pm where "prepare_line X p line = Inr pm" "notifications q = notification_effect pm (notifications p)"
  using assms commit_line_notifications by (auto simp: apply_owned_def apply_inner_Inr_iff prepare_line_def)

lemma fact_row_notified:
  assumes "apply_owned X p line = Inr q" and "ln_kind line = State" and "ln_data line = Some (notification_fact_value f)"
    and "fact_entry f = Some (r, m)"
  shows "notification q r m \<noteq> None"
proof -
  obtain pm where pm: "prepare_line X p line = Inr pm" "notifications q = notification_effect pm (notifications p)"
    using apply_owned_notifications [OF assms(1)] by metis
  show ?thesis using fact_row_prepared [OF pm(1) assms(2-4)] pm(2) by (auto simp: notification_def)
qed

lemma expected_notification:
  assumes "apply_owned X p (state_row s i ts from to (notification_fact_value f)) = Inr q" and "fact_entry f = Some (r, m)"
  shows "expected (notification q r m) \<noteq> Inl StorePanic"
  using fact_row_notified [OF assms(1) _ _ assms(2)] by (auto simp: state_row_def expected_def)

lemma append_fact_keeps:
  assumes ok: "store_ok X C ws s lines" and f: "fact_entry f = Some (r, m)"
  shows "keeps X C ws lines (append_notification_fact_at X C io now s m r f ts)"
proof -
  have inj: "store_ok X C ws (s\<lparr> ms_fail_notification_recovery_append := None \<rparr>) lines"
    using ok by (simp add: store_ok_def pending_line_def)
  show ?thesis
    unfolding append_notification_fact_at_def Let_def
    by (auto simp: keeps_same [OF ok] keeps_same [OF inj] expected_notification [OF _ f] intro!: keeps_after [OF ok]
        split: sum.splits)
qed

lemma fact_entry_transition_of [simp]: "tf_recipient (transition_of m r a st) = r" "tf_message_id (transition_of m r a st) = m"
  by (simp_all add: transition_of_def)

lemma transition_full_keeps:
  "store_ok X C ws s lines \<Longrightarrow> keeps X C ws lines (append_notification_transition_full_at X C io now s f ts)"
  unfolding append_notification_transition_full_at_def by (rule append_fact_keeps) simp_all

lemmas transition_defs =
  append_notification_transition_with_transport_at_def append_notification_transition_at_def queue_notification_def
  advance_notification_def block_notification_before_write_with_wake_block_def block_notification_before_write_def
  advance_notification_raw_writing_def advance_notification_notified_def advance_notification_mailbox_notified_def

lemma transition_keeps:
  assumes ok: "store_ok X C ws s lines"
  shows "keeps X C ws lines (queue_notification X C io now s m r a)"
    and "keeps X C ws lines (advance_notification X C io now s m r a st binding cause)"
    and "keeps X C ws lines (block_notification_before_write_with_wake_block X C io now s m r a pre ob block)"
    and "keeps X C ws lines (advance_notification_raw_writing X C io now s m r a)"
    and "keeps X C ws lines (advance_notification_notified X C io now s m r a verified)"
    and "keeps X C ws lines (advance_notification_mailbox_notified X C io now s m r a)"
    and "keeps X C ws lines (append_notification_transition_with_transport_at X C io now s m r a st b2 tr fmt cause ts)"
  unfolding transition_defs Let_def by (rule transition_full_keeps [OF ok])+

lemma with_transport_keeps:
  assumes ok: "store_ok X C ws s lines"
  shows "keeps X C ws lines (advance_notification_with_transport X C io now s m r a st binding transport fmt)"
  unfolding advance_notification_with_transport_def
  using transition_keeps(7) [OF ok] by (auto simp: keeps_same [OF ok] split: option.splits)

subsection \<open>Requeues, clearances, withdrawals\<close>

lemma requeue_keeps: "store_ok X C ws s lines \<Longrightarrow> keeps X C ws lines (requeue_notification_at X C io now s m r prior a ts)"
  unfolding requeue_notification_at_def by (rule append_fact_keeps) (simp_all add: attempt_fact_of_def)

lemma requeued_notifications:
  assumes "apply_owned X p (state_row s m ts from to (notification_fact_value (NotificationsRequeued v m qs))) = Inr q"
    and "r \<in> set (map rq_recipient qs)"
  shows "notification q r m \<noteq> None"
proof -
  let ?line = "state_row s m ts from to (notification_fact_value (NotificationsRequeued v m qs))"
  obtain pm where pm: "prepare_line X p ?line = Inr pm" "notifications q = notification_effect pm (notifications p)"
    using apply_owned_notifications [OF assms(1)] by metis
  have "prepare_state X p ?line False = Inr pm" by (rule prepared_state_row [OF pm(1)]) (simp add: state_row_def)
  then have "prepare_notification_requeues X p ?line = Inr pm"
    by (simp add: prepare_state_def state_row_def notification_fact_value_def)
  then obtain records where rec: "requeue_records p ?line m [] qs = Inr records" "pm = PreparedRequeues records"
    by (auto simp: prepare_notification_requeues_def notification_fact_of_def notification_fact_value_def state_row_def
        result_simps)
  have "(r, m) \<in> fst ` set records"
  proof -
    have "(r, m) \<in> set (map fst records)" using requeue_records_Inr(1) [OF rec(1)] assms(2) by auto
    then show ?thesis by simp
  qed
  then show ?thesis
    using pm(2) rec(2) fold_insert_some [of "(r, m)" records "notifications p"] by (simp add: notification_def)
qed

lemma requeue_notifications_at_keeps:
  assumes ok: "store_ok X C ws s lines"
  shows "keeps X C ws lines (requeue_notifications_at X C io now s m qs ts)"
  unfolding requeue_notifications_at_def Let_def
proof (rule keeps_after [OF ok])
  let ?row = "state_row s m (time_or_now ts now) daemon_label (map (key_to_string X) (map rq_recipient qs))
    (notification_fact_value (NotificationsRequeued canonical_record_version m qs))"
  fix s' assume app: "apply_owned X (ms_projection s) ?row = Inr (ms_projection s')"
  have "\<exists>v. expected (notification (ms_projection s') r m) = Inr v" if "r \<in> set (map rq_recipient qs)" for r
    using requeued_notifications [OF app that] by (auto simp: expected_def)
  then have "\<forall>r\<in>set (map rq_recipient qs).
      expected (notification (ms_projection s') r m) = Inr (the (notification (ms_projection s') r m))"
    by (auto simp: expected_def result_simps)
  from try_map_all_Inr [OF this] show "try_map (\<lambda>r. expected (notification (ms_projection s') r m)) (map rq_recipient qs) \<noteq> Inl StorePanic" by simp
qed simp

lemma requeues_keeps:
  assumes ok: "store_ok X C ws s lines"
  shows "keeps X C ws lines (requeue_notifications X C io now s m qs)"
  unfolding requeue_notifications_def
  by (auto simp: keeps_map keeps_same [OF ok] requeue_keeps [OF ok] requeue_notifications_at_keeps [OF ok]
      split: list.splits)

lemma clear_keeps:
  assumes ok: "store_ok X C ws s lines"
  shows "keeps X C ws lines (clear_notification_at X C io now s m r a ts)"
proof -
  have "keeps X C ws lines (append_notification_fact_at X C io now s m r (NotificationCleared (attempt_fact_of m r a)) ts)"
    by (rule append_fact_keeps [OF ok]) (simp add: attempt_fact_of_def)
  then show ?thesis
    unfolding clear_notification_at_def Let_def by (auto simp: keeps_same [OF ok] split: option.splits)
qed

lemma clears_keeps:
  assumes ok: "store_ok X C ws s lines"
  shows "keeps X C ws lines (clear_notifications_at X C io now random s operator attempts cutoff ts)"
  unfolding clear_notifications_at_def Let_def
  by (auto simp: keeps_same [OF ok] keeps_persist [OF ok] split: sum.splits)

lemma withdraw_keeps:
  assumes ok: "store_ok X C ws s lines"
  shows "keeps X C ws lines (withdraw_notification_before_write X C io now s operator r a)"
proof -
  have "expected (notification q r m) \<noteq> Inl StorePanic"
    if "apply_owned X p (state_row s m ts fr to (notification_fact_value
      (NotificationWithdrawnBeforeWrite (attempt_fact_of m r a) operator))) = Inr q" for p q m ts fr to
    using that by (rule expected_notification) (simp add: attempt_fact_of_def)
  then show ?thesis
    unfolding withdraw_notification_before_write_def Let_def
    by (auto simp: keeps_same [OF ok] intro!: keeps_after [OF ok] split: option.splits)
qed

end
