(* ===== verification/Store_Recovery.thy ===== *)
theory Store_Recovery
  imports Store_Invariant
begin

text \<open>
  The restart of a daemon, seen from the store: an attempt that was in flight when the daemon
  died is settled by one more line each, and opening the file again after a crash finds the
  same projection, or that of the one line whose write was cut short.
\<close>

section \<open>Attempts belong to agents\<close>

definition agents_only :: "mailbox_projection \<Rightarrow> bool" where
  "agents_only p \<longleftrightarrow> (\<forall>r m. hm_get (notifications p) (r, m) \<noteq> None \<longrightarrow> \<not> is_admin r)"

lemma legal_new_key:
  assumes legal: "legal p line pm" and new: "hm_get (notification_effect pm (notifications p)) (r, m) \<noteq> None"
    and old: "hm_get (notifications p) (r, m) = None"
  shows "\<not> is_admin r"
  using legal
proof (cases rule: legal.cases)
  case (message m' md)
  then show ?thesis
    using new old by (auto simp: superseded_notification_def split: option.splits list.splits if_splits)
next
  case (claim r' m')
  then show ?thesis using new old by (auto simp: claim_notification_update_Some split: option.splits if_splits)
next
  case (requeue r' m' prior a kr)
  then show ?thesis using new old by (auto simp: names_entry_def elim!: requeue_record_Inr split: if_splits)
next
  case (requeues qs m' records)
  obtain c where "hm_get (fold (\<lambda>(k, v). hm_insert k v) records (notifications p)) (r, m) = Some c"
    using new requeues(1) by auto
  then show ?thesis using old requeue_records_moves [OF requeues(4)] fold_insert_get by fastforce
qed (use new old in \<open>auto simp: names_entry_def split: if_splits\<close>)

lemma agents_only_step:
  assumes inv: "projection_inv p" and agents: "agents_only p" and app: "apply_inner X p line b = Inr q"
  shows "agents_only q"
proof -
  obtain pm where pm: "legal p line pm" "commit_line p line pm = Some q"
    by (rule apply_inner_facts [OF inv app]) metis
  show ?thesis
    unfolding agents_only_def commit_line_notifications [OF pm(2)]
    using agents legal_new_key [OF pm(1)] unfolding agents_only_def by metis
qed

lemma agents_only_replay: "replay X (mailbox_projection_new ws) lines = Inr p \<Longrightarrow> agents_only p"
  by (rule replay_preserves [where P = agents_only, OF agents_only_step projection_inv_new])
    (simp_all add: agents_only_def mailbox_projection_new_def)

lemma current_names_entry:
  assumes inv: "projection_inv p" and agents: "agents_only p" and c: "hm_get (notifications p) (r, m) = Some c"
  shows "names_entry p r m"
proof -
  have minv: "mailbox_inv p" and ainv: "attempt_inv p" using inv by (simp_all add: projection_inv_def)
  obtain e where e: "get_entry p r m = Some e" using attempt_invD(2) [OF ainv c] by auto
  obtain line where line: "hm_get (messages p) m = Some line" using entry_message [OF minv e] by auto
  obtain md where md: "message_ok p m line md" using minv line unfolding mailbox_inv_def messages_ok_def by blast
  have "hm_get (mailbox_index p) (r, m) \<noteq> None"
    using e by (auto simp: get_entry_def bind_eq_Some_conv)
  then have "r \<in> set (md_recipients md)"
    using minv line md by (auto simp: mailbox_inv_def index_ok_def recipients_of_def message_ok_def split: if_splits)
  then show ?thesis
    using md e line agents c by (auto simp: names_entry_def message_ok_def agents_only_def)
qed

section \<open>A transition that is allowed is written\<close>

text \<open>A store that can append: nothing failed, no failure is injected, and \<open>n\<close> numbers are left.\<close>

definition codec_total :: "line_codec \<Rightarrow> bool" where
  "codec_total C \<longleftrightarrow> (\<forall>line. storable line \<longrightarrow> (\<exists>bytes. to_vec C line = Inr bytes))"

definition store_ready :: "extern \<Rightarrow> line_codec \<Rightarrow> Identity.workspace_id \<Rightarrow> message_store \<Rightarrow> ledger_line list \<Rightarrow> nat \<Rightarrow> bool" where
  "store_ready X C ws s lines n \<longleftrightarrow>
     store_ok X C ws s lines \<and> codec_total C \<and> \<not> lw_sealed (ms_writer s) \<and> \<not> lw_write_state_unknown (ms_writer s) \<and>
     ms_fail_notification_recovery_append s = None \<and> length lines + n < u64_max"

lemma persist_ready:
  assumes ready: "store_ready X C ws s lines (Suc n)" and fresh: "fresh_line s line"
    and prep: "prepare_line X (ms_projection s) line = Inr pm"
  obtains s' where "persist X C Synced now s line = (Inr (), s')" "store_ready X C ws s' (lines @ [line]) n"
    "commit_line (ms_projection s) line pm = Some (ms_projection s')"
proof -
  have ok: "store_ok X C ws s lines" using ready by (simp add: store_ready_def)
  note d = store_okD [OF ok]
  obtain q where q: "commit_line (ms_projection s) line pm = Some q" using prepared_commits [OF d(4) prep] by metis
  have stamp: "stamped (ms_writer s) now line = line" using fresh by (simp add: fresh_line_def stamped_def)
  obtain bytes where bytes: "to_vec C line = Inr bytes"
    using ready fresh by (auto simp: store_ready_def codec_total_def fresh_line_def)
  let ?w = "(ms_writer s)\<lparr> lw_file := lw_file (ms_writer s) @ bytes @ [newline],
    lw_next_seq := Suc (lw_next_seq (ms_writer s)) \<rparr>"
  let ?s = "s\<lparr> ms_writer := ?w, ms_projection := q \<rparr>"
  have "checked_add_u64 (lw_next_seq (ms_writer s)) 1 = Some (Suc (lw_next_seq (ms_writer s)))"
    using ready d(5) by (simp add: checked_add_u64_def store_ready_def)
  then have app: "append_record C Synced now (ms_writer s) line = (Inr line, ?w)"
    using ready stamp bytes by (simp add: append_record_def store_ready_def Let_def)
  then have p: "persist X C Synced now s line = (Inr (), ?s)" using prep q by (simp add: persist_def)
  from ok fresh p have "store_ok X C ws ?s (lines @ [line])" by (cases rule: persist_cases) simp_all
  then have "store_ready X C ws ?s (lines @ [line]) n" using ready by (simp add: store_ready_def)
  then show thesis by (intro that [of ?s]) (use p q in simp_all)
qed

lemma transition_prepares:
  assumes inv: "projection_inv p" and agents: "agents_only p" and c: "hm_get (notifications p) (r, m) = Some c"
    and f: "tf_record_version f = canonical_record_version" "tf_message_id f = m" "tf_recipient f = r"
    and edge: "transition_checked p (Some c) f False"
    and seq: "lw_next_seq (ms_writer s) = Suc (seq_of p)" "Suc (seq_of p) \<le> u64_max"
  shows "prepare_line X p (state_row s m ts daemon_label [key_to_string X r] (notification_fact_value (NotificationTransition f))) =
    Inr (PreparedNotification (r, m) (advanced_record c f
      (state_row s m ts daemon_label [key_to_string X r] (notification_fact_value (NotificationTransition f)))) False)"
    (is "prepare_line X p ?row = _")
proof -
  have "names_entry p r m" by (rule current_names_entry [OF inv agents c])
  then have env: "validate_notification_envelope X p ?row canonical_record_version m r = Inr ()"
    by (auto simp: validate_notification_envelope_def names_entry_def state_row_def has_message_fields_def Let_def)
  have "prepare_notification_transition X p ?row False = Inr (PreparedNotification (r, m) (advanced_record c f ?row) False)"
    using env f c edge
    by (simp add: prepare_notification_transition_def notification_fact_of_def state_row_def notification_fact_value_def
        transition_checked_def transition_record_def Let_def)
  then have "prepare_state X p ?row False = Inr (PreparedNotification (r, m) (advanced_record c f ?row) False)"
    by (simp add: prepare_state_def state_row_def notification_fact_value_def)
  moreover have "ln_kind ?row = State" "ln_seq ?row = Suc (seq_of p)" using seq(1) by (simp_all add: state_row_def)
  moreover have "(case last_workspace_seq p of None \<Rightarrow> 0 | Some s \<Rightarrow> s) = seq_of p" by (simp add: seq_of_def)
  ultimately show ?thesis
    using seq(2) by (simp add: prepare_line_def prepare_line_inner_def checked_add_u64_def Let_def)
qed

lemma store_ready_seq:
  assumes "store_ready X C ws s lines n"
  shows "seq_of (ms_projection s) = length lines"
proof -
  have "replay X (mailbox_projection_new ws) lines = Inr (ms_projection s)"
    using assms store_okD(3) by (auto simp: store_ready_def)
  from replay_sequence [OF this] show ?thesis by (simp add: seq_of_def mailbox_projection_new_def)
qed

lemma transition_full_written:
  assumes ready: "store_ready X C ws s lines (Suc n)"
    and c: "hm_get (notifications (ms_projection s)) (r, m) = Some c"
    and f: "tf_record_version f = canonical_record_version" "tf_message_id f = m" "tf_recipient f = r"
    and edge: "transition_checked (ms_projection s) (Some c) f False"
  obtains s' rec line where "append_notification_transition_full_at X C Synced now s f ts = (Inr rec, s')"
    "nr_state rec = tf_state f" "nr_recipient rec = r" "nr_message_id rec = m" "nr_attempt_id rec = tf_attempt_id f"
    "store_ready X C ws s' (lines @ [line]) n"
    "notifications (ms_projection s') = hm_insert (r, m) rec (notifications (ms_projection s))"
proof -
  let ?p = "ms_projection s"
  let ?row = "state_row s m (time_or_now ts now) daemon_label [key_to_string X r] (notification_fact_value (NotificationTransition f))"
  let ?rec = "advanced_record c f ?row"
  have ok: "store_ok X C ws s lines" using ready by (simp add: store_ready_def)
  note d = store_okD [OF ok]
  have agents: "agents_only ?p" using agents_only_replay d(3) by blast
  have seq: "lw_next_seq (ms_writer s) = Suc (seq_of ?p)" "Suc (seq_of ?p) \<le> u64_max"
    using d(5) store_ready_seq [OF ready] ready by (simp_all add: store_ready_def)
  note prep = transition_prepares [OF d(4) agents c f edge seq, of X "time_or_now ts now"]
  obtain s' where s': "persist X C Synced now s ?row = (Inr (), s')" "store_ready X C ws s' (lines @ [?row]) n"
    "commit_line ?p ?row (PreparedNotification (r, m) ?rec False) = Some (ms_projection s')"
    using persist_ready [OF ready _ prep, of now] by (metis fresh_state_row(1) time_or_now_pos)
  have n: "notifications (ms_projection s') = hm_insert (r, m) ?rec (notifications ?p)"
    using commit_line_notifications [OF s'(3)] by simp
  have "injected_failure s (NotificationTransition f) = False" using ready by (simp add: injected_failure_def store_ready_def)
  then have "append_notification_transition_full_at X C Synced now s f ts = (Inr ?rec, s')"
    using prep s'(1) n f
    by (simp add: append_notification_transition_full_at_def append_notification_fact_at_def after_def expected_def
        notification_def Let_def)
  then show thesis by (rule that) (use f s'(2) n in \<open>simp_all add: advanced_record_def\<close>)
qed

section \<open>Recovery settles every attempt in flight\<close>

lemma recovery_edges:
  assumes "unresolved_after_restart c"
  shows "transition_checked p (Some c)
    ((transition_of (nr_message_id c) (nr_recipient c) (nr_attempt_id c) AttentionRequired)
       \<lparr> tf_binding := None, tf_transport := None, tf_doorbell_format := None, tf_cause := Some DaemonRestart,
         tf_verify_outcome := None \<rparr>) False"
    and "nr_state c \<in> {Submitted, SubmittedUnverified} \<Longrightarrow> transition_checked p (Some c)
    ((transition_of (nr_message_id c) (nr_recipient c) (nr_attempt_id c) Notified)\<lparr> tf_verified_by := None \<rparr>) False"
  using assms
  by (auto simp: transition_checked_def transition_of_def check_transition_edge_def check_transition_fields_def
      check_transition_cause_def check_transition_block_def check_transition_binding_def mailbox_close_def
      notification_transition_allowed_def unresolved_after_restart_def Let_def)

definition settled_after_restart :: "notification_record \<Rightarrow> bool" where
  "settled_after_restart c = (nr_state c \<in> {Notified, AttentionRequired})"

lemma recover_one_settles:
  assumes ready: "store_ready X C ws s lines (Suc n)"
    and c: "hm_get (notifications (ms_projection s)) (nr_recipient c, nr_message_id c) = Some c"
    and un: "unresolved_after_restart c"
  obtains s' rec line where "recover_one X C Synced now s c = (Inr rec, s')" "settled_after_restart rec"
    "store_ready X C ws s' (lines @ [line]) n"
    "notifications (ms_projection s') = hm_insert (nr_recipient c, nr_message_id c) rec (notifications (ms_projection s))"
proof -
  let ?m = "nr_message_id c" and ?r = "nr_recipient c" and ?a = "nr_attempt_id c"
  let ?notify = "(nr_state c = Submitted \<or> nr_state c = SubmittedUnverified) \<and> nr_transport c = Doorbell \<and>
    is_some_and (get_entry (ms_projection s) ?r ?m) (\<lambda>e. is_claimed (me_state e))"
  let ?attend = "(transition_of ?m ?r ?a AttentionRequired)\<lparr> tf_binding := None, tf_transport := None,
    tf_doorbell_format := None, tf_cause := Some DaemonRestart, tf_verify_outcome := None \<rparr>"
  let ?note = "(transition_of ?m ?r ?a Notified)\<lparr> tf_verified_by := None \<rparr>"
  let ?f = "if ?notify then ?note else ?attend"
  have one: "recover_one X C Synced now s c = append_notification_transition_full_at X C Synced now s ?f now"
  proof (cases ?notify)
    case True
    then show ?thesis by (simp only: recover_one_def transition_defs Let_def if_True) simp
  next
    case False
    then show ?thesis by (simp only: recover_one_def transition_defs Let_def if_False) simp
  qed
  have edge: "transition_checked (ms_projection s) (Some c) ?f False"
    using recovery_edges [OF un, of "ms_projection s"] by auto
  obtain s' rec line where w: "append_notification_transition_full_at X C Synced now s ?f now = (Inr rec, s')"
    "nr_state rec = tf_state ?f" "store_ready X C ws s' (lines @ [line]) n"
    "notifications (ms_projection s') = hm_insert (?r, ?m) rec (notifications (ms_projection s))"
    by (rule transition_full_written [OF ready c _ _ _ edge]) (simp_all add: transition_of_def)
  have "settled_after_restart rec" using w(2) by (auto simp: settled_after_restart_def transition_of_def)
  then show thesis using that one w by simp
qed

lemma recover_each_settles:
  assumes "store_ready X C ws s lines (length cs + n)" and "\<forall>env\<in>set envs. fst env = Synced"
    and "distinct (map (\<lambda>c. (nr_recipient c, nr_message_id c)) cs)"
    and "\<forall>c\<in>set cs. unresolved_after_restart c \<and>
      hm_get (notifications (ms_projection s)) (nr_recipient c, nr_message_id c) = Some c"
  shows "\<exists>recs s' new. recover_each X C envs s cs = (Inr recs, s') \<and> length recs = length cs \<and>
    store_ready X C ws s' (lines @ new) n \<and> length new = length cs \<and>
    (\<forall>k c. hm_get (notifications (ms_projection s')) k = Some c \<longrightarrow>
       settled_after_restart c \<or>
       (hm_get (notifications (ms_projection s)) k = Some c \<and> k \<notin> (\<lambda>c. (nr_recipient c, nr_message_id c)) ` set cs))"
  using assms
proof (induction cs arbitrary: s lines envs)
  case Nil
  then show ?case by (auto intro: exI [of _ "[]"])
next
  case (Cons c cs)
  let ?key = "\<lambda>c. (nr_recipient c, nr_message_id c)"
  define env where "env = (case envs of [] \<Rightarrow> (Synced, 1) | env # _ \<Rightarrow> env)"
  obtain now where env: "env = (Synced, now)" using Cons.prems(2) by (cases env; cases envs) (auto simp: env_def)
  obtain s1 rec line where one: "recover_one X C Synced now s c = (Inr rec, s1)" "settled_after_restart rec"
    "store_ready X C ws s1 (lines @ [line]) (length cs + n)"
    "notifications (ms_projection s1) = hm_insert (?key c) rec (notifications (ms_projection s))"
    by (rule recover_one_settles [of X C ws s lines "length cs + n" c]) (use Cons.prems in auto)
  have rest: "\<forall>d\<in>set cs. unresolved_after_restart d \<and> hm_get (notifications (ms_projection s1)) (?key d) = Some d"
    using Cons.prems(3,4) by (auto simp: one(4) image_iff)
  have io: "\<forall>env\<in>set (tl envs). fst env = Synced" using Cons.prems(2) by (cases envs) auto
  obtain recs s' new where r: "recover_each X C (tl envs) s1 cs = (Inr recs, s')" "length recs = length cs"
    "store_ready X C ws s' ((lines @ [line]) @ new) n" "length new = length cs"
    and left: "\<And>k c. hm_get (notifications (ms_projection s')) k = Some c \<Longrightarrow>
       settled_after_restart c \<or> (hm_get (notifications (ms_projection s1)) k = Some c \<and> k \<notin> ?key ` set cs)"
    using Cons.IH [OF one(3) io _ rest] Cons.prems(3) by (auto simp del: append_assoc)
  have "recover_each X C envs s (c # cs) = (Inr (rec # recs), s')"
    using one(1) r(1) env by (simp add: env_def [symmetric])
  moreover have "settled_after_restart d \<or> (hm_get (notifications (ms_projection s)) k = Some d \<and> k \<notin> ?key ` set (c # cs))"
    if "hm_get (notifications (ms_projection s')) k = Some d" for k d
    using left [OF that] one(2) by (auto simp: one(4) split: if_splits)
  ultimately show ?case using r(2-4) by (intro exI [of _ "rec # recs"] exI [of _ s'] exI [of _ "line # new"]) simp
qed

lemma unresolved_keys:
  assumes inv: "attempt_inv p"
  shows "distinct (map (\<lambda>c. (nr_recipient c, nr_message_id c)) (filter P (hm_values (notifications p))))"
    and "c \<in> set (hm_values (notifications p)) \<longleftrightarrow>
      hm_get (notifications p) (nr_recipient c, nr_message_id c) = Some c"
proof -
  let ?key = "\<lambda>c. (nr_recipient c, nr_message_id c)"
  have ok: "hm_ok (notifications p)" using inv by (simp add: attempt_inv_def attempts_ok_def)
  have key: "?key v = k" if "(k, v) \<in> set (notifications p)" for k v
    using attempt_invD(4,5) [OF inv, of "fst k" "snd k" v] that ok by (simp add: hm_get_iff)
  then have "map ?key (hm_values (notifications p)) = map fst (notifications p)"
    by (auto simp: hm_values_def)
  then have "distinct (map ?key (hm_values (notifications p)))" using ok by (simp add: hm_ok_def)
  then show "distinct (map ?key (filter P (hm_values (notifications p))))" by (rule distinct_map_filter)
  show "c \<in> set (hm_values (notifications p)) \<longleftrightarrow> hm_get (notifications p) (?key c) = Some c"
    using key ok by (force simp: in_hm_values hm_get_iff)
qed

lemma recovery_settles_all:
  assumes ready: "store_ready X C ws s lines (length (filter unresolved_after_restart (hm_values (notifications (ms_projection s)))))"
    and io: "\<forall>env\<in>set envs. fst env = Synced"
  shows "\<exists>recs s' new. recover_notifications_after_restart X C envs s = (Inr recs, s') \<and>
    store_ready X C ws s' (lines @ new) 0 \<and> length new = length recs \<and>
    length recs = length (filter unresolved_after_restart (hm_values (notifications (ms_projection s)))) \<and>
    filter unresolved_after_restart (hm_values (notifications (ms_projection s'))) = []"
proof -
  let ?key = "\<lambda>c. (nr_recipient c, nr_message_id c)" and ?cs = "filter unresolved_after_restart (hm_values (notifications (ms_projection s)))"
  have ainv: "attempt_inv (ms_projection s)"
    using ready store_okD(4) by (auto simp: store_ready_def projection_inv_def)
  have cs: "\<forall>c\<in>set ?cs. unresolved_after_restart c \<and> hm_get (notifications (ms_projection s)) (?key c) = Some c"
    using unresolved_keys(2) [OF ainv] by simp
  obtain recs s' new where r: "recover_each X C envs s ?cs = (Inr recs, s')" "length recs = length ?cs"
    "store_ready X C ws s' (lines @ new) 0" "length new = length ?cs"
    and left: "\<And>k c. hm_get (notifications (ms_projection s')) k = Some c \<Longrightarrow>
       settled_after_restart c \<or> (hm_get (notifications (ms_projection s)) k = Some c \<and> k \<notin> ?key ` set ?cs)"
    using recover_each_settles [where n = 0, OF _ io unresolved_keys(1) [OF ainv] cs, of X C ws lines] ready
    unfolding add_0_right by blast
  have ainv': "attempt_inv (ms_projection s')" using r(3) store_okD(4) by (auto simp: store_ready_def projection_inv_def)
  have "\<not> unresolved_after_restart c" if "c \<in> set (hm_values (notifications (ms_projection s')))" for c
  proof -
    have now: "hm_get (notifications (ms_projection s')) (?key c) = Some c" using that unresolved_keys(2) [OF ainv'] by simp
    show ?thesis
    proof (cases "settled_after_restart c")
      case False
      then have "hm_get (notifications (ms_projection s)) (?key c) = Some c" "?key c \<notin> ?key ` set ?cs"
        using left [OF now] by auto
      then show ?thesis using unresolved_keys(2) [OF ainv] by (auto simp: image_iff)
    qed (auto simp: settled_after_restart_def unresolved_after_restart_def)
  qed
  then show ?thesis using r by (auto simp: recover_notifications_after_restart_def filter_empty_conv)
qed

end
