(* ===== verification/Store_Service.thy ===== *)
theory Store_Service
  imports Store_Recovery
begin

text \<open>
  The store as a service: it opens an empty file or one an earlier daemon wrote, requests are
  served one after the other, and after a crash the daemon opens the file again. \<open>store_reachable\<close> is the step relation of its life;
  the lemmas show that the projection is at all times the replay of the acknowledged lines.
\<close>

section \<open>Requests\<close>

datatype store_request =
    Accept message_id message_draft nat
  | Reply message_id reply_draft nat
  | Claim recipient_key message_id nat
  | ClaimLocator recipient_key message_id attempt_id
  | Advance transition_fact nat
  | Requeue message_id "notification_requeue list"
  | Clear message_id recipient_key attempt_id nat
  | ClearBatch string recipient_key "attempt_id list" "nat option" nat
  | Withdraw recipient_key recipient_key attempt_id
  | Recover notification_record
  | Seal bool

text \<open>The error of an answer, if any, and the store it leaves.\<close>

definition outcome :: "'a store_answer \<Rightarrow> store_error option \<times> message_store" where
  "outcome answer = (case answer of (Inl e, s) \<Rightarrow> (Some e, s) | (Inr x, s) \<Rightarrow> (None, s))"

fun serve ::
  "extern \<Rightarrow> line_codec \<Rightarrow> append_io \<Rightarrow> nat \<Rightarrow> message_store \<Rightarrow> store_request \<Rightarrow> store_error option \<times> message_store" where
  "serve X C io now s (Accept m draft ts) = outcome (accept_at X C io now s m draft ts)"
| "serve X C io now s (Reply m draft ts) = outcome (reply_at X C io now s m draft ts)"
| "serve X C io now s (Claim claimant m ts) = outcome (claim_at X C io now s claimant m ts)"
| "serve X C io now s (ClaimLocator claimant m a) = outcome (claim_notification_locator X C io now s claimant m a)"
| "serve X C io now s (Advance f ts) = outcome (append_notification_transition_full_at X C io now s f ts)"
| "serve X C io now s (Requeue m requeues) = outcome (requeue_notifications X C io now s m requeues)"
| "serve X C io now s (Clear m r a ts) = outcome (clear_notification_at X C io now s m r a ts)"
| "serve X C io now s (ClearBatch random operator attempts cutoff ts) =
     outcome (clear_notifications_at X C io now random s operator attempts cutoff ts)"
| "serve X C io now s (Withdraw operator r a) = outcome (withdraw_notification_before_write X C io now s operator r a)"
| "serve X C io now s (Recover c) = outcome (recover_one X C io now s c)"
| "serve X C io now s (Seal unlocked) =
     (let (answer, w) = seal_writer unlocked (ms_writer s) in
      ((case answer of Inl e \<Rightarrow> Some (StoreLedger e) | Inr u \<Rightarrow> None), s\<lparr> ms_writer := w \<rparr>))"

text \<open>The bytes of the acknowledged lines: as many lines of the file as the writer has numbered.\<close>

definition durable_bytes :: "ledger_writer \<Rightarrow> string" where
  "durable_bytes w = concat (map (\<lambda>l. l @ [newline]) (take (lw_next_seq w - 1) (split_on newline (lw_file w))))"

inductive store_reachable :: "extern \<Rightarrow> line_codec \<Rightarrow> Identity.workspace_id \<Rightarrow> message_store \<Rightarrow> bool" for X C ws where
  opened: "journal_ok C lines \<Longrightarrow> store_open X C True True (journal_bytes C lines) ws boot = Inr s \<Longrightarrow>
    store_reachable X C ws s"
| served: "store_reachable X C ws s \<Longrightarrow> serve X C io now s request = (e, s') \<Longrightarrow> store_reachable X C ws s'"
| crashed: "store_reachable X C ws s \<Longrightarrow> length (durable_bytes (ms_writer s)) \<le> j \<Longrightarrow>
    store_open X C True True (take j (lw_file (ms_writer s))) ws boot = Inr s' \<Longrightarrow> store_reachable X C ws s'"

section \<open>Serving keeps the invariant\<close>

lemma recover_one_keeps:
  "store_ok X C ws s lines \<Longrightarrow> keeps X C ws lines (recover_one X C io now s c)"
  by (simp add: recover_one_def Let_def transition_keeps)

lemma keeps_outcome:
  assumes "keeps X C ws lines answer" and "outcome answer = (e, s')"
  shows "e \<noteq> Some StorePanic \<and> (\<exists>new. store_ok X C ws s' (lines @ new))"
  using assms by (auto simp: keeps_def outcome_def split: prod.splits sum.splits)

lemma seal_keeps:
  assumes ok: "store_ok X C ws s lines" and seal: "seal_writer unlocked (ms_writer s) = (r, w)"
  shows "store_ok X C ws (s\<lparr> ms_writer := w \<rparr>) lines"
proof -
  have "lw_file w = lw_file (ms_writer s)" "lw_next_seq w = lw_next_seq (ms_writer s)"
    "lw_strict_replay w = lw_strict_replay (ms_writer s)" "lw_write_state_unknown w = lw_write_state_unknown (ms_writer s)"
    using seal by (auto simp: seal_writer_def Let_def split: if_splits)
  then show ?thesis using ok by (simp add: store_ok_def writer_holds_def pending_line_def)
qed

lemma serve_keeps:
  assumes ok: "store_ok X C ws s lines" and step: "serve X C io now s request = (e, s')"
  shows "e \<noteq> Some StorePanic \<and> (\<exists>new. store_ok X C ws s' (lines @ new))"
proof (cases request)
  case (Accept m draft ts)
  show ?thesis by (rule keeps_outcome [OF accept_keeps [OF ok] step [unfolded Accept serve.simps]])
next
  case (Reply m draft ts)
  show ?thesis by (rule keeps_outcome [OF reply_keeps [OF ok] step [unfolded Reply serve.simps]])
next
  case (Claim r m ts)
  show ?thesis by (rule keeps_outcome [OF claim_keeps [OF ok] step [unfolded Claim serve.simps]])
next
  case (ClaimLocator r m a)
  show ?thesis by (rule keeps_outcome [OF claim_locator_keeps [OF ok] step [unfolded ClaimLocator serve.simps]])
next
  case (Advance f ts)
  show ?thesis by (rule keeps_outcome [OF transition_full_keeps [OF ok] step [unfolded Advance serve.simps]])
next
  case (Requeue m requeues)
  show ?thesis by (rule keeps_outcome [OF requeues_keeps [OF ok] step [unfolded Requeue serve.simps]])
next
  case (Clear m r a ts)
  show ?thesis by (rule keeps_outcome [OF clear_keeps [OF ok] step [unfolded Clear serve.simps]])
next
  case (ClearBatch random operator attempts cutoff ts)
  show ?thesis by (rule keeps_outcome [OF clears_keeps [OF ok] step [unfolded ClearBatch serve.simps]])
next
  case (Withdraw operator r a)
  show ?thesis by (rule keeps_outcome [OF withdraw_keeps [OF ok] step [unfolded Withdraw serve.simps]])
next
  case (Recover c)
  show ?thesis by (rule keeps_outcome [OF recover_one_keeps [OF ok] step [unfolded Recover serve.simps]])
next
  case (Seal unlocked)
  then obtain r w where w: "seal_writer unlocked (ms_writer s) = (r, w)" by (cases "seal_writer unlocked (ms_writer s)")
  have "e \<noteq> Some StorePanic" "s' = s\<lparr> ms_writer := w \<rparr>" using step Seal w by (auto split: sum.splits)
  then show ?thesis using seal_keeps [OF ok w] by (metis append_Nil2)
qed

section \<open>Crashes\<close>

lemma durable_bytes_journal:
  assumes laws: "codec_laws C" and holds: "writer_holds C w lines"
  shows "durable_bytes w = journal_bytes C lines"
proof -
  obtain tail where tail: "lw_file w = journal_bytes C lines @ tail"
    "if lw_write_state_unknown w then pending_tail C lines tail else tail = []"
    and len: "lw_next_seq w - 1 = length lines" and ok: "journal_ok C lines"
    using holds by (auto simp: writer_holds_def)
  have w: "list_all (writable C) lines" using ok by (simp add: journal_ok_def)
  have "newline \<notin> set tail \<or> (\<exists>line. tail = record_bytes C line \<and> journal_ok C (lines @ [line]))"
    using tail(2) pending_tail_cut [OF laws, of lines tail "length tail"] by (auto split: if_splits)
  then have "take (length lines) (split_on newline (lw_file w)) = map (line_text C) lines"
  proof (elim disjE exE conjE)
    assume "newline \<notin> set tail"
    then show ?thesis using split_on_journal [OF laws w] tail(1) by simp
  next
    fix line assume l: "tail = record_bytes C line" "journal_ok C (lines @ [line])"
    have "list_all (writable C) (lines @ [line])" using l(2) by (simp add: journal_ok_def)
    then show ?thesis using split_on_journal [OF laws, of "lines @ [line]" "[]"] tail(1) l(1) by simp
  qed
  moreover have "map (record_bytes C) lines = map (\<lambda>l. line_text C l @ [newline]) lines"
    using w writable_text(1) [OF laws] by (auto simp: list_all_iff)
  ultimately show ?thesis unfolding durable_bytes_def len journal_bytes_def by (simp add: comp_def cong: map_cong)
qed

text \<open>Opening a journal that replays.\<close>

lemma store_open_journal:
  assumes laws: "codec_laws C" and ok: "journal_ok C lines" and tail: "newline \<notin> set tail"
    and replay: "replay X (mailbox_projection_new ws) lines = Inr p"
  obtains s where "store_open X C True True (journal_bytes C lines @ tail) ws boot = Inr s" "ms_projection s = p"
    "store_ok X C ws s lines" "\<not> lw_write_state_unknown (ms_writer s)" "\<not> lw_sealed (ms_writer s)"
    "ms_fail_notification_recovery_append s = None"
proof -
  let ?w = "\<lparr> lw_file = journal_bytes C lines, lw_next_seq = Suc (length lines), lw_strict_replay = True,
           lw_write_state_unknown = False, lw_sealed = False, lw_locked = True, lw_boot_id = boot \<rparr>"
  let ?s = "\<lparr> ms_writer = ?w, ms_projection = p, ms_fail_notification_recovery_append = None \<rparr>"
  have "store_open X C True True (journal_bytes C lines @ tail) ws boot = Inr ?s"
    using open_strict_journal [OF laws ok tail, of boot] replay by (simp add: store_open_def)
  moreover have "store_ok X C ws ?s lines" using laws ok replay by (simp add: store_ok_def writer_holds_def)
  ultimately show thesis using that by simp
qed

text \<open>Whatever a crash cuts off behind the acknowledged lines, the store opens again.\<close>

lemma store_crash:
  assumes ok: "store_ok X C ws s lines" and cut: "length (durable_bytes (ms_writer s)) \<le> j"
  obtains (same) s' where "store_open X C True True (take j (lw_file (ms_writer s))) ws boot = Inr s'"
      "ms_projection s' = ms_projection s" "store_ok X C ws s' lines" "\<not> lw_write_state_unknown (ms_writer s')"
  | (one_more) s' line where "store_open X C True True (take j (lw_file (ms_writer s))) ws boot = Inr s'"
      "apply_owned X (ms_projection s) line = Inr (ms_projection s')" "store_ok X C ws s' (lines @ [line])"
      "lw_write_state_unknown (ms_writer s)" "\<not> lw_write_state_unknown (ms_writer s')"
proof -
  note d = store_okD [OF ok]
  have jok: "journal_ok C lines" using d(2) by (simp add: writer_holds_def)
  have cut': "length (journal_bytes C lines) \<le> j" using cut durable_bytes_journal [OF d(1,2)] by simp
  show thesis
  proof (cases "lw_write_state_unknown (ms_writer s)")
    case False
    then have "take j (lw_file (ms_writer s)) = journal_bytes C lines @ []"
      using d(2) cut' by (auto simp: writer_holds_def)
    then show thesis using same store_open_journal [OF d(1) jok, of "[]" X ws _ boot] d(3) by (metis emptyE empty_set)
  next
    case True
    then obtain line k q where pend: "lw_file (ms_writer s) = journal_bytes C lines @ take k (record_bytes C line)"
      "journal_ok C (lines @ [line])" "apply_owned X (ms_projection s) line = Inr q"
      using ok by (auto simp: store_ok_def pending_line_def)
    let ?j = "j - length (journal_bytes C lines)"
    have bytes: "take j (lw_file (ms_writer s)) = journal_bytes C lines @ take ?j (take k (record_bytes C line))"
      using pend(1) cut' by simp
    have "writable C line" using pend(2) by (simp add: journal_ok_snoc)
    from record_cut [OF d(1) this] show thesis
    proof
      assume "newline \<notin> set (take ?j (take k (record_bytes C line)))"
      then show thesis using same store_open_journal [OF d(1) jok _ d(3), of _ boot] bytes by metis
    next
      assume "take ?j (take k (record_bytes C line)) = record_bytes C line"
      then have whole: "take j (lw_file (ms_writer s)) = journal_bytes C (lines @ [line]) @ []" using bytes by simp
      have "replay X (mailbox_projection_new ws) (lines @ [line]) = Inr q"
        using d(3) apply_inner_replays [OF pend(3) [unfolded apply_owned_def]]
        by (simp add: replay_append apply_replayed_owned_def)
      then show thesis
        using one_more True pend(3) whole store_open_journal [OF d(1) pend(2), of "[]" X ws q boot]
        by (metis emptyE empty_set)
    qed
  qed
qed

section \<open>Reachable stores\<close>

lemma reachable_store_ok:
  assumes laws: "codec_laws C"
  shows "store_reachable X C ws s \<Longrightarrow> \<exists>lines. store_ok X C ws s lines"
proof (induction rule: store_reachable.induct)
  case (opened lines boot s)
  have read: "open_with_replay C True True (journal_bytes C lines) boot True =
    Inr (\<lparr> lw_file = journal_bytes C lines, lw_next_seq = Suc (length lines), lw_strict_replay = True,
           lw_write_state_unknown = False, lw_sealed = False, lw_locked = True, lw_boot_id = boot \<rparr>, lines)"
    using open_strict_journal [OF laws opened(1), of "[]"] by simp
  obtain p where p: "replay X (mailbox_projection_new ws) lines = Inr p"
    using opened(2) read by (auto simp: store_open_def split: sum.splits apply_error.splits)
  obtain s' where "store_open X C True True (journal_bytes C lines @ []) ws boot = Inr s'" "store_ok X C ws s' lines"
    by (rule store_open_journal [OF laws opened(1) _ p, of "[]" boot]) simp_all
  then show ?case using opened(2) by auto
next
  case (served s io now request e s')
  then show ?case using serve_keeps by blast
next
  case (crashed s j boot s')
  then obtain lines where "store_ok X C ws s lines" by blast
  then show ?case using crashed(2,3) by (cases rule: store_crash [of X C ws s lines j boot]) auto
qed

end
