(* ===== verification/Store_Answers.thy ===== *)
theory Store_Answers
  imports Store_Service
begin

text \<open>
  What the answers of the store say: an accepted message is stored and found again by its
  client key, a claim is recorded once, minted ids are free, and a message body is shown to
  its sender and to the recipients that claimed it. A store whose last write failed changes
  nothing until it is opened again.
\<close>

lemma after_Inr: "after step ans = (Inr x, s') \<longleftrightarrow> (\<exists>u. step = (Inr u, s')) \<and> ans s' = Inr x"
  by (auto simp: after_def split: prod.splits sum.splits)

section \<open>Accepted messages\<close>

lemma accepted_message_stored:
  assumes inv: "projection_inv p" and app: "apply_owned X p line = Inr q" and kind: "is_message line"
  shows "get_message q (ln_id line) = Some line" and "\<exists>md. message_ok q (ln_id line) line md"
proof -
  obtain pm where pm: "prepare_line_inner X p line False = Inr pm" "messages q = message_effect line pm (messages p)"
    using apply_inner_facts [OF inv app [unfolded apply_owned_def]] by metis
  then show stored: "get_message q (ln_id line) = Some line"
    using prepared_message(1) [OF pm(1) kind] by (auto simp: get_message_def)
  have "mailbox_inv q"
    using apply_inner_inv [OF inv apply_inner_replays [OF app [unfolded apply_owned_def]]] by (simp add: projection_inv_def)
  then show "\<exists>md. message_ok q (ln_id line) line md"
    using stored unfolding mailbox_inv_def messages_ok_def get_message_def by blast
qed

lemma draft_metadata_back [simp]: "extract_message_metadata (draft_line s m draft ts labels md) = Inr md"
  by (simp add: extract_message_metadata_def draft_line_def metadata_value_def result_simps)

text \<open>An answer that inserts comes from one line appended and committed.\<close>

lemma accept_inserted:
  assumes ok: "store_ok X C ws s lines" and acc: "accept_canonical_at X C io now s m draft ts = (Inr r, s')"
    and ins: "ac_inserted r"
  obtains digest root labels sender where
    "check_acceptance X (ms_projection s) draft = Inr (NewMessage digest)"
    "presentation_labels X (cd_recipients draft) (cd_presentation draft) = Inr (sender, labels)"
    "ac_message_id r = m" "ac_thread_root r = root" "ac_recipients r = labels" "ac_recipient_keys r = cd_recipients draft"
    "ac_seq r = Suc (length lines)"
    "apply_owned X (ms_projection s) (draft_line s m draft (time_or_now ts now) labels
       (draft_metadata (ms_projection s) draft root digest)) = Inr (ms_projection s')"
    "store_ok X C ws s' (lines @ [draft_line s m draft (time_or_now ts now) labels
       (draft_metadata (ms_projection s) draft root digest)])"
proof -
  have old: "existing_result p e = Inr r \<Longrightarrow> \<not> ac_inserted r" for p e
    by (auto simp: existing_result_def split: option.splits sum.splits)
  from acc ins obtain digest root sender labels where n: "check_acceptance X (ms_projection s) draft = Inr (NewMessage digest)"
    "presentation_labels X (cd_recipients draft) (cd_presentation draft) = Inr (sender, labels)"
    and res: "after (persist X C io now s (draft_line s m draft (time_or_now ts now) labels
       (draft_metadata (ms_projection s) draft root digest)))
       (\<lambda>s'. Inr \<lparr> ac_message_id = m, ac_thread_root = root, ac_inserted = True, ac_seq = lw_next_seq (ms_writer s),
          ac_recipients = labels, ac_recipient_keys = cd_recipients draft \<rparr>) = (Inr r, s')"
    using old by (auto simp: accept_canonical_at_def Let_def draft_line_def
        split: sum.splits acceptance_outcome.splits prod.splits)
  let ?line = "draft_line s m draft (time_or_now ts now) labels (draft_metadata (ms_projection s) draft root digest)"
  obtain x s1 where p: "persist X C io now s ?line = (x, s1)" by (cases "persist X C io now s ?line")
  have fresh: "fresh_line s ?line" by simp
  from ok fresh p show thesis
  proof (cases rule: persist_cases)
    case (committed q)
    then show thesis
      using that [OF n] res p store_okD(5) [OF ok] by (auto simp: after_def)
  qed (use res p in \<open>auto simp: after_def\<close>)
qed

lemma accept_then_retry:
  assumes ok: "store_ok X C ws s lines" and acc: "accept_canonical_at X C io now s m draft ts = (Inr r, s')"
    and ins: "ac_inserted r" and key: "cd_client_key draft = Some key"
  shows "accept_canonical_at X C io2 now2 s' m2 draft ts2 = (Inr (r\<lparr> ac_inserted := False \<rparr>), s')"
proof -
  let ?p = "ms_projection s" and ?q = "ms_projection s'"
  obtain digest root labels sender where a: "check_acceptance X ?p draft = Inr (NewMessage digest)"
    "presentation_labels X (cd_recipients draft) (cd_presentation draft) = Inr (sender, labels)"
    and r: "ac_message_id r = m" "ac_thread_root r = root" "ac_recipients r = labels"
      "ac_recipient_keys r = cd_recipients draft" "ac_seq r = Suc (length lines)"
    and app: "apply_owned X ?p (draft_line s m draft (time_or_now ts now) labels (draft_metadata ?p draft root digest)) = Inr ?q"
    and ok': "store_ok X C ws s' (lines @ [draft_line s m draft (time_or_now ts now) labels (draft_metadata ?p draft root digest)])"
    by (rule accept_inserted [OF ok acc ins])
  let ?md = "draft_metadata ?p draft root digest" and ?line = "draft_line s m draft (time_or_now ts now) labels
    (draft_metadata ?p draft root digest)"
  have kind: "is_message ?line" using a(1) by (auto simp: check_acceptance_def is_message_def draft_line_def Let_def result_simps)
  have id: "ln_id ?line = m" by (simp add: draft_line_def)
  note st = accepted_message_stored [OF store_okD(4) [OF ok] app kind, unfolded id]
  have msg: "message_ok ?q m ?line ?md" using st(2) by (auto simp: message_ok_def)
  have wid: "workspace_id ?q = workspace_id ?p"
    using msg a(1) by (auto simp: message_ok_def draft_metadata_def check_acceptance_def Let_def result_simps)
  have "keyed ?q (cd_sender draft) key m digest"
    using st(1) key by (auto simp: keyed_def get_message_def draft_metadata_def)
  then have index: "hm_get (idempotency_index ?q) (cd_sender draft, key) = Some (m, digest)"
    using store_okD(4) [OF ok'] by (simp add: projection_inv_def mailbox_inv_def idempotency_ok_def)
  have d: "digest_compute X (cd_kind draft) (cd_sender draft) (cd_recipients draft) (draft_content draft)
      (cd_reply_to draft) (cd_supersedes draft) = Inr digest"
    using a(1) by (auto simp: check_acceptance_def check_idempotency_def Let_def result_simps split: option.splits if_splits)
  have "check_idempotency ?q draft digest = Inr (Some (ExistingMessage m))" using key index by (simp add: check_idempotency_def)
  then have "check_acceptance X ?q draft = Inr (ExistingMessage m)"
    using a(1) d wid by (auto simp: check_acceptance_def Let_def result_simps)
  moreover have "existing_result ?q m = Inr (r\<lparr> ac_inserted := False \<rparr>)"
    using st(1) r store_okD(5) [OF ok] by (cases r) (simp add: existing_result_def draft_line_def draft_metadata_def
        extract_message_metadata_def metadata_value_def result_simps)
  ultimately show ?thesis by (simp add: accept_canonical_at_def Let_def)
qed

section \<open>Claims\<close>

lemma claimed_entry:
  assumes inv: "projection_inv p"
    and app: "apply_owned X p (state_row s m ts fr to (mailbox_fact_value (MessageClaimed f))) = Inr q"
    and f: "cf_message_id f = m" "cf_recipient f = claimant" "cf_claimant f = claimant"
  shows "\<exists>e. get_entry q claimant m = Some e \<and> me_state e = Claimed claimant ts"
proof -
  let ?line = "state_row s m ts fr to (mailbox_fact_value (MessageClaimed f))"
  obtain pm where pm: "prepare_line_inner X p ?line False = Inr pm" "legal p ?line pm"
    "get_entry q = entry_effect ?line pm (get_entry p)"
    using apply_inner_facts [OF inv app [unfolded apply_owned_def]] by metis
  have "prepare_state X p ?line False = Inr pm"
    by (rule prepared_state_row [OF pm(1) [folded prepare_line_def]]) (simp add: state_row_def)
  then have "prepare_claim X p ?line = Inr pm"
    by (simp add: prepare_state_def state_row_def mailbox_fact_value_def)
  then obtain up where up: "pm = PreparedClaim m claimant claimant up"
    using f by (auto simp: prepare_claim_def claim_fact_of_def state_row_def mailbox_fact_value_def result_simps Let_def)
  have "pending_entry p claimant m" using pm(2) unfolding up by (auto elim: legal.cases)
  then show ?thesis using pm(3) up by (auto simp: pending_entry_def state_row_def)
qed

lemma claim_then_repeat:
  assumes ok: "store_ok X C ws s lines"
    and now: "claim_at X C io now s claimant m ts = (Inr (ClaimedNow e message skipped withdrawn consumed), s')"
  shows "get_entry (ms_projection s') claimant m = Some e" and "\<exists>t. me_state e = Claimed claimant t"
    and "\<exists>consumed'. claim_at X C io2 now2 s' claimant m ts2 = (Inr (ClaimedBefore e message None consumed'), s')"
proof -
  let ?p = "ms_projection s"
  let ?f = "\<lparr> cf_record_version = canonical_record_version, cf_message_id = m, cf_recipient = claimant, cf_claimant = claimant \<rparr>"
  let ?row = "state_row s m (time_or_now ts now) (key_to_string X claimant) [] (mailbox_fact_value (MessageClaimed ?f))"
  obtain entry line where e: "get_entry ?p claimant m = Some entry" "get_message ?p m = Some line"
    "inbox_message line claimant = Inr message" "me_state entry = Pending"
    using now by (auto simp: claim_at_def after_Inr result_simps Let_def
        split: option.splits sum.splits mailbox_entry_state.splits if_splits)
  have "entries_ok ?p" using store_okD(4) [OF ok] by (simp add: projection_inv_def mailbox_inv_def)
  then have rec: "me_recipient entry = claimant"
    using e(1) by (auto simp: entries_ok_def get_entry_def bind_eq_Some_conv)
  have res: "after (persist X C io now s ?row) (\<lambda>s'. rbind (expected (get_entry (ms_projection s') claimant m)) (\<lambda>updated.
      Inr (ClaimedNow updated message (skipped_oldest ?p claimant m) (withdrawn_by_claim ?p claimant m)
        (consumed_doorbell ?p claimant m)))) = (Inr (ClaimedNow e message skipped withdrawn consumed), s')"
    using now e rec by (simp add: claim_at_def Let_def)
  obtain x s1 where p: "persist X C io now s ?row = (x, s1)" by (cases "persist X C io now s ?row")
  have fresh: "fresh_line s ?row" by simp
  from ok fresh p have step: "apply_owned X ?p ?row = Inr (ms_projection s') \<and> get_entry (ms_projection s') claimant m = Some e"
  proof (cases rule: persist_cases)
    case (committed q)
    then show ?thesis using res p by (auto simp: after_def expected_def result_simps)
  qed (use res p in \<open>auto simp: after_def\<close>)
  then show got: "get_entry (ms_projection s') claimant m = Some e" by simp
  have app: "apply_owned X ?p ?row = Inr (ms_projection s')" using step by simp
  from claimed_entry [OF store_okD(4) [OF ok] app] got show cl: "\<exists>t. me_state e = Claimed claimant t" by auto
  have "hm_get (messages (ms_projection s')) m = Some line"
    using stored_message_step [OF store_okD(4) [OF ok] app [unfolded apply_owned_def]] e(2) by (simp add: get_message_def)
  then show "\<exists>consumed'. claim_at X C io2 now2 s' claimant m ts2 = (Inr (ClaimedBefore e message None consumed'), s')"
    using got cl e(3) by (auto simp: claim_at_def get_message_def Let_def)
qed

section \<open>Minting\<close>

definition mint_candidate :: "extern \<Rightarrow> message_id option \<Rightarrow> string \<Rightarrow> message_id" where
  "mint_candidate X root random = (case root of Some r \<Rightarrow> mint_in_thread X random r | None \<Rightarrow> mint_root random)"

lemma mint_Some: "mint_message_id X p root draws = Some m \<Longrightarrow> get_message p m = None \<and> m \<in> mint_candidate X root ` set draws"
  by (induction draws) (auto simp: mint_candidate_def Let_def split: if_splits)

lemma mint_None: "mint_message_id X p root draws = None \<Longrightarrow> \<forall>r\<in>set draws. get_message p (mint_candidate X root r) \<noteq> None"
  by (induction draws) (auto simp: mint_candidate_def Let_def split: if_splits)

lemma mint_ends:
  assumes d: "distinct (map (mint_candidate X root) draws)" and enough: "length (messages p) < length draws"
  shows "\<exists>m. mint_message_id X p root draws = Some m"
proof (rule ccontr)
  assume "\<not> ?thesis"
  then have "mint_candidate X root ` set draws \<subseteq> fst ` set (messages p)"
    using mint_None [of X p root draws] by (force simp: get_message_def dest!: hm_get_Some_in)
  then have "card (mint_candidate X root ` set draws) \<le> card (fst ` set (messages p))" by (rule card_mono [rotated]) simp
  also have "\<dots> \<le> length (messages p)" by (metis card_length length_map list.set_map)
  finally show False using enough distinct_card [OF d] by simp
qed

section \<open>Bodies\<close>

definition valid_ids :: "mailbox_projection \<Rightarrow> bool" where
  "valid_ids p \<longleftrightarrow> (\<forall>m. hm_get (messages p) m \<noteq> None \<longrightarrow> message_id_new m = Inr m)"

lemma prepared_message_id:
  assumes "prepare_line_inner X p line b = Inr (PreparedMessage m md up)"
  shows "message_id_new m = Inr m"
proof -
  have "is_message line" using prepared_message(2) [OF assms] by blast
  then have "prepare_message X p line = Inr (PreparedMessage m md up)"
    using assms by (auto simp: is_message_def prepare_line_inner_def result_simps Let_def)
  then show ?thesis
    by (auto simp: prepare_message_def of_type_result_def result_simps Let_def dest: message_id_new_Inr split: sum.splits)
qed

lemma valid_ids_step:
  assumes inv: "projection_inv p" and ids: "valid_ids p" and app: "apply_inner X p line b = Inr q"
  shows "valid_ids q"
proof -
  obtain pm where pm: "prepare_line_inner X p line b = Inr pm" "messages q = message_effect line pm (messages p)"
    using apply_inner_facts [OF inv app] by metis
  then show ?thesis
    using ids prepared_message_id [of X p line b] by (cases pm) (auto simp: valid_ids_def)
qed

lemma valid_ids_replay: "replay X (mailbox_projection_new ws) lines = Inr p \<Longrightarrow> valid_ids p"
  by (rule replay_preserves [where P = valid_ids, OF valid_ids_step projection_inv_new])
    (simp_all add: valid_ids_def mailbox_projection_new_def)

lemma body_shown_iff:
  assumes inv: "projection_inv p" and ids: "valid_ids p" and line: "get_message p m = Some line" and md: "extract_message_metadata line = Inr md"
  shows "projection_allows_message_body p reader line \<longleftrightarrow>
    md_sender md = reader \<or>
    (\<exists>e. get_entry p reader m = Some e \<and> (is_claimed (me_state e) \<or> (\<exists>a t. me_state e = DeliveredDirect a t)))"
proof -
  have minv: "mailbox_inv p" using inv by (simp add: projection_inv_def)
  obtain md' where ok: "message_ok p m line md'"
    using minv line unfolding mailbox_inv_def messages_ok_def get_message_def by blast
  have id: "ln_id line = m" and kind: "ln_kind line = Msg \<or> ln_kind line = Fyi" using ok by (auto simp: message_ok_def)
  have own: "c = reader" if "get_entry p reader m = Some e" "me_state e = Claimed c t" for e c t
  proof -
    have "claim_recorded p reader m e" using minv that(1) by (simp add: mailbox_inv_def claims_ok_def)
    then show ?thesis using that(2) by (simp add: claim_recorded_def)
  qed
  have "message_id_new m = Inr m" using ids line by (simp add: valid_ids_def get_message_def)
  then show ?thesis
    using id kind line md own
    by (auto simp: projection_allows_message_body_def is_some_and_def is_claimed_def
        split: option.splits mailbox_entry_state.splits)
qed

section \<open>A store whose last write failed\<close>

text \<open>What an answer leaves of file and projection.\<close>

definition untouched :: "message_store \<Rightarrow> message_store \<Rightarrow> bool" where
  "untouched s s' \<longleftrightarrow> lw_file (ms_writer s') = lw_file (ms_writer s) \<and> ms_projection s' = ms_projection s \<and>
     lw_write_state_unknown (ms_writer s') = lw_write_state_unknown (ms_writer s)"

lemma untouched_refl [simp]: "untouched s s"
  and untouched_injection [simp]: "untouched s (s\<lparr> ms_fail_notification_recovery_append := x \<rparr>)"
  by (simp_all add: untouched_def)

definition stopped :: "message_store \<Rightarrow> bool" where
  "stopped s \<longleftrightarrow> lw_write_state_unknown (ms_writer s) \<or> lw_sealed (ms_writer s)"

lemma persist_stopped:
  "stopped s \<Longrightarrow> \<exists>e. persist X C io now s line = (Inl e, s)"
  by (auto simp: stopped_def persist_def append_record_def split: sum.splits)

lemma after_stopped: "stopped s \<Longrightarrow> untouched s (snd (after (persist X C io now s line) ans))"
  using persist_stopped [of s X C io now line] by (auto simp: after_def)

lemma accept_stopped: "stopped s \<Longrightarrow> untouched s (snd (accept_canonical_at X C io now s m draft ts))"
  by (auto simp: accept_canonical_at_def Let_def after_stopped split: sum.splits acceptance_outcome.splits prod.splits)

lemma claim_stopped: "stopped s \<Longrightarrow> untouched s (snd (claim_at X C io now s claimant m ts))"
  by (auto simp: claim_at_def Let_def after_stopped split: option.splits sum.splits mailbox_entry_state.splits)

lemma fact_stopped: "stopped s \<Longrightarrow> untouched s (snd (append_notification_fact_at X C io now s m r f ts))"
  by (auto simp: append_notification_fact_at_def Let_def after_stopped split: sum.splits)

lemma untouched_map:
  "untouched s (snd ans) \<Longrightarrow> untouched s (snd (case ans of (Inl e, s') \<Rightarrow> (Inl e, s') | (Inr x, s') \<Rightarrow> (Inr (f x), s')))"
  by (auto split: prod.splits sum.splits)

lemma transition_stopped: "stopped s \<Longrightarrow> untouched s (snd (append_notification_transition_full_at X C io now s f ts))"
  unfolding append_notification_transition_full_at_def by (rule fact_stopped)

lemma claim_locator_stopped: "stopped s \<Longrightarrow> untouched s (snd (claim_notification_locator X C io now s claimant m a))"
  unfolding claim_notification_locator_def Let_def
  by (auto simp: untouched_map claim_stopped split: option.splits)

lemma requeues_stopped: "stopped s \<Longrightarrow> untouched s (snd (requeue_notifications X C io now s m requeues))"
  unfolding requeue_notifications_def requeue_notification_at_def requeue_notifications_at_def Let_def
  by (auto simp: untouched_map fact_stopped after_stopped split: list.splits)

lemma clear_stopped: "stopped s \<Longrightarrow> untouched s (snd (clear_notification_at X C io now s m r a ts))"
  unfolding clear_notification_at_def Let_def by (auto simp: fact_stopped split: option.splits)

lemma clears_stopped: "stopped s \<Longrightarrow> untouched s (snd (clear_notifications_at X C io now random s operator attempts cutoff ts))"
  unfolding clear_notifications_at_def Let_def
  by (auto split: sum.splits) (metis persist_stopped snd_conv untouched_refl)

lemma withdraw_stopped: "stopped s \<Longrightarrow> untouched s (snd (withdraw_notification_before_write X C io now s operator r a))"
  unfolding withdraw_notification_before_write_def Let_def by (auto simp: after_stopped split: option.splits)

lemma outcome_snd: "outcome answer = (e, s') \<Longrightarrow> snd answer = s'"
  by (auto simp: outcome_def split: prod.splits sum.splits)

lemma serve_stopped:
  assumes "stopped s" and "serve X C io now s request = (e, s')"
  shows "untouched s s'"
proof (cases request)
  case (Seal unlocked)
  then show ?thesis using assms(2) by (auto simp: seal_writer_def untouched_def Let_def split: if_splits sum.splits prod.splits)
qed (use assms in \<open>auto simp: accept_at_def reply_at_def recover_one_def transition_defs Let_def dest!: outcome_snd
    intro: accept_stopped claim_stopped claim_locator_stopped transition_stopped requeues_stopped clear_stopped
      clears_stopped withdraw_stopped split: sum.splits if_splits\<close>)

end
