(* ===== verification/Sample_Codec.thy ===== *)
theory Sample_Codec
  imports Store_Service Sample_Run "HOL-Library.Countable"
begin

text \<open>
  An instance of the assumptions on JSON: every line has a number, and is written as a brace
  and that number. The line types are countable, which gives the numbering.
\<close>

section \<open>Lines are countable\<close>

instance word :: (len) countable
  by (rule countable_classI [of unat]) (simp add: word_unat_eq_iff)

instance process_instance_id :: countable
  by countable_datatype

instance recipient :: countable
  by countable_datatype

instance recipient_key :: countable
  by countable_datatype

instance kind :: countable
  by countable_datatype

instance notification_state :: countable
  by countable_datatype

instance notification_transport :: countable
  by countable_datatype

instance pre_write_cause :: countable
  by countable_datatype

instance message_wake_block :: countable
  by countable_datatype

instance attention_cause :: countable
  by countable_datatype

instance verify_failure_kind :: countable
  by countable_datatype

instance composer_state :: countable
  by countable_datatype

instance verify_outcome :: countable
  by countable_datatype

instance verified_by :: countable
  by countable_datatype

instance resolution :: countable
  by countable_datatype

instance consumption_evidence :: countable
  by countable_datatype

instance barrier_retirement_cause :: countable
  by countable_datatype

instance delivery_state :: countable
  by countable_datatype

instance recipient_presentation_ext :: (countable) countable
  by (rule countable_classI [of "\<lambda>x. to_nat (rp_recipient x, rp_label x,
      recipient_presentation.more x)"]) simp

instance message_presentation_ext :: (countable) countable
  by (rule countable_classI [of "\<lambda>x. to_nat (sender_label x, recipient_labels x,
      message_presentation.more x)"]) simp

instance message_metadata_ext :: (countable) countable
  by (rule countable_classI [of "\<lambda>x. to_nat (md_record_version x, md_workspace_id x, md_sender x,
      md_recipients x, md_presentation x, md_summary x, md_thread_root x, md_client_key x, md_request_digest x,
      md_supersedes x, md_raw x, md_broadcast x, message_metadata.more x)"]) simp

instance route_evidence_id_ext :: (countable) countable
  by (rule countable_classI [of "\<lambda>x. to_nat (re_boot_id x, re_generation x, route_evidence_id.more x)"]) simp

instance notification_binding_ext :: (countable) countable
  by (rule countable_classI [of "\<lambda>x. to_nat (bd_recipient x, bd_pane_root x, bd_leader x, bd_agent x,
      bd_manifest x, notification_binding.more x)"]) simp

instance pre_write_observation_ext :: (countable) countable
  by (rule countable_classI [of "\<lambda>x. to_nat (ob_write_block x, ob_pane_root x, ob_selected_manifest x,
      ob_binding x, ob_route_evidence x, ob_pane_width x, ob_required_pane_width x,
      pre_write_observation.more x)"]) simp

instance consumption_observation_ext :: (countable) countable
  by (rule countable_classI [of "\<lambda>x. to_nat (co_evidence x, co_observed_at_ms x,
      consumption_observation.more x)"]) simp

instance transition_fact_ext :: (countable) countable
  by (rule countable_classI [of "\<lambda>x. to_nat (tf_record_version x, tf_attempt_id x, tf_message_id x,
      tf_recipient x, tf_state x, tf_binding x, tf_transport x, tf_doorbell_format x, tf_cause x,
      tf_verified_by x, tf_verify_outcome x, tf_pre_write_cause x, tf_wake_block x, tf_pre_write_observation x,
      transition_fact.more x)"]) simp

instance attempt_fact_ext :: (countable) countable
  by (rule countable_classI [of "\<lambda>x. to_nat (af_record_version x, af_attempt_id x, af_message_id x,
      af_recipient x, attempt_fact.more x)"]) simp

instance notification_requeue_ext :: (countable) countable
  by (rule countable_classI [of "\<lambda>x. to_nat (rq_prior_attempt_id x, rq_attempt_id x, rq_recipient x,
      notification_requeue.more x)"]) simp

instance claim_fact_ext :: (countable) countable
  by (rule countable_classI [of "\<lambda>x. to_nat (cf_record_version x, cf_message_id x, cf_recipient x,
      cf_claimant x, claim_fact.more x)"]) simp

instance notification_fact :: countable
  by countable_datatype

instance mailbox_fact :: countable
  by countable_datatype

instance delivery_ext :: (countable) countable
  by (rule countable_classI [of "\<lambda>x. to_nat (dl_to x, dl_state x, dl_verified_by x, dl_attempts x,
      dl_ts x, dl_cause x, delivery.more x)"]) simp

instance row_data_ext :: (countable) countable
  by (rule countable_classI [of "\<lambda>x. to_nat (rd_type x, rd_metadata x, rd_mailbox_fact x,
      rd_notification_fact x, row_data.more x)"]) simp

instance ledger_line_ext :: (countable) countable
  by (rule countable_classI [of "\<lambda>x. to_nat (ln_seq x, ln_boot_id x, ln_id x, ln_ts x, ln_kind x,
      ln_from x, ln_to x, ln_subject x, ln_body x, ln_reply_to x, ln_deliveries x, ln_data x,
      ledger_line.more x)"]) simp

section \<open>The codec\<close>

definition sample_codec :: line_codec where
  "sample_codec =
     \<lparr> to_vec = (\<lambda>line. Inr (CHR ''{'' # show_nat (to_nat line))), from_text = (\<lambda>text. Inr (from_nat (read_nat (tl text)))) \<rparr>"

lemma sample_codec_laws: "codec_laws sample_codec"
proof -
  have digit: "utf8_ok ds \<and> (\<forall>c\<in>set ds. 32 \<le> byte_of c)" if "list_all is_ascii_digit ds" for ds
    using that
  proof (induction ds)
    case (Cons d ds)
    then show ?case by (simp add: utf8_ok_def is_ascii_digit_def byte_of_def)
  qed (simp add: utf8_ok_def)
  have "compact_json (CHR ''{'' # show_nat n)" for n
    using digit [OF show_nat_digits(1) [of n]] by (auto simp: compact_json_def utf8_ok_def byte_of_def)
  then show ?thesis by (simp add: codec_laws_def sample_codec_def)
qed

lemma sample_codec_total: "codec_total sample_codec"
  by (simp add: codec_total_def sample_codec_def)

end
