(* ===== verification/Store_Properties.thy ===== *)
theory Store_Properties
  imports Store_Answers Sample_Codec
begin

text \<open>The properties of the journal file and of the message store.\<close>

section \<open>A sample store\<close>

definition sample_writer :: "nat \<Rightarrow> ledger_writer" where
  "sample_writer n =
     \<lparr> lw_file = journal_bytes sample_codec (take n sample_journal), lw_next_seq = Suc n, lw_strict_replay = True,
       lw_write_state_unknown = False, lw_sealed = False, lw_locked = True, lw_boot_id = ''b'' \<rparr>"

definition sample_store :: "nat \<Rightarrow> message_store" where
  "sample_store n =
     \<lparr> ms_writer = sample_writer n, ms_projection = sample_run n, ms_fail_notification_recovery_append = None \<rparr>"

lemma sample_storable: "line \<in> set sample_journal \<Longrightarrow> storable line"
  by (auto simp: sample_journal_def sample_message_def sample_transition_def sample_state_line_def sample_claim_def
      sample_row_def storable_def)

lemma sample_journal_ok:
  assumes "n \<le> 10"
  shows "journal_ok sample_codec (take n sample_journal)"
proof -
  have "map ln_seq sample_journal = [1..<11]"
    by (simp add: sample_journal_def sample_message_def sample_transition_def sample_state_line_def sample_claim_def
        sample_row_def upt_rec)
  then have "map ln_seq (take n sample_journal) = take n [1..<11]" by (metis take_map)
  moreover have "take n [1..<11] = [1..<Suc n]" using assms by (simp add: take_upt)
  moreover have "list_all (writable sample_codec) (take n sample_journal)"
    using sample_storable sample_codec_total by (auto simp: list_all_iff writable_def codec_total_def dest: in_set_takeD)
  ultimately show ?thesis using assms sample_length by (simp add: journal_ok_def u64_max_def min_def)
qed

lemma sample_store_opens:
  "n \<le> 10 \<Longrightarrow> store_open sample_extern sample_codec True True (journal_bytes sample_codec (take n sample_journal)) 1 ''b'' =
    Inr (sample_store n)"
  using open_strict_journal [OF sample_codec_laws sample_journal_ok, of n "[]" "''b''"] sample_states(2) [of n] sample_length
  by (simp add: store_open_def sample_store_def sample_writer_def min_def)

lemma sample_store_ok: "n \<le> 10 \<Longrightarrow> store_ok sample_extern sample_codec 1 (sample_store n) (take n sample_journal)"
  using sample_codec_laws sample_journal_ok sample_states(2) [of n] sample_length
  by (simp add: store_ok_def writer_holds_def sample_store_def sample_writer_def min_def)

lemma sample_reachable: "n \<le> 10 \<Longrightarrow> store_reachable sample_extern sample_codec 1 (sample_store n)"
  by (rule store_reachable.opened [OF sample_journal_ok sample_store_opens])

text \<open>A write that failed after three bytes, and the same write in full.\<close>

definition sample_request :: store_request where
  "sample_request = Advance (sample_fact Gating) 13"

lemma sample_request_row:
  "state_row (sample_store 2) ''m-1'' (time_or_now 13 now) daemon_label [key_to_string sample_extern sample_agent]
     (notification_fact_value (NotificationTransition (sample_fact Gating))) = sample_journal ! 2"
  by (simp add: state_row_def sample_store_def sample_writer_def sample_journal_def sample_transition_def
      sample_state_line_def time_or_now_def)

lemma sample_request_prepared: "\<exists>pm. prepare_line sample_extern (sample_run 2) (sample_journal ! 2) = Inr pm"
  using sample_step [of 2] by (auto simp: apply_owned_def apply_inner_Inr_iff prepare_line_def)

lemma sample_torn_append:
  obtains piece where "append_record sample_codec (WriteFailed 3) 13 (sample_writer 2) (sample_journal ! 2) =
    (Inl LedgerIo, (sample_writer 2)\<lparr> lw_file := journal_bytes sample_codec (take 2 sample_journal) @ piece,
       lw_write_state_unknown := True \<rparr>)"
proof -
  obtain bytes where b: "to_vec sample_codec (stamped (sample_writer 2) 13 (sample_journal ! 2)) = Inr bytes"
    by (simp add: sample_codec_def)
  have "checked_add_u64 (lw_next_seq (sample_writer 2)) 1 = Some 4"
    by (simp add: sample_writer_def checked_add_u64_def u64_max_def)
  moreover have "\<not> lw_sealed (sample_writer 2)" "\<not> lw_write_state_unknown (sample_writer 2)"
    "lw_file (sample_writer 2) = journal_bytes sample_codec (take 2 sample_journal)" by (simp_all add: sample_writer_def)
  ultimately show thesis using that [of "take 3 (bytes @ [newline])"] b by (simp add: append_record_def Let_def)
qed

definition torn_store :: message_store where
  "torn_store = snd (serve sample_extern sample_codec (WriteFailed 3) 13 (sample_store 2) sample_request)"

lemma torn_store_fields:
  "lw_write_state_unknown (ms_writer torn_store)" "ms_projection torn_store = sample_run 2"
proof -
  obtain pm where pm: "prepare_line sample_extern (sample_run 2) (sample_journal ! 2) = Inr pm"
    using sample_request_prepared by blast
  obtain piece where app: "append_record sample_codec (WriteFailed 3) 13 (sample_writer 2) (sample_journal ! 2) =
    (Inl LedgerIo, (sample_writer 2)\<lparr> lw_file := journal_bytes sample_codec (take 2 sample_journal) @ piece,
       lw_write_state_unknown := True \<rparr>)" by (rule sample_torn_append)
  have s: "ms_writer (sample_store 2) = sample_writer 2" "ms_projection (sample_store 2) = sample_run 2"
    "ms_fail_notification_recovery_append (sample_store 2) = None"
    by (simp_all add: sample_store_def)
  have f: "tf_message_id (sample_fact Gating) = ''m-1''" "tf_recipient (sample_fact Gating) = sample_agent"
    by (simp_all add: sample_fact_def)
  show "lw_write_state_unknown (ms_writer torn_store)" "ms_projection torn_store = sample_run 2"
    unfolding torn_store_def sample_request_def serve.simps append_notification_transition_full_at_def
      append_notification_fact_at_def f sample_request_row Let_def s
    using pm app by (simp_all add: outcome_def after_def persist_def injected_failure_def s)
qed

lemma torn_reachable: "store_reachable sample_extern sample_codec 1 torn_store"
proof -
  have two: "(2::nat) \<le> 10" by simp
  show ?thesis unfolding torn_store_def by (rule store_reachable.served [OF sample_reachable [OF two] prod.collapse [symmetric]])
qed

section \<open>The journal file\<close>

text \<open>A journal of records the daemon can store reads back as it was written, by the strict reader and
  by the tolerant one, from any cursor; and opening it finds the same lines and the next number.\<close>

theorem journal_round_trip:
  assumes "codec_laws C" and "journal_ok C lines"
  shows "read_bytes C strict cursor (journal_bytes C lines) = Inr (filter (\<lambda>l. ln_seq l > cursor) lines) \<and>
    (\<exists>w. open_with_replay C True True (journal_bytes C lines) boot True = Inr (w, lines) \<and>
      lw_next_seq w = Suc (length lines) \<and> lw_file w = journal_bytes C lines)"
  using read_journal [OF assms] open_strict_journal [OF assms, of "[]" boot] by auto

theorem journal_round_trip_witness:
  "read_bytes sample_codec True 4 (journal_bytes sample_codec sample_journal) = Inr (drop 4 sample_journal) \<and>
   (\<exists>w. open_with_replay sample_codec True True (journal_bytes sample_codec sample_journal) ''b'' True = Inr (w, sample_journal) \<and>
      lw_next_seq w = 11 \<and> lw_file w = journal_bytes sample_codec sample_journal)"
proof -
  have ok: "journal_ok sample_codec sample_journal" using sample_journal_ok [of 10] sample_length by simp
  have "filter (\<lambda>l. ln_seq l > 4) sample_journal = drop 4 sample_journal"
    by (simp add: sample_journal_def sample_message_def sample_transition_def sample_state_line_def sample_claim_def sample_row_def)
  then show ?thesis
    using journal_round_trip [OF sample_codec_laws ok, of True 4 "''b''"] sample_length by simp
qed

text \<open>Acknowledged records survive a crash: whatever appends succeed or fail, a file that was cut
  anywhere behind the acknowledged records opens again with exactly these records, and at most the
  one whose write was interrupted.\<close>

theorem acknowledged_records_survive:
  assumes "codec_laws C" and "writer_holds C w lines" and "\<forall>r\<in>set requests. storable (snd r)"
    and "append_all (\<lambda>(io, now). append_record C io now) w requests = (acks, w')"
    and "crash_image C w' (lines @ acks) bytes"
  shows "\<exists>w'' found. open_with_replay C True True bytes boot True = Inr (w'', found) \<and> writer_holds C w'' found \<and>
    (found = lines @ acks \<or> (\<exists>line. found = lines @ acks @ [line]))"
  using ledger.acknowledged_survive [of C w lines requests acks w' bytes boot] assms by auto

theorem acknowledged_records_survive_witness:
  "\<exists>w'' found. open_with_replay sample_codec True True (journal_bytes sample_codec (take 2 sample_journal)) ''b'' True =
     Inr (w'', found) \<and> writer_holds sample_codec w'' found \<and>
     (found = take 2 sample_journal \<or> (\<exists>line. found = take 2 sample_journal @ [line]))"
proof -
  have holds: "writer_holds sample_codec (sample_writer 2) (take 2 sample_journal)"
    using store_okD(2) [OF sample_store_ok [of 2]] by (simp add: sample_store_def)
  obtain piece where app: "append_record sample_codec (WriteFailed 3) 13 (sample_writer 2) (sample_journal ! 2) =
    (Inl LedgerIo, (sample_writer 2)\<lparr> lw_file := journal_bytes sample_codec (take 2 sample_journal) @ piece,
       lw_write_state_unknown := True \<rparr>)" (is "_ = (_, ?w)") by (rule sample_torn_append)
  have image: "crash_image sample_codec ?w (take 2 sample_journal @ []) (journal_bytes sample_codec (take 2 sample_journal))"
    by (auto simp: crash_image_def)
  have acks: "append_all (\<lambda>(io, now). append_record sample_codec io now) (sample_writer 2)
      [((WriteFailed 3, 13), sample_journal ! 2)] = ([], ?w)"
    using app by simp
  have st: "\<forall>r\<in>set [((WriteFailed 3, 13), sample_journal ! 2)]. storable (snd r)"
    using sample_storable sample_length by simp
  show ?thesis using acknowledged_records_survive [OF sample_codec_laws holds st acks image, of "''b''"] by simp
qed

section \<open>The store and its journal\<close>

text \<open>C1. The store is its journal: in every state a daemon can reach by opening a journal, serving requests
  with any failures of the file system, and crashing, the projection is the replay of the lines whose
  bytes are durable.\<close>

theorem store_is_replayed_journal:
  assumes "codec_laws C" and "store_reachable X C ws s"
  shows "\<exists>lines. durable_bytes (ms_writer s) = journal_bytes C lines \<and> journal_ok C lines \<and>
    replay X (mailbox_projection_new ws) lines = Inr (ms_projection s)"
proof -
  obtain lines where ok: "store_ok X C ws s lines" using reachable_store_ok [OF assms] by blast
  note d = store_okD [OF ok]
  have "journal_ok C lines" using d(2) by (simp add: writer_holds_def)
  then show ?thesis using durable_bytes_journal [OF d(1,2)] d(3) by blast
qed

theorem store_is_replayed_journal_witness:
  "\<exists>lines. durable_bytes (ms_writer torn_store) = journal_bytes sample_codec lines \<and> journal_ok sample_codec lines \<and>
    replay sample_extern (mailbox_projection_new 1) lines = Inr (sample_run 2)"
  using store_is_replayed_journal [OF sample_codec_laws torn_reachable] torn_store_fields(2) by simp

text \<open>C21. No request makes the store panic: the lookups behind every \<open>expect\<close> of the store and of the
  commit are found, in every reachable state and whatever the file system answers.\<close>

theorem store_never_panics:
  assumes "codec_laws C" and "store_reachable X C ws s" and "serve X C io now s request = (e, s')"
  shows "e \<noteq> Some StorePanic"
proof -
  obtain lines where "store_ok X C ws s lines" using reachable_store_ok [OF assms(1,2)] by blast
  from serve_keeps [OF this assms(3)] show ?thesis by simp
qed

theorem store_never_panics_witness:
  "fst (serve sample_extern sample_codec Synced 13 (sample_store 2) sample_request) \<noteq> Some StorePanic"
  using store_never_panics [OF sample_codec_laws sample_reachable [of 2]] by (simp add: prod_eq_iff)

text \<open>C2. A crash loses nothing that was acknowledged: whatever is cut off behind the durable bytes, the
  store opens again, with the projection it had, or with one more line that the old projection
  accepts, which can only be the line of a write that had failed.\<close>

theorem crash_recovers_store:
  assumes "codec_laws C" and "store_reachable X C ws s" and "length (durable_bytes (ms_writer s)) \<le> j"
  shows "\<exists>s'. store_open X C True True (take j (lw_file (ms_writer s))) ws boot = Inr s' \<and>
    (ms_projection s' = ms_projection s \<or>
     lw_write_state_unknown (ms_writer s) \<and>
     (\<exists>line. apply_owned X (ms_projection s) line = Inr (ms_projection s')))"
proof -
  obtain lines where ok: "store_ok X C ws s lines" using reachable_store_ok [OF assms(1,2)] by blast
  from ok assms(3) show ?thesis by (cases rule: store_crash [where boot = boot]) blast+
qed

theorem crash_recovers_store_witness:
  "\<exists>s'. store_open sample_extern sample_codec True True (lw_file (ms_writer torn_store)) 1 ''b'' = Inr s' \<and>
    (ms_projection s' = sample_run 2 \<or>
     lw_write_state_unknown (ms_writer torn_store) \<and>
     (\<exists>line. apply_owned sample_extern (sample_run 2) line = Inr (ms_projection s')))"
  using crash_recovers_store [OF sample_codec_laws torn_reachable,
      of "length (durable_bytes (ms_writer torn_store)) + length (lw_file (ms_writer torn_store))" "''b''"]
    torn_store_fields(2) by simp

text \<open>C23. After a write whose outcome is unknown, and after sealing, the store refuses to write: no request
  changes the file or the projection until the file is opened again.\<close>

theorem failed_write_stops_store:
  assumes "lw_write_state_unknown (ms_writer s) \<or> lw_sealed (ms_writer s)" and "serve X C io now s request = (e, s')"
  shows "lw_file (ms_writer s') = lw_file (ms_writer s) \<and> ms_projection s' = ms_projection s \<and>
    lw_write_state_unknown (ms_writer s') = lw_write_state_unknown (ms_writer s)"
  using serve_stopped [of s X C io now request e s'] assms by (simp add: stopped_def untouched_def)

theorem failed_write_stops_store_witness:
  "ms_projection (snd (serve sample_extern sample_codec Synced 13 torn_store sample_request)) = sample_run 2"
  using failed_write_stops_store [of torn_store sample_extern sample_codec Synced 13 sample_request] torn_store_fields
  by (metis prod.collapse)

section \<open>Answers\<close>

text \<open>Sending is idempotent: a request with a client key that was accepted is answered again with the
  same message id, thread and recipients, under whatever new id and time it is retried, and the
  retry changes nothing.\<close>

theorem accept_retry:
  assumes "codec_laws C" and "store_reachable X C ws s" and "dr_client_key draft = Some key"
    and "accept_at X C io now s m draft ts = (Inr r, s')" and "ac_inserted r"
  shows "accept_at X C io2 now2 s' m2 draft ts2 = (Inr (r\<lparr> ac_inserted := False \<rparr>), s')"
proof -
  obtain lines where ok: "store_ok X C ws s lines" using reachable_store_ok [OF assms(1,2)] by blast
  show ?thesis
    using accept_then_retry [OF ok assms(4) [unfolded accept_at_def] assms(5)] assms(3)
    by (simp add: accept_at_def canonical_of_draft_def)
qed

definition sample_message_draft :: message_draft where
  "sample_message_draft =
     \<lparr> dr_kind = Msg, dr_sender = sample_admin, dr_recipients = [sample_agent], dr_subject = Some ''s'',
       dr_summary = None, dr_body = Some ''hello'', dr_client_key = Some ''k'', dr_supersedes = None,
       dr_presentation = sample_presentation, dr_raw = False, dr_broadcast = False \<rparr>"

lemma sample_draft_inserted:
  obtains r s' where "accept_at sample_extern sample_codec Synced 10 (sample_store 0) ''m-1'' sample_message_draft 10 = (Inr r, s')"
    "ac_inserted r"
proof -
  have p0: "ms_projection (sample_store 0) = mailbox_projection_new 1"
    using sample_states(2) [of 0] by (simp add: sample_store_def)
  let ?d = "canonical_of_draft sample_message_draft"
  have chk: "check_acceptance sample_extern (mailbox_projection_new 1) ?d = Inr (NewMessage sample_digest)"
    "draft_thread_root (mailbox_projection_new 1) ''m-1'' ?d = Inr ''m-1''"
    "presentation_labels sample_extern (cd_recipients ?d) (cd_presentation ?d) = Inr (''admin'', [''a''])"
    by code_simp+
  have line: "draft_line (sample_store 0) ''m-1'' ?d (time_or_now 10 10) [''a'']
      (draft_metadata (mailbox_projection_new 1) ?d ''m-1'' sample_digest) = sample_journal ! 0"
    by (simp add: draft_line_def draft_metadata_def canonical_of_draft_def sample_message_draft_def sample_store_def
        sample_writer_def sample_journal_def sample_message_def sample_metadata_def sample_presentation_def
        time_or_now_def mailbox_projection_new_def canonical_record_version_def)
  obtain pm where "prepare_line sample_extern (sample_run 0) (sample_journal ! 0) = Inr pm"
    using sample_step [of 0] by (auto simp: apply_owned_def apply_inner_Inr_iff prepare_line_def)
  then have prep: "prepare_line sample_extern (ms_projection (sample_store 0)) (sample_journal ! 0) = Inr pm"
    by (simp add: sample_store_def)
  have ready: "store_ready sample_extern sample_codec 1 (sample_store 0) (take 0 sample_journal) (Suc 0)"
    using sample_store_ok [of 0] sample_codec_total
    by (simp add: store_ready_def) (simp add: sample_store_def sample_writer_def u64_max_def)
  have fresh: "fresh_line (sample_store 0) (sample_journal ! 0)" unfolding line [symmetric] by simp
  obtain s' where "persist sample_extern sample_codec Synced 10 (sample_store 0) (sample_journal ! 0) = (Inr (), s')"
    by (rule persist_ready [OF ready fresh prep])
  then show thesis
    using that chk p0 line by (simp add: accept_at_def accept_canonical_at_def after_def)
qed

theorem accept_retry_witness:
  "\<exists>r s'. accept_at sample_extern sample_codec Synced 10 (sample_store 0) ''m-1'' sample_message_draft 10 = (Inr r, s') \<and>
     accept_at sample_extern sample_codec SyncFailed 20 s' ''m-9'' sample_message_draft 20 = (Inr (r\<lparr> ac_inserted := False \<rparr>), s')"
proof -
  obtain r s' where a: "accept_at sample_extern sample_codec Synced 10 (sample_store 0) ''m-1'' sample_message_draft 10 = (Inr r, s')"
    "ac_inserted r" by (rule sample_draft_inserted)
  have zero: "(0::nat) \<le> 10" and key: "dr_client_key sample_message_draft = Some ''k''" by (simp_all add: sample_message_draft_def)
  show ?thesis using a accept_retry [OF sample_codec_laws sample_reachable [OF zero] key a] by blast
qed

text \<open>A claim is recorded once: after a successful claim the entry is claimed by that recipient, and
  claiming again answers with the same entry and message and leaves the store as it is.\<close>

theorem claim_recorded_once:
  assumes "codec_laws C" and "store_reachable X C ws s"
    and "claim_at X C io now s claimant m ts = (Inr (ClaimedNow e message skipped withdrawn consumed), s')"
  shows "get_entry (ms_projection s') claimant m = Some e \<and> (\<exists>t. me_state e = Claimed claimant t) \<and>
    (\<exists>consumed'. claim_at X C io2 now2 s' claimant m ts2 = (Inr (ClaimedBefore e message None consumed'), s'))"
proof -
  obtain lines where ok: "store_ok X C ws s lines" using reachable_store_ok [OF assms(1,2)] by blast
  show ?thesis using claim_then_repeat [OF ok assms(3)] by blast
qed

lemma sample_claim_now:
  obtains e message skipped withdrawn consumed s' where
    "claim_at sample_extern sample_codec Synced 16 (sample_store 5) sample_agent ''m-1'' 16 =
       (Inr (ClaimedNow e message skipped withdrawn consumed), s')"
proof -
  let ?s = "sample_store 5"
  have s: "ms_projection ?s = sample_run 5" by (simp add: sample_store_def)
  obtain e where e: "get_entry (sample_run 5) sample_agent ''m-1'' = Some e" "me_state e = Pending" using sample_entry(2) by blast
  have inv: "projection_inv (sample_run 5)" "projection_inv (sample_run 1)" by (simp_all add: sample_inv)
  have "entries_ok (sample_run 5)" using inv by (simp add: projection_inv_def mailbox_inv_def)
  then have rec: "me_recipient e = sample_agent" using e(1) by (auto simp: entries_ok_def get_entry_def bind_eq_Some_conv)
  have "replay sample_extern (sample_run 1) (drop 1 (take 5 sample_journal)) = Inr (sample_run 5)"
    using sample_states(2) [of 5] sample_states(2) [of 1] replay_append [of sample_extern "mailbox_projection_new 1" "take 1 sample_journal" "drop 1 (take 5 sample_journal)"]
    by (simp add: sample_journal_def)
  then have line: "get_message (sample_run 5) ''m-1'' = Some sample_message"
    using stored_message_replay [OF inv(2)] sample_stored by (simp add: get_message_def)
  have "message_id_new ''m-1'' = Inr ''m-1''" by code_simp
  then obtain msg where msg: "inbox_message sample_message sample_agent = Inr msg"
    by (simp add: inbox_message_def sample_message_def extract_message_metadata_def metadata_value_def
        of_type_result_def line_reply_to_def result_simps)
  let ?f = "\<lparr> cf_record_version = canonical_record_version, cf_message_id = ''m-1'', cf_recipient = sample_agent, cf_claimant = sample_agent \<rparr>"
  have row: "state_row ?s ''m-1'' (time_or_now 16 16) (key_to_string sample_extern sample_agent) []
      (mailbox_fact_value (MessageClaimed ?f)) = sample_journal ! 5"
    by (simp add: state_row_def sample_store_def sample_writer_def sample_journal_def sample_claim_def sample_state_line_def
        time_or_now_def canonical_record_version_def)
  obtain pm where "prepare_line sample_extern (sample_run 5) (sample_journal ! 5) = Inr pm"
    using sample_step [of 5] by (auto simp: apply_owned_def apply_inner_Inr_iff prepare_line_def)
  then have prep: "prepare_line sample_extern (ms_projection ?s) (sample_journal ! 5) = Inr pm" by (simp add: s)
  have ready: "store_ready sample_extern sample_codec 1 ?s (take 5 sample_journal) (Suc 0)"
    using sample_store_ok [of 5] sample_codec_total sample_length
    by (simp add: store_ready_def) (simp add: sample_store_def sample_writer_def u64_max_def)
  have fresh: "fresh_line ?s (sample_journal ! 5)" unfolding row [symmetric] by simp
  obtain s' where p: "persist sample_extern sample_codec Synced 16 ?s (sample_journal ! 5) = (Inr (), s')"
    "commit_line (ms_projection ?s) (sample_journal ! 5) pm = Some (ms_projection s')"
    by (rule persist_ready [OF ready fresh prep])
  have "apply_owned sample_extern (sample_run 5) (sample_journal ! 5) = Inr (ms_projection s')"
    using apply_owned_commit [OF prep p(2)] by (simp add: s)
  then obtain u where "get_entry (ms_projection s') sample_agent ''m-1'' = Some u"
    using entry_persists [OF inv(1)] e(1) by (metis not_None_eq)
  then show thesis
    using that p(1) e rec line msg row by (simp add: claim_at_def s after_def expected_def Let_def)
qed

theorem claim_recorded_once_witness:
  "\<exists>e message s' consumed t. get_entry (ms_projection s') sample_agent ''m-1'' = Some e \<and> me_state e = Claimed sample_agent t \<and>
     claim_at sample_extern sample_codec (WriteFailed 0) 17 s' sample_agent ''m-1'' 17 = (Inr (ClaimedBefore e message None consumed), s')"
proof -
  obtain e message skipped withdrawn consumed s' where c:
    "claim_at sample_extern sample_codec Synced 16 (sample_store 5) sample_agent ''m-1'' 16 =
       (Inr (ClaimedNow e message skipped withdrawn consumed), s')" by (rule sample_claim_now)
  have five: "(5::nat) \<le> 10" by simp
  show ?thesis using claim_recorded_once [OF sample_codec_laws sample_reachable [OF five] c] by blast
qed

text \<open>C25. Minting ends with a free id: from draws that give distinct candidates, one more than there are
  messages, an id is returned, it is one of the candidates, and no stored message has it.\<close>

theorem mint_ends_with_free_id:
  assumes "distinct (map (mint_candidate X root) draws)" and "length (messages p) < length draws"
  shows "\<exists>m. mint_message_id X p root draws = Some m \<and> get_message p m = None \<and> m \<in> mint_candidate X root ` set draws"
proof -
  obtain m where "mint_message_id X p root draws = Some m" using mint_ends [OF assms] by blast
  then show ?thesis using mint_Some [of X p root draws m] by simp
qed

theorem mint_ends_with_free_id_witness:
  "\<exists>m. mint_message_id sample_extern (mailbox_projection_new 1) None [''0123456789abcdef''] = Some m \<and>
     get_message (mailbox_projection_new 1) m = None"
proof -
  have none: "messages (mailbox_projection_new 1) = []" by (simp add: mailbox_projection_new_def)
  have d: "distinct (map (mint_candidate sample_extern None) [''0123456789abcdef''])" by simp
  have l: "length (messages (mailbox_projection_new 1)) < length [''0123456789abcdef'']" by (simp only: none list.size)
  show ?thesis using mint_ends_with_free_id [OF d l] by blast
qed

text \<open>C22. A body is shown to its sender, and to a recipient whose entry is claimed or was delivered
  directly; a pending or replaced message shows its body to nobody but the sender.\<close>

theorem body_shown_to_claimant:
  assumes "codec_laws C" and "store_reachable X C ws s" and "get_message (ms_projection s) m = Some line"
    and "extract_message_metadata line = Inr md"
  shows "projection_allows_message_body (ms_projection s) reader line \<longleftrightarrow>
    md_sender md = reader \<or>
    (\<exists>e. get_entry (ms_projection s) reader m = Some e \<and>
       (is_claimed (me_state e) \<or> (\<exists>a t. me_state e = DeliveredDirect a t)))"
proof -
  obtain lines where ok: "store_ok X C ws s lines" using reachable_store_ok [OF assms(1,2)] by blast
  show ?thesis
    by (rule body_shown_iff [OF store_okD(4) [OF ok] valid_ids_replay [OF store_okD(3) [OF ok]] assms(3,4)])
qed

theorem body_shown_to_claimant_witness:
  "\<not> projection_allows_message_body (sample_run 1) sample_agent sample_message \<and>
   projection_allows_message_body (sample_run 1) sample_admin sample_message"
proof -
  have one: "(1::nat) \<le> 10" by simp
  have md: "extract_message_metadata sample_message = Inr sample_metadata"
    by (simp add: extract_message_metadata_def sample_message_def metadata_value_def)
  have p: "ms_projection (sample_store 1) = sample_run 1" by (simp add: sample_store_def)
  have line: "get_message (ms_projection (sample_store 1)) ''m-1'' = Some sample_message" using sample_stored p by simp
  obtain e where "get_entry (sample_run 1) sample_agent ''m-1'' = Some e" "me_state e = Pending" using sample_entry(1) by blast
  then show ?thesis
    using body_shown_to_claimant [OF sample_codec_laws sample_reachable [OF one] line md] p
    by (simp add: sample_metadata_def sample_admin_def sample_agent_def key_admin_def key_agent_def is_claimed_def)
qed

text \<open>C20. Recovery after a restart ends every attempt in flight: when the file can be written and numbers
  are left, each attempt between the first write and its confirmation gets one line, and none is
  left in such a state.\<close>

theorem recovery_settles:
  assumes "codec_laws C" and "codec_total C" and "store_reachable X C ws s"
    and "\<not> lw_write_state_unknown (ms_writer s)" and "\<not> lw_sealed (ms_writer s)"
    and "ms_fail_notification_recovery_append s = None" and "\<forall>env\<in>set envs. fst env = Synced"
    and "lw_next_seq (ms_writer s) +
      length (filter unresolved_after_restart (hm_values (notifications (ms_projection s)))) \<le> u64_max"
  shows "\<exists>recs s'. recover_notifications_after_restart X C envs s = (Inr recs, s') \<and>
    length recs = length (filter unresolved_after_restart (hm_values (notifications (ms_projection s)))) \<and>
    lw_next_seq (ms_writer s') = lw_next_seq (ms_writer s) + length recs \<and>
    filter unresolved_after_restart (hm_values (notifications (ms_projection s'))) = []"
proof -
  obtain lines where ok: "store_ok X C ws s lines" using reachable_store_ok [OF assms(1,3)] by blast
  let ?n = "length (filter unresolved_after_restart (hm_values (notifications (ms_projection s))))"
  have "store_ready X C ws s lines ?n" using ok assms store_okD(5) [OF ok] by (simp add: store_ready_def)
  from recovery_settles_all [OF this assms(7)] obtain recs s' new where
    r: "recover_notifications_after_restart X C envs s = (Inr recs, s')" "store_ready X C ws s' (lines @ new) 0"
      "length new = length recs" "length recs = ?n"
      "filter unresolved_after_restart (hm_values (notifications (ms_projection s'))) = []" by blast
  have "lw_next_seq (ms_writer s') = Suc (length (lines @ new))"
    using r(2) store_okD(5) by (auto simp: store_ready_def)
  then show ?thesis using r store_okD(5) [OF ok] by simp
qed

lemma sample_in_flight: "length (filter unresolved_after_restart (hm_values (notifications (sample_run 4)))) = 1"
proof -
  obtain c where c: "hm_get (notifications (sample_run 4)) (sample_agent, ''m-1'') = Some c" "nr_state c = Writing"
    using sample_attempt(2) by blast
  have "length (notifications (sample_run 4)) = 1"
    using sample_states(3) [of 4] by (simp add: sample_view_def sample_trace_journal)
  then obtain kv where kv: "notifications (sample_run 4) = [kv]" by (auto simp: length_Suc_conv)
  then have "snd kv = c" using hm_get_Some_in [OF c(1)] by auto
  then show ?thesis using kv c(2) by (simp add: hm_values_def unresolved_after_restart_def)
qed

theorem recovery_settles_witness:
  "\<exists>recs s'. recover_notifications_after_restart sample_extern sample_codec [] (sample_store 4) = (Inr recs, s') \<and>
     length recs = 1 \<and> lw_next_seq (ms_writer s') = 6 \<and>
     filter unresolved_after_restart (hm_values (notifications (ms_projection s'))) = []"
proof -
  have four: "(4::nat) \<le> 10" by simp
  have w: "\<not> lw_write_state_unknown (ms_writer (sample_store 4))" "\<not> lw_sealed (ms_writer (sample_store 4))"
    "ms_fail_notification_recovery_append (sample_store 4) = None" "lw_next_seq (ms_writer (sample_store 4)) = 5"
    "ms_projection (sample_store 4) = sample_run 4"
    by (simp_all add: sample_store_def sample_writer_def)
  have io: "\<forall>env\<in>set []. fst env = Synced" by simp
  have room: "lw_next_seq (ms_writer (sample_store 4)) +
      length (filter unresolved_after_restart (hm_values (notifications (ms_projection (sample_store 4))))) \<le> u64_max"
    by (simp add: w(4,5) sample_in_flight u64_max_def)
  show ?thesis
    using recovery_settles [OF sample_codec_laws sample_codec_total sample_reachable [OF four] w(1-3) io room]
    unfolding w(4,5) sample_in_flight by fastforce
qed

end
