(* ===== verification/Service.thy ===== *)
theory Service
  imports Store_Answers Mailbox_Views Doorbell
begin

text \<open>
  The mailbox service of \<open>cyclopsd/src/mailbox/service.rs\<close>: the recipient directory and the
  message store of one workspace behind their locks, and the publisher of change events.

  Each operation runs under the store lock, so it is one step from a service to the next. A
  panic inside the lock poisons it. The directory lock is never poisoned: its only writer
  replaces the value. Fresh attempt ids, the draws of the id minting and the unlock result are
  arguments; an \<open>option\<close> around an answer is \<open>None\<close> when every drawn message id was taken.
\<close>

section \<open>Data\<close>

datatype messages_changed_area = Messages | Mailboxes | Notifications | Attention

record messages_changed_data =
  mc_workspace_id :: Identity.workspace_id
  mc_workspace_seq :: nat
  mc_changed :: "messages_changed_area set"

record change_event =
  ev_event :: string
  ev_data :: messages_changed_data
  ev_seq :: "nat option"

text \<open>\<open>pub_events\<close> lists what was sent on the broadcast channel, oldest first.\<close>

record message_change_publisher =
  pub_workspace_id :: Identity.workspace_id
  pub_events :: "change_event list"

record mailbox_service =
  sv_workspace_id :: Identity.workspace_id
  sv_directory :: mailbox_directory
  sv_store :: message_store
  sv_changes :: "message_change_publisher option"
  sv_poisoned :: bool

datatype service_error =
    DirectoryError mailbox_directory_error
  | StoreError store_error
  | Poisoned
  | ForeignDirectory
  | NotificationSchedule string
  | OperatorRequired
  | ServicePanic

record mailbox_send =
  sd_addresses :: "string list"
  sd_recipient_keys :: "recipient_key list option"
  sd_subject :: string
  sd_summary :: "string option"
  sd_body :: string
  sd_fyi :: bool
  sd_client_key :: "string option"
  sd_supersedes :: "message_id option"
  sd_raw :: bool

record message_disposition =
  dp_recipient :: recipient_key
  dp_label :: string
  dp_attempt_id :: "attempt_id option"
  dp_transport :: "notification_transport option"
  dp_notification_state_raw :: "notification_state option"
  dp_notification_state :: message_notification_state
  dp_quota_state :: "message_quota_state option"
  dp_notification_settlement :: "message_settlement option"
  dp_pre_write_cause :: "pre_write_cause option"
  dp_wake_block :: "message_wake_block option"
  dp_position_ahead :: "nat option"

record notification_schedule_block_data =
  nb_message_id :: message_id
  nb_attempt_id :: attempt_id
  nb_block :: message_wake_block

record active_composer_notification =
  an_record :: notification_record
  an_message :: "ledger_line option"
  an_entry_state :: "mailbox_entry_state option"

type_synonym 'a service_answer = "(service_error, 'a) result \<times> mailbox_service"

section \<open>Publishing and the locks\<close>

definition publish :: "message_change_publisher \<Rightarrow> nat \<Rightarrow> messages_changed_area set \<Rightarrow> message_change_publisher" where
  "publish pub seq changed =
     pub\<lparr> pub_events := pub_events pub @
       [\<lparr> ev_event = ''messages.changed'',
          ev_data = \<lparr> mc_workspace_id = pub_workspace_id pub, mc_workspace_seq = seq, mc_changed = changed \<rparr>,
          ev_seq = Some seq \<rparr>] \<rparr>"

definition publish_change :: "mailbox_service \<Rightarrow> nat \<Rightarrow> messages_changed_area set \<Rightarrow> mailbox_service" where
  "publish_change sv seq changed =
     (case sv_changes sv of None \<Rightarrow> sv | Some pub \<Rightarrow> sv\<lparr> sv_changes := Some (publish pub seq changed) \<rparr>)"

definition service_new_inner ::
  "mailbox_directory \<Rightarrow> message_store \<Rightarrow> message_change_publisher option \<Rightarrow> mailbox_service" where
  "service_new_inner dir s changes =
     \<lparr> sv_workspace_id = dir_workspace_id dir, sv_directory = dir, sv_store = s, sv_changes = changes, sv_poisoned = False \<rparr>"

definition service_new :: "mailbox_directory \<Rightarrow> message_store \<Rightarrow> mailbox_service" where
  "service_new dir s = service_new_inner dir s None"

definition service_new_with_events :: "mailbox_directory \<Rightarrow> message_store \<Rightarrow> mailbox_service" where
  "service_new_with_events dir s =
     service_new_inner dir s (Some \<lparr> pub_workspace_id = workspace_id (ms_projection s), pub_events = [] \<rparr>)"

text \<open>\<open>self.store()?\<close> before a read of the projection, and before an operation of the store.\<close>

definition read_store :: "mailbox_service \<Rightarrow> (mailbox_projection \<Rightarrow> (service_error, 'a) result) \<Rightarrow> (service_error, 'a) result" where
  "read_store sv f = (if sv_poisoned sv then Inl Poisoned else f (ms_projection (sv_store sv)))"

definition with_store :: "mailbox_service \<Rightarrow> (message_store \<Rightarrow> 'a service_answer) \<Rightarrow> 'a service_answer" where
  "with_store sv f = (if sv_poisoned sv then (Inl Poisoned, sv) else f (sv_store sv))"

text \<open>The \<open>?\<close> on a store operation; a panic leaves the lock poisoned.\<close>

definition store_call ::
  "mailbox_service \<Rightarrow> 'a store_answer \<Rightarrow> ('a \<Rightarrow> mailbox_service \<Rightarrow> 'b service_answer) \<Rightarrow> 'b service_answer" where
  "store_call sv answer k =
     (case answer of
        (Inl e, s) \<Rightarrow> (Inl (StoreError e), sv\<lparr> sv_store := s, sv_poisoned := (e = StorePanic) \<rparr>)
      | (Inr x, s) \<Rightarrow> k x (sv\<lparr> sv_store := s \<rparr>))"

definition of_mailbox :: "(mailbox_error, 'a) result \<Rightarrow> (service_error, 'a) result" where
  "of_mailbox r = map_sum (\<lambda>e. StoreError (StoreMailbox e)) id r"

section \<open>The directory\<close>

definition service_admin :: "mailbox_service \<Rightarrow> mailbox_identity" where
  "service_admin sv = \<lparr> id_key = key_admin (sv_workspace_id sv), id_label = ''admin'' \<rparr>"

definition service_agent_for_pane :: "mailbox_service \<Rightarrow> nat \<Rightarrow> mailbox_identity option" where
  "service_agent_for_pane sv pane = agent_for_pane (sv_directory sv) pane"

definition service_identity_for_recipient :: "mailbox_service \<Rightarrow> recipient_key \<Rightarrow> mailbox_identity option" where
  "service_identity_for_recipient sv r = identity_for_recipient (sv_directory sv) r"

definition identity_for_address :: "mailbox_service \<Rightarrow> string \<Rightarrow> (service_error, mailbox_identity) result" where
  "identity_for_address sv address =
     (if address = ''*'' then Inl (DirectoryError (UnknownRecipient address))
      else case resolve (sv_directory sv) [address] of
        Inl e \<Rightarrow> Inl (DirectoryError e)
      | Inr [] \<Rightarrow> Inl ServicePanic
      | Inr (identity # _) \<Rightarrow> Inr identity)"

definition service_routes :: "mailbox_service \<Rightarrow> mailbox_identity list" where
  "service_routes sv = Directory.routes (sv_directory sv)"

definition replace_directory :: "mailbox_service \<Rightarrow> mailbox_directory \<Rightarrow> unit service_answer" where
  "replace_directory sv dir =
     (if dir_workspace_id dir \<noteq> sv_workspace_id sv then (Inl ForeignDirectory, sv)
      else (Inr (), sv\<lparr> sv_directory := dir \<rparr>))"

section \<open>Sending and replying\<close>

definition send_recipients ::
  "extern \<Rightarrow> mailbox_directory \<Rightarrow> mailbox_send \<Rightarrow> (mailbox_directory_error, mailbox_identity list) result" where
  "send_recipients X dir request =
     (case sd_recipient_keys request of
        Some keys \<Rightarrow>
          if sd_addresses request \<noteq> [] then Inl MixedRecipientSelectors else resolve_recipient_keys X dir keys
      | None \<Rightarrow> resolve dir (sd_addresses request))"

definition unless_empty :: "string \<Rightarrow> string option" where
  "unless_empty s = (if s = [] then None else Some s)"

definition send_draft :: "mailbox_identity \<Rightarrow> mailbox_send \<Rightarrow> mailbox_identity list \<Rightarrow> message_draft" where
  "send_draft sender request recipients =
     \<lparr> dr_kind = (if sd_fyi request then Fyi else Msg), dr_sender = id_key sender, dr_recipients = map id_key recipients,
       dr_subject = Some (sd_subject request), dr_summary = sd_summary request, dr_body = unless_empty (sd_body request),
       dr_client_key = sd_client_key request, dr_supersedes = sd_supersedes request,
       dr_presentation = \<lparr> sender_label = id_label sender,
         recipient_labels = map (\<lambda>i. \<lparr> rp_recipient = id_key i, rp_label = id_label i \<rparr>) recipients \<rparr>,
       dr_raw = sd_raw request,
       dr_broadcast = (sd_recipient_keys request = None \<and> sd_addresses request = [''*'']) \<rparr>"

text \<open>Whether the superseded message has a notification, looked up at the first recipient.\<close>

definition withdraws_notification :: "mailbox_projection \<Rightarrow> message_draft \<Rightarrow> bool" where
  "withdraws_notification p draft =
     is_some_and (dr_supersedes draft) (\<lambda>m.
       case dr_recipients draft of [] \<Rightarrow> False | r # _ \<Rightarrow> notification p r m \<noteq> None)"

definition accepted_areas :: "bool \<Rightarrow> messages_changed_area set" where
  "accepted_areas withdrew = (if withdrew then {Messages, Mailboxes, Notifications} else {Messages, Mailboxes})"

definition finish_accept :: "messages_changed_area set \<Rightarrow> accept_result \<Rightarrow> mailbox_service \<Rightarrow> accept_result service_answer" where
  "finish_accept areas accepted sv =
     (Inr accepted, if ac_inserted accepted then publish_change sv (ac_seq accepted) areas else sv)"

definition service_send ::
  "extern \<Rightarrow> line_codec \<Rightarrow> append_io \<Rightarrow> nat \<Rightarrow> string list \<Rightarrow> mailbox_service \<Rightarrow> mailbox_identity \<Rightarrow> mailbox_send \<Rightarrow>
   accept_result service_answer option" where
  "service_send X C io now draws sv sender request =
     (case send_recipients X (sv_directory sv) request of
        Inl e \<Rightarrow> Some (Inl (DirectoryError e), sv)
      | Inr recipients \<Rightarrow>
          let draft = send_draft sender request recipients; s = sv_store sv; p = ms_projection s in
          if sv_poisoned sv then Some (Inl Poisoned, sv)
          else
            (case supersession_thread_root p (dr_sender draft) (dr_recipients draft) (dr_supersedes draft) of
               Inl e \<Rightarrow> Some (Inl (StoreError (StoreMailbox e)), sv)
             | Inr root \<Rightarrow>
                 map_option (\<lambda>m. store_call sv (accept_at X C io now s m draft now)
                     (finish_accept (accepted_areas (withdraws_notification p draft))))
                   (mint_message_id X p root draws)))"

text \<open>A doorbell locator names the message of its attempt; any other reference names itself.\<close>

definition resolve_reference :: "mailbox_projection \<Rightarrow> message_id \<Rightarrow> (mailbox_error, message_id) result" where
  "resolve_reference p reference =
     (case parse_notification_attempt_claim_locator reference of
        Some a \<Rightarrow> rbind (ok_or (notification_by_attempt p a) (Settle (NotificationAttemptUnknown a))) (\<lambda>c. Inr (nr_message_id c))
      | None \<Rightarrow> Inr reference)"

definition reply_with_summary ::
  "extern \<Rightarrow> line_codec \<Rightarrow> append_io \<Rightarrow> nat \<Rightarrow> string list \<Rightarrow> mailbox_service \<Rightarrow> mailbox_identity \<Rightarrow> message_id \<Rightarrow>
   string option \<Rightarrow> string \<Rightarrow> string option \<Rightarrow> bool \<Rightarrow> accept_result service_answer option" where
  "reply_with_summary X C io now draws sv sender reference summary body client_key raw =
     (let s = sv_store sv; p = ms_projection s in
      if sv_poisoned sv then Some (Inl Poisoned, sv)
      else
        (case rbind (resolve_reference p reference) (\<lambda>reference.
              rbind (derive_reply p (id_key sender) reference) (\<lambda>derived. Inr (reference, derived))) of
           Inl e \<Rightarrow> Some (Inl (StoreError (StoreMailbox e)), sv)
         | Inr (reference, derived) \<Rightarrow>
             (case identity_for_recipient (sv_directory sv) (dv_recipient derived) of
                None \<Rightarrow> Some (Inl (DirectoryError (UnknownRecipient (key_to_string X (dv_recipient derived)))), sv)
              | Some destination \<Rightarrow>
                  map_option (\<lambda>m. store_call sv
                      (reply_at X C io now s m
                         \<lparr> rd_sender = id_key sender, rd_reference = reference, rd_summary = summary,
                           rd_body = unless_empty body, rd_client_key = client_key, rd_sender_label = id_label sender,
                           rd_recipient_label = id_label destination, rd_raw = raw \<rparr> now)
                      (finish_accept (accepted_areas False)))
                    (mint_message_id X p (Some (dv_thread_root derived)) draws))))"

section \<open>Reading mailboxes\<close>

definition service_list ::
  "extern \<Rightarrow> mailbox_service \<Rightarrow> recipient_key \<Rightarrow> recipient_key option \<Rightarrow> nat option \<Rightarrow> (service_error, mailbox_list_item list) result" where
  "service_list X sv r sender limit =
     read_store sv (\<lambda>p.
       rbind (of_mailbox (list_mailbox X p r)) (\<lambda>entries.
       let entries = (case sender of None \<Rightarrow> entries | Some k \<Rightarrow> filter (\<lambda>e. li_sender e = k) entries) in
       Inr (case limit of None \<Rightarrow> entries | Some n \<Rightarrow> take n entries)))"

definition service_pending_count :: "mailbox_service \<Rightarrow> recipient_key \<Rightarrow> (service_error, nat) result" where
  "service_pending_count sv r = read_store sv (\<lambda>p. Inr (pending_count p r))"

definition service_recipient_label :: "extern \<Rightarrow> mailbox_service \<Rightarrow> recipient_key \<Rightarrow> (service_error, string option) result" where
  "service_recipient_label X sv r = read_store sv (\<lambda>p. Inr (recipient_label X p r))"

definition pending_recipients :: "mailbox_service \<Rightarrow> (service_error, recipient_key list) result" where
  "pending_recipients sv =
     read_store sv (\<lambda>p. Inr (sort (map fst (filter (\<lambda>(r, entries).
       list_ex (\<lambda>e. is_pending (me_state e)) (bt_values entries) \<or> claimed_operator_notification p r \<noteq> None)
       (mailboxes p)))))"

definition first_actionable_pending_message_id :: "mailbox_projection \<Rightarrow> recipient_key \<Rightarrow> message_id option" where
  "first_actionable_pending_message_id p r =
     map_option me_message_id
       (find (\<lambda>e. \<not> notification_withdrawn_by_operator p r (me_message_id e)) (get_pending p r))"

definition actionable_notification :: "mailbox_projection \<Rightarrow> recipient_key \<Rightarrow> mailbox_entry \<Rightarrow> bool" where
  "actionable_notification p r e =
     (if is_pending (me_state e) then \<not> notification_withdrawn_by_operator p r (me_message_id e)
      else if \<not> is_claimed (me_state e) then False
      else is_some_and (notification p r (me_message_id e)) (\<lambda>c.
        nr_state c \<in> {Queued, Gating, Writing, Staged, Submitting, Submitted, SubmittedUnverified}))"

definition first_actionable_notification_message_id :: "mailbox_projection \<Rightarrow> recipient_key \<Rightarrow> message_id option" where
  "first_actionable_notification_message_id p r =
     Option.bind (hm_get (mailboxes p) r) (\<lambda>entries.
     map_option me_message_id (find (actionable_notification p r) (bt_values entries)))"

section \<open>Scheduling notifications\<close>

definition waiting :: "notification_record \<Rightarrow> notification_record option" where
  "waiting c = (if nr_state c \<in> {Queued, Gating} then Some c else None)"

definition prepare_oldest_notification ::
  "extern \<Rightarrow> line_codec \<Rightarrow> append_io \<Rightarrow> nat \<Rightarrow> attempt_id \<Rightarrow> mailbox_service \<Rightarrow> recipient_key \<Rightarrow>
   notification_record option service_answer" where
  "prepare_oldest_notification X C io now fresh sv r =
     (if is_admin r then (Inr None, sv)
      else with_store sv (\<lambda>s.
        let p = ms_projection s in
        case claimed_operator_notification p r of
          Some c \<Rightarrow> (Inr (waiting c), sv)
        | None \<Rightarrow>
            (case first_actionable_notification_message_id p r of
               None \<Rightarrow> (Inr None, sv)
             | Some m \<Rightarrow>
                 (case notification p r m of
                    None \<Rightarrow>
                      store_call sv (queue_notification X C io now s m r fresh) (\<lambda>c sv.
                        (Inr (Some c), publish_change sv (nr_updated_seq c) {Notifications}))
                  | Some c \<Rightarrow> (Inr (waiting c), sv)))))"

definition notification_schedule_block ::
  "mailbox_service \<Rightarrow> recipient_key \<Rightarrow> (service_error, notification_schedule_block_data option) result" where
  "notification_schedule_block sv r =
     (if is_admin r then Inr None
      else read_store sv (\<lambda>p. Inr (
        Option.bind (first_actionable_pending_message_id p r) (\<lambda>m.
        Option.bind (notification p r m) (\<lambda>c.
        map_option (\<lambda>b. \<lparr> nb_message_id = m, nb_attempt_id = nr_attempt_id c, nb_block = b \<rparr>)
          (notification_wake_block c (attention_resolution_pending p (nr_attempt_id c))))))))"

definition complete_binding :: "recipient_key \<Rightarrow> pre_write_observation \<Rightarrow> bool" where
  "complete_binding r ob =
     is_some_and (ob_binding ob) (\<lambda>b.
       ob_pane_root ob \<noteq> None \<and> bd_pane_root b \<noteq> None \<and> bd_leader b \<noteq> None \<and>
       ob_pane_root ob = bd_pane_root b \<and> bd_recipient b = r \<and> ob_selected_manifest ob = Some (bd_manifest b))"

definition binding_evidence_changed :: "pre_write_observation \<Rightarrow> pre_write_observation \<Rightarrow> bool" where
  "binding_evidence_changed prior ob =
     (case (ob_route_evidence prior, ob_route_evidence ob) of
        (Some old, Some new) \<Rightarrow> route_evidence_is_later old new
      | (None, Some new) \<Rightarrow> True
      | (Some old, None) \<Rightarrow> False
      | (None, None) \<Rightarrow>
          ob_pane_root prior \<noteq> ob_pane_root ob \<or> ob_selected_manifest prior \<noteq> ob_selected_manifest ob \<or>
          ob_binding prior \<noteq> ob_binding ob)"

definition later_route_evidence :: "notification_record \<Rightarrow> pre_write_observation \<Rightarrow> bool" where
  "later_route_evidence c ob =
     (case (Option.bind (nr_pre_write_observation c) ob_route_evidence, ob_route_evidence ob) of
        (Some old, Some new) \<Rightarrow> route_evidence_is_later old new
      | _ \<Rightarrow> False)"

definition cause_changed :: "recipient_key \<Rightarrow> notification_record \<Rightarrow> pre_write_observation \<Rightarrow> bool \<Rightarrow> bool" where
  "cause_changed r c ob write_ready =
     (case nr_pre_write_cause c of
        Some SessionUnavailable \<Rightarrow> complete_binding r ob
      | Some WorkerFailed \<Rightarrow> complete_binding r ob
      | Some BindingUnprovable \<Rightarrow> is_none_or (nr_pre_write_observation c) (\<lambda>prior. binding_evidence_changed prior ob)
      | Some WriteReadinessChanged \<Rightarrow> write_ready \<and> later_route_evidence c ob
      | _ \<Rightarrow> False)"

definition reopen_oldest_notification_after_route_evidence ::
  "extern \<Rightarrow> line_codec \<Rightarrow> append_io \<Rightarrow> nat \<Rightarrow> mailbox_service \<Rightarrow> recipient_key \<Rightarrow> pre_write_observation \<Rightarrow> bool \<Rightarrow>
   notification_record option service_answer" where
  "reopen_oldest_notification_after_route_evidence X C io now sv r ob write_ready =
     (if is_admin r then (Inr None, sv)
      else with_store sv (\<lambda>s.
        let p = ms_projection s in
        case first_actionable_pending_message_id p r of
          None \<Rightarrow> (Inr None, sv)
        | Some m \<Rightarrow>
            (case notification p r m of
               None \<Rightarrow> (Inr None, sv)
             | Some c \<Rightarrow>
                 if nr_state c \<noteq> BlockedPreWrite \<or> \<not> complete_binding r ob \<or> \<not> cause_changed r c ob write_ready \<or>
                    nr_pre_write_reopen_count c \<ge> 1
                 then (Inr None, sv)
                 else
                   store_call sv (advance_notification X C io now s m r (nr_attempt_id c) Gating None None) (\<lambda>c sv.
                     (Inr (Some c), publish_change sv (nr_updated_seq c) {Notifications})))))"

section \<open>Receipts and snapshots\<close>

definition u32_max :: nat where
  "u32_max = 2 ^ 32 - 1"

definition position_ahead :: "mailbox_projection \<Rightarrow> recipient_key \<Rightarrow> message_id \<Rightarrow> nat option" where
  "position_ahead p r m =
     Option.bind
       (position (\<lambda>e. me_message_id e = m)
         (filter (\<lambda>e. \<not> notification_withdrawn_by_operator p r (me_message_id e)) (get_pending p r)))
       (\<lambda>n. if n \<le> u32_max then Some n else None)"

definition disposition_of :: "mailbox_projection \<Rightarrow> message_id \<Rightarrow> recipient_key \<times> string \<Rightarrow> message_disposition" where
  "disposition_of p m row =
     (case row of (r, label) \<Rightarrow>
       let rec = notification p r m in
       \<lparr> dp_recipient = r, dp_label = label, dp_attempt_id = map_option nr_attempt_id rec,
         dp_transport = map_option nr_transport rec, dp_notification_state_raw = map_option nr_state rec,
         dp_notification_state =
           (case rec of Some c \<Rightarrow> message_notification_state_from (nr_state c) | None \<Rightarrow> VNotStarted),
         dp_quota_state = Option.bind rec (\<lambda>c. quota_from_notification (nr_state c)),
         dp_notification_settlement = Option.bind rec (\<lambda>c. settlement_from_notification (nr_state c)),
         dp_pre_write_cause = Option.bind rec nr_pre_write_cause,
         dp_wake_block = Option.bind rec (\<lambda>c.
           notification_wake_block c (attention_resolution_pending p (nr_attempt_id c))),
         dp_position_ahead = position_ahead p r m \<rparr>)"

definition message_dispositions ::
  "extern \<Rightarrow> mailbox_service \<Rightarrow> message_id \<Rightarrow> (service_error, message_disposition list) result" where
  "message_dispositions X sv m =
     read_store sv (\<lambda>p. of_mailbox (
       rbind (ok_or (get_message p m) (Mail (MessageNotFound m))) (\<lambda>message.
       rbind (extract_message_metadata message) (\<lambda>md.
       rbind (presentation_labels X (md_recipients md) (md_presentation md)) (\<lambda>(sender, labels).
       Inr (map (disposition_of p m) (zip (md_recipients md) labels)))))))"

definition service_messages_snapshot ::
  "extern \<Rightarrow> mailbox_service \<Rightarrow> recipient_key \<Rightarrow> nat \<Rightarrow> (service_error, messages_snapshot_result) result" where
  "service_messages_snapshot X sv caller recent_settled =
     read_store sv (\<lambda>p. of_mailbox (messages_snapshot X p caller recent_settled (Directory.current_routes (sv_directory sv))))"

definition service_messages_follow ::
  "extern \<Rightarrow> mailbox_service \<Rightarrow> recipient_key \<Rightarrow> nat \<Rightarrow> nat \<Rightarrow> (service_error, messages_follow_result) result" where
  "service_messages_follow X sv caller after_seq limit =
     read_store sv (\<lambda>p. of_mailbox (messages_follow X p caller after_seq limit (Directory.current_routes (sv_directory sv))))"

definition service_mailbox_attention_rows :: "extern \<Rightarrow> mailbox_service \<Rightarrow> (service_error, open_delivery list) result" where
  "service_mailbox_attention_rows X sv =
     (let labels = map (\<lambda>(r, route). (r, rt_label route)) (Directory.current_routes (sv_directory sv)) in
      read_store sv (\<lambda>p. Inr (mailbox_attention_rows X p labels)))"

definition service_blocked_notification_snapshot ::
  "extern \<Rightarrow> mailbox_service \<Rightarrow> nat \<Rightarrow> nat \<Rightarrow> (service_error, blocked_notification_snapshot_data) result" where
  "service_blocked_notification_snapshot X sv now limit =
     read_store sv (\<lambda>p. of_mailbox
       (blocked_notification_snapshot X p (id_key (service_admin sv)) (Directory.current_routes (sv_directory sv)) now limit))"

definition journal_lines :: "line_codec \<Rightarrow> mailbox_service \<Rightarrow> (service_error, ledger_line list) result" where
  "journal_lines C sv =
     (if sv_poisoned sv then Inl Poisoned
      else map_sum (\<lambda>e. StoreError (StoreLedger e)) id (writer_read_after C (ms_writer (sv_store sv)) 0))"

definition workspace_message_ids :: "mailbox_service \<Rightarrow> (service_error, message_id list) result" where
  "workspace_message_ids sv = read_store sv (\<lambda>p. Inr (map fst (messages p)))"

definition active_composer_notifications_snapshot ::
  "mailbox_service \<Rightarrow> (service_error, active_composer_notification list) result" where
  "active_composer_notifications_snapshot sv =
     read_store sv (\<lambda>p. Inr (map (\<lambda>c.
       \<lparr> an_record = c, an_message = get_message p (nr_message_id c),
         an_entry_state = map_option me_state (get_entry p (nr_recipient c) (nr_message_id c)) \<rparr>)
       (active_barrier_list p)))"

definition active_composer_notifications ::
  "mailbox_service \<Rightarrow> recipient_key \<Rightarrow> (service_error, active_composer_notification list) result" where
  "active_composer_notifications sv r =
     rbind (active_composer_notifications_snapshot sv) (\<lambda>candidates.
     Inr (filter (\<lambda>candidate. nr_recipient (an_record candidate) = r) candidates))"

definition notification_for_message ::
  "mailbox_service \<Rightarrow> recipient_key \<Rightarrow> message_id \<Rightarrow> (service_error, notification_record option) result" where
  "notification_for_message sv r m = read_store sv (\<lambda>p. Inr (hm_get (notifications p) (r, m)))"

definition service_gating_notifications :: "mailbox_service \<Rightarrow> (service_error, notification_record list) result" where
  "service_gating_notifications sv = read_store sv (\<lambda>p. Inr (gating_notifications p))"

section \<open>Claiming\<close>

definition claim_areas :: "bool \<Rightarrow> attempt_id option \<Rightarrow> messages_changed_area set" where
  "claim_areas notification_changed withdrawn =
     (if notification_changed \<or> withdrawn \<noteq> None then {Mailboxes, Notifications} else {Mailboxes})"

text \<open>A fresh claim publishes at the projection's last sequence; \<open>expect\<close> panics without one.\<close>

definition finish_claim :: "bool \<Rightarrow> claim_outcome \<Rightarrow> mailbox_service \<Rightarrow> claim_outcome service_answer" where
  "finish_claim notification_changed result sv =
     (case result of
        ClaimedNow entry message skipped withdrawn consumed \<Rightarrow>
          (case last_workspace_seq (ms_projection (sv_store sv)) of
             None \<Rightarrow> (Inl ServicePanic, sv\<lparr> sv_poisoned := True \<rparr>)
           | Some seq \<Rightarrow> (Inr result, publish_change sv seq (claim_areas notification_changed withdrawn)))
      | ClaimedBefore entry message withdrawn consumed \<Rightarrow> (Inr result, sv))"

definition service_claim ::
  "extern \<Rightarrow> line_codec \<Rightarrow> append_io \<Rightarrow> nat \<Rightarrow> mailbox_service \<Rightarrow> recipient_key \<Rightarrow> message_id \<Rightarrow> claim_outcome service_answer" where
  "service_claim X C io now sv claimant m =
     with_store sv (\<lambda>s.
       let changed = is_some_and (notification (ms_projection s) claimant m) claim_changes_notification in
       store_call sv (claim_at X C io now s claimant m now) (finish_claim changed))"

definition service_claim_notification_locator ::
  "extern \<Rightarrow> line_codec \<Rightarrow> append_io \<Rightarrow> nat \<Rightarrow> mailbox_service \<Rightarrow> recipient_key \<Rightarrow> message_id \<Rightarrow> attempt_id \<Rightarrow>
   claim_outcome service_answer" where
  "service_claim_notification_locator X C io now sv claimant locator a =
     with_store sv (\<lambda>s.
       store_call sv (claim_notification_locator X C io now s claimant locator a) (\<lambda>(result, changed). finish_claim changed result))"

section \<open>Operator commands\<close>

text \<open>\<open>fresh\<close> numbers the attempt ids the command generates.\<close>

definition requeue_targets :: "mailbox_projection \<Rightarrow> message_id \<Rightarrow> (nat \<Rightarrow> attempt_id) \<Rightarrow> notification_requeue list" where
  "requeue_targets p m fresh =
     map (\<lambda>(i, c). \<lparr> rq_prior_attempt_id = nr_attempt_id c, rq_attempt_id = fresh i, rq_recipient = nr_recipient c \<rparr>)
       (List.enumerate 0 (filter (\<lambda>c. entry_is_pending p (nr_recipient c) m) (requeueable_for_message p m)))"

definition requeue_message ::
  "extern \<Rightarrow> line_codec \<Rightarrow> append_io \<Rightarrow> nat \<Rightarrow> (nat \<Rightarrow> attempt_id) \<Rightarrow> mailbox_service \<Rightarrow> message_id \<Rightarrow>
   notification_record list service_answer" where
  "requeue_message X C io now fresh sv m =
     with_store sv (\<lambda>s.
       let p = ms_projection s in
       if get_message p m = None then (Inl (StoreError (StoreMailbox (Mail (MessageNotFound m)))), sv)
       else store_call sv (requeue_notifications X C io now s m (requeue_targets p m fresh)) (\<lambda>requeued sv.
         (Inr requeued,
          case requeued of [] \<Rightarrow> sv | c # _ \<Rightarrow> publish_change sv (nr_updated_seq c) {Notifications, Attention})))"

definition alarms_at_or_before :: "extern \<Rightarrow> mailbox_service \<Rightarrow> nat \<Rightarrow> (service_error, notification_record list) result" where
  "alarms_at_or_before X sv cutoff = read_store sv (\<lambda>p. Inr (filter (\<lambda>c. nr_updated_at c \<le> cutoff) (open_alarms X p)))"

text \<open>The loop of \<open>clear_alarms\<close>: the ids not yet cleared, and the record of every id.\<close>

fun clear_targets ::
  "mailbox_projection \<Rightarrow> nat option \<Rightarrow> attempt_id list \<Rightarrow> (mailbox_error, attempt_id list \<times> notification_record list) result" where
  "clear_targets p cutoff [] = Inr ([], [])"
| "clear_targets p cutoff (a # ids) =
     rbind (ok_or (notification_by_attempt p a) (Settle (NotificationAttemptUnknown a))) (\<lambda>c.
     if nr_state c \<noteq> AttentionRequired then Inl (Settle NotificationClearRequiresAttention)
     else if \<not> is_none_or cutoff (\<lambda>limit. nr_updated_at c \<le> limit)
     then Inl (Settle (NotificationNewerThanClearCutoff a (nr_updated_at c) (the cutoff)))
     else
       rbind (clear_targets p cutoff ids) (\<lambda>(fresh, summaries).
       Inr (if alarm_cleared p a then fresh else a # fresh, c # summaries)))"

definition clear_alarms ::
  "extern \<Rightarrow> line_codec \<Rightarrow> append_io \<Rightarrow> nat \<Rightarrow> string \<Rightarrow> mailbox_service \<Rightarrow> recipient_key \<Rightarrow> attempt_id list \<Rightarrow> nat option \<Rightarrow>
   notification_record list service_answer" where
  "clear_alarms X C io now random sv operator ids cutoff =
     with_store sv (\<lambda>s.
       let p = ms_projection s in
       if operator \<noteq> key_admin (workspace_id p)
       then (Inl (StoreError (StoreMailbox (Settle NotificationClearOperatorInvalid))), sv)
       else
         (case clear_targets p cutoff ids of
            Inl e \<Rightarrow> (Inl (StoreError (StoreMailbox e)), sv)
          | Inr (fresh, summaries) \<Rightarrow>
              if fresh = [] then (Inr summaries, sv)
              else store_call sv (clear_notifications_at X C io now random s operator (sorted_unique fresh) cutoff now) (\<lambda>_ sv.
                let new_seq = last_workspace_seq (ms_projection (sv_store sv)) in
                if new_seq = last_workspace_seq p then (Inr summaries, sv)
                else (case new_seq of
                        None \<Rightarrow> (Inl ServicePanic, sv\<lparr> sv_poisoned := True \<rparr>)
                      | Some seq \<Rightarrow> (Inr summaries, publish_change sv seq {Attention})))))"

definition read_message :: "mailbox_service \<Rightarrow> recipient_key \<Rightarrow> message_id \<Rightarrow> (service_error, inbox_message_data) result" where
  "read_message sv reader reference =
     (if \<not> is_admin reader then Inl OperatorRequired
      else read_store sv (\<lambda>p. of_mailbox (
        rbind (resolve_reference p reference) (\<lambda>m.
        rbind (ok_or (get_message p m) (Mail (MessageNotFound m))) operator_message))))"

definition service_withdraw_notification_before_write ::
  "extern \<Rightarrow> line_codec \<Rightarrow> append_io \<Rightarrow> nat \<Rightarrow> mailbox_service \<Rightarrow> recipient_key \<Rightarrow> recipient_key \<Rightarrow> attempt_id \<Rightarrow>
   (notification_record \<times> bool) service_answer" where
  "service_withdraw_notification_before_write X C io now sv operator r a =
     with_store sv (\<lambda>s.
       let prior = last_workspace_seq (ms_projection s) in
       store_call sv (withdraw_notification_before_write X C io now s operator r a) (\<lambda>c sv.
         let inserted = (last_workspace_seq (ms_projection (sv_store sv)) \<noteq> prior) in
         (Inr (c, inserted), if inserted then publish_change sv (nr_updated_seq c) {Notifications} else sv)))"

definition service_seal :: "bool \<Rightarrow> mailbox_service \<Rightarrow> unit service_answer" where
  "service_seal unlocked sv =
     with_store sv (\<lambda>s.
       case seal_writer unlocked (ms_writer s) of
         (r, w) \<Rightarrow> (map_sum (\<lambda>e. StoreError (StoreLedger e)) id r, sv\<lparr> sv_store := s\<lparr> ms_writer := w \<rparr> \<rparr>))"

definition without_body :: "ledger_line \<Rightarrow> ledger_line" where
  "without_body line = line\<lparr> ln_body := None \<rparr>"

definition redact_message_bodies :: "mailbox_service option \<Rightarrow> recipient_key option \<Rightarrow> ledger_line list \<Rightarrow> ledger_line list" where
  "redact_message_bodies service reader lines =
     (case (service, reader) of
        (Some sv, Some r) \<Rightarrow>
          if sv_poisoned sv then map without_body lines
          else map (\<lambda>line. if projection_allows_message_body (ms_projection (sv_store sv)) r line then line else without_body line) lines
      | _ \<Rightarrow> map without_body lines)"

end
