(* ===== verification/Notification_Queue.thy ===== *)
theory Notification_Queue
  imports Mailbox_View_Laws
begin

text \<open>
  The two views that print queue positions and wake details agree: \<open>messages_snapshot\<close> numbers
  every mailbox, \<open>blocked_notification_snapshot\<close> numbers only the mailboxes of the wakes it
  selected, scanning the notifications once and keeping the oldest.
\<close>

section \<open>Positions\<close>

text \<open>The position of one message among the entries that occupy the notification queue.\<close>

definition queue_position :: "mailbox_projection \<Rightarrow> recipient_key \<Rightarrow> mailbox_entry list \<Rightarrow> message_id \<Rightarrow> nat option" where
  "queue_position p r es m =
     (case find (\<lambda>e. me_message_id e = m) es of
        None \<Rightarrow> None
      | Some e \<Rightarrow>
          if fifo_entry p r e
          then Some (Suc (length (filter (fifo_entry p r) (takeWhile (\<lambda>e. me_message_id e \<noteq> m) es)))) else None)"

lemma number_entries_other:
  "r' \<noteq> r \<or> m \<notin> me_message_id ` set es \<Longrightarrow>
   hm_get (number_entries p r wanted pos es positions) (r', m) = hm_get positions (r', m)"
  by (induction p r wanted pos es positions rule: number_entries.induct) auto

lemma number_entries_get:
  assumes "distinct (map me_message_id es)"
  shows "hm_get (number_entries p r wanted pos es positions) (r, m) =
    (case find (\<lambda>e. me_message_id e = m) es of
       None \<Rightarrow> hm_get positions (r, m)
     | Some e \<Rightarrow>
         if fifo_entry p r e \<and> wanted e
         then Some (Suc (pos + length (filter (fifo_entry p r) (takeWhile (\<lambda>e. me_message_id e \<noteq> m) es))))
         else hm_get positions (r, m))"
  using assms
proof (induction p r wanted pos es positions rule: number_entries.induct)
  case (2 p r wanted pos e es positions)
  show ?case
  proof (cases "me_message_id e = m")
    case True
    then have "m \<notin> me_message_id ` set es" using "2.prems" by auto
    then show ?thesis using True number_entries_other by auto
  next
    case False
    then show ?thesis using 2 by (auto split: option.splits)
  qed
qed simp

text \<open>A fold of steps that each write the keys of one recipient.\<close>

lemma fold_positions:
  fixes step :: "recipient_key \<times> 'x \<Rightarrow> (entry_key, nat) hash_map \<Rightarrow> (entry_key, nat) hash_map"
  assumes step: "\<And>r x positions r' m. (r, x) \<in> set gs \<Longrightarrow> hm_get positions (r, m) = None \<Longrightarrow>
      hm_get (step (r, x) positions) (r', m) = (if r' = r then at r x m else hm_get positions (r', m))"
    and distinct: "distinct (map fst gs)" and fresh: "\<And>r m. r \<in> fst ` set gs \<Longrightarrow> hm_get positions (r, m) = None"
  shows "hm_get (fold step gs positions) (r, m) =
    (case map_of gs r of Some x \<Rightarrow> at r x m | None \<Rightarrow> hm_get positions (r, m))"
  using assms
proof (induction gs arbitrary: positions)
  case (Cons g gs)
  obtain r0 x0 where g: "g = (r0, x0)" by (cases g)
  have eff: "hm_get (step g positions) (r', m') = (if r' = r0 then at r0 x0 m' else hm_get positions (r', m'))" for r' m'
    unfolding g by (rule Cons.prems(1)) (simp_all add: g Cons.prems(3))
  have notin: "r0 \<notin> fst ` set gs" using Cons.prems(2) by (simp add: g)
  have "hm_get (fold step gs (step g positions)) (r, m) =
      (case map_of gs r of Some x \<Rightarrow> at r x m | None \<Rightarrow> hm_get (step g positions) (r, m))"
  proof (rule Cons.IH)
    show "distinct (map fst gs)" using Cons.prems(2) by simp
    show "hm_get (step g positions) (r', m') = None" if "r' \<in> fst ` set gs" for r' m'
      using that notin eff [of r' m'] Cons.prems(3) by (auto simp: g)
  qed (use Cons.prems(1) in auto)
  moreover have "map_of gs r0 = None" using notin by (simp add: map_of_eq_None_iff)
  ultimately show ?case using eff [of r m] by (cases "r = r0") (simp_all add: g split: option.split)
qed simp

lemma mailbox_ids_distinct:
  assumes ok: "entries_ok p" and mb: "hm_get (mailboxes p) r = Some mb"
  shows "distinct (map me_message_id (bt_values mb))"
proof -
  have bt: "bt_ok mb" using ok mb unfolding entries_ok_def by blast
  have key: "hm_get (mailbox_index p) (r, me_message_id e) = Some k" if "(k, e) \<in> set mb" for k e
    using ok mb that bt_get_iff [OF bt] unfolding entries_ok_def by blast
  have "inj_on (\<lambda>ke. me_message_id (snd ke)) (set mb)"
  proof (rule inj_onI)
    fix x y assume xy: "x \<in> set mb" "y \<in> set mb" "me_message_id (snd x) = me_message_id (snd y)"
    then have "fst x = fst y" using key [of "fst x" "snd x"] key [of "fst y" "snd y"] by simp
    then show "x = y" using xy bt_get_iff [OF bt] by (metis option.inject prod.collapse)
  qed
  moreover have "distinct mb" using bt_ok_distinct [OF bt] by (simp add: distinct_map)
  ultimately have "distinct (map (\<lambda>ke. me_message_id (snd ke)) mb)" by (simp add: distinct_map)
  then show ?thesis by (simp add: bt_values_def o_def)
qed

lemma fifo_positions_get:
  assumes ok: "entries_ok p"
  shows "hm_get (fifo_positions p) (r, m) =
    (case hm_get (mailboxes p) r of None \<Rightarrow> None | Some mb \<Rightarrow> queue_position p r (bt_values mb) m)"
proof -
  have hm: "hm_ok (mailboxes p)" using ok by (simp add: entries_ok_def)
  have "hm_get (fifo_positions p) (r, m) =
      (case map_of (mailboxes p) r of Some mb \<Rightarrow> queue_position p r (bt_values mb) m | None \<Rightarrow> hm_get [] (r, m))"
    unfolding fifo_positions_def
  proof (rule fold_positions)
    fix r mb and positions :: "(entry_key, nat) hash_map" and r' m
    assume "(r, mb) \<in> set (mailboxes p)" and none: "hm_get positions (r, m) = None"
    then have d: "distinct (map me_message_id (bt_values mb))"
      using mailbox_ids_distinct [OF ok] hm_get_iff [OF hm] by blast
    show "hm_get ((\<lambda>(r, entries) positions. number_entries p r (\<lambda>_. True) 0 (bt_values entries) positions) (r, mb) positions) (r', m) =
        (if r' = r then queue_position p r (bt_values mb) m else hm_get positions (r', m))"
      using none by (cases "r' = r") (auto simp: number_entries_get [OF d] number_entries_other queue_position_def split: option.split)
  qed (use hm in \<open>simp_all add: hm_ok_def\<close>)
  then show ?thesis by (auto simp: hm_get_def split: option.splits)
qed

section \<open>The selected wakes\<close>

definition group_step :: "notification_record \<Rightarrow> (recipient_key, message_id hash_set) hash_map \<Rightarrow>
    (recipient_key, message_id hash_set) hash_map" where
  "group_step c groups =
     hm_insert (nr_recipient c)
       (hs_insert (nr_message_id c) (case hm_get groups (nr_recipient c) of None \<Rightarrow> [] | Some ms \<Rightarrow> ms)) groups"

definition grouped :: "(recipient_key, message_id hash_set) hash_map \<Rightarrow> recipient_key \<Rightarrow> message_id \<Rightarrow> bool" where
  "grouped groups r m \<longleftrightarrow> (\<exists>ms. hm_get groups r = Some ms \<and> hs_contains ms m)"

lemma grouped_step: "grouped (group_step c groups) r m \<longleftrightarrow> (r = nr_recipient c \<and> m = nr_message_id c) \<or> grouped groups r m"
  by (auto simp: grouped_def group_step_def split: option.splits if_splits)

lemma grouped_fold: "grouped (fold group_step cs groups) r m \<longleftrightarrow>
    (\<exists>c\<in>set cs. r = nr_recipient c \<and> m = nr_message_id c) \<or> grouped groups r m"
  by (induction cs arbitrary: groups) (auto simp: grouped_step)

lemma groups_ok: "hm_ok groups \<Longrightarrow> hm_ok (fold group_step cs groups)"
  by (induction cs arbitrary: groups) (auto simp: group_step_def)

lemma selected_by_recipient_fold: "selected_by_recipient cs = fold group_step cs []"
  unfolding selected_by_recipient_def by (simp add: group_step_def [abs_def])

text \<open>A selected wake has the position the snapshot prints.\<close>

lemma selected_position:
  assumes ok: "entries_ok p" and c: "c \<in> set cs"
  shows "hm_get (selected_positions p (selected_by_recipient cs)) (nr_recipient c, nr_message_id c) =
    hm_get (fifo_positions p) (nr_recipient c, nr_message_id c)"
proof -
  let ?groups = "selected_by_recipient cs"
  let ?r = "nr_recipient c" let ?m = "nr_message_id c"
  let ?at = "\<lambda>r ms m. case hm_get (mailboxes p) r of None \<Rightarrow> None
    | Some mb \<Rightarrow> if m \<in> set ms then queue_position p r (bt_values mb) m else None"
  have gok: "hm_ok ?groups" by (simp add: selected_by_recipient_fold groups_ok)
  obtain ms where ms: "hm_get ?groups ?r = Some ms" "?m \<in> set ms"
    using grouped_fold [of cs "[]" ?r ?m] c by (auto simp: grouped_def selected_by_recipient_fold hs_contains_def)
  have "hm_get (selected_positions p ?groups) (?r, ?m) =
      (case map_of ?groups ?r of Some ms \<Rightarrow> ?at ?r ms ?m | None \<Rightarrow> hm_get [] (?r, ?m))"
    unfolding selected_positions_def
  proof (rule fold_positions)
    fix r ms and positions :: "(entry_key, nat) hash_map" and r' m
    assume none: "hm_get positions (r, m) = None"
    show "hm_get ((\<lambda>(r, wanted) positions. case hm_get (mailboxes p) r of None \<Rightarrow> positions
          | Some entries \<Rightarrow> number_entries p r (\<lambda>e. hs_contains wanted (me_message_id e)) 0 (bt_values entries) positions)
          (r, ms) positions) (r', m) = (if r' = r then ?at r ms m else hm_get positions (r', m))"
    proof (cases "hm_get (mailboxes p) r")
      case (Some mb)
      note get = number_entries_get [OF mailbox_ids_distinct [OF ok Some]]
      show ?thesis
      proof (cases "find (\<lambda>e. me_message_id e = m) (bt_values mb)")
        case None
        then show ?thesis using Some none by (simp add: get number_entries_other queue_position_def)
      next
        case (Some e)
        then have "me_message_id e = m" by (auto simp: find_Some_iff)
        then show ?thesis
          using Some \<open>hm_get (mailboxes p) r = _\<close> none
          by (simp add: get number_entries_other queue_position_def hs_contains_def)
      qed
    qed (use none in simp)
  qed (use gok in \<open>simp_all add: hm_ok_def\<close>)
  also have "\<dots> = ?at ?r ms ?m" using ms(1) by (simp add: hm_get_def)
  finally show ?thesis using ms(2) by (simp add: fifo_positions_get [OF ok] split: option.split)
qed

section \<open>One scan keeps the oldest\<close>

text \<open>The journal position of a wake: its message, the recipient's place in it, the attempt.\<close>

definition blocked_key :: "mailbox_projection \<Rightarrow> notification_record \<Rightarrow> nat \<times> nat \<times> attempt_id" where
  "blocked_key p c =
     (case hm_get (messages p) (nr_message_id c) of
        None \<Rightarrow> (0, 0, nr_attempt_id c)
      | Some line \<Rightarrow>
          (ln_seq line, the (position (\<lambda>k. k = nr_recipient c) (md_recipients (metadata_of line))), nr_attempt_id c))"

text \<open>The reference: all blocked wakes in journal order.\<close>

definition blocked_wakes :: "mailbox_projection \<Rightarrow> notification_record list" where
  "blocked_wakes p = sort_key (blocked_key p) (filter (blocked_before_write p) (hm_values (notifications p)))"

lemma bt_insert_take: "take n (bt_insert k v (take n m)) = take n (bt_insert k v m)"
proof (induction k v m arbitrary: n rule: bt_insert.induct)
  case (2 k v k' v' m)
  have "take j (x # take j m) = take j (x # m)" for j x by (cases j) simp_all
  then show ?case using 2 by (cases n) auto
qed simp

lemma bt_insert_length: "length (bt_insert k v m) \<le> Suc (length m)"
  by (induction k v m rule: bt_insert.induct) auto

lemma bt_insert_capped:
  "(if n < length (bt_insert k v (take n m)) then butlast (bt_insert k v (take n m)) else bt_insert k v (take n m)) =
   take n (bt_insert k v m)"
proof -
  let ?b = "bt_insert k v (take n m)"
  have "length ?b \<le> Suc n" using bt_insert_length [of k v "take n m"] by simp
  then have "(if n < length ?b then butlast ?b else ?b) = take n ?b" by (auto simp: butlast_conv_take le_Suc_eq)
  then show ?thesis using bt_insert_take by metis
qed

lemma bt_insert_insort:
  "f c \<notin> f ` set xs \<Longrightarrow> bt_insert (f c) c (map (\<lambda>c. (f c, c)) xs) = map (\<lambda>c. (f c, c)) (insort_key f c xs)"
  by (induction xs) auto

lemma fold_bt_insert:
  assumes "distinct (map f (xs @ cs))"
  shows "fold (\<lambda>c. bt_insert (f c) c) cs (map (\<lambda>c. (f c, c)) xs) = map (\<lambda>c. (f c, c)) (fold (insort_key f) cs xs)"
  using assms
proof (induction cs arbitrary: xs)
  case (Cons c cs)
  have "distinct (map f (insort_key f c xs @ cs))"
    using Cons.prems by (simp add: distinct_map set_insort_key distinct_insort insert_commute) blast
  then show ?case using Cons.IH Cons.prems by (simp add: bt_insert_insort)
qed simp

lemma position_index:
  "x \<in> set xs \<Longrightarrow> \<exists>i. position (\<lambda>k. k = x) xs = Some i \<and> i < length xs \<and> xs ! i = x"
  by (induction xs) auto

text \<open>A current record belongs to a stored message that names its recipient.\<close>

lemma record_message:
  assumes inv: "projection_inv p" and c: "c \<in> set (hm_values (notifications p))"
  obtains line e i where "hm_get (messages p) (nr_message_id c) = Some line"
    "extract_message_metadata line = Inr (metadata_of line)" "get_entry p (nr_recipient c) (nr_message_id c) = Some e"
    "position (\<lambda>k. k = nr_recipient c) (md_recipients (metadata_of line)) = Some i"
    "i < length (md_recipients (metadata_of line))" "md_recipients (metadata_of line) ! i = nr_recipient c"
    "notification p (nr_recipient c) (nr_message_id c) = Some c"
proof -
  have att: "attempt_inv p" and mb: "mailbox_inv p" using inv by (simp_all add: projection_inv_def)
  have ok: "hm_ok (notifications p)" using att by (simp add: attempt_inv_def attempts_ok_def)
  obtain r m where rm: "hm_get (notifications p) (r, m) = Some c" using c in_hm_values [OF ok] by auto
  have ids: "nr_recipient c = r" "nr_message_id c = m" using attempt_invD(4,5) [OF att rm] by auto
  obtain e where e: "get_entry p r m = Some e" using attempt_invD(2) [OF att rm] by auto
  obtain line where line: "hm_get (messages p) m = Some line" using entry_message [OF mb e] by auto
  obtain md where "extract_message_metadata line = Inr md" using stored_message [OF inv line] by blast
  then have md: "extract_message_metadata line = Inr (metadata_of line)" by (simp add: metadata_of_def)
  obtain j where "j < length (md_recipients (metadata_of line))" "md_recipients (metadata_of line) ! j = r"
    using recipient_of_entry [OF inv line e] .
  then obtain i where "position (\<lambda>k. k = r) (md_recipients (metadata_of line)) = Some i"
    "i < length (md_recipients (metadata_of line))" "md_recipients (metadata_of line) ! i = r"
    using position_index [of r] nth_mem by metis
  then show thesis using that line md e rm unfolding ids notification_def by metis
qed

lemma select_blocked_key:
  assumes inv: "projection_inv p" and c: "c \<in> set (hm_values (notifications p))" and limit: "0 < limit"
  shows "select_blocked p limit c (take limit m) = Inr (take limit (bt_insert (blocked_key p c) c m))"
proof (rule record_message [OF inv c])
  fix line e i
  assume line: "hm_get (messages p) (nr_message_id c) = Some line"
    and md: "extract_message_metadata line = Inr (metadata_of line)"
    and i: "position (\<lambda>k. k = nr_recipient c) (md_recipients (metadata_of line)) = Some i"
  have key: "blocked_key p c = (ln_seq line, i, nr_attempt_id c)" using line i by (simp add: blocked_key_def)
  show ?thesis
    using limit line md i unfolding key bt_insert_capped [symmetric]
    by (simp add: select_blocked_def get_message_def Let_def)
qed

lemma select_all_reference:
  assumes inv: "projection_inv p" and cs: "set cs \<subseteq> set (hm_values (notifications p))" and limit: "0 < limit"
  shows "\<exists>n. select_all_blocked p limit cs k (take limit m) = Inr (n, take limit (fold (\<lambda>c. bt_insert (blocked_key p c) c) cs m))"
  using cs
proof (induction cs arbitrary: k m)
  case (Cons c cs)
  then show ?case using select_blocked_key [OF inv _ limit, of c m] by simp
qed simp

lemma select_none: "\<exists>n. select_all_blocked p 0 cs k [] = Inr (n, [])"
  by (induction cs arbitrary: k) (simp_all add: select_blocked_def)

lemma blocked_selection:
  assumes inv: "projection_inv p"
  shows "\<exists>n. select_all_blocked p limit (filter (blocked_before_write p) (hm_values (notifications p))) 0 [] =
    Inr (n, map (\<lambda>c. (blocked_key p c, c)) (take limit (blocked_wakes p)))"
proof (cases "limit = 0")
  case True
  then show ?thesis using select_none by simp
next
  case False
  let ?cs = "filter (blocked_before_write p) (hm_values (notifications p))"
  have att: "attempt_inv p" using inv by (simp add: projection_inv_def)
  have ok: "hm_ok (notifications p)" using att by (simp add: attempt_inv_def attempts_ok_def)
  have inj: "k = k'" if "(k, c) \<in> set (notifications p)" "(k', c') \<in> set (notifications p)"
    "nr_attempt_id c = nr_attempt_id c'" for k k' c c'
    using that attempt_inv_unique [OF att] hm_get_iff [OF ok] by metis
  have "distinct (map (\<lambda>kc. nr_attempt_id (snd kc)) (notifications p))"
    using ok inj unfolding distinct_map hm_ok_def by (force simp: inj_on_def)
  then have "distinct (map nr_attempt_id (hm_values (notifications p)))" by (simp add: hm_values_def o_def)
  then have "distinct (map (\<lambda>c. snd (snd (blocked_key p c))) (hm_values (notifications p)))"
    by (simp add: blocked_key_def option.case_eq_if split_beta if_distrib cong: if_cong)
  then have d: "distinct (map (blocked_key p) (hm_values (notifications p)))"
    by (simp add: distinct_map inj_on_def)
  then have d: "distinct (map (blocked_key p) ?cs)" by (simp add: distinct_map_filter)
  then have sort: "blocked_wakes p = fold (insort_key (blocked_key p)) ?cs []"
    by (simp add: blocked_wakes_def sort_key_conv_fold distinct_map)
  have "fold (\<lambda>c. bt_insert (blocked_key p c) c) ?cs [] = map (\<lambda>c. (blocked_key p c, c)) (blocked_wakes p)"
    using fold_bt_insert [of "blocked_key p" "[]" ?cs] d by (simp add: sort)
  then show ?thesis
    using select_all_reference [OF inv, of ?cs limit 0 "[]"] False by (auto simp: take_map)
qed

section \<open>Blocked wakes in both views\<close>

lemma blocked_wakes_in: "c \<in> set (blocked_wakes p) \<longleftrightarrow> c \<in> set (hm_values (notifications p)) \<and> blocked_before_write p c"
  by (auto simp: blocked_wakes_def)

lemma recipient_summary_position:
  "hm_get positions (r, m) = hm_get positions' (r, m) \<Longrightarrow>
   recipient_summary p caller live_routes positions m r e sender label rec =
   recipient_summary p caller live_routes positions' m r e sender label rec"
  by (simp add: recipient_summary_def Let_def)

lemma blocked_row_in_snapshot:
  assumes inv: "projection_inv p" and view: "view_inv X p" and c: "c \<in> set (hm_values (notifications p))"
    and state: "nr_state c = BlockedPreWrite" and admin: "is_admin caller"
    and same: "hm_get positions (nr_recipient c, nr_message_id c) = hm_get (fifo_positions p) (nr_recipient c, nr_message_id c)"
  obtains w row where "blocked_row X p caller live_routes now positions c = Inr w"
    "bn_message_id w = nr_message_id c" "bn_notification_attempt w = nr_attempt_id c"
    "row \<in> set (all_rows X p caller live_routes)" "sr_active row" "sr_message_id row = nr_message_id c"
    "bn_recipient w \<in> set (sr_recipients row)"
proof (rule record_message [OF inv c])
  let ?m = "nr_message_id c" and ?r = "nr_recipient c"
  fix line e i
  let ?md = "metadata_of line" and ?t = "message_turn_at X p caller live_routes line"
  assume line: "hm_get (messages p) ?m = Some line" and md: "extract_message_metadata line = Inr ?md"
    and e: "get_entry p ?r ?m = Some e"
    and i: "position (\<lambda>k. k = ?r) (md_recipients ?md) = Some i" "i < length (md_recipients ?md)" "md_recipients ?md ! i = ?r"
    and rec: "notification p ?r ?m = Some c"
  have id: "ln_id line = ?m" using stored_message [OF inv line] by blast
  note seen = admin_sees [OF inv line admin]
  have active: "sr_active (mt_row ?t)"
    using active_row [OF inv view seen, of ?r e] e rec state
    by (simp add: id recipient_active_def quota_open_def is_terminal_def)
  show thesis
  proof (rule turn_at [OF inv view seen, where live_routes = live_routes])
    fix labels
    assume labels: "presentation_labels X (md_recipients ?md) (md_presentation ?md) =
        Inr (sender_label (md_presentation ?md), labels)"
      and turns: "mt_recipients ?t = map (\<lambda>x. projr (recipient_turn_of p caller live_routes (fifo_positions p) (ln_id line)
          (md_sender ?md) x)) (zip (md_recipients ?md) labels)"
      and shown: "sr_recipients (mt_row ?t) = map tu_summary (mt_recipients ?t)" "sr_message_id (mt_row ?t) = ln_id line"
    let ?summary = "recipient_summary p caller live_routes positions ?m ?r e (md_sender ?md) (labels ! i) (Some c)"
    note turn = recipient_turn_in [OF turns presentation_labels_length [OF labels] i(2), unfolded i(3) id, OF e]
    have "?summary \<in> tu_summary ` set (mt_recipients ?t)"
      by (rule image_eqI [OF _ turn]) (simp only: rec recipient_turn.select_convs recipient_summary_position [OF same])
    then have member: "?summary \<in> set (sr_recipients (mt_row ?t))" by (simp add: shown(1))
    have "blocked_row X p caller live_routes now positions c = Inr
        \<lparr> bn_message_id = ?m, bn_notification_attempt = nr_attempt_id c, bn_recipient = ?summary,
          bn_waiting_age_ms = now - nr_updated_at c,
          bn_next_action = (if rs_can_withdraw_notification ?summary then Some WithdrawNotification else None) \<rparr>"
      using line md labels i(1) e by (simp add: blocked_row_def get_message_def Let_def)
    then show thesis
      by (rule that [of _ "mt_row ?t"]) (use member active shown(2) seen id in simp_all)
  qed
qed

end
