(* ===== verification/Service_Laws.thy ===== *)
theory Service_Laws
  imports Service Notification_Queue
begin

text \<open>
  Each service operation appends at most one journal line, and publishes one event exactly when
  it appended one. What the event says is compared with what the line changed: every prepared
  mutation touches a fixed set of areas, and each operation announces at least those.
\<close>

section \<open>The areas a mutation touches\<close>

fun mutation_areas :: "prepared_mutation \<Rightarrow> messages_changed_area set" where
  "mutation_areas (PreparedMessage m md up) = (if up = None then {Messages, Mailboxes} else {Messages, Mailboxes, Notifications})"
| "mutation_areas (PreparedClaim m r c up) = (if up = None then {Mailboxes} else {Mailboxes, Notifications})"
| "mutation_areas (PreparedDeliveredDirect m r a) = {Mailboxes}"
| "mutation_areas (PreparedNotification k c new) = {Notifications}"
| "mutation_areas (PreparedRequeues records) = {Notifications}"
| "mutation_areas (PreparedCleared a) = {Attention}"
| "mutation_areas (PreparedClears b attempts) = {Attention}"
| "mutation_areas (PreparedWithdrawnBeforeWrite k c) = {Notifications}"
| "mutation_areas (PreparedClaimedStagedCleared k c a) = {Notifications}"
| "mutation_areas (PreparedClaimedAckTimeoutReconciled k c a) = {Notifications}"
| "mutation_areas pm = {}"

definition covers :: "messages_changed_area set \<Rightarrow> mailbox_projection \<Rightarrow> mailbox_projection \<Rightarrow> bool" where
  "covers areas p q \<longleftrightarrow>
     (messages q \<noteq> messages p \<longrightarrow> Messages \<in> areas) \<and> (mailboxes q \<noteq> mailboxes p \<longrightarrow> Mailboxes \<in> areas) \<and>
     (notifications q \<noteq> notifications p \<longrightarrow> Notifications \<in> areas) \<and>
     (cleared_attempts q \<noteq> cleared_attempts p \<longrightarrow> Attention \<in> areas)"

lemma covers_mono: "covers A p q \<Longrightarrow> A \<subseteq> B \<Longrightarrow> covers B p q"
  by (auto simp: covers_def)

lemma set_entry_state_rest:
  "set_entry_state p r m st = Some q \<Longrightarrow>
   messages q = messages p \<and> notifications q = notifications p \<and> cleared_attempts q = cleared_attempts p"
  by (auto simp: set_entry_state_def bind_eq_Some_conv)

lemma add_entries_rest [simp]:
  "notifications (fold (add_entry m line) rs p) = notifications p"
  "cleared_attempts (fold (add_entry m line) rs p) = cleared_attempts p"
  by (induction rs arbitrary: p) (simp_all add: add_entry_def Let_def)

lemma requeues_rest [simp]:
  "messages (fold commit_requeue records p) = messages p"
  "mailboxes (fold commit_requeue records p) = mailboxes p"
  "cleared_attempts (fold commit_requeue records p) = cleared_attempts p"
  by (induction records arbitrary: p) (simp_all add: commit_requeue_def)

lemma write_boundary_rest [simp]:
  "messages (commit_write_boundary n c p) = messages p"
  "mailboxes (commit_write_boundary n c p) = mailboxes p"
  "cleared_attempts (commit_write_boundary n c p) = cleared_attempts p"
  by (simp_all add: commit_write_boundary_def Let_def)

lemma commit_message_covers:
  assumes "commit_message p line m md up = Some q"
  shows "covers (mutation_areas (PreparedMessage m md up)) p q"
proof -
  obtain p1 where p1: "commit_superseded_entry p line m md = Some p1"
    using assms by (auto simp: commit_message_def bind_eq_Some_conv)
  have rest: "notifications p1 = notifications p \<and> cleared_attempts p1 = cleared_attempts p"
    using p1 set_entry_state_rest by (auto simp: commit_superseded_entry_def split: option.splits list.splits)
  show ?thesis
    using assms rest by (auto simp: commit_message_def p1 covers_def Let_def split: option.splits)
qed

lemma commit_claim_covers:
  assumes "commit_claim p line m r c up = Some q"
  shows "covers (mutation_areas (PreparedClaim m r c up)) p q"
  using assms set_entry_state_rest
  by (fastforce simp: commit_claim_def commit_claim_update_def covers_def Let_def split: option.splits)

lemma commit_covers:
  assumes "commit_line p line pm = Some q"
  shows "covers (mutation_areas pm) p q"
proof -
  let ?p = "p\<lparr> last_workspace_seq := Some (ln_seq line) \<rparr>"
  have q: "commit_mutation ?p line pm = Some q" using assms by (simp add: commit_line_def)
  have "covers (mutation_areas pm) ?p q"
  proof (cases pm)
    case (PreparedMessage m md up)
    then show ?thesis using q commit_message_covers by simp
  next
    case (PreparedClaim m r c up)
    then show ?thesis using q commit_claim_covers by simp
  next
    case (PreparedDeliveredDirect m r a)
    then show ?thesis using q set_entry_state_rest by (fastforce simp: covers_def)
  qed (use q in \<open>auto simp: covers_def commit_notification_def set_notification_def remove_barrier_def
      commit_resolved_def Let_def\<close>)
  then show ?thesis by (simp add: covers_def)
qed

section \<open>One append at most\<close>

text \<open>What a store operation did to the store: nothing the projection shows, or one line.\<close>

definition appends ::
  "extern \<Rightarrow> line_codec \<Rightarrow> Identity.workspace_id \<Rightarrow> ledger_line list \<Rightarrow> message_store \<Rightarrow> message_store \<Rightarrow> ledger_line option \<Rightarrow> bool" where
  "appends X C ws lines s s' l \<longleftrightarrow>
     (case l of
        None \<Rightarrow> ms_projection s' = ms_projection s \<and> store_ok X C ws s' lines
      | Some line \<Rightarrow> ln_seq line = Suc (length lines) \<and>
          apply_owned X (ms_projection s) line = Inr (ms_projection s') \<and> store_ok X C ws s' (lines @ [line]))"

lemma appends_same: "store_ok X C ws s lines \<Longrightarrow> appends X C ws lines s s None"
  by (simp add: appends_def)

lemma after_cases:
  assumes ok: "store_ok X C ws s lines" and fresh: "fresh_line s line"
    and step: "Store.after (persist X C io now s line) ans = (r, s')"
  obtains (none) e where "r = Inl e" "e \<noteq> StorePanic" "appends X C ws lines s s' None"
  | (one) "r = ans s'" "appends X C ws lines s s' (Some line)"
proof -
  obtain x s1 where p: "persist X C io now s line = (x, s1)" by (cases "persist X C io now s line")
  have seq: "ln_seq line = Suc (length lines)" using fresh store_okD(5) [OF ok] by (simp add: fresh_line_def)
  from ok fresh p show thesis
  proof (cases rule: persist_cases)
    case (refused e)
    show thesis by (rule none [of "StoreMailbox e"]) (use refused step p ok in \<open>auto simp: Store.after_def appends_def\<close>)
  next
    case (failed e w)
    show thesis by (rule none [of "StoreLedger e"]) (use failed step p in \<open>auto simp: Store.after_def appends_def\<close>)
  next
    case (committed q)
    show thesis by (rule one) (use committed step p seq in \<open>auto simp: Store.after_def appends_def\<close>)
  qed
qed

text \<open>The projection before and after an appended line, with the mutation that was committed.\<close>

lemma appends_prepared:
  assumes "appends X C ws lines s s' (Some line)"
  obtains pm where "prepare_line X (ms_projection s) line = Inr pm" "commit_line (ms_projection s) line pm = Some (ms_projection s')"
    "covers (mutation_areas pm) (ms_projection s) (ms_projection s')"
proof -
  obtain pm where "prepare_line X (ms_projection s) line = Inr pm" "commit_line (ms_projection s) line pm = Some (ms_projection s')"
    using assms by (auto simp: appends_def apply_owned_def apply_inner_Inr_iff prepare_line_def)
  with commit_covers that show thesis by blast
qed

lemma appends_last_seq:
  assumes ok: "store_ok X C ws s lines" and app: "appends X C ws lines s s' (Some line)"
  shows "last_workspace_seq (ms_projection s') = Some (ln_seq line)"
    and "last_workspace_seq (ms_projection s') \<noteq> last_workspace_seq (ms_projection s)"
proof -
  have inv: "projection_inv (ms_projection s)" by (rule store_okD(4) [OF ok])
  obtain pm where pm: "prepare_line X (ms_projection s) line = Inr pm" "commit_line (ms_projection s) line pm = Some (ms_projection s')"
    using appends_prepared [OF app] by metis
  obtain q where q: "commit_line (ms_projection s) line pm = Some q" "seq_of q = ln_seq line"
    using apply_inner_step [OF inv pm(1) [unfolded prepare_line_def]] by metis
  have "ln_seq line = Suc (seq_of (ms_projection s))"
    using prepare_line_inner_legal [OF pm(1) [unfolded prepare_line_def]] by simp
  with q pm(2) show "last_workspace_seq (ms_projection s') = Some (ln_seq line)"
    "last_workspace_seq (ms_projection s') \<noteq> last_workspace_seq (ms_projection s)"
    by (auto simp: seq_of_def split: option.splits)
qed

section \<open>The store operations\<close>

lemma accept_appends:
  assumes ok: "store_ok X C ws s lines" and step: "accept_canonical_at X C io now s m draft ts = (r, s')"
  obtains (none) e where "r = Inl e" "e \<noteq> StorePanic" "appends X C ws lines s s' None"
  | (old) a where "r = Inr a" "\<not> ac_inserted a" "appends X C ws lines s s' None"
  | (new) a line md where "r = Inr a" "ac_inserted a" "ac_seq a = ln_seq line" "appends X C ws lines s s' (Some line)"
      "is_message line" "extract_message_metadata line = Inr md" "md_supersedes md = cd_supersedes draft"
      "md_recipients md = cd_recipients draft"
proof (cases r)
  case (Inl e)
  have "keeps X C ws lines (accept_canonical_at X C io now s m draft ts)" by (rule accept_canonical_keeps [OF ok])
  then have np: "e \<noteq> StorePanic" using step Inl by (auto simp: keeps_def)
  have "appends X C ws lines s s' None"
    using step Inl appends_same [OF ok]
    by (auto simp: accept_canonical_at_def Let_def split: sum.splits acceptance_outcome.splits prod.splits
        elim!: after_cases [OF ok fresh_draft_line, rotated])
  with np Inl none show thesis by blast
next
  case (Inr a)
  show thesis
  proof (cases "ac_inserted a")
    case True
    from accept_inserted [OF ok step [unfolded Inr] True] obtain digest root labels sender where
      n: "check_acceptance X (ms_projection s) draft = Inr (NewMessage digest)" "ac_seq a = Suc (length lines)"
      "apply_owned X (ms_projection s) (draft_line s m draft (time_or_now ts now) labels
         (draft_metadata (ms_projection s) draft root digest)) = Inr (ms_projection s')"
      "store_ok X C ws s' (lines @ [draft_line s m draft (time_or_now ts now) labels
         (draft_metadata (ms_projection s) draft root digest)])"
      by metis
    let ?line = "draft_line s m draft (time_or_now ts now) labels (draft_metadata (ms_projection s) draft root digest)"
    have seq: "ln_seq ?line = Suc (length lines)" using store_okD(5) [OF ok] by (simp add: draft_line_def)
    obtain pm where pm: "prepare_line X (ms_projection s) ?line = Inr pm"
      using n(3) by (auto simp: apply_owned_def apply_inner_Inr_iff prepare_line_def)
    have kind: "is_message ?line"
      using n(1) pm by (auto simp: prepare_line_def prepare_line_inner_def draft_line_def result_simps Let_def is_message_def
          state_row_error_def prepare_state_def metadata_value_def split: kind.splits)
    show thesis
    proof (rule new [OF Inr True _ _ kind])
      show "ac_seq a = ln_seq ?line" "appends X C ws lines s s' (Some ?line)" using n seq by (simp_all add: appends_def)
      show "extract_message_metadata ?line = Inr (draft_metadata (ms_projection s) draft root digest)" by simp
    qed (simp_all add: draft_metadata_def)
  next
    case False
    then have "s' = s"
      using step Inr by (auto simp: accept_canonical_at_def Let_def Store.after_def
        split: sum.splits acceptance_outcome.splits prod.splits)
    then show thesis using old [OF Inr False] appends_same [OF ok] by simp
  qed
qed

lemma written_fact_prepared:
  assumes "prepare_line X p (state_row s i ts fr to (notification_fact_value f)) = Inr pm"
    and "fact_entry f = Some k" and "\<And>t. f \<noteq> NotificationCleared t"
  obtains c where "mutation_areas pm = {Notifications}" "notification_effect pm (notifications p) = hm_insert k c (notifications p)"
    "nr_updated_seq c = lw_next_seq (ms_writer s)"
    "(\<exists>n. pm = PreparedNotification k c n) \<or> pm = PreparedWithdrawnBeforeWrite k c"
proof -
  let ?line = "state_row s i ts fr to (notification_fact_value f)"
  have legal: "legal p ?line pm" using prepare_line_inner_legal assms(1) by (simp add: prepare_line_def)
  have seq: "ln_seq ?line = lw_next_seq (ms_writer s)" by (simp add: state_row_def)
  have "(\<exists>c n. pm = PreparedNotification k c n) \<or>
      (\<exists>a t. f = NotificationCleared t \<and> pm = PreparedCleared a \<and> hm_get (notifications p) k \<noteq> None) \<or>
      (\<exists>c. pm = PreparedWithdrawnBeforeWrite k c)"
    by (rule fact_row_prepared [OF assms(1) _ _ assms(2)]) (simp_all add: state_row_def)
  then consider (advance) c n where "pm = PreparedNotification k c n" | (withdraw) c where "pm = PreparedWithdrawnBeforeWrite k c"
    using assms(3) by blast
  then show thesis
  proof cases
    case advance
    have "nr_updated_seq c = ln_seq ?line"
      using legal unfolding advance
      by (cases rule: legal.cases)
        (auto simp: queued_record_def advanced_record_def prepare_notification_requeue_record_def result_simps)
    then show thesis using that [of c] advance seq by simp
  next
    case withdraw
    have "nr_updated_seq c = ln_seq ?line"
      using legal unfolding withdraw by (cases rule: legal.cases) (auto simp: settled_record_def)
    then show thesis using that [of c] withdraw seq by simp
  qed
qed

lemma written_fact_appends:
  assumes ok: "store_ok X C ws s lines" and f: "fact_entry f = Some (r, m)" "\<And>t. f \<noteq> NotificationCleared t" and ts: "0 < ts"
    and step: "Store.after (persist X C io now s (state_row s i ts fr to (notification_fact_value f)))
      (\<lambda>s'. expected (notification (ms_projection s') r m)) = (x, s')"
  obtains (none) e where "x = Inl e" "e \<noteq> StorePanic" "appends X C ws lines s s' None"
  | (one) c where "x = Inr c" "appends X C ws lines s s' (Some (state_row s i ts fr to (notification_fact_value f)))"
      "notifications (ms_projection s') = hm_insert (r, m) c (notifications (ms_projection s))"
      "nr_updated_seq c = Suc (length lines)" "covers {Notifications} (ms_projection s) (ms_projection s')"
proof -
  let ?line = "state_row s i ts fr to (notification_fact_value f)"
  have fresh: "fresh_line s ?line" using ts by simp
  from ok fresh step show thesis
  proof (cases rule: after_cases)
    case (none e)
    then show thesis by (rule that(1))
  next
    case one
    obtain pm where pm: "prepare_line X (ms_projection s) ?line = Inr pm" "commit_line (ms_projection s) ?line pm = Some (ms_projection s')"
      "covers (mutation_areas pm) (ms_projection s) (ms_projection s')"
      by (rule appends_prepared [OF one(2)])
    obtain c where c: "mutation_areas pm = {Notifications}"
      "notification_effect pm (notifications (ms_projection s)) = hm_insert (r, m) c (notifications (ms_projection s))"
      "nr_updated_seq c = lw_next_seq (ms_writer s)"
      using written_fact_prepared [OF pm(1) f] by metis
    have n: "notifications (ms_projection s') = hm_insert (r, m) c (notifications (ms_projection s))"
      using commit_line_notifications [OF pm(2)] c(2) by simp
    show thesis
    proof (rule that(2))
      show "x = Inr c" using one(1) n by (simp add: notification_def expected_def)
      show "nr_updated_seq c = Suc (length lines)" using c(3) store_okD(5) [OF ok] by simp
      show "covers {Notifications} (ms_projection s) (ms_projection s')" using pm(3) c(1) by simp
    qed (use one n in simp_all)
  qed
qed

text \<open>The steps of one notification: transitions, requeues of one attempt, withdrawals.\<close>

lemma fact_appends:
  assumes ok: "store_ok X C ws s lines" and f: "fact_entry f = Some (r, m)" "\<And>t. f \<noteq> NotificationCleared t"
    and step: "append_notification_fact_at X C io now s m r f ts = (x, s')"
  obtains (none) e where "x = Inl e" "e \<noteq> StorePanic" "appends X C ws lines s s' None"
  | (one) c line where "x = Inr c" "appends X C ws lines s s' (Some line)"
      "line = state_row s m (time_or_now ts now) daemon_label [key_to_string X r] (notification_fact_value f)"
      "notifications (ms_projection s') = hm_insert (r, m) c (notifications (ms_projection s))"
      "nr_updated_seq c = Suc (length lines)" "covers {Notifications} (ms_projection s) (ms_projection s')"
proof -
  let ?line = "state_row s m (time_or_now ts now) daemon_label [key_to_string X r] (notification_fact_value f)"
  consider (refused) e where "x = Inl (StoreMailbox e)" "s' = s"
    | (injected) "x = Inl (StoreLedger LedgerIo)" "s' = s\<lparr> ms_fail_notification_recovery_append := None \<rparr>"
    | (ran) "Store.after (persist X C io now s ?line) (\<lambda>s'. expected (notification (ms_projection s') r m)) = (x, s')"
    using step by (cases "prepare_line X (ms_projection s) ?line"; cases "injected_failure s f")
      (auto simp: append_notification_fact_at_def Let_def)
  then show thesis
  proof cases
    case refused
    then show thesis using that(1) appends_same [OF ok] by simp
  next
    case injected
    then show thesis using that(1) ok by (simp add: appends_def store_ok_def pending_line_def)
  next
    case ran
    have ts: "0 < time_or_now ts now" by simp
    from ok f ts ran show thesis
    proof (cases rule: written_fact_appends)
      case (none e)
      then show thesis by (rule that(1))
    next
      case (one c)
      show thesis by (rule that(2) [OF one(1,2) refl one(3-5)])
    qed
  qed
qed

lemma withdraw_appends:
  assumes ok: "store_ok X C ws s lines" and step: "withdraw_notification_before_write X C io now s operator r a = (x, s')"
  obtains (none) e where "x = Inl e" "e \<noteq> StorePanic" "appends X C ws lines s s' None"
  | (already) c where "x = Inr c" "s' = s"
  | (one) c line where "x = Inr c" "appends X C ws lines s s' (Some line)" "nr_updated_seq c = Suc (length lines)"
      "covers {Notifications} (ms_projection s) (ms_projection s')"
proof -
  let ?row = "\<lambda>m. state_row s m (max now 1) (key_to_string X operator) [key_to_string X r]
    (notification_fact_value (NotificationWithdrawnBeforeWrite (attempt_fact_of m r a) operator))"
  consider (refused) e where "x = Inl (StoreMailbox e)" "s' = s" | (same) c where "x = Inr c" "s' = s"
    | (ran) m where "Store.after (persist X C io now s (?row m)) (\<lambda>s'. expected (notification (ms_projection s') r m)) = (x, s')"
    using step by (auto simp: withdraw_notification_before_write_def Let_def split: option.splits if_splits)
  then show thesis
  proof cases
    case refused
    then show thesis using none appends_same [OF ok] by simp
  next
    case same
    then show thesis by (rule already)
  next
    case (ran m)
    have f: "fact_entry (NotificationWithdrawnBeforeWrite (attempt_fact_of m r a) operator) = Some (r, m)"
      "\<And>t. NotificationWithdrawnBeforeWrite (attempt_fact_of m r a) operator \<noteq> NotificationCleared t"
      by (simp_all add: attempt_fact_of_def)
    have ts: "0 < max now 1" by simp
    from ok f ts ran show thesis
    proof (cases rule: written_fact_appends)
      case (none e)
      then show thesis by (rule that(1))
    next
      case (one c)
      show thesis by (rule that(3) [OF one(1,2,4,5)])
    qed
  qed
qed

lemma fold_insert_value:
  "k \<in> fst ` set kvs \<Longrightarrow> \<exists>v. (k, v) \<in> set kvs \<and> hm_get (fold (\<lambda>(k, v). hm_insert k v) kvs N) k = Some v"
proof (induction kvs arbitrary: N rule: rev_induct)
  case (snoc kv kvs)
  then show ?case by (cases kv) (auto split: if_splits)
qed simp

lemma requeues_prepared:
  assumes "prepare_line X p (state_row s m ts fr to (notification_fact_value (NotificationsRequeued v m qs))) = Inr pm"
  obtains records where "pm = PreparedRequeues records" "map fst records = map (\<lambda>q. (rq_recipient q, m)) qs"
    "\<forall>c\<in>set (map snd records). nr_updated_seq c = lw_next_seq (ms_writer s)"
proof -
  let ?line = "state_row s m ts fr to (notification_fact_value (NotificationsRequeued v m qs))"
  have "prepare_state X p ?line False = Inr pm" by (rule prepared_state_row [OF assms]) (simp add: state_row_def)
  then have "prepare_notification_requeues X p ?line = Inr pm"
    by (simp add: prepare_state_def state_row_def notification_fact_value_def)
  then obtain records where rec: "requeue_records p ?line m [] qs = Inr records" "pm = PreparedRequeues records"
    by (auto simp: prepare_notification_requeues_def notification_fact_of_def notification_fact_value_def state_row_def
        result_simps)
  have "ln_seq ?line = lw_next_seq (ms_writer s)" by (simp add: state_row_def)
  then have "\<forall>c\<in>set (map snd records). nr_updated_seq c = lw_next_seq (ms_writer s)"
    unfolding requeue_records_Inr(2) [OF rec(1)] by (auto simp: queued_record_def)
  with that [OF rec(2) requeue_records_Inr(1) [OF rec(1)]] show thesis by blast
qed

lemma requeue_batch_appends:
  assumes ok: "store_ok X C ws s lines" and step: "requeue_notifications_at X C io now s m qs ts = (x, s')" and qs: "qs \<noteq> []"
  obtains (none) e where "x = Inl e" "e \<noteq> StorePanic" "appends X C ws lines s s' None"
  | (one) c cs line where "x = Inr (c # cs)" "appends X C ws lines s s' (Some line)" "nr_updated_seq c = Suc (length lines)"
      "covers {Notifications} (ms_projection s) (ms_projection s')"
proof -
  let ?row = "state_row s m (time_or_now ts now) daemon_label (map (key_to_string X) (map rq_recipient qs))
    (notification_fact_value (NotificationsRequeued canonical_record_version m qs))"
  let ?read = "\<lambda>s'. try_map (\<lambda>r. expected (notification (ms_projection s') r m)) (map rq_recipient qs)"
  have ran: "Store.after (persist X C io now s ?row) ?read = (x, s')"
    using step by (simp add: requeue_notifications_at_def Let_def)
  have fresh: "fresh_line s ?row" by simp
  from ok fresh ran show thesis
  proof (cases rule: after_cases)
    case (none e)
    then show thesis by (rule that(1))
  next
    case one
    obtain pm where pm: "prepare_line X (ms_projection s) ?row = Inr pm" "commit_line (ms_projection s) ?row pm = Some (ms_projection s')"
      "covers (mutation_areas pm) (ms_projection s) (ms_projection s')"
      by (rule appends_prepared [OF one(2)])
    obtain records where rec: "pm = PreparedRequeues records" "map fst records = map (\<lambda>q. (rq_recipient q, m)) qs"
      "\<forall>c\<in>set (map snd records). nr_updated_seq c = lw_next_seq (ms_writer s)"
      by (rule requeues_prepared [OF pm(1)])
    have n: "notifications (ms_projection s') = fold (\<lambda>(k, rec). hm_insert k rec) records (notifications (ms_projection s))"
      using commit_line_notifications [OF pm(2)] rec(1) by simp
    obtain q qs' where q: "qs = q # qs'" using qs by (cases qs) auto
    have "(rq_recipient q, m) \<in> set (map fst records)" unfolding rec(2) by (simp add: q)
    then obtain c where c: "((rq_recipient q, m), c) \<in> set records" "notification (ms_projection s') (rq_recipient q) m = Some c"
      using fold_insert_value [of "(rq_recipient q, m)" records "notifications (ms_projection s)"] n
      by (auto simp: notification_def)
    have "nr_updated_seq c = Suc (length lines)" using c(1) rec(3) store_okD(5) [OF ok] by force
    moreover have "?read s' = Inr (map (\<lambda>r. the (notification (ms_projection s') r m)) (map rq_recipient qs))"
    proof (rule try_map_all_Inr, rule ballI)
      fix r assume "r \<in> set (map rq_recipient qs)"
      then have "notification (ms_projection s') r m \<noteq> None"
        using requeued_notifications one(2) by (auto simp: appends_def)
      then show "expected (notification (ms_projection s') r m) = Inr (the (notification (ms_projection s') r m))"
        by (auto simp: expected_def)
    qed
    then obtain cs where "x = Inr (c # cs)" using one(1) c(2) by (simp add: q)
    ultimately show thesis using that(2) one(2) pm(3) rec(1) by simp
  qed
qed

lemma requeues_appends:
  assumes ok: "store_ok X C ws s lines" and step: "requeue_notifications X C io now s m qs = (x, s')"
  obtains (none) e where "x = Inl e" "e \<noteq> StorePanic" "appends X C ws lines s s' None"
  | (nothing) "x = Inr []" "s' = s"
  | (one) c cs line where "x = Inr (c # cs)" "appends X C ws lines s s' (Some line)" "nr_updated_seq c = Suc (length lines)"
      "covers {Notifications} (ms_projection s) (ms_projection s')"
proof (cases qs rule: remdups_adj.cases)
  case 1
  show thesis by (rule nothing) (use step 1 in \<open>simp_all add: requeue_notifications_def\<close>)
next
  case (2 q)
  let ?f = "NotificationRequeued (attempt_fact_of m (rq_recipient q) (rq_attempt_id q)) (rq_prior_attempt_id q)"
  obtain y where y: "append_notification_fact_at X C io now s m (rq_recipient q) ?f now = (y, s')"
    "x = map_sum id (\<lambda>c. [c]) y"
    using step 2 by (auto simp: requeue_notifications_def requeue_notification_at_def split: prod.splits sum.splits)
  have f: "fact_entry ?f = Some (rq_recipient q, m)" "\<And>t. ?f \<noteq> NotificationCleared t"
    by (simp_all add: attempt_fact_of_def)
  from ok f y(1) show thesis
  proof (cases rule: fact_appends)
    case (none e)
    then show thesis using that(1) y(2) by simp
  next
    case (one c line)
    then show thesis using that(3) y(2) by simp
  qed
next
  case (3 q1 q2 qs')
  then have step': "requeue_notifications_at X C io now s m qs now = (x, s')" and ne: "qs \<noteq> []"
    using step by (simp_all add: requeue_notifications_def)
  from ok step' ne show thesis
  proof (cases rule: requeue_batch_appends)
    case (none e)
    then show thesis by (rule that(1))
  next
    case (one c cs line)
    then show thesis by (rule that(3))
  qed
qed

lemma clears_appends:
  assumes ok: "store_ok X C ws s lines"
    and step: "clear_notifications_at X C io now random s operator attempts cutoff ts = (x, s')"
  obtains (none) e where "x = Inl e" "e \<noteq> StorePanic" "appends X C ws lines s s' None"
  | (nothing) "x = Inr ()" "s' = s"
  | (one) line where "x = Inr ()" "appends X C ws lines s s' (Some line)" "covers {Attention} (ms_projection s) (ms_projection s')"
proof -
  let ?batch = "''clear-'' @ random"
  let ?f = "NotificationsCleared canonical_record_version ?batch attempts operator cutoff"
  let ?row = "\<lambda>to. state_row s ?batch (time_or_now ts now) (key_to_string X operator) to (notification_fact_value ?f)"
  consider (refused) e where "x = Inl (StoreMailbox e)" "s' = s" | (empty) "x = Inr ()" "s' = s"
    | (ran) to where "persist X C io now s (?row to) = (x, s')"
  proof (cases "operator \<noteq> key_admin (workspace_id (ms_projection s)) \<or> attempts = []")
    case True
    then show thesis using step refused empty by (auto simp: clear_notifications_at_def Let_def split: if_splits)
  next
    case False
    then have "(case try_map (attempt_recipient_text X (ms_projection s)) attempts of
        Inl e \<Rightarrow> (Inl (StoreMailbox e), s) | Inr to \<Rightarrow> persist X C io now s (?row (sorted_unique to))) = (x, s')"
      using step unfolding clear_notifications_at_def Let_def by auto
    then show thesis using refused ran by (auto split: sum.splits)
  qed
  then show thesis
  proof cases
    case refused
    then show thesis using none appends_same [OF ok] by simp
  next
    case empty
    then show thesis by (rule nothing)
  next
    case (ran to)
    then have ran': "Store.after (persist X C io now s (?row to)) (\<lambda>_. Inr ()) = (x, s')"
      by (cases x) (simp_all add: Store.after_def)
    have fresh: "fresh_line s (?row to)" by simp
    from ok fresh ran' show thesis
    proof (cases rule: after_cases)
      case (none e)
      then show thesis by (rule that(1))
    next
      case one
      obtain pm where pm: "prepare_line X (ms_projection s) (?row to) = Inr pm"
        "covers (mutation_areas pm) (ms_projection s) (ms_projection s')"
        using appends_prepared [OF one(2)] by metis
      have "prepare_state X (ms_projection s) (?row to) False = Inr pm"
        by (rule prepared_state_row [OF pm(1)]) (simp add: state_row_def)
      then have "prepare_notification_clears X (ms_projection s) (?row to) = Inr pm"
        by (simp add: prepare_state_def state_row_def notification_fact_value_def)
      then obtain b as where "pm = PreparedClears b as"
        by (auto simp: prepare_notification_clears_def notification_fact_of_def notification_fact_value_def state_row_def
            result_simps split: if_splits)
      then show thesis using that(3) one pm(2) by simp
    qed
  qed
qed

lemma claim_row_prepared:
  assumes "prepare_line X p (state_row s i ts fr to (mailbox_fact_value (MessageClaimed f))) = Inr pm"
  shows "\<exists>line. pm = PreparedClaim (cf_message_id f) (cf_recipient f) (cf_claimant f)
    (claim_notification_update p line (cf_recipient f) (cf_message_id f))"
proof -
  let ?line = "state_row s i ts fr to (mailbox_fact_value (MessageClaimed f))"
  have "prepare_state X p ?line False = Inr pm" by (rule prepared_state_row [OF assms]) (simp add: state_row_def)
  then have "prepare_claim X p ?line = Inr pm"
    by (simp add: prepare_state_def state_row_def mailbox_fact_value_def)
  then show ?thesis
    by (auto simp: prepare_claim_def claim_fact_of_def mailbox_fact_value_def state_row_def result_simps Let_def)
qed

definition claim_changes :: "mailbox_projection \<Rightarrow> recipient_key \<Rightarrow> message_id \<Rightarrow> bool" where
  "claim_changes p r m = is_some_and (notification p r m) claim_changes_notification"

lemma claim_update_None: "\<not> claim_changes p r m \<Longrightarrow> claim_notification_update p line r m = None"
  by (cases "hm_get (notifications p) (r, m)")
    (auto simp: claim_changes_def claim_notification_update_def claim_changes_notification_def notification_def Let_def)

lemma claim_appends:
  assumes ok: "store_ok X C ws s lines" and step: "claim_at X C io now s claimant m ts = (x, s')"
  obtains (none) e where "x = Inl e" "e \<noteq> StorePanic" "appends X C ws lines s s' None"
  | (repeat) e message w consumed where "x = Inr (ClaimedBefore e message w consumed)" "s' = s"
  | (one) e message skipped w consumed line where "x = Inr (ClaimedNow e message skipped w consumed)"
      "appends X C ws lines s s' (Some line)" "covers (claim_areas (claim_changes (ms_projection s) claimant m) w) (ms_projection s) (ms_projection s')"
proof -
  let ?p = "ms_projection s"
  have np: "x \<noteq> Inl StorePanic" using claim_keeps [OF ok, of io now claimant m ts] step by (auto simp: keeps_def)
  let ?row = "\<lambda>r. state_row s m (time_or_now ts now) (key_to_string X claimant) [] (mailbox_fact_value (MessageClaimed
    \<lparr> cf_record_version = canonical_record_version, cf_message_id = m, cf_recipient = r, cf_claimant = claimant \<rparr>))"
  consider (refused) e where "x = Inl (StoreMailbox e)" "s' = s"
    | (old) e message w consumed where "x = Inr (ClaimedBefore e message w consumed)" "s' = s"
    | (ran) e message skipped w consumed where "get_entry ?p claimant m = Some e"
        "Store.after (persist X C io now s (?row (me_recipient e))) (\<lambda>s'.
           rbind (expected (get_entry (ms_projection s') claimant m)) (\<lambda>updated.
           Inr (ClaimedNow updated message skipped w consumed))) = (x, s')"
    using step unfolding claim_at_def Let_def
    by (auto split: option.splits sum.splits mailbox_entry_state.splits if_splits)
  then show thesis
  proof cases
    case refused
    then show thesis using none appends_same [OF ok] by simp
  next
    case old
    then show thesis by (rule repeat)
  next
    case (ran e message skipped w consumed)
    have r: "me_recipient e = claimant"
      using entry_ids [OF _ ran(1)] store_okD(4) [OF ok] by (simp add: projection_inv_def mailbox_inv_def)
    have fresh: "fresh_line s (?row (me_recipient e))" by simp
    from ok fresh ran(2) show thesis
    proof (cases rule: after_cases)
      case (none e)
      then show thesis by (rule that(1))
    next
      case one
      obtain updated where u: "x = Inr (ClaimedNow updated message skipped w consumed)"
        using one(1) np by (cases "get_entry (ms_projection s') claimant m") (auto simp: expected_def)
      obtain pm where pm: "prepare_line X ?p (?row (me_recipient e)) = Inr pm"
        "covers (mutation_areas pm) ?p (ms_projection s')"
        using appends_prepared [OF one(2)] by metis
      obtain line where "pm = PreparedClaim m claimant claimant (claim_notification_update ?p line claimant m)"
        using claim_row_prepared [OF pm(1)] by (auto simp: r)
      then have "mutation_areas pm \<subseteq> claim_areas (claim_changes ?p claimant m) w"
        using claim_update_None [of ?p claimant m line] by (auto simp: claim_areas_def)
      then show thesis using that(3) [OF u one(2)] covers_mono pm(2) by blast
    qed
  qed
qed

lemma claim_locator_appends:
  assumes ok: "store_ok X C ws s lines" and step: "claim_notification_locator X C io now s claimant locator a = (x, s')"
  obtains (none) e where "x = Inl e" "e \<noteq> StorePanic" "appends X C ws lines s s' None"
  | (repeat) e message w consumed changed where "x = Inr (ClaimedBefore e message w consumed, changed)" "s' = s"
  | (one) e message skipped w consumed changed line where "x = Inr (ClaimedNow e message skipped w consumed, changed)"
      "appends X C ws lines s s' (Some line)" "covers (claim_areas changed w) (ms_projection s) (ms_projection s')"
proof -
  let ?p = "ms_projection s"
  have att: "attempt_inv ?p" using store_okD(4) [OF ok] by (simp add: projection_inv_def)
  consider (refused) e where "x = Inl (StoreMailbox e)" "s' = s"
    | (ran) y m where "claim_at X C io now s claimant m now = (y, s')" "x = map_sum id (\<lambda>v. (v, claim_changes ?p claimant m)) y"
  proof (cases "hs_contains (notification_attempts ?p) a")
    case False
    then show thesis using step ran
      by (auto simp: claim_notification_locator_def Let_def claim_changes_def split: prod.splits sum.splits)
  next
    case True
    show thesis
    proof (cases "notification_by_attempt ?p a")
      case None
      then show thesis using step True refused by (auto simp: claim_notification_locator_def Let_def)
    next
      case (Some c)
      obtain k where k: "hm_get (notifications ?p) k = Some c" "nr_attempt_id c = a"
        using Some notification_by_attempt_Some [OF att] by blast
      have "k = (nr_recipient c, nr_message_id c)" using attempt_invD(4,5) [OF att] k(1) by (cases k) auto
      then have ch: "claim_changes_notification c = claim_changes ?p (nr_recipient c) (nr_message_id c)"
        using k(1) by (simp add: claim_changes_def notification_def)
      then show thesis using step True Some refused ran [of "nr_message_id c"]
        by (auto simp: claim_notification_locator_def Let_def split: prod.splits sum.splits if_splits)
    qed
  qed
  then show thesis
  proof cases
    case refused
    then show thesis using none appends_same [OF ok] by simp
  next
    case (ran y m)
    from ok ran(1) show thesis
    proof (cases rule: claim_appends)
      case (none e)
      then show thesis using that(1) ran(2) by simp
    next
      case (repeat e message w consumed)
      then show thesis using that(2) ran(2) by simp
    next
      case (one e message skipped w consumed line)
      then show thesis using that(3) ran(2) by simp
    qed
  qed
qed

lemma message_covers:
  assumes ok: "store_ok X C ws s lines" and app: "appends X C ws lines s s' (Some line)" and kind: "is_message line"
    and md: "extract_message_metadata line = Inr md"
  shows "covers (accepted_areas (superseded_notification (ms_projection s) line md \<noteq> None)) (ms_projection s) (ms_projection s')"
proof -
  obtain pm where pm: "prepare_line X (ms_projection s) line = Inr pm" "covers (mutation_areas pm) (ms_projection s) (ms_projection s')"
    using appends_prepared [OF app] by metis
  obtain md' up where msg: "pm = PreparedMessage (ln_id line) md' up" "extract_message_metadata line = Inr md'"
    using prepared_message(1) [OF pm(1) [unfolded prepare_line_def] kind] by blast
  have "legal (ms_projection s) line pm" using prepare_line_inner_legal pm(1) by (simp add: prepare_line_def)
  then have "up = superseded_notification (ms_projection s) line md"
    unfolding msg(1) by (cases rule: legal.cases) (use md in simp)
  then show ?thesis using pm(2) msg(1) by (auto simp: accepted_areas_def split: if_splits)
qed

lemma superseded_withdraws:
  "md_supersedes md = dr_supersedes draft \<Longrightarrow> md_recipients md = dr_recipients draft \<Longrightarrow>
   superseded_notification p line md \<noteq> None \<longleftrightarrow> withdraws_notification p draft"
  by (auto simp: superseded_notification_def withdraws_notification_def is_some_and_def notification_def
      split: option.splits list.splits)

text \<open>An answer about one notification: refused without a trace, or recorded at the next sequence.\<close>

definition records ::
  "extern \<Rightarrow> line_codec \<Rightarrow> Identity.workspace_id \<Rightarrow> ledger_line list \<Rightarrow> message_store \<Rightarrow> notification_record store_answer \<Rightarrow> bool" where
  "records X C ws lines s answer \<longleftrightarrow>
     (\<forall>e s'. answer = (Inl e, s') \<longrightarrow> e \<noteq> StorePanic \<and> appends X C ws lines s s' None) \<and>
     (\<forall>c s'. answer = (Inr c, s') \<longrightarrow> (\<exists>line. appends X C ws lines s s' (Some line) \<and>
        nr_updated_seq c = Suc (length lines) \<and> covers {Notifications} (ms_projection s) (ms_projection s')))"

lemma transition_records:
  assumes "store_ok X C ws s lines"
  shows "records X C ws lines s (append_notification_transition_full_at X C io now s f ts)"
proof -
  have f: "fact_entry (NotificationTransition f) = Some (tf_recipient f, tf_message_id f)"
    "\<And>t. NotificationTransition f \<noteq> NotificationCleared t" by simp_all
  show ?thesis
    unfolding records_def append_notification_transition_full_at_def
    by (safe; erule fact_appends [OF assms f]) auto
qed

lemma records_refused: "store_ok X C ws s lines \<Longrightarrow> e \<noteq> StorePanic \<Longrightarrow> records X C ws lines s (Inl e, s)"
  by (simp add: records_def appends_same)

lemma operation_records:
  assumes ok: "store_ok X C ws s lines"
  shows "records X C ws lines s (queue_notification X C io now s m r a)"
    and "records X C ws lines s (advance_notification X C io now s m r a st binding cause)"
    and "records X C ws lines s (block_notification_before_write_with_wake_block X C io now s m r a pre ob block)"
    and "records X C ws lines s (block_notification_before_write X C io now s m r a pre ob)"
    and "records X C ws lines s (advance_notification_raw_writing X C io now s m r a)"
    and "records X C ws lines s (advance_notification_notified X C io now s m r a verified)"
    and "records X C ws lines s (advance_notification_mailbox_notified X C io now s m r a)"
    and "records X C ws lines s (advance_notification_with_transport X C io now s m r a st b transport fmt)"
  by (simp_all add: transition_defs Let_def transition_records [OF ok] advance_notification_with_transport_def
      records_refused [OF ok] split: option.splits)

end
