(* ===== verification/View_Properties.thy ===== *)
theory View_Properties
  imports Service_Laws Sample_Run
begin

text \<open>
  The properties of the views: what a snapshot, a followed page and the blocked wakes of
  \<open>status\<close> show of a projection that a journal built.
\<close>

section \<open>Snapshots\<close>

text \<open>
  What the protocol promises, in terms of the journal's entries and attempts alone. A message is the
  caller's business when the caller is the administrator, sent it, or has an entry of it. It is unsettled
  while some recipient has not taken its entry, or some wake of it is still under way, held for quota, or
  left an alarm that is neither cleared nor resolved.
\<close>

definition concerns :: "mailbox_projection \<Rightarrow> recipient_key \<Rightarrow> message_id \<Rightarrow> bool" where
  "concerns p caller m \<longleftrightarrow>
     (\<exists>line md. get_message p m = Some line \<and> extract_message_metadata line = Inr md \<and>
        (caller = key_admin (workspace_id p) \<or> md_sender md = caller \<or> get_entry p caller m \<noteq> None))"

definition wake_open :: "mailbox_projection \<Rightarrow> notification_record \<Rightarrow> bool" where
  "wake_open p c \<longleftrightarrow>
     nr_state c \<notin> {Notified, AttentionRequired, Withdrawn, WithdrawnAfterStaging, WithdrawnByOperator, Superseded} \<or>
     nr_state c = AttentionRequired \<and> nr_attempt_id c \<notin> set (cleared_attempts p) \<and>
       hm_get (resolved_attempts p) (nr_attempt_id c) = None"

definition unsettled :: "mailbox_projection \<Rightarrow> message_id \<Rightarrow> bool" where
  "unsettled p m \<longleftrightarrow>
     (\<exists>r e. get_entry p r m = Some e \<and>
        (me_state e = Pending \<or> (\<exists>c. hm_get (notifications p) (r, m) = Some c \<and> wake_open p c)))"

definition journal_seq :: "mailbox_projection \<Rightarrow> message_id \<Rightarrow> nat" where
  "journal_seq p m = (case get_message p m of None \<Rightarrow> 0 | Some line \<Rightarrow> ln_seq line)"

definition newer_settled :: "mailbox_projection \<Rightarrow> recipient_key \<Rightarrow> message_id \<Rightarrow> message_id set" where
  "newer_settled p caller m = {n. concerns p caller n \<and> \<not> unsettled p n \<and> journal_seq p m < journal_seq p n}"

lemma concerns_may_see:
  assumes inv: "projection_inv p" and caller: "rk_workspace caller = workspace_id p"
  shows "concerns p caller m \<longleftrightarrow> may_see p caller m"
proof (cases "get_message p m")
  case (Some line)
  then have line: "hm_get (messages p) m = Some line" by (simp add: get_message_def)
  obtain md where md: "extract_message_metadata line = Inr md"
    and entry: "\<And>r. r \<in> set (md_recipients md) \<Longrightarrow> \<exists>e. get_entry p r m = Some e"
    using stored_message [OF inv line] by metis
  have "caller \<in> set (md_recipients md)" if "get_entry p caller m = Some e" for e
    using recipient_of_entry [OF inv line that] md by (metis metadata_of_def nth_mem sum.sel(2))
  then have "get_entry p caller m \<noteq> None \<longleftrightarrow> caller \<in> set (md_recipients md)" using entry by fastforce
  moreover have "caller = key_admin (workspace_id p) \<longleftrightarrow> is_admin caller"
    using caller by (cases caller) (auto simp: key_admin_def is_admin_def)
  ultimately show ?thesis using Some md by (auto simp: concerns_def may_see_def visible_to_def get_message_def)
qed (simp add: concerns_def may_see_def get_message_def)

lemma recipient_active_open:
  "recipient_active e rec (notification_summary p rec) \<longleftrightarrow>
     me_state e = Pending \<or> (\<exists>c. rec = Some c \<and> wake_open p c)"
proof (cases rec)
  case (Some c)
  then show ?thesis
    by (cases "nr_state c") (auto simp: recipient_active_def notification_summary_def attention_open_def quota_open_def
        is_terminal_def wake_open_def Let_def alarm_cleared_def hs_contains_def is_pending_def
        split: mailbox_entry_state.splits)
qed (auto simp: recipient_active_def is_pending_def split: mailbox_entry_state.splits)

lemma row_active_unsettled:
  assumes inv: "projection_inv p" and view: "view_inv X p" and line: "line \<in> set (seen_lines p caller)"
  shows "sr_active (mt_row (message_turn_at X p caller live_routes line)) \<longleftrightarrow> unsettled p (ln_id line)"
proof
  let ?t = "message_turn_at X p caller live_routes line"
  assume act: "sr_active (mt_row ?t)"
  note stored = seen_lines_ids(2) [OF inv line]
  obtain labels where turns: "mt_recipients ?t = map (\<lambda>x. projr (recipient_turn_of p caller live_routes (fifo_positions p)
      (ln_id line) (md_sender (metadata_of line)) x)) (zip (md_recipients (metadata_of line)) labels)"
    "sr_active (mt_row ?t) \<longleftrightarrow> list_ex tu_active (mt_recipients ?t)"
    by (rule turn_at [OF inv view line])
  then obtain r label where r: "r \<in> set (md_recipients (metadata_of line))"
    "tu_active (projr (recipient_turn_of p caller live_routes (fifo_positions p) (ln_id line)
       (md_sender (metadata_of line)) (r, label)))"
    using act by (auto simp: list_ex_iff dest: set_zip_leftD)
  obtain e where e: "get_entry p r (ln_id line) = Some e"
    using stored_message [OF inv stored] r(1) by (metis metadata_of_def sum.sel(2))
  then have "recipient_active e (notification p r (ln_id line)) (notification_summary p (notification p r (ln_id line)))"
    using r(2) by (simp add: recipient_turn_of_def Let_def)
  then show "unsettled p (ln_id line)"
    using e by (auto simp: recipient_active_open unsettled_def notification_def)
next
  assume "unsettled p (ln_id line)"
  then obtain r e where "get_entry p r (ln_id line) = Some e"
    "recipient_active e (notification p r (ln_id line)) (notification_summary p (notification p r (ln_id line)))"
    by (auto simp: recipient_active_open unsettled_def notification_def)
  then show "sr_active (mt_row (message_turn_at X p caller live_routes line))" by (rule active_row [OF inv view line])
qed

text \<open>Trimming keeps the active rows and the settled ones that fewer than the bound follow.\<close>

lemma trim_settled_kept:
  "sorted_wrt (<) (map sr_seq rows) \<Longrightarrow> set (trim_settled skip n rows) =
     {row \<in> set rows. sr_active row \<or> skip \<le> n + length (filter (\<lambda>x. \<not> sr_active x \<and> sr_seq x < sr_seq row) rows)}"
proof (induction rows arbitrary: n)
  case (Cons row rows)
  then have later: "\<forall>x\<in>set rows. sr_seq row < sr_seq x" by simp
  then have none: "filter (\<lambda>x. \<not> sr_active x \<and> sr_seq x < sr_seq row) rows = []" by (force simp: filter_empty_conv)
  have "row \<notin> set rows" using later by auto
  then show ?case using Cons later by (cases "sr_active row") (auto simp: none)
qed simp

lemma settled_around:
  assumes "sorted_wrt (<) (map sr_seq rows)" and "row \<in> set rows" and "\<not> sr_active row"
  shows "length (filter (\<lambda>x. \<not> sr_active x) rows) =
    Suc (length (filter (\<lambda>x. \<not> sr_active x \<and> sr_seq x < sr_seq row) rows) +
      length (filter (\<lambda>x. \<not> sr_active x \<and> sr_seq row < sr_seq x) rows))"
  using assms
proof (induction rows)
  case (Cons x rows)
  then have later: "\<forall>y\<in>set rows. sr_seq x < sr_seq y" by simp
  show ?case
  proof (cases "x = row")
    case True
    then have "filter (\<lambda>y. \<not> sr_active y \<and> sr_seq y < sr_seq row) rows = []"
      "filter (\<lambda>y. \<not> sr_active y \<and> sr_seq row < sr_seq y) rows = filter (\<lambda>y. \<not> sr_active y) rows"
      using later by (force simp: filter_empty_conv, intro filter_cong) auto
    then show ?thesis using True Cons.prems(3) by simp
  next
    case False
    then have row: "row \<in> set rows" using Cons.prems by simp
    then have "sr_seq x < sr_seq row" using later by auto
    then show ?thesis using Cons.IH [OF _ row Cons.prems(3)] Cons.prems(1) by auto
  qed
qed simp

lemma trim_settled_newest:
  assumes "sorted_wrt (<) (map sr_seq rows)"
  shows "set (trim_settled (length (filter (\<lambda>x. \<not> sr_active x) rows) - recent) 0 rows) =
    {row \<in> set rows. sr_active row \<or> length (filter (\<lambda>x. \<not> sr_active x \<and> sr_seq row < sr_seq x) rows) < recent}"
proof -
  have "length (filter (\<lambda>x. \<not> sr_active x) rows) - recent \<le> length (filter (\<lambda>x. \<not> sr_active x \<and> sr_seq x < sr_seq row) rows)
      \<longleftrightarrow> length (filter (\<lambda>x. \<not> sr_active x \<and> sr_seq row < sr_seq x) rows) < recent"
    if "row \<in> set rows" "\<not> sr_active row" for row
    using settled_around [OF assms that] by linarith
  then show ?thesis unfolding trim_settled_kept [OF assms] by auto
qed

lemma image_Collect_member: "f ` {x \<in> A. P (f x)} = {y \<in> f ` A. P y}"
  by auto

lemma newer_settled_rows:
  assumes inv: "projection_inv p" and view: "view_inv X p" and caller: "rk_workspace caller = workspace_id p"
    and line: "line \<in> set (seen_lines p caller)"
  shows "length (filter (\<lambda>x. \<not> sr_active x \<and> ln_seq line < sr_seq x) (all_rows X p caller live_routes)) =
    card (newer_settled p caller (ln_id line))"
proof -
  let ?ls = "filter (\<lambda>l. \<not> unsettled p (ln_id l) \<and> ln_seq line < ln_seq l) (seen_lines p caller)"
  note row = row_of_line [OF inv view] row_active_unsettled [OF inv view] and ids = seen_lines_ids [OF inv]
  have "length (filter (\<lambda>x. \<not> sr_active x \<and> ln_seq line < sr_seq x) (all_rows X p caller live_routes)) = length ?ls"
    by (simp add: filter_map comp_def row cong: filter_cong)
  also have "\<dots> = card (ln_id ` set ?ls)"
  proof -
    have "distinct (seen_lines p caller)"
      using seen_lines_ordered [OF inv view, of caller] by (simp add: strict_sorted_iff distinct_map)
    moreover have "inj_on ln_id (set ?ls)" using ids(2) by (intro inj_onI) (metis filter_is_subset option.inject subsetD)
    ultimately show ?thesis by (simp only: card_image distinct_card distinct_filter)
  qed
  also have "ln_id ` set ?ls = newer_settled p caller (ln_id line)"
  proof -
    have seq: "journal_seq p (ln_id l) = ln_seq l" if "l \<in> set (seen_lines p caller)" for l
      using ids(2) [OF that] by (simp add: journal_seq_def get_message_def)
    have "concerns p caller n \<longleftrightarrow> n \<in> ln_id ` set (seen_lines p caller)" for n
      using concerns_may_see [OF inv caller] ids(1) [of caller] by auto
    then show ?thesis using seq line by (auto simp: newer_settled_def)
  qed
  finally show ?thesis .
qed

text \<open>C30. A snapshot never fails for a caller of the workspace, and shows exactly what the protocol
  promises: of the messages that are the caller's business (every message for the administrator, otherwise
  those it sent or has an entry of), all that are unsettled, whatever the bound, and of the settled ones
  just those that fewer than the requested number of settled ones follow in the journal. A message whose
  entry was claimed stays unsettled, and is shown, while its wake is under way, held for quota, or has left
  an alarm that is neither cleared nor resolved. The rows are in journal order, their active flag says
  whether the message is unsettled, and the count of visible messages includes the omitted ones.\<close>

theorem snapshot_shows_callers_messages:
  assumes replay: "replay X (mailbox_projection_new ws) lines = Inr p" and caller: "rk_workspace caller = ws"
  shows "\<exists>s. messages_snapshot X p caller recent live_routes = Inr s \<and>
    sr_message_id ` set (sn_rows s) =
      {m. concerns p caller m \<and> (unsettled p m \<or> card (newer_settled p caller m) < recent)} \<and>
    sorted_wrt (<) (map sr_seq (sn_rows s)) \<and>
    (\<forall>row\<in>set (sn_rows s). sr_active row \<longleftrightarrow> unsettled p (sr_message_id row)) \<and>
    ct_visible_messages (sn_counts s) = card {m. concerns p caller m} \<and>
    ct_returned_messages (sn_counts s) = length (sn_rows s)"
proof -
  note inv = replay_view_inv(1) [OF replay] and view = replay_view_inv(2) [OF replay]
  have own: "rk_workspace caller = workspace_id p" using caller replay_view_inv(3) [OF replay] by simp
  let ?all = "all_rows X p caller live_routes"
  obtain s where s: "messages_snapshot X p caller recent live_routes = Inr s"
    and rows: "sn_rows s = trim_settled (length (filter (\<lambda>row. \<not> sr_active row) ?all) - recent) 0 ?all"
    and visible: "ct_visible_messages (sn_counts s) = length (seen_lines p caller)"
    and returned: "ct_returned_messages (sn_counts s) = length (sn_rows s)"
    using snapshot_result [OF inv view own] by blast
  note facts = all_rows_facts [OF inv view]
  note row = row_of_line [OF inv view] row_active_unsettled [OF inv view]
  have see: "{m. concerns p caller m} = ln_id ` set (seen_lines p caller)"
    using concerns_may_see [OF inv own] seen_lines_ids(1) [OF inv, of caller] by auto
  let ?shown = "\<lambda>l. unsettled p (ln_id l) \<or> card (newer_settled p caller (ln_id l)) < recent"
  have set: "set (sn_rows s) = (\<lambda>l. mt_row (message_turn_at X p caller live_routes l)) ` {l \<in> set (seen_lines p caller). ?shown l}"
  proof -
    have "{x \<in> set ?all. sr_active x \<or> length (filter (\<lambda>y. \<not> sr_active y \<and> sr_seq x < sr_seq y) ?all) < recent} =
        (\<lambda>l. mt_row (message_turn_at X p caller live_routes l)) ` {l \<in> set (seen_lines p caller).
          sr_active (mt_row (message_turn_at X p caller live_routes l)) \<or>
          length (filter (\<lambda>y. \<not> sr_active y \<and> sr_seq (mt_row (message_turn_at X p caller live_routes l)) < sr_seq y) ?all) < recent}"
      by auto
    also have "{l \<in> set (seen_lines p caller). sr_active (mt_row (message_turn_at X p caller live_routes l)) \<or>
          length (filter (\<lambda>y. \<not> sr_active y \<and> sr_seq (mt_row (message_turn_at X p caller live_routes l)) < sr_seq y) ?all) < recent} =
        {l \<in> set (seen_lines p caller). ?shown l}"
      using newer_settled_rows [OF inv view own, where live_routes = live_routes] row by (intro Collect_cong conj_cong) simp_all
    finally show ?thesis unfolding rows trim_settled_newest [OF facts(1)] .
  qed
  have "sr_message_id ` set (sn_rows s) = ln_id ` {l \<in> set (seen_lines p caller). ?shown l}"
    unfolding set image_image by (intro image_cong) (simp_all add: row)
  also have "\<dots> = {m \<in> {m. concerns p caller m}. unsettled p m \<or> card (newer_settled p caller m) < recent}"
    unfolding see by (rule image_Collect_member)
  finally have ids: "sr_message_id ` set (sn_rows s) =
      {m. concerns p caller m \<and> (unsettled p m \<or> card (newer_settled p caller m) < recent)}" by simp
  have "\<forall>x\<in>set (sn_rows s). sr_active x \<longleftrightarrow> unsettled p (sr_message_id x)" unfolding set by (auto simp: row)
  moreover have "sorted_wrt (<) (map sr_seq (sn_rows s))"
    unfolding rows by (rule trim_settled_sorted) (rule facts(1))
  moreover have "card {m. concerns p caller m} = length (seen_lines p caller)"
    using facts(4) [of caller] concerns_may_see [OF inv own] by simp
  ultimately show ?thesis using s ids visible returned by auto
qed

lemma transition_no_attention:
  "prepare_notification_transition X p line b = Inr pm \<Longrightarrow> Attention \<notin> mutation_areas pm"
  by (cases line rule: notification_fact_cases)
    (auto simp: prepare_notification_transition_def result_simps Let_def split: if_splits)

lemma claim_no_attention: "prepare_claim X p line = Inr pm \<Longrightarrow> Attention \<notin> mutation_areas pm"
  by (auto simp: prepare_claim_def result_simps Let_def split: if_splits)

lemma sample_step_clears_nothing:
  assumes "n < 6"
  shows "cleared_attempts (sample_run (Suc n)) = cleared_attempts (sample_run n)"
proof -
  let ?line = "sample_journal ! n"
  obtain pm where pm: "prepare_line_inner sample_extern (sample_run n) ?line False = Inr pm"
    "commit_line (sample_run n) ?line pm = Some (sample_run (Suc n))"
    using sample_step [of n] assms by (auto simp: apply_owned_def apply_inner_Inr_iff)
  have kinds: "?line = sample_message \<or> (\<exists>seq st. ?line = sample_transition seq st) \<or> (\<exists>seq. ?line = sample_claim seq)"
  proof -
    have "n \<in> {0, 1, 2, 3, 4, 5}" using assms by auto
    moreover have "sample_journal ! 1 = sample_transition 2 Queued" "sample_journal ! 2 = sample_transition 3 Gating"
      "sample_journal ! 3 = sample_transition 4 Writing" "sample_journal ! 4 = sample_transition 5 AttentionRequired"
      "sample_journal ! 0 = sample_message" "sample_journal ! 5 = sample_claim 6" by (simp_all add: sample_journal_def)
    ultimately show ?thesis by (elim insertE emptyE) (simp_all only:, blast+)
  qed
  have "Attention \<notin> mutation_areas pm"
    using kinds
  proof (elim disjE exE)
    assume "?line = sample_message"
    then have "is_message ?line" by (simp add: is_message_def sample_message_def)
    then show ?thesis using prepared_message(1) [OF pm(1)] by (auto split: if_splits)
  next
    fix seq st assume "?line = sample_transition seq st"
    then show ?thesis
      using pm(1) transition_no_attention
      by (fastforce simp: prepare_line_inner_def prepare_state_def result_simps Let_def sample_transition_def
          sample_state_line_def notification_fact_value_def)
  next
    fix seq assume "?line = sample_claim seq"
    then show ?thesis
      using pm(1) claim_no_attention
      by (fastforce simp: prepare_line_inner_def prepare_state_def result_simps Let_def sample_claim_def
          sample_state_line_def mailbox_fact_value_def)
  qed
  then show ?thesis using commit_covers [OF pm(2)] by (auto simp: covers_def)
qed

lemma sample_clears_nothing: "n \<le> 6 \<Longrightarrow> cleared_attempts (sample_run n) = []"
proof (induction n)
  case 0
  have "sample_run 0 = mailbox_projection_new 1" using sample_states(2) [of 0] by simp
  then show ?case by (simp add: mailbox_projection_new_def)
qed (simp add: sample_step_clears_nothing)

text \<open>The claimed message of the sample journal keeps its row for the sake of its open alarm, even when no
  settled row is asked for.\<close>

theorem snapshot_shows_callers_messages_witness:
  "\<exists>s. messages_snapshot sample_extern (sample_run 6) sample_admin 0 [] = Inr s \<and>
    ''m-1'' \<in> sr_message_id ` set (sn_rows s) \<and>
    (\<exists>e. get_entry (sample_run 6) sample_agent ''m-1'' = Some e \<and> me_state e = Claimed sample_agent 16)"
proof -
  have ws: "workspace_id (sample_run 6) = 1" using replay_view_inv(3) [OF sample_states(2) [of 6]] by simp
  obtain e c where e: "get_entry (sample_run 6) sample_agent ''m-1'' = Some e" "me_state e = Claimed sample_agent 16"
    "hm_get (notifications (sample_run 6)) (sample_agent, ''m-1'') = Some c" "nr_attempt_id c = 5"
    "nr_state c = AttentionRequired"
    using sample_entry(3) sample_attempt(4) by blast
  have "hm_get (resolved_attempts (sample_run 6)) 5 = None"
    using sample_states(3) [of 6] by (auto simp: sample_view_def sample_trace_journal)
  then have "wake_open (sample_run 6) c" using e(4,5) by (simp add: wake_open_def sample_clears_nothing)
  then have "unsettled (sample_run 6) ''m-1''" using e(1,3) unfolding unsettled_def by blast
  moreover have six: "(6::nat) \<le> 10" by simp
  obtain line where line: "hm_get (messages (sample_run 6)) ''m-1'' = Some line"
    using sample_inv [OF six] e(1) entry_message by (fastforce simp: projection_inv_def)
  obtain md where "extract_message_metadata line = Inr md" using stored_message [OF sample_inv [OF six] line] .
  then have "concerns (sample_run 6) sample_admin ''m-1''"
    using line by (auto simp: concerns_def get_message_def ws sample_admin_def)
  ultimately show ?thesis
    using snapshot_shows_callers_messages [OF sample_states(2) [of 6], of sample_admin 0 "[]"] e(1,2)
    by (auto simp: sample_admin_def key_admin_def)
qed

text \<open>C31. Following the journal loses nothing and repeats nothing. A page asked for after a cursor
  within the journal holds exactly the visible messages after the cursor and up to the page's own
  cursor, at most as many as asked for; that cursor never moves back, it advances while there is
  more, and it is the head of the journal when there is not.\<close>

theorem follow_pages_complete:
  fixes after :: nat
  assumes replay: "replay X (mailbox_projection_new ws) lines = Inr p" and caller: "rk_workspace caller = ws"
    and after: "after \<le> length lines" and limit: "0 < limit"
  shows "\<exists>page. messages_follow X p caller after limit live_routes = Inr page \<and>
    sr_message_id ` set (fo_rows page) =
      {m. may_see p caller m \<and> (\<exists>line. get_message p m = Some line \<and> after < ln_seq line \<and> ln_seq line \<le> fo_through_seq page)} \<and>
    distinct (map sr_message_id (fo_rows page)) \<and> length (fo_rows page) \<le> limit \<and>
    after \<le> fo_through_seq page \<and> (fo_has_more page \<longrightarrow> after < fo_through_seq page) \<and>
    (\<not> fo_has_more page \<longrightarrow> fo_through_seq page = length lines)"
proof -
  note inv = replay_view_inv(1) [OF replay] and view = replay_view_inv(2) [OF replay]
  have new: "seq_of (mailbox_projection_new ws) = 0" by (simp add: seq_of_def mailbox_projection_new_def)
  have head: "seq_of p = length lines" using replay_sequence [OF replay] by (simp add: new)
  have bound: "seq_of p \<le> u64_max"
    using replay_sequence [OF replay] head by (cases lines) auto
  have after': "after \<le> seq_of p" using after head by simp
  obtain page where page: "messages_follow X p caller after limit live_routes = Inr page"
    and rows: "fo_rows page = filter (\<lambda>row. after < sr_seq row \<and> sr_seq row \<le> fo_through_seq page) (all_rows X p caller live_routes)"
    and len: "length (fo_rows page) \<le> limit" "after \<le> fo_through_seq page"
    and ends: "fo_has_more page \<Longrightarrow> after < fo_through_seq page" "\<not> fo_has_more page \<Longrightarrow> fo_through_seq page = seq_of p"
    by (rule follow_page [OF inv view _ bound after' limit, of caller live_routes])
      (simp_all add: caller replay_view_inv(3) [OF replay])
  note row = row_of_line [OF inv view]
  have "sr_message_id ` set (fo_rows page) =
      ln_id ` {line \<in> set (seen_lines p caller). after < ln_seq line \<and> ln_seq line \<le> fo_through_seq page}"
    unfolding rows by (auto simp: row image_iff) (metis row)+
  also have "\<dots> = {m. may_see p caller m \<and> (\<exists>line. get_message p m = Some line \<and> after < ln_seq line \<and> ln_seq line \<le> fo_through_seq page)}"
    (is "_ = ?seen")
  proof (intro set_eqI iffI)
    fix m assume "m \<in> ln_id ` {line \<in> set (seen_lines p caller). after < ln_seq line \<and> ln_seq line \<le> fo_through_seq page}"
    then obtain line where "m = ln_id line" "line \<in> set (seen_lines p caller)" "after < ln_seq line" "ln_seq line \<le> fo_through_seq page"
      by auto
    then show "m \<in> ?seen"
      using seen_lines_ids(1) [OF inv, of caller] seen_lines_ids(2) [OF inv] by (auto simp: get_message_def)
  next
    fix m assume m: "m \<in> ?seen"
    then have "m \<in> ln_id ` set (seen_lines p caller)" unfolding seen_lines_ids(1) [OF inv] by simp
    then obtain line where l: "line \<in> set (seen_lines p caller)" "ln_id line = m" by auto
    then have "get_message p m = Some line" using seen_lines_ids(2) [OF inv] by (auto simp: get_message_def)
    then show "m \<in> ln_id ` {line \<in> set (seen_lines p caller). after < ln_seq line \<and> ln_seq line \<le> fo_through_seq page}"
      using m l by auto
  qed
  finally have ids: "sr_message_id ` set (fo_rows page) = ?seen" .
  have "inj_on ln_id (set (seen_lines p caller))" using seen_lines_ids(2) [OF inv] by (metis inj_onI option.inject)
  moreover have "distinct (seen_lines p caller)"
    using seen_lines_ordered [OF inv view, of caller] by (simp add: strict_sorted_iff distinct_map)
  ultimately have "distinct (map ln_id (seen_lines p caller))" by (simp add: distinct_map)
  moreover have "map sr_message_id (all_rows X p caller live_routes) = map ln_id (seen_lines p caller)" using row(1) by simp
  ultimately have "distinct (map sr_message_id (all_rows X p caller live_routes))" by (simp only:)
  then have "distinct (map sr_message_id (fo_rows page))" unfolding rows by (rule distinct_map_filter)
  then show ?thesis using page ids len ends head by auto
qed

theorem follow_pages_complete_witness:
  "\<exists>page. messages_follow sample_extern (sample_run 10) sample_agent 0 1 [] = Inr page \<and> length (fo_rows page) \<le> 1"
  using follow_pages_complete [OF sample_complete(2), of sample_agent 0 1 "[]"]
  by (auto simp: sample_agent_def key_agent_def)

section \<open>Blocked wakes\<close>

text \<open>\<open>status\<close> cannot invent an answer of its own about a blocked wake: its sample is the oldest
  blocked wakes in journal order, as many as asked for, and each row of it carries the recipient
  row that \<open>messages.snapshot\<close> shows for the same message, with the same queue position, route and
  authorisations.\<close>

theorem blocked_rows_agree_with_snapshot:
  assumes replay: "replay X (mailbox_projection_new ws) lines = Inr p"
  shows "\<exists>b s. blocked_notification_snapshot X p (key_admin ws) live_routes now limit = Inr b \<and>
    messages_snapshot X p (key_admin ws) recent live_routes = Inr s \<and>
    map bn_notification_attempt (bs_rows b) = map nr_attempt_id (take limit (blocked_wakes p)) \<and>
    (\<forall>w\<in>set (bs_rows b). \<exists>row\<in>set (sn_rows s).
       sr_message_id row = bn_message_id w \<and> bn_recipient w \<in> set (sr_recipients row))"
proof -
  note inv = replay_view_inv(1) [OF replay] and view = replay_view_inv(2) [OF replay]
  let ?admin = "key_admin ws" and ?cs = "take limit (blocked_wakes p)"
  let ?positions = "selected_positions p (selected_by_recipient ?cs)"
  let ?all = "all_rows X p ?admin live_routes"
  have caller: "rk_workspace ?admin = workspace_id p" using replay_view_inv(3) [OF replay] by (simp add: key_admin_def)
  obtain s where s: "messages_snapshot X p ?admin recent live_routes = Inr s"
    and rows: "sn_rows s = trim_settled (length (filter (\<lambda>row. \<not> sr_active row) ?all) - recent) 0 ?all"
    using snapshot_result [OF inv view caller] by blast
  have kept: "row \<in> set (sn_rows s)" if "row \<in> set ?all" "sr_active row" for row
    using that unfolding rows by (intro trim_settled_active)
  let ?good = "\<lambda>c w. blocked_row X p ?admin live_routes now ?positions c = Inr w \<and> bn_notification_attempt w = nr_attempt_id c \<and>
    (\<exists>row\<in>set (sn_rows s). sr_message_id row = bn_message_id w \<and> bn_recipient w \<in> set (sr_recipients row))"
  have ok: "entries_ok p" using inv by (simp add: projection_inv_def mailbox_inv_def)
  have "\<exists>w. ?good c w" if "c \<in> set ?cs" for c
  proof -
    have c: "c \<in> set (hm_values (notifications p))" "nr_state c = BlockedPreWrite"
      using that blocked_wakes_in [of c p] by (auto dest: in_set_takeD simp: blocked_before_write_def)
    show ?thesis
      by (rule blocked_row_in_snapshot [OF inv view c _ selected_position [OF ok that], of ?admin live_routes now])
        (use kept in \<open>auto intro!: exI\<close>)
  qed
  then obtain w where w: "\<And>c. c \<in> set ?cs \<Longrightarrow> ?good c (w c)" by metis
  then have "try_map (blocked_row X p ?admin live_routes now ?positions) ?cs = Inr (map w ?cs)"
    by (intro try_map_all_Inr) auto
  then obtain n where "blocked_notification_snapshot X p ?admin live_routes now limit = Inr \<lparr> bs_rows = map w ?cs, bs_total = n \<rparr>"
    using blocked_selection [OF inv, of limit] caller
    by (auto simp: blocked_notification_snapshot_def bt_values_def Let_def o_def)
  then show ?thesis using s w by (intro exI conjI ballI) auto
qed

lemma sample_blocked_replay: "replay sample_extern (mailbox_projection_new 1) sample_unwritten = Inr sample_blocked"
proof -
  have "apply_replayed_owned sample_extern (sample_run 4) (sample_unwritten ! 4) = Inr sample_blocked"
    using projection.live_rebuilds [OF sample_blocked_step] .
  moreover have "sample_unwritten = take 4 sample_journal @ [sample_unwritten ! 4]"
    by (simp add: sample_unwritten_def sample_journal_def)
  moreover have "replay sample_extern (mailbox_projection_new 1) (take 4 sample_journal) = Inr (sample_run 4)"
    using sample_states(2) [of 4] by simp
  ultimately show ?thesis
    using replay_append [of sample_extern "mailbox_projection_new 1" "take 4 sample_journal" "[sample_unwritten ! 4]"]
    by (metis rbind_simps(2) replay.simps)
qed

lemma sample_blocked_wakes: "map nr_attempt_id (blocked_wakes sample_blocked) = [5]"
proof -
  obtain c where c: "hm_get (notifications sample_blocked) (sample_agent, ''m-1'') = Some c" "nr_attempt_id c = 5"
    "nr_state c = BlockedPreWrite"
    using sample_blocked_attempt by blast
  have "length (notifications sample_blocked) = 1"
    using sample_blocked_view(2) by (auto simp: sample_view_def sample_trace_unwritten)
  then have "notifications sample_blocked = [((sample_agent, ''m-1''), c)]"
    using c(1) by (cases "notifications sample_blocked") (auto simp: hm_get_def split: if_splits)
  moreover have inv: "attempt_inv sample_blocked"
    using replay_inv [OF projection_inv_new sample_blocked_replay] by (simp add: projection_inv_def)
  then have "nr_pre_write_cause c \<noteq> None" using attempt_invD(1) [OF inv c(1)] c(3) by (simp add: record_ok_def)
  moreover have "hm_get (resolved_attempts sample_blocked) 5 = None"
  proof (rule ccontr)
    assume "hm_get (resolved_attempts sample_blocked) 5 \<noteq> None"
    then have "hm_get (resolved_attempts sample_blocked) (nr_attempt_id c) \<noteq> None" by (simp add: c(2))
    then have "nr_state c = AttentionRequired" using inv c(1) unfolding attempt_inv_def resolved_ok_def by blast
    then show False using c(3) by simp
  qed
  ultimately show ?thesis using c by (auto simp: blocked_wakes_def hm_values_def blocked_before_write_def settlement_from_notification_def)
qed

theorem blocked_rows_agree_with_snapshot_witness:
  "\<exists>b. blocked_notification_snapshot sample_extern sample_blocked sample_admin [] 99 32 = Inr b \<and>
    map bn_notification_attempt (bs_rows b) = [5]"
proof -
  have "take 32 (blocked_wakes sample_blocked) = blocked_wakes sample_blocked"
    using arg_cong [OF sample_blocked_wakes, of length] by simp
  then show ?thesis
    using blocked_rows_agree_with_snapshot [OF sample_blocked_replay, of "[]" 99 32 5] sample_blocked_wakes
    by (auto simp: sample_admin_def)
qed

section \<open>Claimed messages\<close>

text \<open>A doorbell that was never written and that the claim of its recipient withdrew leaves the
  message in the administrator's work list: the withdrawn record keeps the cause
  \<open>claimed_before_write\<close>, and every cause marks the row as needing action.\<close>

theorem claimed_doorbell_stays_work:
  assumes replay: "replay X (mailbox_projection_new ws) lines = Inr p"
    and rec: "notification p r m = Some c" "withdrawn_by_claim_before_write c"
  shows "\<exists>s row. messages_snapshot X p (key_admin ws) (length lines) live_routes = Inr s \<and> row \<in> set (sn_rows s) \<and>
    sr_message_id row = m \<and> sr_needs_action row"
proof -
  note inv = replay_view_inv(1) [OF replay] and view = replay_view_inv(2) [OF replay]
  let ?admin = "key_admin ws"
  let ?all = "all_rows X p ?admin live_routes"
  have own: "rk_workspace ?admin = workspace_id p" using replay_view_inv(3) [OF replay] by (simp add: key_admin_def)
  have "seq_of p = length lines"
    using replay_sequence [OF replay] by (simp add: seq_of_def mailbox_projection_new_def)
  then have "length ?all \<le> length lines" using all_rows_facts(5) [OF inv view, of ?admin] by simp
  then have "length (filter (\<lambda>row. \<not> sr_active row) ?all) \<le> length lines" using length_filter_le order_trans by blast
  then obtain s where s: "messages_snapshot X p ?admin (length lines) live_routes = Inr s" "sn_rows s = ?all"
    using snapshot_result [OF inv view own, of "length lines" live_routes] by auto
  have ok: "hm_ok (notifications p)" using inv by (simp add: projection_inv_def attempt_inv_def attempts_ok_def)
  have c: "c \<in> set (hm_values (notifications p))" using rec(1) in_hm_values [OF ok] by (auto simp: notification_def)
  have ids: "nr_recipient c = r" "nr_message_id c = m"
    using attempt_invD(4,5) [of p r m c] rec(1) inv by (simp_all add: notification_def projection_inv_def)
  show ?thesis
  proof (rule record_message [OF inv c, unfolded ids])
    fix line e i
    let ?md = "metadata_of line" and ?t = "message_turn_at X p ?admin live_routes line"
    assume line: "hm_get (messages p) m = Some line" and md: "extract_message_metadata line = Inr ?md"
      and e: "get_entry p r m = Some e" and i: "i < length (md_recipients ?md)" "md_recipients ?md ! i = r"
    have id: "ln_id line = m" using stored_message [OF inv line] by blast
    have seen: "line \<in> set (seen_lines p ?admin)" by (rule admin_sees [OF inv line]) simp
    show ?thesis
    proof (rule turn_at [OF inv view seen, where live_routes = live_routes])
      fix labels
      assume labels: "presentation_labels X (md_recipients ?md) (md_presentation ?md) =
          Inr (sender_label (md_presentation ?md), labels)"
        and turns: "mt_recipients ?t = map (\<lambda>x. projr (recipient_turn_of p ?admin live_routes (fifo_positions p) (ln_id line)
            (md_sender ?md) x)) (zip (md_recipients ?md) labels)"
        and shown: "sr_message_id (mt_row ?t) = ln_id line"
        and work: "sr_needs_action (mt_row ?t) =
          (list_ex (\<lambda>t. rs_recipient (tu_summary t) = ?admin \<and> is_pending (me_state (tu_entry t))) (mt_recipients ?t) \<or>
           is_admin ?admin \<and> list_ex (\<lambda>t. rs_can_manage_attention (tu_summary t) \<or>
             ns_pre_write_cause (rs_notification (tu_summary t)) \<noteq> None) (mt_recipients ?t))"
      note turn = recipient_turn_in [OF turns presentation_labels_length [OF labels] i(1), unfolded i(2) id, OF e]
      have "list_ex (\<lambda>t. ns_pre_write_cause (rs_notification (tu_summary t)) \<noteq> None) (mt_recipients ?t)"
        unfolding list_ex_iff
        by (rule bexI [OF _ turn])
          (use rec in \<open>simp add: recipient_summary_def notification_summary_def withdrawn_by_claim_before_write_def Let_def\<close>)
      then have "sr_needs_action (mt_row ?t)" unfolding work by (auto simp: list_ex_iff)
      then show ?thesis using s seen shown id by auto
    qed
  qed
qed

definition sample_unrung :: "ledger_line list" where
  "sample_unrung = [sample_message, sample_transition 2 Queued, sample_claim 3]"

lemma sample_unrung_withdrawn:
  "(case replay sample_extern (mailbox_projection_new 1) sample_unrung of
      Inl e \<Rightarrow> None | Inr p \<Rightarrow> map_option withdrawn_by_claim_before_write (notification p sample_agent ''m-1'')) = Some True"
  by code_simp

theorem claimed_doorbell_stays_work_witness:
  "\<exists>p s row. replay sample_extern (mailbox_projection_new 1) sample_unrung = Inr p \<and>
    messages_snapshot sample_extern p (key_admin 1) 3 [] = Inr s \<and> row \<in> set (sn_rows s) \<and> sr_needs_action row"
proof -
  obtain p c where p: "replay sample_extern (mailbox_projection_new 1) sample_unrung = Inr p"
    and c: "notification p sample_agent ''m-1'' = Some c" "withdrawn_by_claim_before_write c"
    using sample_unrung_withdrawn by (auto split: sum.splits)
  show ?thesis
    using claimed_doorbell_stays_work [OF p c, of "[]"] p by (auto simp: sample_unrung_def eval_nat_numeral)
qed

end
