(* ===== verification/Notification_Adapter.thy ===== *)
theory Notification_Adapter
  imports Service
begin

text \<open>
  The notification context of \<open>cyclopsd/src/notification_adapter.rs\<close>, through which a delivery
  worker records what happened to one doorbell. A worker holds an attempt id and the execution
  epoch it started with; both must still be current when it records a step. The context shares
  the store and the change publisher of the mailbox service, so its steps act on that state.
\<close>

section \<open>Data\<close>

record notification_context =
  nx_message_id :: message_id
  nx_recipient :: recipient_key
  nx_attempt_id :: attempt_id
  nx_run_epoch :: nat

datatype adapter_error =
    StoreLockPoisoned
  | NoLongerCurrentBeforeWrite
  | TerminalConflict notification_state
  | AdapterStore store_error
  | InvalidBinding notification_type_error
  | MessageMissing

type_synonym 'a adapter_answer = "(adapter_error, 'a) result \<times> mailbox_service"

definition entry_allows_notification :: "mailbox_entry_state \<Rightarrow> notification_transport \<Rightarrow> bool" where
  "entry_allows_notification st transport = is_pending st"

definition notification_run_epoch :: "mailbox_service \<Rightarrow> recipient_key \<Rightarrow> message_id \<Rightarrow> attempt_id \<Rightarrow> nat" where
  "notification_run_epoch sv r m a =
     (if sv_poisoned sv then 0
      else case notification (ms_projection (sv_store sv)) r m of
        Some c \<Rightarrow> if nr_attempt_id c = a then execution_epoch c else 0
      | None \<Rightarrow> 0)"

definition context_new :: "mailbox_service \<Rightarrow> message_id \<Rightarrow> recipient_key \<Rightarrow> attempt_id \<Rightarrow> notification_context" where
  "context_new sv m r a =
     \<lparr> nx_message_id = m, nx_recipient = r, nx_attempt_id = a, nx_run_epoch = notification_run_epoch sv r m a \<rparr>"

definition owns :: "notification_context \<Rightarrow> notification_record \<Rightarrow> bool" where
  "owns x c = (nr_attempt_id c = nx_attempt_id x \<and> execution_epoch c = nx_run_epoch x)"

definition transition_areas :: "notification_record \<Rightarrow> messages_changed_area set" where
  "transition_areas c =
     (if nr_state c \<in> {AttentionRequired, BlockedPreWrite} then {Notifications, Attention} else {Notifications})"

definition publish_transition :: "mailbox_service \<Rightarrow> notification_record \<Rightarrow> mailbox_service" where
  "publish_transition sv c = publish_change sv (nr_updated_seq c) (transition_areas c)"

text \<open>The store lock, the record of the context, and a store operation followed by its event.\<close>

definition with_lock :: "mailbox_service \<Rightarrow> (message_store \<Rightarrow> 'a adapter_answer) \<Rightarrow> 'a adapter_answer" where
  "with_lock sv f = (if sv_poisoned sv then (Inl StoreLockPoisoned, sv) else f (sv_store sv))"

definition current_of :: "message_store \<Rightarrow> notification_context \<Rightarrow> notification_record option" where
  "current_of s x = notification (ms_projection s) (nx_recipient x) (nx_message_id x)"

definition entry_allows :: "message_store \<Rightarrow> notification_context \<Rightarrow> notification_transport \<Rightarrow> bool" where
  "entry_allows s x transport =
     is_some_and (get_entry (ms_projection s) (nx_recipient x) (nx_message_id x)) (\<lambda>e.
       entry_allows_notification (me_state e) transport)"

definition record_step :: "mailbox_service \<Rightarrow> notification_record store_answer \<Rightarrow> notification_record adapter_answer" where
  "record_step sv answer =
     (case answer of
        (Inl e, s) \<Rightarrow> (Inl (AdapterStore e), sv\<lparr> sv_store := s, sv_poisoned := (e = StorePanic) \<rparr>)
      | (Inr c, s) \<Rightarrow> (Inr c, publish_transition (sv\<lparr> sv_store := s \<rparr>) c))"

section \<open>Reads\<close>

definition message_line :: "mailbox_service \<Rightarrow> notification_context \<Rightarrow> (adapter_error, ledger_line) result" where
  "message_line sv x =
     (if sv_poisoned sv then Inl StoreLockPoisoned
      else ok_or (get_message (ms_projection (sv_store sv)) (nx_message_id x)) MessageMissing)"

definition raw_transport :: "mailbox_service \<Rightarrow> notification_context \<Rightarrow> bool" where
  "raw_transport sv x =
     (case message_line sv x of
        Inl e \<Rightarrow> False
      | Inr line \<Rightarrow> is_some_and (Option.bind (ln_data line) rd_metadata) md_raw)"

definition current_record :: "mailbox_service \<Rightarrow> notification_context \<Rightarrow> (adapter_error, notification_record) result" where
  "current_record sv x =
     (if sv_poisoned sv then Inl StoreLockPoisoned else ok_or (current_of (sv_store sv) x) NoLongerCurrentBeforeWrite)"

text \<open>The record the context owns, when it is gating and its entry still waits.\<close>

definition gating_current :: "message_store \<Rightarrow> notification_context \<Rightarrow> bool" where
  "gating_current s x = is_some_and (current_of s x) (\<lambda>c. owns x c \<and> nr_state c = Gating)"

definition ensure_current_gating :: "mailbox_service \<Rightarrow> notification_context \<Rightarrow> (adapter_error, unit) result" where
  "ensure_current_gating sv x =
     (if sv_poisoned sv then Inl StoreLockPoisoned
      else if gating_current (sv_store sv) x \<and>
              is_some_and (current_of (sv_store sv) x) (\<lambda>c. entry_allows (sv_store sv) x (nr_transport c))
      then Inr () else Inl NoLongerCurrentBeforeWrite)"

section \<open>Recorded steps\<close>

definition advance_locked ::
  "extern \<Rightarrow> line_codec \<Rightarrow> append_io \<Rightarrow> nat \<Rightarrow> mailbox_service \<Rightarrow> notification_context \<Rightarrow> notification_state \<Rightarrow>
   notification_binding option \<Rightarrow> attention_cause option \<Rightarrow> notification_record adapter_answer" where
  "advance_locked X C io now sv x st binding cause =
     (case current_of (sv_store sv) x of
        None \<Rightarrow> (Inl NoLongerCurrentBeforeWrite, sv)
      | Some c \<Rightarrow>
          if \<not> owns x c then (Inl NoLongerCurrentBeforeWrite, sv)
          else record_step sv (advance_notification X C io now (sv_store sv) (nx_message_id x) (nx_recipient x)
                 (nx_attempt_id x) st binding cause))"

definition advance ::
  "extern \<Rightarrow> line_codec \<Rightarrow> append_io \<Rightarrow> nat \<Rightarrow> mailbox_service \<Rightarrow> notification_context \<Rightarrow> notification_state \<Rightarrow>
   notification_binding option \<Rightarrow> attention_cause option \<Rightarrow> notification_record adapter_answer" where
  "advance X C io now sv x st binding cause = with_lock sv (\<lambda>s. advance_locked X C io now sv x st binding cause)"

definition record_gating ::
  "extern \<Rightarrow> line_codec \<Rightarrow> append_io \<Rightarrow> nat \<Rightarrow> mailbox_service \<Rightarrow> notification_context \<Rightarrow> notification_record adapter_answer" where
  "record_gating X C io now sv x =
     with_lock sv (\<lambda>s.
       case current_of s x of
         None \<Rightarrow> (Inl NoLongerCurrentBeforeWrite, sv)
       | Some c \<Rightarrow>
           if \<not> entry_allows s x (nr_transport c) \<or> \<not> owns x c then (Inl NoLongerCurrentBeforeWrite, sv)
           else if nr_state c = Gating then (Inr c, sv)
           else if nr_state c \<in> {Withdrawn, WithdrawnByOperator, Superseded} then (Inl NoLongerCurrentBeforeWrite, sv)
           else if nr_state c \<noteq> Queued then (Inl (TerminalConflict (nr_state c)), sv)
           else advance_locked X C io now sv x Gating None None)"

definition record_writing ::
  "extern \<Rightarrow> line_codec \<Rightarrow> append_io \<Rightarrow> nat \<Rightarrow> mailbox_service \<Rightarrow> notification_context \<Rightarrow> process_instance_id \<Rightarrow>
   process_instance_id \<Rightarrow> process_instance_id \<Rightarrow> string \<Rightarrow> notification_transport \<Rightarrow> nat option \<Rightarrow> notification_record adapter_answer" where
  "record_writing X C io now sv x pane_root leader agent manifest transport fmt =
     (case manifest_id_new manifest of
        Inl e \<Rightarrow> (Inl (InvalidBinding e), sv)
      | Inr manifest \<Rightarrow>
          with_lock sv (\<lambda>s.
            if \<not> (gating_current s x \<and> entry_allows s x transport) then (Inl NoLongerCurrentBeforeWrite, sv)
            else record_step sv (advance_notification_with_transport X C io now s (nx_message_id x) (nx_recipient x)
              (nx_attempt_id x) Writing
              \<lparr> bd_recipient = nx_recipient x, bd_pane_root = Some pane_root, bd_leader = Some leader,
                bd_agent = agent, bd_manifest = manifest \<rparr> transport fmt)))"

definition record_writing_raw ::
  "extern \<Rightarrow> line_codec \<Rightarrow> append_io \<Rightarrow> nat \<Rightarrow> mailbox_service \<Rightarrow> notification_context \<Rightarrow> notification_record adapter_answer" where
  "record_writing_raw X C io now sv x =
     with_lock sv (\<lambda>s.
       if \<not> (gating_current s x \<and> entry_allows s x Raw) then (Inl NoLongerCurrentBeforeWrite, sv)
       else record_step sv (advance_notification_raw_writing X C io now s (nx_message_id x) (nx_recipient x) (nx_attempt_id x)))"

definition record_submitted ::
  "extern \<Rightarrow> line_codec \<Rightarrow> append_io \<Rightarrow> nat \<Rightarrow> mailbox_service \<Rightarrow> notification_context \<Rightarrow> notification_record adapter_answer" where
  "record_submitted X C io now sv x = advance X C io now sv x Submitted None None"

definition record_submitted_unverified ::
  "extern \<Rightarrow> line_codec \<Rightarrow> append_io \<Rightarrow> nat \<Rightarrow> mailbox_service \<Rightarrow> notification_context \<Rightarrow> notification_record adapter_answer" where
  "record_submitted_unverified X C io now sv x = advance X C io now sv x SubmittedUnverified None None"

definition record_notified ::
  "extern \<Rightarrow> line_codec \<Rightarrow> append_io \<Rightarrow> nat \<Rightarrow> mailbox_service \<Rightarrow> notification_context \<Rightarrow> verified_by option \<Rightarrow>
   notification_record adapter_answer" where
  "record_notified X C io now sv x verified =
     with_lock sv (\<lambda>s.
       let step = record_step sv (advance_notification_notified X C io now s (nx_message_id x) (nx_recipient x)
             (nx_attempt_id x) verified) in
       case current_of s x of
         None \<Rightarrow> step
       | Some c \<Rightarrow>
           if \<not> owns x c then (Inl (TerminalConflict (nr_state c)), sv)
           else if nr_state c = Notified then (Inr c, sv)
           else if is_terminal (nr_state c) then (Inl (TerminalConflict (nr_state c)), sv)
           else step)"

definition record_mailbox_notified ::
  "extern \<Rightarrow> line_codec \<Rightarrow> append_io \<Rightarrow> nat \<Rightarrow> mailbox_service \<Rightarrow> notification_context \<Rightarrow> notification_record adapter_answer" where
  "record_mailbox_notified X C io now sv x =
     with_lock sv (\<lambda>s.
       case current_of s x of
         None \<Rightarrow> (Inl NoLongerCurrentBeforeWrite, sv)
       | Some c \<Rightarrow>
           if \<not> owns x c then (Inl NoLongerCurrentBeforeWrite, sv)
           else if nr_state c = Notified \<and> nr_transport c = Mailbox then (Inr c, sv)
           else if nr_state c \<noteq> Queued then (Inl (TerminalConflict (nr_state c)), sv)
           else if \<not> entry_allows s x Mailbox then (Inl NoLongerCurrentBeforeWrite, sv)
           else record_step sv (advance_notification_mailbox_notified X C io now s (nx_message_id x) (nx_recipient x) (nx_attempt_id x)))"

text \<open>The flag says whether the doorbell's message has been claimed by its recipient.\<close>

definition settle_submitted_claim ::
  "extern \<Rightarrow> line_codec \<Rightarrow> append_io \<Rightarrow> nat \<Rightarrow> mailbox_service \<Rightarrow> notification_context \<Rightarrow> bool adapter_answer" where
  "settle_submitted_claim X C io now sv x =
     with_lock sv (\<lambda>s.
       case current_of s x of
         None \<Rightarrow> (Inl NoLongerCurrentBeforeWrite, sv)
       | Some c \<Rightarrow>
           let claimed = is_some_and (get_entry (ms_projection s) (nx_recipient x) (nx_message_id x)) (\<lambda>e.
                 claimed_by e (nx_recipient x)) in
           if \<not> owns x c then (Inl NoLongerCurrentBeforeWrite, sv)
           else if nr_state c = Notified then (Inr claimed, sv)
           else if (nr_state c \<noteq> Submitted \<and> nr_state c \<noteq> SubmittedUnverified) \<or> \<not> claimed then (Inr False, sv)
           else
             (case advance_locked X C io now sv x Notified None None of
                (Inl e, sv') \<Rightarrow> (Inl e, sv')
              | (Inr c', sv') \<Rightarrow> (Inr True, sv')))"

definition record_terminal ::
  "extern \<Rightarrow> line_codec \<Rightarrow> append_io \<Rightarrow> nat \<Rightarrow> mailbox_service \<Rightarrow> notification_context \<Rightarrow> notification_state \<Rightarrow>
   attention_cause option \<Rightarrow> notification_record adapter_answer" where
  "record_terminal X C io now sv x st cause =
     with_lock sv (\<lambda>s.
       case current_of s x of
         None \<Rightarrow> advance_locked X C io now sv x st None cause
       | Some c \<Rightarrow>
           if \<not> owns x c then (Inl (TerminalConflict (nr_state c)), sv)
           else if nr_state c = st then (Inr c, sv)
           else if is_terminal (nr_state c) then (Inl (TerminalConflict (nr_state c)), sv)
           else advance_locked X C io now sv x st None cause)"

definition record_attention ::
  "extern \<Rightarrow> line_codec \<Rightarrow> append_io \<Rightarrow> nat \<Rightarrow> mailbox_service \<Rightarrow> notification_context \<Rightarrow> attention_cause \<Rightarrow>
   notification_record adapter_answer" where
  "record_attention X C io now sv x cause = record_terminal X C io now sv x AttentionRequired (Some cause)"

definition record_pre_write_block_with_wake_block ::
  "extern \<Rightarrow> line_codec \<Rightarrow> append_io \<Rightarrow> nat \<Rightarrow> mailbox_service \<Rightarrow> notification_context \<Rightarrow> pre_write_cause \<Rightarrow>
   pre_write_observation option \<Rightarrow> message_wake_block option \<Rightarrow> notification_record adapter_answer" where
  "record_pre_write_block_with_wake_block X C io now sv x cause observation wake_block =
     with_lock sv (\<lambda>s.
       case current_of s x of
         None \<Rightarrow> (Inl NoLongerCurrentBeforeWrite, sv)
       | Some c \<Rightarrow>
           if \<not> owns x c then (Inl NoLongerCurrentBeforeWrite, sv)
           else if nr_state c = BlockedPreWrite then (Inr c, sv)
           else if nr_state c \<noteq> Gating then (Inl (TerminalConflict (nr_state c)), sv)
           else record_step sv (block_notification_before_write_with_wake_block X C io now s (nx_message_id x)
                  (nx_recipient x) (nx_attempt_id x) cause observation wake_block))"

definition record_paste_command_unwritten ::
  "extern \<Rightarrow> line_codec \<Rightarrow> append_io \<Rightarrow> nat \<Rightarrow> mailbox_service \<Rightarrow> notification_context \<Rightarrow> notification_record adapter_answer" where
  "record_paste_command_unwritten X C io now sv x =
     with_lock sv (\<lambda>s.
       case current_of s x of
         None \<Rightarrow> (Inl NoLongerCurrentBeforeWrite, sv)
       | Some c \<Rightarrow>
           if \<not> owns x c then (Inl NoLongerCurrentBeforeWrite, sv)
           else if nr_state c = BlockedPreWrite \<and> nr_pre_write_cause c = Some PasteCommandUnwritten then (Inr c, sv)
           else if nr_state c \<noteq> Writing then (Inl (TerminalConflict (nr_state c)), sv)
           else record_step sv (block_notification_before_write X C io now s (nx_message_id x) (nx_recipient x)
                  (nx_attempt_id x) PasteCommandUnwritten None))"

end
