(* ===== verification/Service_Run.thy ===== *)
theory Service_Run
  imports Service_Laws Notification_Adapter
begin

text \<open>
  Running the mailbox service: its requests and the steps of the delivery workers as data, the
  invariant of the service, and the two ways a step can go. A quiet step changes nothing the
  projection shows and sends no event; an announced step appends one line and sends one event.
\<close>

section \<open>Requests and worker steps\<close>

datatype service_request =
    Send "string list" mailbox_identity mailbox_send
  | ReplyTo "string list" mailbox_identity message_id "string option" string "string option" bool
  | ClaimMessage recipient_key message_id
  | ClaimDoorbell recipient_key message_id attempt_id
  | PrepareOldest attempt_id recipient_key
  | ReopenOldest recipient_key pre_write_observation bool
  | RequeueMessage "nat \<Rightarrow> attempt_id" message_id
  | ClearAlarms string recipient_key "attempt_id list" "nat option"
  | WithdrawWake recipient_key recipient_key attempt_id
  | ReplaceDirectory mailbox_directory
  | SealJournal bool

datatype worker_step =
    RecordGating
  | RecordWriting process_instance_id process_instance_id process_instance_id string notification_transport "nat option"
  | RecordWritingRaw
  | RecordStep notification_state "notification_binding option" "attention_cause option"
  | RecordNotified "verified_by option"
  | RecordMailboxNotified
  | SettleSubmittedClaim
  | RecordAttention attention_cause
  | RecordPreWriteBlock pre_write_cause "pre_write_observation option" "message_wake_block option"
  | RecordPasteUnwritten

definition finished :: "('e, 'a) result \<times> mailbox_service \<Rightarrow> 'e option \<times> mailbox_service" where
  "finished answer = (case fst answer of Inl e \<Rightarrow> Some e | Inr x \<Rightarrow> None, snd answer)"

text \<open>\<open>None\<close>: every id drawn for a new message was taken.\<close>

fun handle ::
  "extern \<Rightarrow> line_codec \<Rightarrow> append_io \<Rightarrow> nat \<Rightarrow> mailbox_service \<Rightarrow> service_request \<Rightarrow> (service_error option \<times> mailbox_service) option" where
  "handle X C io now sv (Send draws sender request) = map_option finished (service_send X C io now draws sv sender request)"
| "handle X C io now sv (ReplyTo draws sender reference summary body key raw) =
     map_option finished (reply_with_summary X C io now draws sv sender reference summary body key raw)"
| "handle X C io now sv (ClaimMessage claimant m) = Some (finished (service_claim X C io now sv claimant m))"
| "handle X C io now sv (ClaimDoorbell claimant locator a) =
     Some (finished (service_claim_notification_locator X C io now sv claimant locator a))"
| "handle X C io now sv (PrepareOldest fresh r) = Some (finished (prepare_oldest_notification X C io now fresh sv r))"
| "handle X C io now sv (ReopenOldest r ob ready) =
     Some (finished (reopen_oldest_notification_after_route_evidence X C io now sv r ob ready))"
| "handle X C io now sv (RequeueMessage fresh m) = Some (finished (requeue_message X C io now fresh sv m))"
| "handle X C io now sv (ClearAlarms random operator ids cutoff) = Some (finished (clear_alarms X C io now random sv operator ids cutoff))"
| "handle X C io now sv (WithdrawWake operator r a) =
     Some (finished (service_withdraw_notification_before_write X C io now sv operator r a))"
| "handle X C io now sv (ReplaceDirectory dir) = Some (finished (replace_directory sv dir))"
| "handle X C io now sv (SealJournal unlocked) = Some (finished (service_seal unlocked sv))"

fun work ::
  "extern \<Rightarrow> line_codec \<Rightarrow> append_io \<Rightarrow> nat \<Rightarrow> mailbox_service \<Rightarrow> notification_context \<Rightarrow> worker_step \<Rightarrow>
   adapter_error option \<times> mailbox_service" where
  "work X C io now sv x RecordGating = finished (record_gating X C io now sv x)"
| "work X C io now sv x (RecordWriting root leader agent manifest transport fmt) =
     finished (record_writing X C io now sv x root leader agent manifest transport fmt)"
| "work X C io now sv x RecordWritingRaw = finished (record_writing_raw X C io now sv x)"
| "work X C io now sv x (RecordStep st binding cause) = finished (advance X C io now sv x st binding cause)"
| "work X C io now sv x (RecordNotified verified) = finished (record_notified X C io now sv x verified)"
| "work X C io now sv x RecordMailboxNotified = finished (record_mailbox_notified X C io now sv x)"
| "work X C io now sv x SettleSubmittedClaim = finished (settle_submitted_claim X C io now sv x)"
| "work X C io now sv x (RecordAttention cause) = finished (record_attention X C io now sv x cause)"
| "work X C io now sv x (RecordPreWriteBlock cause ob block) =
     finished (record_pre_write_block_with_wake_block X C io now sv x cause ob block)"
| "work X C io now sv x RecordPasteUnwritten = finished (record_paste_command_unwritten X C io now sv x)"

section \<open>The invariant and the steps\<close>

definition service_ok :: "extern \<Rightarrow> line_codec \<Rightarrow> Identity.workspace_id \<Rightarrow> mailbox_service \<Rightarrow> ledger_line list \<Rightarrow> bool" where
  "service_ok X C ws sv lines \<longleftrightarrow>
     \<not> sv_poisoned sv \<and> store_ok X C ws (sv_store sv) lines \<and> sv_workspace_id sv = ws \<and> dir_workspace_id (sv_directory sv) = ws"

definition quiet :: "extern \<Rightarrow> line_codec \<Rightarrow> Identity.workspace_id \<Rightarrow> ledger_line list \<Rightarrow> mailbox_service \<Rightarrow> mailbox_service \<Rightarrow> bool" where
  "quiet X C ws lines sv sv' \<longleftrightarrow>
     service_ok X C ws sv' lines \<and> ms_projection (sv_store sv') = ms_projection (sv_store sv) \<and> sv_changes sv' = sv_changes sv"

definition announced ::
  "extern \<Rightarrow> line_codec \<Rightarrow> Identity.workspace_id \<Rightarrow> ledger_line list \<Rightarrow> mailbox_service \<Rightarrow> mailbox_service \<Rightarrow> bool" where
  "announced X C ws lines sv sv' \<longleftrightarrow>
     (\<exists>line areas. service_ok X C ws sv' (lines @ [line]) \<and> ln_seq line = Suc (length lines) \<and>
        apply_owned X (ms_projection (sv_store sv)) line = Inr (ms_projection (sv_store sv')) \<and>
        last_workspace_seq (ms_projection (sv_store sv')) = Some (Suc (length lines)) \<and>
        covers areas (ms_projection (sv_store sv)) (ms_projection (sv_store sv')) \<and>
        sv_changes sv' = map_option (\<lambda>pub. publish pub (Suc (length lines)) areas) (sv_changes sv))"

definition step_ok ::
  "extern \<Rightarrow> line_codec \<Rightarrow> Identity.workspace_id \<Rightarrow> ledger_line list \<Rightarrow> mailbox_service \<Rightarrow> ('e, 'a) result \<times> mailbox_service \<Rightarrow> bool" where
  "step_ok X C ws lines sv answer \<longleftrightarrow>
     quiet X C ws lines sv (snd answer) \<or> (\<not> isl (fst answer) \<and> announced X C ws lines sv (snd answer))"

lemma service_okD:
  assumes "service_ok X C ws sv lines"
  shows "\<not> sv_poisoned sv" "store_ok X C ws (sv_store sv) lines"
  using assms by (simp_all add: service_ok_def)

lemma quiet_refl [simp]: "service_ok X C ws sv lines \<Longrightarrow> quiet X C ws lines sv sv"
  by (simp add: quiet_def)

lemma step_same [simp]: "service_ok X C ws sv lines \<Longrightarrow> step_ok X C ws lines sv (r, sv)"
  by (simp add: step_ok_def)

lemma step_none:
  assumes "service_ok X C ws sv lines" and "appends X C ws lines (sv_store sv) s' None"
  shows "step_ok X C ws lines sv (r, sv\<lparr> sv_store := s' \<rparr>)"
    and "step_ok X C ws lines sv (r, sv\<lparr> sv_store := s', sv_poisoned := False \<rparr>)"
  using assms by (simp_all add: step_ok_def quiet_def service_ok_def appends_def)

lemma publish_change_simps [simp]:
  "sv_store (publish_change sv n areas) = sv_store sv" "sv_poisoned (publish_change sv n areas) = sv_poisoned sv"
  "sv_workspace_id (publish_change sv n areas) = sv_workspace_id sv"
  "sv_directory (publish_change sv n areas) = sv_directory sv"
  "sv_changes (publish_change sv n areas) = map_option (\<lambda>pub. publish pub n areas) (sv_changes sv)"
  by (simp_all add: publish_change_def split: option.split)

lemma step_one:
  assumes ok: "service_ok X C ws sv lines" and app: "appends X C ws lines (sv_store sv) s' (Some line)"
    and cov: "covers areas (ms_projection (sv_store sv)) (ms_projection s')" and n: "n = Suc (length lines)"
  shows "step_ok X C ws lines sv (Inr x, publish_change (sv\<lparr> sv_store := s' \<rparr>) n areas)"
proof -
  let ?sv = "publish_change (sv\<lparr> sv_store := s' \<rparr>) n areas"
  have seq: "ln_seq line = Suc (length lines)" and st: "store_ok X C ws s' (lines @ [line])"
    and ap: "apply_owned X (ms_projection (sv_store sv)) line = Inr (ms_projection s')"
    using app by (simp_all add: appends_def)
  have "last_workspace_seq (ms_projection s') = Some (Suc (length lines))"
    using appends_last_seq(1) [OF service_okD(2) [OF ok] app] seq by simp
  then have "announced X C ws lines sv ?sv"
    unfolding announced_def using ok seq st ap cov n by (intro exI [of _ line] exI [of _ areas]) (simp add: service_ok_def)
  then show ?thesis by (simp add: step_ok_def)
qed

text \<open>A store operation followed by what the service does with its answer.\<close>

lemma store_call_step:
  assumes ok: "service_ok X C ws sv lines"
    and no: "\<And>e s'. answer = (Inl e, s') \<Longrightarrow> e \<noteq> StorePanic \<and> appends X C ws lines (sv_store sv) s' None"
    and yes: "\<And>x s'. answer = (Inr x, s') \<Longrightarrow> step_ok X C ws lines sv (k x (sv\<lparr> sv_store := s' \<rparr>))"
  shows "step_ok X C ws lines sv (store_call sv answer k)"
proof (cases answer)
  case (Pair r s')
  show ?thesis
  proof (cases r)
    case (Inl e)
    then show ?thesis using no [of e s'] Pair by (simp add: store_call_def step_none(2) [OF ok])
  next
    case (Inr x)
    then show ?thesis using yes [of x s'] Pair by (simp add: store_call_def)
  qed
qed

lemma record_step_step:
  assumes ok: "service_ok X C ws sv lines" and rec: "records X C ws lines (sv_store sv) answer"
  shows "step_ok X C ws lines sv (record_step sv answer)"
proof (cases answer)
  case (Pair r s')
  show ?thesis
  proof (cases r)
    case (Inl e)
    then show ?thesis using rec Pair by (simp add: records_def record_step_def step_none(2) [OF ok])
  next
    case (Inr c)
    then obtain line where line: "appends X C ws lines (sv_store sv) s' (Some line)" "nr_updated_seq c = Suc (length lines)"
      "covers {Notifications} (ms_projection (sv_store sv)) (ms_projection s')"
      using rec Pair unfolding records_def by blast
    have "covers (transition_areas c) (ms_projection (sv_store sv)) (ms_projection s')"
      by (rule covers_mono [OF line(3)]) (simp add: transition_areas_def)
    from step_one [OF ok line(1) this line(2)] show ?thesis
      using Pair Inr by (simp add: record_step_def publish_transition_def)
  qed
qed

lemma step_ok_finished: "step_ok X C ws lines sv answer \<Longrightarrow> finished answer = (e, sv') \<Longrightarrow>
  quiet X C ws lines sv sv' \<or> (e = None \<and> announced X C ws lines sv sv')"
  by (auto simp: step_ok_def finished_def split: sum.splits)

section \<open>Every request keeps to the two kinds of step\<close>

lemma accept_call_step:
  assumes ok: "service_ok X C ws sv lines" and sup: "\<And>md line. md_supersedes md = cd_supersedes draft \<Longrightarrow> md_recipients md = cd_recipients draft \<Longrightarrow>
      superseded_notification (ms_projection (sv_store sv)) line md \<noteq> None \<longleftrightarrow> withdrew"
  shows "step_ok X C ws lines sv (store_call sv (accept_canonical_at X C io now (sv_store sv) m draft ts) (finish_accept (accepted_areas withdrew)))"
proof (rule store_call_step [OF ok])
  note st = service_okD(2) [OF ok]
  show "e \<noteq> StorePanic \<and> appends X C ws lines (sv_store sv) s' None"
    if "accept_canonical_at X C io now (sv_store sv) m draft ts = (Inl e, s')" for e s'
    using accept_appends [OF st that] by auto
  fix a s' assume "accept_canonical_at X C io now (sv_store sv) m draft ts = (Inr a, s')"
  from st this show "step_ok X C ws lines sv (finish_accept (accepted_areas withdrew) a (sv\<lparr> sv_store := s' \<rparr>))"
  proof (cases rule: accept_appends)
    case (old a')
    then show ?thesis using step_none(1) [OF ok] by (simp add: finish_accept_def)
  next
    case (new a' line md)
    have cov: "covers (accepted_areas withdrew) (ms_projection (sv_store sv)) (ms_projection s')"
      using message_covers [OF st new(4-6)] sup [OF new(7,8)] by simp
    have seq: "ac_seq a = Suc (length lines)" using new(1,3,4) by (simp add: appends_def)
    show ?thesis using step_one [OF ok new(4) cov seq] new(1,2) by (simp add: finish_accept_def)
  qed simp
qed

lemma send_step:
  assumes ok: "service_ok X C ws sv lines" and step: "service_send X C io now draws sv sender request = Some answer"
  shows "step_ok X C ws lines sv answer"
proof (cases "send_recipients X (sv_directory sv) request")
  case (Inl e)
  then show ?thesis using step ok by (auto simp: service_send_def)
next
  case (Inr recipients)
  let ?draft = "send_draft sender request recipients" and ?p = "ms_projection (sv_store sv)"
  have call: "step_ok X C ws lines sv (store_call sv (accept_at X C io now (sv_store sv) m ?draft now)
      (finish_accept (accepted_areas (withdraws_notification ?p ?draft))))" for m
    unfolding accept_at_def
    by (rule accept_call_step [OF ok]) (rule superseded_withdraws, simp_all add: canonical_of_draft_def)
  show ?thesis
    using step ok Inr call service_okD(1) [OF ok] by (auto simp: service_send_def Let_def split: sum.splits)
qed

lemma reply_step:
  assumes ok: "service_ok X C ws sv lines"
    and step: "reply_with_summary X C io now draws sv sender reference summary body key raw = Some answer"
  shows "step_ok X C ws lines sv answer"
proof -
  have call: "step_ok X C ws lines sv (store_call sv (reply_at X C io now (sv_store sv) m draft now) (finish_accept (accepted_areas False)))"
    for m draft
  proof (cases "derive_reply (ms_projection (sv_store sv)) (rd_sender draft) (rd_reference draft)")
    case (Inl e)
    then show ?thesis
      using appends_same [OF service_okD(2) [OF ok]] by (auto simp: reply_at_def intro!: store_call_step [OF ok])
  next
    case (Inr derived)
    have "step_ok X C ws lines sv (store_call sv
        (accept_canonical_at X C io now (sv_store sv) m (canonical_of_reply draft derived) now) (finish_accept (accepted_areas False)))"
      by (rule accept_call_step [OF ok]) (simp add: canonical_of_reply_def superseded_notification_def)
    then show ?thesis using Inr by (simp add: reply_at_def)
  qed
  show ?thesis
    using step ok call service_okD(1) [OF ok]
    by (auto simp: reply_with_summary_def Let_def split: sum.splits option.splits prod.splits)
qed

lemma finish_claim_repeat:
  "finish_claim changed (ClaimedBefore e message w consumed) sv = (Inr (ClaimedBefore e message w consumed), sv)"
  by (simp add: finish_claim_def)

lemma finish_claim_step:
  assumes ok: "service_ok X C ws sv lines" and app: "appends X C ws lines (sv_store sv) s' (Some line)"
    and cov: "covers (claim_areas changed w) (ms_projection (sv_store sv)) (ms_projection s')"
  shows "step_ok X C ws lines sv (finish_claim changed (ClaimedNow e message skipped w consumed) (sv\<lparr> sv_store := s' \<rparr>))"
proof -
  have "last_workspace_seq (ms_projection s') = Some (Suc (length lines))"
    using appends_last_seq(1) [OF service_okD(2) [OF ok] app] app by (simp add: appends_def)
  then show ?thesis using step_one [OF ok app cov refl] by (simp add: finish_claim_def)
qed

lemma claim_step:
  assumes ok: "service_ok X C ws sv lines"
  shows "step_ok X C ws lines sv (service_claim X C io now sv claimant m)"
proof -
  note st = service_okD(2) [OF ok]
  let ?ch = "claim_changes (ms_projection (sv_store sv)) claimant m"
  have "step_ok X C ws lines sv (store_call sv (claim_at X C io now (sv_store sv) claimant m now) (finish_claim ?ch))"
  proof (rule store_call_step [OF ok])
    show "e \<noteq> StorePanic \<and> appends X C ws lines (sv_store sv) s' None"
      if "claim_at X C io now (sv_store sv) claimant m now = (Inl e, s')" for e s'
      using claim_appends [OF st that] by auto
    fix x s' assume "claim_at X C io now (sv_store sv) claimant m now = (Inr x, s')"
    from st this show "step_ok X C ws lines sv (finish_claim ?ch x (sv\<lparr> sv_store := s' \<rparr>))"
      by (cases rule: claim_appends) (auto simp: finish_claim_repeat ok intro: finish_claim_step [OF ok])
  qed
  then show ?thesis using service_okD(1) [OF ok] by (simp add: service_claim_def with_store_def claim_changes_def Let_def)
qed

lemma claim_locator_step:
  assumes ok: "service_ok X C ws sv lines"
  shows "step_ok X C ws lines sv (service_claim_notification_locator X C io now sv claimant locator a)"
proof -
  note st = service_okD(2) [OF ok]
  have "step_ok X C ws lines sv (store_call sv (claim_notification_locator X C io now (sv_store sv) claimant locator a)
      (\<lambda>(result, changed). finish_claim changed result))"
  proof (rule store_call_step [OF ok])
    show "e \<noteq> StorePanic \<and> appends X C ws lines (sv_store sv) s' None"
      if "claim_notification_locator X C io now (sv_store sv) claimant locator a = (Inl e, s')" for e s'
      using claim_locator_appends [OF st that] by auto
    fix x s' assume "claim_notification_locator X C io now (sv_store sv) claimant locator a = (Inr x, s')"
    from st this show "step_ok X C ws lines sv ((case x of (result, changed) \<Rightarrow> finish_claim changed result) (sv\<lparr> sv_store := s' \<rparr>))"
      by (cases rule: claim_locator_appends) (auto simp: finish_claim_repeat ok intro: finish_claim_step [OF ok])
  qed
  then show ?thesis
    using service_okD(1) [OF ok] by (simp add: service_claim_notification_locator_def with_store_def)
qed

text \<open>An operation of one notification that the service announces as a notification change.\<close>

lemma records_call_step:
  assumes ok: "service_ok X C ws sv lines" and rec: "records X C ws lines (sv_store sv) answer"
  shows "step_ok X C ws lines sv (store_call sv answer (\<lambda>c sv. (Inr (Some c), publish_change sv (nr_updated_seq c) {Notifications})))"
  by (rule store_call_step [OF ok]) (use rec step_one [OF ok] in \<open>auto simp: records_def\<close>)

lemma prepare_step:
  assumes ok: "service_ok X C ws sv lines"
  shows "step_ok X C ws lines sv (prepare_oldest_notification X C io now fresh sv r)"
  using ok records_call_step [OF ok operation_records(1) [OF service_okD(2) [OF ok]]]
  by (simp add: prepare_oldest_notification_def with_store_def service_okD(1) Let_def split: option.split)

lemma reopen_step:
  assumes ok: "service_ok X C ws sv lines"
  shows "step_ok X C ws lines sv (reopen_oldest_notification_after_route_evidence X C io now sv r ob ready)"
  using ok records_call_step [OF ok operation_records(2) [OF service_okD(2) [OF ok]]]
  by (simp add: reopen_oldest_notification_after_route_evidence_def with_store_def service_okD(1) Let_def split: option.split)

lemma requeue_message_step:
  assumes ok: "service_ok X C ws sv lines"
  shows "step_ok X C ws lines sv (requeue_message X C io now fresh sv m)"
proof -
  note st = service_okD(2) [OF ok]
  let ?qs = "requeue_targets (ms_projection (sv_store sv)) m fresh"
  have "step_ok X C ws lines sv (store_call sv (requeue_notifications X C io now (sv_store sv) m ?qs) (\<lambda>requeued sv.
      (Inr requeued, case requeued of [] \<Rightarrow> sv | c # _ \<Rightarrow> publish_change sv (nr_updated_seq c) {Notifications, Attention})))"
  proof (rule store_call_step [OF ok])
    show "e \<noteq> StorePanic \<and> appends X C ws lines (sv_store sv) s' None"
      if "requeue_notifications X C io now (sv_store sv) m ?qs = (Inl e, s')" for e s'
      using requeues_appends [OF st that] by auto
    fix cs s' assume "requeue_notifications X C io now (sv_store sv) m ?qs = (Inr cs, s')"
    from st this show "step_ok X C ws lines sv (Inr cs, case cs of [] \<Rightarrow> sv\<lparr> sv_store := s' \<rparr>
        | c # _ \<Rightarrow> publish_change (sv\<lparr> sv_store := s' \<rparr>) (nr_updated_seq c) {Notifications, Attention})"
      by (cases rule: requeues_appends) (auto simp: ok intro!: step_one [OF ok] elim: covers_mono)
  qed
  then show ?thesis using ok by (simp add: requeue_message_def with_store_def service_okD(1) Let_def)
qed

lemma clear_alarms_step:
  assumes ok: "service_ok X C ws sv lines"
  shows "step_ok X C ws lines sv (clear_alarms X C io now random sv operator ids cutoff)"
proof -
  note st = service_okD(2) [OF ok]
  let ?p = "ms_projection (sv_store sv)"
  let ?k = "\<lambda>summaries (_ :: unit) sv'. let new_seq = last_workspace_seq (ms_projection (sv_store sv')) in
    if new_seq = last_workspace_seq ?p then (Inr summaries, sv')
    else (case new_seq of None \<Rightarrow> (Inl ServicePanic, sv'\<lparr> sv_poisoned := True \<rparr>)
          | Some seq \<Rightarrow> (Inr summaries, publish_change sv' seq {Attention}))"
  have call: "step_ok X C ws lines sv (store_call sv (clear_notifications_at X C io now random (sv_store sv) operator ids' cutoff now) (?k summaries))"
    for ids' and summaries :: "notification_record list"
  proof (rule store_call_step [OF ok])
    show "e \<noteq> StorePanic \<and> appends X C ws lines (sv_store sv) s' None"
      if "clear_notifications_at X C io now random (sv_store sv) operator ids' cutoff now = (Inl e, s')" for e s'
      using clears_appends [OF st that] by auto
    fix u s' assume "clear_notifications_at X C io now random (sv_store sv) operator ids' cutoff now = (Inr u, s')"
    from st this show "step_ok X C ws lines sv (?k summaries u (sv\<lparr> sv_store := s' \<rparr>))"
    proof (cases rule: clears_appends)
      case (one line)
      have "last_workspace_seq (ms_projection s') = Some (Suc (length lines))"
        using appends_last_seq(1) [OF st one(2)] one(2) by (simp add: appends_def)
      then show ?thesis
        using appends_last_seq(2) [OF st one(2)] step_one [OF ok one(2,3) refl] by (simp add: Let_def)
    qed (simp_all add: ok)
  qed
  show ?thesis
    using ok call unfolding clear_alarms_def with_store_def Let_def by (auto simp: service_okD(1) split: sum.split prod.split)
qed

lemma withdraw_step:
  assumes ok: "service_ok X C ws sv lines"
  shows "step_ok X C ws lines sv (service_withdraw_notification_before_write X C io now sv operator r a)"
proof -
  note st = service_okD(2) [OF ok]
  let ?p = "ms_projection (sv_store sv)"
  let ?k = "\<lambda>c sv'. let inserted = (last_workspace_seq (ms_projection (sv_store sv')) \<noteq> last_workspace_seq ?p) in
    (Inr (c, inserted), if inserted then publish_change sv' (nr_updated_seq c) {Notifications} else sv')"
  have "step_ok X C ws lines sv (store_call sv (withdraw_notification_before_write X C io now (sv_store sv) operator r a) ?k)"
  proof (rule store_call_step [OF ok])
    show "e \<noteq> StorePanic \<and> appends X C ws lines (sv_store sv) s' None"
      if "withdraw_notification_before_write X C io now (sv_store sv) operator r a = (Inl e, s')" for e s'
      using withdraw_appends [OF st that] by auto
    fix c s' assume "withdraw_notification_before_write X C io now (sv_store sv) operator r a = (Inr c, s')"
    from st this show "step_ok X C ws lines sv (?k c (sv\<lparr> sv_store := s' \<rparr>))"
    proof (cases rule: withdraw_appends)
      case (one c' line)
      then show ?thesis
        using appends_last_seq(2) [OF st one(2)] step_one [OF ok one(2,4,3)] by (simp add: Let_def)
    qed (simp_all add: ok)
  qed
  then show ?thesis
    using ok by (simp add: service_withdraw_notification_before_write_def with_store_def service_okD(1) Let_def)
qed

lemma seal_step:
  assumes ok: "service_ok X C ws sv lines"
  shows "step_ok X C ws lines sv (service_seal unlocked sv)"
proof -
  obtain r w where w: "seal_writer unlocked (ms_writer (sv_store sv)) = (r, w)" by fastforce
  have "store_ok X C ws (sv_store sv\<lparr> ms_writer := w \<rparr>) lines" by (rule seal_keeps [OF service_okD(2) [OF ok] w])
  then show ?thesis
    using ok w by (simp add: service_seal_def with_store_def step_ok_def quiet_def service_ok_def)
qed

lemma replace_step:
  "service_ok X C ws sv lines \<Longrightarrow> step_ok X C ws lines sv (replace_directory sv dir)"
  by (simp add: replace_directory_def step_ok_def quiet_def service_ok_def)

lemma handle_step:
  assumes ok: "service_ok X C ws sv lines" and step: "handle X C io now sv request = Some (e, sv')"
  shows "quiet X C ws lines sv sv' \<or> (e = None \<and> announced X C ws lines sv sv')"
proof (cases request)
  case (Send draws sender body)
  then obtain answer where "service_send X C io now draws sv sender body = Some answer" "finished answer = (e, sv')"
    using step by auto
  then show ?thesis using step_ok_finished [OF send_step [OF ok]] by blast
next
  case (ReplyTo draws sender reference summary body key raw)
  then obtain answer where "reply_with_summary X C io now draws sv sender reference summary body key raw = Some answer"
    "finished answer = (e, sv')"
    using step by auto
  then show ?thesis using step_ok_finished [OF reply_step [OF ok]] by blast
qed (use step in \<open>auto dest: step_ok_finished [rotated, OF _ claim_step [OF ok]]
    step_ok_finished [rotated, OF _ claim_locator_step [OF ok]] step_ok_finished [rotated, OF _ prepare_step [OF ok]]
    step_ok_finished [rotated, OF _ reopen_step [OF ok]] step_ok_finished [rotated, OF _ requeue_message_step [OF ok]]
    step_ok_finished [rotated, OF _ clear_alarms_step [OF ok]] step_ok_finished [rotated, OF _ withdraw_step [OF ok]]
    step_ok_finished [rotated, OF _ replace_step [OF ok]] step_ok_finished [rotated, OF _ seal_step [OF ok]]\<close>)

section \<open>The steps of delivery workers\<close>

lemma advance_locked_step:
  assumes ok: "service_ok X C ws sv lines"
  shows "step_ok X C ws lines sv (advance_locked X C io now sv x st binding cause)"
  using ok record_step_step [OF ok operation_records(2) [OF service_okD(2) [OF ok]]]
  by (simp add: advance_locked_def split: option.split)

lemma step_ok_answer:
  assumes "step_ok X C ws lines sv answer"
  shows "step_ok X C ws lines sv (case answer of (Inl e, sv') \<Rightarrow> (Inl e, sv') | (Inr c, sv') \<Rightarrow> (Inr b, sv'))"
  using assms by (cases answer) (auto simp: step_ok_def split: sum.split)

lemmas adapter_defs =
  record_gating_def record_writing_def record_writing_raw_def advance_def record_notified_def record_mailbox_notified_def
  record_terminal_def record_attention_def record_pre_write_block_with_wake_block_def record_paste_command_unwritten_def

lemma adapter_steps:
  assumes ok: "service_ok X C ws sv lines"
  shows "step_ok X C ws lines sv (record_gating X C io now sv x)"
    and "step_ok X C ws lines sv (record_writing X C io now sv x root leader agent manifest transport fmt)"
    and "step_ok X C ws lines sv (record_writing_raw X C io now sv x)"
    and "step_ok X C ws lines sv (advance X C io now sv x st binding cause)"
    and "step_ok X C ws lines sv (record_notified X C io now sv x verified)"
    and "step_ok X C ws lines sv (record_mailbox_notified X C io now sv x)"
    and "step_ok X C ws lines sv (record_attention X C io now sv x attention)"
    and "step_ok X C ws lines sv (record_pre_write_block_with_wake_block X C io now sv x pre ob block)"
    and "step_ok X C ws lines sv (record_paste_command_unwritten X C io now sv x)"
  using service_okD(1) [OF ok]
  by (simp_all add: adapter_defs with_lock_def Let_def step_same [OF ok] advance_locked_step [OF ok] record_step_step [OF ok operation_records(3) [OF service_okD(2) [OF ok]]]
      record_step_step [OF ok operation_records(4) [OF service_okD(2) [OF ok]]]
      record_step_step [OF ok operation_records(5) [OF service_okD(2) [OF ok]]]
      record_step_step [OF ok operation_records(6) [OF service_okD(2) [OF ok]]]
      record_step_step [OF ok operation_records(7) [OF service_okD(2) [OF ok]]]
      record_step_step [OF ok operation_records(8) [OF service_okD(2) [OF ok]]] split: option.split sum.split)

lemma settle_step:
  assumes ok: "service_ok X C ws sv lines"
  shows "step_ok X C ws lines sv (settle_submitted_claim X C io now sv x)"
  using service_okD(1) [OF ok] ok
  by (simp add: settle_submitted_claim_def with_lock_def Let_def step_ok_answer [OF advance_locked_step [OF ok]] split: option.split)

lemma work_step:
  assumes ok: "service_ok X C ws sv lines" and step: "work X C io now sv x action = (e, sv')"
  shows "quiet X C ws lines sv sv' \<or> (e = None \<and> announced X C ws lines sv sv')"
  using step adapter_steps [OF ok, THEN step_ok_finished] settle_step [OF ok, THEN step_ok_finished]
  by (cases action) auto

section \<open>Reachable services\<close>

inductive service_reachable :: "extern \<Rightarrow> line_codec \<Rightarrow> Identity.workspace_id \<Rightarrow> mailbox_service \<Rightarrow> bool" for X C ws where
  started: "store_reachable X C ws s \<Longrightarrow> dir_workspace_id dir = ws \<Longrightarrow> service_reachable X C ws (service_new_with_events dir s)"
| handled: "service_reachable X C ws sv \<Longrightarrow> handle X C io now sv request = Some (e, sv') \<Longrightarrow> service_reachable X C ws sv'"
| worked: "service_reachable X C ws sv \<Longrightarrow> work X C io now sv x action = (e, sv') \<Longrightarrow> service_reachable X C ws sv'"

definition event_seqs :: "message_change_publisher \<Rightarrow> nat list" where
  "event_seqs pub = map (mc_workspace_seq \<circ> ev_data) (pub_events pub)"

definition events_ok :: "nat \<Rightarrow> nat \<Rightarrow> message_change_publisher \<Rightarrow> bool" where
  "events_ok n0 n pub \<longleftrightarrow>
     event_seqs pub = [Suc n0..<Suc n] \<and>
     (\<forall>ev\<in>set (pub_events pub). ev_seq ev = Some (mc_workspace_seq (ev_data ev)))"

lemma events_ok_publish:
  "events_ok n0 n pub \<Longrightarrow> n0 \<le> n \<Longrightarrow> events_ok n0 (Suc n) (publish pub (Suc n) areas)"
  by (simp add: events_ok_def event_seqs_def publish_def)

definition running :: "extern \<Rightarrow> line_codec \<Rightarrow> Identity.workspace_id \<Rightarrow> mailbox_service \<Rightarrow> ledger_line list \<Rightarrow> bool" where
  "running X C ws sv lines \<longleftrightarrow>
     service_ok X C ws sv lines \<and>
     (\<exists>first pub. first \<le> length lines \<and> sv_changes sv = Some pub \<and> events_ok first (length lines) pub)"

lemma running_step:
  assumes run: "running X C ws sv lines" and step: "quiet X C ws lines sv sv' \<or> announced X C ws lines sv sv'"
  shows "\<exists>lines'. running X C ws sv' lines'"
  using step
proof
  assume "quiet X C ws lines sv sv'"
  then have "running X C ws sv' lines" using run by (simp add: running_def quiet_def)
  then show ?thesis ..
next
  assume "announced X C ws lines sv sv'"
  then obtain line areas where a: "service_ok X C ws sv' (lines @ [line])"
    "sv_changes sv' = map_option (\<lambda>pub. publish pub (Suc (length lines)) areas) (sv_changes sv)"
    unfolding announced_def by blast
  obtain first pub where "first \<le> length lines" "sv_changes sv = Some pub" "events_ok first (length lines) pub"
    using run unfolding running_def by blast
  then have "running X C ws sv' (lines @ [line])"
    unfolding running_def using a events_ok_publish by (intro conjI exI [of _ first]) auto
  then show ?thesis ..
qed

lemma reachable_running:
  assumes laws: "codec_laws C"
  shows "service_reachable X C ws sv \<Longrightarrow> \<exists>lines. running X C ws sv lines"
proof (induction rule: service_reachable.induct)
  case (started s dir)
  obtain lines where "store_ok X C ws s lines" using reachable_store_ok [OF laws started(1)] ..
  then have "running X C ws (service_new_with_events dir s) lines"
    using started(2) by (auto simp: running_def service_ok_def service_new_with_events_def service_new_inner_def
        events_ok_def event_seqs_def intro!: exI [of _ "length lines"])
  then show ?case ..
next
  case (handled sv io now request e sv')
  then show ?case using handle_step running_step unfolding running_def by metis
next
  case (worked sv io now x action e sv')
  then show ?case using work_step running_step unfolding running_def by metis
qed

text \<open>What a service does after one of its states: requests and worker steps, in any order.\<close>

inductive service_run :: "extern \<Rightarrow> line_codec \<Rightarrow> mailbox_service \<Rightarrow> mailbox_service \<Rightarrow> bool" for X C sv0 where
  idle: "service_run X C sv0 sv0"
| request: "service_run X C sv0 sv \<Longrightarrow> handle X C io now sv req = Some (e, sv') \<Longrightarrow> service_run X C sv0 sv'"
| worker: "service_run X C sv0 sv \<Longrightarrow> work X C io now sv x action = (e, sv') \<Longrightarrow> service_run X C sv0 sv'"

text \<open>The lines a run appended, and the events it sent for them.\<close>

definition announced_all ::
  "extern \<Rightarrow> line_codec \<Rightarrow> Identity.workspace_id \<Rightarrow> ledger_line list \<Rightarrow> mailbox_service \<Rightarrow> mailbox_service \<Rightarrow>
   ledger_line list \<Rightarrow> bool" where
  "announced_all X C ws lines sv0 sv appended \<longleftrightarrow>
     service_ok X C ws sv (lines @ appended) \<and>
     run_log (apply_owned X) (ms_projection (sv_store sv0)) appended = Inr (ms_projection (sv_store sv)) \<and>
     (\<exists>pub. sv_changes sv = Some pub \<and> event_seqs pub = map ln_seq appended \<and>
        events_ok (length lines) (length (lines @ appended)) pub)"

lemma announced_all_step:
  assumes all: "announced_all X C ws lines sv0 sv appended"
    and step: "quiet X C ws (lines @ appended) sv sv' \<or> announced X C ws (lines @ appended) sv sv'"
  shows "\<exists>appended'. announced_all X C ws lines sv0 sv' appended'"
  using step
proof
  assume "quiet X C ws (lines @ appended) sv sv'"
  then have "announced_all X C ws lines sv0 sv' appended" using all by (simp add: announced_all_def quiet_def)
  then show ?thesis ..
next
  assume "announced X C ws (lines @ appended) sv sv'"
  then obtain line areas where a: "service_ok X C ws sv' ((lines @ appended) @ [line])"
    "ln_seq line = Suc (length (lines @ appended))"
    "apply_owned X (ms_projection (sv_store sv)) line = Inr (ms_projection (sv_store sv'))"
    "sv_changes sv' = map_option (\<lambda>pub. publish pub (Suc (length (lines @ appended))) areas) (sv_changes sv)"
    unfolding announced_def by blast
  obtain pub where p: "sv_changes sv = Some pub" "event_seqs pub = map ln_seq appended"
    "events_ok (length lines) (length (lines @ appended)) pub"
    "run_log (apply_owned X) (ms_projection (sv_store sv0)) appended = Inr (ms_projection (sv_store sv))"
    using all unfolding announced_all_def by blast
  have "announced_all X C ws lines sv0 sv' (appended @ [line])"
    unfolding announced_all_def using a p events_ok_publish [OF p(3), of areas]
    by (auto simp: run_log_append result_simps event_seqs_def publish_def)
  then show ?thesis ..
qed

lemma service_run_announced:
  assumes start: "announced_all X C ws lines sv0 sv0 []"
  shows "service_run X C sv0 sv \<Longrightarrow> \<exists>appended. announced_all X C ws lines sv0 sv appended"
proof (induction rule: service_run.induct)
  case idle
  then show ?case using start by blast
next
  case (request sv io now req e sv')
  then show ?case using handle_step announced_all_step unfolding announced_all_def by metis
next
  case (worker sv io now x action e sv')
  then show ?case using work_step announced_all_step unfolding announced_all_def by metis
qed

end
