(* ===== verification/Service_Queue.thy ===== *)
theory Service_Queue
  imports Service_Run
begin

text \<open>
  The notification queue as the scheduler uses it: the head it picks is the first position that
  the snapshot prints, a prepared head stays prepared, and a worker crosses the write boundary
  only for the attempt and epoch it was started with.
\<close>

section \<open>Queue positions\<close>

lemma position_filter:
  assumes "distinct (map f es)"
  shows "position (\<lambda>e. f e = m) (filter P es) =
    (case find (\<lambda>e. f e = m) es of
       None \<Rightarrow> None
     | Some e \<Rightarrow> if P e then Some (length (filter P (takeWhile (\<lambda>e. f e \<noteq> m) es))) else None)"
  using assms
proof (induction es)
  case (Cons e es)
  show ?case
  proof (cases "f e = m")
    case True
    have "f e \<notin> f ` set es" using Cons.prems by simp
    then have "\<forall>e'\<in>set es. f e' \<noteq> m" using True by (metis imageI)
    then have "find (\<lambda>e. f e = m) es = None" by (simp add: find_None_iff)
    then have "position (\<lambda>e. f e = m) (filter P es) = None" using Cons by simp
    then show ?thesis using True by simp
  next
    case False
    then show ?thesis using Cons by (auto split: option.splits)
  qed
qed simp

lemma queue_filter:
  "hm_get (mailboxes p) r = Some mb \<Longrightarrow>
   filter (\<lambda>e. \<not> notification_withdrawn_by_operator p r (me_message_id e)) (get_pending p r) = filter (fifo_entry p r) (bt_values mb)"
  by (auto simp: get_pending_def fifo_entry_def intro: filter_cong)

lemma position_is_fifo:
  assumes ok: "entries_ok p"
  shows "map_option Suc (position (\<lambda>e. me_message_id e = m)
      (filter (\<lambda>e. \<not> notification_withdrawn_by_operator p r (me_message_id e)) (get_pending p r))) =
    hm_get (fifo_positions p) (r, m)"
proof (cases "hm_get (mailboxes p) r")
  case None
  then show ?thesis by (simp add: fifo_positions_get [OF ok] get_pending_def)
next
  case (Some mb)
  show ?thesis
    unfolding queue_filter [OF Some] position_filter [OF mailbox_ids_distinct [OF ok Some]] fifo_positions_get [OF ok] Some
    by (simp add: queue_position_def split: option.split)
qed

lemma position_head: "position P xs = Some 0 \<longleftrightarrow> (\<exists>x ys. xs = x # ys \<and> P x)"
  by (cases xs) auto

lemma find_head: "find P xs = (case filter P xs of [] \<Rightarrow> None | x # _ \<Rightarrow> Some x)"
  by (induction xs) auto

lemma head_is_first:
  assumes ok: "entries_ok p"
  shows "first_actionable_pending_message_id p r = Some m \<longleftrightarrow> hm_get (fifo_positions p) (r, m) = Some 1"
proof -
  have "hm_get (fifo_positions p) (r, m) = Some 1 \<longleftrightarrow>
      position (\<lambda>e. me_message_id e = m)
        (filter (\<lambda>e. \<not> notification_withdrawn_by_operator p r (me_message_id e)) (get_pending p r)) = Some 0"
    unfolding position_is_fifo [OF ok, symmetric] by (auto split: option.splits)
  then show ?thesis
    unfolding position_head first_actionable_pending_message_id_def find_head by (auto split: list.splits)
qed

lemma position_ahead_fifo:
  assumes ok: "entries_ok p" and n: "n \<le> u32_max"
  shows "position_ahead p r m = Some n \<longleftrightarrow> hm_get (fifo_positions p) (r, m) = Some (Suc n)"
  unfolding position_is_fifo [OF ok, symmetric] position_ahead_def using n by (auto simp: bind_eq_Some_conv)

text \<open>A head without a notification is pending and first in the queue.\<close>

lemma actionable_unnotified:
  "actionable_notification p r e \<Longrightarrow> notification p r (me_message_id e) = None \<Longrightarrow> fifo_entry p r e"
  by (auto simp: actionable_notification_def fifo_entry_def split: if_splits)

lemma fifo_actionable: "fifo_entry p r e \<Longrightarrow> actionable_notification p r e"
  by (simp add: actionable_notification_def fifo_entry_def)

lemma unnotified_head_is_first:
  assumes "first_actionable_notification_message_id p r = Some m" and "notification p r m = None"
  shows "first_actionable_pending_message_id p r = Some m"
proof -
  obtain mb e where mb: "hm_get (mailboxes p) r = Some mb" and e: "find (actionable_notification p r) (bt_values mb) = Some e"
    "m = me_message_id e"
    using assms(1) by (auto simp: first_actionable_notification_message_id_def bind_eq_Some_conv)
  obtain us vs where es: "bt_values mb = us @ e # vs" "actionable_notification p r e" "\<forall>u\<in>set us. \<not> actionable_notification p r u"
    using e(1) unfolding find_Some_iff by (metis Cons_nth_drop_Suc append_take_drop_id in_set_conv_nth length_take min.absorb4 nth_take)
  have "fifo_entry p r e" using actionable_unnotified es(2) assms(2) e(2) by simp
  moreover have "filter (fifo_entry p r) us = []" using es(3) fifo_actionable by (auto simp: filter_empty_conv)
  ultimately have "filter (fifo_entry p r) (bt_values mb) = e # filter (fifo_entry p r) vs" by (simp add: es(1))
  then show ?thesis
    unfolding first_actionable_pending_message_id_def find_head queue_filter [OF mb] using e(2) by simp
qed

section \<open>What a transition records\<close>

lemma transition_recorded:
  assumes ok: "store_ok X C ws s lines" and step: "append_notification_transition_full_at X C io now s f ts = (Inr c, s')"
  shows "notifications (ms_projection s') = hm_insert (tf_recipient f, tf_message_id f) c (notifications (ms_projection s))"
    and "get_entry (ms_projection s') = get_entry (ms_projection s)" and "mailboxes (ms_projection s') = mailboxes (ms_projection s)"
    and "nr_attempt_id c = tf_attempt_id f" and "nr_message_id c = tf_message_id f" and "nr_recipient c = tf_recipient f"
    and "notification (ms_projection s) (tf_recipient f) (tf_message_id f) = None \<Longrightarrow>
      nr_state c = Queued \<and> pending_entry (ms_projection s) (tf_recipient f) (tf_message_id f)"
    and "notification (ms_projection s) (tf_recipient f) (tf_message_id f) \<noteq> None \<Longrightarrow> nr_state c = tf_state f"
proof -
  let ?p = "ms_projection s" and ?k = "(tf_recipient f, tf_message_id f)"
  have f: "fact_entry (NotificationTransition f) = Some ?k" "\<And>t. NotificationTransition f \<noteq> NotificationCleared t" by simp_all
  note run = step [unfolded append_notification_transition_full_at_def]
  obtain line where line: "appends X C ws lines s s' (Some line)" "notifications (ms_projection s') = hm_insert ?k c (notifications ?p)"
    "covers {Notifications} ?p (ms_projection s')"
    "ln_kind line = State" "ln_data line = Some (notification_fact_value (NotificationTransition f))"
    by (rule fact_appends [OF ok f run]) (auto simp: state_row_def)
  then have app: "apply_inner X ?p line False = Inr (ms_projection s')" by (simp add: appends_def apply_owned_def)
  obtain pm where pm: "prepare_line_inner X ?p line False = Inr pm" "legal ?p line pm" "commit_line ?p line pm = Some (ms_projection s')"
    "get_entry (ms_projection s') = entry_effect line pm (get_entry ?p)"
    by (rule apply_inner_facts [OF store_okD(4) [OF ok] app])
  have "prepare_state X ?p line False = Inr pm" using pm(1) line(4) prepared_state_row by (simp add: prepare_line_def)
  then have "prepare_notification_transition X ?p line False = Inr pm"
    using line(5) by (simp add: prepare_state_def notification_fact_value_def)
  then obtain rec new where rec: "transition_record ?p line (hm_get (notifications ?p) ?k) f = Inr (rec, new)"
    "pm = PreparedNotification ?k rec new" "check_transition_edge (hm_get (notifications ?p) ?k) f False = Inr ()"
    using line(5) by (auto simp: prepare_notification_transition_def notification_fact_of_def notification_fact_value_def
        result_simps Let_def)
  have c: "rec = c"
  proof -
    have "hm_get (notifications (ms_projection s')) ?k = Some rec" using commit_line_notifications [OF pm(3)] rec(2) by simp
    then show ?thesis using line(2) by simp
  qed
  show "notifications (ms_projection s') = hm_insert ?k c (notifications ?p)" by (rule line(2))
  show "get_entry (ms_projection s') = get_entry ?p" using pm(4) rec(2) by simp
  show "mailboxes (ms_projection s') = mailboxes ?p" using line(3) by (auto simp: covers_def)
  show "nr_attempt_id c = tf_attempt_id f" "nr_message_id c = tf_message_id f" "nr_recipient c = tf_recipient f"
    using rec(1) by (auto simp: c transition_record_def advanced_record_def queued_record_def result_simps Let_def split: option.splits)
  show "nr_state c = Queued \<and> pending_entry ?p (tf_recipient f) (tf_message_id f)"
    if "notification ?p (tf_recipient f) (tf_message_id f) = None"
    using rec(1) that by (auto simp: c notification_def transition_record_def queued_record_def pending_entry_def result_simps Let_def)
  show "nr_state c = tf_state f" if "notification ?p (tf_recipient f) (tf_message_id f) \<noteq> None"
    using rec(1) that by (auto simp: c notification_def transition_record_def advanced_record_def)
qed

section \<open>A prepared head stays prepared\<close>

lemma queue_recorded:
  assumes ok: "store_ok X C ws s lines" and none: "notification (ms_projection s) r m = None"
    and step: "queue_notification X C io now s m r a = (Inr c, s')"
  shows "notifications (ms_projection s') = hm_insert (r, m) c (notifications (ms_projection s))"
    and "get_entry (ms_projection s') = get_entry (ms_projection s)" and "mailboxes (ms_projection s') = mailboxes (ms_projection s)"
    and "nr_attempt_id c = a" "nr_message_id c = m" "nr_recipient c = r" "nr_state c = Queued" "pending_entry (ms_projection s) r m"
proof -
  obtain f where f: "append_notification_transition_full_at X C io now s f now = (Inr c, s')"
    "tf_recipient f = r" "tf_message_id f = m" "tf_attempt_id f = a"
    using step by (simp add: transition_defs transition_of_def)
  note t = transition_recorded [OF ok f(1), unfolded f(2-4)]
  show "notifications (ms_projection s') = hm_insert (r, m) c (notifications (ms_projection s))"
    "get_entry (ms_projection s') = get_entry (ms_projection s)" "mailboxes (ms_projection s') = mailboxes (ms_projection s)"
    "nr_attempt_id c = a" "nr_message_id c = m" "nr_recipient c = r"
    by (rule t(1-6))+
  show "nr_state c = Queued" "pending_entry (ms_projection s) r m" using t(7) [OF none] by simp_all
qed

lemma filter_new_value:
  "hm_get N k = None \<Longrightarrow> \<not> P v \<Longrightarrow> filter P (hm_values (hm_insert k v N)) = filter P (hm_values N)"
  unfolding hm_values_def hm_insert_def hm_get_def by (induction N) (auto split: if_splits)

lemma claimed_operator_unchanged:
  assumes none: "notification p r m = None" and n: "notifications q = hm_insert (r, m) c (notifications p)"
    and e: "get_entry q = get_entry p" and m: "nr_message_id c = m" and pend: "pending_entry p r m"
  shows "claimed_operator_notification q r = claimed_operator_notification p r"
proof -
  have "\<not> is_some_and (get_entry p r (nr_message_id c)) (\<lambda>e. is_claimed (me_state e))"
    using pend m by (auto simp: pending_entry_def is_claimed_def)
  then show ?thesis
    unfolding claimed_operator_notification_def n e using none by (subst filter_new_value) (auto simp: notification_def)
qed

lemma find_head_kept:
  assumes "map_option f (find P es) = Some m" and "\<And>e. f e \<noteq> m \<Longrightarrow> Q e = P e" and "\<And>e. f e = m \<Longrightarrow> P e \<Longrightarrow> Q e"
  shows "map_option f (find Q es) = Some m"
  using assms(1) by (induction es) (use assms(2,3) in \<open>auto split: if_splits\<close>)

lemma head_unchanged:
  assumes head: "first_actionable_notification_message_id p r = Some m" and none: "notification p r m = None"
    and n: "notifications q = hm_insert (r, m) c (notifications p)" and mb: "mailboxes q = mailboxes p" and c: "nr_state c = Queued"
  shows "first_actionable_notification_message_id q r = Some m"
proof -
  obtain es where es: "hm_get (mailboxes p) r = Some es" "map_option me_message_id (find (actionable_notification p r) (bt_values es)) = Some m"
    using head by (auto simp: first_actionable_notification_message_id_def bind_eq_Some_conv)
  have "map_option me_message_id (find (actionable_notification q r) (bt_values es)) = Some m"
  proof (rule find_head_kept [OF es(2)])
    show "actionable_notification q r e = actionable_notification p r e" if "me_message_id e \<noteq> m" for e
      using that by (simp add: actionable_notification_def notification_withdrawn_by_operator_def notification_def n)
    show "actionable_notification q r e" if "me_message_id e = m" "actionable_notification p r e" for e
      using that none actionable_unnotified [OF that(2)]
      by (simp add: actionable_notification_def fifo_entry_def notification_withdrawn_by_operator_def notification_def n c)
  qed
  then show ?thesis using es(1) mb by (simp add: first_actionable_notification_message_id_def)
qed

lemma prepare_cases:
  assumes ok: "service_ok X C ws sv lines" and step: "prepare_oldest_notification X C io now fresh sv r = (Inr (Some c), sv')"
  obtains (kept) "sv' = sv" "\<And>io now fresh. prepare_oldest_notification X C io now fresh sv r = (Inr (Some c), sv)"
  | (queued) m s' where "\<not> is_admin r" "claimed_operator_notification (ms_projection (sv_store sv)) r = None"
      "first_actionable_notification_message_id (ms_projection (sv_store sv)) r = Some m"
      "notification (ms_projection (sv_store sv)) r m = None" "queue_notification X C io now (sv_store sv) m r fresh = (Inr c, s')"
      "sv' = publish_change (sv\<lparr> sv_store := s' \<rparr>) (nr_updated_seq c) {Notifications}"
proof -
  note unf = prepare_oldest_notification_def with_store_def Let_def
  have a: "\<not> is_admin r" and np: "\<not> sv_poisoned sv" using step service_okD(1) [OF ok] by (auto simp: unf split: if_splits)
  show thesis
  proof (cases "claimed_operator_notification (ms_projection (sv_store sv)) r")
    case (Some c')
    then show thesis using step kept a np by (auto simp: unf)
  next
    case None
    then obtain m where m: "first_actionable_notification_message_id (ms_projection (sv_store sv)) r = Some m"
      using step a np by (auto simp: unf split: option.splits)
    show thesis
    proof (cases "notification (ms_projection (sv_store sv)) r m")
      case (Some c')
      then show thesis using step kept None m a np by (auto simp: unf)
    next
      case none: None
      then obtain s' where "queue_notification X C io now (sv_store sv) m r fresh = (Inr c, s')"
        "sv' = publish_change (sv\<lparr> sv_store := s' \<rparr>) (nr_updated_seq c) {Notifications}"
        using step None m a np by (auto simp: unf store_call_def split: prod.splits sum.splits)
      then show thesis by (rule queued [OF a None m none])
    qed
  qed
qed

lemma prepare_again:
  assumes ok: "service_ok X C ws sv lines" and step: "prepare_oldest_notification X C io now fresh sv r = (Inr (Some c), sv')"
  shows "prepare_oldest_notification X C io2 now2 fresh2 sv' r = (Inr (Some c), sv')"
  using ok step
proof (cases rule: prepare_cases)
  case kept
  then show ?thesis by simp
next
  case (queued m s')
  note q = queue_recorded [OF service_okD(2) [OF ok] queued(4,5)]
  have "claimed_operator_notification (ms_projection s') r = None"
    using claimed_operator_unchanged [OF queued(4) q(1,2,5,8)] queued(2) by simp
  moreover have "first_actionable_notification_message_id (ms_projection s') r = Some m"
    by (rule head_unchanged [OF queued(3,4) q(1,3,7)])
  moreover have "notification (ms_projection s') r m = Some c" by (simp add: notification_def q(1))
  ultimately show ?thesis
    using queued(1,6) q(7) service_okD(1) [OF ok] by (simp add: prepare_oldest_notification_def with_store_def waiting_def)
qed

section \<open>Workers\<close>

text \<open>A worker whose attempt or epoch is no longer current changes nothing.\<close>

lemma stale_work:
  assumes cur: "current_of (sv_store sv) x = Some c" and stale: "\<not> owns x c"
  shows "\<exists>e. work X C io now sv x action = (Some e, sv)"
  using assms
  by (cases action) (auto simp: adapter_defs settle_submitted_claim_def advance_locked_def with_lock_def gating_current_def
      finished_def Let_def split: sum.splits)

lemma record_writing_success:
  assumes ok: "service_ok X C ws sv lines"
    and step: "record_writing X C io now sv x root leader agent manifest transport fmt = (Inr c, sv')"
  shows "gating_current (sv_store sv) x" "entry_allows (sv_store sv) x transport"
    and "current_of (sv_store sv') x = Some c" "nr_state c = Writing" "nr_attempt_id c = nx_attempt_id x"
proof -
  let ?b = "\<lambda>manifest. \<lparr> bd_recipient = nx_recipient x, bd_pane_root = Some root, bd_leader = Some leader,
    bd_agent = agent, bd_manifest = manifest \<rparr>"
  obtain man s' where g: "gating_current (sv_store sv) x" "entry_allows (sv_store sv) x transport"
    and run: "advance_notification_with_transport X C io now (sv_store sv) (nx_message_id x) (nx_recipient x)
      (nx_attempt_id x) Writing (?b man) transport fmt = (Inr c, s')" "sv_store sv' = s'"
    using step service_okD(1) [OF ok]
    by (auto simp: record_writing_def with_lock_def record_step_def publish_transition_def split: sum.splits if_splits prod.splits)
  then show "gating_current (sv_store sv) x" "entry_allows (sv_store sv) x transport" by blast+
  obtain f where f: "append_notification_transition_full_at X C io now (sv_store sv) f now = (Inr c, s')"
    "tf_recipient f = nx_recipient x" "tf_message_id f = nx_message_id x" "tf_attempt_id f = nx_attempt_id x" "tf_state f = Writing"
    using run(1) by (auto simp: advance_notification_with_transport_def append_notification_transition_with_transport_at_def
        Let_def transition_of_def split: if_splits option.splits)
  note t = transition_recorded [OF service_okD(2) [OF ok] f(1), unfolded f(2-5)]
  show "current_of (sv_store sv') x = Some c" using t(1) run(2) by (simp add: current_of_def notification_def)
  show "nr_attempt_id c = nx_attempt_id x" by (rule t(4))
  show "nr_state c = Writing" using t(8) g(1) by (auto simp: gating_current_def current_of_def is_some_and_def split: option.splits)
qed

lemma not_gating_refused:
  assumes np: "\<not> sv_poisoned sv" and no: "\<not> gating_current (sv_store sv) x"
  shows "\<exists>e. work X C io now sv x (RecordWriting root leader agent manifest transport fmt) = (Some e, sv)"
    and "work X C io now sv x RecordWritingRaw = (Some NoLongerCurrentBeforeWrite, sv)"
  using assms by (auto simp: record_writing_def record_writing_raw_def with_lock_def finished_def split: sum.splits)

end
