(* ===== verification/Service_Properties.thy ===== *)
theory Service_Properties
  imports Service_Queue Store_Properties
begin

text \<open>The properties of the mailbox service, of its change events, and of the delivery workers' steps.\<close>

section \<open>A sample service\<close>

definition sample_directory :: mailbox_directory where
  "sample_directory = \<lparr> dir_workspace_id = 1, by_address = [], by_pane = [], by_recipient = [] \<rparr>"

definition sample_service :: "nat \<Rightarrow> mailbox_service" where
  "sample_service n = service_new_with_events sample_directory (sample_store n)"

lemma sample_service_simps [simp]:
  "sv_store (sample_service n) = sample_store n" "\<not> sv_poisoned (sample_service n)"
  by (simp_all add: sample_service_def service_new_with_events_def service_new_inner_def)

lemma sample_service_reachable: "n \<le> 10 \<Longrightarrow> service_reachable sample_extern sample_codec 1 (sample_service n)"
  unfolding sample_service_def by (rule service_reachable.started [OF sample_reachable]) (simp_all add: sample_directory_def)

lemma sample_persist:
  assumes n: "n < 10" and row: "row = sample_journal ! n" and fresh: "fresh_line (sample_store n) row"
  obtains s' where "persist sample_extern sample_codec Synced now (sample_store n) row = (Inr (), s')"
    "ms_projection s' = sample_run (Suc n)"
proof -
  have s: "ms_projection (sample_store n) = sample_run n" by (simp add: sample_store_def)
  obtain pm where pm: "prepare_line sample_extern (ms_projection (sample_store n)) row = Inr pm"
    using sample_step [OF n] by (auto simp: s row apply_owned_def apply_inner_Inr_iff prepare_line_def)
  have ready: "store_ready sample_extern sample_codec 1 (sample_store n) (take n sample_journal) (Suc 0)"
    using sample_store_ok [of n] sample_codec_total sample_length n
    by (simp add: store_ready_def) (simp add: sample_store_def sample_writer_def u64_max_def)
  obtain s' where p: "persist sample_extern sample_codec Synced now (sample_store n) row = (Inr (), s')"
    "commit_line (ms_projection (sample_store n)) row pm = Some (ms_projection s')"
    by (rule persist_ready [OF ready fresh pm])
  have "ms_projection s' = sample_run (Suc n)"
    using apply_owned_commit [OF pm p(2)] sample_step [OF n] by (simp add: s row)
  with that p(1) show thesis by blast
qed

text \<open>The transitions of the sample journal, recorded through the store.\<close>

lemma sample_transition_recorded:
  assumes n: "n < 10" and row: "sample_journal ! n = sample_transition (Suc n) st"
    and c: "notification (sample_run (Suc n)) sample_agent ''m-1'' = Some c"
  shows "\<exists>s'. append_notification_transition_full_at sample_extern sample_codec Synced (11 + n) (sample_store n)
    (sample_fact st) (11 + n) = (Inr c, s') \<and> ms_projection s' = sample_run (Suc n)"
proof -
  let ?row = "state_row (sample_store n) ''m-1'' (time_or_now (11 + n) (11 + n)) daemon_label [key_to_string sample_extern sample_agent]
     (notification_fact_value (NotificationTransition (sample_fact st)))"
  have r: "?row = sample_journal ! n"
    unfolding row by (simp add: state_row_def sample_store_def sample_writer_def sample_transition_def sample_state_line_def time_or_now_def)
  have fresh: "fresh_line (sample_store n) ?row" by simp
  obtain s' where p: "persist sample_extern sample_codec Synced (11 + n) (sample_store n) ?row = (Inr (), s')"
    "ms_projection s' = sample_run (Suc n)"
    by (rule sample_persist [OF n r fresh])
  obtain pm where pm: "prepare_line sample_extern (ms_projection (sample_store n)) ?row = Inr pm"
    using sample_step [OF n] by (auto simp: sample_store_def r [unfolded sample_store_def] apply_owned_def apply_inner_Inr_iff prepare_line_def)
  have f: "tf_message_id (sample_fact st) = ''m-1''" "tf_recipient (sample_fact st) = sample_agent" by (simp_all add: sample_fact_def)
  have "\<not> injected_failure (sample_store n) (NotificationTransition (sample_fact st))" by (simp add: injected_failure_def sample_store_def)
  then show ?thesis
    using p pm c unfolding append_notification_transition_full_at_def append_notification_fact_at_def f Let_def
    by (simp add: Store.after_def expected_def)
qed

section \<open>Requests and their events\<close>


lemma sample_claim_handled:
  obtains e sv' where
    "handle sample_extern sample_codec Synced 16 (sample_service 5) (ClaimMessage sample_agent ''m-1'') = Some (e, sv')"
    "ms_projection (sv_store sv') \<noteq> ms_projection (sv_store (sample_service 5))"
proof -
  obtain e message skipped withdrawn consumed s' where c:
    "claim_at sample_extern sample_codec Synced 16 (sample_store 5) sample_agent ''m-1'' 16 =
       (Inr (ClaimedNow e message skipped withdrawn consumed), s')" by (rule sample_claim_now)
  obtain x sv' where h: "handle sample_extern sample_codec Synced 16 (sample_service 5) (ClaimMessage sample_agent ''m-1'') = Some (x, sv')"
    by (simp add: finished_def)
  have five: "(5::nat) \<le> 10" by simp
  have st: "sv_store sv' = s'"
    using h c by (auto simp: service_claim_def with_store_def store_call_def finish_claim_def finished_def split: option.splits)
  have "get_entry (ms_projection s') sample_agent ''m-1'' = Some e" "\<exists>t. me_state e = Claimed sample_agent t"
    using claim_then_repeat(1,2) [OF sample_store_ok [OF five] c] .
  then have "ms_projection (sv_store sv') \<noteq> ms_projection (sv_store (sample_service 5))"
    using sample_entry(2) st by (auto simp: sample_store_def)
  with h show thesis by (rule that)
qed


text \<open>C11. The change events follow the journal. Take a service just started on a store, and any requests
  and worker steps after it. The store lock is never poisoned, and there are lines, appended to the
  journal since the start and leading from the projection of the start to the present one, such that the
  events sent are exactly one per line: their sequence numbers are the numbers of these lines, in order,
  from the first number the journal had not yet assigned at the start up to the last one assigned. The
  envelope of an event carries the same number.\<close>

theorem events_follow_journal:
  assumes laws: "codec_laws C" and store: "store_reachable X C ws s" and dir: "dir_workspace_id dir = ws"
    and run: "service_run X C (service_new_with_events dir s) sv"
  shows "\<not> sv_poisoned sv \<and>
    (\<exists>pub appended. sv_changes sv = Some pub \<and>
       run_log (apply_owned X) (ms_projection s) appended = Inr (ms_projection (sv_store sv)) \<and>
       map (\<lambda>ev. mc_workspace_seq (ev_data ev)) (pub_events pub) = map ln_seq appended \<and>
       map ln_seq appended = [lw_next_seq (ms_writer s)..<lw_next_seq (ms_writer (sv_store sv))] \<and>
       (\<forall>ev\<in>set (pub_events pub). ev_seq ev = Some (mc_workspace_seq (ev_data ev))))"
proof -
  obtain lines where ok: "store_ok X C ws s lines" using reachable_store_ok [OF laws store] ..
  let ?sv0 = "service_new_with_events dir s"
  have new: "sv_store ?sv0 = s" by (simp add: service_new_with_events_def service_new_inner_def)
  have "announced_all X C ws lines ?sv0 ?sv0 []"
    using ok dir by (simp add: announced_all_def service_ok_def service_new_with_events_def service_new_inner_def
        events_ok_def event_seqs_def)
  then obtain appended pub where r: "service_ok X C ws sv (lines @ appended)"
    "run_log (apply_owned X) (ms_projection s) appended = Inr (ms_projection (sv_store sv))"
    "sv_changes sv = Some pub" "event_seqs pub = map ln_seq appended"
    "events_ok (length lines) (length (lines @ appended)) pub"
    using service_run_announced [OF _ run] unfolding announced_all_def new by blast
  have "lw_next_seq (ms_writer (sv_store sv)) = Suc (length (lines @ appended))" "lw_next_seq (ms_writer s) = Suc (length lines)"
    using store_okD(5) [OF service_okD(2) [OF r(1)]] store_okD(5) [OF ok] by simp_all
  then show ?thesis
    using r service_okD(1) [OF r(1)] by (auto simp: events_ok_def event_seqs_def comp_def)
qed

theorem events_follow_journal_witness:
  "\<exists>sv' pub rest. service_run sample_extern sample_codec (sample_service 5) sv' \<and> sv_changes sv' = Some pub \<and>
     map (\<lambda>ev. mc_workspace_seq (ev_data ev)) (pub_events pub) = 6 # rest"
proof -
  obtain e sv' where h: "handle sample_extern sample_codec Synced 16 (sample_service 5) (ClaimMessage sample_agent ''m-1'') = Some (e, sv')"
    "ms_projection (sv_store sv') \<noteq> ms_projection (sv_store (sample_service 5))" by (rule sample_claim_handled)
  have run: "service_run sample_extern sample_codec (sample_service 5) sv'"
    by (rule service_run.request [OF service_run.idle h(1)])
  obtain pub appended where r: "sv_changes sv' = Some pub"
    "run_log (apply_owned sample_extern) (ms_projection (sample_store 5)) appended = Inr (ms_projection (sv_store sv'))"
    "map (\<lambda>ev. mc_workspace_seq (ev_data ev)) (pub_events pub) = map ln_seq appended"
    "map ln_seq appended = [lw_next_seq (ms_writer (sample_store 5))..<lw_next_seq (ms_writer (sv_store sv'))]"
    using events_follow_journal [OF sample_codec_laws sample_reachable _ run [unfolded sample_service_def]]
    by (auto simp: sample_directory_def)
  have "appended \<noteq> []" using r(2) h(2) by auto
  moreover have "lw_next_seq (ms_writer (sample_store 5)) = 6" by (simp add: sample_store_def sample_writer_def)
  ultimately have "\<exists>rest. map ln_seq appended = 6 # rest" using r(4) by (auto simp: upt_rec split: if_splits)
  then show ?thesis using run r(1,3) by auto
qed

section \<open>The notification queue\<close>

text \<open>Preparing the head of a recipient's queue mints at most one attempt. When the call returns an
  attempt, calling it again returns the same attempt and changes nothing, whatever id it draws.\<close>

theorem prepare_mints_once:
  assumes laws: "codec_laws C" and run: "service_reachable X C ws sv"
    and step: "prepare_oldest_notification X C io now fresh sv r = (Inr (Some c), sv')"
  shows "prepare_oldest_notification X C io2 now2 fresh2 sv' r = (Inr (Some c), sv')"
proof -
  obtain lines where ok: "service_ok X C ws sv lines" using reachable_running [OF laws run] by (auto simp: running_def)
  show ?thesis by (rule prepare_again [OF ok step])
qed

lemma sample_mailbox:
  "mailboxes (sample_run 1) = [(sample_agent, [(1, new_entry ''m-1'' sample_message sample_agent)])]"
  "notifications (sample_run 1) = []"
proof -
  have zero: "sample_run 0 = mailbox_projection_new 1" using sample_states(2) [of 0] by simp
  have "apply_inner sample_extern (sample_run 0) sample_message False = Inr (sample_run 1)"
    using sample_step [of 0] by (simp add: apply_owned_def sample_journal_def)
  then obtain pm where pm: "prepare_line_inner sample_extern (sample_run 0) sample_message False = Inr pm"
    "commit_line (sample_run 0) sample_message pm = Some (sample_run 1)"
    by (auto simp: apply_inner_Inr_iff)
  have kind: "is_message sample_message" by (simp add: is_message_def sample_message_def)
  obtain md up where md: "pm = PreparedMessage ''m-1'' md up" "extract_message_metadata sample_message = Inr md"
    using prepared_message(1) [OF pm(1) kind] by (auto simp: sample_message_def)
  have "md = sample_metadata" using md(2) by (simp add: extract_message_metadata_def sample_message_def metadata_value_def)
  then have run: "sample_run 1 = the (commit_line (mailbox_projection_new 1) sample_message (PreparedMessage ''m-1'' sample_metadata up))"
    using pm(2) md(1) by (metis option.sel zero)
  show "mailboxes (sample_run 1) = [(sample_agent, [(1, new_entry ''m-1'' sample_message sample_agent)])]"
    unfolding run by (simp add: commit_line_def commit_message_def commit_superseded_entry_def sample_metadata_def
        add_entry_def mailbox_projection_new_def hm_get_def hm_insert_def new_entry_def sample_message_def Let_def
        split: option.split)
  show "notifications (sample_run 1) = []" using sample_states(3) [of 1] by (simp add: sample_view_def sample_trace_journal)
qed

lemma sample_head:
  "claimed_operator_notification (sample_run 1) sample_agent = None"
  "first_actionable_notification_message_id (sample_run 1) sample_agent = Some ''m-1''"
  "notification (sample_run 1) sample_agent ''m-1'' = None"
  by (simp_all add: claimed_operator_notification_def first_actionable_notification_message_id_def notification_def
      sample_mailbox hm_values_def bt_values_def actionable_notification_def notification_withdrawn_by_operator_def hm_get_def
      new_entry_def is_pending_def del: One_nat_def)

lemma sample_queue_fact: "(transition_of ''m-1'' sample_agent 5 Queued) = sample_fact Queued"
  by (simp add: transition_of_def sample_fact_def canonical_record_version_def)

theorem prepare_mints_once_witness:
  "\<exists>c sv'. prepare_oldest_notification sample_extern sample_codec Synced 12 5 (sample_service 1) sample_agent = (Inr (Some c), sv') \<and>
     nr_attempt_id c = 5 \<and>
     prepare_oldest_notification sample_extern sample_codec Synced 13 6 sv' sample_agent = (Inr (Some c), sv')"
proof -
  obtain c where c: "notification (sample_run 2) sample_agent ''m-1'' = Some c" "nr_attempt_id c = 5"
    using sample_states(3) [of 2] by (auto simp: sample_view_def sample_trace_journal notification_def)
  obtain s' where q: "queue_notification sample_extern sample_codec Synced 12 (sample_store 1) ''m-1'' sample_agent 5 = (Inr c, s')"
    using sample_transition_recorded [of 1 Queued c] c(1)
    by (auto simp: sample_journal_def transition_defs sample_queue_fact [symmetric] transition_of_def numeral_2_eq_2)
  have "ms_projection (sample_store 1) = sample_run 1" "\<not> is_admin sample_agent"
    by (simp_all add: sample_store_def sample_agent_def key_agent_def is_admin_def)
  then obtain sv' where p: "prepare_oldest_notification sample_extern sample_codec Synced 12 5 (sample_service 1) sample_agent = (Inr (Some c), sv')"
    using q sample_head by (simp add: prepare_oldest_notification_def with_store_def store_call_def)
  have one: "(1::nat) \<le> 10" by simp
  show ?thesis
    using p c(2) prepare_mints_once [OF sample_codec_laws sample_service_reachable [OF one] p, of Synced 13 6] by blast
qed

text \<open>C28. Everyone sees the same queue. The head that the scheduler works on is the message at position 1 of
  the snapshot, the number of messages a receipt reports ahead is one less than the position, and a fresh
  attempt is only ever minted for position 1.\<close>

theorem queue_views_agree:
  assumes laws: "codec_laws C" and run: "service_reachable X C ws sv"
  shows "let p = ms_projection (sv_store sv) in
    (first_actionable_pending_message_id p r = Some m \<longleftrightarrow> hm_get (fifo_positions p) (r, m) = Some 1) \<and>
    (n \<le> u32_max \<longrightarrow> (position_ahead p r m = Some n \<longleftrightarrow> hm_get (fifo_positions p) (r, m) = Some (Suc n))) \<and>
    (prepare_oldest_notification X C io now fresh sv r = (Inr (Some c), sv') \<and> sv' \<noteq> sv \<longrightarrow>
       hm_get (fifo_positions p) (r, nr_message_id c) = Some 1)"
proof -
  let ?p = "ms_projection (sv_store sv)"
  obtain lines where ok: "service_ok X C ws sv lines" using reachable_running [OF laws run] by (auto simp: running_def)
  have e: "entries_ok ?p"
    using store_okD(4) [OF service_okD(2) [OF ok]] by (simp add: projection_inv_def mailbox_inv_def)
  have "hm_get (fifo_positions ?p) (r, nr_message_id c) = Some 1"
    if "prepare_oldest_notification X C io now fresh sv r = (Inr (Some c), sv')" "sv' \<noteq> sv"
    using ok that(1)
  proof (cases rule: prepare_cases)
    case (queued m s')
    have "nr_message_id c = m" by (rule queue_recorded(5) [OF service_okD(2) [OF ok] queued(4,5)])
    then show ?thesis using unnotified_head_is_first [OF queued(3,4)] head_is_first [OF e] by simp
  qed (use that in simp)
  then show ?thesis unfolding Let_def using head_is_first [OF e] position_ahead_fifo [OF e] by blast
qed

theorem queue_views_agree_witness:
  "first_actionable_pending_message_id (sample_run 1) sample_agent = Some ''m-1'' \<and>
   hm_get (fifo_positions (sample_run 1)) (sample_agent, ''m-1'') = Some 1 \<and> position_ahead (sample_run 1) sample_agent ''m-1'' = Some 0"
proof -
  have "first_actionable_pending_message_id (sample_run 1) sample_agent = Some ''m-1''"
    using unnotified_head_is_first [OF sample_head(2,3)] .
  moreover have "ms_projection (sv_store (sample_service 1)) = sample_run 1" by (simp add: sample_store_def)
  ultimately show ?thesis
    using queue_views_agree [OF sample_codec_laws sample_service_reachable [of 1], of sample_agent "''m-1''" 0, unfolded Let_def] by simp
qed

section \<open>Delivery workers\<close>

text \<open>C29. A stale worker is harmless. When the attempt or the execution epoch of a worker's context is not
  that of the current record of its message, every step the worker tries to record is refused and leaves
  the service as it was: no line, no event.\<close>

theorem stale_worker_refused:
  assumes cur: "notification (ms_projection (sv_store sv)) (nx_recipient x) (nx_message_id x) = Some c"
    and stale: "nr_attempt_id c \<noteq> nx_attempt_id x \<or> execution_epoch c \<noteq> nx_run_epoch x"
  shows "\<exists>e. work X C io now sv x action = (Some e, sv)"
  using stale_work [of sv x c] assms by (auto simp: current_of_def owns_def)

theorem stale_worker_refused_witness:
  "\<exists>e. work sample_extern sample_codec Synced 14 (sample_service 3)
     \<lparr> nx_message_id = ''m-1'', nx_recipient = sample_agent, nx_attempt_id = 6, nx_run_epoch = 0 \<rparr> RecordWritingRaw = (Some e, sample_service 3)"
proof -
  let ?x = "\<lparr> nx_message_id = ''m-1'', nx_recipient = sample_agent, nx_attempt_id = 6, nx_run_epoch = 0 \<rparr>"
  obtain c where c: "notification (ms_projection (sv_store (sample_service 3))) (nx_recipient ?x) (nx_message_id ?x) = Some c"
    "nr_attempt_id c = 5"
    using sample_attempt(1) by (auto simp: sample_store_def notification_def)
  then have "nr_attempt_id c \<noteq> nx_attempt_id ?x \<or> execution_epoch c \<noteq> nx_run_epoch ?x" by simp
  from stale_worker_refused [OF c(1) this] show ?thesis .
qed

text \<open>C27. The write boundary is crossed once, by a current worker, for a message that still waits. When a
  worker records that it starts to write, the record was gating, it owned the record, and the entry was
  pending; afterwards the record is writing, and every worker of that message that asks to start writing
  is refused without a trace.\<close>

theorem write_boundary_crossed_once:
  assumes laws: "codec_laws C" and run: "service_reachable X C ws sv"
    and step: "record_writing X C io now sv x root leader agent manifest transport fmt = (Inr c, sv')"
    and same: "nx_recipient y = nx_recipient x" "nx_message_id y = nx_message_id x"
  shows "(\<exists>c0 e. notification (ms_projection (sv_store sv)) (nx_recipient x) (nx_message_id x) = Some c0 \<and> nr_state c0 = Gating \<and>
       owns x c0 \<and> get_entry (ms_projection (sv_store sv)) (nx_recipient x) (nx_message_id x) = Some e \<and> is_pending (me_state e)) \<and>
    notification (ms_projection (sv_store sv')) (nx_recipient x) (nx_message_id x) = Some c \<and> nr_state c = Writing \<and>
    nr_attempt_id c = nx_attempt_id x \<and>
    (\<exists>e. work X C io2 now2 sv' y (RecordWriting root2 leader2 agent2 manifest2 transport2 fmt2) = (Some e, sv')) \<and>
    (\<exists>e. work X C io2 now2 sv' y RecordWritingRaw = (Some e, sv'))"
proof -
  obtain lines where ok: "service_ok X C ws sv lines" using reachable_running [OF laws run] by (auto simp: running_def)
  note w = record_writing_success [OF ok step]
  have next_step: "work X C io now sv x (RecordWriting root leader agent manifest transport fmt) = (None, sv')"
    using step by (simp add: finished_def)
  have "\<not> sv_poisoned sv'" using reachable_running [OF laws service_reachable.worked [OF run next_step]]
    by (auto simp: running_def service_ok_def)
  moreover have "\<not> gating_current (sv_store sv') y"
    using w(3,4) same by (simp add: gating_current_def current_of_def)
  ultimately show ?thesis
    using w not_gating_refused [of sv' y]
    by (auto simp: gating_current_def entry_allows_def entry_allows_notification_def current_of_def is_some_and_iff)
qed

lemma sample_writing:
  obtains c sv' where "record_writing sample_extern sample_codec Synced 14 (sample_service 3)
      (context_new (sample_service 3) ''m-1'' sample_agent 5) (ProcessInstanceId 7 1) (ProcessInstanceId 8 1) (ProcessInstanceId 9 1)
      ''x'' Doorbell (Some 2) = (Inr c, sv')"
proof -
  let ?x = "context_new (sample_service 3) ''m-1'' sample_agent 5"
  have s: "ms_projection (sample_store 3) = sample_run 3" by (simp add: sample_store_def)
  obtain c0 where c0: "notification (sample_run 3) sample_agent ''m-1'' = Some c0" "nr_attempt_id c0 = 5" "nr_state c0 = Gating"
    using sample_attempt(1) by (auto simp: notification_def)
  obtain e where e: "get_entry (sample_run 3) sample_agent ''m-1'' = Some e" "me_state e = Pending"
    using sample_states(3) [of 3] by (auto simp: sample_view_def sample_trace_journal)
  obtain c where c: "notification (sample_run 4) sample_agent ''m-1'' = Some c" using sample_attempt(2) by (auto simp: notification_def)
  have g: "gating_current (sample_store 3) ?x" "entry_allows (sample_store 3) ?x Doorbell"
    using c0 e by (simp_all add: gating_current_def entry_allows_def entry_allows_notification_def current_of_def s context_new_def
        owns_def notification_run_epoch_def is_pending_def)
  have x: "nx_message_id ?x = ''m-1''" "nx_recipient ?x = sample_agent" "nx_attempt_id ?x = 5" by (simp_all add: context_new_def)
  have man: "manifest_id_new ''x'' = Inr ''x''" by code_simp
  obtain s' where t: "append_notification_transition_full_at sample_extern sample_codec Synced 14 (sample_store 3) (sample_fact Writing) 14 = (Inr c, s')"
    using sample_transition_recorded [of 3 Writing c] c by (auto simp: sample_journal_def eval_nat_numeral)
  let ?b = "\<lparr> bd_recipient = sample_agent, bd_pane_root = Some (ProcessInstanceId 7 1), bd_leader = Some (ProcessInstanceId 8 1),
    bd_agent = ProcessInstanceId 9 1, bd_manifest = ''x'' \<rparr>"
  have "advance_notification_with_transport sample_extern sample_codec Synced 14 (sample_store 3) ''m-1'' sample_agent 5 Writing
      ?b Doorbell (Some 2) = (Inr c, s')"
    using t by (simp add: advance_notification_with_transport_def supported_doorbell_format_def transition_defs transition_of_def
        doorbell_format_compact_claim_def doorbell_format_attempt_claim_def doorbell_format_attempt_only_claim_def doorbell_format_summary_claim_def
        sample_fact_def sample_binding_def canonical_record_version_def)
  then show thesis
    using that g man by (simp add: record_writing_def with_lock_def record_step_def x)
qed

theorem write_boundary_crossed_once_witness:
  "\<exists>sv' e. work sample_extern sample_codec Synced 15 sv' (context_new (sample_service 3) ''m-1'' sample_agent 5) RecordWritingRaw = (Some e, sv') \<and>
     sv' \<noteq> sample_service 3"
proof -
  obtain c sv' where w: "record_writing sample_extern sample_codec Synced 14 (sample_service 3)
      (context_new (sample_service 3) ''m-1'' sample_agent 5) (ProcessInstanceId 7 1) (ProcessInstanceId 8 1) (ProcessInstanceId 9 1)
      ''x'' Doorbell (Some 2) = (Inr c, sv')" by (rule sample_writing)
  have three: "(3::nat) \<le> 10" by simp
  let ?id = "ProcessInstanceId 7 1"
  note once = write_boundary_crossed_once [OF sample_codec_laws sample_service_reachable [OF three] w refl refl,
      of Synced 15 ?id ?id ?id "''x''" Doorbell None]
  have "notification (ms_projection (sv_store sv')) sample_agent ''m-1'' = Some c" "nr_state c = Writing"
    using once by (simp_all add: context_new_def)
  moreover have "\<exists>c0. notification (ms_projection (sv_store (sample_service 3))) sample_agent ''m-1'' = Some c0 \<and> nr_state c0 = Gating"
    using sample_attempt(1) by (auto simp: sample_store_def notification_def)
  ultimately have "sv' \<noteq> sample_service 3" by auto
  then show ?thesis using once by blast
qed

end
