(* ===== verification/Wire_Properties.thy ===== *)
theory Wire_Properties
  imports Doorbell Sample_Journal
begin

text \<open>The properties of the texts that name recipients and attempts.\<close>

section \<open>Recipient keys\<close>

lemma key_prefixes [simp]:
  "strip_prefix ''admin:'' (''headless:'' @ s) = None" "strip_prefix ''admin:'' (''agent:'' @ s) = None"
  "strip_prefix ''headless:'' (''agent:'' @ s) = None"
  by (simp_all add: strip_prefix_def)

lemma map_invalid_key_Inr [result_simps]: "map_invalid_key r = Inr x \<longleftrightarrow> r = Inr x"
  by (auto simp: map_invalid_key_def split: sum.splits)

lemma split_on_join:
  "CHR ''/'' \<notin> set a \<Longrightarrow> CHR ''/'' \<notin> set b \<Longrightarrow> split_on (CHR ''/'') (a @ ''/'' @ b) = [a, b]"
  "CHR ''/'' \<notin> set a \<Longrightarrow> CHR ''/'' \<notin> set b \<Longrightarrow> CHR ''/'' \<notin> set c \<Longrightarrow>
     split_on (CHR ''/'') (a @ ''/'' @ b @ ''/'' @ c) = [a, b, c]"
  by (simp_all add: split_on_append split_on_absent)

fun join_on :: "char \<Rightarrow> string list \<Rightarrow> string" where
  "join_on c [] = []"
| "join_on c [s] = s"
| "join_on c (s # t # ss) = s @ c # join_on c (t # ss)"

lemma join_split: "join_on c (split_on c s) = s"
proof (induction c s rule: split_on.induct)
  case (2 c x xs)
  show ?case
  proof (cases "split_on c xs")
    case (Cons y ys)
    then show ?thesis using 2 by (cases ys) auto
  qed simp
qed simp

lemma split_on_parts:
  "split_on c s = [a, b] \<Longrightarrow> s = a @ c # b" "split_on c s = [a, b, d] \<Longrightarrow> s = a @ c # b @ c # d"
  using join_split [of c s] by auto

lemma key_from_str_forms:
  "key_from_str X (''admin:'' @ ws) = rbind (map_invalid_key (durable_id_parse X ws ''workspace id'')) (\<lambda>w. Inr (key_admin w))"
  "split_on (CHR ''/'') parts = [ws, inst] \<Longrightarrow> key_from_str X (''headless:'' @ parts) =
     rbind (map_invalid_key (durable_id_parse X ws ''workspace id'')) (\<lambda>w.
     rbind (map_invalid_key (durable_id_parse X inst ''agent instance id'')) (\<lambda>a. Inr (key_headless w a)))"
  "split_on (CHR ''/'') parts = [ws, sess, pane] \<Longrightarrow> key_from_str X (''agent:'' @ parts) =
     rbind (map_invalid_key (durable_id_parse X ws ''workspace id'')) (\<lambda>w.
     rbind (map_invalid_key (durable_id_parse X sess ''session instance id'')) (\<lambda>i.
     rbind (map_invalid_key (parse_tmux_id pane (CHR ''%'') ''tmux pane id'')) (\<lambda>p. Inr (key_agent w i p))))"
  by (simp_all only: key_from_str_def strip_prefix_append key_prefixes option.case list.case)

lemma key_text_parses:
  assumes laws: "uuid_laws X" and wf: "key_wf k"
  shows "key_from_str X (key_to_string X k) = Inr k"
proof -
  have no: "CHR ''/'' \<notin> set (uuid_text X u)" for u using laws by (simp add: uuid_laws_def)
  obtain ws r where k: "k = RecipientKey ws r" by (cases k)
  show ?thesis
  proof (cases r)
    case Admin
    have "durable_id_parse X (uuid_text X ws) kind = Inr ws" for kind
      using wf k laws by (simp add: durable_id_parse_iff key_wf_def)
    then show ?thesis
      using k Admin by (simp only: key_to_string_def key_from_str_forms(1) recipient_key.sel recipient.case map_invalid_key_def
          sum.case rbind_simps key_admin_def)
  next
    case (Agent s p)
    have "split_on (CHR ''/'') (uuid_text X ws @ ''/'' @ uuid_text X s @ ''/'' @ tmux_id_to_string (CHR ''%'') p) =
        [uuid_text X ws, uuid_text X s, tmux_id_to_string (CHR ''%'') p]"
      by (rule split_on_join(2)) (simp_all add: no slash_not_in_tmux)
    moreover have "durable_id_parse X (uuid_text X ws) kind = Inr ws" "durable_id_parse X (uuid_text X s) kind = Inr s"
      "parse_tmux_id (tmux_id_to_string (CHR ''%'') p) (CHR ''%'') kind = Inr p" for kind
      using wf k Agent laws by (simp_all add: durable_id_parse_iff parse_tmux_id_iff key_wf_def)
    ultimately show ?thesis
      using k Agent by (simp only: key_to_string_def key_from_str_forms(3) recipient_key.sel recipient.case map_invalid_key_def
          sum.case rbind_simps key_agent_def)
  next
    case (Headless a)
    have "split_on (CHR ''/'') (uuid_text X ws @ ''/'' @ uuid_text X a) = [uuid_text X ws, uuid_text X a]"
      by (rule split_on_join(1)) (simp_all add: no)
    moreover have "durable_id_parse X (uuid_text X ws) kind = Inr ws" "durable_id_parse X (uuid_text X a) kind = Inr a" for kind
      using wf k Headless laws by (simp_all add: durable_id_parse_iff key_wf_def)
    ultimately show ?thesis
      using k Headless by (simp only: key_to_string_def key_from_str_forms(2) recipient_key.sel recipient.case map_invalid_key_def
          sum.case rbind_simps key_headless_def)
  qed
qed

lemma key_text_exact:
  assumes laws: "uuid_laws X" and parsed: "key_from_str X s = Inr k"
  shows "key_wf k \<and> s = key_to_string X k"
  using parsed laws
  by (auto simp: key_from_str_def strip_prefix_Some result_simps durable_id_parse_iff parse_tmux_id_iff key_wf_def
      key_to_string_def key_admin_def key_agent_def key_headless_def dest!: split_on_parts
      split: option.splits list.splits)

text \<open>A recipient key has one text: parsing a text gives a key exactly when the key is well formed, with
  no nil identifier and a pane number that fits, and the text is the one the key is printed as.\<close>

theorem recipient_key_round_trip:
  assumes "uuid_laws X"
  shows "key_from_str X s = Inr k \<longleftrightarrow> key_wf k \<and> s = key_to_string X k"
  using key_text_parses [OF assms] key_text_exact [OF assms] by blast

theorem recipient_key_round_trip_witness:
  "key_from_str sample_extern (key_to_string sample_extern sample_agent) = Inr sample_agent"
proof -
  have "key_wf sample_agent" by (simp add: key_wf_def sample_agent_def key_agent_def is_nil_def u64_max_def)
  then show ?thesis using recipient_key_round_trip [OF sample_extern_uuid_laws] by simp
qed

section \<open>Doorbells\<close>

text \<open>A doorbell of format 2 names its message and its attempt: the text is read back as what it was
  written for, with or without one line break, and nothing else is read as that message and attempt.\<close>

theorem doorbell_names_message_and_attempt:
  "parse_doorbell_v2 payload = Some (m, a) \<longleftrightarrow>
     message_id_new m = Inr m \<and> a \<noteq> 0 \<and> (payload = render_doorbell_v2 m a \<or> payload = render_doorbell_v2 m a @ [CHR 0x0A])"
  using parse_v2_exact [of payload m a] parse_render_v2 [of m a False] parse_render_v2 [of m a True] by auto

text \<open>C24. A doorbell of format 3 names exactly one attempt: of the attempt's locator command, alone, with the
  JSON flag, with a line break or with both, each is read as the attempt, and no other text is.\<close>

theorem doorbell_names_attempt:
  "parse_doorbell_v3 payload = Some a \<longleftrightarrow>
     a \<noteq> 0 \<and> (\<exists>bell. render_doorbell_v3 a = Some bell \<and>
       payload \<in> {bell, bell @ [CHR 0x0A], bell @ '' --json'', bell @ '' --json'' @ [CHR 0x0A]})"
proof -
  have render: "parse_doorbell_v3 (bell @ (if json then '' --json'' else []) @ (if nl then [CHR 0x0A] else [])) = Some a"
    if "a \<noteq> 0" "render_doorbell_v3 a = Some bell" for bell json nl
    using parse_render_v3 [OF that(1), of json nl] that(2) by simp
  show ?thesis
    using parse_v3_exact [of payload a] render [of _ False False] render [of _ False True] render [of _ True False]
      render [of _ True True] by auto
qed

end
