(* ===== verification/Deadlock.thy ===== *)
theory Deadlock
  imports Notification_Types "HOL-Library.Code_Target_Nat"
begin

text \<open>
  The diagnosis of \<open>cyclopsd/src/deadlock.rs\<close>: a notification that waits for the same pane
  whose foreground \<open>cyclops watch\<close> waits for it. The table that \<open>ps\<close> prints is parsed into the
  foreground pgid of each process and the groups that run a watch; running \<open>ps\<close> is an
  argument, \<open>None\<close> when it failed.
\<close>

section \<open>Data\<close>

record deadlock_candidate =
  dc_message_id :: message_id
  dc_notification_attempt :: attempt_id
  dc_recipient :: recipient_key
  dc_recipient_label :: string
  dc_pane_id :: string
  dc_pane_pid :: int

record status_diagnostic =
  sd_code :: string
  sd_message_id :: message_id
  sd_notification_attempt :: attempt_id
  sd_recipient :: recipient_key
  sd_recipient_label :: string
  sd_pane_id :: string

record process_snapshot =
  foreground_group_by_pid :: "(int, int) hash_map"
  watch_groups :: "int hash_set"

section \<open>Parsing the process table\<close>

text \<open>\<open>str::parse::<i32>\<close>: an optional sign, at least one digit, and the range of the type.\<close>

definition parse_digits :: "string \<Rightarrow> nat option" where
  "parse_digits s = (if s = [] \<or> \<not> list_all is_ascii_digit s then None else Some (read_nat s))"

definition parse_i32 :: "string \<Rightarrow> int option" where
  "parse_i32 s =
     Option.bind
       (case s of
          c # rest \<Rightarrow>
            if c = CHR ''-'' then map_option (\<lambda>n. - int n) (parse_digits rest)
            else if c = CHR ''+'' then map_option int (parse_digits rest)
            else map_option int (parse_digits s)
        | [] \<Rightarrow> None)
       (\<lambda>v. if - (2 ^ 31) \<le> v \<and> v < 2 ^ 31 then Some v else None)"

text \<open>\<open>Path::file_name\<close>: the last component, unless it is the parent directory.\<close>

definition file_name :: "string \<Rightarrow> string option" where
  "file_name path =
     (let parts = filter (\<lambda>p. p \<noteq> [] \<and> p \<noteq> ''.'') (split_on (CHR ''/'') path) in
      if parts = [] \<or> last parts = ''..'' then None else Some (last parts))"

definition runs_watch :: "string list \<Rightarrow> bool" where
  "runs_watch columns =
     ((file_name (columns ! 3) = Some ''cyclops'' \<or> file_name (columns ! 4) = Some ''cyclops'') \<and>
      (length columns > 5 \<and> columns ! 5 = ''watch''))"

text \<open>One turn of the loop over the lines.\<close>

definition parse_process_line :: "string \<Rightarrow> process_snapshot \<Rightarrow> process_snapshot" where
  "parse_process_line line snapshot =
     (let columns = segment_words (char_segments line) in
      if length columns < 5 then snapshot
      else
        (case (parse_i32 (columns ! 0), parse_i32 (columns ! 1), parse_i32 (columns ! 2)) of
           (Some process, Some pgid, Some foreground_group) \<Rightarrow>
             let s1 = (if foreground_group > 0
                       then snapshot\<lparr> foreground_group_by_pid :=
                              hm_insert process foreground_group (foreground_group_by_pid snapshot) \<rparr>
                       else snapshot) in
             if runs_watch columns then s1\<lparr> watch_groups := hs_insert pgid (watch_groups s1) \<rparr> else s1
         | _ \<Rightarrow> snapshot))"

definition parse_processes :: "string \<Rightarrow> process_snapshot" where
  "parse_processes output =
     fold parse_process_line (str_lines output) \<lparr> foreground_group_by_pid = [], watch_groups = [] \<rparr>"

definition pane_runs_watch :: "process_snapshot \<Rightarrow> int \<Rightarrow> bool" where
  "pane_runs_watch s pane_pid =
     is_some_and (hm_get (foreground_group_by_pid s) pane_pid) (\<lambda>pgid. hs_contains (watch_groups s) pgid)"

section \<open>Diagnostics\<close>

definition diagnostic_of :: "deadlock_candidate \<Rightarrow> status_diagnostic" where
  "diagnostic_of c =
     \<lparr> sd_code = ''deadlock_risk'', sd_message_id = dc_message_id c,
       sd_notification_attempt = dc_notification_attempt c, sd_recipient = dc_recipient c,
       sd_recipient_label = dc_recipient_label c, sd_pane_id = dc_pane_id c \<rparr>"

fun diagnose_each ::
  "process_snapshot \<Rightarrow> attempt_id hash_set \<Rightarrow> deadlock_candidate list \<Rightarrow> status_diagnostic list" where
  "diagnose_each s seen [] = []"
| "diagnose_each s seen (c # cs) =
     (let a = dc_notification_attempt c; rest = diagnose_each s (hs_insert a seen) cs in
      if \<not> hs_contains seen a \<and> pane_runs_watch s (dc_pane_pid c) then diagnostic_of c # rest else rest)"

definition diagnostics_for_candidates ::
  "deadlock_candidate list \<Rightarrow> process_snapshot option \<Rightarrow> status_diagnostic list" where
  "diagnostics_for_candidates candidates read_processes =
     (if candidates = [] then []
      else case read_processes of None \<Rightarrow> [] | Some s \<Rightarrow> diagnose_each s [] candidates)"

definition status_diagnostics :: "deadlock_candidate list \<Rightarrow> string option \<Rightarrow> status_diagnostic list" where
  "status_diagnostics candidates ps_output =
     diagnostics_for_candidates candidates (map_option parse_processes ps_output)"

section \<open>What is diagnosed\<close>

text \<open>The candidates that stand first for their attempt.\<close>

fun first_per_attempt :: "deadlock_candidate list \<Rightarrow> deadlock_candidate list" where
  "first_per_attempt [] = []"
| "first_per_attempt (c # cs) =
     c # first_per_attempt (filter (\<lambda>d. dc_notification_attempt d \<noteq> dc_notification_attempt c) cs)"

lemma diagnose_each_spec:
  "diagnose_each s seen cs =
     map diagnostic_of (filter (\<lambda>c. pane_runs_watch s (dc_pane_pid c))
       (first_per_attempt (filter (\<lambda>c. dc_notification_attempt c \<notin> set seen) cs)))"
proof (induction cs arbitrary: seen)
  case (Cons c cs)
  have "filter (\<lambda>d. dc_notification_attempt d \<notin> set (hs_insert (dc_notification_attempt c) seen)) cs =
      (if dc_notification_attempt c \<in> set seen then filter (\<lambda>d. dc_notification_attempt d \<notin> set seen) cs
       else filter (\<lambda>d. dc_notification_attempt d \<noteq> dc_notification_attempt c)
         (filter (\<lambda>d. dc_notification_attempt d \<notin> set seen) cs))"
    by (auto simp: hs_insert_def intro: filter_cong)
  then show ?case using Cons by (auto simp: hs_contains_def Let_def)
qed simp

lemma first_per_attempt_facts:
  "set (first_per_attempt cs) \<subseteq> set cs" "distinct (map dc_notification_attempt (first_per_attempt cs))"
  "dc_notification_attempt ` set (first_per_attempt cs) = dc_notification_attempt ` set cs"
proof (induction cs rule: first_per_attempt.induct)
  case (2 c cs)
  note IH = 2
  {
    case 1
    then show ?case using IH(1) by auto
  next
    case 2
    then show ?case using IH(1,2) by auto
  next
    case 3
    show ?case using IH(3) by auto
  }
qed simp_all

text \<open>The fields of a line, when it describes a process.\<close>

definition process_of :: "string \<Rightarrow> (int \<times> int \<times> int \<times> bool) option" where
  "process_of line =
     (let columns = segment_words (char_segments line) in
      if length columns < 5 then None
      else
        (case (parse_i32 (columns ! 0), parse_i32 (columns ! 1), parse_i32 (columns ! 2)) of
           (Some process, Some pgid, Some foreground) \<Rightarrow> Some (process, pgid, foreground, runs_watch columns)
         | _ \<Rightarrow> None))"

lemma parse_process_line_of:
  "parse_process_line line s =
     (case process_of line of
        None \<Rightarrow> s
      | Some (process, pgid, foreground, watch) \<Rightarrow>
          \<lparr> foreground_group_by_pid = (if foreground > 0 then hm_insert process foreground (foreground_group_by_pid s)
                                       else foreground_group_by_pid s),
            watch_groups = (if watch then hs_insert pgid (watch_groups s) else watch_groups s) \<rparr>)"
  by (cases s) (auto simp: parse_process_line_def process_of_def Let_def split: option.splits)

lemma watch_groups_fold:
  "hs_contains (watch_groups (fold parse_process_line lines s)) g \<longleftrightarrow>
     hs_contains (watch_groups s) g \<or> (\<exists>line\<in>set lines. \<exists>process foreground. process_of line = Some (process, g, foreground, True))"
  by (induction lines arbitrary: s)
    (auto simp: parse_process_line_of hs_contains_def hs_insert_def split: option.splits prod.splits if_splits)

lemma foreground_fold:
  "hm_get (foreground_group_by_pid (fold parse_process_line lines s)) p = Some f \<Longrightarrow>
     hm_get (foreground_group_by_pid s) p = Some f \<or>
     (\<exists>line\<in>set lines. \<exists>g w. process_of line = Some (p, g, f, w) \<and> f > 0)"
  by (induction lines arbitrary: s)
    (force simp: parse_process_line_of split: option.splits prod.splits if_splits)+

text \<open>A pane runs a watch only if its process has a terminal whose foreground group runs one.\<close>

lemma pane_runs_watch_parsed:
  assumes "pane_runs_watch (parse_processes output) p"
  shows "\<exists>f > 0. (\<exists>line\<in>set (str_lines output). \<exists>g w. process_of line = Some (p, g, f, w)) \<and>
    (\<exists>line\<in>set (str_lines output). \<exists>q h. process_of line = Some (q, f, h, True))"
proof -
  obtain f where f: "hm_get (foreground_group_by_pid (parse_processes output)) p = Some f"
    "hs_contains (watch_groups (parse_processes output)) f"
    using assms by (auto simp: pane_runs_watch_def is_some_and_def split: option.splits)
  show ?thesis
    using f(1) [unfolded parse_processes_def, THEN foreground_fold] f(2) [unfolded parse_processes_def watch_groups_fold]
    by (auto simp: hs_contains_def)
qed

section \<open>Properties\<close>

text \<open>C26. The status warns of a deadlock once per attempt: the diagnostics are those of the candidates that
  stand first for their attempt and whose pane runs a watch, in the order of the candidates; each of
  them has a line of the table that puts the pane's process on a terminal with a positive foreground
  group, and a line of that group whose program is \<open>cyclops\<close> with the verb \<open>watch\<close>.\<close>

theorem deadlock_diagnosed_once:
  "status_diagnostics cands (Some table) =
     map diagnostic_of (filter (\<lambda>c. pane_runs_watch (parse_processes table) (dc_pane_pid c)) (first_per_attempt cands)) \<and>
   distinct (map sd_notification_attempt (status_diagnostics cands (Some table))) \<and>
   (\<forall>d \<in> set (status_diagnostics cands (Some table)). \<exists>c \<in> set cands. d = diagnostic_of c \<and>
     (\<exists>f > 0. (\<exists>line\<in>set (str_lines table). \<exists>g w. process_of line = Some (dc_pane_pid c, g, f, w)) \<and>
        (\<exists>line\<in>set (str_lines table). \<exists>q h. process_of line = Some (q, f, h, True))))"
proof -
  let ?P = "\<lambda>c. pane_runs_watch (parse_processes table) (dc_pane_pid c)"
  have eq: "status_diagnostics cands (Some table) = map diagnostic_of (filter ?P (first_per_attempt cands))"
    using diagnose_each_spec [of "parse_processes table" "[]" cands]
    by (cases cands) (simp_all add: status_diagnostics_def diagnostics_for_candidates_def)
  have "map sd_notification_attempt (map diagnostic_of cs) = map dc_notification_attempt cs" for cs
    by (simp add: diagnostic_of_def comp_def)
  then have "distinct (map sd_notification_attempt (status_diagnostics cands (Some table)))"
    unfolding eq using distinct_map_filter [OF first_per_attempt_facts(2)] by metis
  moreover have "\<forall>d \<in> set (status_diagnostics cands (Some table)). \<exists>c \<in> set cands. d = diagnostic_of c \<and> ?P c"
    unfolding eq using first_per_attempt_facts(1) [of cands] by auto
  ultimately show ?thesis using eq pane_runs_watch_parsed [of table] by blast
qed

definition sample_process_table :: string where
  "sample_process_table =
     '' 100 100 220 zsh -zsh'' @ [CHR 0x0A] @ ''220 220 220 cyc bin/cyclops watch'' @ [CHR 0x0A]"

definition sample_candidate :: deadlock_candidate where
  "sample_candidate =
     \<lparr> dc_message_id = ''m-deadlock'', dc_notification_attempt = 5, dc_recipient = key_admin 1,
       dc_recipient_label = ''agent'', dc_pane_id = ''%1'', dc_pane_pid = 100 \<rparr>"

lemma sample_watch: "pane_runs_watch (parse_processes sample_process_table) 100"
  by code_simp

theorem deadlock_diagnosed_once_witness:
  "status_diagnostics [sample_candidate] (Some sample_process_table) = [diagnostic_of sample_candidate] \<and>
   (\<exists>f > 0. (\<exists>line\<in>set (str_lines sample_process_table). \<exists>g w. process_of line = Some (100, g, f, w)) \<and>
      (\<exists>line\<in>set (str_lines sample_process_table). \<exists>q h. process_of line = Some (q, f, h, True)))"
proof -
  have p: "dc_pane_pid sample_candidate = 100" by (simp add: sample_candidate_def)
  note spec = deadlock_diagnosed_once [of "[sample_candidate]" sample_process_table]
  have first: "first_per_attempt [sample_candidate] = [sample_candidate]" by simp
  have all: "status_diagnostics [sample_candidate] (Some sample_process_table) = [diagnostic_of sample_candidate]"
    using spec [THEN conjunct1] sample_watch unfolding first p by (simp add: p)
  have "\<forall>d\<in>{diagnostic_of sample_candidate}. \<exists>c\<in>{sample_candidate}. d = diagnostic_of c \<and>
      (\<exists>f > 0. (\<exists>line\<in>set (str_lines sample_process_table). \<exists>g w. process_of line = Some (dc_pane_pid c, g, f, w)) \<and>
         (\<exists>line\<in>set (str_lines sample_process_table). \<exists>q h. process_of line = Some (q, f, h, True)))"
    using spec [THEN conjunct2, THEN conjunct2] unfolding all by (simp only: list.set)
  then show ?thesis using all unfolding p [symmetric] by blast
qed

end
