(* ===== verification/Utf8.thy ===== *)
theory Utf8
  imports Cyclops_Prelude
begin

text \<open>
  What the source uses of Rust's strings as UTF-8 bytes: Unicode white space, the check of
  \<open>str::from_utf8\<close>, the replacement of \<open>String::from_utf8_lossy\<close>, \<open>split_whitespace\<close>,
  prefixes and integers with a sign.
\<close>

section \<open>White space\<close>

text \<open>
  The byte length of the white space character that a string starts with, 0 when it starts with
  another one. \<open>White_Space\<close> is the tab to the carriage return, the space, U+0085, U+00A0,
  U+1680, U+2000 to U+200A, U+2028, U+2029, U+202F, U+205F and U+3000.
\<close>

definition white_space_3 :: "nat \<Rightarrow> nat \<Rightarrow> nat \<Rightarrow> bool" where
  "white_space_3 a b c =
     (a = 225 \<and> b = 154 \<and> c = 128
      \<or> a = 226 \<and> b = 128 \<and> (128 \<le> c \<and> c \<le> 138 \<or> c = 168 \<or> c = 169 \<or> c = 175)
      \<or> a = 226 \<and> b = 129 \<and> c = 159
      \<or> a = 227 \<and> b = 128 \<and> c = 128)"

text \<open>The byte at a position, 0 past the end.\<close>

definition byte_at :: "string \<Rightarrow> nat \<Rightarrow> nat" where
  "byte_at s i = (if i < length s then of_char (s ! i) else 0)"

definition ws_len :: "string \<Rightarrow> nat" where
  "ws_len s =
     (let a = byte_at s 0; b = byte_at s 1; c = byte_at s 2 in
      if 9 \<le> a \<and> a \<le> 13 \<or> a = 32 then 1
      else if a = 194 \<and> (b = 133 \<or> b = 160) then 2
      else if white_space_3 a b c then 3
      else 0)"

text \<open>\<open>s.trim().is_empty()\<close>.\<close>

function is_blank :: "string \<Rightarrow> bool" where
  "is_blank s =
     (if s = [] then True
      else if ws_len s = 0 then False
      else is_blank (drop (ws_len s) s))"
  by auto
termination
  by (relation "measure length") auto

declare is_blank.simps [simp del]

text \<open>\<open>split_whitespace\<close>: the words between runs of white space.\<close>

function words_from :: "string \<Rightarrow> string \<Rightarrow> string list" where
  "words_from word s =
     (if s = [] then (if word = [] then [] else [word])
      else if ws_len s = 0 then words_from (word @ [hd s]) (tl s)
      else (if word = [] then [] else [word]) @ words_from [] (drop (ws_len s) s))"
  by auto
termination
  by (relation "measure (\<lambda>(word, s). length s)") auto

declare words_from.simps [simp del]

definition split_whitespace :: "string \<Rightarrow> string list" where
  "split_whitespace s = words_from [] s"

section \<open>Well-formed UTF-8\<close>

definition continuation :: "nat \<Rightarrow> bool" where
  "continuation b = (128 \<le> b \<and> b \<le> 191)"

text \<open>The second byte that a lead byte of three or four bytes allows.\<close>

definition second_3 :: "nat \<Rightarrow> nat \<Rightarrow> bool" where
  "second_3 a b =
     (a = 224 \<and> 160 \<le> b \<and> b \<le> 191
      \<or> (225 \<le> a \<and> a \<le> 236 \<or> 238 \<le> a \<and> a \<le> 239) \<and> continuation b
      \<or> a = 237 \<and> 128 \<le> b \<and> b \<le> 159)"

definition second_4 :: "nat \<Rightarrow> nat \<Rightarrow> bool" where
  "second_4 a b =
     (a = 240 \<and> 144 \<le> b \<and> b \<le> 191
      \<or> 241 \<le> a \<and> a \<le> 243 \<and> continuation b
      \<or> a = 244 \<and> 128 \<le> b \<and> b \<le> 143)"

text \<open>
  The first character of a byte string: whether it is well formed, and how many bytes it or the
  ill-formed start has. An ill-formed start ends before the first byte that cannot continue it.
\<close>

definition utf8_head :: "string \<Rightarrow> bool \<times> nat" where
  "utf8_head s =
     (let a = byte_at s 0; b = byte_at s 1; c = byte_at s 2; d = byte_at s 3 in
      if a < 128 then (True, 1)
      else if 194 \<le> a \<and> a \<le> 223 then (if continuation b then (True, 2) else (False, 1))
      else if 224 \<le> a \<and> a \<le> 239 then
        (if \<not> second_3 a b then (False, 1) else if \<not> continuation c then (False, 2) else (True, 3))
      else if 240 \<le> a \<and> a \<le> 244 then
        (if \<not> second_4 a b then (False, 1) else if \<not> continuation c then (False, 2)
         else if \<not> continuation d then (False, 3) else (True, 4))
      else (False, 1))"

lemma utf8_head_pos: "0 < snd (utf8_head s)"
  by (simp add: utf8_head_def Let_def)

function utf8_valid :: "string \<Rightarrow> bool" where
  "utf8_valid s =
     (if s = [] then True
      else if fst (utf8_head s) then utf8_valid (drop (snd (utf8_head s)) s)
      else False)"
  by auto
termination
  by (relation "measure length") (auto simp: utf8_head_pos)

declare utf8_valid.simps [simp del]

text \<open>U+FFFD.\<close>

definition replacement :: string where
  "replacement = map char_of [239, 191, 189 :: nat]"

function from_utf8_lossy :: "string \<Rightarrow> string" where
  "from_utf8_lossy s =
     (if s = [] then []
      else (if fst (utf8_head s) then take (snd (utf8_head s)) s else replacement)
        @ from_utf8_lossy (drop (snd (utf8_head s)) s))"
  by auto
termination
  by (relation "measure length") (auto simp: utf8_head_pos)

declare from_utf8_lossy.simps [simp del]

text \<open>A well-formed string is left alone.\<close>

lemma from_utf8_lossy_valid: "utf8_valid s \<Longrightarrow> from_utf8_lossy s = s"
proof (induction s rule: utf8_valid.induct)
  case (1 s)
  then show ?case
    by (cases "s = []")
      (auto simp: utf8_valid.simps [of s] from_utf8_lossy.simps [of s] from_utf8_lossy.simps [of "[]"]
        split: if_splits)
qed

lemma utf8_valid_ascii_Cons:
  assumes "(of_char c :: nat) < 128"
  shows "utf8_valid (c # s) = utf8_valid s"
proof -
  have "utf8_head (c # s) = (True, 1)"
    using assms by (simp add: utf8_head_def byte_at_def Let_def)
  then show ?thesis by (simp add: utf8_valid.simps [of "c # s"])
qed

lemma utf8_valid_ascii: "list_all (\<lambda>c. (of_char c :: nat) < 128) s \<Longrightarrow> utf8_valid s"
  by (induction s) (simp_all add: utf8_valid_ascii_Cons utf8_valid.simps [of "[]"])

section \<open>Searching and numbers\<close>

definition starts_with :: "string \<Rightarrow> string \<Rightarrow> bool" where
  "starts_with pat s = (strip_prefix pat s \<noteq> None)"

text \<open>\<open>str::parse::<u64>\<close>: one leading plus sign is accepted.\<close>

definition parse_unsigned :: "string \<Rightarrow> nat option" where
  "parse_unsigned s =
     (case s of
        c # rest \<Rightarrow> if c = CHR ''+'' then parse_u64 rest else parse_u64 s
      | [] \<Rightarrow> None)"

lemma parse_unsigned_show_nat:
  assumes "n \<le> u64_max"
  shows "parse_unsigned (show_nat n) = Some n"
proof -
  obtain c s where s: "show_nat n = c # s"
    by (cases "show_nat n") simp_all
  then have "c \<noteq> CHR ''+''"
    using show_nat_digits [of n] by (auto simp: is_ascii_digit_def)
  then have "parse_unsigned (show_nat n) = parse_u64 (show_nat n)"
    by (simp add: parse_unsigned_def s)
  then show ?thesis using assms by simp
qed

end
