(* ===== verification/Turn_Key.thy ===== *)
theory Turn_Key
  imports Utf8
begin

text \<open>
  Structural turn correlation (\<open>cyclopsd/src/turnkey.rs\<close>): the values of a manifest's declared
  fields name the turn that a hook event belongs to, and the dedupe key that a turn and an
  event are stored under. A payload is a JSON document as \<open>serde_json::Value\<close> presents it.
\<close>

section \<open>JSON documents\<close>

text \<open>The variants of \<open>serde_json::Value\<close>; a number is kept by its literal.\<close>

datatype json_value =
    JNull
  | JBool bool
  | JNumber string
  | JString string
  | JArray "json_value list"
  | JObject "(string \<times> json_value) list"

text \<open>\<open>Value::get\<close> by name: only an object has members.\<close>

definition json_get :: "json_value \<Rightarrow> string \<Rightarrow> json_value option" where
  "json_get v name = (case v of JObject members \<Rightarrow> map_of members name | _ \<Rightarrow> None)"

section \<open>Turn keys\<close>

datatype key_field = KeyText string

datatype turn_key = TurnKey "key_field list"

datatype turn_correlation =
    Unconfigured
  | Exact turn_key
  | InvalidTurn string

primrec key_text :: "key_field \<Rightarrow> string" where
  "key_text (KeyText s) = s"

text \<open>One part of the dedupe key: its byte length, a colon, its bytes.\<close>

definition length_prefixed :: "string \<Rightarrow> string" where
  "length_prefixed part = show_nat (length part) @ CHR '':'' # part"

primrec dedupe_key :: "turn_key \<Rightarrow> string \<Rightarrow> string" where
  "dedupe_key (TurnKey parts) event =
     concat (map (\<lambda>part. length_prefixed (key_text part)) parts) @ length_prefixed event"

definition unsupported :: "json_value \<Rightarrow> string" where
  "unsupported v =
     (case v of
        JNull \<Rightarrow> ''null field''
      | JObject _ \<Rightarrow> ''object field''
      | JArray _ \<Rightarrow> ''array field''
      | JString _ \<Rightarrow> ''blank field''
      | _ \<Rightarrow> ''non-string field'')"

definition key_field_of :: "json_value \<Rightarrow> key_field option" where
  "key_field_of v =
     (case v of
        JString s \<Rightarrow> if \<not> is_blank s then Some (KeyText s) else None
      | _ \<Rightarrow> None)"

text \<open>One turn of the loop over the declared fields; the first field that fails refuses.\<close>

definition field_part :: "json_value \<Rightarrow> string \<Rightarrow> (string, key_field) result" where
  "field_part payload name =
     (case json_get payload name of
        None \<Rightarrow> Inl ''missing field''
      | Some v \<Rightarrow> ok_or (key_field_of v) (unsupported v))"

definition correlate :: "string list \<Rightarrow> json_value \<Rightarrow> turn_correlation" where
  "correlate turn_key_fields payload =
     (if turn_key_fields = [] then Unconfigured
      else case try_map (field_part payload) turn_key_fields of
          Inl why \<Rightarrow> InvalidTurn why
        | Inr parts \<Rightarrow> Exact (TurnKey parts))"

section \<open>The dedupe key names its turn and event\<close>

lemma colon_not_digit: "list_all is_ascii_digit s \<Longrightarrow> CHR '':'' \<notin> set s"
  by (induction s) (auto simp: is_ascii_digit_def)

text \<open>A length prefix is read back whatever follows it.\<close>

lemma length_prefixed_inject:
  "length_prefixed a @ s = length_prefixed b @ t \<longleftrightarrow> a = b \<and> s = t"
proof
  assume eq: "length_prefixed a @ s = length_prefixed b @ t"
  have "split_once CHR '':'' (length_prefixed x @ r) = Some (show_nat (length x), x @ r)" for x r
    by (simp add: length_prefixed_def split_once_append colon_not_digit show_nat_digits)
  from this [of a s] this [of b t] eq
  have "show_nat (length a) = show_nat (length b)" "a @ s = b @ t"
    by simp_all
  then show "a = b \<and> s = t"
    by (simp add: show_nat_inject)
qed simp

lemma length_prefixed_nonempty [simp]: "length_prefixed a \<noteq> []"
  by (simp add: length_prefixed_def)

lemma length_prefixed_concat_inject:
  "concat (map length_prefixed xs) = concat (map length_prefixed ys) \<longleftrightarrow> xs = ys"
proof (induction xs arbitrary: ys)
  case Nil
  then show ?case by (cases ys) (auto simp: length_prefixed_def)
next
  case (Cons x xs)
  then show ?case by (cases ys) (auto simp: length_prefixed_inject)
qed

lemma dedupe_key_concat:
  "dedupe_key (TurnKey parts) event = concat (map length_prefixed (map key_text parts @ [event]))"
  by (simp add: comp_def)

lemma key_text_inject: "map key_text xs = map key_text ys \<longleftrightarrow> xs = ys"
proof -
  have "inj key_text"
    by (rule injI) (metis key_field.exhaust key_text.simps)
  then show ?thesis
    by (simp add: inj_map_eq_map)
qed

lemma dedupe_key_inject: "dedupe_key k e = dedupe_key k' e' \<longleftrightarrow> k = k' \<and> e = e'"
proof (cases k; cases k')
  fix xs ys assume "k = TurnKey xs" "k' = TurnKey ys"
  then show ?thesis
    by (simp only: dedupe_key_concat length_prefixed_concat_inject append1_eq_conv
        key_text_inject turn_key.inject)
qed

section \<open>What a correlation says about its payload\<close>

text \<open>The value of a declared field, when it can name a turn.\<close>

definition names_turn :: "json_value \<Rightarrow> string \<Rightarrow> string \<Rightarrow> bool" where
  "names_turn payload name s = (json_get payload name = Some (JString s) \<and> \<not> is_blank s)"

lemma field_part_Inr:
  "field_part payload name = Inr part \<longleftrightarrow> names_turn payload name (key_text part)"
  by (cases part)
    (auto simp: field_part_def key_field_of_def names_turn_def result_simps
      split: option.splits json_value.splits if_splits)

lemma correlate_Exact:
  "correlate fs payload = Exact (TurnKey parts) \<longleftrightarrow>
     fs \<noteq> [] \<and> list_all2 (\<lambda>name part. names_turn payload name (key_text part)) fs parts"
  unfolding field_part_Inr [symmetric] try_map_Inr_iff [symmetric]
  by (auto simp: correlate_def split: sum.splits)

lemma try_map_fails:
  "fs \<noteq> [] \<and> (\<nexists>parts. try_map (field_part payload) fs = Inr parts) \<longleftrightarrow>
     (\<exists>name\<in>set fs. \<nexists>s. names_turn payload name s)"
proof -
  have part: "(\<exists>part. field_part payload name = Inr part) \<longleftrightarrow> (\<exists>s. names_turn payload name s)" for name
    by (metis field_part_Inr key_text.simps)
  have "(\<exists>parts. try_map (field_part payload) fs = Inr parts) \<longleftrightarrow>
      (\<forall>name\<in>set fs. \<exists>part. field_part payload name = Inr part)"
    by (induction fs) (auto simp: result_simps)
  then show ?thesis using part by auto
qed

lemma correlate_Unconfigured: "correlate fs payload = Unconfigured \<longleftrightarrow> fs = []"
  by (auto simp: correlate_def split: sum.splits)

end
