(* ===== verification/Hook_Lifecycle.thy ===== *)
theory Hook_Lifecycle
  imports Turn_Key
begin

text \<open>
  Candidate lifecycle edges that need later terminal evidence
  (\<open>cyclopsd/src/hook_lifecycle.rs\<close>): per pane, the prompt starts and stops that hooks have
  reported and no later screen observation has confirmed yet. Every operation of the store is
  a definition; one that both answers and changes the store returns the answer first.
\<close>

section \<open>Data\<close>

record proc_id =
  pr_pid :: int
  pr_birth :: nat

record pane_key =
  pk_session_idx :: nat
  pk_pane_id :: string

record candidate =
  ca_generation :: nat
  ca_agent :: proc_id
  ca_manifest :: string
  ca_turn :: turn_key
  ca_event :: string
  ca_edge_ms :: nat
  ca_ready_at_ms :: nat
  ca_visual_revision :: nat

record terminal_settlement =
  ts_end :: candidate
  ts_start :: "candidate option"

datatype terminal_kind = TerminalEnd | VisualEnd

text \<open>The derived order: an end comes before a visual end.\<close>

instantiation terminal_kind :: linorder
begin

definition less_eq_terminal_kind :: "terminal_kind \<Rightarrow> terminal_kind \<Rightarrow> bool" where
  "less_eq_terminal_kind a b = (a = TerminalEnd \<or> b = VisualEnd)"

definition less_terminal_kind :: "terminal_kind \<Rightarrow> terminal_kind \<Rightarrow> bool" where
  "less_terminal_kind a b = (a = TerminalEnd \<and> b = VisualEnd)"

instance
proof
  fix x y :: terminal_kind
  show "(x < y) = (x \<le> y \<and> \<not> y \<le> x)"
    by (cases x; cases y) (simp_all add: less_eq_terminal_kind_def less_terminal_kind_def)
  show "x \<le> y \<Longrightarrow> y \<le> x \<Longrightarrow> x = y"
    by (auto simp: less_eq_terminal_kind_def)
  show "x \<le> y \<or> y \<le> x"
    by (cases x; cases y) (simp_all add: less_eq_terminal_kind_def)
qed (use terminal_kind.exhaust in \<open>auto simp: less_eq_terminal_kind_def\<close>)

end

record pending =
  pe_starts :: "(turn_key, candidate) hash_map"
  pe_ends :: "(turn_key, candidate) hash_map"
  pe_visual_ends :: "(turn_key, candidate) hash_map"

record lifecycle_store =
  ls_pending :: "(pane_key, pending) hash_map"
  ls_visual_revisions :: "(pane_key, nat) hash_map"
  ls_next_generation :: nat

definition pending_default :: pending where
  "pending_default = \<lparr>pe_starts = [], pe_ends = [], pe_visual_ends = []\<rparr>"

definition lifecycle_new :: lifecycle_store where
  "lifecycle_new = \<lparr>ls_pending = [], ls_visual_revisions = [], ls_next_generation = 0\<rparr>"

definition pending_is_empty :: "pending \<Rightarrow> bool" where
  "pending_is_empty p = (pe_starts p = [] \<and> pe_ends p = [] \<and> pe_visual_ends p = [])"

definition pending_edges :: "pending \<Rightarrow> candidate list" where
  "pending_edges p = hm_values (pe_starts p) @ hm_values (pe_ends p) @ hm_values (pe_visual_ends p)"

definition bound_to :: "proc_id \<Rightarrow> string \<Rightarrow> candidate \<Rightarrow> bool" where
  "bound_to agent manifest edge = (ca_agent edge = agent \<and> ca_manifest edge = manifest)"

definition binding_differs :: "pending \<Rightarrow> proc_id \<Rightarrow> string \<Rightarrow> bool" where
  "binding_differs p agent manifest =
     list_ex (\<lambda>edge. ca_agent edge \<noteq> agent \<or> ca_manifest edge \<noteq> manifest) (pending_edges p)"

definition same_candidate :: "candidate \<Rightarrow> candidate \<Rightarrow> bool" where
  "same_candidate left right =
     (ca_generation left = ca_generation right
      \<and> ca_agent left = ca_agent right
      \<and> ca_manifest left = ca_manifest right
      \<and> ca_turn left = ca_turn right
      \<and> ca_edge_ms left = ca_edge_ms right
      \<and> ca_ready_at_ms left = ca_ready_at_ms right)"

section \<open>Reads\<close>

text \<open>\<open>self.visual_revisions.get(pane).copied().unwrap_or_default()\<close>.\<close>

definition visual_revision :: "lifecycle_store \<Rightarrow> pane_key \<Rightarrow> nat" where
  "visual_revision s pane = (case hm_get (ls_visual_revisions s) pane of None \<Rightarrow> 0 | Some r \<Rightarrow> r)"

definition has_pending_for :: "lifecycle_store \<Rightarrow> pane_key \<Rightarrow> proc_id \<Rightarrow> string \<Rightarrow> bool" where
  "has_pending_for s pane agent manifest =
     is_some_and (hm_get (ls_pending s) pane)
       (\<lambda>p. list_ex (bound_to agent manifest) (pending_edges p))"

definition has_terminal_candidates :: "lifecycle_store \<Rightarrow> pane_key \<Rightarrow> bool" where
  "has_terminal_candidates s pane =
     is_some_and (hm_get (ls_pending s) pane) (\<lambda>p. pe_ends p \<noteq> [] \<or> pe_visual_ends p \<noteq> [])"

definition terminal_recheck_key :: "terminal_kind \<Rightarrow> candidate \<Rightarrow> terminal_kind \<times> nat" where
  "terminal_recheck_key kind edge = (kind, ca_generation edge)"

definition recheck_order :: "terminal_kind \<times> candidate \<Rightarrow> nat \<times> nat \<times> terminal_kind \<times> string" where
  "recheck_order = (\<lambda>(kind, edge).
     (ca_ready_at_ms edge, ca_edge_ms edge, kind, dedupe_key (ca_turn edge) []))"

definition terminal_edges :: "pending \<Rightarrow> (terminal_kind \<times> candidate) list" where
  "terminal_edges p =
     map (Pair TerminalEnd) (hm_values (pe_ends p)) @ map (Pair VisualEnd) (hm_values (pe_visual_ends p))"

definition next_terminal_recheck_excluding ::
  "lifecycle_store \<Rightarrow> pane_key \<Rightarrow> (terminal_kind \<times> nat) hash_set \<Rightarrow> (terminal_kind \<times> candidate) option" where
  "next_terminal_recheck_excluding s pane attempted =
     (case hm_get (ls_pending s) pane of
        None \<Rightarrow> None
      | Some p \<Rightarrow>
          min_by_key recheck_order
            (filter (\<lambda>(kind, edge). \<not> hs_contains attempted (kind, ca_generation edge))
              (terminal_edges p)))"

definition next_terminal_recheck :: "lifecycle_store \<Rightarrow> pane_key \<Rightarrow> (terminal_kind \<times> candidate) option" where
  "next_terminal_recheck s pane = next_terminal_recheck_excluding s pane []"

definition terminal_candidate_is_current :: "lifecycle_store \<Rightarrow> pane_key \<Rightarrow> terminal_kind \<Rightarrow> candidate \<Rightarrow> bool" where
  "terminal_candidate_is_current s pane kind c =
     (case hm_get (ls_pending s) pane of
        None \<Rightarrow> False
      | Some p \<Rightarrow>
          is_some_and
            (case kind of
               TerminalEnd \<Rightarrow> hm_get (pe_ends p) (ca_turn c)
             | VisualEnd \<Rightarrow> hm_get (pe_visual_ends p) (ca_turn c))
            (\<lambda>current. same_candidate current c))"

definition end_is_current :: "lifecycle_store \<Rightarrow> pane_key \<Rightarrow> candidate \<Rightarrow> bool" where
  "end_is_current s pane c =
     is_some_and (Option.bind (hm_get (ls_pending s) pane) (\<lambda>p. hm_get (pe_ends p) (ca_turn c)))
       (\<lambda>current. same_candidate current c)"

definition end_observation_revision :: "lifecycle_store \<Rightarrow> pane_key \<Rightarrow> candidate \<Rightarrow> nat option" where
  "end_observation_revision s pane c =
     (case Option.bind (hm_get (ls_pending s) pane) (\<lambda>p. hm_get (pe_ends p) (ca_turn c)) of
        None \<Rightarrow> None
      | Some current \<Rightarrow>
          if same_candidate current c then Some (ca_visual_revision current) else None)"

definition visual_end_is_current :: "lifecycle_store \<Rightarrow> pane_key \<Rightarrow> candidate \<Rightarrow> bool" where
  "visual_end_is_current s pane c =
     is_some_and (Option.bind (hm_get (ls_pending s) pane) (\<lambda>p. hm_get (pe_visual_ends p) (ca_turn c)))
       (\<lambda>current. same_candidate current c)"

text \<open>An edge of this binding that a later screen observation has been completed for.\<close>

definition observed_edge :: "lifecycle_store \<Rightarrow> pane_key \<Rightarrow> proc_id \<Rightarrow> string \<Rightarrow> candidate \<Rightarrow> bool" where
  "observed_edge s pane agent manifest edge =
     (ca_agent edge = agent \<and> ca_manifest edge = manifest
      \<and> visual_revision s pane > ca_visual_revision edge)"

text \<open>A single matching start: with two the screen cannot tell which one it confirms.\<close>

definition start_for :: "lifecycle_store \<Rightarrow> pane_key \<Rightarrow> proc_id \<Rightarrow> string \<Rightarrow> candidate option" where
  "start_for s pane agent manifest =
     (case hm_get (ls_pending s) pane of
        None \<Rightarrow> None
      | Some p \<Rightarrow>
          (case filter (observed_edge s pane agent manifest) (hm_values (pe_starts p)) of
             [c] \<Rightarrow> Some c
           | _ \<Rightarrow> None))"

definition has_other_start_for :: "lifecycle_store \<Rightarrow> pane_key \<Rightarrow> proc_id \<Rightarrow> string \<Rightarrow> turn_key \<Rightarrow> bool" where
  "has_other_start_for s pane agent manifest turn =
     is_some_and (hm_get (ls_pending s) pane)
       (\<lambda>p. list_ex (\<lambda>edge. ca_agent edge = agent \<and> ca_manifest edge = manifest \<and> ca_turn edge \<noteq> turn)
          (hm_values (pe_starts p)))"

definition end_order :: "candidate \<Rightarrow> nat \<times> string" where
  "end_order edge = (ca_edge_ms edge, dedupe_key (ca_turn edge) [])"

definition end_for :: "lifecycle_store \<Rightarrow> pane_key \<Rightarrow> proc_id \<Rightarrow> string \<Rightarrow> turn_key option \<Rightarrow> candidate option" where
  "end_for s pane agent manifest preferred =
     (case hm_get (ls_pending s) pane of
        None \<Rightarrow> None
      | Some p \<Rightarrow>
          (case preferred of
             Some turn \<Rightarrow>
               (case hm_get (pe_ends p) turn of
                  None \<Rightarrow> None
                | Some c \<Rightarrow> if observed_edge s pane agent manifest c then Some c else None)
           | None \<Rightarrow>
               min_by_key end_order
                 (filter (observed_edge s pane agent manifest) (hm_values (pe_ends p)))))"

section \<open>Recording\<close>

text \<open>\<open>wrapping_add(1).max(1)\<close>: generation 0 is never handed out.\<close>

definition allocate_generation :: "lifecycle_store \<Rightarrow> nat \<times> lifecycle_store" where
  "allocate_generation s =
     (let generation = max ((ls_next_generation s + 1) mod 2 ^ 64) 1
      in (generation, s\<lparr>ls_next_generation := generation\<rparr>))"

definition note_visual_change :: "lifecycle_store \<Rightarrow> pane_key \<Rightarrow> lifecycle_store" where
  "note_visual_change s pane =
     s\<lparr>ls_visual_revisions :=
         hm_insert pane (saturating_add_u64 (visual_revision s pane) 1) (ls_visual_revisions s)\<rparr>"

text \<open>
  The bucket that an edge of this binding is recorded in: the pane's bucket, or an empty one
  when it holds edges of another process or manifest.
\<close>

definition bucket_for :: "lifecycle_store \<Rightarrow> pane_key \<Rightarrow> proc_id \<Rightarrow> string \<Rightarrow> pending" where
  "bucket_for s pane agent manifest =
     (let p = (case hm_get (ls_pending s) pane of None \<Rightarrow> pending_default | Some p \<Rightarrow> p)
      in if binding_differs p agent manifest then pending_default else p)"

definition record_start ::
  "lifecycle_store \<Rightarrow> pane_key \<Rightarrow> proc_id \<Rightarrow> string \<Rightarrow> turn_key \<Rightarrow> string \<Rightarrow> nat \<Rightarrow> lifecycle_store" where
  "record_start s pane agent manifest turn event edge_ms =
     (let revision = visual_revision s pane;
          (generation, s) = allocate_generation s;
          p = bucket_for s pane agent manifest;
          c = \<lparr>ca_generation = generation, ca_agent = agent, ca_manifest = manifest, ca_turn = turn,
               ca_event = event, ca_edge_ms = edge_ms, ca_ready_at_ms = edge_ms,
               ca_visual_revision = revision\<rparr>
      in s\<lparr>ls_pending :=
            hm_insert pane
              (p\<lparr>pe_starts := hm_insert turn c (pe_starts p),
                 pe_visual_ends := hm_remove turn (pe_visual_ends p)\<rparr>) (ls_pending s)\<rparr>)"

definition record_end ::
  "lifecycle_store \<Rightarrow> pane_key \<Rightarrow> proc_id \<Rightarrow> string \<Rightarrow> turn_key \<Rightarrow> string \<Rightarrow> nat \<Rightarrow> nat
     \<Rightarrow> candidate \<times> lifecycle_store" where
  "record_end s pane agent manifest turn event edge_ms settle_ms =
     (let revision = visual_revision s pane;
          (generation, s) = allocate_generation s;
          p = bucket_for s pane agent manifest;
          c = \<lparr>ca_generation = generation, ca_agent = agent, ca_manifest = manifest, ca_turn = turn,
               ca_event = event, ca_edge_ms = edge_ms,
               ca_ready_at_ms = saturating_add_u64 edge_ms settle_ms,
               ca_visual_revision = revision\<rparr>
      in (c, s\<lparr>ls_pending :=
            hm_insert pane
              (p\<lparr>pe_visual_ends := hm_remove turn (pe_visual_ends p),
                 pe_ends := hm_insert turn c (pe_ends p)\<rparr>) (ls_pending s)\<rparr>))"

definition record_visual_end ::
  "lifecycle_store \<Rightarrow> pane_key \<Rightarrow> proc_id \<Rightarrow> string \<Rightarrow> turn_key \<Rightarrow> nat \<Rightarrow> nat
     \<Rightarrow> candidate option \<times> lifecycle_store" where
  "record_visual_end s pane agent manifest turn edge_ms settle_ms =
     (let revision = visual_revision s pane;
          (generation, s) = allocate_generation s;
          p = bucket_for s pane agent manifest;
          c = \<lparr>ca_generation = generation, ca_agent = agent, ca_manifest = manifest, ca_turn = turn,
               ca_event = ''visual_terminal'', ca_edge_ms = edge_ms,
               ca_ready_at_ms = saturating_add_u64 edge_ms settle_ms,
               ca_visual_revision = revision\<rparr>
      in if hm_contains_key (pe_visual_ends p) turn
         then (None, s\<lparr>ls_pending := hm_insert pane p (ls_pending s)\<rparr>)
         else (Some c, s\<lparr>ls_pending :=
            hm_insert pane
              (p\<lparr>pe_visual_ends := hm_insert turn c (pe_visual_ends p)\<rparr>) (ls_pending s)\<rparr>))"

section \<open>Consuming\<close>

text \<open>Writing a pane's bucket back; an empty one is removed.\<close>

definition keep_pending :: "pane_key \<Rightarrow> pending \<Rightarrow> lifecycle_store \<Rightarrow> lifecycle_store" where
  "keep_pending pane p s =
     s\<lparr>ls_pending := (if pending_is_empty p then hm_remove pane (ls_pending s)
        else hm_insert pane p (ls_pending s))\<rparr>"

definition clear_visual_end ::
  "lifecycle_store \<Rightarrow> pane_key \<Rightarrow> proc_id \<Rightarrow> string \<Rightarrow> turn_key \<Rightarrow> lifecycle_store" where
  "clear_visual_end s pane agent manifest turn =
     (case hm_get (ls_pending s) pane of
        None \<Rightarrow> s
      | Some p \<Rightarrow>
          keep_pending pane
            (if is_some_and (hm_get (pe_visual_ends p) turn) (bound_to agent manifest)
             then p\<lparr>pe_visual_ends := hm_remove turn (pe_visual_ends p)\<rparr> else p) s)"

text \<open>The visual end of the turn goes with its end, when it has the same binding.\<close>

definition drop_visual_end :: "candidate \<Rightarrow> pending \<Rightarrow> pending" where
  "drop_visual_end c p =
     (if is_some_and (hm_get (pe_visual_ends p) (ca_turn c)) (bound_to (ca_agent c) (ca_manifest c))
      then p\<lparr>pe_visual_ends := hm_remove (ca_turn c) (pe_visual_ends p)\<rparr> else p)"

definition clear_terminal_candidates ::
  "lifecycle_store \<Rightarrow> pane_key \<Rightarrow> candidate \<Rightarrow> bool \<times> lifecycle_store" where
  "clear_terminal_candidates s pane c =
     (case hm_get (ls_pending s) pane of
        None \<Rightarrow> (False, s)
      | Some p \<Rightarrow>
          if is_some_and (hm_get (pe_ends p) (ca_turn c)) (\<lambda>edge. same_candidate edge c)
          then (True, keep_pending pane
                 (drop_visual_end c (p\<lparr>pe_ends := hm_remove (ca_turn c) (pe_ends p)\<rparr>)) s)
          else (False, keep_pending pane p s))"

definition settle_terminal_candidate ::
  "lifecycle_store \<Rightarrow> pane_key \<Rightarrow> candidate \<Rightarrow> terminal_settlement option \<times> lifecycle_store" where
  "settle_terminal_candidate s pane c =
     (case hm_get (ls_pending s) pane of
        None \<Rightarrow> (None, s)
      | Some p \<Rightarrow>
          if \<not> is_some_and (hm_get (pe_ends p) (ca_turn c)) (\<lambda>edge. same_candidate edge c)
          then (None, s)
          else
            (let p = drop_visual_end c (p\<lparr>pe_ends := hm_remove (ca_turn c) (pe_ends p)\<rparr>);
                 matched = is_some_and (hm_get (pe_starts p) (ca_turn c))
                   (bound_to (ca_agent c) (ca_manifest c));
                 start = (if matched then hm_get (pe_starts p) (ca_turn c) else None);
                 p = (if matched then p\<lparr>pe_starts := hm_remove (ca_turn c) (pe_starts p)\<rparr> else p)
             in (Some \<lparr>ts_end = c, ts_start = start\<rparr>, keep_pending pane p s)))"

definition eligible_end ::
  "lifecycle_store \<Rightarrow> pane_key \<Rightarrow> proc_id \<Rightarrow> string \<Rightarrow> nat \<Rightarrow> nat \<Rightarrow> candidate \<Rightarrow> bool" where
  "eligible_end s pane agent manifest observed_ms evidence_ms edge =
     (ca_agent edge = agent \<and> ca_manifest edge = manifest
      \<and> visual_revision s pane > ca_visual_revision edge
      \<and> ca_edge_ms edge < evidence_ms
      \<and> ca_ready_at_ms edge \<le> observed_ms)"

definition next_ready_end ::
  "lifecycle_store \<Rightarrow> pane_key \<Rightarrow> proc_id \<Rightarrow> string \<Rightarrow> turn_key option \<Rightarrow> nat \<Rightarrow> nat \<Rightarrow> candidate option" where
  "next_ready_end s pane agent manifest preferred observed_ms evidence_ms =
     (case hm_get (ls_pending s) pane of
        None \<Rightarrow> None
      | Some p \<Rightarrow>
          (let eligible = eligible_end s pane agent manifest observed_ms evidence_ms;
               oldest = min_by_key end_order (filter eligible (hm_values (pe_ends p)))
           in case Option.bind preferred (hm_get (pe_ends p)) of
                Some c \<Rightarrow> if eligible c then Some c else oldest
              | None \<Rightarrow> oldest))"

definition settle_next_ready_terminal_with_evidence ::
  "lifecycle_store \<Rightarrow> pane_key \<Rightarrow> proc_id \<Rightarrow> string \<Rightarrow> turn_key option \<Rightarrow> nat \<Rightarrow> nat
     \<Rightarrow> terminal_settlement option \<times> lifecycle_store" where
  "settle_next_ready_terminal_with_evidence s pane agent manifest preferred observed_ms evidence_ms =
     (case next_ready_end s pane agent manifest preferred observed_ms evidence_ms of
        None \<Rightarrow> (None, s)
      | Some c \<Rightarrow> settle_terminal_candidate s pane c)"

definition settle_next_ready_terminal ::
  "lifecycle_store \<Rightarrow> pane_key \<Rightarrow> proc_id \<Rightarrow> string \<Rightarrow> turn_key option \<Rightarrow> nat
     \<Rightarrow> terminal_settlement option \<times> lifecycle_store" where
  "settle_next_ready_terminal s pane agent manifest preferred observed_ms =
     settle_next_ready_terminal_with_evidence s pane agent manifest preferred observed_ms observed_ms"

definition take_start_for_turn ::
  "lifecycle_store \<Rightarrow> pane_key \<Rightarrow> proc_id \<Rightarrow> string \<Rightarrow> turn_key \<Rightarrow> candidate option \<times> lifecycle_store" where
  "take_start_for_turn s pane agent manifest turn =
     (case hm_get (ls_pending s) pane of
        None \<Rightarrow> (None, s)
      | Some p \<Rightarrow>
          if is_some_and (hm_get (pe_starts p) turn) (bound_to agent manifest)
          then (hm_get (pe_starts p) turn,
                keep_pending pane (p\<lparr>pe_starts := hm_remove turn (pe_starts p)\<rparr>) s)
          else (None, keep_pending pane p s))"

definition clear_start :: "lifecycle_store \<Rightarrow> pane_key \<Rightarrow> candidate \<Rightarrow> bool \<times> lifecycle_store" where
  "clear_start s pane c =
     (case hm_get (ls_pending s) pane of
        None \<Rightarrow> (False, s)
      | Some p \<Rightarrow>
          if is_some_and (hm_get (pe_starts p) (ca_turn c)) (\<lambda>edge. same_candidate edge c)
          then (True, keep_pending pane (p\<lparr>pe_starts := hm_remove (ca_turn c) (pe_starts p)\<rparr>) s)
          else (False, keep_pending pane p s))"

definition defer_start :: "lifecycle_store \<Rightarrow> pane_key \<Rightarrow> candidate \<Rightarrow> bool \<times> lifecycle_store" where
  "defer_start s pane c =
     (case hm_get (ls_pending s) pane of
        None \<Rightarrow> (False, s)
      | Some p \<Rightarrow>
          (case hm_get (pe_starts p) (ca_turn c) of
             None \<Rightarrow> (False, s)
           | Some edge \<Rightarrow>
               if same_candidate edge c
               then (True, s\<lparr>ls_pending := hm_insert pane
                       (p\<lparr>pe_starts := hm_insert (ca_turn c)
                            (edge\<lparr>ca_visual_revision := visual_revision s pane\<rparr>) (pe_starts p)\<rparr>)
                       (ls_pending s)\<rparr>)
               else (False, s)))"

definition clear_end :: "lifecycle_store \<Rightarrow> pane_key \<Rightarrow> turn_key \<Rightarrow> lifecycle_store" where
  "clear_end s pane turn =
     (case hm_get (ls_pending s) pane of
        None \<Rightarrow> s
      | Some p \<Rightarrow> keep_pending pane (p\<lparr>pe_ends := hm_remove turn (pe_ends p)\<rparr>) s)"

definition defer_end :: "lifecycle_store \<Rightarrow> pane_key \<Rightarrow> candidate \<Rightarrow> bool \<times> lifecycle_store" where
  "defer_end s pane c =
     (case hm_get (ls_pending s) pane of
        None \<Rightarrow> (False, s)
      | Some p \<Rightarrow>
          (case hm_get (pe_ends p) (ca_turn c) of
             None \<Rightarrow> (False, s)
           | Some edge \<Rightarrow>
               if same_candidate edge c
               then (True, s\<lparr>ls_pending := hm_insert pane
                       (p\<lparr>pe_ends := hm_insert (ca_turn c)
                            (edge\<lparr>ca_visual_revision := visual_revision s pane\<rparr>) (pe_ends p)\<rparr>)
                       (ls_pending s)\<rparr>)
               else (False, s)))"

definition forget_pane :: "lifecycle_store \<Rightarrow> pane_key \<Rightarrow> lifecycle_store" where
  "forget_pane s pane =
     s\<lparr>ls_pending := hm_remove pane (ls_pending s),
       ls_visual_revisions := hm_remove pane (ls_visual_revisions s)\<rparr>"

definition forget_if_binding_differs ::
  "lifecycle_store \<Rightarrow> pane_key \<Rightarrow> proc_id \<Rightarrow> string \<Rightarrow> bool \<times> lifecycle_store" where
  "forget_if_binding_differs s pane agent manifest =
     (let differs = is_some_and (hm_get (ls_pending s) pane)
            (\<lambda>p. binding_differs p agent manifest)
      in (differs, if differs then forget_pane s pane else s))"

end
