(* ===== verification/Lifecycle_Laws.thy ===== *)
theory Lifecycle_Laws
  imports Hook_Lifecycle
begin

text \<open>
  The candidate store seen through one function, \<open>edge\<close>: the candidate that a pane holds for
  a kind of edge and a turn. Every operation either keeps what it finds (it may drop edges or
  put off their observation) or adds one edge with a fresh generation; the invariant of the
  store, the uniqueness of generations and the choice of the next edge follow from that.
\<close>

section \<open>Edges\<close>

datatype edge_slot = StartSlot | EndSlot | VisualSlot

primrec slot :: "edge_slot \<Rightarrow> pending \<Rightarrow> (turn_key, candidate) hash_map" where
  "slot StartSlot p = pe_starts p"
| "slot EndSlot p = pe_ends p"
| "slot VisualSlot p = pe_visual_ends p"

definition bucket :: "lifecycle_store \<Rightarrow> pane_key \<Rightarrow> pending" where
  "bucket s pane = (case hm_get (ls_pending s) pane of None \<Rightarrow> pending_default | Some p \<Rightarrow> p)"

definition edge :: "lifecycle_store \<Rightarrow> pane_key \<Rightarrow> edge_slot \<Rightarrow> turn_key \<Rightarrow> candidate option" where
  "edge s pane k turn = hm_get (slot k (bucket s pane)) turn"

text \<open>
  The representation: maps have one entry per key, no pane keeps an empty bucket, and a
  revision is a \<open>u64\<close>.
\<close>

definition maps_ok :: "pending \<Rightarrow> bool" where
  "maps_ok p = (hm_ok (pe_starts p) \<and> hm_ok (pe_ends p) \<and> hm_ok (pe_visual_ends p))"

definition shape :: "lifecycle_store \<Rightarrow> bool" where
  "shape s = (hm_ok (ls_pending s) \<and> (\<forall>pane. visual_revision s pane \<le> u64_max)
     \<and> (\<forall>pane p. hm_get (ls_pending s) pane = Some p \<longrightarrow> maps_ok p \<and> \<not> pending_is_empty p))"

text \<open>
  The invariant: an edge is stored under its own turn, it was recorded at or before the pane's
  current observation, and all edges of a pane belong to one process and one manifest.
\<close>

definition lifecycle_ok :: "lifecycle_store \<Rightarrow> bool" where
  "lifecycle_ok s = (shape s
     \<and> (\<forall>pane k turn c. edge s pane k turn = Some c \<longrightarrow>
          ca_turn c = turn \<and> ca_visual_revision c \<le> visual_revision s pane)
     \<and> (\<forall>pane k turn c k' turn' c'.
          edge s pane k turn = Some c \<and> edge s pane k' turn' = Some c' \<longrightarrow>
          ca_agent c = ca_agent c' \<and> ca_manifest c = ca_manifest c'))"

lemma lifecycle_okD:
  assumes "lifecycle_ok s" and "edge s pane k turn = Some c"
  shows "ca_turn c = turn" and "ca_visual_revision c \<le> visual_revision s pane"
  using assms unfolding lifecycle_ok_def by metis+

lemma lifecycle_ok_binding:
  assumes "lifecycle_ok s" and "edge s pane k turn = Some c" and "edge s pane k' turn' = Some c'"
  shows "ca_agent c = ca_agent c'" and "ca_manifest c = ca_manifest c'"
  using assms unfolding lifecycle_ok_def by metis+

lemma lifecycle_ok_shape: "lifecycle_ok s \<Longrightarrow> shape s"
  by (simp add: lifecycle_ok_def)

lemma slot_default [simp]: "slot k pending_default = []"
  by (cases k) (simp_all add: pending_default_def)

lemma maps_ok_default [simp]: "maps_ok pending_default"
  by (simp add: maps_ok_def pending_default_def)

lemma maps_ok_slot: "maps_ok p \<Longrightarrow> hm_ok (slot k p)"
  by (cases k) (simp_all add: maps_ok_def)

lemma shape_bucket: "shape s \<Longrightarrow> maps_ok (bucket s pane)"
  by (auto simp: shape_def bucket_def split: option.splits)

lemma bucket_values:
  assumes "shape s"
  shows "c \<in> set (hm_values (slot k (bucket s pane))) \<longleftrightarrow> (\<exists>turn. edge s pane k turn = Some c)"
  by (simp add: in_hm_values maps_ok_slot shape_bucket assms edge_def)

lemma pending_edges_slots:
  "set (pending_edges p) = (\<Union>k. set (hm_values (slot k p)))"
proof -
  have "UNIV = {StartSlot, EndSlot, VisualSlot}"
    using edge_slot.exhaust by blast
  then have "(\<Union>k. set (hm_values (slot k p))) = (\<Union>k\<in>{StartSlot, EndSlot, VisualSlot}. set (hm_values (slot k p)))"
    by simp
  then show ?thesis by (simp add: pending_edges_def)
qed

section \<open>The two kinds of change\<close>

text \<open>Every edge after the step was there before it, possibly put off to a later observation.\<close>

definition keeps :: "lifecycle_store \<Rightarrow> lifecycle_store \<Rightarrow> bool" where
  "keeps s s' = (\<forall>pane k turn c'. edge s' pane k turn = Some c' \<longrightarrow>
     visual_revision s pane \<le> visual_revision s' pane
     \<and> (\<exists>c. edge s pane k turn = Some c
          \<and> (c' = c \<or> c' = c\<lparr>ca_visual_revision := visual_revision s pane\<rparr>)))"

text \<open>One new edge; the pane keeps only edges of the same binding beside it.\<close>

definition adds ::
  "lifecycle_store \<Rightarrow> lifecycle_store \<Rightarrow> pane_key \<Rightarrow> edge_slot \<Rightarrow> candidate \<Rightarrow> bool" where
  "adds s s' pane k c = (ca_visual_revision c = visual_revision s pane
     \<and> ca_generation c = ls_next_generation s'
     \<and> (\<forall>pane'. visual_revision s' pane' = visual_revision s pane')
     \<and> edge s' pane k (ca_turn c) = Some c
     \<and> (\<forall>pane' k' turn' c'. edge s' pane' k' turn' = Some c' \<longrightarrow>
          pane' = pane \<and> k' = k \<and> turn' = ca_turn c \<and> c' = c
          \<or> edge s pane' k' turn' = Some c'
            \<and> (pane' = pane \<longrightarrow> bound_to (ca_agent c) (ca_manifest c) c')))"

lemma keepsD:
  assumes "keeps s s'" and "edge s' pane k turn = Some c'"
  obtains c where "edge s pane k turn = Some c"
    and "visual_revision s pane \<le> visual_revision s' pane"
    and "c' = c \<or> c' = c\<lparr>ca_visual_revision := visual_revision s pane\<rparr>"
  using assms unfolding keeps_def by metis

lemma keeps_generation:
  assumes "keeps s s'" and "edge s' pane k turn = Some c'"
  shows "\<exists>c. edge s pane k turn = Some c \<and> ca_generation c = ca_generation c'"
  using assms by (auto elim!: keepsD)

lemma keeps_binding:
  assumes "keeps s s'" and "edge s' pane k turn = Some c'"
  shows "\<exists>c. edge s pane k turn = Some c \<and> ca_agent c' = ca_agent c \<and> ca_manifest c' = ca_manifest c"
  using assms by (auto elim!: keepsD)

lemma keeps_ok:
  assumes ok: "lifecycle_ok s" and keeps: "keeps s s'" and shape: "shape s'"
  shows "lifecycle_ok s'"
  unfolding lifecycle_ok_def
proof (intro conjI allI impI)
  show "shape s'" by (rule shape)
next
  fix pane k turn c' assume e: "edge s' pane k turn = Some c'"
  obtain c where c: "edge s pane k turn = Some c" "visual_revision s pane \<le> visual_revision s' pane"
      "c' = c \<or> c' = c\<lparr>ca_visual_revision := visual_revision s pane\<rparr>"
    using keeps e by (rule keepsD)
  show "ca_turn c' = turn"
    using c(3) lifecycle_okD(1) [OF ok c(1)] by auto
  show "ca_visual_revision c' \<le> visual_revision s' pane"
    using c(2,3) lifecycle_okD(2) [OF ok c(1)] by auto
next
  fix pane k turn c k' turn' c'
  assume both: "edge s' pane k turn = Some c \<and> edge s' pane k' turn' = Some c'"
  obtain d where d: "edge s pane k turn = Some d"
    "ca_agent c = ca_agent d" "ca_manifest c = ca_manifest d"
    using keeps_binding [OF keeps conjunct1 [OF both]] by auto
  obtain d' where d': "edge s pane k' turn' = Some d'"
    "ca_agent c' = ca_agent d'" "ca_manifest c' = ca_manifest d'"
    using keeps_binding [OF keeps conjunct2 [OF both]] by auto
  show "ca_agent c = ca_agent c'"
    using lifecycle_ok_binding(1) [OF ok d(1) d'(1)] d(2) d'(2) by simp
  show "ca_manifest c = ca_manifest c'"
    using lifecycle_ok_binding(2) [OF ok d(1) d'(1)] d(3) d'(3) by simp
qed

lemma adds_ok:
  assumes ok: "lifecycle_ok s" and adds: "adds s s' pane k c" and shape: "shape s'"
  shows "lifecycle_ok s'"
  unfolding lifecycle_ok_def
proof (intro conjI allI impI)
  show "shape s'" by (rule shape)
next
  have old: "pane' = pane \<and> k' = k \<and> turn' = ca_turn c \<and> c' = c \<or> edge s pane' k' turn' = Some c'"
    if "edge s' pane' k' turn' = Some c'" for pane' k' turn' c'
    using adds that unfolding adds_def by metis
  have rev: "visual_revision s' pane' = visual_revision s pane'" for pane'
    using adds unfolding adds_def by metis
  have crev: "ca_visual_revision c = visual_revision s pane"
    using adds unfolding adds_def by metis
  fix pane' k' turn' c' assume e: "edge s' pane' k' turn' = Some c'"
  show "ca_turn c' = turn'"
    using old [OF e] lifecycle_okD(1) [OF ok] by auto
  show "ca_visual_revision c' \<le> visual_revision s' pane'"
    using old [OF e] lifecycle_okD(2) [OF ok] crev rev by auto
next
  have old: "pane' = pane \<and> c' = c \<or> edge s pane' k' turn' = Some c'
      \<and> (pane' = pane \<longrightarrow> bound_to (ca_agent c) (ca_manifest c) c')"
    if "edge s' pane' k' turn' = Some c'" for pane' k' turn' c'
    using adds that unfolding adds_def by metis
  fix pane1 k1 turn1 c1 k2 turn2 c2
  assume both: "edge s' pane1 k1 turn1 = Some c1 \<and> edge s' pane1 k2 turn2 = Some c2"
  have "bound_to (ca_agent c2) (ca_manifest c2) c1"
    using old [of pane1 k1 turn1 c1] old [of pane1 k2 turn2 c2] both
      lifecycle_ok_binding [OF ok, of pane1 k1 turn1 c1 k2 turn2 c2]
    by (auto simp: bound_to_def)
  then show "ca_agent c1 = ca_agent c2" and "ca_manifest c1 = ca_manifest c2"
    by (simp_all add: bound_to_def)
qed

section \<open>What the operations do to the edges\<close>

lemma bucket_insert:
  "bucket (s\<lparr>ls_pending := hm_insert pane p m\<rparr>) pane' =
     (if pane' = pane then p else (case hm_get m pane' of None \<Rightarrow> pending_default | Some q \<Rightarrow> q))"
  by (simp add: bucket_def)

lemma edge_insert:
  "edge (s\<lparr>ls_pending := hm_insert pane p (ls_pending s)\<rparr>) pane' k turn =
     (if pane' = pane then hm_get (slot k p) turn else edge s pane' k turn)"
  by (simp add: edge_def bucket_def)

lemma slot_empty: "pending_is_empty p \<Longrightarrow> slot k p = []"
  by (cases k) (simp_all add: pending_is_empty_def)

lemma edge_keep_pending:
  "edge (keep_pending pane p s) pane' k turn =
     (if pane' = pane then hm_get (slot k p) turn else edge s pane' k turn)"
  by (simp add: edge_def bucket_def keep_pending_def slot_empty)

lemma revision_keep_pending [simp]: "visual_revision (keep_pending pane p s) = visual_revision s"
  by (simp add: keep_pending_def visual_revision_def fun_eq_iff)

lemma generation_keep_pending [simp]:
  "ls_next_generation (keep_pending pane p s) = ls_next_generation s"
  by (simp add: keep_pending_def)

lemma shape_insert:
  "shape s \<Longrightarrow> maps_ok p \<Longrightarrow> \<not> pending_is_empty p \<Longrightarrow>
     shape (s\<lparr>ls_pending := hm_insert pane p (ls_pending s)\<rparr>)"
  by (simp add: shape_def visual_revision_def)

lemma shape_keep_pending: "shape s \<Longrightarrow> maps_ok p \<Longrightarrow> shape (keep_pending pane p s)"
  by (simp add: shape_def keep_pending_def visual_revision_def)

lemma hm_insert_nonempty [simp]: "hm_insert k v m \<noteq> []"
  by (metis hm_get_insert hm_get_Nil option.distinct(1))

text \<open>A pane's bucket replaced by one with fewer edges.\<close>

definition within :: "pending \<Rightarrow> pending \<Rightarrow> bool" where
  "within q p = (maps_ok q \<and> (\<forall>k turn c. hm_get (slot k q) turn = Some c \<longrightarrow> hm_get (slot k p) turn = Some c))"

lemma keep_pending_within:
  assumes "shape s" and "hm_get (ls_pending s) pane = Some p" and "within q p"
  shows "keeps s (keep_pending pane q s) \<and> shape (keep_pending pane q s)"
proof -
  have "bucket s pane = p" using assms(2) by (simp add: bucket_def)
  then show ?thesis
    using assms by (auto simp: keeps_def edge_keep_pending shape_keep_pending within_def)
      (auto simp: edge_def)
qed

lemma within_refl: "maps_ok p \<Longrightarrow> within p p"
  by (simp add: within_def)

lemma within_trans: "within r q \<Longrightarrow> within q p \<Longrightarrow> within r p"
  unfolding within_def by metis

lemma within_remove:
  assumes "maps_ok p"
  shows "within (p\<lparr>pe_starts := hm_remove turn (pe_starts p)\<rparr>) p"
    and "within (p\<lparr>pe_ends := hm_remove turn (pe_ends p)\<rparr>) p"
    and "within (p\<lparr>pe_visual_ends := hm_remove turn (pe_visual_ends p)\<rparr>) p"
proof -
  have by_slot: "within q p" if "maps_ok q" "\<And>k turn c. hm_get (slot k q) turn = Some c \<Longrightarrow>
      hm_get (slot k p) turn = Some c" for q
    using that by (simp add: within_def)
  have slot_cases: "hm_get (slot k q) t = Some c \<Longrightarrow> hm_get (slot k p) t = Some c"
    if "q \<in> {p\<lparr>pe_starts := hm_remove turn (pe_starts p)\<rparr>, p\<lparr>pe_ends := hm_remove turn (pe_ends p)\<rparr>,
      p\<lparr>pe_visual_ends := hm_remove turn (pe_visual_ends p)\<rparr>}" for q k t c
    using that by (cases k) (auto split: if_splits)
  show "within (p\<lparr>pe_starts := hm_remove turn (pe_starts p)\<rparr>) p"
    by (rule by_slot) (use assms slot_cases in \<open>auto simp: maps_ok_def\<close>)
  show "within (p\<lparr>pe_ends := hm_remove turn (pe_ends p)\<rparr>) p"
    by (rule by_slot) (use assms slot_cases in \<open>auto simp: maps_ok_def\<close>)
  show "within (p\<lparr>pe_visual_ends := hm_remove turn (pe_visual_ends p)\<rparr>) p"
    by (rule by_slot) (use assms slot_cases in \<open>auto simp: maps_ok_def\<close>)
qed

lemma within_drop_visual_end: "maps_ok p \<Longrightarrow> within (drop_visual_end c p) p"
  by (simp add: drop_visual_end_def within_remove within_refl)

lemma shape_get: "shape s \<Longrightarrow> hm_get (ls_pending s) pane = Some p \<Longrightarrow> maps_ok p"
  by (simp add: shape_def)

end
