(* ===== verification/Lifecycle_Run.thy ===== *)
theory Lifecycle_Run
  imports Lifecycle_Laws
begin

text \<open>
  Sequences of calls on the candidate store. \<open>perform\<close> dispatches one call; each is classified
  as a keeping or an adding step, which carries the store's invariant and the accounting of
  generations (\<open>spent\<close>) through a run.
\<close>

section \<open>Calls\<close>

datatype lifecycle_call =
    NoteVisualChange pane_key
  | RecordStart pane_key proc_id string turn_key string nat
  | RecordEnd pane_key proc_id string turn_key string nat nat
  | RecordVisualEnd pane_key proc_id string turn_key nat nat
  | ClearVisualEnd pane_key proc_id string turn_key
  | ClearTerminalCandidates pane_key candidate
  | SettleTerminalCandidate pane_key candidate
  | SettleNextReady pane_key proc_id string "turn_key option" nat nat
  | TakeStartForTurn pane_key proc_id string turn_key
  | ClearStart pane_key candidate
  | DeferStart pane_key candidate
  | ClearEnd pane_key turn_key
  | DeferEnd pane_key candidate
  | ForgetPane pane_key
  | ForgetIfBindingDiffers pane_key proc_id string

primrec perform :: "lifecycle_call \<Rightarrow> lifecycle_store \<Rightarrow> terminal_settlement option \<times> lifecycle_store" where
  "perform (NoteVisualChange pane) s = (None, note_visual_change s pane)"
| "perform (RecordStart pane agent manifest turn event edge_ms) s =
     (None, record_start s pane agent manifest turn event edge_ms)"
| "perform (RecordEnd pane agent manifest turn event edge_ms settle_ms) s =
     (None, snd (record_end s pane agent manifest turn event edge_ms settle_ms))"
| "perform (RecordVisualEnd pane agent manifest turn edge_ms settle_ms) s =
     (None, snd (record_visual_end s pane agent manifest turn edge_ms settle_ms))"
| "perform (ClearVisualEnd pane agent manifest turn) s =
     (None, clear_visual_end s pane agent manifest turn)"
| "perform (ClearTerminalCandidates pane c) s = (None, snd (clear_terminal_candidates s pane c))"
| "perform (SettleTerminalCandidate pane c) s = settle_terminal_candidate s pane c"
| "perform (SettleNextReady pane agent manifest preferred observed_ms evidence_ms) s =
     settle_next_ready_terminal_with_evidence s pane agent manifest preferred observed_ms evidence_ms"
| "perform (TakeStartForTurn pane agent manifest turn) s =
     (None, snd (take_start_for_turn s pane agent manifest turn))"
| "perform (ClearStart pane c) s = (None, snd (clear_start s pane c))"
| "perform (DeferStart pane c) s = (None, snd (defer_start s pane c))"
| "perform (ClearEnd pane turn) s = (None, clear_end s pane turn)"
| "perform (DeferEnd pane c) s = (None, snd (defer_end s pane c))"
| "perform (ForgetPane pane) s = (None, forget_pane s pane)"
| "perform (ForgetIfBindingDiffers pane agent manifest) s =
     (None, snd (forget_if_binding_differs s pane agent manifest))"

primrec run_calls :: "lifecycle_call list \<Rightarrow> lifecycle_store \<Rightarrow> lifecycle_store" where
  "run_calls [] s = s"
| "run_calls (call # calls) s = run_calls calls (snd (perform call s))"

text \<open>What the calls of a run settled, in order.\<close>

primrec settlements :: "lifecycle_call list \<Rightarrow> lifecycle_store \<Rightarrow> terminal_settlement list" where
  "settlements [] s = []"
| "settlements (call # calls) s =
     (case fst (perform call s) of None \<Rightarrow> [] | Some st \<Rightarrow> [st])
       @ settlements calls (snd (perform call s))"

lemma settlements_append:
  "settlements (calls @ calls') s = settlements calls s @ settlements calls' (run_calls calls s)"
  by (induction calls arbitrary: s) simp_all

text \<open>The generations of the edges that a settlement consumed.\<close>

definition settled_generations :: "terminal_settlement \<Rightarrow> nat list" where
  "settled_generations st =
     ca_generation (ts_end st)
       # (case ts_start st of None \<Rightarrow> [] | Some c \<Rightarrow> [ca_generation c])"

section \<open>Recording adds one edge\<close>

definition next_generation :: "lifecycle_store \<Rightarrow> nat" where
  "next_generation s = max ((ls_next_generation s + 1) mod 2 ^ 64) 1"

lemma allocate_unfold:
  "allocate_generation s = (next_generation s, s\<lparr>ls_next_generation := next_generation s\<rparr>)"
  by (simp add: allocate_generation_def next_generation_def Let_def)

text \<open>The bucket an edge goes to holds edges that were there, all of its binding.\<close>

lemma bucket_for_get:
  assumes "shape s" and "hm_get (slot k (bucket_for s pane agent manifest)) turn = Some c"
  shows "edge s pane k turn = Some c \<and> bound_to agent manifest c"
proof -
  let ?p = "bucket s pane"
  have eq: "bucket_for s pane agent manifest = (if binding_differs ?p agent manifest then pending_default else ?p)"
    by (simp add: bucket_for_def bucket_def Let_def)
  then have same: "\<not> binding_differs ?p agent manifest"
    and get: "hm_get (slot k ?p) turn = Some c"
    using assms(2) by (auto split: if_splits)
  have "c \<in> set (pending_edges ?p)"
    using bucket_values [OF assms(1)] get
    unfolding pending_edges_slots edge_def by auto
  then show ?thesis
    using same get by (auto simp: binding_differs_def list_ex_iff bound_to_def edge_def)
qed

lemma bucket_for_ok: "shape s \<Longrightarrow> maps_ok (bucket_for s pane agent manifest)"
  using shape_bucket [of s pane] by (simp add: bucket_for_def bucket_def Let_def)

lemma bucket_for_allocated [simp]:
  "bucket_for (s\<lparr>ls_next_generation := g\<rparr>) pane agent manifest = bucket_for s pane agent manifest"
  by (simp add: bucket_for_def)

lemma revision_allocated [simp]:
  "visual_revision (s\<lparr>ls_next_generation := g\<rparr>) = visual_revision s"
  "visual_revision (s\<lparr>ls_pending := m\<rparr>) = visual_revision s"
  by (simp_all add: visual_revision_def fun_eq_iff)

lemma edge_allocated [simp]: "edge (s\<lparr>ls_next_generation := g\<rparr>) = edge s"
  by (simp add: edge_def bucket_def fun_eq_iff)

lemma shape_allocated [simp]: "shape (s\<lparr>ls_next_generation := g\<rparr>) = shape s"
  by (simp add: shape_def)

text \<open>
  The common part of the three recorders: a bucket \<open>q\<close> that holds the new edge in its slot
  and otherwise edges of the old bucket.
\<close>

lemma record_adds:
  assumes shape: "shape s"
    and c: "ca_agent c = agent" "ca_manifest c = manifest" "ca_visual_revision c = visual_revision s pane"
      "ca_generation c = g"
    and q: "maps_ok q" "hm_get (slot k q) (ca_turn c) = Some c"
      "\<And>k' turn' c'. hm_get (slot k' q) turn' = Some c' \<Longrightarrow> k' = k \<and> turn' = ca_turn c
         \<or> hm_get (slot k' (bucket_for s pane agent manifest)) turn' = Some c'"
    and s': "s' = s\<lparr>ls_next_generation := g, ls_pending := hm_insert pane q (ls_pending s)\<rparr>"
  shows "adds s s' pane k c \<and> shape s'"
proof
  have edge': "edge s' pane' k' turn' =
      (if pane' = pane then hm_get (slot k' q) turn' else edge s pane' k' turn')" for pane' k' turn'
    by (simp add: s' edge_def bucket_def)
  have new: "pane' = pane \<and> k' = k \<and> turn' = ca_turn c \<and> c' = c
      \<or> edge s pane' k' turn' = Some c' \<and> (pane' = pane \<longrightarrow> bound_to (ca_agent c) (ca_manifest c) c')"
    if "edge s' pane' k' turn' = Some c'" for pane' k' turn' c'
  proof (cases "pane' = pane \<and> \<not> (k' = k \<and> turn' = ca_turn c)")
    case True
    then have "hm_get (slot k' (bucket_for s pane agent manifest)) turn' = Some c'"
      using q(3) [of k' turn' c'] that by (auto simp: edge')
    then show ?thesis
      using bucket_for_get [OF shape] True c(1,2) by auto
  next
    case False
    then show ?thesis
      using that q(2) by (auto simp: edge' split: if_splits)
  qed
  show "adds s s' pane k c"
    unfolding adds_def
  proof (intro conjI allI impI)
    show "ca_generation c = ls_next_generation s'" by (simp add: s' c(4))
    show "edge s' pane k (ca_turn c) = Some c" using q(2) by (simp add: edge')
    show "visual_revision s' pane' = visual_revision s pane'" for pane'
      by (simp add: s')
  qed (use c(3) new in auto)
  have "slot k q \<noteq> []" using q(2) by auto
  then have "\<not> pending_is_empty q" using slot_empty [of q k] by blast
  then show "shape s'"
    using shape q(1) by (simp add: s' shape_def)
qed

lemma record_start_adds:
  assumes "shape s"
  shows "\<exists>c. adds s (record_start s pane agent manifest turn event edge_ms) pane StartSlot c
    \<and> shape (record_start s pane agent manifest turn event edge_ms)
    \<and> ls_next_generation (record_start s pane agent manifest turn event edge_ms) = next_generation s"
proof -
  let ?p = "bucket_for s pane agent manifest"
  let ?c = "\<lparr>ca_generation = next_generation s, ca_agent = agent, ca_manifest = manifest, ca_turn = turn,
    ca_event = event, ca_edge_ms = edge_ms, ca_ready_at_ms = edge_ms,
    ca_visual_revision = visual_revision s pane\<rparr>"
  let ?q = "?p\<lparr>pe_starts := hm_insert turn ?c (pe_starts ?p),
    pe_visual_ends := hm_remove turn (pe_visual_ends ?p)\<rparr>"
  let ?s = "record_start s pane agent manifest turn event edge_ms"
  have s': "?s = s\<lparr>ls_next_generation := next_generation s, ls_pending := hm_insert pane ?q (ls_pending s)\<rparr>"
    by (simp add: record_start_def allocate_unfold Let_def)
  have "adds s ?s pane StartSlot ?c \<and> shape ?s"
  proof (rule record_adds [OF assms, where agent = agent and manifest = manifest and q = ?q
        and g = "next_generation s"])
    show "maps_ok ?q" using bucket_for_ok [OF assms] by (simp add: maps_ok_def)
    show "k' = StartSlot \<and> turn' = ca_turn ?c \<or> hm_get (slot k' ?p) turn' = Some c'"
      if "hm_get (slot k' ?q) turn' = Some c'" for k' turn' c'
      using that by (cases k') (auto split: if_splits)
  qed (simp_all add: s')
  moreover have "ls_next_generation ?s = next_generation s" by (simp add: s')
  ultimately show ?thesis by blast
qed

lemma record_end_adds:
  assumes "shape s" and rec: "record_end s pane agent manifest turn event edge_ms settle_ms = (c, s')"
  shows "adds s s' pane EndSlot c \<and> shape s' \<and> ls_next_generation s' = next_generation s"
proof -
  let ?p = "bucket_for s pane agent manifest"
  let ?q = "?p\<lparr>pe_visual_ends := hm_remove turn (pe_visual_ends ?p), pe_ends := hm_insert turn c (pe_ends ?p)\<rparr>"
  have c: "c = \<lparr>ca_generation = next_generation s, ca_agent = agent, ca_manifest = manifest, ca_turn = turn,
    ca_event = event, ca_edge_ms = edge_ms, ca_ready_at_ms = saturating_add_u64 edge_ms settle_ms,
    ca_visual_revision = visual_revision s pane\<rparr>"
    and s': "s' = s\<lparr>ls_next_generation := next_generation s, ls_pending := hm_insert pane ?q (ls_pending s)\<rparr>"
    using rec by (auto simp: record_end_def allocate_unfold Let_def)
  have "adds s s' pane EndSlot c \<and> shape s'"
  proof (rule record_adds [OF assms(1), where agent = agent and manifest = manifest and q = ?q
        and g = "next_generation s"])
    show "maps_ok ?q" using bucket_for_ok [OF assms(1)] by (simp add: maps_ok_def)
    show "k' = EndSlot \<and> turn' = ca_turn c \<or> hm_get (slot k' ?p) turn' = Some c'"
      if "hm_get (slot k' ?q) turn' = Some c'" for k' turn' c'
      using that by (cases k') (auto simp: c split: if_splits)
  qed (simp_all add: s' c)
  then show ?thesis by (simp add: s')
qed

lemma record_visual_end_step:
  assumes shape: "shape s" and rec: "record_visual_end s pane agent manifest turn edge_ms settle_ms = (r, s')"
  shows "(case r of None \<Rightarrow> keeps s s' | Some c \<Rightarrow> adds s s' pane VisualSlot c)
    \<and> shape s' \<and> ls_next_generation s' = next_generation s"
proof -
  let ?p = "bucket_for s pane agent manifest"
  show ?thesis
  proof (cases "hm_contains_key (pe_visual_ends ?p) turn")
    case True
    then have r: "r = None"
      and s': "s' = s\<lparr>ls_next_generation := next_generation s, ls_pending := hm_insert pane ?p (ls_pending s)\<rparr>"
      using rec by (auto simp: record_visual_end_def allocate_unfold Let_def)
    have "edge s pane' k t = Some c" if "edge s' pane' k t = Some c" for pane' k t c
      using that bucket_for_get [OF shape, of k pane agent manifest t c]
      by (auto simp: s' edge_def bucket_def split: if_splits)
    moreover have "visual_revision s' = visual_revision s" by (simp add: s')
    ultimately have "keeps s s'" by (simp add: keeps_def)
    moreover have "\<not> pending_is_empty ?p" using True by (auto simp: pending_is_empty_def)
    then have "shape s'"
      using shape bucket_for_ok [OF shape] by (simp add: s' shape_def)
    ultimately show ?thesis by (simp add: r s')
  next
    case False
    let ?c = "\<lparr>ca_generation = next_generation s, ca_agent = agent, ca_manifest = manifest, ca_turn = turn,
      ca_event = ''visual_terminal'', ca_edge_ms = edge_ms,
      ca_ready_at_ms = saturating_add_u64 edge_ms settle_ms,
      ca_visual_revision = visual_revision s pane\<rparr>"
    let ?q = "?p\<lparr>pe_visual_ends := hm_insert turn ?c (pe_visual_ends ?p)\<rparr>"
    have r: "r = Some ?c"
      and s': "s' = s\<lparr>ls_next_generation := next_generation s, ls_pending := hm_insert pane ?q (ls_pending s)\<rparr>"
      using rec False by (auto simp: record_visual_end_def allocate_unfold Let_def)
    have "adds s s' pane VisualSlot ?c \<and> shape s'"
    proof (rule record_adds [OF shape, where agent = agent and manifest = manifest and q = ?q
          and g = "next_generation s"])
      show "maps_ok ?q" using bucket_for_ok [OF shape] by (simp add: maps_ok_def)
      show "k' = VisualSlot \<and> turn' = ca_turn ?c \<or> hm_get (slot k' ?p) turn' = Some c'"
        if "hm_get (slot k' ?q) turn' = Some c'" for k' turn' c'
        using that by (cases k') (auto split: if_splits)
    qed (simp_all add: s')
    then show ?thesis by (simp add: r s')
  qed
qed

section \<open>Every other call keeps what it finds\<close>

lemma defer_keeps:
  assumes shape: "shape s" and p: "hm_get (ls_pending s) pane = Some p"
    and q: "maps_ok q" "\<not> pending_is_empty q"
      "\<And>k turn c'. hm_get (slot k q) turn = Some c' \<Longrightarrow> \<exists>c. hm_get (slot k p) turn = Some c
         \<and> (c' = c \<or> c' = c\<lparr>ca_visual_revision := visual_revision s pane\<rparr>)"
    and s': "s' = s\<lparr>ls_pending := hm_insert pane q (ls_pending s)\<rparr>"
  shows "keeps s s' \<and> shape s'"
proof -
  have "bucket s pane = p" using p by (simp add: bucket_def)
  then have "keeps s s'"
    using q(3) by (auto simp: s' keeps_def edge_insert) (auto simp: edge_def)
  then show ?thesis
    using shape_insert [OF shape q(1,2)] by (simp add: s')
qed

lemma defer_start_keeps:
  assumes shape: "shape s"
  shows "keeps s (snd (defer_start s pane c)) \<and> shape (snd (defer_start s pane c))"
proof (cases "\<exists>p e. hm_get (ls_pending s) pane = Some p \<and> hm_get (pe_starts p) (ca_turn c) = Some e
    \<and> same_candidate e c")
  case True
  then obtain p e where p: "hm_get (ls_pending s) pane = Some p"
      and e: "hm_get (pe_starts p) (ca_turn c) = Some e" "same_candidate e c"
    by blast
  let ?q = "p\<lparr>pe_starts := hm_insert (ca_turn c) (e\<lparr>ca_visual_revision := visual_revision s pane\<rparr>) (pe_starts p)\<rparr>"
  show ?thesis
  proof (rule defer_keeps [OF shape p, of ?q])
    show "maps_ok ?q" using shape_get [OF shape p] by (simp add: maps_ok_def)
    show "\<exists>d. hm_get (slot k p) turn = Some d \<and> (c' = d \<or> c' = d\<lparr>ca_visual_revision := visual_revision s pane\<rparr>)"
      if "hm_get (slot k ?q) turn = Some c'" for k turn c'
      using that e(1) by (cases k) (auto split: if_splits)
  qed (use p e in \<open>simp_all add: defer_start_def pending_is_empty_def\<close>)
next
  case False
  then have "snd (defer_start s pane c) = s"
    by (auto simp: defer_start_def split: option.splits)
  then show ?thesis using shape by (simp add: keeps_def)
qed

lemma defer_end_keeps:
  assumes shape: "shape s"
  shows "keeps s (snd (defer_end s pane c)) \<and> shape (snd (defer_end s pane c))"
proof (cases "\<exists>p e. hm_get (ls_pending s) pane = Some p \<and> hm_get (pe_ends p) (ca_turn c) = Some e
    \<and> same_candidate e c")
  case True
  then obtain p e where p: "hm_get (ls_pending s) pane = Some p"
      and e: "hm_get (pe_ends p) (ca_turn c) = Some e" "same_candidate e c"
    by blast
  let ?q = "p\<lparr>pe_ends := hm_insert (ca_turn c) (e\<lparr>ca_visual_revision := visual_revision s pane\<rparr>) (pe_ends p)\<rparr>"
  show ?thesis
  proof (rule defer_keeps [OF shape p, of ?q])
    show "maps_ok ?q" using shape_get [OF shape p] by (simp add: maps_ok_def)
    show "\<exists>d. hm_get (slot k p) turn = Some d \<and> (c' = d \<or> c' = d\<lparr>ca_visual_revision := visual_revision s pane\<rparr>)"
      if "hm_get (slot k ?q) turn = Some c'" for k turn c'
      using that e(1) by (cases k) (auto split: if_splits)
  qed (use p e in \<open>simp_all add: defer_end_def pending_is_empty_def\<close>)
next
  case False
  then have "snd (defer_end s pane c) = s"
    by (auto simp: defer_end_def split: option.splits)
  then show ?thesis using shape by (simp add: keeps_def)
qed

lemma revision_note_visual_change:
  "visual_revision (note_visual_change s pane) pane' =
     (if pane' = pane then min (visual_revision s pane + 1) u64_max else visual_revision s pane')"
  by (simp add: note_visual_change_def visual_revision_def saturating_add_u64_def)

lemma revision_forget_pane:
  "visual_revision (forget_pane s pane) pane' = (if pane' = pane then 0 else visual_revision s pane')"
  by (simp add: forget_pane_def visual_revision_def)

lemma edge_forget_pane:
  "edge (forget_pane s pane) pane' k turn = (if pane' = pane then None else edge s pane' k turn)"
  by (simp add: forget_pane_def edge_def bucket_def)

lemma edge_note_visual_change: "edge (note_visual_change s pane) = edge s"
  by (simp add: note_visual_change_def edge_def bucket_def fun_eq_iff)

lemma note_visual_change_keeps: "shape s \<Longrightarrow> keeps s (note_visual_change s pane) \<and> shape (note_visual_change s pane)"
  by (auto simp: keeps_def shape_def revision_note_visual_change edge_note_visual_change)
    (simp_all add: note_visual_change_def)

lemma forget_pane_keeps: "shape s \<Longrightarrow> keeps s (forget_pane s pane) \<and> shape (forget_pane s pane)"
  by (auto simp: keeps_def shape_def revision_forget_pane edge_forget_pane split: if_splits)
    (auto simp: forget_pane_def split: if_splits)

lemma keeps_refl: "keeps s s"
  by (simp add: keeps_def)

lemma drop_visual_end_simps [simp]:
  "pe_starts (drop_visual_end c p) = pe_starts p" "pe_ends (drop_visual_end c p) = pe_ends p"
  by (simp_all add: drop_visual_end_def)

lemma within_drop_ended:
  assumes "maps_ok p"
  shows "within (drop_visual_end c (p\<lparr>pe_ends := hm_remove turn (pe_ends p)\<rparr>)) p"
proof -
  let ?q = "p\<lparr>pe_ends := hm_remove turn (pe_ends p)\<rparr>"
  have "within ?q p" by (rule within_remove(2) [OF assms])
  moreover from this have "within (drop_visual_end c ?q) ?q"
    by (intro within_drop_visual_end) (simp add: within_def)
  ultimately show ?thesis using within_trans by blast
qed

lemma clear_store_keeps:
  assumes "shape s"
  shows "keeps s (clear_visual_end s pane agent manifest turn) \<and> shape (clear_visual_end s pane agent manifest turn)"
    and "keeps s (snd (clear_terminal_candidates s pane c)) \<and> shape (snd (clear_terminal_candidates s pane c))"
    and "keeps s (snd (take_start_for_turn s pane agent manifest turn))
      \<and> shape (snd (take_start_for_turn s pane agent manifest turn))"
    and "keeps s (snd (clear_start s pane c)) \<and> shape (snd (clear_start s pane c))"
    and "keeps s (clear_end s pane turn) \<and> shape (clear_end s pane turn)"
proof -
  note keep = keep_pending_within [OF assms] and ok = shape_get [OF assms]
  note rules = keeps_refl assms keep ok within_refl within_remove
  show "keeps s (clear_visual_end s pane agent manifest turn) \<and> shape (clear_visual_end s pane agent manifest turn)"
    unfolding clear_visual_end_def by (simp add: rules split: option.split)
  show "keeps s (snd (clear_terminal_candidates s pane c)) \<and> shape (snd (clear_terminal_candidates s pane c))"
    unfolding clear_terminal_candidates_def by (simp add: rules within_drop_ended split: option.split)
  show "keeps s (snd (take_start_for_turn s pane agent manifest turn))
      \<and> shape (snd (take_start_for_turn s pane agent manifest turn))"
    unfolding take_start_for_turn_def by (simp add: rules split: option.split)
  show "keeps s (snd (clear_start s pane c)) \<and> shape (snd (clear_start s pane c))"
    unfolding clear_start_def by (simp add: rules split: option.split)
  show "keeps s (clear_end s pane turn) \<and> shape (clear_end s pane turn)"
    unfolding clear_end_def by (simp add: rules split: option.split)
qed

text \<open>What a settlement takes out of the store.\<close>

definition consumes :: "lifecycle_store \<Rightarrow> lifecycle_store \<Rightarrow> pane_key \<Rightarrow> terminal_settlement \<Rightarrow> bool" where
  "consumes s s' pane st =
     (let turn = ca_turn (ts_end st) in
      (\<exists>e. edge s pane EndSlot turn = Some e \<and> same_candidate e (ts_end st))
      \<and> edge s' pane EndSlot turn = None
      \<and> ts_start st = (case edge s pane StartSlot turn of
          Some d \<Rightarrow> if bound_to (ca_agent (ts_end st)) (ca_manifest (ts_end st)) d then Some d else None
        | None \<Rightarrow> None)
      \<and> (ts_start st \<noteq> None \<longrightarrow> edge s' pane StartSlot turn = None))"

lemma settle_terminal_candidate_step:
  assumes shape: "shape s" and settle: "settle_terminal_candidate s pane c = (r, s')"
  shows "keeps s s' \<and> shape s' \<and> ls_next_generation s' = ls_next_generation s
    \<and> (case r of None \<Rightarrow> s' = s | Some st \<Rightarrow> ts_end st = c \<and> consumes s s' pane st)"
proof (cases r)
  case None
  then have "s' = s"
    using settle by (auto simp: settle_terminal_candidate_def Let_def split: option.splits if_splits)
  then show ?thesis using shape None by (simp add: keeps_refl)
next
  case (Some st)
  then obtain p e where p: "hm_get (ls_pending s) pane = Some p"
      and e: "hm_get (pe_ends p) (ca_turn c) = Some e" "same_candidate e c"
    using settle by (auto simp: settle_terminal_candidate_def is_some_and_iff Let_def
        split: option.splits if_splits)
  let ?p = "drop_visual_end c (p\<lparr>pe_ends := hm_remove (ca_turn c) (pe_ends p)\<rparr>)"
  let ?m = "is_some_and (hm_get (pe_starts p) (ca_turn c)) (bound_to (ca_agent c) (ca_manifest c))"
  let ?q = "if ?m then ?p\<lparr>pe_starts := hm_remove (ca_turn c) (pe_starts p)\<rparr> else ?p"
  have st: "st = \<lparr>ts_end = c, ts_start = (if ?m then hm_get (pe_starts p) (ca_turn c) else None)\<rparr>"
    and s': "s' = keep_pending pane ?q s"
    using settle Some p e by (auto simp: settle_terminal_candidate_def Let_def)
  have ok: "maps_ok p" using shape_get [OF shape p] .
  have p': "within ?p p" by (rule within_drop_ended [OF ok])
  then have "within (?p\<lparr>pe_starts := hm_remove (ca_turn c) (pe_starts ?p)\<rparr>) p"
    by (intro within_trans [OF within_remove(1) p']) (simp add: within_def)
  then have "within (?p\<lparr>pe_starts := hm_remove (ca_turn c) (pe_starts p)\<rparr>) p"
    by simp
  then have "within ?q p"
    using p' by simp
  then have "keeps s s' \<and> shape s'"
    unfolding s' by (rule keep_pending_within [OF shape p])
  moreover have "bucket s pane = p" using p by (simp add: bucket_def)
  then have "consumes s s' pane st"
    using e by (auto simp: consumes_def Let_def st s' edge_keep_pending)
      (auto simp: edge_def is_some_and_iff split: option.splits)
  ultimately show ?thesis by (simp add: Some st s')
qed

lemma generation_kept [simp]:
  "ls_next_generation (note_visual_change s pane) = ls_next_generation s"
  "ls_next_generation (clear_visual_end s pane agent manifest turn) = ls_next_generation s"
  "ls_next_generation (snd (clear_terminal_candidates s pane c)) = ls_next_generation s"
  "ls_next_generation (snd (take_start_for_turn s pane agent manifest turn)) = ls_next_generation s"
  "ls_next_generation (snd (clear_start s pane c)) = ls_next_generation s"
  "ls_next_generation (snd (defer_start s pane c)) = ls_next_generation s"
  "ls_next_generation (clear_end s pane turn) = ls_next_generation s"
  "ls_next_generation (snd (defer_end s pane c)) = ls_next_generation s"
  "ls_next_generation (forget_pane s pane) = ls_next_generation s"
  by (simp_all add: note_visual_change_def clear_visual_end_def clear_terminal_candidates_def
      take_start_for_turn_def clear_start_def defer_start_def clear_end_def defer_end_def
      forget_pane_def split: option.split)

lemma forget_if_keeps:
  assumes "shape s"
  shows "keeps s (snd (forget_if_binding_differs s pane agent manifest))
    \<and> shape (snd (forget_if_binding_differs s pane agent manifest))
    \<and> ls_next_generation (snd (forget_if_binding_differs s pane agent manifest)) = ls_next_generation s"
  using forget_pane_keeps [OF assms] assms
  by (simp add: forget_if_binding_differs_def Let_def keeps_refl)

lemma settle_next_step:
  assumes "shape s"
    and "settle_next_ready_terminal_with_evidence s pane agent manifest preferred observed_ms evidence_ms = (r, s')"
  shows "keeps s s' \<and> shape s' \<and> ls_next_generation s' = ls_next_generation s
    \<and> (case r of None \<Rightarrow> s' = s | Some st \<Rightarrow>
         next_ready_end s pane agent manifest preferred observed_ms evidence_ms = Some (ts_end st)
         \<and> consumes s s' pane st)"
proof (cases "next_ready_end s pane agent manifest preferred observed_ms evidence_ms")
  case None
  then show ?thesis
    using assms by (auto simp: settle_next_ready_terminal_with_evidence_def keeps_refl)
next
  case (Some c)
  then have "settle_terminal_candidate s pane c = (r, s')"
    using assms(2) by (simp add: settle_next_ready_terminal_with_evidence_def)
  from settle_terminal_candidate_step [OF assms(1) this] show ?thesis
    using Some by (auto split: option.splits)
qed

text \<open>One call: it keeps the edges, and settles at most one end, or it adds one edge.\<close>

lemma perform_step:
  assumes shape: "shape s" and perform: "perform call s = (r, s')"
  shows "shape s'
    \<and> (keeps s s' \<and> ls_next_generation s' \<in> {ls_next_generation s, next_generation s}
         \<and> (\<forall>st. r = Some st \<longrightarrow> (\<exists>pane. consumes s s' pane st))
       \<or> (\<exists>pane k c. adds s s' pane k c \<and> ls_next_generation s' = next_generation s \<and> r = None))"
proof (cases call)
  case (RecordStart pane agent manifest turn event edge_ms)
  then show ?thesis
    using perform record_start_adds [OF shape, of pane agent manifest turn event edge_ms] by auto
next
  case (RecordEnd pane agent manifest turn event edge_ms settle_ms)
  then show ?thesis
    using perform record_end_adds [OF shape, of pane agent manifest turn event edge_ms settle_ms]
    by (cases "record_end s pane agent manifest turn event edge_ms settle_ms") auto
next
  case (RecordVisualEnd pane agent manifest turn edge_ms settle_ms)
  obtain v s'' where v: "record_visual_end s pane agent manifest turn edge_ms settle_ms = (v, s'')"
    by force
  show ?thesis
    using perform RecordVisualEnd record_visual_end_step [OF shape v] v by (cases v) auto
next
  case (SettleTerminalCandidate pane c)
  then show ?thesis
    using perform settle_terminal_candidate_step [OF shape, of pane c r s'] by (cases r) auto
next
  case (SettleNextReady pane agent manifest preferred observed_ms evidence_ms)
  then show ?thesis
    using perform settle_next_step [OF shape, of pane agent manifest preferred observed_ms evidence_ms r s']
    by (cases r) auto
qed (use perform note_visual_change_keeps [OF shape] clear_store_keeps [OF shape] defer_start_keeps [OF shape]
    defer_end_keeps [OF shape] forget_pane_keeps [OF shape] forget_if_keeps [OF shape] in auto)

section \<open>Runs\<close>

lemma lifecycle_ok_new: "lifecycle_ok lifecycle_new"
  by (simp add: lifecycle_ok_def shape_def lifecycle_new_def edge_def bucket_def visual_revision_def)

lemma perform_ok:
  assumes "lifecycle_ok s"
  shows "lifecycle_ok (snd (perform call s))"
proof -
  obtain r s' where r: "perform call s = (r, s')" by force
  show ?thesis
    using perform_step [OF lifecycle_ok_shape [OF assms] r] keeps_ok [OF assms] adds_ok [OF assms] r
    by auto
qed

lemma run_calls_ok: "lifecycle_ok s \<Longrightarrow> lifecycle_ok (run_calls calls s)"
  by (induction calls arbitrary: s) (simp_all add: perform_ok)

text \<open>
  The accounting of generations: a live edge has a generation of its own that no settlement
  has consumed, and none is beyond the counter.
\<close>

definition spent :: "lifecycle_store \<Rightarrow> nat set \<Rightarrow> bool" where
  "spent s G = ((\<forall>g\<in>G. g \<le> ls_next_generation s)
     \<and> (\<forall>pane k turn c. edge s pane k turn = Some c \<longrightarrow>
          ca_generation c \<le> ls_next_generation s \<and> ca_generation c \<notin> G)
     \<and> (\<forall>pane k turn c pane' k' turn' c'.
          edge s pane k turn = Some c \<and> edge s pane' k' turn' = Some c'
          \<and> ca_generation c = ca_generation c' \<longrightarrow> pane = pane' \<and> k = k' \<and> turn = turn'))"

lemma spentD:
  assumes "spent s G"
  shows "g \<in> G \<Longrightarrow> g \<le> ls_next_generation s"
    and "edge s pane k turn = Some c \<Longrightarrow> ca_generation c \<le> ls_next_generation s"
    and "edge s pane k turn = Some c \<Longrightarrow> ca_generation c \<notin> G"
  using assms unfolding spent_def by metis+

lemma spent_unique:
  assumes "spent s G" and "edge s pane k turn = Some c" and "edge s pane' k' turn' = Some c'"
    and "ca_generation c = ca_generation c'"
  shows "pane = pane' \<and> k = k' \<and> turn = turn'"
  using assms unfolding spent_def by metis

lemma keeps_spent:
  assumes sp: "spent s G" and keeps: "keeps s s'" and gen: "ls_next_generation s \<le> ls_next_generation s'"
    and gone: "\<And>pane k turn c. edge s' pane k turn = Some c \<Longrightarrow> ca_generation c \<notin> H"
    and bound: "\<And>g. g \<in> H \<Longrightarrow> g \<le> ls_next_generation s'"
  shows "spent s' (G \<union> H)"
  unfolding spent_def
proof (intro conjI ballI allI impI)
  fix g assume "g \<in> G \<union> H"
  then show "g \<le> ls_next_generation s'"
    using spentD(1) [OF sp] gen bound by fastforce
next
  fix pane k turn c assume c: "edge s' pane k turn = Some c"
  obtain d where d: "edge s pane k turn = Some d" "ca_generation d = ca_generation c"
    using keeps_generation [OF keeps c] by auto
  show "ca_generation c \<le> ls_next_generation s'"
    using spentD(2) [OF sp d(1)] d(2) gen by simp
  show "ca_generation c \<notin> G \<union> H"
    using spentD(3) [OF sp d(1)] d(2) gone [OF c] by simp
next
  fix pane k turn c pane' k' turn' c'
  assume both: "edge s' pane k turn = Some c \<and> edge s' pane' k' turn' = Some c'
    \<and> ca_generation c = ca_generation c'"
  obtain d where d: "edge s pane k turn = Some d" "ca_generation d = ca_generation c"
    using keeps_generation [OF keeps, of pane k turn c] both by auto
  obtain d' where d': "edge s pane' k' turn' = Some d'" "ca_generation d' = ca_generation c'"
    using keeps_generation [OF keeps, of pane' k' turn' c'] both by auto
  show "pane = pane'" "k = k'" "turn = turn'"
    using spent_unique [OF sp d(1) d'(1)] d(2) d'(2) both by auto
qed

lemma adds_spent:
  assumes sp: "spent s G" and adds: "adds s s' pane k c"
    and gen: "ls_next_generation s' = Suc (ls_next_generation s)"
  shows "spent s' G"
proof -
  have cgen: "ca_generation c = Suc (ls_next_generation s)"
    using adds gen unfolding adds_def by simp
  have old: "pane' = pane \<and> k' = k \<and> turn' = ca_turn c \<and> c' = c
      \<or> edge s pane' k' turn' = Some c' \<and> ca_generation c' \<le> ls_next_generation s \<and> ca_generation c' \<notin> G"
    if "edge s' pane' k' turn' = Some c'" for pane' k' turn' c'
    using adds that spentD(2,3) [OF sp] unfolding adds_def by metis
  show ?thesis
    unfolding spent_def
  proof (intro conjI ballI allI impI)
    fix g assume "g \<in> G"
    then show "g \<le> ls_next_generation s'" using spentD(1) [OF sp] gen by fastforce
  next
    fix pane' k' turn' c' assume c': "edge s' pane' k' turn' = Some c'"
    show "ca_generation c' \<le> ls_next_generation s'"
      using old [OF c'] cgen gen by auto
    have "Suc (ls_next_generation s) \<notin> G" using spentD(1) [OF sp] by fastforce
    then show "ca_generation c' \<notin> G" using old [OF c'] cgen by auto
  next
    fix pane1 k1 turn1 c1 pane2 k2 turn2 c2
    assume both: "edge s' pane1 k1 turn1 = Some c1 \<and> edge s' pane2 k2 turn2 = Some c2
      \<and> ca_generation c1 = ca_generation c2"
    have "pane1 = pane2 \<and> k1 = k2 \<and> turn1 = turn2"
      using old [of pane1 k1 turn1 c1] old [of pane2 k2 turn2 c2] both cgen
        spent_unique [OF sp, of pane1 k1 turn1 c1 pane2 k2 turn2 c2]
      by auto
    then show "pane1 = pane2" "k1 = k2" "turn1 = turn2" by simp_all
  qed
qed

text \<open>Below its wrap-around the counter only grows, so no generation is settled twice.\<close>

lemma next_generation_below: "ls_next_generation s < u64_max \<Longrightarrow> next_generation s = Suc (ls_next_generation s)"
  by (simp add: next_generation_def u64_max_def)

lemma consumes_generations:
  assumes sp: "spent s G" and keeps: "keeps s s'" and con: "consumes s s' pane st"
  shows "distinct (settled_generations st)"
    and "set (settled_generations st) \<inter> G = {}"
    and "\<forall>g\<in>set (settled_generations st). g \<le> ls_next_generation s"
    and "\<And>pane' k turn c. edge s' pane' k turn = Some c \<Longrightarrow> ca_generation c \<notin> set (settled_generations st)"
proof -
  let ?t = "ca_turn (ts_end st)"
  obtain e where e: "edge s pane EndSlot ?t = Some e" "ca_generation e = ca_generation (ts_end st)"
    and gone: "edge s' pane EndSlot ?t = None"
    and start: "\<And>d. ts_start st = Some d \<Longrightarrow> edge s pane StartSlot ?t = Some d \<and> edge s' pane StartSlot ?t = None"
    using con by (auto simp: consumes_def Let_def same_candidate_def split: option.splits if_splits)
  show "distinct (settled_generations st)"
    using spent_unique [OF sp e(1), of pane StartSlot ?t] start e(2)
    by (cases "ts_start st") (auto simp: settled_generations_def)
  show "set (settled_generations st) \<inter> G = {}"
    using spentD(3) [OF sp e(1)] spentD(3) [OF sp, of pane StartSlot ?t] start e(2)
    by (cases "ts_start st") (auto simp: settled_generations_def)
  show "\<forall>g\<in>set (settled_generations st). g \<le> ls_next_generation s"
    using spentD(2) [OF sp e(1)] spentD(2) [OF sp, of pane StartSlot ?t] start e(2)
    by (cases "ts_start st") (auto simp: settled_generations_def)
  fix pane' k turn c assume c: "edge s' pane' k turn = Some c"
  obtain d where d: "edge s pane' k turn = Some d" "ca_generation d = ca_generation c"
    using keeps_generation [OF keeps c] by auto
  show "ca_generation c \<notin> set (settled_generations st)"
  proof
    assume "ca_generation c \<in> set (settled_generations st)"
    then consider "ca_generation d = ca_generation e"
      | b where "ts_start st = Some b" "ca_generation d = ca_generation b"
      using e(2) d(2) by (cases "ts_start st") (auto simp: settled_generations_def)
    then show False
    proof cases
      case 1
      then show ?thesis using spent_unique [OF sp d(1) e(1)] gone c by auto
    next
      case (2 b)
      then show ?thesis using spent_unique [OF sp d(1), of pane StartSlot ?t b] start [of b] c by auto
    qed
  qed
qed

lemma perform_spent:
  assumes sp: "spent s G" and shape: "shape s" and below: "ls_next_generation s < u64_max"
    and perform: "perform call s = (r, s')"
  shows "spent s' (G \<union> (case r of None \<Rightarrow> {} | Some st \<Rightarrow> set (settled_generations st)))
    \<and> ls_next_generation s' \<le> Suc (ls_next_generation s)
    \<and> (\<forall>st. r = Some st \<longrightarrow> distinct (settled_generations st) \<and> set (settled_generations st) \<inter> G = {})"
proof -
  note nextg = next_generation_below [OF below]
  from perform_step [OF shape perform] consider
      "keeps s s'" "ls_next_generation s \<le> ls_next_generation s'" "ls_next_generation s' \<le> Suc (ls_next_generation s)"
      "\<forall>st. r = Some st \<longrightarrow> (\<exists>pane. consumes s s' pane st)"
    | pane k c where "adds s s' pane k c" "ls_next_generation s' = Suc (ls_next_generation s)" "r = None"
    using nextg by auto
  then show ?thesis
  proof cases
    case 1
    show ?thesis
    proof (cases r)
      case None
      then show ?thesis using keeps_spent [OF sp 1(1,2), of "{}"] 1(3) by simp
    next
      case (Some st)
      then obtain pane where con: "consumes s s' pane st" using 1(4) by auto
      note gens = consumes_generations [OF sp 1(1) con]
      have "spent s' (G \<union> set (settled_generations st))"
        by (rule keeps_spent [OF sp 1(1,2)]) (use gens(3,4) 1(2) in force)+
      then show ?thesis using Some gens(1,2) 1(3) by simp
    qed
  next
    case 2
    then show ?thesis using adds_spent [OF sp 2(1,2)] by simp
  qed
qed

lemma settlements_distinct:
  assumes "spent s G" and "lifecycle_ok s" and "ls_next_generation s + length calls \<le> u64_max"
  shows "distinct (concat (map settled_generations (settlements calls s)))
    \<and> set (concat (map settled_generations (settlements calls s))) \<inter> G = {}"
  using assms
proof (induction calls arbitrary: s G)
  case (Cons call calls)
  obtain r s' where r: "perform call s = (r, s')" by force
  let ?H = "case r of None \<Rightarrow> {} | Some st \<Rightarrow> set (settled_generations st)"
  have below: "ls_next_generation s < u64_max" using Cons.prems(3) by simp
  note spent = perform_spent [OF Cons.prems(1) lifecycle_ok_shape [OF Cons.prems(2)] below r]
  have "distinct (concat (map settled_generations (settlements calls s')))
    \<and> set (concat (map settled_generations (settlements calls s'))) \<inter> (G \<union> ?H) = {}"
    by (rule Cons.IH) (use spent perform_ok [OF Cons.prems(2), of call] r Cons.prems(3) in auto)
  then show ?case
    using spent by (cases r) (auto simp: r)
qed simp

lemma spent_new: "spent lifecycle_new {}"
  by (simp add: spent_def lifecycle_new_def edge_def bucket_def)

end
