(* ===== verification/Lifecycle_Choice.thy ===== *)
theory Lifecycle_Choice
  imports Lifecycle_Run
begin

text \<open>
  How the candidate store chooses: its selections as functions of the edges alone, the order
  that makes a choice unique, what the next ready end is and what settling it takes.
\<close>

section \<open>The choices read the store through its edges\<close>

lemma bucket_None: "hm_get (ls_pending s) pane = None \<Longrightarrow> bucket s pane = pending_default"
  by (simp add: bucket_def)

lemma bucket_Some: "hm_get (ls_pending s) pane = Some p \<Longrightarrow> bucket s pane = p"
  by (simp add: bucket_def)

lemma default_values [simp]:
  "pe_starts pending_default = []" "pe_ends pending_default = []" "pe_visual_ends pending_default = []"
  by (simp_all add: pending_default_def)

lemma hm_values_Nil [simp]: "hm_values [] = []"
  by (simp add: hm_values_def)

lemma terminal_edges_default [simp]: "terminal_edges pending_default = []"
  by (simp add: terminal_edges_def)

lemma next_terminal_recheck_bucket:
  "next_terminal_recheck_excluding s pane attempted =
     min_by_key recheck_order
       (filter (\<lambda>(kind, e). \<not> hs_contains attempted (kind, ca_generation e)) (terminal_edges (bucket s pane)))"
  by (cases "hm_get (ls_pending s) pane")
    (simp_all add: next_terminal_recheck_excluding_def bucket_None bucket_Some)

lemma end_for_bucket:
  "end_for s pane agent manifest preferred =
     (case preferred of
        Some turn \<Rightarrow>
          (case edge s pane EndSlot turn of
             None \<Rightarrow> None
           | Some c \<Rightarrow> if observed_edge s pane agent manifest c then Some c else None)
      | None \<Rightarrow> min_by_key end_order
          (filter (observed_edge s pane agent manifest) (hm_values (slot EndSlot (bucket s pane)))))"
  by (cases "hm_get (ls_pending s) pane")
    (simp_all add: end_for_def edge_def bucket_None bucket_Some split: option.split)

lemma next_ready_end_bucket:
  "next_ready_end s pane agent manifest preferred observed_ms evidence_ms =
     (let eligible = eligible_end s pane agent manifest observed_ms evidence_ms;
          oldest = min_by_key end_order (filter eligible (hm_values (slot EndSlot (bucket s pane))))
      in case Option.bind preferred (edge s pane EndSlot) of
           Some c \<Rightarrow> if eligible c then Some c else oldest
         | None \<Rightarrow> oldest)"
proof -
  have "edge s pane EndSlot = hm_get (slot EndSlot (bucket s pane))"
    by (simp add: edge_def fun_eq_iff)
  then show ?thesis
    by (cases "hm_get (ls_pending s) pane"; cases preferred)
      (simp_all add: next_ready_end_def Let_def bucket_None bucket_Some)
qed

lemma start_for_bucket:
  "start_for s pane agent manifest =
     (case filter (observed_edge s pane agent manifest) (hm_values (slot StartSlot (bucket s pane))) of
        [c] \<Rightarrow> Some c
      | _ \<Rightarrow> None)"
  by (cases "hm_get (ls_pending s) pane") (simp_all add: start_for_def bucket_None bucket_Some)

text \<open>In a well-formed store a candidate's turn and kind name it.\<close>

lemma end_order_inj:
  assumes "lifecycle_ok s"
  shows "inj_on end_order (set (hm_values (slot k (bucket s pane))))"
proof (rule inj_onI)
  fix c d assume "c \<in> set (hm_values (slot k (bucket s pane)))" "d \<in> set (hm_values (slot k (bucket s pane)))"
    and eq: "end_order c = end_order d"
  then obtain t u where t: "edge s pane k t = Some c" and u: "edge s pane k u = Some d"
    using bucket_values [OF lifecycle_ok_shape [OF assms]] by auto
  then have "t = u"
    using eq lifecycle_okD(1) [OF assms t] lifecycle_okD(1) [OF assms u]
    by (simp add: end_order_def dedupe_key_inject)
  then show "c = d" using t u by simp
qed

lemma recheck_order_inj:
  assumes "lifecycle_ok s"
  shows "inj_on recheck_order (set (terminal_edges (bucket s pane)))"
proof (rule inj_onI)
  note inE = bucket_values [OF lifecycle_ok_shape [OF assms], of _ EndSlot pane, simplified]
  note inV = bucket_values [OF lifecycle_ok_shape [OF assms], of _ VisualSlot pane, simplified]
  fix x y assume x: "x \<in> set (terminal_edges (bucket s pane))" and y: "y \<in> set (terminal_edges (bucket s pane))"
    and eq: "recheck_order x = recheck_order y"
  obtain kx c ky d where xy: "x = (kx, c)" "y = (ky, d)" by force
  define sl where "sl = (case kx of TerminalEnd \<Rightarrow> EndSlot | VisualEnd \<Rightarrow> VisualSlot)"
  have k: "kx = ky" and turn: "ca_turn c = ca_turn d"
    using eq by (simp_all add: xy recheck_order_def dedupe_key_inject)
  obtain t u where t: "edge s pane sl t = Some c" and u: "edge s pane sl u = Some d"
    using x y k by (cases kx) (auto simp: xy sl_def terminal_edges_def inE inV)
  have "t = u"
    using turn lifecycle_okD(1) [OF assms t] lifecycle_okD(1) [OF assms u] by simp
  then show "x = y" using t u k xy by simp
qed

lemma slot_values_distinct:
  assumes "lifecycle_ok s"
  shows "distinct (hm_values (slot k (bucket s pane)))"
proof -
  let ?m = "slot k (bucket s pane)"
  have ok: "hm_ok ?m" by (simp add: maps_ok_slot shape_bucket lifecycle_ok_shape assms)
  have "ca_turn c = t" if "(t, c) \<in> set ?m" for t c
    using lifecycle_okD(1) [OF assms, of pane k t c] hm_get_iff [OF ok] that by (simp add: edge_def)
  then have "map ca_turn (hm_values ?m) = map fst ?m"
    by (auto simp: hm_values_def)
  then have "distinct (map ca_turn (hm_values ?m))"
    using ok by (simp add: hm_ok_def)
  then show ?thesis by (simp add: distinct_map)
qed

text \<open>Two stores with the same edges and revisions, whatever the order of their maps.\<close>

definition same_entries :: "lifecycle_store \<Rightarrow> lifecycle_store \<Rightarrow> bool" where
  "same_entries s s' = ((\<forall>pane k turn. edge s pane k turn = edge s' pane k turn)
     \<and> (\<forall>pane. visual_revision s pane = visual_revision s' pane))"

lemma same_entries_values:
  assumes "same_entries s s'" and "shape s" and "shape s'"
  shows "set (hm_values (slot k (bucket s pane))) = set (hm_values (slot k (bucket s' pane)))"
  using assms bucket_values [OF assms(2)] bucket_values [OF assms(3)]
  by (auto simp: same_entries_def)

lemma same_entries_ok:
  assumes "same_entries s s'" and "lifecycle_ok s" and "shape s'"
  shows "lifecycle_ok s'"
proof (rule keeps_ok [OF assms(2) _ assms(3)])
  show "keeps s s'" using assms(1) by (simp add: keeps_def same_entries_def)
qed

section \<open>Settling takes exactly one turn\<close>

lemma settle_exact:
  assumes ok: "lifecycle_ok s" and c: "edge s pane EndSlot (ca_turn c) = Some c"
  shows "\<exists>s'. settle_terminal_candidate s pane c =
      (Some \<lparr>ts_end = c, ts_start = edge s pane StartSlot (ca_turn c)\<rparr>, s')
    \<and> (\<forall>pane' k turn. edge s' pane' k turn =
         (if pane' = pane \<and> turn = ca_turn c then None else edge s pane' k turn))
    \<and> (\<forall>pane'. visual_revision s' pane' = visual_revision s pane')"
proof -
  obtain p where p: "hm_get (ls_pending s) pane = Some p"
    using c by (cases "hm_get (ls_pending s) pane") (auto simp: edge_def bucket_None)
  let ?t = "ca_turn c"
  have slot: "edge s pane k turn = hm_get (slot k p) turn" for k turn
    by (simp add: edge_def bucket_Some [OF p])
  have same: "is_some_and (edge s pane k ?t) (bound_to (ca_agent c) (ca_manifest c)) = (edge s pane k ?t \<noteq> None)" for k
    using lifecycle_ok_binding [OF ok _ c, of k ?t] by (auto simp: is_some_and_iff bound_to_def)
  define p1 where "p1 = drop_visual_end c (p\<lparr>pe_ends := hm_remove ?t (pe_ends p)\<rparr>)"
  define q where "q = (if edge s pane StartSlot ?t \<noteq> None
    then p1\<lparr>pe_starts := hm_remove ?t (pe_starts p)\<rparr> else p1)"
  have start: "hm_get (pe_starts p) = edge s pane StartSlot" "hm_get (pe_ends p) = edge s pane EndSlot"
      "hm_get (pe_visual_ends p) = edge s pane VisualSlot"
    by (simp_all add: fun_eq_iff slot)
  have settle: "settle_terminal_candidate s pane c =
      (Some \<lparr>ts_end = c, ts_start = edge s pane StartSlot ?t\<rparr>, keep_pending pane q s)"
    using same [of StartSlot]
    by (auto simp: settle_terminal_candidate_def p start c same_candidate_def Let_def q_def p1_def)
  have "hm_get (slot k q) turn = (if turn = ?t then None else edge s pane k turn)" for k turn
    using same [of VisualSlot]
    by (cases k) (auto simp: q_def p1_def drop_visual_end_def start)
  then have "edge (keep_pending pane q s) pane' k turn =
      (if pane' = pane \<and> turn = ?t then None else edge s pane' k turn)" for pane' k turn
    by (simp add: edge_keep_pending)
  then show ?thesis
    using settle by auto
qed

text \<open>What the next ready end is.\<close>

lemma next_ready_end_cases:
  assumes ok: "lifecycle_ok s"
  shows "case next_ready_end s pane agent manifest preferred observed_ms evidence_ms of
      None \<Rightarrow> \<forall>turn c. edge s pane EndSlot turn = Some c \<longrightarrow>
        \<not> eligible_end s pane agent manifest observed_ms evidence_ms c
    | Some c \<Rightarrow> edge s pane EndSlot (ca_turn c) = Some c
        \<and> eligible_end s pane agent manifest observed_ms evidence_ms c
        \<and> (preferred = Some (ca_turn c)
           \<or> (\<forall>d. edge s pane EndSlot (ca_turn d) = Some d
                \<and> eligible_end s pane agent manifest observed_ms evidence_ms d \<longrightarrow>
                preferred \<noteq> Some (ca_turn d) \<and> ca_edge_ms c \<le> ca_edge_ms d))"
proof -
  let ?el = "eligible_end s pane agent manifest observed_ms evidence_ms"
  let ?xs = "filter ?el (hm_values (slot EndSlot (bucket s pane)))"
  have xs: "c \<in> set ?xs \<longleftrightarrow> edge s pane EndSlot (ca_turn c) = Some c \<and> ?el c" for c
    using bucket_values [OF lifecycle_ok_shape [OF ok], of c EndSlot pane] lifecycle_okD(1) [OF ok]
    by auto
  show ?thesis
  proof (cases "\<exists>turn c. preferred = Some turn \<and> edge s pane EndSlot turn = Some c \<and> ?el c")
    case True
    then obtain turn c where c: "preferred = Some turn" "edge s pane EndSlot turn = Some c" "?el c"
      by blast
    then show ?thesis
      using lifecycle_okD(1) [OF ok c(2)] by (simp add: next_ready_end_bucket Let_def)
  next
    case False
    then have eq: "next_ready_end s pane agent manifest preferred observed_ms evidence_ms = min_by_key end_order ?xs"
      by (auto simp: next_ready_end_bucket Let_def split: option.split) (cases preferred; auto)+
    show ?thesis
    proof (cases "min_by_key end_order ?xs")
      case None
      then have "set ?xs = {}" by (simp add: min_by_key_None)
      then show ?thesis
        using eq None xs lifecycle_okD(1) [OF ok, of pane EndSlot] by fastforce
    next
      case (Some c)
      have "ca_edge_ms c \<le> ca_edge_ms d" if "d \<in> set ?xs" for d
        using min_by_key_least [OF Some] that by (auto simp: end_order_def less_eq_prod_def)
      then show ?thesis
        using eq Some xs min_by_key_least [OF Some] False by auto
    qed
  qed
qed

end
