(* ===== verification/Lifecycle_Properties.thy ===== *)
theory Lifecycle_Properties
  imports Lifecycle_Choice
begin

text \<open>
  The properties of turn keys and of the candidate store: keys and correlations, one binding
  per pane, evidence before settlement, settlement once, and choices that do not depend on
  the iteration order of a hash map.
\<close>

section \<open>Sample values\<close>

definition sample_pane :: pane_key where
  "sample_pane = \<lparr>pk_session_idx = 0, pk_pane_id = ''%1''\<rparr>"

definition sample_agent :: proc_id where
  "sample_agent = \<lparr>pr_pid = 41, pr_birth = 7\<rparr>"

definition sample_turn :: "string \<Rightarrow> turn_key" where
  "sample_turn t = TurnKey [KeyText ''s'', KeyText t]"

text \<open>Two turns start and stop in one pane; a screen observation follows.\<close>

definition sample_calls :: "lifecycle_call list" where
  "sample_calls =
     [RecordStart sample_pane sample_agent ''claude'' (sample_turn ''a'') ''Start'' 10,
      RecordEnd sample_pane sample_agent ''claude'' (sample_turn ''a'') ''Stop'' 20 5,
      RecordEnd sample_pane sample_agent ''claude'' (sample_turn ''b'') ''Stop'' 22 5,
      NoteVisualChange sample_pane]"

text \<open>The same contents with the two ends iterated in the other order.\<close>

definition sample_reordered :: lifecycle_store where
  "sample_reordered =
     (let s = run_calls sample_calls lifecycle_new
      in s\<lparr>ls_pending := map (\<lambda>(pane, p). (pane, p\<lparr>pe_ends := rev (pe_ends p)\<rparr>)) (ls_pending s)\<rparr>)"

definition sample_edge :: "nat \<Rightarrow> string \<Rightarrow> string \<Rightarrow> nat \<Rightarrow> nat \<Rightarrow> candidate" where
  "sample_edge generation t event edge_ms ready_at_ms =
     \<lparr>ca_generation = generation, ca_agent = sample_agent, ca_manifest = ''claude'', ca_turn = sample_turn t,
      ca_event = event, ca_edge_ms = edge_ms, ca_ready_at_ms = ready_at_ms, ca_visual_revision = 0\<rparr>"

text \<open>The store after the sample calls.\<close>

lemma sample_store:
  "run_calls sample_calls lifecycle_new =
     \<lparr>ls_pending = [(sample_pane,
         \<lparr>pe_starts = [(sample_turn ''a'', sample_edge 1 ''a'' ''Start'' 10 10)],
          pe_ends = [(sample_turn ''a'', sample_edge 2 ''a'' ''Stop'' 20 25),
                     (sample_turn ''b'', sample_edge 3 ''b'' ''Stop'' 22 27)],
          pe_visual_ends = []\<rparr>)],
      ls_visual_revisions = [(sample_pane, 1)], ls_next_generation = 3\<rparr>"
  by (simp add: sample_calls_def lifecycle_new_def record_start_def record_end_def note_visual_change_def
      allocate_generation_def visual_revision_def bucket_for_def binding_differs_def pending_edges_def
      pending_default_def hm_values_def hm_get_def hm_insert_def hm_remove_def saturating_add_u64_def
      u64_max_def sample_edge_def sample_turn_def Let_def)

lemma sample_lifecycle_ok: "lifecycle_ok (run_calls sample_calls lifecycle_new)"
  by (rule run_calls_ok [OF lifecycle_ok_new])

section \<open>Turn keys\<close>

text \<open>Two dedupe keys are equal only when they were built from the same turn and the same
event: no value that contains a colon, digits or another part's text can forge a key.\<close>

theorem dedupe_key_exact:
  "dedupe_key k event = dedupe_key k' event' \<longleftrightarrow> k = k' \<and> event = event'"
  by (rule dedupe_key_inject)

text \<open>C33. A correlation is exact when the manifest declares fields and every one of them carries
a string that is not blank, and then the key has those strings in declared order; a manifest
without fields is the only thing that selects the screen lifecycle, so a malformed payload is
refused and never downgraded.\<close>

theorem correlate_declared_fields:
  "(correlate fs payload = Exact (TurnKey parts) \<longleftrightarrow>
      fs \<noteq> [] \<and> list_all2 (\<lambda>name part. names_turn payload name (key_text part)) fs parts)
   \<and> (correlate fs payload = Unconfigured \<longleftrightarrow> fs = [])
   \<and> ((\<exists>why. correlate fs payload = InvalidTurn why) \<longleftrightarrow>
        (\<exists>name\<in>set fs. \<nexists>s. names_turn payload name s))"
proof (intro conjI)
  have "(\<exists>why. correlate fs payload = InvalidTurn why) \<longleftrightarrow>
      fs \<noteq> [] \<and> (\<nexists>parts. try_map (field_part payload) fs = Inr parts)"
    by (cases "try_map (field_part payload) fs") (auto simp: correlate_def)
  also have "\<dots> \<longleftrightarrow> (\<exists>name\<in>set fs. \<nexists>s. names_turn payload name s)"
    by (rule try_map_fails)
  finally show "(\<exists>why. correlate fs payload = InvalidTurn why) \<longleftrightarrow>
      (\<exists>name\<in>set fs. \<nexists>s. names_turn payload name s)" .
qed (rule correlate_Exact correlate_Unconfigured)+

lemma blank_samples: "is_blank '' ''" "\<not> is_blank ''t1''"
  by code_simp+

theorem correlate_declared_fields_witness:
  "correlate [''turn_id''] (JObject [(''turn_id'', JString ''t1'')]) = Exact (TurnKey [KeyText ''t1''])
   \<and> (\<exists>why. correlate [''turn_id''] (JObject [(''turn_id'', JString '' '')]) = InvalidTurn why)"
  using correlate_declared_fields [of "[''turn_id'']" "JObject [(''turn_id'', JString ''t1'')]" "[KeyText ''t1'']"]
    correlate_declared_fields [of "[''turn_id'']" "JObject [(''turn_id'', JString '' '')]" "[]"]
    blank_samples
  by (auto simp: names_turn_def json_get_def)

section \<open>The candidate store\<close>

text \<open>However hooks, observations, settlements and retirements interleave, the edges that a
pane holds all come from one process and one manifest, each is stored under its own turn and
was recorded at or before the pane's current observation, and no pane keeps an empty bucket.\<close>

theorem pane_holds_one_binding:
  "let s = run_calls calls lifecycle_new in
     (\<forall>pane k turn c. edge s pane k turn = Some c \<longrightarrow>
        ca_turn c = turn \<and> ca_visual_revision c \<le> visual_revision s pane)
     \<and> (\<forall>pane k turn c k' turn' c'.
          edge s pane k turn = Some c \<and> edge s pane k' turn' = Some c' \<longrightarrow>
          ca_agent c = ca_agent c' \<and> ca_manifest c = ca_manifest c')
     \<and> (\<forall>pane p. hm_get (ls_pending s) pane = Some p \<longrightarrow> \<not> pending_is_empty p)"
  using run_calls_ok [OF lifecycle_ok_new, of calls]
  unfolding Let_def lifecycle_ok_def shape_def by blast

theorem pane_holds_one_binding_witness:
  "edge (run_calls sample_calls lifecycle_new) sample_pane EndSlot (sample_turn ''b'')
     = Some (sample_edge 3 ''b'' ''Stop'' 22 27)
   \<and> ca_turn (sample_edge 3 ''b'' ''Stop'' 22 27) = sample_turn ''b''"
proof -
  have "edge (run_calls sample_calls lifecycle_new) sample_pane EndSlot (sample_turn ''b'')
     = Some (sample_edge 3 ''b'' ''Stop'' 22 27)"
    unfolding sample_store by code_simp
  then show ?thesis
    using pane_holds_one_binding [of sample_calls] unfolding Let_def by blast
qed

text \<open>C32. Within the first \<open>2 ^ 64 - 1\<close> calls, the counter's range, no start and no end is
settled twice: the generations that settlements hand out are all different, whatever stale
candidates callers present.\<close>

theorem edges_settled_once:
  assumes "length calls \<le> u64_max"
  shows "distinct (concat (map settled_generations (settlements calls lifecycle_new)))"
  using settlements_distinct [OF spent_new lifecycle_ok_new, of calls] assms
  by (simp add: lifecycle_new_def)

theorem edges_settled_once_witness:
  "let calls = sample_calls
       @ [SettleNextReady sample_pane sample_agent ''claude'' (Some (sample_turn ''b'')) 30 30,
          SettleNextReady sample_pane sample_agent ''claude'' (Some (sample_turn ''b'')) 30 30,
          SettleTerminalCandidate sample_pane (sample_edge 3 ''b'' ''Stop'' 22 27)]
   in concat (map settled_generations (settlements calls lifecycle_new)) = [3, 2, 1]
      \<and> distinct (concat (map settled_generations (settlements calls lifecycle_new)))"
proof -
  let ?more = "[SettleNextReady sample_pane sample_agent ''claude'' (Some (sample_turn ''b'')) 30 30,
    SettleNextReady sample_pane sample_agent ''claude'' (Some (sample_turn ''b'')) 30 30,
    SettleTerminalCandidate sample_pane (sample_edge 3 ''b'' ''Stop'' 22 27)]"
  have "settlements sample_calls lifecycle_new = []"
    by (simp add: sample_calls_def)
  moreover have "concat (map settled_generations (settlements ?more (run_calls sample_calls lifecycle_new))) = [3, 2, 1]"
    unfolding sample_store by code_simp
  ultimately have "concat (map settled_generations (settlements (sample_calls @ ?more) lifecycle_new)) = [3, 2, 1]"
    by (simp add: settlements_append)
  then show ?thesis
    unfolding Let_def
    by (intro conjI edges_settled_once) (simp_all add: sample_calls_def u64_max_def)
qed

text \<open>C13. A stop is settled only by evidence that is later than it: it belongs to the asking
process and manifest, a screen observation was completed after it was recorded, its edge time
is before the evidence and its settle time has passed. The preferred turn is taken when it
qualifies and the oldest one otherwise; the settlement carries the pending start of the same
turn, and nothing but that turn leaves the store. Nothing is settled only when nothing
qualifies.\<close>

theorem settlement_needs_later_evidence:
  assumes "lifecycle_ok s"
    and "settle_next_ready_terminal_with_evidence s pane agent manifest preferred observed_ms evidence_ms = (r, s')"
  shows "case r of
      None \<Rightarrow> s' = s \<and> (\<forall>turn c. edge s pane EndSlot turn = Some c \<longrightarrow>
        \<not> (ca_agent c = agent \<and> ca_manifest c = manifest \<and> ca_visual_revision c < visual_revision s pane
           \<and> ca_edge_ms c < evidence_ms \<and> ca_ready_at_ms c \<le> observed_ms))
    | Some st \<Rightarrow>
        let c = ts_end st in
        edge s pane EndSlot (ca_turn c) = Some c
        \<and> ca_agent c = agent \<and> ca_manifest c = manifest \<and> ca_visual_revision c < visual_revision s pane
        \<and> ca_edge_ms c < evidence_ms \<and> ca_ready_at_ms c \<le> observed_ms
        \<and> (preferred = Some (ca_turn c)
           \<or> (\<forall>d. edge s pane EndSlot (ca_turn d) = Some d
                \<and> eligible_end s pane agent manifest observed_ms evidence_ms d \<longrightarrow>
                preferred \<noteq> Some (ca_turn d) \<and> ca_edge_ms c \<le> ca_edge_ms d))
        \<and> ts_start st = edge s pane StartSlot (ca_turn c)
        \<and> (\<forall>pane' k turn. edge s' pane' k turn =
             (if pane' = pane \<and> turn = ca_turn c then None else edge s pane' k turn))"
proof (cases "next_ready_end s pane agent manifest preferred observed_ms evidence_ms")
  case None
  then show ?thesis
    using next_ready_end_cases [OF assms(1), where pane = pane and agent = agent and manifest = manifest
      and preferred = preferred and observed_ms = observed_ms and evidence_ms = evidence_ms] assms(2)
    by (auto simp: settle_next_ready_terminal_with_evidence_def eligible_end_def)
next
  case (Some c)
  then have c: "edge s pane EndSlot (ca_turn c) = Some c"
    "eligible_end s pane agent manifest observed_ms evidence_ms c"
    "preferred = Some (ca_turn c)
       \<or> (\<forall>d. edge s pane EndSlot (ca_turn d) = Some d
            \<and> eligible_end s pane agent manifest observed_ms evidence_ms d \<longrightarrow>
            preferred \<noteq> Some (ca_turn d) \<and> ca_edge_ms c \<le> ca_edge_ms d)"
    using next_ready_end_cases [OF assms(1), where pane = pane and agent = agent and manifest = manifest
      and preferred = preferred and observed_ms = observed_ms and evidence_ms = evidence_ms]
    by simp_all
  have "settle_terminal_candidate s pane c = (r, s')"
    using assms(2) Some by (simp add: settle_next_ready_terminal_with_evidence_def)
  then have r: "r = Some \<lparr>ts_end = c, ts_start = edge s pane StartSlot (ca_turn c)\<rparr>"
    and s': "\<forall>pane' k turn. edge s' pane' k turn =
      (if pane' = pane \<and> turn = ca_turn c then None else edge s pane' k turn)"
    using settle_exact [OF assms(1) c(1)] by auto
  show ?thesis
    using c(2) s' c(3) unfolding r Let_def option.case terminal_settlement.simps eligible_end_def
    by (intro conjI) (simp_all add: c(1))
qed

theorem settlement_needs_later_evidence_witness:
  "let s = run_calls sample_calls lifecycle_new;
       (r, s') = settle_next_ready_terminal_with_evidence s sample_pane sample_agent ''claude'' None 26 26
   in r = Some \<lparr>ts_end = sample_edge 2 ''a'' ''Stop'' 20 25, ts_start = Some (sample_edge 1 ''a'' ''Start'' 10 10)\<rparr>
      \<and> edge s' sample_pane EndSlot (sample_turn ''a'') = None"
proof -
  let ?s = "run_calls sample_calls lifecycle_new"
  obtain r s' where eq: "settle_next_ready_terminal_with_evidence ?s sample_pane sample_agent ''claude'' None 26 26 = (r, s')"
    by force
  have "fst (settle_next_ready_terminal_with_evidence ?s sample_pane sample_agent ''claude'' None 26 26)
      = Some \<lparr>ts_end = sample_edge 2 ''a'' ''Stop'' 20 25, ts_start = Some (sample_edge 1 ''a'' ''Start'' 10 10)\<rparr>"
    unfolding sample_store by code_simp
  then have r: "r = Some \<lparr>ts_end = sample_edge 2 ''a'' ''Stop'' 20 25, ts_start = Some (sample_edge 1 ''a'' ''Start'' 10 10)\<rparr>"
    using eq by simp
  have "edge s' sample_pane EndSlot (sample_turn ''a'') = None"
    using settlement_needs_later_evidence [OF sample_lifecycle_ok eq] unfolding r Let_def
    by (simp add: sample_edge_def)
  then show ?thesis using eq r by simp
qed

text \<open>A recorded stop is not settled by pixels captured before it, and one observation later
it is: with the turn preferred, the settle time passed and evidence after the edge, the next
settlement returns that very candidate with the pending start of its turn.\<close>

theorem stop_settles_after_observation:
  assumes "lifecycle_ok s" and "visual_revision s pane < u64_max"
    and "record_end s pane agent manifest turn event edge_ms settle_ms = (c, s1)"
    and "saturating_add_u64 edge_ms settle_ms \<le> observed_ms" and "edge_ms < evidence_ms"
  shows "(\<forall>st. fst (settle_next_ready_terminal_with_evidence s1 pane agent manifest (Some turn) observed_ms evidence_ms)
            = Some st \<longrightarrow> ts_end st \<noteq> c)
    \<and> fst (settle_next_ready_terminal_with_evidence (note_visual_change s1 pane) pane agent manifest (Some turn)
             observed_ms evidence_ms)
        = Some \<lparr>ts_end = c, ts_start = edge s1 pane StartSlot turn\<rparr>"
proof
  note adds = record_end_adds [OF lifecycle_ok_shape [OF assms(1)] assms(3)]
  have ok: "lifecycle_ok s1" using adds adds_ok [OF assms(1)] by blast
  have rev: "visual_revision s1 pane = visual_revision s pane"
    and stored: "edge s1 pane EndSlot (ca_turn c) = Some c"
    and crev: "ca_visual_revision c = visual_revision s pane"
    using adds unfolding adds_def by simp_all
  have c: "ca_agent c = agent" "ca_manifest c = manifest" "ca_turn c = turn" "ca_edge_ms c = edge_ms"
    "ca_ready_at_ms c = saturating_add_u64 edge_ms settle_ms"
    using assms(3) by (auto simp: record_end_def allocate_unfold Let_def)
  show "\<forall>st. fst (settle_next_ready_terminal_with_evidence s1 pane agent manifest (Some turn) observed_ms evidence_ms)
      = Some st \<longrightarrow> ts_end st \<noteq> c"
  proof (intro allI impI notI)
    fix st assume st: "fst (settle_next_ready_terminal_with_evidence s1 pane agent manifest (Some turn) observed_ms evidence_ms) = Some st"
      and "ts_end st = c"
    then have "next_ready_end s1 pane agent manifest (Some turn) observed_ms evidence_ms = Some c"
      using settle_next_step [OF lifecycle_ok_shape [OF ok], of pane agent manifest "Some turn" observed_ms evidence_ms]
      by (metis (mono_tags, lifting) option.simps(5) prod.collapse)
    then show False
      using next_ready_end_cases [OF ok, where pane = pane and agent = agent and manifest = manifest
          and preferred = "Some turn" and observed_ms = observed_ms and evidence_ms = evidence_ms] rev crev
      by (simp add: eligible_end_def)
  qed
  let ?s2 = "note_visual_change s1 pane"
  have ok2: "lifecycle_ok ?s2"
    using keeps_ok [OF ok] note_visual_change_keeps [OF lifecycle_ok_shape [OF ok]] by blast
  have "eligible_end ?s2 pane agent manifest observed_ms evidence_ms c"
    using assms(2,4,5) c rev crev by (simp add: eligible_end_def revision_note_visual_change)
  then have "next_ready_end ?s2 pane agent manifest (Some turn) observed_ms evidence_ms = Some c"
    using stored c(3) by (simp add: next_ready_end_bucket Let_def edge_note_visual_change)
  then show "fst (settle_next_ready_terminal_with_evidence ?s2 pane agent manifest (Some turn) observed_ms evidence_ms)
      = Some \<lparr>ts_end = c, ts_start = edge s1 pane StartSlot turn\<rparr>"
    using settle_exact [OF ok2, of pane c] stored c(3)
    by (auto simp: settle_next_ready_terminal_with_evidence_def edge_note_visual_change)
qed

theorem stop_settles_after_observation_witness:
  "let (c, s1) = record_end (run_calls sample_calls lifecycle_new) sample_pane sample_agent ''claude'' (sample_turn ''a'') ''Stop'' 40 5
   in fst (settle_next_ready_terminal_with_evidence (note_visual_change s1 sample_pane) sample_pane sample_agent
        ''claude'' (Some (sample_turn ''a'')) 45 41)
      = Some \<lparr>ts_end = c, ts_start = edge s1 sample_pane StartSlot (sample_turn ''a'')\<rparr>"
proof -
  obtain c s1 where eq: "record_end (run_calls sample_calls lifecycle_new) sample_pane sample_agent ''claude''
      (sample_turn ''a'') ''Stop'' 40 5 = (c, s1)"
    by force
  have "visual_revision (run_calls sample_calls lifecycle_new) sample_pane < u64_max"
    unfolding sample_store by (simp add: visual_revision_def hm_get_def u64_max_def)
  from stop_settles_after_observation [OF sample_lifecycle_ok this eq, of 45 41] show ?thesis
    by (simp add: eq saturating_add_u64_def)
qed

text \<open>The iteration order of the hash maps plays no part: two stores that hold the same edges
and revisions choose the same next recheck, the same next ready end, the same end and the same
start to confirm.\<close>

theorem choices_ignore_map_order:
  assumes "lifecycle_ok s" and "shape s'" and "same_entries s s'"
  shows "next_terminal_recheck_excluding s pane attempted = next_terminal_recheck_excluding s' pane attempted
    \<and> next_ready_end s pane agent manifest preferred observed_ms evidence_ms
        = next_ready_end s' pane agent manifest preferred observed_ms evidence_ms
    \<and> end_for s pane agent manifest preferred = end_for s' pane agent manifest preferred
    \<and> start_for s pane agent manifest = start_for s' pane agent manifest"
proof (intro conjI)
  note shape = lifecycle_ok_shape [OF assms(1)] and ok' = same_entries_ok [OF assms(3,1,2)]
  note entries = same_entries_values [OF assms(3) shape assms(2)]
  have edges: "edge s pane k = edge s' pane k" for k
    using assms(3) by (simp add: same_entries_def fun_eq_iff)
  have rev: "visual_revision s pane = visual_revision s' pane"
    using assms(3) by (simp add: same_entries_def)
  have terminal: "set (terminal_edges (bucket s pane)) = set (terminal_edges (bucket s' pane))"
    using entries [of EndSlot pane] entries [of VisualSlot pane] by (simp add: terminal_edges_def)
  show "next_terminal_recheck_excluding s pane attempted = next_terminal_recheck_excluding s' pane attempted"
    unfolding next_terminal_recheck_bucket
    by (rule min_by_key_unordered) (use terminal in auto, rule inj_on_subset [OF recheck_order_inj [OF assms(1)]], auto)
  have inj: "inj_on end_order (set (filter P (hm_values (slot EndSlot (bucket s pane)))))" for P
    by (rule inj_on_subset [OF end_order_inj [OF assms(1), of EndSlot pane]]) auto
  have oldest: "min_by_key end_order (filter P (hm_values (slot EndSlot (bucket s pane))))
      = min_by_key end_order (filter P (hm_values (slot EndSlot (bucket s' pane))))" for P
    by (rule min_by_key_unordered [OF _ inj]) (use entries [of EndSlot pane] in auto)
  have el: "eligible_end s pane = eligible_end s' pane" "observed_edge s pane = observed_edge s' pane"
    by (simp_all add: fun_eq_iff eligible_end_def observed_edge_def rev)
  show "next_ready_end s pane agent manifest preferred observed_ms evidence_ms
      = next_ready_end s' pane agent manifest preferred observed_ms evidence_ms"
    unfolding next_ready_end_bucket el edges oldest ..
  show "end_for s pane agent manifest preferred = end_for s' pane agent manifest preferred"
    unfolding end_for_bucket el edges oldest ..
  show "start_for s pane agent manifest = start_for s' pane agent manifest"
    unfolding start_for_bucket el
    by (rule single_choice_unordered)
      (rule entries slot_values_distinct [OF assms(1)] slot_values_distinct [OF ok'])+
qed

theorem choices_ignore_map_order_witness:
  "next_terminal_recheck_excluding sample_reordered sample_pane []
     = Some (TerminalEnd, sample_edge 2 ''a'' ''Stop'' 20 25)
   \<and> next_terminal_recheck_excluding (run_calls sample_calls lifecycle_new) sample_pane []
       = next_terminal_recheck_excluding sample_reordered sample_pane []"
proof
  show "next_terminal_recheck_excluding sample_reordered sample_pane []
     = Some (TerminalEnd, sample_edge 2 ''a'' ''Stop'' 20 25)"
    unfolding sample_reordered_def sample_store by code_simp
  have ab: "sample_turn ''a'' \<noteq> sample_turn ''b''" by (simp add: sample_turn_def)
  have "shape sample_reordered"
    unfolding sample_reordered_def sample_store Let_def using ab
    by (auto simp: shape_def hm_ok_def maps_ok_def hm_get_def visual_revision_def u64_max_def
        pending_is_empty_def split: if_splits)
  moreover have "edge (run_calls sample_calls lifecycle_new) pane k turn = edge sample_reordered pane k turn" for pane k turn
    unfolding sample_reordered_def sample_store Let_def using ab
    by (cases k) (auto simp: edge_def bucket_def hm_get_def)
  then have "same_entries (run_calls sample_calls lifecycle_new) sample_reordered"
    unfolding same_entries_def
    by (simp add: sample_reordered_def sample_store Let_def visual_revision_def)
  ultimately show "next_terminal_recheck_excluding (run_calls sample_calls lifecycle_new) sample_pane []
       = next_terminal_recheck_excluding sample_reordered sample_pane []"
    using choices_ignore_map_order [OF sample_lifecycle_ok] by blast
qed

end
