(* ===== verification/Tmux_Notify.thy ===== *)
theory Tmux_Notify
  imports Utf8
begin

text \<open>
  Control-mode notifications (\<open>cyclops-tmux/src/notify.rs\<close>): the lines that tmux writes outside
  reply blocks, parsed from raw bytes. Parsing is total; what is not recognised becomes \<open>Other\<close>.
\<close>

section \<open>Notifications\<close>

datatype tmux_notification =
    ContinuityLost
  | Output string string
  | ExtendedOutput string nat string
  | SessionChanged string string
  | SessionRenamed "string option" string
  | SessionsChanged
  | WindowAdd string
  | WindowClose string
  | WindowRenamed string string
  | UnlinkedWindowAdd string
  | UnlinkedWindowClose string
  | UnlinkedWindowRenamed string string
  | LayoutChange string string
  | WindowPaneChanged string string
  | PaneModeChanged string
  | ClientDetached string
  | ClientSessionChanged string string string
  | SubscriptionChanged string "string option" "string option" "string option" string
  | Pause string
  | Continue string
  | Exit "string option"
  | Other string

section \<open>Octal escapes\<close>

definition octal_digit :: "char \<Rightarrow> bool" where
  "octal_digit c = (48 \<le> (of_char c :: nat) \<and> (of_char c :: nat) \<le> 55)"

text \<open>A backslash and three octal digits; the value is cut to a byte.\<close>

definition octal_byte :: "char \<Rightarrow> char \<Rightarrow> char \<Rightarrow> char" where
  "octal_byte a b c = char_of ((digit_value a * 64 + digit_value b * 8 + digit_value c) mod 256)"

fun unescape_octal_bytes :: "string \<Rightarrow> string" where
  "unescape_octal_bytes (x # a # b # c # s) =
     (if x = CHR 0x5C \<and> octal_digit a \<and> octal_digit b \<and> octal_digit c
      then octal_byte a b c # unescape_octal_bytes s
      else x # unescape_octal_bytes (a # b # c # s))"
| "unescape_octal_bytes (x # s) = x # unescape_octal_bytes s"
| "unescape_octal_bytes [] = []"

definition unescape_octal :: "string \<Rightarrow> string" where
  "unescape_octal s = unescape_octal_bytes s"

section \<open>Parsing lines\<close>

text \<open>\<open>tail.split_once(" : ")\<close>, or the end of the line when the data is empty.\<close>

definition split_colon :: "string \<Rightarrow> (string \<times> string) option" where
  "split_colon s =
     (case split_once_str '' : '' s of
        Some p \<Rightarrow> Some p
      | None \<Rightarrow> map_option (\<lambda>h. (h, [])) (strip_suffix '' :'' s))"

definition parse_extended_output :: "string \<Rightarrow> string \<Rightarrow> tmux_notification" where
  "parse_extended_output line rest =
     (case split_once CHR '' '' rest of
        None \<Rightarrow> Other line
      | Some (pane, tail) \<Rightarrow>
          (case split_colon tail of
             None \<Rightarrow> Other line
           | Some (head, data) \<Rightarrow>
               (let age_ms =
                  (case split_whitespace head of
                     [] \<Rightarrow> 0
                   | a # _ \<Rightarrow> (case parse_unsigned a of None \<Rightarrow> 0 | Some n \<Rightarrow> n))
                in ExtendedOutput pane age_ms (unescape_octal data))))"

text \<open>A header token is recognised by its sigil; a later token of the same kind replaces an earlier one.\<close>

definition take_token ::
  "string \<Rightarrow> string option \<times> string option \<times> string option \<Rightarrow> string option \<times> string option \<times> string option" where
  "take_token t = (\<lambda>(session, window, pane).
     if starts_with ''$'' t then (Some t, window, pane)
     else if starts_with ''@'' t then (session, Some t, pane)
     else if starts_with ''%'' t then (session, window, Some t)
     else (session, window, pane))"

definition parse_subscription_changed :: "string \<Rightarrow> string \<Rightarrow> tmux_notification" where
  "parse_subscription_changed line rest =
     (case split_colon rest of
        None \<Rightarrow> Other line
      | Some (header, v) \<Rightarrow>
          (case split_whitespace header of
             [] \<Rightarrow> Other line
           | name # tokens \<Rightarrow>
               (let (session, window, pane) = fold take_token tokens (None, None, None)
                in SubscriptionChanged name session window pane v)))"

text \<open>A notification of two fields; without the separator the line is not recognised.\<close>

definition two_fields :: "string \<Rightarrow> string \<Rightarrow> (string \<Rightarrow> string \<Rightarrow> tmux_notification) \<Rightarrow> tmux_notification" where
  "two_fields line rest f =
     (case split_once CHR '' '' rest of Some (a, b) \<Rightarrow> f a b | None \<Rightarrow> Other line)"

definition parse_output :: "string \<Rightarrow> string \<Rightarrow> tmux_notification" where
  "parse_output line rest =
     (case split_once CHR '' '' rest of
        Some (pane, data) \<Rightarrow> Output pane (unescape_octal data)
      | None \<Rightarrow> if rest \<noteq> [] then Output rest [] else Other line)"

definition parse_session_renamed :: "string \<Rightarrow> tmux_notification" where
  "parse_session_renamed rest =
     (case split_once CHR '' '' rest of
        Some (session, name) \<Rightarrow>
          if starts_with ''$'' session then SessionRenamed (Some session) name else SessionRenamed None rest
      | None \<Rightarrow> SessionRenamed None rest)"

definition parse_client_session_changed :: "string \<Rightarrow> string \<Rightarrow> tmux_notification" where
  "parse_client_session_changed line rest =
     (case split_once CHR '' '' rest of
        Some (client, more) \<Rightarrow>
          (case split_once CHR '' '' more of
             Some (session, name) \<Rightarrow> ClientSessionChanged client session name
           | None \<Rightarrow> Other line)
      | None \<Rightarrow> Other line)"

definition parse_notification :: "string \<Rightarrow> tmux_notification" where
  "parse_notification line =
     (let (word, rest) = (case split_once CHR '' '' line of Some p \<Rightarrow> p | None \<Rightarrow> (line, [])) in
      if word = ''%output'' then parse_output line rest
      else if word = ''%extended-output'' then parse_extended_output line rest
      else if word = ''%session-changed'' then two_fields line rest SessionChanged
      else if word = ''%session-renamed'' then parse_session_renamed rest
      else if word = ''%sessions-changed'' then SessionsChanged
      else if word = ''%window-add'' then WindowAdd rest
      else if word = ''%window-close'' then WindowClose rest
      else if word = ''%window-renamed'' then two_fields line rest WindowRenamed
      else if word = ''%unlinked-window-add'' then UnlinkedWindowAdd rest
      else if word = ''%unlinked-window-close'' then UnlinkedWindowClose rest
      else if word = ''%unlinked-window-renamed'' then
        (case split_once CHR '' '' rest of
           Some (window, name) \<Rightarrow> UnlinkedWindowRenamed window name
         | None \<Rightarrow> UnlinkedWindowRenamed rest [])
      else if word = ''%layout-change'' then two_fields line rest LayoutChange
      else if word = ''%window-pane-changed'' then two_fields line rest WindowPaneChanged
      else if word = ''%pane-mode-changed'' then PaneModeChanged rest
      else if word = ''%client-detached'' then ClientDetached rest
      else if word = ''%client-session-changed'' then parse_client_session_changed line rest
      else if word = ''%subscription-changed'' then parse_subscription_changed line rest
      else if word = ''%pause'' then Pause rest
      else if word = ''%continue'' then Continue rest
      else if word = ''%exit'' then Exit (if rest = [] then None else Some rest)
      else Other line)"

section \<open>Lines that are not UTF-8\<close>

text \<open>\<open>find_subslice\<close> and the slices around what it finds.\<close>

definition split_bytes :: "string \<Rightarrow> string \<Rightarrow> (string \<times> string) option" where
  "split_bytes pat s = split_once_str pat s"

definition parse_extended_bytes :: "string \<Rightarrow> tmux_notification option" where
  "parse_extended_bytes rest =
     (case split_once CHR '' '' rest of
        None \<Rightarrow> None
      | Some (pane, tail) \<Rightarrow>
          if \<not> utf8_valid pane then None
          else
            (case (case split_bytes '' : '' tail of
                     Some p \<Rightarrow> Some p
                   | None \<Rightarrow> map_option (\<lambda>h. (h, [])) (strip_suffix '' :'' tail)) of
               None \<Rightarrow> None
             | Some (head, data) \<Rightarrow>
                 (let a = hd (split_on CHR '' '' head);
                      age_ms = (if utf8_valid a
                        then (case parse_unsigned a of None \<Rightarrow> 0 | Some n \<Rightarrow> n) else 0)
                  in Some (ExtendedOutput pane age_ms (unescape_octal_bytes data)))))"

definition parse_output_bytes :: "string \<Rightarrow> tmux_notification option" where
  "parse_output_bytes line =
     (case strip_prefix ''%output '' line of
        Some rest \<Rightarrow>
          (case split_once CHR '' '' rest of
             None \<Rightarrow> None
           | Some (pane, data) \<Rightarrow>
               if utf8_valid pane then Some (Output pane (unescape_octal_bytes data)) else None)
      | None \<Rightarrow>
          (case strip_prefix ''%extended-output '' line of
             Some rest \<Rightarrow> parse_extended_bytes rest
           | None \<Rightarrow> None))"

definition parse_notification_bytes :: "string \<Rightarrow> tmux_notification" where
  "parse_notification_bytes line =
     (if utf8_valid line then parse_notification line
      else case parse_output_bytes line of
          Some n \<Rightarrow> n
        | None \<Rightarrow> parse_notification (from_utf8_lossy line))"

section \<open>Escaping and back\<close>

text \<open>
  How tmux writes the bytes of a pane: any byte may be escaped as a backslash and three octal
  digits, and a backslash always is. The flag of a byte says whether it was escaped.
\<close>

definition octal_char :: "nat \<Rightarrow> char" where
  "octal_char d = char_of (48 + d)"

definition octal_escape :: "char \<Rightarrow> string" where
  "octal_escape x =
     (let n = of_char x :: nat
      in [CHR 0x5C, octal_char (n div 64), octal_char (n div 8 mod 8), octal_char (n mod 8)])"

definition tmux_escape :: "(char \<times> bool) list \<Rightarrow> string" where
  "tmux_escape bytes = concat (map (\<lambda>(x, escaped). if escaped then octal_escape x else [x]) bytes)"

lemma of_char_octal: "d < 8 \<Longrightarrow> (of_char (octal_char d) :: nat) = 48 + d"
  by (simp add: octal_char_def)

lemma octal_digit_octal_char: "d < 8 \<Longrightarrow> octal_digit (octal_char d)"
  by (simp add: octal_digit_def of_char_octal)

lemma octal_value: "d < 8 \<Longrightarrow> digit_value (octal_char d) = d"
  by (simp add: digit_value_def of_char_octal)

lemma octal_parts:
  "(of_char x :: nat) div 64 < 8" "(of_char x :: nat) div 8 mod 8 < 8" "(of_char x :: nat) mod 8 < 8"
proof -
  have "(of_char x :: nat) < 8 * 64" using nat_of_char_less_256 [of x] by linarith
  then show "(of_char x :: nat) div 64 < 8" by (rule less_mult_imp_div_less)
qed simp_all

lemma octal_split: "n div 64 * 64 + n div 8 mod 8 * 8 + n mod 8 = (n :: nat)"
proof -
  have "n div 64 * 8 + n div 8 mod 8 = n div 8"
    using div_mult_mod_eq [of "n div 8" 8] by (simp add: div_mult2_eq [symmetric])
  then have "(n div 64 * 8 + n div 8 mod 8) * 8 + n mod 8 = n"
    using div_mult_mod_eq [of n 8] by simp
  then show ?thesis by (simp add: algebra_simps)
qed

lemma octal_byte_escape:
  "octal_byte (octal_char (of_char x div 64)) (octal_char (of_char x div 8 mod 8)) (octal_char (of_char x mod 8)) = x"
  by (simp add: octal_byte_def octal_value octal_parts octal_split)

lemma unescape_escaped: "unescape_octal_bytes (octal_escape x @ s) = x # unescape_octal_bytes s"
  by (simp add: octal_escape_def Let_def octal_digit_octal_char octal_byte_escape octal_parts)

lemma unescape_plain: "x \<noteq> CHR 0x5C \<Longrightarrow> unescape_octal_bytes (x # s) = x # unescape_octal_bytes s"
proof (cases s)
  case (Cons a t)
  assume "x \<noteq> CHR 0x5C"
  then show ?thesis
    using Cons by (cases t; cases "tl t") auto
qed simp

lemma unescape_tmux_escape:
  assumes "\<forall>(x, escaped)\<in>set bytes. x = CHR 0x5C \<longrightarrow> escaped"
  shows "unescape_octal_bytes (tmux_escape bytes) = map fst bytes"
  using assms
proof (induction bytes)
  case (Cons b bytes)
  obtain x e where b: "b = (x, e)" by force
  then show ?case
    using Cons by (cases e) (auto simp: tmux_escape_def unescape_escaped unescape_plain)
qed (simp add: tmux_escape_def)

end
