(* ===== verification/Tmux_Control.thy ===== *)
theory Tmux_Control
  imports Tmux_Notify
begin

text \<open>
  The control-mode client of tmux (\<open>cyclops-tmux/src/control.rs\<close>, \<open>quote.rs\<close>): quoting and key
  commands, reading lines, routing them into notifications and reply blocks, the bounded
  notification queue with its continuity gap, and the command pipe whose reply slots are answered
  in order. One connection is a record; what a task does between two awaits is one definition.
  Process handling, timers and spool files are left out.
\<close>

section \<open>Limits and errors\<close>

definition notification_capacity :: nat where
  "notification_capacity = 256"

definition notification_max_queued_bytes :: nat where
  "notification_max_queued_bytes = 8 * 2 ^ 20"

definition control_line_max_bytes :: nat where
  "control_line_max_bytes = 2 ^ 20"

definition control_block_max_bytes :: nat where
  "control_block_max_bytes = 8 * 2 ^ 20"

definition control_block_max_lines :: nat where
  "control_block_max_lines = 65536"

definition pending_reply_capacity :: nat where
  "pending_reply_capacity = 64"

definition pause_resume_capacity :: nat where
  "pause_resume_capacity = 64"

text \<open>What a protocol error says; its text quotes the offending input.\<close>

datatype protocol_error =
    CommandHasLineBreak string
  | NoPidField string
  | InvalidPanePid string
  | PanePidDisagrees string string
  | ReservedInputExpanded nat

datatype tmux_error =
    Disconnected
  | Busy
  | CommandError string
  | Protocol protocol_error
  | IoError
  | WriteUncertain

section \<open>Commands\<close>

definition quote_char :: "char \<Rightarrow> string" where
  "quote_char c =
     (if c = CHR 0x0A \<or> c = CHR 0x0D \<or> c = CHR 0x00 then []
      else if c = CHR 0x27 then [CHR 0x27, CHR 0x5C, CHR 0x27, CHR 0x27]
      else [c])"

definition quote_arg :: "string \<Rightarrow> string" where
  "quote_arg s = [CHR 0x27] @ concat (map quote_char s) @ [CHR 0x27]"

definition validate_command_line :: "string \<Rightarrow> (tmux_error, unit) result" where
  "validate_command_line cmd =
     refuse_if (CHR 0x0A \<in> set cmd \<or> CHR 0x0D \<in> set cmd) (Protocol (CommandHasLineBreak cmd))"

definition named_keys :: "string list" where
  "named_keys =
     [''Enter'', ''Escape'', ''Space'', ''Tab'', ''BTab'', ''BSpace'', ''Up'', ''Down'', ''Left'', ''Right'', ''Home'',
      ''End'', ''NPage'', ''PPage'', ''PageDown'', ''PageUp'', ''IC'', ''Insert'', ''DC'', ''Delete'', ''F1'', ''F2'',
      ''F3'', ''F4'', ''F5'', ''F6'', ''F7'', ''F8'', ''F9'', ''F10'', ''F11'', ''F12'']"

text \<open>The loop over leading modifiers: what is left, and whether there was one.\<close>

fun strip_modifiers :: "string \<Rightarrow> bool \<Rightarrow> string \<times> bool" where
  "strip_modifiers (m # d # rest) saw =
     (if d = CHR ''-'' \<and> (m = CHR ''C'' \<or> m = CHR ''M'' \<or> m = CHR ''S'')
      then strip_modifiers rest True else (m # d # rest, saw))"
| "strip_modifiers rest saw = (rest, saw)"

text \<open>\<open>chars().count()\<close>: the bytes that start a character.\<close>

definition char_count :: "string \<Rightarrow> nat" where
  "char_count s = length (filter (\<lambda>c. \<not> continuation (of_char c)) s)"

definition is_key_name :: "string \<Rightarrow> bool" where
  "is_key_name k =
     (if k \<in> set named_keys then True
      else
        (let (rest, saw_modifier) = strip_modifiers k False
         in saw_modifier \<and> rest \<noteq> [] \<and> (rest \<in> set named_keys \<or> char_count rest = 1)))"

definition send_keys_command :: "string \<Rightarrow> bool \<Rightarrow> string list \<Rightarrow> string" where
  "send_keys_command pane_id keys_are_names keys =
     ''send-keys -t '' @ quote_arg pane_id @ (if \<not> keys_are_names then '' -l'' else []) @ '' --''
       @ concat (map (\<lambda>key. CHR '' '' # quote_arg key) keys)"

text \<open>Consecutive keys of one kind share a command.\<close>

function send_keys_commands :: "string \<Rightarrow> string list \<Rightarrow> string list" where
  "send_keys_commands pane_id [] = []"
| "send_keys_commands pane_id (k # ks) =
     (let same = (\<lambda>key. is_key_name key = is_key_name k)
      in send_keys_command pane_id (is_key_name k) (k # takeWhile same ks)
         # send_keys_commands pane_id (dropWhile same ks))"
  by pat_completeness auto
termination
  by (relation "measure (\<lambda>(pane_id, keys). length keys)") (auto simp: le_imp_less_Suc length_dropWhile_le)

text \<open>\<open>str::parse::<i32>\<close>.\<close>

definition parse_signed_i32 :: "string \<Rightarrow> int option" where
  "parse_signed_i32 s =
     Option.bind
       (case s of
          [] \<Rightarrow> None
        | c # rest \<Rightarrow>
            if c = CHR ''-'' then map_option (\<lambda>n. - int n) (parse_u64 rest)
            else map_option int (parse_unsigned s))
       (\<lambda>v. if - (2 ^ 31) \<le> v \<and> v < 2 ^ 31 then Some v else None)"

fun server_pane_pid_from :: "string \<Rightarrow> int option \<Rightarrow> string list \<Rightarrow> (tmux_error, int option) result" where
  "server_pane_pid_from pane_id found [] = Inr found"
| "server_pane_pid_from pane_id found (line # lines) =
     (case split_once CHR 0x09 line of
        None \<Rightarrow> Inl (Protocol (NoPidField line))
      | Some (listed, raw_pid) \<Rightarrow>
          if listed \<noteq> pane_id then server_pane_pid_from pane_id found lines
          else if raw_pid = [] then Inr None
          else
            (case parse_signed_i32 raw_pid of
               None \<Rightarrow> Inl (Protocol (InvalidPanePid line))
             | Some pid \<Rightarrow>
                 if is_some_and found (\<lambda>prior. prior \<noteq> pid)
                 then Inl (Protocol (PanePidDisagrees pane_id line))
                 else server_pane_pid_from pane_id (Some pid) lines))"

definition parse_server_pane_pid :: "string list \<Rightarrow> string \<Rightarrow> (tmux_error, int option) result" where
  "parse_server_pane_pid lines pane_id = server_pane_pid_from pane_id None lines"

section \<open>Reading lines\<close>

text \<open>
  The transport hands out its bytes in chunks of any size; the end of the list is the end of the
  stream. The answer is the line, newline included, with the unread chunks, or the refusal of a
  line that is too long.
\<close>

definition newline_byte :: char where
  "newline_byte = CHR 0x0A"

text \<open>The bytes of a buffer up to its first newline, which is included, and the bytes after it.\<close>

fun take_line :: "string \<Rightarrow> string \<times> string \<times> bool" where
  "take_line [] = ([], [], False)"
| "take_line (c # s) =
     (if c = newline_byte then ([c], s, True)
      else (let (a, b, complete) = take_line s in (c # a, b, complete)))"

fun read_control_line :: "string \<Rightarrow> string list \<Rightarrow> (string \<times> string list) option" where
  "read_control_line line [] = Some (line, [])"
| "read_control_line line (available # chunks) =
     (if available = [] then Some (line, chunks)
      else
        (let (taken, left, complete) = take_line available in
         if length line + length taken > control_line_max_bytes then None
         else if complete then Some (line @ taken, (if left = [] then chunks else left # chunks))
         else read_control_line (line @ taken) chunks))"

section \<open>Routing lines\<close>

datatype routed =
    RNotify tmux_notification
  | RReply bool "(string, string list) result"
  | RBlockOverflow

record open_block =
  ob_client :: bool
  ob_command :: "nat option"
  ob_lines :: "string list"
  ob_bytes :: nat

type_synonym line_router = "open_block option"

definition block_field :: "string \<Rightarrow> nat \<Rightarrow> string option" where
  "block_field rest n =
     (let fields = filter (\<lambda>f. f \<noteq> []) (split_on CHR '' '' rest)
      in if n < length fields then Some (fields ! n) else None)"

definition block_num :: "string \<Rightarrow> nat option" where
  "block_num rest =
     Option.bind (block_field rest 1) (\<lambda>f. if utf8_valid f then parse_unsigned f else None)"

definition join_lines :: "string list \<Rightarrow> string" where
  "join_lines lines = (case lines of [] \<Rightarrow> [] | l # ls \<Rightarrow> l @ concat (map (\<lambda>x. newline_byte # x) ls))"

text \<open>A line inside a block: the terminator with the block's number closes it, other lines are content.\<close>

definition block_end :: "open_block \<Rightarrow> string \<Rightarrow> (string, string list) result option" where
  "block_end b line =
     (case (case strip_prefix ''%end '' line of
              Some rest \<Rightarrow> Some rest
            | None \<Rightarrow> if line = ''%end'' then Some [] else None) of
        Some rest \<Rightarrow> if block_num rest = ob_command b then Some (Inr (ob_lines b)) else None
      | None \<Rightarrow>
          (case strip_prefix ''%error '' line of
             Some rest \<Rightarrow>
               if block_num rest = ob_command b then Some (Inl (join_lines (ob_lines b))) else None
           | None \<Rightarrow> None))"

definition feed :: "string \<Rightarrow> line_router \<Rightarrow> routed option \<times> line_router" where
  "feed line router =
     (case router of
        Some b \<Rightarrow>
          (case block_end b line of
             Some outcome \<Rightarrow> (Some (RReply (ob_client b) outcome), None)
           | None \<Rightarrow>
               (let next_bytes = ob_bytes b + length line + 1 in
                if length (ob_lines b) \<ge> control_block_max_lines \<or> next_bytes > control_block_max_bytes
                then (Some RBlockOverflow, None)
                else (None, Some (b\<lparr>ob_bytes := next_bytes, ob_lines := ob_lines b @ [from_utf8_lossy line]\<rparr>))))
      | None \<Rightarrow>
          (case strip_prefix ''%begin '' line of
             Some rest \<Rightarrow>
               (None, Some \<lparr>ob_client = (block_field rest 2 = Some ''1''), ob_command = block_num rest,
                            ob_lines = [], ob_bytes = 0\<rparr>)
           | None \<Rightarrow> (Some (RNotify (parse_notification_bytes line)), None)))"

section \<open>The notification queue\<close>

text \<open>
  A queued entry holds its byte permit, \<open>None\<close> for the continuity marker, which holds neither
  permit. The permits that are left are the limits less what the queue holds.
\<close>

record notification_sink =
  ns_queue :: "(tmux_notification \<times> nat option) list"
  ns_receiver_open :: bool
  ns_gap_pending :: bool
  ns_gap_epoch :: nat

definition sink_new :: notification_sink where
  "sink_new = \<lparr>ns_queue = [], ns_receiver_open = True, ns_gap_pending = False, ns_gap_epoch = 0\<rparr>"

definition queued_items :: "notification_sink \<Rightarrow> nat" where
  "queued_items q = length (filter (\<lambda>(n, permit). permit \<noteq> None) (ns_queue q))"

definition queued_bytes :: "notification_sink \<Rightarrow> nat" where
  "queued_bytes q = sum_list (map (\<lambda>(n, permit). case permit of None \<Rightarrow> 0 | Some b \<Rightarrow> b) (ns_queue q))"

datatype enqueue_result = Sent | ReceiverClosed | GapRecorded | EnvelopeExceeded

definition opt_len :: "string option \<Rightarrow> nat" where
  "opt_len s = (case s of None \<Rightarrow> 0 | Some x \<Rightarrow> length x)"

fun notification_retained_bytes :: "tmux_notification \<Rightarrow> nat" where
  "notification_retained_bytes ContinuityLost = 0"
| "notification_retained_bytes (Output pane data) = length pane + length data"
| "notification_retained_bytes (ExtendedOutput pane age data) = length pane + length data"
| "notification_retained_bytes (SessionChanged session name) = length session + length name"
| "notification_retained_bytes (SessionRenamed session name) = opt_len session + length name"
| "notification_retained_bytes SessionsChanged = 0"
| "notification_retained_bytes (WindowAdd window) = length window"
| "notification_retained_bytes (WindowClose window) = length window"
| "notification_retained_bytes (WindowRenamed window name) = length window + length name"
| "notification_retained_bytes (UnlinkedWindowAdd window) = length window"
| "notification_retained_bytes (UnlinkedWindowClose window) = length window"
| "notification_retained_bytes (UnlinkedWindowRenamed window name) = length window + length name"
| "notification_retained_bytes (LayoutChange window rest) = length window + length rest"
| "notification_retained_bytes (WindowPaneChanged window pane) = length window + length pane"
| "notification_retained_bytes (PaneModeChanged pane) = length pane"
| "notification_retained_bytes (ClientDetached client) = length client"
| "notification_retained_bytes (ClientSessionChanged client session name) = length client + length session + length name"
| "notification_retained_bytes (SubscriptionChanged name session window pane v) =
     length name + opt_len session + opt_len window + opt_len pane + length v"
| "notification_retained_bytes (Pause pane) = length pane"
| "notification_retained_bytes (Continue pane) = length pane"
| "notification_retained_bytes (Exit reason) = opt_len reason"
| "notification_retained_bytes (Other raw) = length raw"

text \<open>The byte permit of a notification: at least one.\<close>

definition permit_bytes :: "tmux_notification \<Rightarrow> nat" where
  "permit_bytes n = max (notification_retained_bytes n) 1"

definition bump_epoch :: "notification_sink \<Rightarrow> notification_sink" where
  "bump_epoch q = q\<lparr>ns_gap_epoch := (ns_gap_epoch q + 1) mod 2 ^ 64\<rparr>"

text \<open>\<open>try_send\<close> on the channel, which has one slot more than the item permits.\<close>

datatype send_outcome = SendOk | SendFull | SendClosed

definition try_send :: "tmux_notification \<times> nat option \<Rightarrow> notification_sink \<Rightarrow> send_outcome \<times> notification_sink" where
  "try_send e q =
     (if \<not> ns_receiver_open q then (SendClosed, q)
      else if length (ns_queue q) \<ge> notification_capacity + 1 then (SendFull, q)
      else (SendOk, q\<lparr>ns_queue := ns_queue q @ [e]\<rparr>))"

definition record_notification_gap :: "notification_sink \<Rightarrow> enqueue_result \<times> notification_sink" where
  "record_notification_gap q =
     (if ns_gap_pending q then (GapRecorded, bump_epoch q)
      else
        (let q = bump_epoch (q\<lparr>ns_gap_pending := True\<rparr>) in
         case try_send (ContinuityLost, None) q of
           (SendOk, q) \<Rightarrow> (GapRecorded, q)
         | (SendClosed, q) \<Rightarrow> (ReceiverClosed, q\<lparr>ns_gap_pending := False\<rparr>)
         | (SendFull, q) \<Rightarrow> (EnvelopeExceeded, q\<lparr>ns_gap_pending := False\<rparr>)))"

definition enqueue_notification :: "tmux_notification \<Rightarrow> notification_sink \<Rightarrow> enqueue_result \<times> notification_sink" where
  "enqueue_notification n q =
     (let bytes = permit_bytes n in
      if bytes > notification_max_queued_bytes then (EnvelopeExceeded, q)
      else if ns_gap_pending q then (GapRecorded, bump_epoch q)
      else if bytes \<ge> 2 ^ 32 then (EnvelopeExceeded, q)
      else if queued_items q \<ge> notification_capacity then record_notification_gap q
      else if queued_bytes q + bytes > notification_max_queued_bytes then record_notification_gap q
      else
        (case try_send (n, Some bytes) q of
           (SendOk, q) \<Rightarrow> (Sent, q)
         | (SendClosed, q) \<Rightarrow> (ReceiverClosed, q)
         | (SendFull, q) \<Rightarrow> record_notification_gap q))"

text \<open>The consumer: \<open>try_recv\<close>, \<open>hold_continuity\<close>, \<open>resume_after_reconcile\<close>, and dropping the receiver.\<close>

definition receive :: "notification_sink \<Rightarrow> tmux_notification option \<times> notification_sink" where
  "receive q =
     (case ns_queue q of
        [] \<Rightarrow> (None, q)
      | (n, _) # rest \<Rightarrow> (Some n, q\<lparr>ns_queue := rest\<rparr>))"

definition hold_continuity :: "notification_sink \<Rightarrow> nat \<times> notification_sink" where
  "hold_continuity q = (ns_gap_epoch q, q\<lparr>ns_gap_pending := True\<rparr>)"

definition resume_after_reconcile :: "nat \<Rightarrow> notification_sink \<Rightarrow> bool \<times> notification_sink" where
  "resume_after_reconcile expected_epoch q =
     (if ns_gap_epoch q \<noteq> expected_epoch then (False, q)
      else (True, q\<lparr>ns_queue := [], ns_gap_pending := False\<rparr>))"

definition drop_receiver :: "notification_sink \<Rightarrow> notification_sink" where
  "drop_receiver q = q\<lparr>ns_receiver_open := False, ns_queue := []\<rparr>"

section \<open>The command pipe\<close>

datatype reply_target = Caller nat | ResumePane string

text \<open>
  The connection: the write side and its reply slots (a slot in the FIFO or reserved outside it
  holds a permit), the lines written so far, the answers sent to callers, and what the reader and
  the resume worker keep.
\<close>

record control_connection =
  cc_stdin :: bool
  cc_slots_open :: bool
  cc_pending :: "reply_target list"
  cc_reserved :: nat
  cc_issued :: nat
  cc_wire :: "string list"
  cc_answers :: "(nat \<times> (tmux_error, string list) result) list"
  cc_reader :: bool
  cc_router :: line_router
  cc_sink :: notification_sink
  cc_resumes :: "string list"
  cc_resuming :: "string option"
  cc_resume_worker :: bool

definition connection_new :: control_connection where
  "connection_new =
     \<lparr>cc_stdin = True, cc_slots_open = True, cc_pending = [], cc_reserved = 0, cc_issued = 0,
      cc_wire = [], cc_answers = [], cc_reader = True, cc_router = None, cc_sink = sink_new,
      cc_resumes = [], cc_resuming = None, cc_resume_worker = True\<rparr>"

text \<open>
  What the operating system answers to one write at a position of the line, and to the flush:
  any behaviour of the pipe.
\<close>

datatype write_outcome = Wrote nat | WriteFailed

type_synonym pipe_io = "(nat \<Rightarrow> write_outcome) \<times> bool"

datatype write_result = Written | Unwritten | Uncertain

function write_command_line :: "pipe_io \<Rightarrow> nat \<Rightarrow> nat \<Rightarrow> write_result" where
  "write_command_line io len written =
     (if written < len then
        (case fst io written of
           Wrote bytes \<Rightarrow>
             if bytes = 0 then (if written = 0 then Unwritten else Uncertain)
             else write_command_line io len (written + bytes)
         | WriteFailed \<Rightarrow> if written = 0 then Unwritten else Uncertain)
      else if snd io then Written else Uncertain)"
  by auto
termination
  by (relation "measure (\<lambda>(io, len, written). len - written)") auto

declare write_command_line.simps [simp del]

text \<open>Every caller that still waits is told that the connection is gone.\<close>

definition disconnect_all :: "reply_target list \<Rightarrow> (nat \<times> (tmux_error, string list) result) list" where
  "disconnect_all targets =
     concat (map (\<lambda>t. case t of Caller n \<Rightarrow> [(n, Inl Disconnected)] | ResumePane _ \<Rightarrow> []) targets)"

definition drain_pending :: "control_connection \<Rightarrow> control_connection" where
  "drain_pending c =
     c\<lparr>cc_answers := cc_answers c @ disconnect_all (cc_pending c), cc_pending := []\<rparr>"

definition close_pipe :: "control_connection \<Rightarrow> control_connection" where
  "close_pipe c = drain_pending (c\<lparr>cc_slots_open := False, cc_stdin := False\<rparr>)"

definition poison_after_write_failure :: "write_result \<Rightarrow> control_connection \<Rightarrow> tmux_error \<times> control_connection" where
  "poison_after_write_failure w c =
     ((case w of Unwritten \<Rightarrow> IoError | _ \<Rightarrow> WriteUncertain),
      drain_pending (c\<lparr>cc_stdin := False, cc_slots_open := False\<rparr>))"

text \<open>A write with a permit that was reserved before; the permit moves into the FIFO or is dropped.\<close>

definition write_target ::
  "string \<Rightarrow> reply_target \<Rightarrow> pipe_io \<Rightarrow> control_connection \<Rightarrow> (tmux_error, unit) result \<times> control_connection" where
  "write_target cmd target io c =
     (let c = c\<lparr>cc_reserved := cc_reserved c - 1\<rparr> in
      if \<not> cc_stdin c then (Inl Disconnected, c)
      else
        (let c = c\<lparr>cc_pending := cc_pending c @ [target]\<rparr> in
         case write_command_line io (length cmd + 1) 0 of
           Written \<Rightarrow>
             (Inr (), c\<lparr>cc_issued := (cc_issued c + 1) mod 2 ^ 64, cc_wire := cc_wire c @ [cmd @ [newline_byte]]\<rparr>)
         | w \<Rightarrow> (case poison_after_write_failure w c of (e, c) \<Rightarrow> (Inl e, c))))"

definition permits_used :: "control_connection \<Rightarrow> nat" where
  "permits_used c = length (cc_pending c) + cc_reserved c"

definition submit_target ::
  "string \<Rightarrow> reply_target \<Rightarrow> pipe_io \<Rightarrow> control_connection \<Rightarrow> (tmux_error, unit) result \<times> control_connection" where
  "submit_target cmd target io c =
     (case validate_command_line cmd of
        Inl e \<Rightarrow> (Inl e, c)
      | Inr _ \<Rightarrow>
          if \<not> cc_slots_open c then (Inl Disconnected, c)
          else if permits_used c \<ge> pending_reply_capacity then (Inl Busy, c)
          else write_target cmd target io (c\<lparr>cc_reserved := cc_reserved c + 1\<rparr>))"

text \<open>\<open>None\<close> while the caller waits for a permit.\<close>

definition reserve_capacity :: "control_connection \<Rightarrow> (tmux_error, unit) result option \<times> control_connection" where
  "reserve_capacity c =
     (if \<not> cc_slots_open c then (Some (Inl Disconnected), c)
      else if permits_used c \<ge> pending_reply_capacity then (None, c)
      else (Some (Inr ()), c\<lparr>cc_reserved := cc_reserved c + 1\<rparr>))"

definition submit_resume ::
  "string \<Rightarrow> string \<Rightarrow> pipe_io \<Rightarrow> control_connection \<Rightarrow> (tmux_error, unit) result option \<times> control_connection" where
  "submit_resume cmd pane io c =
     (case validate_command_line cmd of
        Inl e \<Rightarrow> (Some (Inl e), c)
      | Inr _ \<Rightarrow>
          (case reserve_capacity c of
             (None, c) \<Rightarrow> (None, c)
           | (Some (Inl e), c) \<Rightarrow> (Some (Inl e), c)
           | (Some (Inr _), c) \<Rightarrow>
               (case write_target cmd (ResumePane pane) io c of (r, c) \<Rightarrow> (Some r, c))))"

text \<open>A batch of keys on reserved capacity; a reservation of another connection is refused.\<close>

definition send_keys_unconfirmed_reserved ::
  "bool \<Rightarrow> string \<Rightarrow> string list \<Rightarrow> nat \<Rightarrow> pipe_io \<Rightarrow> control_connection
     \<Rightarrow> (tmux_error, unit) result \<times> control_connection" where
  "send_keys_unconfirmed_reserved own pane_id keys caller io c =
     (if \<not> own then (Inl Disconnected, c)
      else
        (case send_keys_commands pane_id keys of
           [cmd] \<Rightarrow>
             (case validate_command_line cmd of
                Inl e \<Rightarrow> (Inl e, c\<lparr>cc_reserved := cc_reserved c - 1\<rparr>)
              | Inr _ \<Rightarrow> write_target cmd (Caller caller) io c)
         | cmds \<Rightarrow> (Inl (Protocol (ReservedInputExpanded (length cmds))), c\<lparr>cc_reserved := cc_reserved c - 1\<rparr>)))"

section \<open>The resume worker\<close>

definition resume_command :: "string \<Rightarrow> string" where
  "resume_command pane = ''refresh-client -A '' @ quote_arg (pane @ '':continue'')"

text \<open>The worker takes the next paused pane, then writes its resume once a slot is free.\<close>

definition take_resume :: "control_connection \<Rightarrow> control_connection" where
  "take_resume c =
     (if \<not> cc_resume_worker c then c
      else case (cc_resuming c, cc_resumes c) of
          (None, pane # rest) \<Rightarrow> c\<lparr>cc_resuming := Some pane, cc_resumes := rest\<rparr>
        | _ \<Rightarrow> c)"

definition write_resume :: "pipe_io \<Rightarrow> control_connection \<Rightarrow> control_connection" where
  "write_resume io c =
     (case (if cc_resume_worker c then cc_resuming c else None) of
        None \<Rightarrow> c
      | Some pane \<Rightarrow>
          (case submit_resume (resume_command pane) pane io c of
             (None, c) \<Rightarrow> c
           | (Some (Inr _), c) \<Rightarrow> c\<lparr>cc_resuming := None\<rparr>
           | (Some (Inl _), c) \<Rightarrow> (close_pipe c)\<lparr>cc_resume_worker := False, cc_resuming := None\<rparr>))"

section \<open>The reader\<close>

text \<open>The reader leaves its loop: the pipe is closed.\<close>

definition stop_reader :: "control_connection \<Rightarrow> control_connection" where
  "stop_reader c = close_pipe (c\<lparr>cc_reader := False\<rparr>)"

definition forward_notification :: "tmux_notification \<Rightarrow> control_connection \<Rightarrow> bool \<times> control_connection" where
  "forward_notification n c =
     (case enqueue_notification n (cc_sink c) of (r, q) \<Rightarrow> (r \<noteq> EnvelopeExceeded, c\<lparr>cc_sink := q\<rparr>))"

definition on_notification :: "tmux_notification \<Rightarrow> control_connection \<Rightarrow> control_connection" where
  "on_notification n c =
     (case forward_notification n c of
        (False, c) \<Rightarrow> stop_reader c
      | (True, c) \<Rightarrow>
          (case n of
             Pause pane \<Rightarrow>
               if \<not> cc_resume_worker c \<or> length (cc_resumes c) \<ge> pause_resume_capacity then stop_reader c
               else c\<lparr>cc_resumes := cc_resumes c @ [pane]\<rparr>
           | _ \<Rightarrow> c))"

definition on_reply :: "bool \<Rightarrow> (string, string list) result \<Rightarrow> control_connection \<Rightarrow> control_connection" where
  "on_reply client outcome c =
     (if \<not> client then c
      else case cc_pending c of
          [] \<Rightarrow> c
        | Caller n # rest \<Rightarrow>
            c\<lparr>cc_pending := rest,
              cc_answers := cc_answers c @ [(n, case outcome of Inl e \<Rightarrow> Inl (CommandError e) | Inr ls \<Rightarrow> Inr ls)]\<rparr>
        | ResumePane pane # rest \<Rightarrow>
            (let c = c\<lparr>cc_pending := rest\<rparr> in
             case outcome of
               Inl _ \<Rightarrow> c
             | Inr _ \<Rightarrow>
                 (case forward_notification (Continue pane) c of
                    (True, c) \<Rightarrow> c
                  | (False, c) \<Rightarrow> stop_reader c)))"

definition read_step :: "string \<Rightarrow> control_connection \<Rightarrow> control_connection" where
  "read_step line c =
     (if \<not> cc_reader c then c
      else
        (case feed line (cc_router c) of
           (routed, router) \<Rightarrow>
             (let c = c\<lparr>cc_router := router\<rparr> in
              case routed of
                None \<Rightarrow> c
              | Some (RNotify n) \<Rightarrow> on_notification n c
              | Some (RReply client outcome) \<Rightarrow> on_reply client outcome c
              | Some RBlockOverflow \<Rightarrow> stop_reader c)))"

definition read_end :: "control_connection \<Rightarrow> control_connection" where
  "read_end c = (if \<not> cc_reader c then c else stop_reader c)"

end
