(* ===== verification/Tmux_Laws.thy ===== *)
theory Tmux_Laws
  imports Tmux_Control "HOL-Library.Sublist"
begin

text \<open>
  Runs of a control connection and their invariant: the notification queue within its limits with
  its marker last, the reply slots within theirs, the block that is being collected within its
  envelope, and the order of answers.
\<close>

section \<open>The queue within its limits\<close>

definition regular :: "tmux_notification \<times> nat option \<Rightarrow> bool" where
  "regular e = (snd e \<noteq> None)"

definition marker :: "tmux_notification \<times> nat option" where
  "marker = (ContinuityLost, None)"

text \<open>Regular entries within the permits, then at most the marker, which stands for a pending gap.\<close>

definition sink_ok :: "notification_sink \<Rightarrow> bool" where
  "sink_ok q = (queued_items q \<le> notification_capacity
     \<and> queued_bytes q \<le> notification_max_queued_bytes
     \<and> (list_all regular (ns_queue q)
        \<or> ns_gap_pending q \<and> (\<exists>es. list_all regular es \<and> ns_queue q = es @ [marker])))"

lemma queued_items_regular: "queued_items q = length (filter regular (ns_queue q))"
proof -
  have "regular = (\<lambda>(n, permit). permit \<noteq> None)"
    by (simp add: fun_eq_iff regular_def)
  then show ?thesis by (simp add: queued_items_def)
qed

lemma regular_items: "list_all regular es \<Longrightarrow> filter regular es = es"
  by (simp add: filter_id_conv list_all_iff)

lemma not_regular_marker [simp]: "\<not> regular marker"
  by (simp add: regular_def marker_def)

lemma sink_ok_length: "sink_ok q \<Longrightarrow> length (ns_queue q) \<le> notification_capacity + 1"
  by (auto simp: sink_ok_def queued_items_regular regular_items)

lemma sink_ok_open: "sink_ok q \<Longrightarrow> \<not> ns_gap_pending q \<Longrightarrow> list_all regular (ns_queue q)"
  by (auto simp: sink_ok_def)

lemma sink_ok_open_length: "sink_ok q \<Longrightarrow> \<not> ns_gap_pending q \<Longrightarrow> length (ns_queue q) = queued_items q"
  by (auto simp: sink_ok_def queued_items_regular regular_items)

lemma sink_ok_new: "sink_ok sink_new"
  by (simp add: sink_ok_def sink_new_def queued_items_regular queued_bytes_def)

lemma record_gap_open:
  assumes "sink_ok q" and "\<not> ns_gap_pending q"
  shows "record_notification_gap q =
    (if ns_receiver_open q
     then (GapRecorded, q\<lparr>ns_queue := ns_queue q @ [marker], ns_gap_pending := True,
             ns_gap_epoch := (ns_gap_epoch q + 1) mod 2 ^ 64\<rparr>)
     else (ReceiverClosed, q\<lparr>ns_gap_epoch := (ns_gap_epoch q + 1) mod 2 ^ 64\<rparr>))"
proof -
  have "length (ns_queue q) \<le> notification_capacity"
    using assms sink_ok_open_length [OF assms] by (simp add: sink_ok_def)
  then show ?thesis
    using assms(2) by (simp add: record_notification_gap_def try_send_def bump_epoch_def marker_def Let_def)
qed

text \<open>
  What a call to \<open>enqueue_notification\<close> does. The arm of \<open>record_notification_gap\<close> for a full
  channel is never reached: the channel refuses only a notification that is too large by itself.
\<close>

lemma enqueue_cases:
  assumes ok: "sink_ok q" and enq: "enqueue_notification n q = (r, q')"
  obtains (large) "r = EnvelopeExceeded" "q' = q" "permit_bytes n > notification_max_queued_bytes"
  | (held) "r = GapRecorded" "ns_gap_pending q" "q' = bump_epoch q"
      "permit_bytes n \<le> notification_max_queued_bytes"
  | (gap) "r = GapRecorded" "\<not> ns_gap_pending q" "ns_receiver_open q"
      "q' = q\<lparr>ns_queue := ns_queue q @ [marker], ns_gap_pending := True,
             ns_gap_epoch := (ns_gap_epoch q + 1) mod 2 ^ 64\<rparr>"
      "permit_bytes n \<le> notification_max_queued_bytes"
  | (sent) "r = Sent" "\<not> ns_gap_pending q" "ns_receiver_open q"
      "q' = q\<lparr>ns_queue := ns_queue q @ [(n, Some (permit_bytes n))]\<rparr>"
      "queued_items q < notification_capacity"
      "queued_bytes q + permit_bytes n \<le> notification_max_queued_bytes"
  | (closed) "r = ReceiverClosed" "\<not> ns_gap_pending q" "\<not> ns_receiver_open q" "ns_queue q' = ns_queue q"
      "ns_gap_pending q' = ns_gap_pending q" "ns_receiver_open q' = ns_receiver_open q"
      "permit_bytes n \<le> notification_max_queued_bytes"
proof -
  let ?b = "permit_bytes n"
  have small: "notification_max_queued_bytes < 2 ^ 32"
    by (simp add: notification_max_queued_bytes_def)
  show ?thesis
  proof (cases "?b > notification_max_queued_bytes")
    case True
    then show ?thesis using enq large by (simp add: enqueue_notification_def Let_def)
  next
    case fits: False
    show ?thesis
    proof (cases "ns_gap_pending q")
      case True
      then show ?thesis using enq fits held by (simp add: enqueue_notification_def Let_def)
    next
      case open_gap: False
      note at_gap = record_gap_open [OF ok open_gap]
      show ?thesis
      proof (cases "queued_items q \<ge> notification_capacity
          \<or> queued_bytes q + ?b > notification_max_queued_bytes")
        case True
        then have "enqueue_notification n q = record_notification_gap q"
          using fits open_gap small by (auto simp: enqueue_notification_def Let_def)
        then show ?thesis
          using enq at_gap gap closed open_gap fits by (cases "ns_receiver_open q") auto
      next
        case room: False
        then have len: "length (ns_queue q) \<le> notification_capacity"
          using sink_ok_open_length [OF ok open_gap] by simp
        have "enqueue_notification n q =
            (if ns_receiver_open q then (Sent, q\<lparr>ns_queue := ns_queue q @ [(n, Some ?b)]\<rparr>) else (ReceiverClosed, q))"
          using fits open_gap small room len by (simp add: enqueue_notification_def try_send_def Let_def)
        then show ?thesis
          using enq sent closed open_gap room fits by (cases "ns_receiver_open q") auto
      qed
    qed
  qed
qed

lemma sink_ok_same_queue:
  "sink_ok q \<Longrightarrow> ns_queue q' = ns_queue q \<Longrightarrow> (ns_gap_pending q \<longrightarrow> ns_gap_pending q') \<Longrightarrow> sink_ok q'"
  by (auto simp: sink_ok_def queued_items_regular queued_bytes_def)

lemma enqueue_ok:
  assumes ok: "sink_ok q" and enq: "enqueue_notification n q = (r, q')"
  shows "sink_ok q'"
  using ok enq
proof (cases rule: enqueue_cases)
  case held
  then show ?thesis using ok by (auto intro: sink_ok_same_queue simp: bump_epoch_def)
next
  case gap
  then show ?thesis
    using ok sink_ok_open [OF ok]
    by (auto simp: sink_ok_def queued_items_regular queued_bytes_def marker_def regular_def)
next
  case sent
  then show ?thesis
    using sink_ok_open [OF ok]
    by (auto simp: sink_ok_def queued_items_regular queued_bytes_def regular_def)
next
  case closed
  then show ?thesis using ok by (auto intro: sink_ok_same_queue)
qed (use ok in auto)

lemma receive_ok:
  assumes "sink_ok q"
  shows "sink_ok (snd (receive q))"
proof (cases "ns_queue q")
  case (Cons e rest)
  obtain n permit where e: "e = (n, permit)" by force
  have "list_all regular rest \<or> (\<exists>es. list_all regular es \<and> rest = es @ [marker])"
    if "es @ [marker] = e # rest" "list_all regular es" for es
    using that by (cases es) auto
  then show ?thesis
    using assms Cons
    by (fastforce simp: sink_ok_def receive_def e queued_items_regular queued_bytes_def split: if_splits)
qed (use assms in \<open>simp add: receive_def\<close>)

lemma hold_ok: "sink_ok q \<Longrightarrow> sink_ok (snd (hold_continuity q))"
  by (auto simp: hold_continuity_def intro: sink_ok_same_queue)

lemma resume_ok: "sink_ok q \<Longrightarrow> sink_ok (snd (resume_after_reconcile e q))"
  by (simp add: resume_after_reconcile_def sink_ok_def queued_items_regular queued_bytes_def)

lemma drop_receiver_ok: "sink_ok (drop_receiver q)"
  by (simp add: drop_receiver_def sink_ok_def queued_items_regular queued_bytes_def)

section \<open>Runs of a connection\<close>

datatype control_event =
    Submit nat string pipe_io
  | Reserve
  | ReleaseReserved
  | SendReserved string "string list" nat pipe_io
  | TakeResume
  | WriteResume pipe_io
  | ReadLine string
  | ReadEnd
  | ClosePipe
  | Receive
  | HoldContinuity
  | ResumeStream nat
  | DropReceiver

text \<open>Reserved capacity is spent or given back only by its holder.\<close>

primrec control_step :: "control_event \<Rightarrow> control_connection \<Rightarrow> control_connection" where
  "control_step (Submit caller cmd io) c = snd (submit_target cmd (Caller caller) io c)"
| "control_step Reserve c = snd (reserve_capacity c)"
| "control_step ReleaseReserved c = c\<lparr>cc_reserved := cc_reserved c - 1\<rparr>"
| "control_step (SendReserved pane_id keys caller io) c =
     (if cc_reserved c = 0 then c else snd (send_keys_unconfirmed_reserved True pane_id keys caller io c))"
| "control_step TakeResume c = take_resume c"
| "control_step (WriteResume io) c = write_resume io c"
| "control_step (ReadLine line) c = read_step line c"
| "control_step ReadEnd c = read_end c"
| "control_step ClosePipe c = close_pipe c"
| "control_step Receive c = c\<lparr>cc_sink := snd (receive (cc_sink c))\<rparr>"
| "control_step HoldContinuity c = c\<lparr>cc_sink := snd (hold_continuity (cc_sink c))\<rparr>"
| "control_step (ResumeStream e) c = c\<lparr>cc_sink := snd (resume_after_reconcile e (cc_sink c))\<rparr>"
| "control_step DropReceiver c = c\<lparr>cc_sink := drop_receiver (cc_sink c)\<rparr>"

definition control_run :: "control_event list \<Rightarrow> control_connection \<Rightarrow> control_connection" where
  "control_run events c = fold control_step events c"

definition router_ok :: "line_router \<Rightarrow> bool" where
  "router_ok r = (case r of None \<Rightarrow> True
     | Some b \<Rightarrow> ob_bytes b \<le> control_block_max_bytes \<and> length (ob_lines b) \<le> control_block_max_lines)"

text \<open>The invariant of a connection; a closed one has nobody waiting.\<close>

definition control_ok :: "control_connection \<Rightarrow> bool" where
  "control_ok c = (permits_used c \<le> pending_reply_capacity
     \<and> length (cc_resumes c) \<le> pause_resume_capacity
     \<and> sink_ok (cc_sink c) \<and> router_ok (cc_router c)
     \<and> (cc_stdin c = cc_slots_open c)
     \<and> (\<not> cc_stdin c \<longrightarrow> cc_pending c = [])
     \<and> (\<not> cc_reader c \<longrightarrow> \<not> cc_stdin c))"

text \<open>The callers in the order in which their commands were accepted: those answered, then those waiting.\<close>

fun callers :: "reply_target list \<Rightarrow> nat list" where
  "callers [] = []"
| "callers (Caller n # ts) = n # callers ts"
| "callers (ResumePane p # ts) = callers ts"

definition accepted :: "control_connection \<Rightarrow> nat list" where
  "accepted c = map fst (cc_answers c) @ callers (cc_pending c)"

lemma callers_append [simp]: "callers (xs @ ys) = callers xs @ callers ys"
  by (induction xs rule: callers.induct) simp_all

lemma disconnect_all_callers: "map fst (disconnect_all ts) = callers ts"
  by (induction ts rule: callers.induct) (simp_all add: disconnect_all_def)

lemma accepted_drain [simp]: "accepted (drain_pending c) = accepted c"
  by (simp add: accepted_def drain_pending_def disconnect_all_callers)

lemma accepted_close [simp]: "accepted (close_pipe c) = accepted c"
  by (simp add: close_pipe_def) (simp add: accepted_def)

lemma accepted_stop [simp]: "accepted (stop_reader c) = accepted c"
  by (simp add: stop_reader_def) (simp add: accepted_def)

lemma accepted_updates [simp]:
  "accepted (c\<lparr>cc_sink := q\<rparr>) = accepted c" "accepted (c\<lparr>cc_router := r\<rparr>) = accepted c"
  "accepted (c\<lparr>cc_resumes := ps\<rparr>) = accepted c" "accepted (c\<lparr>cc_resuming := p\<rparr>) = accepted c"
  "accepted (c\<lparr>cc_resume_worker := w\<rparr>) = accepted c" "accepted (c\<lparr>cc_reserved := k\<rparr>) = accepted c"
  by (simp_all add: accepted_def)

subsection \<open>Each operation\<close>

lemma close_pipe_ok:
  "sink_ok (cc_sink c) \<Longrightarrow> router_ok (cc_router c) \<Longrightarrow> length (cc_resumes c) \<le> pause_resume_capacity \<Longrightarrow>
     cc_reserved c \<le> pending_reply_capacity \<Longrightarrow> control_ok (close_pipe c)"
  by (simp add: control_ok_def close_pipe_def drain_pending_def permits_used_def)

lemma control_okD:
  assumes "control_ok c"
  shows "sink_ok (cc_sink c)" "router_ok (cc_router c)" "length (cc_resumes c) \<le> pause_resume_capacity"
    "permits_used c \<le> pending_reply_capacity" "cc_stdin c = cc_slots_open c"
    "\<not> cc_stdin c \<Longrightarrow> cc_pending c = []" "\<not> cc_reader c \<Longrightarrow> \<not> cc_stdin c"
  using assms unfolding control_ok_def by blast+

lemma stop_reader_ok: "control_ok c \<Longrightarrow> control_ok (stop_reader c)"
  by (auto simp: control_ok_def stop_reader_def close_pipe_def drain_pending_def permits_used_def)

text \<open>
  A write that holds a permit: accepted at the end of the order or not at all, and the permit
  ends in the FIFO or is free again.
\<close>

lemma write_target_step:
  assumes ok: "control_ok c" and held: "0 < cc_reserved c"
    and wr: "write_target cmd t io c = (r, c')"
  shows "control_ok c' \<and> accepted c' \<in> {accepted c, accepted c @ callers [t]}
    \<and> (r = Inr () \<longrightarrow> accepted c' = accepted c @ callers [t] \<and> cc_wire c' = cc_wire c @ [cmd @ [newline_byte]])"
proof (cases "cc_stdin c")
  case False
  then have "r = Inl Disconnected" "c' = c\<lparr>cc_reserved := cc_reserved c - 1\<rparr>"
    using wr by (auto simp: write_target_def Let_def)
  then show ?thesis
    using ok by (auto simp: control_ok_def permits_used_def)
next
  case True
  let ?c = "c\<lparr>cc_reserved := cc_reserved c - 1, cc_pending := cc_pending c @ [t]\<rparr>"
  have accepted': "accepted ?c = accepted c @ callers [t]"
    by (simp add: accepted_def)
  show ?thesis
  proof (cases "write_command_line io (length cmd + 1) 0 = Written")
    case written: True
    then have "r = Inr ()"
      "c' = ?c\<lparr>cc_issued := (cc_issued c + 1) mod 2 ^ 64, cc_wire := cc_wire c @ [cmd @ [newline_byte]]\<rparr>"
      using wr True by (auto simp: write_target_def Let_def)
    then show ?thesis
      using ok held True by (auto simp: control_ok_def permits_used_def accepted_def)
  next
    case failed: False
    then have "c' = drain_pending (?c\<lparr>cc_stdin := False, cc_slots_open := False\<rparr>)" "r \<noteq> Inr ()"
      using wr True
      by (auto simp: write_target_def poison_after_write_failure_def Let_def split: write_result.splits)
    then show ?thesis
      using ok held accepted'
      by (auto simp: control_ok_def permits_used_def drain_pending_def accepted_def disconnect_all_callers)
  qed
qed

lemma reserve_ok:
  "control_ok c \<Longrightarrow> control_ok (snd (reserve_capacity c)) \<and> accepted (snd (reserve_capacity c)) = accepted c"
  by (auto simp: reserve_capacity_def control_ok_def permits_used_def accepted_def)

lemma release_ok: "control_ok c \<Longrightarrow> control_ok (c\<lparr>cc_reserved := cc_reserved c - 1\<rparr>)"
  by (auto simp: control_ok_def permits_used_def)

lemma submit_target_step:
  assumes ok: "control_ok c" and submit: "submit_target cmd t io c = (r, c')"
  shows "control_ok c' \<and> accepted c' \<in> {accepted c, accepted c @ callers [t]}
    \<and> (r = Inr () \<longrightarrow> accepted c' = accepted c @ callers [t] \<and> cc_wire c' = cc_wire c @ [cmd @ [newline_byte]])"
proof (cases "validate_command_line cmd = Inr () \<and> cc_slots_open c \<and> permits_used c < pending_reply_capacity")
  case True
  let ?c = "c\<lparr>cc_reserved := cc_reserved c + 1\<rparr>"
  have "control_ok ?c" "write_target cmd t io ?c = (r, c')"
    using ok submit True by (auto simp: control_ok_def permits_used_def submit_target_def)
  then show ?thesis
    using write_target_step [of ?c cmd t io r c'] by (simp add: accepted_def)
next
  case False
  then have "c' = c" "r \<noteq> Inr ()"
    using submit by (auto simp: submit_target_def split: sum.splits if_splits)
  then show ?thesis using ok by simp
qed

lemma submit_resume_step:
  assumes ok: "control_ok c" and submit: "submit_resume cmd pane io c = (r, c')"
  shows "control_ok c' \<and> accepted c' = accepted c"
proof (cases "validate_command_line cmd = Inr () \<and> cc_slots_open c \<and> permits_used c < pending_reply_capacity")
  case True
  let ?c = "c\<lparr>cc_reserved := cc_reserved c + 1\<rparr>"
  obtain w where "control_ok ?c" "write_target cmd (ResumePane pane) io ?c = (w, c')"
    using ok submit True
    by (auto simp: control_ok_def permits_used_def submit_resume_def reserve_capacity_def split: prod.splits)
  then show ?thesis
    using write_target_step [of ?c cmd "ResumePane pane" io w c'] by (simp add: accepted_def)
next
  case False
  then have "c' = c"
    using submit by (auto simp: submit_resume_def reserve_capacity_def split: sum.splits if_splits)
  then show ?thesis using ok by simp
qed

lemma write_resume_ok:
  assumes ok: "control_ok c"
  shows "control_ok (write_resume io c) \<and> accepted (write_resume io c) = accepted c"
proof (cases "if cc_resume_worker c then cc_resuming c else None")
  case None
  then show ?thesis using ok by (simp add: write_resume_def)
next
  case (Some pane)
  obtain r c' where r: "submit_resume (resume_command pane) pane io c = (r, c')" by force
  have c': "control_ok c'" "accepted c' = accepted c"
    using submit_resume_step [OF ok r] by simp_all
  have "control_ok (c'\<lparr>cc_resuming := x\<rparr>)" "control_ok ((close_pipe c')\<lparr>cc_resume_worker := w, cc_resuming := x\<rparr>)" for w x
    using c'(1) by (auto simp: control_ok_def permits_used_def close_pipe_def drain_pending_def)
  then show ?thesis
    using Some r c' by (auto simp: write_resume_def split: option.splits sum.splits)
qed

lemma take_resume_ok:
  assumes "control_ok c"
  shows "control_ok (take_resume c) \<and> accepted (take_resume c) = accepted c"
proof (cases "cc_resume_worker c \<and> cc_resuming c = None \<and> cc_resumes c \<noteq> []")
  case True
  then obtain pane rest where "cc_resumes c = pane # rest" by (cases "cc_resumes c") auto
  then show ?thesis
    using assms True by (auto simp: take_resume_def control_ok_def permits_used_def)
next
  case False
  then have "take_resume c = c"
    by (auto simp: take_resume_def split: option.splits list.splits)
  then show ?thesis using assms by simp
qed

lemma send_reserved_step:
  assumes ok: "control_ok c" and held: "0 < cc_reserved c"
    and send: "send_keys_unconfirmed_reserved True pane_id keys caller io c = (r, c')"
  shows "control_ok c' \<and> accepted c' \<in> {accepted c, accepted c @ [caller]}"
proof (cases "\<exists>cmd. send_keys_commands pane_id keys = [cmd] \<and> validate_command_line cmd = Inr ()")
  case True
  then obtain cmd where "write_target cmd (Caller caller) io c = (r, c')"
    using send by (auto simp: send_keys_unconfirmed_reserved_def)
  from write_target_step [OF ok held this] show ?thesis by auto
next
  case False
  then have "c' = c\<lparr>cc_reserved := cc_reserved c - 1\<rparr>"
    using send by (auto simp: send_keys_unconfirmed_reserved_def split: list.splits sum.splits)
  then show ?thesis using release_ok [OF ok] by simp
qed

lemma router_feed_ok:
  assumes "router_ok r" and "feed line r = (out, r')"
  shows "router_ok r'"
proof (cases r)
  case None
  then show ?thesis
    using assms(2) by (auto simp: feed_def router_ok_def control_block_max_lines_def split: option.splits)
next
  case (Some b)
  then show ?thesis
    using assms
    by (auto simp: feed_def router_ok_def Let_def split: option.splits if_splits)
qed

lemma forward_ok:
  assumes ok: "control_ok c" and fwd: "forward_notification n c = (fits, c')"
  shows "control_ok c' \<and> accepted c' = accepted c \<and> cc_resumes c' = cc_resumes c
    \<and> cc_resume_worker c' = cc_resume_worker c"
proof -
  obtain r q where q: "enqueue_notification n (cc_sink c) = (r, q)" by force
  then have "c' = c\<lparr>cc_sink := q\<rparr>" using fwd by (simp add: forward_notification_def)
  then show ?thesis
    using ok enqueue_ok [OF control_okD(1) [OF ok] q] by (auto simp: control_ok_def permits_used_def)
qed

lemma on_notification_ok:
  assumes ok: "control_ok c"
  shows "control_ok (on_notification n c) \<and> accepted (on_notification n c) = accepted c"
proof -
  obtain fits c' where f: "forward_notification n c = (fits, c')" by force
  have c': "control_ok c'" "accepted c' = accepted c" using forward_ok [OF ok f] by simp_all
  have "control_ok (c'\<lparr>cc_resumes := cc_resumes c' @ [pane]\<rparr>)"
    if "\<not> length (cc_resumes c') \<ge> pause_resume_capacity" for pane
    using c'(1) that by (auto simp: control_ok_def permits_used_def)
  then show ?thesis
    using c' stop_reader_ok [OF c'(1)] unfolding on_notification_def f
    by (cases fits) (simp_all split: tmux_notification.split)
qed

lemma on_reply_ok:
  assumes ok: "control_ok c"
  shows "control_ok (on_reply client outcome c) \<and> accepted (on_reply client outcome c) = accepted c"
proof (cases "client \<and> cc_pending c \<noteq> []")
  case True
  then obtain t ts where ts: "cc_pending c = t # ts" by (cases "cc_pending c") auto
  show ?thesis
  proof (cases t)
    case (Caller n)
    then show ?thesis
      using ok True ts by (auto simp: on_reply_def control_ok_def permits_used_def accepted_def)
  next
    case (ResumePane pane)
    let ?c = "c\<lparr>cc_pending := ts\<rparr>"
    have c: "control_ok ?c" "accepted ?c = accepted c"
      using ok ts ResumePane by (auto simp: control_ok_def permits_used_def accepted_def)
    obtain fits c' where f: "forward_notification (Continue pane) ?c = (fits, c')" by force
    have "control_ok c'" "accepted c' = accepted c" using forward_ok [OF c(1) f] c(2) by simp_all
    then show ?thesis
      using True ts ResumePane c stop_reader_ok [of c'] f
      by (cases fits; cases outcome) (auto simp: on_reply_def Let_def)
  qed
next
  case False
  then have "on_reply client outcome c = c" by (auto simp: on_reply_def)
  then show ?thesis using ok by simp
qed

lemma read_step_ok:
  assumes ok: "control_ok c"
  shows "control_ok (read_step line c) \<and> accepted (read_step line c) = accepted c"
proof (cases "cc_reader c")
  case True
  obtain out r where f: "feed line (cc_router c) = (out, r)" by force
  let ?c = "c\<lparr>cc_router := r\<rparr>"
  have "control_ok ?c"
    using ok router_feed_ok [OF control_okD(2) [OF ok] f] by (auto simp: control_ok_def permits_used_def)
  then show ?thesis
    using True f on_notification_ok [of ?c] on_reply_ok [of ?c] stop_reader_ok [of ?c]
    by (auto simp: read_step_def Let_def split: option.splits routed.splits)
qed (use ok in \<open>simp add: read_step_def\<close>)

text \<open>The caller that an event may add to the order.\<close>

fun submits :: "control_event \<Rightarrow> nat list" where
  "submits (Submit caller _ _) = [caller]"
| "submits (SendReserved _ _ caller _) = [caller]"
| "submits _ = []"

lemma control_step_ok:
  assumes ok: "control_ok c"
  shows "control_ok (control_step e c) \<and> accepted (control_step e c) \<in> {accepted c, accepted c @ submits e}"
proof (cases e)
  case (Submit caller cmd io)
  obtain r c' where "submit_target cmd (Caller caller) io c = (r, c')" by force
  then show ?thesis using submit_target_step [OF ok] Submit by fastforce
next
  case (SendReserved pane_id keys caller io)
  obtain r c' where r: "send_keys_unconfirmed_reserved True pane_id keys caller io c = (r, c')" by force
  then show ?thesis
    using send_reserved_step [OF ok _ r] SendReserved ok by (cases "cc_reserved c = 0") auto
next
  case ClosePipe
  then show ?thesis
    using ok by (auto simp: control_ok_def permits_used_def close_pipe_def drain_pending_def accepted_def
        disconnect_all_callers)
next
  case ReadEnd
  then show ?thesis using ok stop_reader_ok [OF ok] by (simp add: read_end_def)
qed (use ok reserve_ok [OF ok] release_ok [OF ok] take_resume_ok [OF ok] write_resume_ok [OF ok]
    read_step_ok [OF ok] receive_ok [OF control_okD(1) [OF ok]] hold_ok [OF control_okD(1) [OF ok]]
    resume_ok [OF control_okD(1) [OF ok]] drop_receiver_ok in \<open>auto simp: control_ok_def permits_used_def\<close>)

lemma connection_new_ok: "control_ok connection_new"
  by (simp add: control_ok_def connection_new_def permits_used_def sink_ok_new router_ok_def)

lemma control_run_ok:
  assumes "control_ok c"
  shows "control_ok (control_run events c)
    \<and> (\<exists>new. accepted (control_run events c) = accepted c @ new \<and> subseq new (concat (map submits events)))"
  using assms
proof (induction events arbitrary: c)
  case (Cons e events)
  note ok = control_step_ok [OF Cons.prems, of e]
  then obtain new where run: "control_ok (control_run events (control_step e c))"
      "accepted (control_run events (control_step e c)) = accepted (control_step e c) @ new"
      "subseq new (concat (map submits events))"
    using Cons.IH [of "control_step e c"] by auto
  obtain first where first: "accepted (control_step e c) = accepted c @ first" "subseq first (submits e)"
    using ok by auto
  have "subseq (first @ new) (submits e @ concat (map submits events))"
    using first(2) run(3) by (rule list_emb_append_mono)
  then show ?case
    using run first(1) by (auto simp: control_run_def)
qed (simp add: control_run_def)

end
