(* ===== verification/Tmux_Stream.thy ===== *)
theory Tmux_Stream
  imports Tmux_Laws
begin

text \<open>
  The streams of a control connection against what they carry: lines against the chunks they
  arrive in, reply blocks against the lines of one, notifications against what the consumer gets,
  and quoted arguments against the words a shell-like parser reads.
\<close>

section \<open>Lines\<close>

text \<open>The first line of a byte stream with its newline, or all of it when there is none.\<close>

definition first_line :: "string \<Rightarrow> string" where
  "first_line s = fst (take_line s)"

lemma take_line_append:
  "take_line (a @ b) =
     (case take_line a of
        (x, y, True) \<Rightarrow> (x, y @ b, True)
      | (x, y, False) \<Rightarrow> (case take_line b of (u, v, complete) \<Rightarrow> (x @ u, v, complete)))"
  by (induction a) (auto split: prod.splits bool.splits)

lemma take_line_split: "take_line s = (a, b, complete) \<Longrightarrow> s = a @ b"
  by (induction s arbitrary: a b) (auto split: if_splits prod.splits)

lemma take_line_incomplete: "take_line s = (a, b, False) \<Longrightarrow> a = s \<and> b = []"
  by (induction s arbitrary: a b) (auto split: if_splits prod.splits)

lemma first_line_append:
  "take_line a = (taken, left, complete) \<Longrightarrow>
     first_line (a @ b) = (if complete then taken else taken @ first_line b)"
  by (auto simp: first_line_def take_line_append split: prod.splits)

lemma read_control_line_spec:
  assumes "\<forall>chunk\<in>set chunks. chunk \<noteq> []" and "length line \<le> control_line_max_bytes"
  shows "case read_control_line line chunks of
      None \<Rightarrow> length (line @ first_line (concat chunks)) > control_line_max_bytes
    | Some (l, rest) \<Rightarrow> l = line @ first_line (concat chunks) \<and> length l \<le> control_line_max_bytes
        \<and> line @ concat chunks = l @ concat rest"
  using assms
proof (induction line chunks rule: read_control_line.induct)
  case (1 line)
  then show ?case by (simp add: first_line_def)
next
  case (2 line available chunks)
  obtain taken left complete where t: "take_line available = (taken, left, complete)"
    by (cases "take_line available") auto
  note first = first_line_append [OF t, of "concat chunks"]
  have avail: "available = taken @ left" "available \<noteq> []"
    using take_line_split [OF t] 2(2) by auto
  consider "length line + length taken > control_line_max_bytes"
    | "length line + length taken \<le> control_line_max_bytes" complete
    | "length line + length taken \<le> control_line_max_bytes" "\<not> complete"
    by linarith
  then show ?case
  proof cases
    case 1
    then show ?thesis using avail(2) t first by (cases complete) simp_all
  next
    case 2
    then have "read_control_line line (available # chunks) =
        Some (line @ taken, if left = [] then chunks else left # chunks)"
      using avail(2) t by simp
    then show ?thesis
      using 2 first avail(1) by simp
  next
    case 3
    then have "taken = available" "left = []" using take_line_incomplete t by auto
    moreover have "read_control_line line (available # chunks) = read_control_line (line @ taken) chunks"
      using 3 avail(2) t by simp
    moreover have "case read_control_line (line @ taken) chunks of
        None \<Rightarrow> length ((line @ taken) @ first_line (concat chunks)) > control_line_max_bytes
      | Some (l, rest) \<Rightarrow> l = (line @ taken) @ first_line (concat chunks) \<and> length l \<le> control_line_max_bytes
          \<and> (line @ taken) @ concat chunks = l @ concat rest"
      by (rule "2.IH" [OF avail(2) t [symmetric] refl]) (use 3 "2.prems" in auto)
    ultimately show ?thesis
      using 3 first by (auto split: option.splits)
  qed
qed

section \<open>Reply blocks\<close>

text \<open>The outcomes of feeding several lines, and the router after them.\<close>

fun feed_all :: "string list \<Rightarrow> line_router \<Rightarrow> routed list \<times> line_router" where
  "feed_all [] r = ([], r)"
| "feed_all (line # lines) r =
     (case feed line r of (out, r) \<Rightarrow>
        (case feed_all lines r of (outs, r) \<Rightarrow>
           ((case out of None \<Rightarrow> [] | Some x \<Rightarrow> [x]) @ outs, r)))"

lemma feed_all_append:
  "feed_all (xs @ ys) r =
     (case feed_all xs r of (outs, r) \<Rightarrow> (case feed_all ys r of (outs', r) \<Rightarrow> (outs @ outs', r)))"
  by (induction xs arbitrary: r) (auto split: prod.splits)

text \<open>Content of a block: no terminator with the block's number.\<close>

definition block_content :: "nat option \<Rightarrow> string \<Rightarrow> bool" where
  "block_content num line =
     ((\<forall>rest. line = ''%end '' @ rest \<or> line = ''%error '' @ rest \<longrightarrow> block_num rest \<noteq> num)
      \<and> (line = ''%end'' \<longrightarrow> num \<noteq> None))"

lemma block_num_Nil: "block_num [] = None"
  by (simp add: block_num_def block_field_def)

lemma block_end_content: "block_content (ob_command b) line \<Longrightarrow> block_end b line = None"
  by (auto simp: block_end_def block_content_def strip_prefix_Some block_num_Nil split: option.splits)

lemma feed_content:
  assumes "\<forall>line\<in>set content. block_content (ob_command b) line"
    and "ob_bytes b + sum_list (map (\<lambda>line. length line + 1) content) \<le> control_block_max_bytes"
    and "length (ob_lines b) + length content \<le> control_block_max_lines"
  shows "feed_all content (Some b) =
    ([], Some (b\<lparr>ob_bytes := ob_bytes b + sum_list (map (\<lambda>line. length line + 1) content),
               ob_lines := ob_lines b @ map from_utf8_lossy content\<rparr>))"
  using assms
proof (induction content arbitrary: b)
  case (Cons line content)
  let ?b = "b\<lparr>ob_bytes := ob_bytes b + length line + 1, ob_lines := ob_lines b @ [from_utf8_lossy line]\<rparr>"
  have "feed line (Some b) = (None, Some ?b)"
    using Cons.prems block_end_content [of b line] by (auto simp: feed_def Let_def)
  then show ?case
    using Cons.IH [of ?b] Cons.prems by (simp add: algebra_simps)
qed simp

section \<open>Notifications\<close>

datatype stream_event = Produce tmux_notification | Consume | Hold | Reconciled

text \<open>
  The queue with what was produced and what was consumed since the stream last began, and the
  consumer's hold: the epoch it was given when it last held the stream, and how many notifications were
  produced after that. A consumer that has reconciled resumes with that epoch, as
  \<open>watcher.rs\<close> and \<open>app.rs\<close> do; a granted resumption begins the stream anew.
\<close>

record stream_state =
  st_sink :: notification_sink
  st_produced :: "tmux_notification list"
  st_consumed :: "tmux_notification list"
  st_hold :: "(nat \<times> nat) option"

definition stream_new :: stream_state where
  "stream_new = \<lparr>st_sink = sink_new, st_produced = [], st_consumed = [], st_hold = None\<rparr>"

primrec stream_step :: "stream_event \<Rightarrow> stream_state \<Rightarrow> stream_state" where
  "stream_step (Produce n) s =
     s\<lparr>st_sink := snd (enqueue_notification n (st_sink s)), st_produced := st_produced s @ [n],
       st_hold := map_option (\<lambda>(epoch, missed). (epoch, Suc missed)) (st_hold s)\<rparr>"
| "stream_step Consume s =
     (case receive (st_sink s) of
        (None, q) \<Rightarrow> s
      | (Some n, q) \<Rightarrow> s\<lparr>st_sink := q, st_consumed := st_consumed s @ [n]\<rparr>)"
| "stream_step Hold s =
     (case hold_continuity (st_sink s) of (epoch, q) \<Rightarrow> s\<lparr>st_sink := q, st_hold := Some (epoch, 0)\<rparr>)"
| "stream_step Reconciled s =
     (case st_hold s of
        None \<Rightarrow> s
      | Some (epoch, missed) \<Rightarrow>
          (case resume_after_reconcile epoch (st_sink s) of
             (False, q) \<Rightarrow> s
           | (True, q) \<Rightarrow> s\<lparr>st_sink := q, st_produced := [], st_consumed := [], st_hold := None\<rparr>))"

definition stream_run :: "stream_event list \<Rightarrow> stream_state \<Rightarrow> stream_state" where
  "stream_run events s = fold stream_step events s"

text \<open>Every notification fits the queue by itself, and the marker is never produced.\<close>

primrec proper :: "stream_event \<Rightarrow> bool" where
  "proper (Produce n) = (n \<noteq> ContinuityLost \<and> permit_bytes n \<le> notification_max_queued_bytes)"
| "proper Consume = True"
| "proper Hold = True"
| "proper Reconciled = True"

text \<open>
  What the consumer has and will get is an initial part of what was produced, followed by the
  marker when the rest was dropped for lack of room; without the marker something is missing only
  while the consumer itself holds the stream.
\<close>

definition seen :: "stream_state \<Rightarrow> tmux_notification list" where
  "seen s = st_consumed s @ map fst (ns_queue (st_sink s))"

definition accounts :: "stream_state \<Rightarrow> nat \<Rightarrow> tmux_notification list \<Rightarrow> bool" where
  "accounts s k tail = (seen s = take k (st_produced s) @ tail
     \<and> k \<le> length (st_produced s)
     \<and> (tail = [] \<and> (k < length (st_produced s) \<longrightarrow> st_hold s \<noteq> None)
        \<or> tail = [ContinuityLost] \<and> k < length (st_produced s))
     \<and> (ns_gap_pending (st_sink s) \<longrightarrow> st_hold s \<noteq> None \<or> tail = [ContinuityLost])
     \<and> (\<not> ns_gap_pending (st_sink s) \<longrightarrow> k = length (st_produced s) \<and> tail = []))"

text \<open>The epoch has moved by one for each notification produced since the hold.\<close>

definition held_ok :: "stream_state \<Rightarrow> bool" where
  "held_ok s = (ns_gap_epoch (st_sink s) < 2 ^ 64
     \<and> (\<forall>epoch missed. st_hold s = Some (epoch, missed) \<longrightarrow>
          ns_gap_pending (st_sink s) \<and> epoch < 2 ^ 64 \<and> ns_gap_epoch (st_sink s) = (epoch + missed) mod 2 ^ 64))"

definition stream_ok :: "stream_state \<Rightarrow> bool" where
  "stream_ok s = (sink_ok (st_sink s) \<and> ns_receiver_open (st_sink s) \<and> held_ok s \<and> (\<exists>k tail. accounts s k tail))"

lemma stream_okI:
  "sink_ok (st_sink s) \<Longrightarrow> ns_receiver_open (st_sink s) \<Longrightarrow> held_ok s \<Longrightarrow> accounts s k tail \<Longrightarrow> stream_ok s"
  by (auto simp: stream_ok_def)

lemma stream_ok_new: "stream_ok stream_new"
  by (rule stream_okI [of _ 0 "[]"])
    (simp_all add: stream_new_def accounts_def seen_def sink_ok_new held_ok_def, simp_all add: sink_new_def)

lemma produce_ok:
  assumes ok: "stream_ok s" and fits: "permit_bytes n \<le> notification_max_queued_bytes"
  shows "stream_ok (stream_step (Produce n) s)"
proof -
  obtain k tail where acc: "accounts s k tail" and sink: "sink_ok (st_sink s)" "ns_receiver_open (st_sink s)" "held_ok s"
    using ok unfolding stream_ok_def by auto
  obtain r q where enq: "enqueue_notification n (st_sink s) = (r, q)" by force
  have step: "stream_step (Produce n) s = s\<lparr>st_sink := q, st_produced := st_produced s @ [n],
      st_hold := map_option (\<lambda>(epoch, missed). (epoch, Suc missed)) (st_hold s)\<rparr>"
    by (simp add: enq)
  have qok: "sink_ok q" using sink(1) enq by (rule enqueue_ok)
  from sink(1) enq show ?thesis
  proof (cases rule: enqueue_cases)
    case held
    show ?thesis
      unfolding step
      by (rule stream_okI [of _ k tail])
        (use held qok sink(2,3) acc in \<open>auto simp: bump_epoch_def accounts_def seen_def held_ok_def mod_Suc_eq\<close>)
  next
    case gap
    show ?thesis
      unfolding step
      by (rule stream_okI [of _ "length (st_produced s)" "[ContinuityLost]"])
        (use gap qok acc sink(3) in \<open>auto simp: accounts_def seen_def marker_def held_ok_def\<close>)
  next
    case sent
    show ?thesis
      unfolding step
      by (rule stream_okI [of _ "Suc (length (st_produced s))" "[]"])
        (use sent qok acc sink(3) in \<open>auto simp: accounts_def seen_def held_ok_def\<close>)
  qed (use fits sink(2) in auto)
qed

lemma stream_step_ok:
  assumes ok: "stream_ok s" and proper: "proper e"
  shows "stream_ok (stream_step e s)"
proof -
  obtain k tail where acc: "accounts s k tail" and sink: "sink_ok (st_sink s)" "ns_receiver_open (st_sink s)" "held_ok s"
    using ok unfolding stream_ok_def by auto
  show ?thesis
  proof (cases e)
    case (Produce n)
    then show ?thesis using produce_ok [OF ok] proper by simp
  next
    case Consume
    show ?thesis
    proof (cases "ns_queue (st_sink s)")
      case Nil
      then show ?thesis using ok Consume by (simp add: receive_def)
    next
      case (Cons x xs)
      obtain n permit where x: "x = (n, permit)" by force
      show ?thesis
        by (rule stream_okI [of _ k tail])
          (use Cons Consume x acc sink receive_ok [OF sink(1)] in \<open>auto simp: receive_def accounts_def seen_def held_ok_def\<close>)
    qed
  next
    case Hold
    show ?thesis
      by (rule stream_okI [of _ k tail])
        (use Hold acc sink hold_ok [OF sink(1)] in
          \<open>auto simp: hold_continuity_def accounts_def seen_def held_ok_def\<close>)
  next
    case Reconciled
    show ?thesis
    proof (cases "\<exists>epoch missed. st_hold s = Some (epoch, missed) \<and> ns_gap_epoch (st_sink s) = epoch")
      case True
      then obtain epoch missed where "st_hold s = Some (epoch, missed)" "ns_gap_epoch (st_sink s) = epoch" by blast
      then show ?thesis
        by (intro stream_okI [of _ 0 "[]"])
          (use Reconciled sink resume_ok [OF sink(1), of epoch] in
            \<open>auto simp: resume_after_reconcile_def accounts_def seen_def held_ok_def\<close>)
    next
      case False
      then show ?thesis using Reconciled ok by (auto simp: resume_after_reconcile_def split: option.splits)
    qed
  qed
qed

lemma stream_run_ok: "stream_ok s \<Longrightarrow> list_all proper events \<Longrightarrow> stream_ok (stream_run events s)"
  by (induction events arbitrary: s) (simp_all add: stream_run_def stream_step_ok)

text \<open>The epoch of a hold is current just when nothing was produced since.\<close>

lemma epoch_current: "(epoch + missed) mod m = epoch \<longleftrightarrow> missed = 0" if "epoch < m" "missed < m" for epoch :: nat
  using that by (auto simp: mod_if)

lemma hold_resumes:
  assumes "held_ok s" and "st_hold s = Some (epoch, missed)" and "missed < 2 ^ 64"
  shows "fst (resume_after_reconcile epoch (st_sink s)) \<longleftrightarrow> missed = 0"
  using assms epoch_current [of epoch "2 ^ 64" missed] by (auto simp: held_ok_def resume_after_reconcile_def)

end
