(* ===== verification/Tmux_Properties.thy ===== *)
theory Tmux_Properties
  imports Tmux_Stream
begin

text \<open>
  The properties of the tmux control client: pane bytes, reply blocks, lines, quoting, the order of
  answers, the explicit gaps of the notification stream and the limits on what a connection keeps.
\<close>

section \<open>Bytes and lines\<close>

lemma split_once_space: "CHR '' '' \<notin> set a \<Longrightarrow> split_once CHR '' '' (a @ CHR '' '' # b) = Some (a, b)"
  by (rule split_once_append)

text \<open>C35. The bytes of a pane arrive unchanged. However tmux escapes them, as long as it escapes
every backslash, and whether or not the line is valid UTF-8, an output line is parsed into the
pane it names and exactly those bytes.\<close>

theorem pane_bytes_survive:
  assumes "CHR '' '' \<notin> set pane" and "utf8_valid pane"
    and "\<forall>(x, escaped)\<in>set bytes. x = CHR 0x5C \<longrightarrow> escaped"
  shows "parse_notification_bytes (''%output '' @ pane @ CHR '' '' # tmux_escape bytes) = Output pane (map fst bytes)"
proof -
  let ?rest = "pane @ CHR '' '' # tmux_escape bytes"
  have rest: "split_once CHR '' '' ?rest = Some (pane, tmux_escape bytes)"
    using assms(1) by (rule split_once_append)
  have word: "split_once CHR '' '' (''%output '' @ ?rest) = Some (''%output'', ?rest)"
    using split_once_append [of "CHR '' ''" "''%output''" ?rest] by simp
  have "parse_notification (''%output '' @ ?rest) = Output pane (map fst bytes)"
    unfolding parse_notification_def word
    by (simp add: parse_output_def rest unescape_octal_def unescape_tmux_escape [OF assms(3)])
  moreover have "parse_output_bytes (''%output '' @ ?rest) = Some (Output pane (map fst bytes))"
    unfolding parse_output_bytes_def strip_prefix_append
    by (simp add: rest assms(2) unescape_tmux_escape [OF assms(3)])
  ultimately show ?thesis
    by (simp add: parse_notification_bytes_def)
qed

theorem pane_bytes_survive_witness:
  "parse_notification_bytes (''%output %3 '' @ tmux_escape [(CHR 0x1B, True), (CHR 0xE2, False), (CHR 0x5C, True)])
     = Output ''%3'' [CHR 0x1B, CHR 0xE2, CHR 0x5C]"
proof -
  have "utf8_valid ''%3''" by (rule utf8_valid_ascii) simp
  then show ?thesis
    using pane_bytes_survive [of "''%3''" "[(CHR 0x1B, True), (CHR 0xE2, False), (CHR 0x5C, True)]"] by simp
qed

text \<open>How the operating system cuts the stream into chunks plays no part: the reader returns
the first line of the concatenated bytes and leaves exactly the bytes after it, and it refuses
just the lines that are longer than the limit.\<close>

theorem lines_ignore_chunking:
  assumes "\<forall>chunk\<in>set chunks. chunk \<noteq> []"
  shows "case read_control_line [] chunks of
      None \<Rightarrow> length (first_line (concat chunks)) > control_line_max_bytes
    | Some (line, rest) \<Rightarrow> line = first_line (concat chunks) \<and> length line \<le> control_line_max_bytes
        \<and> concat chunks = line @ concat rest"
  using read_control_line_spec [OF assms, of "[]"] by (auto split: option.splits)

theorem lines_ignore_chunking_witness:
  "read_control_line [] [''%en'', ''d'' @ [newline_byte] @ ''%'', ''exit''] = Some (''%end'' @ [newline_byte], [''%'', ''exit''])
   \<and> first_line (concat [''%en'', ''d'' @ [newline_byte] @ ''%'', ''exit'']) = ''%end'' @ [newline_byte]"
proof
  show eq: "read_control_line [] [''%en'', ''d'' @ [newline_byte] @ ''%'', ''exit''] = Some (''%end'' @ [newline_byte], [''%'', ''exit''])"
    by (simp add: newline_byte_def control_line_max_bytes_def)
  show "first_line (concat [''%en'', ''d'' @ [newline_byte] @ ''%'', ''exit'']) = ''%end'' @ [newline_byte]"
    using lines_ignore_chunking [of "[''%en'', ''d'' @ [newline_byte] @ ''%'', ''exit'']"] unfolding eq by simp
qed

text \<open>A reply block is closed only by a terminator with its own number, and then the caller
gets every line of it, in order: content that looks like the end of another block, or like a
notification, stays content. Within the limits on lines and bytes the block becomes exactly one
reply, and the router is ready for the next line.\<close>

theorem reply_block_collected:
  assumes "block_num header = block_num trailer"
    and "\<forall>line\<in>set content. block_content (block_num header) line"
    and "sum_list (map (\<lambda>line. length line + 1) content) \<le> control_block_max_bytes"
    and "length content \<le> control_block_max_lines"
  shows "feed_all ([''%begin '' @ header] @ content @ [''%end '' @ trailer]) None =
    ([RReply (block_field header 2 = Some ''1'') (Inr (map from_utf8_lossy content))], None)"
proof -
  let ?b = "\<lparr>ob_client = (block_field header 2 = Some ''1''), ob_command = block_num header, ob_lines = [], ob_bytes = 0\<rparr>"
  have started: "feed (''%begin '' @ header) None = (None, Some ?b)"
    unfolding feed_def option.case strip_prefix_append by simp
  have content: "feed_all content (Some ?b) =
      ([], Some (?b\<lparr>ob_bytes := sum_list (map (\<lambda>line. length line + 1) content), ob_lines := map from_utf8_lossy content\<rparr>))"
    using feed_content [of content ?b] assms(2,3,4) by simp
  have ended: "feed (''%end '' @ trailer) (Some (?b\<lparr>ob_bytes := n, ob_lines := ls\<rparr>)) =
      (Some (RReply (block_field header 2 = Some ''1'') (Inr ls)), None)" for n ls
    unfolding feed_def block_end_def option.case strip_prefix_append using assms(1) by simp
  define first where "first = ''%begin '' @ header"
  define closing where "closing = ''%end '' @ trailer"
  have "feed_all ([first] @ content @ [closing]) None =
      ([RReply (block_field header 2 = Some ''1'') (Inr (map from_utf8_lossy content))], None)"
    using started content ended unfolding first_def [symmetric] closing_def [symmetric]
    by (simp add: feed_all_append)
  then show ?thesis unfolding first_def closing_def .
qed

theorem reply_block_collected_witness:
  "feed_all [''%begin 17 42 1'', ''%end 17 41 1'', ''%exit'', ''%end 17 42 1''] None =
     ([RReply True (Inr [''%end 17 41 1'', ''%exit''])], None)"
proof -
  have num: "block_num ''17 42 1'' = Some 42" "block_num ''17 41 1'' = Some 41"
    "block_field ''17 42 1'' 2 = Some ''1''"
    by (simp_all add: block_num_def block_field_def parse_unsigned_def parse_u64_def read_nat_def
        digit_value_def is_ascii_digit_def u64_max_def utf8_valid_ascii Let_def)
  have "utf8_valid ''%end 17 41 1''" "utf8_valid ''%exit''"
    by (rule utf8_valid_ascii, simp)+
  moreover have "block_content (Some 42) ''%end 17 41 1''" "block_content (Some 42) ''%exit''"
    using num by (auto simp: block_content_def)
  ultimately show ?thesis
    using reply_block_collected [of "''17 42 1''" "''17 42 1''" "[''%end 17 41 1'', ''%exit'']"] num
    by (simp add: from_utf8_lossy_valid control_block_max_bytes_def control_block_max_lines_def)
qed

section \<open>Commands\<close>

text \<open>
  How a shell-like parser reads a word: quotes group, a backslash outside them takes the next
  character, a space ends the word. The answer is the word and what follows it.
\<close>

fun read_word :: "bool \<Rightarrow> string \<Rightarrow> (string \<times> string) option" where
  "read_word quoted [] = (if quoted then None else Some ([], []))"
| "read_word True (c # s) =
     (if c = CHR 0x27 then read_word False s else map_option (\<lambda>(w, r). (c # w, r)) (read_word True s))"
| "read_word False (c # s) =
     (if c = CHR '' '' then Some ([], c # s)
      else if c = CHR 0x27 then read_word True s
      else if c = CHR 0x5C then
        (case s of [] \<Rightarrow> None | d # t \<Rightarrow> map_option (\<lambda>(w, r). (d # w, r)) (read_word False t))
      else map_option (\<lambda>(w, r). (c # w, r)) (read_word False s))"

definition line_breaker :: "char \<Rightarrow> bool" where
  "line_breaker c = (c = CHR 0x0A \<or> c = CHR 0x0D \<or> c = CHR 0x00)"

lemma read_word_end: "rest = [] \<or> hd rest = CHR '' '' \<Longrightarrow> read_word False rest = Some ([], rest)"
  by (cases rest) auto

lemma read_quoted:
  assumes "rest = [] \<or> hd rest = CHR '' ''"
  shows "read_word True (concat (map quote_char s) @ CHR 0x27 # rest) =
    Some (filter (\<lambda>c. \<not> line_breaker c) s, rest)"
  by (induction s) (auto simp: quote_char_def line_breaker_def read_word_end [OF assms])

lemma quote_arg_no_breaks: "c \<in> set (quote_arg s) \<Longrightarrow> \<not> line_breaker c"
  by (auto simp: quote_arg_def quote_char_def line_breaker_def split: if_splits)

text \<open>A quoted argument is one word of the command line, whatever it contains: the parser
reads back the argument without its line breaks and NUL bytes and goes on right behind it, and
the quoted text cannot end the line.\<close>

theorem quoted_argument_is_one_word:
  assumes "rest = [] \<or> hd rest = CHR '' ''"
  shows "read_word False (quote_arg s @ rest) = Some (filter (\<lambda>c. \<not> line_breaker c) s, rest)
    \<and> validate_command_line (quote_arg s) = Inr ()"
proof
  show "read_word False (quote_arg s @ rest) = Some (filter (\<lambda>c. \<not> line_breaker c) s, rest)"
    using read_quoted [OF assms, of s] by (simp add: quote_arg_def)
  show "validate_command_line (quote_arg s) = Inr ()"
    using quote_arg_no_breaks [of "CHR 0x0A" s] quote_arg_no_breaks [of "CHR 0x0D" s]
    by (auto simp: validate_command_line_def refuse_if_def line_breaker_def)
qed

theorem quoted_argument_is_one_word_witness:
  "read_word False (quote_arg ''it; kill-server'' @ '' -x'') = Some (''it; kill-server'', '' -x'')"
proof -
  have words: "filter (\<lambda>c. \<not> line_breaker c) ''it; kill-server'' = ''it; kill-server''"
    by code_simp
  have "read_word False (quote_arg ''it; kill-server'' @ '' -x'') =
      Some (filter (\<lambda>c. \<not> line_breaker c) ''it; kill-server'', '' -x'')"
    by (rule conjunct1 [OF quoted_argument_is_one_word]) simp
  then show ?thesis unfolding words .
qed

text \<open>The keys of one input are sent in order and each exactly once: the commands carry the
consecutive groups of keys of one kind, neighbouring groups differ in kind, and no command
contains a line break.\<close>

lemma send_keys_groups:
  "\<exists>groups. concat groups = keys
     \<and> send_keys_commands pane keys = map (\<lambda>g. send_keys_command pane (is_key_name (hd g)) g) groups
     \<and> (\<forall>g\<in>set groups. g \<noteq> [] \<and> (\<forall>k\<in>set g. is_key_name k = is_key_name (hd g)))
     \<and> (\<forall>i. Suc i < length groups \<longrightarrow> is_key_name (hd (groups ! i)) \<noteq> is_key_name (hd (groups ! Suc i)))"
proof (induction pane keys rule: send_keys_commands.induct)
  case (1 pane)
  then show ?case by simp
next
  case (2 pane k ks)
  let ?same = "\<lambda>key. is_key_name key = is_key_name k"
  obtain groups where g: "concat groups = dropWhile ?same ks"
      "send_keys_commands pane (dropWhile ?same ks) = map (\<lambda>g. send_keys_command pane (is_key_name (hd g)) g) groups"
      "\<forall>g\<in>set groups. g \<noteq> [] \<and> (\<forall>k\<in>set g. is_key_name k = is_key_name (hd g))"
      "\<forall>i. Suc i < length groups \<longrightarrow> is_key_name (hd (groups ! i)) \<noteq> is_key_name (hd (groups ! Suc i))"
    using 2 by blast
  let ?first = "k # takeWhile ?same ks"
  have next_kind: "is_key_name (hd (groups ! 0)) \<noteq> is_key_name k" if ne: "groups \<noteq> []"
  proof -
    obtain h t where ht: "groups = h # t" "h \<noteq> []" using ne g(3) by (cases groups) auto
    then have "hd (dropWhile ?same ks) = hd h" "dropWhile ?same ks \<noteq> []"
      unfolding g(1) [symmetric] by simp_all
    then have "\<not> ?same (hd h)" using hd_dropWhile [of ?same ks] by metis
    then show ?thesis using ht by simp
  qed
  have "\<forall>i. Suc i < length (?first # groups) \<longrightarrow>
      is_key_name (hd ((?first # groups) ! i)) \<noteq> is_key_name (hd ((?first # groups) ! Suc i))"
  proof (intro allI impI)
    fix i assume i: "Suc i < length (?first # groups)"
    show "is_key_name (hd ((?first # groups) ! i)) \<noteq> is_key_name (hd ((?first # groups) ! Suc i))"
      using i g(4) next_kind by (cases i) auto
  qed
  note kinds = this
  have same: "\<forall>x\<in>set ?first. is_key_name x = is_key_name (hd ?first)"
  proof
    fix x assume "x \<in> set ?first"
    then have "x = k \<or> x \<in> set (takeWhile ?same ks)" by simp
    then show "is_key_name x = is_key_name (hd ?first)"
      unfolding list.sel using set_takeWhileD [of x ?same ks] by blast
  qed
  have "concat (?first # groups) = k # ks" using g(1) by simp
  moreover have "send_keys_commands pane (k # ks) =
      map (\<lambda>g. send_keys_command pane (is_key_name (hd g)) g) (?first # groups)"
    using g(2) by (simp add: Let_def)
  moreover have "\<forall>g\<in>set (?first # groups). g \<noteq> [] \<and> (\<forall>k\<in>set g. is_key_name k = is_key_name (hd g))"
    using same g(3) by (metis list.distinct(1) set_ConsD)
  ultimately show ?case using kinds by blast
qed

lemma send_keys_command_valid: "validate_command_line (send_keys_command pane named keys) = Inr ()"
proof -
  let ?clean = "list_all (\<lambda>c. \<not> line_breaker c)"
  have fixed: "?clean ''send-keys -t ''" "?clean '' -l''" "?clean '' --''" "?clean '' ''"
    by code_simp+
  have quoted: "?clean (quote_arg s)" for s
    using quote_arg_no_breaks by (simp add: list_all_iff)
  have "?clean (concat (map (\<lambda>key. CHR '' '' # quote_arg key) keys))"
    using fixed(4) quoted by (induction keys) simp_all
  then have "?clean (send_keys_command pane named keys)"
    unfolding send_keys_command_def list_all_append using fixed quoted by (cases named) simp_all
  then have "\<forall>c\<in>set (send_keys_command pane named keys). \<not> line_breaker c"
    by (simp only: list_all_iff)
  then have "CHR 0x0A \<notin> set (send_keys_command pane named keys)" "CHR 0x0D \<notin> set (send_keys_command pane named keys)"
    by (auto simp only: line_breaker_def)
  then show ?thesis by (simp only: validate_command_line_def refuse_if_def simp_thms if_False)
qed

theorem keys_sent_in_order:
  "(\<exists>groups. concat groups = keys
     \<and> send_keys_commands pane keys = map (\<lambda>g. send_keys_command pane (is_key_name (hd g)) g) groups
     \<and> (\<forall>g\<in>set groups. g \<noteq> [] \<and> (\<forall>k\<in>set g. is_key_name k = is_key_name (hd g)))
     \<and> (\<forall>i. Suc i < length groups \<longrightarrow> is_key_name (hd (groups ! i)) \<noteq> is_key_name (hd (groups ! Suc i))))
   \<and> (\<forall>cmd\<in>set (send_keys_commands pane keys). validate_command_line cmd = Inr ())"
proof
  obtain groups where "send_keys_commands pane keys = map (\<lambda>g. send_keys_command pane (is_key_name (hd g)) g) groups"
    using send_keys_groups [of keys pane] by blast
  then show "\<forall>cmd\<in>set (send_keys_commands pane keys). validate_command_line cmd = Inr ()"
    by (simp only:) (auto simp: send_keys_command_valid)
qed (rule send_keys_groups)

section \<open>The connection\<close>

text \<open>A pipe that takes every line at once, and one that fails at its first byte.\<close>

definition healthy_pipe :: pipe_io where
  "healthy_pipe = (\<lambda>_. Wrote 4096, True)"

definition broken_pipe :: pipe_io where
  "broken_pipe = (\<lambda>_. WriteFailed, True)"

text \<open>Two commands, the reply to the first, and a write that fails.\<close>

definition sample_control_events :: "control_event list" where
  "sample_control_events =
     [Submit 7 ''list-panes'' healthy_pipe, Submit 8 ''list-windows'' healthy_pipe,
      ReadLine ''%begin 17 1 1'', ReadLine ''%0'', ReadLine ''%end 17 1 1'',
      Submit 9 ''kill-pane'' broken_pipe]"

text \<open>The states of the sample run: everything but the write side is as in a new connection.\<close>

definition sample_connection ::
  "reply_target list \<Rightarrow> nat \<Rightarrow> string list \<Rightarrow> (nat \<times> (tmux_error, string list) result) list \<Rightarrow> line_router
     \<Rightarrow> control_connection" where
  "sample_connection pending issued wire answers router =
     connection_new\<lparr>cc_pending := pending, cc_issued := issued, cc_wire := wire, cc_answers := answers,
       cc_router := router\<rparr>"

lemma sample_submit:
  assumes "length cmd < 4096" "validate_command_line cmd = Inr ()" "length pending < 64" "issued < 1000"
  shows "control_step (Submit n cmd healthy_pipe) (sample_connection pending issued wire answers router) =
    sample_connection (pending @ [Caller n]) (Suc issued) (wire @ [cmd @ [newline_byte]]) answers router"
proof -
  have "write_command_line healthy_pipe (length cmd + 1) 0 = Written"
    using assms(1) by (simp add: healthy_pipe_def write_command_line.simps)
  then show ?thesis
    using assms by (simp add: submit_target_def permits_used_def pending_reply_capacity_def write_target_def
        connection_new_def sample_connection_def Let_def)
qed

lemma sample_broken:
  assumes "validate_command_line cmd = Inr ()" "length pending < 64"
  shows "cc_answers (control_step (Submit n cmd broken_pipe) (sample_connection pending issued wire answers router)) =
      answers @ disconnect_all (pending @ [Caller n])"
    and "\<not> cc_stdin (control_step (Submit n cmd broken_pipe) (sample_connection pending issued wire answers router))"
proof -
  have "write_command_line broken_pipe (length cmd + 1) 0 = Unwritten"
    by (simp add: broken_pipe_def write_command_line.simps)
  then have "control_step (Submit n cmd broken_pipe) (sample_connection pending issued wire answers router) =
      drain_pending ((sample_connection (pending @ [Caller n]) issued wire answers router)
        \<lparr>cc_stdin := False, cc_slots_open := False\<rparr>)"
    using assms by (simp add: submit_target_def permits_used_def pending_reply_capacity_def write_target_def
        connection_new_def sample_connection_def poison_after_write_failure_def Let_def)
  then show "cc_answers (control_step (Submit n cmd broken_pipe) (sample_connection pending issued wire answers router)) =
      answers @ disconnect_all (pending @ [Caller n])"
    and "\<not> cc_stdin (control_step (Submit n cmd broken_pipe) (sample_connection pending issued wire answers router))"
    by (simp_all add: drain_pending_def sample_connection_def)
qed

lemma sample_read:
  "feed line router = (None, router') \<Longrightarrow>
     control_step (ReadLine line) (sample_connection pending issued wire answers router) =
       sample_connection pending issued wire answers router'"
  "feed line router = (Some (RReply True (Inr ls)), None) \<Longrightarrow>
     control_step (ReadLine line) (sample_connection (Caller n # pending) issued wire answers router) =
       sample_connection pending issued wire (answers @ [(n, Inr ls)]) None"
  by (simp_all add: read_step_def on_reply_def connection_new_def sample_connection_def Let_def)

lemma sample_numbers:
  "block_num ''17 1 1'' = Some 1" "block_field ''17 1 1'' 2 = Some ''1''"
  by (simp_all add: block_num_def block_field_def parse_unsigned_def parse_u64_def read_nat_def
      digit_value_def is_ascii_digit_def u64_max_def utf8_valid_ascii Let_def)

lemma sample_feeds:
  "feed ''%begin 17 1 1'' None = (None, Some \<lparr>ob_client = True, ob_command = Some 1, ob_lines = [], ob_bytes = 0\<rparr>)"
  "feed ''%0'' (Some \<lparr>ob_client = True, ob_command = Some 1, ob_lines = [], ob_bytes = 0\<rparr>)
    = (None, Some \<lparr>ob_client = True, ob_command = Some 1, ob_lines = [''%0''], ob_bytes = 3\<rparr>)"
  "feed ''%end 17 1 1'' (Some \<lparr>ob_client = True, ob_command = Some 1, ob_lines = [''%0''], ob_bytes = 3\<rparr>)
    = (Some (RReply True (Inr [''%0''])), None)"
proof -
  have heads: "strip_prefix ''%begin '' ''%begin 17 1 1'' = Some ''17 1 1''" "strip_prefix ''%end '' ''%0'' = None"
    "strip_prefix ''%error '' ''%0'' = None" "strip_prefix ''%end '' ''%end 17 1 1'' = Some ''17 1 1''"
    by code_simp+
  have "utf8_valid ''%0''" by (rule utf8_valid_ascii) simp
  then have "from_utf8_lossy ''%0'' = ''%0''" by (rule from_utf8_lossy_valid)
  then show "feed ''%begin 17 1 1'' None = (None, Some \<lparr>ob_client = True, ob_command = Some 1, ob_lines = [], ob_bytes = 0\<rparr>)"
    "feed ''%0'' (Some \<lparr>ob_client = True, ob_command = Some 1, ob_lines = [], ob_bytes = 0\<rparr>)
      = (None, Some \<lparr>ob_client = True, ob_command = Some 1, ob_lines = [''%0''], ob_bytes = 3\<rparr>)"
    "feed ''%end 17 1 1'' (Some \<lparr>ob_client = True, ob_command = Some 1, ob_lines = [''%0''], ob_bytes = 3\<rparr>)
      = (Some (RReply True (Inr [''%0''])), None)"
    by (simp_all add: feed_def block_end_def heads sample_numbers control_block_max_bytes_def
        control_block_max_lines_def)
qed

lemma sample_control_run:
  "cc_answers (control_run sample_control_events connection_new)
     = [(7, Inr [''%0'']), (8, Inl Disconnected), (9, Inl Disconnected)]"
  "\<not> cc_stdin (control_run sample_control_events connection_new)"
proof -
  have valid: "validate_command_line ''list-panes'' = Inr ()" "validate_command_line ''list-windows'' = Inr ()"
    "validate_command_line ''kill-pane'' = Inr ()"
    by code_simp+
  have start: "connection_new = sample_connection [] 0 [] [] None"
    by (simp add: connection_new_def sample_connection_def)
  have "control_run sample_control_events connection_new =
      control_step (Submit 9 ''kill-pane'' broken_pipe)
        (sample_connection [Caller 8] (Suc (Suc 0)) [''list-panes'' @ [newline_byte], ''list-windows'' @ [newline_byte]]
          [(7, Inr [''%0''])] None)"
    unfolding control_run_def sample_control_events_def fold_simps comp_def id_apply start
    by (simp only: sample_submit [OF _ valid(1)] sample_submit [OF _ valid(2)] sample_read(1) [OF sample_feeds(1)]
        sample_read(1) [OF sample_feeds(2)] append_Nil append_Cons list.size sample_read(2) [OF sample_feeds(3)])
  then show "cc_answers (control_run sample_control_events connection_new)
      = [(7, Inr [''%0'']), (8, Inl Disconnected), (9, Inl Disconnected)]"
    and "\<not> cc_stdin (control_run sample_control_events connection_new)"
    using sample_broken [OF valid(3), of "[Caller 8]"] by (simp_all add: disconnect_all_def)
qed

text \<open>C12. Replies are answered in the order in which commands were accepted. In every run, with
any pipe failures, the answered callers followed by the waiting ones are a subsequence of the
submissions in order, so with distinct callers nobody is answered twice or out of turn; and once
the connection is closed nobody is left waiting: every accepted caller has its one answer.\<close>

theorem replies_in_order:
  assumes "distinct (concat (map submits events))"
  shows "let c = control_run events connection_new in
     subseq (map fst (cc_answers c) @ callers (cc_pending c)) (concat (map submits events))
     \<and> distinct (map fst (cc_answers c) @ callers (cc_pending c))
     \<and> (\<not> cc_stdin c \<longrightarrow> cc_pending c = [])"
proof -
  let ?c = "control_run events connection_new"
  obtain new where ok: "control_ok ?c" and new: "accepted ?c = accepted connection_new @ new"
      "subseq new (concat (map submits events))"
    using control_run_ok [OF connection_new_ok, of events] by blast
  have "accepted connection_new = []" by (simp add: accepted_def connection_new_def)
  then have sub: "subseq (accepted ?c) (concat (map submits events))" using new by simp
  then have "distinct (accepted ?c)"
    using assms by (auto simp: subseq_conv_nths intro: distinct_nthsI)
  then show ?thesis
    using sub control_okD(6) [OF ok] by (simp add: accepted_def Let_def)
qed

theorem replies_in_order_witness:
  "let c = control_run sample_control_events connection_new in
     cc_answers c = [(7, Inr [''%0'']), (8, Inl Disconnected), (9, Inl Disconnected)]
     \<and> distinct (map fst (cc_answers c) @ callers (cc_pending c)) \<and> cc_pending c = []"
proof -
  have "distinct (concat (map submits sample_control_events))"
    by (simp add: sample_control_events_def)
  from replies_in_order [OF this] sample_control_run show ?thesis by (simp add: Let_def)
qed

text \<open>What a connection keeps is bounded in every run: at most 64 reply slots and 64 paused
panes, at most 256 queued notifications and one marker with at most 8 MiB of payload, and a reply
block of at most 8 MiB and 65536 lines.\<close>

theorem connection_bounded:
  "let c = control_run events connection_new in
     length (cc_pending c) + cc_reserved c \<le> 64
     \<and> length (cc_resumes c) \<le> 64
     \<and> length (ns_queue (cc_sink c)) \<le> 257
     \<and> queued_bytes (cc_sink c) \<le> 8 * 2 ^ 20
     \<and> (case cc_router c of None \<Rightarrow> True | Some b \<Rightarrow> ob_bytes b \<le> 8 * 2 ^ 20 \<and> length (ob_lines b) \<le> 65536)"
proof -
  have ok: "control_ok (control_run events connection_new)"
    using control_run_ok [OF connection_new_ok, of events] by simp
  show ?thesis
    using control_okD(1-4) [OF ok] sink_ok_length [OF control_okD(1) [OF ok]]
    by (auto simp: Let_def permits_used_def pending_reply_capacity_def pause_resume_capacity_def
        notification_capacity_def sink_ok_def notification_max_queued_bytes_def router_ok_def
        control_block_max_bytes_def control_block_max_lines_def split: option.splits)
qed

section \<open>The notification stream\<close>

text \<open>C34. The stream never loses a notification without saying so. Since the stream last began, either
everything produced was received or is still queued, in order; or the queue overflowed, and what was
received or is queued is the part produced before that followed by the continuity marker, which stands
there only if something was dropped for lack of room; or the consumer holds the stream itself and the last
part of what was produced did not reach it. In that last case the loss is answered too: resuming with
the epoch the consumer was given is refused as soon as anything was produced after its latest hold, and
granted otherwise. While no gap is pending nothing at all is missing. (A notification that alone exceeds the
byte limit ends the connection instead; epochs repeat after \<open>2 ^ 64\<close> notifications.)\<close>

theorem gaps_are_explicit:
  assumes "list_all proper events"
  shows "let s = stream_run events stream_new;
             got = st_consumed s @ map fst (ns_queue (st_sink s)) in
     (\<exists>k \<le> length (st_produced s).
        if k = length (st_produced s) then got = st_produced s
        else got = take k (st_produced s) @ [ContinuityLost] \<or> st_hold s \<noteq> None \<and> got = take k (st_produced s))
     \<and> (ns_gap_pending (st_sink s) \<longrightarrow> st_hold s \<noteq> None \<or> ContinuityLost \<in> set got)
     \<and> (\<not> ns_gap_pending (st_sink s) \<longrightarrow> got = st_produced s)
     \<and> (\<forall>epoch missed. st_hold s = Some (epoch, missed) \<and> missed < 2 ^ 64 \<longrightarrow>
          (fst (resume_after_reconcile epoch (st_sink s)) \<longleftrightarrow> missed = 0))"
proof -
  let ?s = "stream_run events stream_new"
  have ok: "stream_ok ?s" by (rule stream_run_ok [OF stream_ok_new assms])
  then obtain k tail where acc: "accounts ?s k tail" by (auto simp: stream_ok_def)
  have "\<exists>k \<le> length (st_produced ?s).
      if k = length (st_produced ?s) then seen ?s = st_produced ?s
      else seen ?s = take k (st_produced ?s) @ [ContinuityLost] \<or> st_hold ?s \<noteq> None \<and> seen ?s = take k (st_produced ?s)"
    using acc by (intro exI [of _ k]) (auto simp: accounts_def)
  moreover have "ns_gap_pending (st_sink ?s) \<longrightarrow> st_hold ?s \<noteq> None \<or> ContinuityLost \<in> set (seen ?s)"
    "\<not> ns_gap_pending (st_sink ?s) \<longrightarrow> seen ?s = st_produced ?s"
    using acc by (auto simp: accounts_def)
  moreover have "fst (resume_after_reconcile epoch (st_sink ?s)) \<longleftrightarrow> missed = 0"
    if "st_hold ?s = Some (epoch, missed)" "missed < 2 ^ 64" for epoch missed
    using ok that by (intro hold_resumes) (auto simp: stream_ok_def)
  ultimately show ?thesis unfolding Let_def seen_def [symmetric] by blast
qed

text \<open>A notification that fills the queue, and the next one: the second is dropped and the marker takes its
place, also after the first is consumed.\<close>

theorem gaps_are_explicit_witness:
  "let big = replicate notification_max_queued_bytes CHR ''x'';
       s = stream_run [Produce (Pause big), Produce (Continue ''%1''), Consume, Produce (Continue ''%2'')] stream_new in
     st_consumed s @ map fst (ns_queue (st_sink s)) = [Pause big, ContinuityLost] \<and> st_hold s = None \<and>
     st_produced s = [Pause big, Continue ''%1'', Continue ''%2''] \<and>
     (\<exists>k. [Pause big, ContinuityLost] = take k (st_produced s) @ [ContinuityLost])"
proof -
  let ?big = "replicate notification_max_queued_bytes CHR ''x''"
  let ?es = "[Produce (Pause ?big), Produce (Continue ''%1''), Consume, Produce (Continue ''%2'')]"
  let ?s = "stream_run ?es stream_new"
  have size: "permit_bytes (Pause ?big) = notification_max_queued_bytes" "permit_bytes (Continue ''%1'') = 2"
    "permit_bytes (Continue ''%2'') = 2" "notification_max_queued_bytes \<ge> 2" "notification_max_queued_bytes < 2 ^ 32"
    by (simp_all add: permit_bytes_def) (simp_all add: notification_max_queued_bytes_def)
  have got: "st_consumed ?s @ map fst (ns_queue (st_sink ?s)) = [Pause ?big, ContinuityLost]" "st_hold ?s = None"
    "st_produced ?s = [Pause ?big, Continue ''%1'', Continue ''%2'']"
    using size by (simp_all add: stream_run_def stream_new_def sink_new_def enqueue_notification_def
        queued_items_def queued_bytes_def try_send_def bump_epoch_def receive_def record_notification_gap_def
        notification_capacity_def Let_def)
  have "list_all proper ?es" using size by simp
  note gap = gaps_are_explicit [OF this, unfolded Let_def got, THEN conjunct1]
  have "\<exists>k. [Pause ?big, ContinuityLost] = take k [Pause ?big, Continue ''%1'', Continue ''%2''] @ [ContinuityLost]"
    using gap by (force split: if_splits)
  then show ?thesis unfolding Let_def got by simp
qed

text \<open>A hold that outlives a notification: resuming with its epoch is refused, and granted after a new hold.\<close>

lemma late_event_refuses_cutover:
  "fst (resume_after_reconcile 0 (st_sink (stream_run [Hold, Produce (Pause ''%1'')] stream_new))) = False"
  "fst (resume_after_reconcile 1 (st_sink (stream_run [Hold, Produce (Pause ''%1''), Hold] stream_new))) = True"
  by (simp_all add: stream_run_def stream_new_def sink_new_def enqueue_notification_def bump_epoch_def
      hold_continuity_def resume_after_reconcile_def notification_max_queued_bytes_def permit_bytes_def Let_def)

end
