(* ===== verification/Turn_Ends.thy ===== *)
theory Turn_Ends
  imports Hook_Lifecycle
begin

text \<open>
  The store of turn ends (\<open>PaneEnds\<close> of \<open>cyclopsd/src/turnkey.rs\<close>): for each pane the ends that
  one agent under one manifest has reported, the turn that a hold waits on, and whether an end was
  ever discarded to stay bounded.
\<close>

section \<open>Data\<close>

record pane_ends =
  en_agent :: proc_id
  en_manifest :: string
  en_pinned :: "turn_key option"
  en_diagnosed_missing_end :: "turn_key option"
  en_seen :: "turn_key list"
  en_lost :: bool

type_synonym ends = "(pane_key, pane_ends) hash_map"

definition ENDS_CAP :: nat where
  "ENDS_CAP = 16"

section \<open>Operations\<close>

definition fresh_ends :: "proc_id \<Rightarrow> string \<Rightarrow> pane_ends" where
  "fresh_ends agent manifest =
     \<lparr>en_agent = agent, en_manifest = manifest, en_pinned = None, en_diagnosed_missing_end = None,
      en_seen = [], en_lost = False\<rparr>"

text \<open>The entry for this binding, cleared if the binding changed.\<close>

definition ends_bound :: "ends \<Rightarrow> pane_key \<Rightarrow> proc_id \<Rightarrow> string \<Rightarrow> pane_ends" where
  "ends_bound m pane agent manifest =
     (let e = (case hm_get m pane of Some e \<Rightarrow> e | None \<Rightarrow> fresh_ends agent manifest) in
      if en_agent e \<noteq> agent \<or> en_manifest e \<noteq> manifest
      then e\<lparr>en_agent := agent, en_manifest := manifest, en_pinned := None,
             en_diagnosed_missing_end := None, en_seen := [], en_lost := False\<rparr>
      else e)"

text \<open>\<open>position\<close> followed by \<open>remove\<close>: the list without its first element with the property.\<close>

fun remove_first :: "('a \<Rightarrow> bool) \<Rightarrow> 'a list \<Rightarrow> 'a list option" where
  "remove_first P [] = None"
| "remove_first P (x # xs) = (if P x then Some xs else map_option ((#) x) (remove_first P xs))"

lemma remove_first_Some:
  "remove_first P xs = Some ys \<Longrightarrow>
     \<exists>us x vs. xs = us @ x # vs \<and> ys = us @ vs \<and> P x \<and> (\<forall>u\<in>set us. \<not> P u)"
proof (induction xs arbitrary: ys)
  case (Cons a xs)
  show ?case
  proof (cases "P a")
    case True
    then show ?thesis using Cons.prems by (intro exI [of _ "[]"]) simp
  next
    case False
    then obtain zs where z: "remove_first P xs = Some zs" "ys = a # zs" using Cons.prems by auto
    obtain us x vs where "xs = us @ x # vs" "zs = us @ vs" "P x" "\<forall>u\<in>set us. \<not> P u"
      using Cons.IH [OF z(1)] by blast
    then show ?thesis using z(2) False by (intro exI [of _ "a # us"] exI [of _ x] exI [of _ vs]) simp
  qed
qed simp

lemma remove_first_append: "\<forall>u\<in>set us. \<not> P u \<Longrightarrow> P x \<Longrightarrow> remove_first P (us @ x # vs) = Some (us @ vs)"
  by (induction us) auto

lemma remove_first_None: "remove_first P xs = None \<longleftrightarrow> (\<forall>x\<in>set xs. \<not> P x)"
  by (induction xs) auto

lemma remove_first_length: "remove_first P xs = Some ys \<Longrightarrow> Suc (length ys) = length xs"
  by (auto dest!: remove_first_Some)

text \<open>The eviction loop of \<open>record\<close>: never the pinned turn, and never quietly.\<close>

function evict_ends :: "turn_key option \<Rightarrow> turn_key list \<Rightarrow> bool \<Rightarrow> turn_key list \<times> bool" where
  "evict_ends pinned seen lost =
     (if ENDS_CAP < length seen then
        (case remove_first (\<lambda>k. Some k \<noteq> pinned) seen of
           None \<Rightarrow> (seen, lost)
         | Some rest \<Rightarrow> evict_ends pinned rest True)
      else (seen, lost))"
  by auto
termination
  by (relation "measure (\<lambda>(p, s, l). length s)") (auto dest: remove_first_length)

declare evict_ends.simps [simp del]

definition ends_record :: "ends \<Rightarrow> pane_key \<Rightarrow> proc_id \<Rightarrow> string \<Rightarrow> turn_key \<Rightarrow> ends" where
  "ends_record m pane agent manifest turn =
     (let e = ends_bound m pane agent manifest;
          seen = (if turn \<in> set (en_seen e) then en_seen e else en_seen e @ [turn]);
          (kept, lost) = evict_ends (en_pinned e) seen (en_lost e)
      in hm_insert pane (e\<lparr>en_seen := kept, en_lost := lost\<rparr>) m)"

definition ends_pin :: "ends \<Rightarrow> pane_key \<Rightarrow> proc_id \<Rightarrow> string \<Rightarrow> turn_key \<Rightarrow> bool \<times> ends" where
  "ends_pin m pane agent manifest turn =
     (let e = ends_bound m pane agent manifest in
      case en_pinned e of
        Some held \<Rightarrow> (held = turn, hm_insert pane e m)
      | None \<Rightarrow>
          (True, hm_insert pane (e\<lparr>en_pinned := Some turn, en_diagnosed_missing_end := None\<rparr>) m))"

definition reserve_missing_end_diagnostic ::
  "ends \<Rightarrow> pane_key \<Rightarrow> proc_id \<Rightarrow> string \<Rightarrow> turn_key \<Rightarrow> bool \<times> ends" where
  "reserve_missing_end_diagnostic m pane agent manifest turn =
     (case hm_get m pane of
        None \<Rightarrow> (False, m)
      | Some e \<Rightarrow>
          if en_agent e \<noteq> agent \<or> en_manifest e \<noteq> manifest \<or> en_pinned e \<noteq> Some turn
             \<or> en_diagnosed_missing_end e = Some turn
          then (False, m)
          else (True, hm_insert pane (e\<lparr>en_diagnosed_missing_end := Some turn\<rparr>) m))"

definition ends_holds :: "ends \<Rightarrow> pane_key \<Rightarrow> proc_id \<Rightarrow> string \<Rightarrow> turn_key \<Rightarrow> bool" where
  "ends_holds m pane agent manifest turn =
     is_some_and (hm_get m pane) (\<lambda>e. en_agent e = agent \<and> en_manifest e = manifest \<and> turn \<in> set (en_seen e))"

definition ends_take :: "ends \<Rightarrow> pane_key \<Rightarrow> proc_id \<Rightarrow> string \<Rightarrow> turn_key \<Rightarrow> bool \<times> ends" where
  "ends_take m pane agent manifest turn =
     (case hm_get m pane of
        None \<Rightarrow> (False, m)
      | Some e \<Rightarrow>
          if en_agent e \<noteq> agent \<or> en_manifest e \<noteq> manifest \<or> en_pinned e \<noteq> Some turn then (False, m)
          else
            (case remove_first (\<lambda>k. k = turn) (en_seen e) of
               None \<Rightarrow> (False, m)
             | Some rest \<Rightarrow>
                 (True, hm_insert pane
                    (e\<lparr>en_seen := rest, en_pinned := None, en_diagnosed_missing_end := None\<rparr>) m)))"

definition evidence_lost :: "ends \<Rightarrow> pane_key \<Rightarrow> proc_id \<Rightarrow> string \<Rightarrow> bool" where
  "evidence_lost m pane agent manifest =
     is_some_and (hm_get m pane) (\<lambda>e. en_agent e = agent \<and> en_manifest e = manifest \<and> en_lost e)"

definition ends_retire :: "ends \<Rightarrow> pane_key \<Rightarrow> proc_id \<Rightarrow> string \<Rightarrow> turn_key \<Rightarrow> bool \<times> ends" where
  "ends_retire m pane agent manifest turn =
     (case hm_get m pane of
        None \<Rightarrow> (False, m)
      | Some e \<Rightarrow>
          if en_agent e \<noteq> agent \<or> en_manifest e \<noteq> manifest \<or> en_pinned e \<noteq> Some turn then (False, m)
          else
            (True, hm_insert pane
               (e\<lparr>en_pinned := None, en_diagnosed_missing_end := None,
                  en_seen := (case remove_first (\<lambda>k. k = turn) (en_seen e) of
                                Some rest \<Rightarrow> rest | None \<Rightarrow> en_seen e)\<rparr>) m))"

definition ends_forget :: "ends \<Rightarrow> pane_key \<Rightarrow> ends" where
  "ends_forget m pane = hm_remove pane m"

section \<open>The pinned turn\<close>

text \<open>What the store keeps for one binding.\<close>

definition pinned_turn :: "ends \<Rightarrow> pane_key \<Rightarrow> proc_id \<Rightarrow> string \<Rightarrow> turn_key option" where
  "pinned_turn m pane agent manifest =
     (case hm_get m pane of
        Some e \<Rightarrow> if en_agent e = agent \<and> en_manifest e = manifest then en_pinned e else None
      | None \<Rightarrow> None)"

text \<open>No turn twice, and no more than the cap.\<close>

definition pane_ends_ok :: "pane_ends \<Rightarrow> bool" where
  "pane_ends_ok e = (distinct (en_seen e) \<and> length (en_seen e) \<le> ENDS_CAP)"

definition ends_ok :: "ends \<Rightarrow> bool" where
  "ends_ok m = (\<forall>pane e. hm_get m pane = Some e \<longrightarrow> pane_ends_ok e)"

lemma ends_okD: "ends_ok m \<Longrightarrow> hm_get m pane = Some e \<Longrightarrow> pane_ends_ok e"
  by (auto simp: ends_ok_def)

lemma ends_ok_insert: "ends_ok m \<Longrightarrow> pane_ends_ok e \<Longrightarrow> ends_ok (hm_insert pane e m)"
  by (auto simp: ends_ok_def)

lemma ends_ok_empty [simp]: "ends_ok []"
  by (simp add: ends_ok_def)

lemma fresh_ends_ok [simp]: "pane_ends_ok (fresh_ends agent manifest)"
  by (simp add: pane_ends_ok_def fresh_ends_def)

lemma ends_bound_ok: "ends_ok m \<Longrightarrow> pane_ends_ok (ends_bound m pane agent manifest)"
  by (auto simp: ends_bound_def pane_ends_ok_def fresh_ends_def Let_def ends_ok_def split: option.splits)

lemma ends_bound_binding [simp]:
  "en_agent (ends_bound m pane agent manifest) = agent" "en_manifest (ends_bound m pane agent manifest) = manifest"
  by (simp_all add: ends_bound_def Let_def split: option.splits)

text \<open>What the entry of a binding shows is what the queries of that binding show.\<close>

lemma ends_bound_queries:
  "ends_holds m pane agent manifest t \<longleftrightarrow> t \<in> set (en_seen (ends_bound m pane agent manifest))"
  "evidence_lost m pane agent manifest \<longleftrightarrow> en_lost (ends_bound m pane agent manifest)"
  "pinned_turn m pane agent manifest = en_pinned (ends_bound m pane agent manifest)"
  by (auto simp: ends_holds_def evidence_lost_def pinned_turn_def ends_bound_def fresh_ends_def Let_def
      split: option.splits)

lemma ends_bound_insert [simp]:
  "en_agent e = agent \<Longrightarrow> en_manifest e = manifest \<Longrightarrow> ends_bound (hm_insert pane e m) pane agent manifest = e"
  by (simp add: ends_bound_def Let_def)

lemma ends_bound_other [simp]:
  "pane' \<noteq> pane \<Longrightarrow> ends_bound (hm_insert pane e m) pane' agent manifest = ends_bound m pane' agent manifest"
  by (simp add: ends_bound_def Let_def)

section \<open>Eviction\<close>

text \<open>A list one over the cap loses its oldest end that is not pinned.\<close>

lemma exists_unpinned:
  assumes "distinct xs" and "ENDS_CAP \<le> length xs"
  shows "\<exists>x\<in>set xs. Some x \<noteq> pinned"
proof (rule ccontr)
  assume "\<not> ?thesis"
  then have "set xs \<subseteq> {the pinned}" by force
  then have "card (set xs) \<le> 1" using card_mono [of "{the pinned}" "set xs"] by simp
  then show False using assms by (simp add: distinct_card ENDS_CAP_def)
qed

lemma evict_ends_at_most_one:
  assumes "length seen \<le> Suc ENDS_CAP" and "distinct seen"
  shows "evict_ends pinned seen lost =
    (if length seen = Suc ENDS_CAP then (the (remove_first (\<lambda>k. Some k \<noteq> pinned) seen), True) else (seen, lost))"
proof (cases "length seen = Suc ENDS_CAP")
  case True
  have "\<exists>x\<in>set seen. Some x \<noteq> pinned" using True assms(2) by (intro exists_unpinned) simp_all
  then obtain rest where rest: "remove_first (\<lambda>k. Some k \<noteq> pinned) seen = Some rest"
    using remove_first_None [of "\<lambda>k. Some k \<noteq> pinned" seen] by fastforce
  have "\<not> ENDS_CAP < length rest" using remove_first_length [OF rest] True by simp
  then show ?thesis
    using True rest by (simp add: evict_ends.simps [of _ seen] evict_ends.simps [of _ rest])
next
  case False
  then show ?thesis using assms(1) by (simp add: evict_ends.simps [of _ seen])
qed

text \<open>One recorded end: it is kept, the pinned end is kept, and whatever goes leaves the mark.\<close>

lemma evict_after_push:
  assumes ok: "distinct seen" "length seen \<le> ENDS_CAP" and new: "t \<notin> set seen"
    and ev: "evict_ends pinned (seen @ [t]) lost = (kept, lost')"
  shows "distinct kept" "length kept \<le> ENDS_CAP" "t \<in> set kept" "set kept \<subseteq> insert t (set seen)"
    "\<And>u. u \<in> set seen \<Longrightarrow> pinned = Some u \<Longrightarrow> u \<in> set kept"
    "\<And>u. u \<in> set seen \<Longrightarrow> u \<notin> set kept \<Longrightarrow> lost'"
    "lost \<Longrightarrow> lost'"
proof -
  have d: "distinct (seen @ [t])" and l: "length (seen @ [t]) \<le> Suc ENDS_CAP" using ok new by auto
  have "(length seen < ENDS_CAP \<and> kept = seen @ [t] \<and> lost' = lost) \<or>
    (length seen = ENDS_CAP \<and> lost' \<and> (\<exists>us x vs. seen = us @ x # vs \<and> kept = us @ vs @ [t] \<and> Some x \<noteq> pinned))"
  proof (cases "length seen = ENDS_CAP")
    case True
    then obtain rest where rest: "remove_first (\<lambda>k. Some k \<noteq> pinned) seen = Some rest"
      using exists_unpinned [OF ok(1), of pinned] remove_first_None [of "\<lambda>k. Some k \<noteq> pinned" seen] by fastforce
    then obtain us x vs where s: "seen = us @ x # vs" "rest = us @ vs" "Some x \<noteq> pinned" "\<forall>u\<in>set us. Some u = pinned"
      using remove_first_Some [OF rest] by auto
    have "remove_first (\<lambda>k. Some k \<noteq> pinned) (seen @ [t]) = Some (us @ vs @ [t])"
      using remove_first_append [of us "\<lambda>k. Some k \<noteq> pinned" x "vs @ [t]"] s by simp
    then show ?thesis
      using evict_ends_at_most_one [OF l d, of pinned lost] ev True s by auto
  next
    case False
    then show ?thesis using evict_ends_at_most_one [OF l d, of pinned lost] ev ok(2) by auto
  qed
  then show "distinct kept" "length kept \<le> ENDS_CAP" "t \<in> set kept" "set kept \<subseteq> insert t (set seen)"
    "\<And>u. u \<in> set seen \<Longrightarrow> pinned = Some u \<Longrightarrow> u \<in> set kept"
    "\<And>u. u \<in> set seen \<Longrightarrow> u \<notin> set kept \<Longrightarrow> lost'" "lost \<Longrightarrow> lost'"
    using ok new by auto
qed

text \<open>The entry that recording leaves for its binding.\<close>

lemma ends_record_bound:
  fixes m :: ends and pane :: pane_key and agent :: proc_id and manifest :: string and t :: turn_key
  assumes "ends_ok m"
  defines "e \<equiv> ends_bound m pane agent manifest"
    and "e' \<equiv> ends_bound (ends_record m pane agent manifest t) pane agent manifest"
  shows "pane_ends_ok e'" "t \<in> set (en_seen e')" "en_pinned e' = en_pinned e"
    "set (en_seen e') \<subseteq> insert t (set (en_seen e))"
    "\<And>u. u \<in> set (en_seen e) \<Longrightarrow> en_pinned e = Some u \<Longrightarrow> u \<in> set (en_seen e')"
    "\<And>u. u \<in> set (en_seen e) \<Longrightarrow> u \<in> set (en_seen e') \<or> en_lost e'"
    "en_lost e \<Longrightarrow> en_lost e'"
proof -
  obtain kept lost where ev:
    "evict_ends (en_pinned e) (if t \<in> set (en_seen e) then en_seen e else en_seen e @ [t]) (en_lost e) = (kept, lost)"
    by fastforce
  then have e': "e' = e\<lparr>en_seen := kept, en_lost := lost\<rparr>"
    unfolding e'_def ends_record_def e_def by (simp add: Let_def e_def)
  have ok: "distinct (en_seen e)" "length (en_seen e) \<le> ENDS_CAP"
    using ends_bound_ok [OF assms(1)] by (simp_all add: e_def pane_ends_ok_def)
  have "pane_ends_ok e' \<and> t \<in> set kept \<and> set kept \<subseteq> insert t (set (en_seen e)) \<and>
    (\<forall>u\<in>set (en_seen e). (en_pinned e = Some u \<longrightarrow> u \<in> set kept) \<and> (u \<in> set kept \<or> lost)) \<and> (en_lost e \<longrightarrow> lost)"
  proof (cases "t \<in> set (en_seen e)")
    case True
    then have "(kept, lost) = (en_seen e, en_lost e)"
      using ev ok(2) by (simp add: evict_ends.simps)
    then show ?thesis using True ok e' by (auto simp: pane_ends_ok_def)
  next
    case False
    then have "evict_ends (en_pinned e) (en_seen e @ [t]) (en_lost e) = (kept, lost)" using ev by simp
    from evict_after_push [OF ok False this] show ?thesis using e' by (auto simp: pane_ends_ok_def)
  qed
  then show "pane_ends_ok e'" "t \<in> set (en_seen e')" "en_pinned e' = en_pinned e"
    "set (en_seen e') \<subseteq> insert t (set (en_seen e))"
    "\<And>u. u \<in> set (en_seen e) \<Longrightarrow> en_pinned e = Some u \<Longrightarrow> u \<in> set (en_seen e')"
    "\<And>u. u \<in> set (en_seen e) \<Longrightarrow> u \<in> set (en_seen e') \<or> en_lost e'"
    "en_lost e \<Longrightarrow> en_lost e'"
    using e' by auto
qed

section \<open>The operations keep the store well formed\<close>

lemma ends_record_is_insert:
  "\<exists>e. ends_record m pane agent manifest t = hm_insert pane e m \<and> en_agent e = agent \<and> en_manifest e = manifest"
  by (auto simp: ends_record_def Let_def split: prod.splits intro!: exI)

lemma ends_record_other [simp]:
  "pane' \<noteq> pane \<Longrightarrow> hm_get (ends_record m pane agent manifest t) pane' = hm_get m pane'"
  using ends_record_is_insert [of m pane agent manifest t] by auto

lemma ends_record_ok: "ends_ok m \<Longrightarrow> ends_ok (ends_record m pane agent manifest t)"
proof -
  assume ok: "ends_ok m"
  obtain e where e: "ends_record m pane agent manifest t = hm_insert pane e m" "en_agent e = agent" "en_manifest e = manifest"
    using ends_record_is_insert by blast
  then have "pane_ends_ok e" using ends_record_bound(1) [OF ok, of pane agent manifest t] by simp
  then show ?thesis using e(1) ends_ok_insert [OF ok] by simp
qed

lemma ends_pin_ok: "ends_ok m \<Longrightarrow> ends_ok (snd (ends_pin m pane agent manifest t))"
  using ends_bound_ok [of m pane agent manifest]
  by (auto simp: ends_pin_def Let_def pane_ends_ok_def split: option.splits intro!: ends_ok_insert)

lemma remove_first_ok: "pane_ends_ok e \<Longrightarrow> remove_first P (en_seen e) = Some rest \<Longrightarrow> pane_ends_ok (e\<lparr>en_seen := rest\<rparr>)"
  by (auto simp: pane_ends_ok_def dest!: remove_first_Some)

lemma ends_take_ok: "ends_ok m \<Longrightarrow> ends_ok (snd (ends_take m pane agent manifest t))"
  using ends_okD [of m pane]
  by (auto simp: ends_take_def pane_ends_ok_def split: option.splits intro!: ends_ok_insert
      dest!: remove_first_Some)

lemma ends_retire_ok: "ends_ok m \<Longrightarrow> ends_ok (snd (ends_retire m pane agent manifest t))"
  using ends_okD [of m pane]
  by (auto simp: ends_retire_def pane_ends_ok_def split: option.splits intro!: ends_ok_insert
      dest!: remove_first_Some)

lemma reserve_diagnostic_ok: "ends_ok m \<Longrightarrow> ends_ok (snd (reserve_missing_end_diagnostic m pane agent manifest t))"
  using ends_okD [of m pane]
  by (auto simp: reserve_missing_end_diagnostic_def pane_ends_ok_def split: option.splits intro!: ends_ok_insert)

lemma ends_forget_ok: "ends_ok m \<Longrightarrow> ends_ok (ends_forget m pane)"
  by (auto simp: ends_ok_def ends_forget_def)

text \<open>Taking an end is all or nothing.\<close>

lemma ends_take_True:
  assumes "ends_ok m" and "ends_take m pane agent manifest t = (True, m')"
  shows "ends_holds m pane agent manifest t" "pinned_turn m pane agent manifest = Some t"
    "\<not> ends_holds m' pane agent manifest t" "pinned_turn m' pane agent manifest = None"
  using assms ends_okD [OF assms(1), of pane]
  by (auto simp: ends_take_def ends_holds_def pinned_turn_def pane_ends_ok_def split: option.splits if_splits
      dest!: remove_first_Some)

lemma ends_take_False: "ends_take m pane agent manifest t = (False, m') \<Longrightarrow> m' = m"
  by (auto simp: ends_take_def split: option.splits if_splits)

section \<open>The contract of the store\<close>

text \<open>
  What a hold relies on: an end that is recorded is there, the end a hold waits on outlives every
  other one, and an end that goes missing leaves a mark.
\<close>

locale turn_end_store =
  fixes ok :: "'s \<Rightarrow> bool"
    and holds :: "'s \<Rightarrow> turn_key \<Rightarrow> bool"
    and pinned :: "'s \<Rightarrow> turn_key option"
    and lost :: "'s \<Rightarrow> bool"
    and record_end :: "turn_key \<Rightarrow> 's \<Rightarrow> 's"
  assumes ok_record: "ok s \<Longrightarrow> ok (record_end t s)"
    and holds_new: "ok s \<Longrightarrow> holds (record_end t s) t"
    and pinned_record: "ok s \<Longrightarrow> pinned (record_end t s) = pinned s"
    and holds_pinned: "ok s \<Longrightarrow> pinned s = Some p \<Longrightarrow> holds s p \<Longrightarrow> holds (record_end t s) p"
    and dropped_lost: "ok s \<Longrightarrow> holds s u \<Longrightarrow> holds (record_end t s) u \<or> lost (record_end t s)"
    and lost_stays: "ok s \<Longrightarrow> lost s \<Longrightarrow> lost (record_end t s)"
begin

lemma pinned_survives:
  "ok s \<Longrightarrow> pinned s = Some p \<Longrightarrow> holds s p \<or> p \<in> set ts \<Longrightarrow> holds (fold record_end ts s) p"
proof (induction ts arbitrary: s)
  case (Cons t ts)
  have "holds (record_end t s) p \<or> p \<in> set ts"
    using Cons.prems holds_pinned holds_new by (cases "p = t") auto
  then show ?case using Cons.IH [OF ok_record [OF Cons.prems(1)], of t] Cons.prems pinned_record by simp
qed simp

lemma never_quiet:
  "ok s \<Longrightarrow> holds s u \<or> u \<in> set ts \<or> lost s \<Longrightarrow> holds (fold record_end ts s) u \<or> lost (fold record_end ts s)"
proof (induction ts arbitrary: s)
  case (Cons t ts)
  have "holds (record_end t s) u \<or> u \<in> set ts \<or> lost (record_end t s)"
    using Cons.prems holds_new [of s t] dropped_lost [of s u t] lost_stays [of s t] by auto
  then show ?case using Cons.IH [OF ok_record [OF Cons.prems(1)], of t] by simp
qed auto

end

interpretation pane_store: turn_end_store ends_ok "\<lambda>m. ends_holds m pane agent manifest"
  "\<lambda>m. pinned_turn m pane agent manifest" "\<lambda>m. evidence_lost m pane agent manifest"
  "\<lambda>t m. ends_record m pane agent manifest t" for pane agent manifest
  by unfold_locales
    (simp_all add: ends_record_ok ends_bound_queries ends_record_bound(2,3,5,6,7))

end
