(* ===== verification/Agent_State.thy ===== *)
theory Agent_State
  imports Utf8
begin

text \<open>
  Agent state and write readiness (\<open>cyclops-proto/src/state.rs\<close>): the fused verdict of a pane,
  the reasons for an unknown one, the hold on a composer that was seen holding text, and the one
  place that answers whether a write is safe.
\<close>

section \<open>Data\<close>

datatype agent_state =
    SUnknown
  | SIdle
  | SIdleWithInput
  | SWorking
  | SBlockedModal
  | SBlockedPermission
  | SBlockedQuota
  | SDead

datatype composer_semantic = SemClean | SemHumanInput | SemGhostSuggestion | SemAmbiguous

datatype sensor = HookSensor | TitleSensor | OutputSensor | ScreenSensor

record sensor_reading =
  sr_sensor :: sensor
  sr_state :: agent_state
  sr_rule :: string
  sr_ts :: nat

datatype unknown_reason =
    IntegrationNotInstalled
  | IntegrationOutdated
  | LifecycleIncomplete
  | NoCurrentBootEdge
  | BindingUnproven
  | UnsupportedVendor
  | Unrecognized string

record detection =
  dt_state :: agent_state
  dt_readings :: "sensor_reading list"
  dt_disagreement :: bool
  dt_decided_by :: string
  dt_stale :: bool
  dt_write_ready :: bool
  dt_write_block :: "string option"
  dt_composer_semantic :: "composer_semantic option"
  dt_unknown_reason :: "unknown_reason option"

datatype composer_hold =
    HoldClear
  | HoldStaged
  | HoldStagedDuringTurn
  | HoldTurnStarted nat

section \<open>States and reasons\<close>

definition is_blocked :: "agent_state \<Rightarrow> bool" where
  "is_blocked s = (s \<in> {SBlockedModal, SBlockedPermission, SBlockedQuota})"

fun agent_state_name :: "agent_state \<Rightarrow> string" where
  "agent_state_name SUnknown = ''unknown''"
| "agent_state_name SIdle = ''idle''"
| "agent_state_name SIdleWithInput = ''idle_with_input''"
| "agent_state_name SWorking = ''working''"
| "agent_state_name SBlockedModal = ''blocked_modal''"
| "agent_state_name SBlockedPermission = ''blocked_permission''"
| "agent_state_name SBlockedQuota = ''blocked_quota''"
| "agent_state_name SDead = ''dead''"

definition is_plain_shell :: "string \<Rightarrow> bool" where
  "is_plain_shell command = (command \<in> {''bash'', ''fish'', ''sh'', ''zsh''})"

fun unknown_reason_as_str :: "unknown_reason \<Rightarrow> string" where
  "unknown_reason_as_str IntegrationNotInstalled = ''integration_not_installed''"
| "unknown_reason_as_str IntegrationOutdated = ''integration_outdated''"
| "unknown_reason_as_str LifecycleIncomplete = ''lifecycle_incomplete''"
| "unknown_reason_as_str NoCurrentBootEdge = ''no_current_boot_edge''"
| "unknown_reason_as_str BindingUnproven = ''binding_unproven''"
| "unknown_reason_as_str UnsupportedVendor = ''unsupported_vendor''"
| "unknown_reason_as_str (Unrecognized raw) = raw"

fun unknown_reason_rank :: "unknown_reason \<Rightarrow> nat" where
  "unknown_reason_rank UnsupportedVendor = 0"
| "unknown_reason_rank BindingUnproven = 1"
| "unknown_reason_rank IntegrationNotInstalled = 2"
| "unknown_reason_rank IntegrationOutdated = 3"
| "unknown_reason_rank LifecycleIncomplete = 4"
| "unknown_reason_rank NoCurrentBootEdge = 5"
| "unknown_reason_rank (Unrecognized raw) = 255"

definition most_specific :: "unknown_reason list \<Rightarrow> unknown_reason option" where
  "most_specific candidates = min_by_key unknown_reason_rank candidates"

definition unknown_reason_from :: "string \<Rightarrow> unknown_reason" where
  "unknown_reason_from raw =
     (if raw = ''integration_not_installed'' then IntegrationNotInstalled
      else if raw = ''integration_outdated'' then IntegrationOutdated
      else if raw = ''lifecycle_incomplete'' then LifecycleIncomplete
      else if raw = ''no_current_boot_edge'' then NoCurrentBootEdge
      else if raw = ''binding_unproven'' then BindingUnproven
      else if raw = ''unsupported_vendor'' then UnsupportedVendor
      else Unrecognized raw)"

section \<open>What the readings say\<close>

text \<open>Does this sensor currently read this state?\<close>

definition reads :: "detection \<Rightarrow> sensor \<Rightarrow> agent_state \<Rightarrow> bool" where
  "reads det sensor state = list_ex (\<lambda>r. sr_sensor r = sensor \<and> sr_state r = state) (dt_readings det)"

text \<open>\<open>Iterator::min\<close>.\<close>

fun min_of :: "nat list \<Rightarrow> nat option" where
  "min_of [] = None"
| "min_of (x # xs) = (case min_of xs of None \<Rightarrow> Some x | Some y \<Rightarrow> Some (min x y))"

definition turn_running_at :: "detection \<Rightarrow> nat option" where
  "turn_running_at det = min_of (map sr_ts (filter (\<lambda>r. sr_state r = SWorking) (dt_readings det)))"

definition hook_turn_end_after :: "detection \<Rightarrow> nat \<Rightarrow> bool" where
  "hook_turn_end_after det since =
     list_ex (\<lambda>r. sr_sensor r = HookSensor \<and> sr_state r = SIdle \<and> since \<le> sr_ts r) (dt_readings det)"

definition screen_proves_write_safe_composer :: "detection \<Rightarrow> bool" where
  "screen_proves_write_safe_composer det =
     (dt_composer_semantic det \<in> {Some SemClean, Some SemGhostSuggestion}
      \<and> list_ex (\<lambda>r. sr_sensor r = ScreenSensor) (dt_readings det))"

text \<open>Text in the composer, from any sensor that can see one.\<close>

definition sees_input :: "detection \<Rightarrow> bool" where
  "sees_input det =
     (dt_state det = SIdleWithInput \<or> reads det ScreenSensor SIdleWithInput
      \<or> dt_composer_semantic det = Some SemHumanInput)"

section \<open>The composer hold\<close>

definition is_waiting :: "composer_hold \<Rightarrow> bool" where
  "is_waiting hold = (hold = HoldStaged \<or> hold = HoldStagedDuringTurn)"

definition refuses :: "composer_hold \<Rightarrow> bool" where
  "refuses hold = (hold \<noteq> HoldClear)"

definition turn_started_at :: "composer_hold \<Rightarrow> nat option" where
  "turn_started_at hold = (case hold of HoldTurnStarted since \<Rightarrow> Some since | _ \<Rightarrow> None)"

definition advance :: "composer_hold \<Rightarrow> detection \<Rightarrow> bool option \<Rightarrow> composer_hold" where
  "advance hold det ended =
     (if dt_state det = SDead then HoldClear
      else if sees_input det then
        (if hold = HoldStagedDuringTurn then hold
         else if turn_running_at det \<noteq> None then HoldStagedDuringTurn
         else HoldStaged)
      else if hold = HoldClear then hold
      else if hold = HoldStagedDuringTurn then
        (case turn_running_at det of Some ts \<Rightarrow> hold | None \<Rightarrow> HoldStaged)
      else
        (case turn_running_at det of
           Some ts \<Rightarrow>
             (case hold of HoldTurnStarted since \<Rightarrow> HoldTurnStarted since | _ \<Rightarrow> HoldTurnStarted ts)
         | None \<Rightarrow>
             (case hold of
                HoldTurnStarted since \<Rightarrow>
                  if (case ended of Some b \<Rightarrow> b | None \<Rightarrow> dt_state det = SIdle)
                    \<and> screen_proves_write_safe_composer det
                  then HoldClear
                  else hold
              | _ \<Rightarrow> hold)))"

definition release_after_settled_visible_empty :: "composer_hold \<Rightarrow> detection \<Rightarrow> composer_hold" where
  "release_after_settled_visible_empty hold det =
     (let visible_empty =
            \<not> dt_stale det \<and> dt_composer_semantic det = Some SemClean
            \<and> list_ex (\<lambda>r. sr_sensor r = ScreenSensor) (dt_readings det)
            \<and> dt_state det \<in> {SIdle, SWorking}
      in if is_waiting hold \<and> visible_empty then HoldClear else hold)"

section \<open>Write readiness\<close>

definition working_composer_proven :: "detection \<Rightarrow> bool" where
  "working_composer_proven det =
     (dt_state det = SWorking \<and> screen_proves_write_safe_composer det
      \<and> list_ex (\<lambda>r. sr_sensor r = ScreenSensor \<and> sr_state r = SWorking) (dt_readings det)
      \<and> list_all (\<lambda>r. sr_state r = SWorking \<or> sr_sensor r = ScreenSensor \<and> sr_state r = SIdle)
          (dt_readings det))"

definition conflicting_evidence :: "detection \<Rightarrow> bool" where
  "conflicting_evidence det =
     (dt_state det \<in> {SUnknown, SIdleWithInput, SBlockedModal, SBlockedPermission, SBlockedQuota, SDead}
      \<or> list_ex (\<lambda>r. sr_state r \<in> {SIdleWithInput, SBlockedModal, SBlockedPermission, SBlockedQuota, SUnknown}
            \<or> sr_state r = SWorking \<and> \<not> working_composer_proven det) (dt_readings det)
      \<or> dt_state det = SWorking \<and> \<not> working_composer_proven det)"

definition base_write_ready :: "detection \<Rightarrow> (string, unit) result" where
  "base_write_ready det =
     (if dt_stale det then Inl ''stale_screen_evidence''
      else if dt_disagreement det \<and> \<not> working_composer_proven det then Inl ''sensor_disagreement''
      else if dt_state det = SIdle \<and> starts_with ''hook:'' (dt_decided_by det)
      then Inl ''hook_derived_idle''
      else if \<not> screen_proves_write_safe_composer det then Inl ''no_write_safe_composer_evidence''
      else if conflicting_evidence det then Inl ''conflicting_evidence''
      else Inr ())"

definition with_write_block :: "detection \<Rightarrow> detection" where
  "with_write_block det =
     (case base_write_ready det of
        Inr u \<Rightarrow> det\<lparr>dt_write_ready := True, dt_write_block := None\<rparr>
      | Inl reason \<Rightarrow> det\<lparr>dt_write_ready := False, dt_write_block := Some reason\<rparr>)"

definition refused :: "detection \<Rightarrow> string \<Rightarrow> detection" where
  "refused det reason = det\<lparr>dt_write_ready := False, dt_write_block := Some reason\<rparr>"

definition occupant_unprovable :: "detection \<Rightarrow> detection" where
  "occupant_unprovable det = refused det ''occupant_unprovable''"

text \<open>The final verdict: the sensor policy, then the hold, then the pane's own mode.\<close>

definition stamped :: "detection \<Rightarrow> bool \<Rightarrow> composer_hold \<Rightarrow> detection" where
  "stamped det in_mode hold =
     (if in_mode then det\<lparr>dt_write_ready := False, dt_write_block := Some ''pane_in_mode''\<rparr>
      else
        (let d = with_write_block det in
         if dt_write_ready d \<and> refuses hold
         then d\<lparr>dt_write_ready := False, dt_write_block := Some ''composer_hold''\<rparr>
         else d))"

section \<open>Laws of the verdict\<close>

named_theorems detection_simps

lemma min_of_None [simp]: "min_of xs = None \<longleftrightarrow> xs = []"
  by (cases xs) (auto split: option.splits)

lemma turn_running_None: "turn_running_at det = None \<longleftrightarrow> (\<forall>r\<in>set (dt_readings det). sr_state r \<noteq> SWorking)"
  by (auto simp: turn_running_at_def filter_empty_conv)

text \<open>
  When a verdict authorizes a write, in one positive condition: a fresh frame of an idle or working
  pane whose composer the screen saw empty, no sensor that reads input, a dialog or doubt, an idle
  verdict that is not a hook's, and around a running turn the screen itself reading the turn with
  every other sensor in agreement.
\<close>

definition safe_to_write :: "detection \<Rightarrow> bool" where
  "safe_to_write det \<longleftrightarrow>
     \<not> dt_stale det
     \<and> screen_proves_write_safe_composer det
     \<and> (\<forall>r\<in>set (dt_readings det).
          sr_state r \<notin> {SIdleWithInput, SBlockedModal, SBlockedPermission, SBlockedQuota, SUnknown})
     \<and> (dt_state det = SIdle \<and> \<not> dt_disagreement det \<and> \<not> starts_with ''hook:'' (dt_decided_by det)
           \<and> turn_running_at det = None
        \<or> dt_state det = SWorking \<and> reads det ScreenSensor SWorking
           \<and> (\<forall>r\<in>set (dt_readings det). sr_state r = SWorking \<or> sr_sensor r = ScreenSensor \<and> sr_state r = SIdle))"

lemma base_write_ready_iff: "base_write_ready det = Inr () \<longleftrightarrow> safe_to_write det"
proof (cases "dt_state det")
  case SIdle
  then show ?thesis
    by (auto simp: base_write_ready_def safe_to_write_def conflicting_evidence_def working_composer_proven_def
        turn_running_None list_ex_iff list_all_iff)
next
  case SWorking
  show ?thesis
  proof (cases "working_composer_proven det")
    case True
    then have "\<forall>r\<in>set (dt_readings det). sr_state r = SWorking \<or> sr_sensor r = ScreenSensor \<and> sr_state r = SIdle"
      by (simp add: working_composer_proven_def list_all_iff)
    then show ?thesis
      using SWorking True
      by (auto simp: base_write_ready_def safe_to_write_def conflicting_evidence_def working_composer_proven_def
          reads_def list_ex_iff)
  next
    case False
    then show ?thesis
      using SWorking
      by (auto simp: base_write_ready_def safe_to_write_def conflicting_evidence_def working_composer_proven_def
          reads_def list_ex_iff list_all_iff)
  qed
qed (auto simp: base_write_ready_def safe_to_write_def conflicting_evidence_def)

lemma base_write_ready_cases:
  obtains (ok) "base_write_ready det = Inr ()" "safe_to_write det"
  | (no) reason where "base_write_ready det = Inl reason" "\<not> safe_to_write det"
  using base_write_ready_iff [of det] by (cases "base_write_ready det") auto

lemma with_write_block_ready [simp]: "dt_write_ready (with_write_block det) \<longleftrightarrow> safe_to_write det"
  by (cases rule: base_write_ready_cases [of det]) (simp_all add: with_write_block_def)

lemma with_write_block_none [simp]: "dt_write_block (with_write_block det) = None \<longleftrightarrow> safe_to_write det"
  by (cases rule: base_write_ready_cases [of det]) (simp_all add: with_write_block_def)

lemma stamped_ready [simp]:
  "dt_write_ready (stamped det in_mode hold) \<longleftrightarrow> \<not> in_mode \<and> \<not> refuses hold \<and> safe_to_write det"
  by (auto simp: stamped_def Let_def)

lemma stamped_block [simp]:
  "dt_write_block (stamped det in_mode hold) = None \<longleftrightarrow> \<not> in_mode \<and> \<not> refuses hold \<and> safe_to_write det"
  by (auto simp: stamped_def Let_def)

text \<open>Stamping moves the verdict only.\<close>

lemma with_write_block_keeps [detection_simps]:
  "dt_state (with_write_block d) = dt_state d" "dt_readings (with_write_block d) = dt_readings d"
  "dt_disagreement (with_write_block d) = dt_disagreement d" "dt_decided_by (with_write_block d) = dt_decided_by d"
  "dt_stale (with_write_block d) = dt_stale d" "dt_composer_semantic (with_write_block d) = dt_composer_semantic d"
  "dt_unknown_reason (with_write_block d) = dt_unknown_reason d"
  by (simp_all add: with_write_block_def split: sum.splits)

lemma stamped_keeps [detection_simps]:
  "dt_state (stamped d m h) = dt_state d" "dt_readings (stamped d m h) = dt_readings d"
  "dt_disagreement (stamped d m h) = dt_disagreement d" "dt_decided_by (stamped d m h) = dt_decided_by d"
  "dt_stale (stamped d m h) = dt_stale d" "dt_composer_semantic (stamped d m h) = dt_composer_semantic d"
  "dt_unknown_reason (stamped d m h) = dt_unknown_reason d"
  by (simp_all add: stamped_def Let_def with_write_block_keeps)

lemma refused_keeps [detection_simps]:
  "dt_state (refused d r) = dt_state d" "dt_readings (refused d r) = dt_readings d"
  "dt_disagreement (refused d r) = dt_disagreement d" "dt_decided_by (refused d r) = dt_decided_by d"
  "dt_stale (refused d r) = dt_stale d" "dt_composer_semantic (refused d r) = dt_composer_semantic d"
  "dt_write_ready (refused d r) = False" "dt_write_block (refused d r) = Some r"
  by (simp_all add: refused_def)

lemma safe_to_write_cong:
  assumes "dt_state d = dt_state d'" "dt_readings d = dt_readings d'" "dt_disagreement d = dt_disagreement d'"
    "dt_decided_by d = dt_decided_by d'" "dt_stale d = dt_stale d'"
    "dt_composer_semantic d = dt_composer_semantic d'"
  shows "safe_to_write d = safe_to_write d'"
  using assms
  by (simp add: safe_to_write_def screen_proves_write_safe_composer_def reads_def turn_running_at_def)

lemma safe_to_write_stamped [simp]: "safe_to_write (stamped d m h) = safe_to_write d"
  by (rule safe_to_write_cong) (simp_all add: detection_simps)

lemma safe_to_write_refused [simp]: "safe_to_write (refused d r) = safe_to_write d"
  by (rule safe_to_write_cong) (simp_all add: detection_simps)

lemma safe_not_sees_input: "safe_to_write det \<Longrightarrow> \<not> sees_input det"
  by (auto simp: safe_to_write_def sees_input_def screen_proves_write_safe_composer_def reads_def list_ex_iff)

end
