(* ===== verification/Pane_Rules.thy ===== *)
theory Pane_Rules
  imports Agent_State Message_Types
begin

text \<open>
  The rules of an agent manifest and what one capture says (\<open>cyclops-manifest/src/lib.rs\<close>,
  \<open>cyclopsd/src/fusion.rs\<close>): matching a rule against the pane title or the bottom lines of the
  screen, the winner of each tier, and the fusion of the two winners into one verdict. Regular
  expressions are those of the \<open>regex\<close> crate and stay a parameter.
\<close>

section \<open>Escapes\<close>

text \<open>The styling and the metadata that an escaped capture carries.\<close>

fun skip_csi :: "string \<Rightarrow> string" where
  "skip_csi [] = []"
| "skip_csi (c # s) = (if 64 \<le> (of_char c :: nat) \<and> (of_char c :: nat) \<le> 126 then s else skip_csi s)"

fun skip_osc :: "string \<Rightarrow> string" where
  "skip_osc [] = []"
| "skip_osc (c # s) =
     (if c = CHR 0x07 then s
      else if c = CHR 0x1B \<and> take 1 s = [CHR 0x5C] then drop 1 s
      else skip_osc s)"

lemma skip_length [simp]: "length (skip_csi s) \<le> length s" "length (skip_osc s) \<le> length s"
  by (induction s) (simp_all add: le_SucI)

function strip_csi :: "string \<Rightarrow> string" where
  "strip_csi [] = []"
| "strip_csi (c # s) =
     (if c = CHR 0x1B then
        (if take 1 s = ''['' then strip_csi (skip_csi (drop 1 s))
         else if take 1 s = '']'' then strip_csi (skip_osc (drop 1 s))
         else strip_csi s)
      else c # strip_csi s)"
  by pat_completeness auto
termination
  by (relation "measure length") (auto simp: le_imp_less_Suc order_trans [OF skip_length(1)] order_trans [OF skip_length(2)])

definition contains_str :: "string \<Rightarrow> string \<Rightarrow> bool" where
  "contains_str s pat = (split_once_str pat s \<noteq> None)"

section \<open>Rules\<close>

record 'r regex_api =
  rx_is_match :: "'r \<Rightarrow> string \<Rightarrow> bool"
  rx_find_at :: "'r \<Rightarrow> string \<Rightarrow> nat \<Rightarrow> (nat \<times> nat) option"

datatype region = PaneTitle | BottomNonEmptyLines nat

record 'r compiled_matcher =
  cm_unstyled_only :: bool
  cm_contains :: "string list"
  cm_regex :: "'r list"
  cm_line_regex :: "'r list"
  cm_line_regex_esc :: "'r list"
  cm_regex_esc :: "'r list"

record 'r compiled_rule =
  cr_id :: string
  cr_state :: agent_state
  cr_composer_semantic :: "composer_semantic option"
  cr_region :: region
  cr_lifecycle_evidence :: bool
  cr_active_start_terminal :: bool
  cr_matcher :: "'r compiled_matcher"
  cr_any :: "'r compiled_matcher list"

datatype lifecycle_role = RoleStart | RoleEnd

datatype lifecycle_certainty = Candidate | Confirmed

datatype ack_evidence = Receipt | Dispatch

record hooks =
  hk_turn_start :: "string option"
  hk_turn_start_evidence :: lifecycle_certainty
  hk_turn_end :: "string option"
  hk_turn_end_evidence :: lifecycle_certainty
  hk_turn_end_confirmed :: "string list"
  hk_ack_evidence :: ack_evidence
  hk_turn_key_fields :: "string list"

record 'r manifest =
  mf_hooks :: hooks
  mf_rules :: "'r compiled_rule list"
  mf_composer_chips_esc :: "'r list"
  mf_composer_trailers_esc :: "'r list"

definition matcher_is_empty :: "'r compiled_matcher \<Rightarrow> bool" where
  "matcher_is_empty m =
     (cm_contains m = [] \<and> cm_regex m = [] \<and> cm_line_regex m = [] \<and> cm_line_regex_esc m = []
      \<and> cm_regex_esc m = [])"

text \<open>The offset at which each row starts in the joined text.\<close>

fun row_starts :: "nat \<Rightarrow> string list \<Rightarrow> nat list" where
  "row_starts at [] = []"
| "row_starts at (row # rows) = at # row_starts (at + length row + 1) rows"

definition end_line :: "string \<Rightarrow> nat \<Rightarrow> nat" where
  "end_line s n = length (filter (\<lambda>c. c = CHR 0x0A) (take n s))"

definition span_end :: "'r regex_api \<Rightarrow> 'r \<Rightarrow> string \<Rightarrow> nat \<Rightarrow> nat option" where
  "span_end R r joined start =
     (case rx_find_at R r joined start of
        Some (s, e) \<Rightarrow> if s = start then Some (end_line joined e) else None
      | None \<Rightarrow> None)"

definition paired_spans_match ::
  "'r regex_api \<Rightarrow> 'r list \<Rightarrow> 'r list \<Rightarrow> string list \<Rightarrow> string list \<Rightarrow> bool" where
  "paired_spans_match R plain esc rows esc_rows =
     (if esc = [] then True
      else if length plain \<noteq> length esc \<or> length rows \<noteq> length esc_rows then False
      else
        (let joined = join_with [CHR 0x0A] rows; joined_esc = join_with [CHR 0x0A] esc_rows;
             starts = row_starts 0 rows; esc_starts = row_starts 0 esc_rows
         in list_all (\<lambda>(p, e).
              list_ex (\<lambda>line.
                (case (span_end R p joined (starts ! line), span_end R e joined_esc (esc_starts ! line)) of
                   (Some a, Some b) \<Rightarrow> a = b
                 | _ \<Rightarrow> False)) [0..<length rows]) (zip plain esc)))"

definition matcher_matches_esc ::
  "'r regex_api \<Rightarrow> 'r compiled_matcher \<Rightarrow> string \<Rightarrow> string list \<Rightarrow> string list option \<Rightarrow> bool" where
  "matcher_matches_esc R m joined rows esc_rows =
     (if matcher_is_empty m then False
      else if cm_unstyled_only m \<and> is_none_or esc_rows (list_ex (\<lambda>row. CHR 0x1B \<in> set row)) then False
      else
        (let esc_ok =
               (if cm_line_regex_esc m = [] \<and> cm_regex_esc m = [] then True
                else
                  (case esc_rows of
                     Some el \<Rightarrow>
                       list_all (\<lambda>r. list_ex (rx_is_match R r) el) (cm_line_regex_esc m)
                       \<and> paired_spans_match R (cm_regex m) (cm_regex_esc m) rows el
                   | None \<Rightarrow> False))
         in esc_ok
            \<and> list_all (contains_str joined) (cm_contains m)
            \<and> list_all (\<lambda>r. rx_is_match R r joined) (cm_regex m)
            \<and> list_all (\<lambda>r. list_ex (rx_is_match R r) rows) (cm_line_regex m)))"

definition rule_matches_esc ::
  "'r regex_api \<Rightarrow> 'r compiled_rule \<Rightarrow> string \<Rightarrow> string list \<Rightarrow> string list option \<Rightarrow> bool" where
  "rule_matches_esc R rule joined rows esc_rows =
     (matcher_matches_esc R (cr_matcher rule) joined rows esc_rows
      \<or> list_ex (\<lambda>m. matcher_matches_esc R m joined rows esc_rows) (cr_any rule))"

definition rule_matches :: "'r regex_api \<Rightarrow> 'r compiled_rule \<Rightarrow> string \<Rightarrow> string list \<Rightarrow> bool" where
  "rule_matches R rule joined rows = rule_matches_esc R rule joined rows None"

section \<open>Lifecycle events\<close>

text \<open>Vendors spell one event in several ways; the letters and digits in lower case are compared.\<close>

definition ascii_alphanumeric :: "char \<Rightarrow> bool" where
  "ascii_alphanumeric c =
     (let b = (of_char c :: nat) in 48 \<le> b \<and> b \<le> 57 \<or> 65 \<le> b \<and> b \<le> 90 \<or> 97 \<le> b \<and> b \<le> 122)"

definition ascii_lowercase :: "char \<Rightarrow> char" where
  "ascii_lowercase c = (let b = (of_char c :: nat) in if 65 \<le> b \<and> b \<le> 90 then char_of (b + 32) else c)"

definition normalize_event :: "string \<Rightarrow> string" where
  "normalize_event event = map ascii_lowercase (filter ascii_alphanumeric event)"

definition lifecycle_event :: "hooks \<Rightarrow> string \<Rightarrow> (lifecycle_role \<times> lifecycle_certainty) option" where
  "lifecycle_event h event =
     (let named = (\<lambda>name. normalize_event name = normalize_event event) in
      if list_ex named (hk_turn_end_confirmed h) then Some (RoleEnd, Confirmed)
      else if is_some_and (hk_turn_start h) named then Some (RoleStart, hk_turn_start_evidence h)
      else if is_some_and (hk_turn_end h) named then Some (RoleEnd, hk_turn_end_evidence h)
      else None)"

definition has_lifecycle_role :: "hooks \<Rightarrow> lifecycle_role \<Rightarrow> bool" where
  "has_lifecycle_role h role =
     (case role of
        RoleStart \<Rightarrow> is_some_and (hk_turn_start h) (\<lambda>name. \<not> is_blank name)
      | RoleEnd \<Rightarrow>
          is_some_and (hk_turn_end h) (\<lambda>name. \<not> is_blank name) \<or> hk_turn_end_confirmed h \<noteq> [])"

definition lifecycle_names :: "hooks \<Rightarrow> string list" where
  "lifecycle_names h =
     hk_turn_end_confirmed h
     @ (case hk_turn_start h of Some n \<Rightarrow> [n] | None \<Rightarrow> [])
     @ (case hk_turn_end h of Some n \<Rightarrow> [n] | None \<Rightarrow> [])"

section \<open>The manifest's own evaluator\<close>

definition non_empty_rows :: "string \<Rightarrow> string list" where
  "non_empty_rows screen = filter (\<lambda>l. \<not> is_blank l) (rev (str_lines screen))"

definition non_empty_rows_esc :: "string \<Rightarrow> string list" where
  "non_empty_rows_esc screen = filter (\<lambda>l. \<not> is_blank (strip_csi l)) (rev (str_lines screen))"

text \<open>The bottom rows, restored to top-down order.\<close>

definition bottom_rows :: "nat \<Rightarrow> string list \<Rightarrow> string list" where
  "bottom_rows n rows = rev (take n rows)"

definition rule_fires ::
  "'r regex_api \<Rightarrow> string \<Rightarrow> string list \<Rightarrow> string list option \<Rightarrow> 'r compiled_rule \<Rightarrow> bool" where
  "rule_fires R title rows esc_rows rule =
     (case cr_region rule of
        PaneTitle \<Rightarrow> rule_matches_esc R rule title [title] None
      | BottomNonEmptyLines n \<Rightarrow>
          rule_matches_esc R rule (join_with [CHR 0x0A] (bottom_rows n rows)) (bottom_rows n rows)
            (map_option (bottom_rows n) esc_rows))"

text \<open>A reference to a rule is its position in the manifest, which is sorted by priority.\<close>

fun find_index :: "('a \<Rightarrow> bool) \<Rightarrow> 'a list \<Rightarrow> nat option" where
  "find_index P [] = None"
| "find_index P (x # xs) = (if P x then Some 0 else map_option Suc (find_index P xs))"

definition evaluate_esc :: "'r regex_api \<Rightarrow> 'r manifest \<Rightarrow> string \<Rightarrow> string \<Rightarrow> string option \<Rightarrow> nat option" where
  "evaluate_esc R m title screen screen_esc =
     find_index (rule_fires R title (non_empty_rows screen) (map_option non_empty_rows_esc screen_esc)) (mf_rules m)"

definition evaluate :: "'r regex_api \<Rightarrow> 'r manifest \<Rightarrow> string \<Rightarrow> string \<Rightarrow> nat option" where
  "evaluate R m title screen = evaluate_esc R m title screen None"

definition matching_modal :: "'r regex_api \<Rightarrow> 'r manifest \<Rightarrow> string \<Rightarrow> string \<Rightarrow> nat option" where
  "matching_modal R m title screen =
     (case evaluate R m title screen of
        Some i \<Rightarrow> if is_blocked (cr_state (mf_rules m ! i)) then Some i else None
      | None \<Rightarrow> None)"

definition needs_escapes :: "'r compiled_matcher \<Rightarrow> bool" where
  "needs_escapes m = (cm_unstyled_only m \<or> cm_line_regex_esc m \<noteq> [])"

definition has_escaped_rules :: "'r manifest \<Rightarrow> bool" where
  "has_escaped_rules m =
     (mf_composer_chips_esc m \<noteq> [] \<or> mf_composer_trailers_esc m \<noteq> []
      \<or> list_ex (\<lambda>r. needs_escapes (cr_matcher r) \<or> list_ex needs_escapes (cr_any r)) (mf_rules m))"

section \<open>The tiers of one observation\<close>

definition title_winner :: "'r regex_api \<Rightarrow> 'r manifest \<Rightarrow> string \<Rightarrow> nat option" where
  "title_winner R m title =
     find_index (\<lambda>r. cr_region r = PaneTitle \<and> rule_matches R r title [title]) (mf_rules m)"

definition manifest_uses_screen_tier :: "'r manifest \<Rightarrow> bool" where
  "manifest_uses_screen_tier m = list_ex (\<lambda>r. cr_region r \<noteq> PaneTitle) (mf_rules m)"

definition screen_regions :: "string \<Rightarrow> string option \<Rightarrow> string list \<times> string list option" where
  "screen_regions screen screen_esc = (non_empty_rows screen, map_option non_empty_rows_esc screen_esc)"

definition screen_rule_matches ::
  "'r regex_api \<Rightarrow> 'r compiled_rule \<Rightarrow> string list \<Rightarrow> string list option \<Rightarrow> bool" where
  "screen_rule_matches R r non_empty non_empty_esc =
     (case cr_region r of
        PaneTitle \<Rightarrow> False
      | BottomNonEmptyLines n \<Rightarrow>
          (let sel = bottom_rows n non_empty in
           rule_matches_esc R r (join_with [CHR 0x0A] sel) sel (map_option (bottom_rows n) non_empty_esc)))"

definition screen_winner_esc :: "'r regex_api \<Rightarrow> 'r manifest \<Rightarrow> string \<Rightarrow> string option \<Rightarrow> nat option" where
  "screen_winner_esc R m screen screen_esc =
     (let (rows, esc_rows) = screen_regions screen screen_esc in
      find_index (\<lambda>r. screen_rule_matches R r rows esc_rows) (mf_rules m))"

definition screen_composer_semantic_esc ::
  "'r regex_api \<Rightarrow> 'r manifest \<Rightarrow> string \<Rightarrow> string option \<Rightarrow> composer_semantic option" where
  "screen_composer_semantic_esc R m screen screen_esc =
     (let (rows, esc_rows) = screen_regions screen screen_esc in
      Option.bind
        (List.find (\<lambda>r. screen_rule_matches R r rows esc_rows)
          (filter (\<lambda>r. cr_region r \<noteq> PaneTitle \<and> cr_composer_semantic r \<noteq> None) (mf_rules m)))
        cr_composer_semantic)"

definition idle_class :: "agent_state \<Rightarrow> bool" where
  "idle_class s = (s \<in> {SIdle, SIdleWithInput})"

definition winner_confirms_idle :: "'r compiled_rule option \<Rightarrow> bool" where
  "winner_confirms_idle winner =
     is_some_and winner (\<lambda>rule. cr_lifecycle_evidence rule \<and> idle_class (cr_state rule))"

text \<open>The two captures of a pane, as the manifest asks for them.\<close>

definition capture_screens :: "'r manifest \<Rightarrow> string \<Rightarrow> string \<Rightarrow> string \<times> string option" where
  "capture_screens m plain esc =
     (if \<not> has_escaped_rules m then (plain, None) else (strip_csi esc, Some esc))"

section \<open>Fusion\<close>

definition verdict ::
  "agent_state \<Rightarrow> bool \<Rightarrow> string \<Rightarrow> composer_semantic option \<Rightarrow> sensor_reading list \<Rightarrow> detection" where
  "verdict state disagreement decided_by semantic readings =
     \<lparr>dt_state = state, dt_readings = readings, dt_disagreement = disagreement, dt_decided_by = decided_by,
      dt_stale = False, dt_write_ready = False, dt_write_block = None, dt_composer_semantic = semantic,
      dt_unknown_reason = None\<rparr>"

definition tier_reading :: "sensor \<Rightarrow> nat \<Rightarrow> 'r compiled_rule option \<Rightarrow> sensor_reading list" where
  "tier_reading sensor ts rule =
     (case rule of
        Some r \<Rightarrow> [\<lparr>sr_sensor = sensor, sr_state = cr_state r, sr_rule = cr_id r, sr_ts = ts\<rparr>]
      | None \<Rightarrow> [])"

definition fuse ::
  "'r manifest \<Rightarrow> nat option \<Rightarrow> nat option \<Rightarrow> bool \<Rightarrow> bool \<Rightarrow> nat \<Rightarrow> detection" where
  "fuse m title screen screen_required idle_confirmed ts =
     (let rule = map_option ((!) (mf_rules m));
          readings = tier_reading TitleSensor ts (rule title) @ tier_reading ScreenSensor ts (rule screen);
          winner = rule (List.find (\<lambda>i. title = Some i \<or> screen = Some i) [0..<length (mf_rules m)]);
          screen_semantic = Option.bind (rule screen) cr_composer_semantic
      in if screen_required \<and> \<not> idle_confirmed \<and> is_some_and winner (\<lambda>w. idle_class (cr_state w)) then
           (case rule screen of
              Some s \<Rightarrow>
                if \<not> idle_class (cr_state s)
                then verdict (cr_state s) True (cr_id s) (cr_composer_semantic s) readings
                else verdict SUnknown False ''idle_unconfirmed'' screen_semantic readings
            | None \<Rightarrow> verdict SUnknown False ''idle_unconfirmed'' screen_semantic readings)
         else
           (case winner of
              Some w \<Rightarrow>
                verdict (cr_state w)
                  (case (rule title, rule screen) of
                     (Some t, Some s) \<Rightarrow> cr_state t \<noteq> cr_state s | _ \<Rightarrow> False)
                  (cr_id w) screen_semantic readings
            | None \<Rightarrow> verdict SUnknown False ''no_rule'' None readings))"

section \<open>Laws\<close>

lemma verdict_fields [simp]:
  "dt_state (verdict s d b c r) = s" "dt_readings (verdict s d b c r) = r" "dt_disagreement (verdict s d b c r) = d"
  "dt_decided_by (verdict s d b c r) = b" "dt_stale (verdict s d b c r) = False"
  "dt_write_ready (verdict s d b c r) = False" "dt_composer_semantic (verdict s d b c r) = c"
  by (simp_all add: verdict_def)

lemma find_index_Some:
  "find_index P xs = Some i \<longleftrightarrow> i < length xs \<and> P (xs ! i) \<and> (\<forall>j<i. \<not> P (xs ! j))"
proof (induction xs arbitrary: i)
  case (Cons x xs)
  then show ?case by (cases i) (auto simp: less_Suc_eq_0_disj)
qed simp

lemma find_index_None: "find_index P xs = None \<longleftrightarrow> (\<forall>x\<in>set xs. \<not> P x)"
  by (induction xs) auto

text \<open>The first position of two predicates together is the earlier of their first positions.\<close>

lemma find_index_disj:
  "find_index (\<lambda>x. P x \<or> Q x) xs =
     List.find (\<lambda>i. find_index P xs = Some i \<or> find_index Q xs = Some i) [0..<length xs]"
proof (cases "find_index (\<lambda>x. P x \<or> Q x) xs")
  case None
  then have "find_index P xs = None" "find_index Q xs = None" by (auto simp: find_index_None)
  then show ?thesis using None by (simp add: find_None_iff [THEN iffD2])
next
  case (Some i)
  then have i: "i < length xs" "P (xs ! i) \<or> Q (xs ! i)" "\<forall>j<i. \<not> P (xs ! j) \<and> \<not> Q (xs ! j)"
    by (auto simp: find_index_Some)
  then have "find_index P xs = Some i \<or> find_index Q xs = Some i"
    by (auto simp: find_index_Some)
  moreover have "\<forall>j<i. find_index P xs \<noteq> Some j \<and> find_index Q xs \<noteq> Some j"
    using i(3) by (auto simp: find_index_Some)
  ultimately have "List.find (\<lambda>i. find_index P xs = Some i \<or> find_index Q xs = Some i) [0..<length xs] = Some i"
    using i(1) by (auto simp: find_Some_iff intro!: exI [of _ i])
  then show ?thesis using Some by simp
qed

lemma rule_fires_tiers:
  "rule_fires R title rows esc_rows r \<longleftrightarrow>
     cr_region r = PaneTitle \<and> rule_matches R r title [title] \<or> screen_rule_matches R r rows esc_rows"
  by (auto simp: rule_fires_def rule_matches_def screen_rule_matches_def Let_def split: region.splits)

lemma evaluate_esc_winners:
  "evaluate_esc R m title screen esc =
     List.find (\<lambda>i. title_winner R m title = Some i \<or> screen_winner_esc R m screen esc = Some i)
       [0..<length (mf_rules m)]"
proof -
  have "rule_fires R title (non_empty_rows screen) (map_option non_empty_rows_esc esc) =
    (\<lambda>r. cr_region r = PaneTitle \<and> rule_matches R r title [title]
      \<or> screen_rule_matches R r (non_empty_rows screen) (map_option non_empty_rows_esc esc))"
    by (rule ext) (rule rule_fires_tiers)
  then show ?thesis
    unfolding evaluate_esc_def title_winner_def screen_winner_esc_def screen_regions_def
    by (simp add: find_index_disj)
qed

text \<open>A rule that needs an escaped capture is silent without one.\<close>

lemma silent_without_escapes:
  assumes "cm_regex_esc m \<noteq> [] \<or> cm_line_regex_esc m \<noteq> [] \<or> cm_unstyled_only m"
  shows "\<not> matcher_matches_esc R m joined rows None"
  using assms by (auto simp: matcher_matches_esc_def Let_def)

lemma idle_unconfirmed_decided:
  assumes "screen_required" and "idle_class (dt_state (fuse m title screen screen_required confirmed ts))"
  shows "confirmed"
  using assms
  by (auto simp: fuse_def Let_def idle_class_def split: option.splits if_splits)

end
