(* ===== verification/Hook_Reading.thy ===== *)
theory Hook_Reading
  imports Turn_Ends Pane_Rules
begin

text \<open>
  The hook sensor of a pane (\<open>HookEntry\<close> and its readers in \<open>cyclopsd/src/fusion.rs\<close>): a lifecycle
  edge bound to one agent process and one manifest, when it is still evidence, and how it enters
  the visual verdict.
\<close>

section \<open>Data\<close>

record hook_entry =
  he_pane_pid :: proc_id
  he_manifest :: "string option"
  he_reading :: sensor_reading
  he_disagreements :: nat
  he_active_start :: bool
  he_confirmed_start :: bool
  he_authoritative_end :: bool
  he_active_turn :: "turn_key option"
  he_provisional_ready_at_ms :: "nat option"
  he_promoted :: bool

record provisional_start_recheck =
  ps_agent :: proc_id
  ps_manifest :: "string option"
  ps_edge_ms :: nat
  ps_ready_at_ms :: nat

datatype lifecycle_observation = NoObservation | VisualObservation | StableObservation

datatype hook_action = UseReading | DropReading

definition HOOK_READING_TTL_MS :: nat where
  "HOOK_READING_TTL_MS = 300000"

definition UNKEYED_DISPATCH_SETTLE_MS :: nat where
  "UNKEYED_DISPATCH_SETTLE_MS = 500"

definition HOOK_DISAGREE_LIMIT :: nat where
  "HOOK_DISAGREE_LIMIT = 3"

section \<open>Making an entry\<close>

definition entry_bound :: "proc_id \<Rightarrow> string option \<Rightarrow> sensor_reading \<Rightarrow> hook_entry" where
  "entry_bound pane_pid manifest reading =
     \<lparr>he_pane_pid = pane_pid, he_manifest = manifest, he_reading = reading, he_disagreements = 0,
      he_active_start = False, he_confirmed_start = False, he_authoritative_end = False,
      he_active_turn = None, he_provisional_ready_at_ms = None, he_promoted = False\<rparr>"

definition promote :: "hook_entry \<Rightarrow> hook_entry" where
  "promote e = e\<lparr>he_confirmed_start := True, he_provisional_ready_at_ms := None, he_promoted := True\<rparr>"

definition turn_started :: "proc_id \<Rightarrow> string option \<Rightarrow> sensor_reading \<Rightarrow> turn_key \<Rightarrow> hook_entry" where
  "turn_started pane_pid manifest reading turn =
     (entry_bound pane_pid manifest reading)
       \<lparr>he_active_start := True, he_confirmed_start := True, he_active_turn := Some turn\<rparr>"

definition unkeyed_turn_started :: "proc_id \<Rightarrow> string option \<Rightarrow> sensor_reading \<Rightarrow> hook_entry" where
  "unkeyed_turn_started pane_pid manifest reading =
     (entry_bound pane_pid manifest reading)\<lparr>he_active_start := True, he_confirmed_start := True\<rparr>"

definition provisional_start :: "proc_id \<Rightarrow> string option \<Rightarrow> sensor_reading \<Rightarrow> hook_entry" where
  "provisional_start pane_pid manifest reading =
     (entry_bound pane_pid manifest reading)
       \<lparr>he_active_start := True, he_confirmed_start := False,
        he_provisional_ready_at_ms := Some (saturating_add_u64 (sr_ts reading) UNKEYED_DISPATCH_SETTLE_MS)\<rparr>"

definition turn_ended :: "proc_id \<Rightarrow> string option \<Rightarrow> sensor_reading \<Rightarrow> turn_key \<Rightarrow> hook_entry" where
  "turn_ended pane_pid manifest reading turn =
     (entry_bound pane_pid manifest reading)\<lparr>he_authoritative_end := True, he_active_turn := Some turn\<rparr>"

definition unkeyed_turn_ended :: "proc_id \<Rightarrow> string option \<Rightarrow> sensor_reading \<Rightarrow> hook_entry" where
  "unkeyed_turn_ended pane_pid manifest reading =
     (entry_bound pane_pid manifest reading)\<lparr>he_authoritative_end := True\<rparr>"

section \<open>Whose turn it reports\<close>

definition describes :: "hook_entry \<Rightarrow> proc_id option \<Rightarrow> string option \<Rightarrow> bool" where
  "describes e agent manifest = (agent = Some (he_pane_pid e) \<and> he_manifest e = manifest)"

definition active_start_for :: "hook_entry \<Rightarrow> proc_id \<Rightarrow> string option \<Rightarrow> bool" where
  "active_start_for e agent manifest = (he_active_start e \<and> describes e (Some agent) manifest)"

definition provisional_start_for :: "hook_entry \<Rightarrow> proc_id \<Rightarrow> string option \<Rightarrow> bool" where
  "provisional_start_for e agent manifest = (active_start_for e agent manifest \<and> \<not> he_confirmed_start e)"

text \<open>
  \<open>provisional_recheck_for\<close> expects a deadline on every provisional start; the deadline of an
  entry without one is not read.
\<close>

definition provisional_recheck_for :: "hook_entry \<Rightarrow> proc_id \<Rightarrow> string option \<Rightarrow> provisional_start_recheck option" where
  "provisional_recheck_for e agent manifest =
     (if provisional_start_for e agent manifest
      then map_option (\<lambda>ready. \<lparr>ps_agent = agent, ps_manifest = manifest, ps_edge_ms = sr_ts (he_reading e),
             ps_ready_at_ms = ready\<rparr>) (he_provisional_ready_at_ms e)
      else None)"

definition provisional_edge_for :: "hook_entry \<Rightarrow> proc_id \<Rightarrow> string option \<Rightarrow> nat option" where
  "provisional_edge_for e agent manifest = map_option ps_edge_ms (provisional_recheck_for e agent manifest)"

definition confirmed_start_for :: "hook_entry \<Rightarrow> proc_id \<Rightarrow> string option \<Rightarrow> bool" where
  "confirmed_start_for e agent manifest = (active_start_for e agent manifest \<and> he_confirmed_start e)"

definition promoted_start_for :: "hook_entry \<Rightarrow> proc_id \<Rightarrow> string option \<Rightarrow> bool" where
  "promoted_start_for e agent manifest = (confirmed_start_for e agent manifest \<and> he_promoted e)"

definition confirmed_unkeyed_start_for :: "hook_entry \<Rightarrow> proc_id \<Rightarrow> string option \<Rightarrow> bool" where
  "confirmed_unkeyed_start_for e agent manifest =
     (confirmed_start_for e agent manifest \<and> he_active_turn e = None)"

definition unkeyed_latch_ended_by :: "hook_entry \<Rightarrow> proc_id \<Rightarrow> string option \<Rightarrow> nat \<Rightarrow> bool" where
  "unkeyed_latch_ended_by e agent manifest end_edge_ms =
     (confirmed_unkeyed_start_for e agent manifest \<and> sr_ts (he_reading e) < end_edge_ms)"

definition active_start_matches :: "hook_entry \<Rightarrow> proc_id \<Rightarrow> string option \<Rightarrow> turn_key option \<Rightarrow> bool" where
  "active_start_matches e agent manifest turn =
     (case turn of
        None \<Rightarrow> False
      | Some t \<Rightarrow> active_start_for e agent manifest \<and> he_active_turn e = Some t)"

section \<open>What an observation may decide\<close>

definition stable_causes :: "string list" where
  "stable_causes =
     [''output_settled'', ''bootstrap'', ''lag_reconcile'', ''pane_reconciled'', ''status'', ''pane.read'',
      ''gate'', ''pre_paste'', ''prewrite_block_reconcile'', ''receipt_checkpoint'', ''candidate_end_settled'',
      ''candidate_visual_end_settled'', ''unkeyed_dispatch_settled'', ''continuous_evidence_recheck'']"

definition observation_from_cause :: "string \<Rightarrow> lifecycle_observation" where
  "observation_from_cause cause =
     (if cause \<in> set stable_causes then StableObservation
      else if cause \<in> {''pane_added'', ''pane_changed''} then VisualObservation
      else NoObservation)"

definition is_visual :: "lifecycle_observation \<Rightarrow> bool" where
  "is_visual ob = (ob \<noteq> NoObservation)"

text \<open>Working that a sensor other than the hook reads, by a rule that may confirm a lifecycle.\<close>

definition positive_visual_working :: "'r manifest option \<Rightarrow> detection \<Rightarrow> bool" where
  "positive_visual_working manifest det =
     (\<not> dt_stale det \<and> dt_state det = SWorking
      \<and> list_ex (\<lambda>r.
           sr_sensor r \<noteq> HookSensor \<and> sr_state r = SWorking
           \<and> is_none_or manifest (\<lambda>m.
               (let rules = filter (\<lambda>rule. cr_id rule = sr_rule r) (mf_rules m) in
                rules \<noteq> [] \<and> list_all cr_lifecycle_evidence rules))) (dt_readings det))"

definition positive_visual_terminal :: "'r manifest option \<Rightarrow> detection \<Rightarrow> bool" where
  "positive_visual_terminal manifest det =
     is_some_and manifest (\<lambda>m.
       \<not> dt_stale det \<and> idle_class (dt_state det)
       \<and> list_ex (\<lambda>r.
            sr_sensor r = ScreenSensor \<and> idle_class (sr_state r)
            \<and> is_some_and (List.find (\<lambda>rule. cr_id rule = sr_rule r) (mf_rules m)) cr_active_start_terminal)
          (dt_readings det))"

definition terminal_visual_state :: "detection \<Rightarrow> bool \<Rightarrow> agent_state option" where
  "terminal_visual_state det in_mode =
     (if in_mode \<or> dt_stale det then None
      else
        (case List.find (\<lambda>r. sr_sensor r = ScreenSensor) (dt_readings det) of
           None \<Rightarrow> None
         | Some screen \<Rightarrow>
             if \<not> idle_class (sr_state screen) then None
             else if list_all (\<lambda>r. idle_class (sr_state r))
                       (filter (\<lambda>r. sr_sensor r \<noteq> HookSensor) (dt_readings det))
             then Some (sr_state screen)
             else None))"

definition visual_rejects_start :: "detection \<Rightarrow> bool \<Rightarrow> bool" where
  "visual_rejects_start det in_mode =
     (if in_mode then True
      else if dt_stale det then False
      else list_ex (\<lambda>r. sr_sensor r = ScreenSensor \<and> (sr_state r = SIdleWithInput \<or> is_blocked (sr_state r)))
             (dt_readings det))"

section \<open>Ageing and applying a reading\<close>

definition newer_visual_working :: "detection \<Rightarrow> nat \<Rightarrow> bool" where
  "newer_visual_working det ts =
     list_ex (\<lambda>r. sr_sensor r \<noteq> HookSensor \<and> sr_state r = SWorking \<and> ts \<le> sr_ts r) (dt_readings det)"

definition hook_action_observed_with_terminal ::
  "hook_entry \<Rightarrow> detection \<Rightarrow> bool \<Rightarrow> bool \<Rightarrow> bool \<Rightarrow> bool \<Rightarrow> nat \<Rightarrow> hook_action \<times> hook_entry" where
  "hook_action_observed_with_terminal e det idle_confirmed active_start_terminal in_mode binding_stable now_ms =
     (if he_active_start e then
        (if idle_confirmed \<and> (he_promoted e \<or> active_start_terminal) \<and> idle_class (dt_state det)
            \<and> \<not> in_mode \<and> \<not> dt_stale det \<and> binding_stable
         then (DropReading, e)
         else (UseReading, e))
      else if he_authoritative_end e then
        (if idle_class (dt_state det) \<or> newer_visual_working det (sr_ts (he_reading e))
         then (DropReading, e)
         else (UseReading, e))
      else if HOOK_READING_TTL_MS < now_ms - sr_ts (he_reading e) then (DropReading, e)
      else if dt_state det = SUnknown then (UseReading, e)
      else if dt_state det = sr_state (he_reading e) then (UseReading, e\<lparr>he_disagreements := 0\<rparr>)
      else
        (let e' = e\<lparr>he_disagreements := he_disagreements e + 1\<rparr> in
         if HOOK_DISAGREE_LIMIT \<le> he_disagreements e' then (DropReading, e') else (UseReading, e')))"

definition apply_hook_reading :: "detection \<Rightarrow> sensor_reading \<Rightarrow> bool \<Rightarrow> bool \<Rightarrow> detection" where
  "apply_hook_reading det reading active_start authoritative_end =
     (let visual_state = dt_state det;
          newer = newer_visual_working det (sr_ts reading);
          by = ''hook:'' @ sr_rule reading;
          det = det\<lparr>dt_readings := dt_readings det @ [reading]\<rparr>
      in if authoritative_end \<and> newer then det
         else if authoritative_end \<and> sr_state reading = SIdle \<and> visual_state \<in> {SUnknown, SIdle}
         then det\<lparr>dt_state := SIdle, dt_decided_by := by\<rparr>
         else if active_start \<and> sr_state reading = SWorking \<and> \<not> is_blocked visual_state
         then det\<lparr>dt_state := SWorking, dt_decided_by := by,
                  dt_disagreement := (dt_disagreement det \<or> visual_state \<notin> {SUnknown, SWorking})\<rparr>
         else if visual_state = SUnknown
         then det\<lparr>dt_state := sr_state reading, dt_decided_by := by\<rparr>
         else if sr_state reading \<noteq> visual_state
         then det\<lparr>dt_disagreement := True\<rparr>
         else det)"

section \<open>Laws\<close>

text \<open>A dialog on the screen is never hidden by a hook, and a hook never makes a pane look calmer.\<close>

lemma apply_hook_keeps_blocked:
  "is_blocked (dt_state det) \<Longrightarrow> dt_state (apply_hook_reading det reading active_start authoritative_end) = dt_state det"
  by (auto simp: apply_hook_reading_def Let_def is_blocked_def)

lemma apply_hook_readings [simp]:
  "dt_readings (apply_hook_reading det reading a b) = dt_readings det @ [reading]"
  "dt_stale (apply_hook_reading det reading a b) = dt_stale det"
  "dt_composer_semantic (apply_hook_reading det reading a b) = dt_composer_semantic det"
  by (simp_all add: apply_hook_reading_def Let_def)

lemma starts_with_hook [simp]:
  "starts_with ''hook:'' (CHR ''h'' # CHR ''o'' # CHR ''o'' # CHR ''k'' # CHR '':'' # s)"
  by (simp add: starts_with_def strip_prefix_def)

text \<open>
  A hook reading only takes write permission away. The condition on the visual verdict is that a
  frame whose readings all say working is a working verdict, which fusion guarantees.
\<close>

lemma apply_hook_safe:
  assumes safe: "safe_to_write (apply_hook_reading det reading a b)" and hook: "sr_sensor reading = HookSensor"
    and whole: "dt_readings det \<noteq> [] \<Longrightarrow> \<forall>r\<in>set (dt_readings det). sr_state r = SWorking \<Longrightarrow> dt_state det = SWorking"
    and single: "\<And>r s. r \<in> set (dt_readings det) \<Longrightarrow> s \<in> set (dt_readings det) \<Longrightarrow>
      sr_sensor r = ScreenSensor \<Longrightarrow> sr_sensor s = ScreenSensor \<Longrightarrow> r = s"
  shows "safe_to_write det"
proof -
  let ?d = "apply_hook_reading det reading a b"
  have common: "\<not> dt_stale det" "screen_proves_write_safe_composer det"
    "\<forall>r\<in>set (dt_readings det). sr_state r \<notin> {SIdleWithInput, SBlockedModal, SBlockedPermission, SBlockedQuota, SUnknown}"
    using safe hook by (auto simp: safe_to_write_def screen_proves_write_safe_composer_def)
  have final: "dt_state ?d = SIdle \<and> \<not> dt_disagreement ?d \<and> \<not> starts_with ''hook:'' (dt_decided_by ?d) \<and> turn_running_at ?d = None
      \<or> dt_state ?d = SWorking \<and> reads ?d ScreenSensor SWorking
        \<and> (\<forall>r\<in>set (dt_readings ?d). sr_state r = SWorking \<or> sr_sensor r = ScreenSensor \<and> sr_state r = SIdle)"
    using safe by (simp add: safe_to_write_def)
  then show ?thesis
  proof
    assume idle: "dt_state ?d = SIdle \<and> \<not> dt_disagreement ?d \<and> \<not> starts_with ''hook:'' (dt_decided_by ?d) \<and> turn_running_at ?d = None"
    then have "dt_state det = SIdle" "\<not> dt_disagreement det" "\<not> starts_with ''hook:'' (dt_decided_by det)"
      by (auto simp: apply_hook_reading_def Let_def split: if_splits)
    then show ?thesis using common idle by (simp add: safe_to_write_def turn_running_None)
  next
    assume w: "dt_state ?d = SWorking \<and> reads ?d ScreenSensor SWorking
        \<and> (\<forall>r\<in>set (dt_readings ?d). sr_state r = SWorking \<or> sr_sensor r = ScreenSensor \<and> sr_state r = SIdle)"
    then obtain s where s: "s \<in> set (dt_readings det)" "sr_sensor s = ScreenSensor" "sr_state s = SWorking"
      using hook by (auto simp: reads_def list_ex_iff)
    have all: "\<forall>r\<in>set (dt_readings det). sr_state r = SWorking"
      using w single s by force
    moreover have "dt_readings det \<noteq> []" using s(1) by auto
    ultimately have "dt_state det = SWorking" using whole by blast
    then show ?thesis using common all s by (auto simp: safe_to_write_def reads_def list_ex_iff)
  qed
qed

lemma fuse_readings:
  "dt_readings (fuse m title screen req conf ts) =
     tier_reading TitleSensor ts (map_option ((!) (mf_rules m)) title)
     @ tier_reading ScreenSensor ts (map_option ((!) (mf_rules m)) screen)"
  by (auto simp: fuse_def Let_def split: option.splits)

text \<open>The winners of the tiers are positions of the manifest.\<close>

definition is_rule :: "'r manifest \<Rightarrow> nat option \<Rightarrow> bool" where
  "is_rule m i = (\<forall>n. i = Some n \<longrightarrow> n < length (mf_rules m))"

lemma is_rule_winners [simp]:
  "is_rule m None" "is_rule m (title_winner R m t)" "is_rule m (screen_winner_esc R m s e)"
  by (auto simp: is_rule_def title_winner_def screen_winner_esc_def find_index_Some split: prod.splits)

lemma fuse_winner:
  assumes "is_rule m title" "is_rule m screen"
  defines "w \<equiv> List.find (\<lambda>i. title = Some i \<or> screen = Some i) [0..<length (mf_rules m)]"
  shows "w = None \<longleftrightarrow> title = None \<and> screen = None" "w \<noteq> None \<Longrightarrow> w = title \<or> w = screen"
proof -
  show "w = None \<longleftrightarrow> title = None \<and> screen = None"
    using assms(1,2) unfolding w_def
    by (cases title; cases screen) (auto simp: find_None_iff is_rule_def)
  show "w \<noteq> None \<Longrightarrow> w = title \<or> w = screen"
  proof -
    assume "w \<noteq> None"
    then obtain i where i: "w = Some i" by blast
    then have "title = Some i \<or> screen = Some i" unfolding w_def by (auto simp: find_Some_iff)
    then show ?thesis using i by auto
  qed
qed

lemma fuse_all_working:
  assumes "is_rule m title" "is_rule m screen"
    and "dt_readings (fuse m title screen req conf ts) \<noteq> []"
    and "\<forall>r\<in>set (dt_readings (fuse m title screen req conf ts)). sr_state r = SWorking"
  shows "dt_state (fuse m title screen req conf ts) = SWorking"
proof -
  let ?w = "List.find (\<lambda>i. title = Some i \<or> screen = Some i) [0..<length (mf_rules m)]"
  have t: "\<And>i. title = Some i \<Longrightarrow> cr_state (mf_rules m ! i) = SWorking"
    and s: "\<And>i. screen = Some i \<Longrightarrow> cr_state (mf_rules m ! i) = SWorking"
    using assms(4) by (auto simp: fuse_readings tier_reading_def)
  have "title \<noteq> None \<or> screen \<noteq> None" using assms(3) by (auto simp: fuse_readings tier_reading_def)
  then obtain i where i: "?w = Some i" using fuse_winner(1) [OF assms(1,2)] by auto
  then have "title = Some i \<or> screen = Some i" using fuse_winner(2) [OF assms(1,2)] by auto
  then have "cr_state (mf_rules m ! i) = SWorking" using t s by auto
  then show ?thesis using i by (simp add: fuse_def Let_def idle_class_def)
qed

lemma fuse_one_screen:
  assumes "r \<in> set (dt_readings (fuse m title screen req conf ts))" "s \<in> set (dt_readings (fuse m title screen req conf ts))"
    "sr_sensor r = ScreenSensor" "sr_sensor s = ScreenSensor"
  shows "r = s"
  using assms by (auto simp: fuse_readings tier_reading_def split: option.splits)

end
