(* ===== verification/Composer_Barrier.thy ===== *)
theory Composer_Barrier
  imports Hook_Reading
begin

text \<open>
  The composer barrier (\<open>cyclopsd/src/fusion.rs\<close>): the cached verdict of each pane with the hold on
  its composer, the delivery that owns the hold and the turn it waits on. Claims, releases,
  acknowledgements and observations are the only writers. The cache entry keeps what these read;
  its composer projection for status lines and the instant a state was entered are left out.
\<close>

section \<open>Data\<close>

datatype occupant = Leader int | OccupantGone | OccupantUnprovable

record binding =
  bi_pane_root :: proc_id
  bi_leader :: proc_id
  bi_agent :: proc_id
  bi_manifest :: string

datatype binding_observation =
    BindingBound binding
  | BindingNotVendor
  | BindingGone
  | BindingUnprovable

record det_entry =
  de_detection :: detection
  de_binding :: "binding option"
  de_manifest :: "string option"
  de_occupant :: "int option"
  de_agent :: "proc_id option"
  de_in_mode :: bool
  de_hold :: composer_hold
  de_turn :: "turn_key option"
  de_hold_owner :: "string option"
  de_working_confirmed :: bool

type_synonym readiness = "bool \<times> string option"

record readiness_wake =
  rw_emit_public :: bool
  rw_reconcile_route :: bool

record barrier =
  br_detections :: "(pane_key, det_entry) hash_map"
  br_ends :: ends

section \<open>Readiness wakes\<close>

definition readiness_key :: "det_entry \<Rightarrow> readiness" where
  "readiness_key e = (dt_write_ready (de_detection e), dt_write_block (de_detection e))"

definition readiness_wake_decision :: "readiness option \<Rightarrow> readiness \<Rightarrow> readiness_wake" where
  "readiness_wake_decision prior now =
     (let public_changed = is_some_and prior (\<lambda>p. p \<noteq> now) in
      \<lparr>rw_emit_public = public_changed, rw_reconcile_route = (prior = None \<or> public_changed)\<rparr>)"

definition readiness_wake_plan :: "readiness option \<Rightarrow> readiness \<Rightarrow> bool \<Rightarrow> readiness_wake" where
  "readiness_wake_plan prior now has_route_evidence =
     (let d = readiness_wake_decision prior now in
      d\<lparr>rw_reconcile_route := (has_route_evidence \<and> (rw_reconcile_route d \<or> fst now))\<rparr>)"

text \<open>A mutation mints a route token only when it makes an edge for route reconciliation.\<close>

definition wake_readiness_after_mutation :: "readiness \<Rightarrow> readiness \<Rightarrow> readiness_wake" where
  "wake_readiness_after_mutation prior now =
     readiness_wake_plan (Some prior) now (rw_reconcile_route (readiness_wake_decision (Some prior) now))"

section \<open>Owners\<close>

text \<open>The entry with a new hold, its verdict stamped again.\<close>

definition restamp :: "det_entry \<Rightarrow> det_entry" where
  "restamp e = e\<lparr>de_detection := stamped (de_detection e) (de_in_mode e) (de_hold e)\<rparr>"

definition store_entry ::
  "barrier \<Rightarrow> pane_key \<Rightarrow> det_entry \<Rightarrow> det_entry \<Rightarrow> readiness_wake list \<times> barrier" where
  "store_entry b pane e e' =
     ([wake_readiness_after_mutation (readiness_key e) (readiness_key e')],
      b\<lparr>br_detections := hm_insert pane e' (br_detections b)\<rparr>)"

definition set_hold_owned ::
  "barrier \<Rightarrow> pane_key \<Rightarrow> string \<Rightarrow> (composer_hold \<Rightarrow> composer_hold option)
     \<Rightarrow> bool \<times> readiness_wake list \<times> barrier" where
  "set_hold_owned b pane owner change =
     (case hm_get (br_detections b) pane of
        None \<Rightarrow> (False, [], b)
      | Some e \<Rightarrow>
          if de_hold_owner e \<noteq> Some owner then (False, [], b)
          else
            (case change (de_hold e) of
               None \<Rightarrow> (True, [], b)
             | Some hold \<Rightarrow>
                 if hold = de_hold e then (True, [], b)
                 else (True, store_entry b pane e (restamp (e\<lparr>de_hold := hold\<rparr>)))))"

definition latch_turn_started ::
  "barrier \<Rightarrow> pane_key \<Rightarrow> string \<Rightarrow> nat \<Rightarrow> bool \<times> readiness_wake list \<times> barrier" where
  "latch_turn_started b pane owner since =
     set_hold_owned b pane owner (\<lambda>hold. if is_waiting hold then Some (HoldTurnStarted since) else None)"

text \<open>Bind an acknowledged turn: the answer tells whether its end was already stored.\<close>

definition bind_turn ::
  "barrier \<Rightarrow> pane_key \<Rightarrow> string \<Rightarrow> turn_key \<Rightarrow> nat \<Rightarrow> bool option \<times> readiness_wake list \<times> barrier" where
  "bind_turn b pane owner turn since =
     (case hm_get (br_detections b) pane of
        None \<Rightarrow> (None, [], b)
      | Some e \<Rightarrow>
          if de_hold_owner e \<noteq> Some owner then (None, [], b)
          else
            (case (de_agent e, de_manifest e) of
               (Some agent, Some manifest) \<Rightarrow>
                 if is_some_and (de_turn e) (\<lambda>t. t \<noteq> turn) then (None, [], b)
                 else
                   (let (pinned, ends) = ends_pin (br_ends b) pane agent manifest turn;
                        b = b\<lparr>br_ends := ends\<rparr>
                    in if \<not> pinned then (None, [], b)
                       else
                         (let present = ends_holds ends pane agent manifest turn;
                              e' = e\<lparr>de_turn := Some turn,
                                     de_hold := (if is_waiting (de_hold e) then HoldTurnStarted since else de_hold e)\<rparr>
                          in (Some present, store_entry b pane e (restamp e'))))
             | _ \<Rightarrow> (None, [], b)))"

definition claimable :: "composer_hold \<Rightarrow> string option \<Rightarrow> string \<Rightarrow> bool" where
  "claimable hold held owner =
     (case held of
        None \<Rightarrow> (case hold of HoldClear \<Rightarrow> True | HoldTurnStarted since \<Rightarrow> True | _ \<Rightarrow> False)
      | Some h \<Rightarrow> h = owner)"

definition claim_hold ::
  "barrier \<Rightarrow> pane_key \<Rightarrow> string \<Rightarrow> proc_id option \<Rightarrow> string option
     \<Rightarrow> bool \<times> readiness_wake list \<times> barrier" where
  "claim_hold b pane owner agent manifest =
     (case hm_get (br_detections b) pane of
        None \<Rightarrow> (False, [], b)
      | Some e \<Rightarrow>
          (case agent of
             None \<Rightarrow> (False, [], b)
           | Some a \<Rightarrow>
               if de_agent e \<noteq> Some a \<or> de_manifest e \<noteq> manifest then (False, [], b)
               else if \<not> claimable (de_hold e) (de_hold_owner e) owner then (False, [], b)
               else (True, store_entry b pane e (restamp (e\<lparr>de_hold_owner := Some owner, de_hold := HoldStaged\<rparr>)))))"

definition release_unwritten_hold ::
  "barrier \<Rightarrow> pane_key \<Rightarrow> string \<Rightarrow> proc_id \<Rightarrow> string \<Rightarrow> bool \<times> readiness_wake list \<times> barrier" where
  "release_unwritten_hold b pane owner agent manifest =
     (case hm_get (br_detections b) pane of
        None \<Rightarrow> (False, [], b)
      | Some e \<Rightarrow>
          if de_hold e \<noteq> HoldStaged \<or> de_hold_owner e \<noteq> Some owner \<or> de_agent e \<noteq> Some agent
             \<or> de_manifest e \<noteq> Some manifest
          then (False, [], b)
          else (True, store_entry b pane e (restamp (e\<lparr>de_hold := HoldClear, de_hold_owner := None\<rparr>))))"

definition clear_hold_owner ::
  "barrier \<Rightarrow> pane_key \<Rightarrow> string \<Rightarrow> bool \<times> readiness_wake list \<times> barrier" where
  "clear_hold_owner b pane owner =
     (case hm_get (br_detections b) pane of
        None \<Rightarrow> (False, [], b)
      | Some e \<Rightarrow>
          if de_hold_owner e \<noteq> Some owner then (False, [], b)
          else (True, store_entry b pane e
                 (restamp (e\<lparr>de_hold := HoldClear, de_hold_owner := None, de_turn := None\<rparr>))))"

definition composer_is_held :: "barrier \<Rightarrow> pane_key \<Rightarrow> bool" where
  "composer_is_held b pane =
     (case hm_get (br_detections b) pane of
        None \<Rightarrow> False
      | Some e \<Rightarrow>
          is_waiting (de_hold e)
          \<or> turn_started_at (de_hold e) \<noteq> None \<and> de_hold_owner e \<noteq> None
          \<or> dt_composer_semantic (de_detection e) = Some SemHumanInput
          \<or> dt_state (de_detection e) = SIdleWithInput)"

section \<open>Readers of the cache\<close>

record notification_observation =
  no_binding :: "binding option"
  no_state :: agent_state
  no_stale :: bool
  no_disagreement :: bool
  no_write_ready :: bool
  no_in_mode :: bool

definition notification_observation_from :: "det_entry \<Rightarrow> notification_observation" where
  "notification_observation_from e =
     \<lparr>no_binding = de_binding e, no_state = dt_state (de_detection e), no_stale = dt_stale (de_detection e),
      no_disagreement = dt_disagreement (de_detection e), no_write_ready = dt_write_ready (de_detection e),
      no_in_mode = de_in_mode e\<rparr>"

definition write_ready_for :: "notification_observation \<Rightarrow> bool \<Rightarrow> binding \<Rightarrow> bool" where
  "write_ready_for n live_in_mode expected =
     (\<not> live_in_mode \<and> no_write_ready n \<and> \<not> no_stale n \<and> \<not> no_in_mode n \<and> no_binding n = Some expected)"

definition can_decide_notification_now :: "notification_observation \<Rightarrow> bool \<Rightarrow> bool" where
  "can_decide_notification_now n live_in_mode =
     (\<not> live_in_mode \<and> \<not> no_in_mode n \<and> \<not> no_stale n \<and> \<not> no_disagreement n
      \<and> (no_write_ready n \<or> no_state n = SIdleWithInput))"

definition needs_targeted_reobservation :: "detection \<Rightarrow> composer_hold \<Rightarrow> bool" where
  "needs_targeted_reobservation det hold = (dt_stale det \<or> dt_disagreement det \<or> refuses hold)"

section \<open>Settling a turn\<close>

text \<open>The daemon's answer about the turn that the hold carries; none for a hold on the screen lane.\<close>

definition carried_turn_ended ::
  "ends \<Rightarrow> pane_key \<Rightarrow> proc_id option \<Rightarrow> string option \<Rightarrow> turn_key option \<Rightarrow> bool option" where
  "carried_turn_ended ends pane agent manifest turn =
     (case (turn, agent) of
        (Some t, Some a) \<Rightarrow> Some (ends_holds ends pane a (case manifest of Some m \<Rightarrow> m | None \<Rightarrow> []) t)
      | _ \<Rightarrow> None)"

text \<open>
  A hold that still waits on its turn leaves the store alone, one released on the turn's end
  consumes that end, and one that moved on without it retires the pin.
\<close>

definition settled_ends ::
  "ends \<Rightarrow> pane_key \<Rightarrow> proc_id option \<Rightarrow> string option \<Rightarrow> turn_key option \<Rightarrow> bool option \<Rightarrow> composer_hold \<Rightarrow> ends" where
  "settled_ends ends pane agent manifest turn ended nxt =
     (case (turn, agent, manifest) of
        (Some t, Some a, Some m) \<Rightarrow>
          if turn_started_at nxt \<noteq> None then ends
          else if nxt = HoldClear \<and> ended = Some True then snd (ends_take ends pane a m t)
          else snd (ends_retire ends pane a m t)
      | _ \<Rightarrow> ends)"

definition stranded_turn ::
  "ends \<Rightarrow> pane_key \<Rightarrow> proc_id option \<Rightarrow> string option \<Rightarrow> turn_key option \<Rightarrow> bool option \<Rightarrow> composer_hold \<Rightarrow> bool" where
  "stranded_turn ends pane agent manifest turn ended nxt =
     (ended = Some False \<and> turn_started_at nxt \<noteq> None
      \<and> (case (turn, agent, manifest) of
           (Some t, Some a, Some m) \<Rightarrow> evidence_lost ends pane a m
         | _ \<Rightarrow> False))"

definition diagnose_missing_end ::
  "ends \<Rightarrow> pane_key \<Rightarrow> proc_id option \<Rightarrow> string option \<Rightarrow> turn_key option \<Rightarrow> bool option \<Rightarrow> composer_hold \<Rightarrow> detection
     \<Rightarrow> bool \<times> ends" where
  "diagnose_missing_end ends pane agent manifest turn ended nxt det =
     (if ended = Some False \<and> turn_started_at nxt \<noteq> None \<and> \<not> dt_stale det \<and> dt_state det = SIdle
         \<and> reads det ScreenSensor SIdle \<and> turn_running_at det = None \<and> screen_proves_write_safe_composer det
      then
        (case (turn, agent, manifest) of
           (Some t, Some a, Some m) \<Rightarrow> reserve_missing_end_diagnostic ends pane a m t
         | _ \<Rightarrow> (False, ends))
      else (False, ends))"

text \<open>
  \<open>None\<close> is the panic of \<open>agent.expect\<close>: a carried turn with no proven agent.
\<close>

definition settle_turn ::
  "ends \<Rightarrow> pane_key \<Rightarrow> proc_id option \<Rightarrow> string option \<Rightarrow> turn_key option \<Rightarrow> composer_hold \<Rightarrow> detection
     \<Rightarrow> (composer_hold \<times> bool \<times> bool \<times> ends) option" where
  "settle_turn ends pane agent manifest turn hold det =
     (if turn \<noteq> None \<and> agent = None then None
      else
        (let ended = carried_turn_ended ends pane agent manifest turn;
             nxt = advance hold det ended;
             ends = settled_ends ends pane agent manifest turn ended nxt;
             stranded = stranded_turn ends pane agent manifest turn ended nxt;
             (missing, ends) = diagnose_missing_end ends pane agent manifest turn ended nxt det
         in Some (nxt, stranded, missing, ends)))"

section \<open>Observations\<close>

record observation =
  ob_pane :: pane_key
  ob_dead :: bool
  ob_in_mode :: bool
  ob_seen :: occupant
  ob_binding :: binding_observation
  ob_manifest_id :: "string option"
  ob_cause :: string
  ob_route_evidence :: bool

definition ob_occupant :: "observation \<Rightarrow> int option" where
  "ob_occupant ob = (case ob_seen ob of Leader l \<Rightarrow> Some l | _ \<Rightarrow> None)"

definition ob_observed :: "observation \<Rightarrow> binding option" where
  "ob_observed ob = (case ob_binding ob of BindingBound b \<Rightarrow> Some b | _ \<Rightarrow> None)"

definition ob_admitted :: "observation \<Rightarrow> proc_id option" where
  "ob_admitted ob = map_option bi_agent (ob_observed ob)"

definition ob_unobservable :: "observation \<Rightarrow> bool" where
  "ob_unobservable ob = (ob_binding ob = BindingUnprovable)"

definition binding_replacement_proven ::
  "proc_id option \<Rightarrow> string option \<Rightarrow> binding_observation \<Rightarrow> string option \<Rightarrow> bool" where
  "binding_replacement_proven prior_agent prior_manifest obs observed_manifest =
     (case obs of
        BindingBound b \<Rightarrow>
          is_some_and prior_agent (\<lambda>a. bi_agent b \<noteq> a \<or> prior_manifest \<noteq> observed_manifest)
      | BindingNotVendor \<Rightarrow> True
      | BindingGone \<Rightarrow> True
      | BindingUnprovable \<Rightarrow> False)"

definition composer_hold_carried_entry ::
  "det_entry option \<Rightarrow> proc_id option \<Rightarrow> string option \<Rightarrow> bool \<Rightarrow> occupant \<Rightarrow> det_entry option" where
  "composer_hold_carried_entry prior admitted manifest_id row_dead seen =
     (case prior of
        None \<Rightarrow> None
      | Some e \<Rightarrow>
          if is_some_and admitted (\<lambda>a. de_agent e = Some a \<and> de_manifest e = manifest_id)
             \<or> admitted = None \<and> refuses (de_hold e) \<and> \<not> row_dead \<and> seen \<noteq> OccupantGone
          then Some e
          else None)"

text \<open>A pane in a mode keeps its verdict, refused.\<close>

definition observe_in_mode :: "barrier \<Rightarrow> observation \<Rightarrow> readiness_wake \<times> detection \<times> barrier" where
  "observe_in_mode b ob =
     (let prior = hm_get (br_detections b) (ob_pane ob);
          doubt = (\<lambda>d. if ob_unobservable ob then occupant_unprovable d else d);
          e = (case prior of
                 Some e \<Rightarrow>
                   (let e = (if ob_unobservable ob then e
                             else e\<lparr>de_binding := ob_observed ob, de_manifest := ob_manifest_id ob,
                                    de_occupant := ob_occupant ob, de_agent := ob_admitted ob\<rparr>)
                    in e\<lparr>de_in_mode := True,
                         de_detection := doubt (stamped (de_detection e) True (de_hold e))\<rparr>)
               | None \<Rightarrow>
                   \<lparr>de_detection = doubt (stamped (verdict SUnknown False ''pane_in_mode'' None []) True HoldClear),
                    de_binding = ob_observed ob, de_manifest = ob_manifest_id ob, de_occupant = ob_occupant ob,
                    de_agent = ob_admitted ob, de_in_mode = True, de_hold = HoldClear, de_turn = None,
                    de_hold_owner = None, de_working_confirmed = False\<rparr>)
      in (readiness_wake_plan (map_option readiness_key prior) (readiness_key e) (ob_route_evidence ob),
          de_detection e, b\<lparr>br_detections := hm_insert (ob_pane ob) e (br_detections b)\<rparr>))"

text \<open>A failed capture keeps the verdict as a refusal, for the occupant it described.\<close>

definition retain_stale ::
  "barrier \<Rightarrow> pane_key \<Rightarrow> bool \<Rightarrow> int option \<Rightarrow> string option \<Rightarrow> detection option \<times> barrier" where
  "retain_stale b pane in_mode occupant manifest =
     (case hm_get (br_detections b) pane of
        None \<Rightarrow> (None, b)
      | Some e \<Rightarrow>
          if occupant \<noteq> None \<and> de_occupant e = occupant \<and> de_manifest e = manifest
          then
            (let p = stamped ((de_detection e)\<lparr>dt_stale := True\<rparr>) in_mode (de_hold e) in
             (Some p, b\<lparr>br_detections :=
                hm_insert pane (e\<lparr>de_detection := p, de_working_confirmed := False\<rparr>) (br_detections b)\<rparr>))
          else (None, b))"

record commit_result =
  co_detection :: detection
  co_prior :: "agent_state option"
  co_missing_end :: bool
  co_wake :: readiness_wake

text \<open>The commit of one fused verdict, under both locks.\<close>

definition commit_unproven :: "barrier \<Rightarrow> observation \<Rightarrow> bool" where
  "commit_unproven b ob =
     (ob_unobservable ob
      \<or> ob_admitted ob = None \<and> is_some_and (hm_get (br_detections b) (ob_pane ob)) (\<lambda>e. refuses (de_hold e)))"

text \<open>An observation that did not answer settles nothing: the entry it leaves as it is.\<close>

definition commit_frozen :: "barrier \<Rightarrow> observation \<Rightarrow> det_entry option" where
  "commit_frozen b ob =
     (if ob_unobservable ob \<or> commit_unproven b ob \<and> \<not> ob_dead ob \<and> ob_seen ob \<noteq> OccupantGone
      then hm_get (br_detections b) (ob_pane ob)
      else None)"

definition commit_carried :: "barrier \<Rightarrow> observation \<Rightarrow> det_entry option" where
  "commit_carried b ob =
     composer_hold_carried_entry (hm_get (br_detections b) (ob_pane ob)) (ob_admitted ob) (ob_manifest_id ob)
       (ob_dead ob) (ob_seen ob)"

definition commit_base_hold :: "barrier \<Rightarrow> observation \<Rightarrow> detection \<Rightarrow> composer_hold" where
  "commit_base_hold b ob det =
     (let hold = (case commit_carried b ob of Some e \<Rightarrow> de_hold e | None \<Rightarrow> HoldClear) in
      if ob_cause ob = ''output_settled'' \<and> Option.bind (commit_carried b ob) de_hold_owner = None
      then release_after_settled_visible_empty hold det
      else hold)"

definition committed_verdict ::
  "barrier \<Rightarrow> observation \<Rightarrow> detection \<Rightarrow> composer_hold \<Rightarrow> bool \<Rightarrow> unknown_reason option \<Rightarrow> detection" where
  "committed_verdict b ob det hold stranded reason =
     (let det = stamped det (ob_in_mode ob) hold;
          det = (if commit_unproven b ob then occupant_unprovable det
                 else if stranded then refused det ''turn_evidence_lost'' else det)
      in if dt_state det = SUnknown then det\<lparr>dt_unknown_reason := reason\<rparr> else det)"

definition commit_store ::
  "barrier \<Rightarrow> observation \<Rightarrow> det_entry \<Rightarrow> bool \<Rightarrow> ends \<Rightarrow> commit_result \<times> barrier" where
  "commit_store b ob e missing ends =
     (let prior = hm_get (br_detections b) (ob_pane ob) in
      (\<lparr>co_detection = de_detection e, co_prior = map_option (\<lambda>e. dt_state (de_detection e)) prior,
        co_missing_end = missing,
        co_wake = readiness_wake_plan (map_option readiness_key prior) (readiness_key e) (ob_route_evidence ob)\<rparr>,
       \<lparr>br_detections = hm_insert (ob_pane ob) e (br_detections b), br_ends = ends\<rparr>))"

definition commit_observation ::
  "barrier \<Rightarrow> observation \<Rightarrow> detection \<Rightarrow> bool \<Rightarrow> unknown_reason option \<Rightarrow> (commit_result \<times> barrier) option" where
  "commit_observation b ob det working_confirmed reason =
     (case commit_frozen b ob of
        Some f \<Rightarrow>
          Some (commit_store b ob
            (f\<lparr>de_detection := committed_verdict b ob det (de_hold f) False reason,
               de_in_mode := ob_in_mode ob, de_working_confirmed := working_confirmed\<rparr>) False (br_ends b))
      | None \<Rightarrow>
          (let carried = commit_carried b ob in
           map_option (\<lambda>(hold, stranded, missing, ends).
             commit_store b ob
               \<lparr>de_detection = committed_verdict b ob det hold stranded reason,
                de_binding = ob_observed ob, de_manifest = ob_manifest_id ob, de_occupant = ob_occupant ob,
                de_agent = ob_admitted ob, de_in_mode = ob_in_mode ob, de_hold = hold,
                de_turn = (if turn_started_at hold \<noteq> None then Option.bind carried de_turn else None),
                de_hold_owner = (if hold \<noteq> HoldClear then Option.bind carried de_hold_owner else None),
                de_working_confirmed = working_confirmed\<rparr> missing ends)
             (settle_turn (br_ends b) (ob_pane ob) (ob_admitted ob) (ob_manifest_id ob) (Option.bind carried de_turn)
               (commit_base_hold b ob det) det)))"

end
