(* ===== verification/Pane_Observation.thy ===== *)
theory Pane_Observation
  imports Composer_Barrier
begin

text \<open>
  One observation of a pane from its capture to the cached verdict (\<open>observe_pane_with_evidence\<close> of
  \<open>cyclopsd/src/fusion.rs\<close>): retiring the lifecycle of a replaced binding, fusing the tiers,
  reconciling pending hook edges, applying the hook reading, admitting an idle pane by liveness, and
  the commit. What a terminal and a process table answered is the input; timers and event delivery
  are outside.
\<close>

section \<open>State and input\<close>

record runtime =
  rt_barrier :: barrier
  rt_readings :: "(pane_key, hook_entry) hash_map"
  rt_lifecycle :: lifecycle_store

text \<open>
  What the daemon's other parts answer: the loaded manifests, the deliveries that wait for a turn
  with the owner of their barrier, and what the hook log has seen.
\<close>

record 'r observe_env =
  ev_regex :: "'r regex_api"
  ev_manifests :: "string \<Rightarrow> 'r manifest option"
  ev_pending_dispatch :: "pane_key \<Rightarrow> proc_id \<Rightarrow> string \<Rightarrow> turn_key \<Rightarrow> (string \<times> nat) list"
  ev_declares_hooks :: "string \<Rightarrow> bool"
  ev_seen_admitting_edge :: "pane_key \<Rightarrow> proc_id \<Rightarrow> string \<Rightarrow> bool"
  ev_seen_declared_lifecycle :: "pane_key \<Rightarrow> proc_id \<Rightarrow> string \<Rightarrow> string list \<Rightarrow> bool"

record pane_input =
  pi_pane :: pane_key
  pi_dead :: bool
  pi_in_mode :: bool
  pi_title :: string
  pi_current_command :: string
  pi_rules_manifest :: "string option"
  pi_seen :: occupant
  pi_binding :: binding_observation
  pi_capture :: "(string \<times> string) option"
  pi_foreground :: "int option"
  pi_inspect_composer :: bool
  pi_binding_stable :: bool
  pi_force_screen :: bool
  pi_cause :: string
  pi_ts :: nat
  pi_source_ms :: "nat option"
  pi_route_evidence :: bool

datatype dispatch_effect =
    RejectUnkeyedDispatch pane_key proc_id string nat
  | ConfirmUnkeyedDispatch pane_key proc_id string nat nat

record confirmed_candidate_start =
  cc_edge :: candidate
  cc_accepted_ms :: nat
  cc_terminal :: bool

definition pi_manifest_id :: "pane_input \<Rightarrow> string option" where
  "pi_manifest_id i =
     (case pi_rules_manifest i of
        Some m \<Rightarrow> Some m
      | None \<Rightarrow> (case pi_binding i of BindingBound b \<Rightarrow> Some (bi_manifest b) | _ \<Rightarrow> None))"

definition pi_observation :: "pane_input \<Rightarrow> observation" where
  "pi_observation i =
     \<lparr>ob_pane = pi_pane i, ob_dead = pi_dead i, ob_in_mode = pi_in_mode i, ob_seen = pi_seen i,
      ob_binding = pi_binding i, ob_manifest_id = pi_manifest_id i, ob_cause = pi_cause i,
      ob_route_evidence = pi_route_evidence i\<rparr>"

definition pi_evidence_ms :: "pane_input \<Rightarrow> nat" where
  "pi_evidence_ms i = min (case pi_source_ms i of Some s \<Rightarrow> s | None \<Rightarrow> pi_ts i) (pi_ts i)"

section \<open>Pending hook edges\<close>

definition reading_for :: "runtime \<Rightarrow> pane_key \<Rightarrow> hook_entry option" where
  "reading_for rt pane = hm_get (rt_readings rt) pane"

definition active_turn_for :: "runtime \<Rightarrow> pane_key \<Rightarrow> proc_id \<Rightarrow> string \<Rightarrow> turn_key option" where
  "active_turn_for rt pane agent manifest =
     (case reading_for rt pane of
        Some e \<Rightarrow> if active_start_for e agent (Some manifest) then he_active_turn e else None
      | None \<Rightarrow> None)"

definition drop_matching_start :: "runtime \<Rightarrow> pane_key \<Rightarrow> proc_id \<Rightarrow> string \<Rightarrow> turn_key \<Rightarrow> runtime" where
  "drop_matching_start rt pane agent manifest turn =
     (if is_some_and (reading_for rt pane) (\<lambda>e. active_start_matches e agent (Some manifest) (Some turn))
      then rt\<lparr>rt_readings := hm_remove pane (rt_readings rt)\<rparr>
      else rt)"

definition record_turn_end :: "runtime \<Rightarrow> pane_key \<Rightarrow> proc_id \<Rightarrow> string \<Rightarrow> turn_key \<Rightarrow> runtime" where
  "record_turn_end rt pane agent manifest turn =
     rt\<lparr>rt_barrier := (rt_barrier rt)\<lparr>br_ends := ends_record (br_ends (rt_barrier rt)) pane agent manifest turn\<rparr>\<rparr>"

text \<open>Reconcile a provisional start with what the screen shows.\<close>

definition reconcile_unkeyed_dispatch_start ::
  "'r observe_env \<Rightarrow> runtime \<Rightarrow> pane_key \<Rightarrow> proc_id \<Rightarrow> string \<Rightarrow> detection \<Rightarrow> bool \<Rightarrow> nat \<Rightarrow> nat \<Rightarrow> bool
     \<Rightarrow> lifecycle_observation \<Rightarrow> dispatch_effect list \<times> runtime" where
  "reconcile_unkeyed_dispatch_start E rt pane agent manifest det in_mode observed_ms evidence_ms binding_stable ob =
     (if \<not> binding_stable \<or> \<not> is_visual ob
         \<or> \<not> is_some_and (ev_manifests E manifest)
               (\<lambda>m. hk_ack_evidence (mf_hooks m) = Dispatch \<and> hk_turn_key_fields (mf_hooks m) = [])
      then ([], rt)
      else
        (case Option.bind (reading_for rt pane) (\<lambda>e. provisional_recheck_for e agent (Some manifest)) of
           None \<Rightarrow> ([], rt)
         | Some p \<Rightarrow>
             if evidence_ms \<le> ps_edge_ms p then ([], rt)
             else
               (let accepted = positive_visual_working (ev_manifests E manifest) det;
                    closed = (ps_ready_at_ms p \<le> observed_ms);
                    rejected = (visual_rejects_start det in_mode
                      \<or> closed \<and> positive_visual_terminal (ev_manifests E manifest) det)
                in if \<not> accepted \<and> \<not> rejected then ([], rt)
                   else if rejected
                   then ([RejectUnkeyedDispatch pane agent manifest (ps_edge_ms p)],
                         rt\<lparr>rt_readings := hm_remove pane (rt_readings rt)\<rparr>)
                   else ([ConfirmUnkeyedDispatch pane agent manifest (ps_edge_ms p) observed_ms],
                         (case reading_for rt pane of
                            Some e \<Rightarrow> rt\<lparr>rt_readings := hm_insert pane (promote e) (hm_remove pane (rt_readings rt))\<rparr>
                          | None \<Rightarrow> rt)))))"

text \<open>Every delivery that waits for this turn binds its barrier to it.\<close>

definition prepare_dispatch_ack ::
  "'r observe_env \<Rightarrow> runtime \<Rightarrow> pane_key \<Rightarrow> proc_id \<Rightarrow> string \<Rightarrow> turn_key \<Rightarrow> runtime" where
  "prepare_dispatch_ack E rt pane agent manifest turn =
     fold (\<lambda>(owner, start_ms) rt. rt\<lparr>rt_barrier := snd (snd (bind_turn (rt_barrier rt) pane owner turn start_ms))\<rparr>)
       (ev_pending_dispatch E pane agent manifest turn) rt"

definition MAX_TERMINAL_DRAIN_PER_OBSERVATION :: nat where
  "MAX_TERMINAL_DRAIN_PER_OBSERVATION = 128"

primrec drain_terminal_candidates ::
  "nat \<Rightarrow> 'r observe_env \<Rightarrow> runtime \<Rightarrow> pane_key \<Rightarrow> proc_id \<Rightarrow> string \<Rightarrow> nat \<Rightarrow> nat
     \<Rightarrow> confirmed_candidate_start list \<times> runtime" where
  "drain_terminal_candidates 0 E rt pane agent manifest observed_ms evidence_ms = ([], rt)"
| "drain_terminal_candidates (Suc n) E rt pane agent manifest observed_ms evidence_ms =
     (let (settlement, store) = settle_next_ready_terminal_with_evidence (rt_lifecycle rt) pane agent manifest
            (active_turn_for rt pane agent manifest) observed_ms evidence_ms;
          rt = rt\<lparr>rt_lifecycle := store\<rparr>
      in case settlement of
           None \<Rightarrow> ([], rt)
         | Some s \<Rightarrow>
             (let turn = ca_turn (ts_end s);
                  rt = drop_matching_start (record_turn_end rt pane agent manifest turn) pane agent manifest turn;
                  (confirmed, rt) = (case ts_start s of
                    Some start \<Rightarrow>
                      ([\<lparr>cc_edge = start, cc_accepted_ms = observed_ms, cc_terminal = True\<rparr>],
                       prepare_dispatch_ack E rt pane (ca_agent start) (ca_manifest start) (ca_turn start))
                  | None \<Rightarrow> ([], rt));
                  (later, rt) = drain_terminal_candidates n E rt pane agent manifest observed_ms evidence_ms
              in (confirmed @ later, rt)))"

definition retire_obsolete_visual_end :: "runtime \<Rightarrow> pane_key \<Rightarrow> proc_id \<Rightarrow> string \<Rightarrow> runtime" where
  "retire_obsolete_visual_end rt pane agent manifest =
     (case active_turn_for rt pane agent manifest of
        None \<Rightarrow> rt
      | Some turn \<Rightarrow> rt\<lparr>rt_lifecycle := clear_visual_end (rt_lifecycle rt) pane agent manifest turn\<rparr>)"

text \<open>The end half: whether the observation goes on to the start, with what was confirmed.\<close>

definition reconcile_candidate_end ::
  "'r observe_env \<Rightarrow> runtime \<Rightarrow> pane_key \<Rightarrow> proc_id \<Rightarrow> string \<Rightarrow> detection \<Rightarrow> bool \<Rightarrow> nat
     \<Rightarrow> lifecycle_observation \<Rightarrow> turn_key option \<Rightarrow> candidate option
     \<Rightarrow> (bool \<times> confirmed_candidate_start option) \<times> runtime" where
  "reconcile_candidate_end E rt pane agent manifest det in_mode observed_ms ob active_turn end_edge =
     (case end_edge of
        None \<Rightarrow> ((True, None), rt)
      | Some c \<Rightarrow>
          (let belongs = (active_turn = Some (ca_turn c)
                 \<and> \<not> has_other_start_for (rt_lifecycle rt) pane agent manifest (ca_turn c));
               deferred = (let (ok, store) = defer_end (rt_lifecycle rt) pane c
                           in ((ok, None), rt\<lparr>rt_lifecycle := store\<rparr>))
           in if positive_visual_working (ev_manifests E manifest) det \<and> belongs \<and> ca_ready_at_ms c \<le> observed_ms
              then
                (let (ok, store) = clear_terminal_candidates (rt_lifecycle rt) pane c
                 in ((ok, None), rt\<lparr>rt_lifecycle := store\<rparr>))
              else if ob \<noteq> StableObservation \<or> observed_ms < ca_ready_at_ms c then deferred
              else if terminal_visual_state det in_mode \<noteq> None then
                (let (settlement, store) = settle_terminal_candidate (rt_lifecycle rt) pane c;
                     rt = rt\<lparr>rt_lifecycle := store\<rparr>
                 in case settlement of
                      None \<Rightarrow> ((False, None), rt)
                    | Some s \<Rightarrow>
                        (let rt = drop_matching_start (record_turn_end rt pane agent manifest (ca_turn c))
                                    pane agent manifest (ca_turn c)
                         in case ts_start s of
                              Some start \<Rightarrow>
                                ((False, Some \<lparr>cc_edge = start, cc_accepted_ms = observed_ms, cc_terminal = True\<rparr>), rt)
                            | None \<Rightarrow> ((True, None), rt)))
              else deferred))"

text \<open>The start half: a start that a working frame confirms owns the runtime state.\<close>

definition reconcile_candidate_start ::
  "'r observe_env \<Rightarrow> runtime \<Rightarrow> pane_key \<Rightarrow> proc_id \<Rightarrow> string \<Rightarrow> detection \<Rightarrow> bool \<Rightarrow> nat
     \<Rightarrow> turn_key option \<Rightarrow> candidate option \<Rightarrow> confirmed_candidate_start option \<times> runtime" where
  "reconcile_candidate_start E rt pane agent manifest det in_mode observed_ms active_turn start_edge =
     (case start_edge of
        None \<Rightarrow> (None, rt)
      | Some c \<Rightarrow>
          if active_turn \<noteq> None
          then (None, rt\<lparr>rt_lifecycle := snd (defer_start (rt_lifecycle rt) pane c)\<rparr>)
          else if visual_rejects_start det in_mode
          then (None, rt\<lparr>rt_lifecycle := snd (clear_start (rt_lifecycle rt) pane c)\<rparr>)
          else if \<not> positive_visual_working (ev_manifests E manifest) det
          then (None, rt\<lparr>rt_lifecycle := snd (defer_start (rt_lifecycle rt) pane c)\<rparr>)
          else
            (let ended = ends_holds (br_ends (rt_barrier rt)) pane agent manifest (ca_turn c);
                 (consumed, store) = clear_start (rt_lifecycle rt) pane c;
                 rt = rt\<lparr>rt_lifecycle := store\<rparr>
             in if \<not> consumed \<or> ended then (None, rt)
                else
                  (let reading = \<lparr>sr_sensor = HookSensor, sr_state = SWorking,
                         sr_rule = ca_event c @ '':visual_confirmed'', sr_ts = observed_ms\<rparr>;
                       rt = rt\<lparr>rt_readings := hm_insert pane
                              (turn_started agent (Some manifest) reading (ca_turn c)) (rt_readings rt)\<rparr>
                   in if ends_holds (br_ends (rt_barrier rt)) pane agent manifest (ca_turn c)
                      then (None, drop_matching_start rt pane agent manifest (ca_turn c))
                      else (Some \<lparr>cc_edge = c, cc_accepted_ms = observed_ms, cc_terminal = False\<rparr>, rt))))"

definition before_evidence :: "nat \<Rightarrow> candidate option \<Rightarrow> candidate option" where
  "before_evidence evidence_ms c =
     (case c of Some e \<Rightarrow> if ca_edge_ms e < evidence_ms then Some e else None | None \<Rightarrow> None)"

definition reconcile_candidate_lifecycle ::
  "'r observe_env \<Rightarrow> runtime \<Rightarrow> pane_key \<Rightarrow> proc_id \<Rightarrow> string \<Rightarrow> detection \<Rightarrow> bool \<Rightarrow> nat \<Rightarrow> nat
     \<Rightarrow> lifecycle_observation \<Rightarrow> confirmed_candidate_start option \<times> runtime" where
  "reconcile_candidate_lifecycle E rt pane agent manifest det in_mode observed_ms evidence_ms ob =
     (let active_turn = active_turn_for rt pane agent manifest;
          end_edge = before_evidence evidence_ms (end_for (rt_lifecycle rt) pane agent manifest active_turn);
          start_edge = before_evidence evidence_ms (start_for (rt_lifecycle rt) pane agent manifest);
          ((go_on, confirmed), rt) =
            reconcile_candidate_end E rt pane agent manifest det in_mode observed_ms ob active_turn end_edge
      in if \<not> go_on then (confirmed, rt)
         else reconcile_candidate_start E (retire_obsolete_visual_end rt pane agent manifest) pane agent manifest det
                in_mode observed_ms active_turn start_edge)"

definition reconcile_candidate_lifecycles ::
  "'r observe_env \<Rightarrow> runtime \<Rightarrow> pane_key \<Rightarrow> proc_id \<Rightarrow> string \<Rightarrow> detection \<Rightarrow> bool \<Rightarrow> nat \<Rightarrow> nat \<Rightarrow> bool
     \<Rightarrow> lifecycle_observation \<Rightarrow> confirmed_candidate_start list \<times> runtime" where
  "reconcile_candidate_lifecycles E rt pane agent manifest det in_mode observed_ms evidence_ms binding_stable ob =
     (if \<not> binding_stable then ([], rt)
      else
        (let (drained, rt) =
               (if ob = StableObservation \<and> terminal_visual_state det in_mode \<noteq> None
                then drain_terminal_candidates MAX_TERMINAL_DRAIN_PER_OBSERVATION E rt pane agent manifest
                       observed_ms evidence_ms
                else ([], rt));
             (confirmed, rt) =
               reconcile_candidate_lifecycle E rt pane agent manifest det in_mode observed_ms evidence_ms ob
         in (drained @ (case confirmed of Some c \<Rightarrow> [c] | None \<Rightarrow> []), rt)))"

section \<open>The visual verdict\<close>

text \<open>
  The tiers of a live pane under its manifest. \<open>capture\<close> is what the terminal answered, \<open>None\<close> when
  it failed; \<open>binding_stable\<close> says that the same processes surrounded the capture.
\<close>

definition visual_detection ::
  "'r regex_api \<Rightarrow> 'r manifest \<Rightarrow> string \<Rightarrow> (string \<times> string) option \<Rightarrow> bool \<Rightarrow> bool \<Rightarrow> nat
     \<Rightarrow> nat option \<times> detection" where
  "visual_detection R m title capture need_screen binding_changed ts =
     (let captured = (if need_screen then map_option (\<lambda>(plain, esc). capture_screens m plain esc) capture else None);
          failed = (need_screen \<and> capture = None);
          s_rule = Option.bind captured (\<lambda>(screen, esc). screen_winner_esc R m screen esc);
          det = fuse m (title_winner R m title) s_rule (manifest_uses_screen_tier m)
                  (winner_confirms_idle (map_option ((!) (mf_rules m)) s_rule)) ts;
          det = (case captured of
                   Some (screen, esc) \<Rightarrow> det\<lparr>dt_composer_semantic := screen_composer_semantic_esc R m screen esc\<rparr>
                 | None \<Rightarrow> det);
          det = (if failed
                 then det\<lparr>dt_stale := True,
                          dt_decided_by := (if dt_decided_by det \<in> {''no_rule'', ''idle_unconfirmed''}
                                            then ''sensor_error'' else dt_decided_by det)\<rparr>
                 else det);
          det = (if binding_changed then refused det ''binding_changed_during_capture'' else det)
      in (s_rule, det))"

section \<open>Hook, liveness and reason\<close>

text \<open>The hook reading that this observation uses, if any.\<close>

definition hook_for_observation ::
  "runtime \<Rightarrow> pane_key \<Rightarrow> proc_id option \<Rightarrow> string option \<Rightarrow> detection \<Rightarrow> bool \<Rightarrow> bool \<Rightarrow> bool \<Rightarrow> bool \<Rightarrow> nat
     \<Rightarrow> (sensor_reading \<times> bool \<times> bool) option \<times> runtime" where
  "hook_for_observation rt pane admitted manifest det idle_confirmed terminal in_mode binding_stable ts =
     (case reading_for rt pane of
        None \<Rightarrow> (None, rt)
      | Some e \<Rightarrow>
          if admitted = None then (None, rt)
          else if \<not> describes e admitted manifest
          then (None, rt\<lparr>rt_readings := hm_remove pane (rt_readings rt)\<rparr>)
          else
            (case hook_action_observed_with_terminal e det idle_confirmed terminal in_mode binding_stable ts of
               (UseReading, e') \<Rightarrow>
                 (Some (he_reading e', he_active_start e', he_authoritative_end e'),
                  rt\<lparr>rt_readings := hm_insert pane e' (rt_readings rt)\<rparr>)
             | (DropReading, e') \<Rightarrow> (None, rt\<lparr>rt_readings := hm_remove pane (rt_readings rt)\<rparr>)))"

definition liveness_admits_idle ::
  "agent_state \<Rightarrow> string \<Rightarrow> 'r compiled_rule option \<Rightarrow> bool \<Rightarrow> bool \<Rightarrow> bool \<Rightarrow> bool \<Rightarrow> bool \<Rightarrow> bool \<Rightarrow> bool" where
  "liveness_admits_idle state decided_by screen has_screen_reading liveness_verified active_start stale in_mode
     binding_stable =
     (state = SUnknown \<and> decided_by = ''idle_unconfirmed''
      \<and> is_some_and screen (\<lambda>rule. idle_class (cr_state rule) \<and> cr_composer_semantic rule = Some SemClean)
      \<and> has_screen_reading \<and> liveness_verified \<and> \<not> active_start \<and> \<not> stale \<and> \<not> in_mode \<and> binding_stable)"

definition liveness_idle_admission ::
  "'r observe_env \<Rightarrow> runtime \<Rightarrow> pane_key \<Rightarrow> proc_id option \<Rightarrow> string option \<Rightarrow> 'r compiled_rule option \<Rightarrow> bool \<Rightarrow> bool
     \<Rightarrow> detection \<Rightarrow> detection" where
  "liveness_idle_admission E rt pane admitted manifest_id screen binding_stable in_mode det =
     (case (admitted, manifest_id) of
        (Some agent, Some manifest) \<Rightarrow>
          (let verified = (ev_declares_hooks E manifest \<and> ev_manifests E manifest \<noteq> None
                 \<and> ev_seen_admitting_edge E pane agent manifest);
               active = is_some_and (reading_for rt pane) (\<lambda>e. active_start_for e agent (Some manifest));
               admissible = liveness_admits_idle (dt_state det) (dt_decided_by det) screen
                 (list_ex (\<lambda>r. sr_sensor r = ScreenSensor) (dt_readings det)) True active (dt_stale det) in_mode
                 binding_stable
           in if \<not> admissible \<or> \<not> verified then det
              else det\<lparr>dt_state := SIdle,
                       dt_decided_by := ''liveness:'' @ (case screen of Some r \<Rightarrow> cr_id r | None \<Rightarrow> ''screen'')\<rparr>)
      | _ \<Rightarrow> det)"

definition working_is_confirmed ::
  "'r observe_env \<Rightarrow> runtime \<Rightarrow> pane_key \<Rightarrow> detection \<Rightarrow> proc_id option \<Rightarrow> string option \<Rightarrow> bool" where
  "working_is_confirmed E rt pane det agent manifest =
     (if dt_state det \<noteq> SWorking then False
      else if is_some_and manifest (\<lambda>m. positive_visual_working (ev_manifests E m) det) then True
      else
        (case agent of
           Some a \<Rightarrow> is_some_and (reading_for rt pane) (\<lambda>e. confirmed_start_for e a manifest)
         | None \<Rightarrow> False))"

definition unknown_reason_for ::
  "'r observe_env \<Rightarrow> pane_key \<Rightarrow> proc_id option \<Rightarrow> string option \<Rightarrow> string \<Rightarrow> unknown_reason option" where
  "unknown_reason_for E pane admitted manifest_id current_command =
     (let unsupported = (if is_plain_shell current_command then None else Some UnsupportedVendor) in
      case Option.bind manifest_id (\<lambda>i. map_option (Pair i) (ev_manifests E i)) of
        None \<Rightarrow> unsupported
      | Some (i, m) \<Rightarrow>
          (let h = mf_hooks m;
               incomplete = (if \<not> has_lifecycle_role h RoleStart \<or> \<not> has_lifecycle_role h RoleEnd
                             then [LifecycleIncomplete] else [])
           in case admitted of
                None \<Rightarrow> most_specific incomplete
              | Some agent \<Rightarrow>
                  (let declared = filter (\<lambda>name. \<not> is_blank name) (lifecycle_names h) in
                   most_specific (incomplete @
                     (if ev_seen_declared_lifecycle E pane agent i declared then [] else [NoCurrentBootEdge])))))"

section \<open>One observation\<close>

record observe_result =
  or_detection :: detection
  or_wake :: readiness_wake
  or_missing_end :: bool
  or_state_changed :: bool
  or_dispatch_acks :: "confirmed_candidate_start list"
  or_dispatch_effects :: "dispatch_effect list"

text \<open>Retire the lifecycle of a binding that was proven replaced.\<close>

definition retire_replaced_lifecycle :: "runtime \<Rightarrow> pane_input \<Rightarrow> runtime" where
  "retire_replaced_lifecycle rt i =
     rt\<lparr>rt_lifecycle :=
          (case (pi_binding i, pi_manifest_id i) of
             (BindingBound b, Some m) \<Rightarrow> snd (forget_if_binding_differs (rt_lifecycle rt) (pi_pane i) (bi_agent b) m)
           | (BindingNotVendor, _) \<Rightarrow> forget_pane (rt_lifecycle rt) (pi_pane i)
           | (BindingGone, _) \<Rightarrow> forget_pane (rt_lifecycle rt) (pi_pane i)
           | _ \<Rightarrow> rt_lifecycle rt)\<rparr>"

definition candidate_lane :: "'r manifest option \<Rightarrow> bool" where
  "candidate_lane m =
     is_some_and m (\<lambda>m. hk_turn_start_evidence (mf_hooks m) = Candidate \<or> hk_turn_end_evidence (mf_hooks m) = Candidate)"

text \<open>A pane that left the table is forgotten.\<close>

definition forget_gone_pane :: "runtime \<Rightarrow> pane_key \<Rightarrow> runtime" where
  "forget_gone_pane rt pane =
     rt\<lparr>rt_barrier := (rt_barrier rt)\<lparr>br_detections := hm_remove pane (br_detections (rt_barrier rt))\<rparr>,
        rt_lifecycle := forget_pane (rt_lifecycle rt) pane\<rparr>"

text \<open>Both lanes of pending edges, then every turn that a terminal edge confirmed.\<close>

definition reconcile_edges ::
  "'r observe_env \<Rightarrow> runtime \<Rightarrow> pane_input \<Rightarrow> bool \<Rightarrow> bool \<Rightarrow> detection
     \<Rightarrow> dispatch_effect list \<times> confirmed_candidate_start list \<times> runtime" where
  "reconcile_edges E rt i lane binding_stable det =
     (let ob = observation_from_cause (pi_cause i);
          admitted = ob_admitted (pi_observation i);
          rt = (if lane \<and> \<not> pi_dead i \<and> \<not> dt_stale det \<and> binding_stable \<and> is_visual ob
                then rt\<lparr>rt_lifecycle := note_visual_change (rt_lifecycle rt) (pi_pane i)\<rparr> else rt)
      in case (lane \<and> \<not> pi_dead i, admitted, pi_manifest_id i) of
           (True, Some agent, Some m) \<Rightarrow>
             (let (effects, rt) =
                    (if dt_stale det then ([], rt)
                     else reconcile_unkeyed_dispatch_start E rt (pi_pane i) agent m det (pi_in_mode i) (pi_ts i)
                            (pi_evidence_ms i) binding_stable ob);
                  (confirmed, rt) = reconcile_candidate_lifecycles E rt (pi_pane i) agent m det (pi_in_mode i) (pi_ts i)
                    (pi_evidence_ms i) binding_stable ob;
                  rt = fold (\<lambda>c rt. if cc_terminal c
                         then prepare_dispatch_ack E rt (pi_pane i) (ca_agent (cc_edge c)) (ca_manifest (cc_edge c))
                                (ca_turn (cc_edge c))
                         else rt) confirmed rt
              in (effects, confirmed, rt))
         | _ \<Rightarrow> ([], [], rt))"

text \<open>The verdict that is committed: hook reading and liveness on top of the visual one.\<close>

definition fused_detection ::
  "'r observe_env \<Rightarrow> runtime \<Rightarrow> pane_input \<Rightarrow> 'r manifest option \<Rightarrow> nat option \<Rightarrow> bool \<Rightarrow> detection
     \<Rightarrow> detection \<times> runtime" where
  "fused_detection E rt i m s_rule binding_stable det =
     (let admitted = ob_admitted (pi_observation i);
          rule = Option.bind m (\<lambda>m. map_option ((!) (mf_rules m)) s_rule);
          (hook, rt) =
            (if pi_dead i then (None, rt)
             else hook_for_observation rt (pi_pane i) admitted (pi_manifest_id i) det (winner_confirms_idle rule)
                    (is_some_and rule cr_active_start_terminal) (pi_in_mode i) binding_stable (pi_ts i));
          det = (case hook of
                   Some (reading, active_start, authoritative_end) \<Rightarrow>
                     apply_hook_reading det reading active_start authoritative_end
                 | None \<Rightarrow> det);
          screen_rule = Option.bind m (\<lambda>m. Option.bind rule (\<lambda>r. List.find (\<lambda>q. cr_id q = cr_id r) (mf_rules m)));
          det = (case m of
                   Some _ \<Rightarrow> liveness_idle_admission E rt (pi_pane i) admitted (pi_manifest_id i) screen_rule
                               binding_stable (pi_in_mode i) det
                 | None \<Rightarrow> det)
      in (det, rt))"

definition state_changed :: "agent_state option \<Rightarrow> detection \<Rightarrow> bool \<Rightarrow> bool \<Rightarrow> bool" where
  "state_changed prior det prior_confirmed confirmed =
     (prior \<noteq> Some (dt_state det) \<and> \<not> (prior = None \<and> dt_state det = SUnknown)
      \<or> dt_state det = SWorking \<and> prior = Some SWorking \<and> prior_confirmed \<noteq> confirmed)"

text \<open>A pane in a mode.\<close>

definition observe_pane_in_mode :: "'r observe_env \<Rightarrow> runtime \<Rightarrow> pane_input \<Rightarrow> bool \<Rightarrow> observe_result \<times> runtime" where
  "observe_pane_in_mode E rt i lane =
     (let (wake, det, b) = observe_in_mode (rt_barrier rt) (pi_observation i);
          rt = rt\<lparr>rt_barrier := b\<rparr>;
          (effects, rt) = (case (lane, ob_admitted (pi_observation i), pi_manifest_id i) of
            (True, Some agent, Some mid) \<Rightarrow>
              reconcile_unkeyed_dispatch_start E rt (pi_pane i) agent mid det True (pi_ts i) (pi_evidence_ms i) True
                (observation_from_cause (pi_cause i))
          | _ \<Rightarrow> ([], rt))
      in (\<lparr>or_detection = det, or_wake = wake, or_missing_end = False, or_state_changed = False,
           or_dispatch_acks = [], or_dispatch_effects = effects\<rparr>, rt))"

text \<open>The visual verdict of a pane out of every mode, with the rule that won the screen.\<close>

definition observed_frame ::
  "'r observe_env \<Rightarrow> pane_input \<Rightarrow> 'r manifest option \<Rightarrow> bool \<Rightarrow> bool \<Rightarrow> nat option \<times> detection" where
  "observed_frame E i m need_screen binding_changed =
     (if pi_dead i then (None, verdict SDead False ''pane_dead'' None [])
      else
        (case m of
           Some mf \<Rightarrow> visual_detection (ev_regex E) mf (pi_title i) (pi_capture i) need_screen binding_changed (pi_ts i)
         | None \<Rightarrow> (None, verdict SUnknown False ''no_manifest'' None [])))"

text \<open>An observation with a frame of its own, committed.\<close>

definition observe_pane_fresh ::
  "'r observe_env \<Rightarrow> runtime \<Rightarrow> pane_input \<Rightarrow> 'r manifest option \<Rightarrow> bool \<Rightarrow> bool
     \<Rightarrow> (observe_result \<times> runtime) option" where
  "observe_pane_fresh E rt i m need_screen prior_confirmed =
     (let admitted = ob_admitted (pi_observation i);
          binding_changed = (\<not> pi_dead i \<and> m \<noteq> None \<and> (need_screen \<or> pi_inspect_composer i)
            \<and> \<not> pi_binding_stable i);
          (s_rule, det) = observed_frame E i m need_screen binding_changed;
          (effects, confirmed, rt) = reconcile_edges E rt i (candidate_lane m) (\<not> binding_changed) det;
          (det, rt) = fused_detection E rt i m s_rule (\<not> binding_changed) det;
          working = working_is_confirmed E rt (pi_pane i) det admitted (pi_manifest_id i);
          reason = unknown_reason_for E (pi_pane i) admitted (pi_manifest_id i) (pi_current_command i)
      in map_option (\<lambda>(c, b).
           (\<lparr>or_detection = co_detection c, or_wake = co_wake c, or_missing_end = co_missing_end c,
             or_state_changed = state_changed (co_prior c) (co_detection c) prior_confirmed working,
             or_dispatch_acks = confirmed, or_dispatch_effects = effects\<rparr>,
            rt\<lparr>rt_barrier := b\<rparr>))
           (commit_observation (rt_barrier rt) (pi_observation i) det working reason))"

definition observe_pane :: "'r observe_env \<Rightarrow> runtime \<Rightarrow> pane_input \<Rightarrow> (observe_result \<times> runtime) option" where
  "observe_pane E rt i =
     (let pane = pi_pane i;
          m = Option.bind (pi_rules_manifest i) (ev_manifests E);
          prior = hm_get (br_detections (rt_barrier rt)) pane;
          prior_confirmed = is_some_and prior de_working_confirmed;
          rt = retire_replaced_lifecycle rt i
      in if \<not> pi_dead i \<and> pi_in_mode i then Some (observe_pane_in_mode E rt i (candidate_lane m))
         else
           (let need_screen = is_some_and m (\<lambda>m. pi_force_screen i \<or> manifest_uses_screen_tier m) in
            if \<not> pi_dead i \<and> need_screen \<and> pi_capture i = None then
              (let (retained, b) =
                     retain_stale (rt_barrier rt) pane (pi_in_mode i) (pi_foreground i) (pi_manifest_id i);
                   now = (case hm_get (br_detections b) pane of Some e \<Rightarrow> readiness_key e | None \<Rightarrow> (False, None))
               in case retained of
                    Some det \<Rightarrow>
                      Some (\<lparr>or_detection = det,
                             or_wake = readiness_wake_plan (map_option readiness_key prior) now (pi_route_evidence i),
                             or_missing_end = False, or_state_changed = False, or_dispatch_acks = [],
                             or_dispatch_effects = []\<rparr>, rt\<lparr>rt_barrier := b\<rparr>)
                  | None \<Rightarrow> observe_pane_fresh E rt i m need_screen prior_confirmed)
            else observe_pane_fresh E rt i m need_screen prior_confirmed))"

end
