(* ===== verification/Barrier_Laws.thy ===== *)
theory Barrier_Laws
  imports Composer_Barrier
begin

text \<open>
  What every operation of the composer barrier keeps: a verdict that allows a write is one that the
  sensors, the hold and the mode allow, a delivery owns a hold only while the hold refuses, and the
  store of ends stays well formed. The calls are collected in one type so that runs are lists.
\<close>

section \<open>Calls\<close>

datatype barrier_call =
    Claim pane_key string "proc_id option" "string option"
  | ReleaseUnwritten pane_key string proc_id string
  | ClearOwner pane_key string
  | LatchTurn pane_key string nat
  | BindTurn pane_key string turn_key nat
  | EndRecorded pane_key proc_id string turn_key
  | InMode observation
  | CaptureFailed pane_key bool "int option" "string option"
  | Commit observation detection bool "unknown_reason option"
  | PaneForgotten pane_key

fun perform :: "barrier_call \<Rightarrow> barrier \<Rightarrow> barrier option" where
  "perform (Claim pane owner agent manifest) b = Some (snd (snd (claim_hold b pane owner agent manifest)))"
| "perform (ReleaseUnwritten pane owner agent manifest) b =
     Some (snd (snd (release_unwritten_hold b pane owner agent manifest)))"
| "perform (ClearOwner pane owner) b = Some (snd (snd (clear_hold_owner b pane owner)))"
| "perform (LatchTurn pane owner since) b = Some (snd (snd (latch_turn_started b pane owner since)))"
| "perform (BindTurn pane owner turn since) b = Some (snd (snd (bind_turn b pane owner turn since)))"
| "perform (EndRecorded pane agent manifest turn) b =
     Some (b\<lparr>br_ends := ends_record (br_ends b) pane agent manifest turn\<rparr>)"
| "perform (InMode ob) b = Some (snd (snd (observe_in_mode b ob)))"
| "perform (CaptureFailed pane in_mode occupant manifest) b =
     Some (snd (retain_stale b pane in_mode occupant manifest))"
| "perform (Commit ob det working reason) b =
     map_option snd (commit_observation b ob det working reason)"
| "perform (PaneForgotten pane) b =
     Some (b\<lparr>br_detections := hm_remove pane (br_detections b), br_ends := ends_forget (br_ends b) pane\<rparr>)"

fun perform_all :: "barrier_call list \<Rightarrow> barrier \<Rightarrow> barrier option" where
  "perform_all [] b = Some b"
| "perform_all (c # cs) b = Option.bind (perform c b) (perform_all cs)"

definition barrier_new :: barrier where
  "barrier_new = \<lparr>br_detections = [], br_ends = []\<rparr>"

definition entry_of :: "barrier \<Rightarrow> pane_key \<Rightarrow> det_entry option" where
  "entry_of b pane = hm_get (br_detections b) pane"

section \<open>The invariant\<close>

definition verdict_ok :: "detection \<Rightarrow> bool \<Rightarrow> composer_hold \<Rightarrow> bool" where
  "verdict_ok det in_mode hold \<longleftrightarrow>
     (dt_write_ready det \<longrightarrow> \<not> in_mode \<and> \<not> refuses hold \<and> safe_to_write det)
     \<and> (dt_write_block det = None \<longleftrightarrow> dt_write_ready det)"

definition entry_ok :: "det_entry \<Rightarrow> bool" where
  "entry_ok e \<longleftrightarrow>
     verdict_ok (de_detection e) (de_in_mode e) (de_hold e)
     \<and> (de_hold_owner e \<noteq> None \<longrightarrow> refuses (de_hold e))"

definition barrier_ok :: "barrier \<Rightarrow> bool" where
  "barrier_ok b \<longleftrightarrow> (\<forall>pane e. entry_of b pane = Some e \<longrightarrow> entry_ok e) \<and> ends_ok (br_ends b)"

lemma barrier_okD: "barrier_ok b \<Longrightarrow> hm_get (br_detections b) pane = Some e \<Longrightarrow> entry_ok e"
  by (auto simp: barrier_ok_def entry_of_def)

lemma barrier_ok_ends: "barrier_ok b \<Longrightarrow> ends_ok (br_ends b)"
  by (simp add: barrier_ok_def)

lemma barrier_ok_insert:
  "barrier_ok b \<Longrightarrow> entry_ok e \<Longrightarrow> ends_ok ends \<Longrightarrow>
     barrier_ok (b\<lparr>br_detections := hm_insert pane e (br_detections b), br_ends := ends\<rparr>)"
  by (auto simp: barrier_ok_def entry_of_def)

lemma barrier_ok_insert_only:
  "barrier_ok b \<Longrightarrow> entry_ok e \<Longrightarrow> barrier_ok (b\<lparr>br_detections := hm_insert pane e (br_detections b)\<rparr>)"
  by (auto simp: barrier_ok_def entry_of_def)

lemma barrier_ok_with_ends: "barrier_ok b \<Longrightarrow> ends_ok ends \<Longrightarrow> barrier_ok (b\<lparr>br_ends := ends\<rparr>)"
  by (auto simp: barrier_ok_def entry_of_def)

lemma verdict_ok_stamped [simp]: "verdict_ok (stamped det m h) m h"
  by (auto simp: verdict_ok_def)

lemma verdict_ok_refused [simp]: "verdict_ok (refused det r) m h"
  by (simp add: verdict_ok_def detection_simps)

lemma entry_ok_restamp: "(de_hold_owner e \<noteq> None \<longrightarrow> refuses (de_hold e)) \<Longrightarrow> entry_ok (restamp e)"
  by (simp add: entry_ok_def restamp_def)

lemma store_entry_ok:
  "barrier_ok b \<Longrightarrow> (de_hold_owner e' \<noteq> None \<longrightarrow> refuses (de_hold e')) \<Longrightarrow>
     barrier_ok (snd (store_entry b pane e (restamp e')))"
  by (simp add: store_entry_def barrier_ok_insert_only entry_ok_restamp)

section \<open>Every call keeps it\<close>

lemma claim_hold_ok: "barrier_ok b \<Longrightarrow> barrier_ok (snd (snd (claim_hold b pane owner agent manifest)))"
  by (auto simp: claim_hold_def refuses_def split: option.splits intro!: store_entry_ok)

lemma release_unwritten_ok:
  "barrier_ok b \<Longrightarrow> barrier_ok (snd (snd (release_unwritten_hold b pane owner agent manifest)))"
  by (auto simp: release_unwritten_hold_def split: option.splits intro!: store_entry_ok)

lemma clear_hold_owner_ok: "barrier_ok b \<Longrightarrow> barrier_ok (snd (snd (clear_hold_owner b pane owner)))"
  by (auto simp: clear_hold_owner_def split: option.splits intro!: store_entry_ok)

lemma latch_turn_started_ok: "barrier_ok b \<Longrightarrow> barrier_ok (snd (snd (latch_turn_started b pane owner since)))"
  by (auto simp: latch_turn_started_def set_hold_owned_def refuses_def split: option.splits intro!: store_entry_ok)

lemma bind_turn_ok:
  assumes ok: "barrier_ok b"
  shows "barrier_ok (snd (snd (bind_turn b pane owner turn since)))"
proof (cases "hm_get (br_detections b) pane")
  case (Some e)
  have "barrier_ok (b\<lparr>br_ends := snd (ends_pin (br_ends b) pane agent manifest turn)\<rparr>)" for agent manifest
    using ok barrier_ok_with_ends ends_pin_ok barrier_ok_ends by blast
  moreover have "de_hold_owner e \<noteq> None \<longrightarrow> refuses (de_hold e)"
    using barrier_okD [OF ok Some] by (simp add: entry_ok_def)
  ultimately show ?thesis
    using Some ok
    by (auto simp: bind_turn_def Let_def refuses_def split: option.splits prod.splits intro!: store_entry_ok)
      (metis snd_conv)+
qed (simp add: bind_turn_def ok)

lemma observe_in_mode_ok:
  assumes "barrier_ok b"
  shows "barrier_ok (snd (snd (observe_in_mode b ob)))"
proof (cases "hm_get (br_detections b) (ob_pane ob)")
  case None
  then show ?thesis
    using assms
    by (simp add: observe_in_mode_def Let_def occupant_unprovable_def entry_ok_def barrier_ok_insert_only)
next
  case (Some e)
  then have "de_hold_owner e \<noteq> None \<longrightarrow> refuses (de_hold e)"
    using barrier_okD [OF assms Some] by (simp add: entry_ok_def)
  then show ?thesis
    using assms Some
    by (simp add: observe_in_mode_def Let_def occupant_unprovable_def entry_ok_def barrier_ok_insert_only)
qed

lemma stale_not_safe: "dt_stale det \<Longrightarrow> \<not> safe_to_write det"
  by (simp add: safe_to_write_def)

lemma retain_stale_ok:
  assumes "barrier_ok b"
  shows "barrier_ok (snd (retain_stale b pane in_mode occupant manifest))"
proof (cases "hm_get (br_detections b) pane")
  case (Some e)
  then have "de_hold_owner e \<noteq> None \<longrightarrow> refuses (de_hold e)"
    using barrier_okD [OF assms Some] by (simp add: entry_ok_def)
  moreover have "\<not> safe_to_write ((de_detection e)\<lparr>dt_stale := True\<rparr>)" by (simp add: stale_not_safe)
  ultimately show ?thesis
    using assms Some by (auto simp: retain_stale_def Let_def entry_ok_def verdict_ok_def intro!: barrier_ok_insert_only)
qed (simp add: retain_stale_def assms)

section \<open>Settling and committing\<close>

lemma settled_ends_ok: "ends_ok ends \<Longrightarrow> ends_ok (settled_ends ends pane agent manifest turn ended nxt)"
  by (auto simp: settled_ends_def ends_take_ok ends_retire_ok split: option.splits)

lemma diagnose_missing_end_ok:
  "ends_ok ends \<Longrightarrow> ends_ok (snd (diagnose_missing_end ends pane agent manifest turn ended nxt det))"
  by (auto simp: diagnose_missing_end_def reserve_diagnostic_ok split: option.splits)

lemma settle_turn_Some:
  assumes "settle_turn ends pane agent manifest turn hold det = Some (nxt, stranded, missing, ends')"
  shows "nxt = advance hold det (carried_turn_ended ends pane agent manifest turn)"
    "ends_ok ends \<Longrightarrow> ends_ok ends'"
    "turn = None \<or> agent \<noteq> None"
  using assms
    diagnose_missing_end_ok [OF settled_ends_ok, of ends pane agent manifest turn "carried_turn_ended ends pane agent manifest turn"
      "advance hold det (carried_turn_ended ends pane agent manifest turn)" pane agent manifest turn
      "carried_turn_ended ends pane agent manifest turn" "advance hold det (carried_turn_ended ends pane agent manifest turn)" det]
  by (auto simp: settle_turn_def Let_def split: prod.splits if_splits)

lemma settle_turn_total: "turn = None \<or> agent \<noteq> None \<Longrightarrow> settle_turn ends pane agent manifest turn hold det \<noteq> None"
  by (auto simp: settle_turn_def Let_def split: prod.splits)

text \<open>A turn is carried only with a proven agent, so the expectation in \<open>settle_turn\<close> is never violated.\<close>

lemma carried_turn_has_agent:
  assumes "commit_frozen b ob = None"
  shows "Option.bind (commit_carried b ob) de_turn = None \<or> ob_admitted ob \<noteq> None"
proof (cases "hm_get (br_detections b) (ob_pane ob)")
  case (Some e)
  then show ?thesis
    using assms
    by (auto simp: commit_frozen_def commit_unproven_def commit_carried_def composer_hold_carried_entry_def
        split: if_splits)
qed (simp add: commit_carried_def composer_hold_carried_entry_def)

lemma commit_total: "commit_observation b ob det w reason \<noteq> None"
proof (cases "commit_frozen b ob")
  case None
  then have "settle_turn (br_ends b) (ob_pane ob) (ob_admitted ob) (ob_manifest_id ob) (Option.bind (commit_carried b ob) de_turn)
      (commit_base_hold b ob det) det \<noteq> None"
    using carried_turn_has_agent by (intro settle_turn_total) simp
  then show ?thesis using None by (simp add: commit_observation_def Let_def)
qed (simp add: commit_observation_def)

lemma committed_verdict_ok [simp]: "verdict_ok (committed_verdict b ob det hold stranded reason) (ob_in_mode ob) hold"
proof -
  have "verdict_ok (d\<lparr>dt_unknown_reason := r\<rparr>) m h = verdict_ok d m h" for d r m h
    using safe_to_write_cong [of "d\<lparr>dt_unknown_reason := r\<rparr>" d] by (simp add: verdict_ok_def)
  then show ?thesis by (simp add: committed_verdict_def Let_def occupant_unprovable_def)
qed

lemma committed_verdict_fields [simp]:
  "dt_state (committed_verdict b ob det hold stranded reason) = dt_state det"
  "dt_readings (committed_verdict b ob det hold stranded reason) = dt_readings det"
  by (simp_all add: committed_verdict_def Let_def occupant_unprovable_def detection_simps)

lemma commit_store_ok:
  "barrier_ok b \<Longrightarrow> entry_ok e \<Longrightarrow> ends_ok ends \<Longrightarrow> barrier_ok (snd (commit_store b ob e missing ends))"
  by (auto simp: commit_store_def Let_def barrier_ok_def entry_of_def)

lemma commit_observation_ok:
  assumes ok: "barrier_ok b" and c: "commit_observation b ob det w reason = Some (r, b')"
  shows "barrier_ok b'"
proof (cases "commit_frozen b ob")
  case (Some f)
  then have "hm_get (br_detections b) (ob_pane ob) = Some f" by (auto simp: commit_frozen_def split: if_splits)
  then have "de_hold_owner f \<noteq> None \<longrightarrow> refuses (de_hold f)" using barrier_okD [OF ok] by (auto simp: entry_ok_def)
  then have "barrier_ok (snd (commit_store b ob
      (f\<lparr>de_detection := committed_verdict b ob det (de_hold f) False reason, de_in_mode := ob_in_mode ob,
         de_working_confirmed := w\<rparr>) False (br_ends b)))"
    using ok barrier_ok_ends by (intro commit_store_ok) (simp_all add: entry_ok_def)
  then show ?thesis using c Some by (simp add: commit_observation_def)
next
  case None
  then obtain hold stranded missing ends where
    s: "settle_turn (br_ends b) (ob_pane ob) (ob_admitted ob) (ob_manifest_id ob) (Option.bind (commit_carried b ob) de_turn)
          (commit_base_hold b ob det) det = Some (hold, stranded, missing, ends)"
    using c by (auto simp: commit_observation_def Let_def)
  have "barrier_ok (snd (commit_store b ob
      \<lparr>de_detection = committed_verdict b ob det hold stranded reason,
       de_binding = ob_observed ob, de_manifest = ob_manifest_id ob, de_occupant = ob_occupant ob,
       de_agent = ob_admitted ob, de_in_mode = ob_in_mode ob, de_hold = hold,
       de_turn = (if turn_started_at hold \<noteq> None then Option.bind (commit_carried b ob) de_turn else None),
       de_hold_owner = (if hold \<noteq> HoldClear then Option.bind (commit_carried b ob) de_hold_owner else None),
       de_working_confirmed = w\<rparr> missing ends))"
    using ok barrier_ok_ends settle_turn_Some(2) [OF s] by (intro commit_store_ok) (simp_all add: entry_ok_def refuses_def)
  then show ?thesis using c None s by (simp add: commit_observation_def Let_def)
qed

lemma perform_total: "\<exists>b'. perform c b = Some b'"
  using commit_total by (cases c) (auto, metis option.exhaust prod.exhaust)

lemma barrier_call_ok: "barrier_ok b \<Longrightarrow> perform c b = Some b' \<Longrightarrow> barrier_ok b'"
proof (cases c)
  case (PaneForgotten pane)
  moreover assume "barrier_ok b" "perform c b = Some b'"
  ultimately show ?thesis by (auto simp: barrier_ok_def entry_of_def ends_forget_ok split: if_splits)
next
  case (EndRecorded pane agent manifest turn)
  moreover assume "barrier_ok b" "perform c b = Some b'"
  ultimately show ?thesis using barrier_ok_with_ends ends_record_ok barrier_ok_ends by auto
qed (auto simp: claim_hold_ok release_unwritten_ok clear_hold_owner_ok latch_turn_started_ok bind_turn_ok
    observe_in_mode_ok retain_stale_ok dest: commit_observation_ok)

lemma barrier_new_ok: "barrier_ok barrier_new"
  by (simp add: barrier_ok_def barrier_new_def entry_of_def)

lemma perform_all_ok: "barrier_ok b \<Longrightarrow> \<exists>b'. perform_all cs b = Some b' \<and> barrier_ok b'"
proof (induction cs arbitrary: b)
  case (Cons c cs)
  obtain b1 where "perform c b = Some b1" using perform_total by blast
  then show ?case using Cons.IH barrier_call_ok [OF Cons.prems] by simp
qed simp

section \<open>What may end a hold\<close>

text \<open>The pane was proven to be another's: its process is gone, or another agent or rule set holds it.\<close>

definition replaced :: "observation \<Rightarrow> det_entry \<Rightarrow> bool" where
  "replaced ob e \<longleftrightarrow>
     \<not> ob_unobservable ob
     \<and> (case ob_admitted ob of
          None \<Rightarrow> ob_dead ob \<or> ob_seen ob = OccupantGone
        | Some a \<Rightarrow> de_agent e \<noteq> Some a \<or> de_manifest e \<noteq> ob_manifest_id ob)"

text \<open>Settled output showed the composer of an unowned hold exactly empty.\<close>

definition emptied :: "observation \<Rightarrow> det_entry \<Rightarrow> detection \<Rightarrow> bool" where
  "emptied ob e det \<longleftrightarrow>
     ob_cause ob = ''output_settled'' \<and> de_hold_owner e = None \<and> is_waiting (de_hold e)
     \<and> \<not> dt_stale det \<and> dt_composer_semantic det = Some SemClean
     \<and> (\<exists>r\<in>set (dt_readings det). sr_sensor r = ScreenSensor) \<and> dt_state det \<in> {SIdle, SWorking}"

text \<open>
  The turn that took the text is over: no sensor reads it running, the screen shows a composer that
  is safe to write, and the turn that the hold names has its own end in the store; a hold that names
  none needs an idle verdict.
\<close>

definition consumed :: "barrier \<Rightarrow> observation \<Rightarrow> det_entry \<Rightarrow> detection \<Rightarrow> bool" where
  "consumed b ob e det \<longleftrightarrow>
     (\<exists>since. de_hold e = HoldTurnStarted since) \<and> \<not> sees_input det \<and> turn_running_at det = None
     \<and> screen_proves_write_safe_composer det
     \<and> (case de_turn e of
          None \<Rightarrow> dt_state det = SIdle
        | Some t \<Rightarrow> (\<exists>a. ob_admitted ob = Some a \<and>
            ends_holds (br_ends b) (ob_pane ob) a (case ob_manifest_id ob of Some m \<Rightarrow> m | None \<Rightarrow> []) t))"

fun may_end_hold :: "barrier_call \<Rightarrow> barrier \<Rightarrow> pane_key \<Rightarrow> det_entry \<Rightarrow> bool" where
  "may_end_hold (ClearOwner p owner) b pane e \<longleftrightarrow> p = pane \<and> de_hold_owner e = Some owner"
| "may_end_hold (ReleaseUnwritten p owner agent manifest) b pane e \<longleftrightarrow>
     p = pane \<and> de_hold_owner e = Some owner \<and> de_hold e = HoldStaged \<and> de_agent e = Some agent
     \<and> de_manifest e = Some manifest"
| "may_end_hold (PaneForgotten p) b pane e \<longleftrightarrow> p = pane"
| "may_end_hold (Commit ob det w reason) b pane e \<longleftrightarrow>
     ob_pane ob = pane
     \<and> (replaced ob e \<or> emptied ob e det \<or> \<not> ob_unobservable ob \<and> (dt_state det = SDead \<or> consumed b ob e det))"
| "may_end_hold c b pane e \<longleftrightarrow> False"

lemma advance_clears:
  assumes "advance hold det ended = HoldClear" and "hold \<noteq> HoldClear"
  shows "dt_state det = SDead \<or>
    (\<exists>since. hold = HoldTurnStarted since) \<and> \<not> sees_input det \<and> turn_running_at det = None
      \<and> screen_proves_write_safe_composer det \<and> (case ended of Some b \<Rightarrow> b | None \<Rightarrow> dt_state det = SIdle)"
  using assms by (auto simp: advance_def split: if_splits option.splits composer_hold.splits)

lemma entry_of_store [simp]:
  "entry_of (snd (store_entry b p e e')) pane = (if pane = p then Some e' else entry_of b pane)"
  by (simp add: store_entry_def entry_of_def)

lemma restamp_fields [simp]:
  "de_hold (restamp e) = de_hold e" "de_hold_owner (restamp e) = de_hold_owner e" "de_turn (restamp e) = de_turn e"
  "de_agent (restamp e) = de_agent e" "de_manifest (restamp e) = de_manifest e"
  by (simp_all add: restamp_def)

lemma entry_of_with_ends [simp]: "entry_of (b\<lparr>br_ends := ends\<rparr>) pane = entry_of b pane"
  by (simp add: entry_of_def)

text \<open>Binding a turn never lets a hold go.\<close>

lemma bind_turn_cases:
  obtains (none) ends where "snd (snd (bind_turn b p owner turn since)) = b\<lparr>br_ends := ends\<rparr>"
    "fst (bind_turn b p owner turn since) = None"
  | (bound) e ends where "entry_of b p = Some e" "de_hold_owner e = Some owner"
    "snd (snd (bind_turn b p owner turn since)) = snd (store_entry (b\<lparr>br_ends := ends\<rparr>) p e
       (restamp (e\<lparr>de_turn := Some turn,
          de_hold := (if is_waiting (de_hold e) then HoldTurnStarted since else de_hold e)\<rparr>)))"
proof -
  have same: "b = b\<lparr>br_ends := br_ends b\<rparr>" by simp
  consider (none) "entry_of b p = None" | (other) e where "entry_of b p = Some e" "de_hold_owner e \<noteq> Some owner"
    | (own) e where "entry_of b p = Some e" "de_hold_owner e = Some owner"
    by (cases "entry_of b p") auto
  then show thesis
  proof cases
    case none
    then show thesis using same that(1) [of "br_ends b"] by (simp add: bind_turn_def entry_of_def)
  next
    case other
    then show thesis using same that(1) [of "br_ends b"] by (simp add: bind_turn_def entry_of_def)
  next
    case own
    show thesis
    proof (cases "\<exists>agent manifest. de_agent e = Some agent \<and> de_manifest e = Some manifest \<and> \<not> is_some_and (de_turn e) (\<lambda>t. t \<noteq> turn)")
      case True
      then obtain agent manifest where am: "de_agent e = Some agent" "de_manifest e = Some manifest"
        "\<not> is_some_and (de_turn e) (\<lambda>t. t \<noteq> turn)" by blast
      obtain pinned ends where pin: "ends_pin (br_ends b) p agent manifest turn = (pinned, ends)" by fastforce
      show thesis
      proof (cases pinned)
        case True
        then show thesis
          using that(2) [OF own, of ends] own am pin by (simp add: bind_turn_def entry_of_def Let_def)
      next
        case False
        then show thesis
          using that(1) [of ends] own am pin by (simp add: bind_turn_def entry_of_def Let_def)
      qed
    next
      case False
      then have "bind_turn b p owner turn since = (None, [], b)"
        using own by (auto simp: bind_turn_def entry_of_def split: option.splits)
      then show thesis using same that(1) [of "br_ends b"] by simp
    qed
  qed
qed

lemma bind_turn_keeps_hold:
  assumes "entry_of b pane = Some e"
  shows "\<exists>e'. entry_of (snd (snd (bind_turn b p owner turn since))) pane = Some e' \<and>
    (e' = e \<or> p = pane \<and> de_hold_owner e = Some owner \<and> (refuses (de_hold e) \<longrightarrow> refuses (de_hold e')))"
proof (cases rule: bind_turn_cases [of b p owner turn since])
  case (none ends)
  show ?thesis unfolding none(1) using assms by simp
next
  case (bound f ends)
  show ?thesis unfolding bound(3) using assms bound(1,2) by (auto simp: refuses_def)
qed

lemma commit_ends_hold:
  assumes c: "commit_observation b ob det w reason = Some (r, b')"
    and e: "entry_of b (ob_pane ob) = Some e" and held: "refuses (de_hold e)"
    and e': "entry_of b' (ob_pane ob) = Some e'" and free: "\<not> refuses (de_hold e')"
  shows "replaced ob e \<or> emptied ob e det \<or> \<not> ob_unobservable ob \<and> (dt_state det = SDead \<or> consumed b ob e det)"
proof (cases "commit_frozen b ob")
  case (Some f)
  then have "f = e" using e by (auto simp: commit_frozen_def entry_of_def split: if_splits)
  then have "de_hold e' = de_hold e"
    using c Some e' by (auto simp: commit_observation_def commit_store_def Let_def entry_of_def)
  then show ?thesis using held free by simp
next
  case None
  then have seen: "\<not> ob_unobservable ob"
    using e by (auto simp: commit_frozen_def entry_of_def split: if_splits)
  obtain hold stranded missing ends where
    s: "settle_turn (br_ends b) (ob_pane ob) (ob_admitted ob) (ob_manifest_id ob) (Option.bind (commit_carried b ob) de_turn)
          (commit_base_hold b ob det) det = Some (hold, stranded, missing, ends)"
    and hold: "de_hold e' = hold"
    using c e' None by (auto simp: commit_observation_def commit_store_def Let_def entry_of_def split: prod.splits)
  have clear: "advance (commit_base_hold b ob det) det
      (carried_turn_ended (br_ends b) (ob_pane ob) (ob_admitted ob) (ob_manifest_id ob) (Option.bind (commit_carried b ob) de_turn))
      = HoldClear"
    using settle_turn_Some(1) [OF s] hold free by (simp add: refuses_def)
  show ?thesis
  proof (cases "replaced ob e")
    case False
    then have carried: "commit_carried b ob = Some e" and adm: "\<exists>a. ob_admitted ob = Some a"
      using seen e held None
      by (auto simp: replaced_def commit_carried_def composer_hold_carried_entry_def commit_frozen_def commit_unproven_def
          entry_of_def is_some_and_iff split: option.splits if_splits)
    show ?thesis
    proof (cases "commit_base_hold b ob det = HoldClear")
      case True
      then have "emptied ob e det"
        using carried held
        by (auto simp: commit_base_hold_def release_after_settled_visible_empty_def Let_def emptied_def list_ex_iff
            refuses_def split: if_splits)
      then show ?thesis by simp
    next
      case base: False
      then have same: "commit_base_hold b ob det = de_hold e"
        using carried by (auto simp: commit_base_hold_def release_after_settled_visible_empty_def Let_def split: if_splits)
      have "dt_state det = SDead \<or> consumed b ob e det"
        using advance_clears [OF clear base] adm
        by (auto simp: same carried consumed_def carried_turn_ended_def split: option.splits)
      then show ?thesis using seen by simp
    qed
  qed simp
qed

end
