(* ===== verification/Barrier_Run.thy ===== *)
theory Barrier_Run
  imports Barrier_Laws
begin

text \<open>
  Runs of the composer barrier. Two things are followed through a run of calls: the frame that the
  cached verdict of a pane was read from, and the way a hold takes from seeing text staged to refusing
  writes no longer.
\<close>

section \<open>Runs\<close>

lemma perform_all_append: "perform_all (cs @ ds) b = Option.bind (perform_all cs b) (perform_all ds)"
  by (induction cs arbitrary: b) (auto split: bind_splits)

lemma perform_all_snoc: "perform_all (cs @ [c]) b = Some b' \<longleftrightarrow> (\<exists>b1. perform_all cs b = Some b1 \<and> perform c b1 = Some b')"
  by (auto simp: perform_all_append bind_eq_Some_conv simp del: perform.simps)

text \<open>The observation of the pane that a call brings, and the pane of a call on behalf of a delivery.\<close>

fun observes :: "barrier_call \<Rightarrow> pane_key \<Rightarrow> observation option" where
  "observes (Commit ob det w reason) pane = (if ob_pane ob = pane then Some ob else None)"
| "observes (InMode ob) pane = (if ob_pane ob = pane then Some ob else None)"
| "observes c pane = None"

fun frees_for_owner :: "barrier_call \<Rightarrow> pane_key \<Rightarrow> bool" where
  "frees_for_owner (ClearOwner p owner) pane \<longleftrightarrow> p = pane"
| "frees_for_owner (ReleaseUnwritten p owner agent manifest) pane \<longleftrightarrow> p = pane"
| "frees_for_owner c pane \<longleftrightarrow> False"

lemma commit_elsewhere:
  "commit_observation b ob det w reason = Some (r, b') \<Longrightarrow> ob_pane ob \<noteq> pane \<Longrightarrow> entry_of b' pane = entry_of b pane"
  by (auto simp: commit_observation_def commit_store_def Let_def entry_of_def split: option.splits prod.splits)

section \<open>The end of a hold, in one step\<close>

lemma hold_step_ends:
  assumes step: "perform c b = Some b'" and e: "entry_of b pane = Some e" and held: "refuses (de_hold e)"
    and free: "\<forall>e'. entry_of b' pane = Some e' \<longrightarrow> \<not> refuses (de_hold e')"
  shows "may_end_hold c b pane e"
proof -
  have changed: "entry_of b' pane \<noteq> Some e" using free held by auto
  show ?thesis
  proof (cases c)
    case (Claim p owner agent manifest)
    then show ?thesis
      using step e free held
      by (auto simp: claim_hold_def entry_of_def refuses_def store_entry_def split: option.splits if_splits)
  next
    case (ReleaseUnwritten p owner agent manifest)
    then show ?thesis
      using step e changed
      by (auto simp: release_unwritten_hold_def entry_of_def store_entry_def split: option.splits if_splits)
  next
    case (ClearOwner p owner)
    then show ?thesis
      using step e changed
      by (auto simp: clear_hold_owner_def entry_of_def store_entry_def split: option.splits if_splits)
  next
    case (LatchTurn p owner since)
    then show ?thesis
      using step e free held
      by (auto simp: latch_turn_started_def set_hold_owned_def entry_of_def refuses_def store_entry_def
          split: option.splits if_splits)
  next
    case (BindTurn p owner turn since)
    then show ?thesis
      using step free held bind_turn_keeps_hold [OF e, of p owner turn since] by auto
  next
    case (EndRecorded p agent manifest turn)
    then show ?thesis using step e changed by auto
  next
    case (InMode ob)
    then show ?thesis
      using step e free held
      by (auto simp: observe_in_mode_def entry_of_def Let_def split: option.splits if_splits)
  next
    case (CaptureFailed p in_mode occupant manifest)
    then show ?thesis
      using step e free held
      by (auto simp: retain_stale_def entry_of_def Let_def split: option.splits if_splits)
  next
    case (Commit ob det w reason)
    obtain r where r: "commit_observation b ob det w reason = Some (r, b')" using step Commit by auto
    have here: "ob_pane ob = pane"
    proof (rule ccontr)
      assume "ob_pane ob \<noteq> pane"
      then have "entry_of b' pane = entry_of b pane"
        using r by (auto simp: commit_observation_def commit_store_def Let_def entry_of_def split: option.splits prod.splits)
      then show False using changed e by simp
    qed
    obtain e' where e': "entry_of b' pane = Some e'"
      using r here by (auto simp: commit_observation_def commit_store_def Let_def entry_of_def split: option.splits prod.splits)
    show ?thesis
      using commit_ends_hold [OF r] e e' held free here Commit by auto
  next
    case (PaneForgotten p)
    then show ?thesis using step e changed by (auto simp: entry_of_def split: if_splits)
  qed
qed

section \<open>The frame behind a verdict\<close>

text \<open>What a verdict was read from: all but the stamp.\<close>

definition same_evidence :: "detection \<Rightarrow> detection \<Rightarrow> bool" where
  "same_evidence d d' \<longleftrightarrow>
     dt_state d = dt_state d' \<and> dt_readings d = dt_readings d' \<and> dt_disagreement d = dt_disagreement d' \<and>
     dt_decided_by d = dt_decided_by d' \<and> dt_stale d = dt_stale d' \<and> dt_composer_semantic d = dt_composer_semantic d'"

lemma same_evidence_refl [simp]: "same_evidence d d"
  by (simp add: same_evidence_def)

lemma same_evidence_trans: "same_evidence d d' \<Longrightarrow> same_evidence d' d'' \<Longrightarrow> same_evidence d d''"
  by (simp add: same_evidence_def)

lemma same_evidence_stamped [simp]: "same_evidence (stamped d m h) d"
  by (simp add: same_evidence_def detection_simps)

lemma same_evidence_committed [simp]: "same_evidence (committed_verdict b ob det hold stranded reason) det"
  by (simp add: same_evidence_def committed_verdict_def Let_def occupant_unprovable_def detection_simps)

lemma same_evidence_safe: "same_evidence d d' \<Longrightarrow> safe_to_write d \<Longrightarrow> safe_to_write d'"
  using safe_to_write_cong [of d d'] by (simp add: same_evidence_def)

text \<open>A call that observes nothing leaves the frame as it is, or marks it stale.\<close>

definition keeps_frame :: "barrier_call \<Rightarrow> pane_key \<Rightarrow> det_entry \<Rightarrow> det_entry \<Rightarrow> bool" where
  "keeps_frame c pane e e' \<longleftrightarrow>
     de_binding e' = de_binding e \<and> de_in_mode e' = de_in_mode e \<and> de_occupant e' = de_occupant e \<and>
     de_manifest e' = de_manifest e \<and>
     (\<not> dt_stale (de_detection e') \<longrightarrow> same_evidence (de_detection e') (de_detection e)) \<and>
     (dt_write_ready (de_detection e') \<longrightarrow> dt_write_ready (de_detection e) \<or> frees_for_owner c pane) \<and>
     (\<forall>in_mode occupant. c = CaptureFailed pane in_mode (Some occupant) (de_manifest e) \<and> de_occupant e = Some occupant \<longrightarrow>
        dt_stale (de_detection e'))"

lemma keeps_frame_same: "(\<And>in_mode occupant manifest. c \<noteq> CaptureFailed pane in_mode occupant manifest) \<Longrightarrow> keeps_frame c pane e e"
  by (auto simp: keeps_frame_def)

lemma keeps_frame_restamp:
  assumes "\<And>in_mode occupant manifest. c \<noteq> CaptureFailed pane in_mode occupant manifest"
    and "refuses (de_hold e') \<or> frees_for_owner c pane"
    and "de_detection e' = de_detection e" "de_binding e' = de_binding e" "de_in_mode e' = de_in_mode e"
      "de_occupant e' = de_occupant e" "de_manifest e' = de_manifest e"
  shows "keeps_frame c pane e (restamp e')"
  using assms by (auto simp: keeps_frame_def restamp_def)

lemma quiet_call_keeps_frame:
  assumes ok: "barrier_ok b" and step: "perform c b = Some b'"
    and quiet: "observes c pane = None" "c \<noteq> PaneForgotten pane" and e': "entry_of b' pane = Some e'"
  shows "\<exists>e. entry_of b pane = Some e \<and> keeps_frame c pane e e'"
proof (cases c)
  case (Claim p owner agent manifest)
  then show ?thesis
    using step e'
    by (auto simp: claim_hold_def entry_of_def store_entry_def refuses_def split: option.splits if_splits
        intro!: keeps_frame_same keeps_frame_restamp)
next
  case (ReleaseUnwritten p owner agent manifest)
  then show ?thesis
    using step e'
    by (auto simp: release_unwritten_hold_def entry_of_def store_entry_def split: option.splits if_splits
        intro!: keeps_frame_same keeps_frame_restamp)
next
  case (ClearOwner p owner)
  then show ?thesis
    using step e'
    by (auto simp: clear_hold_owner_def entry_of_def store_entry_def split: option.splits if_splits
        intro!: keeps_frame_same keeps_frame_restamp)
next
  case (LatchTurn p owner since)
  then show ?thesis
    using step e'
    by (auto simp: latch_turn_started_def set_hold_owned_def entry_of_def store_entry_def refuses_def
        split: option.splits if_splits intro!: keeps_frame_same keeps_frame_restamp)
next
  case (BindTurn p owner turn since)
  show ?thesis
  proof (cases rule: bind_turn_cases [of b p owner turn since])
    case (none ends)
    then have "b' = b\<lparr>br_ends := ends\<rparr>" using step BindTurn by simp
    then have "entry_of b pane = Some e'" using e' by simp
    then show ?thesis using BindTurn by (auto intro: keeps_frame_same)
  next
    case (bound f ends)
    have "refuses (de_hold f)" using ok bound(1,2) by (auto simp: barrier_ok_def entry_ok_def)
    let ?g = "f\<lparr>de_turn := Some turn, de_hold := (if is_waiting (de_hold f) then HoldTurnStarted since else de_hold f)\<rparr>"
    have b': "b' = snd (store_entry (b\<lparr>br_ends := ends\<rparr>) p f (restamp ?g))" using step BindTurn bound(3) by simp
    have "keeps_frame c p f (restamp ?g)"
      using \<open>refuses (de_hold f)\<close> BindTurn by (intro keeps_frame_restamp) (auto simp: refuses_def)
    moreover have "keeps_frame c pane e' e'" using BindTurn by (intro keeps_frame_same) simp
    ultimately show ?thesis using e' bound(1) by (auto simp: b' split: if_splits)
  qed
next
  case (EndRecorded p agent manifest turn)
  then show ?thesis using step e' by (auto intro: keeps_frame_same)
next
  case (InMode ob)
  then have "entry_of b pane = Some e'"
    using step e' quiet by (auto simp: observe_in_mode_def entry_of_def Let_def split: if_splits)
  then show ?thesis using InMode by (auto intro: keeps_frame_same)
next
  case (CaptureFailed p in_mode occupant manifest)
  then show ?thesis
    using step e'
    by (auto simp: retain_stale_def entry_of_def Let_def keeps_frame_def detection_simps stale_not_safe
        split: option.splits if_splits)
next
  case (Commit ob det w reason)
  then obtain r where "commit_observation b ob det w reason = Some (r, b')" using step by auto
  moreover have "ob_pane ob \<noteq> pane" using quiet Commit by auto
  ultimately have "entry_of b pane = Some e'" using commit_elsewhere e' by metis
  then show ?thesis using Commit by (auto intro: keeps_frame_same)
next
  case (PaneForgotten p)
  then show ?thesis using step e' quiet by (auto simp: entry_of_def intro: keeps_frame_same)
qed

text \<open>What a commit leaves of its own pane.\<close>

lemma commit_own_entry:
  assumes c: "commit_observation b ob det w reason = Some (r, b')" and e': "entry_of b' (ob_pane ob) = Some e'"
  shows "de_in_mode e' = ob_in_mode ob \<and> same_evidence (de_detection e') det \<and>
    (commit_unproven b ob \<longrightarrow> \<not> dt_write_ready (de_detection e')) \<and>
    (de_binding e' = ob_observed ob \<or>
      commit_unproven b ob \<and> (\<exists>e. entry_of b (ob_pane ob) = Some e \<and> de_binding e' = de_binding e))"
proof -
  have refuse: "\<not> dt_write_ready (committed_verdict b ob det hold stranded reason)" if "commit_unproven b ob" for hold stranded
    using that by (simp add: committed_verdict_def occupant_unprovable_def detection_simps Let_def)
  show ?thesis
  proof (cases "commit_frozen b ob")
    case (Some f)
    then have "commit_unproven b ob" "entry_of b (ob_pane ob) = Some f"
      by (auto simp: commit_frozen_def commit_unproven_def entry_of_def split: if_splits)
    then show ?thesis
      using c e' Some refuse by (auto simp: commit_observation_def commit_store_def Let_def entry_of_def)
  next
    case None
    then show ?thesis
      using c e' refuse by (auto simp: commit_observation_def commit_store_def Let_def entry_of_def split: prod.splits)
  qed
qed

text \<open>
  A fresh verdict out of every mode comes from a commit of its pane that nothing observed after. When
  the commit could not prove the occupant, the verdict refuses until a delivery that owns the hold gives
  it up.
\<close>

definition frame_behind ::
  "barrier_call list \<Rightarrow> pane_key \<Rightarrow> det_entry \<Rightarrow> barrier_call list \<Rightarrow> observation \<Rightarrow> detection \<Rightarrow> barrier_call list \<Rightarrow> bool" where
  "frame_behind cs pane e before ob det rest \<longleftrightarrow>
     (\<exists>w reason b0. cs = before @ Commit ob det w reason # rest \<and> perform_all before barrier_new = Some b0 \<and>
        ob_pane ob = pane \<and> ob_in_mode ob = de_in_mode e \<and> same_evidence (de_detection e) det \<and>
        (\<forall>c\<in>set rest. observes c pane = None \<and> c \<noteq> PaneForgotten pane) \<and>
        (\<forall>in_mode occupant. de_occupant e = Some occupant \<longrightarrow>
           CaptureFailed pane in_mode (Some occupant) (de_manifest e) \<notin> set rest) \<and>
        (de_binding e = ob_observed ob \<or> commit_unproven b0 ob) \<and>
        (commit_unproven b0 ob \<longrightarrow> \<not> dt_write_ready (de_detection e) \<or> (\<exists>c\<in>set rest. frees_for_owner c pane)))"

definition binding_seen :: "barrier_call list \<Rightarrow> pane_key \<Rightarrow> binding \<Rightarrow> bool" where
  "binding_seen cs pane x \<longleftrightarrow> (\<exists>c\<in>set cs. \<exists>ob. observes c pane = Some ob \<and> ob_observed ob = Some x)"

lemma binding_seen_snoc:
  "binding_seen (cs @ [c]) pane x \<longleftrightarrow> binding_seen cs pane x \<or> (\<exists>ob. observes c pane = Some ob \<and> ob_observed ob = Some x)"
  by (auto simp: binding_seen_def)

lemma frame_behind_quiet:
  assumes "frame_behind cs pane e before ob det rest" and "keeps_frame c pane e e'" and "\<not> dt_stale (de_detection e')"
    and "observes c pane = None" "c \<noteq> PaneForgotten pane"
  shows "frame_behind (cs @ [c]) pane e' before ob det (rest @ [c])"
proof -
  obtain w reason b0 where r: "cs = before @ Commit ob det w reason # rest" "perform_all before barrier_new = Some b0"
    "ob_pane ob = pane" "ob_in_mode ob = de_in_mode e" "same_evidence (de_detection e) det"
    "\<forall>c\<in>set rest. observes c pane = None \<and> c \<noteq> PaneForgotten pane"
    "\<forall>in_mode occupant. de_occupant e = Some occupant \<longrightarrow>
       CaptureFailed pane in_mode (Some occupant) (de_manifest e) \<notin> set rest"
    "de_binding e = ob_observed ob \<or> commit_unproven b0 ob"
    "commit_unproven b0 ob \<longrightarrow> \<not> dt_write_ready (de_detection e) \<or> (\<exists>c\<in>set rest. frees_for_owner c pane)"
    using assms(1) unfolding frame_behind_def by blast
  have k: "de_binding e' = de_binding e" "de_in_mode e' = de_in_mode e" "de_occupant e' = de_occupant e"
    "de_manifest e' = de_manifest e" "same_evidence (de_detection e') (de_detection e)"
    "dt_write_ready (de_detection e') \<Longrightarrow> dt_write_ready (de_detection e) \<or> frees_for_owner c pane"
    "\<And>in_mode occupant. de_occupant e = Some occupant \<Longrightarrow> c \<noteq> CaptureFailed pane in_mode (Some occupant) (de_manifest e)"
    using assms(2,3) unfolding keeps_frame_def by blast+
  have "cs @ [c] = before @ Commit ob det w reason # rest @ [c]" using r(1) by simp
  moreover have "same_evidence (de_detection e') det" using same_evidence_trans [OF k(5) r(5)] .
  moreover have "\<forall>in_mode occupant. de_occupant e' = Some occupant \<longrightarrow>
      CaptureFailed pane in_mode (Some occupant) (de_manifest e') \<notin> set (rest @ [c])"
    using r(7) k(7) unfolding k(3,4) by fastforce
  moreover have "commit_unproven b0 ob \<longrightarrow>
      \<not> dt_write_ready (de_detection e') \<or> (\<exists>c\<in>set (rest @ [c]). frees_for_owner c pane)"
    using r(9) k(6) by auto
  ultimately show ?thesis
    unfolding frame_behind_def using r(2-4,6,8) k(1,2) assms(4,5)
    by (intro exI [of _ w] exI [of _ reason] exI [of _ b0] conjI) auto
qed

lemma verdict_frame:
  "perform_all cs barrier_new = Some b \<Longrightarrow> entry_of b pane = Some e \<Longrightarrow>
     (\<not> de_in_mode e \<and> \<not> dt_stale (de_detection e) \<longrightarrow> (\<exists>before ob det rest. frame_behind cs pane e before ob det rest)) \<and>
     (\<forall>x. de_binding e = Some x \<longrightarrow> binding_seen cs pane x)"
proof (induction cs arbitrary: b e rule: rev_induct)
  case Nil
  then show ?case by (auto simp: barrier_new_def entry_of_def)
next
  case (snoc c cs)
  obtain b1 where b1: "perform_all cs barrier_new = Some b1" "perform c b1 = Some b"
    using snoc.prems(1) by (auto simp only: perform_all_snoc)
  have ok: "barrier_ok b1" using perform_all_ok [OF barrier_new_ok, of cs] b1(1) by auto
  have gone: "c \<noteq> PaneForgotten pane" using b1(2) snoc.prems(2) by (auto simp: entry_of_def)
  show ?case
  proof (cases "observes c pane")
    case None
    obtain e1 where e1: "entry_of b1 pane = Some e1" "keeps_frame c pane e1 e"
      using quiet_call_keeps_frame [OF ok b1(2) None gone snoc.prems(2)] by blast
    note IH = snoc.IH [OF b1(1) e1(1)]
    have "\<exists>before ob det rest. frame_behind (cs @ [c]) pane e before ob det rest"
      if "\<not> de_in_mode e" "\<not> dt_stale (de_detection e)"
    proof -
      have "\<not> de_in_mode e1" "\<not> dt_stale (de_detection e1)"
        using that e1(2) by (auto simp: keeps_frame_def same_evidence_def)
      then show ?thesis using IH frame_behind_quiet [OF _ e1(2) that(2) None gone] by blast
    qed
    moreover have "binding_seen (cs @ [c]) pane x" if "de_binding e = Some x" for x
    proof -
      have "de_binding e1 = Some x" using that e1(2) by (simp add: keeps_frame_def)
      then show ?thesis using IH by (simp add: binding_seen_snoc)
    qed
    ultimately show ?thesis by blast
  next
    case (Some ob)
    show ?thesis
    proof (cases c)
      case (Commit ob1 det w reason)
      then have here: "ob1 = ob" "ob_pane ob = pane" using Some by (auto split: if_splits)
      obtain r where "commit_observation b1 ob det w reason = Some (r, b)" using b1(2) Commit here by auto
      note own = commit_own_entry [OF this, unfolded here(2), OF snoc.prems(2)]
      have "frame_behind (cs @ [c]) pane e cs ob det []"
        unfolding frame_behind_def using own b1(1) here Commit by (intro exI [of _ w] exI [of _ reason] exI [of _ b1]) auto
      moreover have "binding_seen (cs @ [c]) pane x" if x: "de_binding e = Some x" for x
      proof -
        have "ob_observed ob = Some x \<or> (\<exists>e1. entry_of b1 pane = Some e1 \<and> de_binding e1 = Some x)"
          using own x unfolding here(2) by metis
        then show ?thesis using snoc.IH [OF b1(1)] Some by (auto simp: binding_seen_snoc)
      qed
      ultimately show ?thesis by blast
    next
      case (InMode ob1)
      then have here: "ob1 = ob" "ob_pane ob = pane" using Some by (auto split: if_splits)
      have "de_in_mode e" "de_binding e = ob_observed ob \<or> (\<exists>e1. entry_of b1 pane = Some e1 \<and> de_binding e = de_binding e1)"
        using b1(2) snoc.prems(2) InMode here
        by (auto simp: observe_in_mode_def entry_of_def Let_def split: option.splits if_splits)
      moreover from this(2) have "binding_seen (cs @ [c]) pane x" if "de_binding e = Some x" for x
        using that Some snoc.IH [OF b1(1)] unfolding binding_seen_snoc by metis
      ultimately show ?thesis by simp
    qed (use Some in auto)
  qed
qed

section \<open>The way of a hold\<close>

text \<open>A turn is seen running with no text in the composer: the agent took it.\<close>

definition takes_text :: "detection \<Rightarrow> bool" where
  "takes_text det \<longleftrightarrow> turn_running_at det \<noteq> None \<and> \<not> sees_input det"

lemma advance_to_started:
  "advance h det ended = HoldTurnStarted s \<Longrightarrow>
     \<not> sees_input det \<and> (h = HoldTurnStarted s \<or> h = HoldStaged \<and> takes_text det)"
  by (auto simp: advance_def takes_text_def split: if_splits option.splits composer_hold.splits)

lemma advance_to_staged:
  "advance h det ended = HoldStaged \<Longrightarrow> h = HoldStaged \<or> turn_running_at det = None"
  by (auto simp: advance_def split: if_splits option.splits composer_hold.splits)

text \<open>A frame of the pane whose agent was proven.\<close>

fun frame_of :: "barrier_call \<Rightarrow> pane_key \<Rightarrow> detection option" where
  "frame_of (Commit ob det w reason) pane = (if ob_pane ob = pane \<and> ob_admitted ob \<noteq> None then Some det else None)"
| "frame_of c pane = None"

text \<open>
  A hold let go without a turn: the owning delivery gives it up, the pane is forgotten, dead or proven
  another's, or settled output shows an unowned composer empty.
\<close>

fun let_go :: "barrier_call \<Rightarrow> barrier \<Rightarrow> pane_key \<Rightarrow> det_entry \<Rightarrow> bool" where
  "let_go (Commit ob det w reason) b pane e \<longleftrightarrow>
     ob_pane ob = pane \<and> (replaced ob e \<or> emptied ob e det \<or> \<not> ob_unobservable ob \<and> dt_state det = SDead)"
| "let_go (ClearOwner p owner) b pane e \<longleftrightarrow> p = pane \<and> de_hold_owner e = Some owner"
| "let_go (ReleaseUnwritten p owner agent manifest) b pane e \<longleftrightarrow>
     p = pane \<and> de_hold_owner e = Some owner \<and> de_hold e = HoldStaged \<and> de_agent e = Some agent
     \<and> de_manifest e = Some manifest"
| "let_go (PaneForgotten p) b pane e \<longleftrightarrow> p = pane"
| "let_go c b pane e \<longleftrightarrow> False"

text \<open>The turn took the text: a frame shows it running over an empty composer, or the owner says so.\<close>

fun took_text :: "barrier_call \<Rightarrow> pane_key \<Rightarrow> det_entry \<Rightarrow> bool" where
  "took_text (LatchTurn p owner since) pane e \<longleftrightarrow> p = pane \<and> de_hold_owner e = Some owner"
| "took_text (BindTurn p owner turn since) pane e \<longleftrightarrow> p = pane \<and> de_hold_owner e = Some owner"
| "took_text c pane e \<longleftrightarrow> de_hold e = HoldStaged \<and> is_some_and (frame_of c pane) takes_text"

text \<open>No turn runs any more, or a delivery takes the composer for its own text.\<close>

fun starts_afresh :: "barrier_call \<Rightarrow> pane_key \<Rightarrow> bool" where
  "starts_afresh (Claim p owner agent manifest) pane \<longleftrightarrow> p = pane"
| "starts_afresh c pane \<longleftrightarrow> is_some_and (frame_of c pane) (\<lambda>det. turn_running_at det = None)"

definition shows_text :: "barrier_call \<Rightarrow> pane_key \<Rightarrow> bool" where
  "shows_text c pane \<longleftrightarrow> is_some_and (frame_of c pane) sees_input"

text \<open>How a hold that keeps refusing moves in one call.\<close>

definition hold_moves :: "barrier_call \<Rightarrow> pane_key \<Rightarrow> det_entry \<Rightarrow> composer_hold \<Rightarrow> bool" where
  "hold_moves c pane e h \<longleftrightarrow>
     (case h of
        HoldStaged \<Rightarrow> de_hold e = HoldStaged \<or> starts_afresh c pane
      | HoldTurnStarted s \<Rightarrow>
          (\<exists>s'. de_hold e = HoldTurnStarted s') \<and> \<not> shows_text c pane \<or> is_waiting (de_hold e) \<and> took_text c pane e
      | _ \<Rightarrow> True)"

lemma hold_moves_same: "frame_of c pane = None \<Longrightarrow> hold_moves c pane e (de_hold e)"
  by (auto simp: hold_moves_def shows_text_def split: composer_hold.splits)

lemma commit_moves_hold:
  assumes c: "commit_observation b ob det w reason = Some (r, b')"
    and e: "entry_of b (ob_pane ob) = Some e" and held: "refuses (de_hold e)" and e': "entry_of b' (ob_pane ob) = Some e'"
    and kept: "\<not> let_go (Commit ob det w reason) b (ob_pane ob) e"
  shows "hold_moves (Commit ob det w reason) (ob_pane ob) e (de_hold e')"
proof (cases "commit_frozen b ob")
  case (Some f)
  then have "f = e" "ob_admitted ob = None"
    using e by (auto simp: commit_frozen_def commit_unproven_def ob_unobservable_def ob_admitted_def ob_observed_def
        entry_of_def split: if_splits binding_observation.splits)
  moreover have "de_hold e' = de_hold f"
    using c Some e' by (auto simp: commit_observation_def commit_store_def Let_def entry_of_def)
  ultimately show ?thesis by (simp add: hold_moves_same)
next
  case None
  then have seen: "\<not> ob_unobservable ob" using e by (auto simp: commit_frozen_def entry_of_def split: if_splits)
  then have carried: "commit_carried b ob = Some e" and adm: "ob_admitted ob \<noteq> None"
    using kept e held None
    by (auto simp: replaced_def commit_carried_def composer_hold_carried_entry_def commit_frozen_def commit_unproven_def
        entry_of_def is_some_and_iff split: option.splits if_splits)
  have base: "commit_base_hold b ob det = de_hold e"
    using carried kept held
    by (auto simp: commit_base_hold_def release_after_settled_visible_empty_def Let_def emptied_def list_ex_iff
        refuses_def split: if_splits)
  obtain ended where h: "de_hold e' = advance (de_hold e) det ended"
    using c e' None base settle_turn_Some(1)
    by (fastforce simp: commit_observation_def commit_store_def Let_def entry_of_def split: prod.splits)
  show ?thesis
    using advance_to_started [of "de_hold e" det ended] advance_to_staged [of "de_hold e" det ended] adm
    by (auto simp: hold_moves_def shows_text_def h is_waiting_def split: composer_hold.splits)
qed

lemma call_moves_hold:
  assumes step: "perform c b = Some b'" and e: "entry_of b pane = Some e" and held: "refuses (de_hold e)"
    and e': "entry_of b' pane = Some e'" and kept: "\<not> let_go c b pane e"
  shows "hold_moves c pane e (de_hold e')"
proof (cases "entry_of b' pane = entry_of b pane \<and> frame_of c pane = None")
  case True
  then show ?thesis using e e' hold_moves_same by auto
next
  case changed: False
  show ?thesis
  proof (cases c)
    case (Commit ob det w reason)
    obtain r where r: "commit_observation b ob det w reason = Some (r, b')" using step Commit by auto
    have "ob_pane ob = pane" using changed commit_elsewhere [OF r] Commit by (auto split: if_splits)
    then show ?thesis using commit_moves_hold [OF r] e held e' kept Commit by auto
  next
    case (BindTurn p owner turn since)
    show ?thesis
    proof (cases rule: bind_turn_cases [of b p owner turn since])
      case (none ends)
      then have "b' = b\<lparr>br_ends := ends\<rparr>" using step BindTurn by simp
      then show ?thesis using changed BindTurn by simp
    next
      case (bound f ends)
      then have b': "b' = snd (store_entry (b\<lparr>br_ends := ends\<rparr>) p f (restamp (f\<lparr>de_turn := Some turn,
          de_hold := (if is_waiting (de_hold f) then HoldTurnStarted since else de_hold f)\<rparr>)))"
        using step BindTurn by simp
      then have "p = pane" using changed BindTurn by (auto split: if_splits)
      then show ?thesis
        using b' e e' bound(1,2) BindTurn
        by (auto simp: hold_moves_def shows_text_def is_waiting_def split: composer_hold.splits if_splits)
    qed
  next
    case (CaptureFailed p in_mode occupant manifest)
    then have "de_hold e' = de_hold e"
      using step e e' by (auto simp: retain_stale_def entry_of_def Let_def split: option.splits if_splits)
    then show ?thesis using CaptureFailed by (simp add: hold_moves_same)
  next
    case (InMode ob)
    then have "de_hold e' = de_hold e"
      using step e e' by (auto simp: observe_in_mode_def entry_of_def Let_def split: option.splits if_splits)
    then show ?thesis using InMode by (simp add: hold_moves_same)
  qed (use step e e' kept changed held in \<open>auto simp: claim_hold_def release_unwritten_hold_def clear_hold_owner_def
      latch_turn_started_def set_hold_owned_def entry_of_def store_entry_def hold_moves_def shows_text_def is_waiting_def
      split: option.splits if_splits composer_hold.splits\<close>)
qed

text \<open>
  The pieces of a run in which a turn took the text that a hold guards and ended: the call at which it
  took it, and the frame that ended it.
\<close>

definition taken_by ::
  "barrier \<Rightarrow> pane_key \<Rightarrow> composer_hold \<Rightarrow> barrier_call list \<Rightarrow> barrier_call \<Rightarrow> barrier_call list \<Rightarrow> bool" where
  "taken_by b pane h before took mid \<longleftrightarrow>
     (\<exists>b1 e1. perform_all before b = Some b1 \<and> entry_of b1 pane = Some e1 \<and> is_waiting (de_hold e1) \<and> took_text took pane e1 \<and>
        (h = HoldStagedDuringTurn \<and> frame_of took pane \<noteq> None \<longrightarrow> (\<exists>c\<in>set before. starts_afresh c pane))) \<and>
     (\<forall>c\<in>set mid. \<not> shows_text c pane)"

definition ended_by :: "barrier \<Rightarrow> pane_key \<Rightarrow> barrier_call list \<Rightarrow> barrier_call \<Rightarrow> bool" where
  "ended_by b pane cs over \<longleftrightarrow>
     (\<exists>b1 e1 ob det w reason. perform_all cs b = Some b1 \<and> entry_of b1 pane = Some e1 \<and> over = Commit ob det w reason \<and>
        ob_pane ob = pane \<and> consumed b1 ob e1 det)"

definition turn_completed :: "barrier \<Rightarrow> pane_key \<Rightarrow> composer_hold \<Rightarrow> barrier_call list \<Rightarrow> bool" where
  "turn_completed b pane h cs \<longleftrightarrow>
     (\<exists>before took mid over post. cs = before @ took # mid @ over # post \<and>
        taken_by b pane h before took mid \<and> ended_by b pane (before @ took # mid) over)"

definition let_go_in :: "barrier \<Rightarrow> pane_key \<Rightarrow> barrier_call list \<Rightarrow> bool" where
  "let_go_in b pane cs \<longleftrightarrow>
     (\<exists>before c post b1 e1. cs = before @ c # post \<and> perform_all before b = Some b1 \<and> entry_of b1 pane = Some e1 \<and>
        refuses (de_hold e1) \<and> let_go c b1 pane e1)"

definition still_held :: "barrier \<Rightarrow> pane_key \<Rightarrow> composer_hold \<Rightarrow> barrier_call list \<Rightarrow> det_entry \<Rightarrow> bool" where
  "still_held b pane h cs e \<longleftrightarrow> refuses (de_hold e) \<and>
     (de_hold e = HoldStaged \<longrightarrow> h = HoldStaged \<or> (\<exists>c\<in>set cs. starts_afresh c pane)) \<and>
     (\<forall>s. de_hold e = HoldTurnStarted s \<longrightarrow> (\<exists>before took mid. cs = before @ took # mid \<and> taken_by b pane h before took mid))"

lemma still_held_step:
  assumes run: "perform_all cs b = Some b1" and e1: "entry_of b1 pane = Some e1" and held: "still_held b pane h cs e1"
    and moves: "hold_moves c pane e1 (de_hold e2)" and ref: "refuses (de_hold e2)"
  shows "still_held b pane h (cs @ [c]) e2"
proof -
  have "\<exists>before took mid. cs @ [c] = before @ took # mid \<and> taken_by b pane h before took mid"
    if s: "de_hold e2 = HoldTurnStarted s" for s
  proof -
    from moves s consider (old) s' where "de_hold e1 = HoldTurnStarted s'" "\<not> shows_text c pane"
      | (new) "is_waiting (de_hold e1)" "took_text c pane e1" by (auto simp: hold_moves_def)
    then show ?thesis
    proof cases
      case old
      then obtain before took mid where "cs = before @ took # mid" "taken_by b pane h before took mid"
        using held unfolding still_held_def by blast
      then show ?thesis
        using old(2) by (intro exI [of _ before] exI [of _ took] exI [of _ "mid @ [c]"]) (auto simp: taken_by_def)
    next
      case new
      have "\<exists>c\<in>set cs. starts_afresh c pane" if "h = HoldStagedDuringTurn" "frame_of c pane \<noteq> None"
      proof -
        have "de_hold e1 = HoldStaged" using new(2) that(2) by (cases c) auto
        then show ?thesis using held that(1) by (auto simp: still_held_def)
      qed
      then have "taken_by b pane h cs c []" using run e1 new by (auto simp: taken_by_def)
      then show ?thesis by (intro exI [of _ cs] exI [of _ c] exI [of _ "[]"]) simp
    qed
  qed
  moreover have "h = HoldStaged \<or> (\<exists>c\<in>set (cs @ [c]). starts_afresh c pane)" if "de_hold e2 = HoldStaged"
    using moves that held by (auto simp: hold_moves_def still_held_def)
  ultimately show ?thesis using ref unfolding still_held_def by blast
qed

lemma turn_completed_snoc: "turn_completed b pane h cs \<Longrightarrow> turn_completed b pane h (cs @ [c])"
  unfolding turn_completed_def by fastforce

lemma let_go_in_snoc: "let_go_in b pane cs \<Longrightarrow> let_go_in b pane (cs @ [c])"
  unfolding let_go_in_def by fastforce

lemma hold_way:
  assumes "entry_of b pane = Some e" and "is_waiting (de_hold e)"
  shows "perform_all cs b = Some b' \<Longrightarrow>
    let_go_in b pane cs \<or> turn_completed b pane (de_hold e) cs \<or>
    (\<exists>e'. entry_of b' pane = Some e' \<and> still_held b pane (de_hold e) cs e')"
proof (induction cs arbitrary: b' rule: rev_induct)
  case Nil
  then show ?case using assms by (auto simp: still_held_def refuses_def is_waiting_def)
next
  case (snoc c cs)
  obtain b1 where b1: "perform_all cs b = Some b1" "perform c b1 = Some b'" using snoc.prems by (auto simp only: perform_all_snoc)
  consider "let_go_in b pane cs" | "turn_completed b pane (de_hold e) cs"
    | (held) e1 where "entry_of b1 pane = Some e1" "still_held b pane (de_hold e) cs e1" using snoc.IH [OF b1(1)] by blast
  then show ?case
  proof cases
    case held
    then have ref: "refuses (de_hold e1)" by (simp add: still_held_def)
    show ?thesis
    proof (cases "let_go c b1 pane e1")
      case True
      then have "let_go_in b pane (cs @ [c])" using b1(1) held(1) ref unfolding let_go_in_def by blast
      then show ?thesis by simp
    next
      case kept: False
      show ?thesis
      proof (cases "\<exists>e2. entry_of b' pane = Some e2 \<and> refuses (de_hold e2)")
        case True
        then obtain e2 where "entry_of b' pane = Some e2" "refuses (de_hold e2)" by blast
        then show ?thesis
          using still_held_step [OF b1(1) held call_moves_hold [OF b1(2) held(1) ref _ kept]] by blast
      next
        case False
        then have may: "may_end_hold c b1 pane e1" using hold_step_ends [OF b1(2) held(1) ref] by blast
        then obtain ob det w reason where c: "c = Commit ob det w reason" "ob_pane ob = pane" "consumed b1 ob e1 det"
          using kept by (cases c) auto
        then obtain s where "de_hold e1 = HoldTurnStarted s" by (auto simp: consumed_def)
        then obtain before took mid where t: "cs = before @ took # mid" "taken_by b pane (de_hold e) before took mid"
          using held(2) unfolding still_held_def by blast
        have "ended_by b pane (before @ took # mid) c" using b1(1) held(1) c t(1) unfolding ended_by_def by blast
        then have "turn_completed b pane (de_hold e) (cs @ [c])"
          unfolding turn_completed_def using t
          by (intro exI [of _ before] exI [of _ took] exI [of _ mid] exI [of _ c] exI [of _ "[]"]) simp
        then show ?thesis by simp
      qed
    qed
  qed (simp_all add: let_go_in_snoc turn_completed_snoc)
qed

end
