(* ===== verification/Barrier_Properties.thy ===== *)
theory Barrier_Properties
  imports Barrier_Run
begin

text \<open>
  The properties of the composer barrier: what a write permission stands for, what may end a hold,
  who may move it, and what happens to a hold when nobody can tell who is in the pane.
\<close>

section \<open>Sample panes\<close>

definition sample_pane :: pane_key where
  "sample_pane = \<lparr>pk_session_idx = 0, pk_pane_id = ''%1''\<rparr>"

definition sample_proc :: "nat \<Rightarrow> proc_id" where
  "sample_proc n = \<lparr>pr_pid = int n, pr_birth = n\<rparr>"

definition sample_binding :: "nat \<Rightarrow> binding" where
  "sample_binding n =
     \<lparr>bi_pane_root = sample_proc 1, bi_leader = sample_proc n, bi_agent = sample_proc n, bi_manifest = ''codex''\<rparr>"

definition sample_observation :: "binding_observation \<Rightarrow> bool \<Rightarrow> observation" where
  "sample_observation seen in_mode =
     \<lparr>ob_pane = sample_pane, ob_dead = False, ob_in_mode = in_mode, ob_seen = Leader 7, ob_binding = seen,
      ob_manifest_id = Some ''codex'', ob_cause = ''status'', ob_route_evidence = False\<rparr>"

definition screen_reads :: "agent_state \<Rightarrow> nat \<Rightarrow> sensor_reading" where
  "screen_reads s ts = \<lparr>sr_sensor = ScreenSensor, sr_state = s, sr_rule = ''r'', sr_ts = ts\<rparr>"

definition clean_frame :: detection where
  "clean_frame = verdict SIdle False ''r'' (Some SemClean) [screen_reads SIdle 5]"

definition draft_frame :: detection where
  "draft_frame = verdict SIdleWithInput False ''r'' (Some SemHumanInput) [screen_reads SIdleWithInput 5]"

definition working_frame :: detection where
  "working_frame = verdict SWorking False ''r'' None [screen_reads SWorking 6]"

definition typing_frame :: detection where
  "typing_frame = verdict SWorking False ''r'' (Some SemHumanInput) [screen_reads SWorking 6]"

abbreviation commit_frame :: "nat \<Rightarrow> detection \<Rightarrow> barrier_call" where
  "commit_frame n det \<equiv> Commit (sample_observation (BindingBound (sample_binding n)) False) det False None"

lemmas sample_defs = sample_pane_def sample_proc_def sample_binding_def sample_observation_def screen_reads_def
  clean_frame_def draft_frame_def working_frame_def typing_frame_def barrier_new_def

section \<open>Write permission\<close>

text \<open>C6. Every permission to write is traced to one frame. When the scheduler may write to a pane for the
  expected processes, after any sequence of claims, acknowledgements, observations and failed captures from
  an empty cache, there is one committed frame of that pane behind it: read out of every mode, after which
  the pane was not observed again, not forgotten, and no capture of the same occupant failed; the evidence
  of that frame itself is safe to write over and shows no text; no draft and no delivery holds the composer
  now. The expected processes are those observed with that very frame, with one exception that the code
  leaves open: the frame's own occupant could not be proven, and then a delivery has given up its hold after
  the frame, which stamps the entry again from the sensors alone, and the expected processes are those of an
  earlier observation of the pane. (\<open>restamp_forgets_unproven_occupant\<close> below is such a run; the comment at
  the stamp promises a refusal there.)\<close>

theorem write_permission_traced_to_its_frame:
  assumes run: "perform_all cs barrier_new = Some b" and e: "entry_of b pane = Some e"
    and ready: "write_ready_for (notification_observation_from e) live_in_mode expected"
  shows "\<not> live_in_mode \<and> de_hold e = HoldClear \<and> de_hold_owner e = None \<and>
    (\<exists>before ob det w reason rest b0. cs = before @ Commit ob det w reason # rest \<and>
       perform_all before barrier_new = Some b0 \<and> ob_pane ob = pane \<and> \<not> ob_in_mode ob \<and>
       (\<forall>c\<in>set rest. observes c pane = None \<and> c \<noteq> PaneForgotten pane) \<and>
       (\<forall>in_mode occupant. de_occupant e = Some occupant \<longrightarrow>
          CaptureFailed pane in_mode (Some occupant) (de_manifest e) \<notin> set rest) \<and>
       safe_to_write det \<and> \<not> sees_input det \<and>
       (ob_observed ob = Some expected \<or>
        commit_unproven b0 ob \<and> (\<exists>c\<in>set rest. frees_for_owner c pane) \<and> binding_seen before pane expected))"
proof -
  have "barrier_ok b" using perform_all_ok [OF barrier_new_ok, of cs] run by auto
  then have ok: "entry_ok e" using e by (auto simp: barrier_ok_def)
  have w: "\<not> live_in_mode" "\<not> de_in_mode e" "de_binding e = Some expected" "dt_write_ready (de_detection e)"
    using ready by (simp_all add: write_ready_for_def notification_observation_from_def)
  then have clear: "\<not> refuses (de_hold e)" "safe_to_write (de_detection e)" "de_hold_owner e = None"
    using ok by (auto simp: entry_ok_def verdict_ok_def)
  obtain before ob det rest where "frame_behind cs pane e before ob det rest" and seen: "binding_seen cs pane expected"
    using verdict_frame [OF run e] w clear(2) by (auto simp: safe_to_write_def)
  then obtain wc reason b0 where r: "cs = before @ Commit ob det wc reason # rest"
    "perform_all before barrier_new = Some b0" "ob_pane ob = pane" "ob_in_mode ob = de_in_mode e"
    "same_evidence (de_detection e) det" "\<forall>c\<in>set rest. observes c pane = None \<and> c \<noteq> PaneForgotten pane"
    "\<forall>in_mode occupant. de_occupant e = Some occupant \<longrightarrow>
       CaptureFailed pane in_mode (Some occupant) (de_manifest e) \<notin> set rest"
    "de_binding e = ob_observed ob \<or> commit_unproven b0 ob"
    "commit_unproven b0 ob \<longrightarrow> \<not> dt_write_ready (de_detection e) \<or> (\<exists>c\<in>set rest. frees_for_owner c pane)"
    unfolding frame_behind_def by blast
  have safe: "safe_to_write det" using same_evidence_safe [OF r(5) clear(2)] .
  have whose: "ob_observed ob = Some expected \<or>
      commit_unproven b0 ob \<and> (\<exists>c\<in>set rest. frees_for_owner c pane) \<and> binding_seen before pane expected"
  proof (cases "ob_observed ob = Some expected")
    case False
    then have "binding_seen before pane expected" using seen r(1,3,6) by (auto simp: binding_seen_def)
    then show ?thesis using r(8,9) w(3,4) by auto
  qed simp
  have hold: "de_hold e = HoldClear" and mode: "\<not> ob_in_mode ob" using clear(1) r(4) w(2) by (simp_all add: refuses_def)
  show ?thesis
    by (intro conjI exI) (rule w(1) hold clear(3) r(1-3) mode r(6,7) safe safe_not_sees_input [OF safe] whose)+
qed

text \<open>A draft, its turn, and a clean frame of the same agent.\<close>

theorem write_permission_traced_to_its_frame_witness:
  "\<exists>b e. perform_all [commit_frame 7 draft_frame, commit_frame 7 working_frame, commit_frame 7 clean_frame] barrier_new = Some b
    \<and> entry_of b sample_pane = Some e
    \<and> write_ready_for (notification_observation_from e) False (sample_binding 7)
    \<and> de_hold e = HoldClear
    \<and> (\<exists>before ob det w reason rest. safe_to_write det \<and>
         [commit_frame 7 draft_frame, commit_frame 7 working_frame, commit_frame 7 clean_frame]
           = before @ Commit ob det w reason # rest)"
proof -
  let ?cs = "[commit_frame 7 draft_frame, commit_frame 7 working_frame, commit_frame 7 clean_frame]"
  obtain b where b: "perform_all ?cs barrier_new = Some b" using perform_all_ok [OF barrier_new_ok] by blast
  have "is_some_and (Option.bind (perform_all ?cs barrier_new) (\<lambda>b. entry_of b sample_pane))
    (\<lambda>e. write_ready_for (notification_observation_from e) False (sample_binding 7))"
    by code_simp
  then have "is_some_and (entry_of b sample_pane)
      (\<lambda>e. write_ready_for (notification_observation_from e) False (sample_binding 7))"
    unfolding b by simp
  then obtain e where e: "entry_of b sample_pane = Some e"
    "write_ready_for (notification_observation_from e) False (sample_binding 7)"
    by (auto simp: is_some_and_iff)
  obtain before ob det w reason rest where t: "de_hold e = HoldClear" "?cs = before @ Commit ob det w reason # rest"
    "safe_to_write det"
    using write_permission_traced_to_its_frame [OF b e] by (elim conjE exE) (rule that)
  show ?thesis by (intro exI conjI) (rule b e t)+
qed

section \<open>What ends a hold\<close>

text \<open>C7. A hold on a composer stops refusing writes in these ways only: its owning delivery clears
  it, or takes back a claim before any byte was written; the pane is forgotten, dead or proven to be
  another agent's; settled output shows the composer of an unowned draft exactly empty; or the turn
  that took the text is over, with no sensor reading it, a composer that the screen proves safe, and
  the exact turn's own end in the store where the hold names a turn.\<close>

theorem hold_ends_only_when_allowed:
  assumes step: "perform c b = Some b'" and e: "entry_of b pane = Some e" and held: "refuses (de_hold e)"
    and free: "\<forall>e'. entry_of b' pane = Some e' \<longrightarrow> \<not> refuses (de_hold e')"
  shows "may_end_hold c b pane e"
  by (rule hold_step_ends [OF assms])

theorem hold_ends_only_when_allowed_witness:
  "\<exists>b b' e. perform_all [commit_frame 7 draft_frame, commit_frame 7 working_frame] barrier_new = Some b
    \<and> perform (commit_frame 7 clean_frame) b = Some b'
    \<and> entry_of b sample_pane = Some e \<and> refuses (de_hold e)
    \<and> may_end_hold (commit_frame 7 clean_frame) b sample_pane e"
proof -
  let ?cs = "[commit_frame 7 draft_frame, commit_frame 7 working_frame]"
  obtain b where b: "perform_all ?cs barrier_new = Some b" using perform_all_ok [OF barrier_new_ok] by blast
  have "is_some_and (perform_all ?cs barrier_new) (\<lambda>b.
      is_some_and (entry_of b sample_pane) (\<lambda>e. refuses (de_hold e))
      \<and> is_some_and (perform (commit_frame 7 clean_frame) b) (\<lambda>b'.
          is_none_or (entry_of b' sample_pane) (\<lambda>e. \<not> refuses (de_hold e))))"
    by code_simp
  then have "is_some_and (entry_of b sample_pane) (\<lambda>e. refuses (de_hold e))"
    "is_some_and (perform (commit_frame 7 clean_frame) b) (\<lambda>b'.
          is_none_or (entry_of b' sample_pane) (\<lambda>e. \<not> refuses (de_hold e)))"
    unfolding b by simp_all
  then obtain e b' where e: "entry_of b sample_pane = Some e" "refuses (de_hold e)"
    and b': "perform (commit_frame 7 clean_frame) b = Some b'"
      "\<forall>e'. entry_of b' sample_pane = Some e' \<longrightarrow> \<not> refuses (de_hold e')"
    by (auto simp: is_some_and_iff is_none_or_iff simp del: perform.simps)
  from hold_ends_only_when_allowed [OF b'(1) e b'(2)] b b' e show ?thesis by blast
qed

section \<open>Who may move a hold\<close>

fun call_owner :: "barrier_call \<Rightarrow> string option" where
  "call_owner (Claim pane owner agent manifest) = Some owner"
| "call_owner (ReleaseUnwritten pane owner agent manifest) = Some owner"
| "call_owner (ClearOwner pane owner) = Some owner"
| "call_owner (LatchTurn pane owner since) = Some owner"
| "call_owner (BindTurn pane owner turn since) = Some owner"
| "call_owner c = None"

text \<open>A delivery moves only its own barrier. A call on behalf of a delivery that does not own the
  hold, whether another delivery owns it or a person's draft raised it, leaves the entry exactly as
  it was: a late acknowledgement or release for an earlier delivery, and a claim that would paste
  into the draft, change nothing.\<close>

theorem only_the_owner_moves_a_hold:
  assumes "entry_of b pane = Some e" and "call_owner c = Some owner"
    and "\<not> claimable (de_hold e) (de_hold_owner e) owner"
  shows "\<exists>b'. perform c b = Some b' \<and> entry_of b' pane = Some e"
proof -
  have other: "de_hold_owner e \<noteq> Some owner" using assms(3) by (auto simp: claimable_def)
  show ?thesis
  proof (cases c)
    case (BindTurn p o1 turn since)
    then show ?thesis
      using assms(2) other bind_turn_keeps_hold [OF assms(1), of p owner turn since] by auto
  qed (use assms other in \<open>auto simp: claim_hold_def release_unwritten_hold_def clear_hold_owner_def
      latch_turn_started_def set_hold_owned_def entry_of_def store_entry_def split: option.splits\<close>)
qed

theorem only_the_owner_moves_a_hold_witness:
  "\<exists>b e. perform_all [commit_frame 7 draft_frame] barrier_new = Some b \<and> entry_of b sample_pane = Some e
    \<and> \<not> claimable (de_hold e) (de_hold_owner e) ''attempt-1''
    \<and> (\<exists>b'. perform (Claim sample_pane ''attempt-1'' (Some (sample_proc 7)) (Some ''codex'')) b = Some b'
         \<and> entry_of b' sample_pane = Some e)"
proof -
  let ?cs = "[commit_frame 7 draft_frame]"
  obtain b where b: "perform_all ?cs barrier_new = Some b" using perform_all_ok [OF barrier_new_ok] by blast
  have "is_some_and (perform_all ?cs barrier_new) (\<lambda>b.
      is_some_and (entry_of b sample_pane) (\<lambda>e. \<not> claimable (de_hold e) (de_hold_owner e) ''attempt-1''))"
    by code_simp
  then have "is_some_and (entry_of b sample_pane) (\<lambda>e. \<not> claimable (de_hold e) (de_hold_owner e) ''attempt-1'')"
    unfolding b by simp
  then obtain e where e: "entry_of b sample_pane = Some e" "\<not> claimable (de_hold e) (de_hold_owner e) ''attempt-1''"
    by (auto simp: is_some_and_iff)
  have "call_owner (Claim sample_pane ''attempt-1'' (Some (sample_proc 7)) (Some ''codex'')) = Some ''attempt-1''" by simp
  from only_the_owner_moves_a_hold [OF e(1) this e(2)] b e show ?thesis by blast
qed

section \<open>A draft and its turn\<close>

text \<open>C14. Text staged in a composer keeps refusing writes until a turn takes it and that turn is over, or
  the hold is let go on other proof. Take any sequence of calls on the barrier from a state in which the hold
  of a pane waits, and let it end with the hold refusing no more, or with the entry gone. Then some call in
  it lets the hold go without a turn, judged in the state it met: the owning delivery clears it or takes back
  a claim before any byte was written, the pane is forgotten, dead or proven another's, or settled output
  shows the composer of an unowned hold exactly empty. Or else, in this order: a turn takes the text, by a
  frame that shows it running over an empty composer or by the word of the owning delivery; no frame of the
  proven agent shows text after that; and a later frame proves that turn over, the composer safe, and, where
  the hold names a turn, that turn's own end stored. Text first seen while a turn was already running is not
  taken by a frame of that turn: before the frame that takes it comes one with no turn running, or a
  delivery's claim of the composer.\<close>

theorem draft_waits_for_its_own_turn:
  assumes e: "entry_of b pane = Some e" and waits: "is_waiting (de_hold e)" and run: "perform_all cs b = Some b'"
    and free: "\<forall>e'. entry_of b' pane = Some e' \<longrightarrow> \<not> refuses (de_hold e')"
  shows "(\<exists>before c post b1 e1. cs = before @ c # post \<and> perform_all before b = Some b1 \<and> entry_of b1 pane = Some e1 \<and>
      refuses (de_hold e1) \<and> let_go c b1 pane e1) \<or>
    (\<exists>before took mid over post b1 e1 b2 e2 ob det w reason.
      cs = before @ took # mid @ over # post \<and>
      perform_all before b = Some b1 \<and> entry_of b1 pane = Some e1 \<and> is_waiting (de_hold e1) \<and> took_text took pane e1 \<and>
      (de_hold e = HoldStagedDuringTurn \<and> frame_of took pane \<noteq> None \<longrightarrow> (\<exists>c\<in>set before. starts_afresh c pane)) \<and>
      (\<forall>c\<in>set mid. \<not> shows_text c pane) \<and>
      perform_all (before @ took # mid) b = Some b2 \<and> entry_of b2 pane = Some e2 \<and>
      over = Commit ob det w reason \<and> ob_pane ob = pane \<and> consumed b2 ob e2 det)"
proof -
  have "let_go_in b pane cs \<or> turn_completed b pane (de_hold e) cs"
    using hold_way [OF e waits run] free by (auto simp: still_held_def)
  then show ?thesis
  proof
    assume "let_go_in b pane cs"
    then show ?thesis unfolding let_go_in_def by (rule disjI1)
  next
    assume "turn_completed b pane (de_hold e) cs"
    then obtain before took mid over post where cs: "cs = before @ took # mid @ over # post"
      and t: "taken_by b pane (de_hold e) before took mid" and o: "ended_by b pane (before @ took # mid) over"
      unfolding turn_completed_def by blast
    obtain b1 e1 where t1: "perform_all before b = Some b1" "entry_of b1 pane = Some e1" "is_waiting (de_hold e1)"
      "took_text took pane e1"
      "de_hold e = HoldStagedDuringTurn \<and> frame_of took pane \<noteq> None \<longrightarrow> (\<exists>c\<in>set before. starts_afresh c pane)"
      "\<forall>c\<in>set mid. \<not> shows_text c pane"
      using t unfolding taken_by_def by blast
    obtain b2 e2 ob det w reason where o1: "perform_all (before @ took # mid) b = Some b2" "entry_of b2 pane = Some e2"
      "over = Commit ob det w reason" "ob_pane ob = pane" "consumed b2 ob e2 det"
      using o unfolding ended_by_def by blast
    show ?thesis by (rule disjI2, intro exI conjI) (rule cs t1 o1)+
  qed
qed

text \<open>Text typed while a turn runs: the end of that turn does not release it, its own turn does.\<close>

definition typed_in_turn :: "barrier_call list" where
  "typed_in_turn =
     [commit_frame 7 working_frame, commit_frame 7 clean_frame, commit_frame 7 working_frame, commit_frame 7 clean_frame]"

lemma typed_in_turn_run:
  assumes b: "perform_all [commit_frame 7 typing_frame] barrier_new = Some b"
  shows "is_some_and (entry_of b sample_pane) (\<lambda>e. de_hold e = HoldStagedDuringTurn)"
    "is_some_and (perform_all typed_in_turn b) (\<lambda>b. is_none_or (entry_of b sample_pane) (\<lambda>e. \<not> refuses (de_hold e)))"
    "list_all (\<lambda>n. is_some_and (perform_all (take n typed_in_turn) b)
       (\<lambda>b1. is_some_and (entry_of b1 sample_pane) (\<lambda>e. \<not> let_go (typed_in_turn ! n) b1 sample_pane e))) [0..<4]"
proof -
  have "is_some_and (perform_all [commit_frame 7 typing_frame] barrier_new) (\<lambda>b.
      is_some_and (entry_of b sample_pane) (\<lambda>e. de_hold e = HoldStagedDuringTurn))" by code_simp
  then show "is_some_and (entry_of b sample_pane) (\<lambda>e. de_hold e = HoldStagedDuringTurn)" unfolding b by simp
  have "is_some_and (perform_all [commit_frame 7 typing_frame] barrier_new) (\<lambda>b.
      is_some_and (perform_all typed_in_turn b) (\<lambda>b. is_none_or (entry_of b sample_pane) (\<lambda>e. \<not> refuses (de_hold e))))"
    by code_simp
  then show "is_some_and (perform_all typed_in_turn b) (\<lambda>b. is_none_or (entry_of b sample_pane) (\<lambda>e. \<not> refuses (de_hold e)))"
    unfolding b by simp
  have "is_some_and (perform_all [commit_frame 7 typing_frame] barrier_new) (\<lambda>b.
      list_all (\<lambda>n. is_some_and (perform_all (take n typed_in_turn) b)
        (\<lambda>b1. is_some_and (entry_of b1 sample_pane) (\<lambda>e. \<not> let_go (typed_in_turn ! n) b1 sample_pane e))) [0..<4])"
    by code_simp
  then show "list_all (\<lambda>n. is_some_and (perform_all (take n typed_in_turn) b)
      (\<lambda>b1. is_some_and (entry_of b1 sample_pane) (\<lambda>e. \<not> let_go (typed_in_turn ! n) b1 sample_pane e))) [0..<4]"
    unfolding b by simp
qed

theorem draft_waits_for_its_own_turn_witness:
  "\<exists>b b' e. perform_all [commit_frame 7 typing_frame] barrier_new = Some b \<and> entry_of b sample_pane = Some e
     \<and> de_hold e = HoldStagedDuringTurn \<and> perform_all typed_in_turn b = Some b'
     \<and> (\<exists>before took rest b1 e1. typed_in_turn = before @ took # rest \<and> perform_all before b = Some b1
          \<and> entry_of b1 sample_pane = Some e1 \<and> took_text took sample_pane e1
          \<and> (frame_of took sample_pane \<noteq> None \<longrightarrow> (\<exists>c\<in>set before. starts_afresh c sample_pane)))"
proof -
  obtain b where b: "perform_all [commit_frame 7 typing_frame] barrier_new = Some b"
    using perform_all_ok [OF barrier_new_ok] by blast
  note run = typed_in_turn_run [OF b]
  obtain e where e: "entry_of b sample_pane = Some e" "de_hold e = HoldStagedDuringTurn"
    using run(1) by (auto simp: is_some_and_iff)
  obtain b' where b': "perform_all typed_in_turn b = Some b'"
    "\<forall>e'. entry_of b' sample_pane = Some e' \<longrightarrow> \<not> refuses (de_hold e')"
    using run(2) by (auto simp: is_some_and_iff is_none_or_iff)
  have no: False if "typed_in_turn = before @ c # post" "perform_all before b = Some b1" "entry_of b1 sample_pane = Some e1"
    "let_go c b1 sample_pane e1" for before c post b1 e1
  proof -
    have "length typed_in_turn = 4" by (simp add: typed_in_turn_def)
    moreover have "length typed_in_turn = length before + Suc (length post)" using arg_cong [OF that(1), of length] by simp
    ultimately have n: "length before \<in> set [0..<4]" by simp
    have "take (length before) typed_in_turn = before" "typed_in_turn ! length before = c"
      unfolding that(1) by simp_all
    then show False using run(3) [unfolded list_all_iff, rule_format, OF n] that(2-4) by (simp add: is_some_and_iff)
  qed
  have "is_waiting (de_hold e)" using e(2) by (simp add: is_waiting_def)
  from draft_waits_for_its_own_turn [OF e(1) this b'] show ?thesis
  proof (elim disjE exE conjE)
    fix before c post b1 e1
    assume "typed_in_turn = before @ c # post" "perform_all before b = Some b1" "entry_of b1 sample_pane = Some e1"
      "let_go c b1 sample_pane e1"
    then show ?thesis using no by blast
  next
    fix before took mid over post b1 e1
    assume "typed_in_turn = before @ took # mid @ over # post" "perform_all before b = Some b1"
      "entry_of b1 sample_pane = Some e1" "took_text took sample_pane e1"
      "de_hold e = HoldStagedDuringTurn \<and> frame_of took sample_pane \<noteq> None \<longrightarrow> (\<exists>c\<in>set before. starts_afresh c sample_pane)"
    then show ?thesis using b e b'(1) by (metis (no_types))
  qed
qed

section \<open>The exact lane\<close>

lemma ends_take_succeeds:
  assumes "ends_holds ends pane a m t" and "pinned_turn ends pane a m = Some t"
  shows "fst (ends_take ends pane a m t)"
  using assms
  by (auto simp: ends_take_def ends_holds_def pinned_turn_def is_some_and_iff remove_first_None split: option.splits if_splits)

text \<open>C15. A hold bound to a turn is released on that turn's own end only, and the release spends it: the
  store held this turn's end for this agent and these rules before, and afterwards neither the end
  nor the pin nor the turn nor the owner is left, so the next turn can bind.\<close>

theorem exact_end_releases_once:
  assumes ok: "barrier_ok b" and e: "entry_of b (ob_pane ob) = Some e"
    and bound: "de_turn e = Some t" "de_hold e = HoldTurnStarted since"
    and same: "ob_admitted ob = Some a" "de_agent e = Some a" "ob_manifest_id ob = Some m" "de_manifest e = Some m"
    and pin: "pinned_turn (br_ends b) (ob_pane ob) a m = Some t"
    and alive: "dt_state det \<noteq> SDead"
    and commit: "commit_observation b ob det w reason = Some (r, b')"
    and e': "entry_of b' (ob_pane ob) = Some e'" and free: "de_hold e' = HoldClear"
  shows "ends_holds (br_ends b) (ob_pane ob) a m t \<and> \<not> ends_holds (br_ends b') (ob_pane ob) a m t
    \<and> pinned_turn (br_ends b') (ob_pane ob) a m = None \<and> de_turn e' = None \<and> de_hold_owner e' = None"
proof -
  have seen: "\<not> ob_unobservable ob" using same(1) by (auto simp: ob_unobservable_def ob_admitted_def ob_observed_def)
  then have nf: "commit_frozen b ob = None" using same(1) by (simp add: commit_frozen_def commit_unproven_def)
  have carried: "commit_carried b ob = Some e"
    using e same by (simp add: commit_carried_def composer_hold_carried_entry_def entry_of_def)
  have base: "commit_base_hold b ob det = HoldTurnStarted since"
    using bound by (simp add: commit_base_hold_def carried release_after_settled_visible_empty_def is_waiting_def Let_def)
  let ?ended = "ends_holds (br_ends b) (ob_pane ob) a m t"
  have known: "carried_turn_ended (br_ends b) (ob_pane ob) (Some a) (Some m) (Some t) = Some ?ended"
    by (simp add: carried_turn_ended_def)
  obtain hold stranded missing ends where
    s: "settle_turn (br_ends b) (ob_pane ob) (Some a) (Some m) (Some t) (HoldTurnStarted since) det = Some (hold, stranded, missing, ends)"
    and b': "br_ends b' = ends" "de_hold e' = hold"
    and e'_fields: "de_turn e' = (if turn_started_at hold \<noteq> None then Some t else None)"
      "de_hold_owner e' = (if hold \<noteq> HoldClear then de_hold_owner e else None)"
    using commit e' by (auto simp: commit_observation_def nf carried same bound base commit_store_def Let_def entry_of_def split: prod.splits)
  have clear: "advance (HoldTurnStarted since) det (Some ?ended) = HoldClear"
    using settle_turn_Some(1) [OF s] free b'(2) known by simp
  then have held: ?ended using advance_clears [OF clear] alive by auto
  have "ends = snd (ends_take (br_ends b) (ob_pane ob) a m t)"
    using s clear known held
    by (auto simp: settle_turn_def Let_def settled_ends_def diagnose_missing_end_def turn_started_at_def split: prod.splits)
  moreover have "fst (ends_take (br_ends b) (ob_pane ob) a m t)" using ends_take_succeeds [OF held pin] .
  ultimately have "ends_take (br_ends b) (ob_pane ob) a m t = (True, ends)" by (metis prod.collapse)
  from ends_take_True [OF barrier_ok_ends [OF ok] this] show ?thesis
    using held b' e'_fields free by (auto simp: turn_started_at_def)
qed

definition sample_turn :: "string \<Rightarrow> turn_key" where
  "sample_turn s = TurnKey [KeyText s]"

definition claimed_run :: "barrier_call list" where
  "claimed_run =
     [commit_frame 7 clean_frame, Claim sample_pane ''attempt-1'' (Some (sample_proc 7)) (Some ''codex''),
      BindTurn sample_pane ''attempt-1'' (sample_turn ''t1'') 9,
      EndRecorded sample_pane (sample_proc 7) ''codex'' (sample_turn ''t1'')]"

theorem exact_end_releases_once_witness:
  "\<exists>b b' r. perform_all claimed_run barrier_new = Some b
    \<and> commit_observation b (sample_observation (BindingBound (sample_binding 7)) False) clean_frame False None = Some (r, b')
    \<and> ends_holds (br_ends b) sample_pane (sample_proc 7) ''codex'' (sample_turn ''t1'')
    \<and> \<not> ends_holds (br_ends b') sample_pane (sample_proc 7) ''codex'' (sample_turn ''t1'')"
proof -
  let ?ob = "sample_observation (BindingBound (sample_binding 7)) False"
  obtain b where b: "perform_all claimed_run barrier_new = Some b" "barrier_ok b"
    using perform_all_ok [OF barrier_new_ok] by blast
  obtain r b' where c: "commit_observation b ?ob clean_frame False None = Some (r, b')"
    using commit_total by (metis option.exhaust prod.exhaust)
  have "is_some_and (perform_all claimed_run barrier_new) (\<lambda>b.
      is_some_and (entry_of b sample_pane) (\<lambda>e. de_turn e = Some (sample_turn ''t1'') \<and> de_hold e = HoldTurnStarted 9
        \<and> de_agent e = Some (sample_proc 7) \<and> de_manifest e = Some ''codex'')
      \<and> pinned_turn (br_ends b) sample_pane (sample_proc 7) ''codex'' = Some (sample_turn ''t1'')
      \<and> is_some_and (commit_observation b ?ob clean_frame False None) (\<lambda>(r, b').
          is_some_and (entry_of b' sample_pane) (\<lambda>e. de_hold e = HoldClear)))"
    by code_simp
  then have "is_some_and (entry_of b sample_pane) (\<lambda>e. de_turn e = Some (sample_turn ''t1'') \<and> de_hold e = HoldTurnStarted 9
        \<and> de_agent e = Some (sample_proc 7) \<and> de_manifest e = Some ''codex'')"
    and pin: "pinned_turn (br_ends b) sample_pane (sample_proc 7) ''codex'' = Some (sample_turn ''t1'')"
    and "is_some_and (entry_of b' sample_pane) (\<lambda>e. de_hold e = HoldClear)"
    unfolding b(1) by (simp_all add: c)
  then obtain e e' where e: "entry_of b (ob_pane ?ob) = Some e" "de_turn e = Some (sample_turn ''t1'')" "de_hold e = HoldTurnStarted 9"
      "de_agent e = Some (sample_proc 7)" "de_manifest e = Some ''codex''"
    and e': "entry_of b' (ob_pane ?ob) = Some e'" "de_hold e' = HoldClear"
    by (auto simp: is_some_and_iff sample_observation_def)
  have adm: "ob_admitted ?ob = Some (sample_proc 7)" "ob_manifest_id ?ob = Some ''codex''" "ob_pane ?ob = sample_pane"
    by (simp_all add: ob_admitted_def ob_observed_def sample_observation_def sample_binding_def)
  have alive: "dt_state clean_frame \<noteq> SDead" by (simp add: clean_frame_def)
  have "pinned_turn (br_ends b) (ob_pane ?ob) (sample_proc 7) ''codex'' = Some (sample_turn ''t1'')" using pin adm by simp
  from exact_end_releases_once [OF b(2) e(1,2,3) adm(1) e(4) adm(2) e(5) this alive c e'] show ?thesis
    using b c adm by auto
qed

section \<open>Doubt\<close>

text \<open>A process table that could not be read disproves nothing. An observation whose binding is
  unprovable keeps the hold, its owner, the turn, the binding and the store of ends, whatever the
  screen showed, and its verdict refuses every write.\<close>

theorem unproven_occupant_keeps_the_hold:
  assumes e: "entry_of b (ob_pane ob) = Some e" and doubt: "ob_binding ob = BindingUnprovable"
  shows "\<exists>r b' e'. commit_observation b ob det w reason = Some (r, b') \<and> entry_of b' (ob_pane ob) = Some e'
    \<and> de_hold e' = de_hold e \<and> de_hold_owner e' = de_hold_owner e \<and> de_turn e' = de_turn e
    \<and> de_agent e' = de_agent e \<and> de_manifest e' = de_manifest e \<and> de_binding e' = de_binding e
    \<and> br_ends b' = br_ends b \<and> \<not> dt_write_ready (de_detection e') \<and> co_detection r = de_detection e'"
proof -
  have u: "ob_unobservable ob" using doubt by (simp add: ob_unobservable_def)
  have "\<not> dt_write_ready (committed_verdict b ob det h st reason)" for h st
    by (simp add: committed_verdict_def commit_unproven_def u occupant_unprovable_def detection_simps Let_def)
  then show ?thesis
    using e u by (simp add: commit_observation_def commit_frozen_def commit_store_def Let_def entry_of_def)
qed

theorem unproven_occupant_keeps_the_hold_witness:
  "\<exists>b e r b' e'. perform_all [commit_frame 7 draft_frame] barrier_new = Some b \<and> entry_of b sample_pane = Some e
    \<and> commit_observation b (sample_observation BindingUnprovable False) clean_frame False None = Some (r, b')
    \<and> entry_of b' sample_pane = Some e' \<and> de_hold e' = de_hold e \<and> \<not> dt_write_ready (de_detection e')"
proof -
  let ?ob = "sample_observation BindingUnprovable False"
  obtain b where b: "perform_all [commit_frame 7 draft_frame] barrier_new = Some b" using perform_all_ok [OF barrier_new_ok] by blast
  have "is_some_and (perform_all [commit_frame 7 draft_frame] barrier_new) (\<lambda>b. entry_of b sample_pane \<noteq> None)" by code_simp
  then have "entry_of b sample_pane \<noteq> None" unfolding b by simp
  then obtain e where e: "entry_of b (ob_pane ?ob) = Some e" by (auto simp: sample_observation_def)
  have "ob_binding ?ob = BindingUnprovable" "ob_pane ?ob = sample_pane" by (simp_all add: sample_observation_def)
  then show ?thesis
    using unproven_occupant_keeps_the_hold [OF e, of clean_frame False None] b e by fastforce
qed

text \<open>No sequence of calls on the barrier panics, from whatever state: the one expectation in the
  code, that a carried turn has a proven agent, always holds.\<close>

theorem barrier_calls_never_panic: "\<exists>b'. perform_all cs b = Some b'"
proof (induction cs arbitrary: b)
  case (Cons c cs)
  obtain b1 where "perform c b = Some b1" using perform_total by blast
  then show ?case using Cons.IH by simp
qed simp

section \<open>Turn ends\<close>

text \<open>C36. The end that a hold waits on outlives any flood of other ends, and no end disappears
  quietly: each end that was stored or recorded for a binding is still there afterwards, or the store
  says that it lost evidence.\<close>

theorem waited_end_survives_and_loss_is_admitted:
  fixes m :: ends
  assumes "ends_ok m"
  shows "let m' = fold (\<lambda>t m. ends_record m pane agent manifest t) ts m in
    (\<forall>p. pinned_turn m pane agent manifest = Some p \<longrightarrow> ends_holds m pane agent manifest p \<or> p \<in> set ts \<longrightarrow>
            ends_holds m' pane agent manifest p)
    \<and> (\<forall>u. ends_holds m pane agent manifest u \<or> u \<in> set ts \<longrightarrow>
            ends_holds m' pane agent manifest u \<or> evidence_lost m' pane agent manifest)"
  using pane_store.pinned_survives [OF assms] pane_store.never_quiet [OF assms] unfolding Let_def by blast

theorem waited_end_survives_and_loss_is_admitted_witness:
  "ends_ok [] \<and>
   (let m = fold (\<lambda>t m. ends_record m sample_pane (sample_proc 7) ''codex'' t)
       (map (\<lambda>n. sample_turn (show_nat n)) [0..<20]) [] in
    ends_holds m sample_pane (sample_proc 7) ''codex'' (sample_turn ''0'') \<or>
    evidence_lost m sample_pane (sample_proc 7) ''codex'')"
proof -
  have "sample_turn ''0'' \<in> set (map (\<lambda>n. sample_turn (show_nat n)) [0..<20])" by code_simp
  then show ?thesis
    using waited_end_survives_and_loss_is_admitted [OF ends_ok_empty, of sample_pane "sample_proc 7" "''codex''"
        "map (\<lambda>n. sample_turn (show_nat n)) [0..<20]"] by (simp add: Let_def)
qed

section \<open>Where the cache forgets a refusal\<close>

abbreviation verdict_after :: "barrier_call list \<Rightarrow> readiness option" where
  "verdict_after cs \<equiv> map_option readiness_key (Option.bind (perform_all cs barrier_new) (\<lambda>b. entry_of b sample_pane))"

text \<open>
  A named refusal does not outlive the next stamp. After an observation that could not prove the
  occupant the entry refuses; when the owning delivery then clears its hold, the entry is stamped
  from the sensors alone and allows a write, with nothing observed in between.
\<close>

theorem restamp_forgets_unproven_occupant:
  "let doubted = [commit_frame 7 clean_frame, Claim sample_pane ''attempt-1'' (Some (sample_proc 7)) (Some ''codex''),
       Commit (sample_observation BindingUnprovable False) clean_frame False None]
   in verdict_after doubted = Some (False, Some ''occupant_unprovable'')
      \<and> verdict_after (doubted @ [ClearOwner sample_pane ''attempt-1'']) = Some (True, None)"
  by code_simp

text \<open>
  A pane in a mode takes over whatever binding was observed. A draft is held for the agent; an
  observation that finds no vendor process freezes the hold when the pane is out of a mode, but in a
  mode it clears the agent of the entry, and the next clean frame of the same agent starts without
  the hold.
\<close>

theorem mode_observation_loses_the_draft:
  "verdict_after [commit_frame 7 draft_frame, Commit (sample_observation BindingNotVendor False) clean_frame False None,
       commit_frame 7 clean_frame] = Some (False, Some ''composer_hold'')
   \<and> verdict_after [commit_frame 7 draft_frame, InMode (sample_observation BindingNotVendor True),
       commit_frame 7 clean_frame] = Some (True, None)"
  by code_simp

end
