(* ===== verification/Observation_Properties.thy ===== *)
theory Observation_Properties
  imports Pane_Observation Barrier_Properties
begin

text \<open>
  The properties of a whole observation: the tiers agree with the manifest's own evaluator, a hook
  never grants a write, every observation answers and keeps the barrier's invariant.
\<close>

section \<open>The tiers\<close>

lemma find_False [simp]: "List.find (\<lambda>x. False) xs = None"
  by (simp add: find_None_iff)

text \<open>C38. The two tiers that the daemon evaluates apart decide what the manifest's own evaluator decides
  on the same title and capture: the rule that wins there names the state, unless it is an idle rule
  that the screen did not confirm, and then no idle verdict is published; no rule at all is an
  unknown state without readings.\<close>

theorem fusion_follows_the_evaluator:
  "let d = fuse m (title_winner R m title) (screen_winner_esc R m screen esc) required confirmed ts in
   case evaluate_esc R m title screen esc of
     None \<Rightarrow> dt_state d = SUnknown \<and> dt_readings d = []
   | Some i \<Rightarrow>
       (if idle_class (cr_state (mf_rules m ! i)) \<and> required \<and> \<not> confirmed then \<not> idle_class (dt_state d)
        else dt_state d = cr_state (mf_rules m ! i) \<and> dt_decided_by d = cr_id (mf_rules m ! i))"
proof (cases "evaluate_esc R m title screen esc")
  case None
  then have "title_winner R m title = None" "screen_winner_esc R m screen esc = None"
    using fuse_winner(1) [of m "title_winner R m title" "screen_winner_esc R m screen esc"]
    by (simp_all add: evaluate_esc_winners)
  then show ?thesis using None by (simp add: fuse_def Let_def tier_reading_def)
next
  case (Some i)
  then have "List.find (\<lambda>i. title_winner R m title = Some i \<or> screen_winner_esc R m screen esc = Some i) [0..<length (mf_rules m)] = Some i"
    by (simp add: evaluate_esc_winners)
  then show ?thesis
    using Some by (auto simp: fuse_def Let_def idle_class_def split: option.splits)
qed

section \<open>The hook sensor\<close>

lemma is_rule_bind: "(\<And>x. is_rule m (f x)) \<Longrightarrow> is_rule m (Option.bind c f)"
  by (cases c) simp_all

lemma visual_detection_shape:
  assumes "visual_detection R m title capture need changed ts = (s, d)"
  shows "\<exists>screen. is_rule m screen \<and>
      dt_readings d = dt_readings (fuse m (title_winner R m title) screen (manifest_uses_screen_tier m)
        (winner_confirms_idle (map_option ((!) (mf_rules m)) screen)) ts)
      \<and> dt_state d = dt_state (fuse m (title_winner R m title) screen (manifest_uses_screen_tier m)
        (winner_confirms_idle (map_option ((!) (mf_rules m)) screen)) ts)"
proof -
  let ?cap = "if need then map_option (\<lambda>(plain, esc). capture_screens m plain esc) capture else None"
  let ?s = "Option.bind ?cap (\<lambda>(screen, esc). screen_winner_esc R m screen esc)"
  have "is_rule m ?s" by (rule is_rule_bind) (simp split: prod.splits)
  then show ?thesis
    using assms
    by (intro exI [of _ ?s]) (auto simp: visual_detection_def Let_def detection_simps split: option.splits prod.splits)
qed

text \<open>C37. A hook reading never grants a write. Whatever edge a vendor reported, a frame that is safe to
  write with the hook's reading in it is safe to write without it.\<close>

theorem hook_never_grants_a_write:
  assumes vis: "visual_detection R m title capture need changed ts = (s, d)"
    and hook: "sr_sensor reading = HookSensor"
    and safe: "safe_to_write (apply_hook_reading d reading active_start authoritative_end)"
  shows "safe_to_write d"
proof -
  obtain screen where screen: "is_rule m screen"
    and shape: "dt_readings d = dt_readings (fuse m (title_winner R m title) screen (manifest_uses_screen_tier m)
        (winner_confirms_idle (map_option ((!) (mf_rules m)) screen)) ts)"
      "dt_state d = dt_state (fuse m (title_winner R m title) screen (manifest_uses_screen_tier m)
        (winner_confirms_idle (map_option ((!) (mf_rules m)) screen)) ts)"
    using visual_detection_shape [OF vis] by blast
  show ?thesis
  proof (rule apply_hook_safe [OF safe hook])
    show "dt_state d = SWorking" if "dt_readings d \<noteq> []" "\<forall>r\<in>set (dt_readings d). sr_state r = SWorking"
      using that fuse_all_working [OF is_rule_winners(2) screen] unfolding shape by blast
    show "r = q" if "r \<in> set (dt_readings d)" "q \<in> set (dt_readings d)" "sr_sensor r = ScreenSensor" "sr_sensor q = ScreenSensor" for r q
      using that fuse_one_screen unfolding shape by blast
  qed
qed

section \<open>Sample manifests\<close>

text \<open>Literal text stands in for a regular expression: a match is an occurrence.\<close>

definition literal_regex :: "string regex_api" where
  "literal_regex = \<lparr>rx_is_match = (\<lambda>r s. contains_str s r),
     rx_find_at = (\<lambda>r s at. map_option (\<lambda>(before, _). (at + length before, at + length before + length r))
       (split_once_str r (drop at s)))\<rparr>"

definition no_clauses :: "string compiled_matcher" where
  "no_clauses = \<lparr>cm_unstyled_only = False, cm_contains = [], cm_regex = [], cm_line_regex = [], cm_line_regex_esc = [],
     cm_regex_esc = []\<rparr>"

definition screen_rule :: "string \<Rightarrow> agent_state \<Rightarrow> composer_semantic option \<Rightarrow> string compiled_matcher \<Rightarrow> string compiled_rule" where
  "screen_rule rid state semantic matcher =
     \<lparr>cr_id = rid, cr_state = state, cr_composer_semantic = semantic, cr_region = BottomNonEmptyLines 2,
      cr_lifecycle_evidence = True, cr_active_start_terminal = False, cr_matcher = matcher, cr_any = []\<rparr>"

definition sample_hooks :: hooks where
  "sample_hooks = \<lparr>hk_turn_start = Some ''start'', hk_turn_start_evidence = Confirmed, hk_turn_end = Some ''stop'',
     hk_turn_end_evidence = Confirmed, hk_turn_end_confirmed = [], hk_ack_evidence = Receipt, hk_turn_key_fields = []\<rparr>"

definition sample_manifest :: "string compiled_rule list \<Rightarrow> string manifest" where
  "sample_manifest rules =
     \<lparr>mf_hooks = sample_hooks, mf_rules = rules, mf_composer_chips_esc = [], mf_composer_trailers_esc = []\<rparr>"

definition prompt_manifest :: "string manifest" where
  "prompt_manifest = sample_manifest
     [screen_rule ''busy'' SWorking None (no_clauses\<lparr>cm_contains := [''esc to interrupt'']\<rparr>),
      screen_rule ''prompt'' SIdle (Some SemClean) (no_clauses\<lparr>cm_contains := [''> '']\<rparr>)]"

definition sample_env :: "string observe_env" where
  "sample_env = \<lparr>ev_regex = literal_regex, ev_manifests = (\<lambda>n. if n = ''codex'' then Some prompt_manifest else None),
     ev_pending_dispatch = (\<lambda>_ _ _ _. []), ev_declares_hooks = (\<lambda>_. True),
     ev_seen_admitting_edge = (\<lambda>_ _ _. False), ev_seen_declared_lifecycle = (\<lambda>_ _ _ _. False)\<rparr>"

definition sample_input :: "string \<Rightarrow> bool \<Rightarrow> pane_input" where
  "sample_input screen same_binding =
     \<lparr>pi_pane = sample_pane, pi_dead = False, pi_in_mode = False, pi_title = ''codex'', pi_current_command = ''codex'',
      pi_rules_manifest = Some ''codex'', pi_seen = Leader 7, pi_binding = BindingBound (sample_binding 7),
      pi_capture = Some (screen, screen), pi_foreground = Some 7, pi_inspect_composer = False,
      pi_binding_stable = same_binding, pi_force_screen = False, pi_cause = ''status'', pi_ts = 100, pi_source_ms = None,
      pi_route_evidence = False\<rparr>"

definition sample_runtime :: runtime where
  "sample_runtime = \<lparr>rt_barrier = barrier_new, rt_readings = [], rt_lifecycle = lifecycle_new\<rparr>"

definition hook_reading_of :: "agent_state \<Rightarrow> sensor_reading" where
  "hook_reading_of s = \<lparr>sr_sensor = HookSensor, sr_state = s, sr_rule = ''Stop'', sr_ts = 90\<rparr>"

theorem hook_never_grants_a_write_witness:
  "\<exists>s d. visual_detection literal_regex prompt_manifest ''codex'' (Some (''> '', ''> '')) True False 100 = (s, d)
     \<and> safe_to_write (apply_hook_reading d (hook_reading_of SIdle) False False) \<and> safe_to_write d"
proof -
  obtain s d where v: "visual_detection literal_regex prompt_manifest ''codex'' (Some (''> '', ''> '')) True False 100 = (s, d)"
    by fastforce
  have "base_write_ready (apply_hook_reading (snd (visual_detection literal_regex prompt_manifest ''codex''
      (Some (''> '', ''> '')) True False 100)) (hook_reading_of SIdle) False False) = Inr ()"
    by code_simp
  then have safe: "safe_to_write (apply_hook_reading d (hook_reading_of SIdle) False False)"
    unfolding v by (simp add: base_write_ready_iff)
  have "sr_sensor (hook_reading_of SIdle) = HookSensor" by (simp add: hook_reading_of_def)
  from hook_never_grants_a_write [OF v this safe] v safe show ?thesis by blast
qed

section \<open>A whole observation\<close>

abbreviation runtime_ok :: "runtime \<Rightarrow> bool" where
  "runtime_ok rt \<equiv> barrier_ok (rt_barrier rt)"

lemma prepare_dispatch_ack_ok: "runtime_ok rt \<Longrightarrow> runtime_ok (prepare_dispatch_ack E rt pane agent manifest turn)"
proof -
  have "runtime_ok rt \<Longrightarrow> runtime_ok (fold (\<lambda>(owner, start_ms) rt.
      rt\<lparr>rt_barrier := snd (snd (bind_turn (rt_barrier rt) pane owner turn start_ms))\<rparr>) ps rt)" for ps rt
    by (induction ps arbitrary: rt) (auto simp: bind_turn_ok)
  then show "runtime_ok rt \<Longrightarrow> ?thesis" by (simp add: prepare_dispatch_ack_def)
qed

lemma drop_matching_start_barrier [simp]: "rt_barrier (drop_matching_start rt pane agent manifest turn) = rt_barrier rt"
  by (simp add: drop_matching_start_def)

lemma record_turn_end_ok: "runtime_ok rt \<Longrightarrow> runtime_ok (record_turn_end rt pane agent manifest turn)"
  by (simp add: record_turn_end_def barrier_ok_with_ends ends_record_ok barrier_ok_ends)

lemma retire_obsolete_barrier [simp]: "rt_barrier (retire_obsolete_visual_end rt pane agent manifest) = rt_barrier rt"
  by (simp add: retire_obsolete_visual_end_def split: option.splits)

lemma drain_ok: "runtime_ok rt \<Longrightarrow> runtime_ok (snd (drain_terminal_candidates n E rt pane agent manifest ms ev))"
proof (induction n arbitrary: rt)
  case (Suc n)
  obtain settlement store where st: "settle_next_ready_terminal_with_evidence (rt_lifecycle rt) pane agent manifest
      (active_turn_for rt pane agent manifest) ms ev = (settlement, store)"
    by fastforce
  show ?case
  proof (cases settlement)
    case None
    then show ?thesis using Suc.prems st by simp
  next
    case (Some s)
    let ?rt1 = "drop_matching_start (record_turn_end (rt\<lparr>rt_lifecycle := store\<rparr>) pane agent manifest (ca_turn (ts_end s)))
      pane agent manifest (ca_turn (ts_end s))"
    have ok1: "runtime_ok ?rt1" using Suc.prems by (simp add: record_turn_end_ok)
    show ?thesis
    proof (cases "ts_start s")
      case None
      then show ?thesis using st Some Suc.IH [OF ok1] by (simp add: Let_def case_prod_unfold)
    next
      case (Some start)
      show ?thesis
        using st \<open>settlement = Some s\<close> Some
          Suc.IH [OF prepare_dispatch_ack_ok [OF ok1], of E pane "ca_agent start" "ca_manifest start" "ca_turn start"]
        by (simp add: Let_def case_prod_unfold)
    qed
  qed
qed simp

lemma reconcile_unkeyed_barrier [simp]:
  "rt_barrier (snd (reconcile_unkeyed_dispatch_start E rt pane agent m det in_mode ms ev st ob)) = rt_barrier rt"
  by (simp add: reconcile_unkeyed_dispatch_start_def Let_def split: option.splits)

lemma reconcile_end_ok:
  "runtime_ok rt \<Longrightarrow> runtime_ok (snd (reconcile_candidate_end E rt pane agent m det in_mode ms ob active c))"
  by (auto simp: reconcile_candidate_end_def Let_def record_turn_end_ok split: option.splits prod.splits)

lemma reconcile_start_barrier [simp]:
  "rt_barrier (snd (reconcile_candidate_start E rt pane agent m det in_mode ms active c)) = rt_barrier rt"
  by (auto simp: reconcile_candidate_start_def Let_def split: option.splits prod.splits)

lemma reconcile_lifecycle_ok:
  "runtime_ok rt \<Longrightarrow> runtime_ok (snd (reconcile_candidate_lifecycle E rt pane agent m det in_mode ms ev ob))"
  using reconcile_end_ok [of rt E pane agent m det in_mode ms ob]
  by (auto simp: reconcile_candidate_lifecycle_def Let_def split: prod.splits) (metis snd_conv)+

lemma reconcile_lifecycles_ok:
  assumes "runtime_ok rt"
  shows "runtime_ok (snd (reconcile_candidate_lifecycles E rt pane agent m det in_mode ms ev st ob))"
proof -
  obtain drained rt1 where d: "(if ob = StableObservation \<and> terminal_visual_state det in_mode \<noteq> None
      then drain_terminal_candidates MAX_TERMINAL_DRAIN_PER_OBSERVATION E rt pane agent m ms ev else ([], rt)) = (drained, rt1)"
    by fastforce
  then have "runtime_ok rt1"
    using assms drain_ok [OF assms, of MAX_TERMINAL_DRAIN_PER_OBSERVATION E pane agent m ms ev] by (auto split: if_splits)
  then have "runtime_ok (snd (reconcile_candidate_lifecycle E rt1 pane agent m det in_mode ms ev ob))"
    by (rule reconcile_lifecycle_ok)
  then show ?thesis
    using assms unfolding reconcile_candidate_lifecycles_def d Let_def by (simp add: case_prod_unfold)
qed

lemma fold_prepare_ok:
  "runtime_ok rt \<Longrightarrow> runtime_ok (fold (\<lambda>c rt. if P c then prepare_dispatch_ack E rt pane (f c) (g c) (h c) else rt) cs rt)"
  by (induction cs arbitrary: rt) (auto simp: prepare_dispatch_ack_ok)

lemma reconcile_edges_ok:
  assumes "runtime_ok rt"
  shows "runtime_ok (snd (snd (reconcile_edges E rt i lane st det)))"
proof -
  let ?ob = "observation_from_cause (pi_cause i)"
  let ?rt0 = "if lane \<and> \<not> pi_dead i \<and> \<not> dt_stale det \<and> st \<and> is_visual ?ob
    then rt\<lparr>rt_lifecycle := note_visual_change (rt_lifecycle rt) (pi_pane i)\<rparr> else rt"
  have ok0: "runtime_ok ?rt0" using assms by simp
  show ?thesis
  proof (cases "lane \<and> \<not> pi_dead i")
    case True
    show ?thesis
    proof (cases "ob_admitted (pi_observation i)"; cases "pi_manifest_id i")
      fix agent m assume a: "ob_admitted (pi_observation i) = Some agent" "pi_manifest_id i = Some m"
      show ?thesis
        using True a assms unfolding reconcile_edges_def Let_def
        by (auto simp: case_prod_unfold intro!: fold_prepare_ok reconcile_lifecycles_ok)
    qed (use True ok0 in \<open>simp_all add: reconcile_edges_def Let_def\<close>)
  next
    case False
    then show ?thesis using ok0 by (auto simp: reconcile_edges_def Let_def)
  qed
qed

lemma hook_for_observation_barrier [simp]:
  "rt_barrier (snd (hook_for_observation rt pane a m det c t im st ts)) = rt_barrier rt"
  by (simp add: hook_for_observation_def split: option.splits prod.splits hook_action.splits)

lemma fused_detection_barrier [simp]: "rt_barrier (snd (fused_detection E rt i m s st det)) = rt_barrier rt"
  by (auto simp: fused_detection_def Let_def case_prod_unfold)

text \<open>What an observation read on the pane's own screen.\<close>

lemma semantic_has_winner:
  "screen_composer_semantic_esc R m screen esc = Some x \<Longrightarrow> \<exists>j. screen_winner_esc R m screen esc = Some j"
  by (auto simp: screen_composer_semantic_esc_def screen_winner_esc_def find_Some_iff bind_eq_Some_conv
      split: prod.splits) (metis (mono_tags, lifting) find_index_None mem_Collect_eq nth_mem option.exhaust set_filter)

lemma fuse_semantic_None: "dt_composer_semantic (fuse m t None req conf ts) = None"
  by (simp add: fuse_def Let_def split: option.splits)

lemma visual_detection_read:
  assumes "visual_detection R m title capture need changed ts = (s, d)" and "dt_composer_semantic d \<noteq> None"
  shows "\<exists>plain esc screen escs. capture = Some (plain, esc) \<and> capture_screens m plain esc = (screen, escs) \<and>
    dt_composer_semantic d = screen_composer_semantic_esc R m screen escs \<and>
    (\<forall>k. screen_winner_esc R m screen escs = Some k \<or> title_winner R m title = Some k \<longrightarrow>
       (\<exists>r\<in>set (dt_readings d). sr_state r = cr_state (mf_rules m ! k)))"
proof (cases "need \<and> capture \<noteq> None")
  case True
  then obtain plain esc screen escs where c: "capture = Some (plain, esc)" "capture_screens m plain esc = (screen, escs)"
    by (metis not_None_eq prod.exhaust)
  have "dt_composer_semantic d = screen_composer_semantic_esc R m screen escs"
    "dt_readings d = tier_reading TitleSensor ts (map_option ((!) (mf_rules m)) (title_winner R m title)) @
       tier_reading ScreenSensor ts (map_option ((!) (mf_rules m)) (screen_winner_esc R m screen escs))"
    using assms(1) True c by (auto simp: visual_detection_def Let_def detection_simps fuse_readings)
  then show ?thesis using c by (auto simp: tier_reading_def split: option.splits)
next
  case False
  then have "(if need then map_option (\<lambda>(plain, esc). capture_screens m plain esc) capture else None) = None"
    by (cases capture) auto
  then have "dt_composer_semantic d = None"
    using assms(1) unfolding visual_detection_def Let_def by (auto simp: detection_simps fuse_semantic_None)
  then show ?thesis using assms(2) by simp
qed

lemma liveness_keeps [simp]:
  "dt_composer_semantic (liveness_idle_admission E rt pane a m r st im det) = dt_composer_semantic det"
  "dt_readings (liveness_idle_admission E rt pane a m r st im det) = dt_readings det"
  by (simp_all add: liveness_idle_admission_def Let_def split: option.splits)

lemma fused_detection_keeps:
  "dt_composer_semantic (fst (fused_detection E rt i m s st det)) = dt_composer_semantic det"
  "set (dt_readings det) \<subseteq> set (dt_readings (fst (fused_detection E rt i m s st det)))"
  by (auto simp: fused_detection_def Let_def case_prod_unfold split: option.splits)

definition read_on_screen :: "'r observe_env \<Rightarrow> pane_input \<Rightarrow> bool" where
  "read_on_screen E i \<longleftrightarrow>
     (\<exists>m plain esc screen escs j. Option.bind (pi_rules_manifest i) (ev_manifests E) = Some m \<and>
        pi_capture i = Some (plain, esc) \<and> capture_screens m plain esc = (screen, escs) \<and>
        screen_composer_semantic_esc (ev_regex E) m screen escs \<in> {Some SemClean, Some SemGhostSuggestion} \<and>
        screen_winner_esc (ev_regex E) m screen escs = Some j \<and>
        (\<forall>k. k = j \<or> title_winner (ev_regex E) m (pi_title i) = Some k \<longrightarrow>
           cr_state (mf_rules m ! k) \<notin> {SIdleWithInput, SBlockedModal, SBlockedPermission, SBlockedQuota, SUnknown}))"

lemma safe_fused_read:
  assumes frame: "observed_frame E i m need changed = (s, det)"
    and fused: "fused_detection E rt i m s st det = (det2, rt2)" and safe: "safe_to_write det2"
    and m: "m = Option.bind (pi_rules_manifest i) (ev_manifests E)"
  shows "\<not> pi_dead i \<and> read_on_screen E i"
proof -
  have sem: "dt_composer_semantic det \<in> {Some SemClean, Some SemGhostSuggestion}"
    and calm: "\<forall>r\<in>set (dt_readings det).
      sr_state r \<notin> {SIdleWithInput, SBlockedModal, SBlockedPermission, SBlockedQuota, SUnknown}"
    using fused_detection_keeps(1) [of E rt i m s st det] fused_detection_keeps(2) [of det E rt i m s st] fused safe
    by (auto simp: safe_to_write_def screen_proves_write_safe_composer_def)
  then have alive: "\<not> pi_dead i" "m \<noteq> None"
    using frame by (auto simp: observed_frame_def verdict_def split: if_splits option.splits)
  then obtain mf where mf: "m = Some mf" by blast
  then have v: "visual_detection (ev_regex E) mf (pi_title i) (pi_capture i) need changed (pi_ts i) = (s, det)"
    using frame alive by (simp add: observed_frame_def)
  obtain plain esc screen escs where r: "pi_capture i = Some (plain, esc)" "capture_screens mf plain esc = (screen, escs)"
    "dt_composer_semantic det = screen_composer_semantic_esc (ev_regex E) mf screen escs"
    "\<forall>k. screen_winner_esc (ev_regex E) mf screen escs = Some k \<or> title_winner (ev_regex E) mf (pi_title i) = Some k \<longrightarrow>
       (\<exists>r\<in>set (dt_readings det). sr_state r = cr_state (mf_rules mf ! k))"
    using visual_detection_read [OF v] sem by blast
  moreover obtain j where j: "screen_winner_esc (ev_regex E) mf screen escs = Some j"
    using semantic_has_winner [of "ev_regex E" mf screen escs] sem r(3) by auto
  moreover have "\<forall>k. k = j \<or> title_winner (ev_regex E) mf (pi_title i) = Some k \<longrightarrow>
      cr_state (mf_rules mf ! k) \<notin> {SIdleWithInput, SBlockedModal, SBlockedPermission, SBlockedQuota, SUnknown}"
    using r(4) j calm by metis
  ultimately show ?thesis
    using alive sem mf m unfolding read_on_screen_def
    by (intro conjI exI [of _ mf] exI [of _ plain] exI [of _ esc] exI [of _ screen] exI [of _ escs] exI [of _ j]) auto
qed

text \<open>What the cache holds when an observation published its verdict as ready.\<close>

definition cached_ready :: "runtime \<Rightarrow> pane_input \<Rightarrow> detection \<Rightarrow> bool" where
  "cached_ready rt i d \<longleftrightarrow>
     (\<exists>e. entry_of (rt_barrier rt) (pi_pane i) = Some e \<and> de_detection e = d \<and> de_hold e = HoldClear \<and>
        de_hold_owner e = None \<and> de_binding e = ob_observed (pi_observation i))"

lemma commit_caches:
  assumes "commit_observation b ob det w reason = Some (c, b')"
  shows "\<exists>e. entry_of b' (ob_pane ob) = Some e \<and> de_detection e = co_detection c"
  using assms by (auto simp: commit_observation_def commit_store_def Let_def entry_of_def split: option.splits prod.splits)

lemma commit_ready:
  assumes ok: "barrier_ok b" and c: "commit_observation b ob det w reason = Some (c, b')" and ready: "dt_write_ready (co_detection c)"
  shows "\<not> ob_in_mode ob \<and> \<not> ob_unobservable ob \<and> safe_to_write det \<and> safe_to_write (co_detection c) \<and>
    (\<exists>e. entry_of b' (ob_pane ob) = Some e \<and> de_detection e = co_detection c \<and> de_hold e = HoldClear \<and>
       de_hold_owner e = None \<and> de_binding e = ob_observed ob)"
proof -
  obtain e where e: "entry_of b' (ob_pane ob) = Some e" "de_detection e = co_detection c" using commit_caches [OF c] by blast
  note own = commit_own_entry [OF c e(1)]
  have "entry_ok e" using commit_observation_ok [OF ok c] e(1) by (auto simp: barrier_ok_def)
  then have v: "\<not> de_in_mode e" "\<not> refuses (de_hold e)" "safe_to_write (de_detection e)" "de_hold_owner e = None"
    using ready e(2) by (auto simp: entry_ok_def verdict_ok_def)
  have "\<not> commit_unproven b ob" using own ready e(2) by auto
  then show ?thesis
    using own v e same_evidence_safe [of "de_detection e" det] by (auto simp: commit_unproven_def refuses_def)
qed

lemma retire_replaced_barrier [simp]: "rt_barrier (retire_replaced_lifecycle rt i) = rt_barrier rt"
  by (simp add: retire_replaced_lifecycle_def)

definition ready_verdict :: "'r observe_env \<Rightarrow> pane_input \<Rightarrow> observe_result \<Rightarrow> runtime \<Rightarrow> bool" where
  "ready_verdict E i r rt \<longleftrightarrow>
     \<not> pi_in_mode i \<and> \<not> pi_dead i \<and> pi_binding i \<noteq> BindingUnprovable \<and> safe_to_write (or_detection r) \<and>
     read_on_screen E i \<and> cached_ready rt i (or_detection r)"

lemma observe_pane_fresh_ok:
  assumes "runtime_ok rt" and m: "m = Option.bind (pi_rules_manifest i) (ev_manifests E)"
  shows "\<exists>r rt'. observe_pane_fresh E rt i m need prior = Some (r, rt') \<and> runtime_ok rt'
    \<and> (dt_write_ready (or_detection r) \<longrightarrow> ready_verdict E i r rt')"
proof -
  let ?changed = "\<not> pi_dead i \<and> m \<noteq> None \<and> (need \<or> pi_inspect_composer i) \<and> \<not> pi_binding_stable i"
  obtain s_rule det where frame: "observed_frame E i m need ?changed = (s_rule, det)" by fastforce
  obtain effects confirmed rt1 where rec: "reconcile_edges E rt i (candidate_lane m) (\<not> ?changed) det = (effects, confirmed, rt1)"
    by (metis prod.exhaust)
  have ok1: "runtime_ok rt1" using reconcile_edges_ok [OF assms(1), of E i "candidate_lane m" "\<not> ?changed" det] rec by simp
  obtain det2 rt2 where fused: "fused_detection E rt1 i m s_rule (\<not> ?changed) det = (det2, rt2)" by fastforce
  then have ok2: "runtime_ok rt2" using fused_detection_barrier [of E rt1 i m s_rule "\<not> ?changed" det] ok1 by simp
  let ?w = "working_is_confirmed E rt2 (pi_pane i) det2 (ob_admitted (pi_observation i)) (pi_manifest_id i)"
  let ?why = "unknown_reason_for E (pi_pane i) (ob_admitted (pi_observation i)) (pi_manifest_id i) (pi_current_command i)"
  obtain c b where c: "commit_observation (rt_barrier rt2) (pi_observation i) det2 ?w ?why = Some (c, b)"
    using commit_total by (metis option.exhaust prod.exhaust)
  have "observe_pane_fresh E rt i m need prior =
    Some (\<lparr>or_detection = co_detection c, or_wake = co_wake c, or_missing_end = co_missing_end c,
      or_state_changed = state_changed (co_prior c) (co_detection c) prior ?w,
      or_dispatch_acks = confirmed, or_dispatch_effects = effects\<rparr>, rt2\<lparr>rt_barrier := b\<rparr>)"
    by (simp only: observe_pane_fresh_def Let_def frame rec fused c prod.case option.map)
  moreover have "barrier_ok b" using commit_observation_ok [OF ok2 c] .
  moreover have "\<not> pi_in_mode i \<and> \<not> pi_dead i \<and> pi_binding i \<noteq> BindingUnprovable \<and> safe_to_write (co_detection c) \<and>
      read_on_screen E i \<and> cached_ready (rt2\<lparr>rt_barrier := b\<rparr>) i (co_detection c)" if "dt_write_ready (co_detection c)"
  proof -
    have pane: "ob_pane (pi_observation i) = pi_pane i" "ob_in_mode (pi_observation i) = pi_in_mode i"
      "ob_unobservable (pi_observation i) \<longleftrightarrow> pi_binding i = BindingUnprovable"
      by (simp_all add: pi_observation_def ob_unobservable_def)
    show ?thesis
      using commit_ready [OF ok2 c that, unfolded pane] safe_fused_read [OF frame fused _ m] by (simp add: cached_ready_def)
  qed
  ultimately show ?thesis by (simp add: ready_verdict_def)
qed

lemma observe_pane_in_mode_ok:
  assumes ok: "runtime_ok rt" and r: "observe_pane_in_mode E rt i lane = (r, rt')"
  shows "runtime_ok rt'" "\<not> dt_write_ready (or_detection r)"
proof -
  let ?o = "observe_in_mode (rt_barrier rt) (pi_observation i)"
  have m: "barrier_ok (snd (snd ?o))" "\<not> dt_write_ready (fst (snd ?o))"
    using observe_in_mode_ok [OF ok]
    by (auto simp: observe_in_mode_def Let_def occupant_unprovable_def detection_simps split: option.splits)
  have "rt_barrier (snd (observe_pane_in_mode E rt i lane)) = snd (snd ?o)"
    "or_detection (fst (observe_pane_in_mode E rt i lane)) = fst (snd ?o)"
    by (cases lane; cases "ob_admitted (pi_observation i)"; cases "pi_manifest_id i";
        simp add: observe_pane_in_mode_def Let_def case_prod_unfold)+
  then show "runtime_ok rt'" "\<not> dt_write_ready (or_detection r)" using m r by simp_all
qed

text \<open>C8. Every observation of a pane answers, whatever the terminal, the process table and the hook
  log said, and never by a panic, and keeps the invariant of the barrier. A verdict that it publishes as
  ready was read in this observation on the pane's own screen: the pane is alive and out of every mode, its
  process table could be read, the manifest of its rules is loaded, the capture succeeded, the rules read the
  captured composer as clean or holding a ghost suggestion, a screen rule won, and neither it nor the winner
  of the title reads input, a dialog or doubt. The cache then holds this verdict for the binding that was
  observed, with no hold and no owner. A hook, a pending edge or a retained verdict alone never publishes a
  ready one. What readiness does not ask is that the processes stayed the same around the capture: the
  refusal for that is computed and then lost (\<open>capture_refusal_is_lost\<close>).\<close>

theorem ready_verdict_is_read_on_screen:
  assumes "barrier_ok (rt_barrier rt)"
  shows "\<exists>r rt'. observe_pane E rt i = Some (r, rt') \<and> barrier_ok (rt_barrier rt')
    \<and> (dt_write_ready (or_detection r) \<longrightarrow>
         \<not> pi_in_mode i \<and> \<not> pi_dead i \<and> pi_binding i \<noteq> BindingUnprovable \<and> safe_to_write (or_detection r)
         \<and> read_on_screen E i \<and> cached_ready rt' i (or_detection r))"
proof -
  let ?rt = "retire_replaced_lifecycle rt i"
  let ?m = "Option.bind (pi_rules_manifest i) (ev_manifests E)"
  let ?need = "is_some_and ?m (\<lambda>m. pi_force_screen i \<or> manifest_uses_screen_tier m)"
  let ?prior = "is_some_and (hm_get (br_detections (rt_barrier rt)) (pi_pane i)) de_working_confirmed"
  have ok: "runtime_ok ?rt" using assms by simp
  note fresh = observe_pane_fresh_ok [OF ok refl, of E i ?need ?prior]
  obtain retained b where stale:
    "retain_stale (rt_barrier ?rt) (pi_pane i) (pi_in_mode i) (pi_foreground i) (pi_manifest_id i) = (retained, b)"
    by fastforce
  consider (mode) "\<not> pi_dead i \<and> pi_in_mode i"
    | (stale) det where "\<not> (\<not> pi_dead i \<and> pi_in_mode i)" "\<not> pi_dead i \<and> ?need \<and> pi_capture i = None" "retained = Some det"
    | (none) "\<not> (\<not> pi_dead i \<and> pi_in_mode i)" "\<not> pi_dead i \<and> ?need \<and> pi_capture i = None" "retained = None"
    | (taken) "\<not> (\<not> pi_dead i \<and> pi_in_mode i)" "\<not> (\<not> pi_dead i \<and> ?need \<and> pi_capture i = None)"
    by (cases retained) blast+
  then show ?thesis
  proof cases
    case mode
    obtain r rt' where r: "observe_pane_in_mode E ?rt i (candidate_lane ?m) = (r, rt')" by fastforce
    then have "observe_pane E rt i = Some (r, rt')" using mode by (simp add: observe_pane_def Let_def)
    then show ?thesis using observe_pane_in_mode_ok [OF ok r] by simp
  next
    case (stale det)
    have "\<not> dt_write_ready det"
      using \<open>retain_stale _ _ _ _ _ = _\<close> stale(3) by (auto simp: retain_stale_def Let_def stale_not_safe split: option.splits if_splits)
    moreover have "barrier_ok b"
      using retain_stale_ok [OF ok, of "pi_pane i" "pi_in_mode i" "pi_foreground i" "pi_manifest_id i"]
        \<open>retain_stale _ _ _ _ _ = _\<close> by simp
    moreover have "\<exists>r. observe_pane E rt i = Some (r, ?rt\<lparr>rt_barrier := b\<rparr>) \<and> or_detection r = det"
      unfolding observe_pane_def Let_def if_not_P [OF stale(1)] if_P [OF stale(2)] \<open>retain_stale _ _ _ _ _ = _\<close> stale(3)
      by simp
    ultimately show ?thesis by auto
  next
    case none
    then have "observe_pane E rt i = observe_pane_fresh E ?rt i ?m ?need ?prior"
      unfolding observe_pane_def Let_def if_not_P [OF none(1)] if_P [OF none(2)] stale by simp
    then show ?thesis using fresh by (simp add: ready_verdict_def)
  next
    case taken
    then have "observe_pane E rt i = observe_pane_fresh E ?rt i ?m ?need ?prior"
      unfolding observe_pane_def Let_def if_not_P [OF taken(1)] if_not_P [OF taken(2)] by simp
    then show ?thesis using fresh by (simp add: ready_verdict_def)
  qed
qed

theorem ready_verdict_is_read_on_screen_witness:
  "barrier_ok (rt_barrier sample_runtime)
   \<and> (\<exists>r rt'. observe_pane sample_env sample_runtime (sample_input ''> '' True) = Some (r, rt')
        \<and> dt_write_ready (or_detection r) \<and> read_on_screen sample_env (sample_input ''> '' True)
        \<and> cached_ready rt' (sample_input ''> '' True) (or_detection r))"
proof -
  have ok: "barrier_ok (rt_barrier sample_runtime)" by (simp add: sample_runtime_def barrier_new_ok)
  obtain r rt' where r: "observe_pane sample_env sample_runtime (sample_input ''> '' True) = Some (r, rt')"
    "dt_write_ready (or_detection r) \<longrightarrow> read_on_screen sample_env (sample_input ''> '' True)
       \<and> cached_ready rt' (sample_input ''> '' True) (or_detection r)"
    using ready_verdict_is_read_on_screen [OF ok, of sample_env "sample_input ''> '' True"] by blast
  have "is_some_and (observe_pane sample_env sample_runtime (sample_input ''> '' True)) (\<lambda>(r, rt). dt_write_ready (or_detection r))"
    by code_simp
  then have "dt_write_ready (or_detection r)" unfolding r(1) by simp
  then show ?thesis using ok r by blast
qed

section \<open>Where a refusal or a rule is lost\<close>

text \<open>
  The refusal of a capture that another process may have painted is written on the verdict before
  the commit, and the commit stamps the verdict again from its sensors: the refusal never reaches
  the cache, and a clean frame whose processes changed around the capture is published as ready.
\<close>

lemma stamped_refused: "stamped (refused d r) m h = stamped d m h"
proof -
  have sp: "screen_proves_write_safe_composer (refused d r) = screen_proves_write_safe_composer d"
    by (simp add: screen_proves_write_safe_composer_def refused_def)
  then have wp: "working_composer_proven (refused d r) = working_composer_proven d"
    by (simp add: working_composer_proven_def refused_def)
  then have "conflicting_evidence (refused d r) = conflicting_evidence d"
    by (simp add: conflicting_evidence_def detection_simps)
  then have "base_write_ready (refused d r) = base_write_ready d"
    using sp wp by (simp add: base_write_ready_def detection_simps)
  then show ?thesis by (simp add: stamped_def with_write_block_def refused_def Let_def split: sum.splits)
qed

theorem capture_refusal_is_lost:
  "is_some_and (observe_pane sample_env sample_runtime (sample_input ''> '' False))
     (\<lambda>(r, rt). dt_write_ready (or_detection r) \<and> dt_write_block (or_detection r) = None)"
  by code_simp

text \<open>
  A manifest is handed an escaped capture when a rule has a clause on escaped lines or asks for an
  unstyled screen, but not for the paired clauses on escaped text: such a rule matches the screen
  when it is given both captures, and never fires in an observation.
\<close>

definition paired_manifest :: "string manifest" where
  "paired_manifest = sample_manifest
     [screen_rule ''done'' SIdle None (no_clauses\<lparr>cm_regex := [''DONE''], cm_regex_esc := [''DONE'']\<rparr>)]"

theorem paired_clauses_never_see_escapes:
  "screen_winner_esc literal_regex paired_manifest ''DONE'' (Some ''DONE'') = Some 0
   \<and> (let (screen, esc) = capture_screens paired_manifest ''DONE'' ''DONE''
      in screen_winner_esc literal_regex paired_manifest screen esc = None)"
  by code_simp

end
