(* ===== verification/Attention.thy ===== *)
theory Attention
  imports Agent_State Mailbox_Views
begin

text \<open>
  The attention register (\<open>cyclops-proto/src/attention.rs\<close>): which panes and deliveries need a human
  now, kept from snapshots and live events, the key under which each item stands, and the eye that
  every surface draws from the count.
\<close>

section \<open>The rule\<close>

definition delivery_needs_human :: "delivery_state \<Rightarrow> bool" where
  "delivery_needs_human s = (s \<in> {DAttentionRequired, DParkedBlockedQuota})"

definition agent_states :: "agent_state list" where
  "agent_states = [SUnknown, SIdle, SIdleWithInput, SWorking, SBlockedModal, SBlockedPermission, SBlockedQuota, SDead]"

text \<open>Deserializing a state is the inverse of its snake case name.\<close>

definition agent_state_from :: "string \<Rightarrow> agent_state option" where
  "agent_state_from name = List.find (\<lambda>s. agent_state_name s = name) agent_states"

definition gate_cause_needs_human :: "string \<Rightarrow> bool" where
  "gate_cause_needs_human cause =
     (let named = (case split_once (CHR '':'') cause of Some (head, rest) \<Rightarrow> head | None \<Rightarrow> cause) in
      named = ''blocked'' \<or> is_some_and (agent_state_from named) is_blocked)"

definition agent_key :: "string \<Rightarrow> string option \<Rightarrow> string" where
  "agent_key target pane_id = (case pane_id of Some p \<Rightarrow> p | None \<Rightarrow> target)"

section \<open>Keys and items\<close>

datatype delivery_recipient_identity = ExactRecipient recipient_key | LegacyLabel string

text \<open>The derived order: an exact recipient comes before a label.\<close>

instantiation delivery_recipient_identity :: linorder
begin

definition less_eq_delivery_recipient_identity :: "delivery_recipient_identity \<Rightarrow> delivery_recipient_identity \<Rightarrow> bool" where
  "less_eq_delivery_recipient_identity a b =
     (case (a, b) of
        (ExactRecipient x, ExactRecipient y) \<Rightarrow> x \<le> y
      | (ExactRecipient x, LegacyLabel l) \<Rightarrow> True
      | (LegacyLabel l, ExactRecipient x) \<Rightarrow> False
      | (LegacyLabel l, LegacyLabel k) \<Rightarrow> l \<le> k)"

definition less_delivery_recipient_identity :: "delivery_recipient_identity \<Rightarrow> delivery_recipient_identity \<Rightarrow> bool" where
  "less_delivery_recipient_identity a b = (a \<le> b \<and> \<not> b \<le> (a :: delivery_recipient_identity))"

instance
  by standard
    (auto simp: less_eq_delivery_recipient_identity_def less_delivery_recipient_identity_def
      split: delivery_recipient_identity.splits)

end

type_synonym delivery_key = "delivery_recipient_identity \<times> string"

type_synonym delivery_rows = "(delivery_key, string \<times> delivery_state) btree_map"

datatype attention_key = AgentKey string | DeliveryKey delivery_recipient_identity string

datatype attention_item =
    AgentItem string string agent_state
  | DeliveryItem delivery_recipient_identity string string delivery_state

datatype clearance = ClearanceMoved | ClearancePaneGone

record resolved =
  rs_was :: attention_item
  rs_how :: clearance

definition identity_from_parts :: "recipient_key option \<Rightarrow> string \<Rightarrow> delivery_recipient_identity" where
  "identity_from_parts recipient label =
     (case recipient of Some k \<Rightarrow> ExactRecipient k | None \<Rightarrow> LegacyLabel label)"

definition identity_of :: "open_delivery \<Rightarrow> delivery_recipient_identity" where
  "identity_of d = identity_from_parts (od_recipient d) (od_to d)"

fun item_name :: "attention_item \<Rightarrow> string" where
  "item_name (AgentItem pane name state) = name"
| "item_name (DeliveryItem recipient to_label mid state) = to_label"

fun item_identity :: "attention_item \<Rightarrow> attention_key" where
  "item_identity (AgentItem pane name state) = AgentKey pane"
| "item_identity (DeliveryItem recipient to_label mid state) = DeliveryKey recipient mid"

text \<open>The name, the half (panes first) and the identity.\<close>

fun item_sort_key :: "attention_item \<Rightarrow> string \<times> nat \<times> string" where
  "item_sort_key (AgentItem pane name state) = (name, 0, pane)"
| "item_sort_key (DeliveryItem recipient to_label mid state) = (to_label, 1, mid)"

fun item_needs_human :: "attention_item \<Rightarrow> bool" where
  "item_needs_human (AgentItem pane name state) = is_blocked state"
| "item_needs_human (DeliveryItem recipient to_label mid state) = delivery_needs_human state"

section \<open>The register\<close>

record attention =
  at_agents :: "(string, string \<times> agent_state) btree_map"
  at_deliveries :: delivery_rows
  at_mailbox :: delivery_rows
  at_union :: delivery_rows

record pane_snapshot =
  sp_pane_id :: string
  sp_name :: string
  sp_state :: agent_state

definition attention_default :: attention where
  "attention_default = \<lparr>at_agents = [], at_deliveries = [], at_mailbox = [], at_union = []\<rparr>"

definition bt_remove :: "'k \<Rightarrow> ('k, 'v) btree_map \<Rightarrow> ('k, 'v) btree_map" where
  "bt_remove k m = filter (\<lambda>(k', v). k' \<noteq> k) m"

definition bt_collect :: "('k::linorder \<times> 'v) list \<Rightarrow> ('k, 'v) btree_map" where
  "bt_collect kvs = fold (\<lambda>(k, v). bt_insert k v) kvs []"

definition is_exact :: "delivery_recipient_identity \<Rightarrow> bool" where
  "is_exact r = (case r of ExactRecipient k \<Rightarrow> True | LegacyLabel l \<Rightarrow> False)"

definition keyed :: "open_delivery list \<Rightarrow> delivery_rows" where
  "keyed rows =
     bt_collect (map (\<lambda>d. ((identity_of d, od_id d), (od_to d, od_state d)))
       (filter (\<lambda>d. delivery_needs_human (od_state d)) rows))"

text \<open>The exact rows that carry a label for a message.\<close>

definition exact_rows :: "delivery_rows \<Rightarrow> string \<Rightarrow> string \<Rightarrow> delivery_recipient_identity list" where
  "exact_rows rows label mid =
     map (\<lambda>((r, i), v). r)
       (filter (\<lambda>((r, i), (row_label, s)). i = mid \<and> row_label = label \<and> is_exact r) rows)"

text \<open>Both halves by key, the mailbox over the ledger, without the label rows that one exact row stands for.\<close>

definition union_of :: "delivery_rows \<Rightarrow> delivery_rows \<Rightarrow> delivery_rows" where
  "union_of deliveries mailbox =
     (let both = fold (\<lambda>(k, v). bt_insert k v) mailbox deliveries in
      filter (\<lambda>((r, mid), v).
        case r of
          LegacyLabel label \<Rightarrow> length (exact_rows both label mid) \<noteq> 1
        | ExactRecipient k \<Rightarrow> True) both)"

definition rebuild_union :: "attention \<Rightarrow> attention" where
  "rebuild_union a = a\<lparr>at_union := union_of (at_deliveries a) (at_mailbox a)\<rparr>"

definition snapshot_agents :: "attention \<Rightarrow> pane_snapshot list \<Rightarrow> attention" where
  "snapshot_agents a panes =
     a\<lparr>at_agents := bt_collect (map (\<lambda>p. (sp_pane_id p, (sp_name p, sp_state p))) panes)\<rparr>"

definition snapshot_deliveries :: "attention \<Rightarrow> open_delivery list \<Rightarrow> attention" where
  "snapshot_deliveries a rows = rebuild_union (a\<lparr>at_deliveries := keyed rows\<rparr>)"

text \<open>One key that the mailbox no longer carries, on the ledger's rows.\<close>

definition drop_absent ::
  "delivery_rows \<Rightarrow> delivery_rows \<Rightarrow> delivery_key \<times> string \<times> delivery_state \<Rightarrow> delivery_rows \<Rightarrow> delivery_rows" where
  "drop_absent mailbox nxt row deliveries =
     (case row of
        (key, label, st) \<Rightarrow>
          if bt_get nxt key \<noteq> None then deliveries
          else
            (let deliveries = bt_remove key deliveries in
             if is_exact (fst key)
                \<and> \<not> list_ex (\<lambda>((r, i), (row_label, s)). r \<noteq> fst key \<and> is_exact r \<and> i = snd key \<and> row_label = label)
                      (mailbox @ deliveries)
             then bt_remove (LegacyLabel label, snd key) deliveries
             else deliveries))"

definition snapshot_mailbox :: "attention \<Rightarrow> open_delivery list \<Rightarrow> attention" where
  "snapshot_mailbox a rows =
     (let nxt = keyed rows in
      rebuild_union (a\<lparr>at_deliveries := fold (drop_absent (at_mailbox a) nxt) (at_mailbox a) (at_deliveries a),
                       at_mailbox := nxt\<rparr>))"

definition unique_exact_in :: "delivery_rows \<Rightarrow> string \<Rightarrow> string \<Rightarrow> delivery_recipient_identity option" where
  "unique_exact_in rows label mid = (case exact_rows rows label mid of [r] \<Rightarrow> Some r | _ \<Rightarrow> None)"

definition resolve :: "attention \<Rightarrow> recipient_key option \<Rightarrow> string \<Rightarrow> string \<Rightarrow> delivery_key" where
  "resolve a recipient to_label mid =
     (case recipient of
        Some k \<Rightarrow> (ExactRecipient k, mid)
      | None \<Rightarrow>
          (case unique_exact_in (at_union a) to_label mid of
             Some r \<Rightarrow> (r, mid)
           | None \<Rightarrow> (LegacyLabel to_label, mid)))"

definition key_for :: "attention \<Rightarrow> recipient_key option \<Rightarrow> string \<Rightarrow> string \<Rightarrow> attention_key" where
  "key_for a recipient to_label mid = (case resolve a recipient to_label mid of (r, i) \<Rightarrow> DeliveryKey r i)"

definition observe_agent ::
  "attention \<Rightarrow> string \<Rightarrow> string option \<Rightarrow> agent_state \<Rightarrow> resolved option \<times> attention" where
  "observe_agent a target pane_id state =
     (let key = agent_key target pane_id;
          a' = a\<lparr>at_agents := bt_insert key (target, state) (at_agents a)\<rparr>
      in case bt_get (at_agents a) key of
           Some (name, was) \<Rightarrow>
             if is_blocked was \<and> \<not> is_blocked state
             then (Some \<lparr>rs_was = AgentItem key name was, rs_how = ClearanceMoved\<rparr>, a')
             else (None, a')
         | None \<Rightarrow> (None, a'))"

definition forget_agent :: "attention \<Rightarrow> string \<Rightarrow> resolved option \<times> attention" where
  "forget_agent a pane_id =
     (let a' = a\<lparr>at_agents := bt_remove pane_id (at_agents a)\<rparr> in
      case bt_get (at_agents a) pane_id of
        Some (name, was) \<Rightarrow>
          if is_blocked was
          then (Some \<lparr>rs_was = AgentItem pane_id name was, rs_how = ClearancePaneGone\<rparr>, a')
          else (None, a')
      | None \<Rightarrow> (None, a'))"

definition observe_delivery ::
  "attention \<Rightarrow> string \<Rightarrow> recipient_key option \<Rightarrow> string option \<Rightarrow> delivery_state \<Rightarrow> resolved option \<times> attention" where
  "observe_delivery a to_label recipient mid state =
     (let key = resolve a recipient to_label (case mid of Some i \<Rightarrow> i | None \<Rightarrow> []) in
      if delivery_needs_human state
      then (None, rebuild_union (a\<lparr>at_deliveries := bt_insert key (to_label, state) (at_deliveries a)\<rparr>))
      else
        (let a' = rebuild_union (a\<lparr>at_deliveries := bt_remove key (at_deliveries a)\<rparr>) in
         case bt_get (at_deliveries a) key of
           Some (label, was) \<Rightarrow>
             (Some \<lparr>rs_was = DeliveryItem (fst key) label (snd key) was, rs_how = ClearanceMoved\<rparr>, a')
         | None \<Rightarrow> (None, a')))"

section \<open>Questions\<close>

definition clearance_of :: "attention \<Rightarrow> attention_key \<Rightarrow> clearance option" where
  "clearance_of a key =
     (case key of
        AgentKey pane_id \<Rightarrow>
          (case bt_get (at_agents a) pane_id of
             Some (name, s) \<Rightarrow> if is_blocked s then None else Some ClearanceMoved
           | None \<Rightarrow> Some ClearancePaneGone)
      | DeliveryKey r mid \<Rightarrow>
          if bt_get (at_union a) (r, mid) \<noteq> None then None else Some ClearanceMoved)"

definition attention_holds :: "attention \<Rightarrow> attention_key \<Rightarrow> bool" where
  "attention_holds a key = (clearance_of a key = None)"

definition attention_count :: "attention \<Rightarrow> nat" where
  "attention_count a = length (filter (\<lambda>(name, s). is_blocked s) (bt_values (at_agents a))) + length (at_union a)"

definition attention_items :: "attention \<Rightarrow> attention_item list" where
  "attention_items a =
     sort_key item_sort_key
       (map (\<lambda>(pane, (name, s)). AgentItem pane name s) (filter (\<lambda>(pane, (name, s)). is_blocked s) (at_agents a))
        @ map (\<lambda>((r, mid), (to_label, s)). DeliveryItem r to_label mid s) (at_union a))"

section \<open>The eye\<close>

datatype eye = EyeClosed | EyeOpening | EyeOpen

definition eye_for_count :: "nat \<Rightarrow> eye" where
  "eye_for_count n = (if n = 0 then EyeClosed else if n = 1 then EyeOpening else EyeOpen)"

definition step_toward :: "eye \<Rightarrow> eye \<Rightarrow> eye" where
  "step_toward e target =
     (case (e, target) of
        (EyeClosed, EyeOpen) \<Rightarrow> EyeOpening
      | (EyeOpen, EyeClosed) \<Rightarrow> EyeOpening
      | _ \<Rightarrow> target)"

definition attention_eye :: "attention \<Rightarrow> eye" where
  "attention_eye a = eye_for_count (attention_count a)"

end
