(* ===== verification/Attention_Properties.thy ===== *)
theory Attention_Properties
  imports Attention
begin

text \<open>
  What a surface may rely on when it draws the attention register: the count and the list answer the
  same question, the item that ends is handed back, and a label never merges two recipients. Ordered
  maps are read through their lookups; the register invariant is kept by every call.
\<close>

section \<open>Ordered maps\<close>

lemma bt_get_remove [simp, map_simps]: "bt_get (bt_remove k m) k' = (if k' = k then None else bt_get m k')"
  unfolding bt_get_def bt_remove_def by (induction m) auto

lemma bt_ok_filter [simp, intro]: "bt_ok m \<Longrightarrow> bt_ok (filter P m)"
  by (simp add: bt_ok_def sorted_wrt_map sorted_wrt_filter)

lemma bt_ok_remove [simp, intro]: "bt_ok m \<Longrightarrow> bt_ok (bt_remove k m)"
  by (simp add: bt_remove_def)

lemma bt_get_filter:
  assumes "bt_ok m"
  shows "bt_get (filter P m) k = Some v \<longleftrightarrow> bt_get m k = Some v \<and> P (k, v)"
  using assms by (auto simp: bt_get_iff)

lemma bt_ok_inserts [simp, intro]: "bt_ok m \<Longrightarrow> bt_ok (fold (\<lambda>(k, v). bt_insert k v) kvs m)"
  by (induction kvs arbitrary: m) auto

lemma bt_get_inserts:
  assumes "bt_ok kvs"
  shows "bt_get (fold (\<lambda>(k, v). bt_insert k v) kvs m) k
    = (case bt_get kvs k of Some v \<Rightarrow> Some v | None \<Rightarrow> bt_get m k)"
  using bt_ok_distinct [OF assms]
proof (induction kvs arbitrary: m)
  case (Cons kv kvs)
  obtain k' v' where kv: "kv = (k', v')" by (cases kv)
  with Cons.prems have "bt_get kvs k' = None" by (simp add: bt_get_def map_of_eq_None_iff)
  moreover have "bt_get (kv # kvs) k = (if k = k' then Some v' else bt_get kvs k)"
    by (simp add: kv bt_get_def)
  ultimately show ?case
    using Cons.IH [of "bt_insert k' v' m"] Cons.prems by (auto simp: kv split: option.splits)
qed simp

lemma bt_distinct_keys:
  assumes "bt_ok m" "inj f"
  shows "distinct (map (f \<circ> fst) m)"
  using bt_ok_distinct [OF assms(1)] inj_on_subset [OF assms(2) subset_UNIV]
  by (simp add: distinct_map flip: map_map)

lemma bt_inserts_subset:
  "set (fold (\<lambda>(k, v). bt_insert k v) kvs m) \<subseteq> set kvs \<union> set m"
proof (induction kvs arbitrary: m)
  case (Cons kv kvs)
  obtain k v where kv: "kv = (k, v)" by (cases kv)
  have "set (bt_insert k v m) \<subseteq> insert (k, v) (set m)" by (induction k v m rule: bt_insert.induct) auto
  with Cons [of "bt_insert k v m"] show ?case by (auto simp: kv)
qed simp

lemma option_eq_by_Some: "(\<And>v. x = Some v \<longleftrightarrow> y = Some v) \<Longrightarrow> x = y"
  by (cases x; cases y) auto

section \<open>The invariant of the register\<close>

definition rows_ok :: "delivery_rows \<Rightarrow> bool" where
  "rows_ok rows = (bt_ok rows \<and> list_all (\<lambda>(key, (label, s)). delivery_needs_human s) rows)"

definition register_ok :: "attention \<Rightarrow> bool" where
  "register_ok a =
     (bt_ok (at_agents a) \<and> rows_ok (at_deliveries a) \<and> rows_ok (at_mailbox a)
      \<and> at_union a = union_of (at_deliveries a) (at_mailbox a))"

lemma rows_ok_filter [simp, intro]: "rows_ok rows \<Longrightarrow> rows_ok (filter P rows)"
  by (auto simp: rows_ok_def list_all_iff)

lemma rows_ok_remove [simp, intro]: "rows_ok rows \<Longrightarrow> rows_ok (bt_remove k rows)"
  by (simp add: bt_remove_def)

lemma rows_ok_inserts:
  assumes "rows_ok rows" "list_all (\<lambda>(key, (label, s)). delivery_needs_human s) kvs"
  shows "rows_ok (fold (\<lambda>(k, v). bt_insert k v) kvs rows)"
  using assms bt_inserts_subset [of kvs rows] by (fastforce simp: rows_ok_def list_all_iff)

lemma rows_ok_insert [intro]:
  "\<lbrakk>rows_ok rows; delivery_needs_human s\<rbrakk> \<Longrightarrow> rows_ok (bt_insert key (label, s) rows)"
  using rows_ok_inserts [of rows "[(key, (label, s))]"] by simp

lemma rows_ok_keyed [simp, intro]: "rows_ok (keyed rows)"
  unfolding keyed_def bt_collect_def by (rule rows_ok_inserts) (auto simp: rows_ok_def list_all_iff)

lemma rows_ok_union [simp, intro]: "\<lbrakk>rows_ok d; rows_ok m\<rbrakk> \<Longrightarrow> rows_ok (union_of d m)"
  unfolding union_of_def Let_def by (rule rows_ok_filter, rule rows_ok_inserts) (auto simp: rows_ok_def)

lemma rows_ok_drop_absent [simp, intro]: "rows_ok d \<Longrightarrow> rows_ok (drop_absent m nxt row d)"
  by (auto simp: drop_absent_def Let_def split: prod.splits)

lemma rows_ok_drop_all: "rows_ok d \<Longrightarrow> rows_ok (fold (drop_absent m nxt) rows d)"
  by (induction rows arbitrary: d) auto

lemma register_ok_rebuild [intro]:
  "\<lbrakk>bt_ok (at_agents a); rows_ok (at_deliveries a); rows_ok (at_mailbox a)\<rbrakk> \<Longrightarrow> register_ok (rebuild_union a)"
  by (simp add: register_ok_def rebuild_union_def)

datatype attention_call =
    SnapshotAgents "pane_snapshot list"
  | SnapshotDeliveries "open_delivery list"
  | SnapshotMailbox "open_delivery list"
  | ObserveAgent string "string option" agent_state
  | ForgetAgent string
  | ObserveDelivery string "recipient_key option" "string option" delivery_state

fun attend :: "attention_call \<Rightarrow> attention \<Rightarrow> attention" where
  "attend (SnapshotAgents panes) a = snapshot_agents a panes"
| "attend (SnapshotDeliveries rows) a = snapshot_deliveries a rows"
| "attend (SnapshotMailbox rows) a = snapshot_mailbox a rows"
| "attend (ObserveAgent target pane s) a = snd (observe_agent a target pane s)"
| "attend (ForgetAgent pane) a = snd (forget_agent a pane)"
| "attend (ObserveDelivery to_label r mid s) a = snd (observe_delivery a to_label r mid s)"

definition attend_all :: "attention_call list \<Rightarrow> attention" where
  "attend_all calls = fold attend calls attention_default"

lemma observe_agent_after:
  "snd (observe_agent a target pane s)
   = a\<lparr>at_agents := bt_insert (agent_key target pane) (target, s) (at_agents a)\<rparr>"
  by (simp add: observe_agent_def Let_def split: option.splits prod.splits)

lemma forget_agent_after: "snd (forget_agent a pane) = a\<lparr>at_agents := bt_remove pane (at_agents a)\<rparr>"
  by (simp add: forget_agent_def Let_def split: option.splits prod.splits)

lemma observe_delivery_after:
  "snd (observe_delivery a to_label r mid s)
   = (let key = resolve a r to_label (case mid of Some i \<Rightarrow> i | None \<Rightarrow> []) in
      rebuild_union (a\<lparr>at_deliveries :=
        (if delivery_needs_human s then bt_insert key (to_label, s) (at_deliveries a)
         else bt_remove key (at_deliveries a))\<rparr>))"
  by (simp add: observe_delivery_def Let_def split: option.splits prod.splits)

lemmas call_after = observe_agent_after forget_agent_after observe_delivery_after

lemma register_ok_attend: "register_ok a \<Longrightarrow> register_ok (attend c a)"
  by (cases c)
    (auto simp: call_after Let_def snapshot_agents_def snapshot_deliveries_def snapshot_mailbox_def
      bt_collect_def register_ok_def rebuild_union_def intro: rows_ok_drop_all)

lemma register_ok_all: "register_ok (attend_all calls)"
proof -
  have "register_ok a \<Longrightarrow> register_ok (fold attend calls a)" for a
    by (induction calls arbitrary: a) (auto intro: register_ok_attend)
  then show ?thesis
    by (auto simp: attend_all_def register_ok_def attention_default_def union_of_def rows_ok_def)
qed

lemma register_ok_maps [dest]:
  assumes "register_ok a"
  shows "bt_ok (at_agents a)" "bt_ok (at_deliveries a)" "bt_ok (at_mailbox a)" "rows_ok (at_union a)"
    "bt_ok (at_union a)"
  using assms rows_ok_union [of "at_deliveries a" "at_mailbox a"] by (auto simp: register_ok_def rows_ok_def)

section \<open>Count, list and clearance\<close>

definition agent_items :: "attention \<Rightarrow> attention_item list" where
  "agent_items a =
     map (\<lambda>(pane, (name, s)). AgentItem pane name s) (filter (\<lambda>(pane, (name, s)). is_blocked s) (at_agents a))"

definition delivery_items :: "attention \<Rightarrow> attention_item list" where
  "delivery_items a = map (\<lambda>((r, mid), (to_label, s)). DeliveryItem r to_label mid s) (at_union a)"

lemma attention_items_parts: "attention_items a = sort_key item_sort_key (agent_items a @ delivery_items a)"
  by (simp add: attention_items_def agent_items_def delivery_items_def)

lemma listed_agent:
  assumes "register_ok a"
  shows "AgentItem pane name s \<in> set (attention_items a)
    \<longleftrightarrow> bt_get (at_agents a) pane = Some (name, s) \<and> is_blocked s"
  using register_ok_maps(1) [OF assms]
  by (auto simp: attention_items_parts agent_items_def delivery_items_def bt_get_iff image_iff)

lemma listed_delivery:
  assumes "register_ok a"
  shows "DeliveryItem r to_label mid s \<in> set (attention_items a)
    \<longleftrightarrow> bt_get (at_union a) (r, mid) = Some (to_label, s)"
  using register_ok_maps(5) [OF assms]
  by (force simp: attention_items_parts agent_items_def delivery_items_def bt_get_iff image_iff)

lemma distinct_identities:
  assumes "register_ok a"
  shows "distinct (map item_identity (attention_items a))"
proof -
  have agents: "distinct (map item_identity (agent_items a))"
  proof -
    have "map item_identity (agent_items a)
        = map (AgentKey \<circ> fst) (filter (\<lambda>(pane, (name, s)). is_blocked s) (at_agents a))"
      by (auto simp: agent_items_def)
    then show ?thesis
      using register_ok_maps(1) [OF assms] by (simp only:) (rule bt_distinct_keys, auto simp: inj_def)
  qed
  have deliveries: "distinct (map item_identity (delivery_items a))"
  proof -
    have "map item_identity (delivery_items a) = map ((\<lambda>(r, mid). DeliveryKey r mid) \<circ> fst) (at_union a)"
      by (auto simp: delivery_items_def)
    then show ?thesis
      using register_ok_maps(5) [OF assms] by (simp only:) (rule bt_distinct_keys, auto simp: inj_def)
  qed
  have "set (map item_identity (agent_items a)) \<inter> set (map item_identity (delivery_items a)) = {}"
    by (auto simp: agent_items_def delivery_items_def)
  with agents deliveries have "distinct (map item_identity (agent_items a @ delivery_items a))" by simp
  then show ?thesis by (simp only: attention_items_parts distinct_map distinct_sort set_sort)
qed

lemma held_iff_listed:
  assumes "register_ok a"
  shows "attention_holds a key \<longleftrightarrow> (\<exists>item \<in> set (attention_items a). item_identity item = key)"
proof (cases key)
  case (AgentKey pane)
  have "(\<exists>item \<in> set (attention_items a). item_identity item = key)
      \<longleftrightarrow> (\<exists>name s. AgentItem pane name s \<in> set (attention_items a))"
    unfolding AgentKey by (metis attention_key.distinct(1) attention_key.inject(1) item_identity.elims item_identity.simps(1))
  then show ?thesis
    by (auto simp: listed_agent [OF assms] attention_holds_def clearance_of_def AgentKey split: option.splits)
next
  case (DeliveryKey r mid)
  have "(\<exists>item \<in> set (attention_items a). item_identity item = key)
      \<longleftrightarrow> (\<exists>label s. DeliveryItem r label mid s \<in> set (attention_items a))"
    unfolding DeliveryKey by (metis attention_key.distinct(1) attention_key.inject(2) item_identity.elims item_identity.simps(2))
  then show ?thesis
    by (auto simp: listed_delivery [OF assms] attention_holds_def clearance_of_def DeliveryKey)
qed

lemma listed_needs_human:
  assumes "register_ok a" "item \<in> set (attention_items a)"
  shows "item_needs_human item"
proof (cases item)
  case (AgentItem pane name s)
  then show ?thesis using assms by (simp add: listed_agent)
next
  case (DeliveryItem r label mid s)
  then have "((r, mid), (label, s)) \<in> set (at_union a)"
    using assms register_ok_maps(5) [OF assms(1)] by (simp add: listed_delivery bt_get_iff)
  then show ?thesis using register_ok_maps(4) [OF assms(1)] DeliveryItem by (auto simp: rows_ok_def list_all_iff)
qed

lemma count_is_length: "attention_count a = length (attention_items a)"
  by (simp add: attention_count_def attention_items_parts agent_items_def delivery_items_def bt_values_def
      filter_map o_def case_prod_unfold)

text \<open>C39.
  The eye tells the truth. After any sequence of snapshots and live events, the count is the number of
  listed items, the list names every item once, in the order of its sort key, each item still needs a
  human, a key is held exactly when the list has an item under it, and the eye is closed exactly when
  the list is empty.
\<close>

theorem register_tells_the_truth:
  fixes calls :: "attention_call list"
  defines "a \<equiv> attend_all calls"
  shows "attention_count a = length (attention_items a)
    \<and> distinct (map item_identity (attention_items a))
    \<and> sorted (map item_sort_key (attention_items a))
    \<and> list_all item_needs_human (attention_items a)
    \<and> (attention_holds a key \<longleftrightarrow> key \<in> set (map item_identity (attention_items a)))
    \<and> (attention_eye a = EyeClosed \<longleftrightarrow> attention_items a = [])"
proof -
  have ok: "register_ok a" unfolding a_def by (rule register_ok_all)
  have "sorted (map item_sort_key (attention_items a))" by (simp add: attention_items_parts)
  moreover have "list_all item_needs_human (attention_items a)"
    using listed_needs_human [OF ok] by (simp add: list_all_iff)
  moreover have "attention_holds a key \<longleftrightarrow> key \<in> set (map item_identity (attention_items a))"
    using held_iff_listed [OF ok] by auto
  moreover have "attention_eye a = EyeClosed \<longleftrightarrow> attention_items a = []"
    by (simp add: attention_eye_def eye_for_count_def count_is_length)
  ultimately show ?thesis using distinct_identities [OF ok] count_is_length by simp
qed

section \<open>Endings\<close>

lemma held_agent:
  "attention_holds a (AgentKey pane) \<longleftrightarrow> (\<exists>name s. bt_get (at_agents a) pane = Some (name, s) \<and> is_blocked s)"
  by (auto simp: attention_holds_def clearance_of_def split: option.splits)

lemma held_delivery: "attention_holds a (DeliveryKey r mid) \<longleftrightarrow> bt_get (at_union a) (r, mid) \<noteq> None"
  by (simp add: attention_holds_def clearance_of_def)

text \<open>
  The transition that ends a pane's alarm is handed back. In a register built by any calls, an observed
  state or the loss of a pane returns an item exactly when the pane was held before and is not held
  after it; the item is the one the list had, and it says how it ended: by a later state, or with the
  pane. Every other key is held as before.
\<close>

theorem ended_alarm_is_handed_back:
  fixes calls :: "attention_call list"
  defines "a \<equiv> attend_all calls"
  assumes "(c = ObserveAgent target pane s \<and> key = agent_key target pane \<and> out = fst (observe_agent a target pane s))
    \<or> (c = ForgetAgent key \<and> out = fst (forget_agent a key))"
  shows "(out \<noteq> None \<longleftrightarrow> attention_holds a (AgentKey key) \<and> \<not> attention_holds (attend c a) (AgentKey key))
    \<and> (\<forall>r. out = Some r \<longrightarrow> rs_was r \<in> set (attention_items a) \<and> item_identity (rs_was r) = AgentKey key
        \<and> clearance_of (attend c a) (AgentKey key) = Some (rs_how r))
    \<and> (\<forall>k. k \<noteq> AgentKey key \<longrightarrow> attention_holds (attend c a) k = attention_holds a k)"
proof -
  have ok: "register_ok a" unfolding a_def by (rule register_ok_all)
  have others: "attention_holds (attend c a) k = attention_holds a k" if "k \<noteq> AgentKey key" for k
    using assms(2) \<open>k \<noteq> AgentKey key\<close>
    by (cases k) (auto simp: held_agent held_delivery call_after)
  show ?thesis
  proof (cases "bt_get (at_agents a) key")
    case None
    with assms(2) others show ?thesis
      by (auto simp: held_agent observe_agent_def forget_agent_def Let_def)
  next
    case (Some row)
    obtain name was where "row = (name, was)" by (cases row)
    with Some have held: "attention_holds a (AgentKey key) \<longleftrightarrow> is_blocked was"
      and row: "bt_get (at_agents a) key = Some (name, was)"
      by (simp_all add: held_agent)
    have item: "AgentItem key name was \<in> set (attention_items a) \<longleftrightarrow> is_blocked was"
      by (simp add: listed_agent [OF ok] row)
    from assms(2) row have "(out \<noteq> None \<longleftrightarrow> is_blocked was \<and> \<not> attention_holds (attend c a) (AgentKey key))
      \<and> (\<forall>r. out = Some r \<longrightarrow> is_blocked was \<and> rs_was r = AgentItem key name was
          \<and> clearance_of (attend c a) (AgentKey key) = Some (rs_how r))"
      by (elim disjE conjE)
        (simp_all add: held_agent observe_agent_def forget_agent_def Let_def clearance_of_def)
    with held item others show ?thesis by simp
  qed
qed

theorem ended_alarm_is_handed_back_witness:
  defines "a \<equiv> attend_all [ObserveAgent ''%1'' (Some ''%1'') SBlockedModal]"
  shows "fst (observe_agent a ''reviewer'' (Some ''%1'') SIdle) \<noteq> None
    \<and> attention_holds a (AgentKey ''%1'')
    \<and> \<not> attention_holds (attend (ObserveAgent ''reviewer'' (Some ''%1'') SIdle) a) (AgentKey ''%1'')"
proof -
  have "fst (observe_agent a ''reviewer'' (Some ''%1'') SIdle) \<noteq> None" unfolding a_def by code_simp
  then show ?thesis
    using ended_alarm_is_handed_back
      [of "ObserveAgent ''reviewer'' (Some ''%1'') SIdle" "''reviewer''" "Some ''%1''" SIdle "''%1''" _
        "[ObserveAgent ''%1'' (Some ''%1'') SBlockedModal]", folded a_def]
    by (auto simp: agent_key_def)
qed

section \<open>Labels and recipients\<close>

text \<open>The exact recipients that carry a label for a message.\<close>

definition carriers :: "delivery_rows \<Rightarrow> string \<Rightarrow> string \<Rightarrow> delivery_recipient_identity set" where
  "carriers rows label mid = {r. is_exact r \<and> (\<exists>s. bt_get rows (r, mid) = Some (label, s))}"

lemma exact_rows_carriers:
  assumes "bt_ok rows"
  shows "set (exact_rows rows label mid) = carriers rows label mid" "distinct (exact_rows rows label mid)"
proof -
  show "set (exact_rows rows label mid) = carriers rows label mid"
    using assms by (force simp: exact_rows_def carriers_def bt_get_iff image_iff)
  let ?f = "filter (\<lambda>((r, i), (row_label, s)). i = mid \<and> row_label = label \<and> is_exact r) rows"
  have "map fst ?f = map (\<lambda>r. (r, mid)) (exact_rows rows label mid)"
    unfolding exact_rows_def by (induction rows) auto
  moreover have "distinct (map fst ?f)" using assms bt_ok_distinct by blast
  ultimately show "distinct (exact_rows rows label mid)" by (auto simp: distinct_map)
qed

lemma length_exact_rows: "bt_ok rows \<Longrightarrow> length (exact_rows rows label mid) = card (carriers rows label mid)"
  by (metis distinct_card exact_rows_carriers)

lemma unique_exact_iff:
  assumes "bt_ok rows"
  shows "unique_exact_in rows label mid = Some r \<longleftrightarrow> carriers rows label mid = {r}"
proof -
  have "unique_exact_in rows label mid = Some r \<longleftrightarrow> exact_rows rows label mid = [r]"
    by (auto simp: unique_exact_in_def split: list.splits)
  also have "\<dots> \<longleftrightarrow> carriers rows label mid = {r}"
    using exact_rows_carriers [OF assms, of label mid]
    by (metis distinct_card distinct.simps(2) distinct_singleton list.set(1,2) set_empty2 distinct_length_2_or_more
        insert_iff list.exhaust singletonD empty_iff list.set_intros(1))
  finally show ?thesis .
qed

text \<open>Both halves by key, before the twins are dropped.\<close>

definition both_rows :: "delivery_rows \<Rightarrow> delivery_rows \<Rightarrow> delivery_rows" where
  "both_rows d m = fold (\<lambda>(k, v). bt_insert k v) m d"

lemma both_rows_get:
  "bt_ok m \<Longrightarrow> bt_get (both_rows d m) k = (case bt_get m k of Some v \<Rightarrow> Some v | None \<Rightarrow> bt_get d k)"
  by (simp add: both_rows_def bt_get_inserts)

lemma union_get:
  assumes "bt_ok d" "bt_ok m"
  shows "bt_get (union_of d m) (r, mid)
    = (if \<exists>label. r = LegacyLabel label \<and> card (carriers (both_rows d m) label mid) = 1 then None
       else bt_get (both_rows d m) (r, mid))"
proof -
  have ok: "bt_ok (both_rows d m)" using assms by (simp add: both_rows_def)
  have "union_of d m = filter (\<lambda>((r, mid), v).
      case r of LegacyLabel label \<Rightarrow> card (carriers (both_rows d m) label mid) \<noteq> 1 | ExactRecipient k \<Rightarrow> True)
      (both_rows d m)"
    unfolding union_of_def Let_def both_rows_def [symmetric] length_exact_rows [OF ok] ..
  then have "bt_get (union_of d m) (r, mid) = Some v \<longleftrightarrow> bt_get (both_rows d m) (r, mid) = Some v
      \<and> (case r of LegacyLabel label \<Rightarrow> card (carriers (both_rows d m) label mid) \<noteq> 1 | ExactRecipient k \<Rightarrow> True)" for v
    by (simp add: bt_get_filter [OF ok])
  then show ?thesis by (intro option_eq_by_Some) (simp split: delivery_recipient_identity.split)
qed

lemma union_get_exact:
  "\<lbrakk>bt_ok d; bt_ok m; is_exact r\<rbrakk> \<Longrightarrow> bt_get (union_of d m) (r, mid) = bt_get (both_rows d m) (r, mid)"
  by (auto simp: union_get is_exact_def)

lemma carriers_union: "\<lbrakk>bt_ok d; bt_ok m\<rbrakk> \<Longrightarrow> carriers (union_of d m) label mid = carriers (both_rows d m) label mid"
  by (auto simp: carriers_def union_get_exact)

text \<open>A reference is the key it names, or the one exact row behind a label, or the label itself.\<close>

lemma resolve_cases:
  assumes "register_ok a"
  obtains
    (exact) k where "recipient = Some k" "resolve a recipient label mid = (ExactRecipient k, mid)"
  | (unique) r where "recipient = None" "carriers (at_union a) label mid = {r}" "resolve a recipient label mid = (r, mid)"
  | (label) "recipient = None" "card (carriers (at_union a) label mid) \<noteq> 1"
      "resolve a recipient label mid = (LegacyLabel label, mid)"
proof (cases recipient)
  case (Some k)
  then show ?thesis by (intro exact) (auto simp: resolve_def)
next
  case None
  note ok = register_ok_maps(5) [OF assms]
  show ?thesis
  proof (cases "unique_exact_in (at_union a) label mid")
    case (Some r)
    then show ?thesis using None by (intro unique) (auto simp: resolve_def unique_exact_iff [OF ok, symmetric])
  next
    case no: None
    then have "carriers (at_union a) label mid \<noteq> {r}" for r by (metis option.distinct(1) unique_exact_iff [OF ok])
    then have "card (carriers (at_union a) label mid) \<noteq> 1" by (meson card_1_singletonE)
    then show ?thesis using None no by (intro label) (auto simp: resolve_def)
  qed
qed

lemma observe_delivery_rows:
  fixes a :: attention and label mid :: string and s :: delivery_state and recipient :: "recipient_key option"
  assumes "register_ok a" and key: "resolve a recipient label mid = key"
  defines "a' \<equiv> snd (observe_delivery a label recipient (Some mid) s)"
  shows "at_mailbox a' = at_mailbox a"
    and "bt_get (at_deliveries a') k
      = (if k = key then if delivery_needs_human s then Some (label, s) else None else bt_get (at_deliveries a) k)"
    and "register_ok a'"
  using register_ok_attend [OF assms(1), of "ObserveDelivery label recipient (Some mid) s"]
  by (simp_all add: a'_def observe_delivery_after Let_def rebuild_union_def key)

text \<open>C40.
  An alarm is never lost behind a label. In a register built by any calls, a delivery event changes no
  row of an exact recipient but the one its reference names, and when two recipients carry the label it
  changes neither; when the event asks for a human, the same reference still names the same key
  afterwards and the register holds it.
\<close>

theorem label_never_merges_recipients:
  fixes calls :: "attention_call list" and label mid :: string and recipient :: "recipient_key option"
    and s :: delivery_state
  defines "a \<equiv> attend_all calls"
  defines "a' \<equiv> attend (ObserveDelivery label recipient (Some mid) s) a"
  shows "(\<forall>k i. (ExactRecipient k, i) \<noteq> resolve a recipient label mid \<longrightarrow>
      bt_get (at_union a') (ExactRecipient k, i) = bt_get (at_union a) (ExactRecipient k, i))
    \<and> (recipient = None \<and> card (carriers (at_union a) label mid) > 1 \<longrightarrow>
      (\<forall>k i. bt_get (at_union a') (ExactRecipient k, i) = bt_get (at_union a) (ExactRecipient k, i)))
    \<and> (delivery_needs_human s \<longrightarrow>
      key_for a' recipient label mid = key_for a recipient label mid
      \<and> attention_holds a' (key_for a' recipient label mid))"
proof -
  have ok: "register_ok a" unfolding a_def by (rule register_ok_all)
  note rows = observe_delivery_rows [OF ok refl, of label recipient mid s, folded attend.simps(6), folded a'_def]
  let ?key = "resolve a recipient label mid"
  have union: "at_union a = union_of (at_deliveries a) (at_mailbox a)"
    "at_union a' = union_of (at_deliveries a') (at_mailbox a')"
    using ok rows(3) by (simp_all add: register_ok_def)
  note maps = register_ok_maps(2,3) [OF ok] register_ok_maps(2,3) [OF rows(3)]
  have both: "bt_get (both_rows (at_deliveries a') (at_mailbox a')) k
      = (if k = ?key \<and> bt_get (at_mailbox a) k = None then if delivery_needs_human s then Some (label, s) else None
         else bt_get (both_rows (at_deliveries a) (at_mailbox a)) k)" for k
    using maps by (auto simp: both_rows_get rows split: option.splits)
  have others: "bt_get (at_union a') (ExactRecipient k, i) = bt_get (at_union a) (ExactRecipient k, i)"
    if "(ExactRecipient k, i) \<noteq> ?key" for k i
    using \<open>(ExactRecipient k, i) \<noteq> ?key\<close> maps by (simp add: union union_get_exact is_exact_def both)
  have carriers: "carriers (at_union x) label mid = carriers (both_rows (at_deliveries x) (at_mailbox x)) label mid"
    if "x = a \<or> x = a'" for x
    using \<open>x = a \<or> x = a'\<close> maps union carriers_union by auto
  have alarm: "resolve a' recipient label mid = ?key \<and> bt_get (at_union a') ?key \<noteq> None" if "delivery_needs_human s"
    using ok
  proof (cases rule: resolve_cases [of a recipient label mid])
    case (exact k)
    then show ?thesis
      using \<open>delivery_needs_human s\<close> maps
      by (auto simp: resolve_def union union_get_exact is_exact_def both both_rows_get)
  next
    case (unique r)
    then have r: "is_exact r" by (auto simp: carriers_def)
    have here: "r' \<in> carriers (at_union a) label mid \<longleftrightarrow> r' = r" for r' using unique(2) by simp
    have "r' \<in> carriers (at_union a') label mid \<longleftrightarrow> r' = r" for r'
      using here [of r'] here [of r] \<open>delivery_needs_human s\<close> r
      unfolding carriers [OF disjI1 [OF refl]] carriers [OF disjI2 [OF refl]]
      unfolding carriers_def mem_Collect_eq both unique(3) by auto
    then have "carriers (at_union a') label mid = {r}" by blast
    then show ?thesis
      using unique \<open>delivery_needs_human s\<close> maps r register_ok_maps(5) [OF rows(3)]
      by (auto simp: resolve_def unique_exact_iff [symmetric] union union_get_exact both both_rows_get)
  next
    case label
    have "carriers (at_union a') label mid = carriers (at_union a) label mid"
      unfolding carriers [OF disjI1 [OF refl]] carriers [OF disjI2 [OF refl]]
      unfolding carriers_def both label(3) by (auto simp: is_exact_def)
    note same = this label
    have "resolve a' recipient label mid = ?key"
      using rows(3) by (cases rule: resolve_cases [of a' recipient label mid]) (use same in auto)
    moreover have "card (carriers (both_rows (at_deliveries a') (at_mailbox a')) label mid) \<noteq> 1"
      using same carriers [of a'] by simp
    then have "bt_get (at_union a') ?key \<noteq> None"
      using \<open>delivery_needs_human s\<close> maps by (auto simp: union union_get both both_rows_get label(3))
    ultimately show ?thesis by simp
  qed
  have "\<forall>k i. bt_get (at_union a') (ExactRecipient k, i) = bt_get (at_union a) (ExactRecipient k, i)"
    if "recipient = None" "card (carriers (at_union a) label mid) > 1"
    using ok
  proof (cases rule: resolve_cases [of a recipient label mid])
    case label
    then show ?thesis using others by auto
  qed (use \<open>recipient = None\<close> \<open>card (carriers (at_union a) label mid) > 1\<close> in auto)
  then show ?thesis using others alarm by (auto simp: key_for_def held_delivery split: prod.splits)
qed

definition sample_open :: "recipient_key option \<Rightarrow> open_delivery" where
  "sample_open r = \<lparr>od_id = ''m1'', od_to = ''worker'', od_recipient = r, od_state = DAttentionRequired,
     od_ts = 0, od_cause = None, od_attempt_id = None\<rparr>"

definition shared_label :: "attention_call list" where
  "shared_label = [SnapshotMailbox [sample_open (Some (key_admin 1)), sample_open (Some (key_admin 2))]]"

theorem label_never_merges_recipients_witness:
  defines "a \<equiv> attend_all shared_label"
  shows "card (carriers (at_union a) ''worker'' ''m1'') > 1
    \<and> (\<forall>k i. bt_get (at_union (attend (ObserveDelivery ''worker'' None (Some ''m1'') DDeliveredVerified) a)) (ExactRecipient k, i)
          = bt_get (at_union a) (ExactRecipient k, i))
    \<and> attention_holds (attend (ObserveDelivery ''worker'' None (Some ''m1'') DAttentionRequired) a)
        (key_for a None ''worker'' ''m1'')"
proof -
  have "length (exact_rows (at_union a) ''worker'' ''m1'') = 2" unfolding a_def by code_simp
  moreover have "bt_ok (at_union a)" unfolding a_def by (rule register_ok_maps(5) [OF register_ok_all])
  ultimately have "card (carriers (at_union a) ''worker'' ''m1'') > 1" by (simp add: length_exact_rows)
  then show ?thesis
    using label_never_merges_recipients [where calls = shared_label and recipient = None and label = "''worker''" and mid = "''m1''" and s = DDeliveredVerified, folded a_def]
      label_never_merges_recipients [where calls = shared_label and recipient = None and label = "''worker''" and mid = "''m1''" and s = DAttentionRequired, folded a_def]
    by (auto simp: delivery_needs_human_def)
qed

text \<open>
  A live event ends the ledger's row and reports the alarm as cleared, although the mailbox half still
  carries the same key and the register goes on holding it.
\<close>

lemma clearance_reported_while_held:
  "let a = attend_all [SnapshotMailbox [sample_open (Some (key_admin 1))], SnapshotDeliveries [sample_open (Some (key_admin 1))]];
       (out, a') = observe_delivery a ''worker'' (Some (key_admin 1)) (Some ''m1'') DQueued
   in out \<noteq> None \<and> attention_holds a' (DeliveryKey (ExactRecipient (key_admin 1)) ''m1'')"
  by code_simp

end
