(* ===== verification/Spec2Isabelle.thy ===== *)
theory Spec2Isabelle
  imports Projection_Properties Attempt_Properties Store_Properties View_Properties Service_Properties
    Wire_Properties Deadlock Lifecycle_Properties Tmux_Properties Observation_Properties
    Attention_Properties
begin

text \<open>
  \<^bold>\<open>cyclops: the durable messaging core\<close>

  Cyclops runs coding agents in tmux panes and lets them and an administrator write to each
  other. The daemon \<open>cyclopsd\<close> keeps one journal per workspace (a file of JSON lines), builds the
  mailboxes from it, and wakes a recipient by typing a doorbell into its pane. This library models
  that core in Rust's terms and proves what its users rely on: nothing acknowledged is lost, a
  message is claimed once, a pane is never written to twice without proof, and the views tell the
  truth about the state.

  \<^bold>\<open>Parts of the program and the theories that model them\<close>

  \<^item> \<open>Cyclops_Prelude\<close>: Rust's \<open>Result\<close>, \<open>HashMap\<close>, \<open>HashSet\<close>, \<open>BTreeMap\<close>, checked and
    saturating integers, string operations; the interfaces \<open>map_interface\<close> and \<open>canonical_codec\<close>.
  \<^item> \<open>Identity\<close> (\<open>cyclops-proto/src/identity.rs\<close>), \<open>Message_Types\<close> (\<open>mailbox.rs\<close>),
    \<open>Notification_Types\<close> (\<open>notification.rs\<close>, \<open>ledger.rs\<close>), \<open>Doorbell\<close> (the texts typed into a
    pane and the attempt ids in them): the data of the journal and of the wire.
  \<^item> \<open>Directory\<close> (\<open>cyclopsd/src/mailbox/directory.rs\<close>): who can be written to, under which label.
  \<^item> \<open>Mailbox_State\<close>, \<open>Message_Rows\<close>, \<open>Notification_Rows\<close>, \<open>Resolution_Rows\<close>, \<open>Projection\<close>
    (\<open>cyclopsd/src/mailbox/projection.rs\<close>): the projection, the validators of each kind of journal
    row, the commit of a prepared row, and replay. A line is validated against the projection
    (\<open>prepare_line_inner\<close>) and then committed (\<open>commit_line\<close>); a commit that would unwrap a
    missing value is the error \<open>Panicked\<close>.
  \<^item> \<open>Mailbox_Views\<close> (same file): alarms, mailbox lists, \<open>messages.snapshot\<close>, \<open>messages.follow\<close>,
    attention rows and blocked wakes, with the row types of \<open>wire.rs\<close>.
  \<^item> \<open>Ledger_File\<close> (\<open>cyclops-ledger/src/lib.rs\<close>): the journal file, torn tails, failing writes,
    sealing; the interfaces \<open>durable_log\<close> and \<open>recoverable_log\<close>.
  \<^item> \<open>Store\<close> (\<open>cyclopsd/src/mailbox/store.rs\<close>): every operation of the message store, each one
    validate, append, commit; and recovery after a restart.
  \<^item> \<open>Deadlock\<close> (\<open>cyclopsd/src/deadlock.rs\<close>): the diagnosis of an agent that waits in its own pane.
  \<^item> \<open>Service\<close> (\<open>cyclopsd/src/mailbox/service.rs\<close>): the operations the daemon serves, each one step
    under the store lock: directory lookups, sending, replying, claiming, scheduling and reopening
    wakes, receipts, operator commands, redaction; and the change events it publishes.
  \<^item> \<open>Notification_Adapter\<close> (\<open>cyclopsd/src/notification_adapter.rs\<close>): what a delivery worker
    records about its attempt, on the same store and publisher.
  \<^item> \<open>Utf8\<close>: the string operations of the standard library that look at characters.
  \<^item> \<open>Turn_Key\<close> and \<open>Hook_Lifecycle\<close> (\<open>cyclopsd/src/turnkey.rs\<close>, \<open>hook_lifecycle.rs\<close>): which turn a
    hook event names, and the store of starts and stops that wait for later screen evidence.
  \<^item> \<open>Tmux_Notify\<close> and \<open>Tmux_Control\<close> (\<open>cyclops-tmux/src/notify.rs\<close>, \<open>control.rs\<close>, \<open>quote.rs\<close>): the
    control connection to tmux as a record: lines and notifications, reply blocks, the bounded
    queue of notifications with its continuity gap, the command pipe and its reply slots, the
    resume worker and the reader. What a task does between two awaits is one step.
  \<^item> \<open>Agent_State\<close> (\<open>cyclops-proto/src/state.rs\<close>): what the sensors read, the hold on a composer, and
    the verdict whether a pane may be written to.
  \<^item> \<open>Pane_Rules\<close> (\<open>cyclops-manifest/src/lib.rs\<close>, \<open>cyclopsd/src/fusion.rs\<close>): the rules of a manifest on
    one capture, the winners of the two tiers and their fusion.
  \<^item> \<open>Turn_Ends\<close> (\<open>turnkey.rs\<close>): the bounded store of turn ends, with the one a hold waits on pinned;
    the interface \<open>turn_end_store\<close>.
  \<^item> \<open>Hook_Reading\<close>, \<open>Composer_Barrier\<close> and \<open>Pane_Observation\<close> (\<open>cyclopsd/src/fusion.rs\<close>): the hook
    sensor; the cache of verdicts with its holds, owners and turns; and one whole observation of a
    pane. What the terminal and the process table answered is the input of an observation.
  \<^item> \<open>Attention\<close> (\<open>cyclops-proto/src/attention.rs\<close>): the register of what needs a human and the eye.

  \<^bold>\<open>What the lemmas show\<close>

  \<^item> \<open>Projection_Steps\<close> turns the validators into the step relation \<open>legal\<close>; \<open>Mailbox_Invariant\<close>
    and \<open>Attempt_Invariant\<close> prove the two halves of the invariant of the projection over it;
    \<open>Projection_Spec\<close> states the interface \<open>log_machine\<close> (state built from a log) and interprets
    it on the projection; \<open>Attempt_Life\<close> and \<open>Journal_Order\<close> draw the consequences for one
    attempt and for whole journals; \<open>Post_Office\<close> is the abstract specification, letters driven by
    the events the rows stand for, with the interface \<open>event_refinement\<close> interpreted on the
    projection. The properties are in \<open>Projection_Properties\<close> and \<open>Attempt_Properties\<close>.
  \<^item> \<open>Store_Invariant\<close>, \<open>Store_Recovery\<close>, \<open>Store_Service\<close> and \<open>Store_Answers\<close> follow the store
    through failing writes, crashes at any byte and restarts: at all times its projection is the
    replay of the durable lines. The properties are in \<open>Store_Properties\<close>.
  \<^item> \<open>Mailbox_View_Laws\<close> and \<open>Notification_Queue\<close> show what the views say of a replayed
    projection; the properties are in \<open>View_Properties\<close>. \<open>Wire_Properties\<close> and \<open>Deadlock\<close> hold
    those of the text forms and of the diagnosis.
  \<^item> \<open>Service_Laws\<close> shows that each store operation appends at most one line and which areas it
    touches; \<open>Service_Run\<close> makes requests and worker steps one step relation with its invariant;
    \<open>Service_Queue\<close> follows the notification queue and the write boundary. The properties are in
    \<open>Service_Properties\<close>.
  \<^item> \<open>Lifecycle_Laws\<close> reads the candidate store as a function from pane, kind and turn to an edge
    and shows that every operation keeps edges or adds one; \<open>Lifecycle_Run\<close> follows runs of calls
    and accounts for generations; \<open>Lifecycle_Choice\<close> shows what is chosen. The properties are in
    \<open>Lifecycle_Properties\<close>.
  \<^item> \<open>Tmux_Laws\<close> proves the invariant of a connection over all interleavings of its tasks;
    \<open>Tmux_Stream\<close> compares its streams with what they carry. The properties are in
    \<open>Tmux_Properties\<close>.
  \<^item> \<open>Barrier_Laws\<close> makes the calls on the cache one step function with its invariant and says when a
    hold may end; \<open>Barrier_Run\<close> follows, through runs of calls, the frame behind a verdict and the way
    of a hold from staged text to its release. The properties are in
    \<open>Barrier_Properties\<close> and, for whole observations, in \<open>Observation_Properties\<close>; both also show
    where a refusal or a hold is forgotten.
  \<^item> \<open>Attention_Properties\<close> proves the invariant of the register over all its calls.
  \<^item> \<open>Sample_Journal\<close>, \<open>Sample_Run\<close> and \<open>Sample_Codec\<close> evaluate a concrete journal and give
    concrete instances of the parameters, on which the witnesses run.

  \<^bold>\<open>Parameters and bounds\<close>

  Code outside the repository is an argument. The record \<open>extern\<close> holds the text form of UUIDs
  (\<open>uuid_laws\<close>: printing and parsing are inverse), the JSON bytes of a digest payload and SHA-256,
  of which nothing is assumed. \<open>line_codec\<close> is serde's encoding of a journal line; \<open>codec_laws\<close>
  says that it reads back what it wrote and writes no control characters. \<open>append_io\<close> is the
  operating system's answer to a write: any prefix of the bytes may have reached the file.
  Sequence numbers, times and counters are natural numbers with the 64-bit checks of the source
  written out; a counter the source increments once per stored object is not bounded again. A
  \<open>HashMap\<close> is an association list whose order stands for the unspecified iteration order. Loops
  are structural recursions or folds over finite data; the one unbounded loop, drawing fresh
  message ids, takes the stream of random draws as a list and is shown to end when it holds a free
  id. No definition uses fuel; the count of \<open>drain_terminal_candidates\<close> is the limit of the code.

  \<^bold>\<open>Not modelled\<close>

  The delivery engine (timers, tmux commands and evidence gathering), the server with its sessions,
  the command line and the terminal interface: they are I/O around the modelled core. Of the pane
  observation, finding a process by its arguments, the recheck timers, the projection of the
  composer and the rows of a status answer; the locks of one observation are taken as one step.
  Of the manifests, reading TOML and wiring hooks; the regex engine is a parameter of which nothing
  is assumed. Of the attention register, the drawn texts. Of the tmux client, starting and reaping
  the process, command timeouts (a late reply still consumes its slot) and spool files; closing the
  pipe is one step. Handing out the shared store and publisher handles of the service is not
  modelled; the adapter's steps act on the service's state directly.\<close>

end
